(* ===== verification/Prelude.thy ===== *)
theory Prelude
  imports Main "HOL-Library.Word" "HOL-Library.Char_ord" "HOL-Library.List_Lexorder"
begin

text \<open>
  Shared vocabulary of the development: the types that stand for Python values, the exceptions
  of the program, the sum type as the "returns or raises" monad, a few Python built-ins
  (\<open>str.strip\<close>, \<open>str.lower\<close>, \<open>str.startswith\<close>, \<open>bytes.hex\<close>, \<open>bytes.fromhex\<close>), and the simp
  collections that carry the component proofs.

  \<^item> \<open>bytes\<close> is a list of 8-bit words.
  \<^item> A Python \<open>str\<close> is a HOL \<open>string\<close> holding its UTF-8 encoding, one \<open>char\<close> per byte.
    All protocol texts (hashes, addresses, keys, identifiers) are ASCII, where one \<open>char\<close> is one
    code point; a text with a byte \<open>\<ge> 128\<close> is a non-ASCII \<open>str\<close>.
  \<^item> Python's unbounded \<open>int\<close> is \<open>int\<close>.
\<close>

unbundle bit_operations_syntax

section \<open>Types\<close>

type_synonym byte = "8 word"
type_synonym bytes = "byte list"

text \<open>
  The exception classes, each with its message. Every class below \<open>ValidationError\<close> is a subclass
  of it in the source; the transparency classes are subclasses of \<open>TransparencyLogError\<close>.
\<close>

datatype error =
    ValidationError string
  | WireSizeError string
  | BinaryV3Error string
  | ProtocolV3Error string
  | ProofBundleV3Error string
  | ArchiveSegmentV3Error string
  | GenesisManifestV3Error string
  | TransparencyLogError string
  | RootVerificationError string
  | InclusionProofError string
  | OperatorPolicyViolationError string
  | ConsistencyProofError string
  | MirrorDisagreementError string
  | ConsistencyUnavailableError string
  | KeyRotationError string
  | KeyRevocationError string
  | LogServerError string
  | PyTypeError string
  | PyValueError string

type_synonym 'a res = "error + 'a"

text \<open>The message of an exception, Python's \<open>str(exc)\<close>.\<close>

fun error_text :: "error \<Rightarrow> string" where
  "error_text (ValidationError m) = m"
| "error_text (WireSizeError m) = m"
| "error_text (BinaryV3Error m) = m"
| "error_text (ProtocolV3Error m) = m"
| "error_text (ProofBundleV3Error m) = m"
| "error_text (ArchiveSegmentV3Error m) = m"
| "error_text (GenesisManifestV3Error m) = m"
| "error_text (TransparencyLogError m) = m"
| "error_text (RootVerificationError m) = m"
| "error_text (InclusionProofError m) = m"
| "error_text (OperatorPolicyViolationError m) = m"
| "error_text (ConsistencyProofError m) = m"
| "error_text (MirrorDisagreementError m) = m"
| "error_text (ConsistencyUnavailableError m) = m"
| "error_text (KeyRotationError m) = m"
| "error_text (KeyRevocationError m) = m"
| "error_text (LogServerError m) = m"
| "error_text (PyTypeError m) = m"
| "error_text (PyValueError m) = m"

text \<open>What \<open>except ValidationError\<close> catches: the class and its subclasses.\<close>

fun is_validation_error :: "error \<Rightarrow> bool" where
  "is_validation_error (ValidationError m) = True"
| "is_validation_error (WireSizeError m) = True"
| "is_validation_error (BinaryV3Error m) = True"
| "is_validation_error (ProtocolV3Error m) = True"
| "is_validation_error (ProofBundleV3Error m) = True"
| "is_validation_error (ArchiveSegmentV3Error m) = True"
| "is_validation_error (GenesisManifestV3Error m) = True"
| "is_validation_error e = False"

section \<open>Collections\<close>

named_theorems res_simps \<open>inversion of results\<close>
named_theorems reads_intros \<open>which bytes a reader consumes\<close>
named_theorems exact_intros \<open>readers that accept canonical bytes only\<close>

section \<open>Returning or raising\<close>

definition bindE :: "'e + 'a \<Rightarrow> ('a \<Rightarrow> 'e + 'b) \<Rightarrow> 'e + 'b" where
  "bindE m f = (case m of Inl e \<Rightarrow> Inl e | Inr x \<Rightarrow> f x)"

text \<open>\<open>if not c: raise e\<close>.\<close>

definition ensure :: "bool \<Rightarrow> 'e \<Rightarrow> 'e + unit" where
  "ensure c e = (if c then Inr () else Inl e)"

text \<open>\<open>try: m except ...: raise e\<close>, for a handler that catches everything.\<close>

definition or_raise :: "'e + 'a \<Rightarrow> ('e \<Rightarrow> 'e) \<Rightarrow> 'e + 'a" where
  "or_raise m h = (case m of Inl e \<Rightarrow> Inl (h e) | Inr x \<Rightarrow> Inr x)"

fun mapE :: "('a \<Rightarrow> 'e + 'b) \<Rightarrow> 'a list \<Rightarrow> 'e + 'b list" where
  "mapE f [] = Inr []"
| "mapE f (x # xs) = bindE (f x) (\<lambda>y. bindE (mapE f xs) (\<lambda>ys. Inr (y # ys)))"

fun foldE :: "('s \<Rightarrow> 'a \<Rightarrow> 'e + 's) \<Rightarrow> 's \<Rightarrow> 'a list \<Rightarrow> 'e + 's" where
  "foldE f s [] = Inr s"
| "foldE f s (x # xs) = bindE (f s x) (\<lambda>s'. foldE f s' xs)"

text \<open>\<open>b"".join((e1, e2, ...))\<close> where building an element may raise.\<close>

fun joinE :: "('e + 'a list) list \<Rightarrow> 'e + 'a list" where
  "joinE [] = Inr []"
| "joinE (p # ps) = bindE p (\<lambda>b. bindE (joinE ps) (\<lambda>bs. Inr (b @ bs)))"

definition is_ok :: "'e + 'a \<Rightarrow> bool" where
  "is_ok m = (case m of Inl _ \<Rightarrow> False | Inr _ \<Rightarrow> True)"

lemma bindE_simps [simp]:
  "bindE (Inl e) f = Inl e"
  "bindE (Inr x) f = f x"
  by (simp_all add: bindE_def)

lemma bindE_assoc: "bindE (bindE m f) g = bindE m (\<lambda>x. bindE (f x) g)"
  by (cases m) simp_all

lemma bindE_return [simp]: "bindE m Inr = m"
  by (cases m) simp_all

lemma bindE_Inr_iff [res_simps]: "bindE m f = Inr y \<longleftrightarrow> (\<exists>x. m = Inr x \<and> f x = Inr y)"
  by (cases m) simp_all

lemma Inr_bindE_iff [res_simps]: "Inr y = bindE m f \<longleftrightarrow> (\<exists>x. m = Inr x \<and> f x = Inr y)"
  by (cases m) auto

lemma bindE_cong [fundef_cong]:
  "m = m' \<Longrightarrow> (\<And>x. m' = Inr x \<Longrightarrow> f x = f' x) \<Longrightarrow> bindE m f = bindE m' f'"
  by (cases m') simp_all

lemma ensure_simps [simp]: "ensure True e = Inr ()" "ensure False e = Inl e"
  by (simp_all add: ensure_def)

lemma ensure_Inr_iff [res_simps]: "ensure c e = Inr u \<longleftrightarrow> c"
  by (simp add: ensure_def)

lemma or_raise_simps [simp]: "or_raise (Inl e) h = Inl (h e)" "or_raise (Inr x) h = Inr x"
  by (simp_all add: or_raise_def)

lemma or_raise_Inr_iff [res_simps]: "or_raise m h = Inr x \<longleftrightarrow> m = Inr x"
  by (cases m) simp_all

lemma if_Inl_Inr_iff [res_simps]:
  "(if c then Inl e else r) = Inr y \<longleftrightarrow> \<not> c \<and> r = Inr y"
  "(if c then r else Inl e) = Inr y \<longleftrightarrow> c \<and> r = Inr y"
  by simp_all

lemma is_ok_simps [simp]: "is_ok (Inr x)" "\<not> is_ok (Inl e)"
  by (simp_all add: is_ok_def)

lemma is_ok_iff: "is_ok m \<longleftrightarrow> (\<exists>x. m = Inr x)"
  by (cases m) simp_all

lemma not_is_ok_iff: "\<not> is_ok m \<longleftrightarrow> (\<exists>e. m = Inl e)"
  by (cases m) simp_all

lemma mapE_cong [fundef_cong]:
  "xs = ys \<Longrightarrow> (\<And>x. x \<in> set ys \<Longrightarrow> f x = g x) \<Longrightarrow> mapE f xs = mapE g ys"
  by (induction ys arbitrary: xs) simp_all

lemma mapE_Inr_iff: "mapE f xs = Inr ys \<longleftrightarrow> list_all2 (\<lambda>x y. f x = Inr y) xs ys"
  by (induction xs arbitrary: ys) (auto simp: res_simps list_all2_Cons1)

lemma mapE_map_Inr: "(\<And>x. x \<in> set xs \<Longrightarrow> f x = Inr (g x)) \<Longrightarrow> mapE f xs = Inr (map g xs)"
  by (induction xs) simp_all

lemma foldE_append: "foldE f s (xs @ ys) = bindE (foldE f s xs) (\<lambda>s'. foldE f s' ys)"
  by (induction xs arbitrary: s) (simp_all add: bindE_assoc)

lemma foldE_invariant:
  assumes "foldE f s xs = Inr s'" and "I s"
    and "\<And>s x t. x \<in> set xs \<Longrightarrow> I s \<Longrightarrow> f s x = Inr t \<Longrightarrow> I t"
  shows "I s'"
  using assms by (induction xs arbitrary: s) (auto simp: res_simps)

lemma joinE_Nil_iff [res_simps]: "joinE [] = Inr bs \<longleftrightarrow> bs = []"
  by auto

lemma joinE_Cons_iff [res_simps]:
  "joinE (p # ps) = Inr bs \<longleftrightarrow> (\<exists>b c. p = Inr b \<and> joinE ps = Inr c \<and> bs = b @ c)"
  by (auto simp: res_simps)

lemma joinE_append: "joinE (ps @ qs) = bindE (joinE ps) (\<lambda>b. bindE (joinE qs) (\<lambda>c. Inr (b @ c)))"
  by (induction ps) (auto simp: bindE_def split: sum.splits)

lemma joinE_size:
  assumes "joinE ps = Inr bs" and "\<And>p b. p \<in> set ps \<Longrightarrow> p = Inr b \<Longrightarrow> length b \<le> n"
  shows "length bs \<le> n * length ps"
  using assms
proof (induction ps arbitrary: bs)
  case (Cons p ps)
  from Cons.prems(1) obtain b c where "p = Inr b" "joinE ps = Inr c" "bs = b @ c"
    by (auto simp: bindE_Inr_iff)
  moreover from Cons.prems(2) [of p b] calculation have "length b \<le> n" by simp
  moreover have "length c \<le> n * length ps"
    by (rule Cons.IH) (use calculation Cons.prems(2) in auto)
  ultimately show ?case by simp
qed simp

section \<open>Characters and bytes\<close>

definition byte_of_char :: "char \<Rightarrow> byte" where
  "byte_of_char c = word_of_nat (of_char c)"

definition char_of_byte :: "byte \<Rightarrow> char" where
  "char_of_byte b = char_of (unat b)"

text \<open>The bytes of a text: \<open>str.encode("ascii")\<close> on ASCII, \<open>str.encode("utf-8")\<close> in general.\<close>

definition utf8 :: "string \<Rightarrow> bytes" where
  "utf8 s = map byte_of_char s"

definition text_of :: "bytes \<Rightarrow> string" where
  "text_of bs = map char_of_byte bs"

definition code :: "char \<Rightarrow> nat" where
  "code c = of_char c"

definition is_ascii :: "string \<Rightarrow> bool" where
  "is_ascii s = list_all (\<lambda>c. code c < 128) s"

definition ascii_bytes :: "bytes \<Rightarrow> bool" where
  "ascii_bytes bs = list_all (\<lambda>b. b < 128) bs"

lemma code_less [simp]: "code c < 256"
  unfolding code_def by (cases c) (auto split: if_splits)

lemma char_of_byte_of_char [simp]: "char_of_byte (byte_of_char c) = c"
  using code_less [of c] unfolding code_def
  by (simp add: char_of_byte_def byte_of_char_def unat_of_nat)

lemma byte_of_char_of_byte [simp]: "byte_of_char (char_of_byte b) = b"
proof -
  have "unat b < 256" using unsigned_less [of b, where ?'a = nat] by simp
  then show ?thesis by (simp add: char_of_byte_def byte_of_char_def)
qed

lemma byte_of_char_inject [simp]: "byte_of_char c = byte_of_char d \<longleftrightarrow> c = d"
  by (metis char_of_byte_of_char)

lemma text_of_utf8 [simp]: "text_of (utf8 s) = s"
  by (simp add: text_of_def utf8_def comp_def)

lemma utf8_text_of [simp]: "utf8 (text_of bs) = bs"
  by (simp add: text_of_def utf8_def comp_def)

lemma utf8_inject [simp]: "utf8 s = utf8 t \<longleftrightarrow> s = t"
  by (metis text_of_utf8)

lemma length_utf8 [simp]: "length (utf8 s) = length s"
  by (simp add: utf8_def)

lemma length_text_of [simp]: "length (text_of bs) = length bs"
  by (simp add: text_of_def)

lemma utf8_append: "utf8 (s @ t) = utf8 s @ utf8 t"
  by (simp add: utf8_def)

lemma byte_of_small: "n < 256 \<Longrightarrow> unat (word_of_nat n :: byte) = n"
  by (simp add: unat_of_nat)

lemma ascii_bytes_utf8 [simp]: "ascii_bytes (utf8 s) = is_ascii s"
  by (auto simp: ascii_bytes_def is_ascii_def utf8_def list_all_iff byte_of_char_def code_def
      word_less_nat_alt unat_of_nat)

lemma is_ascii_text_of [simp]: "is_ascii (text_of bs) = ascii_bytes bs"
  using ascii_bytes_utf8 [of "text_of bs"] by simp

section \<open>Python string methods\<close>

text \<open>
  \<open>char.isspace\<close> on ASCII, and the smaller set that \<open>bytes.fromhex\<close> skips. \<open>strip\<close> and \<open>lower\<close> below are
  \<open>str.strip\<close> and \<open>str.lower\<close> on ASCII text: white space and letters outside ASCII are left as they are.
\<close>

definition is_space :: "char \<Rightarrow> bool" where
  "is_space c = (let n = code c in n = 32 \<or> (9 \<le> n \<and> n \<le> 13) \<or> (28 \<le> n \<and> n \<le> 31))"

definition is_hex_space :: "char \<Rightarrow> bool" where
  "is_hex_space c = (let n = code c in n = 32 \<or> (9 \<le> n \<and> n \<le> 13))"

definition strip :: "string \<Rightarrow> string" where
  "strip s = rev (dropWhile is_space (rev (dropWhile is_space s)))"

definition lower_char :: "char \<Rightarrow> char" where
  "lower_char c = (let n = code c in if 65 \<le> n \<and> n \<le> 90 then char_of (n + 32) else c)"

definition lower :: "string \<Rightarrow> string" where
  "lower s = map lower_char s"

definition startswith :: "string \<Rightarrow> string \<Rightarrow> bool" where
  "startswith s p = (take (length p) s = p)"

definition endswith :: "string \<Rightarrow> string \<Rightarrow> bool" where
  "endswith s p = (length p \<le> length s \<and> drop (length s - length p) s = p)"

lemma startswith_append [simp]: "startswith (p @ s) p"
  by (simp add: startswith_def)

lemma startswith_iff: "startswith s p \<longleftrightarrow> (\<exists>t. s = p @ t)"
  unfolding startswith_def by (metis append_eq_conv_conj append_take_drop_id)

lemma strip_id: "s = [] \<or> \<not> is_space (hd s) \<and> \<not> is_space (last s) \<Longrightarrow> strip s = s"
  by (cases s rule: rev_cases; cases s) (auto simp: strip_def hd_append neq_Nil_conv split: if_splits)

lemma strip_no_space: "list_all (\<lambda>c. \<not> is_space c) s \<Longrightarrow> strip s = s"
  by (rule strip_id) (auto simp: list_all_iff)

section \<open>Hexadecimal text\<close>

definition hex_digit :: "nat \<Rightarrow> char" where
  "hex_digit n = ''0123456789abcdef'' ! n"

definition hex_val :: "char \<Rightarrow> nat option" where
  "hex_val c = (let n = code c in
     if 48 \<le> n \<and> n \<le> 57 then Some (n - 48)
     else if 97 \<le> n \<and> n \<le> 102 then Some (n - 87)
     else if 65 \<le> n \<and> n \<le> 70 then Some (n - 55)
     else None)"

text \<open>\<open>bytes.hex()\<close>.\<close>

fun hex_text :: "bytes \<Rightarrow> string" where
  "hex_text [] = []"
| "hex_text (b # bs) = hex_digit (unat b div 16) # hex_digit (unat b mod 16) # hex_text bs"

text \<open>
  \<open>bytes.fromhex\<close>: white space between two bytes is skipped, both cases of a digit are read, and
  any other character, or half a byte, is a \<open>ValueError\<close>.
\<close>

fun fromhex :: "string \<Rightarrow> bytes option" where
  "fromhex [] = Some []"
| "fromhex (c # cs) = (if is_hex_space c then fromhex cs else
     (case cs of [] \<Rightarrow> None
      | d # ds \<Rightarrow> (case hex_val c of None \<Rightarrow> None
        | Some h \<Rightarrow> (case hex_val d of None \<Rightarrow> None
          | Some l \<Rightarrow> map_option (Cons (word_of_nat (16 * h + l))) (fromhex ds)))))"

text \<open>The text \<open>bytes.hex()\<close> writes: pairs of lower-case digits.\<close>

definition lower_hex :: "string \<Rightarrow> bool" where
  "lower_hex s = (even (length s) \<and> list_all (\<lambda>c. c \<in> set ''0123456789abcdef'') s)"

lemma below_16: "n < 16 \<Longrightarrow> list_all Q [0 ..< 16] \<Longrightarrow> Q n" for n :: nat
  by (simp add: list_all_iff)

lemma hex_val_digit [simp]: "n < 16 \<Longrightarrow> hex_val (hex_digit n) = Some n"
  by (erule below_16) (simp add: upt_rec hex_val_def hex_digit_def code_def)

lemma hex_digit_not_space [simp]: "n < 16 \<Longrightarrow> \<not> is_hex_space (hex_digit n)"
  by (erule below_16) (simp add: upt_rec is_hex_space_def hex_digit_def code_def)

lemma hex_digit_ascii [simp]: "n < 16 \<Longrightarrow> code (hex_digit n) < 128"
  by (erule below_16) (simp add: upt_rec hex_digit_def code_def)

lemma hex_digit_mem: "n < 16 \<Longrightarrow> hex_digit n \<in> set ''0123456789abcdef''"
  unfolding hex_digit_def by (rule nth_mem) simp

lemma hex_digit_lower [simp]: "n < 16 \<Longrightarrow> lower_char (hex_digit n) = hex_digit n"
  by (erule below_16) (simp add: upt_rec lower_char_def hex_digit_def code_def)

lemma byte_div_mod [simp]:
  "unat (b :: byte) div 16 < 16" "unat (b :: byte) mod 16 < 16"
  using unsigned_less [of b, where ?'a = nat] by simp_all

lemma byte_recombine: "word_of_nat (16 * (unat (b :: byte) div 16) + unat b mod 16) = b"
  by simp

lemma fromhex_hex_text [simp]: "fromhex (hex_text bs) = Some bs"
  by (induction bs) (simp_all del: of_nat_add of_nat_mult)

lemma length_hex_text [simp]: "length (hex_text bs) = 2 * length bs"
  by (induction bs) simp_all

lemma lower_hex_text [simp]: "lower (hex_text bs) = hex_text bs"
  by (induction bs) (simp_all add: lower_def)

lemma is_ascii_hex_text [simp]: "is_ascii (hex_text bs)"
  by (induction bs) (simp_all add: is_ascii_def)

lemma lower_hex_hex_text [simp]: "lower_hex (hex_text bs)"
proof -
  have "list_all (\<lambda>c. c \<in> set ''0123456789abcdef'') (hex_text bs)"
    by (induction bs) (simp_all only: hex_text.simps list.pred_inject hex_digit_mem byte_div_mod conj_absorb)
  then show ?thesis by (simp add: lower_hex_def)
qed

lemma hex_text_inject [simp]: "hex_text a = hex_text b \<longleftrightarrow> a = b"
  by (metis fromhex_hex_text option.inject)

lemma code_inject: "code c = code d \<longleftrightarrow> c = d"
  unfolding code_def by (metis char_of_char)

lemma code_hex_digit: "n < 16 \<Longrightarrow> code (hex_digit n) = (if n < 10 then n + 48 else n + 87)"
  by (erule below_16) (simp add: upt_rec hex_digit_def code_def)

lemma code_lower_char: "code (lower_char c) = (if 65 \<le> code c \<and> code c \<le> 90 then code c + 32 else code c)"
  by (simp add: lower_char_def code_def Let_def)

lemma hex_digit_hex_val:
  assumes "hex_val c = Some h"
  shows "h < 16" and "hex_digit h = lower_char c"
proof -
  have "h < 16 \<and> code (hex_digit h) = code (lower_char c)"
    using assms by (auto simp: hex_val_def Let_def code_lower_char code_hex_digit split: if_splits)
  then show "h < 16" and "hex_digit h = lower_char c" by (simp_all add: code_inject)
qed

lemma length_hex_alphabet: "length ''0123456789abcdef'' = 16"
  by simp

lemma lower_hex_digit:
  assumes "c \<in> set ''0123456789abcdef''"
  obtains n where "n < 16" and "c = hex_digit n"
  using assms unfolding in_set_conv_nth hex_digit_def by (metis length_hex_alphabet)

lemma lower_hex_iff: "lower_hex s \<longleftrightarrow> (\<exists>bs. s = hex_text bs)"
proof
  assume "lower_hex s"
  then show "\<exists>bs. s = hex_text bs"
  proof (induction s rule: induct_list012)
    case (3 c d s)
    then have cd: "c \<in> set ''0123456789abcdef''" "d \<in> set ''0123456789abcdef''"
      and "lower_hex s" by (simp_all only: lower_hex_def length_Cons list.pred_inject even_Suc) simp
    then obtain bs h l where "s = hex_text bs" "h < 16" "c = hex_digit h" "l < 16" "d = hex_digit l"
      using 3 by (metis lower_hex_digit)
    moreover from \<open>h < 16\<close> \<open>l < 16\<close> have "unat (word_of_nat (16 * h + l) :: byte) = 16 * h + l"
      by (simp add: unat_of_nat del: of_nat_add of_nat_mult)
    ultimately have "c # d # s = hex_text (word_of_nat (16 * h + l) # bs)" by simp
    then show ?case by blast
  qed (auto simp: lower_hex_def intro: exI [of _ "[]"])
qed auto

text \<open>Text without white space that \<open>fromhex\<close> accepts is the hex text of the result, up to case.\<close>

lemma fromhex_lower:
  assumes "fromhex s = Some bs" and "list_all (\<lambda>c. \<not> is_hex_space c) s"
  shows "hex_text bs = lower s"
  using assms
proof (induction s arbitrary: bs rule: fromhex.induct)
  case (2 c cs)
  then obtain d ds h l r where "cs = d # ds" "hex_val c = Some h" "hex_val d = Some l"
    "fromhex ds = Some r" "bs = word_of_nat (16 * h + l) # r"
    by (auto split: list.splits option.splits)
  moreover from this 2 have "hex_text r = lower ds" by auto
  moreover from calculation hex_digit_hex_val have "h < 16" "l < 16" by blast+
  moreover from this have "unat (word_of_nat (16 * h + l) :: byte) = 16 * h + l"
    by (simp add: unat_of_nat del: of_nat_add of_nat_mult)
  ultimately show ?case
    by (simp add: lower_def hex_digit_hex_val del: of_nat_add of_nat_mult)
qed (simp add: lower_def)

section \<open>Decimal text\<close>

fun nat_text :: "nat \<Rightarrow> string" where
  "nat_text n = (if n < 10 then [hex_digit n] else nat_text (n div 10) @ [hex_digit (n mod 10)])"

declare nat_text.simps [simp del]

text \<open>\<open>str(n)\<close>.\<close>

definition int_text :: "int \<Rightarrow> string" where
  "int_text n = (if n < 0 then CHR ''-'' # nat_text (nat (- n)) else nat_text (nat n))"

text \<open>The value of a run of decimal digits.\<close>

definition digits_value :: "string \<Rightarrow> nat" where
  "digits_value s = foldl (\<lambda>v c. 10 * v + (code c - 48)) 0 s"

definition is_digit :: "char \<Rightarrow> bool" where
  "is_digit c = (48 \<le> code c \<and> code c \<le> 57)"

lemma code_dec_digit: "n < 10 \<Longrightarrow> code (hex_digit n) = n + 48"
  using below_16 [of n "\<lambda>n. n < 10 \<longrightarrow> code (hex_digit n) = n + 48"]
  by (simp add: upt_rec hex_digit_def code_def)

lemma is_digit_hex_digit [simp]: "n < 10 \<Longrightarrow> is_digit (hex_digit n)"
  by (simp add: is_digit_def code_dec_digit)

lemma digits_value_append [simp]: "digits_value (s @ [c]) = 10 * digits_value s + (code c - 48)"
  by (simp add: digits_value_def)

lemma digits_value_single [simp]: "digits_value [c] = code c - 48"
  by (simp add: digits_value_def)

lemma digits_value_nat_text [simp]: "digits_value (nat_text n) = n"
proof (induction n rule: nat_text.induct)
  case (1 n)
  then show ?case by (subst nat_text.simps) (simp add: code_dec_digit)
qed

lemma nat_text_digits: "list_all is_digit (nat_text n)"
proof (induction n rule: nat_text.induct)
  case (1 n)
  then show ?case by (subst nat_text.simps) simp
qed

lemma nat_text_not_Nil [simp]: "nat_text n \<noteq> []"
  by (subst nat_text.simps) simp

lemma nat_text_inject [simp]: "nat_text m = nat_text n \<longleftrightarrow> m = n"
  by (metis digits_value_nat_text)

end
