(* ===== verification/Platform.thy ===== *)
theory Platform
  imports Prelude
begin

text \<open>
  What the program calls but does not contain. The hash, the base58 and Ed25519 packages, zlib,
  the system clock and the merkle-proof package are fields of one record that every definition
  using them takes as its first argument. What a theorem needs of them is a named hypothesis of
  this theory, each a documented fact of that code; \<open>toy_platform\<close> satisfies all of them, so the
  witnesses can instantiate the record.
\<close>

record platform =
  pf_sha3_256 :: "bytes \<Rightarrow> bytes"
  pf_b58encode :: "bytes \<Rightarrow> string"
  pf_ed_public :: "bytes \<Rightarrow> bytes"
  pf_ed_sign :: "bytes \<Rightarrow> bytes \<Rightarrow> bytes"
  pf_ed_verify :: "bytes \<Rightarrow> bytes \<Rightarrow> bytes \<Rightarrow> bool"
  pf_zlib_compress :: "bytes \<Rightarrow> bytes"
  pf_zlib_inflate :: "bytes \<Rightarrow> nat \<Rightarrow> (bytes \<times> bool \<times> bytes) option"
  pf_clock :: int
  pf_allow_untrusted_genesis :: bool
  pf_trusted_manifest_hashes :: "string list"

text \<open>
  \<open>pf_zlib_inflate data limit\<close> is what a fresh \<open>zlib.decompressobj()\<close> gives: the output of
  \<open>decompress(data, limit)\<close>, whether \<open>unconsumed_tail\<close> is non-empty, and what \<open>flush\<close> then
  returns; \<open>None\<close> when either call raises \<open>zlib.error\<close>. \<open>pf_clock\<close> is \<open>int(time.time())\<close>, one reading
  for the whole of a call. The last two fields are the node's configured genesis trust.
\<close>

text \<open>
  \<open>hash_ok\<close>: SHA3-256 digests have 32 bytes. \<open>b58_ok\<close>: \<open>base58.b58encode\<close> writes letters of its
  alphabet, at least 32 of them for 32 bytes and at most 6 for 4 bytes.
  \<open>ed_ok\<close>: key and signature sizes of Ed25519, and that a signature made with a seed verifies
  under its public key. Nothing is assumed about unforgeability or collisions.
\<close>

definition base58_alphabet :: string where
  "base58_alphabet = ''123456789ABCDEFGHJKLMNPQRSTUVWXYZabcdefghijkmnopqrstuvwxyz''"

definition hash_ok :: "platform \<Rightarrow> bool" where
  "hash_ok P = (\<forall>m. length (pf_sha3_256 P m) = 32)"

definition b58_ok :: "platform \<Rightarrow> bool" where
  "b58_ok P = (\<forall>m. set (pf_b58encode P m) \<subseteq> set base58_alphabet
     \<and> (length m = 32 \<longrightarrow> 32 \<le> length (pf_b58encode P m))
     \<and> (length m = 4 \<longrightarrow> length (pf_b58encode P m) \<le> 6))"

definition ed_ok :: "platform \<Rightarrow> bool" where
  "ed_ok P = (\<forall>seed m. length seed = 32 \<longrightarrow>
     length (pf_ed_public P seed) = 32 \<and> length (pf_ed_sign P seed m) = 64
     \<and> pf_ed_verify P (pf_ed_public P seed) (pf_ed_sign P seed m) m)"

text \<open>\<open>zlib_ok\<close>: what was compressed is decompressed whole when the limit leaves room for it.\<close>

definition zlib_ok :: "platform \<Rightarrow> bool" where
  "zlib_ok P = (\<forall>d limit. length d < limit \<longrightarrow> pf_zlib_inflate P (pf_zlib_compress P d) limit = Some (d, False, []))"

definition platform_ok :: "platform \<Rightarrow> bool" where
  "platform_ok P = (hash_ok P \<and> b58_ok P \<and> ed_ok P \<and> zlib_ok P)"

lemma hash_length [simp]: "hash_ok P \<Longrightarrow> length (pf_sha3_256 P m) = 32"
  by (simp add: hash_ok_def)

lemma platform_okD:
  assumes "platform_ok P"
  shows "hash_ok P" and "b58_ok P" and "ed_ok P" and "zlib_ok P"
  using assms by (simp_all add: platform_ok_def)

section \<open>An instance\<close>

text \<open>
  A platform small enough to evaluate: the digest sums the bytes with their positions, the
  signature is the digest of seed-derived key and message, twice.
\<close>

definition toy_hash :: "bytes \<Rightarrow> bytes" where
  "toy_hash m = (let s = foldl (\<lambda>a b. 3 * a + b + 1) 7 m in s # word_of_nat (length m) # replicate 30 s)"

definition toy_b58 :: "bytes \<Rightarrow> string" where
  "toy_b58 m = map (\<lambda>b. base58_alphabet ! (unat b mod 58)) m"

definition toy_platform :: platform where
  "toy_platform = \<lparr>pf_sha3_256 = toy_hash, pf_b58encode = toy_b58, pf_ed_public = (\<lambda>s. s),
     pf_ed_sign = (\<lambda>s m. toy_hash (s @ m) @ toy_hash (s @ m)),
     pf_ed_verify = (\<lambda>k s m. s = toy_hash (k @ m) @ toy_hash (k @ m)),
     pf_zlib_compress = (\<lambda>d. d), pf_zlib_inflate = (\<lambda>d limit. Some (take limit d, limit < length d, [])),
     pf_clock = 1800000000, pf_allow_untrusted_genesis = False, pf_trusted_manifest_hashes = []\<rparr>"

lemma toy_hash_ok [simp]: "hash_ok toy_platform"
  by (simp add: hash_ok_def toy_platform_def toy_hash_def Let_def)

lemma toy_b58_ok [simp]: "b58_ok toy_platform"
proof -
  have "base58_alphabet ! (n mod 58) \<in> set base58_alphabet" for n :: nat
    by (rule nth_mem) (simp add: base58_alphabet_def)
  then show ?thesis by (auto simp: b58_ok_def toy_platform_def toy_b58_def)
qed

lemma toy_ed_ok [simp]: "ed_ok toy_platform"
  by (simp add: ed_ok_def toy_platform_def toy_hash_def Let_def)

lemma toy_zlib_ok [simp]: "zlib_ok toy_platform"
  by (simp add: zlib_ok_def toy_platform_def)

lemma toy_platform_ok [simp]: "platform_ok toy_platform"
  by (simp add: platform_ok_def)

end
