(* ===== verification/Base85.thy ===== *)
theory Base85
  imports Prelude
begin

text \<open>
  \<open>base64.b85encode\<close> and \<open>base64.b85decode\<close> of the Python standard library, as far as the program
  uses them: the text form of keys and signatures. Positional notation (\<open>digits\<close>, \<open>digits_val\<close>)
  is shared by the two bases, 256 and 85.
\<close>

section \<open>Positional notation\<close>

fun digits :: "nat \<Rightarrow> nat \<Rightarrow> nat \<Rightarrow> nat list" where
  "digits B 0 n = []"
| "digits B (Suc k) n = digits B k (n div B) @ [n mod B]"

definition digits_val :: "nat \<Rightarrow> nat list \<Rightarrow> nat" where
  "digits_val B ds = foldl (\<lambda>a d. a * B + d) 0 ds"

lemma digits_val_snoc [simp]: "digits_val B (ds @ [d]) = digits_val B ds * B + d"
  by (simp add: digits_val_def)

lemma digits_val_Nil [simp]: "digits_val B [] = 0"
  by (simp add: digits_val_def)

lemma length_digits [simp]: "length (digits B k n) = k"
  by (induction k arbitrary: n) simp_all

lemma digits_less: "0 < B \<Longrightarrow> d \<in> set (digits B k n) \<Longrightarrow> d < B"
  by (induction k arbitrary: n) auto

lemma digits_val_digits [simp]: "n < B ^ k \<Longrightarrow> digits_val B (digits B k n) = n"
proof (induction k arbitrary: n)
  case (Suc k)
  then have "n div B < B ^ k" by (simp add: less_mult_imp_div_less mult.commute)
  with Suc.IH show ?case by simp
qed simp

lemma digits_val_less: "list_all (\<lambda>d. d < B) ds \<Longrightarrow> digits_val B ds < B ^ length ds"
proof (induction ds rule: rev_induct)
  case (snoc d ds)
  then have "digits_val B ds + 1 \<le> B ^ length ds" "d < B" by auto
  then have "(digits_val B ds + 1) * B \<le> B ^ length ds * B" by (intro mult_le_mono1)
  with \<open>d < B\<close> show ?case by (simp add: mult.commute)
qed simp

lemma digits_digits_val: "list_all (\<lambda>d. d < B) ds \<Longrightarrow> length ds = k \<Longrightarrow> digits B k (digits_val B ds) = ds"
proof (induction k arbitrary: ds)
  case (Suc k)
  then obtain es d where "ds = es @ [d]" by (metis length_Suc_conv_rev)
  with Suc show ?case by auto
qed simp

section \<open>The code\<close>

definition b85_alphabet :: string where
  "b85_alphabet = ''0123456789ABCDEFGHIJKLMNOPQRSTUVWXYZabcdefghijklmnopqrstuvwxyz!#$%&()*+-;<=>?@^_`{|}~''"

fun index_of :: "'a list \<Rightarrow> 'a \<Rightarrow> nat option" where
  "index_of [] y = None"
| "index_of (x # xs) y = (if x = y then Some 0 else map_option Suc (index_of xs y))"

fun option_map :: "('a \<Rightarrow> 'b option) \<Rightarrow> 'a list \<Rightarrow> 'b list option" where
  "option_map f [] = Some []"
| "option_map f (x # xs) = (case f x of None \<Rightarrow> None | Some y \<Rightarrow> map_option (Cons y) (option_map f xs))"

definition b85_char :: "nat \<Rightarrow> char" where
  "b85_char d = b85_alphabet ! d"

definition b85_chunk :: "bytes \<Rightarrow> string" where
  "b85_chunk bs = map b85_char (digits 85 5 (digits_val 256 (map unat bs)))"

fun b85_chunks :: "bytes \<Rightarrow> string" where
  "b85_chunks bs = (if bs = [] then [] else b85_chunk (take 4 bs) @ b85_chunks (drop 4 bs))"

declare b85_chunks.simps [simp del]

definition b85encode :: "bytes \<Rightarrow> string" where
  "b85encode bs = (let padding = (4 - length bs mod 4) mod 4;
     t = b85_chunks (bs @ replicate padding 0) in take (length t - padding) t)"

definition b85_unchunk :: "string \<Rightarrow> bytes option" where
  "b85_unchunk t = (case option_map (index_of b85_alphabet) t of None \<Rightarrow> None
     | Some ds \<Rightarrow> let acc = digits_val 85 ds in
         if acc < 2 ^ 32 then Some (map word_of_nat (digits 256 4 acc)) else None)"

fun b85_unchunks :: "string \<Rightarrow> bytes option" where
  "b85_unchunks t = (if t = [] then Some []
     else (case b85_unchunk (take 5 t) of None \<Rightarrow> None
       | Some bs \<Rightarrow> map_option (\<lambda>r. bs @ r) (b85_unchunks (drop 5 t))))"

declare b85_unchunks.simps [simp del]

definition b85decode :: "string \<Rightarrow> bytes option" where
  "b85decode t = (let padding = (5 - length t mod 5) mod 5 in
     map_option (\<lambda>r. take (length r - padding) r) (b85_unchunks (t @ replicate padding (CHR ''~''))))"

section \<open>Round trips\<close>

lemma index_of_nth: "distinct xs \<Longrightarrow> i < length xs \<Longrightarrow> index_of xs (xs ! i) = Some i"
  by (induction xs arbitrary: i) (auto simp: nth_Cons split: nat.splits)

lemma index_of_SomeD: "index_of xs y = Some i \<Longrightarrow> i < length xs \<and> xs ! i = y"
  by (induction xs arbitrary: i) (auto split: if_splits)

lemma length_b85_alphabet [simp]: "length b85_alphabet = 85"
  by (simp add: b85_alphabet_def)

lemma distinct_b85_alphabet: "distinct b85_alphabet"
  by (simp add: b85_alphabet_def)

lemma b85_alphabet_plain: "list_all (\<lambda>c. code c < 128 \<and> \<not> is_space c) b85_alphabet"
  by (simp add: b85_alphabet_def code_def is_space_def)

lemma option_map_Some_iff: "option_map f xs = Some ys \<longleftrightarrow> list_all2 (\<lambda>x y. f x = Some y) xs ys"
  by (induction xs arbitrary: ys) (auto simp: list_all2_Cons1 split: option.splits)

lemma option_map_length: "option_map f xs = Some ys \<Longrightarrow> length ys = length xs"
  by (auto simp: option_map_Some_iff dest: list_all2_lengthD)

lemma b85_digits_of_chars:
  assumes "list_all (\<lambda>d. d < 85) ds"
  shows "option_map (index_of b85_alphabet) (map b85_char ds) = Some ds"
  using assms
  by (induction ds) (simp_all add: b85_char_def index_of_nth distinct_b85_alphabet)

lemma b85_chars_of_digits:
  assumes "option_map (index_of b85_alphabet) t = Some ds"
  shows "list_all (\<lambda>d. d < 85) ds \<and> map b85_char ds = t"
  using assms
proof (induction t arbitrary: ds)
  case (Cons c t)
  then obtain d es where "ds = d # es" "index_of b85_alphabet c = Some d"
    "option_map (index_of b85_alphabet) t = Some es"
    by (auto split: option.splits)
  with Cons index_of_SomeD [of b85_alphabet c d] show ?case by (auto simp: b85_char_def)
qed simp

lemma bytes_digits_less: "list_all (\<lambda>d. d < 256) (map unat (bs :: bytes))"
proof -
  have "unat b < 256" for b :: byte using unsigned_less [of b, where ?'a = nat] by simp
  then show ?thesis by (auto simp: list_all_iff)
qed

lemma bytes_val_less: "length bs = 4 \<Longrightarrow> digits_val 256 (map unat (bs :: bytes)) < 4294967296"
  using digits_val_less [OF bytes_digits_less [of bs]] by simp

lemma b85_digits_less: "list_all (\<lambda>d. d < 85) (digits 85 k n)"
  by (auto simp: list_all_iff dest: digits_less [rotated])

lemma b85_unchunk_chunk: "length bs = 4 \<Longrightarrow> b85_unchunk (b85_chunk bs) = Some bs"
proof -
  assume bs: "length bs = 4"
  then have n: "digits_val 256 (map unat bs) < 4294967296" by (rule bytes_val_less)
  then have "digits_val 85 (digits 85 5 (digits_val 256 (map unat bs))) = digits_val 256 (map unat bs)"
    by (intro digits_val_digits) simp
  then show ?thesis
    using n bs by (simp add: b85_unchunk_def b85_chunk_def b85_digits_of_chars b85_digits_less
        digits_digits_val bytes_digits_less comp_def)
qed

lemma b85_chunk_unchunk: "length t = 5 \<Longrightarrow> b85_unchunk t = Some bs \<Longrightarrow> length bs = 4 \<and> b85_chunk bs = t"
proof -
  assume t: "length t = 5" and "b85_unchunk t = Some bs"
  then obtain ds where ds: "option_map (index_of b85_alphabet) t = Some ds"
    and n: "digits_val 85 ds < 4294967296" and bs: "bs = map word_of_nat (digits 256 4 (digits_val 85 ds))"
    by (auto simp: b85_unchunk_def Let_def split: option.splits if_splits)
  have "map unat bs = digits 256 4 (digits_val 85 ds)"
    unfolding bs map_map
    by (rule map_idI) (auto simp: byte_of_small dest: digits_less [rotated])
  with n have "digits_val 256 (map unat bs) = digits_val 85 ds" by simp
  with b85_chars_of_digits [OF ds] option_map_length [OF ds] t have "b85_chunk bs = t"
    by (simp add: b85_chunk_def digits_digits_val)
  with bs show ?thesis by simp
qed

lemma length_b85_chunk [simp]: "length (b85_chunk bs) = 5"
  by (simp add: b85_chunk_def)

lemma b85_chunks_step: "bs \<noteq> [] \<Longrightarrow> b85_chunks bs = b85_chunk (take 4 bs) @ b85_chunks (drop 4 bs)"
  by (subst b85_chunks.simps) simp

lemma b85_unchunks_step: "length c = 5 \<Longrightarrow> b85_unchunks (c @ d) =
    (case b85_unchunk c of None \<Rightarrow> None | Some bs \<Rightarrow> map_option (\<lambda>r. bs @ r) (b85_unchunks d))"
  by (subst b85_unchunks.simps) (auto split: option.split)

lemma b85_unchunks_chunks: "length bs = 4 * n \<Longrightarrow>
    length (b85_chunks bs) = 5 * n \<and> b85_unchunks (b85_chunks bs) = Some bs"
proof (induction n arbitrary: bs)
  case 0
  then show ?case by (subst b85_chunks.simps, subst b85_unchunks.simps) (simp add: b85_chunks.simps)
next
  case (Suc n)
  then have ne: "bs \<noteq> []" and "length (drop 4 bs) = 4 * n" and four: "length (take 4 bs) = 4" by auto
  with Suc.IH have "length (b85_chunks (drop 4 bs)) = 5 * n"
    "b85_unchunks (b85_chunks (drop 4 bs)) = Some (drop 4 bs)" by auto
  with ne b85_unchunk_chunk [OF four] show ?case
    by (simp add: b85_chunks_step b85_unchunks_step)
qed

lemma b85_chunks_unchunks: "length t = 5 * n \<Longrightarrow> b85_unchunks t = Some bs \<Longrightarrow>
    length bs = 4 * n \<and> b85_chunks bs = t"
proof (induction n arbitrary: t bs)
  case 0
  then show ?case by (simp add: b85_unchunks.simps b85_chunks.simps)
next
  case (Suc n)
  then have "t \<noteq> []" by auto
  with Suc.prems(2) obtain a r where ar: "b85_unchunk (take 5 t) = Some a"
    "b85_unchunks (drop 5 t) = Some r" "bs = a @ r"
    by (subst (asm) b85_unchunks.simps) (auto split: option.splits)
  from b85_chunk_unchunk [OF _ ar(1)] Suc.prems(1) have a: "length a = 4" "b85_chunk a = take 5 t"
    by simp_all
  from Suc.IH [OF _ ar(2)] Suc.prems(1) have r: "length r = 4 * n" "b85_chunks r = drop 5 t"
    by simp_all
  from a have "a \<noteq> []" by auto
  with ar a r show ?case by (simp add: b85_chunks_step)
qed

lemma b85_decode_encode: "length bs mod 4 = 0 \<Longrightarrow> b85decode (b85encode bs) = Some bs"
  using b85_unchunks_chunks [of bs "length bs div 4"] by (auto simp: b85encode_def b85decode_def)

lemma length_b85encode: "length bs = 4 * n \<Longrightarrow> length (b85encode bs) = 5 * n"
  using b85_unchunks_chunks [of bs n] by (auto simp: b85encode_def)

lemma pad_5: "(n + (5 - n mod 5) mod 5) mod 5 = 0" for n :: nat
proof -
  have "(n + (5 - n mod 5) mod 5) mod 5 = (n mod 5 + (5 - n mod 5)) mod 5"
    by (simp only: mod_add_right_eq mod_add_left_eq)
  also have "n mod 5 + (5 - n mod 5) = 5"
    using mod_less_divisor [of 5 n] by linarith
  finally show ?thesis by simp
qed

lemma b85_chunks_take: "length bs = 4 * m \<Longrightarrow> n \<le> m \<Longrightarrow>
    take (5 * n) (b85_chunks bs) = b85_chunks (take (4 * n) bs)"
proof (induction n arbitrary: bs m)
  case 0
  then show ?case by (simp add: b85_chunks.simps)
next
  case (Suc n)
  then have ne: "bs \<noteq> []" by auto
  from Suc have "take (5 * n) (b85_chunks (drop 4 bs)) = b85_chunks (take (4 * n) (drop 4 bs))"
    by (intro Suc.IH [of "drop 4 bs" "m - 1"]) auto
  with ne show ?case by (simp add: b85_chunks_step drop_take min_def)
qed

lemma pad_cases:
  fixes p m n len :: nat
  assumes "p < 5" and "len + p = 5 * m" and "4 * n = 4 * m - p"
  shows "p = 0 \<and> n = m \<or> p = 4 \<and> m = n + 1"
proof (cases m)
  case 0
  then show ?thesis using assms by simp
next
  case (Suc k)
  with assms have eq: "4 * n + p = 4 * k + 4" by simp
  with assms(1) consider "n = k" | "n = k + 1" by linarith
  then show ?thesis using eq Suc by cases simp_all
qed

text \<open>
  A text that decodes to \<open>4 * n\<close> bytes is the encoding of those bytes, possibly followed by one
  character: the decoder pads a lone last character and drops all the four bytes it gives.
\<close>

lemma b85_decode_shape:
  assumes "b85decode t = Some bs" and "length bs = 4 * n"
  shows "take (5 * n) t = b85encode bs \<and> (length t = 5 * n \<or> length t = 5 * n + 1)"
proof -
  define p where "p = (5 - length t mod 5) mod 5"
  let ?t = "t @ replicate p (CHR ''~'')"
  from pad_5 [of "length t"] obtain m where m: "length t + p = 5 * m"
    unfolding p_def by (metis mod_0_imp_dvd dvd_def)
  have p: "p < 5" by (simp add: p_def)
  from assms obtain r where r: "b85_unchunks ?t = Some r" "bs = take (length r - p) r"
    by (auto simp: b85decode_def Let_def p_def)
  from b85_chunks_unchunks [OF _ r(1), of m] m have l: "length r = 4 * m" and c: "b85_chunks r = ?t"
    by simp_all
  with r(2) assms(2) have n: "4 * n = 4 * m - p" by simp
  from pad_cases [OF p m n] consider "p = 0" "n = m" | "p = 4" "m = n + 1" by blast
  then have "n \<le> m \<and> 5 * n \<le> length t \<and> (length t = 5 * n \<or> length t = 5 * n + 1)"
    using m by cases simp_all
  moreover have "take (4 * n) r = bs" using r(2) l n by simp
  moreover have "b85encode bs = b85_chunks bs"
    using assms(2) b85_unchunks_chunks [of bs n] by (simp add: b85encode_def)
  ultimately show ?thesis
    using b85_chunks_take [OF l, of n] c by simp
qed

lemma b85_encode_decode:
  assumes "b85decode t = Some bs" and "length bs = 4 * n" and "length t mod 5 = 0"
  shows "b85encode bs = t"
proof -
  from b85_decode_shape [OF assms(1,2)] have t: "take (5 * n) t = b85encode bs"
    and l: "length t = 5 * n \<or> length t = 5 * n + 1" by auto
  from l assms(3) have "length t = 5 * n" by presburger
  with t show ?thesis by simp
qed

lemma b85encode_plain: "is_ascii (b85encode bs) \<and> list_all (\<lambda>c. \<not> is_space c) (b85encode bs)"
proof -
  have "list_all (\<lambda>c. code c < 128 \<and> \<not> is_space c) (b85_chunk b)" for b
    using b85_alphabet_plain
    by (auto simp: b85_chunk_def b85_char_def list_all_iff dest!: digits_less [rotated])
  then have "list_all (\<lambda>c. code c < 128 \<and> \<not> is_space c) (b85_chunks b)" for b
    by (induction b rule: b85_chunks.induct) (subst b85_chunks.simps, simp)
  then have "list_all (\<lambda>c. code c < 128 \<and> \<not> is_space c) (b85encode bs)"
    by (auto simp: b85encode_def Let_def list_all_iff dest: in_set_takeD)
  then show ?thesis by (auto simp: is_ascii_def list_all_iff)
qed

section \<open>Lengths that are not multiples of four\<close>

lemma digits_val_append: "digits_val B (xs @ ys) = digits_val B xs * B ^ length ys + digits_val B ys"
proof (induction ys rule: rev_induct)
  case (snoc y ys)
  then show ?case
    by (simp only: append_assoc [symmetric] digits_val_snoc) (simp add: algebra_simps)
qed simp

lemma digits_split: "digits B (k + p) n = digits B k (n div B ^ p) @ digits B p n"
proof (induction p arbitrary: n)
  case (Suc p)
  then show ?case by (simp add: div_mult2_eq mult.commute)
qed simp

lemma digits_val_zeros: "digits_val B (replicate p 0) = 0"
  by (induction p) (simp_all add: digits_val_def)

lemma replicate_snoc: "replicate (Suc p) x = replicate p x @ [x]"
  by (simp add: replicate_append_same)

lemma digits_val_max: "0 < B \<Longrightarrow> digits_val B (replicate p (B - 1)) + 1 = B ^ p"
proof (induction p)
  case (Suc p)
  have "digits_val B (replicate (Suc p) (B - 1)) + 1 = (digits_val B (replicate p (B - 1)) + 1) * B"
    using Suc.prems by (simp only: replicate_snoc digits_val_snoc) (simp add: algebra_simps)
  with Suc show ?case by simp
qed simp

lemma tilde_digit: "CHR ''~'' = b85_char 84"
  by (simp add: b85_char_def b85_alphabet_def)

lemma padded_word_bounds:
  fixes v :: nat
  assumes "p \<le> 4" and "v < 256 ^ (4 - p)"
  defines "a \<equiv> v * 256 ^ p div 85 ^ p * 85 ^ p + (85 ^ p - 1)"
  shows "a div 256 ^ p = v \<and> a < 4294967296"
proof -
  let ?w = "v * 256 ^ p"
  have "?w div 85 ^ p * 85 ^ p + ?w mod 85 ^ p = ?w" by (rule div_mult_mod_eq)
  moreover have "?w mod 85 ^ p < 85 ^ p" by simp
  moreover have "(85::nat) ^ p \<le> 256 ^ p" by (rule power_mono) simp_all
  ultimately have lo: "?w \<le> a" and hi: "a < ?w + 256 ^ p" unfolding a_def by linarith+
  from lo hi have "a div 256 ^ p = v"
    by (intro div_nat_eqI) (simp_all add: mult.commute)
  moreover have "?w + 256 ^ p \<le> 256 ^ (4 - p) * 256 ^ p"
  proof -
    have "(v + 1) * 256 ^ p \<le> 256 ^ (4 - p) * 256 ^ p"
      using assms(2) by (intro mult_le_mono1) simp
    then show ?thesis by simp
  qed
  with hi have "a < 256 ^ (4 - p) * 256 ^ p" by linarith
  then have "a < 4294967296" using assms(1) by (simp flip: power_add)
  ultimately show ?thesis by simp
qed

lemma b85_unchunk_padded:
  assumes "length bs + p = 4"
  shows "\<exists>c. b85_unchunk (take (5 - p) (b85_chunk (bs @ replicate p 0)) @ replicate p (CHR ''~''))
    = Some (bs @ c) \<and> length c = p"
proof -
  define v where "v = digits_val 256 (map unat bs)"
  let ?w = "v * 256 ^ p"
  have p: "p \<le> 4" "4 - p = length bs" "5 = (5 - p) + p" using assms by auto
  have w: "digits_val 256 (map unat (bs @ replicate p 0)) = ?w"
    by (simp add: digits_val_append v_def map_replicate_const [symmetric] digits_val_zeros del: map_replicate_const)
  have t: "take (5 - p) (b85_chunk (bs @ replicate p 0)) = map b85_char (digits 85 (5 - p) (?w div 85 ^ p))"
    unfolding b85_chunk_def w take_map by (subst p(3), subst digits_split) simp
  have d: "option_map (index_of b85_alphabet)
      (map b85_char (digits 85 (5 - p) (?w div 85 ^ p) @ replicate p 84))
    = Some (digits 85 (5 - p) (?w div 85 ^ p) @ replicate p 84)"
    by (rule b85_digits_of_chars) (simp add: b85_digits_less, simp add: list_all_iff)
  have small: "?w div 85 ^ p < 85 ^ (5 - p)"
  proof -
    have "v < 256 ^ (4 - p)" using digits_val_less [OF bytes_digits_less [of bs]] p(2) by (simp add: v_def)
    then have "?w < 256 ^ (4 - p) * 256 ^ p" by simp
    also have "\<dots> = 256 ^ 4" using p(1) by (simp flip: power_add)
    also have "\<dots> \<le> (85 :: nat) ^ (5 - p) * 85 ^ p" using p(1) by (simp flip: power_add)
    finally show ?thesis by (simp add: less_mult_imp_div_less)
  qed
  define a where "a = ?w div 85 ^ p * 85 ^ p + (85 ^ p - 1)"
  have a: "digits_val 85 (digits 85 (5 - p) (?w div 85 ^ p) @ replicate p 84) = a"
    using digits_val_max [of 85 p] small by (simp add: digits_val_append a_def)
  have "v < 256 ^ (4 - p)" using digits_val_less [OF bytes_digits_less [of bs]] p(2) by (simp add: v_def)
  from padded_word_bounds [OF p(1) this] have av: "a div 256 ^ p = v" "a < 4294967296"
    by (simp_all add: a_def)
  have "digits 256 4 a = digits 256 (length bs) v @ digits 256 p a"
    using digits_split [of 256 "length bs" p a] assms av by (simp add: add.commute)
  also have "digits 256 (length bs) v = map unat bs"
    by (simp add: v_def digits_digits_val bytes_digits_less)
  finally have "map word_of_nat (digits 256 4 a) = bs @ map word_of_nat (digits 256 p a)"
    by (simp add: comp_def)
  moreover have "b85_unchunk (map b85_char (digits 85 (5 - p) (?w div 85 ^ p) @ replicate p 84))
      = Some (map word_of_nat (digits 256 4 a))"
    unfolding b85_unchunk_def d using a av by simp
  ultimately show ?thesis
    unfolding t by (intro exI [of _ "map word_of_nat (digits 256 p a)"]) (simp add: tilde_digit)
qed

lemma b85_unchunks_append: "length t = 5 * n \<Longrightarrow> b85_unchunks t = Some bs \<Longrightarrow>
    b85_unchunks (t @ d) = map_option (\<lambda>r. bs @ r) (b85_unchunks d)"
proof (induction n arbitrary: t bs)
  case 0
  then show ?case by (simp add: b85_unchunks.simps option.map_ident)
next
  case (Suc n)
  have five: "length (take 5 t) = 5" and rest: "length (drop 5 t) = 5 * n" using Suc.prems(1) by simp_all
  have t: "t = take 5 t @ drop 5 t" by simp
  from Suc.prems(2) obtain a r where ar: "b85_unchunk (take 5 t) = Some a"
    "b85_unchunks (drop 5 t) = Some r" "bs = a @ r"
    by (subst (asm) t, subst (asm) b85_unchunks_step [OF five]) (auto split: option.splits)
  have "b85_unchunks (t @ d) = b85_unchunks (take 5 t @ (drop 5 t @ d))" by (metis t append_assoc)
  also have "\<dots> = map_option (\<lambda>r. a @ r) (b85_unchunks (drop 5 t @ d))"
    by (simp only: b85_unchunks_step [OF five] ar option.case)
  finally show ?case
    by (simp add: Suc.IH [OF rest ar(2)] ar(3) option.map_comp comp_def)
qed

lemma b85_chunks_append: "length bs = 4 * n \<Longrightarrow> b85_chunks (bs @ cs) = b85_chunks bs @ b85_chunks cs"
proof (induction n arbitrary: bs)
  case 0
  then show ?case by (simp add: b85_chunks.simps [of "[]"])
next
  case (Suc n)
  then have ne: "bs \<noteq> []" and l: "length (drop 4 bs) = 4 * n" and "4 \<le> length bs" by auto
  then show ?case using Suc.IH [OF l] by (simp add: b85_chunks_step)
qed

text \<open>The text of any byte string decodes to it.\<close>

lemma b85decode_b85encode [simp]: "b85decode (b85encode bs) = Some bs"
proof (cases "length bs mod 4 = 0")
  case True
  then show ?thesis by (rule b85_decode_encode)
next
  case False
  define n where "n = length bs div 4"
  define p where "p = 4 - length bs mod 4"
  let ?a = "take (4 * n) bs" and ?z = "drop (4 * n) bs"
  have len: "length bs = 4 * n + length bs mod 4" unfolding n_def by simp
  have mod4: "length bs mod 4 < 4" by simp
  have p: "length ?z + p = 4" "length ?a = 4 * n" "p < 4" "0 < p" "(4 - length bs mod 4) mod 4 = p"
    using len mod4 False unfolding p_def by auto
  have z: "?z @ replicate p 0 \<noteq> []" using p(4) by simp
  have chunks: "b85_chunks (bs @ replicate p 0) = b85_chunks ?a @ b85_chunk (?z @ replicate p 0)"
  proof -
    have "bs @ replicate p 0 = ?a @ (?z @ replicate p 0)" by (simp flip: append_assoc)
    then have "b85_chunks (bs @ replicate p 0) = b85_chunks ?a @ b85_chunks (?z @ replicate p 0)"
      by (simp only: b85_chunks_append [OF p(2)])
    also have "b85_chunks (?z @ replicate p 0) = b85_chunk (?z @ replicate p 0)"
    proof -
      have "take 4 (?z @ replicate p 0) = ?z @ replicate p 0" "drop 4 (?z @ replicate p 0) = []"
        using p(1) by (simp_all only: take_all_iff drop_eq_Nil length_append length_replicate)
      then show ?thesis by (simp only: b85_chunks_step [OF z]) (simp add: b85_chunks.simps [of "[]"])
    qed
    finally show ?thesis .
  qed
  from b85_unchunks_chunks [OF p(2)] have a: "length (b85_chunks ?a) = 5 * n"
    "b85_unchunks (b85_chunks ?a) = Some ?a" by simp_all
  have enc_text: "b85encode bs = b85_chunks ?a @ take (5 - p) (b85_chunk (?z @ replicate p 0))"
    using p a(1) by (simp add: b85encode_def Let_def chunks)
  then have tl: "length (b85encode bs) = 5 * n + (5 - p)" using a(1) by simp
  then have pad: "(5 - length (b85encode bs) mod 5) mod 5 = p"
  proof -
    from p(3,4) consider "p = 1" | "p = 2" | "p = 3" by linarith
    then have "length (b85encode bs) mod 5 = 5 - p"
      unfolding tl by cases (simp_all only: mod_mult_self4, simp_all)
    with p(3,4) show ?thesis by simp
  qed
  obtain c where c: "b85_unchunk (take (5 - p) (b85_chunk (?z @ replicate p 0)) @ replicate p (CHR ''~''))
      = Some (?z @ c)" "length c = p"
    using b85_unchunk_padded [OF p(1)] by blast
  let ?last = "take (5 - p) (b85_chunk (?z @ replicate p 0)) @ replicate p (CHR ''~'')"
  have five: "length ?last = 5" using p(3) by simp
  have "b85_unchunks ?last = Some (?z @ c)"
    using b85_unchunks_step [OF five, of "[]"] c(1) by (simp add: b85_unchunks.simps [of "[]"])
  then have "b85_unchunks (b85encode bs @ replicate p (CHR ''~'')) = Some (bs @ c)"
    unfolding enc_text append_assoc b85_unchunks_append [OF a]
    by (metis append_assoc append_take_drop_id option.map(2))
  then show ?thesis unfolding b85decode_def Let_def pad using c(2) by simp
qed

lemma length_b85encode_any: "length (b85encode bs)
    = 5 * (length bs div 4) + (if length bs mod 4 = 0 then 0 else length bs mod 4 + 1)"
proof -
  define n r where "n = length bs div 4" and "r = length bs mod 4"
  define p where "p = (4 - r) mod 4"
  have len: "length bs = 4 * n + r" and r: "r < 4" by (simp_all add: n_def r_def)
  have "length (bs @ replicate p 0) = 4 * (if r = 0 then n else n + 1)"
    using len r by (auto simp: p_def)
  from b85_unchunks_chunks [OF this]
  have "length (b85_chunks (bs @ replicate p 0)) = 5 * (if r = 0 then n else n + 1)" by simp
  then have "length (b85encode bs) = 5 * (if r = 0 then n else n + 1) - p"
    by (simp add: b85encode_def Let_def p_def r_def)
  with r show ?thesis by (auto simp: p_def simp flip: n_def r_def)
qed

end
