(* ===== verification/Json.thy ===== *)
theory Json
  imports Platform Base85
begin

text \<open>
  JSON values as \<open>src/ind/protocol.py\<close> sees them: the limits of \<open>_validate_json_value\<close>, the
  deterministic text of \<open>canonical_json\<close> (sorted keys, ASCII escapes), the hash of it, and typed
  field access. A dict is a list of its items in insertion order; \<open>norm\<close> sorts the items of every
  dict, so two dicts are equal in Python exactly when their norms are. The size limits, read from
  the environment in the source, are fixed at their defaults.
\<close>

datatype json =
    JNull
  | JBool bool
  | JInt int
  | JFloat string
  | JStr string
  | JList "json list"
  | JDict "(string \<times> json) list"

definition MAX_JSON_DEPTH :: nat where "MAX_JSON_DEPTH = 64"
definition MAX_JSON_LIST_ITEMS :: nat where "MAX_JSON_LIST_ITEMS = 100000"
definition MAX_JSON_OBJECT_KEYS :: nat where "MAX_JSON_OBJECT_KEYS = 1024"
definition MAX_JSON_STRING_BYTES :: nat where "MAX_JSON_STRING_BYTES = 64 * 1024"
definition MAX_JSON_INTEGER_ABS :: int where "MAX_JSON_INTEGER_ABS = 2 ^ 63 - 1"

section \<open>Code points\<close>

text \<open>
  The UTF-8 bytes of a code point, and the code points of a text. A surrogate code point, which a
  Python \<open>str\<close> may contain, has three bytes like any other of its size; \<open>encode("utf-8")\<close> raises
  on it.
\<close>

definition enc_cp :: "nat \<Rightarrow> string" where
  "enc_cp n = (if n < 128 then [char_of n]
     else if n < 2048 then [char_of (192 + n div 64), char_of (128 + n mod 64)]
     else if n < 65536 then [char_of (224 + n div 4096), char_of (128 + n div 64 mod 64), char_of (128 + n mod 64)]
     else [char_of (240 + n div 262144), char_of (128 + n div 4096 mod 64),
           char_of (128 + n div 64 mod 64), char_of (128 + n mod 64)])"

fun cps :: "string \<Rightarrow> nat list" where
  "cps [] = []"
| "cps (a # r) = (let x = code a in
     if x < 192 then x # cps r
     else if x < 224 then (case r of b # r' \<Rightarrow> ((x - 192) * 64 + (code b - 128)) # cps r' | [] \<Rightarrow> [x])
     else if x < 240 then (case r of b # c # r' \<Rightarrow>
         ((x - 224) * 4096 + (code b - 128) * 64 + (code c - 128)) # cps r' | _ \<Rightarrow> [x])
     else (case r of b # c # d # r' \<Rightarrow>
         ((x - 240) * 262144 + (code b - 128) * 4096 + (code c - 128) * 64 + (code d - 128)) # cps r'
       | _ \<Rightarrow> [x]))"

definition surrogate :: "nat \<Rightarrow> bool" where
  "surrogate n = (0xD800 \<le> n \<and> n \<le> 0xDFFF)"

definition scalar_value :: "nat \<Rightarrow> bool" where
  "scalar_value n = (n < 0x110000 \<and> \<not> surrogate n)"

text \<open>\<open>str.encode("utf-8")\<close> succeeds.\<close>

definition encodable :: "string \<Rightarrow> bool" where
  "encodable s = list_all (\<lambda>n. \<not> surrogate n) (cps s)"

text \<open>The text is the UTF-8 encoding of a sequence of Unicode scalar values.\<close>

definition proper_text :: "string \<Rightarrow> bool" where
  "proper_text s = (list_all scalar_value (cps s) \<and> concat (map enc_cp (cps s)) = s)"

lemma code_char_of [simp]: "n < 256 \<Longrightarrow> code (char_of n) = n"
  by (simp add: code_def)

lemma char_of_code [simp]: "char_of (code c) = c"
  by (simp add: code_def)

lemma base64_3: "(n::nat) div 4096 * 4096 + n div 64 mod 64 * 64 + n mod 64 = n"
proof -
  have "n = n div 64 * 64 + n mod 64" by simp
  moreover have "n div 64 = n div 4096 * 64 + n div 64 mod 64"
    using div_mult_mod_eq [of "n div 64" 64] by (simp add: div_mult2_eq [symmetric])
  ultimately show ?thesis by linarith
qed

lemma base64_4: "(n::nat) div 262144 * 262144 + n div 4096 mod 64 * 4096 + n div 64 mod 64 * 64 + n mod 64 = n"
proof -
  have "n div 4096 = n div 262144 * 64 + n div 4096 mod 64"
    using div_mult_mod_eq [of "n div 4096" 64] by (simp add: div_mult2_eq [symmetric])
  with base64_3 [of n] show ?thesis by linarith
qed

lemma enc_cp_leads:
  fixes n :: nat
  shows "n < 2048 \<Longrightarrow> 192 + n div 64 < 224" "n < 65536 \<Longrightarrow> 224 + n div 4096 < 240"
    "n < 0x110000 \<Longrightarrow> 240 + n div 262144 < 256" "128 + n mod 64 < 256"
  by (simp_all add: div_less_iff_less_mult)

lemma code_trail [simp]: "code (char_of (128 + n mod 64)) = 128 + n mod 64"
proof (rule code_char_of)
  have "n mod 64 < 64" by simp
  then show "128 + n mod 64 < 256" by linarith
qed

lemma cps_enc_cp: "n < 0x110000 \<Longrightarrow> cps (enc_cp n @ s) = n # cps s"
proof -
  assume n: "n < 0x110000"
  consider "n < 128" | "128 \<le> n" "n < 2048" | "2048 \<le> n" "n < 65536" | "65536 \<le> n" by linarith
  then show ?thesis
  proof cases
    case 1
    then show ?thesis by (simp add: enc_cp_def)
  next
    case 2
    with enc_cp_leads(1) [of n] have "code (char_of (192 + n div 64)) = 192 + n div 64"
      by (intro code_char_of) linarith
    with 2 enc_cp_leads(1) [of n] show ?thesis by (simp add: enc_cp_def Let_def)
  next
    case 3
    with enc_cp_leads(2) [of n] have "code (char_of (224 + n div 4096)) = 224 + n div 4096"
      by (intro code_char_of) linarith
    with 3 enc_cp_leads(2) [of n] base64_3 [of n] show ?thesis by (simp add: enc_cp_def Let_def)
  next
    case 4
    with n enc_cp_leads(3) [of n] have "code (char_of (240 + n div 262144)) = 240 + n div 262144"
      by (intro code_char_of) linarith
    with 4 base64_4 [of n] show ?thesis by (simp add: enc_cp_def Let_def)
  qed
qed

lemma cps_encode: "list_all scalar_value ns \<Longrightarrow> cps (concat (map enc_cp ns)) = ns"
  by (induction ns) (simp_all add: cps_enc_cp scalar_value_def)

lemma proper_text_encode: "list_all scalar_value ns \<Longrightarrow> proper_text (concat (map enc_cp ns))"
  by (simp add: proper_text_def cps_encode)

lemma cps_ascii: "is_ascii s \<Longrightarrow> cps s = map code s"
  by (induction s) (auto simp: is_ascii_def)

lemma proper_text_ascii [simp]: "is_ascii s \<Longrightarrow> proper_text s"
proof -
  assume a: "is_ascii s"
  then have "concat (map enc_cp (map code s)) = s"
    by (induction s) (auto simp: is_ascii_def enc_cp_def)
  with a show ?thesis
    by (auto simp: proper_text_def cps_ascii is_ascii_def list_all_iff scalar_value_def surrogate_def)
qed

lemma proper_text_encodable: "proper_text s \<Longrightarrow> encodable s"
  by (auto simp: proper_text_def encodable_def scalar_value_def list_all_iff)

section \<open>Limits\<close>

fun seqE :: "('e + unit) list \<Rightarrow> 'e + unit" where
  "seqE [] = Inr ()"
| "seqE (m # ms) = bindE m (\<lambda>_. seqE ms)"

lemma seqE_Inr_iff [res_simps]: "seqE ms = Inr u \<longleftrightarrow> (\<forall>m \<in> set ms. m = Inr ())"
  by (induction ms) (auto simp: res_simps)

definition utf8_length :: "string \<Rightarrow> nat res" where
  "utf8_length s = (if encodable s then Inr (length s)
     else Inl (PyValueError ''surrogates not allowed''))"

text \<open>Arguments as in the source: the value, the label, the current depth.\<close>

primrec validate_json_value :: "json \<Rightarrow> string \<Rightarrow> nat \<Rightarrow> unit res" where
  "validate_json_value JNull label depth =
     ensure (depth \<le> MAX_JSON_DEPTH) (ValidationError (label @ '' exceeds maximum JSON depth''))"
| "validate_json_value (JBool b) label depth =
     ensure (depth \<le> MAX_JSON_DEPTH) (ValidationError (label @ '' exceeds maximum JSON depth''))"
| "validate_json_value (JInt i) label depth =
     (if depth > MAX_JSON_DEPTH then Inl (ValidationError (label @ '' exceeds maximum JSON depth''))
      else ensure (abs i \<le> MAX_JSON_INTEGER_ABS) (ValidationError (label @ '' integer is outside protocol bounds'')))"
| "validate_json_value (JFloat f) label depth =
     (if depth > MAX_JSON_DEPTH then Inl (ValidationError (label @ '' exceeds maximum JSON depth''))
      else Inl (ValidationError (label @ '' contains a floating-point value'')))"
| "validate_json_value (JStr s) label depth =
     (if depth > MAX_JSON_DEPTH then Inl (ValidationError (label @ '' exceeds maximum JSON depth''))
      else bindE (utf8_length s) (\<lambda>n.
        ensure (n \<le> MAX_JSON_STRING_BYTES) (ValidationError (label @ '' string is too large''))))"
| "validate_json_value (JList xs) label depth =
     (if depth > MAX_JSON_DEPTH then Inl (ValidationError (label @ '' exceeds maximum JSON depth''))
      else if length xs > MAX_JSON_LIST_ITEMS then Inl (ValidationError (label @ '' list is too large''))
      else seqE (map (\<lambda>check. check label (depth + 1)) (map validate_json_value xs)))"
| "validate_json_value (JDict kvs) label depth =
     (if depth > MAX_JSON_DEPTH then Inl (ValidationError (label @ '' exceeds maximum JSON depth''))
      else if length kvs > MAX_JSON_OBJECT_KEYS then Inl (ValidationError (label @ '' object has too many keys''))
      else seqE (map (\<lambda>(k, check). bindE (utf8_length k) (\<lambda>n.
             if n > MAX_JSON_STRING_BYTES then Inl (ValidationError (label @ '' object key is too large''))
             else check label (depth + 1))) (map (map_prod id validate_json_value) kvs)))"

section \<open>Canonical text\<close>

definition hex4 :: "nat \<Rightarrow> string" where
  "hex4 n = map hex_digit (digits 16 4 n)"

text \<open>One code point of a JSON string under \<open>ensure_ascii=True\<close>.\<close>

definition escape_cp :: "nat \<Rightarrow> string" where
  "escape_cp n = (
     if n = 34 then [CHR 0x5C, CHR 0x22] else if n = 92 then [CHR 0x5C, CHR 0x5C]
     else if n = 10 then [CHR 0x5C, CHR ''n''] else if n = 13 then [CHR 0x5C, CHR ''r'']
     else if n = 9 then [CHR 0x5C, CHR ''t''] else if n = 12 then [CHR 0x5C, CHR ''f'']
     else if n = 8 then [CHR 0x5C, CHR ''b'']
     else if 32 \<le> n \<and> n < 127 then [char_of n]
     else if n < 65536 then [CHR 0x5C, CHR ''u''] @ hex4 n
     else [CHR 0x5C, CHR ''u''] @ hex4 (0xD800 + (n - 0x10000) div 1024)
       @ [CHR 0x5C, CHR ''u''] @ hex4 (0xDC00 + (n - 0x10000) mod 1024))"

definition quote_text :: "string \<Rightarrow> string" where
  "quote_text s = [CHR 0x22] @ concat (map escape_cp (cps s)) @ [CHR 0x22]"

fun join_comma :: "string list \<Rightarrow> string" where
  "join_comma [] = []"
| "join_comma [x] = x"
| "join_comma (x # y # ys) = x @ CHR '','' # join_comma (y # ys)"

text \<open>\<open>json.dumps(..., sort_keys=True, separators=(",", ":"), ensure_ascii=True)\<close>.\<close>

primrec dumps :: "json \<Rightarrow> string" where
  "dumps JNull = ''null''"
| "dumps (JBool b) = (if b then ''true'' else ''false'')"
| "dumps (JInt i) = int_text i"
| "dumps (JFloat f) = f"
| "dumps (JStr s) = quote_text s"
| "dumps (JList xs) = ''['' @ join_comma (map dumps xs) @ '']''"
| "dumps (JDict kvs) = ''{'' @ join_comma (map (\<lambda>(k, t). quote_text k @ '':'' @ t)
     (sort_key fst (map (map_prod id dumps) kvs))) @ ''}''"

definition canonical_json :: "json \<Rightarrow> string res" where
  "canonical_json v = bindE (validate_json_value v ''protocol object'' 0) (\<lambda>_. Inr (dumps v))"

definition canonical_bytes :: "json \<Rightarrow> bytes res" where
  "canonical_bytes v = bindE (canonical_json v) (\<lambda>t. Inr (utf8 t))"

definition sha3_hex :: "platform \<Rightarrow> bytes \<Rightarrow> string" where
  "sha3_hex P b = hex_text (pf_sha3_256 P b)"

text \<open>\<open>sha3_hex(_canonical_bytes(data))\<close>, the hash of a JSON object (\<open>message_hash\<close>, \<open>genesis_hash\<close>).\<close>

definition message_hash :: "platform \<Rightarrow> json \<Rightarrow> string res" where
  "message_hash P v = bindE (canonical_bytes v) (\<lambda>b. Inr (sha3_hex P b))"

section \<open>Equality of dicts\<close>

primrec norm :: "json \<Rightarrow> json" where
  "norm JNull = JNull"
| "norm (JBool b) = JBool b"
| "norm (JInt i) = JInt i"
| "norm (JFloat f) = JFloat f"
| "norm (JStr s) = JStr s"
| "norm (JList xs) = JList (map norm xs)"
| "norm (JDict kvs) = JDict (sort_key fst (map (map_prod id norm) kvs))"

text \<open>The values a Python program can hold: keys of a dict are distinct, texts are proper.\<close>

primrec json_wf :: "json \<Rightarrow> bool" where
  "json_wf JNull = True"
| "json_wf (JBool b) = True"
| "json_wf (JInt i) = True"
| "json_wf (JFloat f) = False"
| "json_wf (JStr s) = proper_text s"
| "json_wf (JList xs) = list_all id (map json_wf xs)"
| "json_wf (JDict kvs) = (distinct (map fst kvs) \<and> list_all proper_text (map fst kvs)
     \<and> list_all snd (map (map_prod id json_wf) kvs))"

lemma map_of_sort_key:
  assumes "distinct (map fst kvs)"
  shows "map_of (sort_key fst kvs) = map_of kvs"
  using assms by (intro map_of_inject_set [THEN iffD2]) (auto simp: distinct_map inj_on_def)

lemma insort_key_map_snd:
  "insort_key fst (map_prod id f x) (map (map_prod id f) ys) = map (map_prod id f) (insort_key fst x ys)"
  by (induction ys) auto

lemma sort_key_map_snd: "sort_key fst (map (map_prod id f) kvs) = map (map_prod id f) (sort_key fst kvs)"
proof (induction kvs)
  case (Cons x kvs)
  then show ?case by (simp only: list.map sort_key_simps insort_key_map_snd)
qed simp

lemma sort_key_idem [simp]: "sort_key f (sort_key f xs) = sort_key f xs"
  by (rule sort_key_id_if_sorted) simp

lemma norm_idem [simp]: "norm (norm v) = norm v"
proof (induction v)
  case (JDict kvs)
  have "map (map_prod id norm) (map (map_prod id norm) kvs) = map (map_prod id norm) kvs"
    using JDict by (auto simp: map_prod_def split_beta snds.simps)
  then show ?case
    by (simp only: norm.simps sort_key_map_snd [symmetric]) (simp add: sort_key_map_snd)
qed simp_all

end
