(* ===== verification/JsonText.thy ===== *)
theory JsonText
  imports Json
begin

text \<open>
  The strict JSON reader of \<open>src/ind/protocol.py\<close> (\<open>_json_loads_strict\<close>: \<open>json.loads\<close> with
  duplicate keys, floats and \<open>NaN\<close>/\<open>Infinity\<close> refused) and the packed wire text \<open>indz1:\<close> (zlib and
  base85). The reader is a recursive descent on the text with fuel; \<open>2 * length + 2\<close> is enough for
  every text (\<open>parse_fuel_enough\<close>), so the fuel is not a limit of the model. Reading what
  \<open>canonical_json\<close> writes gives the value back, up to the order of keys.
\<close>

section \<open>Strings\<close>

definition bad_json :: error where
  "bad_json = ValidationError ''invalid JSON payload''"

definition is_json_ws :: "char \<Rightarrow> bool" where
  "is_json_ws c = (code c = 32 \<or> code c = 9 \<or> code c = 10 \<or> code c = 13)"

definition skip_ws :: "string \<Rightarrow> string" where
  "skip_ws s = dropWhile is_json_ws s"

definition hex4_val :: "string \<Rightarrow> nat option" where
  "hex4_val t = (if length t = 4 then map_option (digits_val 16) (option_map hex_val t) else None)"

definition simple_escape :: "char \<Rightarrow> char option" where
  "simple_escape c = (if c = CHR 0x22 \<or> c = CHR 0x5C \<or> c = CHR ''/'' then Some c
     else if c = CHR ''n'' then Some (char_of (10::nat)) else if c = CHR ''r'' then Some (char_of (13::nat))
     else if c = CHR ''t'' then Some (char_of (9::nat)) else if c = CHR ''f'' then Some (char_of (12::nat))
     else if c = CHR ''b'' then Some (char_of (8::nat)) else None)"

text \<open>What follows a backslash: the text it stands for and the rest.\<close>

fun unescape :: "string \<Rightarrow> (string \<times> string) option" where
  "unescape [] = None"
| "unescape (c # r) =
     (if c = CHR ''u'' then
        (case hex4_val (take 4 r) of None \<Rightarrow> None
         | Some n \<Rightarrow> let r1 = drop 4 r in
             if 0xD800 \<le> n \<and> n \<le> 0xDBFF \<and> take 2 r1 = [CHR 0x5C, CHR ''u''] then
               (case hex4_val (take 4 (drop 2 r1)) of None \<Rightarrow> None
                | Some m \<Rightarrow> if 0xDC00 \<le> m \<and> m \<le> 0xDFFF
                    then Some (enc_cp (0x10000 + (n - 0xD800) * 1024 + (m - 0xDC00)), drop 6 r1)
                    else Some (enc_cp n, r1))
             else Some (enc_cp n, r1))
      else map_option (\<lambda>d. ([d], r)) (simple_escape c))"

lemma unescape_shorter: "unescape s = Some (t, r) \<Longrightarrow> length r < length s"
  by (cases s) (auto simp: Let_def split: if_splits option.splits)

text \<open>A string after its opening quote, in strict mode: control characters are refused.\<close>

function (sequential) scan_string :: "string \<Rightarrow> (string \<times> string) option" where
  "scan_string [] = None"
| "scan_string (c # r) =
     (if c = CHR 0x22 then Some ([], r)
      else if code c < 32 then None
      else if c = CHR 0x5C then
        (case unescape r of None \<Rightarrow> None
         | Some (t, r') \<Rightarrow> map_option (\<lambda>(t', q). (t @ t', q)) (scan_string r'))
      else map_option (\<lambda>(t', q). (c # t', q)) (scan_string r))"
  by pat_completeness auto
termination
  by (relation "measure length") (auto dest: unescape_shorter)

section \<open>Numbers and values\<close>

text \<open>\<open>sys.int_info.default_max_str_digits\<close>: longer integers are a \<open>ValueError\<close>.\<close>

definition MAX_INT_DIGITS :: nat where "MAX_INT_DIGITS = 4300"

fun float_tail :: "string \<Rightarrow> bool" where
  "float_tail [] = False"
| "float_tail (c # r) =
     ((c = CHR ''.'' \<and> r \<noteq> [] \<and> is_digit (hd r))
      \<or> ((c = CHR ''e'' \<or> c = CHR ''E'') \<and>
          (let r' = (if r \<noteq> [] \<and> (hd r = CHR ''+'' \<or> hd r = CHR ''-'') then tl r else r)
           in r' \<noteq> [] \<and> is_digit (hd r'))))"

definition parse_number :: "string \<Rightarrow> (json \<times> string) res" where
  "parse_number s =
     (let neg = (s \<noteq> [] \<and> hd s = CHR ''-'');
          r = (if neg then tl s else s) in
      if r = [] \<or> \<not> is_digit (hd r) then
        (if startswith s ''NaN'' then Inl (ValidationError ''invalid JSON numeric constant: NaN'')
         else if startswith s ''Infinity'' then Inl (ValidationError ''invalid JSON numeric constant: Infinity'')
         else if startswith s ''-Infinity'' then Inl (ValidationError ''invalid JSON numeric constant: -Infinity'')
         else Inl bad_json)
      else let ds = (if hd r = CHR ''0'' then [hd r] else takeWhile is_digit r);
               q = drop (length ds) r in
        if float_tail q then Inl (ValidationError ''JSON floating-point values are not part of the IND protocol'')
        else if length ds > MAX_INT_DIGITS then Inl bad_json
        else Inr (JInt (if neg then - int (digits_value ds) else int (digits_value ds)), q))"

fun reject_duplicates :: "string set \<Rightarrow> (string \<times> json) list \<Rightarrow> unit res" where
  "reject_duplicates seen [] = Inr ()"
| "reject_duplicates seen ((k, v) # kvs) =
     (if k \<in> seen then Inl (ValidationError (''duplicate JSON object key: '' @ k))
      else reject_duplicates (insert k seen) kvs)"

fun parse_value :: "nat \<Rightarrow> string \<Rightarrow> (json \<times> string) res"
  and parse_elems :: "nat \<Rightarrow> string \<Rightarrow> (json list \<times> string) res"
  and parse_members :: "nat \<Rightarrow> string \<Rightarrow> ((string \<times> json) list \<times> string) res"
where
  "parse_value 0 s = Inl bad_json"
| "parse_value (Suc n) s =
     (if s = [] then Inl bad_json
      else if hd s = CHR 0x22 then
        (case scan_string (tl s) of None \<Rightarrow> Inl bad_json | Some (t, r) \<Rightarrow> Inr (JStr t, r))
      else if hd s = CHR ''{'' then
        (let r = skip_ws (tl s) in
         if r \<noteq> [] \<and> hd r = CHR ''}'' then Inr (JDict [], tl r)
         else bindE (parse_members n r) (\<lambda>(kvs, q). bindE (reject_duplicates {} kvs) (\<lambda>_. Inr (JDict kvs, q))))
      else if hd s = CHR ''['' then
        (let r = skip_ws (tl s) in
         if r \<noteq> [] \<and> hd r = CHR '']'' then Inr (JList [], tl r)
         else bindE (parse_elems n r) (\<lambda>(vs, q). Inr (JList vs, q)))
      else if startswith s ''null'' then Inr (JNull, drop 4 s)
      else if startswith s ''true'' then Inr (JBool True, drop 4 s)
      else if startswith s ''false'' then Inr (JBool False, drop 5 s)
      else parse_number s)"
| "parse_elems 0 s = Inl bad_json"
| "parse_elems (Suc n) s =
     bindE (parse_value n s) (\<lambda>(v, r). let q = skip_ws r in
       if q = [] then Inl bad_json
       else if hd q = CHR '']'' then Inr ([v], tl q)
       else if hd q = CHR '','' then bindE (parse_elems n (skip_ws (tl q))) (\<lambda>(vs, t). Inr (v # vs, t))
       else Inl bad_json)"
| "parse_members 0 s = Inl bad_json"
| "parse_members (Suc n) s =
     (if s = [] \<or> hd s \<noteq> CHR 0x22 then Inl bad_json
      else (case scan_string (tl s) of None \<Rightarrow> Inl bad_json
        | Some (k, r) \<Rightarrow> let r1 = skip_ws r in
            if r1 = [] \<or> hd r1 \<noteq> CHR '':'' then Inl bad_json
            else bindE (parse_value n (skip_ws (tl r1))) (\<lambda>(v, r2). let q = skip_ws r2 in
              if q = [] then Inl bad_json
              else if hd q = CHR ''}'' then Inr ([(k, v)], tl q)
              else if hd q = CHR '','' then bindE (parse_members n (skip_ws (tl q))) (\<lambda>(kvs, t). Inr ((k, v) # kvs, t))
              else Inl bad_json)))"

declare parse_value.simps [simp del] parse_elems.simps [simp del] parse_members.simps [simp del]

definition byte_order_mark :: string where
  "byte_order_mark = enc_cp 0xFEFF"

definition json_loads_strict :: "string \<Rightarrow> json res" where
  "json_loads_strict raw =
     (if startswith raw byte_order_mark then Inl bad_json
      else bindE (parse_value (2 * length raw + 2) (skip_ws raw)) (\<lambda>(v, r).
        if skip_ws r = [] then Inr v else Inl bad_json))"

section \<open>Packed wire text\<close>

definition WIRE_PACKED_PREFIX :: string where "WIRE_PACKED_PREFIX = ''indz1:''"
definition MAX_WIRE_COMPRESSED_BYTES :: nat where "MAX_WIRE_COMPRESSED_BYTES = 2 * 1024 * 1024"
definition MAX_WIRE_DECOMPRESSED_BYTES :: nat where "MAX_WIRE_DECOMPRESSED_BYTES = 8 * 1024 * 1024"

definition packed_json :: "platform \<Rightarrow> json \<Rightarrow> string res" where
  "packed_json P data =
     bindE (canonical_bytes data) (\<lambda>raw.
     if length raw > MAX_WIRE_DECOMPRESSED_BYTES then Inl (WireSizeError ''wire message is too large'')
     else let compressed = pf_zlib_compress P raw in
       if length compressed > MAX_WIRE_COMPRESSED_BYTES
       then Inl (WireSizeError ''compressed wire message is too large'')
       else Inr (WIRE_PACKED_PREFIX @ b85encode compressed))"

definition max_b85_encoded_size :: "nat \<Rightarrow> nat" where
  "max_b85_encoded_size n = (let full_groups = n div 4; remainder = n mod 4 in
     if remainder = 0 then full_groups * 5 else full_groups * 5 + remainder + 1)"

definition safe_zlib_decompress :: "platform \<Rightarrow> bytes \<Rightarrow> bytes res" where
  "safe_zlib_decompress P data =
     (case pf_zlib_inflate P data (MAX_WIRE_DECOMPRESSED_BYTES + 1) of
        None \<Rightarrow> Inl (ValidationError ''invalid compressed wire payload'')
      | Some (result, unconsumed_tail, flushed) \<Rightarrow>
          if unconsumed_tail \<or> length result > MAX_WIRE_DECOMPRESSED_BYTES
          then Inl (WireSizeError ''wire message expands beyond safety limit'')
          else if length (result @ flushed) > MAX_WIRE_DECOMPRESSED_BYTES
          then Inl (WireSizeError ''wire message expands beyond safety limit'')
          else Inr (result @ flushed))"

definition decode_utf8 :: "bytes \<Rightarrow> string \<Rightarrow> string res" where
  "decode_utf8 b msg = (if proper_text (text_of b) then Inr (text_of b) else Inl (ValidationError msg))"

text \<open>\<open>_unpacked_json\<close> on a \<open>str\<close>; on \<open>bytes\<close> it decodes first.\<close>

definition unpacked_json :: "platform \<Rightarrow> string \<Rightarrow> json res" where
  "unpacked_json P raw0 =
     (let raw = strip raw0 in
      bindE (utf8_length raw) (\<lambda>n.
      if n > MAX_WIRE_DECOMPRESSED_BYTES then Inl (WireSizeError ''wire message is too large'')
      else if startswith raw WIRE_PACKED_PREFIX then
        (let packed = drop (length WIRE_PACKED_PREFIX) raw in
         if length (cps packed) > max_b85_encoded_size MAX_WIRE_COMPRESSED_BYTES
         then Inl (WireSizeError ''compressed wire message is too large'')
         else (case b85decode packed of None \<Rightarrow> Inl (ValidationError ''invalid packed wire payload'')
           | Some compressed \<Rightarrow>
               if length compressed > MAX_WIRE_COMPRESSED_BYTES
               then Inl (WireSizeError ''compressed wire message is too large'')
               else bindE (safe_zlib_decompress P compressed) (\<lambda>d.
                    bindE (decode_utf8 d ''invalid compressed wire payload encoding'') json_loads_strict)))
      else json_loads_strict raw))"

definition unpacked_json_bytes :: "platform \<Rightarrow> bytes \<Rightarrow> json res" where
  "unpacked_json_bytes P b = bindE (decode_utf8 b ''invalid wire payload encoding'') (unpacked_json P)"

text \<open>\<open>_load_json\<close> and \<open>unpack_wire_message\<close>: a dict passes through.\<close>

datatype wire_input = WDict json | WText string | WBytes bytes

fun load_json :: "platform \<Rightarrow> wire_input \<Rightarrow> json res" where
  "load_json P (WDict v) = Inr v"
| "load_json P (WText t) = unpacked_json P t"
| "load_json P (WBytes b) = unpacked_json_bytes P b"

fun pack_wire_message :: "platform \<Rightarrow> wire_input \<Rightarrow> string res" where
  "pack_wire_message P (WDict v) = packed_json P v"
| "pack_wire_message P (WText t) =
     (if startswith (strip t) WIRE_PACKED_PREFIX then Inr (strip t)
      else bindE (json_loads_strict t) (packed_json P))"
| "pack_wire_message P (WBytes b) =
     (if \<not> proper_text (text_of b) then Inl (PyValueError ''invalid UTF-8'')
      else let t = text_of b in
        if startswith (strip t) WIRE_PACKED_PREFIX then Inr (strip t)
        else bindE (json_loads_strict t) (packed_json P))"

section \<open>Reading back strings and numbers\<close>

lemma option_map_hex: "list_all (\<lambda>d. d < 16) ds \<Longrightarrow> option_map hex_val (map hex_digit ds) = Some ds"
  by (induction ds) simp_all

lemma hex4_val_hex4 [simp]: "n < 65536 \<Longrightarrow> hex4_val (hex4 n) = Some n"
proof -
  assume "n < 65536"
  moreover have "list_all (\<lambda>d. d < 16) (digits 16 4 n)"
    by (auto simp: list_all_iff dest: digits_less [rotated])
  ultimately show ?thesis by (simp add: hex4_val_def hex4_def option_map_hex)
qed

lemma length_hex4 [simp]: "length (hex4 n) = 4"
  by (simp add: hex4_def)

lemma unescape_u:
  assumes "n < 65536" and "\<not> (0xD800 \<le> n \<and> n \<le> 0xDBFF)"
  shows "unescape (CHR ''u'' # hex4 n @ s) = Some (enc_cp n, s)"
  using assms by (auto simp: Let_def)

lemma unescape_pair:
  assumes "65536 \<le> n" and "n < 0x110000"
  shows "unescape (CHR ''u'' # hex4 (0xD800 + (n - 0x10000) div 1024)
      @ [CHR 0x5C, CHR ''u''] @ hex4 (0xDC00 + (n - 0x10000) mod 1024) @ s) = Some (enc_cp n, s)"
proof -
  let ?h = "0xD800 + (n - 0x10000) div 1024" and ?l = "0xDC00 + (n - 0x10000) mod 1024"
  have "(n - 0x10000) div 1024 < 1024" using assms by (simp add: div_less_iff_less_mult)
  moreover have "(n - 0x10000) mod 1024 < 1024" by simp
  ultimately have h: "?h < 65536" "0xD800 \<le> ?h" "?h \<le> 0xDBFF"
    and l: "?l < 65536" "0xDC00 \<le> ?l" "?l \<le> 0xDFFF" by linarith+
  have n: "0x10000 + (?h - 0xD800) * 1024 + (?l - 0xDC00) = n"
    using assms div_mult_mod_eq [of "n - 0x10000" 1024] by simp
  show ?thesis
    using h l n by (simp only: unescape.simps Let_def) (simp del: unescape.simps)
qed

lemma scan_plain: "c \<noteq> CHR 0x22 \<Longrightarrow> c \<noteq> CHR 0x5C \<Longrightarrow> 32 \<le> code c \<Longrightarrow>
    scan_string (c # s) = map_option (\<lambda>(t, q). (c # t, q)) (scan_string s)"
  by simp

lemma scan_backslash: "unescape r = Some (t, s) \<Longrightarrow>
    scan_string (CHR 0x5C # r) = map_option (\<lambda>(t', q). (t @ t', q)) (scan_string s)"
  by (simp add: code_def)

lemma escape_cases:
  obtains "n \<in> {34, 92, 10, 13, 9, 12, 8}" | "32 \<le> n" "n < 127" "n \<noteq> 34" "n \<noteq> 92"
  | "n < 65536" "n < 32 \<or> 127 \<le> n" "n \<notin> {10, 13, 9, 12, 8}" | "65536 \<le> (n :: nat)"
  by fastforce

lemma char_of_neq: "m < 256 \<Longrightarrow> k < 256 \<Longrightarrow> m \<noteq> k \<Longrightarrow> char_of (m :: nat) \<noteq> char_of (k :: nat)"
  by (metis code_char_of)

lemma quote_backslash_code: "CHR 0x22 = char_of (34 :: nat)" "CHR 0x5C = char_of (92 :: nat)"
  by (simp_all add: char_of_def bit_0)

lemma scan_escape_cp:
  assumes "scalar_value n"
  shows "scan_string (escape_cp n @ s) = map_option (\<lambda>(t, q). (enc_cp n @ t, q)) (scan_string s)"
proof (cases n rule: escape_cases)
  case 1
  then show ?thesis
    by (elim insertE emptyE) (simp_all add: escape_cp_def scan_backslash simple_escape_def enc_cp_def
        quote_backslash_code [symmetric] del: scan_string.simps)
next
  case 2
  then have "escape_cp n = [char_of n]" and "enc_cp n = [char_of n]"
    by (auto simp: escape_cp_def enc_cp_def)
  moreover have "scan_string (char_of n # s) = map_option (\<lambda>(t, q). (char_of n # t, q)) (scan_string s)"
    using 2 by (intro scan_plain) (simp_all add: quote_backslash_code char_of_neq)
  ultimately show ?thesis by simp
next
  case 3
  then have "escape_cp n = CHR 0x5C # CHR ''u'' # hex4 n" by (auto simp: escape_cp_def)
  moreover have "unescape (CHR ''u'' # hex4 n @ s) = Some (enc_cp n, s)"
    using 3 assms by (intro unescape_u) (auto simp: scalar_value_def surrogate_def)
  ultimately show ?thesis using scan_backslash by simp
next
  case 4
  then have "escape_cp n = CHR 0x5C # CHR ''u'' # hex4 (0xD800 + (n - 0x10000) div 1024)
      @ [CHR 0x5C, CHR ''u''] @ hex4 (0xDC00 + (n - 0x10000) mod 1024)"
    by (auto simp: escape_cp_def)
  moreover have "n < 0x110000" using assms by (simp add: scalar_value_def)
  ultimately show ?thesis
    using scan_backslash [OF unescape_pair [OF 4]] by (simp del: scan_string.simps)
qed

lemma scan_escaped:
  assumes "list_all scalar_value ns"
  shows "scan_string (concat (map escape_cp ns) @ CHR 0x22 # r) = Some (concat (map enc_cp ns), r)"
  using assms
proof (induction ns)
  case (Cons n ns)
  then have "scan_string (concat (map escape_cp ns) @ CHR 0x22 # r) = Some (concat (map enc_cp ns), r)"
    and "scalar_value n" by simp_all
  then show ?case by (simp only: list.map concat.simps append_assoc scan_escape_cp) simp
qed simp

lemma scan_quote_text:
  assumes "proper_text s"
  shows "scan_string (tl (quote_text s @ r)) = Some (s, r)"
  using assms scan_escaped [of "cps s" r] by (simp add: quote_text_def proper_text_def)

definition number_end :: "string \<Rightarrow> bool" where
  "number_end r = (r = [] \<or> hd r \<in> {CHR '','', CHR '']'', CHR ''}''})"

lemma takeWhile_digits:
  assumes "list_all is_digit ds" and "number_end r"
  shows "takeWhile is_digit (ds @ r) = ds"
proof -
  have "takeWhile is_digit r = []"
    using assms(2) by (cases r) (auto simp: number_end_def is_digit_def code_def)
  with assms(1) show ?thesis by (induction ds) auto
qed

lemma float_tail_end: "number_end r \<Longrightarrow> \<not> float_tail r"
  by (cases r) (auto simp: number_end_def)

lemma length_nat_text: "n < 10 ^ k \<Longrightarrow> 0 < k \<Longrightarrow> length (nat_text n) \<le> k"
proof (induction k arbitrary: n)
  case (Suc k)
  show ?case
  proof (cases "n < 10")
    case True
    then show ?thesis by (subst nat_text.simps) simp
  next
    case False
    with Suc.prems have "k \<noteq> 0" by (cases k) simp_all
    moreover from Suc.prems have "n div 10 < 10 ^ k" by (simp add: div_less_iff_less_mult mult.commute)
    ultimately have "length (nat_text (n div 10)) \<le> k" using Suc.IH by simp
    with False show ?thesis by (subst nat_text.simps) simp
  qed
qed simp

lemma nat_text_zero [simp]: "nat_text 0 = ''0''"
  by (subst nat_text.simps) (simp add: hex_digit_def)

lemma hd_nat_text_nonzero: "0 < n \<Longrightarrow> hd (nat_text n) \<noteq> CHR ''0''"
proof (induction n rule: nat_text.induct)
  case (1 n)
  show ?case
  proof (cases "n < 10")
    case True
    with 1(2) have "code (hex_digit n) \<noteq> 48" by (simp add: code_dec_digit)
    then have "hex_digit n \<noteq> CHR ''0''" by (auto simp: code_def)
    with True show ?thesis by (subst nat_text.simps) simp
  next
    case False
    then show ?thesis using 1 by (subst nat_text.simps) simp
  qed
qed

lemma hd_nat_text_digit: "is_digit (hd (nat_text n))"
  using nat_text_digits [of n] by (cases "nat_text n") simp_all

lemma minus_not_digit [simp]: "\<not> is_digit (CHR ''-'')"
  by (simp add: is_digit_def code_def)

lemma parse_number_int_text:
  assumes "abs i \<le> MAX_JSON_INTEGER_ABS" and "number_end r"
  shows "parse_number (int_text i @ r) = Inr (JInt i, r)"
proof -
  define n where "n = nat (abs i)"
  have it: "int_text i = (if i < 0 then CHR ''-'' # nat_text n else nat_text n)"
    by (simp add: int_text_def n_def)
  have "n < 10 ^ 19" using assms(1) by (simp add: n_def MAX_JSON_INTEGER_ABS_def)
  then have len: "length (nat_text n) \<le> MAX_INT_DIGITS"
    using length_nat_text [of n 19] by (simp add: MAX_INT_DIGITS_def)
  have tw: "takeWhile is_digit (nat_text n @ r) = nat_text n"
    by (rule takeWhile_digits [OF nat_text_digits assms(2)])
  have hd: "is_digit (hd (nat_text n))" by (rule hd_nat_text_digit)
  then have nm: "hd (nat_text n) \<noteq> CHR ''-''" by auto
  have nz: "n \<noteq> 0 \<Longrightarrow> hd (nat_text n) \<noteq> CHR ''0''" using hd_nat_text_nonzero [of n] by simp
  show ?thesis
  proof (cases "i < 0")
    case True
    then have "i = - int n" "n \<noteq> 0" by (simp_all add: n_def)
    with True len hd nz float_tail_end [OF assms(2)] show ?thesis
      unfolding parse_number_def it by (simp add: Let_def tw)
  next
    case False
    then have "i = int n" by (simp add: n_def)
    with False len hd nm nz float_tail_end [OF assms(2)] show ?thesis
      unfolding parse_number_def it by (cases "n = 0") (simp_all add: Let_def tw code_def)
  qed
qed

section \<open>Reading back canonical text\<close>

lemma quote_text_head: "quote_text s = CHR 0x22 # tl (quote_text s)"
  by (simp add: quote_text_def)

lemma number_head:
  "\<exists>c cs. int_text i = c # cs \<and> (is_digit c \<or> c = CHR ''-'')"
  using hd_nat_text_digit [of "nat i"] nat_text_not_Nil [of "nat i"]
  by (cases "nat_text (nat i)") (auto simp: int_text_def)

lemma digit_not_special:
  assumes "is_digit c \<or> c = CHR ''-''"
  shows "c \<noteq> CHR 0x22" "c \<noteq> CHR ''{''" "c \<noteq> CHR ''[''" "c \<noteq> CHR '']''" "c \<noteq> CHR ''n''"
    "c \<noteq> CHR ''t''" "c \<noteq> CHR ''f''" "\<not> is_json_ws c"
  using assms by (auto simp: is_digit_def is_json_ws_def code_def)

lemma dumps_head:
  assumes "json_wf v"
  shows "\<exists>c cs. dumps v = c # cs \<and> \<not> is_json_ws c \<and> c \<noteq> CHR '']'' \<and> code c < 128"
proof (cases v)
  case (JInt i)
  from number_head [of i] obtain c cs where c: "int_text i = c # cs" "is_digit c \<or> c = CHR ''-''" by blast
  from c(2) have "code c < 128" by (auto simp: is_digit_def code_def)
  with digit_not_special [OF c(2)] c(1) JInt show ?thesis by simp
next
  case (JStr s)
  then show ?thesis by (simp add: quote_text_def is_json_ws_def code_def)
qed (use assms in \<open>auto simp: is_json_ws_def code_def\<close>)

lemma skip_ws_id: "\<not> is_json_ws c \<Longrightarrow> skip_ws (c # s) = c # s"
  by (simp add: skip_ws_def)

lemma skip_ws_dumps: "json_wf v \<Longrightarrow> skip_ws (dumps v @ r) = dumps v @ r"
  using dumps_head [of v] by (auto simp: skip_ws_id)

lemma separator_not_ws [simp]:
  "\<not> is_json_ws (CHR '','')" "\<not> is_json_ws (CHR '']'')" "\<not> is_json_ws (CHR ''}'')"
  "\<not> is_json_ws (CHR '':'')" "\<not> is_json_ws (CHR 0x22)"
  by (simp_all add: is_json_ws_def code_def)

text \<open>The value at hand reads back whatever follows, with fuel for its length.\<close>

definition reads_back :: "json \<Rightarrow> bool" where
  "reads_back v = (\<forall>n r. length (dumps v) \<le> n \<longrightarrow> number_end r
     \<longrightarrow> parse_value (Suc n) (dumps v @ r) = Inr (norm v, r))"

lemma reads_backD: "reads_back v \<Longrightarrow> length (dumps v) \<le> n \<Longrightarrow> number_end r \<Longrightarrow>
    parse_value (Suc n) (dumps v @ r) = Inr (norm v, r)"
  by (simp add: reads_back_def)

lemma number_end_simps [simp]:
  "number_end (CHR '','' # r)" "number_end (CHR '']'' # r)" "number_end (CHR ''}'' # r)" "number_end []"
  by (simp_all add: number_end_def)

lemma join_comma_Cons: "xs \<noteq> [] \<Longrightarrow> join_comma (x # xs) = x @ CHR '','' # join_comma xs"
  by (cases xs) simp_all

lemma parse_elems_dumps:
  assumes "vs \<noteq> []" and "\<forall>v \<in> set vs. json_wf v \<and> reads_back v"
    and "length (join_comma (map dumps vs)) < n"
  shows "parse_elems (Suc n) (join_comma (map dumps vs) @ CHR '']'' # r) = Inr (map norm vs, r)"
  using assms
proof (induction vs arbitrary: n)
  case (Cons v vs)
  then obtain m where n: "n = Suc m" by (cases n) auto
  show ?case
  proof (cases "vs = []")
    case True
    with Cons.prems n have "parse_value n (dumps v @ CHR '']'' # r) = Inr (norm v, CHR '']'' # r)"
      by (simp add: reads_backD)
    with True show ?thesis by (simp add: skip_ws_id parse_elems.simps)
  next
    case False
    let ?t = "join_comma (map dumps vs) @ CHR '']'' # r"
    from False Cons.prems(3) n have len: "length (dumps v) \<le> m" "length (join_comma (map dumps vs)) < m"
      by (simp_all add: join_comma_Cons)
    have pv: "parse_value n (dumps v @ CHR '','' # ?t) = Inr (norm v, CHR '','' # ?t)"
      using Cons.prems(2) len unfolding n by (intro reads_backD) simp_all
    have pe: "parse_elems n ?t = Inr (map norm vs, r)"
      unfolding n using Cons.IH [OF False, of m] Cons.prems(2) len by simp
    have ws: "skip_ws ?t = ?t"
    proof -
      from False obtain u us where vs: "vs = u # us" by (cases vs) auto
      show ?thesis
        using Cons.prems(2) skip_ws_dumps unfolding vs by (cases us) simp_all
    qed
    have "join_comma (map dumps (v # vs)) @ CHR '']'' # r = dumps v @ CHR '','' # ?t"
      using False by (simp add: join_comma_Cons)
    then show ?thesis using pv pe ws by (simp add: skip_ws_id parse_elems.simps)
  qed
qed simp

lemma parse_members_dumps:
  fixes kvs :: "(string \<times> json) list"
  defines "item \<equiv> (\<lambda>(k, v). quote_text k @ '':'' @ dumps v)"
  assumes "kvs \<noteq> []" and "\<forall>(k, v) \<in> set kvs. proper_text k \<and> json_wf v \<and> reads_back v"
    and "length (join_comma (map item kvs)) < n"
  shows "parse_members (Suc n) (join_comma (map item kvs) @ CHR ''}'' # r)
    = Inr (map (map_prod id norm) kvs, r)"
  using assms(2-)
proof (induction kvs arbitrary: n)
  case (Cons kv kvs)
  obtain k v where kv: "kv = (k, v)" by (cases kv)
  from Cons.prems(2) kv have k: "proper_text k" and v: "json_wf v" "reads_back v" by simp_all
  from Cons.prems obtain m where n: "n = Suc m" by (cases n) auto
  have step: "parse_members (Suc n) (item kv @ t) = (case parse_value n (dumps v @ t) of Inl e \<Rightarrow> Inl e
      | Inr (w, r2) \<Rightarrow> let q = skip_ws r2 in
              if q = [] then Inl bad_json
              else if hd q = CHR ''}'' then Inr ([(k, w)], tl q)
              else if hd q = CHR '','' then bindE (parse_members n (skip_ws (tl q))) (\<lambda>(kvs, t). Inr ((k, w) # kvs, t))
              else Inl bad_json)" for t
  proof -
    have q: "item kv @ t = CHR 0x22 # (tl (quote_text k) @ CHR '':'' # dumps v @ t)"
      using quote_text_head [of k] unfolding item_def kv by (metis Cons_eq_appendI append.assoc append_self_conv2 case_prod_conv)
    have sc: "scan_string (tl (quote_text k) @ CHR '':'' # dumps v @ t) = Some (k, CHR '':'' # dumps v @ t)"
      using scan_quote_text [OF k, of "CHR '':'' # dumps v @ t"] by (simp add: quote_text_def)
    show ?thesis
      unfolding q by (simp add: sc skip_ws_id skip_ws_dumps [OF v(1)] bindE_def parse_members.simps split: sum.splits)
  qed
  show ?case
  proof (cases "kvs = []")
    case True
    with Cons.prems n kv have "parse_value n (dumps v @ CHR ''}'' # r) = Inr (norm v, CHR ''}'' # r)"
      using v by (simp add: reads_backD item_def)
    with True kv show ?thesis by (simp add: step [unfolded kv] skip_ws_id)
  next
    case False
    let ?t = "join_comma (map item kvs) @ CHR ''}'' # r"
    from False Cons.prems(3) n kv have len: "length (dumps v) \<le> m" "length (join_comma (map item kvs)) < m"
      by (simp_all add: join_comma_Cons item_def)
    have pv: "parse_value n (dumps v @ CHR '','' # ?t) = Inr (norm v, CHR '','' # ?t)"
      using v len unfolding n by (intro reads_backD) simp_all
    have pm: "parse_members n ?t = Inr (map (map_prod id norm) kvs, r)"
      unfolding n by (rule Cons.IH [OF False _ len(2)]) (use Cons.prems(2) in simp)
    have ws: "skip_ws ?t = ?t"
    proof -
      from False obtain u us where kvs: "kvs = u # us" by (cases kvs) auto
      obtain k' v' where u: "u = (k', v')" by (cases u)
      have "\<exists>t. join_comma (map item kvs) = quote_text k' @ t"
        unfolding kvs u by (cases us) (auto simp: item_def)
      then show ?thesis by (auto simp: quote_text_def skip_ws_id)
    qed
    have "join_comma (map item (kv # kvs)) @ CHR ''}'' # r = item kv @ CHR '','' # ?t"
      using False by (simp add: join_comma_Cons)
    then show ?thesis
      using pv pm ws kv by (simp add: step [unfolded kv] skip_ws_id id_def)
  qed
qed simp

lemma reject_duplicates_ok:
  "distinct (map fst kvs) \<Longrightarrow> seen \<inter> set (map fst kvs) = {} \<Longrightarrow> reject_duplicates seen kvs = Inr ()"
  by (induction kvs arbitrary: seen) (auto simp: image_iff)

lemma startswith_hd: "startswith s (c # p) \<Longrightarrow> s \<noteq> [] \<and> hd s = c"
  by (cases s) (auto simp: startswith_def)

lemma reads_back_number: "abs i \<le> MAX_JSON_INTEGER_ABS \<Longrightarrow> reads_back (JInt i)"
  unfolding reads_back_def
proof (intro allI impI)
  fix n r assume i: "abs i \<le> MAX_JSON_INTEGER_ABS" and r: "number_end r"
  from number_head [of i] obtain c cs where c: "int_text i = c # cs" "is_digit c \<or> c = CHR ''-''" by blast
  note ne = digit_not_special [OF c(2)]
  have "parse_value (Suc n) (int_text i @ r) = parse_number (int_text i @ r)"
    using ne startswith_hd [of "int_text i @ r"] unfolding c(1)
    by (subst parse_value.simps) (auto simp: startswith_def)
  then show "parse_value (Suc n) (dumps (JInt i) @ r) = Inr (norm (JInt i), r)"
    by (simp add: parse_number_int_text [OF i r])
qed

lemma reads_back_list:
  assumes "\<forall>v \<in> set vs. json_wf v \<and> reads_back v"
  shows "reads_back (JList vs)"
  unfolding reads_back_def
proof (intro allI impI)
  fix n r assume n: "length (dumps (JList vs)) \<le> n" and r: "number_end r"
  show "parse_value (Suc n) (dumps (JList vs) @ r) = Inr (norm (JList vs), r)"
  proof (cases "vs = []")
    case True
    then show ?thesis by (simp add: parse_value.simps skip_ws_id)
  next
    case False
    then obtain u us where vs: "vs = u # us" by (cases vs) auto
    from n obtain m where m: "n = Suc m" "length (join_comma (map dumps vs)) < m" by (cases n) auto
    let ?t = "join_comma (map dumps vs) @ CHR '']'' # r"
    have "\<exists>q. ?t = dumps u @ q" unfolding vs by (cases us) auto
    moreover from assms vs dumps_head [of u] obtain c cs where
      "dumps u = c # cs" "\<not> is_json_ws c" "c \<noteq> CHR '']''" by auto
    ultimately have "skip_ws ?t = ?t" "hd ?t \<noteq> CHR '']''" by (auto simp: skip_ws_id)
    moreover have "parse_elems n ?t = Inr (map norm vs, r)"
      unfolding m(1) using parse_elems_dumps [OF False assms m(2)] .
    ultimately show ?thesis by (simp add: parse_value.simps)
  qed
qed

lemma reads_back_dict:
  assumes "\<forall>(k, v) \<in> set kvs. proper_text k \<and> json_wf v \<and> reads_back v" and "distinct (map fst kvs)"
  shows "reads_back (JDict kvs)"
  unfolding reads_back_def
proof (intro allI impI)
  fix n r assume n: "length (dumps (JDict kvs)) \<le> n" and r: "number_end r"
  define item where "item = (\<lambda>(k, v). quote_text k @ '':'' @ dumps v)"
  define s where "s = sort_key fst kvs"
  have set_s: "set s = set kvs" and ds: "distinct (map fst s)"
    using assms(2) unfolding s_def by (simp_all add: distinct_map)
  have d: "dumps (JDict kvs) = ''{'' @ join_comma (map item s) @ ''}''"
  proof -
    have "map (\<lambda>(k, t). quote_text k @ '':'' @ t) (map (map_prod id dumps) s) = map item s"
      by (auto simp: item_def)
    then show ?thesis by (simp only: dumps.simps sort_key_map_snd s_def [symmetric])
  qed
  have nd: "norm (JDict kvs) = JDict (map (map_prod id norm) s)"
    by (simp add: s_def sort_key_map_snd)
  show "parse_value (Suc n) (dumps (JDict kvs) @ r) = Inr (norm (JDict kvs), r)"
  proof (cases "s = []")
    case True
    then show ?thesis unfolding d nd by (simp add: parse_value.simps skip_ws_id)
  next
    case False
    then obtain u us where su: "s = u # us" by (cases s) auto
    from n obtain m where m: "n = Suc m" "length (join_comma (map item s)) < m"
      unfolding d by (cases n) auto
    let ?t = "join_comma (map item s) @ CHR ''}'' # r"
    have "\<exists>q. ?t = quote_text (fst u) @ q" unfolding su by (cases us; cases u) (auto simp: item_def)
    then have t: "skip_ws ?t = ?t" "hd ?t \<noteq> CHR ''}''" by (auto simp: quote_text_def skip_ws_id)
    have "\<forall>(k, v) \<in> set s. proper_text k \<and> json_wf v \<and> reads_back v"
      unfolding set_s by (rule assms(1))
    then have "parse_members n ?t = Inr (map (map_prod id norm) s, r)"
      unfolding m(1) using parse_members_dumps [OF False] m(2) by (simp only: item_def)
    moreover have "reject_duplicates {} (map (map_prod id norm) s) = Inr ()"
      using ds by (intro reject_duplicates_ok) (simp_all add: comp_def)
    ultimately show ?thesis unfolding d nd using t by (simp add: parse_value.simps)
  qed
qed

lemma reads_back_valid:
  assumes "json_wf v" and "validate_json_value v label depth = Inr ()"
  shows "reads_back v"
  using assms
proof (induction v arbitrary: depth)
  case (JInt i)
  then show ?case by (intro reads_back_number) (auto simp: res_simps split: if_splits)
next
  case (JStr s)
  have "parse_value (Suc n) (quote_text s @ r) = Inr (JStr s, r)" for n r
  proof -
    have "hd (quote_text s @ r) = CHR 0x22" "quote_text s @ r \<noteq> []" by (simp_all add: quote_text_def)
    then show ?thesis
      using scan_quote_text [of s r] JStr.prems(1) by (subst parse_value.simps) simp
  qed
  then show ?case by (simp add: reads_back_def)
next
  case (JList vs)
  have "\<forall>v \<in> set vs. json_wf v \<and> reads_back v"
    using JList by (auto simp: list_all_iff res_simps split: if_splits)
  then show ?case by (rule reads_back_list)
next
  case (JDict kvs)
  have "proper_text k \<and> json_wf v \<and> reads_back v" if kv: "(k, v) \<in> set kvs" for k v
  proof -
    from JDict.prems(1) kv have "proper_text k" "json_wf v" by (auto simp: list_all_iff)
    moreover have "validate_json_value v label (depth + 1) = Inr ()"
      using JDict.prems(2) kv by (fastforce simp: res_simps split: if_splits)
    ultimately show ?thesis using JDict.IH [OF kv] by (auto simp: snds.simps)
  qed
  then show ?case using JDict.prems(1) by (intro reads_back_dict) auto
qed (simp_all add: reads_back_def parse_value.simps startswith_def)

text \<open>Reading canonical text gives the value back, its dicts in sorted order.\<close>

lemma json_loads_canonical:
  assumes "json_wf v" and "canonical_json v = Inr t"
  shows "json_loads_strict t = Inr (norm v)"
proof -
  from assms(2) have val: "validate_json_value v ''protocol object'' 0 = Inr ()" and t: "t = dumps v"
    by (auto simp: canonical_json_def res_simps)
  obtain c cs where c: "dumps v = c # cs" "\<not> is_json_ws c" "code c < 128" using dumps_head [OF assms(1)] by blast
  have "hd byte_order_mark \<noteq> c"
    using c(3) code_char_of [of 239] by (auto simp: byte_order_mark_def enc_cp_def)
  then have "\<not> startswith t byte_order_mark"
    using startswith_hd [of t "hd byte_order_mark" "tl byte_order_mark"] c(1) t
    by (auto simp: byte_order_mark_def enc_cp_def)
  moreover have "parse_value (Suc (2 * length t + 1)) (dumps v @ []) = Inr (norm v, [])"
    by (rule reads_backD [OF reads_back_valid [OF assms(1) val]]) (simp_all add: t)
  moreover have "skip_ws (dumps v @ []) = dumps v @ []" by (rule skip_ws_dumps [OF assms(1)])
  ultimately show ?thesis by (simp add: json_loads_strict_def t skip_ws_def)
qed

section \<open>Fuel\<close>

lemma length_skip_ws: "length (skip_ws s) \<le> length s"
  by (simp add: skip_ws_def length_dropWhile_le)

lemma scan_string_shorter: "scan_string s = Some (t, r) \<Longrightarrow> length r < length s"
proof (induction s arbitrary: t rule: scan_string.induct)
  case (2 c s)
  show ?case
  proof (cases "unescape s")
    case None
    with 2 show ?thesis by (fastforce split: if_splits)
  next
    case (Some p)
    then obtain a q where "unescape s = Some (a, q)" by (cases p) auto
    with 2 unescape_shorter [OF this] show ?thesis by (fastforce split: if_splits)
  qed
qed simp

lemma parse_number_shorter: "parse_number s = Inr (v, r) \<Longrightarrow> length r < length s"
  by (auto simp: parse_number_def Let_def neq_Nil_conv split: if_splits)

lemma tl_shorter: "s \<noteq> [] \<Longrightarrow> length (tl s) < length s"
  by (cases s) simp_all

lemma parse_shorter:
  "parse_value n s = Inr (v, r) \<Longrightarrow> length r < length s"
  "parse_elems n s = Inr (vs, r) \<Longrightarrow> length r < length s"
  "parse_members n s = Inr (kvs, r) \<Longrightarrow> length r < length s"
proof (induction n s and n s and n s arbitrary: v r and vs r and kvs r
    rule: parse_value_parse_elems_parse_members.induct)
  case (2 n s)
  note ws = length_skip_ws [of "tl s"]
  show ?case
  proof (cases "s = []")
    case False
    note tl = tl_shorter [OF this]
    consider (str) t where "scan_string (tl s) = Some (t, r)"
      | (empty) "r = tl (skip_ws (tl s))"
      | (members) kvs where "parse_members n (skip_ws (tl s)) = Inr (kvs, r)" "hd s = CHR ''{''"
          "hd s \<noteq> CHR 0x22" "\<not> (skip_ws (tl s) \<noteq> [] \<and> hd (skip_ws (tl s)) = CHR ''}'')"
      | (elems) vs where "parse_elems n (skip_ws (tl s)) = Inr (vs, r)" "hd s = CHR ''[''"
          "\<not> (skip_ws (tl s) \<noteq> [] \<and> hd (skip_ws (tl s)) = CHR '']'')"
      | (const) "r = drop 4 s \<or> r = drop 5 s"
      | (number) "parse_number s = Inr (v, r)"
      using 2(3) by (auto simp: parse_value.simps Let_def res_simps split: if_splits option.splits)
    then show ?thesis
    proof cases
      case str
      with scan_string_shorter tl show ?thesis by fastforce
    next
      case members
      with 2(1) [OF False _ _ refl] tl ws show ?thesis by fastforce
    next
      case elems
      with 2(2) [OF False _ _ _ refl] tl ws show ?thesis by fastforce
    next
      case const
      with False show ?thesis by auto
    qed (use tl ws parse_number_shorter in \<open>auto simp: less_le_trans\<close>)
  qed (use 2 in \<open>simp add: parse_value.simps\<close>)
next
  case (4 n s)
  from 4(3) obtain v q where v: "parse_value n s = Inr (v, q)" by (auto simp: parse_elems.simps res_simps)
  from 4(1) [OF v] have q: "length q < length s" .
  consider "r = tl (skip_ws q)"
    | ws where "parse_elems n (skip_ws (tl (skip_ws q))) = Inr (ws, r)"
        "skip_ws q \<noteq> []" "hd (skip_ws q) = CHR '',''"
    using 4(3) v by (auto simp: parse_elems.simps res_simps Let_def split: if_splits)
  then show ?case
  proof cases
    case 1
    then show ?thesis using q length_skip_ws [of q] by (simp add: less_le_trans)
  next
    case 2
    with 4(2) [OF v refl refl] have "length r < length (skip_ws (tl (skip_ws q)))" by auto
    with q length_skip_ws [of q] length_skip_ws [of "tl (skip_ws q)"] show ?thesis by simp
  qed
next
  case (6 n s)
  from 6(3) have ne: "s \<noteq> []" by (auto simp: parse_members.simps)
  from 6(3) obtain k a v q where k: "scan_string (tl s) = Some (k, a)"
    and v: "parse_value n (skip_ws (tl (skip_ws a))) = Inr (v, q)"
    by (auto simp: parse_members.simps res_simps Let_def split: if_splits option.splits)
  from 6(3) k have c: "\<not> (s = [] \<or> hd s \<noteq> CHR 0x22)" "\<not> (skip_ws a = [] \<or> hd (skip_ws a) \<noteq> CHR '':'')"
    by (auto simp: parse_members.simps Let_def split: if_splits)
  from 6(1) [OF c(1) k refl refl c(2) v] have q: "length q < length (skip_ws (tl (skip_ws a)))" .
  have "length (skip_ws (tl (skip_ws a))) < length s"
    using scan_string_shorter [OF k] tl_shorter [OF ne] length_skip_ws [of a] length_skip_ws [of "tl (skip_ws a)"]
    by simp
  with q have q: "length q < length s" by simp
  consider "r = tl (skip_ws q)"
    | ws where "parse_members n (skip_ws (tl (skip_ws q))) = Inr (ws, r)"
        "skip_ws q \<noteq> []" "hd (skip_ws q) = CHR '',''"
    using 6(3) v k c by (auto simp: parse_members.simps res_simps Let_def split: if_splits)
  then show ?case
  proof cases
    case 1
    then show ?thesis using q length_skip_ws [of q] by (simp add: less_le_trans)
  next
    case 2
    with 6(2) [OF c(1) k refl refl c(2) v refl refl] have "length r < length (skip_ws (tl (skip_ws q)))" by auto
    with q length_skip_ws [of q] length_skip_ws [of "tl (skip_ws q)"] show ?thesis by simp
  qed
qed (simp_all add: parse_value.simps parse_elems.simps parse_members.simps)

lemma parse_same:
  "2 * length s + 1 \<le> n \<Longrightarrow> 2 * length s + 1 \<le> m \<Longrightarrow> parse_value n s = parse_value m s"
  "2 * length s + 2 \<le> n \<Longrightarrow> 2 * length s + 2 \<le> m \<Longrightarrow> parse_elems n s = parse_elems m s"
  "2 * length s + 1 \<le> n \<Longrightarrow> 2 * length s + 1 \<le> m \<Longrightarrow> parse_members n s = parse_members m s"
proof (induction n s and n s and n s arbitrary: m and m and m
    rule: parse_value_parse_elems_parse_members.induct)
  case (2 n s)
  from 2(4) obtain k where m: "m = Suc k" by (cases m) auto
  show ?case
  proof (cases "s = []")
    case True
    then show ?thesis unfolding m by (simp add: parse_value.simps)
  next
    case False
    let ?r = "skip_ws (tl s)"
    from tl_shorter [OF False] length_skip_ws [of "tl s"] have "length ?r < length s" by simp
    with 2(3,4) m have fuel: "2 * length ?r + 2 \<le> n" "2 * length ?r + 2 \<le> k" by simp_all
    have obj: "parse_members n ?r = parse_members k ?r"
      if "hd s \<noteq> CHR 0x22" "hd s = CHR ''{''" "\<not> (?r \<noteq> [] \<and> hd ?r = CHR ''}'')"
      using 2(1) [OF False that(1,2) refl that(3), of k] fuel by simp
    have arr: "parse_elems n ?r = parse_elems k ?r"
      if "hd s \<noteq> CHR 0x22" "hd s \<noteq> CHR ''{''" "hd s = CHR ''[''" "\<not> (?r \<noteq> [] \<and> hd ?r = CHR '']'')"
      using 2(2) [OF False that(1,2,3) refl that(4), of k] fuel by simp
    show ?thesis
      unfolding m parse_value.simps Let_def using obj arr by (cases "?r = []") (simp_all cong: if_cong)
  qed
next
  case (4 n s)
  from 4(4) obtain k where m: "m = Suc k" by (cases m) auto
  have pv: "parse_value n s = parse_value k s" using 4(1) [of k] 4(3,4) m by simp
  show ?case
  proof (cases "parse_value k s")
    case (Inr p)
    then obtain v q where v: "parse_value k s = Inr (v, q)" by (cases p) auto
    with parse_shorter(1) have q: "length q < length s" by blast
    show ?thesis
    proof (cases "skip_ws q = [] \<or> hd (skip_ws q) \<noteq> CHR '',''")
      case True
      then show ?thesis unfolding m by (auto simp: parse_elems.simps pv v Let_def)
    next
      case False
      let ?t = "skip_ws (tl (skip_ws q))"
      have "length ?t < length s"
        using q length_skip_ws [of q] length_skip_ws [of "tl (skip_ws q)"] by simp
      then have "parse_elems n ?t = parse_elems k ?t"
        using 4(2) [of "(v, q)" v q "skip_ws q" k] v pv False 4(3,4) m by auto
      then show ?thesis using False unfolding m by (simp add: parse_elems.simps pv v Let_def)
    qed
  qed (simp add: m parse_elems.simps pv)
next
  case (6 n s)
  from 6(4) obtain l where m: "m = Suc l" by (cases m) auto
  show ?case
  proof (cases "s = [] \<or> hd s \<noteq> CHR 0x22 \<or> scan_string (tl s) = None")
    case True
    then show ?thesis unfolding m by (auto simp: parse_members.simps)
  next
    case False
    then obtain k a where k: "scan_string (tl s) = Some (k, a)" by auto
    let ?a = "skip_ws a"
    have la: "length ?a < length s"
      using scan_string_shorter [OF k] length_skip_ws [of a] False by (cases s) auto
    show ?thesis
    proof (cases "?a = [] \<or> hd ?a \<noteq> CHR '':''")
      case True
      then show ?thesis using k unfolding m by (simp add: parse_members.simps Let_def)
    next
      case a: False
      let ?b = "skip_ws (tl ?a)"
      have lb: "length ?b < length s" using la length_skip_ws [of "tl ?a"] by simp
      have c: "\<not> (s = [] \<or> hd s \<noteq> CHR 0x22)" using False by blast
      have pv: "parse_value n ?b = parse_value l ?b"
        using 6(1) [OF c k refl refl a, of l] lb 6(3,4) m by simp
      show ?thesis
      proof (cases "parse_value l ?b")
        case (Inr p)
        then obtain v q where v: "parse_value l ?b = Inr (v, q)" by (cases p) auto
        with parse_shorter(1) lb have q: "length q < length s" by fastforce
        show ?thesis
        proof (cases "skip_ws q = [] \<or> hd (skip_ws q) \<noteq> CHR '',''")
          case True
          then show ?thesis using k a False unfolding m by (auto simp: parse_members.simps pv v Let_def)
        next
          case q': False
          let ?t = "skip_ws (tl (skip_ws q))"
          have "length ?t < length s"
            using q length_skip_ws [of q] length_skip_ws [of "tl (skip_ws q)"] by simp
          then have "parse_members n ?t = parse_members l ?t"
            using 6(2) [OF c k refl refl a, of "(v, q)" v q "skip_ws q" l] v pv q' 6(3,4) m by auto
          then show ?thesis using k a False q' unfolding m by (simp add: parse_members.simps pv v Let_def)
        qed
      qed (use k a False in \<open>simp add: m parse_members.simps pv Let_def\<close>)
    qed
  qed
qed simp_all

lemma parse_fuel_enough: "2 * length s + 2 \<le> n \<Longrightarrow> parse_value n s = parse_value (2 * length s + 2) s"
  by (rule parse_same) simp_all

section \<open>Texts and values\<close>

lemma dumps_norm [simp]: "dumps (norm v) = dumps v"
proof (induction v)
  case (JList vs)
  then have "map dumps (map norm vs) = map dumps vs" by simp
  then show ?case by (simp only: norm.simps dumps.simps)
next
  case (JDict kvs)
  then have eq: "map (map_prod id dumps) (map (map_prod id norm) kvs) = map (map_prod id dumps) kvs"
    by (auto simp: snds.simps map_prod_def split_beta)
  have "sort_key fst (map (map_prod id dumps) (sort_key fst (map (map_prod id norm) kvs)))
      = sort_key fst (map (map_prod id dumps) kvs)"
    by (simp only: sort_key_map_snd [symmetric] eq sort_key_idem)
  then show ?case by (simp only: norm.simps dumps.simps)
qed simp_all

lemma canonical_json_inject:
  assumes "json_wf v" "json_wf w" "canonical_json v = Inr t" "canonical_json w = Inr t"
  shows "norm v = norm w"
  using json_loads_canonical [OF assms(1,3)] json_loads_canonical [OF assms(2,4)] by simp

lemma canonical_json_order:
  assumes "norm v = norm w" "canonical_json v = Inr t" "is_ok (canonical_json w)"
  shows "canonical_json w = Inr t"
  using assms dumps_norm [of v] dumps_norm [of w]
  by (auto simp: canonical_json_def res_simps is_ok_iff)

section \<open>Packed texts\<close>

lemma dumps_ascii: "json_wf v \<Longrightarrow> is_ascii (dumps v)"
proof -
  have hex4: "is_ascii (hex4 n)" for n
    by (auto simp: hex4_def is_ascii_def list_all_iff dest!: digits_less [rotated])
  have app: "is_ascii (s @ t) \<longleftrightarrow> is_ascii s \<and> is_ascii t" for s t by (simp add: is_ascii_def)
  have lits: "is_ascii [CHR 0x5C]" "is_ascii [CHR 0x22]" "is_ascii [CHR 0x5C, CHR ''u'']"
    by (simp_all add: is_ascii_def code_def)
  have esc: "is_ascii (escape_cp n)" for n
    using hex4 lits by (auto simp: escape_cp_def app is_ascii_def [of "[_]"] is_ascii_def [of "[_, _]"] code_def
        simp del: append.simps)
  have cat: "(\<And>s. s \<in> set ss \<Longrightarrow> is_ascii s) \<Longrightarrow> is_ascii (concat ss)" for ss
    by (auto simp: is_ascii_def list_all_iff)
  have quote: "is_ascii (quote_text s)" for s
    using lits esc by (auto simp: quote_text_def app simp del: append.simps intro!: cat)
  have join: "(\<And>s. s \<in> set ss \<Longrightarrow> is_ascii s) \<Longrightarrow> is_ascii (join_comma ss)" for ss
    by (induction ss rule: join_comma.induct) (auto simp: is_ascii_def code_def)
  have digits: "is_ascii (nat_text n)" for n
    using nat_text_digits [of n] by (auto simp: is_ascii_def list_all_iff is_digit_def)
  have int: "is_ascii (int_text i)" for i
    using digits by (auto simp: int_text_def is_ascii_def code_def)
  show "json_wf v \<Longrightarrow> is_ascii (dumps v)"
  proof (induction v)
    case (JList vs)
    then have "is_ascii (join_comma (map dumps vs))" by (intro join) (auto simp: list_all_iff)
    then show ?case by (simp add: is_ascii_def code_def)
  next
    case (JDict kvs)
    have "is_ascii (join_comma (map (\<lambda>(k, t). quote_text k @ '':'' @ t) (sort_key fst (map (map_prod id dumps) kvs))))"
    proof (rule join)
      fix s assume "s \<in> set (map (\<lambda>(k, t). quote_text k @ '':'' @ t) (sort_key fst (map (map_prod id dumps) kvs)))"
      then obtain k v where kv: "(k, v) \<in> set kvs" "s = quote_text k @ '':'' @ dumps v" by auto
      with JDict have "is_ascii (dumps v)" by (auto simp: list_all_iff snds.simps)
      with quote [of k] kv(2) show "is_ascii s" by (simp add: is_ascii_def code_def)
    qed
    then show ?case by (simp add: is_ascii_def code_def)
  qed (auto simp: int quote, auto simp: is_ascii_def code_def)
qed

lemma b85_size: "length (b85encode bs) = max_b85_encoded_size (length bs)"
  by (simp add: length_b85encode_any max_b85_encoded_size_def)

lemma max_b85_bound: "n \<le> 2097152 \<Longrightarrow> max_b85_encoded_size n \<le> 2621440"
proof -
  assume n: "n \<le> 2097152"
  define q r where "q = n div 4" and "r = n mod 4"
  have "n = 4 * q + r" "r < 4" by (simp_all add: q_def r_def)
  with n have "5 * q + (if r = 0 then 0 else r + 1) \<le> 2621440" by (auto; presburger)
  then show ?thesis by (auto simp: max_b85_encoded_size_def Let_def q_def r_def mult.commute)
qed

text \<open>What \<open>_packed_json\<close> packs, \<open>_unpacked_json\<close> unpacks to an equal value.\<close>

lemma unpacked_packed:
  assumes "zlib_ok P" and "json_wf v" and "packed_json P v = Inr t"
  shows "unpacked_json P t = Inr (norm v)"
proof -
  from assms(3) obtain s where s: "canonical_json v = Inr s" "length s \<le> MAX_WIRE_DECOMPRESSED_BYTES"
    and c: "length (pf_zlib_compress P (utf8 s)) \<le> MAX_WIRE_COMPRESSED_BYTES"
    and t: "t = WIRE_PACKED_PREFIX @ b85encode (pf_zlib_compress P (utf8 s))"
    by (auto simp: packed_json_def canonical_bytes_def res_simps Let_def)
  let ?c = "pf_zlib_compress P (utf8 s)"
  have "s = dumps v" using s(1) by (auto simp: canonical_json_def res_simps)
  with dumps_ascii [OF assms(2)] have ascii: "is_ascii s" by simp
  have plain: "is_ascii t" "list_all (\<lambda>c. \<not> is_space c) t"
    unfolding t using b85encode_plain [of ?c]
    by (simp_all add: WIRE_PACKED_PREFIX_def is_ascii_def is_space_def code_def)
  have strip: "strip t = t" by (rule strip_no_space [OF plain(2)])
  have size: "length (b85encode ?c) \<le> 2621440" "length (b85encode ?c) \<le> max_b85_encoded_size MAX_WIRE_COMPRESSED_BYTES"
    using max_b85_bound [of "length ?c"] c
    by (simp_all add: b85_size MAX_WIRE_COMPRESSED_BYTES_def max_b85_encoded_size_def [of 2097152])
  have len: "utf8_length t = Inr (length t)" "length t \<le> MAX_WIRE_DECOMPRESSED_BYTES"
    using plain(1) proper_text_encodable [OF proper_text_ascii] size(1)
    by (simp_all add: utf8_length_def t WIRE_PACKED_PREFIX_def MAX_WIRE_DECOMPRESSED_BYTES_def)
  have "pf_zlib_inflate P ?c (MAX_WIRE_DECOMPRESSED_BYTES + 1) = Some (utf8 s, False, [])"
    using assms(1) s(2) by (simp add: zlib_ok_def)
  then have inflate: "safe_zlib_decompress P ?c = Inr (utf8 s)"
    using s(2) by (simp add: safe_zlib_decompress_def)
  have dec: "decode_utf8 (utf8 s) m = Inr s" for m
    using ascii by (simp add: decode_utf8_def)
  have "cps (b85encode ?c) = map code (b85encode ?c)"
    by (rule cps_ascii) (use b85encode_plain in blast)
  then have chars: "length (cps (b85encode ?c)) = length (b85encode ?c)" by simp
  have packed: "startswith t WIRE_PACKED_PREFIX" "drop (length WIRE_PACKED_PREFIX) t = b85encode ?c"
    by (simp_all add: t)
  have "unpacked_json P t = json_loads_strict s"
    unfolding unpacked_json_def Let_def strip len(1) bindE_simps packed(2) chars b85decode_b85encode
      option.case inflate dec
    using len(2) size(2) c packed(1) by (simp only: if_True if_False linorder_not_less [symmetric])
  then show ?thesis using json_loads_canonical [OF assms(2) s(1)] by simp
qed

lemma plain_json_unpacked:
  assumes "json_wf v" and "canonical_json v = Inr s" and "length s \<le> MAX_WIRE_DECOMPRESSED_BYTES"
    and "\<exists>kvs. v = JDict kvs"
  shows "unpacked_json P s = Inr (norm v)"
proof -
  from assms(2) have d: "s = dumps v" by (auto simp: canonical_json_def res_simps)
  with assms(4) obtain b where s: "s = CHR ''{'' # b @ ''}''" by auto
  have strip: "strip s = s" unfolding s by (rule strip_id) (simp add: is_space_def code_def)
  have "is_ascii s" using dumps_ascii [OF assms(1)] d by simp
  then have "utf8_length s = Inr (length s)"
    by (simp add: utf8_length_def proper_text_encodable)
  moreover have "\<not> startswith s WIRE_PACKED_PREFIX"
    by (simp add: s startswith_def WIRE_PACKED_PREFIX_def)
  ultimately show ?thesis
    using assms(3) strip json_loads_canonical [OF assms(1,2)] by (simp add: unpacked_json_def)
qed

end
