(* ===== verification/KeysV3.thy ===== *)
theory KeysV3
  imports Platform Base85
begin

text \<open>
  \<open>src/ind/crypto_ed25519.py\<close> and \<open>src/ind/keys_v3.py\<close>: raw Ed25519 calls with their length
  guards, the text forms \<open>indsk3:\<close> and \<open>indpk3:\<close> of keys, and the 33-character \<open>x3...x\<close> addresses
  with their checksum. The cryptography package and base58 are fields of the platform.
\<close>

section \<open>Ed25519\<close>

definition PRIVATE_SEED_BYTES :: nat where "PRIVATE_SEED_BYTES = 32"
definition PUBLIC_KEY_BYTES :: nat where "PUBLIC_KEY_BYTES = 32"
definition SIGNATURE_BYTES :: nat where "SIGNATURE_BYTES = 64"

definition require_bytes :: "bytes \<Rightarrow> nat \<Rightarrow> string \<Rightarrow> bytes res" where
  "require_bytes v n label = (if length v \<noteq> n
     then Inl (ValidationError (label @ '' must be exactly '' @ nat_text n @ '' bytes'')) else Inr v)"

text \<open>The key objects of the package are represented by the raw bytes they are loaded from.\<close>

definition private_key_from_seed :: "bytes \<Rightarrow> bytes res" where
  "private_key_from_seed seed = require_bytes seed PRIVATE_SEED_BYTES ''Ed25519 private seed''"

definition public_key_from_private_seed :: "platform \<Rightarrow> bytes \<Rightarrow> bytes res" where
  "public_key_from_private_seed P seed = bindE (private_key_from_seed seed) (\<lambda>k. Inr (pf_ed_public P k))"

definition public_key_from_bytes :: "bytes \<Rightarrow> bytes res" where
  "public_key_from_bytes pk = require_bytes pk PUBLIC_KEY_BYTES ''Ed25519 public key''"

definition ed25519_verify :: "platform \<Rightarrow> bytes \<Rightarrow> bytes \<Rightarrow> bytes \<Rightarrow> bool" where
  "ed25519_verify P pk signature message =
     (if length signature \<noteq> SIGNATURE_BYTES then False
      else (case public_key_from_bytes pk of Inl _ \<Rightarrow> False | Inr k \<Rightarrow> pf_ed_verify P k signature message))"

definition ed25519_sign_unverified :: "platform \<Rightarrow> bytes \<Rightarrow> bytes \<Rightarrow> bytes res" where
  "ed25519_sign_unverified P seed message =
     bindE (private_key_from_seed seed) (\<lambda>k.
     let s = pf_ed_sign P k message in
     if length s \<noteq> SIGNATURE_BYTES then Inl (ValidationError ''invalid Ed25519 signature length'') else Inr s)"

definition ed25519_sign :: "platform \<Rightarrow> bytes \<Rightarrow> bytes \<Rightarrow> bytes res" where
  "ed25519_sign P seed message =
     bindE (private_key_from_seed seed) (\<lambda>k.
     let s = pf_ed_sign P k message in
     if length s \<noteq> SIGNATURE_BYTES then Inl (ValidationError ''invalid Ed25519 signature length'')
     else if \<not> ed25519_verify P (pf_ed_public P k) s message
     then Inl (ValidationError ''Ed25519 sign-then-verify failed'') else Inr s)"

section \<open>Key texts\<close>

definition PRIVATE_KEY_PREFIX :: string where "PRIVATE_KEY_PREFIX = ''indsk3:''"
definition PUBLIC_KEY_PREFIX :: string where "PUBLIC_KEY_PREFIX = ''indpk3:''"

definition b85_decode_exact :: "string \<Rightarrow> nat \<Rightarrow> string \<Rightarrow> bytes res" where
  "b85_decode_exact txt n label =
     (if txt \<noteq> strip txt then Inl (ValidationError (''invalid '' @ label))
      else case (if is_ascii txt then b85decode txt else None) of
        None \<Rightarrow> Inl (ValidationError (''invalid '' @ label))
      | Some raw \<Rightarrow> if length raw \<noteq> n
          then Inl (ValidationError (label @ '' must decode to exactly '' @ nat_text n @ '' bytes''))
          else Inr raw)"

definition encode_private_key :: "bytes \<Rightarrow> string res" where
  "encode_private_key seed = bindE (require_bytes seed PRIVATE_SEED_BYTES ''V3 private seed'')
     (\<lambda>s. Inr (PRIVATE_KEY_PREFIX @ b85encode s))"

definition decode_private_key :: "string \<Rightarrow> bytes res" where
  "decode_private_key t = (if \<not> startswith t PRIVATE_KEY_PREFIX
     then Inl (ValidationError ''invalid V3 private key'')
     else b85_decode_exact (drop (length PRIVATE_KEY_PREFIX) t) PRIVATE_SEED_BYTES ''V3 private key'')"

definition encode_public_key :: "bytes \<Rightarrow> string res" where
  "encode_public_key pk = bindE (require_bytes pk PUBLIC_KEY_BYTES ''V3 public key'')
     (\<lambda>k. Inr (PUBLIC_KEY_PREFIX @ b85encode k))"

definition decode_public_key :: "string \<Rightarrow> bytes res" where
  "decode_public_key t = (if \<not> startswith t PUBLIC_KEY_PREFIX
     then Inl (ValidationError ''invalid V3 public key'')
     else b85_decode_exact (drop (length PUBLIC_KEY_PREFIX) t) PUBLIC_KEY_BYTES ''V3 public key'')"

text \<open>A public key is passed as raw bytes or as its text.\<close>

datatype public_key = PkBytes bytes | PkText string

fun public_key_bytes :: "public_key \<Rightarrow> bytes res" where
  "public_key_bytes (PkBytes b) = require_bytes b PUBLIC_KEY_BYTES ''V3 public key''"
| "public_key_bytes (PkText t) = decode_public_key t"

section \<open>Addresses\<close>

definition ADDRESS_PREFIX :: string where "ADDRESS_PREFIX = ''x''"
definition ADDRESS_VERSION :: string where "ADDRESS_VERSION = ''3''"
definition ADDRESS_SUFFIX :: string where "ADDRESS_SUFFIX = ''x''"
definition ADDRESS_CHECKSUM_BYTES :: nat where "ADDRESS_CHECKSUM_BYTES = 4"
definition ADDRESS_CHECKSUM_CHARS :: nat where "ADDRESS_CHECKSUM_CHARS = 6"
definition ADDRESS_TARGET_LENGTH :: nat where "ADDRESS_TARGET_LENGTH = 33"

definition ADDRESS_PAYLOAD_CHARS :: nat where
  "ADDRESS_PAYLOAD_CHARS = ADDRESS_TARGET_LENGTH
     - (length ADDRESS_PREFIX + length ADDRESS_VERSION + ADDRESS_CHECKSUM_CHARS + length ADDRESS_SUFFIX)"

definition ADDRESS_LENGTH :: nat where
  "ADDRESS_LENGTH = length ADDRESS_PREFIX + length ADDRESS_VERSION + ADDRESS_PAYLOAD_CHARS
     + ADDRESS_CHECKSUM_CHARS + length ADDRESS_SUFFIX"

definition rjust :: "nat \<Rightarrow> char \<Rightarrow> string \<Rightarrow> string" where
  "rjust n c s = replicate (n - length s) c @ s"

definition fixed_base58 :: "platform \<Rightarrow> bytes \<Rightarrow> nat \<Rightarrow> string res" where
  "fixed_base58 P data n = (let encoded = pf_b58encode P data in
     if length encoded > n then Inl (ValidationError ''address checksum encoding overflow'')
     else Inr (rjust n (CHR ''1'') encoded))"

definition base58_text :: "string \<Rightarrow> bool" where
  "base58_text s = list_all (\<lambda>c. c \<in> set base58_alphabet) s"

definition address_payload :: "platform \<Rightarrow> bytes \<Rightarrow> string" where
  "address_payload P pk = take ADDRESS_PAYLOAD_CHARS
     (pf_b58encode P (pf_sha3_256 P (utf8 ''IND-address-v3:ed25519:'' @ pk)))"

definition address_checksum :: "platform \<Rightarrow> string \<Rightarrow> string res" where
  "address_checksum P payload =
     (if \<not> base58_text payload then Inl (ValidationError ''invalid V3 address payload'')
      else fixed_base58 P (take ADDRESS_CHECKSUM_BYTES
             (pf_sha3_256 P (utf8 (''IND-address-checksum:v3:'' @ payload)))) ADDRESS_CHECKSUM_CHARS)"

definition address_from_public_key :: "platform \<Rightarrow> public_key \<Rightarrow> string res" where
  "address_from_public_key P pk =
     bindE (public_key_bytes pk) (\<lambda>k.
     let payload = address_payload P k in
     bindE (address_checksum P payload) (\<lambda>c.
     Inr (ADDRESS_PREFIX @ ADDRESS_VERSION @ payload @ c @ ADDRESS_SUFFIX)))"

definition is_address :: "platform \<Rightarrow> string \<Rightarrow> bool res" where
  "is_address P a =
     (if length a \<noteq> ADDRESS_LENGTH then Inr False
      else if \<not> startswith a (ADDRESS_PREFIX @ ADDRESS_VERSION) \<or> \<not> endswith a ADDRESS_SUFFIX then Inr False
      else let payload_start = length ADDRESS_PREFIX + length ADDRESS_VERSION;
               payload = take ADDRESS_PAYLOAD_CHARS (drop payload_start a);
               tail = drop (payload_start + ADDRESS_PAYLOAD_CHARS) a;
               checksum = take (length tail - length ADDRESS_SUFFIX) tail in
        if length payload \<noteq> ADDRESS_PAYLOAD_CHARS \<or> length checksum \<noteq> ADDRESS_CHECKSUM_CHARS then Inr False
        else if \<not> base58_text (payload @ checksum) then Inr False
        else bindE (address_checksum P payload) (\<lambda>c. Inr (checksum = c)))"

definition validate_address :: "platform \<Rightarrow> string \<Rightarrow> string \<Rightarrow> string res" where
  "validate_address P a label =
     (if a \<noteq> strip a then Inl (ValidationError (''invalid '' @ label))
      else bindE (is_address P a) (\<lambda>ok.
        if ok then Inr a else Inl (ValidationError (''invalid '' @ label))))"

text \<open>Every exception either call can raise is a \<open>ValidationError\<close>, which the function catches.\<close>

definition public_key_matches_address :: "platform \<Rightarrow> public_key \<Rightarrow> string \<Rightarrow> bool" where
  "public_key_matches_address P pk a =
     (case address_from_public_key P pk of Inl _ \<Rightarrow> False
      | Inr d \<Rightarrow> (case validate_address P a ''V3 address'' of Inl _ \<Rightarrow> False | Inr b \<Rightarrow> d = b))"

text \<open>\<open>fresh\<close> stands for \<open>os.urandom(32)\<close>; an empty seed counts as none.\<close>

definition generate_keypair :: "platform \<Rightarrow> bytes \<Rightarrow> bytes option \<Rightarrow> (string \<times> string \<times> string) res" where
  "generate_keypair P fresh seed =
     (let s = (case seed of Some (b # bs) \<Rightarrow> b # bs | _ \<Rightarrow> fresh) in
      bindE (public_key_from_private_seed P s) (\<lambda>pk.
      bindE (encode_private_key s) (\<lambda>sk_text.
      bindE (encode_public_key pk) (\<lambda>pk_text.
      bindE (address_from_public_key P (PkBytes pk)) (\<lambda>a.
      Inr (a, sk_text, pk_text))))))"

definition keys_sign :: "platform \<Rightarrow> string \<Rightarrow> bytes \<Rightarrow> bytes res" where
  "keys_sign P sk_text message = bindE (decode_private_key sk_text) (\<lambda>s. ed25519_sign P s message)"

definition keys_sign_unverified :: "platform \<Rightarrow> string \<Rightarrow> bytes \<Rightarrow> bytes res" where
  "keys_sign_unverified P sk_text message =
     bindE (decode_private_key sk_text) (\<lambda>s. ed25519_sign_unverified P s message)"

definition keys_verify :: "platform \<Rightarrow> string \<Rightarrow> bytes \<Rightarrow> bytes \<Rightarrow> bool res" where
  "keys_verify P pk_text signature message =
     bindE (decode_public_key pk_text) (\<lambda>k. Inr (ed25519_verify P k signature message))"

section \<open>Lemmas\<close>

lemma key_sizes [simp]:
  "PRIVATE_SEED_BYTES = 32" "PUBLIC_KEY_BYTES = 32" "SIGNATURE_BYTES = 64"
  "ADDRESS_PAYLOAD_CHARS = 24" "ADDRESS_LENGTH = 33"
  "ADDRESS_CHECKSUM_CHARS = 6" "ADDRESS_CHECKSUM_BYTES = 4" "length PUBLIC_KEY_PREFIX = 7"
  "length PRIVATE_KEY_PREFIX = 7"
  by (simp_all add: PRIVATE_SEED_BYTES_def PUBLIC_KEY_BYTES_def SIGNATURE_BYTES_def
      ADDRESS_PAYLOAD_CHARS_def ADDRESS_TARGET_LENGTH_def ADDRESS_PREFIX_def ADDRESS_VERSION_def
      ADDRESS_CHECKSUM_CHARS_def ADDRESS_SUFFIX_def ADDRESS_LENGTH_def ADDRESS_CHECKSUM_BYTES_def
      PUBLIC_KEY_PREFIX_def PRIVATE_KEY_PREFIX_def)

lemma require_bytes_Inr_iff [res_simps]: "require_bytes v n l = Inr b \<longleftrightarrow> length v = n \<and> b = v"
  by (auto simp: require_bytes_def)

lemma b85_decode_exact_encode:
  assumes "length b = 4 * n"
  shows "b85_decode_exact (b85encode b) (4 * n) label = Inr b"
  using assms b85encode_plain [of b]
  by (simp add: b85_decode_exact_def strip_no_space b85_decode_encode)

lemma decode_encode_public_key: "encode_public_key k = Inr t \<Longrightarrow> decode_public_key t = Inr k"
  using b85_decode_exact_encode [of k 8]
  by (auto simp: encode_public_key_def decode_public_key_def res_simps)

lemma decode_encode_private_key: "encode_private_key s = Inr t \<Longrightarrow> decode_private_key t = Inr s"
  using b85_decode_exact_encode [of s 8]
  by (auto simp: encode_private_key_def decode_private_key_def res_simps)

lemma decode_public_key_length: "decode_public_key t = Inr k \<Longrightarrow> length k = 32"
  by (auto simp: decode_public_key_def b85_decode_exact_def split: if_splits option.splits)

lemma public_key_bytes_length: "public_key_bytes pk = Inr k \<Longrightarrow> length k = 32"
  by (cases pk) (auto simp: res_simps decode_public_key_length)

lemma encode_public_key_Inr_iff [res_simps]:
  "encode_public_key k = Inr t \<longleftrightarrow> length k = 32 \<and> t = PUBLIC_KEY_PREFIX @ b85encode k"
  by (auto simp: encode_public_key_def res_simps)

text \<open>The canonical text of a 32-byte key; a key text is canonical when it is 47 characters long.\<close>

definition public_key_text :: "bytes \<Rightarrow> string" where
  "public_key_text k = PUBLIC_KEY_PREFIX @ b85encode k"

lemma decode_public_key_text [simp]: "length k = 32 \<Longrightarrow> decode_public_key (public_key_text k) = Inr k"
  by (rule decode_encode_public_key) (simp add: res_simps public_key_text_def)

lemma encode_public_key_text [simp]: "length k = 32 \<Longrightarrow> encode_public_key k = Inr (public_key_text k)"
  by (simp add: res_simps public_key_text_def)

lemma decode_public_key_shape:
  assumes "decode_public_key t = Inr k"
  shows "take 47 t = public_key_text k \<and> (length t = 47 \<or> length t = 48)"
proof -
  from assms obtain b where t: "t = PUBLIC_KEY_PREFIX @ b" "b85decode b = Some k" "length k = 4 * 8"
    by (auto simp: decode_public_key_def b85_decode_exact_def startswith_iff split: if_splits option.splits)
  from b85_decode_shape [OF t(2,3)] t(1) show ?thesis
    by (auto simp: public_key_text_def)
qed

lemma decode_public_key_canonical:
  assumes "decode_public_key t = Inr k" and "length t = 47"
  shows "t = public_key_text k"
  using decode_public_key_shape [OF assms(1)] assms(2) by simp

lemma public_key_text_inject: "length k = 32 \<Longrightarrow> length k' = 32 \<Longrightarrow> public_key_text k = public_key_text k' \<Longrightarrow> k = k'"
  by (metis decode_public_key_text sum.inject(2))

lemma base58_plain: "c \<in> set base58_alphabet \<Longrightarrow> \<not> is_space c"
proof -
  have "list_all (\<lambda>c. \<not> is_space c) base58_alphabet"
    by (simp add: base58_alphabet_def is_space_def code_def)
  then show "c \<in> set base58_alphabet \<Longrightarrow> \<not> is_space c" by (auto simp: list_all_iff)
qed

lemma base58_text_plain: "base58_text s \<Longrightarrow> list_all (\<lambda>c. \<not> is_space c) s"
  by (auto simp: base58_text_def list_all_iff base58_plain)

lemma address_chars_plain [simp]: "\<not> is_space (CHR ''x'')" "\<not> is_space (CHR ''3'')"
  by (simp_all add: is_space_def code_def)

lemma fixed_base58_ok:
  assumes "b58_ok P" and "length d = 4"
  shows "\<exists>c. fixed_base58 P d 6 = Inr c \<and> length c = 6 \<and> base58_text c"
proof -
  have "CHR ''1'' \<in> set base58_alphabet" by (simp add: base58_alphabet_def)
  with assms show ?thesis
    by (auto simp: fixed_base58_def b58_ok_def rjust_def base58_text_def list_all_iff Let_def linorder_not_less)
qed

lemma address_checksum_ok:
  assumes "hash_ok P" "b58_ok P" "base58_text payload"
  shows "\<exists>c. address_checksum P payload = Inr c \<and> length c = 6 \<and> base58_text c"
  using assms fixed_base58_ok [of P "take 4 (pf_sha3_256 P (utf8 (''IND-address-checksum:v3:'' @ payload)))"]
  by (simp add: address_checksum_def)

lemma address_payload_ok:
  assumes "hash_ok P" "b58_ok P"
  shows "length (address_payload P k) = 24 \<and> base58_text (address_payload P k)"
proof -
  let ?d = "pf_sha3_256 P (utf8 ''IND-address-v3:ed25519:'' @ k)"
  from assms have "set (pf_b58encode P ?d) \<subseteq> set base58_alphabet" "32 \<le> length (pf_b58encode P ?d)"
    by (auto simp: b58_ok_def)
  then show ?thesis
    by (auto simp: address_payload_def base58_text_def list_all_iff dest: in_set_takeD)
qed

lemma derived_address_valid:
  assumes "hash_ok P" "b58_ok P" "public_key_bytes pk = Inr k"
  shows "\<exists>a. address_from_public_key P pk = Inr a \<and> validate_address P a label = Inr a"
proof -
  let ?p = "address_payload P k"
  from address_payload_ok [OF assms(1,2)] have p: "length ?p = 24" "base58_text ?p" by auto
  from address_checksum_ok [OF assms(1,2) p(2)] obtain c where
    c: "address_checksum P ?p = Inr c" "length c = 6" "base58_text c" by blast
  define a where "a = ADDRESS_PREFIX @ ADDRESS_VERSION @ ?p @ c @ ADDRESS_SUFFIX"
  have "address_from_public_key P pk = Inr a"
    using assms(3) c by (simp add: address_from_public_key_def a_def)
  moreover have "is_address P a = Inr True"
    using p c by (simp add: is_address_def a_def ADDRESS_PREFIX_def ADDRESS_VERSION_def ADDRESS_SUFFIX_def
        startswith_def endswith_def base58_text_def Let_def)
  moreover have "strip a = a"
    using p(2) c(3)
    by (intro strip_no_space)
      (simp add: a_def base58_text_plain ADDRESS_PREFIX_def ADDRESS_VERSION_def ADDRESS_SUFFIX_def)
  ultimately show ?thesis by (simp add: validate_address_def)
qed

lemma matches_iff: "public_key_matches_address P pk a \<longleftrightarrow>
    address_from_public_key P pk = Inr a \<and> validate_address P a ''V3 address'' = Inr a"
  by (auto simp: public_key_matches_address_def validate_address_def res_simps split: sum.splits if_splits)

lemma validate_address_label: "validate_address P a l = Inr b \<longleftrightarrow> validate_address P a l' = Inr b"
  by (auto simp: validate_address_def res_simps split: if_splits)

lemma validate_address_Inr: "validate_address P a l = Inr b \<Longrightarrow> b = a \<and> length a = 33"
  by (auto simp: validate_address_def is_address_def res_simps split: if_splits)

lemma ed25519_verify_length: "ed25519_verify P k s m \<Longrightarrow> length k = 32 \<and> length s = 64"
  by (auto simp: ed25519_verify_def public_key_from_bytes_def res_simps split: if_splits sum.splits)

lemma ed25519_sign_ok:
  assumes "ed_ok P" and "length seed = 32"
  shows "ed25519_sign P seed m = Inr (pf_ed_sign P seed m)
    \<and> ed25519_verify P (pf_ed_public P seed) (pf_ed_sign P seed m) m"
  using assms
  by (simp add: ed25519_sign_def private_key_from_seed_def require_bytes_def ed_ok_def
      ed25519_verify_def public_key_from_bytes_def Let_def)

section \<open>Valid addresses\<close>

definition valid_address :: "platform \<Rightarrow> string \<Rightarrow> bool" where
  "valid_address P a = (validate_address P a [] = Inr a)"

lemma validate_address_Inr_iff [res_simps]: "validate_address P a l = Inr b \<longleftrightarrow> b = a \<and> valid_address P a"
  unfolding valid_address_def using validate_address_Inr validate_address_label by blast

lemma base58_ascii: "base58_text s \<Longrightarrow> is_ascii s"
proof -
  have "list_all (\<lambda>c. code c < 128) base58_alphabet" by (simp add: base58_alphabet_def code_def)
  then show "base58_text s \<Longrightarrow> is_ascii s" by (auto simp: base58_text_def is_ascii_def list_all_iff)
qed

lemma x3_ascii: "is_ascii ''x3''" "is_ascii ''x''"
  by (simp_all add: is_ascii_def code_def)

lemma valid_address_text:
  assumes "valid_address P a"
  shows "length a = 33" and "is_ascii a"
proof -
  from assms show "length a = 33" using validate_address_Inr by (auto simp: valid_address_def)
  from assms have "is_address P a = Inr True"
    by (auto simp: valid_address_def validate_address_def bindE_Inr_iff split: if_splits)
  then have a: "length a = 33" "take 2 a = ''x3''" "drop 32 a = ''x''" "base58_text (take 24 (drop 2 a) @ take 6 (drop 26 a))"
    by (auto simp: is_address_def startswith_def endswith_def ADDRESS_PREFIX_def ADDRESS_VERSION_def
        ADDRESS_SUFFIX_def Let_def numeral_2_eq_2 split: if_splits)
  have "a = take 2 a @ drop 2 a" by simp
  also have "drop 2 a = take 24 (drop 2 a) @ drop 26 a" using append_take_drop_id [of 24 "drop 2 a"] by simp
  also have "drop 26 a = take 6 (drop 26 a) @ drop 32 a" using append_take_drop_id [of 6 "drop 26 a"] by simp
  finally have eq: "a = ''x3'' @ (take 24 (drop 2 a) @ take 6 (drop 26 a)) @ ''x''"
    unfolding a(2,3) append_assoc .
  have "is_ascii (take 24 (drop 2 a) @ take 6 (drop 26 a))" by (rule base58_ascii [OF a(4)])
  then have "is_ascii (''x3'' @ (take 24 (drop 2 a) @ take 6 (drop 26 a)) @ ''x'')"
    using x3_ascii unfolding is_ascii_def list_all_append by blast
  with eq show "is_ascii a" by (rule ssubst [where P = is_ascii])
qed

end
