(* ===== verification/BinaryV3.thy ===== *)
theory BinaryV3
  imports Platform
begin

text \<open>
  \<open>src/ind/binary_v3.py\<close>: unsigned LEB128 integers, bounded byte and text fields, hash fields and
  the cursor (\<open>Reader\<close>) that decodes them, with object hashes and signing preimages. A decoder is a
  function from a reader to an error or a result and the advanced reader. Two judgements carry the
  codec proofs: \<open>reads p bs x\<close> (wherever \<open>bs\<close> stands in the input, \<open>p\<close> consumes exactly it and
  returns \<open>x\<close>) and \<open>accepts p R\<close> (whatever \<open>p\<close> returns, it consumed bytes related to it by \<open>R\<close>).
  The locales \<open>codec\<close> and \<open>canonical_codec\<close> are the interface every body codec of the protocol
  satisfies; the integer, byte, text and hash fields are its first interpretations.
\<close>

definition MAX_UVARINT :: int where
  "MAX_UVARINT = 2 ^ 63 - 1"

definition MAX_BOUNDED_BYTES :: int where
  "MAX_BOUNDED_BYTES = 64 * 1024"

definition MAX_SIGNING_PREIMAGE_OBJECT_BYTES :: int where
  "MAX_SIGNING_PREIMAGE_OBJECT_BYTES = 1024 * 1024"

definition SIGNATURE_PREIMAGE_MAGIC :: bytes where
  "SIGNATURE_PREIMAGE_MAGIC = utf8 ''IND-SIGNATURE-V3'' @ [0]"

definition SIGNATURE_ALGORITHM_ID :: int where
  "SIGNATURE_ALGORITHM_ID = 1"

section \<open>Encoders\<close>

definition require_uint :: "int \<Rightarrow> string \<Rightarrow> int \<Rightarrow> int res" where
  "require_uint v label maximum =
     (if v < 0 then Inl (BinaryV3Error (label @ '' must be non-negative''))
      else if v > maximum then Inl (BinaryV3Error (label @ '' exceeds maximum value''))
      else Inr v)"

text \<open>The loop of \<open>encode_uvarint\<close>: low seven bits first, the high bit marks a continuation.\<close>

function uvarint_loop :: "nat \<Rightarrow> bytes" where
  "uvarint_loop v = (let low = v AND 0x7F; rest = drop_bit 7 v in
     if rest \<noteq> 0 then word_of_nat (low OR 0x80) # uvarint_loop rest else [word_of_nat low])"
  by pat_completeness auto
termination
  by (relation "measure id") (auto simp: drop_bit_eq_div)

declare uvarint_loop.simps [simp del]

definition encode_uvarint :: "int \<Rightarrow> bytes res" where
  "encode_uvarint v = bindE (require_uint v ''uvarint'' MAX_UVARINT) (\<lambda>v. Inr (uvarint_loop (nat v)))"

definition encode_bytes :: "int \<Rightarrow> bytes \<Rightarrow> bytes res" where
  "encode_bytes max_length data =
     (if int (length data) > max_length
      then Inl (BinaryV3Error ''bounded bytes exceed maximum length'')
      else bindE (encode_uvarint (int (length data))) (\<lambda>n. Inr (n @ data)))"

definition encode_ascii :: "int \<Rightarrow> string \<Rightarrow> bytes res" where
  "encode_ascii max_length txt =
     (if \<not> is_ascii txt then Inl (BinaryV3Error ''ASCII field contains non-ASCII text'')
      else encode_bytes max_length (utf8 txt))"

definition encode_fixed_bytes :: "nat \<Rightarrow> string \<Rightarrow> bytes \<Rightarrow> bytes res" where
  "encode_fixed_bytes n label data =
     (if length data \<noteq> n then Inl (BinaryV3Error (label @ '' must be exactly '' @ nat_text n @ '' bytes''))
      else Inr data)"

definition encode_nullable_hash :: "bytes option \<Rightarrow> bytes res" where
  "encode_nullable_hash v = (case v of None \<Rightarrow> Inr [0]
     | Some h \<Rightarrow> bindE (encode_fixed_bytes 32 ''hash'' h) (\<lambda>h. Inr (1 # h)))"

definition encode_hash_hex :: "string \<Rightarrow> bytes res" where
  "encode_hash_hex t = (if length t \<noteq> 64 then Inl (BinaryV3Error ''hash hex must be 64 characters'')
     else (case fromhex t of None \<Rightarrow> Inl (BinaryV3Error ''invalid hash hex'') | Some b \<Rightarrow> Inr b))"

definition decode_hash_hex :: "bytes \<Rightarrow> string res" where
  "decode_hash_hex raw = bindE (encode_fixed_bytes 32 ''hash'' raw) (\<lambda>b. Inr (hex_text b))"

definition encode_hash_hex_nullable :: "string option \<Rightarrow> bytes res" where
  "encode_hash_hex_nullable v = (case v of None \<Rightarrow> Inr [0]
     | Some t \<Rightarrow> bindE (encode_hash_hex t) (\<lambda>h. Inr (1 # h)))"

definition decode_nullable_hash_hex :: "bytes option \<Rightarrow> string option res" where
  "decode_nullable_hash_hex v = (case v of None \<Rightarrow> Inr None
     | Some h \<Rightarrow> bindE (decode_hash_hex h) (\<lambda>t. Inr (Some t)))"

definition object_hash :: "platform \<Rightarrow> string \<Rightarrow> bytes \<Rightarrow> bytes res" where
  "object_hash P domain canonical =
     bindE (encode_ascii 128 domain) (\<lambda>d.
     bindE (encode_bytes MAX_BOUNDED_BYTES canonical) (\<lambda>c.
     Inr (pf_sha3_256 P (d @ c))))"

definition signing_preimage :: "int \<Rightarrow> string \<Rightarrow> int \<Rightarrow> int \<Rightarrow> string \<Rightarrow> bytes \<Rightarrow> bytes res" where
  "signing_preimage network_id object_type object_version signature_algorithm domain canonical =
     bindE (require_uint network_id ''network id'' MAX_UVARINT) (\<lambda>_.
     bindE (require_uint object_version ''object version'' MAX_UVARINT) (\<lambda>_.
     bindE (require_uint signature_algorithm ''signature algorithm'' MAX_UVARINT) (\<lambda>_.
     joinE [Inr SIGNATURE_PREIMAGE_MAGIC,
            encode_uvarint network_id,
            encode_ascii 64 object_type,
            encode_uvarint object_version,
            encode_uvarint signature_algorithm,
            encode_ascii 128 domain,
            encode_bytes MAX_SIGNING_PREIMAGE_OBJECT_BYTES canonical])))"

section \<open>The reader\<close>

record reader =
  rdata :: bytes
  roffset :: nat

type_synonym 'a parser = "reader \<Rightarrow> ('a \<times> reader) res"

definition mk_reader :: "bytes \<Rightarrow> reader" where
  "mk_reader data = \<lparr>rdata = data, roffset = 0\<rparr>"

definition reader_remaining :: "reader \<Rightarrow> int" where
  "reader_remaining r = int (length (rdata r)) - int (roffset r)"

definition rreturn :: "'a \<Rightarrow> 'a parser" where
  "rreturn x r = Inr (x, r)"

definition rbind :: "'a parser \<Rightarrow> ('a \<Rightarrow> 'b parser) \<Rightarrow> 'b parser" where
  "rbind p f r = bindE (p r) (\<lambda>(x, r'). f x r')"

definition rlift :: "'a res \<Rightarrow> 'a parser" where
  "rlift m r = bindE m (\<lambda>x. Inr (x, r))"

definition reader_read :: "int \<Rightarrow> string \<Rightarrow> bytes parser" where
  "reader_read n label r =
     bindE (require_uint n ''read length'' MAX_BOUNDED_BYTES) (\<lambda>n.
     let stop = roffset r + nat n in
     if stop > length (rdata r) then Inl (BinaryV3Error (''truncated '' @ label))
     else Inr (take (nat n) (drop (roffset r) (rdata r)), r\<lparr>roffset := stop\<rparr>))"

text \<open>
  The loop of \<open>read_uvarint\<close>: \<open>start\<close> is the offset at entry, \<open>v\<close> the bits gathered so far,
  \<open>sh\<close> the position of the next group. The last byte re-encodes the value and compares.
\<close>

function read_uvarint_loop :: "string \<Rightarrow> nat \<Rightarrow> nat \<Rightarrow> nat \<Rightarrow> int parser" where
  "read_uvarint_loop label start v sh r =
     (if roffset r \<ge> length (rdata r) then Inl (BinaryV3Error (''truncated '' @ label))
      else let b = rdata r ! roffset r;
               r' = r\<lparr>roffset := roffset r + 1\<rparr>;
               v' = v OR push_bit sh (unat (b AND 0x7F)) in
        if int v' > MAX_UVARINT then Inl (BinaryV3Error (label @ '' exceeds maximum value''))
        else if b AND 0x80 = 0 then
          bindE (encode_uvarint (int v')) (\<lambda>raw.
          if raw \<noteq> take (roffset r' - start) (drop start (rdata r))
          then Inl (BinaryV3Error (''non-minimal '' @ label))
          else Inr (int v', r'))
        else if sh + 7 > 63 then Inl (BinaryV3Error (label @ '' is too large''))
        else read_uvarint_loop label start v' (sh + 7) r')"
  by pat_completeness auto
termination
  by (relation "measure (\<lambda>(label, start, v, sh, r). 64 - sh)") auto

declare read_uvarint_loop.simps [simp del]

definition read_uvarint :: "string \<Rightarrow> int parser" where
  "read_uvarint label r = read_uvarint_loop label (roffset r) 0 0 r"

definition read_bytes :: "string \<Rightarrow> int \<Rightarrow> bytes parser" where
  "read_bytes label max_length =
     rbind (read_uvarint (label @ '' length'')) (\<lambda>n.
     if n > max_length then rlift (Inl (BinaryV3Error (label @ '' exceeds maximum length'')))
     else reader_read n label)"

definition read_ascii :: "string \<Rightarrow> int \<Rightarrow> string parser" where
  "read_ascii label max_length =
     rbind (read_bytes label max_length) (\<lambda>raw.
     if ascii_bytes raw then rreturn (text_of raw)
     else rlift (Inl (BinaryV3Error (label @ '' contains non-ASCII text''))))"

definition read_fixed_bytes :: "nat \<Rightarrow> string \<Rightarrow> bytes parser" where
  "read_fixed_bytes n label = reader_read (int n) label"

definition read_nullable_hash :: "string \<Rightarrow> bytes option parser" where
  "read_nullable_hash label =
     rbind (reader_read 1 (label @ '' marker'')) (\<lambda>marker.
     if marker = [0] then rreturn None
     else if marker = [1] then rbind (read_fixed_bytes 32 label) (\<lambda>h. rreturn (Some h))
     else rlift (Inl (BinaryV3Error (''invalid '' @ label @ '' marker''))))"

definition read_hash_hex :: "string \<Rightarrow> string parser" where
  "read_hash_hex label = rbind (read_fixed_bytes 32 label) (\<lambda>raw. rlift (decode_hash_hex raw))"

definition read_nullable_hash_hex :: "string \<Rightarrow> string option parser" where
  "read_nullable_hash_hex label =
     rbind (read_nullable_hash label) (\<lambda>v. rlift (decode_nullable_hash_hex v))"

definition require_eof :: "reader \<Rightarrow> bool res" where
  "require_eof r = (if roffset r \<noteq> length (rdata r) then Inl (BinaryV3Error ''trailing bytes'') else Inr True)"

definition decode_all :: "bytes \<Rightarrow> 'a parser \<Rightarrow> 'a res" where
  "decode_all data decoder = bindE (decoder (mk_reader data)) (\<lambda>(x, r). bindE (require_eof r) (\<lambda>_. Inr x))"

definition decode_uvarint :: "bytes \<Rightarrow> int res" where
  "decode_uvarint data = bindE (read_uvarint ''uvarint'' (mk_reader data)) (\<lambda>(v, r). bindE (require_eof r) (\<lambda>_. Inr v))"

section \<open>Which bytes a decoder consumes\<close>

definition reads :: "'a parser \<Rightarrow> bytes \<Rightarrow> 'a \<Rightarrow> bool" where
  "reads p bs x = (\<forall>pre suf. p \<lparr>rdata = pre @ bs @ suf, roffset = length pre\<rparr>
     = Inr (x, \<lparr>rdata = pre @ bs @ suf, roffset = length pre + length bs\<rparr>))"

definition accepts :: "'a parser \<Rightarrow> (bytes \<Rightarrow> 'a \<Rightarrow> bool) \<Rightarrow> bool" where
  "accepts p R = (\<forall>pre rest x r'. p \<lparr>rdata = pre @ rest, roffset = length pre\<rparr> = Inr (x, r') \<longrightarrow>
     (\<exists>bs suf. rest = bs @ suf \<and> r' = \<lparr>rdata = pre @ rest, roffset = length pre + length bs\<rparr> \<and> R bs x))"

lemma reads_return [reads_intros]: "reads (rreturn x) [] x"
  by (simp add: reads_def rreturn_def)

lemma reads_lift [reads_intros]: "m = Inr x \<Longrightarrow> reads (rlift m) [] x"
  by (simp add: reads_def rlift_def)

lemma reads_bind [reads_intros]:
  assumes p: "reads p bs x" and f: "reads (f x) cs y"
  shows "reads (rbind p f) (bs @ cs) y"
  unfolding reads_def
proof (intro allI)
  fix pre suf
  have "p \<lparr>rdata = pre @ bs @ (cs @ suf), roffset = length pre\<rparr>
      = Inr (x, \<lparr>rdata = pre @ bs @ (cs @ suf), roffset = length pre + length bs\<rparr>)"
    using p unfolding reads_def by blast
  moreover have "f x \<lparr>rdata = (pre @ bs) @ cs @ suf, roffset = length (pre @ bs)\<rparr>
      = Inr (y, \<lparr>rdata = (pre @ bs) @ cs @ suf, roffset = length (pre @ bs) + length cs\<rparr>)"
    using f unfolding reads_def by blast
  ultimately show "rbind p f \<lparr>rdata = pre @ (bs @ cs) @ suf, roffset = length pre\<rparr>
      = Inr (y, \<lparr>rdata = pre @ (bs @ cs) @ suf, roffset = length pre + length (bs @ cs)\<rparr>)"
    by (simp add: rbind_def add.assoc)
qed

lemma reads_decode_all: "reads p bs x \<Longrightarrow> decode_all bs p = Inr x"
  unfolding reads_def decode_all_def mk_reader_def
  by (drule spec [of _ "[]"], drule spec [of _ "[]"]) (simp add: require_eof_def)

lemma accepts_return [exact_intros]: "accepts (rreturn x) (\<lambda>bs y. bs = [] \<and> y = x)"
  by (simp add: accepts_def rreturn_def)

lemma accepts_lift [exact_intros]: "accepts (rlift m) (\<lambda>bs y. bs = [] \<and> m = Inr y)"
  by (auto simp: accepts_def rlift_def res_simps)

lemma accepts_weaken: "accepts p R \<Longrightarrow> (\<And>bs x. R bs x \<Longrightarrow> Q bs x) \<Longrightarrow> accepts p Q"
  unfolding accepts_def by blast

lemma accepts_bind:
  assumes p: "accepts p R" and f: "\<And>x. accepts (f x) (Q x)"
  shows "accepts (rbind p f) (\<lambda>bs y. \<exists>b c x. bs = b @ c \<and> R b x \<and> Q x c y)"
  unfolding accepts_def
proof (intro allI impI)
  fix pre rest y r'
  assume "rbind p f \<lparr>rdata = pre @ rest, roffset = length pre\<rparr> = Inr (y, r')"
  then obtain x r where 1: "p \<lparr>rdata = pre @ rest, roffset = length pre\<rparr> = Inr (x, r)"
    and 2: "f x r = Inr (y, r')"
    by (auto simp: rbind_def res_simps)
  from p 1 obtain b suf where b: "rest = b @ suf" "R b x"
    "r = \<lparr>rdata = pre @ rest, roffset = length pre + length b\<rparr>"
    unfolding accepts_def by blast
  with 2 have "f x \<lparr>rdata = (pre @ b) @ suf, roffset = length (pre @ b)\<rparr> = Inr (y, r')" by simp
  with f [of x] obtain c suf' where "suf = c @ suf'" "Q x c y"
    "r' = \<lparr>rdata = (pre @ b) @ suf, roffset = length (pre @ b) + length c\<rparr>"
    unfolding accepts_def by blast
  with b show "\<exists>bs suf. rest = bs @ suf \<and> r' = \<lparr>rdata = pre @ rest, roffset = length pre + length bs\<rparr>
      \<and> (\<exists>b c x. bs = b @ c \<and> R b x \<and> Q x c y)"
    by (intro exI [of _ "b @ c"] exI [of _ suf']) auto
qed

lemma accepts_if:
  "(c \<Longrightarrow> accepts p R) \<Longrightarrow> (\<not> c \<Longrightarrow> accepts q R) \<Longrightarrow> accepts (if c then p else q) R"
  by simp

lemma accepts_decode_all:
  assumes "accepts p R" and "decode_all bs p = Inr x"
  shows "R bs x"
proof -
  from assms(2) obtain r where r: "p (mk_reader bs) = Inr (x, r)" "require_eof r = Inr True"
    by (auto simp: decode_all_def res_simps require_eof_def split: if_splits)
  with assms(1) obtain b suf where "bs = b @ suf" "r = \<lparr>rdata = bs, roffset = length b\<rparr>" "R b x"
    unfolding accepts_def mk_reader_def by (metis append_Nil list.size(3) add_0)
  with r show ?thesis by (auto simp: require_eof_def split: if_splits)
qed

section \<open>The codec interface\<close>

text \<open>
  An encoder and a decoder of one kind of value: on a \<open>valid\<close> value the decoder consumes exactly
  the encoder's bytes. A canonical codec also promises the converse: what the decoder accepts is
  valid and re-encodes to the bytes it consumed.
\<close>

locale codec =
  fixes valid :: "'a \<Rightarrow> bool" and enc :: "'a \<Rightarrow> bytes res" and rd :: "'a parser"
  assumes enc_reads: "valid x \<Longrightarrow> enc x = Inr bs \<Longrightarrow> reads rd bs x"
begin

lemma decode_encode: "valid x \<Longrightarrow> enc x = Inr bs \<Longrightarrow> decode_all bs rd = Inr x"
  by (rule reads_decode_all) (rule enc_reads)

lemma prefix_free:
  assumes "valid x" "enc x = Inr a" "valid y" "enc y = Inr b" and eq: "a @ s = b @ t"
  shows "x = y \<and> a = b \<and> s = t"
proof -
  have "rd \<lparr>rdata = a @ s, roffset = 0\<rparr> = Inr (x, \<lparr>rdata = a @ s, roffset = length a\<rparr>)"
    using enc_reads [OF assms(1,2)] unfolding reads_def
    by (drule_tac x = "[]" in spec) auto
  moreover have "rd \<lparr>rdata = b @ t, roffset = 0\<rparr> = Inr (y, \<lparr>rdata = b @ t, roffset = length b\<rparr>)"
    using enc_reads [OF assms(3,4)] unfolding reads_def
    by (drule_tac x = "[]" in spec) auto
  ultimately have "x = y" "length a = length b" using eq by simp_all
  with eq show ?thesis by simp
qed

lemma encode_inject: "valid x \<Longrightarrow> valid y \<Longrightarrow> enc x = Inr bs \<Longrightarrow> enc y = Inr bs \<Longrightarrow> x = y"
  using prefix_free [of x bs y bs "[]" "[]"] by simp

end

locale canonical_codec = codec +
  assumes rd_accepts: "accepts rd (\<lambda>bs x. valid x \<and> enc x = Inr bs)"
begin

lemma encode_decode: "decode_all bs rd = Inr x \<Longrightarrow> valid x \<and> enc x = Inr bs"
  using accepts_decode_all [OF rd_accepts] by blast

lemma decode_iff: "decode_all bs rd = Inr x \<longleftrightarrow> valid x \<and> enc x = Inr bs"
  using encode_decode decode_encode by blast

lemma decode_inject: "decode_all a rd = Inr x \<Longrightarrow> decode_all b rd = Inr x \<Longrightarrow> a = b"
  by (auto dest!: encode_decode)

end


section \<open>Unsigned LEB128\<close>

lemma or_disjoint: "a < 2 ^ n \<Longrightarrow> a OR push_bit n b = a + 2 ^ n * b" for a b :: nat
proof -
  assume "a < 2 ^ n"
  then have "take_bit n a = a" by (simp add: take_bit_nat_eq_self)
  then have "a AND push_bit n b = 0"
    by (intro bit_eqI) (metis bit_0_eq bit_and_iff bit_push_bit_iff bit_take_bit_iff bot_apply bot_bool_def linorder_not_le)
  then have "a OR push_bit n b = a + push_bit n b"
    by (simp flip: disjunctive_add_eq_or)
  then show ?thesis by (simp add: push_bit_eq_mult mult.commute)
qed

lemma and_127: "n AND 127 = n mod 128" for n :: nat
  using take_bit_eq_mask [of 7 n] by (simp add: take_bit_eq_mod mask_eq_exp_minus_1)

lemma or_128: "n < 128 \<Longrightarrow> n OR 128 = n + 128" for n :: nat
  using or_disjoint [of n 7 1] by simp

lemma uvarint_loop_eq: "uvarint_loop v = (if v < 128 then [word_of_nat v]
    else word_of_nat (v mod 128 + 128) # uvarint_loop (v div 128))"
  by (subst uvarint_loop.simps)
    (auto simp: Let_def and_127 or_128 drop_bit_eq_div div_eq_0_iff simp del: of_nat_add)

lemma unat_low_bits: "unat (b AND 0x7F) = unat b mod 128" for b :: byte
  by (simp add: unsigned_and_eq and_127)

lemma high_bit_clear: "b AND 0x80 = 0 \<longleftrightarrow> unat b < 128" for b :: byte
proof -
  have "unat b < 256" using unsigned_less [of b, where ?'a = nat] by simp
  have "b AND 0x80 = 0 \<longleftrightarrow> \<not> bit b 7"
    using and_exp_eq_0_iff_not_bit [of b 7] by simp
  also have "\<dots> \<longleftrightarrow> \<not> odd (unat b div 128)"
    using bit_unsigned_iff [of b 7, where ?'a = nat] by (simp add: bit_iff_odd)
  also have "\<dots> \<longleftrightarrow> unat b < 128"
  proof -
    have "unat b div 128 < 2" using \<open>unat b < 256\<close> by (simp add: div_less_iff_less_mult)
    then show ?thesis by (cases "unat b div 128") (auto simp: div_eq_0_iff)
  qed
  finally show ?thesis .
qed

lemma uvarint_loop_not_Nil [simp]: "uvarint_loop n \<noteq> []"
  by (subst uvarint_loop_eq) simp

lemma encode_uvarint_Inr_iff [res_simps]:
  "encode_uvarint v = Inr bs \<longleftrightarrow> 0 \<le> v \<and> v \<le> MAX_UVARINT \<and> bs = uvarint_loop (nat v)"
  by (auto simp: encode_uvarint_def require_uint_def)

lemma encode_uvarint_ok [simp]:
  "0 \<le> v \<Longrightarrow> v \<le> MAX_UVARINT \<Longrightarrow> encode_uvarint v = Inr (uvarint_loop (nat v))"
  by (simp add: res_simps)

lemma require_uint_Inr_iff [res_simps]:
  "require_uint v label m = Inr x \<longleftrightarrow> 0 \<le> v \<and> v \<le> m \<and> x = v"
  by (auto simp: require_uint_def)

lemma read_uvarint_loop_reads:
  assumes "v < 2 ^ sh" and "int (v + 2 ^ sh * m) \<le> MAX_UVARINT" and "start \<le> length pre"
    and "drop start pre @ uvarint_loop m = uvarint_loop (v + 2 ^ sh * m)"
  shows "read_uvarint_loop label start v sh \<lparr>rdata = pre @ uvarint_loop m @ suf, roffset = length pre\<rparr>
    = Inr (int (v + 2 ^ sh * m),
        \<lparr>rdata = pre @ uvarint_loop m @ suf, roffset = length pre + length (uvarint_loop m)\<rparr>)"
  using assms
proof (induction m arbitrary: pre v sh rule: less_induct)
  case (less m)
  show ?case
  proof (cases "m < 128")
    case True
    then have u: "uvarint_loop m = [word_of_nat m]" by (simp add: uvarint_loop_eq)
    have b: "unat (word_of_nat m :: byte) = m" using True by (simp add: byte_of_small)
    have raw: "take (Suc (length pre) - start) (drop start (pre @ word_of_nat m # suf))
        = uvarint_loop (v + 2 ^ sh * m)"
      using less.prems(3,4) u by (simp add: Suc_diff_le)
    show ?thesis
      using True less.prems(1,2) raw
      by (subst read_uvarint_loop.simps)
        (simp add: u Let_def nth_append unat_low_bits high_bit_clear b or_disjoint
           del: of_nat_add of_nat_mult of_nat_power)
  next
    case False
    let ?b = "word_of_nat (m mod 128 + 128) :: byte"
    have b: "unat ?b = m mod 128 + 128" by (rule byte_of_small) simp
    have u: "uvarint_loop m = ?b # uvarint_loop (m div 128)"
      using False by (subst uvarint_loop_eq) simp
    let ?v = "v + 2 ^ sh * (m mod 128)"
    have sum_eq: "?v + 2 ^ (sh + 7) * (m div 128) = v + 2 ^ sh * m"
    proof -
      have "2 ^ sh * m = 2 ^ sh * (m mod 128 + 128 * (m div 128))" by simp
      also have "\<dots> = 2 ^ sh * (m mod 128) + 2 ^ (sh + 7) * (m div 128)"
        by (simp only: distrib_left power_add) simp
      finally show ?thesis by simp
    qed
    have small: "?v < 2 ^ (sh + 7)"
    proof -
      have "m mod 128 \<le> 127" using mod_less_divisor [of 128 m] by linarith
      then have "2 ^ sh * (m mod 128) \<le> 2 ^ sh * 127" by (intro mult_le_mono2)
      with less.prems(1) have "?v < 2 ^ sh * 128" by linarith
      then show ?thesis by (simp add: power_add)
    qed
    have "?v \<le> v + 2 ^ sh * m" using sum_eq by linarith
    then have fits: "int ?v \<le> MAX_UVARINT"
      using less.prems(2) by (simp only: of_nat_le_iff [symmetric, where 'a = int])
    have shift: "sh + 7 \<le> 63"
    proof (rule ccontr)
      assume "\<not> sh + 7 \<le> 63"
      then have "(2::nat) ^ 63 \<le> 2 ^ (sh + 7)" by (intro power_increasing) auto
      moreover have "2 ^ (sh + 7) \<le> 2 ^ sh * m"
        using False by (simp add: power_add)
      ultimately have "2 ^ 63 \<le> v + 2 ^ sh * m" by linarith
      then have "int (2 ^ 63) \<le> int (v + 2 ^ sh * m)" by (simp only: of_nat_le_iff)
      then show False using less.prems(2) by (simp add: MAX_UVARINT_def)
    qed
    have IH: "read_uvarint_loop label start ?v (sh + 7)
        \<lparr>rdata = (pre @ [?b]) @ uvarint_loop (m div 128) @ suf, roffset = length (pre @ [?b])\<rparr>
      = Inr (int (?v + 2 ^ (sh + 7) * (m div 128)),
          \<lparr>rdata = (pre @ [?b]) @ uvarint_loop (m div 128) @ suf,
           roffset = length (pre @ [?b]) + length (uvarint_loop (m div 128))\<rparr>)"
    proof (rule less.IH)
      show "m div 128 < m" using False by simp
      show "drop start (pre @ [?b]) @ uvarint_loop (m div 128)
          = uvarint_loop (?v + 2 ^ (sh + 7) * (m div 128))"
        unfolding sum_eq using less.prems(3,4) u by simp
      show "int (?v + 2 ^ (sh + 7) * (m div 128)) \<le> MAX_UVARINT"
        unfolding sum_eq by (rule less.prems(2))
    qed (use small less.prems(3) in simp_all)
    show ?thesis
      using IH shift fits less.prems(1)
      by (subst read_uvarint_loop.simps)
        (simp add: u Let_def nth_append unat_low_bits high_bit_clear b or_disjoint sum_eq
           del: of_nat_add of_nat_mult of_nat_power)
  qed
qed

lemma read_uvarint_loop_accepts:
  assumes "read_uvarint_loop label start v sh r = Inr (x, r')" and "start \<le> roffset r"
  shows "rdata r' = rdata r \<and> roffset r < roffset r' \<and> roffset r' \<le> length (rdata r)
    \<and> encode_uvarint x = Inr (take (roffset r' - start) (drop start (rdata r)))"
  using assms
proof (induction label start v sh r rule: read_uvarint_loop.induct)
  case (1 label start v sh r)
  let ?v = "v OR push_bit sh (unat (rdata r ! roffset r AND 127))"
  from 1 show ?case
    by (subst (asm) (2) read_uvarint_loop.simps)
      (fastforce simp: Let_def bindE_Inr_iff simp del: encode_uvarint_ok split: if_splits)
qed

lemma reads_uvarint [reads_intros]:
  assumes "0 \<le> v" and "v \<le> MAX_UVARINT"
  shows "reads (read_uvarint label) (uvarint_loop (nat v)) v"
  unfolding reads_def read_uvarint_def
  using assms read_uvarint_loop_reads [of 0 0 "nat v"] by simp

lemma accepts_uvarint [exact_intros]:
  "accepts (read_uvarint label) (\<lambda>bs v. encode_uvarint v = Inr bs)"
  unfolding accepts_def
proof (intro allI impI)
  fix pre rest v r'
  assume "read_uvarint label \<lparr>rdata = pre @ rest, roffset = length pre\<rparr> = Inr (v, r')"
  then have r: "rdata r' = pre @ rest" "length pre < roffset r'" "roffset r' \<le> length (pre @ rest)"
    "encode_uvarint v = Inr (take (roffset r' - length pre) rest)"
    using read_uvarint_loop_accepts unfolding read_uvarint_def by fastforce+
  then show "\<exists>bs suf. rest = bs @ suf
      \<and> r' = \<lparr>rdata = pre @ rest, roffset = length pre + length bs\<rparr> \<and> encode_uvarint v = Inr bs"
    by (intro exI [of _ "take (roffset r' - length pre) rest"] exI [of _ "drop (roffset r' - length pre) rest"])
      auto
qed

interpretation uvarint: canonical_codec
  "\<lambda>v. 0 \<le> v \<and> v \<le> MAX_UVARINT" encode_uvarint "read_uvarint label"
  by unfold_locales
    (auto simp: res_simps intro!: reads_intros accepts_weaken [OF accepts_uvarint])

section \<open>Byte, text and hash fields\<close>

lemma reads_read [reads_intros]:
  "int (length bs) = n \<Longrightarrow> n \<le> MAX_BOUNDED_BYTES \<Longrightarrow> reads (reader_read n label) bs bs"
  by (auto simp: reads_def reader_read_def require_uint_def)

lemma accepts_read [exact_intros]:
  "accepts (reader_read n label) (\<lambda>bs x. bs = x \<and> int (length x) = n \<and> n \<le> MAX_BOUNDED_BYTES)"
  unfolding accepts_def
proof (intro allI impI)
  fix pre rest x r'
  assume "reader_read n label \<lparr>rdata = pre @ rest, roffset = length pre\<rparr> = Inr (x, r')"
  then have "0 \<le> n" "n \<le> MAX_BOUNDED_BYTES" "nat n \<le> length rest" "x = take (nat n) rest"
    "r' = \<lparr>rdata = pre @ rest, roffset = length pre + nat n\<rparr>"
    by (auto simp: reader_read_def res_simps Let_def split: if_splits)
  then show "\<exists>bs suf. rest = bs @ suf \<and> r' = \<lparr>rdata = pre @ rest, roffset = length pre + length bs\<rparr>
      \<and> bs = x \<and> int (length x) = n \<and> n \<le> MAX_BOUNDED_BYTES"
    by (intro exI [of _ x] exI [of _ "drop (nat n) rest"]) auto
qed

lemma encode_bytes_Inr_iff [res_simps]: "encode_bytes m d = Inr bs \<longleftrightarrow>
    int (length d) \<le> m \<and> int (length d) \<le> MAX_UVARINT \<and> bs = uvarint_loop (length d) @ d"
  by (auto simp: encode_bytes_def res_simps)

lemma bounded_below_uvarint: "n \<le> MAX_BOUNDED_BYTES \<Longrightarrow> n \<le> MAX_UVARINT"
  by (simp add: MAX_BOUNDED_BYTES_def MAX_UVARINT_def)

lemma reads_bytes [reads_intros]:
  assumes "encode_bytes m d = Inr bs" and "int (length d) \<le> MAX_BOUNDED_BYTES"
  shows "reads (read_bytes label m) bs d"
proof -
  from assms have bs: "bs = uvarint_loop (nat (int (length d))) @ d" and m: "int (length d) \<le> m"
    by (simp_all add: res_simps)
  show ?thesis
    unfolding read_bytes_def bs
    by (rule reads_bind, rule reads_uvarint)
      (use assms m in \<open>auto intro!: reads_read bounded_below_uvarint\<close>)
qed

lemma accepts_bytes [exact_intros]:
  "accepts (read_bytes label m) (\<lambda>bs d. encode_bytes m d = Inr bs \<and> int (length d) \<le> MAX_BOUNDED_BYTES)"
proof -
  have "accepts (if n > m then rlift (Inl e) else reader_read n label)
      (\<lambda>bs x. bs = x \<and> int (length x) = n \<and> n \<le> m \<and> n \<le> MAX_BOUNDED_BYTES)" for n e
    by (rule accepts_if; rule accepts_weaken, rule exact_intros) auto
  from accepts_bind [OF accepts_uvarint this] show ?thesis
    unfolding read_bytes_def
    by (rule accepts_weaken) (auto simp: res_simps)
qed

interpretation bounded: canonical_codec
  "\<lambda>d. int (length d) \<le> MAX_BOUNDED_BYTES" "encode_bytes m" "read_bytes label m"
  by unfold_locales (auto intro!: reads_intros accepts_weaken [OF accepts_bytes])

lemma encode_ascii_Inr_iff [res_simps]: "encode_ascii m t = Inr bs \<longleftrightarrow>
    is_ascii t \<and> int (length t) \<le> m \<and> int (length t) \<le> MAX_UVARINT
    \<and> bs = uvarint_loop (length t) @ utf8 t"
  by (auto simp: encode_ascii_def res_simps)

lemma reads_ascii [reads_intros]:
  assumes "encode_ascii m t = Inr bs" and "int (length t) \<le> MAX_BOUNDED_BYTES"
  shows "reads (read_ascii label m) bs t"
proof -
  from assms have t: "is_ascii t" and b: "encode_bytes m (utf8 t) = Inr bs"
    by (auto simp: res_simps)
  have "reads (read_ascii label m) (bs @ []) t"
    unfolding read_ascii_def
    by (rule reads_bind [OF reads_bytes [OF b]]) (use assms t in \<open>auto intro: reads_return [of t, simplified]\<close>)
  then show ?thesis by simp
qed

lemma accepts_ascii [exact_intros]:
  "accepts (read_ascii label m) (\<lambda>bs t. encode_ascii m t = Inr bs \<and> int (length t) \<le> MAX_BOUNDED_BYTES)"
proof -
  have "accepts (if ascii_bytes raw then rreturn (text_of raw) else rlift (Inl e))
      (\<lambda>bs t. bs = [] \<and> t = text_of raw \<and> ascii_bytes raw)" for raw e
    by (rule accepts_if; rule accepts_weaken, rule exact_intros) auto
  from accepts_bind [OF accepts_bytes this] show ?thesis
    unfolding read_ascii_def
    by (rule accepts_weaken) (auto simp: res_simps)
qed

interpretation ascii_field: canonical_codec
  "\<lambda>t. int (length t) \<le> MAX_BOUNDED_BYTES" "encode_ascii m" "read_ascii label m"
  by unfold_locales (auto intro!: reads_intros accepts_weaken [OF accepts_ascii])

lemma encode_fixed_bytes_Inr_iff [res_simps]:
  "encode_fixed_bytes n label d = Inr bs \<longleftrightarrow> length d = n \<and> bs = d"
  by (auto simp: encode_fixed_bytes_def)

lemma reads_fixed [reads_intros]:
  "length bs = n \<Longrightarrow> int n \<le> MAX_BOUNDED_BYTES \<Longrightarrow> reads (read_fixed_bytes n label) bs bs"
  unfolding read_fixed_bytes_def by (rule reads_intros) simp_all

lemma accepts_fixed [exact_intros]:
  "accepts (read_fixed_bytes n label) (\<lambda>bs d. bs = d \<and> length d = n)"
  unfolding read_fixed_bytes_def by (rule accepts_weaken [OF accepts_read]) auto

lemma bounded_numerals [simp]:
  "MAX_BOUNDED_BYTES = 65536" "MAX_UVARINT = 9223372036854775807"
  "MAX_SIGNING_PREIMAGE_OBJECT_BYTES = 1048576"
  by (simp_all add: MAX_BOUNDED_BYTES_def MAX_UVARINT_def MAX_SIGNING_PREIMAGE_OBJECT_BYTES_def)

interpretation fixed32: canonical_codec
  "\<lambda>d. True" "encode_fixed_bytes 32 elabel" "read_fixed_bytes 32 label"
  by unfold_locales
    (auto simp: res_simps intro!: reads_intros accepts_weaken [OF accepts_fixed])

lemma encode_nullable_hash_Inr_iff [res_simps]: "encode_nullable_hash v = Inr bs \<longleftrightarrow>
    (case v of None \<Rightarrow> bs = [0] | Some h \<Rightarrow> length h = 32 \<and> bs = 1 # h)"
  by (auto simp: encode_nullable_hash_def res_simps split: option.splits)

lemma reads_nullable_hash [reads_intros]:
  assumes "encode_nullable_hash v = Inr bs"
  shows "reads (read_nullable_hash label) bs v"
proof (cases v)
  case None
  have "reads (read_nullable_hash label) ([0] @ []) None"
    unfolding read_nullable_hash_def
    by (rule reads_bind, rule reads_read) (auto intro: reads_return)
  with assms None show ?thesis by (simp add: res_simps)
next
  case (Some h)
  with assms have h: "length h = 32" "bs = 1 # h" by (simp_all add: res_simps)
  have opt: "reads (rbind (read_fixed_bytes 32 label) (\<lambda>h. rreturn (Some h))) (h @ []) (Some h)"
    by (rule reads_bind, rule reads_fixed) (use h in \<open>auto intro: reads_return\<close>)
  have "reads (read_nullable_hash label) ([1] @ h) (Some h)"
    unfolding read_nullable_hash_def
    by (rule reads_bind, rule reads_read) (use opt in simp_all)
  with h Some show ?thesis by simp
qed

lemma accepts_nullable_hash [exact_intros]:
  "accepts (read_nullable_hash label) (\<lambda>bs v. encode_nullable_hash v = Inr bs)"
proof -
  have "accepts (if marker = [0] then rreturn None
      else if marker = [1] then rbind (read_fixed_bytes 32 label) (\<lambda>h. rreturn (Some h))
      else rlift (Inl e)) (\<lambda>bs v. encode_nullable_hash v = Inr (marker @ bs))" for marker :: bytes and e
  proof (intro accepts_if)
    show "accepts (rbind (read_fixed_bytes 32 label) (\<lambda>h. rreturn (Some h)))
        (\<lambda>bs v. encode_nullable_hash v = Inr (marker @ bs))" if "marker = [1]"
      by (rule accepts_weaken, rule accepts_bind [OF accepts_fixed accepts_return])
        (use that in \<open>auto simp: res_simps\<close>)
  qed (auto simp: res_simps intro: accepts_weaken [OF accepts_return] accepts_weaken [OF accepts_lift])
  from accepts_bind [OF accepts_read this] show ?thesis
    unfolding read_nullable_hash_def by (rule accepts_weaken) auto
qed

interpretation nullable_hash: canonical_codec
  "\<lambda>d. True" encode_nullable_hash "read_nullable_hash label"
  by unfold_locales (auto intro!: reads_intros accepts_weaken [OF accepts_nullable_hash])

text \<open>A hash text is canonical when it is the 64 lower-case digits \<open>bytes.hex()\<close> writes.\<close>

definition hash_text :: "string \<Rightarrow> bool" where
  "hash_text t = (length t = 64 \<and> lower_hex t)"

lemma hash_text_iff: "hash_text t \<longleftrightarrow> (\<exists>h. length h = 32 \<and> t = hex_text h)"
  by (auto simp: hash_text_def lower_hex_iff)

lemma hash_text_hex [simp]: "hash_text (hex_text h) \<longleftrightarrow> length h = 32"
  by (auto simp: hash_text_iff)

lemma encode_hash_hex_text [simp]: "length h = 32 \<Longrightarrow> encode_hash_hex (hex_text h) = Inr h"
  by (simp add: encode_hash_hex_def)

lemma decode_hash_hex_Inr_iff [res_simps]:
  "decode_hash_hex raw = Inr t \<longleftrightarrow> length raw = 32 \<and> t = hex_text raw"
  by (auto simp: decode_hash_hex_def res_simps)

lemma encode_hash_hex_canonical:
  "hash_text t \<Longrightarrow> encode_hash_hex t = Inr h \<longleftrightarrow> length h = 32 \<and> t = hex_text h"
  by (auto simp: hash_text_iff)

lemma reads_hash_hex [reads_intros]:
  assumes "length h = 32" shows "reads (read_hash_hex label) h (hex_text h)"
proof -
  have "reads (read_hash_hex label) (h @ []) (hex_text h)"
    unfolding read_hash_hex_def
    by (rule reads_bind, rule reads_fixed) (use assms in \<open>auto intro!: reads_lift simp: res_simps\<close>)
  then show ?thesis by simp
qed

lemma accepts_hash_hex [exact_intros]:
  "accepts (read_hash_hex label) (\<lambda>bs t. length bs = 32 \<and> t = hex_text bs)"
  unfolding read_hash_hex_def
  by (rule accepts_weaken, rule accepts_bind [OF accepts_fixed accepts_lift]) (auto simp: res_simps)

interpretation hash_field: canonical_codec hash_text encode_hash_hex "read_hash_hex label"
  by unfold_locales
    (auto simp: encode_hash_hex_canonical intro!: reads_hash_hex accepts_weaken [OF accepts_hash_hex])

definition opt_hash_text :: "string option \<Rightarrow> bool" where
  "opt_hash_text v = (case v of None \<Rightarrow> True | Some t \<Rightarrow> hash_text t)"

lemma decode_nullable_hash_hex_Inr_iff [res_simps]: "decode_nullable_hash_hex v = Inr w \<longleftrightarrow>
    (case v of None \<Rightarrow> w = None | Some h \<Rightarrow> length h = 32 \<and> w = Some (hex_text h))"
  by (auto simp: decode_nullable_hash_hex_def res_simps split: option.splits)

lemma encode_hash_hex_nullable_canonical:
  "opt_hash_text v \<Longrightarrow> encode_hash_hex_nullable v = Inr bs \<longleftrightarrow>
    (\<exists>h. encode_nullable_hash h = Inr bs \<and> v = map_option hex_text h)"
  by (cases v) (auto simp: encode_hash_hex_nullable_def encode_nullable_hash_def opt_hash_text_def
      encode_hash_hex_canonical res_simps split: option.splits)

lemma reads_nullable_hash_hex [reads_intros]:
  assumes "opt_hash_text v" and "encode_hash_hex_nullable v = Inr bs"
  shows "reads (read_nullable_hash_hex label) bs v"
proof -
  from assms obtain h where h: "encode_nullable_hash h = Inr bs" "v = map_option hex_text h"
    by (auto simp: encode_hash_hex_nullable_canonical)
  then have "decode_nullable_hash_hex h = Inr v" by (auto simp: res_simps split: option.splits)
  with h(1) have "reads (read_nullable_hash_hex label) (bs @ []) v"
    unfolding read_nullable_hash_hex_def by (intro reads_bind reads_nullable_hash reads_lift)
  then show ?thesis by simp
qed

lemma accepts_nullable_hash_hex [exact_intros]: "accepts (read_nullable_hash_hex label)
    (\<lambda>bs v. opt_hash_text v \<and> encode_hash_hex_nullable v = Inr bs)"
  unfolding read_nullable_hash_hex_def
  by (rule accepts_weaken, rule accepts_bind [OF accepts_nullable_hash accepts_lift])
    (auto simp: res_simps opt_hash_text_def encode_hash_hex_nullable_def split: option.splits)

interpretation nullable_hash_field: canonical_codec
  opt_hash_text encode_hash_hex_nullable "read_nullable_hash_hex label"
  by unfold_locales (auto intro!: reads_intros accepts_weaken [OF accepts_nullable_hash_hex])

section \<open>Signing preimages\<close>

lemma uvarint_append_inject:
  "uvarint_loop m @ s = uvarint_loop n @ t \<Longrightarrow> int m \<le> MAX_UVARINT \<Longrightarrow> int n \<le> MAX_UVARINT
    \<Longrightarrow> m = n \<and> s = t"
  using uvarint.prefix_free [of "int m" "uvarint_loop m" "int n" "uvarint_loop n" s t] by auto

lemma prefixed_append_inject:
  assumes "uvarint_loop (length a) @ a @ s = uvarint_loop (length b) @ b @ t"
    and "int (length a) \<le> MAX_UVARINT" and "int (length b) \<le> MAX_UVARINT"
  shows "a = b \<and> s = t"
  using uvarint_append_inject [OF assms] by (auto dest: append_eq_append_conv [THEN iffD1, rotated])

lemma signing_preimage_Inr_iff [res_simps]: "signing_preimage n ty v alg dm c = Inr bs \<longleftrightarrow>
    (\<exists>e1 e2 e3 e4 e5 e6. encode_uvarint n = Inr e1 \<and> encode_ascii 64 ty = Inr e2
      \<and> encode_uvarint v = Inr e3 \<and> encode_uvarint alg = Inr e4 \<and> encode_ascii 128 dm = Inr e5
      \<and> encode_bytes MAX_SIGNING_PREIMAGE_OBJECT_BYTES c = Inr e6
      \<and> bs = SIGNATURE_PREIMAGE_MAGIC @ e1 @ e2 @ e3 @ e4 @ e5 @ e6)"
  unfolding signing_preimage_def by (auto simp: res_simps)

lemma ascii_append_inject:
  assumes "encode_ascii m a = Inr x" "encode_ascii m' b = Inr y" "x @ s = y @ t"
  shows "a = b \<and> s = t"
  using assms prefixed_append_inject [of "utf8 a" s "utf8 b" t] by (auto simp: res_simps)

lemma signing_preimage_inject_aux:
  assumes "signing_preimage n ty v alg dm c = Inr bs"
    and "signing_preimage n' ty' v' alg' dm' c' = Inr bs"
  shows "n = n' \<and> ty = ty' \<and> v = v' \<and> alg = alg' \<and> dm = dm' \<and> c = c'"
proof -
  from assms obtain e1 e2 e3 e4 e5 e6 f1 f2 f3 f4 f5 f6 where
    e: "encode_uvarint n = Inr e1" "encode_ascii 64 ty = Inr e2" "encode_uvarint v = Inr e3"
      "encode_uvarint alg = Inr e4" "encode_ascii 128 dm = Inr e5"
      "encode_bytes MAX_SIGNING_PREIMAGE_OBJECT_BYTES c = Inr e6" and
    f: "encode_uvarint n' = Inr f1" "encode_ascii 64 ty' = Inr f2" "encode_uvarint v' = Inr f3"
      "encode_uvarint alg' = Inr f4" "encode_ascii 128 dm' = Inr f5"
      "encode_bytes MAX_SIGNING_PREIMAGE_OBJECT_BYTES c' = Inr f6" and
    eq: "e1 @ e2 @ e3 @ e4 @ e5 @ e6 = f1 @ f2 @ f3 @ f4 @ f5 @ f6"
    by (auto simp: signing_preimage_Inr_iff simp del: bounded_numerals)
  have u: "a = b \<and> s = t" if "encode_uvarint a = Inr x" "encode_uvarint b = Inr y" "x @ s = y @ t"
    for a b x y s t
    using that uvarint.prefix_free [of a x b y s t] by (auto simp: res_simps)
  from u [OF e(1) f(1) eq] have 1: "n = n'" "e2 @ e3 @ e4 @ e5 @ e6 = f2 @ f3 @ f4 @ f5 @ f6" by auto
  from ascii_append_inject [OF e(2) f(2) 1(2)]
  have 2: "ty = ty'" "e3 @ e4 @ e5 @ e6 = f3 @ f4 @ f5 @ f6" by auto
  from u [OF e(3) f(3) 2(2)] have 3: "v = v'" "e4 @ e5 @ e6 = f4 @ f5 @ f6" by auto
  from u [OF e(4) f(4) 3(2)] have 4: "alg = alg'" "e5 @ e6 = f5 @ f6" by auto
  from ascii_append_inject [OF e(5) f(5) 4(2)] have 5: "dm = dm'" "e6 = f6" by auto
  from e(6) f(6) 5(2) prefixed_append_inject [of c "[]" c' "[]"] have "c = c'"
    by (auto simp: encode_bytes_Inr_iff)
  with 1 2 3 4 5 show ?thesis by simp
qed

section \<open>Object hashes\<close>

text \<open>The bytes \<open>object_hash\<close> feeds to SHA3.\<close>

definition object_preimage :: "string \<Rightarrow> bytes \<Rightarrow> bytes res" where
  "object_preimage domain canonical =
     bindE (encode_ascii 128 domain) (\<lambda>d.
     bindE (encode_bytes MAX_BOUNDED_BYTES canonical) (\<lambda>c. Inr (d @ c)))"

lemma object_hash_Inr_iff [res_simps]: "object_hash P dm c = Inr h \<longleftrightarrow>
    (\<exists>m. object_preimage dm c = Inr m \<and> h = pf_sha3_256 P m)"
  by (auto simp: object_hash_def object_preimage_def res_simps)

lemma object_preimage_inject:
  assumes "object_preimage dm c = Inr m" and "object_preimage dm' c' = Inr m"
  shows "dm = dm' \<and> c = c'"
proof -
  from assms obtain d e f g where d: "encode_ascii 128 dm = Inr d" "encode_ascii 128 dm' = Inr e"
    and c: "encode_bytes MAX_BOUNDED_BYTES c = Inr f" "encode_bytes MAX_BOUNDED_BYTES c' = Inr g"
    and eq: "d @ f = e @ g"
    unfolding object_preimage_def bindE_Inr_iff by auto
  from ascii_append_inject [OF d eq] have "dm = dm'" "f = g" by simp_all
  with c prefixed_append_inject [of c "[]" c' "[]"] show ?thesis by (auto simp: encode_bytes_Inr_iff)
qed

lemma object_hash_length: "hash_ok P \<Longrightarrow> object_hash P dm c = Inr h \<Longrightarrow> length h = 32"
  by (auto simp: res_simps)

lemma length_uvarint_loop: "n < 128 ^ k \<Longrightarrow> 0 < k \<Longrightarrow> length (uvarint_loop n) \<le> k"
proof (induction k arbitrary: n)
  case (Suc k)
  show ?case
  proof (cases "n < 128")
    case True
    then show ?thesis by (subst uvarint_loop_eq) simp
  next
    case False
    with Suc.prems have "k \<noteq> 0" by (cases k) simp_all
    moreover from Suc.prems have "n div 128 < 128 ^ k" by (simp add: div_less_iff_less_mult mult.commute)
    ultimately have "length (uvarint_loop (n div 128)) \<le> k" using Suc.IH by simp
    with False show ?thesis by (subst uvarint_loop_eq) simp
  qed
qed simp

lemma encode_uvarint_size: "encode_uvarint v = Inr bs \<Longrightarrow> length bs \<le> 9"
  by (auto simp: encode_uvarint_Inr_iff intro!: length_uvarint_loop)

lemma encode_bytes_size: "encode_bytes m d = Inr bs \<Longrightarrow> length bs \<le> length d + 9"
  using length_uvarint_loop [of "length d" 9] by (auto simp: encode_bytes_Inr_iff)

lemma encode_ascii_size: "encode_ascii m d = Inr bs \<Longrightarrow> length bs \<le> length d + 9"
  using length_uvarint_loop [of "length d" 9] by (auto simp: encode_ascii_Inr_iff)

lemma fromhex_size: "fromhex t = Some b \<Longrightarrow> 2 * length b \<le> length t"
  by (induction t arbitrary: b rule: fromhex.induct) (fastforce split: if_splits list.splits option.splits)+

lemma encode_hash_hex_size: "encode_hash_hex t = Inr bs \<Longrightarrow> length bs \<le> 32"
  using fromhex_size [of t bs] by (auto simp: encode_hash_hex_def split: if_splits option.splits)

lemma encode_nullable_size: "encode_hash_hex_nullable t = Inr bs \<Longrightarrow> length bs \<le> 33"
  using encode_hash_hex_size by (fastforce simp: encode_hash_hex_nullable_def res_simps split: option.splits)

lemmas field_sizes = encode_uvarint_size encode_bytes_size encode_ascii_size encode_hash_hex_size
  encode_nullable_size

lemma object_preimage_ok:
  assumes "is_ascii dm" "length dm \<le> 128" "length c \<le> 65536"
  shows "\<exists>m. object_preimage dm c = Inr m"
proof -
  have "encode_ascii 128 dm = Inr (uvarint_loop (length dm) @ utf8 dm)"
    using assms by (simp add: encode_ascii_Inr_iff)
  moreover have "encode_bytes MAX_BOUNDED_BYTES c = Inr (uvarint_loop (length c) @ c)"
    using assms by (simp add: encode_bytes_Inr_iff)
  ultimately show ?thesis by (simp add: object_preimage_def)
qed

end
