(* ===== verification/Supply.thy ===== *)
theory Supply
  imports JsonText KeysV3 BinaryV3
begin

text \<open>
  The fixed supply of \<open>src/ind/protocol.py\<close> (sixteen denominations, a serial cap for each, 33
  billion serials in all) and the field checks of \<open>src/ind/protocol_v3.py\<close> that every object
  validator calls: integers with a minimum, hash texts, addresses, and display ids such as
  \<open>100x42\<close> (denomination, \<open>x\<close>, serial), parsed and written canonically.
\<close>

section \<open>Denominations and serial caps\<close>

definition TOTAL_SUPPLY :: int where
  "TOTAL_SUPPLY = 33 * 1000000000"

definition DENOMINATION_SERIAL_CAPS :: "(int \<times> int) list" where
  "DENOMINATION_SERIAL_CAPS =
    [(1, 6000000000), (2, 5500000000), (5, 5000000000), (10, 4500000000), (20, 4000000000),
     (50, 2000000000), (100, 1500000000), (200, 1000000000), (500, 800000000), (1000, 700000000),
     (2000, 600000000), (5000, 500000000), (10000, 400000000), (20000, 250000000),
     (50000, 150000000), (100000, 100000000)]"

definition ALLOWED_BILL_VALUES :: "int list" where
  "ALLOWED_BILL_VALUES = [1, 2, 5, 10, 20, 50, 100, 200, 500, 1000, 2000, 5000, 10000, 20000, 50000, 100000]"

definition require_int_range :: "int \<Rightarrow> string \<Rightarrow> int option \<Rightarrow> int option \<Rightarrow> int res" where
  "require_int_range v label minimum maximum =
     (if (case minimum of None \<Rightarrow> False | Some m \<Rightarrow> v < m) then Inl (ValidationError (label @ '' is below the allowed range''))
      else if (case maximum of None \<Rightarrow> False | Some m \<Rightarrow> v > m) then Inl (ValidationError (label @ '' is above the allowed range''))
      else Inr v)"

definition validate_bill_value :: "int \<Rightarrow> string \<Rightarrow> int res" where
  "validate_bill_value v label = bindE (require_int_range v label (Some 1) None) (\<lambda>v.
     if v \<notin> set ALLOWED_BILL_VALUES
     then Inl (ValidationError (label @ '' is not an allowed IND denomination'')) else Inr v)"

definition serial_cap :: "int \<Rightarrow> int" where
  "serial_cap v = (case map_of DENOMINATION_SERIAL_CAPS v of None \<Rightarrow> 0 | Some c \<Rightarrow> c)"

definition validate_bill_serial :: "int \<Rightarrow> int \<Rightarrow> string \<Rightarrow> int res" where
  "validate_bill_serial v serial label =
     bindE (validate_bill_value v ''bill serial value'') (\<lambda>v.
     require_int_range serial label (Some 1) (Some (serial_cap v)))"

section \<open>Field checks of the V3 objects\<close>

text \<open>\<open>except ValidationError as exc: raise ProtocolV3Error(str(exc))\<close>.\<close>

definition as_protocol_error :: "error \<Rightarrow> error" where
  "as_protocol_error e = (if is_validation_error e then ProtocolV3Error (error_text e) else e)"

definition require_int :: "int \<Rightarrow> string \<Rightarrow> int \<Rightarrow> int res" where
  "require_int v label minimum =
     (if v < minimum then Inl (ProtocolV3Error (label @ '' is below the allowed range'')) else Inr v)"

definition require_bill_value :: "int \<Rightarrow> string \<Rightarrow> int res" where
  "require_bill_value v label = or_raise (validate_bill_value v label) as_protocol_error"

definition require_display_serial :: "int \<Rightarrow> int \<Rightarrow> string \<Rightarrow> int res" where
  "require_display_serial v serial label = or_raise (validate_bill_serial v serial label) as_protocol_error"

definition display_id_hash :: "platform \<Rightarrow> string \<Rightarrow> string \<Rightarrow> string res" where
  "display_id_hash P d label =
     (if d \<noteq> strip d \<or> \<not> is_ascii d then Inl (ProtocolV3Error (''invalid '' @ label))
      else Inr (sha3_hex P (utf8 d)))"

text \<open>\<open>int(s)\<close> on a run of ASCII digits.\<close>

definition int_of_digits :: "string \<Rightarrow> int res" where
  "int_of_digits s = (if length s > MAX_INT_DIGITS
     then Inl (PyValueError ''Exceeds the limit for integer string conversion'')
     else Inr (int (digits_value s)))"

definition all_digits :: "string \<Rightarrow> bool" where
  "all_digits s = (s \<noteq> [] \<and> list_all is_digit s)"

definition parse_display_id :: "platform \<Rightarrow> string \<Rightarrow> string \<Rightarrow> (int \<times> int) res" where
  "parse_display_id P d label =
     bindE (display_id_hash P d label) (\<lambda>_.
     let prefix = takeWhile (\<lambda>c. c \<noteq> CHR ''x'') d;
         rest = dropWhile (\<lambda>c. c \<noteq> CHR ''x'') d;
         suffix = tl rest in
     if rest = [] \<or> prefix = [] \<or> suffix = [] \<or> CHR ''x'' \<in> set suffix
     then Inl (ProtocolV3Error (label @ '' must be formatted as valuexserial''))
     else if \<not> all_digits prefix \<or> \<not> all_digits suffix
     then Inl (ProtocolV3Error (label @ '' must be formatted as valuexserial''))
     else if length prefix > 1 \<and> startswith prefix ''0''
     then Inl (ProtocolV3Error (label @ '' value must be canonical''))
     else if length suffix > 1 \<and> startswith suffix ''0''
     then Inl (ProtocolV3Error (label @ '' serial must be canonical''))
     else bindE (int_of_digits prefix) (\<lambda>p. bindE (require_bill_value p (label @ '' value'')) (\<lambda>value.
          bindE (int_of_digits suffix) (\<lambda>s. bindE (require_display_serial value s (label @ '' serial'')) (\<lambda>serial.
          Inr (value, serial))))))"

definition canonical_display_id :: "int \<Rightarrow> int \<Rightarrow> string res" where
  "canonical_display_id v issue_index =
     bindE (require_bill_value v ''display id value'') (\<lambda>v.
     bindE (require_display_serial v issue_index ''display id issue index'') (\<lambda>i.
     Inr (int_text v @ ''x'' @ int_text i)))"

definition validate_display_id_value :: "platform \<Rightarrow> string \<Rightarrow> int \<Rightarrow> string \<Rightarrow> (int \<times> int) res" where
  "validate_display_id_value P d v label =
     bindE (parse_display_id P d label) (\<lambda>parsed.
     if fst parsed \<noteq> v
     then Inl (ProtocolV3Error (label @ '' value prefix does not match bill value'')) else Inr parsed)"

definition validate_display_id_issue_index :: "platform \<Rightarrow> string \<Rightarrow> int \<Rightarrow> int \<Rightarrow> string \<Rightarrow> (int \<times> int) res" where
  "validate_display_id_issue_index P d v issue_index label =
     bindE (validate_display_id_value P d v label) (\<lambda>parsed.
     bindE (require_display_serial v issue_index (label @ '' issue index'')) (\<lambda>i.
     if snd parsed \<noteq> i
     then Inl (ProtocolV3Error (label @ '' serial does not match genesis issue index'')) else Inr parsed))"

definition hex32 :: "string \<Rightarrow> string \<Rightarrow> string res" where
  "hex32 v label = (if length v \<noteq> 64 then Inl (ProtocolV3Error (''invalid '' @ label))
     else case fromhex v of None \<Rightarrow> Inl (ProtocolV3Error (''invalid '' @ label)) | Some _ \<Rightarrow> Inr (lower v))"

definition validate_v3_address :: "platform \<Rightarrow> string \<Rightarrow> string \<Rightarrow> string res" where
  "validate_v3_address P a label = or_raise (validate_address P a label) as_protocol_error"

section \<open>Valid denominations and serials\<close>

definition valid_bill :: "int \<Rightarrow> int \<Rightarrow> bool" where
  "valid_bill v serial = (v \<in> set ALLOWED_BILL_VALUES \<and> 1 \<le> serial \<and> serial \<le> serial_cap v)"

lemma require_int_range_Inr_iff [res_simps]: "require_int_range v l a b = Inr x \<longleftrightarrow>
    x = v \<and> (\<forall>m. a = Some m \<longrightarrow> m \<le> v) \<and> (\<forall>m. b = Some m \<longrightarrow> v \<le> m)"
  by (auto simp: require_int_range_def linorder_not_less split: option.splits)

lemma allowed_pos: "v \<in> set ALLOWED_BILL_VALUES \<Longrightarrow> 1 \<le> v"
  by (auto simp: ALLOWED_BILL_VALUES_def)

lemma allowed_bound: "v \<in> set ALLOWED_BILL_VALUES \<Longrightarrow> v \<le> 100000"
  by (auto simp: ALLOWED_BILL_VALUES_def)

lemma serial_cap_bound: "serial_cap v \<le> 6000000000"
  by (simp add: serial_cap_def DENOMINATION_SERIAL_CAPS_def)

lemma validate_bill_value_Inr_iff [res_simps]:
  "validate_bill_value v l = Inr x \<longleftrightarrow> x = v \<and> v \<in> set ALLOWED_BILL_VALUES"
  by (auto simp: validate_bill_value_def res_simps allowed_pos)

lemma validate_bill_serial_Inr_iff [res_simps]:
  "validate_bill_serial v s l = Inr x \<longleftrightarrow> x = s \<and> valid_bill v s"
  by (auto simp: validate_bill_serial_def valid_bill_def res_simps)

lemma require_bill_value_Inr_iff [res_simps]:
  "require_bill_value v l = Inr x \<longleftrightarrow> x = v \<and> v \<in> set ALLOWED_BILL_VALUES"
  by (simp add: require_bill_value_def res_simps)

lemma require_display_serial_Inr_iff [res_simps]:
  "require_display_serial v s l = Inr x \<longleftrightarrow> x = s \<and> valid_bill v s"
  by (simp add: require_display_serial_def res_simps)

lemma require_int_Inr_iff [res_simps]: "require_int v l m = Inr x \<longleftrightarrow> x = v \<and> m \<le> v"
  by (auto simp: require_int_def)

lemma validate_v3_address_Inr_iff [res_simps]:
  "validate_v3_address P a l = Inr x \<longleftrightarrow> validate_address P a l = Inr x"
  by (simp add: validate_v3_address_def res_simps)

lemma caps_total: "sum_list (map snd DENOMINATION_SERIAL_CAPS) = TOTAL_SUPPLY"
  by (simp add: DENOMINATION_SERIAL_CAPS_def TOTAL_SUPPLY_def)

lemma caps_values: "map fst DENOMINATION_SERIAL_CAPS = ALLOWED_BILL_VALUES"
  by (simp add: DENOMINATION_SERIAL_CAPS_def ALLOWED_BILL_VALUES_def)

lemma caps_nonneg: "0 \<le> serial_cap v"
  by (simp add: serial_cap_def DENOMINATION_SERIAL_CAPS_def)

lemma valid_bill_pairs:
  "{(v, s). valid_bill v s} = Sigma (set ALLOWED_BILL_VALUES) (\<lambda>v. {1..serial_cap v})"
  by (auto simp: valid_bill_def)

lemma card_valid_bill: "int (card {(v, s). valid_bill v s}) = TOTAL_SUPPLY"
proof -
  have "distinct ALLOWED_BILL_VALUES" by (simp add: ALLOWED_BILL_VALUES_def)
  then have "int (card {(v, s). valid_bill v s}) = (\<Sum>v\<leftarrow>ALLOWED_BILL_VALUES. serial_cap v)"
    unfolding valid_bill_pairs by (simp add: card_SigmaI caps_nonneg sum_list_distinct_conv_sum_set)
  also have "\<dots> = TOTAL_SUPPLY"
    by (simp add: ALLOWED_BILL_VALUES_def serial_cap_def DENOMINATION_SERIAL_CAPS_def TOTAL_SUPPLY_def)
  finally show ?thesis .
qed

section \<open>Display ids\<close>

text \<open>The text of a denomination and serial.\<close>

definition display_text :: "int \<Rightarrow> int \<Rightarrow> string" where
  "display_text v s = int_text v @ ''x'' @ int_text s"

lemma digits_value_pos: "s \<noteq> [] \<Longrightarrow> list_all is_digit s \<Longrightarrow> hd s \<noteq> CHR ''0'' \<Longrightarrow> 0 < digits_value s"
proof (induction s rule: rev_induct)
  case (snoc c s)
  show ?case
  proof (cases "s = []")
    case True
    with snoc have "code c \<noteq> 48" by (auto simp: code_def [of "CHR ''0''"] simp flip: code_inject)
    with True snoc show ?thesis by (auto simp: is_digit_def)
  qed (use snoc in auto)
qed simp

lemma nat_text_digits_value:
  "s \<noteq> [] \<Longrightarrow> list_all is_digit s \<Longrightarrow> length s > 1 \<longrightarrow> hd s \<noteq> CHR ''0'' \<Longrightarrow> nat_text (digits_value s) = s"
proof (induction s rule: rev_induct)
  case (snoc c s)
  then have c: "is_digit c" by simp
  then have cd: "hex_digit (code c - 48) = c" "code c - 48 < 10"
    by (auto simp: is_digit_def code_dec_digit simp flip: code_inject)
  show ?case
  proof (cases "s = []")
    case True
    with cd show ?thesis by (simp add: nat_text.simps)
  next
    case False
    with snoc have "nat_text (digits_value s) = s" "0 < digits_value s"
      by (auto intro: digits_value_pos)
    with cd show ?thesis by (subst nat_text.simps) simp
  qed
qed simp

lemma no_x_digits: "list_all is_digit s \<Longrightarrow> CHR ''x'' \<notin> set s"
  by (auto simp: list_all_iff is_digit_def code_def dest!: bspec)

lemma int_text_nonneg: "0 \<le> v \<Longrightarrow> int_text v = nat_text (nat v)"
  by (simp add: int_text_def)

lemma canonical_display_id_Inr_iff [res_simps]:
  "canonical_display_id v s = Inr d \<longleftrightarrow> valid_bill v s \<and> d = display_text v s"
  by (auto simp: canonical_display_id_def display_text_def res_simps valid_bill_def)

lemma digit_plain: "is_digit c \<Longrightarrow> \<not> is_space c \<and> code c < 128"
  by (auto simp: is_digit_def is_space_def Let_def)

lemma display_text_plain:
  assumes "0 \<le> v" "0 \<le> s"
  shows "is_ascii (display_text v s)" and "strip (display_text v s) = display_text v s"
proof -
  have "list_all (\<lambda>c. \<not> is_space c \<and> code c < 128) (nat_text n)" for n
    using nat_text_digits [of n] digit_plain by (auto simp: list_all_iff)
  moreover have "\<not> is_space (CHR ''x'') \<and> code (CHR ''x'') < 128" by (simp add: is_space_def code_def)
  ultimately have "list_all (\<lambda>c. \<not> is_space c \<and> code c < 128) (display_text v s)"
    using assms by (simp add: display_text_def int_text_nonneg)
  then show "is_ascii (display_text v s)" "strip (display_text v s) = display_text v s"
    by (auto simp: is_ascii_def list_all_iff intro!: strip_no_space)
qed

lemma nat_text_canonical: "length (nat_text n) > 1 \<Longrightarrow> \<not> startswith (nat_text n) ''0''"
proof
  assume l: "length (nat_text n) > 1" and "startswith (nat_text n) ''0''"
  then have "hd (nat_text n) = CHR ''0''" by (auto dest: startswith_hd)
  then have "n = 0" using hd_nat_text_nonzero by blast
  with l show False by simp
qed

lemma nat_text_short: "n < 10 ^ 10 \<Longrightarrow> length (nat_text n) \<le> MAX_INT_DIGITS"
  using length_nat_text [of n 10] by (simp add: MAX_INT_DIGITS_def)

lemma parse_display_text:
  assumes "valid_bill v s"
  shows "parse_display_id P (display_text v s) label = Inr (v, s)"
proof -
  from assms allowed_pos allowed_bound have v: "1 \<le> v" "v \<le> 100000" by (auto simp: valid_bill_def)
  from assms serial_cap_bound [of v] have s: "1 \<le> s" "s \<le> 6000000000" by (auto simp: valid_bill_def)
  let ?p = "nat_text (nat v)" and ?q = "nat_text (nat s)"
  have d: "display_text v s = ?p @ CHR ''x'' # ?q"
    using v s by (simp add: display_text_def int_text_nonneg)
  have no_x: "CHR ''x'' \<notin> set ?p" "CHR ''x'' \<notin> set ?q" using nat_text_digits no_x_digits by blast+
  have "takeWhile (\<lambda>c. c \<noteq> CHR ''x'') (display_text v s) = ?p"
    "dropWhile (\<lambda>c. c \<noteq> CHR ''x'') (display_text v s) = CHR ''x'' # ?q"
    using no_x(1) unfolding d by (auto simp: takeWhile_append dropWhile_append)
  moreover have "display_id_hash P (display_text v s) label = Inr (sha3_hex P (utf8 (display_text v s)))"
    using v s by (simp add: display_id_hash_def display_text_plain)
  moreover have "int_of_digits ?p = Inr v" "int_of_digits ?q = Inr s"
    using v s nat_text_short [of "nat v"] nat_text_short [of "nat s"]
    by (simp_all add: int_of_digits_def nat_less_iff linorder_not_less)
  moreover have "all_digits ?p" "all_digits ?q" by (simp_all add: all_digits_def nat_text_digits)
  ultimately show ?thesis
    using no_x assms nat_text_canonical
    by (simp add: parse_display_id_def Let_def require_bill_value_Inr_iff [THEN iffD2]
        require_display_serial_Inr_iff [THEN iffD2] valid_bill_def)
qed

lemma parse_display_id_Inr_iff [res_simps]:
  "parse_display_id P d label = Inr p \<longleftrightarrow> valid_bill (fst p) (snd p) \<and> d = display_text (fst p) (snd p)"
proof
  assume "parse_display_id P d label = Inr p"
  then obtain prefix rest where
    pr: "prefix = takeWhile (\<lambda>c. c \<noteq> CHR ''x'') d" "rest = dropWhile (\<lambda>c. c \<noteq> CHR ''x'') d" "rest \<noteq> []"
    and ok: "all_digits prefix" "all_digits (tl rest)"
      "\<not> (length prefix > 1 \<and> startswith prefix ''0'')" "\<not> (length (tl rest) > 1 \<and> startswith (tl rest) ''0'')"
    and v: "fst p = int (digits_value prefix)" "snd p = int (digits_value (tl rest))" "valid_bill (fst p) (snd p)"
    by (cases p) (auto simp: parse_display_id_def Let_def res_simps int_of_digits_def split: if_splits)
  have hd: "hd s \<noteq> CHR ''0''" if "\<not> startswith s ''0''" "s \<noteq> []" for s :: string
    using that by (cases s) (auto simp: startswith_def)
  have p: "nat_text (digits_value prefix) = prefix" "nat_text (digits_value (tl rest)) = tl rest"
    using ok hd by (auto simp: all_digits_def intro!: nat_text_digits_value)
  have "d = prefix @ rest" using pr by simp
  moreover have "rest = CHR ''x'' # tl rest" using pr(2,3) hd_dropWhile [of "\<lambda>c. c \<noteq> CHR ''x''" d] by (metis list.collapse)
  ultimately have "d = display_text (fst p) (snd p)"
    using p v by (simp add: display_text_def int_text_nonneg)
  with v show "valid_bill (fst p) (snd p) \<and> d = display_text (fst p) (snd p)" by simp
qed (metis parse_display_text prod.collapse)

lemma display_text_inject:
  assumes "valid_bill v s" "valid_bill v' s'" "display_text v s = display_text v' s'"
  shows "v = v' \<and> s = s'"
proof -
  have "Inr (v, s) = (Inr (v', s') :: (int \<times> int) res)"
    using parse_display_text [OF assms(1), of toy_platform "[]"]
      parse_display_text [OF assms(2), of toy_platform "[]"] unfolding assms(3) by (rule trans [OF sym])
  then show ?thesis by simp
qed

lemma display_id_hash_Inr_iff [res_simps]: "display_id_hash P d l = Inr h \<longleftrightarrow>
    d = strip d \<and> is_ascii d \<and> h = sha3_hex P (utf8 d)"
  by (auto simp: display_id_hash_def)

lemma validate_display_id_value_Inr_iff [res_simps]: "validate_display_id_value P d v l = Inr p \<longleftrightarrow>
    fst p = v \<and> valid_bill v (snd p) \<and> d = display_text v (snd p)"
  by (auto simp: validate_display_id_value_def res_simps)

lemma validate_display_id_issue_index_Inr_iff [res_simps]:
  "validate_display_id_issue_index P d v i l = Inr p \<longleftrightarrow> p = (v, i) \<and> valid_bill v i \<and> d = display_text v i"
  by (cases p) (auto simp: validate_display_id_issue_index_def res_simps)

text \<open>Text that \<open>_hex32\<close> accepts.\<close>

definition hex64 :: "string \<Rightarrow> bool" where
  "hex64 t = (length t = 64 \<and> fromhex t \<noteq> None)"

lemma hex32_Inr_iff [res_simps]: "hex32 v l = Inr x \<longleftrightarrow> hex64 v \<and> x = lower v"
  by (auto simp: hex32_def hex64_def split: option.splits)

lemma hash_text_hex64 [simp]: "hash_text t \<Longrightarrow> hex64 t"
  by (auto simp: hex64_def hash_text_iff)

lemma hex32_hash_text [simp]: "hash_text t \<Longrightarrow> hex32 t l = Inr t"
  by (auto simp: hash_text_iff hex32_def)

lemma lower_hash_text [simp]: "hash_text t \<Longrightarrow> lower t = t"
  using hex32_hash_text [of t "[]"] unfolding hex32_Inr_iff by simp

lemma display_text_length: "valid_bill v s \<Longrightarrow> length (display_text v s) \<le> 64"
proof -
  assume b: "valid_bill v s"
  then have v: "1 \<le> v" "v \<le> 100000" using allowed_pos allowed_bound by (auto simp: valid_bill_def)
  from b serial_cap_bound [of v] have s: "1 \<le> s" "s \<le> 6000000000" by (auto simp: valid_bill_def)
  from v s have "nat v < 10 ^ 10" "nat s < 10 ^ 10" by (simp_all add: nat_less_iff)
  then have "length (nat_text (nat v)) \<le> 10" "length (nat_text (nat s)) \<le> 10"
    by (auto intro: length_nat_text)
  then show ?thesis using v s by (simp add: display_text_def int_text_nonneg)
qed

end
