(* ===== verification/Envelope.thy ===== *)
theory Envelope
  imports Supply
begin

text \<open>
  The typed binary envelope of \<open>src/ind/protocol_v3.py\<close> (magic, version, network id, body) and the
  base85 wire text of it. \<open>decode_envelope\<close> is generic in the body decoder; \<open>envelope_codec\<close>
  lifts any body codec of the \<open>codec\<close> interface to whole objects. The rules \<open>codec_reads\<close> and
  \<open>accepts_bindI\<close> drive the proofs about field-by-field decoders.
\<close>

definition VERSION :: int where "VERSION = 3"

definition V3_PAYLOAD_PREFIX :: string where "V3_PAYLOAD_PREFIX = ''indb3:''"

definition encode_envelope :: "bytes \<Rightarrow> int \<Rightarrow> bytes \<Rightarrow> bytes res" where
  "encode_envelope magic network_id body =
     joinE [Inr magic, encode_uvarint VERSION, encode_uvarint network_id, Inr body]"

definition read_envelope :: "bytes \<Rightarrow> string \<Rightarrow> int parser" where
  "read_envelope magic label =
     rbind (reader_read (int (length magic)) (label @ '' magic'')) (\<lambda>actual.
     if actual \<noteq> magic then rlift (Inl (ProtocolV3Error (''invalid '' @ label @ '' magic'')))
     else rbind (read_uvarint (label @ '' version'')) (\<lambda>version.
     if version \<noteq> VERSION then rlift (Inl (ProtocolV3Error (''unsupported '' @ label @ '' version'')))
     else read_uvarint (label @ '' network id'')))"

text \<open>Only \<open>BinaryV3Error\<close> is caught.\<close>

fun malformed :: "string \<Rightarrow> error \<Rightarrow> error" where
  "malformed label (BinaryV3Error m) = ProtocolV3Error (''malformed '' @ label)"
| "malformed label e = e"

definition decode_envelope :: "bytes \<Rightarrow> bytes \<Rightarrow> string \<Rightarrow> (int \<Rightarrow> 'a parser) \<Rightarrow> 'a res" where
  "decode_envelope data magic label body_decoder =
     or_raise (decode_all data (rbind (read_envelope magic label) body_decoder)) (malformed label)"

definition encode_wire_payload :: "bytes \<Rightarrow> string" where
  "encode_wire_payload blob = V3_PAYLOAD_PREFIX @ b85encode blob"

definition decode_wire_payload :: "string \<Rightarrow> bytes res" where
  "decode_wire_payload payload =
     (if \<not> startswith payload V3_PAYLOAD_PREFIX then Inl (ProtocolV3Error ''invalid V3 wire payload'')
      else let t = drop (length V3_PAYLOAD_PREFIX) payload in
        case (if is_ascii t then b85decode t else None) of
          None \<Rightarrow> Inl (ProtocolV3Error ''invalid V3 wire payload'') | Some b \<Rightarrow> Inr b)"

lemma decode_encode_wire_payload [simp]: "decode_wire_payload (encode_wire_payload b) = Inr b"
  using b85encode_plain [of b] by (simp add: decode_wire_payload_def encode_wire_payload_def Let_def)

section \<open>Proof rules for field-by-field decoders\<close>

lemma reads_uvarint_enc: "encode_uvarint v = Inr bs \<Longrightarrow> reads (read_uvarint l) bs v"
  by (rule uvarint.enc_reads) (auto simp: res_simps)

lemma reads_ascii_enc: "encode_ascii m t = Inr bs \<Longrightarrow> m \<le> 65536 \<Longrightarrow> reads (read_ascii l m) bs t"
  by (rule reads_ascii) (auto simp: res_simps)

lemma reads_bytes_enc: "encode_bytes m t = Inr bs \<Longrightarrow> m \<le> 65536 \<Longrightarrow> reads (read_bytes l m) bs t"
  by (rule reads_bytes) (auto simp: res_simps)

lemma reads_hash_enc: "encode_hash_hex t = Inr bs \<Longrightarrow> hash_text t \<Longrightarrow> reads (read_hash_hex l) bs t"
  by (rule hash_field.enc_reads)

lemma reads_nullable_enc:
  "encode_hash_hex_nullable t = Inr bs \<Longrightarrow> opt_hash_text t \<Longrightarrow> reads (read_nullable_hash_hex l) bs t"
  by (rule nullable_hash_field.enc_reads)

lemma reads_return_eq: "x = y \<Longrightarrow> bs = [] \<Longrightarrow> reads (rreturn x) bs y"
  by (simp add: reads_return)

lemma reads_lift_bind: "m = Inr x \<Longrightarrow> reads (f x) bs y \<Longrightarrow> reads (rbind (rlift m) f) bs y"
  using reads_bind [OF reads_lift, of m x f bs y] by simp

lemmas codec_reads = reads_bind reads_uvarint_enc reads_ascii_enc reads_bytes_enc reads_hash_enc
  reads_nullable_enc reads_return_eq

lemma accepts_bindI:
  assumes "accepts p R" and "\<And>x. accepts (f x) (\<lambda>cs y. \<forall>bs. R bs x \<longrightarrow> Q (bs @ cs) y)"
  shows "accepts (rbind p f) Q"
  by (rule accepts_weaken [OF accepts_bind [OF assms]]) auto

lemma accepts_returnI: "Q [] x \<Longrightarrow> accepts (rreturn x) Q"
  by (rule accepts_weaken [OF accepts_return]) auto

lemma accepts_failI: "accepts (rlift (Inl e)) Q"
  by (rule accepts_weaken [OF accepts_lift]) auto

lemma accepts_liftI: "(\<And>y. m = Inr y \<Longrightarrow> Q [] y) \<Longrightarrow> accepts (rlift m) Q"
  by (rule accepts_weaken [OF accepts_lift]) auto

section \<open>The envelope as a codec\<close>

lemma encode_envelope_Inr_iff [res_simps]: "encode_envelope magic n body = Inr bs \<longleftrightarrow>
    (\<exists>e. encode_uvarint n = Inr e \<and> bs = magic @ uvarint_loop 3 @ e @ body)"
  by (auto simp: encode_envelope_def VERSION_def res_simps)

lemma reads_envelope:
  assumes "encode_uvarint n = Inr e" and "length magic = 8"
  shows "reads (read_envelope magic label) (magic @ uvarint_loop 3 @ e) n"
  unfolding read_envelope_def
proof (rule reads_bind)
  show "reads (reader_read (int (length magic)) (label @ '' magic'')) magic magic"
    using assms(2) by (intro reads_read) simp_all
  have "reads (rbind (read_uvarint (label @ '' version'')) (\<lambda>version.
       if version \<noteq> VERSION then rlift (Inl (ProtocolV3Error (''unsupported '' @ label @ '' version'')))
       else read_uvarint (label @ '' network id''))) (uvarint_loop 3 @ e) n"
  proof (rule reads_bind)
    show "reads (read_uvarint (label @ '' version'')) (uvarint_loop 3) VERSION"
      by (rule reads_uvarint_enc) (simp add: res_simps VERSION_def)
    show "reads (if VERSION \<noteq> VERSION then rlift (Inl (ProtocolV3Error (''unsupported '' @ label @ '' version'')))
       else read_uvarint (label @ '' network id'')) e n"
      using reads_uvarint_enc [OF assms(1)] by simp
  qed
  then show "reads (if magic \<noteq> magic then rlift (Inl (ProtocolV3Error (''invalid '' @ label @ '' magic'')))
     else rbind (read_uvarint (label @ '' version'')) (\<lambda>version.
       if version \<noteq> VERSION then rlift (Inl (ProtocolV3Error (''unsupported '' @ label @ '' version'')))
       else read_uvarint (label @ '' network id''))) (uvarint_loop 3 @ e) n"
    by simp
qed

lemma accepts_envelope:
  "accepts (read_envelope magic label)
     (\<lambda>bs n. \<exists>e. encode_uvarint n = Inr e \<and> bs = magic @ uvarint_loop 3 @ e)"
  unfolding read_envelope_def
proof (rule accepts_bindI [OF accepts_read], rule accepts_if, rule accepts_failI,
    rule accepts_bindI [OF accepts_uvarint], rule accepts_if, rule accepts_failI,
    rule accepts_weaken [OF accepts_uvarint])
qed (auto simp: res_simps VERSION_def)

lemma or_raise_malformed_Inr [res_simps]:
  "decode_envelope data magic label rd = Inr x \<longleftrightarrow>
     decode_all data (rbind (read_envelope magic label) rd) = Inr x"
  by (simp add: decode_envelope_def res_simps)

text \<open>
  A body codec for each network id gives a codec of whole objects. \<open>nid\<close> is the network id an
  object carries.
\<close>

locale envelope_codec =
  fixes magic :: bytes and label :: string and nid :: "'a \<Rightarrow> int"
    and valid :: "'a \<Rightarrow> bool" and enc :: "'a \<Rightarrow> bytes res" and rd :: "int \<Rightarrow> 'a parser"
  assumes magic_length: "length magic = 8"
    and body_reads: "valid x \<Longrightarrow> enc x = Inr bs \<Longrightarrow> reads (rd (nid x)) bs x"
begin

lemma decode_encode:
  assumes "valid x" and "bindE (enc x) (encode_envelope magic (nid x)) = Inr bs"
  shows "decode_envelope bs magic label rd = Inr x"
proof -
  from assms(2) obtain b e where b: "enc x = Inr b" "encode_uvarint (nid x) = Inr e"
    "bs = (magic @ uvarint_loop 3 @ e) @ b" by (auto simp: res_simps)
  have "reads (rbind (read_envelope magic label) rd) bs x"
    unfolding b(3)
    by (rule reads_bind [where f = rd, OF reads_envelope [OF b(2) magic_length] body_reads [OF assms(1) b(1)]])
  then show ?thesis by (simp add: res_simps reads_decode_all)
qed

lemma encode_inject:
  assumes "valid x" "valid y" "bindE (enc x) (encode_envelope magic (nid x)) = Inr bs"
    "bindE (enc y) (encode_envelope magic (nid y)) = Inr bs"
  shows "x = y"
  using decode_encode [OF assms(1,3)] decode_encode [OF assms(2,4)] by simp

end

locale canonical_envelope_codec = envelope_codec +
  assumes body_accepts: "accepts (rd n) (\<lambda>bs x. valid x \<and> nid x = n \<and> enc x = Inr bs)"
begin

lemma encode_decode:
  assumes "decode_envelope bs magic label rd = Inr x"
  shows "valid x \<and> bindE (enc x) (encode_envelope magic (nid x)) = Inr bs"
proof -
  have "accepts (rbind (read_envelope magic label) rd)
      (\<lambda>bs x. \<exists>e b. encode_uvarint (nid x) = Inr e \<and> bs = magic @ uvarint_loop 3 @ e @ b
        \<and> valid x \<and> enc x = Inr b)"
    by (rule accepts_bindI [OF accepts_envelope]) (rule accepts_weaken [OF body_accepts], auto)
  from accepts_decode_all [OF this] assms show ?thesis by (auto simp: res_simps)
qed

lemma decode_iff: "decode_envelope bs magic label rd = Inr x \<longleftrightarrow>
    valid x \<and> bindE (enc x) (encode_envelope magic (nid x)) = Inr bs"
  using encode_decode decode_encode by blast

end

end
