(* ===== verification/Checkpoint.thy ===== *)
theory Checkpoint
  imports Envelope
begin

text \<open>
  Genesis references, the token state that transfers build on, and checkpoint cores
  (\<open>src/ind/protocol_v3.py\<close>): validators, binary codecs, the self-hash of a checkpoint and its
  construction from a state. Objects are records of the fields the code requires, the tag fields
  \<open>type\<close>, \<open>version\<close> and \<open>network_id\<close> included because the code checks them; that the dict has
  exactly those fields, of those Python types, is the record type itself.
\<close>

section \<open>Genesis references\<close>

record genesis_ref =
  gr_type :: string
  gr_version :: int
  gr_network_id :: int
  gr_genesis_hash :: string
  gr_manifest_hash :: "string option"
  gr_issuer_key_id :: "string option"
  gr_issue_index :: int
  gr_issued_at :: int

definition GENESIS_REF_TYPE :: string where "GENESIS_REF_TYPE = ''ind.genesis_ref.v3''"
definition GENESIS_REF_MAGIC :: bytes where "GENESIS_REF_MAGIC = utf8 ''IND3GENR''"

definition opt_check :: "('a \<Rightarrow> 'b res) \<Rightarrow> 'a option \<Rightarrow> unit res" where
  "opt_check f v = (case v of None \<Rightarrow> Inr () | Some x \<Rightarrow> bindE (f x) (\<lambda>_. Inr ()))"

definition trusted_genesis_manifest_hashes :: "platform \<Rightarrow> string set" where
  "trusted_genesis_manifest_hashes P =
     (\<lambda>h. lower (strip h)) ` {h \<in> set (pf_trusted_manifest_hashes P). strip h \<noteq> []}"

definition validate_genesis_ref_trust :: "platform \<Rightarrow> genesis_ref \<Rightarrow> unit res" where
  "validate_genesis_ref_trust P g =
     (if pf_allow_untrusted_genesis P then Inr ()
      else if trusted_genesis_manifest_hashes P = {} then Inr ()
      else case gr_manifest_hash g of
        None \<Rightarrow> Inl (ProtocolV3Error ''GenesisRefV3 manifest hash is not trusted by this node'')
      | Some h \<Rightarrow> ensure (lower h \<in> trusted_genesis_manifest_hashes P)
          (ProtocolV3Error ''GenesisRefV3 manifest hash is not trusted by this node''))"

definition validate_genesis_ref :: "platform \<Rightarrow> genesis_ref \<Rightarrow> int \<Rightarrow> unit res" where
  "validate_genesis_ref P g network_id =
     (if gr_type g \<noteq> GENESIS_REF_TYPE then Inl (ProtocolV3Error ''malformed GenesisRefV3'')
      else if gr_version g \<noteq> VERSION then Inl (ProtocolV3Error ''unsupported GenesisRefV3 version'')
      else bindE (require_int (gr_network_id g) ''GenesisRefV3 network id'' 0) (\<lambda>n.
      if n \<noteq> network_id then Inl (ProtocolV3Error ''GenesisRefV3 network id mismatch'')
      else bindE (hex32 (gr_genesis_hash g) ''GenesisRefV3 genesis hash'') (\<lambda>_.
      bindE (opt_check (\<lambda>h. hex32 h ''GenesisRefV3 manifest hash'') (gr_manifest_hash g)) (\<lambda>_.
      bindE (opt_check (\<lambda>h. hex32 h ''GenesisRefV3 issuer key id'') (gr_issuer_key_id g)) (\<lambda>_.
      bindE (require_int (gr_issue_index g) ''GenesisRefV3 issue index'' 1) (\<lambda>_.
      bindE (require_int (gr_issued_at g) ''GenesisRefV3 issued_at'' 0) (\<lambda>_.
      validate_genesis_ref_trust P g)))))))"

text \<open>The bytes of a body, apart from the validation that precedes them.\<close>

definition genesis_ref_bytes :: "genesis_ref \<Rightarrow> bytes res" where
  "genesis_ref_bytes g = joinE [
     encode_hash_hex (gr_genesis_hash g),
     encode_hash_hex_nullable (gr_manifest_hash g),
     encode_hash_hex_nullable (gr_issuer_key_id g),
     encode_uvarint (gr_issue_index g),
     encode_uvarint (gr_issued_at g)]"

definition encode_genesis_ref_body :: "platform \<Rightarrow> genesis_ref \<Rightarrow> bytes res" where
  "encode_genesis_ref_body P g =
     bindE (validate_genesis_ref P g (gr_network_id g)) (\<lambda>_. genesis_ref_bytes g)"

definition decode_genesis_ref_body :: "int \<Rightarrow> genesis_ref parser" where
  "decode_genesis_ref_body network_id =
     rbind (read_hash_hex ''GenesisRefV3 genesis hash'') (\<lambda>gh.
     rbind (read_nullable_hash_hex ''GenesisRefV3 manifest hash'') (\<lambda>mh.
     rbind (read_nullable_hash_hex ''GenesisRefV3 issuer key id'') (\<lambda>ik.
     rbind (read_uvarint ''GenesisRefV3 issue index'') (\<lambda>ix.
     rbind (read_uvarint ''GenesisRefV3 issued_at'') (\<lambda>at.
     rreturn \<lparr>gr_type = GENESIS_REF_TYPE, gr_version = VERSION, gr_network_id = network_id,
       gr_genesis_hash = gh, gr_manifest_hash = mh, gr_issuer_key_id = ik,
       gr_issue_index = ix, gr_issued_at = at\<rparr>)))))"

definition encode_genesis_ref :: "platform \<Rightarrow> genesis_ref \<Rightarrow> bytes res" where
  "encode_genesis_ref P g =
     bindE (require_int (gr_network_id g) ''GenesisRefV3 network id'' 0) (\<lambda>n.
     bindE (encode_genesis_ref_body P g) (encode_envelope GENESIS_REF_MAGIC n))"

definition decode_genesis_ref :: "bytes \<Rightarrow> genesis_ref res" where
  "decode_genesis_ref data = decode_envelope data GENESIS_REF_MAGIC ''GenesisRefV3'' decode_genesis_ref_body"

section \<open>The token state\<close>

record bill_state =
  st_sequence :: int
  st_owner_address :: string
  st_last_transfer_hash :: string
  st_last_transfer_timestamp :: int
  st_last_transfer_day :: int
  st_transfers_in_last_day :: int
  st_display_id :: string
  st_value :: int

definition validate_base_state :: "platform \<Rightarrow> bill_state \<Rightarrow> bill_state res" where
  "validate_base_state P s =
     bindE (require_int (st_sequence s) ''V3 base sequence'' 0) (\<lambda>_.
     bindE (validate_v3_address P (st_owner_address s) ''V3 base owner address'') (\<lambda>_.
     bindE (hex32 (st_last_transfer_hash s) ''V3 base last transfer hash'') (\<lambda>_.
     bindE (require_int (st_last_transfer_timestamp s) ''V3 base timestamp'' 0) (\<lambda>_.
     bindE (require_int (st_last_transfer_day s) ''V3 base day'' 0) (\<lambda>_.
     bindE (require_int (st_transfers_in_last_day s) ''V3 base day count'' 0) (\<lambda>_.
     bindE (require_bill_value (st_value s) ''V3 base value'') (\<lambda>v.
     bindE (validate_display_id_value P (st_display_id s) v ''V3 base display id'') (\<lambda>_.
     Inr s))))))))"

definition base_state_bytes :: "bill_state \<Rightarrow> bytes res" where
  "base_state_bytes s = joinE [
     encode_uvarint (st_sequence s),
     encode_ascii 128 (st_owner_address s),
     encode_hash_hex (st_last_transfer_hash s),
     encode_uvarint (st_last_transfer_timestamp s),
     encode_uvarint (st_last_transfer_day s),
     encode_uvarint (st_transfers_in_last_day s),
     encode_ascii 64 (st_display_id s),
     encode_uvarint (st_value s)]"

definition encode_base_state_body :: "platform \<Rightarrow> bill_state \<Rightarrow> bytes res" where
  "encode_base_state_body P s = bindE (validate_base_state P s) (\<lambda>_. base_state_bytes s)"

definition decode_base_state_body :: "bill_state parser" where
  "decode_base_state_body =
     rbind (read_uvarint ''V3 base sequence'') (\<lambda>sq.
     rbind (read_ascii ''V3 base owner address'' 128) (\<lambda>ow.
     rbind (read_hash_hex ''V3 base last transfer hash'') (\<lambda>lh.
     rbind (read_uvarint ''V3 base timestamp'') (\<lambda>ts.
     rbind (read_uvarint ''V3 base day'') (\<lambda>dy.
     rbind (read_uvarint ''V3 base day count'') (\<lambda>dc.
     rbind (read_ascii ''V3 base display id'' 64) (\<lambda>di.
     rbind (read_uvarint ''V3 base value'') (\<lambda>v.
     rreturn \<lparr>st_sequence = sq, st_owner_address = ow, st_last_transfer_hash = lh,
       st_last_transfer_timestamp = ts, st_last_transfer_day = dy,
       st_transfers_in_last_day = dc, st_display_id = di, st_value = v\<rparr>))))))))"

section \<open>Checkpoint cores\<close>

record checkpoint_core =
  cp_type :: string
  cp_version :: int
  cp_network_id :: int
  cp_token_id :: string
  cp_genesis_hash :: string
  cp_sequence :: int
  cp_owner_address :: string
  cp_value :: int
  cp_display_id :: string
  cp_display_id_hash :: string
  cp_last_transfer_hash :: string
  cp_last_transfer_timestamp :: int
  cp_last_transfer_day :: int
  cp_transfers_in_last_day :: int
  cp_previous_checkpoint_hash :: "string option"
  cp_checkpoint_hash :: string

definition CHECKPOINT_CORE_TYPE :: string where "CHECKPOINT_CORE_TYPE = ''ind.checkpoint_core.v3''"
definition CHECKPOINT_CORE_MAGIC :: bytes where "CHECKPOINT_CORE_MAGIC = utf8 ''IND3CPNT''"

text \<open>\<open>"00" * 32\<close>, the self-hash field of an object while it is hashed.\<close>

definition zero_hash :: string where
  "zero_hash = replicate 64 (CHR ''0'')"

definition validate_checkpoint_core :: "platform \<Rightarrow> checkpoint_core \<Rightarrow> int \<Rightarrow> unit res" where
  "validate_checkpoint_core P c network_id =
     (if cp_type c \<noteq> CHECKPOINT_CORE_TYPE then Inl (ProtocolV3Error ''malformed CheckpointCoreV3'')
      else if cp_version c \<noteq> VERSION then Inl (ProtocolV3Error ''unsupported CheckpointCoreV3 version'')
      else bindE (require_int (cp_network_id c) ''CheckpointCoreV3 network id'' 0) (\<lambda>n.
      if n \<noteq> network_id then Inl (ProtocolV3Error ''CheckpointCoreV3 network id mismatch'')
      else if cp_token_id c = [] then Inl (ProtocolV3Error ''invalid CheckpointCoreV3 token id'')
      else bindE (hex32 (cp_genesis_hash c) ''CheckpointCoreV3 genesis hash'') (\<lambda>_.
      bindE (require_int (cp_sequence c) ''CheckpointCoreV3 sequence'' 1) (\<lambda>_.
      bindE (validate_v3_address P (cp_owner_address c) ''CheckpointCoreV3 owner address'') (\<lambda>_.
      bindE (require_bill_value (cp_value c) ''CheckpointCoreV3 value'') (\<lambda>v.
      bindE (validate_display_id_value P (cp_display_id c) v ''CheckpointCoreV3 display id'') (\<lambda>_.
      bindE (display_id_hash P (cp_display_id c) ''CheckpointCoreV3 display id'') (\<lambda>dh.
      if cp_display_id_hash c \<noteq> dh then Inl (ProtocolV3Error ''CheckpointCoreV3 display id hash mismatch'')
      else bindE (hex32 (cp_last_transfer_hash c) ''CheckpointCoreV3 last transfer hash'') (\<lambda>_.
      bindE (require_int (cp_last_transfer_timestamp c) ''CheckpointCoreV3 timestamp'' 0) (\<lambda>_.
      bindE (require_int (cp_last_transfer_day c) ''CheckpointCoreV3 day'' 0) (\<lambda>_.
      bindE (require_int (cp_transfers_in_last_day c) ''CheckpointCoreV3 day count'' 1) (\<lambda>_.
      bindE (opt_check (\<lambda>h. hex32 h ''CheckpointCoreV3 previous checkpoint hash'') (cp_previous_checkpoint_hash c)) (\<lambda>_.
      bindE (hex32 (cp_checkpoint_hash c) ''CheckpointCoreV3 checkpoint hash'') (\<lambda>_.
      Inr ()))))))))))))))"

definition checkpoint_core_bytes :: "checkpoint_core \<Rightarrow> bytes res" where
  "checkpoint_core_bytes c = joinE [
     encode_hash_hex (cp_token_id c),
     encode_hash_hex (cp_genesis_hash c),
     encode_uvarint (cp_sequence c),
     encode_ascii 128 (cp_owner_address c),
     encode_uvarint (cp_value c),
     encode_ascii 64 (cp_display_id c),
     encode_hash_hex (cp_display_id_hash c),
     encode_hash_hex (cp_last_transfer_hash c),
     encode_uvarint (cp_last_transfer_timestamp c),
     encode_uvarint (cp_last_transfer_day c),
     encode_uvarint (cp_transfers_in_last_day c),
     encode_hash_hex_nullable (cp_previous_checkpoint_hash c),
     encode_hash_hex (cp_checkpoint_hash c)]"

text \<open>With \<open>include_hash=False\<close> the copy that is validated and encoded has the zero hash.\<close>

definition encode_checkpoint_core_body :: "platform \<Rightarrow> checkpoint_core \<Rightarrow> bool \<Rightarrow> bytes res" where
  "encode_checkpoint_core_body P core include_hash =
     (let c = (if include_hash then core else core\<lparr>cp_checkpoint_hash := zero_hash\<rparr>) in
      bindE (validate_checkpoint_core P c (cp_network_id c)) (\<lambda>_. checkpoint_core_bytes c))"

definition decode_checkpoint_core_body :: "int \<Rightarrow> checkpoint_core parser" where
  "decode_checkpoint_core_body network_id =
     rbind (read_hash_hex ''CheckpointCoreV3 token id'') (\<lambda>ti.
     rbind (read_hash_hex ''CheckpointCoreV3 genesis hash'') (\<lambda>gh.
     rbind (read_uvarint ''CheckpointCoreV3 sequence'') (\<lambda>sq.
     rbind (read_ascii ''CheckpointCoreV3 owner address'' 128) (\<lambda>ow.
     rbind (read_uvarint ''CheckpointCoreV3 value'') (\<lambda>v.
     rbind (read_ascii ''CheckpointCoreV3 display id'' 64) (\<lambda>di.
     rbind (read_hash_hex ''CheckpointCoreV3 display id hash'') (\<lambda>dh.
     rbind (read_hash_hex ''CheckpointCoreV3 last transfer hash'') (\<lambda>lh.
     rbind (read_uvarint ''CheckpointCoreV3 timestamp'') (\<lambda>ts.
     rbind (read_uvarint ''CheckpointCoreV3 day'') (\<lambda>dy.
     rbind (read_uvarint ''CheckpointCoreV3 day count'') (\<lambda>dc.
     rbind (read_nullable_hash_hex ''CheckpointCoreV3 previous checkpoint hash'') (\<lambda>pc.
     rbind (read_hash_hex ''CheckpointCoreV3 checkpoint hash'') (\<lambda>ch.
     rreturn \<lparr>cp_type = CHECKPOINT_CORE_TYPE, cp_version = VERSION, cp_network_id = network_id,
       cp_token_id = ti, cp_genesis_hash = gh, cp_sequence = sq, cp_owner_address = ow,
       cp_value = v, cp_display_id = di, cp_display_id_hash = dh, cp_last_transfer_hash = lh,
       cp_last_transfer_timestamp = ts, cp_last_transfer_day = dy, cp_transfers_in_last_day = dc,
       cp_previous_checkpoint_hash = pc, cp_checkpoint_hash = ch\<rparr>)))))))))))))"

definition encode_checkpoint_core :: "platform \<Rightarrow> checkpoint_core \<Rightarrow> bool \<Rightarrow> bytes res" where
  "encode_checkpoint_core P core include_hash =
     bindE (require_int (cp_network_id core) ''CheckpointCoreV3 network id'' 0) (\<lambda>n.
     bindE (encode_checkpoint_core_body P core include_hash) (encode_envelope CHECKPOINT_CORE_MAGIC n))"

definition decode_checkpoint_core :: "bytes \<Rightarrow> checkpoint_core res" where
  "decode_checkpoint_core data =
     decode_envelope data CHECKPOINT_CORE_MAGIC ''CheckpointCoreV3'' decode_checkpoint_core_body"

definition checkpoint_core_hash :: "platform \<Rightarrow> checkpoint_core \<Rightarrow> string res" where
  "checkpoint_core_hash P core =
     bindE (encode_checkpoint_core P core False) (\<lambda>b.
     bindE (object_hash P CHECKPOINT_CORE_TYPE b) (\<lambda>h. Inr (hex_text h)))"

definition finalize_checkpoint_core :: "platform \<Rightarrow> checkpoint_core \<Rightarrow> checkpoint_core res" where
  "finalize_checkpoint_core P core =
     bindE (checkpoint_core_hash P core) (\<lambda>h. Inr (core\<lparr>cp_checkpoint_hash := h\<rparr>))"

definition checkpoint_core_from_state ::
    "platform \<Rightarrow> string \<Rightarrow> string \<Rightarrow> bill_state \<Rightarrow> string option \<Rightarrow> int \<Rightarrow> checkpoint_core res" where
  "checkpoint_core_from_state P token_id genesis_hash state previous_checkpoint_hash network_id =
     bindE (validate_base_state P state) (\<lambda>s.
     bindE (hex32 genesis_hash ''CheckpointCoreV3 genesis hash'') (\<lambda>gh.
     bindE (display_id_hash P (st_display_id s) ''CheckpointCoreV3 display id'') (\<lambda>dh.
     finalize_checkpoint_core P
       \<lparr>cp_type = CHECKPOINT_CORE_TYPE, cp_version = VERSION, cp_network_id = network_id,
        cp_token_id = token_id, cp_genesis_hash = gh, cp_sequence = st_sequence s,
        cp_owner_address = st_owner_address s, cp_value = st_value s,
        cp_display_id = st_display_id s, cp_display_id_hash = dh,
        cp_last_transfer_hash = st_last_transfer_hash s,
        cp_last_transfer_timestamp = st_last_transfer_timestamp s,
        cp_last_transfer_day = st_last_transfer_day s,
        cp_transfers_in_last_day = st_transfers_in_last_day s,
        cp_previous_checkpoint_hash = previous_checkpoint_hash, cp_checkpoint_hash = []\<rparr>)))"

definition initial_state_from_checkpoint_core :: "checkpoint_core \<Rightarrow> bill_state" where
  "initial_state_from_checkpoint_core c =
     \<lparr>st_sequence = cp_sequence c, st_owner_address = cp_owner_address c,
      st_last_transfer_hash = cp_last_transfer_hash c,
      st_last_transfer_timestamp = cp_last_transfer_timestamp c,
      st_last_transfer_day = cp_last_transfer_day c,
      st_transfers_in_last_day = cp_transfers_in_last_day c,
      st_display_id = cp_display_id c, st_value = cp_value c\<rparr>"

definition validate_checkpoint_genesis_display_id :: "platform \<Rightarrow> genesis_ref \<Rightarrow> checkpoint_core \<Rightarrow> string \<Rightarrow> (int \<times> int) res" where
  "validate_checkpoint_genesis_display_id P g c label =
     bindE (require_bill_value (cp_value c) (label @ '' value'')) (\<lambda>v.
     validate_display_id_issue_index P (cp_display_id c) v (gr_issue_index g) label)"

section \<open>Codecs\<close>

text \<open>What the decoders produce: the type tag, the version, canonical hash texts.\<close>

definition genesis_ref_shape :: "genesis_ref \<Rightarrow> bool" where
  "genesis_ref_shape g = (gr_type g = GENESIS_REF_TYPE \<and> gr_version g = VERSION
     \<and> hash_text (gr_genesis_hash g) \<and> opt_hash_text (gr_manifest_hash g) \<and> opt_hash_text (gr_issuer_key_id g))"

definition checkpoint_core_shape :: "checkpoint_core \<Rightarrow> bool" where
  "checkpoint_core_shape c = (cp_type c = CHECKPOINT_CORE_TYPE \<and> cp_version c = VERSION
     \<and> hash_text (cp_token_id c) \<and> hash_text (cp_genesis_hash c) \<and> hash_text (cp_display_id_hash c)
     \<and> hash_text (cp_last_transfer_hash c) \<and> opt_hash_text (cp_previous_checkpoint_hash c)
     \<and> hash_text (cp_checkpoint_hash c))"

lemma magic_lengths [simp]: "length GENESIS_REF_MAGIC = 8" "length CHECKPOINT_CORE_MAGIC = 8"
  by (simp_all add: GENESIS_REF_MAGIC_def CHECKPOINT_CORE_MAGIC_def)

text \<open>The relation a field decoder's \<open>accepts\<close> rule must give: the value is in range and encodes.\<close>

lemma accepts_hash_enc:
  "accepts (read_hash_hex l) (\<lambda>bs t. hash_text t \<and> encode_hash_hex t = Inr bs)"
  by (rule accepts_weaken [OF accepts_hash_hex]) auto

lemma accepts_ascii_enc: "accepts (read_ascii l m) (\<lambda>bs t. encode_ascii m t = Inr bs)"
  by (rule accepts_weaken [OF accepts_ascii]) auto

lemmas codec_accepts = accepts_bindI [OF accepts_hash_enc] accepts_bindI [OF accepts_ascii_enc]
  accepts_bindI [OF accepts_uvarint] accepts_bindI [OF accepts_nullable_hash_hex]

lemma genesis_ref_reads:
  assumes "genesis_ref_shape g" and "genesis_ref_bytes g = Inr bs"
  shows "reads (decode_genesis_ref_body (gr_network_id g)) bs g"
proof -
  from assms(2) obtain a b c d e where bs: "bs = a @ b @ c @ d @ e @ []"
    and enc: "encode_hash_hex (gr_genesis_hash g) = Inr a" "encode_hash_hex_nullable (gr_manifest_hash g) = Inr b"
      "encode_hash_hex_nullable (gr_issuer_key_id g) = Inr c" "encode_uvarint (gr_issue_index g) = Inr d"
      "encode_uvarint (gr_issued_at g) = Inr e"
    unfolding genesis_ref_bytes_def joinE_Cons_iff joinE_Nil_iff by blast
  show ?thesis
    unfolding decode_genesis_ref_body_def bs
    by (intro codec_reads; (rule enc)?) (use assms(1) in \<open>simp_all add: genesis_ref_shape_def\<close>)
qed

lemma genesis_ref_accepts: "accepts (decode_genesis_ref_body n)
    (\<lambda>bs g. genesis_ref_shape g \<and> gr_network_id g = n \<and> genesis_ref_bytes g = Inr bs)"
  unfolding decode_genesis_ref_body_def
  by (intro codec_accepts accepts_returnI allI impI)
    (simp add: genesis_ref_shape_def genesis_ref_bytes_def)

interpretation genesis_ref_codec: canonical_envelope_codec
  GENESIS_REF_MAGIC "''GenesisRefV3''" gr_network_id genesis_ref_shape genesis_ref_bytes decode_genesis_ref_body
  by unfold_locales (simp_all add: genesis_ref_reads genesis_ref_accepts)

lemma checkpoint_core_reads:
  assumes "checkpoint_core_shape c" and "checkpoint_core_bytes c = Inr bs"
  shows "reads (decode_checkpoint_core_body (cp_network_id c)) bs c"
proof -
  from assms(2) obtain b1 b2 b3 b4 b5 b6 b7 b8 b9 b10 b11 b12 b13 where
    bs: "bs = b1 @ b2 @ b3 @ b4 @ b5 @ b6 @ b7 @ b8 @ b9 @ b10 @ b11 @ b12 @ b13 @ []"
    and enc: "encode_hash_hex (cp_token_id c) = Inr b1" "encode_hash_hex (cp_genesis_hash c) = Inr b2"
      "encode_uvarint (cp_sequence c) = Inr b3" "encode_ascii 128 (cp_owner_address c) = Inr b4"
      "encode_uvarint (cp_value c) = Inr b5" "encode_ascii 64 (cp_display_id c) = Inr b6"
      "encode_hash_hex (cp_display_id_hash c) = Inr b7" "encode_hash_hex (cp_last_transfer_hash c) = Inr b8"
      "encode_uvarint (cp_last_transfer_timestamp c) = Inr b9" "encode_uvarint (cp_last_transfer_day c) = Inr b10"
      "encode_uvarint (cp_transfers_in_last_day c) = Inr b11"
      "encode_hash_hex_nullable (cp_previous_checkpoint_hash c) = Inr b12"
      "encode_hash_hex (cp_checkpoint_hash c) = Inr b13"
    unfolding checkpoint_core_bytes_def joinE_Cons_iff joinE_Nil_iff by blast
  show ?thesis
    unfolding decode_checkpoint_core_body_def bs
    by (intro codec_reads; (rule enc)?) (use assms(1) in \<open>simp_all add: checkpoint_core_shape_def\<close>)
qed

lemma checkpoint_core_accepts: "accepts (decode_checkpoint_core_body n)
    (\<lambda>bs c. checkpoint_core_shape c \<and> cp_network_id c = n \<and> checkpoint_core_bytes c = Inr bs)"
  unfolding decode_checkpoint_core_body_def
  by (intro codec_accepts accepts_returnI allI impI)
    (simp add: checkpoint_core_shape_def checkpoint_core_bytes_def)

interpretation checkpoint_codec: canonical_envelope_codec
  CHECKPOINT_CORE_MAGIC "''CheckpointCoreV3''" cp_network_id checkpoint_core_shape checkpoint_core_bytes
  decode_checkpoint_core_body
  by unfold_locales (simp_all add: checkpoint_core_reads checkpoint_core_accepts)

lemma base_state_reads:
  assumes "hash_text (st_last_transfer_hash s)" and "base_state_bytes s = Inr bs"
  shows "reads decode_base_state_body bs s"
proof -
  from assms(2) obtain b1 b2 b3 b4 b5 b6 b7 b8 where
    bs: "bs = b1 @ b2 @ b3 @ b4 @ b5 @ b6 @ b7 @ b8 @ []"
    and enc: "encode_uvarint (st_sequence s) = Inr b1" "encode_ascii 128 (st_owner_address s) = Inr b2"
      "encode_hash_hex (st_last_transfer_hash s) = Inr b3" "encode_uvarint (st_last_transfer_timestamp s) = Inr b4"
      "encode_uvarint (st_last_transfer_day s) = Inr b5" "encode_uvarint (st_transfers_in_last_day s) = Inr b6"
      "encode_ascii 64 (st_display_id s) = Inr b7" "encode_uvarint (st_value s) = Inr b8"
    unfolding base_state_bytes_def joinE_Cons_iff joinE_Nil_iff by blast
  show ?thesis
    unfolding decode_base_state_body_def bs
    by (intro codec_reads; (rule enc)?) (use assms(1) in simp_all)
qed

lemma base_state_accepts: "accepts decode_base_state_body
    (\<lambda>bs s. hash_text (st_last_transfer_hash s) \<and> base_state_bytes s = Inr bs)"
  unfolding decode_base_state_body_def
  by (intro codec_accepts accepts_returnI allI impI) (simp add: base_state_bytes_def)

interpretation base_state_codec: canonical_codec
  "\<lambda>s. hash_text (st_last_transfer_hash s)" base_state_bytes decode_base_state_body
  by unfold_locales (simp_all add: base_state_reads base_state_accepts)

section \<open>What the validators accept\<close>

lemma opt_check_Inr_iff [res_simps]: "opt_check f v = Inr u \<longleftrightarrow> (\<forall>x. v = Some x \<longrightarrow> (\<exists>y. f x = Inr y))"
  by (cases v) (auto simp: opt_check_def res_simps)

definition state_ok :: "platform \<Rightarrow> bill_state \<Rightarrow> bool" where
  "state_ok P s = (0 \<le> st_sequence s \<and> valid_address P (st_owner_address s) \<and> hex64 (st_last_transfer_hash s)
     \<and> 0 \<le> st_last_transfer_timestamp s \<and> 0 \<le> st_last_transfer_day s \<and> 0 \<le> st_transfers_in_last_day s
     \<and> (\<exists>n. valid_bill (st_value s) n \<and> st_display_id s = display_text (st_value s) n))"

lemma validate_base_state_Inr_iff [res_simps]:
  "validate_base_state P s = Inr t \<longleftrightarrow> t = s \<and> state_ok P s"
  by (auto simp: validate_base_state_def state_ok_def res_simps valid_bill_def)

lemma display_ok_plain: "valid_bill v n \<Longrightarrow> is_ascii (display_text v n) \<and> strip (display_text v n) = display_text v n"
  by (auto intro!: display_text_plain dest: allowed_pos simp: valid_bill_def)

definition checkpoint_ok :: "platform \<Rightarrow> checkpoint_core \<Rightarrow> bool" where
  "checkpoint_ok P c = (cp_type c = CHECKPOINT_CORE_TYPE \<and> cp_version c = VERSION \<and> 0 \<le> cp_network_id c
     \<and> cp_token_id c \<noteq> [] \<and> hex64 (cp_genesis_hash c) \<and> 1 \<le> cp_sequence c
     \<and> 1 \<le> cp_transfers_in_last_day c \<and> state_ok P (initial_state_from_checkpoint_core c)
     \<and> cp_display_id_hash c = sha3_hex P (utf8 (cp_display_id c))
     \<and> (\<forall>h. cp_previous_checkpoint_hash c = Some h \<longrightarrow> hex64 h) \<and> hex64 (cp_checkpoint_hash c))"

lemma validate_checkpoint_core_Inr_iff [res_simps]:
  "validate_checkpoint_core P c n = Inr u \<longleftrightarrow> checkpoint_ok P c \<and> n = cp_network_id c"
proof -
  have *: "(\<exists>n. valid_bill v n \<and> d = display_text v n) \<Longrightarrow> d = strip d \<and> is_ascii d" for v d
    using display_ok_plain by force
  show ?thesis
    using * [of "cp_value c" "cp_display_id c"]
    by (auto simp: validate_checkpoint_core_def checkpoint_ok_def state_ok_def
        initial_state_from_checkpoint_core_def res_simps valid_bill_def)
qed

definition genesis_ref_ok :: "platform \<Rightarrow> genesis_ref \<Rightarrow> bool" where
  "genesis_ref_ok P g = (gr_type g = GENESIS_REF_TYPE \<and> gr_version g = VERSION \<and> 0 \<le> gr_network_id g
     \<and> hex64 (gr_genesis_hash g) \<and> (\<forall>h. gr_manifest_hash g = Some h \<longrightarrow> hex64 h)
     \<and> (\<forall>h. gr_issuer_key_id g = Some h \<longrightarrow> hex64 h) \<and> 1 \<le> gr_issue_index g \<and> 0 \<le> gr_issued_at g
     \<and> validate_genesis_ref_trust P g = Inr ())"

lemma validate_genesis_ref_Inr_iff [res_simps]:
  "validate_genesis_ref P g n = Inr u \<longleftrightarrow> genesis_ref_ok P g \<and> n = gr_network_id g"
  by (auto simp: validate_genesis_ref_def genesis_ref_ok_def res_simps)

text \<open>The trust rule: with pins configured, only a pinned manifest is accepted.\<close>

lemma genesis_trust_iff: "validate_genesis_ref_trust P g = Inr () \<longleftrightarrow>
    pf_allow_untrusted_genesis P \<or> trusted_genesis_manifest_hashes P = {}
    \<or> (\<exists>h. gr_manifest_hash g = Some h \<and> lower h \<in> trusted_genesis_manifest_hashes P)"
  by (auto simp: validate_genesis_ref_trust_def res_simps split: option.splits)

section \<open>Encoding and hashing checkpoints\<close>

lemma encode_genesis_ref_Inr_iff [res_simps]: "encode_genesis_ref P g = Inr bs \<longleftrightarrow>
    genesis_ref_ok P g \<and> bindE (genesis_ref_bytes g) (encode_envelope GENESIS_REF_MAGIC (gr_network_id g)) = Inr bs"
  by (auto simp: encode_genesis_ref_def encode_genesis_ref_body_def bindE_Inr_iff
      validate_genesis_ref_Inr_iff require_int_Inr_iff genesis_ref_ok_def)

lemma encode_checkpoint_core_Inr_iff [res_simps]: "encode_checkpoint_core P c True = Inr bs \<longleftrightarrow>
    checkpoint_ok P c
    \<and> bindE (checkpoint_core_bytes c) (encode_envelope CHECKPOINT_CORE_MAGIC (cp_network_id c)) = Inr bs"
  by (auto simp: encode_checkpoint_core_def encode_checkpoint_core_body_def bindE_Inr_iff
      validate_checkpoint_core_Inr_iff require_int_Inr_iff checkpoint_ok_def)

lemma encode_unhashed: "encode_checkpoint_core P c False = encode_checkpoint_core P (c\<lparr>cp_checkpoint_hash := zero_hash\<rparr>) True"
  by (simp add: encode_checkpoint_core_def encode_checkpoint_core_body_def Let_def)

lemma checkpoint_core_hash_update [simp]:
  "checkpoint_core_hash P (c\<lparr>cp_checkpoint_hash := h\<rparr>) = checkpoint_core_hash P c"
  by (simp add: checkpoint_core_hash_def encode_unhashed)

lemma zero_hash_text [simp]: "hash_text zero_hash"
  by (simp add: zero_hash_def hash_text_def lower_hex_def list_all_iff)

lemma checkpoint_ok_hash_update:
  "checkpoint_ok P (c\<lparr>cp_checkpoint_hash := h\<rparr>) \<Longrightarrow> hex64 h' \<Longrightarrow> checkpoint_ok P (c\<lparr>cp_checkpoint_hash := h'\<rparr>)"
  by (auto simp: checkpoint_ok_def initial_state_from_checkpoint_core_def)

text \<open>The bytes whose digest is the checkpoint hash.\<close>

definition checkpoint_preimage :: "platform \<Rightarrow> checkpoint_core \<Rightarrow> bytes res" where
  "checkpoint_preimage P c = bindE (encode_checkpoint_core P c False) (object_preimage CHECKPOINT_CORE_TYPE)"

lemma checkpoint_core_hash_Inr_iff: "checkpoint_core_hash P c = Inr h \<longleftrightarrow>
    (\<exists>m. checkpoint_preimage P c = Inr m \<and> h = sha3_hex P m)"
  by (auto simp: checkpoint_core_hash_def checkpoint_preimage_def bindE_Inr_iff object_hash_Inr_iff sha3_hex_def)

lemma sha3_hex_inject: "sha3_hex P a = sha3_hex P b \<longleftrightarrow> pf_sha3_256 P a = pf_sha3_256 P b"
  by (simp add: sha3_hex_def)

lemma no_collision:
  assumes "inj_on (pf_sha3_256 P) {m. f = Inr m \<or> g = Inr m}" and "f = Inr a" "g = Inr b" and "sha3_hex P a = sha3_hex P b"
  shows "a = b"
  using inj_onD [OF assms(1), of a b] assms(2-4) by (simp add: sha3_hex_inject)

lemma sha3_hex_text [simp]: "hash_ok P \<Longrightarrow> hash_text (sha3_hex P m)"
  by (simp add: sha3_hex_def)

lemma checkpoint_hash_text: "hash_ok P \<Longrightarrow> checkpoint_core_hash P c = Inr h \<Longrightarrow> hash_text h"
  by (auto simp: checkpoint_core_hash_Inr_iff)

lemma checkpoint_preimage_inject:
  assumes "checkpoint_preimage P a = Inr m" "checkpoint_preimage P b = Inr m"
    and "checkpoint_core_shape (a\<lparr>cp_checkpoint_hash := zero_hash\<rparr>)"
    and "checkpoint_core_shape (b\<lparr>cp_checkpoint_hash := zero_hash\<rparr>)"
  shows "a\<lparr>cp_checkpoint_hash := zero_hash\<rparr> = b\<lparr>cp_checkpoint_hash := zero_hash\<rparr>"
proof -
  from assms(1,2) obtain x y where x: "encode_checkpoint_core P a False = Inr x"
    and y: "encode_checkpoint_core P b False = Inr y"
    and "object_preimage CHECKPOINT_CORE_TYPE x = Inr m" "object_preimage CHECKPOINT_CORE_TYPE y = Inr m"
    by (auto simp: checkpoint_preimage_def bindE_Inr_iff)
  then have "x = y" using object_preimage_inject by blast
  with x y show ?thesis
    using checkpoint_codec.encode_inject [OF assms(3,4)]
    by (auto simp: encode_unhashed encode_checkpoint_core_Inr_iff)
qed

lemma checkpoint_eqI:
  "a\<lparr>cp_checkpoint_hash := h\<rparr> = b\<lparr>cp_checkpoint_hash := h\<rparr> \<Longrightarrow> cp_checkpoint_hash a = cp_checkpoint_hash b
    \<Longrightarrow> a = (b :: checkpoint_core)"
  by (cases a; cases b) simp

section \<open>Checkpoints of states\<close>

text \<open>The core \<open>checkpoint_core_from_state\<close> builds, before its hash is filled in.\<close>

definition core_of_state :: "platform \<Rightarrow> string \<Rightarrow> string \<Rightarrow> bill_state \<Rightarrow> string option \<Rightarrow> int \<Rightarrow> checkpoint_core" where
  "core_of_state P t g s prev n =
     \<lparr>cp_type = CHECKPOINT_CORE_TYPE, cp_version = VERSION, cp_network_id = n,
      cp_token_id = t, cp_genesis_hash = lower g, cp_sequence = st_sequence s,
      cp_owner_address = st_owner_address s, cp_value = st_value s,
      cp_display_id = st_display_id s, cp_display_id_hash = sha3_hex P (utf8 (st_display_id s)),
      cp_last_transfer_hash = st_last_transfer_hash s,
      cp_last_transfer_timestamp = st_last_transfer_timestamp s,
      cp_last_transfer_day = st_last_transfer_day s,
      cp_transfers_in_last_day = st_transfers_in_last_day s,
      cp_previous_checkpoint_hash = prev, cp_checkpoint_hash = []\<rparr>"

lemma checkpoint_core_from_state_Inr_iff: "checkpoint_core_from_state P t g s prev n = Inr c \<longleftrightarrow>
    state_ok P s \<and> hex64 g \<and> (\<exists>h. checkpoint_core_hash P (core_of_state P t g s prev n) = Inr h
      \<and> c = (core_of_state P t g s prev n)\<lparr>cp_checkpoint_hash := h\<rparr>)"
proof -
  have "state_ok P s \<Longrightarrow> st_display_id s = strip (st_display_id s) \<and> is_ascii (st_display_id s)"
    using display_ok_plain by (force simp: state_ok_def)
  then show ?thesis
    unfolding checkpoint_core_from_state_def finalize_checkpoint_core_def
    by (auto simp: bindE_Inr_iff validate_base_state_Inr_iff hex32_Inr_iff display_id_hash_Inr_iff core_of_state_def)
qed

lemma initial_state_of_checkpoint: "checkpoint_core_from_state P t g s prev n = Inr c \<Longrightarrow>
    initial_state_from_checkpoint_core c = s"
  by (auto simp: checkpoint_core_from_state_Inr_iff initial_state_from_checkpoint_core_def core_of_state_def)

lemma checkpoint_from_state_fields:
  assumes "checkpoint_core_from_state P t g s prev n = Inr c"
  shows "cp_network_id c = n" "cp_token_id c = t" "cp_genesis_hash c = lower g" "cp_previous_checkpoint_hash c = prev"
    "cp_type c = CHECKPOINT_CORE_TYPE" "cp_version c = VERSION"
    "cp_display_id_hash c = sha3_hex P (utf8 (st_display_id s))" "cp_last_transfer_hash c = st_last_transfer_hash s"
    "cp_sequence c = st_sequence s" "cp_value c = st_value s" "cp_display_id c = st_display_id s"
    "cp_owner_address c = st_owner_address s" "cp_last_transfer_timestamp c = st_last_transfer_timestamp s"
  using assms by (auto simp: checkpoint_core_from_state_Inr_iff core_of_state_def)

lemma checkpoint_hash_ok:
  assumes "checkpoint_core_hash P c = Inr h"
  shows "checkpoint_ok P (c\<lparr>cp_checkpoint_hash := zero_hash\<rparr>)"
  using assms by (auto simp: checkpoint_core_hash_def bindE_Inr_iff encode_unhashed encode_checkpoint_core_Inr_iff)

lemma checkpoint_from_state_valid:
  assumes "hash_ok P" and "checkpoint_core_from_state P t g s prev n = Inr c"
  shows "checkpoint_ok P c" and "checkpoint_core_hash P c = Inr (cp_checkpoint_hash c)"
proof -
  from assms(2) show h: "checkpoint_core_hash P c = Inr (cp_checkpoint_hash c)"
    by (auto simp: checkpoint_core_from_state_Inr_iff)
  from checkpoint_hash_ok [OF h] checkpoint_hash_text [OF assms(1) h]
  have "checkpoint_ok P (c\<lparr>cp_checkpoint_hash := cp_checkpoint_hash c\<rparr>)"
    by (rule checkpoint_ok_hash_update [OF _ hash_text_hex64])
  then show "checkpoint_ok P c" by simp
qed

end
