(* ===== verification/TransferV3.thy ===== *)
theory TransferV3
  imports Checkpoint
begin

text \<open>
  Transfers (\<open>src/ind/protocol_v3.py\<close>): shape validation, the binary body with and without the
  signature, the hash that links a chain, the spend key of the state a transfer spends, and the
  domain-separated Ed25519 signature. Every function that validates a transfer reads the clock;
  \<open>now\<close> is the optional argument of that name.
\<close>

record transfer =
  tr_type :: string
  tr_version :: int
  tr_network_id :: int
  tr_signature_algorithm :: int
  tr_token_id :: string
  tr_sequence :: int
  tr_previous_hash :: string
  tr_sender_address :: string
  tr_sender_public_key :: string
  tr_recipient_address :: string
  tr_timestamp :: int
  tr_metadata :: json
  tr_signature :: string

definition TRANSFER_TYPE :: string where "TRANSFER_TYPE = ''ind.transfer.v3''"
definition TRANSFER_MAGIC :: bytes where "TRANSFER_MAGIC = utf8 ''IND3XFER''"
definition MAX_TRANSFER_FUTURE_SKEW_SECONDS :: int where "MAX_TRANSFER_FUTURE_SKEW_SECONDS = 300"
definition MAX_TRANSFER_METADATA_BYTES :: nat where "MAX_TRANSFER_METADATA_BYTES = 256"
definition MAX_TRANSFERS_PER_BILL_PER_DAY :: int where "MAX_TRANSFERS_PER_BILL_PER_DAY = 10"
definition DEFAULT_NETWORK_ID :: int where "DEFAULT_NETWORK_ID = 1"

definition current_time :: "platform \<Rightarrow> int option \<Rightarrow> int res" where
  "current_time P now = require_int_range (case now of None \<Rightarrow> pf_clock P | Some t \<Rightarrow> t)
     ''current time'' (Some 0) (Some MAX_JSON_INTEGER_ABS)"

definition require_metadata :: "json \<Rightarrow> nat \<Rightarrow> string \<Rightarrow> unit res" where
  "require_metadata m limit label =
     (case m of JDict kvs \<Rightarrow>
        bindE (validate_json_value m (label @ '' metadata'') 0) (\<lambda>_.
        bindE (canonical_bytes m) (\<lambda>b.
        ensure (length b \<le> limit) (ValidationError (label @ '' metadata is too large''))))
      | _ \<Rightarrow> Inl (ValidationError (label @ '' metadata must be an object'')))"

definition validate_transfer_shape :: "platform \<Rightarrow> transfer \<Rightarrow> int \<Rightarrow> bool \<Rightarrow> int option \<Rightarrow> unit res" where
  "validate_transfer_shape P t network_id require_signature now =
     (if tr_type t \<noteq> TRANSFER_TYPE then Inl (ProtocolV3Error ''malformed TransferV3'')
      else if tr_version t \<noteq> VERSION then Inl (ProtocolV3Error ''unsupported TransferV3 version'')
      else bindE (require_int (tr_network_id t) ''TransferV3 network id'' 0) (\<lambda>n.
      if n \<noteq> network_id then Inl (ProtocolV3Error ''TransferV3 network id mismatch'')
      else if tr_signature_algorithm t \<noteq> SIGNATURE_ALGORITHM_ID
      then Inl (ProtocolV3Error ''unsupported TransferV3 signature algorithm'')
      else bindE (hex32 (tr_token_id t) ''TransferV3 token id'') (\<lambda>_.
      bindE (require_int (tr_sequence t) ''TransferV3 sequence'' 1) (\<lambda>_.
      bindE (hex32 (tr_previous_hash t) ''TransferV3 previous hash'') (\<lambda>_.
      bindE (validate_address P (tr_sender_address t) ''TransferV3 sender address'') (\<lambda>_.
      bindE (validate_address P (tr_recipient_address t) ''TransferV3 recipient address'') (\<lambda>_.
      bindE (decode_public_key (tr_sender_public_key t)) (\<lambda>_.
      bindE (require_int (tr_timestamp t) ''TransferV3 timestamp'' 0) (\<lambda>ts.
      bindE (current_time P now) (\<lambda>ct.
      if ts > ct + MAX_TRANSFER_FUTURE_SKEW_SECONDS
      then Inl (ProtocolV3Error ''TransferV3 timestamp is too far in the future'')
      else bindE (require_metadata (tr_metadata t) MAX_TRANSFER_METADATA_BYTES ''TransferV3'') (\<lambda>_.
      if \<not> require_signature then Inr ()
      else case fromhex (tr_signature t) of
        None \<Rightarrow> Inl (ProtocolV3Error ''invalid TransferV3 signature'')
      | Some s \<Rightarrow> ensure (length s = 64) (ProtocolV3Error ''invalid TransferV3 signature''))))))))))))"

definition encode_signature_hex :: "string \<Rightarrow> string \<Rightarrow> bytes res" where
  "encode_signature_hex v label = (case fromhex v of
     None \<Rightarrow> Inl (ProtocolV3Error (''invalid '' @ label))
   | Some raw \<Rightarrow> if length raw \<noteq> 64 then Inl (ProtocolV3Error (''invalid '' @ label)) else Inr raw)"

definition read_signature_hex :: "string \<Rightarrow> string parser" where
  "read_signature_hex label = rbind (read_fixed_bytes 64 label) (\<lambda>raw. rreturn (hex_text raw))"

definition encode_public_key_field :: "string \<Rightarrow> string \<Rightarrow> bytes res" where
  "encode_public_key_field pk label =
     or_raise (decode_public_key pk) (\<lambda>_. ProtocolV3Error (''invalid '' @ label))"

definition read_public_key :: "string \<Rightarrow> string parser" where
  "read_public_key label = rbind (read_fixed_bytes 32 label) (\<lambda>raw. rlift (encode_public_key raw))"

definition json_field_bytes :: "json \<Rightarrow> string \<Rightarrow> bytes res" where
  "json_field_bytes v label = or_raise (canonical_bytes v) (\<lambda>_. ProtocolV3Error (''invalid '' @ label))"

definition decode_json_field :: "platform \<Rightarrow> bytes \<Rightarrow> string \<Rightarrow> json res" where
  "decode_json_field P raw label =
     or_raise (bindE (decode_utf8 raw ''invalid UTF-8'') (unpacked_json P))
       (\<lambda>_. ProtocolV3Error (''invalid '' @ label))"

text \<open>The body of an encoded transfer after its validation.\<close>

definition transfer_bytes :: "transfer \<Rightarrow> bool \<Rightarrow> bytes res" where
  "transfer_bytes t include_signature = joinE (
     [encode_hash_hex (tr_token_id t),
      encode_uvarint (tr_sequence t),
      encode_hash_hex (tr_previous_hash t),
      encode_ascii 128 (tr_sender_address t),
      encode_public_key_field (tr_sender_public_key t) ''TransferV3 sender public key'',
      encode_ascii 128 (tr_recipient_address t),
      encode_uvarint (tr_timestamp t),
      bindE (json_field_bytes (tr_metadata t) ''TransferV3 metadata'')
        (encode_bytes (int MAX_TRANSFER_METADATA_BYTES)),
      encode_uvarint (tr_signature_algorithm t)]
     @ (if include_signature then [encode_signature_hex (tr_signature t) ''TransferV3 signature''] else []))"

definition encode_transfer_body :: "platform \<Rightarrow> transfer \<Rightarrow> bool \<Rightarrow> bytes res" where
  "encode_transfer_body P t include_signature =
     bindE (require_int (tr_network_id t) ''TransferV3 network id'' 0) (\<lambda>n.
     bindE (validate_transfer_shape P t n include_signature None) (\<lambda>_.
     transfer_bytes t include_signature))"

definition decode_transfer_body :: "platform \<Rightarrow> bool \<Rightarrow> int \<Rightarrow> transfer parser" where
  "decode_transfer_body P require_signature network_id =
     rbind (read_hash_hex ''TransferV3 token id'') (\<lambda>ti.
     rbind (read_uvarint ''TransferV3 sequence'') (\<lambda>sq.
     rbind (read_hash_hex ''TransferV3 previous hash'') (\<lambda>ph.
     rbind (read_ascii ''TransferV3 sender address'' 128) (\<lambda>sa.
     rbind (read_public_key ''TransferV3 sender public key'') (\<lambda>pk.
     rbind (read_ascii ''TransferV3 recipient address'' 128) (\<lambda>ra.
     rbind (read_uvarint ''TransferV3 timestamp'') (\<lambda>ts.
     rbind (read_bytes ''TransferV3 metadata'' (int MAX_TRANSFER_METADATA_BYTES)) (\<lambda>raw.
     rbind (rlift (decode_json_field P raw ''TransferV3 metadata'')) (\<lambda>m.
     rbind (read_uvarint ''TransferV3 signature algorithm'') (\<lambda>alg.
     rbind (if require_signature then read_signature_hex ''TransferV3 signature'' else rreturn []) (\<lambda>sg.
     rreturn \<lparr>tr_type = TRANSFER_TYPE, tr_version = VERSION, tr_network_id = network_id,
       tr_signature_algorithm = alg, tr_token_id = ti, tr_sequence = sq, tr_previous_hash = ph,
       tr_sender_address = sa, tr_sender_public_key = pk, tr_recipient_address = ra,
       tr_timestamp = ts, tr_metadata = m, tr_signature = sg\<rparr>)))))))))))"

definition encode_transfer :: "platform \<Rightarrow> transfer \<Rightarrow> bool \<Rightarrow> bytes res" where
  "encode_transfer P t include_signature =
     bindE (require_int (tr_network_id t) ''TransferV3 network id'' 0) (\<lambda>n.
     bindE (encode_transfer_body P t include_signature) (encode_envelope TRANSFER_MAGIC n))"

definition decode_transfer :: "platform \<Rightarrow> bytes \<Rightarrow> transfer res" where
  "decode_transfer P data = decode_envelope data TRANSFER_MAGIC ''TransferV3'' (decode_transfer_body P True)"

definition transfer_hash :: "platform \<Rightarrow> transfer \<Rightarrow> string res" where
  "transfer_hash P t = bindE (encode_transfer P t True) (\<lambda>b.
     bindE (object_hash P TRANSFER_TYPE b) (\<lambda>h. Inr (hex_text h)))"

definition spend_key_material :: "transfer \<Rightarrow> json" where
  "spend_key_material t = JDict
     [(''token_id'', JStr (tr_token_id t)), (''previous_hash'', JStr (tr_previous_hash t)),
      (''sequence'', JInt (tr_sequence t)), (''sender_address'', JStr (tr_sender_address t))]"

definition spend_key_for_transfer :: "platform \<Rightarrow> transfer \<Rightarrow> string res" where
  "spend_key_for_transfer P t = message_hash P (spend_key_material t)"

definition transfer_signing_preimage :: "platform \<Rightarrow> transfer \<Rightarrow> bytes res" where
  "transfer_signing_preimage P t = bindE (encode_transfer P t False) (\<lambda>b.
     signing_preimage (tr_network_id t) TRANSFER_TYPE VERSION SIGNATURE_ALGORITHM_ID TRANSFER_TYPE b)"

definition verify_transfer_signature :: "platform \<Rightarrow> transfer \<Rightarrow> bool res" where
  "verify_transfer_signature P t =
     (if \<not> public_key_matches_address P (PkText (tr_sender_public_key t)) (tr_sender_address t)
      then Inl (ProtocolV3Error ''TransferV3 sender key does not match sender address'')
      else case fromhex (tr_signature t) of None \<Rightarrow> Inl (PyValueError ''non-hexadecimal number'')
      | Some s \<Rightarrow> bindE (transfer_signing_preimage P t) (\<lambda>m.
          bindE (keys_verify P (tr_sender_public_key t) s m) (\<lambda>ok.
          if \<not> ok then Inl (ProtocolV3Error ''invalid TransferV3 signature'') else Inr True)))"

text \<open>A spend-map claim: what the transparency log records of an accepted transfer.\<close>

record spend_claim =
  sc_type :: string
  sc_version :: int
  sc_log_id :: string
  sc_spend_key :: string
  sc_token_id :: string
  sc_previous_hash :: string
  sc_sequence :: int
  sc_sender_address :: string
  sc_sender_public_key :: string
  sc_transfer_hash :: string
  sc_transfer_leaf_index :: int
  sc_accepted_at :: int
  sc_transfer :: "transfer option"

definition SPEND_CLAIM_TYPE :: string where "SPEND_CLAIM_TYPE = ''ind.transparency_spend_claim.v3''"

definition spend_claim_for_transfer :: "platform \<Rightarrow> transfer \<Rightarrow> string \<Rightarrow> int \<Rightarrow> int \<Rightarrow> spend_claim res" where
  "spend_claim_for_transfer P t log_id transfer_leaf_index accepted_at =
     bindE (spend_key_for_transfer P t) (\<lambda>k.
     bindE (transfer_hash P t) (\<lambda>h.
     Inr \<lparr>sc_type = SPEND_CLAIM_TYPE, sc_version = VERSION, sc_log_id = log_id, sc_spend_key = k,
       sc_token_id = tr_token_id t, sc_previous_hash = tr_previous_hash t, sc_sequence = tr_sequence t,
       sc_sender_address = tr_sender_address t, sc_sender_public_key = tr_sender_public_key t,
       sc_transfer_hash = h, sc_transfer_leaf_index = transfer_leaf_index,
       sc_accepted_at = accepted_at, sc_transfer = Some t\<rparr>))"

section \<open>What the shape check accepts\<close>

lemma current_time_Inr_iff [res_simps]: "current_time P now = Inr t \<longleftrightarrow>
    t = (case now of None \<Rightarrow> pf_clock P | Some n \<Rightarrow> n) \<and> 0 \<le> t \<and> t \<le> MAX_JSON_INTEGER_ABS"
  by (auto simp: current_time_def res_simps)

definition metadata_ok :: "json \<Rightarrow> bool" where
  "metadata_ok m = ((\<exists>kvs. m = JDict kvs) \<and> (\<exists>s. canonical_json m = Inr s \<and> length s \<le> MAX_TRANSFER_METADATA_BYTES))"

lemma validate_json_value_label:
  "validate_json_value v l d = Inr () \<longleftrightarrow> validate_json_value v l' d = Inr ()"
proof (induction v arbitrary: d)
  case (JList vs)
  then show ?case by (auto simp: res_simps)
next
  case (JDict kvs)
  then have "\<And>k v d. (k, v) \<in> set kvs \<Longrightarrow> validate_json_value v l d = Inr () \<longleftrightarrow> validate_json_value v l' d = Inr ()"
    by (auto simp: snds.simps)
  then show ?case by (fastforce simp: res_simps split: if_splits)
qed (auto simp: res_simps)

lemma require_metadata_iff:
  "require_metadata m limit l = Inr u \<longleftrightarrow> (\<exists>kvs. m = JDict kvs) \<and> (\<exists>s. canonical_json m = Inr s \<and> length s \<le> limit)"
proof (cases "\<exists>kvs. m = JDict kvs")
  case True
  then have "require_metadata m limit l =
      bindE (validate_json_value m (l @ '' metadata'') 0) (\<lambda>_. bindE (canonical_bytes m) (\<lambda>b.
      ensure (length b \<le> limit) (ValidationError (l @ '' metadata is too large''))))"
    by (auto simp: require_metadata_def)
  with True show ?thesis
    using validate_json_value_label [of m "l @ '' metadata''" 0 "''protocol object''"]
    by (auto simp: canonical_bytes_def canonical_json_def res_simps
        simp del: validate_json_value.simps dumps.simps)
next
  case False
  then show ?thesis by (auto simp: require_metadata_def split: json.splits)
qed

lemma require_metadata_Inr_iff [res_simps]:
  "require_metadata m MAX_TRANSFER_METADATA_BYTES l = Inr u \<longleftrightarrow> metadata_ok m"
  by (simp only: require_metadata_iff metadata_ok_def)

definition transfer_ok :: "platform \<Rightarrow> transfer \<Rightarrow> bool \<Rightarrow> int option \<Rightarrow> bool" where
  "transfer_ok P t require_signature now =
     (tr_type t = TRANSFER_TYPE \<and> tr_version t = VERSION \<and> 0 \<le> tr_network_id t
      \<and> tr_signature_algorithm t = SIGNATURE_ALGORITHM_ID \<and> hex64 (tr_token_id t) \<and> 1 \<le> tr_sequence t
      \<and> hex64 (tr_previous_hash t) \<and> valid_address P (tr_sender_address t)
      \<and> valid_address P (tr_recipient_address t) \<and> is_ok (decode_public_key (tr_sender_public_key t))
      \<and> 0 \<le> tr_timestamp t
      \<and> (\<exists>ct. current_time P now = Inr ct \<and> tr_timestamp t \<le> ct + MAX_TRANSFER_FUTURE_SKEW_SECONDS)
      \<and> metadata_ok (tr_metadata t)
      \<and> (require_signature \<longrightarrow> (\<exists>s. fromhex (tr_signature t) = Some s \<and> length s = 64)))"

lemma validate_transfer_shape_Inr_iff [res_simps]:
  "validate_transfer_shape P t n rs now = Inr u \<longleftrightarrow> transfer_ok P t rs now \<and> n = tr_network_id t"
  by (auto simp: validate_transfer_shape_def transfer_ok_def res_simps is_ok_iff linorder_not_less split: option.splits)

lemma encode_transfer_Inr_iff [res_simps]: "encode_transfer P t b = Inr bs \<longleftrightarrow> transfer_ok P t b None
    \<and> bindE (transfer_bytes t b) (encode_envelope TRANSFER_MAGIC (tr_network_id t)) = Inr bs"
  by (auto simp: encode_transfer_def encode_transfer_body_def bindE_Inr_iff validate_transfer_shape_Inr_iff
      require_int_Inr_iff transfer_ok_def)

lemma encode_transfer_body_Inr_iff [res_simps]: "encode_transfer_body P t b = Inr bs \<longleftrightarrow>
    transfer_ok P t b None \<and> transfer_bytes t b = Inr bs"
  by (auto simp: encode_transfer_body_def bindE_Inr_iff validate_transfer_shape_Inr_iff
      require_int_Inr_iff transfer_ok_def)

section \<open>The codec\<close>

definition key_text :: "string \<Rightarrow> bool" where
  "key_text t = (\<exists>k. length k = 32 \<and> t = public_key_text k)"

definition signature_text :: "string \<Rightarrow> bool" where
  "signature_text t = (\<exists>s. length s = 64 \<and> t = hex_text s)"

text \<open>
  The canonical form of a transfer: lower-case hash texts, the 47-character key text, metadata in
  sorted order, and a lower-case signature, or none when it is encoded unsigned.
\<close>

definition transfer_shape :: "bool \<Rightarrow> transfer \<Rightarrow> bool" where
  "transfer_shape with_sig t = (tr_type t = TRANSFER_TYPE \<and> tr_version t = VERSION
     \<and> hash_text (tr_token_id t) \<and> hash_text (tr_previous_hash t) \<and> key_text (tr_sender_public_key t)
     \<and> (\<exists>kvs. tr_metadata t = JDict kvs) \<and> json_wf (tr_metadata t) \<and> norm (tr_metadata t) = tr_metadata t
     \<and> (if with_sig then signature_text (tr_signature t) else tr_signature t = []))"

lemma TRANSFER_MAGIC_length [simp]: "length TRANSFER_MAGIC = 8"
  by (simp add: TRANSFER_MAGIC_def)

lemma reads_public_key:
  assumes "encode_public_key_field pk l = Inr bs" and "key_text pk"
  shows "reads (read_public_key l') bs pk"
proof -
  from assms have bs: "length bs = 32" "pk = public_key_text bs"
    by (auto simp: encode_public_key_field_def key_text_def res_simps)
  have "reads (read_public_key l') (bs @ []) pk"
    unfolding read_public_key_def
    by (rule reads_bind [OF reads_fixed]) (use bs in \<open>simp_all add: reads_lift\<close>)
  then show ?thesis by simp
qed

lemma reads_signature:
  assumes "encode_signature_hex sg l = Inr bs" and "signature_text sg"
  shows "reads (read_signature_hex l') bs sg"
proof -
  from assms have bs: "length bs = 64" "sg = hex_text bs"
    by (auto simp: encode_signature_hex_def signature_text_def split: if_splits)
  have "reads (read_signature_hex l') (bs @ []) sg"
    unfolding read_signature_hex_def
    by (rule reads_bind [OF reads_fixed]) (use bs in \<open>simp_all add: reads_return\<close>)
  then show ?thesis by simp
qed

lemma decode_json_field_canonical:
  assumes "json_wf m" and "\<exists>kvs. m = JDict kvs" and "canonical_bytes m = Inr raw" and "length raw \<le> 256"
  shows "decode_json_field P raw l = Inr (norm m)"
proof -
  from assms(3) obtain s where s: "canonical_json m = Inr s" "raw = utf8 s"
    by (auto simp: canonical_bytes_def res_simps)
  then have "s = dumps m" by (auto simp: canonical_json_def res_simps)
  then have "proper_text s" using dumps_ascii [OF assms(1)] by simp
  moreover have "unpacked_json P s = Inr (norm m)"
    by (rule plain_json_unpacked [OF assms(1) s(1) _ assms(2)])
      (use assms(4) s(2) in \<open>simp add: MAX_WIRE_DECOMPRESSED_BYTES_def\<close>)
  ultimately show ?thesis by (simp add: decode_json_field_def decode_utf8_def s(2))
qed

lemma transfer_reads:
  assumes "transfer_shape b t" and "transfer_bytes t b = Inr bs"
  shows "reads (decode_transfer_body P b (tr_network_id t)) bs t"
proof -
  define sp where "sp = (if b then [encode_signature_hex (tr_signature t) ''TransferV3 signature''] else [])"
  from assms(2) obtain b1 b2 b3 b4 b5 b6 b7 b8 b9 sg where
    bs: "bs = b1 @ b2 @ b3 @ b4 @ b5 @ b6 @ b7 @ b8 @ [] @ b9 @ sg"
    and enc: "encode_hash_hex (tr_token_id t) = Inr b1" "encode_uvarint (tr_sequence t) = Inr b2"
      "encode_hash_hex (tr_previous_hash t) = Inr b3" "encode_ascii 128 (tr_sender_address t) = Inr b4"
      "encode_public_key_field (tr_sender_public_key t) ''TransferV3 sender public key'' = Inr b5"
      "encode_ascii 128 (tr_recipient_address t) = Inr b6" "encode_uvarint (tr_timestamp t) = Inr b7"
      "encode_uvarint (tr_signature_algorithm t) = Inr b9"
    and m: "bindE (json_field_bytes (tr_metadata t) ''TransferV3 metadata'')
        (encode_bytes (int MAX_TRANSFER_METADATA_BYTES)) = Inr b8"
    and sg: "joinE sp = Inr sg"
    unfolding transfer_bytes_def joinE_append joinE_Cons_iff bindE_Inr_iff joinE_Nil_iff sp_def by auto
  from m obtain raw where raw: "canonical_bytes (tr_metadata t) = Inr raw"
    "encode_bytes (int MAX_TRANSFER_METADATA_BYTES) raw = Inr b8"
    by (auto simp: bindE_Inr_iff json_field_bytes_def or_raise_Inr_iff)
  then have "length raw \<le> 256" by (simp add: encode_bytes_Inr_iff MAX_TRANSFER_METADATA_BYTES_def)
  from decode_json_field_canonical [OF _ _ raw(1) this] assms(1)
  have dec: "decode_json_field P raw ''TransferV3 metadata'' = Inr (tr_metadata t)"
    by (simp add: transfer_shape_def)
  have sig: "reads (if b then read_signature_hex ''TransferV3 signature'' else rreturn []) sg (tr_signature t)"
    using sg assms(1) reads_signature
    by (cases b) (auto simp: sp_def transfer_shape_def joinE_Cons_iff reads_return)
  have bs: "bs = b1 @ b2 @ b3 @ b4 @ b5 @ b6 @ b7 @ b8 @ [] @ b9 @ sg @ []" using bs by simp
  show ?thesis
    unfolding decode_transfer_body_def bs
    by (intro codec_reads; (rule enc raw(2) sig reads_public_key [OF enc(5)] reads_lift [OF dec])?)
      (use assms(1) in \<open>simp_all add: transfer_shape_def MAX_TRANSFER_METADATA_BYTES_def\<close>)
qed

interpretation transfer_codec: envelope_codec
  TRANSFER_MAGIC "''TransferV3''" tr_network_id "transfer_shape b" "\<lambda>t. transfer_bytes t b"
  "decode_transfer_body P b"
  by unfold_locales (simp_all add: transfer_reads)

text \<open>Metadata enters the bytes through its canonical text only.\<close>

lemma transfer_bytes_norm [simp]:
  assumes "canonical_json (norm m) = canonical_json m"
  shows "transfer_bytes (t\<lparr>tr_metadata := norm m\<rparr>) b = transfer_bytes (t\<lparr>tr_metadata := m\<rparr>) b"
  using assms by (simp add: transfer_bytes_def json_field_bytes_def canonical_bytes_def)

section \<open>What encodings, hashes and spend keys commit to\<close>

lemma validate_norm: "validate_json_value (norm v) l d = Inr () \<longleftrightarrow> validate_json_value v l d = Inr ()"
proof (induction v arbitrary: d)
  case (JList vs)
  then show ?case by (auto simp: res_simps)
next
  case (JDict kvs)
  define F where "F = (\<lambda>(k :: string, check :: string \<Rightarrow> nat \<Rightarrow> unit res). bindE (utf8_length k)
      (\<lambda>n. if n > MAX_JSON_STRING_BYTES then Inl (ValidationError (l @ '' object key is too large''))
           else check l (d + 1)))"
  have "F (map_prod id validate_json_value (map_prod id norm x)) = Inr ()
      \<longleftrightarrow> F (map_prod id validate_json_value x) = Inr ()" if "x \<in> set kvs" for x
    using JDict [of x "snd x" "d + 1"] that by (cases x) (auto simp: F_def res_simps snds.simps)
  then have all: "(\<forall>x \<in> set kvs. F (map_prod id validate_json_value (map_prod id norm x)) = Inr ())
      \<longleftrightarrow> (\<forall>x \<in> set kvs. F (map_prod id validate_json_value x) = Inr ())" by blast
  show ?case
    unfolding norm.simps validate_json_value.simps if_Inl_Inr_iff seqE_Inr_iff set_map set_sort length_sort
      length_map ball_simps F_def [symmetric] using all by simp
qed simp_all

lemma canonical_json_norm [simp]: "is_ok (canonical_json v) \<Longrightarrow> canonical_json (norm v) = canonical_json v"
  using validate_norm [of v "''protocol object''" 0] by (auto simp: canonical_json_def is_ok_iff bindE_Inr_iff)

lemma json_wf_norm: "json_wf v \<Longrightarrow> json_wf (norm v)"
proof (induction v)
  case (JList vs)
  then show ?case by (auto simp: list_all_iff)
next
  case (JDict kvs)
  define m where "m = map (map_prod id norm) kvs"
  have "map fst m = map fst kvs" by (simp add: m_def)
  then have d: "distinct (map fst m)" "list_all proper_text (map fst m)" using JDict.prems by simp_all
  have "json_wf w" if "(k, w) \<in> set m" for k w
    using that JDict by (auto simp: list_all_iff snds.simps m_def)
  with d have "distinct (map fst (sort_key fst m))" "\<forall>(k, w) \<in> set (sort_key fst m). proper_text k \<and> json_wf w"
    by (auto simp: distinct_map list_all_iff)
  then show ?case unfolding norm.simps m_def [symmetric] by (auto simp: list_all_iff)
qed simp_all

definition norm_transfer :: "transfer \<Rightarrow> transfer" where
  "norm_transfer t = t\<lparr>tr_metadata := norm (tr_metadata t)\<rparr>"

lemma norm_dict: "(\<exists>kvs. norm m = JDict kvs) = (\<exists>kvs. m = JDict kvs)"
  by (cases m) simp_all

lemma metadata_ok_norm [simp]: "metadata_ok (norm m) = metadata_ok m"
proof (cases "is_ok (canonical_json m)")
  case True
  then show ?thesis by (simp only: metadata_ok_def norm_dict canonical_json_norm)
next
  case False
  have "is_ok (canonical_json (norm m)) = is_ok (canonical_json m)"
    using validate_norm [of m "''protocol object''" 0] by (auto simp: canonical_json_def is_ok_iff bindE_Inr_iff)
  with False show ?thesis by (auto simp: metadata_ok_def)
qed

lemma transfer_ok_norm [simp]: "transfer_ok P (norm_transfer t) b now = transfer_ok P t b now"
  by (simp add: transfer_ok_def norm_transfer_def)

lemma encode_transfer_norm:
  assumes "encode_transfer P t b = Inr bs"
  shows "encode_transfer P (norm_transfer t) b = Inr bs"
proof -
  have ok: "transfer_ok P t b None" using assms by (simp add: encode_transfer_Inr_iff)
  then have "is_ok (canonical_json (tr_metadata t))" by (auto simp: transfer_ok_def metadata_ok_def)
  then have "transfer_bytes (norm_transfer t) b = transfer_bytes t b"
    by (simp add: transfer_bytes_def norm_transfer_def json_field_bytes_def canonical_bytes_def)
  with assms show ?thesis by (simp add: encode_transfer_Inr_iff ok) (simp add: norm_transfer_def)
qed

text \<open>
  Python values of a transfer: distinct dict keys and proper texts in the metadata, and canonical
  hash, key and signature texts.
\<close>

definition transfer_texts :: "bool \<Rightarrow> transfer \<Rightarrow> bool" where
  "transfer_texts with_sig t = (hash_text (tr_token_id t) \<and> hash_text (tr_previous_hash t)
     \<and> key_text (tr_sender_public_key t) \<and> json_wf (tr_metadata t)
     \<and> (if with_sig then signature_text (tr_signature t) else tr_signature t = []))"

lemma norm_transfer_shape:
  assumes "transfer_texts b t" and "transfer_ok P t b' now"
  shows "transfer_shape b (norm_transfer t)"
proof -
  from assms(2) have "\<exists>kvs. norm (tr_metadata t) = JDict kvs"
    by (auto simp: transfer_ok_def metadata_ok_def norm_dict simp del: norm.simps)
  with assms show ?thesis
    by (auto simp: transfer_texts_def transfer_shape_def norm_transfer_def transfer_ok_def json_wf_norm simp del: norm.simps)
qed

lemma decode_encode_transfer:
  assumes "transfer_texts True t" and "encode_transfer P t True = Inr bs"
  shows "decode_transfer P bs = Inr (norm_transfer t)"
proof -
  from assms(2) have ok: "transfer_ok P t True None" by (simp add: encode_transfer_Inr_iff)
  from encode_transfer_norm [OF assms(2)] have "bindE (transfer_bytes (norm_transfer t) True)
      (encode_envelope TRANSFER_MAGIC (tr_network_id (norm_transfer t))) = Inr bs"
    by (simp add: encode_transfer_Inr_iff)
  from transfer_codec.decode_encode [OF norm_transfer_shape [OF assms(1) ok] this]
  show ?thesis by (simp add: decode_transfer_def)
qed

lemma encode_transfer_inject:
  assumes "transfer_texts b t" "transfer_texts b u" "encode_transfer P t b = Inr bs" "encode_transfer P u b = Inr bs"
  shows "norm_transfer t = norm_transfer u"
proof -
  from assms(3,4) have ok: "transfer_ok P t b None" "transfer_ok P u b None" by (simp_all add: encode_transfer_Inr_iff)
  from encode_transfer_norm [OF assms(3)] encode_transfer_norm [OF assms(4)] show ?thesis
    using transfer_codec.encode_inject [OF norm_transfer_shape [OF assms(1) ok(1)] norm_transfer_shape [OF assms(2) ok(2)]]
    by (auto simp: encode_transfer_Inr_iff)
qed

definition transfer_preimage :: "platform \<Rightarrow> transfer \<Rightarrow> bytes res" where
  "transfer_preimage P t = bindE (encode_transfer P t True) (object_preimage TRANSFER_TYPE)"

lemma transfer_hash_Inr_iff: "transfer_hash P t = Inr h \<longleftrightarrow> (\<exists>m. transfer_preimage P t = Inr m \<and> h = sha3_hex P m)"
  by (auto simp: transfer_hash_def transfer_preimage_def bindE_Inr_iff object_hash_Inr_iff sha3_hex_def)

lemma transfer_preimage_inject:
  assumes "transfer_texts True t" "transfer_texts True u" "transfer_preimage P t = Inr m" "transfer_preimage P u = Inr m"
  shows "norm_transfer t = norm_transfer u"
proof -
  from assms(3,4) obtain x y where x: "encode_transfer P t True = Inr x" "encode_transfer P u True = Inr y"
    "object_preimage TRANSFER_TYPE x = Inr m" "object_preimage TRANSFER_TYPE y = Inr m"
    unfolding transfer_preimage_def bindE_Inr_iff by blast
  then have "x = y" using object_preimage_inject by blast
  with x encode_transfer_inject [OF assms(1,2)] show ?thesis by simp
qed

definition unsigned_transfer :: "transfer \<Rightarrow> transfer" where
  "unsigned_transfer t = t\<lparr>tr_signature := []\<rparr>"

lemma transfer_bytes_unsigned [simp]: "transfer_bytes (unsigned_transfer t) False = transfer_bytes t False"
  by (simp add: transfer_bytes_def unsigned_transfer_def)

lemma transfer_ok_unsigned [simp]: "transfer_ok P (unsigned_transfer t) False now = transfer_ok P t False now"
  by (simp add: transfer_ok_def unsigned_transfer_def)

lemma validate_unsigned [simp]:
  "validate_transfer_shape P (unsigned_transfer t) n False now = validate_transfer_shape P t n False now"
  unfolding validate_transfer_shape_def unsigned_transfer_def transfer.simps by (simp cong: if_cong)

lemma network_id_unsigned [simp]: "tr_network_id (unsigned_transfer t) = tr_network_id t"
  by (simp add: unsigned_transfer_def)

lemma encode_transfer_unsigned [simp]: "encode_transfer P (unsigned_transfer t) False = encode_transfer P t False"
  by (simp add: encode_transfer_def encode_transfer_body_def)

lemma transfer_signing_preimage_inject:
  assumes "transfer_texts False (unsigned_transfer t)" "transfer_texts False (unsigned_transfer u)"
    and "transfer_signing_preimage P t = Inr m" "transfer_signing_preimage P u = Inr m"
  shows "norm_transfer (unsigned_transfer t) = norm_transfer (unsigned_transfer u)"
proof -
  from assms(3,4) obtain x y where x: "encode_transfer P t False = Inr x" "encode_transfer P u False = Inr y"
    "signing_preimage (tr_network_id t) TRANSFER_TYPE VERSION SIGNATURE_ALGORITHM_ID TRANSFER_TYPE x = Inr m"
    "signing_preimage (tr_network_id u) TRANSFER_TYPE VERSION SIGNATURE_ALGORITHM_ID TRANSFER_TYPE y = Inr m"
    unfolding transfer_signing_preimage_def bindE_Inr_iff by blast
  from signing_preimage_inject_aux [OF x(3,4)] have "x = y" by simp
  with x encode_transfer_inject [OF assms(1,2)] show ?thesis by simp
qed

lemma spend_key_material_inject:
  "norm (spend_key_material t) = norm (spend_key_material u) \<Longrightarrow> tr_token_id t = tr_token_id u
    \<and> tr_previous_hash t = tr_previous_hash u \<and> tr_sequence t = tr_sequence u
    \<and> tr_sender_address t = tr_sender_address u"
  by (simp add: spend_key_material_def)

lemma hash_text_ascii: "hash_text t \<Longrightarrow> is_ascii t"
  by (auto simp: hash_text_iff)

lemma spend_key_material_wf:
  assumes "hash_text (tr_token_id t)" "hash_text (tr_previous_hash t)" "valid_address P (tr_sender_address t)"
  shows "json_wf (spend_key_material t)"
proof -
  have "is_ascii ''token_id''" "is_ascii ''previous_hash''" "is_ascii ''sequence''" "is_ascii ''sender_address''"
    by (simp_all add: is_ascii_def code_def)
  then show ?thesis
    using assms hash_text_ascii valid_address_text(2) by (simp add: spend_key_material_def)
qed

text \<open>The bytes whose digest is the spend key.\<close>

definition spend_key_preimage :: "transfer \<Rightarrow> bytes res" where
  "spend_key_preimage t = canonical_bytes (spend_key_material t)"

lemma spend_key_Inr_iff: "spend_key_for_transfer P t = Inr k \<longleftrightarrow> (\<exists>m. spend_key_preimage t = Inr m \<and> k = sha3_hex P m)"
  by (auto simp: spend_key_for_transfer_def message_hash_def spend_key_preimage_def bindE_Inr_iff)

lemma spend_key_preimage_inject:
  assumes "json_wf (spend_key_material t)" "json_wf (spend_key_material u)"
    and "spend_key_preimage t = Inr m" "spend_key_preimage u = Inr m"
  shows "tr_token_id t = tr_token_id u \<and> tr_previous_hash t = tr_previous_hash u
    \<and> tr_sequence t = tr_sequence u \<and> tr_sender_address t = tr_sender_address u"
  using assms canonical_json_inject [OF assms(1,2)]
  by (intro spend_key_material_inject) (auto simp: spend_key_preimage_def canonical_bytes_def bindE_Inr_iff)

section \<open>Sizes\<close>

lemma encode_hash_hex_size': "encode_hash_hex t = Inr bs \<Longrightarrow> length bs \<le> 300"
  using encode_hash_hex_size by fastforce

lemma transfer_bytes_size: "transfer_bytes t b = Inr bs \<Longrightarrow> length bs \<le> 3000"
proof -
  assume t: "transfer_bytes t b = Inr bs"
  have key: "encode_public_key_field k l = Inr x \<Longrightarrow> length x \<le> 300" for k l x
    using decode_public_key_length by (fastforce simp: encode_public_key_field_def or_raise_Inr_iff)
  have sig: "encode_signature_hex k l = Inr x \<Longrightarrow> length x \<le> 300" for k l x
    by (auto simp: encode_signature_hex_def split: if_splits option.splits)
  have asc: "encode_ascii 128 a = Inr x \<Longrightarrow> length x \<le> 300" for a x
    using encode_ascii_size [of 128 a x] by (auto simp: encode_ascii_Inr_iff)
  have meta: "bindE (json_field_bytes m l) (encode_bytes (int MAX_TRANSFER_METADATA_BYTES)) = Inr x \<Longrightarrow> length x \<le> 300"
    for m l x
  proof -
    assume "bindE (json_field_bytes m l) (encode_bytes (int MAX_TRANSFER_METADATA_BYTES)) = Inr x"
    then obtain raw where "encode_bytes (int MAX_TRANSFER_METADATA_BYTES) raw = Inr x" by (auto simp: bindE_Inr_iff)
    with encode_bytes_size [OF this] show "length x \<le> 300"
      by (simp add: encode_bytes_Inr_iff MAX_TRANSFER_METADATA_BYTES_def)
  qed
  have uv: "encode_uvarint v = Inr x \<Longrightarrow> length x \<le> 300" for v x
    using encode_uvarint_size by fastforce
  define ps where "ps =
     [encode_hash_hex (tr_token_id t), encode_uvarint (tr_sequence t), encode_hash_hex (tr_previous_hash t),
      encode_ascii 128 (tr_sender_address t),
      encode_public_key_field (tr_sender_public_key t) ''TransferV3 sender public key'',
      encode_ascii 128 (tr_recipient_address t), encode_uvarint (tr_timestamp t),
      bindE (json_field_bytes (tr_metadata t) ''TransferV3 metadata'') (encode_bytes (int MAX_TRANSFER_METADATA_BYTES)),
      encode_uvarint (tr_signature_algorithm t)]
     @ (if b then [encode_signature_hex (tr_signature t) ''TransferV3 signature''] else [])"
  have "list_all (\<lambda>p. \<forall>x. p = Inr x \<longrightarrow> length x \<le> 300) ps"
    unfolding ps_def list_all_append
    by (cases b; simp only: if_True if_False list.pred_inject; use key sig asc meta encode_hash_hex_size' uv in blast)
  then have "length bs \<le> 300 * length ps"
    using t by (intro joinE_size) (auto simp: transfer_bytes_def ps_def list_all_iff simp del: joinE.simps)
  then show ?thesis by (simp add: ps_def split: if_splits)
qed

lemma transfer_hash_exists:
  assumes "encode_transfer P t True = Inr bs"
  shows "\<exists>h. transfer_hash P t = Inr h"
proof -
  from assms obtain b e where b: "transfer_bytes t True = Inr b" "encode_uvarint (tr_network_id t) = Inr e"
    "bs = TRANSFER_MAGIC @ uvarint_loop 3 @ e @ b"
    by (auto simp: encode_transfer_Inr_iff bindE_Inr_iff encode_envelope_Inr_iff)
  have "length (uvarint_loop 3) \<le> 1" by (rule length_uvarint_loop) simp_all
  with b transfer_bytes_size [OF b(1)] encode_uvarint_size [OF b(2)] have "length bs \<le> 65536" by simp
  moreover have "is_ascii TRANSFER_TYPE" "length TRANSFER_TYPE \<le> 128"
    by (simp_all add: TRANSFER_TYPE_def is_ascii_def code_def)
  ultimately obtain m where "object_preimage TRANSFER_TYPE bs = Inr m" using object_preimage_ok by blast
  then show ?thesis using assms by (simp add: transfer_hash_Inr_iff transfer_preimage_def)
qed

lemma transfer_bytes_signed:
  assumes "transfer_bytes t False = Inr b" and "length sig = 64"
  shows "transfer_bytes (t\<lparr>tr_signature := hex_text sig\<rparr>) True = Inr (b @ sig)"
  using assms by (auto simp: transfer_bytes_def bindE_Inr_iff encode_signature_hex_def)

end
