(* ===== verification/Replay.thy ===== *)
theory Replay
  imports TransferV3
begin

text \<open>
  Replaying transfers on a token state and creating the next one (\<open>src/ind/protocol_v3.py\<close>):
  \<open>replay_step\<close> is the body of the loop, \<open>replay_transfer_sequence\<close> the loop. \<open>link\<close> and the
  inductive \<open>chain\<close> are the abstract specification: what it means that a transfer extends a state.
\<close>

section \<open>The code\<close>

definition timestamp_day :: "int \<Rightarrow> int" where
  "timestamp_day ts = ts div 86400"

definition replay_step ::
    "platform \<Rightarrow> string \<Rightarrow> int \<Rightarrow> int option \<Rightarrow> bool \<Rightarrow> int \<Rightarrow> bill_state \<Rightarrow> transfer \<Rightarrow> bill_state res" where
  "replay_step P token_id network_id now verify_signatures max_allowed_timestamp state t =
     bindE (validate_transfer_shape P t network_id True now) (\<lambda>_.
     if tr_token_id t \<noteq> token_id then Inl (ProtocolV3Error ''TransferV3 references a different bill'')
     else let expected_sequence = st_sequence state + 1 in
     if tr_sequence t \<noteq> expected_sequence then Inl (ProtocolV3Error ''TransferV3 sequence gap'')
     else if tr_previous_hash t \<noteq> st_last_transfer_hash state
     then Inl (ProtocolV3Error ''TransferV3 does not extend the current tip'')
     else if tr_sender_address t \<noteq> st_owner_address state
     then Inl (ProtocolV3Error ''TransferV3 sender is not the current owner'')
     else bindE (require_int (tr_timestamp t) ''TransferV3 timestamp'' 0) (\<lambda>ts.
     if ts \<le> st_last_transfer_timestamp state
     then Inl (ProtocolV3Error ''TransferV3 timestamps must be strictly increasing'')
     else if ts > max_allowed_timestamp
     then Inl (ProtocolV3Error ''TransferV3 timestamp is too far in the future'')
     else let transfer_day = timestamp_day ts;
              day_count = (if transfer_day = st_last_transfer_day state
                           then st_transfers_in_last_day state + 1 else 1) in
     if day_count > MAX_TRANSFERS_PER_BILL_PER_DAY
     then Inl (ProtocolV3Error ''BillV3 exceeds daily transfer limit'')
     else bindE (if verify_signatures then verify_transfer_signature P t
                 else if \<not> public_key_matches_address P (PkText (tr_sender_public_key t)) (tr_sender_address t)
                 then Inl (ProtocolV3Error ''TransferV3 sender key does not match sender address'')
                 else Inr True) (\<lambda>_.
     bindE (transfer_hash P t) (\<lambda>h.
     Inr (state\<lparr>st_sequence := expected_sequence,
                st_owner_address := tr_recipient_address t,
                st_last_transfer_hash := h,
                st_last_transfer_timestamp := ts,
                st_last_transfer_day := transfer_day,
                st_transfers_in_last_day := day_count\<rparr>)))))"

definition replay_transfer_sequence ::
    "platform \<Rightarrow> string \<Rightarrow> bill_state \<Rightarrow> transfer list \<Rightarrow> int \<Rightarrow> int option \<Rightarrow> bool \<Rightarrow> bill_state res" where
  "replay_transfer_sequence P token_id state transfers network_id now verify_signatures =
     bindE (validate_base_state P state) (\<lambda>s.
     bindE (current_time P now) (\<lambda>ct.
     foldE (replay_step P token_id network_id now verify_signatures (ct + MAX_TRANSFER_FUTURE_SKEW_SECONDS))
       s transfers))"

definition verify_transfer_sequence_from_state ::
    "platform \<Rightarrow> string \<Rightarrow> bill_state \<Rightarrow> transfer list \<Rightarrow> int \<Rightarrow> int option \<Rightarrow> bill_state res" where
  "verify_transfer_sequence_from_state P token_id state transfers network_id now =
     replay_transfer_sequence P token_id state transfers network_id now True"

text \<open>\<open>metadata or {}\<close>: an absent or falsy metadata becomes the empty dict.\<close>

fun json_truthy :: "json \<Rightarrow> bool" where
  "json_truthy JNull = False"
| "json_truthy (JBool b) = b"
| "json_truthy (JInt i) = (i \<noteq> 0)"
| "json_truthy (JFloat f) = (f \<notin> {''0.0'', ''-0.0''})"
| "json_truthy (JStr s) = (s \<noteq> [])"
| "json_truthy (JList xs) = (xs \<noteq> [])"
| "json_truthy (JDict kvs) = (kvs \<noteq> [])"

definition metadata_or_empty :: "json option \<Rightarrow> json" where
  "metadata_or_empty m = (case m of Some v \<Rightarrow> if json_truthy v then v else JDict [] | None \<Rightarrow> JDict [])"

definition create_transfer_from_state ::
    "platform \<Rightarrow> string \<Rightarrow> bill_state \<Rightarrow> string \<Rightarrow> string \<Rightarrow> string \<Rightarrow> json option \<Rightarrow> int option \<Rightarrow> int \<Rightarrow> bool
      \<Rightarrow> transfer res" where
  "create_transfer_from_state P token_id state sender_private_key sender_public_key recipient_address
       metadata timestamp network_id verify_signature =
     bindE (validate_base_state P state) (\<lambda>s.
     bindE (address_from_public_key P (PkText sender_public_key)) (\<lambda>sender_address.
     if sender_address \<noteq> st_owner_address s
     then Inl (ProtocolV3Error ''TransferV3 sender key is not the current owner'')
     else bindE (case timestamp of Some t \<Rightarrow> Inr t | None \<Rightarrow> current_time P None) (\<lambda>ts0.
     let ts = max ts0 (st_last_transfer_timestamp s + 1) in
     bindE (validate_address P recipient_address ''TransferV3 recipient address'') (\<lambda>recipient.
     let t = \<lparr>tr_type = TRANSFER_TYPE, tr_version = VERSION, tr_network_id = network_id,
              tr_signature_algorithm = SIGNATURE_ALGORITHM_ID, tr_token_id = token_id,
              tr_sequence = st_sequence s + 1, tr_previous_hash = st_last_transfer_hash s,
              tr_sender_address = sender_address, tr_sender_public_key = sender_public_key,
              tr_recipient_address = recipient, tr_timestamp = ts,
              tr_metadata = metadata_or_empty metadata, tr_signature = []\<rparr> in
     bindE (validate_transfer_shape P t network_id False None) (\<lambda>_.
     bindE (transfer_signing_preimage P t) (\<lambda>m.
     bindE (if verify_signature then keys_sign P sender_private_key m
            else keys_sign_unverified P sender_private_key m) (\<lambda>sig.
     let signed_t = t\<lparr>tr_signature := hex_text sig\<rparr> in
     if verify_signature
     then bindE (verify_transfer_signature P signed_t) (\<lambda>_. Inr signed_t)
     else bindE (validate_transfer_shape P signed_t network_id True None) (\<lambda>_. Inr signed_t))))))))"

section \<open>The abstract chain\<close>

text \<open>The state after a transfer.\<close>

definition state_after :: "bill_state \<Rightarrow> transfer \<Rightarrow> string \<Rightarrow> bill_state" where
  "state_after s t h = s\<lparr>st_sequence := st_sequence s + 1,
     st_owner_address := tr_recipient_address t, st_last_transfer_hash := h,
     st_last_transfer_timestamp := tr_timestamp t, st_last_transfer_day := timestamp_day (tr_timestamp t),
     st_transfers_in_last_day :=
       (if timestamp_day (tr_timestamp t) = st_last_transfer_day s then st_transfers_in_last_day s + 1 else 1)\<rparr>"

text \<open>The sender's key owns the sender's address, and the signature verifies when that is asked for.\<close>

definition authorised :: "platform \<Rightarrow> bool \<Rightarrow> transfer \<Rightarrow> bool" where
  "authorised P verify t =
     (public_key_matches_address P (PkText (tr_sender_public_key t)) (tr_sender_address t)
      \<and> (verify \<longrightarrow> (\<exists>k s m. decode_public_key (tr_sender_public_key t) = Inr k
            \<and> fromhex (tr_signature t) = Some s \<and> transfer_signing_preimage P t = Inr m
            \<and> ed25519_verify P k s m)))"

definition link :: "platform \<Rightarrow> string \<Rightarrow> int \<Rightarrow> int option \<Rightarrow> bool \<Rightarrow> bill_state \<Rightarrow> transfer \<Rightarrow> bill_state \<Rightarrow> bool" where
  "link P token_id network_id now verify s t s' =
     (transfer_ok P t True now \<and> tr_network_id t = network_id \<and> tr_token_id t = token_id
      \<and> tr_sequence t = st_sequence s + 1 \<and> tr_previous_hash t = st_last_transfer_hash s
      \<and> tr_sender_address t = st_owner_address s \<and> st_last_transfer_timestamp s < tr_timestamp t
      \<and> st_transfers_in_last_day s' \<le> MAX_TRANSFERS_PER_BILL_PER_DAY
      \<and> authorised P verify t \<and> (\<exists>h. transfer_hash P t = Inr h \<and> s' = state_after s t h))"

inductive chain :: "platform \<Rightarrow> string \<Rightarrow> int \<Rightarrow> int option \<Rightarrow> bool \<Rightarrow> bill_state \<Rightarrow> transfer list \<Rightarrow> bill_state \<Rightarrow> bool"
  for P token_id network_id now verify
where
  chain_Nil: "chain P token_id network_id now verify s [] s"
| chain_Cons: "link P token_id network_id now verify s t s' \<Longrightarrow> chain P token_id network_id now verify s' ts s''
    \<Longrightarrow> chain P token_id network_id now verify s (t # ts) s''"

inductive_simps chain_Nil_iff [simp]: "chain P token_id network_id now verify s [] s'"
inductive_simps chain_Cons_iff: "chain P token_id network_id now verify s (t # ts) s'"

section \<open>Replay implements the chain\<close>

lemma verify_transfer_signature_Inr_iff [res_simps]:
  "verify_transfer_signature P t = Inr b \<longleftrightarrow> b \<and> authorised P True t"
  by (auto simp: verify_transfer_signature_def authorised_def keys_verify_def res_simps split: option.splits)

lemma authorised_False: "authorised P False t \<longleftrightarrow>
    public_key_matches_address P (PkText (tr_sender_public_key t)) (tr_sender_address t)"
  by (simp add: authorised_def)

lemma replay_step_Inr_iff:
  assumes "current_time P now = Inr ct"
  shows "replay_step P tok n now v (ct + MAX_TRANSFER_FUTURE_SKEW_SECONDS) s t = Inr s' \<longleftrightarrow> link P tok n now v s t s'"
proof -
  let ?auth = "if v then verify_transfer_signature P t
      else if \<not> public_key_matches_address P (PkText (tr_sender_public_key t)) (tr_sender_address t)
      then Inl (ProtocolV3Error ''TransferV3 sender key does not match sender address'') else Inr True"
  have auth: "(\<exists>x. ?auth = Inr x) \<longleftrightarrow> authorised P v t"
    by (auto simp: res_simps authorised_False)
  have skew: "transfer_ok P t True now \<Longrightarrow> tr_timestamp t \<le> ct + MAX_TRANSFER_FUTURE_SKEW_SECONDS \<and> 0 \<le> tr_timestamp t"
    using assms by (auto simp: transfer_ok_def)
  show ?thesis
    unfolding replay_step_def link_def Let_def bindE_Inr_iff if_Inl_Inr_iff validate_transfer_shape_Inr_iff
      require_int_Inr_iff
    using auth skew by (auto simp: state_after_def linorder_not_le)
qed

lemma foldE_chain:
  assumes "current_time P now = Inr ct"
  shows "foldE (replay_step P tok n now v (ct + MAX_TRANSFER_FUTURE_SKEW_SECONDS)) s ts = Inr s'
    \<longleftrightarrow> chain P tok n now v s ts s'"
  by (induction ts arbitrary: s) (auto simp: bindE_Inr_iff chain_Cons_iff replay_step_Inr_iff [OF assms])

lemma replay_iff_chain: "replay_transfer_sequence P tok s ts n now v = Inr s' \<longleftrightarrow>
    state_ok P s \<and> is_ok (current_time P now) \<and> chain P tok n now v s ts s'"
  by (auto simp: replay_transfer_sequence_def bindE_Inr_iff validate_base_state_Inr_iff foldE_chain is_ok_iff)

lemma transfer_hash_text: "hash_ok P \<Longrightarrow> transfer_hash P t = Inr h \<Longrightarrow> hash_text h"
  by (auto simp: transfer_hash_Inr_iff)

lemma link_state_ok:
  assumes "hash_ok P" and "state_ok P s" and "link P tok n now v s t s'"
  shows "state_ok P s'"
  using assms transfer_hash_text [OF assms(1), of t]
  by (auto simp: link_def state_ok_def state_after_def transfer_ok_def timestamp_day_def)

lemma chain_state_ok:
  assumes "chain P tok n now v s ts s'" and "hash_ok P" and "state_ok P s"
  shows "state_ok P s'"
  using assms by (induction rule: chain.induct) (auto intro: link_state_ok)

lemma chain_append: "chain P tok n now v s (xs @ ys) s'' \<longleftrightarrow>
    (\<exists>s'. chain P tok n now v s xs s' \<and> chain P tok n now v s' ys s'')"
  by (induction xs arbitrary: s) (auto simp: chain_Cons_iff)

lemma link_functional: "link P tok n now v s t a \<Longrightarrow> link P tok n now v s t b \<Longrightarrow> a = b"
  by (auto simp: link_def)

lemma chain_functional: "chain P tok n now v s ts a \<Longrightarrow> chain P tok n now v s ts b \<Longrightarrow> a = b"
  by (induction ts arbitrary: s) (auto simp: chain_Cons_iff dest: link_functional)

lemma replay_append:
  assumes "hash_ok P"
  shows "replay_transfer_sequence P tok s (xs @ ys) n now v =
    bindE (replay_transfer_sequence P tok s xs n now v) (\<lambda>s'. replay_transfer_sequence P tok s' ys n now v)"
proof (cases "state_ok P s")
  case False
  then have "validate_base_state P s = Inr t \<Longrightarrow> False" for t by (simp add: validate_base_state_Inr_iff)
  then obtain e where "validate_base_state P s = Inl e" by (cases "validate_base_state P s") auto
  then show ?thesis by (simp add: replay_transfer_sequence_def)
next
  case True
  then have v: "validate_base_state P s = Inr s" by (simp add: validate_base_state_Inr_iff)
  show ?thesis
  proof (cases "current_time P now")
    case (Inl e)
    then show ?thesis by (simp add: replay_transfer_sequence_def v)
  next
    case (Inr ct)
    have "validate_base_state P s' = Inr s'"
      if "foldE (replay_step P tok n now v (ct + MAX_TRANSFER_FUTURE_SKEW_SECONDS)) s xs = Inr s'" for s'
      using that chain_state_ok [OF _ assms True] by (simp add: foldE_chain [OF Inr] validate_base_state_Inr_iff)
    then show ?thesis
      unfolding replay_transfer_sequence_def v Inr bindE_simps foldE_append
      by (intro bindE_cong refl) (simp add: Inr)
  qed
qed

section \<open>What an accepted chain is\<close>

lemma link_values: "link P tok n now v s t s' \<Longrightarrow> st_value s' = st_value s \<and> st_display_id s' = st_display_id s
    \<and> st_sequence s' = st_sequence s + 1 \<and> st_owner_address s' = tr_recipient_address t
    \<and> st_last_transfer_timestamp s' = tr_timestamp t"
  by (auto simp: link_def state_after_def)

lemma chain_values:
  assumes "chain P tok n now v s ts s'"
  shows "st_value s' = st_value s \<and> st_display_id s' = st_display_id s
    \<and> st_sequence s' = st_sequence s + int (length ts)
    \<and> st_owner_address s' = (if ts = [] then st_owner_address s else tr_recipient_address (last ts))"
  using assms
proof (induction rule: chain.induct)
  case (chain_Cons s t s' ts s'')
  from link_values [OF chain_Cons(1)] chain_Cons(3) show ?case by auto
qed simp

lemma chain_sequences:
  assumes "chain P tok n now v s ts s'" and "i < length ts"
  shows "tr_sequence (ts ! i) = st_sequence s + 1 + int i \<and> tr_token_id (ts ! i) = tok"
  using assms
proof (induction arbitrary: i rule: chain.induct)
  case (chain_Cons s t s' ts s'')
  from chain_Cons(1) have "tr_sequence t = st_sequence s + 1" "tr_token_id t = tok" by (simp_all add: link_def)
  with chain_Cons(3) [of "i - 1"] chain_Cons(4) link_values [OF chain_Cons(1)] show ?case by (cases i) auto
qed simp

lemma chain_times:
  assumes "chain P tok n now v s ts s'"
  shows "sorted_wrt (<) (st_last_transfer_timestamp s # map tr_timestamp ts)"
  using assms
proof (induction rule: chain.induct)
  case (chain_Cons s t s' ts s'')
  have "st_last_transfer_timestamp s < tr_timestamp t" using chain_Cons(1) by (simp add: link_def)
  with chain_Cons(3) link_values [OF chain_Cons(1)] show ?case by auto
qed simp

text \<open>Each transfer names the hash of the one before it and is sent by that one's recipient.\<close>

lemma chain_linked:
  assumes "chain P tok n now v s ts s'" and "Suc i < length ts"
  shows "transfer_hash P (ts ! i) = Inr (tr_previous_hash (ts ! Suc i))
    \<and> tr_sender_address (ts ! Suc i) = tr_recipient_address (ts ! i)"
  using assms
proof (induction arbitrary: i rule: chain.induct)
  case (chain_Cons s t s' ts s'')
  show ?case
  proof (cases i)
    case 0
    with chain_Cons(4) obtain u us where ts: "ts = u # us" by (cases ts) auto
    with chain_Cons(2) have "tr_previous_hash u = st_last_transfer_hash s'" "tr_sender_address u = st_owner_address s'"
      by (auto simp: chain_Cons_iff link_def)
    moreover from chain_Cons(1) have "transfer_hash P t = Inr (st_last_transfer_hash s')"
      "st_owner_address s' = tr_recipient_address t" by (auto simp: link_def state_after_def)
    ultimately show ?thesis by (simp add: 0 ts)
  next
    case (Suc j)
    with chain_Cons(3) [of j] chain_Cons(4) show ?thesis by simp
  qed
qed simp

lemma chain_sender:
  assumes "chain P tok n now v s ts s'" and "i < length ts"
  shows "tr_sender_address (ts ! i) = (if i = 0 then st_owner_address s else tr_recipient_address (ts ! (i - 1)))"
proof (cases i)
  case 0
  with assms obtain u us where "ts = u # us" by (cases ts) auto
  with assms 0 show ?thesis by (auto simp: chain_Cons_iff link_def)
next
  case (Suc j)
  with chain_linked [OF assms(1), of j] assms(2) show ?thesis by simp
qed

lemma chain_members:
  assumes "chain P tok n now v s ts s'" and "t \<in> set ts"
  shows "transfer_ok P t True now \<and> tr_network_id t = n \<and> authorised P v t"
  using assms by (induction rule: chain.induct) (auto simp: link_def)

section \<open>The daily limit\<close>

definition transfers_on :: "int \<Rightarrow> transfer list \<Rightarrow> int" where
  "transfers_on d ts = int (length (filter (\<lambda>t. timestamp_day (tr_timestamp t) = d) ts))"

lemma transfers_on_simps [simp]: "transfers_on d [] = 0"
  "transfers_on d (t # ts) = (if timestamp_day (tr_timestamp t) = d then 1 else 0) + transfers_on d ts"
  by (simp_all add: transfers_on_def)

lemma transfers_on_nonneg [simp]: "0 \<le> transfers_on d ts"
  by (simp add: transfers_on_def)

lemma timestamp_day_mono: "a \<le> b \<Longrightarrow> timestamp_day a \<le> timestamp_day b"
  by (simp add: timestamp_day_def zdiv_mono1)

text \<open>From a state that stands at its own day: what is counted already, and what comes.\<close>

lemma chain_day_bound:
  assumes "chain P tok n now v s ts s'" and "st_last_transfer_day s = timestamp_day (st_last_transfer_timestamp s)"
    and "0 \<le> st_transfers_in_last_day s"
  shows "(d < st_last_transfer_day s \<longrightarrow> transfers_on d ts = 0)
    \<and> (transfers_on d ts = 0 \<or> (if d = st_last_transfer_day s then st_transfers_in_last_day s else 0)
          + transfers_on d ts \<le> MAX_TRANSFERS_PER_BILL_PER_DAY)"
  using assms
proof (induction rule: chain.induct)
  case (chain_Cons s t s' ts s'')
  let ?day = "timestamp_day (tr_timestamp t)"
  from chain_Cons(1) have s': "st_last_transfer_day s' = ?day" "st_last_transfer_timestamp s' = tr_timestamp t"
    "st_transfers_in_last_day s' = (if ?day = st_last_transfer_day s then st_transfers_in_last_day s + 1 else 1)"
    and lim: "st_transfers_in_last_day s' \<le> MAX_TRANSFERS_PER_BILL_PER_DAY"
    and ts: "st_last_transfer_timestamp s < tr_timestamp t"
    by (auto simp: link_def state_after_def)
  have mono: "st_last_transfer_day s \<le> ?day"
    using timestamp_day_mono [of "st_last_transfer_timestamp s" "tr_timestamp t"] ts chain_Cons(4) by simp
  have IH: "(d < st_last_transfer_day s' \<longrightarrow> transfers_on d ts = 0)
    \<and> (transfers_on d ts = 0 \<or> (if d = st_last_transfer_day s' then st_transfers_in_last_day s' else 0)
          + transfers_on d ts \<le> MAX_TRANSFERS_PER_BILL_PER_DAY)"
    by (rule chain_Cons.IH) (use s' chain_Cons(5) in auto)
  show ?case using IH s' lim mono chain_Cons(5) by (auto split: if_splits)
qed simp

lemma chain_daily_limit:
  assumes "chain P tok n now v s ts s'" and "0 \<le> st_transfers_in_last_day s"
  shows "transfers_on d ts \<le> MAX_TRANSFERS_PER_BILL_PER_DAY"
proof (cases ts)
  case Nil
  then show ?thesis by (simp add: MAX_TRANSFERS_PER_BILL_PER_DAY_def)
next
  case (Cons t us)
  with assms(1) obtain s1 where l: "link P tok n now v s t s1" and c: "chain P tok n now v s1 us s'"
    by (auto simp: chain_Cons_iff)
  from l have s1: "st_last_transfer_day s1 = timestamp_day (tr_timestamp t)"
    "st_last_transfer_timestamp s1 = tr_timestamp t" "1 \<le> st_transfers_in_last_day s1"
    and lim: "st_transfers_in_last_day s1 \<le> MAX_TRANSFERS_PER_BILL_PER_DAY"
    using assms(2) by (auto simp: link_def state_after_def)
  from chain_day_bound [OF c, of d] s1 have
    "transfers_on d us = 0 \<or> (if d = st_last_transfer_day s1 then st_transfers_in_last_day s1 else 0)
      + transfers_on d us \<le> MAX_TRANSFERS_PER_BILL_PER_DAY" by simp
  with s1 lim show ?thesis by (auto simp: Cons split: if_splits)
qed

end
