(* ===== verification/CreateTransfer.thy ===== *)
theory CreateTransfer
  imports Replay
begin

text \<open>
  Creating a transfer and replaying it fit together: what \<open>create_transfer_from_state\<close> returns is a
  link of the chain from that state, and the owner of a state can always create one.
\<close>

lemma public_key_matches_own:
  "address_from_public_key P (PkText pk) = Inr a \<Longrightarrow> valid_address P a \<Longrightarrow> public_key_matches_address P (PkText pk) a"
  by (simp add: matches_iff validate_address_Inr_iff)

text \<open>The unsigned transfer that the function builds.\<close>

definition next_transfer ::
    "string \<Rightarrow> bill_state \<Rightarrow> string \<Rightarrow> string \<Rightarrow> string \<Rightarrow> json option \<Rightarrow> int \<Rightarrow> int \<Rightarrow> transfer" where
  "next_transfer tok s pk sender recipient metadata ts n =
     \<lparr>tr_type = TRANSFER_TYPE, tr_version = VERSION, tr_network_id = n,
      tr_signature_algorithm = SIGNATURE_ALGORITHM_ID, tr_token_id = tok,
      tr_sequence = st_sequence s + 1, tr_previous_hash = st_last_transfer_hash s,
      tr_sender_address = sender, tr_sender_public_key = pk, tr_recipient_address = recipient,
      tr_timestamp = max ts (st_last_transfer_timestamp s + 1),
      tr_metadata = metadata_or_empty metadata, tr_signature = []\<rparr>"

definition start_time :: "platform \<Rightarrow> int option \<Rightarrow> int res" where
  "start_time P timestamp = (case timestamp of Some t \<Rightarrow> Inr t | None \<Rightarrow> current_time P None)"

definition sign_with :: "platform \<Rightarrow> bool \<Rightarrow> string \<Rightarrow> bytes \<Rightarrow> bytes res" where
  "sign_with P v sk m = (if v then keys_sign P sk m else keys_sign_unverified P sk m)"

lemma next_transfer_fields [simp]:
  "tr_network_id (next_transfer tok s pk a r m ts n) = n"
  "tr_token_id (next_transfer tok s pk a r m ts n) = tok"
  "tr_sequence (next_transfer tok s pk a r m ts n) = st_sequence s + 1"
  "tr_previous_hash (next_transfer tok s pk a r m ts n) = st_last_transfer_hash s"
  "tr_sender_address (next_transfer tok s pk a r m ts n) = a"
  "tr_sender_public_key (next_transfer tok s pk a r m ts n) = pk"
  "tr_recipient_address (next_transfer tok s pk a r m ts n) = r"
  "tr_timestamp (next_transfer tok s pk a r m ts n) = max ts (st_last_transfer_timestamp s + 1)"
  "tr_metadata (next_transfer tok s pk a r m ts n) = metadata_or_empty m"
  by (simp_all add: next_transfer_def)

lemma ex_true [simp]: "\<exists>x. x"
  by blast

lemma create_transfer_Inr_iff:
  "create_transfer_from_state P tok s sk pk r m ts n v = Inr t \<longleftrightarrow>
     state_ok P s \<and> address_from_public_key P (PkText pk) = Inr (st_owner_address s) \<and> valid_address P r
     \<and> (\<exists>ts0 pre sig u. start_time P ts = Inr ts0
         \<and> u = next_transfer tok s pk (st_owner_address s) r m ts0 n
         \<and> transfer_ok P u False None \<and> transfer_signing_preimage P u = Inr pre
         \<and> sign_with P v sk pre = Inr sig \<and> t = u\<lparr>tr_signature := hex_text sig\<rparr>
         \<and> (if v then authorised P True t else transfer_ok P t True None))"
  unfolding create_transfer_from_state_def bindE_Inr_iff Let_def validate_base_state_Inr_iff if_Inl_Inr_iff
    validate_address_Inr_iff validate_transfer_shape_Inr_iff
  by (auto simp: start_time_def [symmetric] sign_with_def [symmetric] next_transfer_def [symmetric]
      bindE_Inr_iff verify_transfer_signature_Inr_iff validate_transfer_shape_Inr_iff split: if_splits)

lemma create_transfer_fields:
  assumes "create_transfer_from_state P tok s sk pk r m ts n v = Inr t"
  shows "tr_recipient_address t = r" and "tr_sender_address t = st_owner_address s"
    and "tr_sequence t = st_sequence s + 1" and "tr_previous_hash t = st_last_transfer_hash s"
    and "tr_token_id t = tok" and "tr_sender_public_key t = pk" and "tr_network_id t = n"
    and "start_time P ts = Inr ts0 \<Longrightarrow> tr_timestamp t = max ts0 (st_last_transfer_timestamp s + 1)"
  using assms by (auto simp: create_transfer_Inr_iff)

lemma create_transfer_parts:
  assumes "create_transfer_from_state P tok s sk pk r m ts n v = Inr t"
  shows "tr_metadata t = metadata_or_empty m" and "\<exists>sig. tr_signature t = hex_text sig"
  using assms by (auto simp: create_transfer_Inr_iff)

section \<open>A created transfer is a link\<close>

lemma transfer_ok_signed:
  assumes "transfer_ok P t False now" and "length sig = 64"
  shows "transfer_ok P (t\<lparr>tr_signature := hex_text sig\<rparr>) True now"
  using assms by (simp add: transfer_ok_def)

lemma authorised_signature_length:
  assumes "authorised P True t"
  shows "\<exists>s. fromhex (tr_signature t) = Some s \<and> length s = 64"
  using assms ed25519_verify_length by (auto simp: authorised_def)

text \<open>The clock is the validator's, so the transfer that was just checked is accepted at once.\<close>

theorem create_transfer_link:
  assumes "create_transfer_from_state P tok s sk pk r m ts n v = Inr t"
    and day: "timestamp_day (tr_timestamp t) = st_last_transfer_day s \<Longrightarrow>
      st_transfers_in_last_day s < MAX_TRANSFERS_PER_BILL_PER_DAY"
  obtains s' where "link P tok n None v s t s'" and "st_owner_address s' = r"
proof -
  from assms(1) obtain ts0 pre sig u where
      own: "address_from_public_key P (PkText pk) = Inr (st_owner_address s)" "state_ok P s"
    and u: "u = next_transfer tok s pk (st_owner_address s) r m ts0 n" "transfer_ok P u False None"
      "transfer_signing_preimage P u = Inr pre" "t = u\<lparr>tr_signature := hex_text sig\<rparr>"
    and chk: "if v then authorised P True t else transfer_ok P t True None"
    by (auto simp: create_transfer_Inr_iff)
  have len: "length sig = 64"
    using chk authorised_signature_length [of P t] by (cases v) (auto simp: u(4) transfer_ok_def)
  have ok: "transfer_ok P t True None" using transfer_ok_signed [OF u(2) len] by (simp add: u(4))
  from u(3) obtain b where "transfer_bytes u False = Inr b"
    and "is_ok (encode_uvarint n)"
    by (auto simp: transfer_signing_preimage_def bindE_Inr_iff encode_transfer_Inr_iff encode_envelope_Inr_iff
        u(1) is_ok_iff)
  then have "is_ok (encode_transfer P t True)"
    using ok transfer_bytes_signed [OF _ len] by (auto simp: u(1,4) is_ok_iff encode_transfer_Inr_iff
        encode_envelope_Inr_iff bindE_Inr_iff)
  then obtain bs where "encode_transfer P t True = Inr bs" by (auto simp: is_ok_iff)
  from transfer_hash_exists [OF this] obtain h where h: "transfer_hash P t = Inr h" by blast
  have "authorised P v t"
    using chk own by (cases v) (auto simp: authorised_False u(1,4) state_ok_def public_key_matches_own)
  then have "link P tok n None v s t (state_after s t h)"
    using ok h day by (auto simp: link_def u(1,4) state_after_def MAX_TRANSFERS_PER_BILL_PER_DAY_def)
  then show ?thesis by (rule that) (simp add: state_after_def u(1,4))
qed

lemma create_transfer_replays:
  assumes "create_transfer_from_state P tok s sk pk r m ts n v = Inr t"
    and "timestamp_day (tr_timestamp t) = st_last_transfer_day s \<Longrightarrow>
      st_transfers_in_last_day s < MAX_TRANSFERS_PER_BILL_PER_DAY"
  shows "\<exists>s'. replay_transfer_sequence P tok s [t] n None v = Inr s' \<and> st_owner_address s' = r"
proof -
  from create_transfer_link [OF assms] obtain s' where l: "link P tok n None v s t s'" "st_owner_address s' = r"
    by blast
  moreover have "is_ok (current_time P None)" using l(1) by (auto simp: link_def transfer_ok_def is_ok_iff)
  ultimately show ?thesis using assms(1) by (auto simp: replay_iff_chain chain_Cons_iff create_transfer_Inr_iff)
qed

section \<open>The owner of a state can always create a transfer\<close>

definition private_key_text :: "bytes \<Rightarrow> string" where
  "private_key_text seed = PRIVATE_KEY_PREFIX @ b85encode seed"

lemma decode_private_key_text [simp]: "length seed = 32 \<Longrightarrow> decode_private_key (private_key_text seed) = Inr seed"
  by (rule decode_encode_private_key) (simp add: encode_private_key_def private_key_text_def require_bytes_Inr_iff bindE_Inr_iff)

lemma sign_with_ok:
  assumes "ed_ok P" and "length seed = 32"
  shows "sign_with P v (private_key_text seed) msg = Inr (pf_ed_sign P seed msg)"
  using ed25519_sign_ok [OF assms] assms
  by (simp add: sign_with_def keys_sign_def keys_sign_unverified_def ed25519_sign_unverified_def
      private_key_from_seed_def require_bytes_def ed_ok_def)

lemma joinE_ok: "is_ok (joinE ps) \<longleftrightarrow> list_all is_ok ps"
  by (induction ps) (auto simp: is_ok_iff bindE_Inr_iff)

lemma encode_uvarint_is_ok: "0 \<le> v \<Longrightarrow> v \<le> MAX_UVARINT \<Longrightarrow> is_ok (encode_uvarint v)"
  by (simp add: is_ok_iff encode_uvarint_Inr_iff)

lemma encode_address_is_ok: "valid_address P a \<Longrightarrow> is_ok (encode_ascii 128 a)"
  using valid_address_text [of P a] by (simp add: is_ok_iff encode_ascii_Inr_iff MAX_UVARINT_def)

lemma encode_hash_is_ok: "hex64 h \<Longrightarrow> is_ok (encode_hash_hex h)"
  by (auto simp: hex64_def encode_hash_hex_def is_ok_iff)

lemma encode_metadata_is_ok:
  assumes "metadata_ok m"
  shows "is_ok (bindE (json_field_bytes m l) (encode_bytes (int MAX_TRANSFER_METADATA_BYTES)))"
  using assms by (auto simp: metadata_ok_def json_field_bytes_def canonical_bytes_def is_ok_iff bindE_Inr_iff
      or_raise_Inr_iff encode_bytes_Inr_iff MAX_TRANSFER_METADATA_BYTES_def MAX_UVARINT_def)

lemma signing_preimage_signed [simp]:
  "transfer_signing_preimage P (t\<lparr>tr_signature := x\<rparr>) = transfer_signing_preimage P t"
proof -
  have "unsigned_transfer (t\<lparr>tr_signature := x\<rparr>) = unsigned_transfer t" by (simp add: unsigned_transfer_def)
  then have "encode_transfer P (t\<lparr>tr_signature := x\<rparr>) False = encode_transfer P t False"
    using encode_transfer_unsigned [of P t] encode_transfer_unsigned [of P "t\<lparr>tr_signature := x\<rparr>"] by simp
  then show ?thesis by (simp add: transfer_signing_preimage_def)
qed

lemma transfer_bytes_unsigned_ok:
  assumes "transfer_ok P t False now" and "tr_sequence t \<le> MAX_UVARINT" and "tr_timestamp t \<le> MAX_UVARINT"
  shows "is_ok (transfer_bytes t False)"
proof -
  have "is_ok (encode_public_key_field (tr_sender_public_key t) l)" for l
    using assms(1) by (auto simp: transfer_ok_def encode_public_key_field_def is_ok_iff or_raise_Inr_iff)
  moreover have "is_ok (encode_ascii 128 (tr_sender_address t))" "is_ok (encode_ascii 128 (tr_recipient_address t))"
    using assms(1) encode_address_is_ok by (auto simp: transfer_ok_def)
  ultimately show ?thesis
    using assms by (simp add: transfer_bytes_def joinE_ok transfer_ok_def encode_uvarint_is_ok encode_address_is_ok
        encode_hash_is_ok encode_metadata_is_ok SIGNATURE_ALGORITHM_ID_def MAX_UVARINT_def del: joinE.simps)
qed

lemma signing_preimage_is_ok:
  assumes "transfer_ok P t False None" and "tr_network_id t \<le> MAX_UVARINT"
    and "tr_sequence t \<le> MAX_UVARINT" and "tr_timestamp t \<le> MAX_UVARINT"
  shows "is_ok (transfer_signing_preimage P t)"
proof -
  from transfer_bytes_unsigned_ok [OF assms(1,3,4)] obtain b where b: "transfer_bytes t False = Inr b"
    by (auto simp: is_ok_iff)
  from assms have n: "0 \<le> tr_network_id t" by (simp add: transfer_ok_def)
  have "length (uvarint_loop 3) \<le> 1" by (rule length_uvarint_loop) simp_all
  moreover have "length (uvarint_loop (nat (tr_network_id t))) \<le> 9"
    using encode_uvarint_size [of "tr_network_id t"] n assms(2) by (simp add: encode_uvarint_Inr_iff)
  ultimately have "length (TRANSFER_MAGIC @ uvarint_loop 3 @ uvarint_loop (nat (tr_network_id t)) @ b) \<le> 65536"
    using transfer_bytes_size [OF b] by simp
  moreover have "is_ascii TRANSFER_TYPE" "length TRANSFER_TYPE \<le> 64"
    by (simp_all add: TRANSFER_TYPE_def is_ascii_def code_def)
  ultimately show ?thesis
    using assms n b
    by (auto simp: transfer_signing_preimage_def is_ok_iff bindE_Inr_iff encode_transfer_Inr_iff
        encode_envelope_Inr_iff signing_preimage_Inr_iff encode_uvarint_Inr_iff encode_ascii_Inr_iff
        encode_bytes_Inr_iff VERSION_def SIGNATURE_ALGORITHM_ID_def MAX_UVARINT_def
        MAX_SIGNING_PREIMAGE_OBJECT_BYTES_def)
qed

text \<open>
  Progress: the holder of the seed of the owner's key can spend a valid state, to any valid address,
  as long as the next timestamp is not in the future and the numbers fit the encoding.
\<close>

lemma create_transfer_progress:
  assumes "ed_ok P" and "state_ok P s" and "length seed = 32"
    and own: "address_from_public_key P (PkBytes (pf_ed_public P seed)) = Inr (st_owner_address s)"
    and "hex64 tok" "valid_address P r" "metadata_ok (metadata_or_empty m)" "0 \<le> n" "n \<le> MAX_UVARINT"
    and "st_sequence s < MAX_UVARINT" and clock: "is_ok (current_time P None)"
    and past: "st_last_transfer_timestamp s < pf_clock P + MAX_TRANSFER_FUTURE_SKEW_SECONDS"
    and "st_last_transfer_timestamp s < MAX_UVARINT"
  shows "\<exists>t. create_transfer_from_state P tok s (private_key_text seed)
    (public_key_text (pf_ed_public P seed)) r m None n v = Inr t"
proof -
  let ?k = "pf_ed_public P seed" and ?pk = "public_key_text (pf_ed_public P seed)"
  let ?u = "next_transfer tok s ?pk (st_owner_address s) r m (pf_clock P) n"
  have k: "length ?k = 32" and sg: "length (pf_ed_sign P seed x) = 64" for x using assms(1,3) by (auto simp: ed_ok_def)
  from own k have own': "address_from_public_key P (PkText ?pk) = Inr (st_owner_address s)"
    by (simp add: address_from_public_key_def require_bytes_def)
  have time: "0 \<le> pf_clock P" "pf_clock P \<le> MAX_JSON_INTEGER_ABS"
    and st: "start_time P None = Inr (pf_clock P)"
    using clock by (auto simp: is_ok_iff start_time_def current_time_Inr_iff)
  have ok: "transfer_ok P ?u False None"
    using assms k time by (auto simp: transfer_ok_def next_transfer_def state_ok_def is_ok_iff current_time_Inr_iff
        MAX_TRANSFER_FUTURE_SKEW_SECONDS_def)
  moreover have "tr_timestamp ?u \<le> MAX_UVARINT"
    using assms(13) time by (simp add: MAX_JSON_INTEGER_ABS_def MAX_UVARINT_def)
  ultimately obtain pre where pre: "transfer_signing_preimage P ?u = Inr pre"
    using signing_preimage_is_ok [of P ?u] assms by (auto simp: is_ok_iff)
  let ?t = "?u\<lparr>tr_signature := hex_text (pf_ed_sign P seed pre)\<rparr>"
  have "transfer_signing_preimage P ?t = Inr pre" by (simp add: pre)
  then have "authorised P True ?t"
    using ed25519_sign_ok [OF assms(1,3), of pre] own' assms(2) k
    by (auto simp: authorised_def state_ok_def public_key_matches_own)
  then have "create_transfer_from_state P tok s (private_key_text seed) ?pk r m None n v = Inr ?t"
    using assms own' st ok pre sign_with_ok [OF assms(1,3), of v pre] transfer_ok_signed [OF ok sg]
    by (auto simp: create_transfer_Inr_iff)
  then show ?thesis by blast
qed

section \<open>A reached state can be checkpointed\<close>

definition state_fits :: "bill_state \<Rightarrow> bool" where
  "state_fits s = (st_sequence s \<le> MAX_UVARINT \<and> st_last_transfer_timestamp s \<le> MAX_UVARINT
     \<and> st_last_transfer_day s \<le> MAX_UVARINT \<and> st_transfers_in_last_day s \<le> MAX_UVARINT)"

lemma encode_display_is_ok: "valid_bill v n \<Longrightarrow> is_ok (encode_ascii 64 (display_text v n))"
  using display_ok_plain [of v n] display_text_length [of v n]
  by (simp add: is_ok_iff encode_ascii_Inr_iff MAX_UVARINT_def)

lemma encode_nullable_is_ok: "(\<forall>h. v = Some h \<longrightarrow> hex64 h) \<Longrightarrow> is_ok (encode_hash_hex_nullable v)"
  by (cases v) (auto simp: encode_hash_hex_nullable_def is_ok_iff bindE_Inr_iff hex64_def encode_hash_hex_def)

lemma checkpoint_bytes_ok:
  assumes "checkpoint_ok P c" and "state_fits (initial_state_from_checkpoint_core c)" and "hash_ok P"
    and "hex64 (cp_token_id c)"
  shows "is_ok (checkpoint_core_bytes c)"
proof -
  have "is_ok (encode_ascii 128 (cp_owner_address c))" "is_ok (encode_ascii 64 (cp_display_id c))"
    "0 \<le> cp_value c" "cp_value c \<le> MAX_UVARINT" "hex64 (cp_display_id_hash c)"
    using assms encode_address_is_ok [of P "cp_owner_address c"] encode_display_is_ok allowed_pos allowed_bound
    by (fastforce simp: checkpoint_ok_def state_ok_def initial_state_from_checkpoint_core_def valid_bill_def MAX_UVARINT_def)+
  with assms show ?thesis
    by (simp add: checkpoint_core_bytes_def joinE_ok checkpoint_ok_def state_ok_def state_fits_def
        initial_state_from_checkpoint_core_def encode_uvarint_is_ok encode_hash_is_ok encode_nullable_is_ok del: joinE.simps)
qed

lemma checkpoint_bytes_size:
  assumes "checkpoint_core_bytes c = Inr bs"
  shows "length bs \<le> 300 * 13"
proof -
  have asc: "encode_ascii n a = Inr x \<Longrightarrow> n \<le> 128 \<Longrightarrow> length x \<le> 300" for n a x
    using encode_ascii_size [of n a x] by (auto simp: encode_ascii_Inr_iff)
  have h: "encode_hash_hex t = Inr b \<Longrightarrow> length b \<le> 300" "encode_uvarint v = Inr b \<Longrightarrow> length b \<le> 300"
    "encode_hash_hex_nullable x = Inr b \<Longrightarrow> length b \<le> 300" for t v x b
    using encode_hash_hex_size encode_uvarint_size encode_nullable_size by fastforce+
  obtain ps where ps: "checkpoint_core_bytes c = joinE ps" "length ps = 13"
      "list_all (\<lambda>p. \<forall>x. p = Inr x \<longrightarrow> length x \<le> 300) ps"
  proof
    show "checkpoint_core_bytes c = joinE
     [encode_hash_hex (cp_token_id c), encode_hash_hex (cp_genesis_hash c), encode_uvarint (cp_sequence c),
      encode_ascii 128 (cp_owner_address c), encode_uvarint (cp_value c), encode_ascii 64 (cp_display_id c),
      encode_hash_hex (cp_display_id_hash c), encode_hash_hex (cp_last_transfer_hash c),
      encode_uvarint (cp_last_transfer_timestamp c), encode_uvarint (cp_last_transfer_day c),
      encode_uvarint (cp_transfers_in_last_day c), encode_hash_hex_nullable (cp_previous_checkpoint_hash c),
      encode_hash_hex (cp_checkpoint_hash c)]" by (simp only: checkpoint_core_bytes_def)
  qed (simp, simp only: list.pred_inject, use asc h in \<open>(intro conjI allI impI TrueI; force)\<close>)
  then show ?thesis using assms joinE_size [of ps bs 300] by (auto simp: list_all_iff)
qed

lemma checkpoint_core_hash_ok:
  assumes "checkpoint_ok P (c\<lparr>cp_checkpoint_hash := zero_hash\<rparr>)" and "hash_ok P" and "hex64 (cp_token_id c)"
    and "state_fits (initial_state_from_checkpoint_core c)" and "cp_network_id c \<le> MAX_UVARINT"
  shows "is_ok (checkpoint_core_hash P c)"
proof -
  let ?c = "c\<lparr>cp_checkpoint_hash := zero_hash\<rparr>"
  have "initial_state_from_checkpoint_core ?c = initial_state_from_checkpoint_core c"
    by (simp add: initial_state_from_checkpoint_core_def)
  then obtain b where b: "checkpoint_core_bytes ?c = Inr b"
    using checkpoint_bytes_ok [OF assms(1) _ assms(2)] assms(3,4) by (auto simp: is_ok_iff)
  have n: "0 \<le> cp_network_id c" using assms(1) by (simp add: checkpoint_ok_def)
  let ?bs = "CHECKPOINT_CORE_MAGIC @ uvarint_loop 3 @ uvarint_loop (nat (cp_network_id c)) @ b"
  have "length (uvarint_loop 3) \<le> 1" by (rule length_uvarint_loop) simp_all
  moreover have "length (uvarint_loop (nat (cp_network_id c))) \<le> 9"
    using encode_uvarint_size [of "cp_network_id c"] n assms(5) by (simp add: encode_uvarint_Inr_iff)
  ultimately have "length ?bs \<le> 65536" using checkpoint_bytes_size [OF b] by simp
  moreover have "is_ascii CHECKPOINT_CORE_TYPE" "length CHECKPOINT_CORE_TYPE \<le> 128"
    by (simp_all add: CHECKPOINT_CORE_TYPE_def is_ascii_def code_def)
  ultimately obtain m where "object_preimage CHECKPOINT_CORE_TYPE ?bs = Inr m" using object_preimage_ok by blast
  moreover have "encode_checkpoint_core P c False = Inr ?bs"
    using assms(1,5) b n by (simp add: encode_unhashed encode_checkpoint_core_Inr_iff encode_envelope_Inr_iff encode_uvarint_Inr_iff)
  ultimately show ?thesis by (auto simp: checkpoint_core_hash_Inr_iff checkpoint_preimage_def is_ok_iff)
qed

lemma checkpoint_progress:
  assumes "state_ok P s" and "hash_ok P" and "1 \<le> st_sequence s" and "1 \<le> st_transfers_in_last_day s"
    and "state_fits s" and "hash_text g" and "hex64 tok" and "\<forall>h. prev = Some h \<longrightarrow> hex64 h"
    and "0 \<le> n" and "n \<le> MAX_UVARINT"
  shows "\<exists>c. checkpoint_core_from_state P tok g s prev n = Inr c"
proof -
  let ?c = "core_of_state P tok g s prev n"
  have st: "initial_state_from_checkpoint_core ?c = s"
    by (simp add: core_of_state_def initial_state_from_checkpoint_core_def)
  have "tok \<noteq> []" using assms(7) by (auto simp: hex64_def)
  moreover have "hash_text (lower g)" using assms(6) by (auto simp: hash_text_iff)
  ultimately have "checkpoint_ok P (?c\<lparr>cp_checkpoint_hash := zero_hash\<rparr>)"
    using assms by (simp add: checkpoint_ok_def core_of_state_def initial_state_from_checkpoint_core_def state_ok_def)
  then have "is_ok (checkpoint_core_hash P ?c)"
    by (rule checkpoint_core_hash_ok) (use assms st in \<open>simp_all add: core_of_state_def\<close>)
  then show ?thesis using assms by (auto simp: checkpoint_core_from_state_Inr_iff is_ok_iff)
qed

section \<open>A transfer has a spend key\<close>

lemma utf8_length_ascii: "is_ascii s \<Longrightarrow> utf8_length s = Inr (length s)"
  by (auto simp: utf8_length_def encodable_def cps_ascii surrogate_def is_ascii_def list_all_iff)

lemma hex64_size: "hex64 t \<Longrightarrow> length t = 64"
  by (simp add: hex64_def)

lemma spend_key_is_ok:
  assumes "hash_text (tr_token_id t)" "hash_text (tr_previous_hash t)" "valid_address P (tr_sender_address t)"
    and "\<bar>tr_sequence t\<bar> \<le> MAX_JSON_INTEGER_ABS"
  shows "is_ok (spend_key_preimage t)"
proof -
  have keys: "is_ascii ''token_id''" "is_ascii ''previous_hash''" "is_ascii ''sequence''" "is_ascii ''sender_address''"
    by (simp_all add: is_ascii_def code_def)
  have l: "length (tr_token_id t) = 64" "length (tr_previous_hash t) = 64" "length (tr_sender_address t) = 33"
    using assms hex64_size hash_text_hex64 valid_address_text(1) by blast+
  have a: "is_ascii (tr_token_id t)" "is_ascii (tr_previous_hash t)" "is_ascii (tr_sender_address t)"
    using assms hash_text_ascii valid_address_text(2) by blast+
  have "validate_json_value (spend_key_material t) ''protocol object'' 0 = Inr ()"
    using assms(4) by (simp add: spend_key_material_def utf8_length_ascii keys l a MAX_JSON_OBJECT_KEYS_def
        MAX_JSON_STRING_BYTES_def MAX_JSON_DEPTH_def)
  then show ?thesis by (simp add: spend_key_preimage_def canonical_bytes_def canonical_json_def is_ok_iff del: dumps.simps)
qed

end
