(* ===== verification/Samples.thy ===== *)
theory Samples
  imports CreateTransfer
begin

text \<open>
  Concrete values on \<open>toy_platform\<close>, for the witnesses: two key holders, a genesis state of the first
  bill, a genesis reference, and transfers created from that state.
\<close>

abbreviation TP :: platform where "TP \<equiv> toy_platform"

definition seed_a :: bytes where "seed_a = replicate 32 1"
definition seed_b :: bytes where "seed_b = replicate 32 2"

definition key_address :: "bytes \<Rightarrow> string" where
  "key_address k = (case address_from_public_key TP (PkBytes k) of Inr a \<Rightarrow> a | Inl _ \<Rightarrow> [])"

lemma seed_lengths [simp]: "length seed_a = 32" "length seed_b = 32"
  by (simp_all add: seed_a_def seed_b_def)

lemma toy_ed_public [simp]: "pf_ed_public TP k = k"
  by (simp add: toy_platform_def)

lemma toy_clock [simp]: "pf_clock TP = 1800000000"
  by (simp add: toy_platform_def)

lemma toy_current_time [simp]: "current_time TP None = Inr 1800000000"
  by (simp add: current_time_Inr_iff MAX_JSON_INTEGER_ABS_def)

lemma key_address_ok:
  assumes "length k = 32"
  shows "address_from_public_key TP (PkBytes k) = Inr (key_address k)" and "valid_address TP (key_address k)"
proof -
  have "public_key_bytes (PkBytes k) = Inr k" using assms by (simp add: require_bytes_def)
  from derived_address_valid [OF _ _ this, of TP "[]"] obtain a where
    a: "address_from_public_key TP (PkBytes k) = Inr a" "validate_address TP a [] = Inr a" by auto
  then show "address_from_public_key TP (PkBytes k) = Inr (key_address k)" by (simp add: key_address_def)
  from a show "valid_address TP (key_address k)" by (simp add: key_address_def validate_address_Inr_iff)
qed

definition genesis_state :: bill_state where
  "genesis_state = \<lparr>st_sequence = 0, st_owner_address = key_address seed_a, st_last_transfer_hash = zero_hash,
     st_last_transfer_timestamp = 0, st_last_transfer_day = 0, st_transfers_in_last_day = 0,
     st_display_id = display_text 1 1, st_value = 1\<rparr>"

lemma valid_first_bill [simp]: "valid_bill 1 1"
  by (simp add: valid_bill_def ALLOWED_BILL_VALUES_def serial_cap_def DENOMINATION_SERIAL_CAPS_def)

lemma genesis_state_ok [simp]: "state_ok TP genesis_state"
proof -
  have "\<exists>n. valid_bill 1 n \<and> display_text 1 1 = display_text 1 n" using valid_first_bill by blast
  then show ?thesis by (simp add: state_ok_def genesis_state_def key_address_ok)
qed

lemma empty_metadata_ok [simp]: "metadata_ok (metadata_or_empty None)"
  by (simp add: metadata_ok_def metadata_or_empty_def canonical_json_def MAX_TRANSFER_METADATA_BYTES_def)

lemma sample_transfer_exists:
  "\<exists>t. create_transfer_from_state TP zero_hash genesis_state (private_key_text seed_a) (public_key_text seed_a)
     (key_address seed_b) None None 1 v = Inr t"
  using create_transfer_progress [of TP genesis_state seed_a zero_hash "key_address seed_b" None 1 v]
  by (simp add: key_address_ok genesis_state_def [THEN arg_cong [where f = st_owner_address]] is_ok_iff MAX_UVARINT_def
      genesis_state_def [THEN arg_cong [where f = st_sequence]]
      genesis_state_def [THEN arg_cong [where f = st_last_transfer_timestamp]] MAX_TRANSFER_FUTURE_SKEW_SECONDS_def)

section \<open>A transfer, its state and its checkpoint\<close>

definition result_or :: "'a \<Rightarrow> 'a res \<Rightarrow> 'a" where
  "result_or d r = (case r of Inr x \<Rightarrow> x | Inl _ \<Rightarrow> d)"

lemma result_or_Inr: "\<exists>x. r = Inr x \<Longrightarrow> r = Inr (result_or d r)"
  by (auto simp: result_or_def)

definition blank_transfer :: transfer where
  "blank_transfer = next_transfer zero_hash genesis_state [] [] [] None 0 0"

definition first_transfer :: transfer where
  "first_transfer = result_or blank_transfer (create_transfer_from_state TP zero_hash genesis_state
     (private_key_text seed_a) (public_key_text seed_a) (key_address seed_b) None None 1 True)"

lemma create_first_transfer: "create_transfer_from_state TP zero_hash genesis_state (private_key_text seed_a)
    (public_key_text seed_a) (key_address seed_b) None None 1 True = Inr first_transfer"
  unfolding first_transfer_def by (rule result_or_Inr [OF sample_transfer_exists])

lemma first_transfer_limit: "st_transfers_in_last_day genesis_state < MAX_TRANSFERS_PER_BILL_PER_DAY"
  by (simp add: genesis_state_def MAX_TRANSFERS_PER_BILL_PER_DAY_def)

definition first_state :: bill_state where
  "first_state = result_or genesis_state (replay_transfer_sequence TP zero_hash genesis_state [first_transfer] 1 None True)"

lemma replay_first_transfer:
  "replay_transfer_sequence TP zero_hash genesis_state [first_transfer] 1 None True = Inr first_state"
  unfolding first_state_def
  using create_transfer_replays [OF create_first_transfer first_transfer_limit] by (intro result_or_Inr) blast

lemma first_link: "link TP zero_hash 1 None True genesis_state first_transfer first_state"
  using replay_first_transfer by (simp add: replay_iff_chain chain_Cons_iff)

lemma first_chain: "chain TP zero_hash 1 None True genesis_state [first_transfer] first_state"
  using first_link by (simp add: chain_Cons_iff)

lemma first_state_ok [simp]: "state_ok TP first_state"
  using link_state_ok [OF _ _ first_link] by simp

lemma first_state_fields:
  "st_sequence first_state = 1" "st_owner_address first_state = key_address seed_b"
  "st_last_transfer_timestamp first_state = 1800000000" "st_transfers_in_last_day first_state = 1"
  "st_last_transfer_day first_state = 20833"
proof -
  have "start_time TP None = Inr 1800000000" by (simp add: start_time_def)
  note f = create_transfer_fields(1) [OF create_first_transfer] create_transfer_fields(8) [OF create_first_transfer this]
  from first_link obtain h where fs: "first_state = state_after genesis_state first_transfer h" by (auto simp: link_def)
  show "st_sequence first_state = 1" "st_owner_address first_state = key_address seed_b"
    "st_last_transfer_timestamp first_state = 1800000000" "st_transfers_in_last_day first_state = 1"
    "st_last_transfer_day first_state = 20833"
    unfolding fs using f by (simp_all add: state_after_def genesis_state_def timestamp_day_def)
qed

lemma sample_transfer_back_exists:
  "\<exists>t. create_transfer_from_state TP zero_hash first_state (private_key_text seed_b) (public_key_text seed_b)
     (key_address seed_a) None None 1 True = Inr t"
  using create_transfer_progress [of TP first_state seed_b zero_hash "key_address seed_a" None 1 True]
  by (simp add: key_address_ok first_state_fields is_ok_iff MAX_UVARINT_def MAX_TRANSFER_FUTURE_SKEW_SECONDS_def)

definition second_transfer :: transfer where
  "second_transfer = result_or blank_transfer (create_transfer_from_state TP zero_hash first_state
     (private_key_text seed_b) (public_key_text seed_b) (key_address seed_a) None None 1 True)"

lemma create_second_transfer: "create_transfer_from_state TP zero_hash first_state (private_key_text seed_b)
    (public_key_text seed_b) (key_address seed_a) None None 1 True = Inr second_transfer"
  unfolding second_transfer_def by (rule result_or_Inr [OF sample_transfer_back_exists])

definition second_state :: bill_state where
  "second_state = result_or genesis_state (replay_transfer_sequence TP zero_hash first_state [second_transfer] 1 None True)"

lemma replay_second_transfer:
  "replay_transfer_sequence TP zero_hash first_state [second_transfer] 1 None True = Inr second_state"
  unfolding second_state_def
  using create_transfer_replays [OF create_second_transfer]
  by (intro result_or_Inr) (simp add: first_state_fields MAX_TRANSFERS_PER_BILL_PER_DAY_def, blast)

lemma replay_both_transfers:
  "replay_transfer_sequence TP zero_hash genesis_state [first_transfer, second_transfer] 1 None True = Inr second_state"
  using replay_append [of TP zero_hash genesis_state "[first_transfer]" "[second_transfer]" 1 None True]
  by (simp add: replay_first_transfer replay_second_transfer)

definition first_checkpoint :: checkpoint_core where
  "first_checkpoint = result_or (core_of_state TP [] [] genesis_state None 0)
     (checkpoint_core_from_state TP zero_hash zero_hash first_state None 1)"

lemma make_first_checkpoint:
  "checkpoint_core_from_state TP zero_hash zero_hash first_state None 1 = Inr first_checkpoint"
  unfolding first_checkpoint_def
  by (rule result_or_Inr, rule checkpoint_progress)
    (simp_all add: first_state_fields state_fits_def MAX_UVARINT_def)

lemma first_checkpoint_shape [simp]: "checkpoint_core_shape first_checkpoint"
proof -
  from first_link obtain h where h: "transfer_hash TP first_transfer = Inr h"
      "first_state = state_after genesis_state first_transfer h" by (auto simp: link_def)
  have "st_last_transfer_hash first_state = h" unfolding h(2) by (simp add: state_after_def)
  then have "hash_text (st_last_transfer_hash first_state)" using transfer_hash_text [OF toy_hash_ok h(1)] by simp
  moreover have "hash_text (cp_checkpoint_hash first_checkpoint)"
    using checkpoint_hash_text [OF toy_hash_ok checkpoint_from_state_valid(2) [OF toy_hash_ok make_first_checkpoint]] .
  moreover have "hash_text (lower zero_hash)" by simp
  ultimately show ?thesis
    by (simp add: checkpoint_core_shape_def checkpoint_from_state_fields [OF make_first_checkpoint] opt_hash_text_def)
qed

definition sample_genesis_ref :: genesis_ref where
  "sample_genesis_ref = \<lparr>gr_type = GENESIS_REF_TYPE, gr_version = VERSION, gr_network_id = 1,
     gr_genesis_hash = zero_hash, gr_manifest_hash = None, gr_issuer_key_id = None,
     gr_issue_index = 1, gr_issued_at = 0\<rparr>"

lemma sample_genesis_ref_ok [simp]: "genesis_ref_ok TP sample_genesis_ref"
proof -
  have "trusted_genesis_manifest_hashes TP = {}" by (simp add: trusted_genesis_manifest_hashes_def toy_platform_def)
  then show ?thesis by (simp add: genesis_ref_ok_def genesis_trust_iff sample_genesis_ref_def)
qed

section \<open>Their texts are canonical\<close>

lemma encode_sample_transfer: "\<exists>bs. encode_transfer TP first_transfer True = Inr bs"
  using first_link by (auto simp: link_def transfer_hash_Inr_iff transfer_preimage_def bindE_Inr_iff)

lemma first_transfer_signed: "authorised TP True first_transfer"
  using first_link by (simp add: link_def)

lemma first_transfer_metadata: "tr_metadata first_transfer = JDict []"
  using create_transfer_parts(1) [OF create_first_transfer] by (simp add: metadata_or_empty_def)

lemma first_transfer_signature: "signature_text (tr_signature first_transfer)"
proof -
  from create_transfer_parts(2) [OF create_first_transfer] obtain sig where "tr_signature first_transfer = hex_text sig" ..
  moreover from this have "length sig = 64" using authorised_signature_length [OF first_transfer_signed] by simp
  ultimately show ?thesis by (auto simp: signature_text_def)
qed

lemma first_transfer_fields:
  "tr_recipient_address first_transfer = key_address seed_b" "tr_sender_address first_transfer = key_address seed_a"
  "tr_sequence first_transfer = 1" "tr_previous_hash first_transfer = zero_hash"
  "tr_token_id first_transfer = zero_hash" "tr_sender_public_key first_transfer = public_key_text seed_a"
  "tr_network_id first_transfer = 1"
  using create_transfer_fields [OF create_first_transfer] by (simp_all add: genesis_state_def)

lemma first_transfer_texts [simp]: "transfer_texts True first_transfer"
  using first_transfer_signature
  by (auto simp: transfer_texts_def first_transfer_fields first_transfer_metadata key_text_def intro: seed_lengths)

lemma first_transfer_unsigned_texts [simp]: "transfer_texts False (unsigned_transfer first_transfer)"
  using first_transfer_texts by (simp add: transfer_texts_def unsigned_transfer_def)

lemma first_signing_preimage: "\<exists>m. transfer_signing_preimage TP first_transfer = Inr m"
  using first_transfer_signed by (auto simp: authorised_def)

lemma first_spend_key_wf [simp]: "json_wf (spend_key_material first_transfer)"
  by (rule spend_key_material_wf [of _ TP]) (simp_all add: first_transfer_fields key_address_ok)

section \<open>A second spend of the same state\<close>

text \<open>Its metadata has two keys, in an order that is not the canonical one; \<open>sorted_transfer\<close> has them sorted.\<close>

definition two_keys :: json where "two_keys = JDict [(''b'', JInt 2), (''a'', JInt 1)]"

lemma two_keys_facts [simp]: "metadata_ok two_keys" "json_wf two_keys" "json_truthy two_keys"
  "norm two_keys = JDict [(''a'', JInt 1), (''b'', JInt 2)]"
proof -
  have "is_ascii ''a''" "is_ascii ''b''" by (simp_all add: is_ascii_def code_def)
  then show "json_wf two_keys" by (simp add: two_keys_def)
  show "json_truthy two_keys" by (simp add: two_keys_def)
  show "norm two_keys = JDict [(''a'', JInt 1), (''b'', JInt 2)]" by (simp add: two_keys_def)
  have "canonical_json two_keys = Inr (dumps two_keys)"
    by (simp add: two_keys_def canonical_json_def bindE_Inr_iff utf8_length_def encodable_def surrogate_def code_def
        MAX_JSON_STRING_BYTES_def MAX_JSON_OBJECT_KEYS_def MAX_JSON_INTEGER_ABS_def MAX_JSON_DEPTH_def del: dumps.simps)
  moreover have "length (nat_text 1) = 1" "length (nat_text 2) = 1" by (simp_all add: nat_text.simps)
  then have "length (dumps two_keys) \<le> MAX_TRANSFER_METADATA_BYTES"
    by (simp add: two_keys_def MAX_TRANSFER_METADATA_BYTES_def quote_text_def escape_cp_def code_def int_text_def)
  moreover have "\<exists>kvs. two_keys = JDict kvs" by (simp add: two_keys_def)
  ultimately show "metadata_ok two_keys" unfolding metadata_ok_def by blast
qed

lemma double_transfer_exists:
  "\<exists>t. create_transfer_from_state TP zero_hash genesis_state (private_key_text seed_a) (public_key_text seed_a)
     (key_address seed_a) (Some two_keys) None 1 True = Inr t"
  using create_transfer_progress [of TP genesis_state seed_a zero_hash "key_address seed_a" "Some two_keys" 1 True]
  by (simp add: key_address_ok is_ok_iff MAX_UVARINT_def metadata_or_empty_def
      genesis_state_def [THEN arg_cong [where f = st_owner_address]]
      genesis_state_def [THEN arg_cong [where f = st_sequence]]
      genesis_state_def [THEN arg_cong [where f = st_last_transfer_timestamp]] MAX_TRANSFER_FUTURE_SKEW_SECONDS_def)

definition double_transfer :: transfer where
  "double_transfer = result_or blank_transfer (create_transfer_from_state TP zero_hash genesis_state
     (private_key_text seed_a) (public_key_text seed_a) (key_address seed_a) (Some two_keys) None 1 True)"

lemma create_double_transfer: "create_transfer_from_state TP zero_hash genesis_state (private_key_text seed_a)
    (public_key_text seed_a) (key_address seed_a) (Some two_keys) None 1 True = Inr double_transfer"
  unfolding double_transfer_def by (rule result_or_Inr [OF double_transfer_exists])

lemma double_transfer_fields:
  "tr_sender_address double_transfer = key_address seed_a" "tr_sequence double_transfer = 1"
  "tr_previous_hash double_transfer = zero_hash" "tr_token_id double_transfer = zero_hash"
  "tr_sender_public_key double_transfer = public_key_text seed_a" "tr_network_id double_transfer = 1"
  "tr_recipient_address double_transfer = key_address seed_a" "tr_metadata double_transfer = two_keys"
  using create_transfer_fields [OF create_double_transfer] create_transfer_parts [OF create_double_transfer]
  by (simp_all add: genesis_state_def metadata_or_empty_def)

definition sorted_transfer :: transfer where "sorted_transfer = norm_transfer double_transfer"

lemma sorted_transfer_differs: "sorted_transfer \<noteq> double_transfer"
proof
  assume "sorted_transfer = double_transfer"
  from arg_cong [OF this, of tr_metadata] have "norm two_keys = two_keys"
    by (simp add: sorted_transfer_def norm_transfer_def double_transfer_fields del: two_keys_facts norm.simps)
  then show False by (simp add: two_keys_def)
qed

lemma double_replays: "\<exists>s'. replay_transfer_sequence TP zero_hash genesis_state [double_transfer] 1 None True = Inr s'"
  using create_transfer_replays [OF create_double_transfer first_transfer_limit] by blast

lemma double_link: "\<exists>s'. link TP zero_hash 1 None True genesis_state double_transfer s'"
  using double_replays by (auto simp: replay_iff_chain chain_Cons_iff)

lemma double_transfer_texts [simp]: "transfer_texts True double_transfer" "transfer_texts True sorted_transfer"
proof -
  from create_transfer_parts(2) [OF create_double_transfer] obtain sig where
    sig: "tr_signature double_transfer = hex_text sig" ..
  moreover have "authorised TP True double_transfer" using double_link by (auto simp: link_def)
  ultimately have "length sig = 64" using authorised_signature_length [of TP double_transfer] by simp
  with sig have "signature_text (tr_signature double_transfer)" by (auto simp: signature_text_def)
  then show "transfer_texts True double_transfer"
    by (auto simp: transfer_texts_def double_transfer_fields key_text_def intro: seed_lengths)
  then show "transfer_texts True sorted_transfer"
    by (simp add: transfer_texts_def sorted_transfer_def norm_transfer_def json_wf_norm del: norm.simps)
qed

lemma double_unsigned_texts [simp]: "transfer_texts False (unsigned_transfer double_transfer)"
  "transfer_texts False (unsigned_transfer sorted_transfer)"
  using double_transfer_texts by (simp_all add: transfer_texts_def unsigned_transfer_def)

lemma sorted_same_encoding: "\<exists>bs. encode_transfer TP double_transfer True = Inr bs \<and> encode_transfer TP sorted_transfer True = Inr bs"
  using double_link encode_transfer_norm
  by (fastforce simp: sorted_transfer_def link_def transfer_hash_Inr_iff transfer_preimage_def bindE_Inr_iff)

lemma sorted_same_preimage: "\<exists>m. transfer_preimage TP double_transfer = Inr m \<and> transfer_preimage TP sorted_transfer = Inr m"
  using double_link sorted_same_encoding
  by (fastforce simp: link_def transfer_hash_Inr_iff transfer_preimage_def)

lemma sorted_same_signing: "\<exists>m. transfer_signing_preimage TP double_transfer = Inr m \<and> transfer_signing_preimage TP sorted_transfer = Inr m"
proof -
  from double_link obtain m where m: "transfer_signing_preimage TP double_transfer = Inr m"
    by (auto simp: link_def authorised_def)
  then obtain b where "encode_transfer TP double_transfer False = Inr b" by (auto simp: transfer_signing_preimage_def bindE_Inr_iff)
  with encode_transfer_norm [OF this] m show ?thesis
    by (simp add: transfer_signing_preimage_def sorted_transfer_def) (simp add: norm_transfer_def)
qed

lemma same_spend_key: "\<exists>m. spend_key_preimage first_transfer = Inr m \<and> spend_key_preimage double_transfer = Inr m"
proof -
  have "spend_key_material first_transfer = spend_key_material double_transfer"
    by (simp add: spend_key_material_def first_transfer_fields double_transfer_fields)
  moreover have "is_ok (spend_key_preimage first_transfer)"
    by (rule spend_key_is_ok [of _ TP]) (simp_all add: first_transfer_fields key_address_ok MAX_JSON_INTEGER_ABS_def)
  ultimately show ?thesis by (auto simp: spend_key_preimage_def is_ok_iff)
qed

end
