(* ===== verification/Repeated.thy ===== *)
theory Repeated
  imports Envelope
begin

text \<open>
  Fields that repeat: \<open>[read_item(reader) for _ in range(count)]\<close> as a decoder, and the two codec
  judgements for it. The typed headers of the modules that have an envelope of their own
  (\<open>spend_map_v3\<close>, \<open>archive_segment_v3\<close>, \<open>proof_bundle_v3\<close>), which differ in the exception they raise,
  and the interface \<open>object_codec\<close> of the objects behind them.
\<close>

primrec read_many :: "'a parser \<Rightarrow> nat \<Rightarrow> 'a list parser" where
  "read_many p 0 = rreturn []"
| "read_many p (Suc n) = rbind p (\<lambda>x. rbind (read_many p n) (\<lambda>xs. rreturn (x # xs)))"

lemma reads_many:
  assumes "joinE (map enc xs) = Inr bs" and "\<And>x b. x \<in> set xs \<Longrightarrow> enc x = Inr b \<Longrightarrow> reads p b x"
  shows "reads (read_many p (length xs)) bs xs"
  using assms
proof (induction xs arbitrary: bs)
  case Nil
  then show ?case by (simp add: reads_return)
next
  case (Cons x xs)
  from Cons.prems(1) obtain b c where b: "enc x = Inr b" "joinE (map enc xs) = Inr c" "bs = b @ c @ []"
    by (auto simp: bindE_Inr_iff)
  have x: "reads p b x" by (rule Cons.prems(2) [OF _ b(1)]) simp
  have xs: "reads (read_many p (length xs)) c xs" by (rule Cons.IH [OF b(2)]) (rule Cons.prems(2), simp_all)
  show ?case
    unfolding b(3) list.size read_many.simps add_0_right add_Suc_right
    by (rule reads_bind [OF x], rule reads_bind [OF xs], rule reads_return)
qed

lemma accepts_many:
  assumes "accepts p (\<lambda>bs x. Q x \<and> enc x = Inr bs)"
  shows "accepts (read_many p n) (\<lambda>bs xs. length xs = n \<and> (\<forall>x \<in> set xs. Q x) \<and> joinE (map enc xs) = Inr bs)"
proof (induction n)
  case 0
  then show ?case by (simp add: accepts_returnI)
next
  case (Suc n)
  show ?case
    unfolding read_many.simps
    by (rule accepts_bindI [OF assms], rule accepts_bindI [OF Suc], rule accepts_returnI) auto
qed


section \<open>Typed headers\<close>

definition read_header :: "(string \<Rightarrow> error) \<Rightarrow> bytes \<Rightarrow> string \<Rightarrow> string \<Rightarrow> int parser" where
  "read_header err magic magic_label label =
     rbind (reader_read (int (length magic)) magic_label) (\<lambda>actual.
     if actual \<noteq> magic then rlift (Inl (err (''invalid '' @ label @ '' magic'')))
     else rbind (read_uvarint (label @ '' version'')) (\<lambda>version.
     if version \<noteq> VERSION then rlift (Inl (err (''unsupported '' @ label @ '' version'')))
     else read_uvarint (label @ '' network id'')))"

lemma reads_header:
  assumes "encode_uvarint n = Inr e" and "length magic = 8"
  shows "reads (read_header err magic ml label) (magic @ uvarint_loop 3 @ e) n"
proof -
  have v: "reads (read_uvarint (label @ '' version'')) (uvarint_loop 3) VERSION"
    by (rule reads_uvarint_enc) (simp add: res_simps VERSION_def)
  have m: "reads (reader_read (int (length magic)) ml) magic magic"
    using assms(2) by (intro reads_read) simp_all
  show ?thesis
    unfolding read_header_def
    by (rule reads_bind [OF m], subst if_not_P, simp, rule reads_bind [OF v], subst if_not_P, simp)
      (rule reads_uvarint_enc [OF assms(1)])
qed

lemma accepts_header:
  "accepts (read_header err magic ml label) (\<lambda>bs n. \<exists>e. encode_uvarint n = Inr e \<and> bs = magic @ uvarint_loop 3 @ e)"
  unfolding read_header_def
proof (rule accepts_bindI [OF accepts_read], rule accepts_if, rule accepts_failI,
    rule accepts_bindI [OF accepts_uvarint], rule accepts_if, rule accepts_failI,
    rule accepts_weaken [OF accepts_uvarint])
qed (auto simp: res_simps VERSION_def)

locale object_codec =
  fixes err :: "string \<Rightarrow> error" and magic :: bytes and magic_label :: string and label :: string
    and nid :: "'a \<Rightarrow> int" and valid :: "'a \<Rightarrow> bool" and enc :: "'a \<Rightarrow> bytes res" and rd :: "int \<Rightarrow> 'a parser"
  assumes magic_length: "length magic = 8"
    and body_reads: "valid x \<Longrightarrow> enc x = Inr bs \<Longrightarrow> reads (rd (nid x)) bs x"
begin

lemma decode_encode:
  assumes "valid x" and "bindE (enc x) (encode_envelope magic (nid x)) = Inr bs"
  shows "decode_all bs (rbind (read_header err magic magic_label label) rd) = Inr x"
proof -
  from assms(2) obtain b e where b: "enc x = Inr b" "encode_uvarint (nid x) = Inr e"
    "bs = (magic @ uvarint_loop 3 @ e) @ b" by (auto simp: res_simps)
  have "reads (rbind (read_header err magic magic_label label) rd) bs x"
    unfolding b(3) by (rule reads_bind [where f = rd, OF reads_header [OF b(2) magic_length] body_reads [OF assms(1) b(1)]])
  then show ?thesis by (rule reads_decode_all)
qed

lemma encode_inject:
  assumes "valid x" "valid y" "bindE (enc x) (encode_envelope magic (nid x)) = Inr bs"
    "bindE (enc y) (encode_envelope magic (nid y)) = Inr bs"
  shows "x = y"
  using decode_encode [OF assms(1,3)] decode_encode [OF assms(2,4)] by simp

end

locale canonical_object_codec = object_codec +
  assumes body_accepts: "accepts (rd n) (\<lambda>bs x. valid x \<and> nid x = n \<and> enc x = Inr bs)"
begin

lemma encode_decode:
  assumes "decode_all bs (rbind (read_header err magic magic_label label) rd) = Inr x"
  shows "valid x \<and> bindE (enc x) (encode_envelope magic (nid x)) = Inr bs"
proof -
  have "accepts (rbind (read_header err magic magic_label label) rd)
      (\<lambda>bs x. \<exists>e b. encode_uvarint (nid x) = Inr e \<and> bs = magic @ uvarint_loop 3 @ e @ b
        \<and> valid x \<and> enc x = Inr b)"
    by (rule accepts_bindI [OF accepts_header]) (rule accepts_weaken [OF body_accepts], auto)
  from accepts_decode_all [OF this assms] show ?thesis by (auto simp: res_simps)
qed

lemma decode_iff: "decode_all bs (rbind (read_header err magic magic_label label) rd) = Inr x \<longleftrightarrow>
    valid x \<and> bindE (enc x) (encode_envelope magic (nid x)) = Inr bs"
  using encode_decode decode_encode by blast

end

end
