(* ===== verification/ArchiveSegment.thy ===== *)
theory ArchiveSegment
  imports CreateTransfer Repeated
begin

text \<open>
  Archive segments (\<open>src/ind/archive_segment_v3.py\<close>): a run of signed transfers with the state it
  starts from, hashed as one object and linked to the segment before it. Verification walks back to
  the genesis state through resolvers; its fuel is the depth of Python's recursion.
\<close>

definition ARCHIVE_SEGMENT_TYPE :: string where "ARCHIVE_SEGMENT_TYPE = ''ind.archive_segment.v3''"
definition ARCHIVE_SEGMENT_VERSION :: int where "ARCHIVE_SEGMENT_VERSION = 3"
definition ARCHIVE_SEGMENT_MAGIC :: bytes where "ARCHIVE_SEGMENT_MAGIC = utf8 ''IND3ARCH''"

record archive_segment =
  ar_type :: string
  ar_version :: int
  ar_network_id :: int
  ar_token_id :: string
  ar_value :: int
  ar_display_id :: string
  ar_genesis_ref :: genesis_ref
  ar_base_state :: bill_state
  ar_start_sequence :: int
  ar_end_sequence :: int
  ar_previous_segment_hash :: "string option"
  ar_previous_checkpoint_hash :: "string option"
  ar_checkpoint_hash :: string
  ar_transfer_count :: int
  ar_transfers :: "transfer list"
  ar_segment_hash :: string

definition archive_require_int :: "int \<Rightarrow> string \<Rightarrow> int \<Rightarrow> int res" where
  "archive_require_int v label minimum =
     (if v < minimum then Inl (ArchiveSegmentV3Error (label @ '' is below the allowed range'')) else Inr v)"

definition archive_hex32 :: "string \<Rightarrow> string \<Rightarrow> string res" where
  "archive_hex32 v label =
     (if length v \<noteq> 64 then Inl (ArchiveSegmentV3Error (''invalid '' @ label))
      else case fromhex v of None \<Rightarrow> Inl (ArchiveSegmentV3Error (''invalid '' @ label)) | Some _ \<Rightarrow> Inr (lower v))"

section \<open>Encoding and hash\<close>

text \<open>The fields of a body, the self-hash last.\<close>

definition archive_bytes :: "platform \<Rightarrow> archive_segment \<Rightarrow> bytes res" where
  "archive_bytes P s = joinE
     [encode_hash_hex (ar_token_id s), encode_uvarint (ar_value s), encode_ascii 64 (ar_display_id s),
      encode_genesis_ref_body P (ar_genesis_ref s), encode_base_state_body P (ar_base_state s),
      encode_uvarint (ar_start_sequence s), encode_uvarint (ar_end_sequence s),
      encode_hash_hex_nullable (ar_previous_segment_hash s), encode_hash_hex_nullable (ar_previous_checkpoint_hash s),
      encode_hash_hex (ar_checkpoint_hash s), encode_uvarint (ar_transfer_count s),
      joinE (map (\<lambda>t. encode_transfer_body P t True) (ar_transfers s)),
      encode_hash_hex (ar_segment_hash s)]"

definition encode_archive_segment_body :: "platform \<Rightarrow> archive_segment \<Rightarrow> bool \<Rightarrow> bytes res" where
  "encode_archive_segment_body P segment include_hash =
     bindE (archive_require_int (ar_network_id segment) ''archive segment network id'' 0) (\<lambda>_.
     if ar_transfer_count segment \<noteq> int (length (ar_transfers segment))
     then Inl (ArchiveSegmentV3Error ''archive segment transfer count mismatch'')
     else archive_bytes P (if include_hash then segment else segment\<lparr>ar_segment_hash := zero_hash\<rparr>))"

definition decode_archive_segment_body :: "platform \<Rightarrow> int \<Rightarrow> archive_segment parser" where
  "decode_archive_segment_body P network_id =
     rbind (read_hash_hex ''archive segment token id'') (\<lambda>token_id.
     rbind (read_uvarint ''archive segment value'') (\<lambda>v.
     rbind (read_ascii ''archive segment display id'' 64) (\<lambda>display_id.
     rbind (decode_genesis_ref_body network_id) (\<lambda>genesis.
     rbind decode_base_state_body (\<lambda>base.
     rbind (read_uvarint ''archive segment start sequence'') (\<lambda>start.
     rbind (read_uvarint ''archive segment end sequence'') (\<lambda>end_sequence.
     rbind (read_nullable_hash_hex ''previous archive segment hash'') (\<lambda>psh.
     rbind (read_nullable_hash_hex ''previous checkpoint hash'') (\<lambda>pch.
     rbind (read_hash_hex ''archive segment checkpoint hash'') (\<lambda>ch.
     rbind (read_uvarint ''archive segment transfer count'') (\<lambda>count.
     rbind (read_many (decode_transfer_body P True network_id) (nat count)) (\<lambda>transfers.
     rbind (read_hash_hex ''archive segment hash'') (\<lambda>h.
     rreturn \<lparr>ar_type = ARCHIVE_SEGMENT_TYPE, ar_version = ARCHIVE_SEGMENT_VERSION, ar_network_id = network_id,
       ar_token_id = token_id, ar_value = v, ar_display_id = display_id, ar_genesis_ref = genesis,
       ar_base_state = base, ar_start_sequence = start, ar_end_sequence = end_sequence,
       ar_previous_segment_hash = psh, ar_previous_checkpoint_hash = pch, ar_checkpoint_hash = ch,
       ar_transfer_count = int (length transfers), ar_transfers = transfers, ar_segment_hash = h\<rparr>)))))))))))))"

definition encode_archive_segment :: "platform \<Rightarrow> archive_segment \<Rightarrow> bool \<Rightarrow> bytes res" where
  "encode_archive_segment P segment include_hash =
     bindE (archive_require_int (ar_network_id segment) ''archive segment network id'' 0) (\<lambda>n.
     bindE (encode_archive_segment_body P segment include_hash) (encode_envelope ARCHIVE_SEGMENT_MAGIC n))"

definition decode_archive_segment :: "platform \<Rightarrow> bytes \<Rightarrow> archive_segment res" where
  "decode_archive_segment P data =
     decode_all data (rbind (read_header ArchiveSegmentV3Error ARCHIVE_SEGMENT_MAGIC
       ''archive segment magic'' ''archive segment'') (decode_archive_segment_body P))"

definition archive_segment_hash :: "platform \<Rightarrow> archive_segment \<Rightarrow> string res" where
  "archive_segment_hash P segment =
     bindE (encode_archive_segment P segment False) (\<lambda>b.
     bindE (object_hash P ARCHIVE_SEGMENT_TYPE b) (\<lambda>h. Inr (hex_text h)))"

definition finalize_archive_segment :: "platform \<Rightarrow> archive_segment \<Rightarrow> archive_segment res" where
  "finalize_archive_segment P segment =
     bindE (archive_segment_hash P segment) (\<lambda>h. Inr (segment\<lparr>ar_segment_hash := h\<rparr>))"

section \<open>Making a segment\<close>

definition make_archive_segment ::
    "platform \<Rightarrow> string \<Rightarrow> genesis_ref \<Rightarrow> bill_state \<Rightarrow> transfer list \<Rightarrow> string option \<Rightarrow> string option \<Rightarrow> int
      \<Rightarrow> archive_segment res" where
  "make_archive_segment P token_id genesis base transfers previous_segment_hash previous_checkpoint_hash network_id =
     (if transfers = [] then Inl (ArchiveSegmentV3Error ''archive segment requires at least one transfer'')
      else if previous_segment_hash = None \<and> previous_checkpoint_hash \<noteq> None
      then Inl (ArchiveSegmentV3Error ''previous checkpoint requires a previous segment'')
      else if previous_segment_hash \<noteq> None \<and> previous_checkpoint_hash = None
      then Inl (ArchiveSegmentV3Error ''previous segment requires a previous checkpoint'')
      else bindE (validate_genesis_ref P genesis network_id) (\<lambda>_.
      bindE (verify_transfer_sequence_from_state P token_id base transfers network_id None) (\<lambda>final.
      bindE (validate_display_id_issue_index P (st_display_id final) (st_value final) (gr_issue_index genesis)
        ''archive segment display id'') (\<lambda>_.
      bindE (checkpoint_core_from_state P token_id (gr_genesis_hash genesis) final previous_checkpoint_hash network_id) (\<lambda>core.
      finalize_archive_segment P
        \<lparr>ar_type = ARCHIVE_SEGMENT_TYPE, ar_version = ARCHIVE_SEGMENT_VERSION, ar_network_id = network_id,
         ar_token_id = token_id, ar_value = st_value final, ar_display_id = st_display_id final,
         ar_genesis_ref = genesis, ar_base_state = base, ar_start_sequence = st_sequence base + 1,
         ar_end_sequence = st_sequence final, ar_previous_segment_hash = previous_segment_hash,
         ar_previous_checkpoint_hash = previous_checkpoint_hash, ar_checkpoint_hash = cp_checkpoint_hash core,
         ar_transfer_count = int (length transfers), ar_transfers = transfers, ar_segment_hash = []\<rparr>)))))"

section \<open>Verification\<close>

definition validate_archive_header :: "platform \<Rightarrow> archive_segment \<Rightarrow> int option \<Rightarrow> int res" where
  "validate_archive_header P s expected_network_id =
     (if ar_type s \<noteq> ARCHIVE_SEGMENT_TYPE then Inl (ArchiveSegmentV3Error ''malformed archive segment'')
      else if ar_version s \<noteq> ARCHIVE_SEGMENT_VERSION
      then Inl (ArchiveSegmentV3Error ''unsupported archive segment version'')
      else bindE (archive_require_int (ar_network_id s) ''archive segment network id'' 0) (\<lambda>n.
      if (case expected_network_id of None \<Rightarrow> False | Some e \<Rightarrow> n \<noteq> e)
      then Inl (ArchiveSegmentV3Error ''archive segment network id mismatch'')
      else bindE (archive_hex32 (ar_token_id s) ''archive segment token id'') (\<lambda>_.
      bindE (archive_require_int (ar_value s) ''archive segment value'' 1) (\<lambda>_.
      bindE (opt_check (\<lambda>h. archive_hex32 h ''previous archive segment hash'') (ar_previous_segment_hash s)) (\<lambda>_.
      bindE (opt_check (\<lambda>h. archive_hex32 h ''previous checkpoint hash'') (ar_previous_checkpoint_hash s)) (\<lambda>_.
      bindE (archive_hex32 (ar_checkpoint_hash s) ''archive segment checkpoint hash'') (\<lambda>_.
      bindE (archive_require_int (ar_start_sequence s) ''archive segment start sequence'' 1) (\<lambda>_.
      bindE (archive_require_int (ar_end_sequence s) ''archive segment end sequence'' 1) (\<lambda>_.
      if ar_end_sequence s < ar_start_sequence s
      then Inl (ArchiveSegmentV3Error ''archive segment sequence range is invalid'')
      else bindE (archive_require_int (ar_transfer_count s) ''archive segment transfer count'' 1) (\<lambda>c.
      if c \<noteq> int (length (ar_transfers s))
      then Inl (ArchiveSegmentV3Error ''archive segment transfer count mismatch'')
      else bindE (archive_segment_hash P s) (\<lambda>h.
      if ar_segment_hash s \<noteq> h then Inl (ArchiveSegmentV3Error ''archive segment hash mismatch'')
      else Inr n)))))))))))"

definition state_from_checkpoint_core :: "checkpoint_core \<Rightarrow> bill_state" where
  "state_from_checkpoint_core core =
     \<lparr>st_sequence = cp_sequence core, st_owner_address = cp_owner_address core,
      st_last_transfer_hash = cp_last_transfer_hash core,
      st_last_transfer_timestamp = cp_last_transfer_timestamp core,
      st_last_transfer_day = cp_last_transfer_day core,
      st_transfers_in_last_day = cp_transfers_in_last_day core,
      st_display_id = cp_display_id core, st_value = cp_value core\<rparr>"

text \<open>The optional resolver arguments; a resolver may itself find nothing.\<close>

record archive_resolvers =
  rs_segment :: "(string \<Rightarrow> archive_segment option) option"
  rs_checkpoint :: "(string option \<Rightarrow> checkpoint_core option) option"

definition resolve_previous :: "archive_resolvers \<Rightarrow> archive_segment \<Rightarrow> archive_segment option \<Rightarrow> archive_segment option" where
  "resolve_previous R segment previous_segment =
     (case (ar_previous_segment_hash segment, previous_segment, rs_segment R) of
        (Some h, None, Some resolver) \<Rightarrow> resolver h
      | _ \<Rightarrow> previous_segment)"

text \<open>The checkpoint a segment continues; \<open>verify\<close> is the recursive call.\<close>

definition previous_core ::
    "platform \<Rightarrow> (archive_segment \<Rightarrow> checkpoint_core res) \<Rightarrow> archive_resolvers \<Rightarrow> archive_segment \<Rightarrow> int
      \<Rightarrow> string \<Rightarrow> archive_segment option \<Rightarrow> checkpoint_core res" where
  "previous_core P verify R segment network_id h previous_segment =
     (case previous_segment of
        Some p \<Rightarrow> bindE (verify p) (\<lambda>core.
          bindE (archive_segment_hash P p) (\<lambda>ph.
          if h \<noteq> ph then Inl (ArchiveSegmentV3Error ''previous archive segment hash mismatch'')
          else if ar_previous_checkpoint_hash segment \<noteq> Some (cp_checkpoint_hash core)
          then Inl (ArchiveSegmentV3Error ''previous checkpoint hash mismatch'')
          else Inr core))
      | None \<Rightarrow> (case rs_checkpoint R of
          None \<Rightarrow> Inl (ArchiveSegmentV3Error ''previous archive segment resolver is required'')
        | Some resolver \<Rightarrow> (case resolver (ar_previous_checkpoint_hash segment) of
            None \<Rightarrow> Inl (ArchiveSegmentV3Error ''previous checkpoint is required'')
          | Some core \<Rightarrow> bindE (validate_checkpoint_core P core network_id) (\<lambda>_.
              if ar_previous_checkpoint_hash segment \<noteq> Some (cp_checkpoint_hash core)
              then Inl (ArchiveSegmentV3Error ''previous checkpoint hash mismatch'')
              else Inr core))))"

definition check_segment_base ::
    "platform \<Rightarrow> (archive_segment \<Rightarrow> checkpoint_core res) \<Rightarrow> archive_resolvers \<Rightarrow> archive_segment \<Rightarrow> int
      \<Rightarrow> archive_segment option \<Rightarrow> unit res" where
  "check_segment_base P verify R segment network_id previous_segment =
     (case ar_previous_segment_hash segment of
        Some h \<Rightarrow> bindE (previous_core P verify R segment network_id h (resolve_previous R segment previous_segment)) (\<lambda>core.
          if ar_base_state segment \<noteq> state_from_checkpoint_core core
          then Inl (ArchiveSegmentV3Error ''archive segment does not connect to previous segment'') else Inr ())
      | None \<Rightarrow>
          if ar_previous_checkpoint_hash segment \<noteq> None
          then Inl (ArchiveSegmentV3Error ''genesis archive segment cannot have previous checkpoint'')
          else if st_sequence (ar_base_state segment) \<noteq> 0
          then Inl (ArchiveSegmentV3Error ''archive segment without previous segment must start at genesis'')
          else if st_last_transfer_hash (ar_base_state segment) \<noteq> gr_genesis_hash (ar_genesis_ref segment)
          then Inl (ArchiveSegmentV3Error ''archive segment genesis base hash mismatch'') else Inr ())"

fun verify_archive_segment ::
    "nat \<Rightarrow> platform \<Rightarrow> archive_segment \<Rightarrow> int option \<Rightarrow> archive_segment option \<Rightarrow> archive_resolvers \<Rightarrow> int option
      \<Rightarrow> checkpoint_core res" where
  "verify_archive_segment 0 P segment expected_network_id previous_segment R now =
     Inl (PyValueError ''maximum recursion depth exceeded'')"
| "verify_archive_segment (Suc depth) P segment expected_network_id previous_segment R now =
     bindE (validate_archive_header P segment expected_network_id) (\<lambda>network_id.
     bindE (validate_genesis_ref P (ar_genesis_ref segment) network_id) (\<lambda>_.
     bindE (validate_display_id_issue_index P (ar_display_id segment) (ar_value segment)
       (gr_issue_index (ar_genesis_ref segment)) ''archive segment display id'') (\<lambda>_.
     bindE (check_segment_base P (\<lambda>p. verify_archive_segment depth P p (Some network_id) None R now)
       R segment network_id previous_segment) (\<lambda>_.
     if ar_start_sequence segment \<noteq> st_sequence (ar_base_state segment) + 1
     then Inl (ArchiveSegmentV3Error ''archive segment start sequence mismatch'')
     else bindE (verify_transfer_sequence_from_state P (ar_token_id segment) (ar_base_state segment)
       (ar_transfers segment) network_id now) (\<lambda>final.
     if st_sequence final \<noteq> ar_end_sequence segment
     then Inl (ArchiveSegmentV3Error ''archive segment end sequence mismatch'')
     else if st_value final \<noteq> ar_value segment
     then Inl (ArchiveSegmentV3Error ''archive segment value mismatch'')
     else if st_display_id final \<noteq> ar_display_id segment
     then Inl (ArchiveSegmentV3Error ''archive segment display id mismatch'')
     else bindE (checkpoint_core_from_state P (ar_token_id segment) (gr_genesis_hash (ar_genesis_ref segment))
       final (ar_previous_checkpoint_hash segment) network_id) (\<lambda>core.
     if cp_checkpoint_hash core \<noteq> ar_checkpoint_hash segment
     then Inl (ArchiveSegmentV3Error ''archive segment checkpoint hash mismatch'')
     else Inr core))))))"


section \<open>The codec\<close>

definition archive_shape :: "archive_segment \<Rightarrow> bool" where
  "archive_shape s = (ar_type s = ARCHIVE_SEGMENT_TYPE \<and> ar_version s = ARCHIVE_SEGMENT_VERSION
     \<and> hash_text (ar_token_id s) \<and> genesis_ref_shape (ar_genesis_ref s) \<and> gr_network_id (ar_genesis_ref s) = ar_network_id s
     \<and> hash_text (st_last_transfer_hash (ar_base_state s))
     \<and> opt_hash_text (ar_previous_segment_hash s) \<and> opt_hash_text (ar_previous_checkpoint_hash s)
     \<and> hash_text (ar_checkpoint_hash s) \<and> hash_text (ar_segment_hash s)
     \<and> ar_transfer_count s = int (length (ar_transfers s))
     \<and> (\<forall>t \<in> set (ar_transfers s). transfer_shape True t \<and> tr_network_id t = ar_network_id s))"

lemma archive_magic_length [simp]: "length ARCHIVE_SEGMENT_MAGIC = 8"
  by (simp add: ARCHIVE_SEGMENT_MAGIC_def)

lemma archive_reads:
  assumes "archive_shape s" and "archive_bytes P s = Inr bs"
  shows "reads (decode_archive_segment_body P (ar_network_id s)) bs s"
proof -
  from assms(2) obtain b1 b2 b3 b4 b5 b6 b7 b8 b9 b10 b11 b12 b13 where
    bs: "bs = b1 @ b2 @ b3 @ b4 @ b5 @ b6 @ b7 @ b8 @ b9 @ b10 @ b11 @ b12 @ b13 @ []"
    and enc: "encode_hash_hex (ar_token_id s) = Inr b1" "encode_uvarint (ar_value s) = Inr b2"
      "encode_ascii 64 (ar_display_id s) = Inr b3"
      "encode_uvarint (ar_start_sequence s) = Inr b6" "encode_uvarint (ar_end_sequence s) = Inr b7"
      "encode_hash_hex_nullable (ar_previous_segment_hash s) = Inr b8"
      "encode_hash_hex_nullable (ar_previous_checkpoint_hash s) = Inr b9"
      "encode_hash_hex (ar_checkpoint_hash s) = Inr b10" "encode_uvarint (ar_transfer_count s) = Inr b11"
      "encode_hash_hex (ar_segment_hash s) = Inr b13"
    and g: "encode_genesis_ref_body P (ar_genesis_ref s) = Inr b4"
    and st: "encode_base_state_body P (ar_base_state s) = Inr b5"
    and ts: "joinE (map (\<lambda>t. encode_transfer_body P t True) (ar_transfers s)) = Inr b12"
    unfolding archive_bytes_def joinE_Cons_iff joinE_Nil_iff by blast
  have g': "reads (decode_genesis_ref_body (ar_network_id s)) b4 (ar_genesis_ref s)"
    using genesis_ref_reads [of "ar_genesis_ref s" b4] g assms(1)
    by (auto simp: archive_shape_def encode_genesis_ref_body_def bindE_Inr_iff)
  have st': "reads decode_base_state_body b5 (ar_base_state s)"
    using base_state_reads [of "ar_base_state s" b5] st assms(1)
    by (auto simp: archive_shape_def encode_base_state_body_def bindE_Inr_iff)
  have t: "reads (decode_transfer_body P True (ar_network_id s)) b t"
    if "t \<in> set (ar_transfers s)" "encode_transfer_body P t True = Inr b" for t b
    using transfer_reads [of True t b P] that assms(1) by (auto simp: archive_shape_def encode_transfer_body_Inr_iff)
  have ts': "reads (read_many (decode_transfer_body P True (ar_network_id s)) (nat (ar_transfer_count s))) b12 (ar_transfers s)"
    using reads_many [OF ts t] assms(1) by (simp add: archive_shape_def)
  show ?thesis
    unfolding decode_archive_segment_body_def bs
    by (intro codec_reads; (rule enc g' st' ts')?) (use assms(1) in \<open>simp_all add: archive_shape_def\<close>)
qed

interpretation archive_codec: object_codec
  ArchiveSegmentV3Error ARCHIVE_SEGMENT_MAGIC "''archive segment magic''" "''archive segment''"
  ar_network_id archive_shape "archive_bytes P" "decode_archive_segment_body P"
  by unfold_locales (simp_all add: archive_reads)

lemma archive_require_int_Inr_iff [res_simps]: "archive_require_int v l m = Inr x \<longleftrightarrow> m \<le> v \<and> x = v"
  by (auto simp: archive_require_int_def)

lemma archive_hex32_Inr_iff [res_simps]: "archive_hex32 v l = Inr x \<longleftrightarrow> hex64 v \<and> x = lower v"
  by (auto simp: archive_hex32_def hex64_def split: option.splits)

lemma encode_archive_Inr_iff: "encode_archive_segment P s h = Inr bs \<longleftrightarrow> 0 \<le> ar_network_id s
    \<and> ar_transfer_count s = int (length (ar_transfers s))
    \<and> bindE (archive_bytes P (if h then s else s\<lparr>ar_segment_hash := zero_hash\<rparr>))
        (encode_envelope ARCHIVE_SEGMENT_MAGIC (ar_network_id s)) = Inr bs"
  by (auto simp: encode_archive_segment_def encode_archive_segment_body_def bindE_Inr_iff archive_require_int_Inr_iff
      split: if_splits)

lemma decode_encode_archive:
  assumes "archive_shape s" and "encode_archive_segment P s True = Inr bs"
  shows "decode_archive_segment P bs = Inr s"
  using archive_codec.decode_encode [OF assms(1)] assms(2)
  by (simp add: decode_archive_segment_def encode_archive_Inr_iff)

lemma archive_segment_hash_Inr_iff: "archive_segment_hash P s = Inr h \<longleftrightarrow>
    (\<exists>b m. encode_archive_segment P s False = Inr b \<and> object_preimage ARCHIVE_SEGMENT_TYPE b = Inr m \<and> h = sha3_hex P m)"
  by (auto simp: archive_segment_hash_def bindE_Inr_iff object_hash_Inr_iff sha3_hex_def)

lemma archive_hash_update [simp]: "archive_segment_hash P (s\<lparr>ar_segment_hash := h\<rparr>) = archive_segment_hash P s"
  by (simp add: archive_segment_hash_def encode_archive_segment_def encode_archive_segment_body_def)

section \<open>Verification by parts\<close>

lemma state_from_core [simp]: "state_from_checkpoint_core = initial_state_from_checkpoint_core"
  by (rule ext) (simp add: state_from_checkpoint_core_def initial_state_from_checkpoint_core_def)

text \<open>What the checks of one segment amount to, apart from the state it starts from.\<close>

definition segment_ok :: "platform \<Rightarrow> int option \<Rightarrow> archive_segment \<Rightarrow> checkpoint_core \<Rightarrow> bool" where
  "segment_ok P now s core =
     (ar_start_sequence s = st_sequence (ar_base_state s) + 1
      \<and> (\<exists>final. verify_transfer_sequence_from_state P (ar_token_id s) (ar_base_state s) (ar_transfers s) (ar_network_id s) now = Inr final
           \<and> st_sequence final = ar_end_sequence s \<and> st_value final = ar_value s \<and> st_display_id final = ar_display_id s
           \<and> checkpoint_core_from_state P (ar_token_id s) (gr_genesis_hash (ar_genesis_ref s)) final
               (ar_previous_checkpoint_hash s) (ar_network_id s) = Inr core)
      \<and> cp_checkpoint_hash core = ar_checkpoint_hash s)"

lemma verify_archive_Suc:
  "verify_archive_segment (Suc d) P s (Some n) prev R now = Inr core \<longleftrightarrow>
     validate_archive_header P s (Some n) = Inr n \<and> n = ar_network_id s
     \<and> validate_genesis_ref P (ar_genesis_ref s) n = Inr ()
     \<and> valid_bill (ar_value s) (gr_issue_index (ar_genesis_ref s))
     \<and> ar_display_id s = display_text (ar_value s) (gr_issue_index (ar_genesis_ref s))
     \<and> check_segment_base P (\<lambda>p. verify_archive_segment d P p (Some n) None R now) R s n prev = Inr ()
     \<and> segment_ok P now s core"
proof -
  have n: "m = n" "n = ar_network_id s" if "validate_archive_header P s (Some n) = Inr m" for m
    using that by (auto simp: validate_archive_header_def bindE_Inr_iff archive_require_int_Inr_iff split: if_splits)
  show ?thesis
  proof (cases "validate_archive_header P s (Some n)")
    case (Inl e)
    then show ?thesis by simp
  next
    case (Inr m)
    note m = n [OF this]
    show ?thesis
      unfolding verify_archive_segment.simps Inr bindE_simps m(1) segment_ok_def
      by (auto simp: bindE_Inr_iff if_Inl_Inr_iff validate_display_id_issue_index_Inr_iff m(2))
  qed
qed

lemma verify_archive_core:
  assumes "verify_archive_segment d P s (Some n) prev R now = Inr core"
  shows "segment_ok P now s core" and "n = ar_network_id s"
  using assms by (cases d; simp add: verify_archive_Suc del: verify_archive_segment.simps(2))+

text \<open>More depth never changes a result.\<close>

lemma previous_core_Inr_iff:
  "previous_core P v R s n h prev = Inr core \<longleftrightarrow> ar_previous_checkpoint_hash s = Some (cp_checkpoint_hash core)
    \<and> (case prev of Some p \<Rightarrow> v p = Inr core \<and> archive_segment_hash P p = Inr h
       | None \<Rightarrow> \<exists>resolver. rs_checkpoint R = Some resolver \<and> resolver (ar_previous_checkpoint_hash s) = Some core
           \<and> validate_checkpoint_core P core n = Inr ())"
proof (cases prev)
  case None
  then show ?thesis by (auto simp: previous_core_def bindE_Inr_iff if_Inl_Inr_iff split: option.splits)
next
  case (Some p)
  then show ?thesis unfolding previous_core_def by (auto simp: bindE_Inr_iff if_Inl_Inr_iff)
qed

lemma previous_core_mono:
  assumes "previous_core P v R s n h prev = Inr core" and "\<And>p c. v p = Inr c \<Longrightarrow> w p = Inr c"
  shows "previous_core P w R s n h prev = Inr core"
  using assms by (auto simp: previous_core_Inr_iff split: option.splits)

lemma check_base_mono:
  assumes "check_segment_base P v R s n prev = Inr ()" and "\<And>p c. v p = Inr c \<Longrightarrow> w p = Inr c"
  shows "check_segment_base P w R s n prev = Inr ()"
proof (cases "ar_previous_segment_hash s")
  case None
  then show ?thesis using assms(1) by (simp add: check_segment_base_def)
next
  case (Some h)
  with assms(1) obtain core where "previous_core P v R s n h (resolve_previous R s prev) = Inr core"
    "ar_base_state s = state_from_checkpoint_core core"
    by (auto simp: check_segment_base_def bindE_Inr_iff split: if_splits)
  with previous_core_mono [OF this(1), of w] assms(2) Some show ?thesis by (simp add: check_segment_base_def)
qed

lemma verify_archive_depth:
  assumes "verify_archive_segment d P s (Some n) prev R now = Inr core" and "d \<le> e"
  shows "verify_archive_segment e P s (Some n) prev R now = Inr core"
  using assms
proof (induction d arbitrary: e s prev core)
  case (Suc d)
  then obtain k where e: "e = Suc k" "d \<le> k" by (cases e) auto
  from Suc.IH [OF _ e(2)] have step: "verify_archive_segment k P p (Some n) None R now = Inr c"
    if "verify_archive_segment d P p (Some n) None R now = Inr c" for p c using that by blast
  from Suc.prems(1) show ?case
    unfolding e(1) verify_archive_Suc using step by (blast intro: check_base_mono)
qed simp


section \<open>Made segments verify\<close>

lemma encode_hash_hex64: "is_ok (encode_hash_hex t) \<longleftrightarrow> hex64 t"
  by (auto simp: encode_hash_hex_def hex64_def is_ok_def split: option.splits)

lemma archive_hash_hex64:
  assumes "archive_segment_hash P s = Inr h"
  shows "hex64 (ar_token_id s)" and "\<forall>x. ar_previous_segment_hash s = Some x \<longrightarrow> hex64 x"
    and "\<forall>x. ar_previous_checkpoint_hash s = Some x \<longrightarrow> hex64 x" and "hex64 (ar_checkpoint_hash s)"
proof -
  from assms obtain b where "archive_bytes P (s\<lparr>ar_segment_hash := zero_hash\<rparr>) = Inr b"
    by (auto simp: archive_segment_hash_Inr_iff encode_archive_Inr_iff bindE_Inr_iff)
  then have "is_ok (joinE
     [encode_hash_hex (ar_token_id s), encode_uvarint (ar_value s), encode_ascii 64 (ar_display_id s),
      encode_genesis_ref_body P (ar_genesis_ref s), encode_base_state_body P (ar_base_state s),
      encode_uvarint (ar_start_sequence s), encode_uvarint (ar_end_sequence s),
      encode_hash_hex_nullable (ar_previous_segment_hash s), encode_hash_hex_nullable (ar_previous_checkpoint_hash s),
      encode_hash_hex (ar_checkpoint_hash s), encode_uvarint (ar_transfer_count s),
      joinE (map (\<lambda>t. encode_transfer_body P t True) (ar_transfers s)), encode_hash_hex zero_hash])"
    by (simp add: archive_bytes_def is_ok_iff del: joinE.simps)
  then have ok: "is_ok (encode_hash_hex (ar_token_id s))" "is_ok (encode_hash_hex_nullable (ar_previous_segment_hash s))"
    "is_ok (encode_hash_hex_nullable (ar_previous_checkpoint_hash s))" "is_ok (encode_hash_hex (ar_checkpoint_hash s))"
    unfolding joinE_ok by simp_all
  have one: "hex64 t" if "encode_hash_hex t = Inr b" for t b using encode_hash_hex64 [of t] that by simp
  have opt: "\<forall>x. v = Some x \<longrightarrow> hex64 x" if "is_ok (encode_hash_hex_nullable v)" for v
    using that one by (auto simp: encode_hash_hex_nullable_def is_ok_iff bindE_Inr_iff)
  from ok show "hex64 (ar_token_id s)" "hex64 (ar_checkpoint_hash s)" by (simp_all add: encode_hash_hex64)
  from opt [OF ok(2)] opt [OF ok(3)] show "\<forall>x. ar_previous_segment_hash s = Some x \<longrightarrow> hex64 x"
    "\<forall>x. ar_previous_checkpoint_hash s = Some x \<longrightarrow> hex64 x" .
qed

definition segment_of ::
    "string \<Rightarrow> genesis_ref \<Rightarrow> bill_state \<Rightarrow> transfer list \<Rightarrow> string option \<Rightarrow> string option \<Rightarrow> int
      \<Rightarrow> bill_state \<Rightarrow> checkpoint_core \<Rightarrow> string \<Rightarrow> archive_segment" where
  "segment_of tok g base ts psh pch n final core h =
     \<lparr>ar_type = ARCHIVE_SEGMENT_TYPE, ar_version = ARCHIVE_SEGMENT_VERSION, ar_network_id = n,
      ar_token_id = tok, ar_value = st_value final, ar_display_id = st_display_id final,
      ar_genesis_ref = g, ar_base_state = base, ar_start_sequence = st_sequence base + 1,
      ar_end_sequence = st_sequence final, ar_previous_segment_hash = psh,
      ar_previous_checkpoint_hash = pch, ar_checkpoint_hash = cp_checkpoint_hash core,
      ar_transfer_count = int (length ts), ar_transfers = ts, ar_segment_hash = h\<rparr>"

lemma segment_of_hash: "archive_segment_hash P (segment_of tok g base ts psh pch n final core h)
    = archive_segment_hash P (segment_of tok g base ts psh pch n final core [])"
  using archive_hash_update [where s = "segment_of tok g base ts psh pch n final core []" and h = h] by (simp add: segment_of_def)

lemma make_archive_Inr_iff:
  "make_archive_segment P tok g base ts psh pch n = Inr s \<longleftrightarrow> ts \<noteq> [] \<and> (psh = None \<longleftrightarrow> pch = None)
    \<and> validate_genesis_ref P g n = Inr ()
    \<and> (\<exists>final core h. verify_transfer_sequence_from_state P tok base ts n None = Inr final
        \<and> valid_bill (st_value final) (gr_issue_index g) \<and> st_display_id final = display_text (st_value final) (gr_issue_index g)
        \<and> checkpoint_core_from_state P tok (gr_genesis_hash g) final pch n = Inr core
        \<and> archive_segment_hash P s = Inr h
        \<and> s = segment_of tok g base ts psh pch n final core h)"
proof -
  have fin: "finalize_archive_segment P (segment_of tok g base ts psh pch n final core []) = Inr s \<longleftrightarrow>
      (\<exists>h. archive_segment_hash P s = Inr h \<and> s = segment_of tok g base ts psh pch n final core h)" for final core
  proof -
    have "(segment_of tok g base ts psh pch n final core [])\<lparr>ar_segment_hash := h\<rparr> = segment_of tok g base ts psh pch n final core h" for h
      by (simp add: segment_of_def)
    then show ?thesis
      unfolding finalize_archive_segment_def bindE_Inr_iff using segment_of_hash [of P tok g base ts psh pch n final core]
      by (metis sum.inject(2))
  qed
  show ?thesis
    unfolding make_archive_segment_def segment_of_def [symmetric] bindE_Inr_iff if_Inl_Inr_iff
      validate_display_id_issue_index_Inr_iff fin
    by (cases psh; cases pch) auto
qed

lemma made_segment_verifies:
  assumes "hash_ok P" and make: "make_archive_segment P tok g base ts psh pch n = Inr s"
    and base: "check_segment_base P (\<lambda>p. verify_archive_segment d P p (Some n) None R None) R s n prev = Inr ()"
  shows "\<exists>core. verify_archive_segment (Suc d) P s (Some n) prev R None = Inr core
    \<and> cp_checkpoint_hash core = ar_checkpoint_hash s \<and> cp_token_id core = tok"
proof -
  from make obtain final core h where r: "ts \<noteq> []" "validate_genesis_ref P g n = Inr ()"
    "verify_transfer_sequence_from_state P tok base ts n None = Inr final"
    "valid_bill (st_value final) (gr_issue_index g)" "st_display_id final = display_text (st_value final) (gr_issue_index g)"
    "checkpoint_core_from_state P tok (gr_genesis_hash g) final pch n = Inr core" "archive_segment_hash P s = Inr h"
    and s: "s = segment_of tok g base ts psh pch n final core h"
    unfolding make_archive_Inr_iff by blast
  from r(3) have c: "chain P tok n None True base ts final" "state_ok P base"
    by (auto simp: verify_transfer_sequence_from_state_def replay_iff_chain)
  have "st_sequence final = st_sequence base + int (length ts)" using chain_values [OF c(1)] by simp
  moreover have "1 \<le> int (length ts)" using r(1) by (cases ts) simp_all
  moreover have "0 \<le> st_sequence base" using c(2) by (simp add: state_ok_def)
  moreover have "0 < st_value final" using r(4) by (auto simp: valid_bill_def dest: allowed_pos)
  moreover have "0 \<le> n" using r(2) by (auto simp: validate_genesis_ref_def bindE_Inr_iff require_int_Inr_iff split: if_splits)
  moreover note archive_hash_hex64 [OF r(7)]
  ultimately have "validate_archive_header P s (Some n) = Inr n"
    using r(1,7) unfolding validate_archive_header_def
    by (simp add: s segment_of_def archive_require_int_def archive_hex32_Inr_iff opt_check_Inr_iff bindE_Inr_iff)
  moreover have "segment_ok P None s core" using r(3-6) by (simp add: segment_ok_def s segment_of_def)
  ultimately have "verify_archive_segment (Suc d) P s (Some n) prev R None = Inr core"
    unfolding verify_archive_Suc using r base by (simp add: s segment_of_def)
  moreover have "cp_token_id core = tok" using checkpoint_from_state_fields(2) [OF r(6)] .
  ultimately show ?thesis by (auto simp: s segment_of_def)
qed

section \<open>What a verified segment proves\<close>

text \<open>Runs of transfers replayed one after the other, each for the bill id its segment names.\<close>

definition replay_blocks :: "platform \<Rightarrow> int \<Rightarrow> int option \<Rightarrow> bill_state \<Rightarrow> (string \<times> transfer list) list \<Rightarrow> bill_state res" where
  "replay_blocks P n now = foldE (\<lambda>s (tok, ts). verify_transfer_sequence_from_state P tok s ts n now)"

definition genesis_base :: "bill_state \<Rightarrow> string \<Rightarrow> bool" where
  "genesis_base s h = (st_sequence s = 0 \<and> st_last_transfer_hash s = h)"

text \<open>
  The segments behind a verified one, oldest first: each names the hash of the one before it, the oldest
  names none and starts at the genesis hash of its genesis reference, and every genesis reference is valid.
\<close>

definition follows_segment :: "platform \<Rightarrow> archive_segment \<Rightarrow> archive_segment \<Rightarrow> bool" where
  "follows_segment P p s = (\<exists>h. archive_segment_hash P p = Inr h \<and> ar_previous_segment_hash s = Some h)"

definition segment_line :: "platform \<Rightarrow> int \<Rightarrow> archive_segment list \<Rightarrow> bool" where
  "segment_line P n segs = (segs \<noteq> [] \<and> ar_previous_segment_hash (hd segs) = None
     \<and> genesis_base (ar_base_state (hd segs)) (gr_genesis_hash (ar_genesis_ref (hd segs)))
     \<and> successively (follows_segment P) segs
     \<and> (\<forall>x \<in> set segs. validate_genesis_ref P (ar_genesis_ref x) n = Inr ()))"

definition segment_blocks :: "archive_segment list \<Rightarrow> (string \<times> transfer list) list" where
  "segment_blocks segs = map (\<lambda>x. (ar_token_id x, ar_transfers x)) segs"

lemma segment_line_snoc: "segment_line P n (segs @ [s]) \<longleftrightarrow> validate_genesis_ref P (ar_genesis_ref s) n = Inr () \<and>
    (if segs = [] then ar_previous_segment_hash s = None \<and> genesis_base (ar_base_state s) (gr_genesis_hash (ar_genesis_ref s))
     else segment_line P n segs \<and> follows_segment P (last segs) s)"
  by (auto simp: segment_line_def successively_append_iff)

lemma replay_blocks_snoc: "replay_blocks P n now base (segment_blocks (segs @ [s])) = Inr st \<longleftrightarrow>
    (\<exists>mid. replay_blocks P n now base (segment_blocks segs) = Inr mid
      \<and> verify_transfer_sequence_from_state P (ar_token_id s) mid (ar_transfers s) n now = Inr st)"
  by (simp add: replay_blocks_def segment_blocks_def foldE_append bindE_Inr_iff)

lemma verified_history:
  assumes "verify_archive_segment d P s (Some n) prev R now = Inr core" and "rs_checkpoint R = None"
  shows "\<exists>segs. segment_line P n segs \<and> last segs = s
    \<and> replay_blocks P n now (ar_base_state (hd segs)) (segment_blocks segs) = Inr (initial_state_from_checkpoint_core core)"
  using assms(1)
proof (induction d arbitrary: s prev core)
  case (Suc d)
  from Suc.prems have step: "check_segment_base P (\<lambda>p. verify_archive_segment d P p (Some n) None R now) R s n prev = Inr ()"
    and ok: "segment_ok P now s core" and n: "n = ar_network_id s" and g: "validate_genesis_ref P (ar_genesis_ref s) n = Inr ()"
    unfolding verify_archive_Suc by blast+
  from ok obtain final where final: "verify_transfer_sequence_from_state P (ar_token_id s) (ar_base_state s) (ar_transfers s) n now = Inr final"
    "initial_state_from_checkpoint_core core = final"
    unfolding segment_ok_def n using initial_state_of_checkpoint by blast
  show ?case
  proof (cases "ar_previous_segment_hash s")
    case None
    with step have "genesis_base (ar_base_state s) (gr_genesis_hash (ar_genesis_ref s))"
      by (simp add: check_segment_base_def genesis_base_def if_Inl_Inr_iff del: if_split)
    with None g have "segment_line P n ([] @ [s])" unfolding segment_line_snoc by simp
    moreover have "replay_blocks P n now (ar_base_state s) (segment_blocks ([] @ [s])) = Inr (initial_state_from_checkpoint_core core)"
      using final unfolding replay_blocks_snoc by (simp add: replay_blocks_def segment_blocks_def)
    ultimately show ?thesis by (intro exI [of _ "[s]"]) simp
  next
    case (Some h)
    with step obtain core' where core': "previous_core P (\<lambda>p. verify_archive_segment d P p (Some n) None R now) R s n h (resolve_previous R s prev) = Inr core'"
      "ar_base_state s = initial_state_from_checkpoint_core core'"
      by (auto simp: check_segment_base_def bindE_Inr_iff split: if_splits)
    with assms(2) obtain p where p: "verify_archive_segment d P p (Some n) None R now = Inr core'" "archive_segment_hash P p = Inr h"
      by (auto simp: previous_core_Inr_iff split: option.splits)
    from Suc.IH [OF p(1)] obtain segs where segs: "segment_line P n segs" "last segs = p"
      "replay_blocks P n now (ar_base_state (hd segs)) (segment_blocks segs) = Inr (ar_base_state s)"
      unfolding core'(2) by blast
    then have "segs \<noteq> []" by (simp add: segment_line_def)
    with segs g p(2) Some have "segment_line P n (segs @ [s])" unfolding segment_line_snoc by (simp add: follows_segment_def)
    moreover have "replay_blocks P n now (ar_base_state (hd segs)) (segment_blocks (segs @ [s])) = Inr (initial_state_from_checkpoint_core core)"
      using segs(3) final unfolding replay_blocks_snoc by simp
    ultimately show ?thesis using \<open>segs \<noteq> []\<close> by (intro exI [of _ "segs @ [s]"]) simp
  qed
qed simp

text \<open>The same history, seen from its genesis reference.\<close>

lemma line_genesis:
  assumes "segment_line P n segs"
  shows "validate_genesis_ref P (ar_genesis_ref (hd segs)) n = Inr ()
    \<and> genesis_base (ar_base_state (hd segs)) (gr_genesis_hash (ar_genesis_ref (hd segs)))"
  using assms by (cases segs) (simp_all add: segment_line_def)

lemma replay_blocks_values:
  assumes "replay_blocks P n now s blocks = Inr s'" 
  shows "st_value s' = st_value s \<and> st_display_id s' = st_display_id s
    \<and> st_sequence s' = st_sequence s + int (sum_list (map (\<lambda>(_, ts). length ts) blocks))"
  using assms
proof (induction blocks arbitrary: s)
  case (Cons b blocks)
  obtain tok ts where b: "b = (tok, ts)" by (cases b)
  with Cons.prems obtain t where t: "verify_transfer_sequence_from_state P tok s ts n now = Inr t"
    "replay_blocks P n now t blocks = Inr s'"
    by (auto simp: replay_blocks_def bindE_Inr_iff)
  from t(1) have "chain P tok n now True s ts t" by (auto simp: verify_transfer_sequence_from_state_def replay_iff_chain)
  from chain_values [OF this] Cons.IH [OF t(2)] b show ?case by simp
qed (simp add: replay_blocks_def)

end
