(* ===== verification/JsonFields.thy ===== *)
theory JsonFields
  imports TransferV3
begin

text \<open>
  Reading dicts that arrive as JSON: the field checks of \<open>src/ind/transparency_client.py\<close>
  (\<open>_require_exact_keys\<close>, \<open>_require_int_for\<close>, \<open>_require_str\<close>, \<open>_hex32\<close>), Python's \<open>str\<close> of a value, and
  the passage between a transfer as a dict and as a record.
\<close>

definition jget :: "json \<Rightarrow> string \<Rightarrow> json option" where
  "jget j k = (case j of JDict kvs \<Rightarrow> map_of kvs k | _ \<Rightarrow> None)"

text \<open>Indexing, \<open>j[k]\<close>; after an exact-keys check the error cannot occur.\<close>

definition jat :: "json \<Rightarrow> string \<Rightarrow> json res" where
  "jat j k = (case jget j k of Some v \<Rightarrow> Inr v | None \<Rightarrow> Inl (PyTypeError k))"

text \<open>Lists and dicts cannot be looked up in a set or a dict: that raises \<open>TypeError\<close>.\<close>

fun unhashable :: "json option \<Rightarrow> bool" where
  "unhashable (Some (JList xs)) = True"
| "unhashable (Some (JDict kvs)) = True"
| "unhashable _ = False"

fun dict_keys :: "json \<Rightarrow> string list" where
  "dict_keys (JDict kvs) = map fst kvs"
| "dict_keys _ = []"

fun is_dict :: "json \<Rightarrow> bool" where
  "is_dict (JDict kvs) = True"
| "is_dict _ = False"

definition require_exact_keys ::
    "json \<Rightarrow> string list \<Rightarrow> string \<Rightarrow> string list \<Rightarrow> (string \<Rightarrow> error) \<Rightarrow> unit res" where
  "require_exact_keys data required label optional error_cls =
     (if \<not> is_dict data then Inl (error_cls (''malformed '' @ label))
      else let missing = filter (\<lambda>k. k \<notin> set (dict_keys data)) required;
               extra = filter (\<lambda>k. k \<notin> set required \<union> set optional) (dict_keys data) in
        if missing \<noteq> [] then Inl (error_cls (''malformed '' @ label @ '': missing '' @ hd (sort missing)))
        else if extra \<noteq> [] then Inl (error_cls (''malformed '' @ label @ '': unknown field '' @ hd (sort extra)))
        else Inr ())"

definition require_int_for :: "json \<Rightarrow> string \<Rightarrow> int option \<Rightarrow> (string \<Rightarrow> error) \<Rightarrow> int res" where
  "require_int_for v label minimum error_cls =
     (case v of
        JInt i \<Rightarrow> (if (case minimum of None \<Rightarrow> False | Some m \<Rightarrow> i < m)
                   then Inl (error_cls (label @ '' is below the allowed range'')) else Inr i)
      | _ \<Rightarrow> Inl (error_cls (label @ '' must be an integer'')))"

definition require_str :: "json \<Rightarrow> string \<Rightarrow> (string \<Rightarrow> error) \<Rightarrow> string res" where
  "require_str v label error_cls =
     (case v of JStr s \<Rightarrow> Inr (strip s) | _ \<Rightarrow> Inl (error_cls (label @ '' must be a string'')))"

text \<open>
  \<open>str(v)\<close>. The text of a list or dict is given by its brackets only: it is neither a hex digit string
  nor a base85 key, which is all that the callers distinguish.
\<close>

fun py_str :: "json \<Rightarrow> string" where
  "py_str JNull = ''None''"
| "py_str (JBool b) = (if b then ''True'' else ''False'')"
| "py_str (JInt i) = int_text i"
| "py_str (JFloat f) = f"
| "py_str (JStr s) = s"
| "py_str (JList vs) = ''[]''"
| "py_str (JDict kvs) = ''{}''"

definition root_hex32 :: "json \<Rightarrow> string \<Rightarrow> string res" where
  "root_hex32 v label = (let t = lower (py_str v) in
     if length t \<noteq> 64 then Inl (RootVerificationError (''invalid '' @ label))
     else case fromhex t of None \<Rightarrow> Inl (RootVerificationError (''invalid '' @ label)) | Some _ \<Rightarrow> Inr t)"

section \<open>What the checks accept\<close>

lemma jat_Inr_iff [res_simps]: "jat j k = Inr v \<longleftrightarrow> jget j k = Some v"
  by (auto simp: jat_def split: option.splits)

lemma require_exact_keys_Inr_iff [res_simps]: "require_exact_keys d req l opt e = Inr u \<longleftrightarrow>
    is_dict d \<and> set req \<subseteq> set (dict_keys d) \<and> set (dict_keys d) \<subseteq> set req \<union> set opt"
  by (auto simp: require_exact_keys_def filter_empty_conv Let_def split: if_splits)

lemma require_int_for_Inr_iff [res_simps]: "require_int_for v l m e = Inr i \<longleftrightarrow>
    v = JInt i \<and> (\<forall>b. m = Some b \<longrightarrow> b \<le> i)"
  by (auto simp: require_int_for_def split: json.splits option.splits)

lemma require_str_Inr_iff [res_simps]: "require_str v l e = Inr s \<longleftrightarrow> (\<exists>t. v = JStr t \<and> s = strip t)"
  by (auto simp: require_str_def split: json.splits)

lemma root_hex32_Inr_iff [res_simps]: "root_hex32 v l = Inr t \<longleftrightarrow> t = lower (py_str v) \<and> hex64 t"
  by (auto simp: root_hex32_def hex64_def Let_def split: option.splits)

lemma jget_dict [simp]: "jget (JDict kvs) k = map_of kvs k"
  by (simp add: jget_def)

lemma jget_key: "k \<in> set (dict_keys j) \<Longrightarrow> \<exists>v. jget j k = Some v"
  by (cases j) (auto simp: map_of_eq_None_iff dest: weak_map_of_SomeI)

text \<open>Hex texts are read alike in either case.\<close>

lemma hex_val_lower [simp]: "hex_val (lower_char c) = hex_val c"
  unfolding hex_val_def Let_def code_lower_char by auto

lemma is_hex_space_lower [simp]: "is_hex_space (lower_char c) = is_hex_space c"
  unfolding is_hex_space_def Let_def code_lower_char by auto

lemma fromhex_lower_text [simp]: "fromhex (lower s) = fromhex s"
  by (induction s rule: fromhex.induct) (auto simp: lower_def split: list.splits option.splits)

lemma lower_lower [simp]: "lower (lower s) = lower s"
proof -
  have "lower_char (lower_char c) = lower_char c" for c
    by (subst code_inject [symmetric]) (simp add: code_lower_char)
  then show ?thesis by (simp add: lower_def)
qed

lemma length_lower [simp]: "length (lower s) = length s"
  by (simp add: lower_def)

lemma hex64_lower [simp]: "hex64 (lower t) = hex64 t"
  by (simp add: hex64_def)

section \<open>Transfers as dicts\<close>

definition transfer_json :: "transfer \<Rightarrow> json" where
  "transfer_json t = JDict
     [(''type'', JStr (tr_type t)), (''version'', JInt (tr_version t)), (''network_id'', JInt (tr_network_id t)),
      (''signature_algorithm'', JInt (tr_signature_algorithm t)), (''token_id'', JStr (tr_token_id t)),
      (''sequence'', JInt (tr_sequence t)), (''previous_hash'', JStr (tr_previous_hash t)),
      (''sender_address'', JStr (tr_sender_address t)), (''sender_public_key'', JStr (tr_sender_public_key t)),
      (''recipient_address'', JStr (tr_recipient_address t)), (''timestamp'', JInt (tr_timestamp t)),
      (''metadata'', tr_metadata t), (''signature'', JStr (tr_signature t))]"

definition TRANSFER_FIELDS :: "string list" where
  "TRANSFER_FIELDS = [''type'', ''version'', ''network_id'', ''signature_algorithm'', ''token_id'', ''sequence'',
     ''previous_hash'', ''sender_address'', ''sender_public_key'', ''recipient_address'', ''timestamp'',
     ''metadata'', ''signature'']"

definition str_at :: "json \<Rightarrow> string \<Rightarrow> string res" where
  "str_at j k = bindE (jat j k) (\<lambda>v. case v of JStr s \<Rightarrow> Inr s | _ \<Rightarrow> Inl (PyTypeError k))"

definition int_at :: "json \<Rightarrow> string \<Rightarrow> int res" where
  "int_at j k = bindE (jat j k) (\<lambda>v. case v of JInt i \<Rightarrow> Inr i | _ \<Rightarrow> Inl (PyTypeError k))"

text \<open>
  A dict with exactly the transfer's fields, each of the type that the shape check asks for; any other
  dict is refused by that check.
\<close>

definition transfer_of_json :: "json \<Rightarrow> transfer res" where
  "transfer_of_json j =
     bindE (require_exact_keys j TRANSFER_FIELDS ''TransferV3'' [] ProtocolV3Error) (\<lambda>_.
     bindE (str_at j ''type'') (\<lambda>ty.
     bindE (int_at j ''version'') (\<lambda>v.
     bindE (int_at j ''network_id'') (\<lambda>n.
     bindE (int_at j ''signature_algorithm'') (\<lambda>alg.
     bindE (str_at j ''token_id'') (\<lambda>tok.
     bindE (int_at j ''sequence'') (\<lambda>sq.
     bindE (str_at j ''previous_hash'') (\<lambda>ph.
     bindE (str_at j ''sender_address'') (\<lambda>sa.
     bindE (str_at j ''sender_public_key'') (\<lambda>pk.
     bindE (str_at j ''recipient_address'') (\<lambda>ra.
     bindE (int_at j ''timestamp'') (\<lambda>ts.
     bindE (jat j ''metadata'') (\<lambda>m.
     bindE (str_at j ''signature'') (\<lambda>sg.
     Inr \<lparr>tr_type = ty, tr_version = v, tr_network_id = n, tr_signature_algorithm = alg, tr_token_id = tok,
       tr_sequence = sq, tr_previous_hash = ph, tr_sender_address = sa, tr_sender_public_key = pk,
       tr_recipient_address = ra, tr_timestamp = ts, tr_metadata = m, tr_signature = sg\<rparr>))))))))))))))"

lemma str_at_Inr_iff [res_simps]: "str_at j k = Inr s \<longleftrightarrow> jget j k = Some (JStr s)"
  by (auto simp: str_at_def jat_def bindE_def split: json.splits option.splits)

lemma int_at_Inr_iff [res_simps]: "int_at j k = Inr i \<longleftrightarrow> jget j k = Some (JInt i)"
  by (auto simp: int_at_def jat_def bindE_def split: json.splits option.splits)

lemma transfer_of_transfer_json [simp]: "transfer_of_json (transfer_json t) = Inr t"
proof -
  have k: "require_exact_keys (transfer_json t) TRANSFER_FIELDS ''TransferV3'' [] ProtocolV3Error = Inr ()"
    unfolding require_exact_keys_Inr_iff by (simp add: transfer_json_def TRANSFER_FIELDS_def)
  show ?thesis
    unfolding transfer_of_json_def k bindE_simps str_at_def int_at_def jat_def
    by (simp add: transfer_json_def)
qed

end
