(* ===== verification/SignedRoot.thy ===== *)
theory SignedRoot
  imports JsonFields
begin

text \<open>
  Signed transparency roots of \<open>src/ind/transparency_client.py\<close>: the signature over a root, its id,
  its verification, root announcements, equivocation proofs between two roots, and the inclusion and
  consistency checks against it. A root is a JSON dict, as it arrives from a mirror or inside a proof.
  The Merkle-proof package and the settings read on the way are the fields of \<open>transparency\<close>.
\<close>

text \<open>
  \<open>tl_hash_buff\<close> is \<open>MerkleHasher(...).hash_buff\<close>; \<open>tl_deserialize\<close> gives algorithm, security flag and
  size of a serialised \<open>MerkleProof\<close>, \<open>None\<close> when the package raises; \<open>tl_includes leaf root proof\<close> and
  \<open>tl_consistent old new proof\<close> say whether \<open>verify_inclusion\<close> and \<open>verify_consistency\<close> return.
  \<open>tl_legacy_names\<close> is \<open>accept_legacy_algorithm_names()\<close>, \<open>tl_production\<close> is \<open>_production_mode()\<close>.
\<close>

record transparency =
  tl_hash_buff :: "bytes \<Rightarrow> bytes"
  tl_deserialize :: "json \<Rightarrow> (string \<times> bool \<times> int) option"
  tl_includes :: "bytes \<Rightarrow> bytes \<Rightarrow> json \<Rightarrow> bool"
  tl_consistent :: "bytes \<Rightarrow> bytes \<Rightarrow> json \<Rightarrow> bool"
  tl_legacy_names :: bool
  tl_production :: bool

definition LOG_ROOT_TYPE :: string where "LOG_ROOT_TYPE = ''ind.transparency_root.v3''"
definition LOG_INCLUSION_PROOF_TYPE :: string where "LOG_INCLUSION_PROOF_TYPE = ''ind.transparency_inclusion_proof.v3''"
definition LOG_CONSISTENCY_PROOF_TYPE :: string where
  "LOG_CONSISTENCY_PROOF_TYPE = ''ind.transparency_consistency_proof.v3''"
definition LOG_ROOT_ANNOUNCEMENT_TYPE :: string where
  "LOG_ROOT_ANNOUNCEMENT_TYPE = ''ind.transparency_root_announcement.v3''"
definition LOG_EQUIVOCATION_PROOF_TYPE :: string where
  "LOG_EQUIVOCATION_PROOF_TYPE = ''ind.transparency_equivocation_proof.v3''"
definition LOG_VERSION :: int where "LOG_VERSION = 3"
definition LOG_HASH_ALGORITHM :: string where "LOG_HASH_ALGORITHM = ''sha3_256''"
definition LOG_TREE_ALGORITHM :: string where "LOG_TREE_ALGORITHM = ''CT_STYLE_SHA3_256_V3''"
definition LEGACY_LOG_TREE_ALGORITHM :: string where
  "LEGACY_LOG_TREE_ALGORITHM = ''RFC6962_SHA3_256_PYMERKLE_V3''"
definition LOG_SPEND_MAP_ALGORITHM :: string where "LOG_SPEND_MAP_ALGORITHM = ''IND_SPARSE_SPEND_MAP_SHA3_256_V3''"
definition LOG_SIGNATURE_ALGORITHM :: string where "LOG_SIGNATURE_ALGORITHM = ''ED25519_BASE85''"
definition LOG_ROOT_SIGNATURE_DOMAIN :: string where "LOG_ROOT_SIGNATURE_DOMAIN = ''IND_TRANSPARENCY_ROOT_V3''"

section \<open>Signatures over roots\<close>

definition accepted_tree_algorithms :: "transparency \<Rightarrow> string set" where
  "accepted_tree_algorithms T =
     (if tl_legacy_names T then {LOG_TREE_ALGORITHM, LEGACY_LOG_TREE_ALGORITHM} else {LOG_TREE_ALGORITHM})"

definition log_id_from_public_key :: "platform \<Rightarrow> string \<Rightarrow> string" where
  "log_id_from_public_key P pk = sha3_hex P (utf8 (strip pk))"

text \<open>The domains are ASCII constants, far below the size that is checked.\<close>

definition signature_payload :: "string \<Rightarrow> json \<Rightarrow> bytes res" where
  "signature_payload domain data = bindE (canonical_bytes data) (\<lambda>payload.
     Inr (utf8 ''IND-SIGNATURE-V3:'' @ utf8 domain @ [10] @ payload))"

definition sign_operator_payload :: "platform \<Rightarrow> string \<Rightarrow> bytes \<Rightarrow> string res" where
  "sign_operator_payload P private_key payload = (let k = strip private_key in
     if \<not> startswith k PRIVATE_KEY_PREFIX
     then Inl (TransparencyLogError ''operator signing key must be an indsk3 Ed25519 key'')
     else bindE (keys_sign P k payload) (\<lambda>s. Inr (b85encode s)))"

definition verify_operator_payload :: "platform \<Rightarrow> string \<Rightarrow> json \<Rightarrow> bytes \<Rightarrow> string \<Rightarrow> bool res" where
  "verify_operator_payload P public_key signature payload signature_algorithm =
     (let k = strip public_key; s = strip (py_str signature) in
      case (if is_ascii s then b85decode s else None) of
        None \<Rightarrow> Inr False
      | Some raw \<Rightarrow>
          if strip signature_algorithm = LOG_SIGNATURE_ALGORITHM
          then (if \<not> startswith k PUBLIC_KEY_PREFIX then Inr False else keys_verify P k raw payload)
          else Inr False)"

definition without_key :: "string \<Rightarrow> json \<Rightarrow> json" where
  "without_key k j = (case j of JDict kvs \<Rightarrow> JDict (filter (\<lambda>(k', _). k' \<noteq> k) kvs) | _ \<Rightarrow> j)"

definition root_signature_payload :: "json \<Rightarrow> bytes res" where
  "root_signature_payload root = signature_payload LOG_ROOT_SIGNATURE_DOMAIN (without_key ''signature'' root)"

definition signed_root_id :: "platform \<Rightarrow> json \<Rightarrow> string res" where
  "signed_root_id P root = message_hash P root"

definition make_signed_root ::
    "platform \<Rightarrow> int \<Rightarrow> string \<Rightarrow> int \<Rightarrow> string \<Rightarrow> string \<Rightarrow> string \<Rightarrow> int \<Rightarrow> json res" where
  "make_signed_root P tree_size root_hash timestamp private_key public_key spend_map_root spend_map_size =
     (let fields =
        [(''type'', JStr LOG_ROOT_TYPE), (''version'', JInt LOG_VERSION),
         (''log_id'', JStr (log_id_from_public_key P public_key)),
         (''tree_algorithm'', JStr LOG_TREE_ALGORITHM), (''hash_algorithm'', JStr LOG_HASH_ALGORITHM),
         (''signature_algorithm'', JStr LOG_SIGNATURE_ALGORITHM), (''tree_size'', JInt tree_size),
         (''root_hash'', JStr (lower root_hash)), (''spend_map_algorithm'', JStr LOG_SPEND_MAP_ALGORITHM),
         (''spend_map_root'', JStr (lower spend_map_root)), (''spend_map_size'', JInt spend_map_size),
         (''timestamp'', JInt timestamp), (''operator_public_key'', JStr public_key)] in
      bindE (root_signature_payload (JDict fields)) (\<lambda>payload.
      bindE (sign_operator_payload P private_key payload) (\<lambda>s.
      Inr (JDict (fields @ [(''signature'', JStr s)])))))"

section \<open>Verification\<close>

definition ROOT_FIELDS :: "string list" where
  "ROOT_FIELDS = [''type'', ''version'', ''log_id'', ''tree_algorithm'', ''hash_algorithm'', ''signature_algorithm'',
     ''tree_size'', ''root_hash'', ''timestamp'', ''operator_public_key'', ''signature'']"

definition SPEND_MAP_FIELDS :: "string list" where
  "SPEND_MAP_FIELDS = [''spend_map_algorithm'', ''spend_map_root'', ''spend_map_size'']"

definition check_spend_map_commitment :: "json \<Rightarrow> unit res" where
  "check_spend_map_commitment root =
     (if set SPEND_MAP_FIELDS \<inter> set (dict_keys root) = {} then Inr ()
      else if \<not> set SPEND_MAP_FIELDS \<subseteq> set (dict_keys root)
      then Inl (RootVerificationError ''incomplete transparency spend-map commitment'')
      else if jget root ''spend_map_algorithm'' \<noteq> Some (JStr LOG_SPEND_MAP_ALGORITHM)
      then Inl (RootVerificationError ''unsupported transparency spend-map algorithm'')
      else bindE (jat root ''spend_map_root'') (\<lambda>r.
           bindE (root_hex32 r ''transparency spend-map root hash'') (\<lambda>_.
           bindE (jat root ''spend_map_size'') (\<lambda>n.
           bindE (require_int_for n ''transparency spend-map size'' (Some 0) RootVerificationError) (\<lambda>_.
           Inr ())))))"

text \<open>An empty \<open>operator_public_key\<close> argument is no pin.\<close>

definition verify_signed_root :: "platform \<Rightarrow> transparency \<Rightarrow> json \<Rightarrow> string option \<Rightarrow> unit res" where
  "verify_signed_root P T root operator_public_key =
     bindE (require_exact_keys root ROOT_FIELDS ''signed transparency root'' SPEND_MAP_FIELDS RootVerificationError) (\<lambda>_.
     if jget root ''type'' \<noteq> Some (JStr LOG_ROOT_TYPE)
     then Inl (RootVerificationError ''unsupported transparency root version'')
     else bindE (jat root ''version'') (\<lambda>v.
     bindE (require_int_for v ''transparency root version'' None RootVerificationError) (\<lambda>version.
     if version \<noteq> LOG_VERSION then Inl (RootVerificationError ''unsupported transparency root version'')
     else if unhashable (jget root ''tree_algorithm'') then Inl (PyTypeError ''unhashable type'')
     else if \<not> (\<exists>a \<in> accepted_tree_algorithms T. jget root ''tree_algorithm'' = Some (JStr a))
     then Inl (RootVerificationError ''unsupported transparency tree algorithm'')
     else if jget root ''hash_algorithm'' \<noteq> Some (JStr LOG_HASH_ALGORITHM)
     then Inl (RootVerificationError ''unsupported transparency hash algorithm'')
     else if unhashable (jget root ''signature_algorithm'') then Inl (PyTypeError ''unhashable type'')
     else if jget root ''signature_algorithm'' \<noteq> Some (JStr LOG_SIGNATURE_ALGORITHM)
     then Inl (RootVerificationError ''unsupported transparency root signature algorithm'')
     else bindE (jat root ''tree_size'') (\<lambda>n.
     bindE (require_int_for n ''transparency tree size'' (Some 0) RootVerificationError) (\<lambda>_.
     bindE (jat root ''timestamp'') (\<lambda>t.
     bindE (require_int_for t ''transparency root timestamp'' (Some 0) RootVerificationError) (\<lambda>_.
     bindE (jat root ''root_hash'') (\<lambda>h.
     bindE (root_hex32 h ''transparency root hash'') (\<lambda>_.
     bindE (check_spend_map_commitment root) (\<lambda>_.
     bindE (str_at root ''operator_public_key'') (\<lambda>k.
     if (case operator_public_key of None \<Rightarrow> False | Some o_key \<Rightarrow> o_key \<noteq> [] \<and> strip k \<noteq> strip o_key)
     then Inl (RootVerificationError ''transparency root was signed by an unexpected operator'')
     else if jget root ''log_id'' \<noteq> Some (JStr (log_id_from_public_key P (strip k)))
     then Inl (RootVerificationError ''transparency root log id does not match operator key'')
     else bindE (root_signature_payload root) (\<lambda>payload.
     bindE (jat root ''signature'') (\<lambda>s.
     bindE (verify_operator_payload P (strip k) s payload LOG_SIGNATURE_ALGORITHM) (\<lambda>ok.
     if \<not> ok then Inl (RootVerificationError ''invalid transparency root signature'') else Inr ()))))))))))))))"

text \<open>What acceptance of a root means: the typed fields, and the operator's signature over the rest.\<close>

definition root_fields :: "transparency \<Rightarrow> json \<Rightarrow> bool" where
  "root_fields T root =
     (is_dict root \<and> set ROOT_FIELDS \<subseteq> set (dict_keys root)
      \<and> set (dict_keys root) \<subseteq> set ROOT_FIELDS \<union> set SPEND_MAP_FIELDS
      \<and> jget root ''type'' = Some (JStr LOG_ROOT_TYPE) \<and> jget root ''version'' = Some (JInt LOG_VERSION)
      \<and> (\<exists>a \<in> accepted_tree_algorithms T. jget root ''tree_algorithm'' = Some (JStr a))
      \<and> jget root ''hash_algorithm'' = Some (JStr LOG_HASH_ALGORITHM)
      \<and> jget root ''signature_algorithm'' = Some (JStr LOG_SIGNATURE_ALGORITHM)
      \<and> (\<exists>n. jget root ''tree_size'' = Some (JInt n) \<and> 0 \<le> n)
      \<and> (\<exists>ts. jget root ''timestamp'' = Some (JInt ts) \<and> 0 \<le> ts)
      \<and> (\<exists>v. jget root ''root_hash'' = Some v \<and> hex64 (lower (py_str v)))
      \<and> check_spend_map_commitment root = Inr ())"

definition operator_signed :: "platform \<Rightarrow> json \<Rightarrow> string \<Rightarrow> bool" where
  "operator_signed P root key =
     (\<exists>k m s raw. decode_public_key key = Inr k \<and> root_signature_payload root = Inr m
       \<and> jget root ''signature'' = Some s \<and> is_ascii (strip (py_str s)) \<and> b85decode (strip (py_str s)) = Some raw
       \<and> ed25519_verify P k raw m)"

definition pinned :: "string option \<Rightarrow> string \<Rightarrow> bool" where
  "pinned pin key = (\<forall>o_key. pin = Some o_key \<longrightarrow> o_key = [] \<or> strip key = strip o_key)"

lemma ex_Inr_true [simp]: "(\<exists>x. e = Inr x \<and> x) \<longleftrightarrow> e = Inr True"
  by auto

lemma strip_strip [simp]: "strip (strip s) = strip s"
proof (rule strip_id)
  let ?u = "dropWhile is_space s"
  show "strip s = [] \<or> \<not> is_space (hd (strip s)) \<and> \<not> is_space (last (strip s))"
  proof (cases "strip s = []")
    case False
    then have ne: "dropWhile is_space (rev ?u) \<noteq> []" by (simp add: strip_def)
    have "\<not> is_space (last (strip s))" using ne hd_dropWhile [OF ne] by (simp add: strip_def last_rev)
    moreover obtain ys where "rev ?u = ys @ dropWhile is_space (rev ?u)"
      by (metis takeWhile_dropWhile_id)
    then have "?u = strip s @ rev ys" by (metis rev_append rev_rev_ident strip_def)
    then have "hd (strip s) = hd ?u" using False by (metis hd_append2)
    moreover have "\<not> is_space (hd ?u)"
      by (rule hd_dropWhile) (metis dropWhile.simps(1) ne rev.simps(1))
    ultimately show ?thesis by simp
  qed simp
qed

lemma verify_operator_payload_True [res_simps]:
  "verify_operator_payload P key s m LOG_SIGNATURE_ALGORITHM = Inr True \<longleftrightarrow>
     is_ascii (strip (py_str s))
     \<and> (\<exists>k raw. decode_public_key (strip key) = Inr k \<and> b85decode (strip (py_str s)) = Some raw \<and> ed25519_verify P k raw m)"
proof -
  have "startswith (strip key) PUBLIC_KEY_PREFIX" if "decode_public_key (strip key) = Inr k" for k
    using that by (auto simp: decode_public_key_def split: if_splits)
  moreover have "strip LOG_SIGNATURE_ALGORITHM = LOG_SIGNATURE_ALGORITHM"
    by (simp add: LOG_SIGNATURE_ALGORITHM_def strip_def is_space_def code_def)
  ultimately show ?thesis
    by (auto simp: verify_operator_payload_def Let_def keys_verify_def bindE_Inr_iff split: option.splits if_splits)
qed

lemma verify_signed_root_Inr_iff [res_simps]:
  "verify_signed_root P T root pin = Inr () \<longleftrightarrow> root_fields T root
     \<and> (\<exists>key. jget root ''operator_public_key'' = Some (JStr key) \<and> pinned pin key
          \<and> jget root ''log_id'' = Some (JStr (log_id_from_public_key P (strip key)))
          \<and> operator_signed P root (strip key))"
  (is "_ = ?rhs")
proof -
  have pin: "\<not> (case pin of None \<Rightarrow> False | Some o_key \<Rightarrow> o_key \<noteq> [] \<and> strip k \<noteq> strip o_key) \<longleftrightarrow> pinned pin k" for k
    by (auto simp: pinned_def split: option.splits)
  show ?thesis
    unfolding verify_signed_root_def bindE_Inr_iff if_Inl_Inr_iff require_exact_keys_Inr_iff jat_Inr_iff
      require_int_for_Inr_iff root_hex32_Inr_iff str_at_Inr_iff pin root_fields_def operator_signed_def
    by (auto simp: verify_operator_payload_True)
qed

section \<open>Announcements, equivocation, inclusion and consistency\<close>

text \<open>\<open>int(observed_at or time.time())\<close>: zero counts as absent.\<close>

definition time_or_now :: "platform \<Rightarrow> int option \<Rightarrow> int" where
  "time_or_now P t = (case t of Some v \<Rightarrow> if v = 0 then pf_clock P else v | None \<Rightarrow> pf_clock P)"

definition make_root_announcement :: "platform \<Rightarrow> transparency \<Rightarrow> json \<Rightarrow> int option \<Rightarrow> json res" where
  "make_root_announcement P T root observed_at =
     bindE (verify_signed_root P T root None) (\<lambda>_.
     Inr (JDict [(''type'', JStr LOG_ROOT_ANNOUNCEMENT_TYPE), (''version'', JInt LOG_VERSION), (''root'', root),
       (''observed_at'', JInt (time_or_now P observed_at))]))"

definition verify_root_announcement :: "platform \<Rightarrow> transparency \<Rightarrow> json \<Rightarrow> string option \<Rightarrow> json res" where
  "verify_root_announcement P T message operator_public_key =
     bindE (require_exact_keys message [''type'', ''version'', ''root'', ''observed_at'']
       ''transparency root announcement'' [] RootVerificationError) (\<lambda>_.
     if jget message ''type'' \<noteq> Some (JStr LOG_ROOT_ANNOUNCEMENT_TYPE)
     then Inl (RootVerificationError ''not a transparency root announcement'')
     else bindE (jat message ''version'') (\<lambda>v.
     bindE (require_int_for v ''transparency root announcement version'' None RootVerificationError) (\<lambda>version.
     if version \<noteq> LOG_VERSION
     then Inl (RootVerificationError ''unsupported transparency root announcement version'')
     else bindE (jat message ''root'') (\<lambda>root.
     bindE (verify_signed_root P T root operator_public_key) (\<lambda>_.
     bindE (jat message ''observed_at'') (\<lambda>t.
     bindE (require_int_for t ''transparency root observed_at'' (Some 0) RootVerificationError) (\<lambda>_.
     Inr root)))))))"

text \<open>What two roots of one log may not disagree on. The integers were checked when the root was.\<close>

definition root_fingerprint :: "json \<Rightarrow> (int \<times> json \<times> json option \<times> int) res" where
  "root_fingerprint root =
     bindE (int_at root ''tree_size'') (\<lambda>n.
     bindE (jat root ''root_hash'') (\<lambda>h.
     bindE (case jget root ''spend_map_size'' of None \<Rightarrow> Inr 0 | Some _ \<Rightarrow> int_at root ''spend_map_size'') (\<lambda>m.
     Inr (n, h, jget root ''spend_map_root'', m))))"

definition equivocation_collision_type :: "platform \<Rightarrow> json \<Rightarrow> json \<Rightarrow> string option res" where
  "equivocation_collision_type P root_a root_b =
     bindE (jat root_a ''log_id'') (\<lambda>la. bindE (jat root_b ''log_id'') (\<lambda>lb.
     if la \<noteq> lb then Inr None
     else bindE (signed_root_id P root_a) (\<lambda>ia. bindE (signed_root_id P root_b) (\<lambda>ib.
     if ia = ib then Inr None
     else bindE (root_fingerprint root_a) (\<lambda>fa. bindE (root_fingerprint root_b) (\<lambda>fb.
     if fst fa = fst fb \<and> fa \<noteq> fb then Inr (Some ''same_tree_size'')
     else bindE (int_at root_a ''timestamp'') (\<lambda>ta. bindE (int_at root_b ''timestamp'') (\<lambda>tb.
     if ta = tb \<and> fa \<noteq> fb then Inr (Some ''same_timestamp'') else Inr None))))))))"

definition COLLISION_TYPES :: "string list" where
  "COLLISION_TYPES = [''same_tree_size'', ''same_timestamp'']"

text \<open>\<open>collision_type or ...\<close>: an empty text counts as none.\<close>

definition make_equivocation_proof ::
    "platform \<Rightarrow> transparency \<Rightarrow> json \<Rightarrow> json \<Rightarrow> string option \<Rightarrow> int option \<Rightarrow> json res" where
  "make_equivocation_proof P T root_a root_b collision_type detected_at =
     bindE (verify_signed_root P T root_a None) (\<lambda>_.
     bindE (verify_signed_root P T root_b None) (\<lambda>_.
     bindE (case collision_type of Some (c # cs) \<Rightarrow> Inr (Some (c # cs))
            | _ \<Rightarrow> equivocation_collision_type P root_a root_b) (\<lambda>ct.
     case ct of
       None \<Rightarrow> Inl (MirrorDisagreementError ''root_a, root_b'')
     | Some c \<Rightarrow>
         if c \<notin> set COLLISION_TYPES then Inl (MirrorDisagreementError ''root_a, root_b'')
         else bindE (jat root_a ''log_id'') (\<lambda>log_id.
           Inr (JDict [(''type'', JStr LOG_EQUIVOCATION_PROOF_TYPE), (''version'', JInt LOG_VERSION),
             (''log_id'', log_id), (''collision_type'', JStr c), (''root_a'', root_a), (''root_b'', root_b),
             (''detected_at'', JInt (time_or_now P detected_at))])))))"

definition EQUIVOCATION_FIELDS :: "string list" where
  "EQUIVOCATION_FIELDS = [''type'', ''version'', ''log_id'', ''collision_type'', ''root_a'', ''root_b'', ''detected_at'']"

definition verify_equivocation_proof ::
    "platform \<Rightarrow> transparency \<Rightarrow> json \<Rightarrow> string option \<Rightarrow> (string \<times> string \<times> json \<times> json) res" where
  "verify_equivocation_proof P T message operator_public_key =
     bindE (require_exact_keys message EQUIVOCATION_FIELDS ''transparency equivocation proof'' [] RootVerificationError) (\<lambda>_.
     if jget message ''type'' \<noteq> Some (JStr LOG_EQUIVOCATION_PROOF_TYPE)
     then Inl (RootVerificationError ''not a transparency equivocation proof'')
     else bindE (jat message ''version'') (\<lambda>v.
     bindE (require_int_for v ''transparency equivocation proof version'' None RootVerificationError) (\<lambda>version.
     if version \<noteq> LOG_VERSION
     then Inl (RootVerificationError ''unsupported transparency equivocation proof version'')
     else bindE (jat message ''detected_at'') (\<lambda>t.
     bindE (require_int_for t ''transparency equivocation detected_at'' (Some 0) RootVerificationError) (\<lambda>_.
     bindE (jat message ''log_id'') (\<lambda>l. let claimed = strip (py_str l) in
     bindE (jat message ''collision_type'') (\<lambda>c.
     if unhashable (Some c) then Inl (PyTypeError ''unhashable type'')
     else if \<not> (\<exists>x \<in> set COLLISION_TYPES. c = JStr x)
     then Inl (MirrorDisagreementError ''unsupported transparency equivocation collision type'')
     else bindE (jat message ''root_a'') (\<lambda>root_a. bindE (jat message ''root_b'') (\<lambda>root_b.
     bindE (verify_signed_root P T root_a operator_public_key) (\<lambda>_.
     bindE (verify_signed_root P T root_b operator_public_key) (\<lambda>_.
     bindE (str_at root_a ''operator_public_key'') (\<lambda>ka. bindE (str_at root_b ''operator_public_key'') (\<lambda>kb.
     if strip ka \<noteq> strip kb
     then Inl (RootVerificationError ''equivocation proof roots were signed by different operators'')
     else if jget root_a ''log_id'' \<noteq> Some (JStr claimed) \<or> jget root_b ''log_id'' \<noteq> Some (JStr claimed)
     then Inl (RootVerificationError ''equivocation proof log id does not match both roots'')
     else if log_id_from_public_key P (strip ka) \<noteq> claimed
     then Inl (RootVerificationError ''equivocation proof operator key does not derive the claimed log id'')
     else bindE (equivocation_collision_type P root_a root_b) (\<lambda>actual.
     if map_option JStr actual \<noteq> Some c then Inl (MirrorDisagreementError ''root_a, root_b, claimed'')
     else bindE (str_at message ''collision_type'') (\<lambda>ct. Inr (claimed, ct, root_a, root_b))))))))))))))))"

section \<open>Entries of the log\<close>

definition entry_hash_bytes :: "string \<Rightarrow> bytes res" where
  "entry_hash_bytes entry_hash = (let h = lower entry_hash in
     if length h \<noteq> 64 then Inl (InclusionProofError ''invalid transparency entry hash'')
     else case fromhex h of None \<Rightarrow> Inl (InclusionProofError ''invalid transparency entry hash'') | Some b \<Rightarrow> Inr b)"

definition log_leaf_hash :: "transparency \<Rightarrow> string \<Rightarrow> bytes res" where
  "log_leaf_hash T entry_hash = bindE (entry_hash_bytes entry_hash) (\<lambda>b. Inr (tl_hash_buff T b))"

definition INCLUSION_FIELDS :: "string list" where
  "INCLUSION_FIELDS = [''type'', ''version'', ''log_id'', ''entry_hash'', ''leaf_hash'', ''leaf_index'', ''tree_size'', ''proof'']"

text \<open>\<open>bytes.fromhex\<close> of the root hash cannot fail on a verified root whose hash is a text.\<close>

definition root_hash_bytes :: "json \<Rightarrow> bytes res" where
  "root_hash_bytes root = bindE (str_at root ''root_hash'') (\<lambda>h.
     case fromhex h of None \<Rightarrow> Inl (PyValueError ''non-hexadecimal number'') | Some b \<Rightarrow> Inr b)"

definition verify_inclusion_proof ::
    "platform \<Rightarrow> transparency \<Rightarrow> string \<Rightarrow> json \<Rightarrow> json \<Rightarrow> string option \<Rightarrow> unit res" where
  "verify_inclusion_proof P T entry_hash response signed_root operator_public_key =
     bindE (verify_signed_root P T signed_root operator_public_key) (\<lambda>_.
     bindE (require_exact_keys response INCLUSION_FIELDS ''transparency inclusion proof'' [] InclusionProofError) (\<lambda>_.
     if jget response ''type'' \<noteq> Some (JStr LOG_INCLUSION_PROOF_TYPE)
     then Inl (InclusionProofError ''unsupported transparency inclusion proof version'')
     else bindE (jat response ''version'') (\<lambda>v.
     bindE (require_int_for v ''transparency inclusion proof version'' None InclusionProofError) (\<lambda>version.
     if version \<noteq> LOG_VERSION
     then Inl (InclusionProofError ''unsupported transparency inclusion proof version'')
     else if jget response ''log_id'' \<noteq> jget signed_root ''log_id''
     then Inl (InclusionProofError ''inclusion proof is for a different transparency log'')
     else bindE (jat response ''tree_size'') (\<lambda>s.
     bindE (require_int_for s ''transparency inclusion proof tree size'' (Some 0) InclusionProofError) (\<lambda>proof_tree_size.
     bindE (jat signed_root ''tree_size'') (\<lambda>s'.
     bindE (require_int_for s' ''transparency root tree size'' (Some 0) InclusionProofError) (\<lambda>root_tree_size.
     if proof_tree_size \<noteq> root_tree_size
     then Inl (InclusionProofError ''inclusion proof tree size does not match mirrored root'')
     else bindE (jat response ''leaf_index'') (\<lambda>i.
     bindE (require_int_for i ''transparency leaf index'' (Some 0) InclusionProofError) (\<lambda>_.
     bindE (jat response ''entry_hash'') (\<lambda>e.
     if lower (py_str e) \<noteq> lower entry_hash
     then Inl (InclusionProofError ''inclusion proof is for a different entry'')
     else bindE (log_leaf_hash T (lower entry_hash)) (\<lambda>leaf_hash.
     if jget response ''leaf_hash'' \<noteq> Some (JStr (hex_text leaf_hash))
     then Inl (InclusionProofError ''inclusion proof leaf hash mismatch'')
     else bindE (jat response ''proof'') (\<lambda>proof.
     case tl_deserialize T proof of
       None \<Rightarrow> Inl (PyValueError ''malformed proof'')
     | Some (algorithm, security, psize) \<Rightarrow>
         if algorithm \<noteq> LOG_HASH_ALGORITHM \<or> \<not> security
         then Inl (InclusionProofError ''unsupported transparency proof hash settings'')
         else if psize \<noteq> root_tree_size
         then Inl (InclusionProofError ''inclusion proof metadata tree size mismatch'')
         else bindE (root_hash_bytes signed_root) (\<lambda>root_hash.
           if \<not> tl_includes T leaf_hash root_hash proof
           then Inl (InclusionProofError ''invalid proof'') else Inr ()))))))))))))))"

definition CONSISTENCY_FIELDS :: "string list" where
  "CONSISTENCY_FIELDS = [''type'', ''version'', ''log_id'', ''first_tree_size'', ''second_tree_size'', ''proof'']"

definition verify_consistency_proof ::
    "platform \<Rightarrow> transparency \<Rightarrow> json \<Rightarrow> json \<Rightarrow> json \<Rightarrow> string option \<Rightarrow> bool \<Rightarrow> unit res" where
  "verify_consistency_proof P T old_root new_root response operator_public_key allow_transition =
     bindE (verify_signed_root P T old_root operator_public_key) (\<lambda>_.
     bindE (verify_signed_root P T new_root operator_public_key) (\<lambda>_.
     if jget old_root ''log_id'' \<noteq> jget new_root ''log_id'' \<and> \<not> allow_transition
     then Inl (ConsistencyProofError ''consistency roots are for different transparency logs'')
     else bindE (int_at old_root ''tree_size'') (\<lambda>old_size. bindE (int_at new_root ''tree_size'') (\<lambda>new_size.
     if new_size < old_size then Inl (ConsistencyProofError ''transparency tree size went backwards'')
     else if old_size = new_size
     then (if jget old_root ''root_hash'' \<noteq> jget new_root ''root_hash''
           then Inl (ConsistencyProofError ''same-size transparency roots disagree'') else Inr ())
     else if old_size = 0 then Inr ()
     else bindE (require_exact_keys response CONSISTENCY_FIELDS ''transparency consistency proof'' [] ConsistencyProofError) (\<lambda>_.
     if jget response ''type'' \<noteq> Some (JStr LOG_CONSISTENCY_PROOF_TYPE)
     then Inl (ConsistencyProofError ''unsupported transparency consistency proof version'')
     else bindE (jat response ''version'') (\<lambda>v.
     bindE (require_int_for v ''transparency consistency proof version'' None ConsistencyProofError) (\<lambda>version.
     if version \<noteq> LOG_VERSION
     then Inl (ConsistencyProofError ''unsupported transparency consistency proof version'')
     else if \<not> (jget response ''log_id'' = jget old_root ''log_id''
               \<or> allow_transition \<and> jget response ''log_id'' = jget new_root ''log_id'')
     then Inl (ConsistencyProofError ''consistency proof is for a different transparency log'')
     else bindE (jat response ''first_tree_size'') (\<lambda>f.
     bindE (require_int_for f ''transparency consistency first tree size'' (Some 0) ConsistencyProofError) (\<lambda>first.
     if first \<noteq> old_size then Inl (ConsistencyProofError ''consistency proof first tree size mismatch'')
     else bindE (jat response ''second_tree_size'') (\<lambda>s.
     bindE (require_int_for s ''transparency consistency second tree size'' (Some 0) ConsistencyProofError) (\<lambda>second.
     if second \<noteq> new_size then Inl (ConsistencyProofError ''consistency proof second tree size mismatch'')
     else bindE (jat response ''proof'') (\<lambda>proof.
     case tl_deserialize T proof of
       None \<Rightarrow> Inl (PyValueError ''malformed proof'')
     | Some (algorithm, security, psize) \<Rightarrow>
         if algorithm \<noteq> LOG_HASH_ALGORITHM \<or> \<not> security
         then Inl (ConsistencyProofError ''unsupported transparency proof hash settings'')
         else if psize \<noteq> new_size
         then Inl (ConsistencyProofError ''consistency proof metadata tree size mismatch'')
         else bindE (root_hash_bytes old_root) (\<lambda>old_hash. bindE (root_hash_bytes new_root) (\<lambda>new_hash.
           if \<not> tl_consistent T old_hash new_hash proof
           then Inl (ConsistencyProofError ''invalid proof'') else Inr ()))))))))))))))"

section \<open>A root that was made verifies\<close>

lemma without_signature_fields [simp]:
  "(\<forall>k v. (k, v) \<in> set kvs \<longrightarrow> k \<noteq> ''signature'') \<Longrightarrow>
   without_key ''signature'' (JDict (kvs @ [(''signature'', s)])) = without_key ''signature'' (JDict kvs)"
  by (simp add: without_key_def)

lemma b85_text_strip [simp]: "strip (b85encode b) = b85encode b" "is_ascii (b85encode b)"
  using b85encode_plain [of b] by (simp_all add: strip_no_space)

lemma prefix_strip:
  assumes "list_all (\<lambda>c. \<not> is_space c) p"
  shows "strip (p @ b85encode b) = p @ b85encode b"
  using assms b85encode_plain [of b] by (intro strip_no_space) simp

lemma key_text_strip [simp]: "strip (public_key_text k) = public_key_text k"
  unfolding public_key_text_def PUBLIC_KEY_PREFIX_def by (rule prefix_strip) (simp add: is_space_def code_def)

lemma strip_private_text: "strip (PRIVATE_KEY_PREFIX @ b85encode b) = PRIVATE_KEY_PREFIX @ b85encode b"
  unfolding PRIVATE_KEY_PREFIX_def by (rule prefix_strip) (simp add: is_space_def code_def)

lemma make_signed_root_verifies:
  assumes "ed_ok P" and "length seed = 32" and "0 \<le> tree_size" "0 \<le> timestamp" "0 \<le> map_size"
    and "hex64 root_hash" "hex64 map_root"
    and make: "make_signed_root P tree_size root_hash timestamp (PRIVATE_KEY_PREFIX @ b85encode seed)
      (public_key_text (pf_ed_public P seed)) map_root map_size = Inr root"
    and pin: "pinned pin (public_key_text (pf_ed_public P seed))"
  shows "verify_signed_root P T root pin = Inr ()"
proof -
  let ?k = "pf_ed_public P seed" and ?pk = "public_key_text (pf_ed_public P seed)"
  from assms(1,2) have k: "length ?k = 32" by (auto simp: ed_ok_def)
  from make obtain payload s kvs where
    payload: "root_signature_payload (JDict kvs) = Inr payload"
    and s: "sign_operator_payload P (PRIVATE_KEY_PREFIX @ b85encode seed) payload = Inr s"
    and root: "root = JDict (kvs @ [(''signature'', JStr s)])"
    and kvs: "kvs = [(''type'', JStr LOG_ROOT_TYPE), (''version'', JInt LOG_VERSION),
         (''log_id'', JStr (log_id_from_public_key P ?pk)),
         (''tree_algorithm'', JStr LOG_TREE_ALGORITHM), (''hash_algorithm'', JStr LOG_HASH_ALGORITHM),
         (''signature_algorithm'', JStr LOG_SIGNATURE_ALGORITHM), (''tree_size'', JInt tree_size),
         (''root_hash'', JStr (lower root_hash)), (''spend_map_algorithm'', JStr LOG_SPEND_MAP_ALGORITHM),
         (''spend_map_root'', JStr (lower map_root)), (''spend_map_size'', JInt map_size),
         (''timestamp'', JInt timestamp), (''operator_public_key'', JStr ?pk)]"
    unfolding make_signed_root_def Let_def bindE_Inr_iff by blast
  have "decode_private_key (PRIVATE_KEY_PREFIX @ b85encode seed) = Inr seed"
    using assms(2) by (intro decode_encode_private_key) (simp add: encode_private_key_def require_bytes_def)
  then have s': "s = b85encode (pf_ed_sign P seed payload)"
    using s ed25519_sign_ok [OF assms(1,2), of payload]
    by (auto simp: sign_operator_payload_def Let_def keys_sign_def strip_private_text bindE_Inr_iff split: if_splits)
  have "root_signature_payload root = Inr payload"
  proof -
    have "\<forall>k v. (k, v) \<in> set kvs \<longrightarrow> k \<noteq> ''signature''" by (simp add: kvs)
    from without_signature_fields [OF this] payload show ?thesis by (simp only: root_signature_payload_def root)
  qed
  moreover have "jget root ''signature'' = Some (JStr s)" unfolding root kvs by simp
  ultimately have "operator_signed P root (strip ?pk)"
    using ed25519_sign_ok [OF assms(1,2), of payload] k by (simp add: operator_signed_def s')
  moreover have "check_spend_map_commitment root = Inr ()"
    using assms(5,7) unfolding check_spend_map_commitment_def root kvs SPEND_MAP_FIELDS_def
    by (simp add: bindE_Inr_iff root_hex32_Inr_iff require_int_for_Inr_iff jat_def hex64_lower)
  then have "root_fields T root"
    using assms(3,4,6) unfolding root_fields_def
    by (auto simp: root kvs ROOT_FIELDS_def SPEND_MAP_FIELDS_def accepted_tree_algorithms_def hex64_lower)
  moreover have "jget root ''operator_public_key'' = Some (JStr ?pk)"
    "jget root ''log_id'' = Some (JStr (log_id_from_public_key P (strip ?pk)))" unfolding root kvs by simp_all
  ultimately show ?thesis using pin by (auto simp: verify_signed_root_Inr_iff)
qed

section \<open>Equivocation\<close>

lemma equivocation_collision_Some_iff: "equivocation_collision_type P a b = Inr (Some c) \<longleftrightarrow>
    (\<exists>l i j fa fb. jget a ''log_id'' = Some l \<and> jget b ''log_id'' = Some l
       \<and> signed_root_id P a = Inr i \<and> signed_root_id P b = Inr j \<and> i \<noteq> j
       \<and> root_fingerprint a = Inr fa \<and> root_fingerprint b = Inr fb \<and> fa \<noteq> fb
       \<and> (if fst fa = fst fb then c = ''same_tree_size''
          else c = ''same_timestamp'' \<and> (\<exists>t. jget a ''timestamp'' = Some (JInt t) \<and> jget b ''timestamp'' = Some (JInt t))))"
  (is "?l \<longleftrightarrow> ?r")
proof
  show "?l \<Longrightarrow> ?r"
    unfolding equivocation_collision_type_def bindE_Inr_iff jat_Inr_iff
    by (auto simp: bindE_Inr_iff int_at_Inr_iff split: if_splits)
  show "?r \<Longrightarrow> ?l"
    by (elim exE conjE) (auto simp: equivocation_collision_type_def jat_def int_at_def split: if_splits)
qed

text \<open>Two roots that one operator signed and that contradict each other.\<close>

definition contradict :: "json \<Rightarrow> json \<Rightarrow> string \<Rightarrow> bool" where
  "contradict a b c =
     (\<exists>fa fb. root_fingerprint a = Inr fa \<and> root_fingerprint b = Inr fb \<and> fa \<noteq> fb
       \<and> (c = ''same_tree_size'' \<and> fst fa = fst fb
          \<or> c = ''same_timestamp'' \<and> jget a ''timestamp'' = jget b ''timestamp''))"

lemma pinned_None [simp]: "pinned None k"
  by (simp add: pinned_def)

lemma pinned_self: "pinned (Some (strip k)) k"
  by (simp add: pinned_def)

lemma verify_equivocation_sound:
  assumes "verify_equivocation_proof P T msg pin = Inr (l, c, a, b)"
  shows "\<exists>key. verify_signed_root P T a (Some key) = Inr () \<and> verify_signed_root P T b (Some key) = Inr ()
    \<and> l = log_id_from_public_key P key \<and> pinned pin key \<and> contradict a b c"
proof -
  from assms obtain ka kb where
      va: "verify_signed_root P T a pin = Inr ()" and vb: "verify_signed_root P T b pin = Inr ()"
    and ka: "jget a ''operator_public_key'' = Some (JStr ka)" and kb: "jget b ''operator_public_key'' = Some (JStr kb)"
    and same: "strip ka = strip kb" and l: "l = log_id_from_public_key P (strip ka)"
    and col: "equivocation_collision_type P a b = Inr (Some c)"
    unfolding verify_equivocation_proof_def bindE_Inr_iff jat_Inr_iff str_at_Inr_iff if_Inl_Inr_iff Let_def
    by auto
  from va ka have a: "root_fields T a" "pinned pin ka" "jget a ''log_id'' = Some (JStr (log_id_from_public_key P (strip ka)))"
    "operator_signed P a (strip ka)" by (auto simp: verify_signed_root_Inr_iff)
  from vb kb have b: "root_fields T b" "jget b ''log_id'' = Some (JStr (log_id_from_public_key P (strip kb)))"
    "operator_signed P b (strip kb)" by (auto simp: verify_signed_root_Inr_iff)
  have "verify_signed_root P T a (Some (strip ka)) = Inr ()"
    unfolding verify_signed_root_Inr_iff using a ka pinned_self by blast
  moreover have "verify_signed_root P T b (Some (strip ka)) = Inr ()"
    unfolding verify_signed_root_Inr_iff same using b kb pinned_self by blast
  moreover have "pinned pin (strip ka)" using a(2) by (simp add: pinned_def)
  moreover have "contradict a b c"
    using col unfolding equivocation_collision_Some_iff contradict_def by (auto split: if_splits)
  ultimately show ?thesis using l by blast
qed

lemma sha3_hex_strip: "hash_ok P \<Longrightarrow> strip (sha3_hex P m) = sha3_hex P m"
proof (rule strip_no_space)
  assume "hash_ok P"
  have "list_all (\<lambda>c. \<not> is_space c) ''0123456789abcdef''" by (simp add: is_space_def code_def)
  moreover have "lower_hex (sha3_hex P m)" by (simp add: sha3_hex_def)
  ultimately show "list_all (\<lambda>c. \<not> is_space c) (sha3_hex P m)"
    unfolding lower_hex_def list_all_iff by blast
qed

lemma make_equivocation_verifies:
  assumes "hash_ok P" and "0 \<le> pf_clock P"
    and va: "verify_signed_root P T a (Some key) = Inr ()" and vb: "verify_signed_root P T b (Some key) = Inr ()"
    and "key \<noteq> []"
    and col: "equivocation_collision_type P a b = Inr (Some c)"
  shows "\<exists>m. make_equivocation_proof P T a b None None = Inr m
    \<and> verify_equivocation_proof P T m (Some key) = Inr (log_id_from_public_key P (strip key), c, a, b)"
proof -
  from va obtain ka where a: "jget a ''operator_public_key'' = Some (JStr ka)" "strip ka = strip key"
    "jget a ''log_id'' = Some (JStr (log_id_from_public_key P (strip ka)))"
    using assms(5) by (auto simp: verify_signed_root_Inr_iff pinned_def)
  from vb obtain kb where b: "jget b ''operator_public_key'' = Some (JStr kb)" "strip kb = strip key"
    "jget b ''log_id'' = Some (JStr (log_id_from_public_key P (strip kb)))"
    using assms(5) by (auto simp: verify_signed_root_Inr_iff pinned_def)
  have none: "verify_signed_root P T a None = Inr ()" "verify_signed_root P T b None = Inr ()"
    using va vb by (auto simp: verify_signed_root_Inr_iff)
  have c: "c \<in> set COLLISION_TYPES"
    using col by (auto simp: equivocation_collision_Some_iff COLLISION_TYPES_def split: if_splits)
  let ?l = "log_id_from_public_key P (strip key)"
  let ?m = "JDict [(''type'', JStr LOG_EQUIVOCATION_PROOF_TYPE), (''version'', JInt LOG_VERSION),
     (''log_id'', JStr ?l), (''collision_type'', JStr c), (''root_a'', a), (''root_b'', b),
     (''detected_at'', JInt (time_or_now P None))]"
  have "make_equivocation_proof P T a b None None = Inr ?m"
    unfolding make_equivocation_proof_def none bindE_simps option.case col
    using c a by (simp add: jat_def)
  moreover have "require_exact_keys ?m EQUIVOCATION_FIELDS ''transparency equivocation proof'' [] RootVerificationError = Inr ()"
    unfolding require_exact_keys_Inr_iff by (simp add: EQUIVOCATION_FIELDS_def)
  moreover have "strip ?l = ?l" by (simp add: log_id_from_public_key_def sha3_hex_strip assms(1))
  ultimately have "verify_equivocation_proof P T ?m (Some key) = Inr (?l, c, a, b)"
    using c a b va vb col assms(2)
    by (simp add: verify_equivocation_proof_def jat_def str_at_def require_int_for_def time_or_now_def Let_def cong: if_cong)
  with \<open>make_equivocation_proof P T a b None None = Inr ?m\<close> show ?thesis by blast
qed

end
