(* ===== verification/SpendMap.thy ===== *)
theory SpendMap
  imports SignedRoot "HOL-Library.Product_Lexorder" "HOL-Library.AList"
begin

text \<open>
  The sparse spend map of \<open>src/ind/transparency_client.py\<close>: a binary Merkle tree of depth 256 over all
  spend keys, kept as one dict of the non-empty hashes per level. Claims are normalised from JSON;
  \<open>spend_map_levels\<close> builds the levels, \<open>build_spend_map_proof\<close> reads an audit path off them,
  \<open>verify_spend_map_proof\<close> recomputes the root from a path. The abstract tree is \<open>node_hash\<close>.
\<close>

definition SPEND_MAP_KEY_BITS :: nat where "SPEND_MAP_KEY_BITS = 256"
definition LOG_SPEND_MAP_PROOF_TYPE :: string where "LOG_SPEND_MAP_PROOF_TYPE = ''ind.transparency_spend_map_proof.v3''"

section \<open>Hashes\<close>

definition hex_bytes :: "string \<Rightarrow> bytes res" where
  "hex_bytes t = (case fromhex t of None \<Rightarrow> Inl (PyValueError ''non-hexadecimal number'') | Some b \<Rightarrow> Inr b)"

definition branch :: "platform \<Rightarrow> bytes \<Rightarrow> bytes \<Rightarrow> string" where
  "branch P l r = sha3_hex P (utf8 ''IND-SPEND-MAP-BRANCH-V3:'' @ l @ r)"

definition spend_map_branch_hash :: "platform \<Rightarrow> string \<Rightarrow> string \<Rightarrow> string res" where
  "spend_map_branch_hash P l r = bindE (hex_bytes l) (\<lambda>lb. bindE (hex_bytes r) (\<lambda>rb. Inr (branch P lb rb)))"

text \<open>The hash of an empty subtree, by its height; \<open>spend_map_empty_hashes\<close> counts depth from the root.\<close>

definition digest_bytes :: "string \<Rightarrow> bytes" where
  "digest_bytes t = (case fromhex t of Some b \<Rightarrow> b | None \<Rightarrow> [])"

primrec empty_hash :: "platform \<Rightarrow> nat \<Rightarrow> string" where
  "empty_hash P 0 = sha3_hex P (utf8 ''IND-SPEND-MAP-EMPTY-LEAF-V3'')"
| "empty_hash P (Suc h) = branch P (digest_bytes (empty_hash P h)) (digest_bytes (empty_hash P h))"

definition spend_map_empty_hashes :: "platform \<Rightarrow> nat \<Rightarrow> string" where
  "spend_map_empty_hashes P depth = empty_hash P (SPEND_MAP_KEY_BITS - depth)"

definition spend_map_empty_root :: "platform \<Rightarrow> string" where
  "spend_map_empty_root P = spend_map_empty_hashes P 0"

section \<open>Claims\<close>

definition claim_fields :: "spend_claim \<Rightarrow> (string \<times> json) list" where
  "claim_fields c =
     [(''type'', JStr (sc_type c)), (''version'', JInt (sc_version c)), (''log_id'', JStr (sc_log_id c)),
      (''spend_key'', JStr (sc_spend_key c)), (''token_id'', JStr (sc_token_id c)),
      (''previous_hash'', JStr (sc_previous_hash c)), (''sequence'', JInt (sc_sequence c)),
      (''sender_address'', JStr (sc_sender_address c)), (''sender_public_key'', JStr (sc_sender_public_key c)),
      (''transfer_hash'', JStr (sc_transfer_hash c)), (''transfer_leaf_index'', JInt (sc_transfer_leaf_index c)),
      (''accepted_at'', JInt (sc_accepted_at c))]"

definition claim_json :: "spend_claim \<Rightarrow> json" where
  "claim_json c = JDict (claim_fields c
     @ (case sc_transfer c of None \<Rightarrow> [] | Some t \<Rightarrow> [(''transfer'', transfer_json t)]))"

definition SPEND_CLAIM_REQUIRED :: "string list" where
  "SPEND_CLAIM_REQUIRED = [''type'', ''version'', ''log_id'', ''spend_key'', ''token_id'', ''previous_hash'', ''sequence'',
     ''sender_address'', ''sender_public_key'', ''transfer_hash'', ''transfer_leaf_index'', ''accepted_at'']"

text \<open>
  The embedded transfer of a claim. A transfer of any other kind goes to the legacy verifier, whose
  \<open>b85_verify\<close> returns \<open>False\<close> for every input, so that it always raises. Every exception of the
  block becomes the one error.
\<close>

definition verified_claim_transfer :: "platform \<Rightarrow> json \<Rightarrow> (transfer \<times> string \<times> string) res" where
  "verified_claim_transfer P j = or_raise
     (if jget j ''type'' = Some (JStr TRANSFER_TYPE) \<and> jget j ''network_id'' \<noteq> None
      then bindE (transfer_of_json j) (\<lambda>t.
           bindE (validate_transfer_shape P t (tr_network_id t) True None) (\<lambda>_.
           bindE (verify_transfer_signature P t) (\<lambda>_.
           bindE (transfer_hash P t) (\<lambda>h.
           bindE (spend_key_for_transfer P t) (\<lambda>k. Inr (t, h, k))))))
      else Inl (ValidationError ''invalid transfer signature''))
     (\<lambda>_. InclusionProofError ''transparency spend claim transfer signature is invalid'')"

definition normalize_spend_claim :: "platform \<Rightarrow> json \<Rightarrow> spend_claim res" where
  "normalize_spend_claim P claim =
     bindE (require_exact_keys claim SPEND_CLAIM_REQUIRED ''transparency spend claim'' [''transfer''] InclusionProofError) (\<lambda>_.
     if jget claim ''type'' \<noteq> Some (JStr SPEND_CLAIM_TYPE)
     then Inl (InclusionProofError ''unsupported transparency spend claim version'')
     else bindE (jat claim ''version'') (\<lambda>v.
     bindE (require_int_for v ''transparency spend claim version'' None InclusionProofError) (\<lambda>version.
     if version \<noteq> LOG_VERSION then Inl (InclusionProofError ''unsupported transparency spend claim version'')
     else bindE (jat claim ''log_id'') (\<lambda>f1. bindE (require_str f1 ''transparency spend claim log id'' InclusionProofError) (\<lambda>log_id.
     bindE (jat claim ''spend_key'') (\<lambda>f2. bindE (root_hex32 f2 ''spend key'') (\<lambda>spend_key.
     bindE (jat claim ''token_id'') (\<lambda>f3. bindE (require_str f3 ''transparency spend claim bill id'' InclusionProofError) (\<lambda>token_id.
     bindE (jat claim ''previous_hash'') (\<lambda>f4. bindE (root_hex32 f4 ''transparency spend claim previous hash'') (\<lambda>previous_hash.
     bindE (jat claim ''sequence'') (\<lambda>f5. bindE (require_int_for f5 ''transparency spend claim sequence'' (Some 1) InclusionProofError) (\<lambda>sequence.
     bindE (jat claim ''sender_address'') (\<lambda>f6. bindE (require_str f6 ''transparency spend claim sender'' InclusionProofError) (\<lambda>sender_address.
     bindE (jat claim ''sender_public_key'') (\<lambda>f7. bindE (require_str f7 ''transparency spend claim sender key'' InclusionProofError) (\<lambda>sender_public_key.
     bindE (jat claim ''transfer_hash'') (\<lambda>f8. bindE (root_hex32 f8 ''transparency spend claim transfer hash'') (\<lambda>claim_hash.
     bindE (jat claim ''transfer_leaf_index'') (\<lambda>f9. bindE (require_int_for f9 ''transparency spend claim leaf index'' (Some 0) InclusionProofError) (\<lambda>leaf_index.
     bindE (jat claim ''accepted_at'') (\<lambda>f10. bindE (require_int_for f10 ''transparency spend claim accepted_at'' (Some 0) InclusionProofError) (\<lambda>accepted_at.
     let normalized = \<lparr>sc_type = SPEND_CLAIM_TYPE, sc_version = LOG_VERSION, sc_log_id = log_id, sc_spend_key = spend_key,
       sc_token_id = token_id, sc_previous_hash = previous_hash, sc_sequence = sequence,
       sc_sender_address = sender_address, sc_sender_public_key = sender_public_key, sc_transfer_hash = claim_hash,
       sc_transfer_leaf_index = leaf_index, sc_accepted_at = accepted_at, sc_transfer = None\<rparr> in
     case jget claim ''transfer'' of
       None \<Rightarrow> Inr normalized
     | Some j \<Rightarrow> bindE (verified_claim_transfer P j) (\<lambda>(t, h, k).
         if h \<noteq> claim_hash then Inl (InclusionProofError ''transparency spend claim transfer hash mismatch'')
         else if k \<noteq> spend_key then Inl (InclusionProofError ''transparency spend claim transfer spend key mismatch'')
         else if tr_token_id t \<noteq> token_id then Inl (InclusionProofError ''transparency spend claim transfer token_id mismatch'')
         else if tr_previous_hash t \<noteq> previous_hash then Inl (InclusionProofError ''transparency spend claim transfer previous_hash mismatch'')
         else if tr_sender_address t \<noteq> sender_address then Inl (InclusionProofError ''transparency spend claim transfer sender_address mismatch'')
         else if tr_sender_public_key t \<noteq> sender_public_key then Inl (InclusionProofError ''transparency spend claim transfer sender_public_key mismatch'')
         else if tr_sequence t \<noteq> sequence then Inl (InclusionProofError ''transparency spend claim transfer sequence mismatch'')
         else Inr (normalized\<lparr>sc_transfer := Some t\<rparr>)))))))))))))))))))))))))"

definition spend_claim_sort_key :: "spend_claim \<Rightarrow> string \<times> string \<times> int \<times> int" where
  "spend_claim_sort_key c = (sc_spend_key c, sc_transfer_hash c, sc_transfer_leaf_index c, sc_accepted_at c)"

definition spend_map_slot_hash :: "platform \<Rightarrow> string \<Rightarrow> spend_claim list \<Rightarrow> string res" where
  "spend_map_slot_hash P spend_key claims =
     bindE (hex_bytes spend_key) (\<lambda>key_bytes.
     bindE (canonical_bytes (JDict [(''spend_key'', JStr spend_key),
       (''claims'', JList (map claim_json (sort_key spend_claim_sort_key claims)))])) (\<lambda>slot.
     Inr (sha3_hex P (utf8 ''IND-SPEND-MAP-SLOT-V3:'' @ key_bytes @ slot))))"

text \<open>\<open>int(key, 16)\<close>: white space around the digits is allowed, white space between them is not.\<close>

definition int_base16 :: "string \<Rightarrow> nat res" where
  "int_base16 t = (let s = strip t in
     if s = [] \<or> \<not> list_all (\<lambda>c. hex_val c \<noteq> None) s then Inl (PyValueError ''invalid literal for int() with base 16'')
     else Inr (foldl (\<lambda>a c. 16 * a + (case hex_val c of Some v \<Rightarrow> v | None \<Rightarrow> 0)) 0 s))"

definition spend_key_position :: "string \<Rightarrow> nat res" where
  "spend_key_position spend_key = bindE (root_hex32 (JStr spend_key) ''spend key'') int_base16"

section \<open>The levels\<close>

text \<open>A level is a dict from positions to hashes, in insertion order.\<close>

type_synonym level = "(nat \<times> string) list"

definition claims_insert :: "spend_claim \<Rightarrow> spend_claim list \<Rightarrow> spend_claim list res" where
  "claims_insert c cs =
     (case find (\<lambda>d. sc_transfer_hash d = sc_transfer_hash c) cs of
        None \<Rightarrow> Inr (cs @ [c])
      | Some d \<Rightarrow> if d \<noteq> c
          then Inl (InclusionProofError ''transparency spend map contains inconsistent duplicate claims'') else Inr cs)"

definition add_claim :: "platform \<Rightarrow> (nat \<times> spend_claim list) list \<Rightarrow> json \<Rightarrow> (nat \<times> spend_claim list) list res" where
  "add_claim P by_key claim =
     bindE (normalize_spend_claim P claim) (\<lambda>c.
     bindE (int_base16 (sc_spend_key c)) (\<lambda>position.
     case map_of by_key position of
       None \<Rightarrow> Inr (by_key @ [(position, [c])])
     | Some cs \<Rightarrow> bindE (claims_insert c cs) (\<lambda>cs'. Inr (AList.update position cs' by_key))))"

definition slot_leaf :: "platform \<Rightarrow> nat \<times> spend_claim list \<Rightarrow> (nat \<times> string) res" where
  "slot_leaf P slot =
     (let claims = sort_key spend_claim_sort_key (snd slot) in
      bindE (spend_map_slot_hash P (sc_spend_key (hd claims)) claims) (\<lambda>h. Inr (fst slot, h)))"

definition level_get :: "level \<Rightarrow> nat \<Rightarrow> string \<Rightarrow> string" where
  "level_get level position fallback = (case map_of level position of Some h \<Rightarrow> h | None \<Rightarrow> fallback)"

text \<open>One step of the loop over depths: the parents of a level whose empty hash is \<open>empty_child\<close>.\<close>

definition parent_level :: "platform \<Rightarrow> string \<Rightarrow> string \<Rightarrow> level \<Rightarrow> level" where
  "parent_level P empty_child empty_parent child =
     filter (\<lambda>(_, h). h \<noteq> empty_parent)
       (map (\<lambda>p. (p, branch P (digest_bytes (level_get child (2 * p) empty_child))
                            (digest_bytes (level_get child (2 * p + 1) empty_child))))
          (remdups (map (\<lambda>(q, _). q div 2) child)))"

primrec level_at :: "platform \<Rightarrow> level \<Rightarrow> nat \<Rightarrow> level" where
  "level_at P leaves 0 = leaves"
| "level_at P leaves (Suc h) = parent_level P (empty_hash P h) (empty_hash P (Suc h)) (level_at P leaves h)"

definition spend_map_levels :: "platform \<Rightarrow> json list \<Rightarrow> (level \<times> (nat \<times> spend_claim list) list \<times> nat) res" where
  "spend_map_levels P claims =
     bindE (foldE (add_claim P) [] claims) (\<lambda>by_key.
     bindE (mapE (slot_leaf P) by_key) (\<lambda>leaves.
     let sorted = map (map_prod id (sort_key spend_claim_sort_key)) by_key in
     Inr (leaves, sorted, sum_list (map (\<lambda>(_, cs). length cs) sorted))))"

definition spend_map_root :: "platform \<Rightarrow> json list \<Rightarrow> string res" where
  "spend_map_root P claims = bindE (spend_map_levels P claims) (\<lambda>(leaves, _, _).
     Inr (level_get (level_at P leaves SPEND_MAP_KEY_BITS) 0 (spend_map_empty_root P)))"

section \<open>Proofs of inclusion\<close>

record audit_step =
  as_side :: string
  as_hash :: string

record spend_map_proof =
  smp_type :: string
  smp_version :: int
  smp_algorithm :: string
  smp_spend_key :: string
  smp_tree_size :: int
  smp_map_size :: int
  smp_spend_claims :: "json list"
  smp_audit_path :: "audit_step list"

definition expected_side :: "nat \<Rightarrow> string" where
  "expected_side position = (if even position then ''right'' else ''left'')"

text \<open>\<open>node_position ^ 1\<close>.\<close>

definition sibling_position :: "nat \<Rightarrow> nat" where
  "sibling_position p = (if even p then p + 1 else p - 1)"

text \<open>The loop over depths, from the leaves (height 0) up.\<close>

definition audit_path :: "platform \<Rightarrow> level \<Rightarrow> nat \<Rightarrow> audit_step list" where
  "audit_path P leaves position =
     map (\<lambda>h. \<lparr>as_side = expected_side (position div 2 ^ h),
                as_hash = level_get (level_at P leaves h) (sibling_position (position div 2 ^ h)) (empty_hash P h)\<rparr>)
       [0..<SPEND_MAP_KEY_BITS]"

definition build_spend_map_proof :: "platform \<Rightarrow> json list \<Rightarrow> json \<Rightarrow> int \<Rightarrow> spend_map_proof res" where
  "build_spend_map_proof P claims key tree_size =
     bindE (root_hex32 key ''spend key'') (\<lambda>spend_key.
     bindE (spend_key_position spend_key) (\<lambda>position.
     bindE (spend_map_levels P claims) (\<lambda>(leaves, by_key, total).
     case map_of by_key position of
       None \<Rightarrow> Inl (InclusionProofError ''spend key is not in the transparency spend map'')
     | Some cs \<Rightarrow> Inr \<lparr>smp_type = LOG_SPEND_MAP_PROOF_TYPE, smp_version = LOG_VERSION,
         smp_algorithm = LOG_SPEND_MAP_ALGORITHM, smp_spend_key = spend_key, smp_tree_size = tree_size,
         smp_map_size = int total, smp_spend_claims = map claim_json cs,
         smp_audit_path = audit_path P leaves position\<rparr>)))"

text \<open>The recomputation of the root along an audit path.\<close>

fun walk_path :: "platform \<Rightarrow> string \<Rightarrow> nat \<Rightarrow> audit_step list \<Rightarrow> string res" where
  "walk_path P current position [] = Inr current"
| "walk_path P current position (step # steps) =
     bindE (root_hex32 (JStr (as_hash step)) ''spend-map sibling hash'') (\<lambda>sibling.
     if as_side step \<noteq> expected_side position
     then Inl (InclusionProofError ''spend-map audit path does not follow the spend key'')
     else bindE (if as_side step = ''left'' then spend_map_branch_hash P sibling current
                 else spend_map_branch_hash P current sibling) (\<lambda>parent.
     walk_path P parent (position div 2) steps))"

definition check_claim_in_root :: "json \<Rightarrow> string \<Rightarrow> int \<Rightarrow> string set \<Rightarrow> spend_claim \<Rightarrow> string set res" where
  "check_claim_in_root signed_root spend_key root_size seen claim =
     (if jget signed_root ''log_id'' \<noteq> Some (JStr (sc_log_id claim))
      then Inl (InclusionProofError ''spend claim is for a different transparency log'')
      else if sc_spend_key claim \<noteq> spend_key
      then Inl (InclusionProofError ''spend-map proof is for a different spend key'')
      else if sc_transfer_leaf_index claim \<ge> root_size
      then Inl (InclusionProofError ''spend claim references a transfer outside the signed root'')
      else if sc_transfer_hash claim \<in> seen
      then Inl (InclusionProofError ''spend-map proof contains duplicate transfer claims'')
      else Inr (insert (sc_transfer_hash claim) seen))"

text \<open>
  A proof arrives as a dict. \<open>_hex32\<close> reads the text of a sibling hash whatever its type. A field of
  another type than the record's is refused: in the code by the check of that field, or by a
  comparison that cannot hold.
\<close>

definition read_audit_step :: "json \<Rightarrow> audit_step res" where
  "read_audit_step j =
     (if \<not> is_dict j \<or> set (dict_keys j) \<noteq> {''side'', ''hash''}
      then Inl (InclusionProofError ''malformed spend-map audit path'')
      else bindE (str_at j ''side'') (\<lambda>side. bindE (jat j ''hash'') (\<lambda>h.
        Inr \<lparr>as_side = side, as_hash = py_str h\<rparr>)))"

definition SPEND_MAP_PROOF_FIELDS :: "string list" where
  "SPEND_MAP_PROOF_FIELDS = [''type'', ''version'', ''algorithm'', ''spend_key'', ''tree_size'', ''map_size'', ''audit_path'']"

definition proof_claims :: "json \<Rightarrow> json list res" where
  "proof_claims j = (case jget j ''spend_claims'' of
     Some v \<Rightarrow> (case v of JList cs \<Rightarrow> Inr cs
       | _ \<Rightarrow> Inl (InclusionProofError ''transparency spend-map proof has no spend claims''))
   | None \<Rightarrow> bindE (jat j ''spend_claim'') (\<lambda>c. Inr [c]))"

definition read_spend_map_proof :: "json \<Rightarrow> spend_map_proof res" where
  "read_spend_map_proof j =
     (if \<not> is_dict j \<or> set (dict_keys j) \<notin> {set SPEND_MAP_PROOF_FIELDS \<union> {''spend_claims''}, set SPEND_MAP_PROOF_FIELDS \<union> {''spend_claim''}}
      then Inl (InclusionProofError ''malformed transparency spend-map proof'')
      else bindE (str_at j ''type'') (\<lambda>ty. bindE (int_at j ''version'') (\<lambda>v.
      bindE (str_at j ''algorithm'') (\<lambda>alg. bindE (str_at j ''spend_key'') (\<lambda>k.
      bindE (int_at j ''tree_size'') (\<lambda>n. bindE (int_at j ''map_size'') (\<lambda>m.
      bindE (proof_claims j) (\<lambda>cs.
      bindE (jat j ''audit_path'') (\<lambda>path.
      bindE (case path of JList steps \<Rightarrow> mapE read_audit_step steps
             | _ \<Rightarrow> Inl (InclusionProofError ''malformed spend-map audit path'')) (\<lambda>steps.
      Inr \<lparr>smp_type = ty, smp_version = v, smp_algorithm = alg, smp_spend_key = k, smp_tree_size = n,
        smp_map_size = m, smp_spend_claims = cs, smp_audit_path = steps\<rparr>))))))))))"

definition spend_map_proof_json :: "spend_map_proof \<Rightarrow> json" where
  "spend_map_proof_json p = JDict
     [(''type'', JStr (smp_type p)), (''version'', JInt (smp_version p)), (''algorithm'', JStr (smp_algorithm p)),
      (''spend_key'', JStr (smp_spend_key p)), (''tree_size'', JInt (smp_tree_size p)),
      (''map_size'', JInt (smp_map_size p)), (''spend_claims'', JList (smp_spend_claims p)),
      (''audit_path'', JList (map (\<lambda>s. JDict [(''side'', JStr (as_side s)), (''hash'', JStr (as_hash s))]) (smp_audit_path p)))]"

text \<open>The checks after the proof's shape.\<close>

definition check_spend_map_proof :: "platform \<Rightarrow> spend_map_proof \<Rightarrow> json \<Rightarrow> spend_claim list res" where
  "check_spend_map_proof P proof signed_root =
     (if smp_type proof \<noteq> LOG_SPEND_MAP_PROOF_TYPE \<or> smp_version proof \<noteq> LOG_VERSION
     then Inl (InclusionProofError ''unsupported transparency spend-map proof version'')
     else if smp_algorithm proof \<noteq> LOG_SPEND_MAP_ALGORITHM
     then Inl (InclusionProofError ''unsupported transparency spend-map algorithm'')
     else if \<not> set SPEND_MAP_FIELDS \<subseteq> set (dict_keys signed_root)
     then Inl (InclusionProofError ''signed root does not commit to a transparency spend map'')
     else if jget signed_root ''spend_map_algorithm'' \<noteq> Some (JStr LOG_SPEND_MAP_ALGORITHM)
     then Inl (InclusionProofError ''signed root uses an unsupported spend-map algorithm'')
     else bindE (require_int_for (JInt (smp_tree_size proof)) ''transparency spend-map proof tree size'' (Some 0) InclusionProofError) (\<lambda>n.
     bindE (jat signed_root ''tree_size'') (\<lambda>rn.
     bindE (require_int_for rn ''transparency root tree size'' (Some 0) InclusionProofError) (\<lambda>root_size.
     if n \<noteq> root_size then Inl (InclusionProofError ''spend-map proof tree size does not match signed root'')
     else bindE (require_int_for (JInt (smp_map_size proof)) ''transparency spend-map proof size'' (Some 0) InclusionProofError) (\<lambda>m.
     bindE (jat signed_root ''spend_map_size'') (\<lambda>rm.
     bindE (require_int_for rm ''transparency root spend-map size'' (Some 0) InclusionProofError) (\<lambda>root_map_size.
     if m \<noteq> root_map_size then Inl (InclusionProofError ''spend-map proof size does not match signed root'')
     else if smp_spend_claims proof = [] then Inl (InclusionProofError ''transparency spend-map proof has no spend claims'')
     else bindE (mapE (normalize_spend_claim P) (smp_spend_claims proof)) (\<lambda>claims.
     bindE (foldE (check_claim_in_root signed_root (smp_spend_key proof) root_size) {} claims) (\<lambda>_.
     bindE (spend_map_slot_hash P (smp_spend_key proof) claims) (\<lambda>slot.
     bindE (spend_key_position (smp_spend_key proof)) (\<lambda>position.
     if length (smp_audit_path proof) \<noteq> SPEND_MAP_KEY_BITS
     then Inl (InclusionProofError ''invalid spend-map audit path length'')
     else bindE (walk_path P slot position (smp_audit_path proof)) (\<lambda>current.
     if jget signed_root ''spend_map_root'' \<noteq> Some (JStr current)
     then Inl (InclusionProofError ''spend-map proof does not match signed root'')
     else Inr (sort_key spend_claim_sort_key claims)))))))))))))"

definition verify_spend_map_proof :: "platform \<Rightarrow> transparency \<Rightarrow> json \<Rightarrow> json \<Rightarrow> spend_claim list res" where
  "verify_spend_map_proof P T proof signed_root =
     bindE (verify_signed_root P T signed_root None) (\<lambda>_.
     bindE (read_spend_map_proof proof) (\<lambda>p. check_spend_map_proof P p signed_root))"

lemma read_spend_map_proof_json [simp]: "read_spend_map_proof (spend_map_proof_json p) = Inr p"
proof -
  have "mapE read_audit_step (map (\<lambda>s. JDict [(''side'', JStr (as_side s)), (''hash'', JStr (as_hash s))]) steps) = Inr steps" for steps
    unfolding mapE_Inr_iff list_all2_conv_all_nth by (auto simp: read_audit_step_def str_at_def jat_def)
  then show ?thesis
    by (simp add: read_spend_map_proof_def spend_map_proof_json_def SPEND_MAP_PROOF_FIELDS_def str_at_def int_at_def
        jat_def proof_claims_def insert_commute)
qed

section \<open>The tree the levels stand for\<close>

primrec node_hash :: "platform \<Rightarrow> (nat \<Rightarrow> string) \<Rightarrow> nat \<Rightarrow> nat \<Rightarrow> string" where
  "node_hash P leaf 0 p = leaf p"
| "node_hash P leaf (Suc h) p =
     branch P (digest_bytes (node_hash P leaf h (2 * p))) (digest_bytes (node_hash P leaf h (2 * p + 1)))"

definition leaf_of :: "platform \<Rightarrow> level \<Rightarrow> nat \<Rightarrow> string" where
  "leaf_of P leaves p = level_get leaves p (empty_hash P 0)"

lemma map_of_graph: "map_of (map (\<lambda>p. (p, f p)) ps) p = (if p \<in> set ps then Some (f p) else None)"
  by (induction ps) auto

lemma map_of_filter_snd:
  assumes "distinct (map fst xs)"
  shows "map_of (filter (\<lambda>(_, v). Q v) xs) p = (case map_of xs p of Some v \<Rightarrow> if Q v then Some v else None | None \<Rightarrow> None)"
  using assms
proof (induction xs)
  case (Cons x xs)
  have "map_of (filter (\<lambda>(_, v). Q v) xs) (fst x) = None"
    using Cons.prems by (auto simp: map_of_eq_None_iff)
  with Cons show ?case by (cases x) auto
qed simp

lemma level_get_parent:
  "level_get (parent_level P e e' child) p e' =
     (if p \<in> set (map (\<lambda>(q, _). q div 2) child)
      then branch P (digest_bytes (level_get child (2 * p) e)) (digest_bytes (level_get child (2 * p + 1) e)) else e')"
proof -
  let ?g = "\<lambda>p. branch P (digest_bytes (level_get child (2 * p) e)) (digest_bytes (level_get child (2 * p + 1) e))"
  let ?ps = "remdups (map (\<lambda>(q, _). q div 2) child)"
  have d: "distinct (map fst (map (\<lambda>p. (p, ?g p)) ?ps))" by (simp add: comp_def)
  show ?thesis
    unfolding parent_level_def level_get_def [of "filter _ _"] map_of_filter_snd [OF d] map_of_graph set_remdups
    by (auto split: if_splits)
qed

lemma level_get_missing: "p \<notin> fst ` set level \<Longrightarrow> level_get level p e = e"
  using map_of_eq_None_iff [of level p] by (simp add: level_get_def)

lemma children_missing:
  fixes p :: nat
  assumes "p \<notin> set (map (\<lambda>(q, _). q div 2) level)"
  shows "2 * p \<notin> fst ` set level" and "2 * p + 1 \<notin> fst ` set level"
proof -
  have *: "q div 2 \<noteq> p" if "q \<in> fst ` set level" for q using assms that by force
  show "2 * p \<notin> fst ` set level" using * [of "2 * p"] by auto
  show "2 * p + 1 \<notin> fst ` set level" using * [of "2 * p + 1"] by auto
qed

text \<open>Refinement: a level's dict, with its default, is the tree's row of nodes.\<close>

lemma level_at_node: "level_get (level_at P leaves h) p (empty_hash P h) = node_hash P (leaf_of P leaves) h p"
proof (induction h arbitrary: p)
  case 0
  then show ?case by (simp add: leaf_of_def)
next
  case (Suc h)
  show ?case
  proof (cases "p \<in> set (map (\<lambda>(q, _). q div 2) (level_at P leaves h))")
    case True
    show ?thesis unfolding level_at.simps level_get_parent if_P [OF True] Suc node_hash.simps ..
  next
    case False
    note e = level_get_missing [OF children_missing(1) [OF False], of "empty_hash P h"]
      level_get_missing [OF children_missing(2) [OF False], of "empty_hash P h"]
    show ?thesis
      unfolding level_at.simps level_get_parent if_not_P [OF False] node_hash.simps
      unfolding Suc [symmetric] e empty_hash.simps ..
  qed
qed

end
