(* ===== verification/SpendMapLaws.thy ===== *)
theory SpendMapLaws
  imports SpendMap
begin

text \<open>
  What the sparse spend map guarantees. An honest audit path leads to the root of the abstract tree
  (\<open>walk_audit_path\<close>), every proof that \<open>build_spend_map_proof\<close> returns verifies (\<open>built_proof_verifies\<close>),
  and two proofs under one root carry the same claims unless a hash of one of their preimages
  collides (\<open>walk_binding\<close>, \<open>proofs_agree\<close>).
\<close>

section \<open>Hash texts\<close>

lemma hash_text_root_hex32: "hash_text t \<Longrightarrow> root_hex32 (JStr t) label = Inr t"
  by (auto simp: hash_text_iff root_hex32_def Let_def)

lemma hash_text_bytes [simp]: "hash_text t \<Longrightarrow> hex_text (digest_bytes t) = t"
  by (auto simp: hash_text_iff digest_bytes_def)

lemma digest_bytes_hex [simp]: "digest_bytes (hex_text b) = b"
  by (simp add: digest_bytes_def)

lemma length_digest [simp]: "hash_text t \<Longrightarrow> length (digest_bytes t) = 32"
  by (auto simp: hash_text_iff)

lemma hex_bytes_hash [simp]: "hash_text t \<Longrightarrow> hex_bytes t = Inr (digest_bytes t)"
  by (auto simp: hash_text_iff hex_bytes_def)

lemma hex_bytes_Inr_iff: "hex_bytes t = Inr b \<longleftrightarrow> fromhex t = Some b"
  by (auto simp: hex_bytes_def split: option.splits)

lemma branch_text [simp]: "hash_ok P \<Longrightarrow> hash_text (branch P l r)"
  by (simp add: branch_def)

lemma branch_hash_of_texts:
  "hash_text l \<Longrightarrow> hash_text r \<Longrightarrow> spend_map_branch_hash P l r = Inr (branch P (digest_bytes l) (digest_bytes r))"
  by (simp add: spend_map_branch_hash_def)

lemma empty_hash_text [simp]: "hash_ok P \<Longrightarrow> hash_text (empty_hash P h)"
  by (cases h) simp_all

lemma node_hash_text:
  assumes "hash_ok P" and "\<And>p. hash_text (leaf p)"
  shows "hash_text (node_hash P leaf h p)"
  using assms by (cases h) simp_all

section \<open>Completeness of paths\<close>

lemma sibling_even_odd:
  "even p \<Longrightarrow> 2 * (p div 2) = p \<and> 2 * (p div 2) + 1 = sibling_position p"
  "odd p \<Longrightarrow> 2 * (p div 2) = sibling_position p \<and> 2 * (p div 2) + 1 = p"
  by (auto simp: sibling_position_def elim: oddE)

lemma node_hash_parent:
  "node_hash P leaf (Suc h) (p div 2) =
     (if even p then branch P (digest_bytes (node_hash P leaf h p)) (digest_bytes (node_hash P leaf h (sibling_position p)))
      else branch P (digest_bytes (node_hash P leaf h (sibling_position p))) (digest_bytes (node_hash P leaf h p)))"
proof (cases "even p")
  case True
  note e = sibling_even_odd(1) [OF True]
  show ?thesis unfolding node_hash.simps e [THEN conjunct2] unfolding e [THEN conjunct1] if_P [OF True] ..
next
  case False
  note e = sibling_even_odd(2) [OF False]
  show ?thesis unfolding node_hash.simps e [THEN conjunct2] unfolding e [THEN conjunct1] if_not_P [OF False] ..
qed

definition path_step :: "platform \<Rightarrow> level \<Rightarrow> nat \<Rightarrow> nat \<Rightarrow> audit_step" where
  "path_step P leaves position h = \<lparr>as_side = expected_side (position div 2 ^ h),
     as_hash = node_hash P (leaf_of P leaves) h (sibling_position (position div 2 ^ h))\<rparr>"

lemma audit_path_steps: "audit_path P leaves position = map (path_step P leaves position) [0..<SPEND_MAP_KEY_BITS]"
  unfolding audit_path_def path_step_def level_at_node ..

lemma walk_path_steps:
  assumes "hash_ok P" and "\<And>p. hash_text (leaf_of P leaves p)"
  shows "walk_path P (node_hash P (leaf_of P leaves) h (position div 2 ^ h)) (position div 2 ^ h)
      (map (path_step P leaves position) [h..<h + n])
    = Inr (node_hash P (leaf_of P leaves) (h + n) (position div 2 ^ (h + n)))"
proof (induction n arbitrary: h)
  case (Suc n)
  let ?p = "position div 2 ^ h" and ?leaf = "leaf_of P leaves"
  note texts = node_hash_text [OF assms(1), of ?leaf, OF assms(2)]
  have next_p: "?p div 2 = position div 2 ^ Suc h" by (metis div_mult2_eq power_Suc2)
  have list: "map (path_step P leaves position) [h..<h + Suc n] = path_step P leaves position h # map (path_step P leaves position) [Suc h..<Suc h + n]"
    using upt_conv_Cons [of h "h + Suc n"] by simp
  have "walk_path P (node_hash P ?leaf h ?p) ?p (map (path_step P leaves position) [h..<h + Suc n])
      = walk_path P (node_hash P ?leaf (Suc h) (?p div 2)) (?p div 2) (map (path_step P leaves position) [Suc h..<Suc h + n])"
    unfolding list node_hash_parent
    by (cases "even ?p") (simp_all add: path_step_def hash_text_root_hex32 texts branch_hash_of_texts expected_side_def del: div_mult2_eq)
  then show ?case unfolding next_p using Suc [of "Suc h"] by (simp del: node_hash.simps)
qed simp

lemma walk_audit_path:
  assumes "hash_ok P" and "\<And>p. hash_text (leaf_of P leaves p)" and "position < 2 ^ SPEND_MAP_KEY_BITS"
  shows "walk_path P (leaf_of P leaves position) position (audit_path P leaves position)
    = Inr (node_hash P (leaf_of P leaves) SPEND_MAP_KEY_BITS 0)"
  using walk_path_steps [OF assms(1,2), of 0 position SPEND_MAP_KEY_BITS] assms(3)
  by (simp add: audit_path_steps del: walk_path.simps)

section \<open>Binding\<close>

text \<open>The byte strings hashed while walking up, the lowest first.\<close>

fun walk_preimages :: "platform \<Rightarrow> string \<Rightarrow> nat \<Rightarrow> audit_step list \<Rightarrow> bytes list" where
  "walk_preimages P current position [] = []"
| "walk_preimages P current position (step # steps) =
     (let s = digest_bytes (lower (as_hash step)); c = digest_bytes current;
          m = utf8 ''IND-SPEND-MAP-BRANCH-V3:'' @ (if even position then c @ s else s @ c) in
      m # walk_preimages P (sha3_hex P m) (position div 2) steps)"

definition no_pair_collides :: "platform \<Rightarrow> bytes list \<Rightarrow> bytes list \<Rightarrow> bool" where
  "no_pair_collides P ms ms' = list_all2 (\<lambda>m m'. pf_sha3_256 P m = pf_sha3_256 P m' \<longrightarrow> m = m') ms ms'"

lemma walk_step:
  assumes "hash_ok P" and "hash_text current" and "walk_path P current position (step # steps) = Inr r"
  shows "\<exists>m. walk_preimages P current position (step # steps) = m # walk_preimages P (sha3_hex P m) (position div 2) steps
    \<and> walk_path P (sha3_hex P m) (position div 2) steps = Inr r
    \<and> m = utf8 ''IND-SPEND-MAP-BRANCH-V3:'' @ (if even position then digest_bytes current @ digest_bytes (lower (as_hash step))
        else digest_bytes (lower (as_hash step)) @ digest_bytes current)"
proof -
  from assms(3) have h: "hex64 (lower (as_hash step))" and side: "as_side step = expected_side position"
    and rest: "bindE (if as_side step = ''left'' then spend_map_branch_hash P (lower (as_hash step)) current
       else spend_map_branch_hash P current (lower (as_hash step))) (\<lambda>parent. walk_path P parent (position div 2) steps) = Inr r"
    by (auto simp: res_simps split: if_splits)
  from h obtain b where "fromhex (lower (as_hash step)) = Some b" by (auto simp: hex64_def)
  then have b: "hex_bytes (lower (as_hash step)) = Inr (digest_bytes (lower (as_hash step)))"
    by (simp add: hex_bytes_def digest_bytes_def)
  show ?thesis
    using rest side assms(2) b
    by (cases "even position") (simp_all add: spend_map_branch_hash_def branch_def expected_side_def Let_def)
qed

lemma walk_binding:
  assumes "hash_ok P" and "length steps = length steps'" and "hash_text c" "hash_text c'"
    and "walk_path P c position steps = Inr r" and "walk_path P c' position steps' = Inr r"
    and "no_pair_collides P (walk_preimages P c position steps) (walk_preimages P c' position steps')"
  shows "c = c'"
  using assms(2-)
proof (induction steps steps' arbitrary: c c' position rule: list_induct2)
  case (Cons step steps step' steps')
  from walk_step [OF assms(1) Cons.prems(1,3)] obtain m where m:
    "walk_preimages P c position (step # steps) = m # walk_preimages P (sha3_hex P m) (position div 2) steps"
    "walk_path P (sha3_hex P m) (position div 2) steps = Inr r"
    "m = utf8 ''IND-SPEND-MAP-BRANCH-V3:'' @ (if even position then digest_bytes c @ digest_bytes (lower (as_hash step))
        else digest_bytes (lower (as_hash step)) @ digest_bytes c)" by blast
  from walk_step [OF assms(1) Cons.prems(2,4)] obtain m' where m':
    "walk_preimages P c' position (step' # steps') = m' # walk_preimages P (sha3_hex P m') (position div 2) steps'"
    "walk_path P (sha3_hex P m') (position div 2) steps' = Inr r"
    "m' = utf8 ''IND-SPEND-MAP-BRANCH-V3:'' @ (if even position then digest_bytes c' @ digest_bytes (lower (as_hash step'))
        else digest_bytes (lower (as_hash step')) @ digest_bytes c')" by blast
  from Cons.prems(5) have nc: "pf_sha3_256 P m = pf_sha3_256 P m' \<longrightarrow> m = m'"
    and ncs: "no_pair_collides P (walk_preimages P (sha3_hex P m) (position div 2) steps) (walk_preimages P (sha3_hex P m') (position div 2) steps')"
    unfolding m(1) m'(1) by (simp_all add: no_pair_collides_def)
  have "sha3_hex P m = sha3_hex P m'"
    by (rule Cons.IH [OF _ _ m(2) m'(2) ncs]) (simp_all add: assms(1))
  with nc have "m = m'" by (simp add: sha3_hex_inject)
  with m(3) m'(3) Cons.prems(1,2) have "digest_bytes c = digest_bytes c'" by (cases "even position") auto
  then show ?case using Cons.prems(1,2) by (metis hash_text_bytes)
qed simp


definition slot_preimage :: "string \<Rightarrow> spend_claim list \<Rightarrow> bytes res" where
  "slot_preimage spend_key claims =
     bindE (hex_bytes spend_key) (\<lambda>key_bytes.
     bindE (canonical_bytes (JDict [(''spend_key'', JStr spend_key),
       (''claims'', JList (map claim_json (sort_key spend_claim_sort_key claims)))])) (\<lambda>slot.
     Inr (utf8 ''IND-SPEND-MAP-SLOT-V3:'' @ key_bytes @ slot)))"

lemma slot_hash_preimage: "spend_map_slot_hash P k cs = bindE (slot_preimage k cs) (\<lambda>m. Inr (sha3_hex P m))"
  by (simp add: spend_map_slot_hash_def slot_preimage_def bindE_assoc)

text \<open>All byte strings hashed while a proof is checked.\<close>

definition proof_preimages :: "platform \<Rightarrow> spend_map_proof \<Rightarrow> bytes list res" where
  "proof_preimages P q =
     bindE (mapE (normalize_spend_claim P) (smp_spend_claims q)) (\<lambda>cs.
     bindE (slot_preimage (smp_spend_key q) cs) (\<lambda>m.
     bindE (spend_key_position (smp_spend_key q)) (\<lambda>position.
     Inr (m # walk_preimages P (sha3_hex P m) position (smp_audit_path q)))))"

text \<open>What a successful check establishes.\<close>

lemma check_spend_map_proofD:
  assumes "check_spend_map_proof P q root = Inr cs"
  shows "\<exists>claims m position r. mapE (normalize_spend_claim P) (smp_spend_claims q) = Inr claims
    \<and> cs = sort_key spend_claim_sort_key claims
    \<and> slot_preimage (smp_spend_key q) claims = Inr m \<and> spend_key_position (smp_spend_key q) = Inr position
    \<and> length (smp_audit_path q) = SPEND_MAP_KEY_BITS
    \<and> walk_path P (sha3_hex P m) position (smp_audit_path q) = Inr r
    \<and> jget root ''spend_map_root'' = Some (JStr r)"
  using assms unfolding check_spend_map_proof_def bindE_Inr_iff if_Inl_Inr_iff slot_hash_preimage by auto

lemma mapE_length: "mapE f xs = Inr ys \<Longrightarrow> length ys = length xs"
  by (simp add: mapE_Inr_iff list_all2_lengthD)

lemma slot_preimage_claims:
  assumes "slot_preimage k cs = Inr m" and "slot_preimage k cs' = Inr m"
    and "\<forall>c \<in> set cs. json_wf (claim_json c)" and "\<forall>c \<in> set cs'. json_wf (claim_json c)" and "proper_text k"
  shows "map (norm \<circ> claim_json) (sort_key spend_claim_sort_key cs) = map (norm \<circ> claim_json) (sort_key spend_claim_sort_key cs')"
proof -
  let ?slot = "\<lambda>cs. JDict [(''spend_key'', JStr k), (''claims'', JList (map claim_json (sort_key spend_claim_sort_key cs)))]"
  from assms(1,2) obtain t where t: "canonical_json (?slot cs) = Inr t" "canonical_json (?slot cs') = Inr t"
    by (auto simp: slot_preimage_def canonical_bytes_def bindE_Inr_iff)
  have "json_wf (?slot cs)" "json_wf (?slot cs')" using assms(3-5) by (auto simp: list_all_iff is_ascii_def code_def)
  from canonical_json_inject [OF this t] have "norm (?slot cs) = norm (?slot cs')" .
  then show ?thesis by (simp add: comp_def)
qed

lemma root_hex32_ascii:
  assumes "root_hex32 (JStr k) l = Inr t"
  shows "hex64 k" and "t = lower k"
  using assms by (auto simp: res_simps)

lemma fromhex_ascii: "fromhex s = Some b \<Longrightarrow> is_ascii s"
proof (induction s arbitrary: b rule: fromhex.induct)
  case (2 c cs)
  then show ?case
    by (auto simp: is_ascii_def is_hex_space_def hex_val_def Let_def split: if_splits list.splits option.splits)
qed (simp add: is_ascii_def)

lemma proofs_agree:
  assumes "hash_ok P" and "check_spend_map_proof P q root = Inr cs" and "check_spend_map_proof P q' root = Inr cs'"
    and "smp_spend_key q = smp_spend_key q'"
    and "proof_preimages P q = Inr ms" and "proof_preimages P q' = Inr ms'" and "no_pair_collides P ms ms'"
    and "\<forall>c \<in> set cs. json_wf (claim_json c)" and "\<forall>c \<in> set cs'. json_wf (claim_json c)"
  shows "map (norm \<circ> claim_json) cs = map (norm \<circ> claim_json) cs'"
proof -
  from check_spend_map_proofD [OF assms(2)] obtain xs m position r where q:
    "mapE (normalize_spend_claim P) (smp_spend_claims q) = Inr xs" "cs = sort_key spend_claim_sort_key xs"
    "slot_preimage (smp_spend_key q) xs = Inr m" "spend_key_position (smp_spend_key q) = Inr position"
    "length (smp_audit_path q) = SPEND_MAP_KEY_BITS"
    "walk_path P (sha3_hex P m) position (smp_audit_path q) = Inr r" "jget root ''spend_map_root'' = Some (JStr r)" by blast
  from check_spend_map_proofD [OF assms(3)] obtain xs' m' where q':
    "mapE (normalize_spend_claim P) (smp_spend_claims q') = Inr xs'" "cs' = sort_key spend_claim_sort_key xs'"
    "slot_preimage (smp_spend_key q) xs' = Inr m'"
    "length (smp_audit_path q') = SPEND_MAP_KEY_BITS"
    "walk_path P (sha3_hex P m') position (smp_audit_path q') = Inr r"
    unfolding assms(4) [symmetric] using q(4,7) by auto
  have ms: "ms = m # walk_preimages P (sha3_hex P m) position (smp_audit_path q)"
    "ms' = m' # walk_preimages P (sha3_hex P m') position (smp_audit_path q')"
    using assms(5,6) q q' assms(4) by (simp_all add: proof_preimages_def)
  from assms(7) have nc: "pf_sha3_256 P m = pf_sha3_256 P m' \<longrightarrow> m = m'"
    "no_pair_collides P (walk_preimages P (sha3_hex P m) position (smp_audit_path q))
       (walk_preimages P (sha3_hex P m') position (smp_audit_path q'))"
    by (simp_all add: ms no_pair_collides_def)
  have "sha3_hex P m = sha3_hex P m'"
    by (rule walk_binding [OF assms(1) _ _ _ q(6) q'(5) nc(2)]) (simp_all add: q(5) q'(4) assms(1))
  with nc(1) have m: "m' = m" by (simp add: sha3_hex_inject)
  have "proper_text (smp_spend_key q)"
    using q(4) by (auto simp: spend_key_position_def bindE_Inr_iff hex64_def root_hex32_Inr_iff intro: proper_text_ascii dest: fromhex_ascii)
  from slot_preimage_claims [OF q(3) q'(3) [unfolded m] _ _ this] show ?thesis
    using assms(8,9) unfolding q(2) q'(2) by simp
qed


section \<open>Normalising twice\<close>

lemma str_at_Inr: "jget j k = Some (JStr s) \<Longrightarrow> str_at j k = Inr s"
  by (simp add: str_at_Inr_iff)

definition claim_normal :: "platform \<Rightarrow> spend_claim \<Rightarrow> bool" where
  "claim_normal P c = (sc_type c = SPEND_CLAIM_TYPE \<and> sc_version c = LOG_VERSION
     \<and> strip (sc_log_id c) = sc_log_id c \<and> hex64 (sc_spend_key c) \<and> lower (sc_spend_key c) = sc_spend_key c
     \<and> strip (sc_token_id c) = sc_token_id c \<and> hex64 (sc_previous_hash c) \<and> lower (sc_previous_hash c) = sc_previous_hash c
     \<and> 1 \<le> sc_sequence c \<and> strip (sc_sender_address c) = sc_sender_address c
     \<and> strip (sc_sender_public_key c) = sc_sender_public_key c
     \<and> hex64 (sc_transfer_hash c) \<and> lower (sc_transfer_hash c) = sc_transfer_hash c
     \<and> 0 \<le> sc_transfer_leaf_index c \<and> 0 \<le> sc_accepted_at c
     \<and> (case sc_transfer c of None \<Rightarrow> True | Some t \<Rightarrow>
          verified_claim_transfer P (transfer_json t) = Inr (t, sc_transfer_hash c, sc_spend_key c)
          \<and> tr_token_id t = sc_token_id c \<and> tr_previous_hash t = sc_previous_hash c
          \<and> tr_sender_address t = sc_sender_address c \<and> tr_sender_public_key t = sc_sender_public_key c
          \<and> tr_sequence t = sc_sequence c))"

lemma verified_transfer_again:
  assumes "verified_claim_transfer P j = Inr (t, h, k)"
  shows "verified_claim_transfer P (transfer_json t) = Inr (t, h, k)"
  using assms
  by (auto simp: verified_claim_transfer_def res_simps transfer_of_transfer_json)
    (auto simp: transfer_json_def transfer_ok_def TRANSFER_TYPE_def)


lemma normalize_claim_normal:
  assumes "normalize_spend_claim P j = Inr c"
  shows "claim_normal P c"
  using assms unfolding normalize_spend_claim_def bindE_Inr_iff if_Inl_Inr_iff Let_def
  apply (elim exE conjE)
  apply (cases "jget j ''transfer''")
   apply (auto simp: claim_normal_def res_simps SPEND_CLAIM_TYPE_def split: if_splits)[1]
  apply (auto simp: claim_normal_def res_simps split: if_splits intro: verified_transfer_again)
  done

lemma claim_get:
  "jget (claim_json c) ''type'' = Some (JStr (sc_type c))" "jget (claim_json c) ''version'' = Some (JInt (sc_version c))"
  "jget (claim_json c) ''log_id'' = Some (JStr (sc_log_id c))" "jget (claim_json c) ''spend_key'' = Some (JStr (sc_spend_key c))"
  "jget (claim_json c) ''token_id'' = Some (JStr (sc_token_id c))"
  "jget (claim_json c) ''previous_hash'' = Some (JStr (sc_previous_hash c))"
  "jget (claim_json c) ''sequence'' = Some (JInt (sc_sequence c))"
  "jget (claim_json c) ''sender_address'' = Some (JStr (sc_sender_address c))"
  "jget (claim_json c) ''sender_public_key'' = Some (JStr (sc_sender_public_key c))"
  "jget (claim_json c) ''transfer_hash'' = Some (JStr (sc_transfer_hash c))"
  "jget (claim_json c) ''transfer_leaf_index'' = Some (JInt (sc_transfer_leaf_index c))"
  "jget (claim_json c) ''accepted_at'' = Some (JInt (sc_accepted_at c))"
  "jget (claim_json c) ''transfer'' = map_option transfer_json (sc_transfer c)"
  by (simp_all add: claim_json_def claim_fields_def split: option.splits)

lemma claim_keys: "require_exact_keys (claim_json c) SPEND_CLAIM_REQUIRED l [''transfer''] InclusionProofError = Inr ()"
  unfolding require_exact_keys_Inr_iff
  by (auto simp: claim_json_def claim_fields_def SPEND_CLAIM_REQUIRED_def split: option.splits)

lemma root_hex32_normal: "hex64 t \<Longrightarrow> lower t = t \<Longrightarrow> root_hex32 (JStr t) l = Inr t"
  by (simp add: root_hex32_Inr_iff)

lemma normalize_normal_claim:
  assumes "claim_normal P c"
  shows "normalize_spend_claim P (claim_json c) = Inr c"
proof -
  have ints: "require_int_for (JInt i) l (Some m) e = Inr i" if "m \<le> i" for i l m e
    using that by (simp add: require_int_for_def)
  have free: "require_int_for (JInt i) l None e = Inr i" for i l e by (simp add: require_int_for_def)
  have strs: "require_str (JStr t) l e = Inr t" if "strip t = t" for t l e using that by (simp add: require_str_def)
  from assms have n: "sc_type c = SPEND_CLAIM_TYPE" "sc_version c = LOG_VERSION"
    "strip (sc_log_id c) = sc_log_id c" "hex64 (sc_spend_key c)" "lower (sc_spend_key c) = sc_spend_key c"
    "strip (sc_token_id c) = sc_token_id c" "hex64 (sc_previous_hash c)" "lower (sc_previous_hash c) = sc_previous_hash c"
    "1 \<le> sc_sequence c" "strip (sc_sender_address c) = sc_sender_address c"
    "strip (sc_sender_public_key c) = sc_sender_public_key c"
    "hex64 (sc_transfer_hash c)" "lower (sc_transfer_hash c) = sc_transfer_hash c"
    "0 \<le> sc_transfer_leaf_index c" "0 \<le> sc_accepted_at c" by (simp_all only: claim_normal_def)
  note steps = claim_keys claim_get jat_def bindE_simps option.case if_False if_True n not_True_eq_False
    ints [OF n(9)] ints [OF n(14)] ints [OF n(15)] free strs [OF n(3)] strs [OF n(6)] strs [OF n(10)] strs [OF n(11)]
    root_hex32_normal [OF n(4,5)] root_hex32_normal [OF n(7,8)] root_hex32_normal [OF n(12,13)] Let_def simp_thms
  show ?thesis
  proof (cases "sc_transfer c")
    case None
    then show ?thesis
      unfolding normalize_spend_claim_def
      by (simp only: steps option.map None)
        (rule arg_cong [where f = Inr], rule spend_claim.equality, simp_all only: n None spend_claim.simps, simp)
  next
    case (Some t)
    with assms have t: "verified_claim_transfer P (transfer_json t) = Inr (t, sc_transfer_hash c, sc_spend_key c)"
      "tr_token_id t = sc_token_id c" "tr_previous_hash t = sc_previous_hash c"
      "tr_sender_address t = sc_sender_address c" "tr_sender_public_key t = sc_sender_public_key c"
      "tr_sequence t = sc_sequence c" by (simp_all add: claim_normal_def)
    show ?thesis
      unfolding normalize_spend_claim_def
      by (simp only: steps option.map Some t prod.case)
        (rule arg_cong [where f = Inr], rule spend_claim.equality, simp_all only: n Some spend_claim.simps, simp)
  qed
qed

lemma claim_json_inject:
  assumes "claim_normal P c" and "claim_normal P d" and "claim_json c = claim_json d"
  shows "c = d"
  using normalize_normal_claim [OF assms(1)] normalize_normal_claim [OF assms(2)] unfolding assms(3)
  by (simp only: sum.inject)


section \<open>Positions\<close>

definition hex_char :: "char \<Rightarrow> bool" where
  "hex_char c = (c \<in> set ''0123456789abcdef'')"

definition hex_value :: "char \<Rightarrow> nat" where
  "hex_value c = (case hex_val c of Some v \<Rightarrow> v | None \<Rightarrow> 0)"

definition hex_number :: "nat \<Rightarrow> string \<Rightarrow> nat" where
  "hex_number a s = foldl (\<lambda>a c. 16 * a + hex_value c) a s"

lemma hex_value_digit:
  assumes "hex_char c"
  shows "hex_value c < 16" and "c = hex_digit (hex_value c)" and "\<not> is_space c" and "hex_val c \<noteq> None"
  using assms unfolding hex_char_def by (auto simp: hex_value_def hex_val_def hex_digit_def is_space_def code_def)

lemma hash_text_digits:
  assumes "hash_text s"
  shows "length s = 64" and "\<forall>c \<in> set s. hex_char c"
  using assms unfolding hash_text_def lower_hex_def list_all_iff hex_char_def by simp_all

lemma int_base16_hash:
  assumes "hash_text s"
  shows "int_base16 s = Inr (hex_number 0 s)"
proof -
  note d = hash_text_digits [OF assms]
  have "strip s = s" using d(2) hex_value_digit(3) by (intro strip_no_space) (auto simp only: list_all_iff)
  moreover have "list_all (\<lambda>c. hex_val c \<noteq> None) s" using d(2) hex_value_digit(4) unfolding list_all_iff by blast
  moreover have "s \<noteq> []" using d(1) by auto
  ultimately show ?thesis by (simp add: int_base16_def Let_def hex_number_def hex_value_def)
qed

lemma hex_number_inject:
  assumes "length s = length t" and "\<forall>c \<in> set s. hex_char c" and "\<forall>c \<in> set t. hex_char c"
    and "hex_number a s = hex_number b t"
  shows "a = b \<and> s = t"
  using assms
proof (induction s t arbitrary: a b rule: list_induct2)
  case Nil
  then show ?case by (simp add: hex_number_def)
next
  case (Cons c s d t)
  have "hex_number (16 * a + hex_value c) s = hex_number (16 * b + hex_value d) t"
    using Cons.prems(3) by (simp add: hex_number_def)
  with Cons.IH Cons.prems(1,2) have x: "16 * a + hex_value c = 16 * b + hex_value d" and "s = t" by simp_all
  have "hex_char c" "hex_char d" using Cons.prems by simp_all
  note c = hex_value_digit [OF this(1)] and d = hex_value_digit [OF this(2)]
  from x c(1) d(1) have "a = b" and "hex_value c = hex_value d" by presburger+
  with c(2) d(2) \<open>s = t\<close> show ?case by metis
qed

lemma hex_number_bound:
  assumes "\<forall>c \<in> set s. hex_char c" and "a < 16 ^ n"
  shows "hex_number a s < 16 ^ (n + length s)"
  using assms
proof (induction s arbitrary: a n)
  case (Cons c s)
  have "hex_char c" using Cons.prems(1) by simp
  from hex_value_digit(1) [OF this] Cons.prems(2) have "16 * a + hex_value c < 16 ^ Suc n" by simp
  from Cons.IH [OF _ this] Cons.prems(1) show ?case by (simp add: hex_number_def del: power_Suc)
qed (simp add: hex_number_def)

lemma spend_key_position_hash:
  assumes "hash_text k"
  shows "spend_key_position k = Inr (hex_number 0 k)" and "hex_number 0 k < 2 ^ SPEND_MAP_KEY_BITS"
proof -
  show "spend_key_position k = Inr (hex_number 0 k)"
    using assms by (simp add: spend_key_position_def hash_text_root_hex32 int_base16_hash)
  have "hex_number 0 k < 16 ^ (0 + length k)"
    by (rule hex_number_bound) (use hash_text_digits(2) [OF assms] in simp_all)
  then show "hex_number 0 k < 2 ^ SPEND_MAP_KEY_BITS"
    using hash_text_digits(1) [OF assms] by (simp add: SPEND_MAP_KEY_BITS_def)
qed

lemma same_position:
  assumes "hash_text k" and "hash_text k'" and "int_base16 k' = Inr (hex_number 0 k)"
  shows "k' = k"
  using hex_number_inject [of k' k 0 0] hash_text_digits [OF assms(1)] hash_text_digits [OF assms(2)] assms(3)
  by (simp add: int_base16_hash [OF assms(2)] del: list.set)


section \<open>Completeness\<close>

text \<open>What \<open>_spend_map_levels\<close> keeps of its two dicts: one slot per position, claims of distinct transfers.\<close>

definition slot_ok :: "platform \<Rightarrow> json list \<Rightarrow> nat \<Rightarrow> spend_claim list \<Rightarrow> bool" where
  "slot_ok P claims p cs = (cs \<noteq> [] \<and> distinct (map sc_transfer_hash cs)
     \<and> (\<forall>c \<in> set cs. int_base16 (sc_spend_key c) = Inr p \<and> (\<exists>j \<in> set claims. normalize_spend_claim P j = Inr c)))"

definition slots_ok :: "platform \<Rightarrow> json list \<Rightarrow> (nat \<times> spend_claim list) list \<Rightarrow> bool" where
  "slots_ok P claims slots = (distinct (map fst slots) \<and> (\<forall>s \<in> set slots. slot_ok P claims (fst s) (snd s)))"

lemma slots_okD:
  assumes "slots_ok P claims slots" and "map_of slots p = Some cs"
  shows "cs \<noteq> []" and "distinct (map sc_transfer_hash cs)" and "c \<in> set cs \<Longrightarrow> int_base16 (sc_spend_key c) = Inr p"
    and "c \<in> set cs \<Longrightarrow> \<exists>j \<in> set claims. normalize_spend_claim P j = Inr c"
  using assms by (fastforce simp: slots_ok_def slot_ok_def dest: map_of_SomeD)+

lemma claims_insert_cases:
  assumes "claims_insert c cs = Inr cs'"
  shows "cs' = cs \<or> cs' = cs @ [c] \<and> sc_transfer_hash c \<notin> sc_transfer_hash ` set cs"
  using assms by (auto simp: claims_insert_def find_None_iff split: option.splits if_splits)

lemma add_claim_slots:
  assumes "slots_ok P claims slots" and "add_claim P slots j = Inr slots'" and "j \<in> set claims"
  shows "slots_ok P claims slots'"
proof -
  from assms(2) obtain c p where c: "normalize_spend_claim P j = Inr c" "int_base16 (sc_spend_key c) = Inr p"
    and rest: "(case map_of slots p of None \<Rightarrow> Inr (slots @ [(p, [c])])
       | Some cs \<Rightarrow> bindE (claims_insert c cs) (\<lambda>cs'. Inr (AList.update p cs' slots))) = Inr slots'"
    by (auto simp: add_claim_def bindE_Inr_iff)
  show ?thesis
  proof (cases "map_of slots p")
    case None
    then have "p \<notin> fst ` set slots" by (simp add: map_of_eq_None_iff)
    moreover have "slot_ok P claims p [c]" using c assms(3) by (auto simp: slot_ok_def)
    moreover have "slots' = slots @ [(p, [c])]" using rest None by simp
    ultimately show ?thesis using assms(1) by (simp add: slots_ok_def)
  next
    case (Some cs)
    with rest obtain cs' where cs': "claims_insert c cs = Inr cs'" "slots' = AList.update p cs' slots"
      by (auto simp: bindE_Inr_iff)
    from slots_okD [OF assms(1) Some] claims_insert_cases [OF cs'(1)] c assms(3)
    have ok: "slot_ok P claims p cs'" by (auto simp: slot_ok_def)
    have d: "distinct (map fst slots)" using assms(1) by (simp add: slots_ok_def)
    then have d': "distinct (map fst slots')" unfolding cs'(2) by (rule distinct_update)
    have "(q, ds) \<in> set slots \<or> q = p \<and> ds = cs'" if "(q, ds) \<in> set slots'" for q ds
      using map_of_is_SomeI [OF d' that] unfolding cs'(2)
      by (auto simp: update_Some_unfold dest: map_of_SomeD)
    then show ?thesis using assms(1) d' ok unfolding slots_ok_def by (metis prod.collapse fst_conv snd_conv)
  qed
qed

lemma spend_map_levels_slots:
  assumes "spend_map_levels P claims = Inr (leaves, by_key, n)"
  obtains slots where "slots_ok P claims slots" and "mapE (slot_leaf P) slots = Inr leaves"
    and "by_key = map (map_prod id (sort_key spend_claim_sort_key)) slots"
proof -
  from assms obtain slots where s: "foldE (add_claim P) [] claims = Inr slots" "mapE (slot_leaf P) slots = Inr leaves"
    "by_key = map (map_prod id (sort_key spend_claim_sort_key)) slots"
    by (auto simp: spend_map_levels_def bindE_Inr_iff Let_def)
  have "slots_ok P claims slots"
    by (rule foldE_invariant [OF s(1)]) (simp_all add: slots_ok_def [of P claims "[]"] add_claim_slots)
  with s(2,3) that show thesis by blast
qed

lemma sort_key_Nil_iff [simp]: "sort_key f xs = [] \<longleftrightarrow> xs = []"
  by (metis length_0_conv length_sort)

lemma slot_leaf_fst: "slot_leaf P s = Inr x \<Longrightarrow> fst x = fst s"
  by (auto simp: slot_leaf_def Let_def bindE_Inr_iff)

lemma slot_leaf_text: "hash_ok P \<Longrightarrow> slot_leaf P s = Inr x \<Longrightarrow> hash_text (snd x)"
  by (auto simp: slot_leaf_def Let_def bindE_Inr_iff slot_hash_preimage)

lemma slot_leaves:
  assumes "mapE (slot_leaf P) slots = Inr leaves"
  shows "map_of leaves p = (case map_of slots p of None \<Rightarrow> None
    | Some cs \<Rightarrow> (case slot_leaf P (p, cs) of Inl _ \<Rightarrow> None | Inr x \<Rightarrow> Some (snd x)))"
  using assms
proof (induction slots arbitrary: leaves)
  case (Cons s slots)
  from Cons.prems obtain x xs where x: "slot_leaf P s = Inr x" "mapE (slot_leaf P) slots = Inr xs" "leaves = x # xs"
    by (auto simp: bindE_Inr_iff)
  from slot_leaf_fst [OF x(1)] Cons.IH [OF x(2)] x show ?case by (cases s; cases x) simp
qed simp

lemma leaf_text:
  assumes "hash_ok P" and "mapE (slot_leaf P) slots = Inr leaves"
  shows "hash_text (leaf_of P leaves p)"
proof -
  have "\<forall>x \<in> set leaves. hash_text (snd x)"
    using assms(2)
  proof (induction slots arbitrary: leaves)
    case (Cons s slots)
    then obtain x xs where x: "slot_leaf P s = Inr x" "mapE (slot_leaf P) slots = Inr xs" "leaves = x # xs"
      by (auto simp: bindE_Inr_iff)
    from slot_leaf_text [OF assms(1) x(1)] Cons.IH [OF x(2)] x(3) show ?case by simp
  qed simp
  then show ?thesis using assms(1) by (auto simp: leaf_of_def level_get_def split: option.splits dest!: map_of_SomeD)
qed

lemma check_claims_ok:
  assumes "\<forall>c \<in> set cs. jget root ''log_id'' = Some (JStr (sc_log_id c)) \<and> sc_spend_key c = k \<and> sc_transfer_leaf_index c < n"
    and "distinct (map sc_transfer_hash cs)" and "seen \<inter> sc_transfer_hash ` set cs = {}"
  shows "\<exists>seen'. foldE (check_claim_in_root root k n) seen cs = Inr seen'"
  using assms
proof (induction cs arbitrary: seen)
  case (Cons c cs)
  then have "check_claim_in_root root k n seen c = Inr (insert (sc_transfer_hash c) seen)"
    by (simp add: check_claim_in_root_def)
  then show ?case using Cons.IH [of "insert (sc_transfer_hash c) seen"] Cons.prems by auto
qed simp


lemma spend_map_commitment:
  assumes "verify_signed_root P T root pin = Inr ()" and "jget root ''spend_map_root'' = Some v"
  shows "set SPEND_MAP_FIELDS \<subseteq> set (dict_keys root)" and "jget root ''spend_map_algorithm'' = Some (JStr LOG_SPEND_MAP_ALGORITHM)"
    and "\<exists>n. jget root ''spend_map_size'' = Some (JInt n) \<and> 0 \<le> n" and "\<exists>n. jget root ''tree_size'' = Some (JInt n) \<and> 0 \<le> n"
proof -
  from assms(1) have c: "check_spend_map_commitment root = Inr ()" and f: "root_fields T root"
    by (auto simp: verify_signed_root_Inr_iff root_fields_def)
  from assms(2) have "''spend_map_root'' \<in> set (dict_keys root)"
    by (cases root) (force simp: jget_def dest: map_of_SomeD)+
  then have k: "set SPEND_MAP_FIELDS \<inter> set (dict_keys root) \<noteq> {}" unfolding SPEND_MAP_FIELDS_def by auto
  from c k show "set SPEND_MAP_FIELDS \<subseteq> set (dict_keys root)" "jget root ''spend_map_algorithm'' = Some (JStr LOG_SPEND_MAP_ALGORITHM)"
    "\<exists>n. jget root ''spend_map_size'' = Some (JInt n) \<and> 0 \<le> n"
    by (auto simp: check_spend_map_commitment_def bindE_Inr_iff jat_Inr_iff require_int_for_Inr_iff split: if_splits)
  from f show "\<exists>n. jget root ''tree_size'' = Some (JInt n) \<and> 0 \<le> n" by (simp add: root_fields_def)
qed

lemma walk_built_path:
  assumes "hash_ok P" and "slots_ok P claims slots" and "mapE (slot_leaf P) slots = Inr leaves"
    and "map_of slots p = Some cs" and "spend_map_slot_hash P (sc_spend_key (hd (sort_key spend_claim_sort_key cs))) (sort_key spend_claim_sort_key cs) = Inr slot"
    and "p < 2 ^ SPEND_MAP_KEY_BITS"
  shows "walk_path P slot p (audit_path P leaves p) = Inr (node_hash P (leaf_of P leaves) SPEND_MAP_KEY_BITS 0)"
proof -
  have "leaf_of P leaves p = slot"
    using assms(4,5) by (simp add: leaf_of_def level_get_def slot_leaves [OF assms(3)] slot_leaf_def Let_def)
  with walk_audit_path [OF assms(1) leaf_text [OF assms(1,3)] assms(6)] show ?thesis by simp
qed

lemma built_proof_verifies:
  assumes "hash_ok P" and "build_spend_map_proof P claims (JStr key) n = Inr q" and "hash_text (lower key)"
    and "spend_map_root P claims = Inr r" and "verify_signed_root P T root None = Inr ()"
    and "jget root ''spend_map_root'' = Some (JStr r)" and "jget root ''spend_map_size'' = Some (JInt (smp_map_size q))"
    and "jget root ''tree_size'' = Some (JInt n)"
    and honest: "\<forall>j \<in> set claims. \<forall>c. normalize_spend_claim P j = Inr c \<longrightarrow> hash_text (sc_spend_key c)
      \<and> jget root ''log_id'' = Some (JStr (sc_log_id c)) \<and> sc_transfer_leaf_index c < n"
  shows "\<exists>cs. verify_spend_map_proof P T (spend_map_proof_json q) root = Inr cs \<and> map claim_json cs = smp_spend_claims q"
proof -
  let ?k = "lower key" and ?sort = "sort_key spend_claim_sort_key"
  note pos = spend_key_position_hash [OF assms(3)]
  from assms(2) obtain leaves by_key total cs' where levels: "spend_map_levels P claims = Inr (leaves, by_key, total)"
    and cs': "map_of by_key (hex_number 0 ?k) = Some cs'"
    and q: "q = \<lparr>smp_type = LOG_SPEND_MAP_PROOF_TYPE, smp_version = LOG_VERSION,
         smp_algorithm = LOG_SPEND_MAP_ALGORITHM, smp_spend_key = ?k, smp_tree_size = n,
         smp_map_size = int total, smp_spend_claims = map claim_json cs',
         smp_audit_path = audit_path P leaves (hex_number 0 ?k)\<rparr>"
    unfolding build_spend_map_proof_def bindE_Inr_iff
    by (auto simp: root_hex32_Inr_iff pos(1) split: option.splits)
  from spend_map_levels_slots [OF levels] obtain slots where slots: "slots_ok P claims slots"
    "mapE (slot_leaf P) slots = Inr leaves" "by_key = map (map_prod id ?sort) slots" by blast
  from cs' obtain cs where cs: "map_of slots (hex_number 0 ?k) = Some cs" "cs' = ?sort cs"
    unfolding slots(3) by (induction slots) (auto split: if_splits)
  note slot = slots_okD [OF slots(1) cs(1)]
  have claims: "claim_normal P c \<and> sc_spend_key c = ?k \<and> jget root ''log_id'' = Some (JStr (sc_log_id c)) \<and> sc_transfer_leaf_index c < n"
    if "c \<in> set cs" for c
    using slot(3,4) [OF that] honest same_position [OF assms(3)] by (blast intro: normalize_claim_normal)
  then have norm: "mapE (normalize_spend_claim P) (map claim_json (?sort cs)) = Inr (?sort cs)"
    unfolding mapE_Inr_iff list_all2_map1 by (auto simp: list_all2_same normalize_normal_claim)
  have "distinct (map sc_transfer_hash (?sort cs))" using slot(2) by (simp add: distinct_map)
  with claims obtain seen where seen: "foldE (check_claim_in_root root ?k n) {} (?sort cs) = Inr seen"
    using check_claims_ok [of "?sort cs" root ?k n "{}"] by auto
  have hd: "sc_spend_key (hd (?sort cs)) = ?k" using claims slot(1) by (metis hd_in_set set_sort sort_key_Nil_iff)
  from slots(2) cs(1) obtain h where h: "spend_map_slot_hash P ?k (?sort cs) = Inr h"
  proof -
    from slot_leaves [OF slots(2), of "hex_number 0 ?k"] have "\<exists>x. slot_leaf P (hex_number 0 ?k, cs) = Inr x"
      using map_of_SomeD [OF cs(1)] slots(2) unfolding mapE_Inr_iff list_all2_conv_all_nth in_set_conv_nth by metis
    then show thesis using that hd by (auto simp: slot_leaf_def Let_def bindE_Inr_iff)
  qed
  have walk: "walk_path P h (hex_number 0 ?k) (audit_path P leaves (hex_number 0 ?k)) = Inr (node_hash P (leaf_of P leaves) SPEND_MAP_KEY_BITS 0)"
    by (rule walk_built_path [OF assms(1) slots(1,2) cs(1) _ pos(2)]) (simp add: hd h)
  have r: "r = node_hash P (leaf_of P leaves) SPEND_MAP_KEY_BITS 0"
    using assms(4) levels level_at_node [of P leaves SPEND_MAP_KEY_BITS 0]
    by (simp add: spend_map_root_def spend_map_empty_root_def spend_map_empty_hashes_def)
  note root = spend_map_commitment [OF assms(5,6)]
  have "0 \<le> n" using root(4) assms(8) by simp
  moreover have "length (audit_path P leaves (hex_number 0 ?k)) = SPEND_MAP_KEY_BITS" by (simp add: audit_path_def)
  moreover have "?sort cs \<noteq> []" using slot(1) by (metis sort_key_Nil_iff)
  ultimately have "check_spend_map_proof P q root = Inr (?sort cs)"
    unfolding q cs(2) check_spend_map_proof_def spend_map_proof.simps norm
    using assms(6,7,8) root(1,2) seen h pos(1) walk r
    by (simp add: require_int_for_def jat_def q)
  then show ?thesis
    using assms(5) by (intro exI [of _ "?sort cs"]) (simp add: verify_spend_map_proof_def q cs(2))
qed

end
