(* ===== verification/CompressedSpendMap.thy ===== *)
theory CompressedSpendMap
  imports SpendMapLaws Repeated
begin

text \<open>
  Compressed spend-map proofs (\<open>src/ind/spend_map_v3.py\<close>): a full proof without the siblings that are
  empty subtrees, its binary form, and its expansion back to the full proof that is verified. Claims
  are read with the plain \<open>json.loads\<close>, which \<open>loads_plain\<close> models beside the strict reader.
\<close>

section \<open>Plain \<open>json.loads\<close>\<close>

definition bad_plain :: error where
  "bad_plain = PyValueError ''invalid JSON''"

definition fraction_text :: "string \<Rightarrow> string" where
  "fraction_text q = (case q of c # d # r \<Rightarrow> if c = CHR ''.'' \<and> is_digit d then c # takeWhile is_digit (d # r) else [] | _ \<Rightarrow> [])"

definition exponent_text :: "string \<Rightarrow> string" where
  "exponent_text q = (if q \<noteq> [] \<and> (hd q = CHR ''e'' \<or> hd q = CHR ''E'') then
     (let r = tl q; sign = (if r \<noteq> [] \<and> (hd r = CHR ''+'' \<or> hd r = CHR ''-'') then [hd r] else []);
          ds = takeWhile is_digit (drop (length sign) r) in
      if ds = [] then [] else hd q # sign @ ds) else [])"

definition plain_number :: "string \<Rightarrow> (json \<times> string) res" where
  "plain_number s =
     (let neg = (s \<noteq> [] \<and> hd s = CHR ''-''); r = (if neg then tl s else s) in
      if r = [] \<or> \<not> is_digit (hd r) then
        (if startswith s ''NaN'' then Inr (JFloat ''nan'', drop 3 s)
         else if startswith s ''Infinity'' then Inr (JFloat ''inf'', drop 8 s)
         else if startswith s ''-Infinity'' then Inr (JFloat ''-inf'', drop 9 s)
         else Inl bad_plain)
      else let ds = (if hd r = CHR ''0'' then [hd r] else takeWhile is_digit r); q = drop (length ds) r in
        if float_tail q then
          (let f = fraction_text q; e = exponent_text (drop (length f) q) in
           Inr (JFloat ((if neg then [CHR ''-''] else []) @ ds @ f @ e), drop (length f + length e) q))
        else if length ds > MAX_INT_DIGITS then Inl bad_plain
        else Inr (JInt (if neg then - int (digits_value ds) else int (digits_value ds)), q))"

text \<open>A repeated key keeps its first place and its last value.\<close>

definition dict_of_pairs :: "(string \<times> json) list \<Rightarrow> (string \<times> json) list" where
  "dict_of_pairs kvs = foldl (\<lambda>d (k, v). AList.update k v d) [] kvs"

fun plain_value :: "nat \<Rightarrow> string \<Rightarrow> (json \<times> string) res"
  and plain_elems :: "nat \<Rightarrow> string \<Rightarrow> (json list \<times> string) res"
  and plain_members :: "nat \<Rightarrow> string \<Rightarrow> ((string \<times> json) list \<times> string) res"
where
  "plain_value 0 s = Inl bad_plain"
| "plain_value (Suc n) s =
     (if s = [] then Inl bad_plain
      else if hd s = CHR 0x22 then
        (case scan_string (tl s) of None \<Rightarrow> Inl bad_plain | Some (t, r) \<Rightarrow> Inr (JStr t, r))
      else if hd s = CHR ''{'' then
        (let r = skip_ws (tl s) in
         if r \<noteq> [] \<and> hd r = CHR ''}'' then Inr (JDict [], tl r)
         else bindE (plain_members n r) (\<lambda>(kvs, q). Inr (JDict (dict_of_pairs kvs), q)))
      else if hd s = CHR ''['' then
        (let r = skip_ws (tl s) in
         if r \<noteq> [] \<and> hd r = CHR '']'' then Inr (JList [], tl r)
         else bindE (plain_elems n r) (\<lambda>(vs, q). Inr (JList vs, q)))
      else if startswith s ''null'' then Inr (JNull, drop 4 s)
      else if startswith s ''true'' then Inr (JBool True, drop 4 s)
      else if startswith s ''false'' then Inr (JBool False, drop 5 s)
      else plain_number s)"
| "plain_elems 0 s = Inl bad_plain"
| "plain_elems (Suc n) s =
     bindE (plain_value n s) (\<lambda>(v, r). let q = skip_ws r in
       if q = [] then Inl bad_plain
       else if hd q = CHR '']'' then Inr ([v], tl q)
       else if hd q = CHR '','' then bindE (plain_elems n (skip_ws (tl q))) (\<lambda>(vs, t). Inr (v # vs, t))
       else Inl bad_plain)"
| "plain_members 0 s = Inl bad_plain"
| "plain_members (Suc n) s =
     (if s = [] \<or> hd s \<noteq> CHR 0x22 then Inl bad_plain
      else (case scan_string (tl s) of None \<Rightarrow> Inl bad_plain
        | Some (k, r) \<Rightarrow> let r1 = skip_ws r in
            if r1 = [] \<or> hd r1 \<noteq> CHR '':'' then Inl bad_plain
            else bindE (plain_value n (skip_ws (tl r1))) (\<lambda>(v, r2). let q = skip_ws r2 in
              if q = [] then Inl bad_plain
              else if hd q = CHR ''}'' then Inr ([(k, v)], tl q)
              else if hd q = CHR '','' then bindE (plain_members n (skip_ws (tl q))) (\<lambda>(kvs, t). Inr ((k, v) # kvs, t))
              else Inl bad_plain)))"

declare plain_value.simps [simp del] plain_elems.simps [simp del] plain_members.simps [simp del]

definition loads_plain :: "string \<Rightarrow> json res" where
  "loads_plain raw =
     (if startswith raw byte_order_mark then Inl bad_plain
      else bindE (plain_value (2 * length raw + 2) (skip_ws raw)) (\<lambda>(v, r).
        if skip_ws r = [] then Inr v else Inl bad_plain))"

text \<open>What the strict reader accepts, the plain reader reads alike.\<close>

lemma reject_duplicates_distinct:
  "reject_duplicates seen kvs = Inr () \<Longrightarrow> distinct (map fst kvs) \<and> seen \<inter> fst ` set kvs = {}"
  by (induction seen kvs rule: reject_duplicates.induct) (auto split: if_splits)

lemma update_new: "k \<notin> fst ` set d \<Longrightarrow> AList.update k v d = d @ [(k, v)]"
  by (induction d) auto

lemma foldl_update_new:
  "distinct (map fst kvs) \<Longrightarrow> fst ` set d \<inter> fst ` set kvs = {} \<Longrightarrow>
    foldl (\<lambda>d (k, v). AList.update k v d) d kvs = d @ kvs"
proof (induction kvs arbitrary: d)
  case (Cons x kvs)
  obtain k v where x: "x = (k, v)" by (cases x)
  have "foldl (\<lambda>d (k, v). AList.update k v d) (d @ [(k, v)]) kvs = (d @ [(k, v)]) @ kvs"
    by (rule Cons.IH) (use Cons.prems x in auto)
  moreover have "AList.update k v d = d @ [(k, v)]" by (rule update_new) (use Cons.prems x in auto)
  ultimately show ?case by (simp add: x)
qed simp

lemma dict_of_distinct: "reject_duplicates {} kvs = Inr () \<Longrightarrow> dict_of_pairs kvs = kvs"
  unfolding dict_of_pairs_def by (subst foldl_update_new) (auto dest: reject_duplicates_distinct)

lemma plain_number_strict: "parse_number s = Inr x \<Longrightarrow> plain_number s = Inr x"
proof -
  assume a: "parse_number s = Inr x"
  define neg where "neg = (s \<noteq> [] \<and> hd s = CHR ''-'')"
  define r where "r = (if neg then tl s else s)"
  define ds where "ds = (if hd r = CHR ''0'' then [hd r] else takeWhile is_digit r)"
  define q where "q = drop (length ds) r"
  note defs = Let_def neg_def [symmetric] r_def [symmetric] ds_def [symmetric] q_def [symmetric]
  from a have "\<not> (r = [] \<or> \<not> is_digit (hd r)) \<and> \<not> float_tail q"
    unfolding parse_number_def defs by (cases "r = [] \<or> \<not> is_digit (hd r)"; cases "float_tail q") (simp_all split: if_splits)
  with a show ?thesis
    unfolding parse_number_def plain_number_def defs by (simp split: if_splits)
qed

lemma plain_of_strict:
  "parse_value n s = Inr x \<Longrightarrow> plain_value n s = Inr x"
  "parse_elems n s = Inr y \<Longrightarrow> plain_elems n s = Inr y"
  "parse_members n s = Inr z \<Longrightarrow> plain_members n s = Inr z"
proof (induction n s and n s and n s arbitrary: x and y and z
    rule: parse_value_parse_elems_parse_members.induct)
  case (2 n s)
  show ?case
    using "2.prems" "2.IH" plain_number_strict
    by (auto simp: parse_value.simps plain_value.simps Let_def bindE_Inr_iff dict_of_distinct
        split: if_splits option.splits)
next
  case (4 n s)
  show ?case
    using "4.prems" "4.IH"
    by (fastforce simp: parse_elems.simps plain_elems.simps Let_def bindE_Inr_iff split: if_splits)
next
  case (6 n s)
  show ?case
    using "6.prems" "6.IH"
    by (fastforce simp: parse_members.simps plain_members.simps Let_def bindE_Inr_iff split: if_splits option.splits)
qed (simp_all add: parse_value.simps parse_elems.simps parse_members.simps)

lemma loads_plain_strict: "json_loads_strict s = Inr v \<Longrightarrow> loads_plain s = Inr v"
  by (auto simp: json_loads_strict_def loads_plain_def bindE_Inr_iff split: if_splits dest: plain_of_strict(1))


section \<open>The compressed form\<close>

definition COMPRESSED_SPEND_MAP_PROOF_TYPE :: string where
  "COMPRESSED_SPEND_MAP_PROOF_TYPE = ''ind.transparency_compressed_spend_map_proof.v3''"
definition COMPRESSED_SPEND_MAP_PROOF_VERSION :: int where "COMPRESSED_SPEND_MAP_PROOF_VERSION = 3"
definition COMPRESSED_SPEND_MAP_ALGORITHM :: string where
  "COMPRESSED_SPEND_MAP_ALGORITHM = ''IND_SPARSE_SPEND_MAP_SHA3_256_COMPRESSED_V3''"
definition COMPRESSED_SPEND_MAP_PROOF_MAGIC :: bytes where "COMPRESSED_SPEND_MAP_PROOF_MAGIC = utf8 ''IND3SPMP''"

record compressed_sibling =
  cb_depth :: int
  cb_side :: string
  cb_hash :: string

record compressed_proof =
  cz_type :: string
  cz_version :: int
  cz_network_id :: int
  cz_algorithm :: string
  cz_spend_key :: string
  cz_tree_size :: int
  cz_map_size :: int
  cz_spend_claims :: "json list"
  cz_sibling_count :: int
  cz_siblings :: "compressed_sibling list"

text \<open>The side of the sibling at a child depth, counted from the root; depth 256 is the leaves.\<close>

definition side_by_depth :: "nat \<Rightarrow> int \<Rightarrow> string" where
  "side_by_depth position depth = expected_side (position div 2 ^ (SPEND_MAP_KEY_BITS - nat depth))"

definition expected_side_by_depth :: "string \<Rightarrow> (int \<Rightarrow> string) res" where
  "expected_side_by_depth spend_key = bindE (spend_key_position spend_key) (\<lambda>position. Inr (side_by_depth position))"

text \<open>\<open>empty_hashes[depth]\<close> with Python's negative indices.\<close>

definition empty_at :: "platform \<Rightarrow> int \<Rightarrow> string res" where
  "empty_at P depth = (let n = int SPEND_MAP_KEY_BITS + 1 in
     if 0 \<le> depth \<and> depth < n then Inr (spend_map_empty_hashes P (nat depth))
     else if - n \<le> depth \<and> depth < 0 then Inr (spend_map_empty_hashes P (nat (n + depth)))
     else Inl (PyValueError ''list index out of range''))"

definition compress_step :: "platform \<Rightarrow> nat \<times> audit_step \<Rightarrow> compressed_sibling list res" where
  "compress_step P entry = (case entry of (index, step) \<Rightarrow>
     let child_depth = int SPEND_MAP_KEY_BITS - int index in
     bindE (root_hex32 (JStr (as_hash step)) ''spend-map sibling hash'') (\<lambda>h.
     bindE (empty_at P child_depth) (\<lambda>e.
     Inr (if h \<noteq> e then [\<lparr>cb_depth = child_depth, cb_side = as_side step, cb_hash = h\<rparr>] else []))))"

definition compress_audit_path :: "platform \<Rightarrow> audit_step list \<Rightarrow> compressed_sibling list res" where
  "compress_audit_path P path = bindE (mapE (compress_step P) (zip [0..<length path] path)) (\<lambda>ss. Inr (concat ss))"

definition compress_spend_map_proof :: "platform \<Rightarrow> spend_map_proof \<Rightarrow> int \<Rightarrow> compressed_proof res" where
  "compress_spend_map_proof P full network_id =
     (if smp_spend_claims full = [] then Inl (InclusionProofError ''transparency spend-map proof has no spend claims'')
      else bindE (compress_audit_path P (smp_audit_path full)) (\<lambda>siblings.
      bindE (root_hex32 (JStr (smp_spend_key full)) ''spend key'') (\<lambda>k.
      Inr \<lparr>cz_type = COMPRESSED_SPEND_MAP_PROOF_TYPE, cz_version = COMPRESSED_SPEND_MAP_PROOF_VERSION,
        cz_network_id = network_id, cz_algorithm = COMPRESSED_SPEND_MAP_ALGORITHM, cz_spend_key = k,
        cz_tree_size = smp_tree_size full, cz_map_size = smp_map_size full,
        cz_spend_claims = smp_spend_claims full, cz_sibling_count = int (length siblings),
        cz_siblings = siblings\<rparr>)))"

definition build_compressed_spend_map_proof :: "platform \<Rightarrow> json list \<Rightarrow> json \<Rightarrow> int \<Rightarrow> int \<Rightarrow> compressed_proof res" where
  "build_compressed_spend_map_proof P claims spend_key tree_size network_id =
     bindE (build_spend_map_proof P claims spend_key tree_size) (\<lambda>full. compress_spend_map_proof P full network_id)"

text \<open>Returns the spend key in lower case.\<close>

definition validate_compressed_header :: "compressed_proof \<Rightarrow> int option \<Rightarrow> string res" where
  "validate_compressed_header proof expected_network_id =
     (if cz_type proof \<noteq> COMPRESSED_SPEND_MAP_PROOF_TYPE
      then Inl (InclusionProofError ''malformed compressed spend-map proof'')
      else if cz_version proof \<noteq> COMPRESSED_SPEND_MAP_PROOF_VERSION
      then Inl (InclusionProofError ''unsupported compressed spend-map proof version'')
      else if cz_network_id proof < 0
      then Inl (InclusionProofError ''compressed spend-map proof network id is below the allowed range'')
      else if (case expected_network_id of None \<Rightarrow> False | Some n \<Rightarrow> cz_network_id proof \<noteq> n)
      then Inl (InclusionProofError ''compressed spend-map proof network id mismatch'')
      else if cz_algorithm proof \<noteq> COMPRESSED_SPEND_MAP_ALGORITHM
      then Inl (InclusionProofError ''unsupported compressed spend-map proof algorithm'')
      else bindE (root_hex32 (JStr (cz_spend_key proof)) ''spend key'') (\<lambda>spend_key.
      if cz_tree_size proof < 0
      then Inl (InclusionProofError ''compressed spend-map proof tree size is below the allowed range'')
      else if cz_map_size proof < 0
      then Inl (InclusionProofError ''compressed spend-map proof map size is below the allowed range'')
      else if cz_spend_claims proof = []
      then Inl (InclusionProofError ''compressed spend-map proof has no spend claims'')
      else if cz_sibling_count proof < 0
      then Inl (InclusionProofError ''compressed spend-map proof sibling count is below the allowed range'')
      else if cz_sibling_count proof > int SPEND_MAP_KEY_BITS
      then Inl (InclusionProofError ''compressed spend-map proof sibling count is above the allowed range'')
      else if cz_sibling_count proof \<noteq> int (length (cz_siblings proof))
      then Inl (InclusionProofError ''compressed spend-map proof sibling count mismatch'')
      else Inr spend_key))"

text \<open>One sibling of the expansion loop: the steps found so far by depth, and the previous depth.\<close>

definition expand_sibling ::
    "platform \<Rightarrow> (int \<Rightarrow> string) \<Rightarrow> (int \<times> audit_step) list \<times> int \<Rightarrow> compressed_sibling \<Rightarrow> ((int \<times> audit_step) list \<times> int) res" where
  "expand_sibling P sides state sibling = (case state of (by_depth, previous_depth) \<Rightarrow>
     let depth = cb_depth sibling in
     if depth < 1 then Inl (InclusionProofError ''compressed spend-map sibling depth is below the allowed range'')
     else if depth > int SPEND_MAP_KEY_BITS
     then Inl (InclusionProofError ''compressed spend-map sibling depth is above the allowed range'')
     else if depth \<in> fst ` set by_depth
     then Inl (InclusionProofError ''compressed spend-map proof has duplicate sibling depths'')
     else if depth \<ge> previous_depth
     then Inl (InclusionProofError ''compressed spend-map siblings are not canonical'')
     else if cb_side sibling \<noteq> sides depth
     then Inl (InclusionProofError ''compressed spend-map sibling does not follow the spend key'')
     else bindE (root_hex32 (JStr (cb_hash sibling)) ''compressed spend-map sibling hash'') (\<lambda>h.
     if h = spend_map_empty_hashes P (nat depth)
     then Inl (InclusionProofError ''compressed spend-map proof explicitly stores an empty sibling'')
     else Inr (by_depth @ [(depth, \<lparr>as_side = cb_side sibling, as_hash = h\<rparr>)], depth)))"

definition child_depths :: "int list" where
  "child_depths = map (\<lambda>i. int SPEND_MAP_KEY_BITS - int i) [0..<SPEND_MAP_KEY_BITS]"

definition expanded_audit_path :: "platform \<Rightarrow> compressed_proof \<Rightarrow> string \<Rightarrow> audit_step list res" where
  "expanded_audit_path P proof spend_key =
     bindE (expected_side_by_depth spend_key) (\<lambda>sides.
     bindE (foldE (expand_sibling P sides) ([], int SPEND_MAP_KEY_BITS + 1) (cz_siblings proof)) (\<lambda>(by_depth, _).
     Inr (map (\<lambda>depth. case map_of by_depth depth of Some step \<Rightarrow> step
            | None \<Rightarrow> \<lparr>as_side = sides depth, as_hash = spend_map_empty_hashes P (nat depth)\<rparr>) child_depths)))"

definition expand_compressed_spend_map_proof :: "platform \<Rightarrow> compressed_proof \<Rightarrow> int option \<Rightarrow> spend_map_proof res" where
  "expand_compressed_spend_map_proof P proof expected_network_id =
     bindE (validate_compressed_header proof expected_network_id) (\<lambda>spend_key.
     bindE (expanded_audit_path P proof spend_key) (\<lambda>path.
     Inr \<lparr>smp_type = LOG_SPEND_MAP_PROOF_TYPE, smp_version = LOG_VERSION, smp_algorithm = LOG_SPEND_MAP_ALGORITHM,
       smp_spend_key = spend_key, smp_tree_size = cz_tree_size proof, smp_map_size = cz_map_size proof,
       smp_spend_claims = cz_spend_claims proof, smp_audit_path = path\<rparr>))"

definition verify_compressed_spend_map_proof ::
    "platform \<Rightarrow> transparency \<Rightarrow> compressed_proof \<Rightarrow> json \<Rightarrow> int option \<Rightarrow> spend_claim list res" where
  "verify_compressed_spend_map_proof P T proof signed_root expected_network_id =
     bindE (expand_compressed_spend_map_proof P proof expected_network_id) (\<lambda>full.
     verify_spend_map_proof P T (spend_map_proof_json full) signed_root)"

section \<open>Binary form\<close>

definition spend_proof_envelope :: "int \<Rightarrow> bytes \<Rightarrow> bytes res" where
  "spend_proof_envelope network_id body = encode_envelope COMPRESSED_SPEND_MAP_PROOF_MAGIC network_id body"

definition read_spend_proof_envelope :: "int parser" where
  "read_spend_proof_envelope = read_header InclusionProofError COMPRESSED_SPEND_MAP_PROOF_MAGIC
     ''compressed spend-map magic'' ''compressed spend-map proof''"

definition side_marker :: "string \<Rightarrow> int res" where
  "side_marker side = (if side = ''left'' then Inr 0 else if side = ''right'' then Inr 1
     else Inl (InclusionProofError ''invalid compressed spend-map sibling side''))"

definition side_from_marker :: "int \<Rightarrow> string res" where
  "side_from_marker marker = (if marker = 0 then Inr ''left'' else if marker = 1 then Inr ''right''
     else Inl (InclusionProofError ''invalid compressed spend-map sibling side''))"

definition sibling_bytes :: "compressed_sibling \<Rightarrow> bytes res" where
  "sibling_bytes s = joinE [encode_uvarint (cb_depth s), bindE (side_marker (cb_side s)) encode_uvarint,
     encode_hash_hex (cb_hash s)]"

definition read_sibling :: "compressed_sibling parser" where
  "read_sibling =
     rbind (read_uvarint ''compressed spend-map sibling depth'') (\<lambda>d.
     rbind (read_uvarint ''compressed spend-map sibling side'') (\<lambda>m.
     rbind (rlift (side_from_marker m)) (\<lambda>side.
     rbind (read_hash_hex ''compressed spend-map sibling hash'') (\<lambda>h.
     rreturn \<lparr>cb_depth = d, cb_side = side, cb_hash = h\<rparr>))))"

definition compressed_body :: "compressed_proof \<Rightarrow> bytes res" where
  "compressed_body p = joinE
     [encode_ascii 128 (cz_algorithm p), encode_hash_hex (lower (cz_spend_key p)),
      encode_uvarint (cz_tree_size p), encode_uvarint (cz_map_size p),
      bindE (canonical_bytes (JList (cz_spend_claims p))) (encode_bytes MAX_BOUNDED_BYTES),
      encode_uvarint (int (length (cz_siblings p))), joinE (map sibling_bytes (cz_siblings p))]"

definition encode_compressed_spend_map_proof :: "compressed_proof \<Rightarrow> bytes res" where
  "encode_compressed_spend_map_proof proof =
     bindE (validate_compressed_header proof None) (\<lambda>_.
     bindE (compressed_body proof) (spend_proof_envelope (cz_network_id proof)))"

text \<open>The claims must be a list; the code finds out in the header check, after the siblings.\<close>

definition read_claims :: "bytes \<Rightarrow> json list res" where
  "read_claims raw =
     bindE (decode_utf8 raw ''invalid UTF-8'') (\<lambda>t. bindE (loads_plain t) (\<lambda>v.
     case v of JList cs \<Rightarrow> Inr cs | _ \<Rightarrow> Inl (InclusionProofError ''compressed spend-map proof has no spend claims'')))"

definition read_compressed_body :: "int \<Rightarrow> compressed_proof parser" where
  "read_compressed_body network_id =
     rbind (read_ascii ''compressed spend-map algorithm'' 128) (\<lambda>alg.
     rbind (read_hash_hex ''compressed spend-map spend key'') (\<lambda>k.
     rbind (read_uvarint ''compressed spend-map tree size'') (\<lambda>n.
     rbind (read_uvarint ''compressed spend-map size'') (\<lambda>m.
     rbind (read_bytes ''compressed spend-map claims'' MAX_BOUNDED_BYTES) (\<lambda>raw.
     rbind (rlift (read_claims raw)) (\<lambda>cs.
     rbind (read_uvarint ''compressed spend-map sibling count'') (\<lambda>count.
     rbind (read_many read_sibling (nat count)) (\<lambda>siblings.
     rreturn \<lparr>cz_type = COMPRESSED_SPEND_MAP_PROOF_TYPE, cz_version = COMPRESSED_SPEND_MAP_PROOF_VERSION,
        cz_network_id = network_id, cz_algorithm = alg, cz_spend_key = k, cz_tree_size = n, cz_map_size = m,
        cz_spend_claims = cs, cz_sibling_count = int (length siblings), cz_siblings = siblings\<rparr>))))))))"

definition decode_compressed_spend_map_proof :: "bytes \<Rightarrow> compressed_proof res" where
  "decode_compressed_spend_map_proof data =
     bindE (decode_all data (rbind read_spend_proof_envelope read_compressed_body)) (\<lambda>proof.
     bindE (validate_compressed_header proof (Some (cz_network_id proof))) (\<lambda>_. Inr proof))"


section \<open>Compressing loses nothing\<close>

text \<open>The path of a position: all sides follow it, all hashes are canonical texts.\<close>

definition path_follows :: "nat \<Rightarrow> audit_step list \<Rightarrow> bool" where
  "path_follows position path = (length path = SPEND_MAP_KEY_BITS
     \<and> (\<forall>i < SPEND_MAP_KEY_BITS. as_side (path ! i) = expected_side (position div 2 ^ i) \<and> hash_text (as_hash (path ! i))))"

primrec kept_steps :: "platform \<Rightarrow> nat \<Rightarrow> audit_step list \<Rightarrow> (int \<times> audit_step) list" where
  "kept_steps P i [] = []"
| "kept_steps P i (s # ss) = (if as_hash s \<noteq> empty_hash P i then [(int SPEND_MAP_KEY_BITS - int i, s)] else [])
     @ kept_steps P (Suc i) ss"

definition sibling_of :: "int \<times> audit_step \<Rightarrow> compressed_sibling" where
  "sibling_of e = \<lparr>cb_depth = fst e, cb_side = as_side (snd e), cb_hash = as_hash (snd e)\<rparr>"

lemma compress_steps:
  assumes "\<forall>s \<in> set ss. hash_text (as_hash s)" and "i + length ss \<le> SPEND_MAP_KEY_BITS"
  shows "bindE (mapE (compress_step P) (zip [i..<i + length ss] ss)) (\<lambda>xs. Inr (concat xs))
    = Inr (map sibling_of (kept_steps P i ss))"
  using assms
proof (induction ss arbitrary: i)
  case (Cons s ss)
  have "i < SPEND_MAP_KEY_BITS" using Cons.prems(2) by simp
  then have "compress_step P (i, s) = Inr (map sibling_of (if as_hash s \<noteq> empty_hash P i then [(int SPEND_MAP_KEY_BITS - int i, s)] else []))"
    using Cons.prems(1)
    by (simp add: compress_step_def Let_def hash_text_root_hex32 empty_at_def spend_map_empty_hashes_def nat_diff_distrib' sibling_of_def)
  moreover have "zip [i..<i + length (s # ss)] (s # ss) = (i, s) # zip [Suc i..<Suc i + length ss] ss"
    using upt_conv_Cons [of i "i + length (s # ss)"] by simp
  moreover have "bindE (mapE (compress_step P) (zip [Suc i..<Suc i + length ss] ss)) (\<lambda>xs. Inr (concat xs))
      = Inr (map sibling_of (kept_steps P (Suc i) ss))"
    by (rule Cons.IH) (use Cons.prems in simp_all)
  ultimately show ?case by (auto simp: bindE_Inr_iff)
qed simp

lemma expand_steps:
  assumes "\<forall>k < length ss. as_side (ss ! k) = sides (int SPEND_MAP_KEY_BITS - int (i + k)) \<and> hash_text (as_hash (ss ! k))"
    and "i + length ss \<le> SPEND_MAP_KEY_BITS"
    and "\<forall>d \<in> fst ` set found. int SPEND_MAP_KEY_BITS - int i < d" and "int SPEND_MAP_KEY_BITS - int i < previous"
  shows "\<exists>last. foldE (expand_sibling P sides) (found, previous) (map sibling_of (kept_steps P i ss))
    = Inr (found @ kept_steps P i ss, last)"
  using assms
proof (induction ss arbitrary: i found previous)
  case (Cons s ss)
  let ?d = "int SPEND_MAP_KEY_BITS - int i"
  have i: "i < SPEND_MAP_KEY_BITS" using Cons.prems(2) by simp
  have s: "as_side s = sides ?d" "hash_text (as_hash s)" using Cons.prems(1) [rule_format, of 0] by simp_all
  have rest: "\<forall>k < length ss. as_side (ss ! k) = sides (int SPEND_MAP_KEY_BITS - int (Suc i + k)) \<and> hash_text (as_hash (ss ! k))"
  proof (intro allI impI)
    fix k assume "k < length ss"
    with Cons.prems(1) [rule_format, of "Suc k"]
    show "as_side (ss ! k) = sides (int SPEND_MAP_KEY_BITS - int (Suc i + k)) \<and> hash_text (as_hash (ss ! k))" by simp
  qed
  show ?case
  proof (cases "as_hash s = empty_hash P i")
    case True
    have "\<exists>last. foldE (expand_sibling P sides) (found, previous) (map sibling_of (kept_steps P (Suc i) ss))
        = Inr (found @ kept_steps P (Suc i) ss, last)"
      by (rule Cons.IH) (use Cons.prems(2-4) rest in auto)
    with True show ?thesis by simp
  next
    case False
    have "?d \<notin> fst ` set found" using Cons.prems(3) by auto
    then have "expand_sibling P sides (found, previous) (sibling_of (?d, s)) = Inr (found @ [(?d, s)], ?d)"
      using i s False Cons.prems(4)
      by (simp add: expand_sibling_def sibling_of_def Let_def hash_text_root_hex32 spend_map_empty_hashes_def nat_diff_distrib')
    moreover have "\<exists>last. foldE (expand_sibling P sides) (found @ [(?d, s)], ?d) (map sibling_of (kept_steps P (Suc i) ss))
        = Inr ((found @ [(?d, s)]) @ kept_steps P (Suc i) ss, last)"
      by (rule Cons.IH) (use Cons.prems(2-4) rest in auto)
    ultimately show ?thesis using False by simp
  qed
qed simp

lemma kept_lookup:
  assumes "k < length ss"
  shows "map_of (kept_steps P i ss) (int SPEND_MAP_KEY_BITS - int (i + k)) =
    (if as_hash (ss ! k) \<noteq> empty_hash P (i + k) then Some (ss ! k) else None)"
  using assms
proof (induction ss arbitrary: i k)
  case (Cons s ss)
  have later: "map_of (kept_steps P j xs) d = None" if "int SPEND_MAP_KEY_BITS - int j < d" for j xs d
    using that by (induction xs arbitrary: j) auto
  show ?case
  proof (cases k)
    case 0
    then show ?thesis by (simp add: later)
  next
    case (Suc m)
    with Cons.IH [of m "Suc i"] Cons.prems show ?thesis by auto
  qed
qed simp

lemma expand_compress:
  assumes "smp_type full = LOG_SPEND_MAP_PROOF_TYPE" "smp_version full = LOG_VERSION" "smp_algorithm full = LOG_SPEND_MAP_ALGORITHM"
    and "hash_text (smp_spend_key full)" and "0 \<le> smp_tree_size full" "0 \<le> smp_map_size full"
    and "spend_key_position (smp_spend_key full) = Inr position" and "path_follows position (smp_audit_path full)"
    and "0 \<le> network_id" and "compress_spend_map_proof P full network_id = Inr c"
  shows "expand_compressed_spend_map_proof P c (Some network_id) = Inr full"
proof -
  let ?path = "smp_audit_path full"
  from assms(8) have path: "length ?path = SPEND_MAP_KEY_BITS" "\<forall>s \<in> set ?path. hash_text (as_hash s)"
    by (auto simp: path_follows_def in_set_conv_nth)
  have "compress_audit_path P ?path = Inr (map sibling_of (kept_steps P 0 ?path))"
    using compress_steps [OF path(2), of 0 P] path(1) by (simp add: compress_audit_path_def)
  with assms(4,10) have c: "c = \<lparr>cz_type = COMPRESSED_SPEND_MAP_PROOF_TYPE, cz_version = COMPRESSED_SPEND_MAP_PROOF_VERSION,
        cz_network_id = network_id, cz_algorithm = COMPRESSED_SPEND_MAP_ALGORITHM, cz_spend_key = smp_spend_key full,
        cz_tree_size = smp_tree_size full, cz_map_size = smp_map_size full,
        cz_spend_claims = smp_spend_claims full, cz_sibling_count = int (length (kept_steps P 0 ?path)),
        cz_siblings = map sibling_of (kept_steps P 0 ?path)\<rparr>" and ne: "smp_spend_claims full \<noteq> []"
    by (auto simp: compress_spend_map_proof_def hash_text_root_hex32 split: if_splits)
  have "length (kept_steps P i xs) \<le> length xs" for i xs by (induction xs arbitrary: i) (simp_all add: le_SucI)
  from this [of 0 ?path] have "validate_compressed_header c (Some network_id) = Inr (smp_spend_key full)"
    using assms(4-6,9) ne path(1) by (simp add: validate_compressed_header_def c hash_text_root_hex32)
  moreover have "\<exists>last. foldE (expand_sibling P (side_by_depth position)) ([], int SPEND_MAP_KEY_BITS + 1)
      (map sibling_of (kept_steps P 0 ?path)) = Inr ([] @ kept_steps P 0 ?path, last)"
  proof (rule expand_steps)
    show "\<forall>k<length ?path. as_side (?path ! k) = side_by_depth position (int SPEND_MAP_KEY_BITS - int (0 + k)) \<and> hash_text (as_hash (?path ! k))"
      using assms(8) by (simp add: path_follows_def side_by_depth_def nat_diff_distrib')
  qed (use path(1) in simp_all)
  moreover have "map (\<lambda>depth. case map_of (kept_steps P 0 ?path) depth of Some step \<Rightarrow> step
      | None \<Rightarrow> \<lparr>as_side = side_by_depth position depth, as_hash = spend_map_empty_hashes P (nat depth)\<rparr>) child_depths = ?path"
  proof (rule nth_equalityI)
    fix i assume "i < length (map (\<lambda>depth. case map_of (kept_steps P 0 ?path) depth of Some step \<Rightarrow> step
      | None \<Rightarrow> \<lparr>as_side = side_by_depth position depth, as_hash = spend_map_empty_hashes P (nat depth)\<rparr>) child_depths)"
    then have i: "i < SPEND_MAP_KEY_BITS" by (simp add: child_depths_def)
    with kept_lookup [of i ?path P 0] path(1) assms(8)
    show "map (\<lambda>depth. case map_of (kept_steps P 0 ?path) depth of Some step \<Rightarrow> step
      | None \<Rightarrow> \<lparr>as_side = side_by_depth position depth, as_hash = spend_map_empty_hashes P (nat depth)\<rparr>) child_depths ! i = ?path ! i"
      by (simp add: child_depths_def path_follows_def side_by_depth_def spend_map_empty_hashes_def nat_diff_distrib')
  qed (simp add: child_depths_def path(1))
  ultimately show ?thesis
    using assms(1-3,7)
    by (auto simp: expand_compressed_spend_map_proof_def expanded_audit_path_def expected_side_by_depth_def c)
qed

lemma built_path_follows: "hash_ok P \<Longrightarrow> (\<And>p. hash_text (leaf_of P leaves p)) \<Longrightarrow> path_follows position (audit_path P leaves position)"
  by (simp add: path_follows_def audit_path_steps path_step_def node_hash_text)


section \<open>The codec\<close>

definition compressed_shape :: "compressed_proof \<Rightarrow> bool" where
  "compressed_shape p = (cz_type p = COMPRESSED_SPEND_MAP_PROOF_TYPE \<and> cz_version p = COMPRESSED_SPEND_MAP_PROOF_VERSION
     \<and> hash_text (cz_spend_key p) \<and> json_wf (JList (cz_spend_claims p)) \<and> norm (JList (cz_spend_claims p)) = JList (cz_spend_claims p)
     \<and> cz_sibling_count p = int (length (cz_siblings p))
     \<and> (\<forall>s \<in> set (cz_siblings p). hash_text (cb_hash s)))"

lemma side_marker_back: "side_marker s = Inr m \<Longrightarrow> side_from_marker m = Inr s"
  by (auto simp: side_marker_def side_from_marker_def split: if_splits)

lemma sibling_reads:
  assumes "sibling_bytes s = Inr bs" and "hash_text (cb_hash s)"
  shows "reads read_sibling bs s"
proof -
  from assms(1) obtain a m b c where bs: "bs = a @ b @ [] @ c @ []"
    and enc: "encode_uvarint (cb_depth s) = Inr a" "encode_uvarint m = Inr b" "encode_hash_hex (cb_hash s) = Inr c"
    and m: "side_marker (cb_side s) = Inr m"
    unfolding sibling_bytes_def joinE_Cons_iff joinE_Nil_iff bindE_Inr_iff by auto
  show ?thesis
    unfolding read_sibling_def bs
    by (intro codec_reads; (rule enc reads_lift [OF side_marker_back [OF m]])?) (use assms(2) in simp_all)
qed

lemma read_claims_canonical:
  assumes "json_wf (JList cs)" and "norm (JList cs) = JList cs" and "canonical_bytes (JList cs) = Inr raw"
  shows "read_claims raw = Inr cs"
proof -
  from assms(3) obtain s where s: "canonical_json (JList cs) = Inr s" "raw = utf8 s"
    by (auto simp: canonical_bytes_def bindE_Inr_iff)
  then have "s = dumps (JList cs)" by (auto simp: canonical_json_def bindE_Inr_iff)
  then have "proper_text s" using dumps_ascii [OF assms(1)] by simp
  moreover have "loads_plain s = Inr (JList cs)"
    using json_loads_canonical [OF assms(1) s(1)] unfolding assms(2) by (rule loads_plain_strict)
  ultimately show ?thesis by (simp add: read_claims_def decode_utf8_def s(2))
qed

lemma compressed_reads:
  assumes "compressed_shape p" and "compressed_body p = Inr bs"
  shows "reads (read_compressed_body (cz_network_id p)) bs p"
proof -
  have k: "lower (cz_spend_key p) = cz_spend_key p" using assms(1) by (auto simp: compressed_shape_def hash_text_iff)
  from assms(2) obtain b1 b2 b3 b4 b5 b6 b7 raw where
    bs: "bs = b1 @ b2 @ b3 @ b4 @ b5 @ [] @ b6 @ b7 @ []"
    and enc: "encode_ascii 128 (cz_algorithm p) = Inr b1" "encode_hash_hex (cz_spend_key p) = Inr b2"
      "encode_uvarint (cz_tree_size p) = Inr b3" "encode_uvarint (cz_map_size p) = Inr b4"
      "encode_bytes MAX_BOUNDED_BYTES raw = Inr b5"
      "encode_uvarint (int (length (cz_siblings p))) = Inr b6"
    and raw: "canonical_bytes (JList (cz_spend_claims p)) = Inr raw"
    and sib: "joinE (map sibling_bytes (cz_siblings p)) = Inr b7"
    unfolding compressed_body_def joinE_Cons_iff joinE_Nil_iff bindE_Inr_iff k by auto
  have cs: "read_claims raw = Inr (cz_spend_claims p)"
    using assms(1) by (intro read_claims_canonical [OF _ _ raw]) (simp_all add: compressed_shape_def)
  have many: "reads (read_many read_sibling (nat (int (length (cz_siblings p))))) b7 (cz_siblings p)"
    unfolding nat_int
    by (rule reads_many [OF sib]) (use assms(1) in \<open>auto simp: compressed_shape_def intro: sibling_reads\<close>)
  show ?thesis
    unfolding read_compressed_body_def bs
    by (intro codec_reads; (rule enc many reads_lift [OF cs])?) (use assms(1) in \<open>simp_all add: compressed_shape_def\<close>)
qed

lemma spend_proof_magic_length [simp]: "length COMPRESSED_SPEND_MAP_PROOF_MAGIC = 8"
  by (simp add: COMPRESSED_SPEND_MAP_PROOF_MAGIC_def)

interpretation compressed_codec: object_codec
  InclusionProofError COMPRESSED_SPEND_MAP_PROOF_MAGIC "''compressed spend-map magic''" "''compressed spend-map proof''"
  cz_network_id compressed_shape compressed_body read_compressed_body
  by unfold_locales (simp_all add: compressed_reads)

lemma header_any: "validate_compressed_header p None = Inr k \<Longrightarrow> validate_compressed_header p (Some (cz_network_id p)) = Inr k"
  by (simp add: validate_compressed_header_def split: if_splits)

lemma decode_encode_compressed:
  assumes "compressed_shape p" and "encode_compressed_spend_map_proof p = Inr bs"
  shows "decode_compressed_spend_map_proof bs = Inr p"
proof -
  from assms(2) obtain k where k: "validate_compressed_header p None = Inr k"
    and body: "bindE (compressed_body p) (encode_envelope COMPRESSED_SPEND_MAP_PROOF_MAGIC (cz_network_id p)) = Inr bs"
    by (auto simp: encode_compressed_spend_map_proof_def spend_proof_envelope_def bindE_Inr_iff)
  from compressed_codec.decode_encode [OF assms(1) body] header_any [OF k] show ?thesis
    by (simp add: decode_compressed_spend_map_proof_def read_spend_proof_envelope_def)
qed

end
