(* ===== verification/ProofBundle.thy ===== *)
theory ProofBundle
  imports ArchiveSegment CompressedSpendMap
begin

text \<open>
  Proof bundles (\<open>src/ind/proof_bundle_v3.py\<close>): the evidence that a checkpoint is in a trusted signed
  root, that the spend map of this root holds its settled transfer without a conflicting one, and that
  it was derived from a verified source chain. Verification follows the bundles of earlier checkpoints
  recursively; its fuel is the depth of Python's recursion.
\<close>

definition PROOF_BUNDLE_TYPE :: string where "PROOF_BUNDLE_TYPE = ''ind.proof_bundle.v3''"
definition PROOF_BUNDLE_REF_TYPE :: string where "PROOF_BUNDLE_REF_TYPE = ''ind.proof_bundle_ref.v3''"
definition PROOF_ARCHIVE_SEGMENT_TYPE :: string where "PROOF_ARCHIVE_SEGMENT_TYPE = ''ind.proof_bundle_archive_segment.v3''"
definition PROOF_BUNDLE_VERSION :: int where "PROOF_BUNDLE_VERSION = 3"
definition PROOF_BUNDLE_ALGORITHM :: int where "PROOF_BUNDLE_ALGORITHM = 1"
definition PROOF_BUNDLE_MAGIC :: bytes where "PROOF_BUNDLE_MAGIC = utf8 ''IND3PBDL''"
definition PROOF_BUNDLE_REF_MAGIC :: bytes where "PROOF_BUNDLE_REF_MAGIC = utf8 ''IND3PBRF''"
definition SOURCE_FORMAT_V3_ARCHIVE_SEGMENT :: string where "SOURCE_FORMAT_V3_ARCHIVE_SEGMENT = ''ind.archive_segment.v3''"

record proof_bundle_reference =
  pr_type :: string
  pr_version :: int
  pr_network_id :: int
  pr_log_id :: string
  pr_signed_root_hash :: string
  pr_tree_size :: int
  pr_proof_bundle_algorithm :: int
  pr_proof_bundle_hash :: string

record source_evidence =
  se_type :: string
  se_version :: int
  se_network_id :: int
  se_source_format :: string
  se_archive_segment_hash :: string
  se_source_checkpoint_hash :: string
  se_previous_proof_bundle_hash :: "string option"
  se_archive_segment :: "archive_segment option"

record proof_bundle =
  pb_type :: string
  pb_version :: int
  pb_network_id :: int
  pb_algorithm :: int
  pb_log_id :: string
  pb_checkpoint_hash :: string
  pb_signed_root :: json
  pb_checkpoint_inclusion_proof :: json
  pb_compressed_spend_map_proof :: compressed_proof
  pb_source_evidence :: source_evidence
  pb_created_at :: int
  pb_proof_bundle_hash :: string

definition bundle_require_int :: "int \<Rightarrow> string \<Rightarrow> int \<Rightarrow> int res" where
  "bundle_require_int v label minimum =
     (if v < minimum then Inl (ProofBundleV3Error (label @ '' is below the allowed range'')) else Inr v)"

definition bundle_hex32 :: "string \<Rightarrow> string \<Rightarrow> string res" where
  "bundle_hex32 v label =
     (if length v \<noteq> 64 then Inl (ProofBundleV3Error (''invalid '' @ label))
      else case fromhex v of None \<Rightarrow> Inl (ProofBundleV3Error (''invalid '' @ label)) | Some _ \<Rightarrow> Inr (lower v))"

section \<open>Encoding\<close>

definition bundle_json_field :: "platform \<Rightarrow> bytes \<Rightarrow> string \<Rightarrow> json res" where
  "bundle_json_field P raw label =
     or_raise (bindE (decode_utf8 raw ''invalid UTF-8'') (unpacked_json P)) (\<lambda>_. ProofBundleV3Error (''invalid '' @ label))"

definition encode_proof_bundle_ref_body :: "proof_bundle_reference \<Rightarrow> bytes res" where
  "encode_proof_bundle_ref_body r = joinE
     [encode_ascii 128 (pr_log_id r), encode_hash_hex (pr_signed_root_hash r), encode_uvarint (pr_tree_size r),
      encode_uvarint (pr_proof_bundle_algorithm r), encode_hash_hex (pr_proof_bundle_hash r)]"

definition decode_proof_bundle_ref_body :: "int \<Rightarrow> proof_bundle_reference parser" where
  "decode_proof_bundle_ref_body network_id =
     rbind (read_ascii ''proof bundle reference log id'' 128) (\<lambda>l.
     rbind (read_hash_hex ''proof bundle reference root hash'') (\<lambda>rh.
     rbind (read_uvarint ''proof bundle reference tree size'') (\<lambda>n.
     rbind (read_uvarint ''proof bundle reference algorithm'') (\<lambda>alg.
     rbind (read_hash_hex ''proof bundle reference hash'') (\<lambda>h.
     rreturn \<lparr>pr_type = PROOF_BUNDLE_REF_TYPE, pr_version = PROOF_BUNDLE_VERSION, pr_network_id = network_id,
       pr_log_id = l, pr_signed_root_hash = rh, pr_tree_size = n, pr_proof_bundle_algorithm = alg,
       pr_proof_bundle_hash = h\<rparr>)))))"

definition encode_proof_bundle_ref :: "proof_bundle_reference \<Rightarrow> bytes res" where
  "encode_proof_bundle_ref r =
     bindE (bundle_require_int (pr_network_id r) ''proof bundle reference network id'' 0) (\<lambda>n.
     bindE (encode_proof_bundle_ref_body r) (encode_envelope PROOF_BUNDLE_REF_MAGIC n))"

definition decode_proof_bundle_ref :: "bytes \<Rightarrow> proof_bundle_reference res" where
  "decode_proof_bundle_ref data =
     decode_all data (rbind (read_header ProofBundleV3Error PROOF_BUNDLE_REF_MAGIC
       ''proof bundle reference magic'' ''proof bundle reference'') decode_proof_bundle_ref_body)"

definition encode_archive_segment_source_body :: "platform \<Rightarrow> source_evidence \<Rightarrow> bytes res" where
  "encode_archive_segment_source_body P e = joinE
     [encode_ascii 128 (se_source_format e), encode_hash_hex (se_archive_segment_hash e),
      encode_hash_hex (se_source_checkpoint_hash e), encode_hash_hex_nullable (se_previous_proof_bundle_hash e),
      (case se_archive_segment e of None \<Rightarrow> Inr [0]
       | Some s \<Rightarrow> bindE (encode_archive_segment P s True) (\<lambda>blob.
           bindE (encode_bytes MAX_BOUNDED_BYTES blob) (\<lambda>b. Inr (1 # b))))]"

definition read_embedded_segment :: "platform \<Rightarrow> archive_segment option parser" where
  "read_embedded_segment P =
     rbind (reader_read 1 ''proof bundle embedded archive marker'') (\<lambda>marker.
     if marker = [1] then
       rbind (read_bytes ''proof bundle embedded archive segment'' MAX_BOUNDED_BYTES) (\<lambda>blob.
       rbind (rlift (decode_archive_segment P blob)) (\<lambda>s. rreturn (Some s)))
     else if marker \<noteq> [0] then rlift (Inl (ProofBundleV3Error ''invalid proof bundle embedded archive marker''))
     else rreturn None)"

definition decode_archive_segment_source_body :: "platform \<Rightarrow> int \<Rightarrow> source_evidence parser" where
  "decode_archive_segment_source_body P network_id =
     rbind (read_ascii ''proof bundle source format'' 128) (\<lambda>f.
     rbind (read_hash_hex ''proof bundle archive segment hash'') (\<lambda>ah.
     rbind (read_hash_hex ''proof bundle source checkpoint hash'') (\<lambda>ch.
     rbind (read_nullable_hash_hex ''proof bundle previous hash'') (\<lambda>ph.
     rbind (read_embedded_segment P) (\<lambda>s.
     rreturn \<lparr>se_type = PROOF_ARCHIVE_SEGMENT_TYPE, se_version = PROOF_BUNDLE_VERSION, se_network_id = network_id,
       se_source_format = f, se_archive_segment_hash = ah, se_source_checkpoint_hash = ch,
       se_previous_proof_bundle_hash = ph, se_archive_segment = s\<rparr>)))))"

definition proof_bundle_bytes :: "platform \<Rightarrow> proof_bundle \<Rightarrow> bytes res" where
  "proof_bundle_bytes P b = joinE
     [encode_uvarint (pb_algorithm b), encode_ascii 128 (pb_log_id b), encode_hash_hex (pb_checkpoint_hash b),
      bindE (canonical_bytes (pb_signed_root b)) (encode_bytes MAX_BOUNDED_BYTES),
      bindE (canonical_bytes (pb_checkpoint_inclusion_proof b)) (encode_bytes MAX_BOUNDED_BYTES),
      bindE (encode_compressed_spend_map_proof (pb_compressed_spend_map_proof b)) (encode_bytes MAX_BOUNDED_BYTES),
      encode_archive_segment_source_body P (pb_source_evidence b),
      encode_uvarint (pb_created_at b), encode_hash_hex (pb_proof_bundle_hash b)]"

definition encode_proof_bundle :: "platform \<Rightarrow> proof_bundle \<Rightarrow> bool \<Rightarrow> bytes res" where
  "encode_proof_bundle P bundle include_hash =
     bindE (bundle_require_int (pb_network_id bundle) ''proof bundle network id'' 0) (\<lambda>n.
     let b = (if include_hash then bundle else bundle\<lparr>pb_proof_bundle_hash := zero_hash\<rparr>) in
     bindE (bundle_hex32 (pb_checkpoint_hash b) ''checkpoint hash'') (\<lambda>_.
     bindE (bundle_hex32 (pb_proof_bundle_hash b) ''proof bundle hash'') (\<lambda>_.
     bindE (proof_bundle_bytes P b) (encode_envelope PROOF_BUNDLE_MAGIC n))))"

definition decode_proof_bundle_body :: "platform \<Rightarrow> int \<Rightarrow> proof_bundle parser" where
  "decode_proof_bundle_body P network_id =
     rbind (read_uvarint ''proof bundle algorithm'') (\<lambda>alg.
     rbind (read_ascii ''proof bundle log id'' 128) (\<lambda>l.
     rbind (read_hash_hex ''proof bundle checkpoint hash'') (\<lambda>ch.
     rbind (read_bytes ''proof bundle signed root'' MAX_BOUNDED_BYTES) (\<lambda>raw_root.
     rbind (rlift (bundle_json_field P raw_root ''proof bundle signed root'')) (\<lambda>root.
     rbind (read_bytes ''proof bundle inclusion proof'' MAX_BOUNDED_BYTES) (\<lambda>raw_proof.
     rbind (rlift (bundle_json_field P raw_proof ''proof bundle inclusion proof'')) (\<lambda>inclusion.
     rbind (read_bytes ''proof bundle compressed spend proof'' MAX_BOUNDED_BYTES) (\<lambda>raw_spend.
     rbind (rlift (decode_compressed_spend_map_proof raw_spend)) (\<lambda>spend.
     rbind (decode_archive_segment_source_body P network_id) (\<lambda>source.
     rbind (read_uvarint ''proof bundle created_at'') (\<lambda>at.
     rbind (read_hash_hex ''proof bundle hash'') (\<lambda>h.
     rreturn \<lparr>pb_type = PROOF_BUNDLE_TYPE, pb_version = PROOF_BUNDLE_VERSION, pb_network_id = network_id,
       pb_algorithm = alg, pb_log_id = l, pb_checkpoint_hash = ch, pb_signed_root = root,
       pb_checkpoint_inclusion_proof = inclusion, pb_compressed_spend_map_proof = spend,
       pb_source_evidence = source, pb_created_at = at, pb_proof_bundle_hash = h\<rparr>))))))))))))"

definition decode_proof_bundle :: "platform \<Rightarrow> bytes \<Rightarrow> proof_bundle res" where
  "decode_proof_bundle P data =
     decode_all data (rbind (read_header ProofBundleV3Error PROOF_BUNDLE_MAGIC ''proof bundle magic'' ''proof bundle'')
       (decode_proof_bundle_body P))"

section \<open>Making a bundle\<close>

definition proof_bundle_hash :: "platform \<Rightarrow> proof_bundle \<Rightarrow> string res" where
  "proof_bundle_hash P bundle =
     bindE (encode_proof_bundle P bundle False) (\<lambda>b.
     bindE (object_hash P PROOF_BUNDLE_TYPE b) (\<lambda>h. Inr (hex_text h)))"

definition finalize_proof_bundle :: "platform \<Rightarrow> proof_bundle \<Rightarrow> proof_bundle res" where
  "finalize_proof_bundle P bundle = bindE (proof_bundle_hash P bundle) (\<lambda>h. Inr (bundle\<lparr>pb_proof_bundle_hash := h\<rparr>))"

text \<open>\<open>resolver\<close> is the optional resolver of earlier segments, \<open>depth\<close> the recursion depth.\<close>

definition make_archive_segment_evidence ::
    "nat \<Rightarrow> platform \<Rightarrow> archive_segment \<Rightarrow> int \<Rightarrow> bool \<Rightarrow> string option \<Rightarrow> (string \<Rightarrow> archive_segment option) option
      \<Rightarrow> source_evidence res" where
  "make_archive_segment_evidence depth P segment network_id include_segment previous_hash resolver =
     bindE (verify_archive_segment depth P segment (Some network_id) None
       \<lparr>rs_segment = resolver, rs_checkpoint = None\<rparr> None) (\<lambda>core.
     if cp_previous_checkpoint_hash core \<noteq> None \<and> previous_hash = None
     then Inl (ProofBundleV3Error ''previous proof bundle hash is required'')
     else bindE (case previous_hash of None \<Rightarrow> Inr None
       | Some h \<Rightarrow> bindE (bundle_hex32 h ''previous proof bundle hash'') (\<lambda>h. Inr (Some h))) (\<lambda>previous.
     bindE (archive_segment_hash P segment) (\<lambda>segment_hash.
     Inr \<lparr>se_type = PROOF_ARCHIVE_SEGMENT_TYPE, se_version = PROOF_BUNDLE_VERSION, se_network_id = network_id,
       se_source_format = SOURCE_FORMAT_V3_ARCHIVE_SEGMENT, se_archive_segment_hash = segment_hash,
       se_source_checkpoint_hash = cp_checkpoint_hash core, se_previous_proof_bundle_hash = previous,
       se_archive_segment = (if include_segment then Some segment else None)\<rparr>)))"

definition make_proof_bundle ::
    "platform \<Rightarrow> checkpoint_core \<Rightarrow> json \<Rightarrow> json \<Rightarrow> compressed_proof \<Rightarrow> source_evidence \<Rightarrow> int \<Rightarrow> int \<Rightarrow> proof_bundle res" where
  "make_proof_bundle P checkpoint signed_root inclusion spend source network_id created_at =
     bindE (bundle_hex32 (cp_checkpoint_hash checkpoint) ''checkpoint hash'') (\<lambda>ch.
     bindE (jat signed_root ''log_id'') (\<lambda>log_id.
     finalize_proof_bundle P
       \<lparr>pb_type = PROOF_BUNDLE_TYPE, pb_version = PROOF_BUNDLE_VERSION, pb_network_id = network_id,
        pb_algorithm = PROOF_BUNDLE_ALGORITHM, pb_log_id = py_str log_id, pb_checkpoint_hash = ch,
        pb_signed_root = signed_root, pb_checkpoint_inclusion_proof = inclusion,
        pb_compressed_spend_map_proof = spend, pb_source_evidence = source, pb_created_at = created_at,
        pb_proof_bundle_hash = []\<rparr>))"

definition verify_self_hash :: "platform \<Rightarrow> proof_bundle \<Rightarrow> unit res" where
  "verify_self_hash P bundle = bindE (proof_bundle_hash P bundle) (\<lambda>h.
     if pb_proof_bundle_hash bundle \<noteq> h then Inl (ProofBundleV3Error ''proof bundle hash mismatch'') else Inr ())"

definition proof_bundle_ref :: "platform \<Rightarrow> proof_bundle \<Rightarrow> proof_bundle_reference res" where
  "proof_bundle_ref P bundle =
     bindE (verify_self_hash P bundle) (\<lambda>_.
     bindE (signed_root_id P (pb_signed_root bundle)) (\<lambda>root_id.
     bindE (int_at (pb_signed_root bundle) ''tree_size'') (\<lambda>n.
     Inr \<lparr>pr_type = PROOF_BUNDLE_REF_TYPE, pr_version = PROOF_BUNDLE_VERSION, pr_network_id = pb_network_id bundle,
       pr_log_id = pb_log_id bundle, pr_signed_root_hash = root_id, pr_tree_size = n,
       pr_proof_bundle_algorithm = pb_algorithm bundle, pr_proof_bundle_hash = pb_proof_bundle_hash bundle\<rparr>)))"

definition verify_proof_bundle_ref :: "platform \<Rightarrow> proof_bundle_reference \<Rightarrow> proof_bundle \<Rightarrow> int option \<Rightarrow> unit res" where
  "verify_proof_bundle_ref P r bundle expected_network_id =
     (if pr_type r \<noteq> PROOF_BUNDLE_REF_TYPE then Inl (ProofBundleV3Error ''malformed proof bundle reference'')
      else if pr_version r \<noteq> PROOF_BUNDLE_VERSION
      then Inl (ProofBundleV3Error ''unsupported proof bundle reference version'')
      else bindE (bundle_require_int (pr_network_id r) ''proof bundle reference network id'' 0) (\<lambda>n.
      if (case expected_network_id of None \<Rightarrow> False | Some e \<Rightarrow> n \<noteq> e)
      then Inl (ProofBundleV3Error ''proof bundle reference network id mismatch'')
      else if pr_proof_bundle_hash r \<noteq> pb_proof_bundle_hash bundle
      then Inl (ProofBundleV3Error ''proof bundle reference hash mismatch'')
      else bindE (proof_bundle_hash P bundle) (\<lambda>h.
      if pr_proof_bundle_hash r \<noteq> h then Inl (ProofBundleV3Error ''proof bundle hash mismatch'')
      else if pr_log_id r \<noteq> pb_log_id bundle \<or> jget (pb_signed_root bundle) ''log_id'' \<noteq> Some (JStr (pr_log_id r))
      then Inl (ProofBundleV3Error ''proof bundle reference log id mismatch'')
      else bindE (signed_root_id P (pb_signed_root bundle)) (\<lambda>root_id.
      if pr_signed_root_hash r \<noteq> root_id then Inl (ProofBundleV3Error ''proof bundle reference root hash mismatch'')
      else bindE (bundle_require_int (pr_tree_size r) ''proof bundle reference tree size'' 0) (\<lambda>size.
      bindE (int_at (pb_signed_root bundle) ''tree_size'') (\<lambda>root_size.
      if size \<noteq> root_size then Inl (ProofBundleV3Error ''proof bundle reference tree size mismatch'')
      else if pr_proof_bundle_algorithm r \<noteq> PROOF_BUNDLE_ALGORITHM
      then Inl (ProofBundleV3Error ''unsupported proof bundle reference algorithm'')
      else Inr ()))))))"


section \<open>Verification\<close>

text \<open>
  What the bundle asks of a transparency verifier object: its pinned operator key (empty for none), and
  the mirrored root with a given timestamp that contains a leaf. \<open>ctx_verifier\<close> chooses one for a signed
  root, or none; \<open>ctx_trusted_key\<close> is the pinned key argument; the resolvers may find nothing.
\<close>

record root_verifier =
  rv_operator_key :: string
  rv_mirrored_root :: "int \<Rightarrow> int \<Rightarrow> json res"

record bundle_context =
  ctx_verifier :: "json \<Rightarrow> root_verifier option res"
  ctx_trusted_key :: "string option"
  ctx_segments :: "(string \<Rightarrow> archive_segment option) option"
  ctx_bundles :: "(string \<Rightarrow> proof_bundle option) option"

text \<open>\<open>verifier.operator_public_key or signed_root.get("operator_public_key")\<close>.\<close>

definition effective_operator_key :: "root_verifier \<Rightarrow> json \<Rightarrow> string option" where
  "effective_operator_key v root = (if rv_operator_key v \<noteq> [] then Some (rv_operator_key v)
     else (case jget root ''operator_public_key'' of Some (JStr k) \<Rightarrow> Some k | _ \<Rightarrow> None))"

definition operator_key_for_policy ::
    "platform \<Rightarrow> transparency \<Rightarrow> bundle_context \<Rightarrow> json \<Rightarrow> (string option \<times> root_verifier option) res" where
  "operator_key_for_policy P T C signed_root =
     bindE (ctx_verifier C signed_root) (\<lambda>verifier.
     case verifier of
       Some v \<Rightarrow> let key = effective_operator_key v signed_root in
         bindE (verify_signed_root P T signed_root key) (\<lambda>_. Inr (key, Some v))
     | None \<Rightarrow>
         if tl_production T
         then Inl (ProofBundleV3Error ''proof bundle requires a mirrored transparency verifier in production'')
         else (case ctx_trusted_key C of
           Some k \<Rightarrow> if k = []
             then Inl (ProofBundleV3Error ''proof bundle requires a trusted transparency verifier or pinned operator key'')
             else bindE (verify_signed_root P T signed_root (Some k)) (\<lambda>_. Inr (Some k, None))
         | None \<Rightarrow> Inl (ProofBundleV3Error ''proof bundle requires a trusted transparency verifier or pinned operator key'')))"

definition verify_mirrored_root :: "platform \<Rightarrow> proof_bundle \<Rightarrow> root_verifier option \<Rightarrow> unit res" where
  "verify_mirrored_root P bundle verifier = (case verifier of None \<Rightarrow> Inr ()
   | Some v \<Rightarrow>
       bindE (int_at (pb_checkpoint_inclusion_proof bundle) ''leaf_index'') (\<lambda>leaf_index.
       bindE (int_at (pb_signed_root bundle) ''timestamp'') (\<lambda>timestamp.
       bindE (rv_mirrored_root v timestamp leaf_index) (\<lambda>mirrored.
       bindE (signed_root_id P mirrored) (\<lambda>a. bindE (signed_root_id P (pb_signed_root bundle)) (\<lambda>b.
       if a \<noteq> b then Inl (ProofBundleV3Error ''proof bundle signed root was not mirrored exactly'') else Inr ()))))))"

text \<open>The checks on the settled transfer that a claim carries.\<close>

definition check_settled_transfer ::
    "platform \<Rightarrow> checkpoint_core \<Rightarrow> spend_claim list \<Rightarrow> spend_claim \<Rightarrow> transfer \<Rightarrow> unit res" where
  "check_settled_transfer P core claims claim t =
     bindE (validate_transfer_shape P t (cp_network_id core) True None) (\<lambda>_.
     bindE (verify_transfer_signature P t) (\<lambda>_.
     bindE (transfer_hash P t) (\<lambda>h.
     if h \<noteq> cp_last_transfer_hash core
     then Inl (ProofBundleV3Error ''checkpoint spend proof transfer hash mismatch'')
     else bindE (spend_key_for_transfer P t) (\<lambda>k.
     if sc_spend_key claim \<noteq> k
     then Inl (ProofBundleV3Error ''checkpoint spend proof is for a different bill state'')
     else if tr_recipient_address t \<noteq> cp_owner_address core
     then Inl (ProofBundleV3Error ''checkpoint spend proof owner mismatch'')
     else if tr_timestamp t \<noteq> cp_last_transfer_timestamp core
     then Inl (ProofBundleV3Error ''checkpoint spend proof timestamp mismatch'')
     else if filter (\<lambda>c. sc_transfer_hash c \<noteq> cp_last_transfer_hash core) claims \<noteq> []
     then Inl (ProofBundleV3Error ''checkpoint spend proof contains a conflicting sibling claim'')
     else Inr ()))))"

definition check_settled_claim :: "platform \<Rightarrow> checkpoint_core \<Rightarrow> spend_claim list \<Rightarrow> unit res" where
  "check_settled_claim P core claims =
     (case find (\<lambda>c. sc_transfer_hash c = cp_last_transfer_hash core) claims of
        None \<Rightarrow> Inl (ProofBundleV3Error ''checkpoint spend proof does not contain its settled transfer'')
      | Some claim \<Rightarrow>
          if sc_token_id claim \<noteq> cp_token_id core then Inl (ProofBundleV3Error ''checkpoint spend proof bill id mismatch'')
          else if sc_sequence claim \<noteq> cp_sequence core then Inl (ProofBundleV3Error ''checkpoint spend proof sequence mismatch'')
          else (case sc_transfer claim of
            None \<Rightarrow> Inl (ProofBundleV3Error ''checkpoint spend proof is missing the settled transfer body'')
          | Some t \<Rightarrow> check_settled_transfer P core claims claim t))"

definition verify_v3_checkpoint_spend_proof ::
    "platform \<Rightarrow> transparency \<Rightarrow> checkpoint_core \<Rightarrow> compressed_proof \<Rightarrow> json \<Rightarrow> string option \<Rightarrow> unit res" where
  "verify_v3_checkpoint_spend_proof P T core proof signed_root operator_key =
     bindE (verify_signed_root P T signed_root operator_key) (\<lambda>_.
     bindE (verify_compressed_spend_map_proof P T proof signed_root (Some (cp_network_id core))) (\<lambda>claims.
     check_settled_claim P core claims))"

text \<open>
  The source evidence. \<open>verify\<close> is the recursive check of the bundle of the previous checkpoint, given
  its checkpoint hash, the network id and the bundles already seen; \<open>depth\<close> is left to the walk over
  archive segments.
\<close>

definition source_segment :: "bundle_context \<Rightarrow> source_evidence \<Rightarrow> string \<Rightarrow> archive_segment res" where
  "source_segment C e segment_hash =
     (case se_archive_segment e of Some s \<Rightarrow> Inr s
      | None \<Rightarrow> (case ctx_segments C of
          None \<Rightarrow> Inl (ProofBundleV3Error ''archive segment resolver is required'')
        | Some resolver \<Rightarrow> (case resolver segment_hash of Some s \<Rightarrow> Inr s
            | None \<Rightarrow> Inl (ArchiveSegmentV3Error ''archive segment must be a dict''))))"

definition check_previous_bundle ::
    "bundle_context \<Rightarrow> (proof_bundle \<Rightarrow> string \<Rightarrow> int \<Rightarrow> string set \<Rightarrow> checkpoint_core res)
      \<Rightarrow> source_evidence \<Rightarrow> string \<Rightarrow> int \<Rightarrow> string set \<Rightarrow> unit res" where
  "check_previous_bundle C verify e previous_checkpoint n seen =
     (case se_previous_proof_bundle_hash e of
        None \<Rightarrow> Inl (ProofBundleV3Error ''previous proof bundle hash is required'')
      | Some bh \<Rightarrow> (case ctx_bundles C of
          None \<Rightarrow> Inl (ProofBundleV3Error ''previous proof bundle resolver is required'')
        | Some resolver \<Rightarrow> bindE (bundle_hex32 bh ''previous proof bundle hash'') (\<lambda>previous_hash.
            if previous_hash \<in> seen then Inl (ProofBundleV3Error ''proof bundle recursion cycle'')
            else (case resolver previous_hash of
              None \<Rightarrow> Inl (ProofBundleV3Error ''previous proof bundle is required'')
            | Some b \<Rightarrow> if pb_proof_bundle_hash b \<noteq> previous_hash
                then Inl (ProofBundleV3Error ''previous proof bundle hash mismatch'')
                else bindE (verify b previous_checkpoint n seen) (\<lambda>_. Inr ())))))"

definition verify_archive_segment_source ::
    "nat \<Rightarrow> platform \<Rightarrow> bundle_context \<Rightarrow> (proof_bundle \<Rightarrow> string \<Rightarrow> int \<Rightarrow> string set \<Rightarrow> checkpoint_core res)
      \<Rightarrow> source_evidence \<Rightarrow> int \<Rightarrow> string set \<Rightarrow> checkpoint_core res" where
  "verify_archive_segment_source depth P C verify e expected_network_id seen =
     (if se_type e \<noteq> PROOF_ARCHIVE_SEGMENT_TYPE then Inl (ProofBundleV3Error ''unsupported proof bundle source evidence'')
      else if se_version e \<noteq> PROOF_BUNDLE_VERSION then Inl (ProofBundleV3Error ''unsupported source evidence version'')
      else bindE (bundle_require_int (se_network_id e) ''source evidence network id'' 0) (\<lambda>n.
      if n \<noteq> expected_network_id then Inl (ProofBundleV3Error ''source evidence network id mismatch'')
      else if se_source_format e \<noteq> SOURCE_FORMAT_V3_ARCHIVE_SEGMENT
      then Inl (ProofBundleV3Error ''unsupported source evidence format'')
      else bindE (bundle_hex32 (se_archive_segment_hash e) ''archive segment hash'') (\<lambda>segment_hash.
      bindE (source_segment C e segment_hash) (\<lambda>segment.
      bindE (archive_segment_hash P segment) (\<lambda>h.
      if h \<noteq> segment_hash then Inl (ProofBundleV3Error ''archive segment hash mismatch'')
      else bindE (verify_archive_segment depth P segment (Some n) None \<lparr>rs_segment = ctx_segments C, rs_checkpoint = None\<rparr> None) (\<lambda>core.
      if se_source_checkpoint_hash e \<noteq> cp_checkpoint_hash core
      then Inl (ProofBundleV3Error ''archive segment checkpoint hash mismatch'')
      else (case cp_previous_checkpoint_hash core of
        None \<Rightarrow> if se_previous_proof_bundle_hash e \<noteq> None
          then Inl (ProofBundleV3Error ''previous proof bundle supplied without previous checkpoint'') else Inr core
      | Some previous_checkpoint \<Rightarrow>
          bindE (check_previous_bundle C verify e previous_checkpoint n seen) (\<lambda>_. Inr core))))))))"

definition verify_source_evidence ::
    "nat \<Rightarrow> platform \<Rightarrow> bundle_context \<Rightarrow> (proof_bundle \<Rightarrow> string \<Rightarrow> int \<Rightarrow> string set \<Rightarrow> checkpoint_core res)
      \<Rightarrow> source_evidence \<Rightarrow> int \<Rightarrow> string set \<Rightarrow> checkpoint_core res" where
  "verify_source_evidence depth P C verify e expected_network_id seen =
     (if se_type e = PROOF_ARCHIVE_SEGMENT_TYPE
      then verify_archive_segment_source depth P C verify e expected_network_id seen
      else Inl (ProofBundleV3Error ''unsupported proof bundle source evidence''))"

text \<open>
  A source chain only ever yields a \<open>CheckpointCoreV3\<close> (\<open>source_core_type\<close>), so the branch for a legacy
  checkpoint, whose verifier needs a legacy transfer signature that never verifies, is an error here.
\<close>

fun verify_proof_bundle ::
    "nat \<Rightarrow> platform \<Rightarrow> transparency \<Rightarrow> bundle_context \<Rightarrow> proof_bundle \<Rightarrow> string option \<Rightarrow> int option \<Rightarrow> string set
      \<Rightarrow> checkpoint_core res" where
  "verify_proof_bundle 0 P T C bundle expected_checkpoint_hash expected_network_id seen =
     Inl (PyValueError ''maximum recursion depth exceeded'')"
| "verify_proof_bundle (Suc depth) P T C bundle expected_checkpoint_hash expected_network_id seen =
     (if pb_type bundle \<noteq> PROOF_BUNDLE_TYPE then Inl (ProofBundleV3Error ''malformed proof bundle'')
      else if pb_version bundle \<noteq> PROOF_BUNDLE_VERSION then Inl (ProofBundleV3Error ''unsupported proof bundle version'')
      else bindE (bundle_require_int (pb_network_id bundle) ''proof bundle network id'' 0) (\<lambda>n.
      if (case expected_network_id of None \<Rightarrow> False | Some e \<Rightarrow> n \<noteq> e)
      then Inl (ProofBundleV3Error ''proof bundle network id mismatch'')
      else if pb_algorithm bundle \<noteq> PROOF_BUNDLE_ALGORITHM
      then Inl (ProofBundleV3Error ''unsupported proof bundle algorithm'')
      else bindE (verify_self_hash P bundle) (\<lambda>_.
      if pb_proof_bundle_hash bundle \<in> seen then Inl (ProofBundleV3Error ''proof bundle recursion cycle'')
      else bindE (bundle_hex32 (pb_checkpoint_hash bundle) ''checkpoint hash'') (\<lambda>checkpoint_hash.
      bindE (case expected_checkpoint_hash of None \<Rightarrow> Inr ()
        | Some e \<Rightarrow> bindE (bundle_hex32 e ''expected checkpoint hash'') (\<lambda>e.
            if checkpoint_hash \<noteq> e then Inl (ProofBundleV3Error ''proof bundle checkpoint hash mismatch'') else Inr ())) (\<lambda>_.
      if jget (pb_signed_root bundle) ''log_id'' \<noteq> Some (JStr (pb_log_id bundle))
      then Inl (ProofBundleV3Error ''proof bundle log id mismatch'')
      else bindE (operator_key_for_policy P T C (pb_signed_root bundle)) (\<lambda>(operator_key, verifier).
      bindE (verify_inclusion_proof P T checkpoint_hash (pb_checkpoint_inclusion_proof bundle) (pb_signed_root bundle) operator_key) (\<lambda>_.
      bindE (verify_mirrored_root P bundle verifier) (\<lambda>_.
      bindE (verify_source_evidence depth P C
          (\<lambda>b ch n' seen'. verify_proof_bundle depth P T C b (Some ch) (Some n') seen')
          (pb_source_evidence bundle) n (insert (pb_proof_bundle_hash bundle) seen)) (\<lambda>core.
      if cp_checkpoint_hash core \<noteq> checkpoint_hash
      then Inl (ProofBundleV3Error ''source chain does not produce proof bundle checkpoint'')
      else if cp_type core = CHECKPOINT_CORE_TYPE
      then bindE (verify_v3_checkpoint_spend_proof P T core (pb_compressed_spend_map_proof bundle) (pb_signed_root bundle) operator_key) (\<lambda>_.
           Inr core)
      else Inl (InclusionProofError ''checkpoint spend proof transfer signature is invalid''))))))))))"


section \<open>What a verified bundle proves\<close>

lemma bundle_require_int_Inr_iff [res_simps]: "bundle_require_int v l m = Inr x \<longleftrightarrow> m \<le> v \<and> x = v"
  by (auto simp: bundle_require_int_def)

lemma bundle_hex32_Inr_iff [res_simps]: "bundle_hex32 v l = Inr x \<longleftrightarrow> hex64 v \<and> x = lower v"
  by (auto simp: bundle_hex32_def hex64_def split: option.splits)

lemma verify_self_hash_Inr_iff [res_simps]: "verify_self_hash P b = Inr u \<longleftrightarrow> proof_bundle_hash P b = Inr (pb_proof_bundle_hash b)"
  by (auto simp: verify_self_hash_def bindE_Inr_iff split: if_splits)

lemma verify_source_Inr_iff:
  "verify_source_evidence d P C v e n seen = Inr core \<longleftrightarrow>
     se_type e = PROOF_ARCHIVE_SEGMENT_TYPE \<and> se_version e = PROOF_BUNDLE_VERSION \<and> 0 \<le> n \<and> se_network_id e = n
     \<and> se_source_format e = SOURCE_FORMAT_V3_ARCHIVE_SEGMENT \<and> hex64 (se_archive_segment_hash e)
     \<and> (\<exists>s. source_segment C e (lower (se_archive_segment_hash e)) = Inr s
          \<and> archive_segment_hash P s = Inr (lower (se_archive_segment_hash e))
          \<and> verify_archive_segment d P s (Some n) None \<lparr>rs_segment = ctx_segments C, rs_checkpoint = None\<rparr> None = Inr core)
     \<and> se_source_checkpoint_hash e = cp_checkpoint_hash core
     \<and> (case cp_previous_checkpoint_hash core of None \<Rightarrow> se_previous_proof_bundle_hash e = None
        | Some ch \<Rightarrow> check_previous_bundle C v e ch n seen = Inr ())"
  (is "_ \<longleftrightarrow> ?rhs")
proof -
  have fin: "(case cp_previous_checkpoint_hash c of
        None \<Rightarrow> if se_previous_proof_bundle_hash e \<noteq> None
          then Inl (ProofBundleV3Error ''previous proof bundle supplied without previous checkpoint'') else Inr c
      | Some ch \<Rightarrow> bindE (check_previous_bundle C v e ch m seen) (\<lambda>_. Inr c)) = Inr core \<longleftrightarrow>
      c = core \<and> (case cp_previous_checkpoint_hash core of None \<Rightarrow> se_previous_proof_bundle_hash e = None
        | Some ch \<Rightarrow> check_previous_bundle C v e ch m seen = Inr ())" for c m
    by (cases "cp_previous_checkpoint_hash c") (auto simp: bindE_Inr_iff)
  show ?thesis
    unfolding verify_source_evidence_def verify_archive_segment_source_def if_Inl_Inr_iff bindE_Inr_iff fin
      bundle_require_int_Inr_iff bundle_hex32_Inr_iff
    by auto
qed

lemma verify_source_archive:
  assumes "verify_source_evidence d P C v e n seen = Inr core"
  shows "\<exists>s. verify_archive_segment d P s (Some n) None \<lparr>rs_segment = ctx_segments C, rs_checkpoint = None\<rparr> None = Inr core
    \<and> archive_segment_hash P s = Inr (lower (se_archive_segment_hash e))"
  using assms unfolding verify_source_Inr_iff by blast

lemma source_core_type:
  assumes "verify_source_evidence d P C v e n seen = Inr core"
  shows "cp_type core = CHECKPOINT_CORE_TYPE"
proof -
  from verify_source_archive [OF assms] obtain s where
    "verify_archive_segment d P s (Some n) None \<lparr>rs_segment = ctx_segments C, rs_checkpoint = None\<rparr> None = Inr core" by blast
  from verify_archive_core(1) [OF this] show ?thesis
    unfolding segment_ok_def by (auto dest: checkpoint_from_state_fields(5))
qed

text \<open>What the spend proof of a checkpoint has to show about its settled transfer.\<close>

definition settles :: "platform \<Rightarrow> checkpoint_core \<Rightarrow> spend_claim \<Rightarrow> transfer \<Rightarrow> bool" where
  "settles P core claim t =
     (sc_transfer_hash claim = cp_last_transfer_hash core \<and> sc_token_id claim = cp_token_id core
      \<and> sc_sequence claim = cp_sequence core \<and> sc_transfer claim = Some t
      \<and> validate_transfer_shape P t (cp_network_id core) True None = Inr () \<and> verify_transfer_signature P t = Inr True
      \<and> transfer_hash P t = Inr (cp_last_transfer_hash core) \<and> spend_key_for_transfer P t = Inr (sc_spend_key claim)
      \<and> tr_recipient_address t = cp_owner_address core \<and> tr_timestamp t = cp_last_transfer_timestamp core)"

lemma verify_signature_True: "verify_transfer_signature P t = Inr x \<Longrightarrow> x"
  by (auto simp: verify_transfer_signature_def bindE_Inr_iff split: if_splits option.splits)

lemma settled_transfer_Inr_iff: "check_settled_transfer P core claims claim t = Inr () \<longleftrightarrow>
    validate_transfer_shape P t (cp_network_id core) True None = Inr () \<and> verify_transfer_signature P t = Inr True
    \<and> transfer_hash P t = Inr (cp_last_transfer_hash core) \<and> spend_key_for_transfer P t = Inr (sc_spend_key claim)
    \<and> tr_recipient_address t = cp_owner_address core \<and> tr_timestamp t = cp_last_transfer_timestamp core
    \<and> (\<forall>c \<in> set claims. sc_transfer_hash c = cp_last_transfer_hash core)"
  unfolding check_settled_transfer_def bindE_Inr_iff if_Inl_Inr_iff
  by (auto simp: filter_empty_conv dest: verify_signature_True)

lemma settled_claim_Inr_iff: "check_settled_claim P core claims = Inr () \<longleftrightarrow>
    (\<exists>claim t. find (\<lambda>c. sc_transfer_hash c = cp_last_transfer_hash core) claims = Some claim \<and> settles P core claim t)
    \<and> (\<forall>c \<in> set claims. sc_transfer_hash c = cp_last_transfer_hash core)"
proof (cases "find (\<lambda>c. sc_transfer_hash c = cp_last_transfer_hash core) claims")
  case (Some claim)
  then have "sc_transfer_hash claim = cp_last_transfer_hash core" by (auto simp: find_Some_iff)
  then show ?thesis unfolding check_settled_claim_def Some
    by (cases "sc_transfer claim") (auto simp: settled_transfer_Inr_iff settles_def)
qed (simp add: check_settled_claim_def)

lemma spend_proof_Inr_iff:
  "verify_v3_checkpoint_spend_proof P T core proof root key = Inr () \<longleftrightarrow>
     verify_signed_root P T root key = Inr ()
     \<and> (\<exists>claims. verify_compressed_spend_map_proof P T proof root (Some (cp_network_id core)) = Inr claims
          \<and> check_settled_claim P core claims = Inr ())"
  unfolding verify_v3_checkpoint_spend_proof_def bindE_Inr_iff by auto

lemma verify_bundle_Suc:
  "verify_proof_bundle (Suc d) P T C b expected net seen = Inr core \<longleftrightarrow>
     pb_type b = PROOF_BUNDLE_TYPE \<and> pb_version b = PROOF_BUNDLE_VERSION \<and> 0 \<le> pb_network_id b
     \<and> (\<forall>n. net = Some n \<longrightarrow> pb_network_id b = n) \<and> pb_algorithm b = PROOF_BUNDLE_ALGORITHM
     \<and> proof_bundle_hash P b = Inr (pb_proof_bundle_hash b) \<and> pb_proof_bundle_hash b \<notin> seen
     \<and> hex64 (pb_checkpoint_hash b) \<and> cp_checkpoint_hash core = lower (pb_checkpoint_hash b)
     \<and> (\<forall>e. expected = Some e \<longrightarrow> hex64 e \<and> lower e = lower (pb_checkpoint_hash b))
     \<and> jget (pb_signed_root b) ''log_id'' = Some (JStr (pb_log_id b))
     \<and> (\<exists>key v u. operator_key_for_policy P T C (pb_signed_root b) = Inr (key, v)
          \<and> verify_inclusion_proof P T (lower (pb_checkpoint_hash b)) (pb_checkpoint_inclusion_proof b) (pb_signed_root b) key = Inr u
          \<and> verify_mirrored_root P b v = Inr ()
          \<and> verify_v3_checkpoint_spend_proof P T core (pb_compressed_spend_map_proof b) (pb_signed_root b) key = Inr ())
     \<and> verify_source_evidence d P C (\<lambda>b ch n' seen'. verify_proof_bundle d P T C b (Some ch) (Some n') seen')
         (pb_source_evidence b) (pb_network_id b) (insert (pb_proof_bundle_hash b) seen) = Inr core"
proof -
  have exp: "(case expected of None \<Rightarrow> Inr ()
      | Some e \<Rightarrow> bindE (bundle_hex32 e l) (\<lambda>e. if ch \<noteq> e then Inl err else Inr ())) = Inr u
      \<longleftrightarrow> (\<forall>e. expected = Some e \<longrightarrow> hex64 e \<and> lower e = ch)" for l ch err u
    by (cases expected) (auto simp: bindE_Inr_iff bundle_hex32_Inr_iff)
  have net: "(case net of None \<Rightarrow> False | Some e \<Rightarrow> n \<noteq> e) \<longleftrightarrow> \<not> (\<forall>e. net = Some e \<longrightarrow> n = e)" for n
    by (cases net) auto
  have fin: "(if cp_type c = CHECKPOINT_CORE_TYPE then bindE X (\<lambda>_. Inr c) else Inl err) = Inr core
      \<longleftrightarrow> c = core \<and> cp_type core = CHECKPOINT_CORE_TYPE \<and> X = Inr ()" for c err and X :: "unit res"
    by (auto simp: bindE_Inr_iff)
  show ?thesis
    unfolding verify_proof_bundle.simps bindE_Inr_iff if_Inl_Inr_iff net not_not exp fin split_beta
      bundle_require_int_Inr_iff bundle_hex32_Inr_iff verify_self_hash_Inr_iff
    by (auto dest: source_core_type)
qed

lemma verified_bundle_source:
  assumes "verify_proof_bundle d P T C b expected net seen = Inr core"
  shows "\<exists>d' s. verify_archive_segment d' P s (Some (pb_network_id b)) None
      \<lparr>rs_segment = ctx_segments C, rs_checkpoint = None\<rparr> None = Inr core"
    and "\<exists>key. verify_v3_checkpoint_spend_proof P T core (pb_compressed_spend_map_proof b) (pb_signed_root b) key = Inr ()"
    and "cp_checkpoint_hash core = lower (pb_checkpoint_hash b)"
    and "proof_bundle_hash P b = Inr (pb_proof_bundle_hash b)"
proof -
  from assms obtain k where d: "d = Suc k" by (cases d) simp_all
  note v = assms [unfolded d verify_bundle_Suc]
  from v have "verify_source_evidence k P C (\<lambda>b ch n' seen'. verify_proof_bundle k P T C b (Some ch) (Some n') seen')
      (pb_source_evidence b) (pb_network_id b) (insert (pb_proof_bundle_hash b) seen) = Inr core" by blast
  from verify_source_archive [OF this]
  show "\<exists>d' s. verify_archive_segment d' P s (Some (pb_network_id b)) None
      \<lparr>rs_segment = ctx_segments C, rs_checkpoint = None\<rparr> None = Inr core" by blast
  from v show "\<exists>key. verify_v3_checkpoint_spend_proof P T core (pb_compressed_spend_map_proof b) (pb_signed_root b) key = Inr ()"
    "cp_checkpoint_hash core = lower (pb_checkpoint_hash b)" "proof_bundle_hash P b = Inr (pb_proof_bundle_hash b)" by blast+
qed

text \<open>More depth never changes a result.\<close>

lemma previous_bundle_Inr_iff: "check_previous_bundle C v e ch n seen = Inr () \<longleftrightarrow>
    (\<exists>h resolver b c. se_previous_proof_bundle_hash e = Some h \<and> ctx_bundles C = Some resolver \<and> hex64 h
      \<and> lower h \<notin> seen \<and> resolver (lower h) = Some b \<and> pb_proof_bundle_hash b = lower h \<and> v b ch n seen = Inr c)"
proof (cases "se_previous_proof_bundle_hash e")
  case (Some h)
  show ?thesis
  proof (cases "ctx_bundles C")
    case (Some resolver)
    show ?thesis
      unfolding check_previous_bundle_def Some \<open>se_previous_proof_bundle_hash e = Some h\<close> option.case bindE_Inr_iff
        bundle_hex32_Inr_iff
      by (cases "resolver (lower h)") (auto simp: bindE_Inr_iff)
  qed (simp add: check_previous_bundle_def Some)
qed (simp add: check_previous_bundle_def)

lemma previous_bundle_mono:
  assumes "check_previous_bundle C v e ch n seen = Inr ()" and "\<And>b c. v b ch n seen = Inr c \<Longrightarrow> w b ch n seen = Inr c"
  shows "check_previous_bundle C w e ch n seen = Inr ()"
  using assms unfolding previous_bundle_Inr_iff by blast

lemma source_mono:
  assumes "verify_source_evidence d P C v e n seen = Inr core" and "d \<le> d'"
    and "\<And>b ch c. v b ch n seen = Inr c \<Longrightarrow> w b ch n seen = Inr c"
  shows "verify_source_evidence d' P C w e n seen = Inr core"
proof -
  have "case cp_previous_checkpoint_hash core of None \<Rightarrow> se_previous_proof_bundle_hash e = None
      | Some ch \<Rightarrow> check_previous_bundle C w e ch n seen = Inr ()"
    using assms(1,3) previous_bundle_mono [of C v e _ n seen w]
    unfolding verify_source_Inr_iff by (cases "cp_previous_checkpoint_hash core") auto
  with assms(1) show ?thesis
    unfolding verify_source_Inr_iff using verify_archive_depth [OF _ assms(2)] by blast
qed

lemma verify_bundle_depth:
  assumes "verify_proof_bundle d P T C b expected net seen = Inr core" and "d \<le> d'"
  shows "verify_proof_bundle d' P T C b expected net seen = Inr core"
  using assms
proof (induction d arbitrary: d' b expected net seen core)
  case (Suc d)
  then obtain k where d': "d' = Suc k" "d \<le> k" by (cases d') auto
  have "verify_source_evidence k P C (\<lambda>b ch n' seen'. verify_proof_bundle k P T C b (Some ch) (Some n') seen')
      (pb_source_evidence b) (pb_network_id b) (insert (pb_proof_bundle_hash b) seen) = Inr core"
    by (rule source_mono [OF _ d'(2), where v = "\<lambda>b ch n' seen'. verify_proof_bundle d P T C b (Some ch) (Some n') seen'"])
      (use Suc.prems(1) Suc.IH d'(2) verify_bundle_Suc in blast)+
  with Suc.prems(1) show ?case unfolding d'(1) verify_bundle_Suc by blast
qed simp

text \<open>
  Two settlements under one root. Bundles checked under the same signed root whose spend proofs are for
  the same spend key settle the same transfer.
\<close>

lemma map_of_norm_fields:
  assumes "distinct (map fst kvs)"
  shows "jget (norm (JDict kvs)) k = map_option norm (map_of kvs k)"
proof -
  have "distinct (map fst (map (map_prod id norm) kvs))" using assms by (simp add: comp_def)
  from map_of_sort_key [OF this] show ?thesis by (simp add: map_prod_def split_beta' map_of_map [unfolded split_beta'])
qed

lemma norm_claim_hash:
  assumes "(norm \<circ> claim_json) c = (norm \<circ> claim_json) c'"
  shows "sc_transfer_hash c = sc_transfer_hash c'"
proof -
  have hash: "jget (norm (claim_json c)) ''transfer_hash'' = Some (JStr (sc_transfer_hash c))" for c
  proof (cases "sc_transfer c")
    case None
    have "distinct (map fst (claim_fields c))" by (simp add: claim_fields_def)
    from map_of_norm_fields [OF this] show ?thesis by (simp add: claim_json_def None claim_fields_def)
  next
    case (Some t)
    have "distinct (map fst (claim_fields c @ [(''transfer'', transfer_json t)]))" by (simp add: claim_fields_def)
    from map_of_norm_fields [OF this] show ?thesis by (simp add: claim_json_def Some claim_fields_def)
  qed
  from hash [of c] hash [of c'] assms show ?thesis by simp
qed

text \<open>The spend key a bundle's spend proof is for, its claims, and all byte strings hashed to check it.\<close>

definition settlement_evidence :: "platform \<Rightarrow> proof_bundle \<Rightarrow> (string \<times> spend_claim list \<times> bytes list) res" where
  "settlement_evidence P b =
     bindE (expand_compressed_spend_map_proof P (pb_compressed_spend_map_proof b) None) (\<lambda>q.
     bindE (check_spend_map_proof P q (pb_signed_root b)) (\<lambda>claims.
     bindE (proof_preimages P q) (\<lambda>ms. Inr (smp_spend_key q, claims, ms))))"

lemma expand_any_network:
  assumes "expand_compressed_spend_map_proof P p (Some n) = Inr q"
  shows "expand_compressed_spend_map_proof P p None = Inr q"
  using assms unfolding expand_compressed_spend_map_proof_def validate_compressed_header_def bindE_Inr_iff if_Inl_Inr_iff
  by auto

lemma verified_claims:
  assumes "verify_compressed_spend_map_proof P T p root n = Inr cs" and "expand_compressed_spend_map_proof P p n = Inr q"
  shows "check_spend_map_proof P q root = Inr cs"
  using assms by (simp add: verify_compressed_spend_map_proof_def verify_spend_map_proof_def read_spend_map_proof_json bindE_Inr_iff)

lemma verified_settlement:
  assumes "verify_proof_bundle d P T C b expected net seen = Inr core" and "settlement_evidence P b = Inr (k, cs, ms)"
  shows "cs \<noteq> []" and "\<forall>c \<in> set cs. sc_transfer_hash c = cp_last_transfer_hash core"
proof -
  from verified_bundle_source(2) [OF assms(1)] obtain key claims where
    v: "verify_compressed_spend_map_proof P T (pb_compressed_spend_map_proof b) (pb_signed_root b) (Some (cp_network_id core)) = Inr claims"
    and ok: "check_settled_claim P core claims = Inr ()"
    unfolding spend_proof_Inr_iff by blast
  from v obtain q where q: "expand_compressed_spend_map_proof P (pb_compressed_spend_map_proof b) (Some (cp_network_id core)) = Inr q"
    by (auto simp: verify_compressed_spend_map_proof_def bindE_Inr_iff)
  have "check_spend_map_proof P q (pb_signed_root b) = Inr claims" by (rule verified_claims [OF v q])
  with assms(2) expand_any_network [OF q] have "claims = cs" by (simp add: settlement_evidence_def bindE_Inr_iff)
  with ok show "cs \<noteq> []" "\<forall>c \<in> set cs. sc_transfer_hash c = cp_last_transfer_hash core"
    unfolding settled_claim_Inr_iff by auto
qed

lemma settlements_agree:
  assumes "hash_ok P"
    and "verify_proof_bundle d P T C b expected net seen = Inr core"
    and "verify_proof_bundle d' P T' C' b' expected' net' seen' = Inr core'"
    and "pb_signed_root b = pb_signed_root b'"
    and e: "settlement_evidence P b = Inr (k, cs, ms)" and e': "settlement_evidence P b' = Inr (k, cs', ms')"
    and "no_pair_collides P ms ms'"
    and "\<forall>c \<in> set cs. json_wf (claim_json c)" and "\<forall>c \<in> set cs'. json_wf (claim_json c)"
  shows "cp_last_transfer_hash core = cp_last_transfer_hash core'"
proof -
  from e obtain q where q: "check_spend_map_proof P q (pb_signed_root b) = Inr cs" "proof_preimages P q = Inr ms" "smp_spend_key q = k"
    by (auto simp: settlement_evidence_def bindE_Inr_iff)
  from e' obtain q' where q': "check_spend_map_proof P q' (pb_signed_root b) = Inr cs'" "proof_preimages P q' = Inr ms'" "smp_spend_key q' = k"
    by (auto simp: settlement_evidence_def bindE_Inr_iff assms(4))
  have agree: "map (norm \<circ> claim_json) cs = map (norm \<circ> claim_json) cs'"
    by (rule proofs_agree [OF assms(1) q(1) q'(1) _ q(2) q'(2) assms(7-9)]) (simp add: q(3) q'(3))
  from verified_settlement [OF assms(2) e] obtain c where c: "c \<in> set cs" "sc_transfer_hash c = cp_last_transfer_hash core"
    by (cases cs) auto
  from c(1) have "(norm \<circ> claim_json) c \<in> set (map (norm \<circ> claim_json) cs)" by (simp only: set_map image_eqI)
  then obtain c' where c': "c' \<in> set cs'" "(norm \<circ> claim_json) c = (norm \<circ> claim_json) c'"
    unfolding agree by (auto simp del: norm.simps comp_apply)
  from verified_settlement(2) [OF assms(3) e'] c'(1) norm_claim_hash [OF c'(2)] c(2) show ?thesis by simp
qed


section \<open>Made bundles verify\<close>

lemma bundle_hash_update [simp]: "proof_bundle_hash P (b\<lparr>pb_proof_bundle_hash := h\<rparr>) = proof_bundle_hash P b"
  by (simp add: proof_bundle_hash_def encode_proof_bundle_def)

lemma make_evidence_Inr_iff:
  "make_archive_segment_evidence d P s n include previous resolver = Inr e \<longleftrightarrow>
     (\<exists>core h. verify_archive_segment d P s (Some n) None \<lparr>rs_segment = resolver, rs_checkpoint = None\<rparr> None = Inr core
        \<and> (cp_previous_checkpoint_hash core \<noteq> None \<longrightarrow> previous \<noteq> None) \<and> (\<forall>ph. previous = Some ph \<longrightarrow> hex64 ph)
        \<and> archive_segment_hash P s = Inr h
        \<and> e = \<lparr>se_type = PROOF_ARCHIVE_SEGMENT_TYPE, se_version = PROOF_BUNDLE_VERSION, se_network_id = n,
            se_source_format = SOURCE_FORMAT_V3_ARCHIVE_SEGMENT, se_archive_segment_hash = h,
            se_source_checkpoint_hash = cp_checkpoint_hash core, se_previous_proof_bundle_hash = map_option lower previous,
            se_archive_segment = (if include then Some s else None)\<rparr>)"
  unfolding make_archive_segment_evidence_def bindE_Inr_iff if_Inl_Inr_iff
  by (cases previous) (auto simp: bindE_Inr_iff bundle_hex32_Inr_iff)

lemma archive_segment_hash_text:
  assumes "hash_ok P" and "archive_segment_hash P s = Inr h"
  shows "hash_text h"
  using assms by (auto simp: archive_segment_hash_Inr_iff)

lemma made_bundle_verifies:
  assumes "hash_ok P"
    and source: "make_archive_segment_evidence d P s n include None (ctx_segments C) = Inr e"
    and found: "source_segment C e (se_archive_segment_hash e) = Inr s"
    and core: "verify_archive_segment d P s (Some n) None \<lparr>rs_segment = ctx_segments C, rs_checkpoint = None\<rparr> None = Inr core"
    and genesis: "cp_previous_checkpoint_hash core = None" and "hash_text (cp_checkpoint_hash core)"
    and log: "jget root ''log_id'' = Some (JStr l)"
    and make: "make_proof_bundle P core root incl spend e n at = Inr b"
    and policy: "operator_key_for_policy P T C root = Inr (key, v)"
    and incl: "verify_inclusion_proof P T (cp_checkpoint_hash core) incl root key = Inr u"
    and mirror: "verify_mirrored_root P b v = Inr ()"
    and spend: "verify_v3_checkpoint_spend_proof P T core spend root key = Inr ()"
  shows "verify_proof_bundle (Suc d) P T C b (Some (cp_checkpoint_hash core)) (Some n) {} = Inr core"
proof -
  have ch: "hex64 (cp_checkpoint_hash core) \<and> lower (cp_checkpoint_hash core) = cp_checkpoint_hash core" using assms(6) by simp
  from source core obtain h where h: "archive_segment_hash P s = Inr h"
    and e: "e = \<lparr>se_type = PROOF_ARCHIVE_SEGMENT_TYPE, se_version = PROOF_BUNDLE_VERSION, se_network_id = n,
            se_source_format = SOURCE_FORMAT_V3_ARCHIVE_SEGMENT, se_archive_segment_hash = h,
            se_source_checkpoint_hash = cp_checkpoint_hash core, se_previous_proof_bundle_hash = None,
            se_archive_segment = (if include then Some s else None)\<rparr>"
    unfolding make_evidence_Inr_iff by auto
  have hh: "hex64 h \<and> lower h = h" using archive_segment_hash_text [OF assms(1) h] by simp
  from make obtain b0 bh where b0: "b0 = \<lparr>pb_type = PROOF_BUNDLE_TYPE, pb_version = PROOF_BUNDLE_VERSION, pb_network_id = n,
        pb_algorithm = PROOF_BUNDLE_ALGORITHM, pb_log_id = l, pb_checkpoint_hash = cp_checkpoint_hash core,
        pb_signed_root = root, pb_checkpoint_inclusion_proof = incl,
        pb_compressed_spend_map_proof = spend, pb_source_evidence = e, pb_created_at = at,
        pb_proof_bundle_hash = []\<rparr>"
    and bh: "proof_bundle_hash P b0 = Inr bh" and b: "b = b0\<lparr>pb_proof_bundle_hash := bh\<rparr>"
    unfolding make_proof_bundle_def bindE_Inr_iff bundle_hex32_Inr_iff finalize_proof_bundle_def using ch log
    by (auto simp: jat_Inr_iff)
  from bh have n: "0 \<le> n"
    unfolding proof_bundle_hash_def encode_proof_bundle_def bindE_Inr_iff bundle_require_int_Inr_iff by (auto simp: b0)
  have "verify_source_evidence d P C w e n seen = Inr core" for w seen
    unfolding verify_source_Inr_iff using h hh core genesis n found by (auto simp: e)
  moreover have "proof_bundle_hash P b = Inr bh" using bh by (simp add: b)
  ultimately show ?thesis
    unfolding verify_bundle_Suc using ch n log policy incl mirror spend by (auto simp: b b0)
qed


section \<open>References to bundles\<close>

definition bundle_ref_shape :: "proof_bundle_reference \<Rightarrow> bool" where
  "bundle_ref_shape r = (pr_type r = PROOF_BUNDLE_REF_TYPE \<and> pr_version r = PROOF_BUNDLE_VERSION
     \<and> hash_text (pr_signed_root_hash r) \<and> hash_text (pr_proof_bundle_hash r))"

lemma bundle_ref_reads:
  assumes "bundle_ref_shape r" and "encode_proof_bundle_ref_body r = Inr bs"
  shows "reads (decode_proof_bundle_ref_body (pr_network_id r)) bs r"
proof -
  from assms(2) obtain b1 b2 b3 b4 b5 where bs: "bs = b1 @ b2 @ b3 @ b4 @ b5 @ []"
    and enc: "encode_ascii 128 (pr_log_id r) = Inr b1" "encode_hash_hex (pr_signed_root_hash r) = Inr b2"
      "encode_uvarint (pr_tree_size r) = Inr b3" "encode_uvarint (pr_proof_bundle_algorithm r) = Inr b4"
      "encode_hash_hex (pr_proof_bundle_hash r) = Inr b5"
    unfolding encode_proof_bundle_ref_body_def joinE_Cons_iff joinE_Nil_iff by blast
  show ?thesis
    unfolding decode_proof_bundle_ref_body_def bs
    by (intro codec_reads; (rule enc)?) (use assms(1) in \<open>simp_all add: bundle_ref_shape_def\<close>)
qed

lemma bundle_ref_accepts: "accepts (decode_proof_bundle_ref_body n)
    (\<lambda>bs r. bundle_ref_shape r \<and> pr_network_id r = n \<and> encode_proof_bundle_ref_body r = Inr bs)"
  unfolding decode_proof_bundle_ref_body_def
  by (intro codec_accepts accepts_returnI allI impI)
    (simp add: bundle_ref_shape_def encode_proof_bundle_ref_body_def)

interpretation bundle_ref_codec: canonical_object_codec
  ProofBundleV3Error PROOF_BUNDLE_REF_MAGIC "''proof bundle reference magic''" "''proof bundle reference''"
  pr_network_id bundle_ref_shape encode_proof_bundle_ref_body decode_proof_bundle_ref_body
  by unfold_locales (simp_all add: bundle_ref_reads bundle_ref_accepts PROOF_BUNDLE_REF_MAGIC_def)

lemma decode_bundle_ref_iff:
  "decode_proof_bundle_ref bs = Inr r \<longleftrightarrow> bundle_ref_shape r \<and> encode_proof_bundle_ref r = Inr bs"
proof -
  have "encode_proof_bundle_ref r = Inr bs \<longleftrightarrow>
      0 \<le> pr_network_id r \<and> bindE (encode_proof_bundle_ref_body r) (encode_envelope PROOF_BUNDLE_REF_MAGIC (pr_network_id r)) = Inr bs"
    unfolding encode_proof_bundle_ref_def bindE_Inr_iff bundle_require_int_Inr_iff by auto
  moreover have "0 \<le> pr_network_id r" if "encode_envelope PROOF_BUNDLE_REF_MAGIC (pr_network_id r) b = Inr bs" for b
    using that by (auto simp: res_simps)
  ultimately show ?thesis
    unfolding decode_proof_bundle_ref_def bundle_ref_codec.decode_iff by (auto simp: bindE_Inr_iff)
qed

lemma made_reference_verifies:
  assumes "proof_bundle_ref P b = Inr r" and "pb_algorithm b = PROOF_BUNDLE_ALGORITHM" and "0 \<le> pb_network_id b"
    and "jget (pb_signed_root b) ''log_id'' = Some (JStr (pb_log_id b))"
    and "jget (pb_signed_root b) ''tree_size'' = Some (JInt k)" and "0 \<le> k"
  shows "verify_proof_bundle_ref P r b (Some (pb_network_id b)) = Inr ()"
proof -
  from assms(1,5) obtain h i where "verify_self_hash P b = Inr ()" "signed_root_id P (pb_signed_root b) = Inr i"
    and r: "r = \<lparr>pr_type = PROOF_BUNDLE_REF_TYPE, pr_version = PROOF_BUNDLE_VERSION, pr_network_id = pb_network_id b,
       pr_log_id = pb_log_id b, pr_signed_root_hash = i, pr_tree_size = k,
       pr_proof_bundle_algorithm = pb_algorithm b, pr_proof_bundle_hash = pb_proof_bundle_hash b\<rparr>"
    unfolding proof_bundle_ref_def bindE_Inr_iff by (auto simp: int_at_Inr_iff)
  then show ?thesis
    unfolding verify_proof_bundle_ref_def using assms
    by (simp add: verify_self_hash_Inr_iff bundle_require_int_def int_at_def jat_def)
qed

text \<open>A reference pins one bundle: two bundles that verify against it have the same hash and root id.\<close>

lemma reference_pins:
  assumes "verify_proof_bundle_ref P r b n = Inr ()" and "verify_proof_bundle_ref P r b' n = Inr ()"
  shows "proof_bundle_hash P b = proof_bundle_hash P b' \<and> signed_root_id P (pb_signed_root b) = signed_root_id P (pb_signed_root b')"
  using assms unfolding verify_proof_bundle_ref_def bindE_Inr_iff if_Inl_Inr_iff by auto

end
