(* ===== verification/JsonSize.thy ===== *)
theory JsonSize
  imports JsonText
begin

text \<open>
  How long a canonical JSON text can get: a bound computed from the value, for values whose texts are
  ASCII and whose integers are in the accepted range. It discharges the size limits of the binary
  formats that embed JSON.
\<close>

primrec json_bound :: "json \<Rightarrow> nat" where
  "json_bound JNull = 4"
| "json_bound (JBool b) = 5"
| "json_bound (JInt i) = 20"
| "json_bound (JFloat f) = length f"
| "json_bound (JStr s) = 6 * length s + 2"
| "json_bound (JList xs) = 2 + sum_list (map json_bound xs) + length xs"
| "json_bound (JDict kvs) = 2 + sum_list (map (\<lambda>(k, n). 6 * length k + 4 + n) (map (map_prod id json_bound) kvs))"

primrec json_plain :: "json \<Rightarrow> bool" where
  "json_plain JNull = True"
| "json_plain (JBool b) = True"
| "json_plain (JInt i) = (\<bar>i\<bar> \<le> MAX_JSON_INTEGER_ABS)"
| "json_plain (JFloat f) = False"
| "json_plain (JStr s) = is_ascii s"
| "json_plain (JList xs) = list_all id (map json_plain xs)"
| "json_plain (JDict kvs) = (list_all is_ascii (map fst kvs) \<and> list_all snd (map (map_prod id json_plain) kvs))"

lemma length_escape: "n < 128 \<Longrightarrow> length (escape_cp n) \<le> 6"
  by (simp add: escape_cp_def hex4_def)

lemma length_concat_escape: "(\<forall>n \<in> set ns. n < 128) \<Longrightarrow> length (concat (map escape_cp ns)) \<le> 6 * length ns"
proof (induction ns)
  case (Cons n ns)
  then show ?case using length_escape [of n] by simp
qed simp

lemma length_quote: "is_ascii s \<Longrightarrow> length (quote_text s) \<le> 6 * length s + 2"
  using length_concat_escape [of "cps s"] by (auto simp: quote_text_def cps_ascii is_ascii_def list_all_iff)

lemma length_join: "length (join_comma xs) \<le> sum_list (map length xs) + length xs"
  by (induction xs rule: join_comma.induct) auto

lemma length_join_map: "length (join_comma (map f xs)) \<le> sum_list (map (\<lambda>x. length (f x) + 1) xs)"
proof -
  have "sum_list (map (\<lambda>x. length (f x) + 1) xs) = sum_list (map length (map f xs)) + length (map f xs)"
    by (induction xs) simp_all
  with length_join [of "map f xs"] show ?thesis by (simp only:)
qed

lemma sum_list_sort_key: fixes xs :: "'a list" shows "sum_list (map f (sort_key g xs)) = (sum_list (map f xs) :: nat)"
proof -
  have "sum_list (map f (insort_key g x ys)) = f x + sum_list (map f ys)" for x and ys :: "'a list"
    by (induction ys) auto
  then show ?thesis by (induction xs) (simp_all only: list.map sort_key_simps sum_list.Nil sum_list.Cons)
qed

lemma length_int_text:
  assumes "\<bar>i\<bar> \<le> MAX_JSON_INTEGER_ABS"
  shows "length (int_text i) \<le> 20"
proof -
  have "nat \<bar>i\<bar> < 10 ^ 19" using assms by (simp add: MAX_JSON_INTEGER_ABS_def)
  from length_nat_text [OF this] show ?thesis by (cases "i < 0") (simp_all add: int_text_def)
qed

lemma length_dumps: "json_plain v \<Longrightarrow> length (dumps v) \<le> json_bound v"
proof (induction v)
  case (JInt i)
  then show ?case by (simp add: length_int_text)
next
  case (JStr s)
  then show ?case using length_quote [of s] by simp
next
  case (JList xs)
  then have "sum_list (map length (map dumps xs)) \<le> sum_list (map json_bound xs)"
    by (auto simp: list_all_iff comp_def intro: sum_list_mono)
  then show ?case using length_join [of "map dumps xs"] by simp
next
  case (JDict kvs)
  let ?item = "\<lambda>(k, t). quote_text k @ '':'' @ t" and ?ts = "map (map_prod id dumps) kvs"
  have item: "length (?item (map_prod id dumps kv)) + 1 \<le> (\<lambda>(k, n). 6 * length k + 4 + n) (map_prod id json_bound kv)"
    if kv: "kv \<in> set kvs" for kv
  proof -
    obtain k v where v: "kv = (k, v)" by (cases kv)
    with JDict.prems kv have "is_ascii k" "json_plain v" by (auto simp: list_all_iff)
    with JDict.IH [of kv v] kv v length_quote [of k] show ?thesis by (auto simp: snds.simps)
  qed
  have sorted: "sum_list (map (\<lambda>x. length (?item x) + 1) (sort_key fst ?ts)) = sum_list (map (\<lambda>x. length (?item x) + 1) ?ts)"
    by (rule sum_list_sort_key)
  have "length (join_comma (map ?item (sort_key fst ?ts))) \<le> sum_list (map (\<lambda>x. length (?item x) + 1) (sort_key fst ?ts))"
    by (rule length_join_map)
  also have "\<dots> \<le> sum_list (map (\<lambda>(k, n). 6 * length k + 4 + n) (map (map_prod id json_bound) kvs))"
    unfolding sorted map_map using item by (intro sum_list_mono) simp
  finally show ?case by simp
qed (simp_all)

lemma canonical_bytes_size:
  assumes "canonical_bytes v = Inr b" and "json_plain v"
  shows "length b \<le> json_bound v"
  using assms length_dumps [of v] by (auto simp: canonical_bytes_def canonical_json_def bindE_Inr_iff)

end
