(* ===== verification/LogSamples.thy ===== *)
theory LogSamples
  imports Samples ProofBundle JsonSize
begin

text \<open>
  Concrete values of the transparency log on \<open>toy_platform\<close>, for the witnesses: the spend claim of the
  first transfer, a spend map that holds it alone, a signed root over that map, the proofs under it, an
  archive segment, and the proof bundle made of them.
\<close>

definition toy_log :: transparency where
  "toy_log = \<lparr>tl_hash_buff = toy_hash, tl_deserialize = (\<lambda>_. Some (LOG_HASH_ALGORITHM, True, 1)),
     tl_includes = (\<lambda>leaf root proof. leaf = root), tl_consistent = (\<lambda>old new proof. old = new),
     tl_legacy_names = False, tl_production = False\<rparr>"

abbreviation TL :: transparency where "TL \<equiv> toy_log"

definition operator_key :: string where "operator_key = public_key_text seed_a"
definition sample_log_id :: string where "sample_log_id = log_id_from_public_key TP operator_key"

lemma operator_key_strip [simp]: "strip operator_key = operator_key"
  by (simp add: operator_key_def)

lemma sample_log_id_text [simp]: "hash_text sample_log_id" "strip sample_log_id = sample_log_id"
  by (simp_all add: sample_log_id_def log_id_from_public_key_def sha3_hex_strip)

section \<open>A spend claim\<close>

lemma first_transfer_hash: "transfer_hash TP first_transfer = Inr (st_last_transfer_hash first_state)"
proof -
  from first_link obtain h where h: "transfer_hash TP first_transfer = Inr h" and s: "first_state = state_after genesis_state first_transfer h"
    by (auto simp: link_def)
  show ?thesis unfolding s h by (simp add: state_after_def)
qed

lemma first_spend_key_exists: "\<exists>k. spend_key_for_transfer TP first_transfer = Inr k \<and> hash_text k"
  using same_spend_key by (auto simp: spend_key_Inr_iff)

definition sample_claim :: spend_claim where
  "sample_claim = result_or \<lparr>sc_type = [], sc_version = 0, sc_log_id = [], sc_spend_key = [], sc_token_id = [],
     sc_previous_hash = [], sc_sequence = 0, sc_sender_address = [], sc_sender_public_key = [],
     sc_transfer_hash = [], sc_transfer_leaf_index = 0, sc_accepted_at = 0, sc_transfer = None\<rparr>
     (spend_claim_for_transfer TP first_transfer sample_log_id 0 1800000000)"

lemma make_sample_claim: "spend_claim_for_transfer TP first_transfer sample_log_id 0 1800000000 = Inr sample_claim"
  unfolding sample_claim_def
  by (rule result_or_Inr) (use first_spend_key_exists in \<open>auto simp: spend_claim_for_transfer_def first_transfer_hash\<close>)

lemma sample_claim_fields:
  "sc_type sample_claim = SPEND_CLAIM_TYPE" "sc_version sample_claim = VERSION" "sc_log_id sample_claim = sample_log_id"
  "spend_key_for_transfer TP first_transfer = Inr (sc_spend_key sample_claim)" "hash_text (sc_spend_key sample_claim)"
  "sc_token_id sample_claim = zero_hash" "sc_previous_hash sample_claim = zero_hash" "sc_sequence sample_claim = 1"
  "sc_sender_address sample_claim = key_address seed_a" "sc_sender_public_key sample_claim = public_key_text seed_a"
  "sc_transfer_hash sample_claim = st_last_transfer_hash first_state" "sc_transfer_leaf_index sample_claim = 0"
  "sc_accepted_at sample_claim = 1800000000" "sc_transfer sample_claim = Some first_transfer"
proof -
  from first_spend_key_exists obtain k where k: "spend_key_for_transfer TP first_transfer = Inr k" "hash_text k" by blast
  from make_sample_claim have c: "sample_claim = \<lparr>sc_type = SPEND_CLAIM_TYPE, sc_version = VERSION, sc_log_id = sample_log_id,
      sc_spend_key = k, sc_token_id = zero_hash, sc_previous_hash = zero_hash, sc_sequence = 1,
      sc_sender_address = key_address seed_a, sc_sender_public_key = public_key_text seed_a,
      sc_transfer_hash = st_last_transfer_hash first_state, sc_transfer_leaf_index = 0,
      sc_accepted_at = 1800000000, sc_transfer = Some first_transfer\<rparr>"
    by (simp add: spend_claim_for_transfer_def k first_transfer_hash first_transfer_fields)
  show "sc_type sample_claim = SPEND_CLAIM_TYPE" "sc_version sample_claim = VERSION" "sc_log_id sample_claim = sample_log_id"
    "spend_key_for_transfer TP first_transfer = Inr (sc_spend_key sample_claim)" "hash_text (sc_spend_key sample_claim)"
    "sc_token_id sample_claim = zero_hash" "sc_previous_hash sample_claim = zero_hash" "sc_sequence sample_claim = 1"
    "sc_sender_address sample_claim = key_address seed_a" "sc_sender_public_key sample_claim = public_key_text seed_a"
    "sc_transfer_hash sample_claim = st_last_transfer_hash first_state" "sc_transfer_leaf_index sample_claim = 0"
    "sc_accepted_at sample_claim = 1800000000" "sc_transfer sample_claim = Some first_transfer"
    unfolding c using k by simp_all
qed

lemma first_state_hash [simp]: "hash_text (st_last_transfer_hash first_state)"
  using transfer_hash_text [OF toy_hash_ok first_transfer_hash] .

lemma valid_address_strip: "valid_address P a \<Longrightarrow> strip a = a"
  by (auto simp: valid_address_def validate_address_def bindE_Inr_iff split: if_splits)

lemma hash_text_strip [simp]: "hash_text t \<Longrightarrow> strip t = t"
proof (rule strip_no_space)
  assume "hash_text t"
  moreover have "list_all (\<lambda>c. \<not> is_space c) ''0123456789abcdef''" by (simp add: is_space_def code_def)
  ultimately show "list_all (\<lambda>c. \<not> is_space c) t"
    unfolding hash_text_def lower_hex_def list_all_iff by blast
qed

lemma sample_claim_normal: "claim_normal TP sample_claim"
proof -
  have "verified_claim_transfer TP (transfer_json first_transfer)
      = Inr (first_transfer, st_last_transfer_hash first_state, sc_spend_key sample_claim)"
  proof -
    have "jget (transfer_json first_transfer) ''type'' = Some (JStr TRANSFER_TYPE)"
      "jget (transfer_json first_transfer) ''network_id'' \<noteq> None"
      using first_link by (auto simp: transfer_json_def link_def transfer_ok_def)
    moreover have "validate_transfer_shape TP first_transfer 1 True None = Inr ()"
      using first_link by (simp add: link_def validate_transfer_shape_Inr_iff)
    moreover have "verify_transfer_signature TP first_transfer = Inr True"
      using first_transfer_signed by (simp add: verify_transfer_signature_Inr_iff)
    ultimately show ?thesis
      by (simp add: verified_claim_transfer_def first_transfer_fields first_transfer_hash sample_claim_fields or_raise_def)
  qed
  moreover have "strip zero_hash = zero_hash" by simp
  ultimately show ?thesis
    by (simp add: claim_normal_def sample_claim_fields first_transfer_fields LOG_VERSION_def VERSION_def
        valid_address_strip [of TP] key_address_ok(2))
qed

section \<open>Its canonical text\<close>

lemma field_names [simp]: "is_ascii ''type''" "is_ascii ''version''" "is_ascii ''log_id''" "is_ascii ''spend_key''"
  "is_ascii ''token_id''" "is_ascii ''previous_hash''" "is_ascii ''sequence''" "is_ascii ''sender_address''"
  "is_ascii ''sender_public_key''" "is_ascii ''transfer_hash''" "is_ascii ''transfer_leaf_index''"
  "is_ascii ''accepted_at''" "is_ascii ''transfer''" "is_ascii ''network_id''" "is_ascii ''signature_algorithm''"
  "is_ascii ''recipient_address''" "is_ascii ''timestamp''" "is_ascii ''metadata''" "is_ascii ''signature''"
  "is_ascii ''claims''" "is_ascii ''tree_algorithm''" "is_ascii ''hash_algorithm''" "is_ascii ''tree_size''"
  "is_ascii ''root_hash''" "is_ascii ''spend_map_algorithm''" "is_ascii ''spend_map_root''" "is_ascii ''spend_map_size''"
  "is_ascii ''operator_public_key''" "is_ascii ''leaf_index''" "is_ascii ''entry_hash''" "is_ascii ''leaf_hash''" "is_ascii ''proof''"
  by (simp_all add: is_ascii_def code_def)

lemma seed_key_text: "is_ascii (public_key_text seed_a)" "length (public_key_text seed_a) \<le> 60"
  using b85encode_plain [of seed_a] length_b85encode [of seed_a 8]
  by (simp_all add: public_key_text_def PUBLIC_KEY_PREFIX_def is_ascii_def code_def)

lemma first_signature_text: "is_ascii (tr_signature first_transfer)" "length (tr_signature first_transfer) = 128"
  using first_transfer_signature by (auto simp: signature_text_def)

lemma key_address_text: "is_ascii (key_address seed_a)" "length (key_address seed_a) = 33"
  "is_ascii (key_address seed_b)" "length (key_address seed_b) = 33"
  using valid_address_text [OF key_address_ok(2)] by simp_all

lemma operator_key_text: "is_ascii operator_key" "length operator_key \<le> 60"
  using seed_key_text by (simp_all add: operator_key_def)

lemma hash_text_length: "hash_text t \<Longrightarrow> length t = 64"
  by (simp add: hash_text_def)

lemmas text_sizes = hash_text_length hash_text_ascii key_address_text first_signature_text seed_key_text(1)

lemma type_names_ascii [simp]: "is_ascii TRANSFER_TYPE" "is_ascii SPEND_CLAIM_TYPE"
  by (simp_all add: TRANSFER_TYPE_def SPEND_CLAIM_TYPE_def is_ascii_def code_def)

lemma type_names: "length TRANSFER_TYPE \<le> 60" "length SPEND_CLAIM_TYPE \<le> 60"
  by (simp_all add: TRANSFER_TYPE_def SPEND_CLAIM_TYPE_def is_ascii_def code_def)

lemma first_transfer_rest: "tr_type first_transfer = TRANSFER_TYPE" "tr_version first_transfer = VERSION"
  "tr_signature_algorithm first_transfer = SIGNATURE_ALGORITHM_ID" "tr_timestamp first_transfer = 1800000000"
proof -
  have "start_time TP None = Inr 1800000000" by (simp add: start_time_def)
  from create_transfer_fields(8) [OF create_first_transfer this]
  show "tr_timestamp first_transfer = 1800000000" by (simp add: genesis_state_def)
qed (use first_link in \<open>auto simp: link_def transfer_ok_def\<close>)

text \<open>Everything the JSON side asks of a value, with a bound on its canonical text.\<close>

definition json_fits :: "nat \<Rightarrow> nat \<Rightarrow> json \<Rightarrow> bool" where
  "json_fits h n j = (json_plain j \<and> json_bound j \<le> n \<and> json_wf j
     \<and> (\<forall>l d. d \<le> h \<longrightarrow> validate_json_value j l d = Inr ()))"

lemmas json_limits = MAX_JSON_INTEGER_ABS_def MAX_JSON_OBJECT_KEYS_def MAX_JSON_STRING_BYTES_def MAX_JSON_DEPTH_def
  MAX_JSON_LIST_ITEMS_def VERSION_def SIGNATURE_ALGORITHM_ID_def LOG_VERSION_def

lemma json_fits_canonical:
  assumes "json_fits h n j"
  shows "canonical_json j = Inr (dumps j)" and "\<exists>b. canonical_bytes j = Inr b \<and> length b \<le> n"
proof -
  show c: "canonical_json j = Inr (dumps j)" using assms by (simp add: json_fits_def canonical_json_def)
  then show "\<exists>b. canonical_bytes j = Inr b \<and> length b \<le> n"
    using canonical_bytes_size [of j] assms by (fastforce simp: json_fits_def canonical_bytes_def)
qed

lemma json_fits_more: "json_fits h n j \<Longrightarrow> h' \<le> h \<Longrightarrow> n \<le> n' \<Longrightarrow> json_fits h' n' j"
  by (auto simp: json_fits_def)

lemma first_transfer_fits: "json_fits 20 6000 (transfer_json first_transfer)"
proof -
  note f = first_transfer_fields first_transfer_rest first_transfer_metadata
  show ?thesis unfolding json_fits_def
  proof (intro conjI allI impI)
    show "json_plain (transfer_json first_transfer)"
      by (simp add: transfer_json_def f text_sizes json_limits)
    show "json_bound (transfer_json first_transfer) \<le> 6000"
      using type_names(1) seed_key_text(2) by (simp add: transfer_json_def f text_sizes)
    show "json_wf (transfer_json first_transfer)"
      by (simp add: transfer_json_def f text_sizes)
    fix l d assume "(d :: nat) \<le> 20"
    then show "validate_json_value (transfer_json first_transfer) l d = Inr ()"
      using type_names(1) seed_key_text(2)
      by (simp add: transfer_json_def f utf8_length_ascii text_sizes json_limits)
  qed
qed

lemma sample_claim_json: "claim_json sample_claim = JDict (claim_fields sample_claim @ [(''transfer'', transfer_json first_transfer)])"
  by (simp add: claim_json_def sample_claim_fields)

lemma sample_claim_fits: "json_fits 19 10000 (claim_json sample_claim)"
proof -
  note f = sample_claim_fields claim_fields_def
  note t = first_transfer_fits [unfolded json_fits_def]
  show ?thesis unfolding json_fits_def sample_claim_json
  proof (intro conjI allI impI)
    show "json_plain (JDict (claim_fields sample_claim @ [(''transfer'', transfer_json first_transfer)]))"
      using t by (simp add: f text_sizes json_limits)
    show "json_bound (JDict (claim_fields sample_claim @ [(''transfer'', transfer_json first_transfer)])) \<le> 10000"
      using t type_names(2) seed_key_text(2) by (simp add: f text_sizes)
    show "json_wf (JDict (claim_fields sample_claim @ [(''transfer'', transfer_json first_transfer)]))"
      using t by (simp add: f text_sizes)
    fix l d assume "(d :: nat) \<le> 19"
    then show "validate_json_value (JDict (claim_fields sample_claim @ [(''transfer'', transfer_json first_transfer)])) l d = Inr ()"
      using t type_names(2) seed_key_text(2)
      by (simp add: f utf8_length_ascii text_sizes json_limits)
  qed
qed

lemma claims_fit: "json_fits 18 10010 (JList [claim_json sample_claim])"
  using sample_claim_fits by (simp add: json_fits_def json_limits)

lemma slot_fits: "json_fits 17 12000 (JDict [(''spend_key'', JStr (sc_spend_key sample_claim)), (''claims'', JList [claim_json sample_claim])])"
  using claims_fit unfolding json_fits_def
  by (simp add: json_limits utf8_length_ascii text_sizes sample_claim_fields)

section \<open>A spend map with this claim\<close>

lemma sample_slot_hash: "\<exists>h. spend_map_slot_hash TP (sc_spend_key sample_claim) [sample_claim] = Inr h"
  using json_fits_canonical(2) [OF slot_fits] sample_claim_fields(5)
  by (auto simp: spend_map_slot_hash_def bindE_Inr_iff)

lemma normalize_sample_claim: "normalize_spend_claim TP (claim_json sample_claim) = Inr sample_claim"
  by (rule normalize_normal_claim [OF sample_claim_normal])

definition sample_position :: nat where "sample_position = hex_number 0 (sc_spend_key sample_claim)"

lemma sample_levels: "\<exists>h. spend_map_levels TP [claim_json sample_claim]
    = Inr ([(sample_position, h)], [(sample_position, [sample_claim])], 1)"
  using sample_slot_hash normalize_sample_claim int_base16_hash [OF sample_claim_fields(5)]
  by (auto simp: spend_map_levels_def add_claim_def slot_leaf_def sample_position_def)

definition sample_map_root :: string where
  "sample_map_root = result_or [] (spend_map_root TP [claim_json sample_claim])"

lemma make_sample_map_root: "spend_map_root TP [claim_json sample_claim] = Inr sample_map_root" "hash_text sample_map_root"
proof -
  from sample_levels obtain h where l: "spend_map_levels TP [claim_json sample_claim]
      = Inr ([(sample_position, h)], [(sample_position, [sample_claim])], 1)" by blast
  have h: "hash_text h"
  proof -
    from l have "slot_leaf TP (sample_position, [sample_claim]) = Inr (sample_position, h)"
      using normalize_sample_claim int_base16_hash [OF sample_claim_fields(5)]
      by (auto simp: spend_map_levels_def add_claim_def sample_position_def bindE_Inr_iff)
    from slot_leaf_text [OF toy_hash_ok this] show ?thesis by simp
  qed
  let ?r = "node_hash TP (leaf_of TP [(sample_position, h)]) SPEND_MAP_KEY_BITS 0"
  have r: "spend_map_root TP [claim_json sample_claim] = Inr ?r"
    using level_at_node [of TP "[(sample_position, h)]" SPEND_MAP_KEY_BITS 0]
    by (simp add: spend_map_root_def l spend_map_empty_root_def spend_map_empty_hashes_def)
  then show "spend_map_root TP [claim_json sample_claim] = Inr sample_map_root"
    unfolding sample_map_root_def by (rule result_or_Inr [OF exI])
  with r have "sample_map_root = ?r" by simp
  moreover have "hash_text ?r" by (rule node_hash_text) (use h in \<open>simp_all add: leaf_of_def level_get_def\<close>)
  ultimately show "hash_text sample_map_root" by (simp only:)
qed

section \<open>A signed root over it\<close>

definition sample_leaf :: bytes where "sample_leaf = toy_hash (digest_bytes (cp_checkpoint_hash first_checkpoint))"

lemma first_checkpoint_hash_text [simp]: "hash_text (cp_checkpoint_hash first_checkpoint)"
  using first_checkpoint_shape by (simp add: checkpoint_core_shape_def)

lemma sample_leaf_hash: "log_leaf_hash TL (cp_checkpoint_hash first_checkpoint) = Inr sample_leaf"
proof -
  obtain b where b: "fromhex (cp_checkpoint_hash first_checkpoint) = Some b"
    using hash_text_hex64 [OF first_checkpoint_hash_text] by (auto simp: hex64_def)
  then show ?thesis
    by (simp add: log_leaf_hash_def entry_hash_bytes_def hash_text_length Let_def toy_log_def sample_leaf_def digest_bytes_def)
qed

lemma sample_leaf_length [simp]: "length sample_leaf = 32"
  by (simp add: sample_leaf_def toy_hash_def Let_def)

lemma log_names: "is_ascii LOG_ROOT_TYPE" "length LOG_ROOT_TYPE = 24" "is_ascii LOG_TREE_ALGORITHM" "length LOG_TREE_ALGORITHM = 20"
  "is_ascii LOG_HASH_ALGORITHM" "length LOG_HASH_ALGORITHM = 8" "is_ascii LOG_SIGNATURE_ALGORITHM" "length LOG_SIGNATURE_ALGORITHM = 14"
  "is_ascii LOG_SPEND_MAP_ALGORITHM" "length LOG_SPEND_MAP_ALGORITHM = 32"
  by (simp_all add: LOG_ROOT_TYPE_def LOG_TREE_ALGORITHM_def LOG_HASH_ALGORITHM_def LOG_SIGNATURE_ALGORITHM_def
      LOG_SPEND_MAP_ALGORITHM_def is_ascii_def code_def)

text \<open>Roots of the sample operator, on any platform whose signatures are the toy ones.\<close>

definition root_items :: "platform \<Rightarrow> string \<Rightarrow> int \<Rightarrow> (string \<times> json) list" where
  "root_items P root_hash timestamp =
     [(''type'', JStr LOG_ROOT_TYPE), (''version'', JInt LOG_VERSION),
      (''log_id'', JStr (log_id_from_public_key P operator_key)),
      (''tree_algorithm'', JStr LOG_TREE_ALGORITHM), (''hash_algorithm'', JStr LOG_HASH_ALGORITHM),
      (''signature_algorithm'', JStr LOG_SIGNATURE_ALGORITHM), (''tree_size'', JInt 1),
      (''root_hash'', JStr root_hash), (''spend_map_algorithm'', JStr LOG_SPEND_MAP_ALGORITHM),
      (''spend_map_root'', JStr sample_map_root), (''spend_map_size'', JInt 1),
      (''timestamp'', JInt timestamp), (''operator_public_key'', JStr operator_key)]"

definition sign_root :: "platform \<Rightarrow> string \<Rightarrow> int \<Rightarrow> json" where
  "sign_root P root_hash timestamp = result_or JNull (make_signed_root P 1 root_hash timestamp (private_key_text seed_a)
     operator_key sample_map_root 1)"

definition root_platform :: "platform \<Rightarrow> bool" where
  "root_platform P = (hash_ok P \<and> ed_ok P \<and> pf_ed_public P seed_a = seed_a)"

lemma log_id_text: "hash_ok P \<Longrightarrow> hash_text (log_id_from_public_key P k)"
  by (simp add: log_id_from_public_key_def)

lemma root_items_fit:
  assumes "root_platform P" "hash_text rh" "0 \<le> ts" "ts \<le> 4000000000"
  shows "json_fits 10 5000 (JDict (root_items P rh ts))"
    and "length s = 80 \<Longrightarrow> is_ascii s \<Longrightarrow> json_fits 10 6000 (JDict (root_items P rh ts @ [(''signature'', JStr s)]))"
proof -
  have l: "hash_text (log_id_from_public_key P operator_key)" using assms(1) by (simp add: root_platform_def log_id_text)
  note f = json_fits_def json_limits log_names utf8_length_ascii text_sizes operator_key_text(1) make_sample_map_root(2) root_items_def
  show "json_fits 10 5000 (JDict (root_items P rh ts))"
    using operator_key_text(2) assms l by (simp add: f)
  show "length s = 80 \<Longrightarrow> is_ascii s \<Longrightarrow> json_fits 10 6000 (JDict (root_items P rh ts @ [(''signature'', JStr s)]))"
    using operator_key_text(2) assms l by (simp add: f)
qed

lemma sign_root_items:
  assumes "root_platform P" "hash_text rh" "0 \<le> ts" "ts \<le> 4000000000"
  shows "\<exists>s. length s = 80 \<and> is_ascii s \<and> sign_root P rh ts = JDict (root_items P rh ts @ [(''signature'', JStr s)])"
    and "make_signed_root P 1 rh ts (private_key_text seed_a) operator_key sample_map_root 1 = Inr (sign_root P rh ts)"
proof -
  from json_fits_canonical(2) [OF root_items_fit(1) [OF assms]]
  obtain p where p: "root_signature_payload (JDict (root_items P rh ts)) = Inr p"
    by (auto simp: root_signature_payload_def signature_payload_def without_key_def root_items_def)
  let ?raw = "pf_ed_sign P seed_a p"
  have ed: "ed_ok P" using assms(1) by (simp add: root_platform_def)
  have "startswith (private_key_text seed_a) PRIVATE_KEY_PREFIX" by (simp add: private_key_text_def startswith_def)
  then have sg: "sign_operator_payload P (private_key_text seed_a) p = Inr (b85encode ?raw)"
    using ed25519_sign_ok [OF ed seed_lengths(1), of p] strip_private_text [of seed_a]
    by (simp add: sign_operator_payload_def keys_sign_def private_key_text_def [symmetric])
  have "length ?raw = 64" using ed by (simp add: ed_ok_def)
  then have l: "length (b85encode ?raw) = 80" "is_ascii (b85encode ?raw)"
    using length_b85encode [of ?raw 16] b85encode_plain [of ?raw] by simp_all
  have r: "make_signed_root P 1 rh ts (private_key_text seed_a) operator_key sample_map_root 1
      = Inr (JDict (root_items P rh ts @ [(''signature'', JStr (b85encode ?raw))]))"
    using p sg make_sample_map_root(2) assms(2) by (simp add: make_signed_root_def root_items_def)
  then show "make_signed_root P 1 rh ts (private_key_text seed_a) operator_key sample_map_root 1 = Inr (sign_root P rh ts)"
    by (simp add: sign_root_def result_or_def)
  from r have "sign_root P rh ts = JDict (root_items P rh ts @ [(''signature'', JStr (b85encode ?raw))])"
    by (simp add: sign_root_def result_or_def)
  with l show "\<exists>s. length s = 80 \<and> is_ascii s \<and> sign_root P rh ts = JDict (root_items P rh ts @ [(''signature'', JStr s)])" by blast
qed

lemma verify_sign_root:
  assumes "root_platform P" "hash_text rh" "0 \<le> ts" "ts \<le> 4000000000" and "pinned pin operator_key"
  shows "verify_signed_root P T (sign_root P rh ts) pin = Inr ()"
proof -
  have "ed_ok P" "pf_ed_public P seed_a = seed_a" using assms(1) by (simp_all add: root_platform_def)
  with make_signed_root_verifies [of P seed_a 1 ts 1 rh sample_map_root "sign_root P rh ts" pin T] sign_root_items(2) [OF assms(1-4)]
    assms make_sample_map_root(2)
  show ?thesis by (simp add: operator_key_def private_key_text_def)
qed

lemma toy_root_platform [simp]: "root_platform TP"
  by (simp add: root_platform_def)

definition sample_root :: json where "sample_root = sign_root TP (hex_text sample_leaf) 1800000000"

lemma verify_sample_root: "pinned pin operator_key \<Longrightarrow> verify_signed_root TP T sample_root pin = Inr ()"
  unfolding sample_root_def by (rule verify_sign_root) simp_all

lemma make_sample_root: "make_signed_root TP 1 (hex_text sample_leaf) 1800000000 (private_key_text seed_a)
     operator_key sample_map_root 1 = Inr sample_root"
  unfolding sample_root_def by (rule sign_root_items) simp_all

lemma sample_root_fields:
  "jget sample_root ''log_id'' = Some (JStr sample_log_id)" "jget sample_root ''tree_size'' = Some (JInt 1)"
  "jget sample_root ''spend_map_root'' = Some (JStr sample_map_root)" "jget sample_root ''spend_map_size'' = Some (JInt 1)"
  "jget sample_root ''root_hash'' = Some (JStr (hex_text sample_leaf))" "jget sample_root ''timestamp'' = Some (JInt 1800000000)"
  and sample_root_fits: "json_fits 10 6000 sample_root"
proof -
  obtain s where s: "length s = 80" "is_ascii s" and root: "sample_root = JDict (root_items TP (hex_text sample_leaf) 1800000000 @ [(''signature'', JStr s)])"
    using sign_root_items(1) [of TP "hex_text sample_leaf" 1800000000] by (auto simp: sample_root_def)
  show "jget sample_root ''log_id'' = Some (JStr sample_log_id)" "jget sample_root ''tree_size'' = Some (JInt 1)"
    "jget sample_root ''spend_map_root'' = Some (JStr sample_map_root)" "jget sample_root ''spend_map_size'' = Some (JInt 1)"
    "jget sample_root ''root_hash'' = Some (JStr (hex_text sample_leaf))" "jget sample_root ''timestamp'' = Some (JInt 1800000000)"
    unfolding root by (simp_all add: root_items_def sample_log_id_def)
  show "json_fits 10 6000 sample_root" unfolding root by (rule root_items_fit) (simp_all add: s)
qed

section \<open>A second root of the same size\<close>

text \<open>
  Two roots of one size with different hashes, on a platform whose hash tells their texts apart.
\<close>

definition flat_platform :: platform where
  "flat_platform = TP\<lparr>pf_sha3_256 := (\<lambda>m. replicate 32 1)\<rparr>"

definition root_a :: json where "root_a = sign_root flat_platform zero_hash 1800000000"
definition root_b :: json where "root_b = sign_root flat_platform (hex_text (replicate 32 1)) 1800000000"

definition split_platform :: platform where
  "split_platform = TP\<lparr>pf_sha3_256 := (\<lambda>m. if canonical_bytes root_a = Inr m then replicate 32 0 else replicate 32 1)\<rparr>"

abbreviation SP :: platform where "SP \<equiv> split_platform"

lemma split_platforms: "root_platform flat_platform" "root_platform SP" "hash_ok SP" "pf_clock SP = 1800000000"
proof -
  have "ed_ok (TP\<lparr>pf_sha3_256 := h\<rparr>)" for h using toy_ed_ok by (simp add: ed_ok_def)
  then show "root_platform flat_platform" "root_platform SP" "hash_ok SP" "pf_clock SP = 1800000000"
    by (simp_all add: root_platform_def flat_platform_def split_platform_def hash_ok_def)
qed

lemma root_facts:
  assumes "root_platform P" "hash_text rh" "0 \<le> ts" "ts \<le> 4000000000"
  shows "jget (sign_root P rh ts) ''root_hash'' = Some (JStr rh)" and "jget (norm (sign_root P rh ts)) ''root_hash'' = Some (JStr rh)"
    and "jget (sign_root P rh ts) ''tree_size'' = Some (JInt 1)" and "jget (sign_root P rh ts) ''timestamp'' = Some (JInt ts)"
    and "jget (sign_root P rh ts) ''log_id'' = Some (JStr (log_id_from_public_key P operator_key))"
    and "jget (sign_root P rh ts) ''spend_map_root'' = Some (JStr sample_map_root)"
    and "jget (sign_root P rh ts) ''spend_map_size'' = Some (JInt 1)"
    and "json_wf (sign_root P rh ts)" and "\<exists>t. canonical_json (sign_root P rh ts) = Inr (CHR ''{'' # t)"
proof -
  obtain s where s: "length s = 80" "is_ascii s" and root: "sign_root P rh ts = JDict (root_items P rh ts @ [(''signature'', JStr s)])"
    using sign_root_items(1) [OF assms] by blast
  note fit = root_items_fit(2) [OF assms s]
  show "jget (sign_root P rh ts) ''root_hash'' = Some (JStr rh)"
    "jget (sign_root P rh ts) ''tree_size'' = Some (JInt 1)" "jget (sign_root P rh ts) ''timestamp'' = Some (JInt ts)"
    "jget (sign_root P rh ts) ''log_id'' = Some (JStr (log_id_from_public_key P operator_key))"
    "jget (sign_root P rh ts) ''spend_map_root'' = Some (JStr sample_map_root)"
    "jget (sign_root P rh ts) ''spend_map_size'' = Some (JInt 1)"
    unfolding root by (simp_all add: root_items_def)
  have "distinct (map fst (root_items P rh ts @ [(''signature'', JStr s)]))" by (simp add: root_items_def)
  from map_of_norm_fields [OF this, of "''root_hash''"]
  show "jget (norm (sign_root P rh ts)) ''root_hash'' = Some (JStr rh)" unfolding root by (simp add: root_items_def)
  from fit show "json_wf (sign_root P rh ts)" unfolding root by (simp only: json_fits_def)
  show "\<exists>t. canonical_json (sign_root P rh ts) = Inr (CHR ''{'' # t)"
    using json_fits_canonical(1) [OF fit] unfolding root by simp
qed

lemma ones_text: "hash_text (hex_text (replicate 32 (1 :: byte)))" "zero_hash \<noteq> hex_text (replicate 32 1)"
  "hex_text (replicate 32 (0 :: byte)) \<noteq> hex_text (replicate 32 1)"
proof -
  show "hash_text (hex_text (replicate 32 (1 :: byte)))" unfolding hash_text_hex by simp
  show d: "hex_text (replicate 32 (0 :: byte)) \<noteq> hex_text (replicate 32 1)"
    using fromhex_hex_text [of "replicate 32 (0 :: byte)"] fromhex_hex_text [of "replicate 32 (1 :: byte)"]
    by (metis option.inject replicate_eq_replicate zero_neq_numeral zero_neq_one)
  have "hex_text (replicate n 0) = replicate (2 * n) (CHR ''0'')" for n
    by (induction n) (simp_all add: hex_digit_def)
  from this [of 32] have "zero_hash = hex_text (replicate 32 0)" by (simp only: zero_hash_def) simp
  with d show "zero_hash \<noteq> hex_text (replicate 32 1)" by simp
qed

lemma roots_differ: "canonical_bytes root_a \<noteq> canonical_bytes root_b"
proof
  have times: "(0 :: int) \<le> 1800000000" "(1800000000 :: int) \<le> 4000000000" by simp_all
  assume eq: "canonical_bytes root_a = canonical_bytes root_b"
  note h = ones_text(1)
  note a = root_facts [OF split_platforms(1) zero_hash_text, of 1800000000, folded root_a_def, OF times]
  note b = root_facts [OF split_platforms(1) h, of 1800000000, folded root_b_def, OF times]
  obtain t where t: "canonical_json root_a = Inr t" using a(9) by auto
  with eq b(9) have "canonical_json root_b = Inr t" by (auto simp: canonical_bytes_def)
  from canonical_json_inject [OF a(8) b(8) t this] have "norm root_a = norm root_b" .
  with a(2) b(2) have "zero_hash = hex_text (replicate 32 1)" by simp
  then show False using ones_text(2) by simp
qed

lemma split_log_id: "log_id_from_public_key SP operator_key = log_id_from_public_key flat_platform operator_key"
proof -
  obtain t where "canonical_json root_a = Inr (CHR ''{'' # t)"
    using root_facts(9) [OF split_platforms(1) zero_hash_text, of 1800000000, folded root_a_def] by auto
  moreover have "hd operator_key = CHR ''i''" "operator_key \<noteq> []"
    by (simp_all add: operator_key_def public_key_text_def PUBLIC_KEY_PREFIX_def)
  ultimately have "canonical_bytes root_a \<noteq> Inr (utf8 operator_key)"
    by (auto simp: canonical_bytes_def dest: arg_cong [where f = hd])
  then show ?thesis by (simp add: log_id_from_public_key_def sha3_hex_def split_platform_def flat_platform_def)
qed

lemma split_fields: "pf_ed_public SP = pf_ed_public TP" "pf_ed_sign SP = pf_ed_sign TP" "pf_ed_verify SP = pf_ed_verify TP"
  "pf_ed_public flat_platform = pf_ed_public TP" "pf_ed_sign flat_platform = pf_ed_sign TP" "pf_ed_verify flat_platform = pf_ed_verify TP"
  by (simp_all add: split_platform_def flat_platform_def)

lemma split_sign_root: "sign_root SP rh ts = sign_root flat_platform rh ts"
proof -
  have k: "keys_sign SP k p = keys_sign flat_platform k p" for k p
    unfolding keys_sign_def ed25519_sign_def ed25519_verify_def split_fields ..
  show ?thesis
    unfolding sign_root_def make_signed_root_def split_log_id sign_operator_payload_def k ..
qed

lemma roots_verify:
  assumes "pinned pin operator_key"
  shows "verify_signed_root SP T root_a pin = Inr ()" and "verify_signed_root SP T root_b pin = Inr ()"
  unfolding root_a_def root_b_def split_sign_root [symmetric]
  by (rule verify_sign_root [OF split_platforms(2) _ _ _ assms]; simp)+

lemma roots_collide: "equivocation_collision_type SP root_a root_b = Inr (Some ''same_tree_size'')"
proof -
  have times: "(0 :: int) \<le> 1800000000" "(1800000000 :: int) \<le> 4000000000" by simp_all
  note h = ones_text(1)
  note a = root_facts [OF split_platforms(1) zero_hash_text, of 1800000000, folded root_a_def, OF times]
  note b = root_facts [OF split_platforms(1) h, of 1800000000, folded root_b_def, OF times]
  note d = ones_text(2)
  obtain m m' where m: "canonical_bytes root_a = Inr m" "canonical_bytes root_b = Inr m'"
    using a(9) b(9) by (auto simp: canonical_bytes_def)
  then have ids: "signed_root_id SP root_a = Inr (hex_text (replicate 32 0))" "signed_root_id SP root_b = Inr (hex_text (replicate 32 1))"
    using roots_differ by (simp_all add: signed_root_id_def message_hash_def sha3_hex_def split_platform_def)
  note e = ones_text(3)
  have f: "root_fingerprint root_a = Inr (1, JStr zero_hash, Some (JStr sample_map_root), 1)"
    "root_fingerprint root_b = Inr (1, JStr (hex_text (replicate 32 1)), Some (JStr sample_map_root), 1)"
    using a(1,3,6,7) b(1,3,6,7) by (simp_all only: root_fingerprint_def int_at_def jat_def bindE_simps option.case json.case)
  have g: "(1 :: int, JStr zero_hash, Some (JStr sample_map_root), 1 :: int)
      \<noteq> (1, JStr (hex_text (replicate 32 1)), Some (JStr sample_map_root), 1)" using d by blast
  show ?thesis
    unfolding equivocation_collision_Some_iff
    by (rule exI conjI a(5) b(5) ids e f g)+ (simp only: fst_conv if_True simp_thms)
qed

section \<open>The proofs under it\<close>

definition sample_spend_proof :: spend_map_proof where
  "sample_spend_proof = \<lparr>smp_type = LOG_SPEND_MAP_PROOF_TYPE, smp_version = LOG_VERSION, smp_algorithm = LOG_SPEND_MAP_ALGORITHM,
     smp_spend_key = sc_spend_key sample_claim, smp_tree_size = 1, smp_map_size = 1,
     smp_spend_claims = [claim_json sample_claim],
     smp_audit_path = audit_path TP (fst (result_or ([], [], 0) (spend_map_levels TP [claim_json sample_claim]))) sample_position\<rparr>"

lemma build_sample_proof: "build_spend_map_proof TP [claim_json sample_claim] (JStr (sc_spend_key sample_claim)) 1 = Inr sample_spend_proof"
proof -
  from sample_levels obtain h where l: "spend_map_levels TP [claim_json sample_claim]
      = Inr ([(sample_position, h)], [(sample_position, [sample_claim])], 1)" by blast
  show ?thesis
    using spend_key_position_hash(1) [OF sample_claim_fields(5)] sample_claim_fields(5)
    by (simp add: build_spend_map_proof_def sample_spend_proof_def l result_or_def hash_text_root_hex32 sample_position_def)
qed

lemma verify_sample_proof: "verify_spend_map_proof TP TL (spend_map_proof_json sample_spend_proof) sample_root = Inr [sample_claim]"
proof -
  have "\<exists>cs. verify_spend_map_proof TP TL (spend_map_proof_json sample_spend_proof) sample_root = Inr cs
      \<and> map claim_json cs = smp_spend_claims sample_spend_proof"
  proof (rule built_proof_verifies [OF toy_hash_ok build_sample_proof _ make_sample_map_root(1)])
    show "verify_signed_root TP TL sample_root None = Inr ()" by (rule verify_sample_root) simp
  qed (use sample_claim_fields sample_root_fields normalize_sample_claim in \<open>auto simp: sample_spend_proof_def\<close>)
  then obtain cs where cs: "verify_spend_map_proof TP TL (spend_map_proof_json sample_spend_proof) sample_root = Inr cs"
    "map claim_json cs = [claim_json sample_claim]" by (auto simp: sample_spend_proof_def)
  then obtain c where c: "cs = [c]" "claim_json c = claim_json sample_claim" by (cases cs) auto
  have "normalize_spend_claim TP (claim_json sample_claim) = Inr c"
    using cs(1) unfolding c(1) verify_spend_map_proof_def bindE_Inr_iff read_spend_map_proof_json
    by (auto dest!: check_spend_map_proofD simp: sample_spend_proof_def bindE_Inr_iff normalize_sample_claim)
  with normalize_sample_claim cs(1) c(1) show ?thesis by simp
qed

text \<open>Encodings that succeed within a size.\<close>

definition fits :: "nat \<Rightarrow> bytes res \<Rightarrow> bool" where
  "fits n m = (\<exists>b. m = Inr b \<and> length b \<le> n)"

lemma fits_ok: "is_ok m \<Longrightarrow> (\<And>b. m = Inr b \<Longrightarrow> length b \<le> n) \<Longrightarrow> fits n m"
  by (auto simp: fits_def is_ok_iff)

lemma fits_uvarint: "0 \<le> v \<Longrightarrow> v \<le> MAX_UVARINT \<Longrightarrow> fits 9 (encode_uvarint v)"
  by (rule fits_ok [OF encode_uvarint_is_ok encode_uvarint_size])

lemma fits_hash: "hash_text h \<Longrightarrow> fits 32 (encode_hash_hex h)"
  by (rule fits_ok [OF encode_hash_is_ok encode_hash_hex_size]) simp_all

lemma fits_nullable: "(\<forall>h. v = Some h \<longrightarrow> hash_text h) \<Longrightarrow> fits 33 (encode_hash_hex_nullable v)"
  by (rule fits_ok [OF encode_nullable_is_ok encode_nullable_size]) simp_all

lemma fits_ascii: "is_ascii t \<Longrightarrow> length t \<le> k \<Longrightarrow> int k \<le> m \<Longrightarrow> k \<le> 1000 \<Longrightarrow> fits (k + 9) (encode_ascii m t)"
proof (rule fits_ok)
  fix b assume "encode_ascii m t = Inr b" "length t \<le> k"
  with encode_ascii_size [of m t b] show "length b \<le> k + 9" by simp
qed (auto simp: is_ok_iff encode_ascii_Inr_iff MAX_UVARINT_def)

lemma fits_bytes: "fits n m \<Longrightarrow> n \<le> 65536 \<Longrightarrow> fits (n + 9) (bindE m (encode_bytes MAX_BOUNDED_BYTES))"
proof -
  assume m: "fits n m" "n \<le> 65536"
  then obtain b where b: "m = Inr b" "length b \<le> n" by (auto simp: fits_def)
  then have "encode_bytes MAX_BOUNDED_BYTES b = Inr (uvarint_loop (length b) @ b)"
    using m(2) by (simp add: encode_bytes_Inr_iff)
  with encode_bytes_size [OF this] b show ?thesis by (simp add: fits_def)
qed

lemma fits_more: "fits n m \<Longrightarrow> n \<le> k \<Longrightarrow> fits k m"
  by (auto simp: fits_def)

lemma fits_join: "list_all2 fits ns ms \<Longrightarrow> fits (sum_list ns) (joinE ms)"
proof (induction ns ms rule: list_all2_induct)
  case (Cons n ns m ms)
  then obtain b c where "m = Inr b" "length b \<le> n" "joinE ms = Inr c" "length c \<le> sum_list ns"
    by (auto simp: fits_def)
  then show ?case by (simp add: fits_def)
qed (simp add: fits_def)

lemma fits_envelope:
  assumes "fits n m" and "length magic = 8" and "0 \<le> k" "k \<le> MAX_UVARINT"
  shows "fits (n + 18) (bindE m (encode_envelope magic k))"
proof -
  from assms(1) obtain b where b: "m = Inr b" "length b \<le> n" by (auto simp: fits_def)
  have "length (uvarint_loop 3) \<le> 1" by (rule length_uvarint_loop) simp_all
  moreover have "length (uvarint_loop (nat k)) \<le> 9"
    using encode_uvarint_size [of k] assms(3,4) by (simp add: encode_uvarint_Inr_iff)
  ultimately show ?thesis
    using assms b by (simp add: fits_def encode_envelope_Inr_iff encode_uvarint_Inr_iff)
qed

section \<open>The compressed proof\<close>

definition sample_compressed :: compressed_proof where
  "sample_compressed = result_or \<lparr>cz_type = [], cz_version = 0, cz_network_id = 0, cz_algorithm = [], cz_spend_key = [],
     cz_tree_size = 0, cz_map_size = 0, cz_spend_claims = [], cz_sibling_count = 0, cz_siblings = []\<rparr>
     (compress_spend_map_proof TP sample_spend_proof 1)"

lemma sample_path_follows: "path_follows sample_position (smp_audit_path sample_spend_proof)"
proof -
  from sample_levels obtain h where l: "spend_map_levels TP [claim_json sample_claim]
      = Inr ([(sample_position, h)], [(sample_position, [sample_claim])], 1)" by blast
  have "hash_text (leaf_of TP [(sample_position, h)] p)" for p
  proof -
    from l have "slot_leaf TP (sample_position, [sample_claim]) = Inr (sample_position, h)"
      using normalize_sample_claim int_base16_hash [OF sample_claim_fields(5)]
      by (auto simp: spend_map_levels_def add_claim_def sample_position_def bindE_Inr_iff)
    from slot_leaf_text [OF toy_hash_ok this] show ?thesis by (simp add: leaf_of_def level_get_def)
  qed
  from built_path_follows [OF toy_hash_ok this] show ?thesis by (simp add: sample_spend_proof_def l result_or_def)
qed

lemma make_sample_compressed: "compress_spend_map_proof TP sample_spend_proof 1 = Inr sample_compressed"
  unfolding sample_compressed_def
proof (rule result_or_Inr)
  have "\<forall>s \<in> set (smp_audit_path sample_spend_proof). hash_text (as_hash s)" and l: "length (smp_audit_path sample_spend_proof) = 256"
    using sample_path_follows by (auto simp: path_follows_def in_set_conv_nth SPEND_MAP_KEY_BITS_def)
  from compress_steps [OF this(1), of 0 TP] l sample_claim_fields(5)
  show "\<exists>c. compress_spend_map_proof TP sample_spend_proof 1 = Inr c"
    by (simp add: compress_spend_map_proof_def compress_audit_path_def sample_spend_proof_def hash_text_root_hex32 SPEND_MAP_KEY_BITS_def)
qed

lemma expand_sample: "expand_compressed_spend_map_proof TP sample_compressed (Some 1) = Inr sample_spend_proof"
  by (rule expand_compress [OF _ _ _ _ _ _ _ sample_path_follows _ make_sample_compressed])
    (simp_all add: sample_spend_proof_def sample_claim_fields spend_key_position_hash sample_position_def)

lemma verify_sample_compressed: "verify_compressed_spend_map_proof TP TL sample_compressed sample_root (Some 1) = Inr [sample_claim]"
  by (simp add: verify_compressed_spend_map_proof_def expand_sample verify_sample_proof)

lemma sample_compressed_fields:
  "cz_type sample_compressed = COMPRESSED_SPEND_MAP_PROOF_TYPE" "cz_version sample_compressed = COMPRESSED_SPEND_MAP_PROOF_VERSION"
  "cz_network_id sample_compressed = 1" "cz_algorithm sample_compressed = COMPRESSED_SPEND_MAP_ALGORITHM"
  "cz_spend_key sample_compressed = sc_spend_key sample_claim" "cz_tree_size sample_compressed = 1"
  "cz_map_size sample_compressed = 1" "cz_spend_claims sample_compressed = [claim_json sample_claim]"
  "cz_siblings sample_compressed = map sibling_of (kept_steps TP 0 (smp_audit_path sample_spend_proof))"
proof -
  have "\<forall>s \<in> set (smp_audit_path sample_spend_proof). hash_text (as_hash s)" and l: "length (smp_audit_path sample_spend_proof) = 256"
    using sample_path_follows by (auto simp: path_follows_def in_set_conv_nth SPEND_MAP_KEY_BITS_def)
  note steps = compress_steps [OF this(1), of 0 TP]
  from make_sample_compressed l steps have c: "sample_compressed = \<lparr>cz_type = COMPRESSED_SPEND_MAP_PROOF_TYPE,
      cz_version = COMPRESSED_SPEND_MAP_PROOF_VERSION, cz_network_id = 1, cz_algorithm = COMPRESSED_SPEND_MAP_ALGORITHM,
      cz_spend_key = smp_spend_key sample_spend_proof, cz_tree_size = smp_tree_size sample_spend_proof,
      cz_map_size = smp_map_size sample_spend_proof, cz_spend_claims = smp_spend_claims sample_spend_proof,
      cz_sibling_count = int (length (map sibling_of (kept_steps TP 0 (smp_audit_path sample_spend_proof)))),
      cz_siblings = map sibling_of (kept_steps TP 0 (smp_audit_path sample_spend_proof))\<rparr>"
    using sample_claim_fields(5)
    by (simp add: compress_spend_map_proof_def compress_audit_path_def sample_spend_proof_def hash_text_root_hex32
        SPEND_MAP_KEY_BITS_def)
  show "cz_type sample_compressed = COMPRESSED_SPEND_MAP_PROOF_TYPE" "cz_version sample_compressed = COMPRESSED_SPEND_MAP_PROOF_VERSION"
    "cz_network_id sample_compressed = 1" "cz_algorithm sample_compressed = COMPRESSED_SPEND_MAP_ALGORITHM"
    "cz_spend_key sample_compressed = sc_spend_key sample_claim" "cz_tree_size sample_compressed = 1"
    "cz_map_size sample_compressed = 1" "cz_spend_claims sample_compressed = [claim_json sample_claim]"
    "cz_siblings sample_compressed = map sibling_of (kept_steps TP 0 (smp_audit_path sample_spend_proof))"
    unfolding c by (simp_all add: sample_spend_proof_def)
qed

lemma kept_steps_members: "(d, s) \<in> set (kept_steps P i ss) \<Longrightarrow> s \<in> set ss \<and> d \<le> int SPEND_MAP_KEY_BITS \<and> int SPEND_MAP_KEY_BITS - int (i + length ss) \<le> d"
  by (induction ss arbitrary: i) (fastforce split: if_splits)+

lemma kept_steps_length: "length (kept_steps P i ss) \<le> length ss"
  by (induction ss arbitrary: i) (simp_all add: le_SucI)

lemma sibling_fits:
  assumes "s \<in> set (cz_siblings sample_compressed)"
  shows "fits 50 (sibling_bytes s)"
proof -
  from assms obtain d step where s: "s = sibling_of (d, step)" and k: "(d, step) \<in> set (kept_steps TP 0 (smp_audit_path sample_spend_proof))"
    by (auto simp: sample_compressed_fields)
  from sample_path_follows kept_steps_members [OF k] have step: "hash_text (as_hash step)" "as_side step \<in> {''left'', ''right''}"
    and d: "0 \<le> d" "d \<le> 256"
    by (auto simp: path_follows_def in_set_conv_nth SPEND_MAP_KEY_BITS_def expected_side_def)
  have "fits 9 (bindE (side_marker (as_side step)) encode_uvarint)"
    using step(2) fits_uvarint [of 0] fits_uvarint [of 1] by (auto simp: side_marker_def MAX_UVARINT_def)
  moreover have "fits 9 (encode_uvarint d)" using d by (intro fits_uvarint) (simp_all add: MAX_UVARINT_def)
  moreover note fits_hash [OF step(1)]
  ultimately have "fits (sum_list [9, 9, 32]) (sibling_bytes s)"
    unfolding sibling_bytes_def by (intro fits_join) (simp add: s sibling_of_def)
  then show ?thesis by simp
qed

lemma encode_sample_compressed: "fits 30000 (encode_compressed_spend_map_proof sample_compressed)"
proof -
  have l: "length (cz_siblings sample_compressed) \<le> 256"
    using kept_steps_length [of TP 0 "smp_audit_path sample_spend_proof"] sample_path_follows
    by (simp add: sample_compressed_fields path_follows_def SPEND_MAP_KEY_BITS_def)
  have "list_all2 fits (replicate (length (cz_siblings sample_compressed)) 50) (map sibling_bytes (cz_siblings sample_compressed))"
    using sibling_fits by (auto simp: list_all2_conv_all_nth)
  from fits_more [OF fits_join [OF this], of 12800] l
  have siblings: "fits 12800 (joinE (map sibling_bytes (cz_siblings sample_compressed)))" by (simp add: sum_list_replicate)
  have alg: "fits 69 (encode_ascii 128 COMPRESSED_SPEND_MAP_ALGORITHM)"
    using fits_ascii [of COMPRESSED_SPEND_MAP_ALGORITHM 60 128]
    by (simp add: COMPRESSED_SPEND_MAP_ALGORITHM_def is_ascii_def code_def)
  have one: "fits 9 (encode_uvarint 1)" by (rule fits_uvarint) (simp_all add: MAX_UVARINT_def)
  have n: "fits 9 (encode_uvarint (int (length (cz_siblings sample_compressed))))"
    using l by (intro fits_uvarint) (simp_all add: MAX_UVARINT_def)
  have "fits 10010 (canonical_bytes (JList [claim_json sample_claim]))"
    using json_fits_canonical(2) [OF claims_fit] by (auto simp: fits_def)
  from fits_bytes [OF this] have claims: "fits 10019 (bindE (canonical_bytes (JList [claim_json sample_claim])) (encode_bytes MAX_BOUNDED_BYTES))"
    by simp
  have key: "fits 32 (encode_hash_hex (lower (sc_spend_key sample_claim)))"
    using fits_hash [OF sample_claim_fields(5)] sample_claim_fields(5) by simp
  have "fits (sum_list [69, 32, 9, 9, 10019, 9, 12800]) (compressed_body sample_compressed)"
    unfolding compressed_body_def sample_compressed_fields(4-8)
    by (intro fits_join list.rel_intros alg key one n claims siblings)
  from fits_more [OF fits_envelope [OF this, of COMPRESSED_SPEND_MAP_PROOF_MAGIC 1], of 30000]
  have "fits 30000 (bindE (compressed_body sample_compressed) (encode_envelope COMPRESSED_SPEND_MAP_PROOF_MAGIC 1))"
    by (simp add: COMPRESSED_SPEND_MAP_PROOF_MAGIC_def MAX_UVARINT_def)
  moreover have "\<exists>k. validate_compressed_header sample_compressed None = Inr k"
    using expand_any_network [OF expand_sample] by (auto simp: expand_compressed_spend_map_proof_def bindE_Inr_iff)
  ultimately show ?thesis
    by (auto simp: encode_compressed_spend_map_proof_def spend_proof_envelope_def [abs_def] sample_compressed_fields(3))
qed

section \<open>An archive segment\<close>

definition bare_segment :: archive_segment where
  "bare_segment = segment_of zero_hash sample_genesis_ref genesis_state [first_transfer] None None 1 first_state first_checkpoint []"

lemma display_fits: "fits 73 (encode_ascii 64 (display_text 1 1))"
proof (rule fits_ok [OF encode_display_is_ok [OF valid_first_bill]])
  fix b assume b: "encode_ascii 64 (display_text 1 1) = Inr b"
  then have "length (display_text 1 1) \<le> 64" by (simp add: encode_ascii_Inr_iff)
  with encode_ascii_size [OF b] show "length b \<le> 73" by simp
qed

lemma small_numbers: "fits 9 (encode_uvarint 0)" "fits 9 (encode_uvarint 1)" "fits 9 (encode_uvarint 3)"
  "fits 9 (encode_uvarint 1800000000)"
  by (rule fits_uvarint; simp add: MAX_UVARINT_def)+

lemma genesis_ref_fits: "fits 116 (encode_genesis_ref_body TP sample_genesis_ref)"
proof -
  have "fits (sum_list [32, 33, 33, 9, 9]) (genesis_ref_bytes sample_genesis_ref)"
    unfolding genesis_ref_bytes_def
    unfolding sample_genesis_ref_def genesis_ref.simps
    by (intro fits_join list.rel_intros small_numbers) (simp_all add: fits_hash fits_nullable)
  then have "fits 116 (genesis_ref_bytes sample_genesis_ref)" by simp
  moreover have "validate_genesis_ref TP sample_genesis_ref 1 = Inr ()"
    using sample_genesis_ref_ok by (simp add: validate_genesis_ref_Inr_iff sample_genesis_ref_def)
  ultimately show ?thesis by (simp add: encode_genesis_ref_body_def sample_genesis_ref_def)
qed

lemma base_state_fits: "fits 269 (encode_base_state_body TP genesis_state)"
proof -
  have owner: "fits 42 (encode_ascii 128 (key_address seed_a))"
    using fits_ascii [of "key_address seed_a" 33 128] by (simp add: key_address_text)
  have "fits (sum_list [9, 42, 32, 9, 9, 9, 73, 9]) (base_state_bytes genesis_state)"
    unfolding base_state_bytes_def genesis_state_def bill_state.simps
    by (intro fits_join list.rel_intros small_numbers owner display_fits) (simp add: fits_hash)
  then have "fits 269 (base_state_bytes genesis_state)" by (rule fits_more) simp
  moreover have "validate_base_state TP genesis_state = Inr genesis_state"
    by (simp add: validate_base_state_Inr_iff)
  ultimately show ?thesis by (simp add: encode_base_state_body_def)
qed

lemma transfer_fits: "fits 3000 (encode_transfer_body TP first_transfer True)"
proof (rule fits_ok)
  show "is_ok (encode_transfer_body TP first_transfer True)"
    using encode_sample_transfer by (auto simp: encode_transfer_def bindE_Inr_iff is_ok_iff)
  fix b assume "encode_transfer_body TP first_transfer True = Inr b"
  then show "length b \<le> 3000" using transfer_bytes_size by (auto simp: encode_transfer_body_Inr_iff)
qed

lemma segment_bytes_fit:
  assumes "hash_text h"
  shows "fits 5000 (bindE (archive_bytes TP (bare_segment\<lparr>ar_segment_hash := h\<rparr>)) (encode_envelope ARCHIVE_SEGMENT_MAGIC 1))"
proof -
  let ?z = "bare_segment\<lparr>ar_segment_hash := h\<rparr>"
  have z: "ar_token_id ?z = zero_hash" "ar_value ?z = 1" "ar_display_id ?z = display_text 1 1" "ar_genesis_ref ?z = sample_genesis_ref"
    "ar_base_state ?z = genesis_state" "ar_start_sequence ?z = 1" "ar_end_sequence ?z = 1" "ar_previous_segment_hash ?z = None"
    "ar_previous_checkpoint_hash ?z = None" "ar_checkpoint_hash ?z = cp_checkpoint_hash first_checkpoint"
    "ar_transfer_count ?z = 1" "ar_transfers ?z = [first_transfer]" "ar_segment_hash ?z = h"
    using chain_values [OF first_chain] by (simp_all add: bare_segment_def segment_of_def genesis_state_def first_state_fields)
  have "fits (sum_list [3000]) (joinE (map (\<lambda>t. encode_transfer_body TP t True) [first_transfer]))"
    by (rule fits_join) (simp add: transfer_fits)
  then have ts: "fits 3000 (joinE (map (\<lambda>t. encode_transfer_body TP t True) [first_transfer]))" by simp
  have "fits (sum_list [32, 9, 73, 116, 269, 9, 9, 33, 33, 32, 9, 3000, 32]) (archive_bytes TP ?z)"
    unfolding archive_bytes_def z
    by (intro fits_join list.rel_intros ts small_numbers display_fits genesis_ref_fits base_state_fits)
      (simp_all add: fits_hash fits_nullable assms)
  from fits_envelope [OF this, of ARCHIVE_SEGMENT_MAGIC 1]
  have "fits (sum_list [32, 9, 73, 116, 269, 9, 9, 33, 33, 32, 9, 3000, 32] + 18)
      (bindE (archive_bytes TP ?z) (encode_envelope ARCHIVE_SEGMENT_MAGIC 1))" by (simp add: MAX_UVARINT_def)
  then show ?thesis by (rule fits_more) simp
qed

lemma bare_segment_counts: "ar_network_id bare_segment = 1" "ar_transfer_count bare_segment = int (length (ar_transfers bare_segment))"
  by (simp_all add: bare_segment_def segment_of_def)

lemma bare_segment_hash: "\<exists>h. archive_segment_hash TP bare_segment = Inr h"
proof -
  from segment_bytes_fit [OF zero_hash_text]
  obtain b where b: "bindE (archive_bytes TP (bare_segment\<lparr>ar_segment_hash := zero_hash\<rparr>)) (encode_envelope ARCHIVE_SEGMENT_MAGIC 1) = Inr b"
    "length b \<le> 65536"
    by (auto simp: fits_def)
  then have "encode_archive_segment TP bare_segment False = Inr b"
    unfolding encode_archive_Inr_iff by (simp add: bare_segment_counts)
  moreover have "is_ascii ARCHIVE_SEGMENT_TYPE" "length ARCHIVE_SEGMENT_TYPE \<le> 128"
    by (simp_all add: ARCHIVE_SEGMENT_TYPE_def is_ascii_def code_def)
  from object_preimage_ok [OF this b(2)] obtain m where "object_preimage ARCHIVE_SEGMENT_TYPE b = Inr m" ..
  ultimately show ?thesis by (auto simp: archive_segment_hash_Inr_iff)
qed

definition sample_segment :: archive_segment where
  "sample_segment = bare_segment\<lparr>ar_segment_hash := result_or [] (archive_segment_hash TP bare_segment)\<rparr>"

lemma sample_segment_hash: "archive_segment_hash TP sample_segment = Inr (ar_segment_hash sample_segment)"
  using result_or_Inr [OF bare_segment_hash] by (simp add: sample_segment_def)

lemma make_sample_segment:
  "make_archive_segment TP zero_hash sample_genesis_ref genesis_state [first_transfer] None None 1 = Inr sample_segment"
proof -
  have "verify_transfer_sequence_from_state TP zero_hash genesis_state [first_transfer] 1 None = Inr first_state"
    by (simp add: verify_transfer_sequence_from_state_def replay_first_transfer)
  moreover have "validate_genesis_ref TP sample_genesis_ref 1 = Inr ()"
    using sample_genesis_ref_ok by (simp add: validate_genesis_ref_Inr_iff sample_genesis_ref_def)
  moreover have "st_value first_state = 1" "st_display_id first_state = display_text 1 1" "gr_issue_index sample_genesis_ref = 1"
    "gr_genesis_hash sample_genesis_ref = zero_hash"
    using chain_values [OF first_chain] by (simp_all add: genesis_state_def sample_genesis_ref_def)
  moreover have "sample_segment = segment_of zero_hash sample_genesis_ref genesis_state [first_transfer] None None 1 first_state
      first_checkpoint (ar_segment_hash sample_segment)"
    by (simp add: sample_segment_def bare_segment_def segment_of_def)
  ultimately show ?thesis
    unfolding make_archive_Inr_iff using make_first_checkpoint sample_segment_hash valid_first_bill by auto
qed

lemma verify_sample_segment:
  "verify_archive_segment 1 TP sample_segment (Some 1) None \<lparr>rs_segment = R, rs_checkpoint = None\<rparr> None = Inr first_checkpoint"
proof -
  have "check_segment_base TP v \<lparr>rs_segment = R, rs_checkpoint = None\<rparr> sample_segment 1 None = Inr ()" for v
    by (simp add: check_segment_base_def sample_segment_def bare_segment_def segment_of_def genesis_state_def sample_genesis_ref_def)
  from made_segment_verifies [OF toy_hash_ok make_sample_segment this, of 0] obtain core where
    core: "verify_archive_segment 1 TP sample_segment (Some 1) None \<lparr>rs_segment = R, rs_checkpoint = None\<rparr> None = Inr core"
    by (auto simp del: verify_archive_segment.simps)
  from verify_archive_core(1) [OF core] have "segment_ok TP None sample_segment core" .
  moreover have "verify_transfer_sequence_from_state TP zero_hash genesis_state [first_transfer] 1 None = Inr first_state"
    by (simp add: verify_transfer_sequence_from_state_def replay_first_transfer)
  ultimately have "core = first_checkpoint"
    using make_first_checkpoint
    by (simp add: segment_ok_def sample_segment_def bare_segment_def segment_of_def sample_genesis_ref_def)
  with core show ?thesis by simp
qed

section \<open>A proof bundle\<close>

definition sample_inclusion :: json where
  "sample_inclusion = JDict [(''type'', JStr LOG_INCLUSION_PROOF_TYPE), (''version'', JInt LOG_VERSION),
     (''log_id'', JStr sample_log_id), (''entry_hash'', JStr (cp_checkpoint_hash first_checkpoint)),
     (''leaf_hash'', JStr (hex_text sample_leaf)), (''leaf_index'', JInt 0), (''tree_size'', JInt 1), (''proof'', JDict [])]"

definition sample_context :: bundle_context where
  "sample_context = \<lparr>ctx_verifier = (\<lambda>_. Inr None), ctx_trusted_key = Some operator_key,
     ctx_segments = Some (\<lambda>_. Some sample_segment), ctx_bundles = None\<rparr>"

lemma sample_policy: "operator_key_for_policy TP TL sample_context sample_root = Inr (Some operator_key, None)"
proof -
  have "operator_key \<noteq> []" by (simp add: operator_key_def public_key_text_def PUBLIC_KEY_PREFIX_def)
  moreover have "verify_signed_root TP TL sample_root (Some operator_key) = Inr ()"
    by (rule verify_sample_root) (simp add: pinned_def)
  ultimately show ?thesis by (simp add: operator_key_for_policy_def sample_context_def toy_log_def)
qed

lemma sample_inclusion_fields:
  "jget sample_inclusion ''type'' = Some (JStr LOG_INCLUSION_PROOF_TYPE)" "jget sample_inclusion ''version'' = Some (JInt LOG_VERSION)"
  "jget sample_inclusion ''log_id'' = Some (JStr sample_log_id)"
  "jget sample_inclusion ''entry_hash'' = Some (JStr (cp_checkpoint_hash first_checkpoint))"
  "jget sample_inclusion ''leaf_hash'' = Some (JStr (hex_text sample_leaf))" "jget sample_inclusion ''leaf_index'' = Some (JInt 0)"
  "jget sample_inclusion ''tree_size'' = Some (JInt 1)" "jget sample_inclusion ''proof'' = Some (JDict [])"
  by (simp_all add: sample_inclusion_def)

lemma toy_log_fields: "tl_deserialize TL j = Some (LOG_HASH_ALGORITHM, True, 1)" "tl_includes TL l r j \<longleftrightarrow> l = r"
  by (simp_all add: toy_log_def)

lemma verify_sample_inclusion:
  "verify_inclusion_proof TP TL (cp_checkpoint_hash first_checkpoint) sample_inclusion sample_root (Some operator_key) = Inr ()"
proof -
  have "verify_signed_root TP TL sample_root (Some operator_key) = Inr ()"
    by (rule verify_sample_root) (simp add: pinned_def)
  moreover have "require_exact_keys sample_inclusion INCLUSION_FIELDS l [] InclusionProofError = Inr ()" for l
    unfolding require_exact_keys_Inr_iff by (simp add: sample_inclusion_def INCLUSION_FIELDS_def)
  moreover have "root_hash_bytes sample_root = Inr sample_leaf"
    by (simp add: root_hash_bytes_def str_at_def jat_def sample_root_fields)
  ultimately show ?thesis
    unfolding verify_inclusion_proof_def using sample_leaf_hash
    by (simp add: jat_def sample_root_fields require_int_for_def sample_inclusion_fields toy_log_fields)
qed

lemma sample_settled: "verify_v3_checkpoint_spend_proof TP TL first_checkpoint sample_compressed sample_root (Some operator_key) = Inr ()"
proof -
  note c = checkpoint_from_state_fields [OF make_first_checkpoint]
  have "settles TP first_checkpoint sample_claim first_transfer"
  proof -
    have "validate_transfer_shape TP first_transfer 1 True None = Inr ()"
      using first_link by (simp add: link_def validate_transfer_shape_Inr_iff)
    moreover have "verify_transfer_signature TP first_transfer = Inr True"
      using first_transfer_signed by (simp add: verify_transfer_signature_Inr_iff)
    ultimately show ?thesis
      by (simp add: settles_def c sample_claim_fields first_state_fields first_transfer_hash first_transfer_fields first_transfer_rest)
  qed
  then have "check_settled_claim TP first_checkpoint [sample_claim] = Inr ()"
    unfolding settled_claim_Inr_iff by (auto simp: c sample_claim_fields)
  moreover have "verify_signed_root TP TL sample_root (Some operator_key) = Inr ()"
    by (rule verify_sample_root) (simp add: pinned_def)
  ultimately show ?thesis
    unfolding spend_proof_Inr_iff using verify_sample_compressed by (simp add: c)
qed

definition sample_evidence :: source_evidence where
  "sample_evidence = \<lparr>se_type = PROOF_ARCHIVE_SEGMENT_TYPE, se_version = PROOF_BUNDLE_VERSION, se_network_id = 1,
     se_source_format = SOURCE_FORMAT_V3_ARCHIVE_SEGMENT, se_archive_segment_hash = ar_segment_hash sample_segment,
     se_source_checkpoint_hash = cp_checkpoint_hash first_checkpoint, se_previous_proof_bundle_hash = None,
     se_archive_segment = None\<rparr>"

lemma make_sample_evidence:
  "make_archive_segment_evidence 1 TP sample_segment 1 False None (ctx_segments sample_context) = Inr sample_evidence"
  unfolding make_evidence_Inr_iff using verify_sample_segment sample_segment_hash
  by (intro exI [of _ first_checkpoint] exI [of _ "ar_segment_hash sample_segment"])
    (simp add: sample_context_def sample_evidence_def checkpoint_from_state_fields [OF make_first_checkpoint] del: verify_archive_segment.simps)

definition bare_bundle :: proof_bundle where
  "bare_bundle = \<lparr>pb_type = PROOF_BUNDLE_TYPE, pb_version = PROOF_BUNDLE_VERSION, pb_network_id = 1,
     pb_algorithm = PROOF_BUNDLE_ALGORITHM, pb_log_id = sample_log_id, pb_checkpoint_hash = cp_checkpoint_hash first_checkpoint,
     pb_signed_root = sample_root, pb_checkpoint_inclusion_proof = sample_inclusion,
     pb_compressed_spend_map_proof = sample_compressed, pb_source_evidence = sample_evidence, pb_created_at = 1800000000,
     pb_proof_bundle_hash = []\<rparr>"

lemma sample_inclusion_fits: "json_fits 10 3000 sample_inclusion"
proof -
  have "is_ascii LOG_INCLUSION_PROOF_TYPE" "length LOG_INCLUSION_PROOF_TYPE = 35"
    by (simp_all add: LOG_INCLUSION_PROOF_TYPE_def is_ascii_def code_def)
  then show ?thesis
    by (simp add: sample_inclusion_def json_fits_def json_limits utf8_length_ascii text_sizes)
qed

lemma sample_evidence_fits: "fits 200 (encode_archive_segment_source_body TP sample_evidence)"
proof -
  have "fits 69 (encode_ascii 128 SOURCE_FORMAT_V3_ARCHIVE_SEGMENT)"
    using fits_ascii [of SOURCE_FORMAT_V3_ARCHIVE_SEGMENT 60 128]
    by (simp add: SOURCE_FORMAT_V3_ARCHIVE_SEGMENT_def is_ascii_def code_def)
  moreover have "hash_text (ar_segment_hash sample_segment)"
    using archive_segment_hash_text [OF toy_hash_ok sample_segment_hash] .
  then have "fits 32 (encode_hash_hex (ar_segment_hash sample_segment))" by (rule fits_hash)
  moreover have "fits 33 (encode_hash_hex_nullable None)" by (rule fits_nullable) simp
  moreover have "fits 32 (encode_hash_hex (cp_checkpoint_hash first_checkpoint))" by (rule fits_hash) simp
  moreover have "fits 1 (Inr [0])" by (simp add: fits_def)
  ultimately have "fits (sum_list [69, 32, 32, 33, 1]) (encode_archive_segment_source_body TP sample_evidence)"
    unfolding encode_archive_segment_source_body_def sample_evidence_def source_evidence.simps option.case
    by (intro fits_join list.rel_intros)
  then show ?thesis by (rule fits_more) simp
qed

lemma bare_bundle_hash: "\<exists>h. proof_bundle_hash TP bare_bundle = Inr h"
proof -
  let ?z = "bare_bundle\<lparr>pb_proof_bundle_hash := zero_hash\<rparr>"
  have z: "pb_algorithm ?z = 1" "pb_log_id ?z = sample_log_id" "pb_checkpoint_hash ?z = cp_checkpoint_hash first_checkpoint"
    "pb_signed_root ?z = sample_root" "pb_checkpoint_inclusion_proof ?z = sample_inclusion"
    "pb_compressed_spend_map_proof ?z = sample_compressed" "pb_source_evidence ?z = sample_evidence"
    "pb_created_at ?z = 1800000000" "pb_proof_bundle_hash ?z = zero_hash" "pb_network_id bare_bundle = 1"
    by (simp_all add: bare_bundle_def PROOF_BUNDLE_ALGORITHM_def)
  have log: "fits 73 (encode_ascii 128 sample_log_id)"
    using fits_ascii [of sample_log_id 64 128] by (simp add: text_sizes)
  have "fits 6000 (canonical_bytes sample_root)" "fits 3000 (canonical_bytes sample_inclusion)"
    using json_fits_canonical(2) [OF sample_root_fits] json_fits_canonical(2) [OF sample_inclusion_fits]
    by (auto simp: fits_def)
  then have jsons: "fits 6009 (bindE (canonical_bytes sample_root) (encode_bytes MAX_BOUNDED_BYTES))"
    "fits 3009 (bindE (canonical_bytes sample_inclusion) (encode_bytes MAX_BOUNDED_BYTES))"
    using fits_bytes [of 6000 "canonical_bytes sample_root"] fits_bytes [of 3000 "canonical_bytes sample_inclusion"] by simp_all
  have spend: "fits 30009 (bindE (encode_compressed_spend_map_proof sample_compressed) (encode_bytes MAX_BOUNDED_BYTES))"
    using fits_bytes [OF encode_sample_compressed] by simp
  have hashes: "fits 32 (encode_hash_hex (cp_checkpoint_hash first_checkpoint))" "fits 32 (encode_hash_hex zero_hash)"
    by (rule fits_hash; simp)+
  have "fits (sum_list [9, 73, 32, 6009, 3009, 30009, 200, 9, 32]) (proof_bundle_bytes TP ?z)"
    unfolding proof_bundle_bytes_def z
    by (intro fits_join list.rel_intros small_numbers log jsons spend hashes sample_evidence_fits)
  from fits_envelope [OF this, of PROOF_BUNDLE_MAGIC 1]
  obtain b where b: "bindE (proof_bundle_bytes TP ?z) (encode_envelope PROOF_BUNDLE_MAGIC 1) = Inr b" "length b \<le> 65536"
    by (auto simp: fits_def MAX_UVARINT_def PROOF_BUNDLE_MAGIC_def)
  have "encode_proof_bundle TP bare_bundle False = Inr b"
    unfolding encode_proof_bundle_def using b(1) hash_text_hex64 [OF first_checkpoint_hash_text] hash_text_hex64 [OF zero_hash_text]
    by (simp add: z bundle_require_int_def bundle_hex32_Inr_iff bindE_Inr_iff)
  moreover have "is_ascii PROOF_BUNDLE_TYPE" "length PROOF_BUNDLE_TYPE \<le> 128"
    by (simp_all add: PROOF_BUNDLE_TYPE_def is_ascii_def code_def)
  from object_preimage_ok [OF this b(2)] obtain m where "object_preimage PROOF_BUNDLE_TYPE b = Inr m" ..
  ultimately show ?thesis by (auto simp: proof_bundle_hash_def object_hash_Inr_iff bindE_Inr_iff)
qed

definition sample_bundle :: proof_bundle where
  "sample_bundle = bare_bundle\<lparr>pb_proof_bundle_hash := result_or [] (proof_bundle_hash TP bare_bundle)\<rparr>"

lemma make_sample_bundle:
  "make_proof_bundle TP first_checkpoint sample_root sample_inclusion sample_compressed sample_evidence 1 1800000000 = Inr sample_bundle"
proof -
  have ch: "bundle_hex32 (cp_checkpoint_hash first_checkpoint) l = Inr (cp_checkpoint_hash first_checkpoint)" for l
    using hash_text_hex64 [OF first_checkpoint_hash_text] by (simp add: bundle_hex32_Inr_iff)
  have "finalize_proof_bundle TP bare_bundle = Inr sample_bundle"
    using result_or_Inr [OF bare_bundle_hash, of "[]"] unfolding finalize_proof_bundle_def sample_bundle_def bindE_Inr_iff by blast
  then show ?thesis
    unfolding make_proof_bundle_def ch bindE_simps jat_def sample_root_fields option.case py_str.simps
    by (simp add: bare_bundle_def)
qed

lemma verify_sample_bundle:
  "verify_proof_bundle 2 TP TL sample_context sample_bundle (Some (cp_checkpoint_hash first_checkpoint)) (Some 1) {} = Inr first_checkpoint"
proof -
  have "verify_proof_bundle (Suc 1) TP TL sample_context sample_bundle (Some (cp_checkpoint_hash first_checkpoint)) (Some 1) {} = Inr first_checkpoint"
  proof (rule made_bundle_verifies [OF toy_hash_ok make_sample_evidence _ _ _ _ sample_root_fields(1) make_sample_bundle sample_policy
      verify_sample_inclusion _ sample_settled])
    show "verify_archive_segment 1 TP sample_segment (Some 1) None
        \<lparr>rs_segment = ctx_segments sample_context, rs_checkpoint = None\<rparr> None = Inr first_checkpoint" by (rule verify_sample_segment)
  qed (simp_all add: source_segment_def sample_context_def sample_evidence_def verify_mirrored_root_def
      checkpoint_from_state_fields [OF make_first_checkpoint])
  then show ?thesis by (simp only: Suc_1)
qed

section \<open>More facts about the bundle\<close>

lemma same_lists_collide_not [simp]: "no_pair_collides P ms ms"
  by (induction ms) (simp_all add: no_pair_collides_def)

lemma check_sample_proof: "check_spend_map_proof TP sample_spend_proof sample_root = Inr [sample_claim]"
  using verify_sample_proof by (simp add: verify_spend_map_proof_def bindE_Inr_iff read_spend_map_proof_json)

lemma sample_preimages: "\<exists>ms. proof_preimages TP sample_spend_proof = Inr ms"
  using check_spend_map_proofD [OF check_sample_proof] by (auto simp: proof_preimages_def)

lemma sample_settlement: "\<exists>ms. settlement_evidence TP sample_bundle = Inr (sc_spend_key sample_claim, [sample_claim], ms)"
proof -
  have "pb_compressed_spend_map_proof sample_bundle = sample_compressed" "pb_signed_root sample_bundle = sample_root"
    by (simp_all add: sample_bundle_def bare_bundle_def)
  moreover have "smp_spend_key sample_spend_proof = sc_spend_key sample_claim" by (simp add: sample_spend_proof_def)
  ultimately show ?thesis
    using sample_preimages by (auto simp: settlement_evidence_def expand_any_network [OF expand_sample] check_sample_proof)
qed

lemma verify_sample_bundle_again: "verify_proof_bundle 7 TP TL sample_context sample_bundle None None {} = Inr first_checkpoint"
proof -
  have "verify_proof_bundle (Suc 1) TP TL sample_context sample_bundle None None {} = Inr first_checkpoint"
    using verify_sample_bundle unfolding Suc_1 [symmetric] verify_bundle_Suc by blast
  from verify_bundle_depth [OF this, of 7] show ?thesis by (simp del: verify_proof_bundle.simps)
qed

lemma sample_segment_base:
  "check_segment_base TP v \<lparr>rs_segment = R, rs_checkpoint = None\<rparr> sample_segment 1 None = Inr ()"
  by (simp add: check_segment_base_def sample_segment_def bare_segment_def segment_of_def genesis_state_def sample_genesis_ref_def)

lemma sample_segment_shape: "archive_shape sample_segment"
proof -
  have "transfer_shape True first_transfer"
    using first_transfer_texts
    by (simp add: transfer_shape_def first_transfer_fields first_transfer_rest first_transfer_metadata first_transfer_signature transfer_texts_def)
  moreover have "genesis_ref_shape sample_genesis_ref" "gr_network_id sample_genesis_ref = 1"
    by (simp_all add: genesis_ref_shape_def sample_genesis_ref_def opt_hash_text_def)
  moreover have "hash_text (ar_segment_hash sample_segment)"
    by (rule archive_segment_hash_text [OF toy_hash_ok sample_segment_hash])
  ultimately show ?thesis
    by (simp add: archive_shape_def sample_segment_def bare_segment_def segment_of_def opt_hash_text_def genesis_state_def
        first_transfer_fields)
qed

lemma encode_sample_segment: "\<exists>bs. encode_archive_segment TP sample_segment True = Inr bs"
  unfolding encode_archive_Inr_iff
  using segment_bytes_fit [OF archive_segment_hash_text [OF toy_hash_ok sample_segment_hash]] bare_segment_counts
  by (auto simp: sample_segment_def fits_def)

lemma operator_key_not_empty: "operator_key \<noteq> []"
  by (simp add: operator_key_def public_key_text_def PUBLIC_KEY_PREFIX_def)

definition sample_equivocation :: json where
  "sample_equivocation = result_or JNull (make_equivocation_proof SP TL root_a root_b None None)"

lemma verify_sample_equivocation:
  "verify_equivocation_proof SP TL sample_equivocation (Some operator_key)
     = Inr (log_id_from_public_key SP operator_key, ''same_tree_size'', root_a, root_b)"
proof -
  have "\<exists>m. make_equivocation_proof SP TL root_a root_b None None = Inr m
    \<and> verify_equivocation_proof SP TL m (Some operator_key)
      = Inr (log_id_from_public_key SP (strip operator_key), ''same_tree_size'', root_a, root_b)"
    by (rule make_equivocation_verifies [OF split_platforms(3) _ roots_verify(1) roots_verify(2) operator_key_not_empty roots_collide])
      (simp_all add: split_platforms pinned_def)
  then show ?thesis by (auto simp: sample_equivocation_def result_or_def)
qed

end
