(* ===== verification/FurtherFacts.thy ===== *)
theory FurtherFacts
  imports LogSamples
begin

text \<open>
  Facts about single functions that the main properties do not need but a reader of the code will look for,
  each with a concrete instance: round trips of texts and keys, canonical encodings, and what is made verifies.
\<close>

text \<open>
  Replaying a history is replaying its parts: the state after a prefix is a complete summary of it,
  which is what lets a bill carry only its recent transfers.
\<close>

theorem replay_split:
  assumes "hash_ok P"
  shows "replay_transfer_sequence P token_id s (xs @ ys) network_id now verify =
    bindE (replay_transfer_sequence P token_id s xs network_id now verify)
      (\<lambda>s'. replay_transfer_sequence P token_id s' ys network_id now verify)"
  by (rule replay_append [OF assms])

theorem replay_split_witness:
  "replay_transfer_sequence TP zero_hash genesis_state ([first_transfer] @ [second_transfer]) 1 None True =
    replay_transfer_sequence TP zero_hash first_state [second_transfer] 1 None True"
  using replay_split [OF toy_hash_ok, of zero_hash genesis_state "[first_transfer]" "[second_transfer]" 1 None True]
  by (simp add: replay_first_transfer)

text \<open>
  Equal spend keys mean that the two transfers spend the same state of the same bill: same token,
  same previous hash, same sequence, same sender (no collision of the two key texts assumed).
\<close>

theorem spend_key_identifies_state:
  assumes "hash_text (tr_token_id t)" and "hash_text (tr_previous_hash t)" and "valid_address P (tr_sender_address t)"
    and "hash_text (tr_token_id u)" and "hash_text (tr_previous_hash u)" and "valid_address P (tr_sender_address u)"
    and "spend_key_for_transfer P t = Inr k" and "spend_key_for_transfer P u = Inr k"
    and "inj_on (pf_sha3_256 P) {m. spend_key_preimage t = Inr m \<or> spend_key_preimage u = Inr m}"
  shows "tr_token_id t = tr_token_id u \<and> tr_previous_hash t = tr_previous_hash u
    \<and> tr_sequence t = tr_sequence u \<and> tr_sender_address t = tr_sender_address u"
proof -
  from assms(7,8) obtain a b where ab: "spend_key_preimage t = Inr a" "spend_key_preimage u = Inr b"
    "sha3_hex P a = sha3_hex P b" by (auto simp: spend_key_Inr_iff)
  with no_collision [OF assms(9) ab] have "spend_key_preimage t = Inr a" "spend_key_preimage u = Inr a" by simp_all
  then show ?thesis
    by (rule spend_key_preimage_inject [OF spend_key_material_wf [OF assms(1-3)] spend_key_material_wf [OF assms(4-6)]])
qed

theorem spend_key_identifies_state_witness:
  "tr_metadata first_transfer \<noteq> tr_metadata double_transfer \<and> tr_sequence first_transfer = tr_sequence double_transfer"
proof -
  from same_spend_key obtain m where m: "spend_key_preimage first_transfer = Inr m" "spend_key_preimage double_transfer = Inr m"
    by blast
  then have k: "spend_key_for_transfer TP first_transfer = Inr (sha3_hex TP m)"
    "spend_key_for_transfer TP double_transfer = Inr (sha3_hex TP m)"
    "inj_on (pf_sha3_256 TP) {x. spend_key_preimage first_transfer = Inr x \<or> spend_key_preimage double_transfer = Inr x}"
    by (auto simp: spend_key_Inr_iff inj_on_def)
  have "tr_sequence first_transfer = tr_sequence double_transfer"
    by (rule spend_key_identifies_state [OF _ _ _ _ _ _ k, THEN conjunct2, THEN conjunct2, THEN conjunct1])
      (simp_all only: first_transfer_fields double_transfer_fields key_address_ok seed_lengths zero_hash_text)
  then show ?thesis by (simp add: first_transfer_metadata double_transfer_fields two_keys_def)
qed

text \<open>
  A checkpoint of a state validates, carries its own hash, and gives the state back to replay from.
\<close>

theorem checkpoint_of_state_valid:
  assumes "hash_ok P"
    and "checkpoint_core_from_state P token_id genesis_hash s previous network_id = Inr c"
  shows "validate_checkpoint_core P c network_id = Inr () \<and> checkpoint_core_hash P c = Inr (cp_checkpoint_hash c)
    \<and> initial_state_from_checkpoint_core c = s"
  using checkpoint_from_state_valid [OF assms] initial_state_of_checkpoint [OF assms(2)]
    checkpoint_from_state_fields(1) [OF assms(2)]
  by (simp add: validate_checkpoint_core_Inr_iff)

theorem checkpoint_of_state_valid_witness:
  "validate_checkpoint_core TP first_checkpoint 1 = Inr () \<and> initial_state_from_checkpoint_core first_checkpoint = first_state"
  using checkpoint_of_state_valid [OF toy_hash_ok make_first_checkpoint] by simp

text \<open>
  A display id parses to a bill exactly when it is that bill's canonical text: no leading zeros, no
  signs, no spaces, no serial beyond the denomination's cap.
\<close>

theorem display_id_roundtrip:
  "parse_display_id P d label = Inr (v, n) \<longleftrightarrow> canonical_display_id v n = Inr d"
  by (auto simp: parse_display_id_Inr_iff canonical_display_id_Inr_iff)

text \<open>
  The varint decoder is total and accepts exactly the minimal encoding of each integer in range.
\<close>

theorem uvarint_canonical:
  "decode_uvarint bs = Inr v \<longleftrightarrow> encode_uvarint v = Inr bs"
  using uvarint.decode_iff [of bs "''uvarint''" v] by (auto simp: decode_uvarint_def decode_all_def encode_uvarint_Inr_iff)

text \<open>Key texts decode to the keys they were made from, at every 32-byte key.\<close>

theorem key_text_roundtrip:
  assumes "length k = 32"
  shows "bindE (encode_public_key k) decode_public_key = Inr k \<and> bindE (encode_private_key k) decode_private_key = Inr k"
  using assms decode_encode_public_key decode_encode_private_key
  by (simp add: encode_private_key_def require_bytes_def)

theorem key_text_roundtrip_witness: "bindE (encode_public_key (replicate 32 7)) decode_public_key = Inr (replicate 32 7)"
  using key_text_roundtrip [of "replicate 32 7"] by simp

text \<open>
  The address derived from any key validates, and only the key whose derived address it is matches
  an address.
\<close>

theorem derived_address_matches:
  assumes "hash_ok P" and "b58_ok P" and "public_key_bytes pk = Inr k"
  shows "\<exists>a. address_from_public_key P pk = Inr a \<and> validate_address P a label = Inr a
    \<and> (\<forall>b. public_key_matches_address P pk b \<longleftrightarrow> b = a)"
  using derived_address_valid [OF assms, of label] by (auto simp: matches_iff validate_address_Inr_iff)

theorem derived_address_matches_witness:
  "\<exists>a. address_from_public_key TP (PkBytes seed_a) = Inr a \<and> (\<forall>b. public_key_matches_address TP (PkBytes seed_a) b \<longleftrightarrow> b = a)"
  using derived_address_matches [of TP "PkBytes seed_a" seed_a "[]"] by (auto simp: require_bytes_def)

text \<open>
  The canonical text depends on the value alone, never on the order its keys were inserted in, and
  determines it.
\<close>

theorem canonical_json_determines:
  assumes "json_wf v" and "json_wf w" and "canonical_json v = Inr t" and "is_ok (canonical_json w)"
  shows "canonical_json w = Inr t \<longleftrightarrow> norm v = norm w"
  using canonical_json_inject [OF assms(1,2,3)] canonical_json_order [OF _ assms(3,4)] by blast

theorem canonical_json_determines_witness: "canonical_json two_keys = canonical_json (norm two_keys)"
proof -
  obtain t where t: "canonical_json two_keys = Inr t" using two_keys_facts(1) by (auto simp: metadata_ok_def)
  then have "is_ok (canonical_json (norm two_keys))"
    using canonical_json_norm [of two_keys] by (simp add: is_ok_iff del: norm.simps two_keys_facts)
  from canonical_json_determines [OF two_keys_facts(2) json_wf_norm [OF two_keys_facts(2)] t this] t
  show ?thesis by (simp add: two_keys_def)
qed

text \<open>
  A message packed for the wire (canonical JSON, zlib, base85) unpacks to the same message.
\<close>

theorem packed_message_roundtrip:
  assumes "zlib_ok P" and "json_wf v" and "packed_json P v = Inr t"
  shows "unpacked_json P t = Inr (norm v)"
  by (rule unpacked_packed [OF assms])

theorem packed_message_roundtrip_witness:
  "\<exists>t. packed_json TP two_keys = Inr t \<and> unpacked_json TP t = Inr (norm two_keys)"
proof -
  obtain s where s: "canonical_json two_keys = Inr s" "length s \<le> 256"
    using two_keys_facts(1) by (auto simp: metadata_ok_def MAX_TRANSFER_METADATA_BYTES_def)
  have "\<exists>t. packed_json TP two_keys = Inr t"
    using s by (simp add: packed_json_def bindE_Inr_iff ensure_def MAX_WIRE_DECOMPRESSED_BYTES_def
        MAX_WIRE_COMPRESSED_BYTES_def toy_platform_def canonical_bytes_def)
  with packed_message_roundtrip [OF toy_zlib_ok two_keys_facts(2)] show ?thesis by blast
qed

text \<open>
  A root made by the holder of an operator key verifies, alone and pinned to that key.
\<close>

theorem made_root_verifies:
  assumes "ed_ok P" and "length seed = 32" and "0 \<le> tree_size" "0 \<le> timestamp" "0 \<le> map_size"
    and "hex64 root_hash" "hex64 map_root"
    and "make_signed_root P tree_size root_hash timestamp (PRIVATE_KEY_PREFIX @ b85encode seed)
      (public_key_text (pf_ed_public P seed)) map_root map_size = Inr root"
    and "pinned pin (public_key_text (pf_ed_public P seed))"
  shows "verify_signed_root P T root pin = Inr ()"
  by (rule make_signed_root_verifies [OF assms])

theorem made_root_verifies_witness: "verify_signed_root TP TL sample_root (Some operator_key) = Inr ()"
  using made_root_verifies [OF toy_ed_ok seed_lengths(1), of 1 1800000000 1 "hex_text sample_leaf" sample_map_root sample_root
      "Some operator_key" TL] make_sample_root make_sample_map_root(2)
  by (simp add: operator_key_def private_key_text_def pinned_def)

text \<open>
  Two contradicting roots of one operator always make an equivocation proof, and it verifies.
\<close>

theorem equivocation_is_provable:
  assumes "hash_ok P" and "0 \<le> pf_clock P"
    and "verify_signed_root P T a (Some key) = Inr ()" and "verify_signed_root P T b (Some key) = Inr ()" and "key \<noteq> []"
    and "equivocation_collision_type P a b = Inr (Some c)"
  shows "\<exists>m. make_equivocation_proof P T a b None None = Inr m
    \<and> verify_equivocation_proof P T m (Some key) = Inr (log_id_from_public_key P (strip key), c, a, b)"
  by (rule make_equivocation_verifies [OF assms])

theorem equivocation_is_provable_witness:
  "\<exists>m. make_equivocation_proof SP TL root_a root_b None None = Inr m
    \<and> verify_equivocation_proof SP TL m (Some operator_key)
      = Inr (log_id_from_public_key SP operator_key, ''same_tree_size'', root_a, root_b)"
  using equivocation_is_provable [of SP TL root_a operator_key root_b "''same_tree_size''"] split_platforms roots_verify [of "Some operator_key" TL]
    roots_collide operator_key_not_empty
  by (simp add: pinned_def)

text \<open>
  A segment made from a base state and transfers verifies, at any depth, once its base connects, and
  yields the checkpoint of the bill it archives.
\<close>

theorem made_archive_verifies:
  assumes "hash_ok P" and "make_archive_segment P tok g base ts psh pch n = Inr s"
    and "check_segment_base P (\<lambda>p. verify_archive_segment d P p (Some n) None R None) R s n prev = Inr ()"
  shows "\<exists>core. verify_archive_segment (Suc d) P s (Some n) prev R None = Inr core
    \<and> cp_checkpoint_hash core = ar_checkpoint_hash s \<and> cp_token_id core = tok"
  by (rule made_segment_verifies [OF assms])

theorem made_archive_verifies_witness:
  "\<exists>core. verify_archive_segment 1 TP sample_segment (Some 1) None \<lparr>rs_segment = None, rs_checkpoint = None\<rparr> None = Inr core
    \<and> cp_token_id core = zero_hash"
  using made_archive_verifies [OF toy_hash_ok make_sample_segment, of 0 "\<lparr>rs_segment = None, rs_checkpoint = None\<rparr>" None]
  by (auto simp: sample_segment_base simp del: verify_archive_segment.simps)

text \<open>An archive segment encoded to bytes decodes to itself.\<close>

theorem archive_roundtrip:
  assumes "archive_shape s" and "encode_archive_segment P s True = Inr bs"
  shows "decode_archive_segment P bs = Inr s"
  by (rule decode_encode_archive [OF assms])

theorem archive_roundtrip_witness:
  "\<exists>bs. encode_archive_segment TP sample_segment True = Inr bs \<and> decode_archive_segment TP bs = Inr sample_segment"
  using archive_roundtrip [OF sample_segment_shape] encode_sample_segment by blast

text \<open>
  The binary form of a bundle reference is canonical: a byte string decodes to a reference exactly
  when it is that reference's encoding.
\<close>

theorem bundle_reference_canonical:
  "decode_proof_bundle_ref bs = Inr r \<longleftrightarrow> bundle_ref_shape r \<and> encode_proof_bundle_ref r = Inr bs"
  by (rule decode_bundle_ref_iff)

end
