(* ===== verification/KeyRotation.thy ===== *)
theory KeyRotation
  imports SignedRoot "HOL-Library.Product_Lexorder"
begin

text \<open>
  Operator keys over time, from \<open>src/ind/transparency_client.py\<close>: the dual-signed rotation of an operator
  key, its revocation by the successor, and the witnesses of recovery feeds with their quorum. Records
  are JSON dicts, as they arrive from peers.
\<close>

definition LOG_KEY_ROTATION_TYPE :: string where
  "LOG_KEY_ROTATION_TYPE = ''ind.transparency_operator_key_rotation.v3''"
definition LOG_KEY_REVOCATION_TYPE :: string where
  "LOG_KEY_REVOCATION_TYPE = ''ind.transparency_operator_key_revocation.v3''"
definition LOG_RECOVERY_WITNESS_TYPE :: string where
  "LOG_RECOVERY_WITNESS_TYPE = ''ind.operator_recovery_witness.v3''"
definition LOG_KEY_ROTATION_SIGNATURE_DOMAIN :: string where
  "LOG_KEY_ROTATION_SIGNATURE_DOMAIN = ''IND_TRANSPARENCY_KEY_ROTATION_V3''"
definition LOG_KEY_REVOCATION_SIGNATURE_DOMAIN :: string where
  "LOG_KEY_REVOCATION_SIGNATURE_DOMAIN = ''IND_TRANSPARENCY_KEY_REVOCATION_V3''"
definition LOG_RECOVERY_WITNESS_SIGNATURE_DOMAIN :: string where
  "LOG_RECOVERY_WITNESS_SIGNATURE_DOMAIN = ''IND_OPERATOR_RECOVERY_WITNESS_V3''"
definition DEFAULT_KEY_ROTATION_OVERLAP_SECONDS :: int where
  "DEFAULT_KEY_ROTATION_OVERLAP_SECONDS = 7 * 24 * 60 * 60"

section \<open>Recovery witnesses\<close>

definition recovery_witness_signature_payload :: "json \<Rightarrow> bytes res" where
  "recovery_witness_signature_payload w =
     signature_payload LOG_RECOVERY_WITNESS_SIGNATURE_DOMAIN (without_key ''signature'' w)"

definition make_recovery_witness ::
    "platform \<Rightarrow> string \<Rightarrow> string \<Rightarrow> int \<Rightarrow> string \<Rightarrow> string \<Rightarrow> string \<Rightarrow> json res" where
  "make_recovery_witness P mhash feed_id first_seen source_segment_hash feed_private_key feed_public_key =
     bindE (root_hex32 (JStr mhash) ''recovery witness message hash'') (\<lambda>mh.
     bindE (root_hex32 (JStr source_segment_hash) ''recovery witness source segment hash'') (\<lambda>sh.
     let fields =
       [(''type'', JStr LOG_RECOVERY_WITNESS_TYPE), (''version'', JInt LOG_VERSION),
        (''signature_algorithm'', JStr LOG_SIGNATURE_ALGORITHM), (''message_hash'', JStr mh),
        (''feed_id'', JStr feed_id), (''feed_public_key'', JStr (strip feed_public_key)),
        (''first_seen'', JInt first_seen), (''source_segment_hash'', JStr sh)] in
     bindE (recovery_witness_signature_payload (JDict fields)) (\<lambda>payload.
     bindE (sign_operator_payload P feed_private_key payload) (\<lambda>s.
     Inr (JDict (fields @ [(''signature'', JStr s)]))))))"

definition WITNESS_FIELDS :: "string list" where
  "WITNESS_FIELDS = [''type'', ''version'', ''signature_algorithm'', ''message_hash'', ''feed_id'',
     ''feed_public_key'', ''first_seen'', ''source_segment_hash'', ''signature'']"

text \<open>
  The normalised witness, of which the callers use these fields: the hash in lower case, feed id and key
  stripped.
\<close>

record recovery_witness =
  rw_message_hash :: string
  rw_source_segment_hash :: string
  rw_feed_id :: string
  rw_feed_public_key :: string
  rw_first_seen :: int

text \<open>\<open>{str(item).strip() for item in keys if str(item).strip()}\<close>.\<close>

definition trusted_keys :: "string list \<Rightarrow> string list" where
  "trusted_keys ks = filter (\<lambda>k. k \<noteq> []) (map strip ks)"

definition verify_recovery_witness :: "platform \<Rightarrow> json \<Rightarrow> string list option \<Rightarrow> recovery_witness res" where
  "verify_recovery_witness P w trusted_feed_public_keys =
     bindE (require_exact_keys w WITNESS_FIELDS ''operator recovery witness'' [] RootVerificationError) (\<lambda>_.
     if jget w ''type'' \<noteq> Some (JStr LOG_RECOVERY_WITNESS_TYPE)
     then Inl (RootVerificationError ''not an operator recovery witness'')
     else bindE (jat w ''version'') (\<lambda>v.
     bindE (require_int_for v ''operator recovery witness version'' None RootVerificationError) (\<lambda>version.
     if version \<noteq> LOG_VERSION then Inl (RootVerificationError ''unsupported operator recovery witness version'')
     else if unhashable (jget w ''signature_algorithm'') then Inl (PyTypeError ''unhashable type'')
     else if jget w ''signature_algorithm'' \<noteq> Some (JStr LOG_SIGNATURE_ALGORITHM)
     then Inl (RootVerificationError ''unsupported operator recovery witness signature algorithm'')
     else bindE (jat w ''message_hash'') (\<lambda>m.
     bindE (root_hex32 m ''recovery witness message hash'') (\<lambda>mh.
     bindE (jat w ''source_segment_hash'') (\<lambda>h.
     bindE (root_hex32 h ''recovery witness source segment hash'') (\<lambda>sh.
     bindE (jat w ''feed_id'') (\<lambda>i.
     bindE (require_str i ''operator recovery witness feed id'' RootVerificationError) (\<lambda>feed_id.
     bindE (jat w ''feed_public_key'') (\<lambda>k.
     bindE (require_str k ''operator recovery witness feed public key'' RootVerificationError) (\<lambda>key.
     bindE (jat w ''first_seen'') (\<lambda>f.
     bindE (require_int_for f ''operator recovery witness first_seen'' (Some 0) RootVerificationError) (\<lambda>first_seen.
     if (case trusted_feed_public_keys of None \<Rightarrow> False | Some ks \<Rightarrow> key \<notin> set (trusted_keys ks))
     then Inl (RootVerificationError ''operator recovery witness feed key is not trusted'')
     else bindE (recovery_witness_signature_payload w) (\<lambda>payload.
     bindE (jat w ''signature'') (\<lambda>s.
     bindE (verify_operator_payload P key s payload LOG_SIGNATURE_ALGORITHM) (\<lambda>ok.
     if \<not> ok then Inl (RootVerificationError ''invalid operator recovery witness signature'')
     else Inr \<lparr>rw_message_hash = mh, rw_source_segment_hash = sh, rw_feed_id = feed_id,
       rw_feed_public_key = key, rw_first_seen = first_seen\<rparr>))))))))))))))))"

text \<open>
  The loop of \<open>recovery_witness_quorum\<close>: a witness is counted under its feed id and key, the first one
  wins, a bad one is only noted.
\<close>

definition witness_identity :: "recovery_witness \<Rightarrow> string \<times> string" where
  "witness_identity w = (rw_feed_id w, rw_feed_public_key w)"

definition acceptable_witness ::
    "platform \<Rightarrow> string list option \<Rightarrow> string \<Rightarrow> int \<Rightarrow> int \<Rightarrow> json \<Rightarrow> recovery_witness res" where
  "acceptable_witness P trusted mhash transfer_timestamp max_lag j =
     bindE (verify_recovery_witness P j trusted) (\<lambda>w.
     if rw_message_hash w \<noteq> mhash
     then Inl (RootVerificationError ''operator recovery witness message hash mismatch'')
     else if rw_first_seen w < transfer_timestamp
     then Inl (RootVerificationError ''operator recovery witness predates transfer'')
     else if rw_first_seen w - transfer_timestamp > max_lag
     then Inl (RootVerificationError ''operator recovery witness saw transfer too late'')
     else Inr w)"

fun collect_witnesses :: "(json \<Rightarrow> recovery_witness res) \<Rightarrow> json list \<Rightarrow> recovery_witness list \<Rightarrow> recovery_witness list" where
  "collect_witnesses check [] accepted = accepted"
| "collect_witnesses check (j # js) accepted = (case check j of
     Inl e \<Rightarrow> collect_witnesses check js accepted
   | Inr w \<Rightarrow> collect_witnesses check js
       (if witness_identity w \<in> witness_identity ` set accepted then accepted else accepted @ [w]))"

definition recovery_witness_quorum ::
    "platform \<Rightarrow> json list \<Rightarrow> string \<Rightarrow> int \<Rightarrow> int \<Rightarrow> int \<Rightarrow> string list option \<Rightarrow> recovery_witness list res" where
  "recovery_witness_quorum P witnesses mhash transfer_timestamp min_witnesses max_lag trusted =
     bindE (root_hex32 (JStr mhash) ''recovery witness message hash'') (\<lambda>mh.
     let accepted = collect_witnesses (acceptable_witness P trusted mh transfer_timestamp max_lag) witnesses [] in
     if int (length accepted) < min_witnesses
     then Inl (RootVerificationError ''operator recovery witness quorum not satisfied'')
     else Inr (sort_key (\<lambda>w. (rw_feed_id w, rw_feed_public_key w)) accepted))"

section \<open>What the quorum counts\<close>

lemma collect_witnesses_spec:
  assumes "distinct (map witness_identity acc)"
  shows "distinct (map witness_identity (collect_witnesses check js acc))
    \<and> witness_identity ` set (collect_witnesses check js acc)
       = witness_identity ` (set acc \<union> {w. \<exists>j \<in> set js. check j = Inr w})
    \<and> set (collect_witnesses check js acc) \<subseteq> set acc \<union> {w. \<exists>j \<in> set js. check j = Inr w}"
  using assms
proof (induction check js acc rule: collect_witnesses.induct)
  case (2 check j js acc)
  show ?case
  proof (cases "check j")
    case (Inl e)
    then show ?thesis using 2(1) [OF Inl 2(3)] by simp
  next
    case (Inr w)
    let ?acc = "if witness_identity w \<in> witness_identity ` set acc then acc else acc @ [w]"
    let ?G = "{v. \<exists>i \<in> set js. check i = Inr v}"
    have "distinct (map witness_identity ?acc)" using 2(3) by auto
    note IH = 2(2) [OF Inr this]
    have e: "collect_witnesses check (j # js) acc = collect_witnesses check js ?acc" by (simp only: collect_witnesses.simps Inr sum.case)
    have G: "{v. \<exists>i \<in> set (j # js). check i = Inr v} = insert w ?G" using Inr by auto
    have "witness_identity ` set ?acc = insert (witness_identity w) (witness_identity ` set acc)" by auto
    then have "witness_identity ` (set ?acc \<union> ?G) = witness_identity ` (set acc \<union> insert w ?G)"
      unfolding image_Un by simp
    moreover have "set ?acc \<union> ?G \<subseteq> set acc \<union> insert w ?G" by auto
    ultimately show ?thesis unfolding e G using IH
      by (elim conjE) (intro conjI, assumption, erule (1) trans, erule (1) order_trans)
  qed
qed simp

text \<open>
  The identities, feed id with key, under which some given witness is acceptable. The quorum is over
  these.
\<close>

definition witness_identities ::
    "platform \<Rightarrow> string list option \<Rightarrow> string \<Rightarrow> int \<Rightarrow> int \<Rightarrow> json list \<Rightarrow> (string \<times> string) set" where
  "witness_identities P trusted mhash t max_lag js =
     {witness_identity w | w. \<exists>j \<in> set js. acceptable_witness P trusted mhash t max_lag j = Inr w}"

text \<open>The witnesses that count: the first acceptable one of each identity.\<close>

definition counted_witnesses ::
    "platform \<Rightarrow> string list option \<Rightarrow> string \<Rightarrow> int \<Rightarrow> int \<Rightarrow> json list \<Rightarrow> recovery_witness list" where
  "counted_witnesses P trusted mhash t max_lag js =
     collect_witnesses (acceptable_witness P trusted (lower mhash) t max_lag) js []"

lemma counted_witnesses:
  "distinct (map witness_identity (counted_witnesses P trusted mhash t max_lag js))"
  "witness_identity ` set (counted_witnesses P trusted mhash t max_lag js)
     = witness_identities P trusted (lower mhash) t max_lag js"
  "set (counted_witnesses P trusted mhash t max_lag js)
     \<subseteq> {w. \<exists>j \<in> set js. acceptable_witness P trusted (lower mhash) t max_lag j = Inr w}"
  using collect_witnesses_spec [of "[]" "acceptable_witness P trusted (lower mhash) t max_lag" js]
  by (simp_all add: counted_witnesses_def witness_identities_def image_Collect)

lemma length_counted:
  "length (counted_witnesses P trusted mhash t max_lag js)
     = card (witness_identities P trusted (lower mhash) t max_lag js)"
  by (metis counted_witnesses(1,2) distinct_card length_map set_map)

lemma quorum_Inr_iff:
  "recovery_witness_quorum P js mhash t n max_lag trusted = Inr ws \<longleftrightarrow>
     hex64 mhash \<and> n \<le> int (card (witness_identities P trusted (lower mhash) t max_lag js))
     \<and> ws = sort_key (\<lambda>w. (rw_feed_id w, rw_feed_public_key w)) (counted_witnesses P trusted mhash t max_lag js)"
  unfolding recovery_witness_quorum_def bindE_Inr_iff root_hex32_Inr_iff Let_def length_counted [symmetric]
  by (simp add: counted_witnesses_def not_less) blast

lemma quorum_members:
  assumes "recovery_witness_quorum P js mhash t n max_lag trusted = Inr ws"
  shows "n \<le> int (length ws)" and "distinct (map witness_identity ws)"
    and "w \<in> set ws \<Longrightarrow> \<exists>j \<in> set js. acceptable_witness P trusted (lower mhash) t max_lag j = Inr w"
  using assms counted_witnesses [of P trusted mhash t max_lag js]
  by (auto simp: quorum_Inr_iff length_counted distinct_map)

section \<open>Rotation of an operator key\<close>

definition without_signatures :: "json \<Rightarrow> string list \<Rightarrow> json" where
  "without_signatures j ks = (case j of
     JDict kvs \<Rightarrow> JDict (filter (\<lambda>(k, _). k \<notin> set ks) kvs) | _ \<Rightarrow> j)"

definition key_rotation_signature_payload :: "json \<Rightarrow> bytes res" where
  "key_rotation_signature_payload j = signature_payload LOG_KEY_ROTATION_SIGNATURE_DOMAIN
     (without_signatures j [''signature_by_old_key'', ''signature_by_new_key''])"

definition key_rotation_id :: "platform \<Rightarrow> json \<Rightarrow> string res" where
  "key_rotation_id P j = message_hash P j"

text \<open>\<open>text or default\<close>: an absent or empty text gives the default.\<close>

definition text_or :: "string option \<Rightarrow> string \<Rightarrow> string" where
  "text_or t d = (case t of Some (c # cs) \<Rightarrow> c # cs | _ \<Rightarrow> d)"

definition make_key_rotation ::
    "platform \<Rightarrow> string \<Rightarrow> string \<Rightarrow> string \<Rightarrow> string \<Rightarrow> int \<Rightarrow> int \<Rightarrow> int option \<Rightarrow> string option \<Rightarrow> string option \<Rightarrow> json res" where
  "make_key_rotation P old_private_key old_public_key new_private_key new_public_key rotation_timestamp
       effective_from_tree_size overlap_until_timestamp reason log_id =
     (let overlap = (case overlap_until_timestamp of
            Some t \<Rightarrow> t | None \<Rightarrow> rotation_timestamp + DEFAULT_KEY_ROTATION_OVERLAP_SECONDS);
          ok = strip old_public_key; nk = strip new_public_key;
          fields =
            [(''type'', JStr LOG_KEY_ROTATION_TYPE), (''version'', JInt LOG_VERSION),
             (''log_id'', JStr (text_or log_id (log_id_from_public_key P ok))),
             (''old_public_key'', JStr ok), (''new_public_key'', JStr nk),
             (''new_log_id'', JStr (log_id_from_public_key P nk)),
             (''rotation_timestamp'', JInt rotation_timestamp),
             (''effective_from_tree_size'', JInt effective_from_tree_size),
             (''overlap_until_timestamp'', JInt overlap), (''reason'', JStr (text_or reason ''scheduled'')),
             (''signature_algorithm'', JStr LOG_SIGNATURE_ALGORITHM)] in
      bindE (key_rotation_signature_payload (JDict fields)) (\<lambda>payload.
      bindE (sign_operator_payload P old_private_key payload) (\<lambda>so.
      bindE (sign_operator_payload P new_private_key payload) (\<lambda>sn.
      Inr (JDict (fields @ [(''signature_by_old_key'', JStr so), (''signature_by_new_key'', JStr sn)]))))))"

definition ROTATION_FIELDS :: "string list" where
  "ROTATION_FIELDS = [''type'', ''version'', ''log_id'', ''old_public_key'', ''new_public_key'', ''new_log_id'',
     ''rotation_timestamp'', ''effective_from_tree_size'', ''overlap_until_timestamp'', ''reason'',
     ''signature_algorithm'', ''signature_by_old_key'', ''signature_by_new_key'']"

text \<open>The record's header: exact fields, type, version, signature algorithm.\<close>

definition check_rotation_header :: "json \<Rightarrow> unit res" where
  "check_rotation_header j =
     bindE (require_exact_keys j ROTATION_FIELDS ''transparency operator key rotation'' [] KeyRotationError) (\<lambda>_.
     if jget j ''type'' \<noteq> Some (JStr LOG_KEY_ROTATION_TYPE)
     then Inl (KeyRotationError ''unsupported transparency operator key rotation version'')
     else bindE (jat j ''version'') (\<lambda>v.
     bindE (require_int_for v ''operator key rotation version'' None KeyRotationError) (\<lambda>version.
     if version \<noteq> LOG_VERSION
     then Inl (KeyRotationError ''unsupported transparency operator key rotation version'')
     else if unhashable (jget j ''signature_algorithm'') then Inl (PyTypeError ''unhashable type'')
     else if jget j ''signature_algorithm'' \<noteq> Some (JStr LOG_SIGNATURE_ALGORITHM)
     then Inl (KeyRotationError ''unsupported transparency operator key rotation signature algorithm'')
     else Inr ())))"

text \<open>An empty expected text is no expectation. A key that is not a text raises on \<open>strip\<close>.\<close>

definition expects :: "string option \<Rightarrow> bool" where
  "expects e \<longleftrightarrow> (case e of Some (c # cs) \<Rightarrow> True | _ \<Rightarrow> False)"

definition check_expected_key :: "json \<Rightarrow> string \<Rightarrow> string option \<Rightarrow> string \<Rightarrow> unit res" where
  "check_expected_key j field expected message =
     (if \<not> expects expected then Inr ()
      else bindE (str_at j field) (\<lambda>k.
        if Some (strip k) \<noteq> map_option strip expected then Inl (KeyRotationError message) else Inr ()))"

definition check_rotation_keys ::
    "platform \<Rightarrow> json \<Rightarrow> string option \<Rightarrow> string option \<Rightarrow> string option \<Rightarrow> (string \<times> string) res" where
  "check_rotation_keys P j expected_log_id old_public_key new_public_key =
     (if expects expected_log_id \<and> jget j ''log_id'' \<noteq> map_option JStr expected_log_id
      then Inl (KeyRotationError ''operator key rotation is for an unexpected log id'')
      else bindE (check_expected_key j ''old_public_key'' old_public_key
        ''operator key rotation old key does not match expected key'') (\<lambda>_.
      bindE (check_expected_key j ''new_public_key'' new_public_key
        ''operator key rotation new key does not match expected key'') (\<lambda>_.
      bindE (str_at j ''old_public_key'') (\<lambda>ok.
      if jget j ''log_id'' \<noteq> Some (JStr (log_id_from_public_key P (strip ok)))
      then Inl (KeyRotationError ''operator key rotation log id does not match old key'')
      else bindE (str_at j ''new_public_key'') (\<lambda>nk.
      if jget j ''new_log_id'' \<noteq> Some (JStr (log_id_from_public_key P (strip nk)))
      then Inl (KeyRotationError ''operator key rotation new log id does not match new key'')
      else Inr (strip ok, strip nk))))))"

definition check_rotation_times :: "json \<Rightarrow> unit res" where
  "check_rotation_times j =
     bindE (jat j ''rotation_timestamp'') (\<lambda>r.
     bindE (require_int_for r ''operator key rotation timestamp'' (Some 0) KeyRotationError) (\<lambda>rotation.
     bindE (jat j ''effective_from_tree_size'') (\<lambda>e.
     bindE (require_int_for e ''operator key rotation effective tree size'' (Some 0) KeyRotationError) (\<lambda>_.
     bindE (jat j ''overlap_until_timestamp'') (\<lambda>u.
     bindE (require_int_for u ''operator key rotation overlap timestamp'' (Some 0) KeyRotationError) (\<lambda>overlap.
     if overlap < rotation
     then Inl (KeyRotationError ''operator key rotation overlap ends before rotation timestamp'')
     else Inr ()))))))"

definition check_rotation_signature :: "platform \<Rightarrow> json \<Rightarrow> string \<Rightarrow> bytes \<Rightarrow> string \<Rightarrow> string \<Rightarrow> unit res" where
  "check_rotation_signature P j key payload field message =
     bindE (jat j field) (\<lambda>s. bindE (verify_operator_payload P key s payload LOG_SIGNATURE_ALGORITHM) (\<lambda>ok.
     if \<not> ok then Inl (KeyRotationError message) else Inr ()))"

definition verify_key_rotation ::
    "platform \<Rightarrow> json \<Rightarrow> string option \<Rightarrow> string option \<Rightarrow> string option \<Rightarrow> unit res" where
  "verify_key_rotation P j expected_log_id old_public_key new_public_key =
     bindE (check_rotation_header j) (\<lambda>_.
     bindE (check_rotation_keys P j expected_log_id old_public_key new_public_key) (\<lambda>(ok, nk).
     bindE (check_rotation_times j) (\<lambda>_.
     bindE (key_rotation_signature_payload j) (\<lambda>payload.
     bindE (check_rotation_signature P j ok payload ''signature_by_old_key''
       ''invalid operator key rotation old-key signature'') (\<lambda>_.
     check_rotation_signature P j nk payload ''signature_by_new_key''
       ''invalid operator key rotation new-key signature'')))))"

section \<open>Revocation by the successor\<close>

definition key_revocation_signature_payload :: "json \<Rightarrow> bytes res" where
  "key_revocation_signature_payload j = signature_payload LOG_KEY_REVOCATION_SIGNATURE_DOMAIN
     (without_signatures j [''signature_by_successor_key''])"

definition key_revocation_id :: "platform \<Rightarrow> json \<Rightarrow> string res" where
  "key_revocation_id P j = message_hash P j"

definition make_key_revocation :: "platform \<Rightarrow> string \<Rightarrow> json \<Rightarrow> int \<Rightarrow> string option \<Rightarrow> json res" where
  "make_key_revocation P successor_private_key rotation revocation_timestamp reason =
     bindE (verify_key_rotation P rotation None None None) (\<lambda>_.
     bindE (jat rotation ''log_id'') (\<lambda>l.
     bindE (jat rotation ''old_public_key'') (\<lambda>ok.
     bindE (jat rotation ''new_public_key'') (\<lambda>nk.
     bindE (key_rotation_id P rotation) (\<lambda>h.
     let fields =
       [(''type'', JStr LOG_KEY_REVOCATION_TYPE), (''version'', JInt LOG_VERSION), (''log_id'', l),
        (''revoked_public_key'', ok), (''successor_public_key'', nk), (''rotation_record_hash'', JStr h),
        (''revocation_timestamp'', JInt revocation_timestamp), (''reason'', JStr (text_or reason ''compromise'')),
        (''signature_algorithm'', JStr LOG_SIGNATURE_ALGORITHM)] in
     bindE (key_revocation_signature_payload (JDict fields)) (\<lambda>payload.
     bindE (sign_operator_payload P successor_private_key payload) (\<lambda>s.
     Inr (JDict (fields @ [(''signature_by_successor_key'', JStr s)])))))))))"

definition REVOCATION_FIELDS :: "string list" where
  "REVOCATION_FIELDS = [''type'', ''version'', ''log_id'', ''revoked_public_key'', ''successor_public_key'',
     ''rotation_record_hash'', ''revocation_timestamp'', ''reason'', ''signature_algorithm'',
     ''signature_by_successor_key'']"

text \<open>The record alone: header, time, the revoked key's log id, the successor's signature.\<close>

definition check_revocation_record :: "platform \<Rightarrow> json \<Rightarrow> unit res" where
  "check_revocation_record P j =
     bindE (require_exact_keys j REVOCATION_FIELDS ''transparency operator key revocation'' [] KeyRevocationError) (\<lambda>_.
     if jget j ''type'' \<noteq> Some (JStr LOG_KEY_REVOCATION_TYPE)
     then Inl (KeyRevocationError ''unsupported transparency operator key revocation version'')
     else bindE (jat j ''version'') (\<lambda>v.
     bindE (require_int_for v ''operator key revocation version'' None KeyRevocationError) (\<lambda>version.
     if version \<noteq> LOG_VERSION
     then Inl (KeyRevocationError ''unsupported transparency operator key revocation version'')
     else if unhashable (jget j ''signature_algorithm'') then Inl (PyTypeError ''unhashable type'')
     else if jget j ''signature_algorithm'' \<noteq> Some (JStr LOG_SIGNATURE_ALGORITHM)
     then Inl (KeyRevocationError ''unsupported transparency operator key revocation signature algorithm'')
     else bindE (jat j ''revocation_timestamp'') (\<lambda>t.
     bindE (require_int_for t ''operator key revocation timestamp'' (Some 0) KeyRevocationError) (\<lambda>_.
     bindE (str_at j ''revoked_public_key'') (\<lambda>rk.
     if jget j ''log_id'' \<noteq> Some (JStr (log_id_from_public_key P (strip rk)))
     then Inl (KeyRevocationError ''operator key revocation log id does not match revoked key'')
     else bindE (str_at j ''successor_public_key'') (\<lambda>sk.
     bindE (jat j ''signature_by_successor_key'') (\<lambda>s.
     bindE (key_revocation_signature_payload j) (\<lambda>payload.
     bindE (verify_operator_payload P (strip sk) s payload LOG_SIGNATURE_ALGORITHM) (\<lambda>ok.
     if \<not> ok then Inl (KeyRevocationError ''invalid operator key revocation successor-key signature'')
     else Inr ()))))))))))"

definition check_revocation_link :: "platform \<Rightarrow> json \<Rightarrow> json \<Rightarrow> unit res" where
  "check_revocation_link P j rotation =
     bindE (verify_key_rotation P rotation None None None) (\<lambda>_.
     bindE (key_rotation_id P rotation) (\<lambda>h.
     if jget j ''rotation_record_hash'' \<noteq> Some (JStr h)
     then Inl (KeyRevocationError ''operator key revocation does not reference the supplied rotation'')
     else if jget j ''log_id'' \<noteq> jget rotation ''log_id''
     then Inl (KeyRevocationError ''operator key revocation log id does not match rotation'')
     else if jget j ''revoked_public_key'' \<noteq> jget rotation ''old_public_key''
     then Inl (KeyRevocationError ''operator key revocation old key does not match rotation'')
     else if jget j ''successor_public_key'' \<noteq> jget rotation ''new_public_key''
     then Inl (KeyRevocationError ''operator key revocation successor key does not match rotation'')
     else Inr ()))"

definition verify_key_revocation :: "platform \<Rightarrow> json \<Rightarrow> json option \<Rightarrow> unit res" where
  "verify_key_revocation P j rotation =
     bindE (check_revocation_record P j) (\<lambda>_.
     case rotation of None \<Rightarrow> Inr () | Some r \<Rightarrow> check_revocation_link P j r)"

section \<open>What acceptance means\<close>

text \<open>The value \<open>s\<close> is a base85 text of a signature of \<open>m\<close> under the key text.\<close>

definition signed_over :: "platform \<Rightarrow> string \<Rightarrow> bytes \<Rightarrow> json \<Rightarrow> bool" where
  "signed_over P key m s =
     (is_ascii (strip (py_str s))
      \<and> (\<exists>k raw. decode_public_key key = Inr k \<and> b85decode (strip (py_str s)) = Some raw \<and> ed25519_verify P k raw m))"

lemma verify_operator_payload_signed [res_simps]:
  "verify_operator_payload P (strip key) s m LOG_SIGNATURE_ALGORITHM = Inr True \<longleftrightarrow> signed_over P (strip key) m s"
  by (simp add: verify_operator_payload_True signed_over_def)

definition rotation_typed :: "json \<Rightarrow> bool" where
  "rotation_typed j =
     (is_dict j \<and> set (dict_keys j) = set ROTATION_FIELDS
      \<and> jget j ''type'' = Some (JStr LOG_KEY_ROTATION_TYPE) \<and> jget j ''version'' = Some (JInt LOG_VERSION)
      \<and> jget j ''signature_algorithm'' = Some (JStr LOG_SIGNATURE_ALGORITHM)
      \<and> (\<exists>n. jget j ''effective_from_tree_size'' = Some (JInt n) \<and> 0 \<le> n)
      \<and> (\<exists>r u. jget j ''rotation_timestamp'' = Some (JInt r) \<and> jget j ''overlap_until_timestamp'' = Some (JInt u)
            \<and> 0 \<le> r \<and> r \<le> u))"

text \<open>The old key \<open>ok\<close> hands over to the new key \<open>nk\<close>: both names derive from the keys, and both keys signed.\<close>

definition hands_over :: "platform \<Rightarrow> json \<Rightarrow> string \<Rightarrow> string \<Rightarrow> bool" where
  "hands_over P j ok nk =
     (jget j ''old_public_key'' = Some (JStr ok) \<and> jget j ''new_public_key'' = Some (JStr nk)
      \<and> jget j ''log_id'' = Some (JStr (log_id_from_public_key P (strip ok)))
      \<and> jget j ''new_log_id'' = Some (JStr (log_id_from_public_key P (strip nk)))
      \<and> (\<exists>m so sn. key_rotation_signature_payload j = Inr m
           \<and> jget j ''signature_by_old_key'' = Some so \<and> signed_over P (strip ok) m so
           \<and> jget j ''signature_by_new_key'' = Some sn \<and> signed_over P (strip nk) m sn))"

lemma check_rotation_header_Inr_iff:
  "check_rotation_header j = Inr () \<longleftrightarrow> is_dict j \<and> set (dict_keys j) = set ROTATION_FIELDS
     \<and> jget j ''type'' = Some (JStr LOG_KEY_ROTATION_TYPE) \<and> jget j ''version'' = Some (JInt LOG_VERSION)
     \<and> jget j ''signature_algorithm'' = Some (JStr LOG_SIGNATURE_ALGORITHM)"
  unfolding check_rotation_header_def bindE_Inr_iff if_Inl_Inr_iff require_exact_keys_Inr_iff jat_Inr_iff
    require_int_for_Inr_iff by auto

definition expected_key :: "string option \<Rightarrow> string \<Rightarrow> bool" where
  "expected_key e k \<longleftrightarrow> (expects e \<longrightarrow> map_option strip e = Some (strip k))"

lemma expected_key_None [simp]: "expected_key None k"
  by (simp add: expected_key_def expects_def)

lemma check_expected_key_Inr_iff:
  "check_expected_key j f e msg = Inr u \<longleftrightarrow> (expects e \<longrightarrow> (\<exists>k. jget j f = Some (JStr k) \<and> expected_key e k))"
  by (cases e; cases "expects e") (auto simp: check_expected_key_def expected_key_def bindE_Inr_iff str_at_Inr_iff)

lemma check_rotation_keys_Inr_iff:
  "check_rotation_keys P j e o_key n_key = Inr (a, b) \<longleftrightarrow>
     (expects e \<longrightarrow> jget j ''log_id'' = map_option JStr e)
     \<and> (\<exists>ok nk. jget j ''old_public_key'' = Some (JStr ok) \<and> jget j ''new_public_key'' = Some (JStr nk)
          \<and> expected_key o_key ok \<and> expected_key n_key nk \<and> a = strip ok \<and> b = strip nk
          \<and> jget j ''log_id'' = Some (JStr (log_id_from_public_key P a))
          \<and> jget j ''new_log_id'' = Some (JStr (log_id_from_public_key P b)))"
  unfolding check_rotation_keys_def bindE_Inr_iff if_Inl_Inr_iff check_expected_key_Inr_iff str_at_Inr_iff
  by (auto simp: expected_key_def)

lemma check_rotation_times_Inr_iff:
  "check_rotation_times j = Inr () \<longleftrightarrow>
     (\<exists>n. jget j ''effective_from_tree_size'' = Some (JInt n) \<and> 0 \<le> n)
     \<and> (\<exists>r u. jget j ''rotation_timestamp'' = Some (JInt r) \<and> jget j ''overlap_until_timestamp'' = Some (JInt u)
            \<and> 0 \<le> r \<and> r \<le> u)"
  unfolding check_rotation_times_def bindE_Inr_iff if_Inl_Inr_iff jat_Inr_iff require_int_for_Inr_iff by auto

lemma check_rotation_signature_Inr_iff:
  "check_rotation_signature P j (strip key) m f msg = Inr () \<longleftrightarrow>
     (\<exists>s. jget j f = Some s \<and> signed_over P (strip key) m s)"
  unfolding check_rotation_signature_def bindE_Inr_iff jat_Inr_iff
  by (auto simp: verify_operator_payload_signed split: if_splits)

lemma verify_key_rotation_Inr_iff [res_simps]:
  "verify_key_rotation P j e o_key n_key = Inr () \<longleftrightarrow> rotation_typed j
     \<and> (expects e \<longrightarrow> jget j ''log_id'' = map_option JStr e)
     \<and> (\<exists>ok nk. hands_over P j ok nk \<and> expected_key o_key ok \<and> expected_key n_key nk)"
proof -
  have "verify_key_rotation P j e o_key n_key = Inr () \<longleftrightarrow>
      check_rotation_header j = Inr () \<and> check_rotation_times j = Inr ()
      \<and> (\<exists>a b. check_rotation_keys P j e o_key n_key = Inr (a, b)
        \<and> (\<exists>m. key_rotation_signature_payload j = Inr m
          \<and> check_rotation_signature P j a m ''signature_by_old_key'' ''invalid operator key rotation old-key signature'' = Inr ()
          \<and> check_rotation_signature P j b m ''signature_by_new_key'' ''invalid operator key rotation new-key signature'' = Inr ()))"
    unfolding verify_key_rotation_def by (auto simp: bindE_Inr_iff)
  also have "\<dots> \<longleftrightarrow> rotation_typed j \<and> (expects e \<longrightarrow> jget j ''log_id'' = map_option JStr e)
      \<and> (\<exists>ok nk. hands_over P j ok nk \<and> expected_key o_key ok \<and> expected_key n_key nk)"
    unfolding check_rotation_keys_Inr_iff check_rotation_header_Inr_iff check_rotation_times_Inr_iff
      rotation_typed_def hands_over_def
    by (auto simp: check_rotation_signature_Inr_iff) 
  finally show ?thesis .
qed

lemma rotation_keys_unique: "hands_over P j a b \<Longrightarrow> hands_over P j c d \<Longrightarrow> a = c \<and> b = d"
  by (simp add: hands_over_def)

definition revocation_typed :: "json \<Rightarrow> bool" where
  "revocation_typed j =
     (is_dict j \<and> set (dict_keys j) = set REVOCATION_FIELDS
      \<and> jget j ''type'' = Some (JStr LOG_KEY_REVOCATION_TYPE) \<and> jget j ''version'' = Some (JInt LOG_VERSION)
      \<and> jget j ''signature_algorithm'' = Some (JStr LOG_SIGNATURE_ALGORITHM)
      \<and> (\<exists>t. jget j ''revocation_timestamp'' = Some (JInt t) \<and> 0 \<le> t))"

definition revokes :: "platform \<Rightarrow> json \<Rightarrow> string \<Rightarrow> string \<Rightarrow> bool" where
  "revokes P j rk sk =
     (jget j ''revoked_public_key'' = Some (JStr rk) \<and> jget j ''successor_public_key'' = Some (JStr sk)
      \<and> jget j ''log_id'' = Some (JStr (log_id_from_public_key P (strip rk)))
      \<and> (\<exists>m s. key_revocation_signature_payload j = Inr m \<and> jget j ''signature_by_successor_key'' = Some s
           \<and> signed_over P (strip sk) m s))"

lemma check_revocation_record_Inr_iff:
  "check_revocation_record P j = Inr () \<longleftrightarrow> revocation_typed j \<and> (\<exists>rk sk. revokes P j rk sk)"
  unfolding check_revocation_record_def bindE_Inr_iff if_Inl_Inr_iff require_exact_keys_Inr_iff jat_Inr_iff
    require_int_for_Inr_iff str_at_Inr_iff revocation_typed_def revokes_def
  by (auto simp: verify_operator_payload_signed)

lemma check_revocation_link_Inr_iff:
  "check_revocation_link P j r = Inr () \<longleftrightarrow> verify_key_rotation P r None None None = Inr ()
     \<and> (\<exists>h. key_rotation_id P r = Inr h \<and> jget j ''rotation_record_hash'' = Some (JStr h))
     \<and> jget j ''log_id'' = jget r ''log_id'' \<and> jget j ''revoked_public_key'' = jget r ''old_public_key''
     \<and> jget j ''successor_public_key'' = jget r ''new_public_key''"
  unfolding check_revocation_link_def bindE_Inr_iff if_Inl_Inr_iff by auto

text \<open>Accepted against a rotation, a revocation is signed by the key that the revoked key itself named.\<close>

lemma verify_key_revocation_link:
  "verify_key_revocation P j (Some r) = Inr () \<longleftrightarrow>
     revocation_typed j \<and> rotation_typed r
     \<and> (\<exists>h. key_rotation_id P r = Inr h \<and> jget j ''rotation_record_hash'' = Some (JStr h))
     \<and> (\<exists>ok nk. hands_over P r ok nk \<and> revokes P j ok nk)"
proof -
  have "verify_key_revocation P j (Some r) = Inr () \<longleftrightarrow>
      (revocation_typed j \<and> (\<exists>rk sk. revokes P j rk sk)) \<and> check_revocation_link P j r = Inr ()"
    unfolding verify_key_revocation_def option.case check_revocation_record_Inr_iff [symmetric]
    by (auto simp: bindE_Inr_iff)
  then show ?thesis
    unfolding check_revocation_link_Inr_iff verify_key_rotation_Inr_iff
    by (auto simp: expects_def revokes_def hands_over_def)
qed

section \<open>Records that were made verify\<close>

lemma sign_operator_signed:
  assumes "ed_ok P" and "length seed = 32" and "sign_operator_payload P (PRIVATE_KEY_PREFIX @ b85encode seed) m = Inr s"
  shows "signed_over P (public_key_text (pf_ed_public P seed)) m (JStr s)"
proof -
  have "decode_private_key (PRIVATE_KEY_PREFIX @ b85encode seed) = Inr seed"
    using assms(2) by (intro decode_encode_private_key) (simp add: encode_private_key_def require_bytes_def)
  then have "s = b85encode (pf_ed_sign P seed m)"
    using assms(3) ed25519_sign_ok [OF assms(1,2), of m]
    by (auto simp: sign_operator_payload_def Let_def keys_sign_def strip_private_text bindE_Inr_iff split: if_splits)
  moreover have "length (pf_ed_public P seed) = 32" using assms(1,2) by (auto simp: ed_ok_def)
  ultimately show ?thesis
    using ed25519_sign_ok [OF assms(1,2), of m] by (simp add: signed_over_def)
qed

lemma without_signatures_append:
  "set (map fst kvs) \<inter> set ks = {} \<Longrightarrow> set (map fst sgs) \<subseteq> set ks \<Longrightarrow>
    without_signatures (JDict (kvs @ sgs)) ks = without_signatures (JDict kvs) ks"
  by (fastforce simp: without_signatures_def filter_empty_conv)

lemma make_key_rotation_verifies:
  assumes "ed_ok P" and "length old_seed = 32" and "length new_seed = 32"
    and "0 \<le> t" and "0 \<le> n" and "overlap = (case u of Some v \<Rightarrow> v | None \<Rightarrow> t + DEFAULT_KEY_ROTATION_OVERLAP_SECONDS)"
    and "t \<le> overlap"
    and make: "make_key_rotation P (PRIVATE_KEY_PREFIX @ b85encode old_seed) (public_key_text (pf_ed_public P old_seed))
      (PRIVATE_KEY_PREFIX @ b85encode new_seed) (public_key_text (pf_ed_public P new_seed)) t n u reason None = Inr j"
  shows "verify_key_rotation P j None None None = Inr ()"
    and "hands_over P j (public_key_text (pf_ed_public P old_seed)) (public_key_text (pf_ed_public P new_seed))"
proof -
  let ?ok = "public_key_text (pf_ed_public P old_seed)" and ?nk = "public_key_text (pf_ed_public P new_seed)"
  let ?sigs = "[''signature_by_old_key'', ''signature_by_new_key'']"
  from make obtain payload so sn kvs where
    payload: "key_rotation_signature_payload (JDict kvs) = Inr payload"
    and so: "sign_operator_payload P (PRIVATE_KEY_PREFIX @ b85encode old_seed) payload = Inr so"
    and sn: "sign_operator_payload P (PRIVATE_KEY_PREFIX @ b85encode new_seed) payload = Inr sn"
    and j: "j = JDict (kvs @ [(''signature_by_old_key'', JStr so), (''signature_by_new_key'', JStr sn)])"
    and kvs: "kvs = [(''type'', JStr LOG_KEY_ROTATION_TYPE), (''version'', JInt LOG_VERSION),
         (''log_id'', JStr (log_id_from_public_key P ?ok)), (''old_public_key'', JStr ?ok), (''new_public_key'', JStr ?nk),
         (''new_log_id'', JStr (log_id_from_public_key P ?nk)), (''rotation_timestamp'', JInt t),
         (''effective_from_tree_size'', JInt n), (''overlap_until_timestamp'', JInt overlap),
         (''reason'', JStr (text_or reason ''scheduled'')), (''signature_algorithm'', JStr LOG_SIGNATURE_ALGORITHM)]"
    unfolding make_key_rotation_def Let_def bindE_Inr_iff key_text_strip text_or_def option.case assms(6) by blast
  have fields: "jget j ''old_public_key'' = Some (JStr ?ok)" "jget j ''new_public_key'' = Some (JStr ?nk)"
    "jget j ''log_id'' = Some (JStr (log_id_from_public_key P ?ok))"
    "jget j ''new_log_id'' = Some (JStr (log_id_from_public_key P ?nk))"
    "jget j ''signature_by_old_key'' = Some (JStr so)" "jget j ''signature_by_new_key'' = Some (JStr sn)"
    unfolding j kvs by simp_all
  have "without_signatures j ?sigs = without_signatures (JDict kvs) ?sigs"
    unfolding j by (rule without_signatures_append) (simp_all add: kvs)
  then have "key_rotation_signature_payload j = Inr payload"
    using payload by (simp only: key_rotation_signature_payload_def)
  then show h: "hands_over P j ?ok ?nk"
    unfolding hands_over_def key_text_strip
    using fields sign_operator_signed [OF assms(1,2) so] sign_operator_signed [OF assms(1,3) sn] by blast
  have "rotation_typed j"
    using assms(4-7) unfolding rotation_typed_def by (simp add: j kvs ROTATION_FIELDS_def)
  with h show "verify_key_rotation P j None None None = Inr ()"
    unfolding verify_key_rotation_Inr_iff using expected_key_None by (auto simp: expects_def)
qed

lemma make_key_revocation_verifies:
  assumes "ed_ok P" and "length new_seed = 32" and "0 \<le> t"
    and r: "hands_over P r ok (public_key_text (pf_ed_public P new_seed))"
    and make: "make_key_revocation P (PRIVATE_KEY_PREFIX @ b85encode new_seed) r t reason = Inr j"
  shows "verify_key_revocation P j (Some r) = Inr ()"
proof -
  let ?nk = "public_key_text (pf_ed_public P new_seed)"
  have rf: "jget r ''old_public_key'' = Some (JStr ok)" "jget r ''new_public_key'' = Some (JStr ?nk)"
    "jget r ''log_id'' = Some (JStr (log_id_from_public_key P (strip ok)))"
    using r by (simp_all add: hands_over_def)
  from make have v: "verify_key_rotation P r None None None = Inr ()"
    by (auto simp: make_key_revocation_def bindE_Inr_iff)
  from make obtain h payload s kvs where
    h: "key_rotation_id P r = Inr h" and payload: "key_revocation_signature_payload (JDict kvs) = Inr payload"
    and s: "sign_operator_payload P (PRIVATE_KEY_PREFIX @ b85encode new_seed) payload = Inr s"
    and j: "j = JDict (kvs @ [(''signature_by_successor_key'', JStr s)])"
    and kvs: "kvs = [(''type'', JStr LOG_KEY_REVOCATION_TYPE), (''version'', JInt LOG_VERSION),
        (''log_id'', JStr (log_id_from_public_key P (strip ok))), (''revoked_public_key'', JStr ok),
        (''successor_public_key'', JStr ?nk), (''rotation_record_hash'', JStr h), (''revocation_timestamp'', JInt t),
        (''reason'', JStr (text_or reason ''compromise'')), (''signature_algorithm'', JStr LOG_SIGNATURE_ALGORITHM)]"
    unfolding make_key_revocation_def Let_def bindE_Inr_iff jat_Inr_iff rf option.inject by blast
  have "without_signatures j [''signature_by_successor_key''] = without_signatures (JDict kvs) [''signature_by_successor_key'']"
    unfolding j by (rule without_signatures_append) (simp_all add: kvs)
  then have "key_revocation_signature_payload j = Inr payload"
    using payload by (simp only: key_revocation_signature_payload_def)
  moreover have "jget j ''revoked_public_key'' = Some (JStr ok)" "jget j ''successor_public_key'' = Some (JStr ?nk)"
    "jget j ''log_id'' = Some (JStr (log_id_from_public_key P (strip ok)))"
    "jget j ''signature_by_successor_key'' = Some (JStr s)" "jget j ''rotation_record_hash'' = Some (JStr h)"
    unfolding j kvs by simp_all
  moreover have "revocation_typed j"
    using assms(3) unfolding revocation_typed_def by (simp add: j kvs REVOCATION_FIELDS_def)
  ultimately have "revokes P j ok ?nk" and "revocation_typed j" and "jget j ''rotation_record_hash'' = Some (JStr h)"
    unfolding revokes_def key_text_strip using sign_operator_signed [OF assms(1,2) s] by blast+
  moreover have "rotation_typed r" using v by (simp add: verify_key_rotation_Inr_iff)
  ultimately show ?thesis
    unfolding verify_key_revocation_link using r h by blast
qed

lemma make_recovery_witness_verifies:
  assumes "ed_ok P" and "length seed = 32" and "0 \<le> first_seen"
    and make: "make_recovery_witness P mhash feed_id first_seen segment_hash (PRIVATE_KEY_PREFIX @ b85encode seed)
      (public_key_text (pf_ed_public P seed)) = Inr j"
    and trusted: "\<forall>ks. trusted = Some ks \<longrightarrow> public_key_text (pf_ed_public P seed) \<in> set (trusted_keys ks)"
  shows "verify_recovery_witness P j trusted = Inr \<lparr>rw_message_hash = lower mhash,
    rw_source_segment_hash = lower segment_hash, rw_feed_id = strip feed_id,
    rw_feed_public_key = public_key_text (pf_ed_public P seed), rw_first_seen = first_seen\<rparr>"
proof -
  let ?pk = "public_key_text (pf_ed_public P seed)"
  from make have hx: "hex64 mhash" "hex64 segment_hash"
    by (auto simp: make_recovery_witness_def bindE_Inr_iff root_hex32_Inr_iff)
  from make obtain payload s kvs where
    hx': "hex64 (lower mhash)" "hex64 (lower segment_hash)"
    and payload: "recovery_witness_signature_payload (JDict kvs) = Inr payload"
    and s: "sign_operator_payload P (PRIVATE_KEY_PREFIX @ b85encode seed) payload = Inr s"
    and j: "j = JDict (kvs @ [(''signature'', JStr s)])"
    and kvs: "kvs = [(''type'', JStr LOG_RECOVERY_WITNESS_TYPE), (''version'', JInt LOG_VERSION),
        (''signature_algorithm'', JStr LOG_SIGNATURE_ALGORITHM), (''message_hash'', JStr (lower mhash)),
        (''feed_id'', JStr feed_id), (''feed_public_key'', JStr ?pk), (''first_seen'', JInt first_seen),
        (''source_segment_hash'', JStr (lower segment_hash))]"
    unfolding make_recovery_witness_def Let_def bindE_Inr_iff root_hex32_Inr_iff key_text_strip py_str.simps
    by auto
  have keys: "\<forall>k v. (k, v) \<in> set kvs \<longrightarrow> k \<noteq> ''signature''" by (simp add: kvs)
  have p: "recovery_witness_signature_payload j = Inr payload"
    using payload without_signature_fields [OF keys] by (simp only: recovery_witness_signature_payload_def j)
  have fields: "jget j ''type'' = Some (JStr LOG_RECOVERY_WITNESS_TYPE)" "jget j ''version'' = Some (JInt LOG_VERSION)"
    "jget j ''signature_algorithm'' = Some (JStr LOG_SIGNATURE_ALGORITHM)" "jget j ''message_hash'' = Some (JStr (lower mhash))"
    "jget j ''feed_id'' = Some (JStr feed_id)" "jget j ''feed_public_key'' = Some (JStr ?pk)"
    "jget j ''first_seen'' = Some (JInt first_seen)" "jget j ''source_segment_hash'' = Some (JStr (lower segment_hash))"
    "jget j ''signature'' = Some (JStr s)"
    unfolding j kvs by simp_all
  have k: "require_exact_keys j WITNESS_FIELDS ''operator recovery witness'' [] RootVerificationError = Inr ()"
    unfolding require_exact_keys_Inr_iff by (simp add: j kvs WITNESS_FIELDS_def)
  have sig: "verify_operator_payload P ?pk (JStr s) payload LOG_SIGNATURE_ALGORITHM = Inr True"
    using sign_operator_signed [OF assms(1,2) s] verify_operator_payload_signed [of P ?pk] by simp
  have hx'': "root_hex32 (JStr (lower mhash)) l = Inr (lower mhash)"
    "root_hex32 (JStr (lower segment_hash)) l = Inr (lower segment_hash)" for l
    using hx by (simp_all add: root_hex32_Inr_iff lower_lower)
  show ?thesis
    unfolding verify_recovery_witness_def k fields jat_def p
    using assms(3) trusted
    by (auto simp: hx'' sig require_int_for_def require_str_def split: option.splits)
qed

text \<open>
  A quorum counts pairs of a feed id and a key, and a feed names itself: one trusted feed key makes a quorum
  of any size by signing under different ids.
\<close>

lemma one_feed_fills_quorum:
  assumes "ed_ok P" and "length seed = 32" and "hex64 mhash" and "0 \<le> seen" "t \<le> seen" "seen - t \<le> max_lag"
    and made: "list_all2 (\<lambda>feed j. make_recovery_witness P mhash feed seen segment (PRIVATE_KEY_PREFIX @ b85encode seed)
      (public_key_text (pf_ed_public P seed)) = Inr j) feeds js"
    and "distinct (map strip feeds)"
    and trusted: "\<forall>ks. trusted = Some ks \<longrightarrow> public_key_text (pf_ed_public P seed) \<in> set (trusted_keys ks)"
  shows "\<exists>ws. recovery_witness_quorum P js mhash t (int (length feeds)) max_lag trusted = Inr ws
    \<and> rw_feed_public_key ` set ws \<subseteq> {public_key_text (pf_ed_public P seed)}"
proof -
  let ?key = "public_key_text (pf_ed_public P seed)" and ?mh = "lower mhash"
  let ?w = "\<lambda>feed. \<lparr>rw_message_hash = ?mh, rw_source_segment_hash = lower segment, rw_feed_id = strip feed,
    rw_feed_public_key = ?key, rw_first_seen = seen\<rparr>"
  have acc: "acceptable_witness P trusted ?mh t max_lag j = Inr (?w feed)"
    if "make_recovery_witness P mhash feed seen segment (PRIVATE_KEY_PREFIX @ b85encode seed) ?key = Inr j" for feed j
    unfolding acceptable_witness_def make_recovery_witness_verifies [OF assms(1,2,4) that trusted] bindE_simps
    using assms(5,6) by simp
  have js: "\<exists>feed \<in> set feeds. acceptable_witness P trusted ?mh t max_lag j = Inr (?w feed)" if "j \<in> set js" for j
    using that made acc by (fastforce simp: list_all2_conv_all_nth in_set_conv_nth)
  have "(strip feed, ?key) \<in> witness_identities P trusted ?mh t max_lag js" if f: "feed \<in> set feeds" for feed
  proof -
    from f made obtain j where "j \<in> set js" "acceptable_witness P trusted ?mh t max_lag j = Inr (?w feed)"
      using acc by (fastforce simp: list_all2_conv_all_nth in_set_conv_nth)
    moreover have "witness_identity (?w feed) = (strip feed, ?key)" by (simp add: witness_identity_def)
    ultimately show ?thesis unfolding witness_identities_def mem_Collect_eq by metis
  qed
  then have "(\<lambda>feed. (strip feed, ?key)) ` set feeds \<subseteq> witness_identities P trusted ?mh t max_lag js" by blast
  moreover have "finite (witness_identities P trusted ?mh t max_lag js)" unfolding counted_witnesses(2) [symmetric] by simp
  moreover have "card ((\<lambda>feed. (strip feed, ?key)) ` set feeds) = length feeds"
  proof -
    have "(\<lambda>feed. (strip feed, ?key)) ` set feeds = (\<lambda>x. (x, ?key)) ` set (map strip feeds)" by auto
    moreover have "card ((\<lambda>x. (x, ?key)) ` set (map strip feeds)) = card (set (map strip feeds))"
      by (rule card_image) (simp add: inj_on_def)
    ultimately show ?thesis using distinct_card [OF assms(8)] by (simp only: length_map)
  qed
  ultimately have "length feeds \<le> card (witness_identities P trusted ?mh t max_lag js)" by (metis card_mono)
  then obtain ws where ws: "recovery_witness_quorum P js mhash t (int (length feeds)) max_lag trusted = Inr ws"
    using assms(3) by (simp add: quorum_Inr_iff)
  have "rw_feed_public_key w = ?key" if w: "w \<in> set ws" for w
  proof -
    from quorum_members(3) [OF ws w] obtain j where "j \<in> set js" "acceptable_witness P trusted ?mh t max_lag j = Inr w" by blast
    with js [OF this(1)] show ?thesis by auto
  qed
  with ws show ?thesis by blast
qed

end
