(* ===== verification/PolicyViolation.thy ===== *)
theory PolicyViolation
  imports SpendMapLaws
begin

text \<open>
  Conflicting spends under one signed root, from \<open>src/ind/transparency_client.py\<close>: the self-contained evidence
  that an operator accepted two spends of one bill state, and the spend-map checks of a transfer and of a
  checkpoint, which build that evidence.
\<close>

definition LOG_OPERATOR_POLICY_VIOLATION_TYPE :: string where
  "LOG_OPERATOR_POLICY_VIOLATION_TYPE = ''ind.transparency_operator_policy_violation.v3''"

definition VIOLATION_FIELDS :: "string list" where
  "VIOLATION_FIELDS = [''type'', ''version'', ''violation_type'', ''log_id'', ''root'', ''spend_proof'', ''detected_at'']"

text \<open>The fields in which the claims of one slot must agree.\<close>

definition sibling_fields :: "spend_claim \<Rightarrow> string \<times> string \<times> int \<times> string \<times> string" where
  "sibling_fields c = (sc_token_id c, sc_previous_hash c, sc_sequence c, sc_sender_address c, sc_sender_public_key c)"

text \<open>The checks on the claims that the spend proof gives.\<close>

definition check_conflicting_claims :: "spend_claim list \<Rightarrow> unit res" where
  "check_conflicting_claims claims =
     (if card (sc_transfer_hash ` set claims) < 2
      then Inl (InclusionProofError ''operator policy violation proof has no conflicting spend'')
      else if \<not> list_all (\<lambda>c. sc_transfer c \<noteq> None) claims
      then Inl (InclusionProofError ''operator policy violation proof is missing conflicting transfer bodies'')
      else if card (sc_spend_key ` set claims) \<noteq> 1
      then Inl (InclusionProofError ''operator policy violation proof mixes spend keys'')
      else if \<not> list_all (\<lambda>c. sibling_fields c = sibling_fields (hd claims)) (tl claims)
      then Inl (InclusionProofError ''operator policy violation proof claims are not siblings'')
      else Inr ())"

definition verify_operator_policy_violation_proof :: "platform \<Rightarrow> transparency \<Rightarrow> json \<Rightarrow> string option \<Rightarrow> json res" where
  "verify_operator_policy_violation_proof P T proof operator_public_key =
     bindE (require_exact_keys proof VIOLATION_FIELDS ''operator policy violation proof'' [] InclusionProofError) (\<lambda>_.
     if jget proof ''type'' \<noteq> Some (JStr LOG_OPERATOR_POLICY_VIOLATION_TYPE)
     then Inl (InclusionProofError ''unsupported operator policy violation proof version'')
     else bindE (jat proof ''version'') (\<lambda>v.
     bindE (require_int_for v ''operator policy violation proof version'' None InclusionProofError) (\<lambda>version.
     if version \<noteq> LOG_VERSION
     then Inl (InclusionProofError ''unsupported operator policy violation proof version'')
     else if jget proof ''violation_type'' \<noteq> Some (JStr ''accepted_conflicting_spend'')
     then Inl (InclusionProofError ''unsupported operator policy violation type'')
     else bindE (jat proof ''detected_at'') (\<lambda>d.
     bindE (require_int_for d ''operator policy violation detected_at'' (Some 0) InclusionProofError) (\<lambda>_.
     bindE (jat proof ''root'') (\<lambda>root.
     bindE (verify_signed_root P T root operator_public_key) (\<lambda>_.
     if jget proof ''log_id'' \<noteq> jget root ''log_id''
     then Inl (InclusionProofError ''operator policy violation log id mismatch'')
     else bindE (jat proof ''spend_proof'') (\<lambda>spend_proof.
     bindE (verify_spend_map_proof P T spend_proof root) (\<lambda>claims.
     bindE (check_conflicting_claims claims) (\<lambda>_. Inr proof))))))))))"

definition make_operator_policy_violation_proof ::
    "platform \<Rightarrow> transparency \<Rightarrow> json \<Rightarrow> json \<Rightarrow> string \<Rightarrow> int option \<Rightarrow> json res" where
  "make_operator_policy_violation_proof P T root spend_proof violation_type detected_at =
     bindE (jat root ''log_id'') (\<lambda>log_id.
     verify_operator_policy_violation_proof P T (JDict
       [(''type'', JStr LOG_OPERATOR_POLICY_VIOLATION_TYPE), (''version'', JInt LOG_VERSION),
        (''violation_type'', JStr violation_type), (''log_id'', log_id), (''root'', root),
        (''spend_proof'', spend_proof), (''detected_at'', JInt (time_or_now P detected_at))]) None)"

text \<open>
  The outcome of a spend check that did not raise an ordinary error. \<open>Violation\<close> stands for the raise of
  \<open>OperatorPolicyViolationError\<close>, with the evidence it carries.
\<close>

datatype spend_verdict = Settled | Violation json

text \<open>The last part of both checks: other claims in the slot are evidence, when all bodies are there.\<close>

definition judge_conflicts ::
    "platform \<Rightarrow> transparency \<Rightarrow> json \<Rightarrow> json \<Rightarrow> string \<Rightarrow> spend_claim \<Rightarrow> spend_claim list \<Rightarrow> string \<Rightarrow> spend_verdict res" where
  "judge_conflicts P T signed_root proof expected claim claims unverifiable =
     (let conflicting = filter (\<lambda>c. sc_transfer_hash c \<noteq> expected) claims in
      if conflicting = [] then Inr Settled
      else if list_all (\<lambda>c. sc_transfer c \<noteq> None) (claim # conflicting)
      then bindE (make_operator_policy_violation_proof P T signed_root proof ''accepted_conflicting_spend'' None)
        (\<lambda>evidence. Inr (Violation evidence))
      else Inl (InclusionProofError unverifiable))"

text \<open>
  A transfer that is not of version 3 is hashed as a dict; its spend key is the same hash of the same four
  fields.
\<close>

definition expected_transfer_hash :: "platform \<Rightarrow> transfer \<Rightarrow> string res" where
  "expected_transfer_hash P t =
     (if tr_type t = ''ind.transfer.v3'' then transfer_hash P t else message_hash P (transfer_json t))"

definition check_transfer_claim :: "transfer \<Rightarrow> string \<Rightarrow> string \<Rightarrow> spend_claim \<Rightarrow> unit res" where
  "check_transfer_claim t spend_key h claim =
     (if sc_spend_key claim \<noteq> spend_key
      then Inl (InclusionProofError ''spend proof is for a different bill state'')
      else if sc_transfer_hash claim \<noteq> h
      then Inl (InclusionProofError ''spend proof maps the spend key to a different transfer'')
      else if sc_token_id claim \<noteq> tr_token_id t then Inl (InclusionProofError ''spend proof bill id mismatch'')
      else if sc_previous_hash claim \<noteq> tr_previous_hash t
      then Inl (InclusionProofError ''spend proof previous hash mismatch'')
      else if sc_sequence claim \<noteq> tr_sequence t then Inl (InclusionProofError ''spend proof sequence mismatch'')
      else if sc_sender_address claim \<noteq> tr_sender_address t
      then Inl (InclusionProofError ''spend proof sender mismatch'')
      else if sc_sender_public_key claim \<noteq> tr_sender_public_key t
      then Inl (InclusionProofError ''spend proof sender key mismatch'')
      else Inr ())"

definition verify_spend_map_proof_for_transfer ::
    "platform \<Rightarrow> transparency \<Rightarrow> transfer \<Rightarrow> json \<Rightarrow> json \<Rightarrow> string option \<Rightarrow> spend_verdict res" where
  "verify_spend_map_proof_for_transfer P T t proof signed_root operator_public_key =
     bindE (verify_signed_root P T signed_root operator_public_key) (\<lambda>_.
     bindE (verify_spend_map_proof P T proof signed_root) (\<lambda>claims.
     bindE (spend_key_for_transfer P t) (\<lambda>k.
     bindE (expected_transfer_hash P t) (\<lambda>h.
     case find (\<lambda>c. sc_transfer_hash c = h) claims of
       None \<Rightarrow> Inl (InclusionProofError ''spend proof does not contain this transfer'')
     | Some claim \<Rightarrow>
         bindE (check_transfer_claim t k h claim) (\<lambda>_.
         judge_conflicts P T signed_root proof h claim claims
           ''spend proof contains an unverifiable conflicting sibling claim'')))))"

section \<open>Checkpoints\<close>

text \<open>
  The legacy base85 verifier and the transfer check that uses it. \<open>b85_verify\<close> returns \<open>False\<close> whatever it is
  given.
\<close>

definition b85_verify :: "string \<Rightarrow> string \<Rightarrow> bytes \<Rightarrow> bool" where
  "b85_verify public_key signature data = False"

definition TRANSFER_SIGNATURE_DOMAIN :: string where "TRANSFER_SIGNATURE_DOMAIN = ''IND_TRANSFER_V3''"

definition legacy_verify_transfer_signature :: "platform \<Rightarrow> transfer \<Rightarrow> unit res" where
  "legacy_verify_transfer_signature P t =
     bindE (validate_address P (tr_sender_address t) ''sender address'') (\<lambda>a.
     if \<not> public_key_matches_address P (PkText (tr_sender_public_key t)) a
     then Inl (ValidationError ''sender public key does not match sender address'')
     else bindE (signature_payload TRANSFER_SIGNATURE_DOMAIN (without_key ''signature'' (transfer_json t))) (\<lambda>m.
     if \<not> b85_verify (tr_sender_public_key t) (tr_signature t) m
     then Inl (ValidationError ''invalid transfer signature'')
     else Inr ()))"

definition check_checkpoint_claim :: "platform \<Rightarrow> json \<Rightarrow> string \<Rightarrow> spend_claim \<Rightarrow> unit res" where
  "check_checkpoint_claim P checkpoint h claim =
     (if jget checkpoint ''token_id'' \<noteq> Some (JStr (sc_token_id claim))
      then Inl (InclusionProofError ''checkpoint spend proof bill id mismatch'')
      else bindE (int_at checkpoint ''sequence'') (\<lambda>sequence.
      if sc_sequence claim \<noteq> sequence then Inl (InclusionProofError ''checkpoint spend proof sequence mismatch'')
      else case sc_transfer claim of
        None \<Rightarrow> Inl (InclusionProofError ''checkpoint spend proof is missing the settled transfer body'')
      | Some t \<Rightarrow>
          bindE (or_raise (legacy_verify_transfer_signature P t)
            (\<lambda>_. InclusionProofError ''checkpoint spend proof transfer signature is invalid'')) (\<lambda>_.
          bindE (message_hash P (transfer_json t)) (\<lambda>h'.
          if h' \<noteq> h then Inl (InclusionProofError ''checkpoint spend proof transfer hash mismatch'')
          else if jget checkpoint ''owner_address'' \<noteq> Some (JStr (tr_recipient_address t))
          then Inl (InclusionProofError ''checkpoint spend proof owner mismatch'')
          else bindE (int_at checkpoint ''last_transfer_timestamp'') (\<lambda>timestamp.
          if tr_timestamp t \<noteq> timestamp
          then Inl (InclusionProofError ''checkpoint spend proof timestamp mismatch'') else Inr ())))))"

definition verify_spend_map_proof_for_checkpoint ::
    "platform \<Rightarrow> transparency \<Rightarrow> json \<Rightarrow> json \<Rightarrow> json \<Rightarrow> string option \<Rightarrow> spend_verdict res" where
  "verify_spend_map_proof_for_checkpoint P T checkpoint proof signed_root operator_public_key =
     bindE (verify_signed_root P T signed_root operator_public_key) (\<lambda>_.
     bindE (verify_spend_map_proof P T proof signed_root) (\<lambda>claims.
     bindE (jat checkpoint ''last_transfer_hash'') (\<lambda>l. let h = lower (py_str l) in
     case find (\<lambda>c. sc_transfer_hash c = h) claims of
       None \<Rightarrow> Inl (InclusionProofError ''checkpoint spend proof does not contain its settled transfer'')
     | Some claim \<Rightarrow>
         bindE (check_checkpoint_claim P checkpoint h claim) (\<lambda>_.
         judge_conflicts P T signed_root proof h claim claims
           ''checkpoint spend proof contains an unverifiable conflicting sibling claim''))))"

section \<open>What the evidence shows\<close>

lemma checked_claims:
  assumes "foldE (check_claim_in_root root k n) seen cs = Inr seen'"
  shows "distinct (map sc_transfer_hash cs) \<and> seen \<inter> sc_transfer_hash ` set cs = {}
    \<and> (\<forall>c \<in> set cs. jget root ''log_id'' = Some (JStr (sc_log_id c)) \<and> sc_spend_key c = k \<and> sc_transfer_leaf_index c < n)"
  using assms
proof (induction cs arbitrary: seen)
  case (Cons c cs)
  then obtain seen1 where "check_claim_in_root root k n seen c = Inr seen1"
    "foldE (check_claim_in_root root k n) seen1 cs = Inr seen'" by (auto simp: bindE_Inr_iff)
  moreover from this(1) have "jget root ''log_id'' = Some (JStr (sc_log_id c))" "sc_spend_key c = k"
    "sc_transfer_leaf_index c < n" "sc_transfer_hash c \<notin> seen" "seen1 = insert (sc_transfer_hash c) seen"
    by (simp_all add: check_claim_in_root_def split: if_splits)
  ultimately show ?case using Cons.IH [of seen1] by auto
qed simp

lemma spend_proof_claims:
  assumes "verify_spend_map_proof P T proof root = Inr cs"
  shows "cs \<noteq> []" and "distinct (map sc_transfer_hash cs)"
    and "\<exists>k. \<forall>c \<in> set cs. sc_spend_key c = k"
    and "c \<in> set cs \<Longrightarrow> claim_normal P c \<and> jget root ''log_id'' = Some (JStr (sc_log_id c))"
proof -
  from assms obtain q where q: "check_spend_map_proof P q root = Inr cs"
    by (auto simp: verify_spend_map_proof_def bindE_Inr_iff)
  then obtain n claims seen where *: "smp_spend_claims q \<noteq> []"
    "mapE (normalize_spend_claim P) (smp_spend_claims q) = Inr claims"
    "foldE (check_claim_in_root root (smp_spend_key q) n) {} claims = Inr seen" "cs = sort_key spend_claim_sort_key claims"
    unfolding check_spend_map_proof_def bindE_Inr_iff if_Inl_Inr_iff by blast
  note c = checked_claims [OF *(3)]
  have "length claims = length (smp_spend_claims q)" by (rule mapE_length [OF *(2)])
  with *(1,4) show "cs \<noteq> []" by (metis length_0_conv length_sort)
  show "distinct (map sc_transfer_hash cs)" using c by (simp add: *(4) distinct_map)
  show "\<exists>k. \<forall>c \<in> set cs. sc_spend_key c = k" using c by (auto simp: *(4))
  assume "c \<in> set cs"
  then have "c \<in> set claims" by (simp add: *(4))
  moreover from this *(2) obtain j where "normalize_spend_claim P j = Inr c"
    by (auto simp: mapE_Inr_iff list_all2_conv_all_nth in_set_conv_nth)
  ultimately show "claim_normal P c \<and> jget root ''log_id'' = Some (JStr (sc_log_id c))"
    using c normalize_claim_normal by blast
qed

text \<open>A transfer that its owner signed, with its hash and spend key.\<close>

definition signed_transfer :: "platform \<Rightarrow> transfer \<Rightarrow> string \<Rightarrow> string \<Rightarrow> bool" where
  "signed_transfer P t h k =
     (validate_transfer_shape P t (tr_network_id t) True None = Inr () \<and> verify_transfer_signature P t = Inr True
      \<and> transfer_hash P t = Inr h \<and> spend_key_for_transfer P t = Inr k)"

lemma verified_claim_signed:
  assumes "verified_claim_transfer P (transfer_json t) = Inr (t, h, k)"
  shows "signed_transfer P t h k"
proof -
  from assms obtain ok where "validate_transfer_shape P t (tr_network_id t) True None = Inr ()"
    "verify_transfer_signature P t = Inr ok" "transfer_hash P t = Inr h" "spend_key_for_transfer P t = Inr k"
    unfolding verified_claim_transfer_def or_raise_Inr_iff
    by (auto simp: bindE_Inr_iff split: if_splits)
  moreover from this(2) have ok by (auto simp: verify_transfer_signature_def bindE_Inr_iff split: if_splits option.splits)
  ultimately show ?thesis by (simp add: signed_transfer_def)
qed

text \<open>The abstract crime: two different signed transfers of one state of one bill.\<close>

definition double_spend :: "platform \<Rightarrow> transfer \<Rightarrow> transfer \<Rightarrow> bool" where
  "double_spend P t u =
     (\<exists>h h' k. signed_transfer P t h k \<and> signed_transfer P u h' k \<and> h \<noteq> h'
       \<and> tr_token_id t = tr_token_id u \<and> tr_previous_hash t = tr_previous_hash u \<and> tr_sequence t = tr_sequence u
       \<and> tr_sender_address t = tr_sender_address u \<and> tr_sender_public_key t = tr_sender_public_key u)"

lemma check_conflicting_claims_Inr_iff:
  "check_conflicting_claims cs = Inr () \<longleftrightarrow> 2 \<le> card (sc_transfer_hash ` set cs) \<and> (\<forall>c \<in> set cs. sc_transfer c \<noteq> None)
     \<and> card (sc_spend_key ` set cs) = 1 \<and> (\<forall>c \<in> set (tl cs). sibling_fields c = sibling_fields (hd cs))"
  unfolding check_conflicting_claims_def if_Inl_Inr_iff by (auto simp: list_all_iff not_less)

text \<open>Two claims of one verified slot: with bodies and equal fields they are a double spend.\<close>

lemma claims_double_spend:
  assumes "verify_spend_map_proof P T proof root = Inr cs" and cd: "c \<in> set cs" "d \<in> set cs"
    and "sc_transfer_hash c \<noteq> sc_transfer_hash d" and tu: "sc_transfer c = Some t" "sc_transfer d = Some u"
  shows "double_spend P t u \<longleftrightarrow> sibling_fields c = sibling_fields d"
proof -
  have n: "claim_normal P c" "claim_normal P d" using spend_proof_claims(4) [OF assms(1)] cd by blast+
  have k: "sc_spend_key c = sc_spend_key d" using spend_proof_claims(3) [OF assms(1)] cd by metis
  have "signed_transfer P t (sc_transfer_hash c) (sc_spend_key c)" "signed_transfer P u (sc_transfer_hash d) (sc_spend_key c)"
    using n tu k by (auto simp: claim_normal_def intro: verified_claim_signed)
  moreover have "sibling_fields c = (tr_token_id t, tr_previous_hash t, tr_sequence t, tr_sender_address t, tr_sender_public_key t)"
    "sibling_fields d = (tr_token_id u, tr_previous_hash u, tr_sequence u, tr_sender_address u, tr_sender_public_key u)"
    using n tu by (simp_all add: claim_normal_def sibling_fields_def)
  ultimately show ?thesis using assms(4) unfolding double_spend_def by auto
qed

text \<open>
  What the checks on the claims amount to: there are two or more, all with bodies, and every two of
  the transfers are a double spend.
\<close>

lemma conflicting_claims_iff:
  assumes v: "verify_spend_map_proof P T proof root = Inr cs"
  shows "check_conflicting_claims cs = Inr () \<longleftrightarrow>
    (\<exists>ts. map sc_transfer cs = map Some ts \<and> 2 \<le> length ts \<and> sorted_wrt (double_spend P) ts)"
proof -
  note d = spend_proof_claims(2) [OF v]
  then have hashes: "card (sc_transfer_hash ` set cs) = length cs" by (metis distinct_card length_map set_map)
  obtain k where "\<forall>c \<in> set cs. sc_spend_key c = k" using spend_proof_claims(3) [OF v] by blast
  then have "sc_spend_key ` set cs = {k}" using spend_proof_claims(1) [OF v] by (cases cs) auto
  then have keys: "card (sc_spend_key ` set cs) = 1" by simp
  have ds: "double_spend P (ts ! i) (ts ! j) \<longleftrightarrow> sibling_fields (cs ! i) = sibling_fields (cs ! j)"
    if "map sc_transfer cs = map Some ts" "i < j" "j < length cs" for ts i j
  proof (rule claims_double_spend [OF v])
    show "sc_transfer_hash (cs ! i) \<noteq> sc_transfer_hash (cs ! j)"
      using d that(2,3) by (auto simp: distinct_conv_nth)
    show "sc_transfer (cs ! i) = Some (ts ! i)" "sc_transfer (cs ! j) = Some (ts ! j)"
      using that map_eq_imp_length_eq [OF that(1)] by (metis less_trans nth_map)+
  qed (use that in simp_all)
  have sib: "sorted_wrt (double_spend P) ts \<longleftrightarrow> (\<forall>c \<in> set (tl cs). sibling_fields c = sibling_fields (hd cs))"
    if m: "map sc_transfer cs = map Some ts" for ts
  proof -
    have l: "length ts = length cs" using map_eq_imp_length_eq [OF m] by simp
    have "sorted_wrt (double_spend P) ts \<longleftrightarrow>
        (\<forall>i j. i < j \<longrightarrow> j < length cs \<longrightarrow> sibling_fields (cs ! i) = sibling_fields (cs ! j))"
      unfolding sorted_wrt_iff_nth_less l using ds [OF m] by blast
    also have "\<dots> \<longleftrightarrow> (\<forall>j. 0 < j \<longrightarrow> j < length cs \<longrightarrow> sibling_fields (cs ! j) = sibling_fields (cs ! 0))"
      (is "?two \<longleftrightarrow> ?first")
    proof
      assume ?two
      then show ?first by (metis (no_types))
    next
      assume f: ?first
      then have "sibling_fields (cs ! j) = sibling_fields (cs ! 0)" if "j < length cs" for j
        using that by (cases "j = 0") simp_all
      then show ?two by (metis less_trans)
    qed
    also have "\<dots> \<longleftrightarrow> (\<forall>c \<in> set (tl cs). sibling_fields c = sibling_fields (hd cs))"
      by (cases cs) (auto simp: all_set_conv_all_nth gr0_conv_Suc)
    finally show ?thesis .
  qed
  have bodies: "(\<forall>c \<in> set cs. sc_transfer c \<noteq> None) \<longleftrightarrow> (\<exists>ts. map sc_transfer cs = map Some ts)"
  proof
    assume "\<forall>c \<in> set cs. sc_transfer c \<noteq> None"
    then show "\<exists>ts. map sc_transfer cs = map Some ts" by (intro exI [of _ "map (the \<circ> sc_transfer) cs"]) auto
  next
    assume "\<exists>ts. map sc_transfer cs = map Some ts"
    then obtain ts where "map sc_transfer cs = map Some ts" by blast
    from arg_cong [OF this, of set] have "sc_transfer ` set cs = Some ` set ts" by simp
    then show "\<forall>c \<in> set cs. sc_transfer c \<noteq> None" by (metis image_iff option.distinct(1))
  qed
  have "2 \<le> length cs \<and> (\<forall>c \<in> set (tl cs). sibling_fields c = sibling_fields (hd cs))
      \<longleftrightarrow> 2 \<le> length ts \<and> sorted_wrt (double_spend P) ts" if "map sc_transfer cs = map Some ts" for ts
    using sib [OF that] map_eq_imp_length_eq [OF that] by simp
  then show ?thesis unfolding check_conflicting_claims_Inr_iff hashes keys bodies by blast
qed

lemma verify_violation_Inr_iff:
  "verify_operator_policy_violation_proof P T proof pin = Inr p \<longleftrightarrow> p = proof
     \<and> is_dict proof \<and> set (dict_keys proof) = set VIOLATION_FIELDS
     \<and> jget proof ''type'' = Some (JStr LOG_OPERATOR_POLICY_VIOLATION_TYPE) \<and> jget proof ''version'' = Some (JInt LOG_VERSION)
     \<and> jget proof ''violation_type'' = Some (JStr ''accepted_conflicting_spend'')
     \<and> (\<exists>d. jget proof ''detected_at'' = Some (JInt d) \<and> 0 \<le> d)
     \<and> (\<exists>root. jget proof ''root'' = Some root \<and> verify_signed_root P T root pin = Inr ()
          \<and> jget proof ''log_id'' = jget root ''log_id''
          \<and> (\<exists>sp cs. jget proof ''spend_proof'' = Some sp \<and> verify_spend_map_proof P T sp root = Inr cs
               \<and> check_conflicting_claims cs = Inr ()))"
  unfolding verify_operator_policy_violation_proof_def bindE_Inr_iff if_Inl_Inr_iff require_exact_keys_Inr_iff
    jat_Inr_iff require_int_for_Inr_iff
  by auto

lemma made_violation_verifies:
  assumes "make_operator_policy_violation_proof P T root sp v d = Inr e"
  shows "verify_operator_policy_violation_proof P T e None = Inr e"
proof -
  from assms obtain j where "verify_operator_policy_violation_proof P T j None = Inr e"
    unfolding make_operator_policy_violation_proof_def bindE_Inr_iff by blast
  moreover from this have "e = j" by (simp add: verify_violation_Inr_iff)
  ultimately show ?thesis by simp
qed

lemma judge_conflicts_Inr:
  assumes "judge_conflicts P T root proof h claim cs msg = Inr v"
  shows "v = Settled \<and> (\<forall>c \<in> set cs. sc_transfer_hash c = h)
    \<or> (\<exists>e. v = Violation e \<and> verify_operator_policy_violation_proof P T e None = Inr e
         \<and> (\<exists>c \<in> set cs. sc_transfer_hash c \<noteq> h))"
proof (cases "filter (\<lambda>c. sc_transfer_hash c \<noteq> h) cs = []")
  case True
  with assms show ?thesis by (simp add: judge_conflicts_def Let_def filter_empty_conv)
next
  case False
  with assms obtain e where "make_operator_policy_violation_proof P T root proof ''accepted_conflicting_spend'' None = Inr e"
    "v = Violation e" by (auto simp: judge_conflicts_def Let_def bindE_Inr_iff split: if_splits)
  moreover from False have "\<exists>c \<in> set cs. sc_transfer_hash c \<noteq> h" by (auto simp: filter_empty_conv)
  ultimately show ?thesis using made_violation_verifies by blast
qed

lemma check_transfer_claim_Inr_iff:
  "check_transfer_claim t k h c = Inr () \<longleftrightarrow> sc_spend_key c = k \<and> sc_transfer_hash c = h
     \<and> sibling_fields c = (tr_token_id t, tr_previous_hash t, tr_sequence t, tr_sender_address t, tr_sender_public_key t)"
  unfolding check_transfer_claim_def if_Inl_Inr_iff by (auto simp: sibling_fields_def)

lemma settled_transfer:
  assumes "verify_spend_map_proof_for_transfer P T t proof root pin = Inr v"
  shows "\<exists>cs k h. verify_spend_map_proof P T proof root = Inr cs \<and> spend_key_for_transfer P t = Inr k
    \<and> expected_transfer_hash P t = Inr h \<and> verify_signed_root P T root pin = Inr ()
    \<and> (\<exists>c \<in> set cs. check_transfer_claim t k h c = Inr ())
    \<and> (v = Settled \<and> (\<forall>c \<in> set cs. sc_transfer_hash c = h)
       \<or> (\<exists>e. v = Violation e \<and> verify_operator_policy_violation_proof P T e None = Inr e
           \<and> (\<exists>c \<in> set cs. sc_transfer_hash c \<noteq> h)))"
proof -
  from assms obtain cs k h c where *: "verify_signed_root P T root pin = Inr ()" "verify_spend_map_proof P T proof root = Inr cs"
    "spend_key_for_transfer P t = Inr k" "expected_transfer_hash P t = Inr h"
    "find (\<lambda>c. sc_transfer_hash c = h) cs = Some c" "check_transfer_claim t k h c = Inr ()"
    "judge_conflicts P T root proof h c cs ''spend proof contains an unverifiable conflicting sibling claim'' = Inr v"
    unfolding verify_spend_map_proof_for_transfer_def bindE_Inr_iff
    by (auto simp: bindE_Inr_iff split: option.splits)
  from *(5) have "c \<in> set cs" by (auto simp: find_Some_iff)
  with * judge_conflicts_Inr [OF *(7)] show ?thesis by blast
qed

text \<open>The legacy signature check accepts nothing, so no checkpoint passes.\<close>

lemma legacy_signature_rejects: "legacy_verify_transfer_signature P t \<noteq> Inr u"
  by (auto simp: legacy_verify_transfer_signature_def bindE_Inr_iff b85_verify_def split: if_splits)

lemma checkpoint_check_rejects: "verify_spend_map_proof_for_checkpoint P T c proof root pin \<noteq> Inr v"
proof
  assume "verify_spend_map_proof_for_checkpoint P T c proof root pin = Inr v"
  then obtain h claim u where "check_checkpoint_claim P c h claim = Inr u"
    unfolding verify_spend_map_proof_for_checkpoint_def bindE_Inr_iff Let_def
    by (auto simp: bindE_Inr_iff split: option.splits)
  then show False
    unfolding check_checkpoint_claim_def
    by (auto simp: bindE_Inr_iff or_raise_Inr_iff legacy_signature_rejects split: if_splits option.splits)
qed

end
