(* ===== verification/ObservedRoots.thy ===== *)
theory ObservedRoots
  imports KeyRotation PolicyViolation CompressedSpendMap
begin

text \<open>
  The in-memory store of observed roots of \<open>src/ind/transparency_client.py\<close> (\<open>InMemoryObservedRootStore\<close>): roots
  seen at mirrors, roots that peers announced, operator keys and their succession, evidence against
  operators, and each operator's status. A method that can raise does so before it changes the store, so
  it returns the new store or the error.

  Its callers pass it roots and records that they have verified. Their sizes, times and names are therefore
  of the right type, and \<open>root_size\<close>, \<open>root_time\<close> and \<open>root_log\<close> read them; the value they give for another
  type is never used. The theory of the verifier's runs shows that every root of a reachable store is a
  verified one.
\<close>

definition root_int :: "json \<Rightarrow> string \<Rightarrow> int" where
  "root_int r k = (case jget r k of Some (JInt i) \<Rightarrow> i | _ \<Rightarrow> 0)"

definition root_text :: "json \<Rightarrow> string \<Rightarrow> string" where
  "root_text r k = (case jget r k of Some (JStr s) \<Rightarrow> s | _ \<Rightarrow> [])"

abbreviation root_size :: "json \<Rightarrow> int" where "root_size r \<equiv> root_int r ''tree_size''"
abbreviation root_time :: "json \<Rightarrow> int" where "root_time r \<equiv> root_int r ''timestamp''"
abbreviation root_log :: "json \<Rightarrow> string" where "root_log r \<equiv> root_text r ''log_id''"
abbreviation root_key :: "json \<Rightarrow> string" where "root_key r \<equiv> root_text r ''operator_public_key''"

section \<open>State\<close>

text \<open>A source identity is a pair of texts or one text.\<close>

datatype source_identity = IdPair string string | IdText string

fun identity_text :: "source_identity \<Rightarrow> string" where
  "identity_text (IdPair a b) = a @ '' '' @ b"
| "identity_text (IdText t) = t"

record observed_item =
  oi_key :: "string \<times> int \<times> json \<times> string"
  oi_root :: json
  oi_source :: string
  oi_observed_at :: int
  oi_checked_at :: "int option"

record peer_item =
  pi_key :: "string \<times> string"
  pi_root_id :: string
  pi_root :: json
  pi_peer_id :: string
  pi_message_hash :: string
  pi_received_at :: int

datatype operator_state = Active | Unresponsive | Blacklisted

record operator_status =
  os_log_id :: string
  os_operator_public_key :: string
  os_status :: operator_state
  os_reason :: "string option"
  os_evidence_id :: "string option"
  os_updated_at :: int
  os_last_success :: "int option"

record observed_store =
  ob_roots :: "observed_item list"
  ob_peer_roots :: "peer_item list"
  ob_statuses :: "string \<Rightarrow> operator_status option"
  ob_failures :: "(string \<times> json) list"
  ob_equivocations :: "(string \<times> json) list"
  ob_policy_violations :: "(string \<times> json) list"
  ob_key_rotations :: "(string \<times> json \<times> int) list"
  ob_key_revocations :: "(string \<times> json \<times> int) list"

definition empty_store :: observed_store where
  "empty_store = \<lparr>ob_roots = [], ob_peer_roots = [], ob_statuses = (\<lambda>_. None), ob_failures = [],
     ob_equivocations = [], ob_policy_violations = [], ob_key_rotations = [], ob_key_revocations = []\<rparr>"

section \<open>Observed roots\<close>

definition observed_key :: "json \<Rightarrow> string \<Rightarrow> (string \<times> int \<times> json \<times> string) res" where
  "observed_key root source = bindE (str_at root ''log_id'') (\<lambda>l. bindE (int_at root ''tree_size'') (\<lambda>n.
     bindE (jat root ''root_hash'') (\<lambda>h. Inr (l, n, h, source))))"

text \<open>A known key only refreshes the first item that has it.\<close>

fun refresh_item :: "string \<times> int \<times> json \<times> string \<Rightarrow> int option \<Rightarrow> observed_item list \<Rightarrow> observed_item list option" where
  "refresh_item key checked [] = None"
| "refresh_item key checked (x # xs) =
     (if oi_key x = key
      then Some ((case checked of None \<Rightarrow> x | Some t \<Rightarrow> x\<lparr>oi_checked_at := Some t\<rparr>) # xs)
      else map_option ((#) x) (refresh_item key checked xs))"

definition record_root ::
    "platform \<Rightarrow> observed_store \<Rightarrow> json \<Rightarrow> source_identity \<Rightarrow> int option \<Rightarrow> int option \<Rightarrow> observed_store res" where
  "record_root P st root source observed_at checked_at =
     (let s = identity_text source in
      bindE (observed_key root s) (\<lambda>key.
      case refresh_item key checked_at (ob_roots st) of
        Some xs \<Rightarrow> Inr (st\<lparr>ob_roots := xs\<rparr>)
      | None \<Rightarrow> Inr (st\<lparr>ob_roots := ob_roots st @ [\<lparr>oi_key = key, oi_root = root, oi_source = s,
          oi_observed_at = time_or_now P observed_at, oi_checked_at = checked_at\<rparr>]\<rparr>)))"

definition observed_of :: "observed_store \<Rightarrow> string \<Rightarrow> json list" where
  "observed_of st log_id = filter (\<lambda>r. root_log r = log_id) (map oi_root (ob_roots st))"

definition peer_roots_of :: "observed_store \<Rightarrow> string \<Rightarrow> json list" where
  "peer_roots_of st log_id = filter (\<lambda>r. root_log r = log_id) (map pi_root (ob_peer_roots st))"

definition latest_root :: "observed_store \<Rightarrow> string \<Rightarrow> json option" where
  "latest_root st log_id = (case observed_of st log_id of [] \<Rightarrow> None
     | rs \<Rightarrow> Some (last (sort_key (\<lambda>r. (root_size r, root_time r)) rs)))"

text \<open>The highest tree size and the latest timestamp, each on its own.\<close>

definition observed_position :: "observed_store \<Rightarrow> string \<Rightarrow> (int \<times> int) option" where
  "observed_position st log_id = (case observed_of st log_id of [] \<Rightarrow> None
     | r # rs \<Rightarrow> Some (foldl max (root_size r) (map root_size rs), foldl max (root_time r) (map root_time rs)))"

definition known_log_ids :: "observed_store \<Rightarrow> string list" where
  "known_log_ids st = sort (remdups (map (root_log \<circ> oi_root) (ob_roots st) @ map (root_log \<circ> pi_root) (ob_peer_roots st)))"

definition roots_for_log :: "platform \<Rightarrow> observed_store \<Rightarrow> string \<Rightarrow> json list res" where
  "roots_for_log P st log_id =
     bindE (mapE (\<lambda>r. bindE (signed_root_id P r) (\<lambda>i. Inr (i, r))) (observed_of st log_id @ peer_roots_of st log_id))
       (\<lambda>pairs. Inr (map snd (dict_of_pairs pairs)))"

fun first_collision :: "platform \<Rightarrow> string \<Rightarrow> json \<Rightarrow> json list \<Rightarrow> (string \<times> json) option res" where
  "first_collision P root_id root [] = Inr None"
| "first_collision P root_id root (p # ps) = bindE (signed_root_id P p) (\<lambda>i.
     if i = root_id then first_collision P root_id root ps
     else bindE (equivocation_collision_type P p root) (\<lambda>c. case c of
       None \<Rightarrow> first_collision P root_id root ps
     | Some ct \<Rightarrow> Inr (Some (ct, p))))"

text \<open>The collision type and the earlier root, when there is one.\<close>

definition find_equivocation :: "platform \<Rightarrow> observed_store \<Rightarrow> json \<Rightarrow> (string \<times> json) option res" where
  "find_equivocation P st root =
     bindE (signed_root_id P root) (\<lambda>root_id.
     bindE (str_at root ''log_id'') (\<lambda>log_id.
     bindE (roots_for_log P st log_id) (\<lambda>previous. first_collision P root_id root previous)))"

section \<open>Operator keys\<close>

abbreviation effective_size :: "json \<Rightarrow> int" where "effective_size r \<equiv> root_int r ''effective_from_tree_size''"

definition rotations_of :: "observed_store \<Rightarrow> string \<Rightarrow> json list" where
  "rotations_of st log_id = filter (\<lambda>r. root_log r = log_id) (map (fst \<circ> snd) (ob_key_rotations st))"

definition latest_rotation :: "observed_store \<Rightarrow> string \<Rightarrow> json option" where
  "latest_rotation st log_id = foldl (\<lambda>latest r. case latest of
       None \<Rightarrow> Some r | Some l \<Rightarrow> if effective_size r > effective_size l then Some r else Some l)
     None (rotations_of st log_id)"

definition record_key_rotation ::
    "platform \<Rightarrow> observed_store \<Rightarrow> json \<Rightarrow> int option \<Rightarrow> (string \<times> observed_store) res" where
  "record_key_rotation P st rotation observed_at =
     bindE (verify_key_rotation P rotation None None None) (\<lambda>_.
     bindE (key_rotation_id P rotation) (\<lambda>h.
     if map_of (ob_key_rotations st) h \<noteq> None then Inr (h, st)
     else if (case latest_rotation st (root_log rotation) of None \<Rightarrow> False
              | Some l \<Rightarrow> effective_size rotation \<le> effective_size l)
     then Inl (KeyRotationError ''operator key rotation records must be strictly monotonic in effective_from_tree_size'')
     else Inr (h, st\<lparr>ob_key_rotations := ob_key_rotations st @ [(h, rotation, time_or_now P observed_at)]\<rparr>)))"

definition key_rotation_by_hash :: "observed_store \<Rightarrow> string \<Rightarrow> json option" where
  "key_rotation_by_hash st h = map_option fst (map_of (ob_key_rotations st) h)"

definition key_rotations_for_log :: "observed_store \<Rightarrow> string \<Rightarrow> json list" where
  "key_rotations_for_log st log_id = sort_key effective_size (rotations_of st log_id)"

definition key_rotation_for_successor_log_id :: "observed_store \<Rightarrow> string \<Rightarrow> json option" where
  "key_rotation_for_successor_log_id st new_log_id =
     (case filter (\<lambda>r. root_text r ''new_log_id'' = new_log_id) (map (fst \<circ> snd) (ob_key_rotations st)) of
        [] \<Rightarrow> None | rs \<Rightarrow> Some (last (sort_key effective_size rs)))"

definition record_key_revocation ::
    "platform \<Rightarrow> observed_store \<Rightarrow> json \<Rightarrow> int option \<Rightarrow> (string \<times> observed_store) res" where
  "record_key_revocation P st revocation observed_at =
     (if unhashable (jget revocation ''rotation_record_hash'') then Inl (PyTypeError ''unhashable type'')
      else case (case jget revocation ''rotation_record_hash'' of
              Some (JStr h) \<Rightarrow> key_rotation_by_hash st h | _ \<Rightarrow> None) of
        None \<Rightarrow> Inl (KeyRevocationError ''operator key revocation references an unknown rotation record'')
      | Some rotation \<Rightarrow>
          bindE (verify_key_revocation P revocation (Some rotation)) (\<lambda>_.
          bindE (key_revocation_id P revocation) (\<lambda>h.
          Inr (h, st\<lparr>ob_key_revocations := AList.update h (revocation, time_or_now P observed_at) (ob_key_revocations st)\<rparr>))))"

definition key_revocation_for_key :: "observed_store \<Rightarrow> string \<Rightarrow> string \<Rightarrow> json option" where
  "key_revocation_for_key st log_id public_key =
     (case filter (\<lambda>r. root_log r = log_id \<and> root_text r ''revoked_public_key'' = public_key)
            (map (fst \<circ> snd) (ob_key_revocations st)) of
        [] \<Rightarrow> None | rs \<Rightarrow> Some (last (sort_key (\<lambda>r. root_int r ''revocation_timestamp'') rs)))"

section \<open>Status of an operator\<close>

definition mark_active :: "platform \<Rightarrow> observed_store \<Rightarrow> string \<Rightarrow> string \<Rightarrow> int option \<Rightarrow> observed_store" where
  "mark_active P st log_id key checked_at = (let t = time_or_now P checked_at in
     st\<lparr>ob_statuses := (ob_statuses st)(log_id \<mapsto> \<lparr>os_log_id = log_id, os_operator_public_key = key, os_status = Active,
       os_reason = None, os_evidence_id = None, os_updated_at = t, os_last_success = Some t\<rparr>)\<rparr>)"

definition mark_unresponsive ::
    "platform \<Rightarrow> observed_store \<Rightarrow> string \<Rightarrow> string \<Rightarrow> string \<Rightarrow> int option \<Rightarrow> observed_store" where
  "mark_unresponsive P st log_id key reason updated_at =
     (case ob_statuses st log_id of
        Some current \<Rightarrow>
          if os_status current = Blacklisted then st
          else st\<lparr>ob_statuses := (ob_statuses st)(log_id \<mapsto> \<lparr>os_log_id = log_id, os_operator_public_key = key,
            os_status = Unresponsive, os_reason = Some reason, os_evidence_id = None,
            os_updated_at = time_or_now P updated_at, os_last_success = os_last_success current\<rparr>)\<rparr>
      | None \<Rightarrow> st\<lparr>ob_statuses := (ob_statuses st)(log_id \<mapsto> \<lparr>os_log_id = log_id, os_operator_public_key = key,
            os_status = Unresponsive, os_reason = Some reason, os_evidence_id = None,
            os_updated_at = time_or_now P updated_at, os_last_success = None\<rparr>)\<rparr>)"

definition mark_blacklisted ::
    "platform \<Rightarrow> observed_store \<Rightarrow> string \<Rightarrow> string \<Rightarrow> string \<Rightarrow> string \<Rightarrow> int option \<Rightarrow> observed_store" where
  "mark_blacklisted P st log_id key reason evidence_id updated_at =
     st\<lparr>ob_statuses := (ob_statuses st)(log_id \<mapsto> \<lparr>os_log_id = log_id, os_operator_public_key = key,
       os_status = Blacklisted, os_reason = Some reason, os_evidence_id = Some evidence_id,
       os_updated_at = time_or_now P updated_at, os_last_success = None\<rparr>)\<rparr>"

definition blacklisted :: "observed_store \<Rightarrow> string \<Rightarrow> bool" where
  "blacklisted st log_id = (case ob_statuses st log_id of Some s \<Rightarrow> os_status s = Blacklisted | None \<Rightarrow> False)"

section \<open>Evidence\<close>

definition save_consistency_failure ::
    "platform \<Rightarrow> observed_store \<Rightarrow> json \<Rightarrow> json \<Rightarrow> string \<Rightarrow> int option \<Rightarrow> (string \<times> observed_store) res" where
  "save_consistency_failure P st old_root new_root error detected_at =
     bindE (jat old_root ''log_id'') (\<lambda>log_id.
     let evidence = JDict [(''type'', JStr ''ind.transparency_consistency_failure.v3''), (''version'', JInt 1),
       (''log_id'', log_id), (''old_root'', old_root), (''new_root'', new_root), (''error'', JStr error),
       (''detected_at'', JInt (time_or_now P detected_at))] in
     bindE (message_hash P evidence) (\<lambda>i.
     Inr (i, st\<lparr>ob_failures := AList.update i evidence (ob_failures st)\<rparr>)))"

definition save_equivocation_evidence ::
    "platform \<Rightarrow> transparency \<Rightarrow> observed_store \<Rightarrow> json \<Rightarrow> json \<Rightarrow> string \<Rightarrow> int option \<Rightarrow> ((string \<times> json) \<times> observed_store) res" where
  "save_equivocation_evidence P T st root_a root_b collision_type detected_at =
     bindE (make_equivocation_proof P T root_a root_b (Some collision_type) (Some (time_or_now P detected_at))) (\<lambda>proof.
     bindE (message_hash P proof) (\<lambda>i.
     Inr ((i, proof), st\<lparr>ob_equivocations := AList.update i proof (ob_equivocations st)\<rparr>)))"

definition save_operator_policy_violation ::
    "platform \<Rightarrow> transparency \<Rightarrow> observed_store \<Rightarrow> json \<Rightarrow> ((string \<times> json) \<times> observed_store) res" where
  "save_operator_policy_violation P T st proof =
     bindE (verify_operator_policy_violation_proof P T proof None) (\<lambda>p.
     bindE (message_hash P p) (\<lambda>i.
     Inr ((i, p), st\<lparr>ob_policy_violations := AList.update i p (ob_policy_violations st)\<rparr>)))"

text \<open>\<open>sorted(items, key=..., reverse=True)[:limit]\<close>: a stable sort, newest first. A negative limit counts from the end.\<close>

definition py_take :: "int \<Rightarrow> 'a list \<Rightarrow> 'a list" where
  "py_take n xs = (if 0 \<le> n then take (nat n) xs else take (nat (int (length xs) + n)) xs)"

definition newest_first :: "(string \<times> json) list \<Rightarrow> int \<Rightarrow> json list" where
  "newest_first items limit = py_take limit (sort_key (\<lambda>p. - root_int p ''detected_at'') (map snd items))"

definition equivocation_messages :: "observed_store \<Rightarrow> int \<Rightarrow> json list" where
  "equivocation_messages st limit = newest_first (ob_equivocations st) limit"

definition operator_policy_violation_messages :: "observed_store \<Rightarrow> int \<Rightarrow> json list" where
  "operator_policy_violation_messages st limit = newest_first (ob_policy_violations st) limit"

section \<open>Roots from peers\<close>

text \<open>Roots that stored evidence refers to are never pruned.\<close>

definition evidence_bound :: "platform \<Rightarrow> observed_store \<Rightarrow> string list res" where
  "evidence_bound P st =
     bindE (mapE (\<lambda>(_, p). bindE (jat p ''root_a'') (\<lambda>a. bindE (signed_root_id P a) (\<lambda>i.
       bindE (jat p ''root_b'') (\<lambda>b. bindE (signed_root_id P b) (\<lambda>j. Inr [i, j]))))) (ob_equivocations st))
     (\<lambda>ids. Inr (concat ids))"

text \<open>
  Both pruning methods: among the items that match, the oldest beyond the limit go, evidence excepted. A
  limit of zero or less is no limit.
\<close>

definition prune_keys :: "string list \<Rightarrow> peer_item list \<Rightarrow> nat \<Rightarrow> (string \<times> string) list" where
  "prune_keys bound matching overflow =
     map pi_key (take overflow (sort_key (\<lambda>x. (pi_received_at x, pi_root_id x))
       (filter (\<lambda>x. pi_root_id x \<notin> set bound) matching)))"

definition prune_matching :: "platform \<Rightarrow> observed_store \<Rightarrow> (peer_item \<Rightarrow> bool) \<Rightarrow> int \<Rightarrow> observed_store res" where
  "prune_matching P st match limit =
     (if limit \<le> 0 then Inr st
      else bindE (evidence_bound P st) (\<lambda>bound.
        let matching = filter match (ob_peer_roots st); overflow = int (length matching) - limit in
        if overflow \<le> 0 then Inr st
        else let gone = prune_keys bound matching (nat overflow) in
          Inr (st\<lparr>ob_peer_roots := filter (\<lambda>x. pi_key x \<notin> set gone) (ob_peer_roots st)\<rparr>)))"

definition prune_peer_roots :: "platform \<Rightarrow> observed_store \<Rightarrow> string \<Rightarrow> string \<Rightarrow> int \<Rightarrow> observed_store res" where
  "prune_peer_roots P st peer_id log_id limit =
     prune_matching P st (\<lambda>x. pi_peer_id x = peer_id \<and> root_log (pi_root x) = log_id) limit"

definition prune_peer_roots_for_log :: "platform \<Rightarrow> observed_store \<Rightarrow> string \<Rightarrow> int \<Rightarrow> observed_store res" where
  "prune_peer_roots_for_log P st log_id limit = prune_matching P st (\<lambda>x. root_log (pi_root x) = log_id) limit"

definition record_peer_root ::
    "platform \<Rightarrow> observed_store \<Rightarrow> json \<Rightarrow> string option \<Rightarrow> string option \<Rightarrow> int option \<Rightarrow> int \<Rightarrow> int option \<Rightarrow> observed_store res" where
  "record_peer_root P st root peer mhash received_at max_for_peer max_for_log =
     (let peer_id = text_or peer ''unknown-peer'' in
      bindE (signed_root_id P root) (\<lambda>root_id.
      let key = (root_id, peer_id) in
      if key \<in> pi_key ` set (ob_peer_roots st) then Inr st
      else let item = \<lparr>pi_key = key, pi_root_id = root_id, pi_root = root, pi_peer_id = peer_id,
          pi_message_hash = text_or mhash root_id, pi_received_at = time_or_now P received_at\<rparr> in
        bindE (prune_peer_roots P (st\<lparr>ob_peer_roots := ob_peer_roots st @ [item]\<rparr>) peer_id (root_log root) max_for_peer) (\<lambda>st'.
        case max_for_log of None \<Rightarrow> Inr st' | Some m \<Rightarrow> prune_peer_roots_for_log P st' (root_log root) m)))"

section \<open>Pruning\<close>

text \<open>The items that a pruning pass keeps and removes, in a list with distinct keys.\<close>

lemma length_filter_keys:
  assumes "distinct (map f xs)" and "K \<subseteq> f ` set xs"
  shows "length (filter (\<lambda>x. f x \<notin> K) xs) = length xs - card K"
proof -
  have "length (filter (\<lambda>x. f x \<notin> K) xs) = card (f ` set xs - K)"
  proof -
    have "distinct (map f (filter (\<lambda>x. f x \<notin> K) xs))" by (rule distinct_map_filter [OF assms(1)])
    then have "length (filter (\<lambda>x. f x \<notin> K) xs) = card (f ` set (filter (\<lambda>x. f x \<notin> K) xs))"
      by (metis distinct_card length_map set_map)
    moreover have "f ` set (filter (\<lambda>x. f x \<notin> K) xs) = f ` set xs - K" by auto
    ultimately show ?thesis by simp
  qed
  also have "\<dots> = card (f ` set xs) - card K" using assms(2) by (simp add: card_Diff_subset finite_subset)
  also have "card (f ` set xs) = length xs" using assms(1) by (metis distinct_card length_map set_map)
  finally show ?thesis .
qed

lemma prune_keys_card:
  assumes "distinct (map pi_key matching)"
  shows "card (set (prune_keys bound matching n)) = min n (length (filter (\<lambda>x. pi_root_id x \<notin> set bound) matching))"
    and "set (prune_keys bound matching n) \<subseteq> pi_key ` {x \<in> set matching. pi_root_id x \<notin> set bound}"
proof -
  let ?xs = "sort_key (\<lambda>x. (pi_received_at x, pi_root_id x)) (filter (\<lambda>x. pi_root_id x \<notin> set bound) matching)"
  have "distinct (map pi_key ?xs)"
    using distinct_map_filter [OF assms] by (simp add: distinct_map)
  then have "distinct (take n (map pi_key ?xs))" by (rule distinct_take)
  then show "card (set (prune_keys bound matching n)) = min n (length (filter (\<lambda>x. pi_root_id x \<notin> set bound) matching))"
    using distinct_card by (fastforce simp: prune_keys_def take_map)
  show "set (prune_keys bound matching n) \<subseteq> pi_key ` {x \<in> set matching. pi_root_id x \<notin> set bound}"
    unfolding prune_keys_def using set_take_subset by fastforce
qed

lemma prune_arith:
  fixes k m c u b :: nat and l :: int
  assumes "k = m - c" "m = u + b" "c = min (nat (int m - l)) u" "\<not> int m - l \<le> 0" "0 < l"
  shows "int k \<le> max l (int b)"
proof (cases "nat (int m - l) \<le> u")
  case True
  with assms have "int k = l" by (simp add: min_def)
  then show ?thesis by simp
next
  case False
  with assms have "k = b" by (simp add: min_def)
  then show ?thesis by simp
qed

text \<open>What one pruning pass does to the peer roots.\<close>

lemma prune_matching_spec:
  assumes "prune_matching P st match limit = Inr st'" and "distinct (map pi_key (ob_peer_roots st))"
  shows "\<exists>gone. st' = st\<lparr>ob_peer_roots := filter (\<lambda>x. pi_key x \<notin> gone) (ob_peer_roots st)\<rparr>
    \<and> (\<forall>x \<in> set (ob_peer_roots st). pi_key x \<in> gone \<longrightarrow> match x
         \<and> (\<forall>bound. evidence_bound P st = Inr bound \<longrightarrow> pi_root_id x \<notin> set bound))
    \<and> (\<forall>bound. 0 < limit \<longrightarrow> evidence_bound P st = Inr bound \<longrightarrow>
         int (length (filter match (ob_peer_roots st')))
           \<le> max limit (int (length (filter (\<lambda>x. match x \<and> pi_root_id x \<in> set bound) (ob_peer_roots st)))))"
proof (cases "0 < limit")
  case False
  with assms(1) have "st' = st" by (simp add: prune_matching_def)
  with False show ?thesis by (intro exI [of _ "{}"]) simp
next
  case True
  with assms(1) obtain bound where b: "evidence_bound P st = Inr bound"
    by (auto simp: prune_matching_def bindE_Inr_iff split: if_splits)
  let ?m = "filter match (ob_peer_roots st)"
  let ?o = "int (length ?m) - limit"
  show ?thesis
  proof (cases "?o \<le> 0")
    case o: True
    with assms(1) True b have "st' = st" by (simp add: prune_matching_def)
    with o b show ?thesis by (intro exI [of _ "{}"]) auto
  next
    case o: False
    let ?g = "set (prune_keys bound ?m (nat ?o))"
    have e: "st' = st\<lparr>ob_peer_roots := filter (\<lambda>x. pi_key x \<notin> ?g) (ob_peer_roots st)\<rparr>"
      using assms(1) True b o by (simp add: prune_matching_def Let_def)
    have dm: "distinct (map pi_key ?m)" by (rule distinct_map_filter [OF assms(2)])
    note g = prune_keys_card [OF dm, of bound "nat ?o"]
    have unique: "x = y" if "x \<in> set (ob_peer_roots st)" "y \<in> set (ob_peer_roots st)" "pi_key x = pi_key y" for x y
      using that assms(2) by (auto simp: distinct_map inj_on_def)
    have "filter match (ob_peer_roots st') = filter (\<lambda>x. pi_key x \<notin> ?g) ?m"
      by (simp add: e conj_commute)
    then have k: "length (filter match (ob_peer_roots st')) = length ?m - card ?g"
      using length_filter_keys [OF dm] g(2) by auto
    have b': "filter (\<lambda>x. match x \<and> pi_root_id x \<in> set bound) (ob_peer_roots st) = filter (\<lambda>x. pi_root_id x \<in> set bound) ?m"
      by (simp add: conj_commute)
    have m: "length ?m = length (filter (\<lambda>x. pi_root_id x \<notin> set bound) ?m) + length (filter (\<lambda>x. pi_root_id x \<in> set bound) ?m)"
      using sum_length_filter_compl [of "\<lambda>x. pi_root_id x \<in> set bound" ?m] by simp
    have count: "int (length (filter match (ob_peer_roots st')))
        \<le> max limit (int (length (filter (\<lambda>x. match x \<and> pi_root_id x \<in> set bound) (ob_peer_roots st))))"
      unfolding b' by (rule prune_arith [OF k m g(1) o True])
    have gone: "match x \<and> pi_root_id x \<notin> set bound" if x: "x \<in> set (ob_peer_roots st)" "pi_key x \<in> ?g" for x
    proof -
      from x(2) g(2) obtain y where "y \<in> set ?m" "pi_root_id y \<notin> set bound" "pi_key y = pi_key x" by auto
      with unique x(1) show ?thesis by auto
    qed
    have bound: "bound' = bound" if "evidence_bound P st = Inr bound'" for bound'
      using b that by simp
    show ?thesis
      by (intro exI [of _ ?g] conjI ballI allI impI) 
        (rule e, blast dest: gone, drule bound, blast dest: gone, drule bound, simp only: count)
  qed
qed

end
