(* ===== verification/Verifier.thy ===== *)
theory Verifier
  imports ObservedRoots
begin

text \<open>
  The stateful part of \<open>TransparencyVerifier\<close> (\<open>src/ind/transparency_client.py\<close>) over the in-memory store: which
  keys may sign for the configured operator, what is checked and recorded when a root is observed, how
  evidence leads to blacklisting and to gossip, and how current roots are collected from mirrors. A method
  is an action: it returns or raises, and leaves a state in either case.
\<close>

section \<open>State, configuration and actions\<close>

text \<open>The attributes that change: the store, the gossip queue with the ids already queued, the pairs of roots
  already checked, the logs being refreshed.\<close>

record verifier =
  vf_store :: observed_store
  vf_pending :: "json list"
  vf_queued_roots :: "string list"
  vf_queued_evidence :: "string list"
  vf_pairs :: "(string \<times> int \<times> json option \<times> int \<times> json option) list"
  vf_refreshing :: "string list"

record verifier_config =
  vc_operator_public_key :: "string option"
  vc_strict :: bool
  vc_max_stale :: int
  vc_max_root_age :: int
  vc_future_skew :: int
  vc_min_mirrors :: int
  vc_max_root_lag :: "int option"

text \<open>
  What the network answers during one call: the operator's consistency proofs, and the latest root of each
  mirror with the mirror's identity. The constructor refuses mirrors with the same identity, so the dict of
  roots by identity is the list of pairs, in the order of the mirrors.
\<close>

record network =
  nw_consistency_proof :: "int \<Rightarrow> int \<Rightarrow> json res"
  nw_mirrors :: "(source_identity \<times> json res) list"

type_synonym 'a act = "verifier \<Rightarrow> 'a res \<times> verifier"

definition returns :: "'a \<Rightarrow> 'a act" where
  "returns x s = (Inr x, s)"

definition raises :: "error \<Rightarrow> 'a act" where
  "raises e s = (Inl e, s)"

definition lifts :: "'a res \<Rightarrow> 'a act" where
  "lifts r s = (r, s)"

definition bindA :: "'a act \<Rightarrow> ('a \<Rightarrow> 'b act) \<Rightarrow> 'b act" where
  "bindA m f s = (case m s of (Inl e, s') \<Rightarrow> (Inl e, s') | (Inr x, s') \<Rightarrow> f x s')"

text \<open>\<open>try: m except Exception as e: h(e)\<close>; the state of \<open>m\<close> up to the raise is kept.\<close>

definition catches :: "'a act \<Rightarrow> (error \<Rightarrow> 'a act) \<Rightarrow> 'a act" where
  "catches m h s = (case m s of (Inl e, s') \<Rightarrow> h e s' | (Inr x, s') \<Rightarrow> (Inr x, s'))"

definition reads_store :: "(observed_store \<Rightarrow> 'a res) \<Rightarrow> 'a act" where
  "reads_store f s = (f (vf_store s), s)"

definition updates_store :: "(observed_store \<Rightarrow> ('a \<times> observed_store) res) \<Rightarrow> 'a act" where
  "updates_store f s = (case f (vf_store s) of Inl e \<Rightarrow> (Inl e, s) | Inr (x, st) \<Rightarrow> (Inr x, s\<lparr>vf_store := st\<rparr>))"

definition changes_store :: "(observed_store \<Rightarrow> observed_store res) \<Rightarrow> unit act" where
  "changes_store f = updates_store (\<lambda>st. bindE (f st) (\<lambda>st'. Inr ((), st')))"

definition modifies :: "(verifier \<Rightarrow> verifier) \<Rightarrow> unit act" where
  "modifies f s = (Inr (), f s)"

section \<open>The operator's keys\<close>

definition configured_log_id :: "platform \<Rightarrow> verifier_config \<Rightarrow> string option" where
  "configured_log_id P C = (case vc_operator_public_key C of
     Some (c # cs) \<Rightarrow> Some (log_id_from_public_key P (c # cs)) | _ \<Rightarrow> None)"

definition is_configured_log :: "platform \<Rightarrow> verifier_config \<Rightarrow> observed_store \<Rightarrow> string \<Rightarrow> bool" where
  "is_configured_log P C st log_id = (case configured_log_id P C of
     None \<Rightarrow> True
   | Some configured \<Rightarrow> log_id = configured
      \<or> (case key_rotation_for_successor_log_id st log_id of None \<Rightarrow> False | Some r \<Rightarrow> root_log r = configured))"

definition lineage_log_id_for_root :: "platform \<Rightarrow> verifier_config \<Rightarrow> observed_store \<Rightarrow> json \<Rightarrow> string" where
  "lineage_log_id_for_root P C st root = (case configured_log_id P C of
     None \<Rightarrow> root_log root
   | Some configured \<Rightarrow>
       if root_log root = configured then configured
       else case key_rotation_for_successor_log_id st (root_log root) of
         None \<Rightarrow> root_log root
       | Some r \<Rightarrow> if root_log r = configured \<and> root_text r ''new_public_key'' = root_key root
           then configured else root_log root)"

definition rotation_for_root :: "platform \<Rightarrow> verifier_config \<Rightarrow> observed_store \<Rightarrow> json \<Rightarrow> json option" where
  "rotation_for_root P C st root = (case configured_log_id P C of
     None \<Rightarrow> None
   | Some configured \<Rightarrow>
       find (\<lambda>r. root_log root = root_log r \<and> root_key root = root_text r ''old_public_key''
               \<or> root_log root = root_text r ''new_log_id'' \<and> root_key root = root_text r ''new_public_key'')
         (key_rotations_for_log st configured))"

definition roots_share_lineage :: "platform \<Rightarrow> verifier_config \<Rightarrow> observed_store \<Rightarrow> json \<Rightarrow> json \<Rightarrow> bool" where
  "roots_share_lineage P C st old_root new_root =
     (lineage_log_id_for_root P C st old_root = lineage_log_id_for_root P C st new_root)"

text \<open>A root of the configured key itself: not revoked, and not after the overlap of the latest rotation.\<close>

definition check_configured_key :: "observed_store \<Rightarrow> string \<Rightarrow> string \<Rightarrow> json \<Rightarrow> unit res" where
  "check_configured_key st conf configured_key root =
     (if (case key_revocation_for_key st conf configured_key of
            None \<Rightarrow> False | Some v \<Rightarrow> root_int v ''revocation_timestamp'' \<le> root_time root)
      then Inl (RootVerificationError ''transparency root was signed by a revoked operator key'')
      else if (case key_rotations_for_log st conf of
            [] \<Rightarrow> False
          | rs \<Rightarrow> effective_size (last rs) \<le> root_size root \<and> root_int (last rs) ''overlap_until_timestamp'' < root_time root)
      then Inl (RootVerificationError ''transparency root was signed by the old operator key after rotation overlap'')
      else Inr ())"

definition verify_signed_root_for_lineage ::
    "platform \<Rightarrow> transparency \<Rightarrow> verifier_config \<Rightarrow> observed_store \<Rightarrow> json \<Rightarrow> unit res" where
  "verify_signed_root_for_lineage P T C st root =
     bindE (verify_signed_root P T root None) (\<lambda>_.
     case vc_operator_public_key C of
       Some (c # cs) \<Rightarrow>
        (let configured_key = strip (c # cs); configured = log_id_from_public_key P configured_key;
             root_public_key = strip (root_key root) in
         if root_log root = configured \<and> root_public_key = configured_key
         then check_configured_key st configured configured_key root
         else case rotation_for_root P C st root of
           Some r \<Rightarrow>
             if root_public_key = root_text r ''new_public_key'' \<and> root_log root = root_text r ''new_log_id''
             then (if root_size root < effective_size r
                   then Inl (RootVerificationError
                     ''transparency root was signed by successor key before rotation effective tree size'')
                   else Inr ())
             else Inl (RootVerificationError ''transparency root was signed by an unexpected operator'')
         | None \<Rightarrow> Inl (RootVerificationError ''transparency root was signed by an unexpected operator''))
     | _ \<Rightarrow> Inr ())"

definition observe_key_rotation :: "platform \<Rightarrow> verifier_config \<Rightarrow> json \<Rightarrow> int option \<Rightarrow> string act" where
  "observe_key_rotation P C rotation observed_at =
     bindA (lifts (verify_key_rotation P rotation (configured_log_id P C) None None)) (\<lambda>_.
     updates_store (\<lambda>st. record_key_rotation P st rotation observed_at))"

definition observe_key_revocation :: "platform \<Rightarrow> verifier_config \<Rightarrow> json \<Rightarrow> int option \<Rightarrow> string act" where
  "observe_key_revocation P C revocation observed_at =
     (if configured_log_id P C \<noteq> None \<and> jget revocation ''log_id'' \<noteq> map_option JStr (configured_log_id P C)
      then raises (KeyRevocationError ''operator key revocation is for an unexpected log id'')
      else updates_store (\<lambda>st. record_key_revocation P st revocation observed_at))"

section \<open>Gossip\<close>

definition queue_root_announcement :: "platform \<Rightarrow> transparency \<Rightarrow> json \<Rightarrow> unit act" where
  "queue_root_announcement P T root s =
     (case signed_root_id P root of
        Inl e \<Rightarrow> (Inl e, s)
      | Inr i \<Rightarrow>
          if i \<in> set (vf_queued_roots s) then (Inr (), s)
          else let s' = s\<lparr>vf_queued_roots := i # vf_queued_roots s\<rparr> in
            case make_root_announcement P T root None of
              Inl e \<Rightarrow> (Inl e, s')
            | Inr m \<Rightarrow> (Inr (), s'\<lparr>vf_pending := vf_pending s @ [m]\<rparr>))"

text \<open>\<open>_queue_equivocation_proof\<close> and \<open>_queue_operator_policy_violation_proof\<close> have the same body.\<close>

definition queue_evidence :: "platform \<Rightarrow> json \<Rightarrow> unit act" where
  "queue_evidence P proof s =
     (case message_hash P proof of
        Inl e \<Rightarrow> (Inl e, s)
      | Inr i \<Rightarrow>
          if i \<in> set (vf_queued_evidence s) then (Inr (), s)
          else (Inr (), s\<lparr>vf_queued_evidence := i # vf_queued_evidence s, vf_pending := vf_pending s @ [proof]\<rparr>))"

definition consume_pending_gossip_messages :: "json list act" where
  "consume_pending_gossip_messages s = (Inr (vf_pending s), s\<lparr>vf_pending := []\<rparr>)"

section \<open>Evidence and blacklisting\<close>

text \<open>The message of the errors below, without the values and the advice that the f-strings add.\<close>

definition blacklisted_message :: "operator_status option \<Rightarrow> string" where
  "blacklisted_message status = ''CRITICAL transparency log operator is locally blacklisted''"

definition handle_operator_policy_violation ::
    "platform \<Rightarrow> transparency \<Rightarrow> verifier_config \<Rightarrow> json \<Rightarrow> json act" where
  "handle_operator_policy_violation P T C proof =
     bindA (lifts (verify_operator_policy_violation_proof P T proof (vc_operator_public_key C))) (\<lambda>p.
     bindA (lifts (jat p ''root'')) (\<lambda>root.
     bindA (updates_store (\<lambda>st. save_operator_policy_violation P T st p)) (\<lambda>(evidence_id, stored).
     bindA (changes_store (\<lambda>st. Inr (mark_blacklisted P st (root_log root) (root_key root)
       (''operator policy violation: '' @ root_text p ''violation_type'') evidence_id
       (Some (root_int p ''detected_at''))))) (\<lambda>_.
     bindA (queue_evidence P stored) (\<lambda>_. returns stored)))))"

definition handle_equivocation :: "platform \<Rightarrow> transparency \<Rightarrow> json \<Rightarrow> json \<Rightarrow> string \<Rightarrow> 'a act" where
  "handle_equivocation P T root_a root_b collision_type =
     bindA (updates_store (\<lambda>st. save_equivocation_evidence P T st root_a root_b collision_type (Some (pf_clock P)))) (\<lambda>(evidence_id, proof).
     bindA (changes_store (\<lambda>st. Inr (mark_blacklisted P st (root_log root_a) (root_key root_a)
       (''equivocation '' @ collision_type) evidence_id (Some (pf_clock P))))) (\<lambda>_.
     bindA (queue_evidence P proof) (\<lambda>_.
     raises (MirrorDisagreementError ''mirrors disagree about a signed transparency log root''))))"

definition detect_and_handle_equivocation :: "platform \<Rightarrow> transparency \<Rightarrow> json \<Rightarrow> unit act" where
  "detect_and_handle_equivocation P T root =
     bindA (reads_store (\<lambda>st. find_equivocation P st root)) (\<lambda>evidence.
     case evidence of None \<Rightarrow> returns ()
     | Some (collision_type, previous) \<Rightarrow> handle_equivocation P T previous root collision_type)"

definition handle_consistency_failure :: "platform \<Rightarrow> json \<Rightarrow> json \<Rightarrow> error \<Rightarrow> 'a act" where
  "handle_consistency_failure P old_root new_root error =
     bindA (updates_store (\<lambda>st. save_consistency_failure P st old_root new_root (error_text error) None)) (\<lambda>evidence_id.
     bindA (changes_store (\<lambda>st. Inr (mark_blacklisted P st (root_log old_root) (root_key new_root)
       (error_text error) evidence_id None))) (\<lambda>_.
     bindA (reads_store (\<lambda>st. Inr (ob_statuses st (root_log old_root)))) (\<lambda>status.
     raises (ConsistencyProofError (blacklisted_message status)))))"

section \<open>Freshness and order of current roots\<close>

definition validate_current_root_freshness :: "verifier_config \<Rightarrow> json \<Rightarrow> int \<Rightarrow> unit res" where
  "validate_current_root_freshness C root now =
     (if root_time root - now > vc_future_skew C
      then Inl (RootVerificationError ''transparency root is too far in the future for current verification'')
      else if now - root_time root > vc_max_root_age C
      then Inl (RootVerificationError ''transparency root is stale for current verification'')
      else Inr ())"

text \<open>A root below the highest size seen but later than the latest time seen is the operator's own contradiction.\<close>

definition validate_current_root_monotonicity :: "platform \<Rightarrow> json \<Rightarrow> string act" where
  "validate_current_root_monotonicity P root =
     bindA (reads_store (\<lambda>st. Inr (observed_position st (root_log root), latest_root st (root_log root)))) (\<lambda>(position, latest).
     case position of
       None \<Rightarrow> returns []
     | Some (highest, newest) \<Rightarrow>
         if root_size root < highest
         then (if root_time root > newest
               then (case latest of
                   Some previous \<Rightarrow> handle_consistency_failure P previous root
                     (ConsistencyProofError ''operator signed a current root with a smaller tree size'')
                 | None \<Rightarrow> raises (PyTypeError ''NoneType''))
               else returns ''mirror is lagging current verification'')
         else if root_time root < newest
         then raises (RootVerificationError ''transparency root replayed an older timestamp for current verification'')
         else returns [])"

section \<open>Observing a root\<close>

text \<open>
  \<open>refresh\<close> is \<open>_refresh_stale_consistency_baseline\<close>, which observes roots in turn; the two are tied together
  below.
\<close>

definition last_success :: "operator_status option \<Rightarrow> int option" where
  "last_success status = (case status of None \<Rightarrow> None | Some s \<Rightarrow>
     (case os_last_success s of Some t \<Rightarrow> if t = 0 then None else Some t | None \<Rightarrow> None))"

definition enforce_consistency_freshness ::
    "platform \<Rightarrow> verifier_config \<Rightarrow> (string \<Rightarrow> bool act) \<Rightarrow> string \<Rightarrow> unit act" where
  "enforce_consistency_freshness P C refresh log_id =
     bindA (reads_store (\<lambda>st. Inr (ob_statuses st log_id, latest_root st log_id))) (\<lambda>(status, latest).
     if (case status of None \<Rightarrow> False | Some s \<Rightarrow> os_status s = Blacklisted)
     then raises (ConsistencyProofError (blacklisted_message status))
     else if \<not> vc_strict C then returns ()
     else case last_success status of
       None \<Rightarrow>
         if latest = None then returns ()
         else raises (ConsistencyUnavailableError ''strict transparency mode has no successful consistency baseline'')
     | Some t \<Rightarrow>
         if pf_clock P - t \<le> vc_max_stale C then returns ()
         else bindA (refresh log_id) (\<lambda>ok. if ok then returns ()
           else raises (ConsistencyUnavailableError ''strict transparency mode requires a successful consistency check'')))"

text \<open>The root to compare with: the log's latest, or the lineage's when that is larger.\<close>

definition previous_root :: "observed_store \<Rightarrow> string \<Rightarrow> string \<Rightarrow> json option" where
  "previous_root st log_id lineage =
     (if lineage = log_id then latest_root st log_id
      else case latest_root st lineage of
        None \<Rightarrow> latest_root st log_id
      | Some l \<Rightarrow> (case latest_root st log_id of
          None \<Rightarrow> Some l | Some p \<Rightarrow> if root_size l > root_size p then Some l else Some p))"

text \<open>\<open>status(log_id) or status(lineage_log_id)\<close>.\<close>

definition observed_status :: "observed_store \<Rightarrow> string \<Rightarrow> string \<Rightarrow> operator_status option" where
  "observed_status st log_id lineage = (case ob_statuses st log_id of Some s \<Rightarrow> Some s | None \<Rightarrow> ob_statuses st lineage)"

text \<open>Record, mark active, announce: what follows every successful comparison.\<close>

definition accept_root :: "platform \<Rightarrow> transparency \<Rightarrow> json \<Rightarrow> source_identity \<Rightarrow> unit act" where
  "accept_root P T root source =
     bindA (changes_store (\<lambda>st. record_root P st root source (Some (pf_clock P)) (Some (pf_clock P)))) (\<lambda>_.
     bindA (changes_store (\<lambda>st. Inr (mark_active P st (root_log root) (root_key root) (Some (pf_clock P))))) (\<lambda>_.
     queue_root_announcement P T root))"

text \<open>The body of the \<open>try\<close>: a pair of roots that was checked before needs no new proof.\<close>

definition check_pair ::
    "platform \<Rightarrow> transparency \<Rightarrow> verifier_config \<Rightarrow> network \<Rightarrow> json \<Rightarrow> json \<Rightarrow> string \<Rightarrow> unit act" where
  "check_pair P T C N first_root second_root log_id s =
     (let key = (log_id, root_size first_root, jget first_root ''root_hash'', root_size second_root,
        jget second_root ''root_hash'') in
      if key \<in> set (vf_pairs s) then (Inr (), s)
      else case nw_consistency_proof N (root_size first_root) (root_size second_root) of
        Inl e \<Rightarrow> (Inl e, s)
      | Inr proof \<Rightarrow>
          (case verify_consistency_proof P T first_root second_root proof None
             (roots_share_lineage P C (vf_store s) first_root second_root) of
             Inl e \<Rightarrow> (Inl e, s)
           | Inr _ \<Rightarrow> (Inr (), s\<lparr>vf_pairs := key # vf_pairs s\<rparr>)))"

fun is_consistency_error :: "error \<Rightarrow> bool" where
  "is_consistency_error (ConsistencyProofError m) = True"
| "is_consistency_error e = False"

definition compare_roots ::
    "platform \<Rightarrow> transparency \<Rightarrow> verifier_config \<Rightarrow> network \<Rightarrow> (string \<Rightarrow> bool act) \<Rightarrow> json \<Rightarrow> json \<Rightarrow> source_identity \<Rightarrow> unit act" where
  "compare_roots P T C N refresh previous root source =
     (let smaller = root_size root < root_size previous;
          first_root = (if smaller then root else previous); second_root = (if smaller then previous else root) in
      catches (bindA (check_pair P T C N first_root second_root (root_log root)) (\<lambda>_. accept_root P T root source))
        (\<lambda>e. if is_consistency_error e then handle_consistency_failure P previous root e
             else bindA (changes_store (\<lambda>st. Inr (mark_unresponsive P st (root_log root) (root_key root) (error_text e)
                    (Some (pf_clock P))))) (\<lambda>_.
                  enforce_consistency_freshness P C refresh (root_log root))))"

definition observe_root ::
    "platform \<Rightarrow> transparency \<Rightarrow> verifier_config \<Rightarrow> network \<Rightarrow> (string \<Rightarrow> bool act) \<Rightarrow> json \<Rightarrow> source_identity \<Rightarrow> json act" where
  "observe_root P T C N refresh root source =
     bindA (reads_store (\<lambda>st. bindE (verify_signed_root_for_lineage P T C st root) (\<lambda>_.
       let lineage = lineage_log_id_for_root P C st root in
       Inr (lineage, observed_status st (root_log root) lineage)))) (\<lambda>(lineage, status).
     if (case status of None \<Rightarrow> False | Some s \<Rightarrow> os_status s = Blacklisted)
     then raises (ConsistencyProofError (blacklisted_message status))
     else bindA (detect_and_handle_equivocation P T root) (\<lambda>_.
     bindA (reads_store (\<lambda>st. Inr (previous_root st (root_log root) lineage))) (\<lambda>previous. case previous of
       None \<Rightarrow> bindA (accept_root P T root source) (\<lambda>_. returns root)
     | Some p \<Rightarrow>
         if root_size p = root_size root
         then (if jget p ''root_hash'' = jget root ''root_hash''
               then bindA (accept_root P T root source) (\<lambda>_.
                    bindA (enforce_consistency_freshness P C refresh (root_log root)) (\<lambda>_. returns root))
               else handle_consistency_failure P p root
                 (ConsistencyProofError ''new observed root is not an append-only extension of the stored root''))
         else bindA (compare_roots P T C N refresh p root source) (\<lambda>_. returns root))))"

section \<open>Current roots from the mirrors\<close>

text \<open>Roots of one log may not differ at one timestamp or at one size. The two dicts of fingerprints.\<close>

type_synonym fingerprint = "int \<times> json \<times> json option \<times> int"
type_synonym seen_roots = "(string \<times> int \<Rightarrow> fingerprint option) \<times> (string \<times> int \<Rightarrow> fingerprint option)"

definition check_mirror_root ::
    "platform \<Rightarrow> transparency \<Rightarrow> string option \<Rightarrow> seen_roots \<Rightarrow> json \<Rightarrow> seen_roots res" where
  "check_mirror_root P T operator_public_key seen root =
     bindE (verify_signed_root P T root operator_public_key) (\<lambda>_.
     bindE (root_fingerprint root) (\<lambda>f.
     let (by_time, by_size) = seen; t = (root_log root, root_time root); n = (root_log root, root_size root) in
     if by_time t \<noteq> None \<and> by_time t \<noteq> Some f then Inl (MirrorDisagreementError ''same_timestamp'')
     else if by_size n \<noteq> None \<and> by_size n \<noteq> Some f then Inl (MirrorDisagreementError ''same_tree_size'')
     else Inr (by_time(t \<mapsto> f), by_size(n \<mapsto> f))))"

definition detect_mirror_disagreement :: "platform \<Rightarrow> transparency \<Rightarrow> json list \<Rightarrow> string option \<Rightarrow> unit res" where
  "detect_mirror_disagreement P T roots operator_public_key =
     bindE (foldE (check_mirror_root P T operator_public_key) (\<lambda>_. None, \<lambda>_. None) roots) (\<lambda>_. Inr ())"

fun is_fatal :: "error \<Rightarrow> bool" where
  "is_fatal (ConsistencyProofError m) = True"
| "is_fatal (MirrorDisagreementError m) = True"
| "is_fatal e = False"

text \<open>One mirror's root, if it is usable.\<close>

definition usable_root ::
    "platform \<Rightarrow> transparency \<Rightarrow> verifier_config \<Rightarrow> int \<Rightarrow> json res \<Rightarrow> json act" where
  "usable_root P T C now answer =
     bindA (lifts answer) (\<lambda>root.
     bindA (reads_store (\<lambda>st. verify_signed_root_for_lineage P T C st root)) (\<lambda>_.
     bindA (lifts (validate_current_root_freshness C root now)) (\<lambda>_.
     bindA (validate_current_root_monotonicity P root) (\<lambda>_. returns root))))"

fun usable_roots ::
    "platform \<Rightarrow> transparency \<Rightarrow> verifier_config \<Rightarrow> int \<Rightarrow> (source_identity \<times> json res) list \<Rightarrow> (source_identity \<times> json) list act" where
  "usable_roots P T C now [] = returns []"
| "usable_roots P T C now ((identity, answer) # ms) =
     bindA (catches (bindA (usable_root P T C now answer) (\<lambda>root. returns [(identity, root)]))
              (\<lambda>e. if is_fatal e then raises e else returns [])) (\<lambda>xs.
     bindA (usable_roots P T C now ms) (\<lambda>ys. returns (xs @ ys)))"

fun observe_roots :: "(json \<Rightarrow> source_identity \<Rightarrow> json act) \<Rightarrow> (source_identity \<times> json) list \<Rightarrow> unit act" where
  "observe_roots obs [] = returns ()"
| "observe_roots obs ((identity, root) # xs) = bindA (obs root identity) (\<lambda>_. observe_roots obs xs)"

definition current_roots_from_mirrors ::
    "platform \<Rightarrow> transparency \<Rightarrow> verifier_config \<Rightarrow> network \<Rightarrow> (string \<Rightarrow> bool act) \<Rightarrow> int option \<Rightarrow> json list act" where
  "current_roots_from_mirrors P T C N refresh now =
     bindA (usable_roots P T C (case now of None \<Rightarrow> pf_clock P | Some t \<Rightarrow> t) (nw_mirrors N)) (\<lambda>by_identity.
     let roots = map snd by_identity in
     if int (length roots) < vc_min_mirrors C
     then raises (RootVerificationError ''not enough usable current transparency root mirrors'')
     else bindA (lifts (detect_mirror_disagreement P T roots None)) (\<lambda>_.
     bindA (observe_roots (observe_root P T C N refresh) by_identity) (\<lambda>_. returns roots)))"

text \<open>
  The refresh of a stale baseline observes the mirrors' roots again, and so may need a refresh of another log.
  The first argument bounds the depth of that recursion; at depth 0 Python's limit is hit, which the caller
  sees as any other exception.
\<close>

primrec refresh_stale_consistency_baseline ::
    "nat \<Rightarrow> platform \<Rightarrow> transparency \<Rightarrow> verifier_config \<Rightarrow> network \<Rightarrow> string \<Rightarrow> bool act" where
  "refresh_stale_consistency_baseline 0 P T C N log_id = raises (PyValueError ''maximum recursion depth exceeded'')"
| "refresh_stale_consistency_baseline (Suc d) P T C N log_id = (\<lambda>s.
     if log_id \<in> set (vf_refreshing s) then (Inr False, s)
     else bindA (catches
         (bindA (current_roots_from_mirrors P T C N (refresh_stale_consistency_baseline d P T C N) None)
            (\<lambda>_. returns True))
         (\<lambda>_. returns False)) (\<lambda>refreshed.
       bindA (modifies (\<lambda>s. s\<lparr>vf_refreshing := removeAll log_id (vf_refreshing s)\<rparr>)) (\<lambda>_.
       if \<not> refreshed then returns False
       else bindA (reads_store (\<lambda>st. Inr (last_success (ob_statuses st log_id)))) (\<lambda>success.
         returns (case success of None \<Rightarrow> False | Some t \<Rightarrow> pf_clock P - t \<le> vc_max_stale C))))
       (s\<lparr>vf_refreshing := log_id # vf_refreshing s\<rparr>))"

definition check_latest_consistency ::
    "nat \<Rightarrow> platform \<Rightarrow> transparency \<Rightarrow> verifier_config \<Rightarrow> network \<Rightarrow> int option \<Rightarrow> json list act" where
  "check_latest_consistency d P T C N now =
     current_roots_from_mirrors P T C N (refresh_stale_consistency_baseline d P T C N) now"

definition current_mirrored_root ::
    "nat \<Rightarrow> platform \<Rightarrow> transparency \<Rightarrow> verifier_config \<Rightarrow> network \<Rightarrow> int option \<Rightarrow> json act" where
  "current_mirrored_root d P T C N now =
     bindA (current_roots_from_mirrors P T C N (refresh_stale_consistency_baseline d P T C N) now) (\<lambda>roots.
     case sort_key (\<lambda>r. (root_size r, root_time r)) roots of
       [] \<Rightarrow> raises (PyValueError ''list index out of range'') | r # rs \<Rightarrow> returns (last (r # rs)))"

section \<open>Messages from peers\<close>

definition DEFAULT_PEER_ROOT_CAP_PER_LOG_ID :: int where "DEFAULT_PEER_ROOT_CAP_PER_LOG_ID = 5000"
definition DEFAULT_UNKNOWN_PEER_ROOT_CAP_PER_LOG_ID :: int where "DEFAULT_UNKNOWN_PEER_ROOT_CAP_PER_LOG_ID = 100"

definition peer_root_cap_for_log :: "platform \<Rightarrow> verifier_config \<Rightarrow> observed_store \<Rightarrow> string \<Rightarrow> int" where
  "peer_root_cap_for_log P C st log_id =
     (if is_configured_log P C st log_id then DEFAULT_PEER_ROOT_CAP_PER_LOG_ID else DEFAULT_UNKNOWN_PEER_ROOT_CAP_PER_LOG_ID)"

text \<open>The call of \<open>record_peer_root\<close> that all three handlers make.\<close>

definition remember_peer_root :: "platform \<Rightarrow> verifier_config \<Rightarrow> json \<Rightarrow> string option \<Rightarrow> string option \<Rightarrow> unit act" where
  "remember_peer_root P C root peer mhash =
     changes_store (\<lambda>st. bindE (signed_root_id P root) (\<lambda>i.
       record_peer_root P st root peer (Some (text_or mhash i)) (Some (pf_clock P))
         (peer_root_cap_for_log P C st (root_log root))
         (if is_configured_log P C st (root_log root) then None else Some DEFAULT_UNKNOWN_PEER_ROOT_CAP_PER_LOG_ID)))"

definition process_root_announcement ::
    "platform \<Rightarrow> transparency \<Rightarrow> verifier_config \<Rightarrow> json \<Rightarrow> string option \<Rightarrow> string option \<Rightarrow> json act" where
  "process_root_announcement P T C message peer mhash =
     bindA (lifts (verify_root_announcement P T message None)) (\<lambda>root.
     bindA (remember_peer_root P C root peer mhash) (\<lambda>_.
     bindA (detect_and_handle_equivocation P T root) (\<lambda>_. returns root)))"

text \<open>\<open>int(message.get("detected_at", received_at))\<close>: the field was checked with the message.\<close>

definition process_equivocation_proof ::
    "platform \<Rightarrow> transparency \<Rightarrow> verifier_config \<Rightarrow> json \<Rightarrow> string option \<Rightarrow> string option \<Rightarrow> json act" where
  "process_equivocation_proof P T C message peer mhash =
     bindA (lifts (verify_equivocation_proof P T message None)) (\<lambda>(log_id, collision_type, root_a, root_b).
     bindA (remember_peer_root P C root_a peer mhash) (\<lambda>_.
     bindA (remember_peer_root P C root_b peer mhash) (\<lambda>_.
     bindA (updates_store (\<lambda>st. save_equivocation_evidence P T st root_a root_b collision_type
       (Some (root_int message ''detected_at'')))) (\<lambda>(evidence_id, proof).
     bindA (changes_store (\<lambda>st. Inr (mark_blacklisted P st (root_log root_a) (root_key root_a)
       (''equivocation '' @ collision_type) evidence_id (Some (pf_clock P))))) (\<lambda>_.
     bindA (queue_evidence P proof) (\<lambda>_. returns proof))))))"

definition process_operator_policy_violation_proof ::
    "platform \<Rightarrow> transparency \<Rightarrow> verifier_config \<Rightarrow> json \<Rightarrow> string option \<Rightarrow> string option \<Rightarrow> json act" where
  "process_operator_policy_violation_proof P T C message peer mhash =
     bindA (lifts (verify_operator_policy_violation_proof P T message (vc_operator_public_key C))) (\<lambda>proof.
     bindA (lifts (jat proof ''root'')) (\<lambda>root.
     bindA (remember_peer_root P C root peer mhash) (\<lambda>_.
     handle_operator_policy_violation P T C proof)))"

text \<open>The constructor's \<open>_load_consistency_anchor\<close>, for an anchor that was configured.\<close>

definition load_consistency_anchor :: "platform \<Rightarrow> transparency \<Rightarrow> verifier_config \<Rightarrow> json \<Rightarrow> unit act" where
  "load_consistency_anchor P T C anchor =
     bindA (lifts (verify_signed_root P T anchor (vc_operator_public_key C))) (\<lambda>_.
     bindA (changes_store (\<lambda>st. record_root P st anchor (IdPair ''configured-anchor'' (root_log anchor))
       (Some (pf_clock P)) (Some (pf_clock P)))) (\<lambda>_.
     changes_store (\<lambda>st. Inr (mark_active P st (root_log anchor) (root_key anchor) (Some (pf_clock P))))))"

end
