(* ===== verification/VerifierLaws.thy ===== *)
theory VerifierLaws
  imports Verifier
begin

text \<open>
  What the verifier keeps: rules for triples about actions, the runs of a verifier as an inductive relation,
  and the invariants of its store along every run.
\<close>

section \<open>Triples\<close>

text \<open>\<open>triple Pre m Post Err\<close>: from a state in \<open>Pre\<close>, a return is in \<open>Post\<close> and a raise leaves a state in \<open>Err\<close>.\<close>

definition triple ::
    "(verifier \<Rightarrow> bool) \<Rightarrow> 'a act \<Rightarrow> ('a \<Rightarrow> verifier \<Rightarrow> bool) \<Rightarrow> (verifier \<Rightarrow> bool) \<Rightarrow> bool" where
  "triple Pre m Post Err = (\<forall>s. Pre s \<longrightarrow> (case m s of (Inr x, s') \<Rightarrow> Post x s' | (Inl e, s') \<Rightarrow> Err s'))"

lemma triple_bind:
  "triple Pre m Mid Err \<Longrightarrow> (\<And>x. triple (Mid x) (f x) Post Err) \<Longrightarrow> triple Pre (bindA m f) Post Err"
  by (fastforce simp: triple_def bindA_def split: prod.splits sum.splits)

lemma triple_returns: "(\<And>s. Pre s \<Longrightarrow> Post x s) \<Longrightarrow> triple Pre (returns x) Post Err"
  by (simp add: triple_def returns_def)

lemma triple_raises: "(\<And>s. Pre s \<Longrightarrow> Err s) \<Longrightarrow> triple Pre (raises e) Post Err"
  by (simp add: triple_def raises_def)

lemma triple_lifts: "(\<And>s x. Pre s \<Longrightarrow> r = Inr x \<Longrightarrow> Post x s) \<Longrightarrow> (\<And>s. Pre s \<Longrightarrow> Err s) \<Longrightarrow> triple Pre (lifts r) Post Err"
  by (auto simp: triple_def lifts_def split: sum.splits)

lemma triple_reads:
  "(\<And>s x. Pre s \<Longrightarrow> f (vf_store s) = Inr x \<Longrightarrow> Post x s) \<Longrightarrow> (\<And>s. Pre s \<Longrightarrow> Err s) \<Longrightarrow> triple Pre (reads_store f) Post Err"
  by (auto simp: triple_def reads_store_def split: sum.splits)

lemma triple_updates:
  "(\<And>s x st. Pre s \<Longrightarrow> f (vf_store s) = Inr (x, st) \<Longrightarrow> Post x (s\<lparr>vf_store := st\<rparr>)) \<Longrightarrow> (\<And>s. Pre s \<Longrightarrow> Err s) \<Longrightarrow>
    triple Pre (updates_store f) Post Err"
  by (auto simp: triple_def updates_store_def split: sum.splits prod.splits)

lemma triple_changes:
  "(\<And>s st. Pre s \<Longrightarrow> f (vf_store s) = Inr st \<Longrightarrow> Post () (s\<lparr>vf_store := st\<rparr>)) \<Longrightarrow> (\<And>s. Pre s \<Longrightarrow> Err s) \<Longrightarrow>
    triple Pre (changes_store f) Post Err"
  unfolding changes_store_def by (rule triple_updates) (auto simp: bindE_Inr_iff)

lemma triple_catches:
  "triple Pre m Post Mid \<Longrightarrow> (\<And>e. triple Mid (h e) Post Err) \<Longrightarrow> triple Pre (catches m h) Post Err"
  by (fastforce simp: triple_def catches_def split: prod.splits sum.splits)

text \<open>The same, with what is known of the error.\<close>

lemma triple_catches_error:
  "triple Pre m Post Mid \<Longrightarrow> (\<And>s e s'. Pre s \<Longrightarrow> m s = (Inl e, s') \<Longrightarrow> Q e) \<Longrightarrow>
    (\<And>e. Q e \<Longrightarrow> triple Mid (h e) Post Err) \<Longrightarrow> triple Pre (catches m h) Post Err"
  by (fastforce simp: triple_def catches_def split: prod.splits sum.splits)

lemma triple_if:
  "(c \<Longrightarrow> triple Pre m Post Err) \<Longrightarrow> (\<not> c \<Longrightarrow> triple Pre n Post Err) \<Longrightarrow> triple Pre (if c then m else n) Post Err"
  by simp

lemma triple_weaken:
  "triple Pre' m Post' Err' \<Longrightarrow> (\<And>s. Pre s \<Longrightarrow> Pre' s) \<Longrightarrow> (\<And>x s. Post' x s \<Longrightarrow> Post x s) \<Longrightarrow>
    (\<And>s. Err' s \<Longrightarrow> Err s) \<Longrightarrow> triple Pre m Post Err"
  by (fastforce simp: triple_def split: prod.splits sum.splits)

text \<open>An invariant is kept whatever the outcome.\<close>

definition keeps :: "(verifier \<Rightarrow> bool) \<Rightarrow> 'a act \<Rightarrow> bool" where
  "keeps I m = triple I m (\<lambda>_. I) I"

lemma keeps_iff: "keeps I m \<longleftrightarrow> (\<forall>s. I s \<longrightarrow> I (snd (m s)))"
proof -
  have "(case r of (Inr x, s') \<Rightarrow> I s' | (Inl e, s') \<Rightarrow> I s') = I (snd r)" for r :: "'a res \<times> verifier"
    by (cases r; cases "fst r") auto
  then show ?thesis by (simp add: keeps_def triple_def)
qed

lemma keeps_simple [intro]:
  "keeps I (returns x)" "keeps I (raises e)" "keeps I (lifts r)" "keeps I (reads_store f)"
  by (simp_all add: keeps_iff returns_def raises_def lifts_def reads_store_def)

lemma keeps_bind [intro]: "keeps I m \<Longrightarrow> (\<And>x. keeps I (f x)) \<Longrightarrow> keeps I (bindA m f)"
  unfolding keeps_def by (rule triple_bind)

lemma keeps_catches [intro]: "keeps I m \<Longrightarrow> (\<And>e. keeps I (h e)) \<Longrightarrow> keeps I (catches m h)"
  unfolding keeps_def by (rule triple_catches)

lemma keeps_changes:
  "(\<And>s st. I s \<Longrightarrow> f (vf_store s) = Inr st \<Longrightarrow> I (s\<lparr>vf_store := st\<rparr>)) \<Longrightarrow> keeps I (changes_store f)"
  unfolding keeps_def by (rule triple_changes)

lemma keeps_updates:
  "(\<And>s x st. I s \<Longrightarrow> f (vf_store s) = Inr (x, st) \<Longrightarrow> I (s\<lparr>vf_store := st\<rparr>)) \<Longrightarrow> keeps I (updates_store f)"
  unfolding keeps_def by (rule triple_updates)

section \<open>The clock does not matter to what is stored\<close>

abbreviation at_time :: "platform \<Rightarrow> int \<Rightarrow> platform" where
  "at_time P n \<equiv> P\<lparr>pf_clock := n\<rparr>"

lemma clock_fields: "pf_sha3_256 (at_time P n) = pf_sha3_256 P" "pf_ed_verify (at_time P n) = pf_ed_verify P"
  by simp_all

lemma clock_hash [simp]: "sha3_hex (at_time P n) = sha3_hex P" "log_id_from_public_key (at_time P n) = log_id_from_public_key P"
  by (intro ext; unfold sha3_hex_def log_id_from_public_key_def clock_fields; rule refl)+

lemma clock_message_hash [simp]: "message_hash (at_time P n) = message_hash P" "signed_root_id (at_time P n) = signed_root_id P"
  "key_rotation_id (at_time P n) = key_rotation_id P" "key_revocation_id (at_time P n) = key_revocation_id P"
  by (intro ext; unfold message_hash_def signed_root_id_def key_rotation_id_def key_revocation_id_def clock_hash; rule refl)+

lemma clock_operator_payload [simp]: "verify_operator_payload (at_time P n) = verify_operator_payload P"
  by (intro ext; unfold verify_operator_payload_def keys_verify_def ed25519_verify_def clock_fields; rule refl)

lemma clock_signed_root [simp]: "verify_signed_root (at_time P n) = verify_signed_root P"
  by (intro ext; unfold verify_signed_root_def clock_hash clock_operator_payload; rule refl)

lemma clock_collision [simp]: "equivocation_collision_type (at_time P n) = equivocation_collision_type P"
  by (intro ext; unfold equivocation_collision_type_def clock_message_hash; rule refl)

lemma clock_rotation [simp]: "verify_key_rotation (at_time P n) = verify_key_rotation P"
  by (intro ext; unfold verify_key_rotation_def check_rotation_keys_def check_rotation_signature_def clock_hash
      clock_operator_payload; rule refl)

lemma clock_revocation [simp]: "verify_key_revocation (at_time P n) = verify_key_revocation P"
  by (intro ext; unfold verify_key_revocation_def check_revocation_record_def check_revocation_link_def clock_rotation
      clock_message_hash clock_hash clock_operator_payload; rule refl)

lemma clock_roots_for_log [simp]: "roots_for_log (at_time P n) = roots_for_log P"
  by (intro ext; unfold roots_for_log_def clock_message_hash; rule refl)

lemma clock_first_collision [simp]: "first_collision (at_time P n) i r ps = first_collision P i r ps"
  by (induction ps) (simp_all only: first_collision.simps clock_message_hash clock_collision cong: bindE_cong)

lemma clock_find_equivocation [simp]: "find_equivocation (at_time P n) = find_equivocation P"
  by (intro ext; unfold find_equivocation_def clock_message_hash clock_roots_for_log clock_first_collision; rule refl)

lemma clock_equivocation_proof [simp]: "verify_equivocation_proof (at_time P n) = verify_equivocation_proof P"
  by (intro ext; unfold verify_equivocation_proof_def clock_signed_root clock_collision clock_hash; rule refl)

section \<open>What the store holds\<close>

text \<open>The roots that circulate: whatever mirrors and peers show the verifier is in \<open>R\<close>.\<close>

definition stored :: "platform \<Rightarrow> transparency \<Rightarrow> json set \<Rightarrow> observed_store \<Rightarrow> bool" where
  "stored P T R st \<longleftrightarrow>
     (\<forall>x \<in> set (ob_roots st). oi_root x \<in> R \<and> verify_signed_root P T (oi_root x) None = Inr ())
     \<and> (\<forall>x \<in> set (ob_peer_roots st). pi_root x \<in> R \<and> verify_signed_root P T (pi_root x) None = Inr ()
          \<and> signed_root_id P (pi_root x) = Inr (pi_root_id x) \<and> pi_key x = (pi_root_id x, pi_peer_id x))
     \<and> distinct (map pi_key (ob_peer_roots st))"

lemma verified_root_log:
  assumes "verify_signed_root P T r None = Inr ()"
  shows "\<exists>key. root_key r = key \<and> jget r ''operator_public_key'' = Some (JStr key)
    \<and> root_log r = log_id_from_public_key P (strip key) \<and> jget r ''log_id'' = Some (JStr (root_log r))"
    and "jget r ''tree_size'' = Some (JInt (root_size r))" and "jget r ''timestamp'' = Some (JInt (root_time r))"
  using assms by (auto simp: verify_signed_root_Inr_iff root_fields_def root_text_def root_int_def)

lemma record_root_total:
  assumes "verify_signed_root P T r None = Inr ()"
  shows "\<exists>st'. record_root Q st r src t c = Inr st'"
proof -
  obtain h where h: "jget r ''root_hash'' = Some h" using assms by (auto simp: verify_signed_root_Inr_iff root_fields_def)
  with verified_root_log(1,2) [OF assms] have "observed_key r k = Inr (root_log r, root_size r, h, k)" for k
    by (auto simp: observed_key_def str_at_def int_at_def jat_def)
  then show ?thesis
    unfolding record_root_def Let_def by (cases "refresh_item (root_log r, root_size r, h, identity_text src) c (ob_roots st)") simp_all
qed

lemma refresh_item_roots:
  "refresh_item k t xs = Some ys \<Longrightarrow> map oi_root ys = map oi_root xs \<and> map oi_key ys = map oi_key xs"
  by (induction xs arbitrary: ys) (auto split: if_splits option.splits)

lemma record_root_roots:
  assumes "record_root P st root src t c = Inr st'"
  shows "(\<exists>xs. st' = st\<lparr>ob_roots := xs\<rparr>) \<and> (map oi_root (ob_roots st') = map oi_root (ob_roots st)
    \<or> map oi_root (ob_roots st') = map oi_root (ob_roots st) @ [root])"
  using assms unfolding record_root_def Let_def bindE_Inr_iff
proof (elim exE conjE)
  fix key
  assume "(case refresh_item key c (ob_roots st) of
        None \<Rightarrow> Inr (st\<lparr>ob_roots := ob_roots st @ [\<lparr>oi_key = key, oi_root = root, oi_source = identity_text src,
          oi_observed_at = time_or_now P t, oi_checked_at = c\<rparr>]\<rparr>)
      | Some xs \<Rightarrow> Inr (st\<lparr>ob_roots := xs\<rparr>)) = Inr st'"
  then show ?thesis
    by (cases "refresh_item key c (ob_roots st)") (use refresh_item_roots in fastforce)+
qed

lemma stored_roots_simp:
  "stored P T R (st\<lparr>ob_statuses := a\<rparr>) = stored P T R st" "stored P T R (st\<lparr>ob_failures := b\<rparr>) = stored P T R st"
  "stored P T R (st\<lparr>ob_equivocations := c\<rparr>) = stored P T R st" "stored P T R (st\<lparr>ob_policy_violations := d\<rparr>) = stored P T R st"
  "stored P T R (st\<lparr>ob_key_rotations := e\<rparr>) = stored P T R st" "stored P T R (st\<lparr>ob_key_revocations := f\<rparr>) = stored P T R st"
  by (simp_all add: stored_def)

lemma stored_marks [simp]:
  "stored P T R (mark_active Q st l k t) = stored P T R st"
  "stored P T R (mark_unresponsive Q st l k r t) = stored P T R st"
  "stored P T R (mark_blacklisted Q st l k r i t) = stored P T R st"
  by (simp_all add: mark_active_def mark_unresponsive_def mark_blacklisted_def stored_roots_simp Let_def split: option.splits)

lemma stored_record_root:
  assumes "stored P T R st" and "root \<in> R" and "verify_signed_root P T root None = Inr ()"
    and "record_root Q st root src t c = Inr st'"
  shows "stored P T R st'"
proof -
  have *: "(\<forall>x \<in> set xs. oi_root x \<in> R \<and> verify_signed_root P T (oi_root x) None = Inr ())
      \<longleftrightarrow> (\<forall>r \<in> set (map oi_root xs). r \<in> R \<and> verify_signed_root P T r None = Inr ())" for xs by simp
  from record_root_roots [OF assms(4)] obtain xs where "st' = st\<lparr>ob_roots := xs\<rparr>"
    and "set (map oi_root xs) \<subseteq> insert root (set (map oi_root (ob_roots st)))" by fastforce
  with assms(1-3) show ?thesis unfolding stored_def * by auto
qed

lemma stored_prune:
  assumes "stored P T R st" and "prune_matching Q st m n = Inr st'"
  shows "stored P T R st'"
proof -
  from assms(1) have "distinct (map pi_key (ob_peer_roots st))" by (simp add: stored_def)
  from prune_matching_spec [OF assms(2) this] obtain gone
    where "st' = st\<lparr>ob_peer_roots := filter (\<lambda>x. pi_key x \<notin> gone) (ob_peer_roots st)\<rparr>" by blast
  with assms(1) show ?thesis by (simp add: stored_def distinct_map_filter)
qed

lemma stored_peer_root:
  assumes "stored P T R st" and "root \<in> R" and "verify_signed_root P T root None = Inr ()"
    and "record_peer_root (at_time P n) st root peer mh t m1 m2 = Inr st'"
  shows "stored P T R st'"
proof -
  from assms(4) obtain i where i: "signed_root_id P root = Inr i"
    by (auto simp: record_peer_root_def Let_def bindE_Inr_iff)
  let ?p = "text_or peer ''unknown-peer''"
  let ?item = "\<lparr>pi_key = (i, ?p), pi_root_id = i, pi_root = root, pi_peer_id = ?p,
          pi_message_hash = text_or mh i, pi_received_at = time_or_now (at_time P n) t\<rparr>"
  show ?thesis
  proof (cases "(i, ?p) \<in> pi_key ` set (ob_peer_roots st)")
    case True
    with assms(1,4) i show ?thesis by (simp add: record_peer_root_def Let_def)
  next
    case False
    with assms(1-3) i have "stored P T R (st\<lparr>ob_peer_roots := ob_peer_roots st @ [?item]\<rparr>)"
      by (auto simp: stored_def)
    moreover from assms(4) i False obtain st1 where
      "prune_peer_roots (at_time P n) (st\<lparr>ob_peer_roots := ob_peer_roots st @ [?item]\<rparr>) ?p (root_log root) m1 = Inr st1"
      "(case m2 of None \<Rightarrow> Inr st1 | Some m \<Rightarrow> prune_peer_roots_for_log (at_time P n) st1 (root_log root) m) = Inr st'"
      by (auto simp: record_peer_root_def Let_def bindE_Inr_iff)
    ultimately show ?thesis
      by (auto simp: prune_peer_roots_def prune_peer_roots_for_log_def dest: stored_prune split: option.splits)
  qed
qed

section \<open>Finding a contradiction\<close>

lemma update_subset: "set (AList.update k v xs) \<subseteq> insert (k, v) (set xs)"
  by (induction xs) auto

lemma dict_of_pairs_spec: "set (dict_of_pairs kvs) \<subseteq> set kvs \<and> fst ` set (dict_of_pairs kvs) = fst ` set kvs"
proof (induction kvs rule: rev_induct)
  case (snoc x kvs)
  then show ?case
    using update_subset [of "fst x" "snd x" "dict_of_pairs kvs"]
    by (cases x) (auto simp: dict_of_pairs_def dom_update)
qed (simp add: dict_of_pairs_def)

text \<open>The roots the store knows of a log: each is represented, under its id.\<close>

lemma roots_for_log_Inr:
  assumes "roots_for_log P st l = Inr rs"
  shows "set rs \<subseteq> set (observed_of st l) \<union> set (peer_roots_of st l)"
    and "r \<in> set (observed_of st l) \<union> set (peer_roots_of st l) \<Longrightarrow>
      \<exists>i r'. signed_root_id P r = Inr i \<and> r' \<in> set rs \<and> signed_root_id P r' = Inr i"
proof -
  let ?all = "observed_of st l @ peer_roots_of st l"
  from assms obtain pairs where "mapE (\<lambda>r. bindE (signed_root_id P r) (\<lambda>i. Inr (i, r))) ?all = Inr pairs"
    and rs: "rs = map snd (dict_of_pairs pairs)"
    unfolding roots_for_log_def bindE_Inr_iff by auto
  then have "list_all2 (\<lambda>r p. signed_root_id P r = Inr (fst p) \<and> snd p = r) ?all pairs"
    unfolding mapE_Inr_iff by (elim list_all2_mono) (auto simp: bindE_Inr_iff)
  then have len: "length ?all = length pairs"
    and p: "\<And>n. n < length ?all \<Longrightarrow> signed_root_id P (?all ! n) = Inr (fst (pairs ! n)) \<and> snd (pairs ! n) = ?all ! n"
    by (auto simp: list_all2_conv_all_nth)
  have member: "snd q \<in> set ?all \<and> signed_root_id P (snd q) = Inr (fst q)" if "q \<in> set pairs" for q
    using that p len by (metis in_set_conv_nth)
  show "set rs \<subseteq> set (observed_of st l) \<union> set (peer_roots_of st l)"
    using dict_of_pairs_spec [of pairs] member by (fastforce simp: rs)
  assume "r \<in> set (observed_of st l) \<union> set (peer_roots_of st l)"
  then obtain n where n: "n < length ?all" "r = ?all ! n" by (metis in_set_conv_nth set_append)
  then have "fst (pairs ! n) \<in> fst ` set (dict_of_pairs pairs)"
    using len dict_of_pairs_spec [of pairs] by simp
  then obtain q where "q \<in> set (dict_of_pairs pairs)" "fst q = fst (pairs ! n)" by auto
  moreover from this(1) dict_of_pairs_spec [of pairs] have "q \<in> set pairs" by blast
  from member [OF this] have "signed_root_id P (snd q) = Inr (fst q)" ..
  moreover have "signed_root_id P r = Inr (fst (pairs ! n))" using p [OF n(1)] n(2) by simp
  ultimately show "\<exists>i r'. signed_root_id P r = Inr i \<and> r' \<in> set rs \<and> signed_root_id P r' = Inr i"
    unfolding rs set_map by (metis imageI)
qed

lemma first_collision_None:
  "first_collision P i root ps = Inr None \<Longrightarrow> p \<in> set ps \<Longrightarrow>
    \<exists>j. signed_root_id P p = Inr j \<and> (j = i \<or> equivocation_collision_type P p root = Inr None)"
  by (induction ps) (auto simp: bindE_Inr_iff split: if_splits option.splits)

lemma first_collision_Some:
  "first_collision P i root ps = Inr (Some (c, p)) \<Longrightarrow> p \<in> set ps \<and> equivocation_collision_type P p root = Inr (Some c)"
  by (induction ps) (auto simp: bindE_Inr_iff split: if_splits option.splits)

text \<open>Two roots of one log agree when they do not differ at a common size or time.\<close>

definition agree :: "json \<Rightarrow> json \<Rightarrow> bool" where
  "agree a b \<longleftrightarrow> (root_log a = root_log b \<longrightarrow> root_size a = root_size b \<or> root_time a = root_time b \<longrightarrow>
     root_fingerprint a = root_fingerprint b)"

lemma agree_sym: "agree a b \<Longrightarrow> agree b a"
  by (auto simp: agree_def)

lemma agree_refl [simp]: "agree a a"
  by (simp add: agree_def)

text \<open>Among the roots that circulate, ids identify content: a counterexample is a collision of the hash.\<close>

definition ids_identify :: "platform \<Rightarrow> json set \<Rightarrow> bool" where
  "ids_identify P R \<longleftrightarrow> (\<forall>a \<in> R. \<forall>b \<in> R. \<forall>i. signed_root_id P a = Inr i \<longrightarrow> signed_root_id P b = Inr i \<longrightarrow>
     root_fingerprint a = root_fingerprint b \<and> root_time a = root_time b)"

lemma ids_identifyD:
  "ids_identify P R \<Longrightarrow> a \<in> R \<Longrightarrow> b \<in> R \<Longrightarrow> signed_root_id P a = Inr i \<Longrightarrow> signed_root_id P b = Inr i \<Longrightarrow>
    root_fingerprint a = root_fingerprint b \<and> root_time a = root_time b"
  unfolding ids_identify_def by blast

lemma jget_in_keys: "jget r k = Some v \<Longrightarrow> k \<in> set (dict_keys r)"
  by (cases r) (auto simp: jget_def dest: map_of_SomeD intro: rev_image_eqI)

lemma verified_fingerprint:
  assumes "verify_signed_root P T r None = Inr ()"
  shows "\<exists>f. root_fingerprint r = Inr f \<and> fst f = root_size r"
proof -
  from assms obtain h where h: "jget r ''root_hash'' = Some h" and c: "check_spend_map_commitment r = Inr ()"
    by (auto simp: verify_signed_root_Inr_iff root_fields_def)
  have "\<exists>m. (case jget r ''spend_map_size'' of None \<Rightarrow> Inr 0 | Some _ \<Rightarrow> int_at r ''spend_map_size'') = Inr (m :: int)"
  proof (cases "jget r ''spend_map_size''")
    case (Some v)
    then have "''spend_map_size'' \<in> set (dict_keys r)" by (rule jget_in_keys)
    with c obtain n where "jget r ''spend_map_size'' = Some (JInt n)"
      unfolding check_spend_map_commitment_def
      by (auto simp: SPEND_MAP_FIELDS_def bindE_Inr_iff jat_Inr_iff require_int_for_Inr_iff split: if_splits)
    then show ?thesis by (simp add: int_at_def jat_def)
  qed simp
  with verified_root_log(2) [OF assms] h show ?thesis
    by (auto simp: root_fingerprint_def int_at_def jat_def)
qed

lemma no_collision_agree:
  assumes v: "verify_signed_root P T a None = Inr ()" "verify_signed_root P T b None = Inr ()"
    and "equivocation_collision_type P a b = Inr None" and R: "ids_identify P R" "a \<in> R" "b \<in> R"
  shows "agree a b"
proof (cases "\<exists>i. signed_root_id P a = Inr i \<and> signed_root_id P b = Inr i")
  case True
  then obtain i where "signed_root_id P a = Inr i" "signed_root_id P b = Inr i" by blast
  from ids_identifyD [OF R this] show ?thesis by (simp add: agree_def)
next
  case False
  from verified_fingerprint [OF v(1)] verified_fingerprint [OF v(2)] obtain fa fb where
    f: "root_fingerprint a = Inr fa" "fst fa = root_size a" "root_fingerprint b = Inr fb" "fst fb = root_size b" by blast
  have "int_at a ''timestamp'' = Inr (root_time a)" "int_at b ''timestamp'' = Inr (root_time b)"
    using verified_root_log(3) [OF v(1)] verified_root_log(3) [OF v(2)] by (simp_all add: int_at_Inr_iff)
  with assms(3) False f verified_root_log(1) [OF v(1)] verified_root_log(1) [OF v(2)] show ?thesis
    unfolding agree_def equivocation_collision_type_def bindE_Inr_iff jat_Inr_iff
    by (auto simp: bindE_Inr_iff split: if_splits)
qed

lemma find_equivocation_None:
  assumes s: "stored P T R st" and v: "verify_signed_root P T root None = Inr ()" "root \<in> R" and R: "ids_identify P R"
    and f: "find_equivocation P st root = Inr None" and p: "x \<in> set (ob_roots st)"
  shows "agree (oi_root x) root"
proof (cases "root_log (oi_root x) = root_log root")
  case True
  from f verified_root_log(1) [OF v(1)] obtain i rs where i: "signed_root_id P root = Inr i"
    "roots_for_log P st (root_log root) = Inr rs" "first_collision P i root rs = Inr None"
    by (auto simp: find_equivocation_def bindE_Inr_iff str_at_Inr_iff)
  have "oi_root x \<in> set (observed_of st (root_log root))" using p True by (simp add: observed_of_def)
  with roots_for_log_Inr(2) [OF i(2)] obtain j r where r: "signed_root_id P (oi_root x) = Inr j" "r \<in> set rs" "signed_root_id P r = Inr j"
    by blast
  have "r \<in> set (observed_of st (root_log root)) \<union> set (peer_roots_of st (root_log root))"
    using roots_for_log_Inr(1) [OF i(2)] r(2) by blast
  with s have rR: "r \<in> R" "verify_signed_root P T r None = Inr ()" "root_log r = root_log root"
    by (auto simp: observed_of_def peer_roots_of_def stored_def)
  have xR: "oi_root x \<in> R" "verify_signed_root P T (oi_root x) None = Inr ()" using s p by (auto simp: stored_def)
  have same: "root_fingerprint (oi_root x) = root_fingerprint r" "root_time (oi_root x) = root_time r"
    using ids_identifyD [OF R xR(1) rR(1) r(1,3)] by simp_all
  from verified_fingerprint [OF rR(2)] verified_fingerprint [OF xR(2)] obtain fr fx where
    "root_fingerprint r = Inr fr" "fst fr = root_size r" "root_fingerprint (oi_root x) = Inr fx" "fst fx = root_size (oi_root x)"
    by blast
  with same(1) have size: "root_size (oi_root x) = root_size r" by simp
  have "agree r root"
  proof (cases "j = i")
    case True
    with ids_identifyD [OF R rR(1) v(2) r(3)] i(1) show ?thesis by (simp add: agree_def)
  next
    case False
    with first_collision_None [OF i(3) r(2)] r(3) have "equivocation_collision_type P r root = Inr None" by simp
    with rR v R show ?thesis by (intro no_collision_agree) auto
  qed
  with same size rR(3) True show ?thesis by (simp add: agree_def)
qed (simp add: agree_def)

lemma find_equivocation_Some:
  assumes s: "stored P T R st" and v: "verify_signed_root P T root None = Inr ()"
    and f: "find_equivocation P st root = Inr (Some (c, p))"
  shows "p \<in> R" and "verify_signed_root P T p None = Inr ()" and "root_log p = root_log root" and "contradict p root c"
proof -
  from f verified_root_log(1) [OF v] obtain i rs where i: "roots_for_log P st (root_log root) = Inr rs"
    "first_collision P i root rs = Inr (Some (c, p))"
    by (auto simp: find_equivocation_def bindE_Inr_iff str_at_Inr_iff)
  from first_collision_Some [OF i(2)] have p: "p \<in> set rs" "equivocation_collision_type P p root = Inr (Some c)" by auto
  have "p \<in> set (observed_of st (root_log root)) \<union> set (peer_roots_of st (root_log root))"
    using roots_for_log_Inr(1) [OF i(1)] p(1) by blast
  with s show "p \<in> R" "verify_signed_root P T p None = Inr ()" "root_log p = root_log root"
    by (auto simp: observed_of_def peer_roots_of_def stored_def)
  show "contradict p root c"
    using p(2) unfolding equivocation_collision_Some_iff contradict_def by (auto split: if_splits)
qed

end
