(* ===== verification/VerifierKeeps.thy ===== *)
theory VerifierKeeps
  imports VerifierLaws
begin

text \<open>
  The runs of a verifier and what holds along them. \<open>store_invariant\<close> is the interface between the
  verifier and its store: a property of the store that survives the few ways in which the verifier
  changes it holds after every operation, whatever mirrors, operator and peers answer. The invariants
  are its interpretations.
\<close>

section \<open>Triples for pairs of changes\<close>

lemma triple_update_change:
  assumes "\<And>s x st. Pre s \<Longrightarrow> f (vf_store s) = Inr (x, st) \<Longrightarrow> Mid x (s\<lparr>vf_store := g x st\<rparr>)"
    and "\<And>s. Pre s \<Longrightarrow> Err s" and "\<And>x. triple (Mid x) (h x) Post Err"
  shows "triple Pre (bindA (updates_store f) (\<lambda>x. bindA (changes_store (\<lambda>st. Inr (g x st))) (\<lambda>_. h x))) Post Err"
  unfolding triple_def
proof (intro allI impI)
  fix s
  assume "Pre s"
  show "case bindA (updates_store f) (\<lambda>x. bindA (changes_store (\<lambda>st. Inr (g x st))) (\<lambda>_. h x)) s of
      (Inr x, s') \<Rightarrow> Post x s' | (Inl e, s') \<Rightarrow> Err s'"
  proof (cases "f (vf_store s)")
    case (Inl e)
    with assms(2) \<open>Pre s\<close> show ?thesis by (simp add: bindA_def updates_store_def)
  next
    case (Inr y)
    obtain x st where y: "y = (x, st)" by (cases y)
    from assms(1) [OF \<open>Pre s\<close> Inr [unfolded y]] assms(3) [of x] show ?thesis
      by (simp add: triple_def bindA_def updates_store_def changes_store_def Inr y)
  qed
qed

lemma triple_change_change:
  assumes "\<And>s st. Pre s \<Longrightarrow> f (vf_store s) = Inr st \<Longrightarrow> Mid (s\<lparr>vf_store := g st\<rparr>)"
    and "\<And>s. Pre s \<Longrightarrow> Err s" and "triple Mid h Post Err"
  shows "triple Pre (bindA (changes_store f) (\<lambda>_. bindA (changes_store (\<lambda>st. Inr (g st))) (\<lambda>_. h))) Post Err"
  unfolding changes_store_def [of f]
  by (rule triple_update_change [where g = "\<lambda>_. g", OF _ assms(2,3)])
    (auto simp: bindE_Inr_iff dest: assms(1))

text \<open>Actions that leave the store alone.\<close>

definition store_kept :: "'a act \<Rightarrow> bool" where
  "store_kept m = (\<forall>s. vf_store (snd (m s)) = vf_store s)"

lemma store_kept_triple:
  assumes "store_kept m"
  shows "triple (\<lambda>s. K (vf_store s)) m (\<lambda>_ s. K (vf_store s)) (\<lambda>s. K (vf_store s))"
proof -
  have "vf_store s' = vf_store s" if "m s = (r, s')" for s s' r
    using assms that unfolding store_kept_def by (metis snd_conv)
  then show ?thesis by (auto simp: triple_def split: prod.splits sum.splits)
qed

lemma queues_keep_store: "store_kept (queue_root_announcement P T root)" "store_kept (queue_evidence P proof)"
  "store_kept consume_pending_gossip_messages"
  by (simp_all add: store_kept_def queue_root_announcement_def queue_evidence_def consume_pending_gossip_messages_def Let_def
      split: sum.splits)

lemma check_pair_keeps_store: "store_kept (check_pair P T C N a b l)"
  by (simp add: store_kept_def check_pair_def Let_def split: sum.splits)

lemma last_sort_key: "xs \<noteq> [] \<Longrightarrow> last (sort_key f xs) \<in> set xs"
  by (metis last_in_set set_empty set_sort)

section \<open>The interface\<close>

definition holds :: "platform \<Rightarrow> transparency \<Rightarrow> json set \<Rightarrow> (observed_store \<Rightarrow> bool) \<Rightarrow> verifier \<Rightarrow> bool" where
  "holds P T R J s \<longleftrightarrow> stored P T R (vf_store s) \<and> J (vf_store s)"

lemma holds_update [simp]: "holds P T R J (s\<lparr>vf_store := st\<rparr>) \<longleftrightarrow> stored P T R st \<and> J st"
  "holds P T R J (s\<lparr>vf_refreshing := x\<rparr>) = holds P T R J s"
  by (simp_all add: holds_def)

abbreviation valid_root :: "platform \<Rightarrow> transparency \<Rightarrow> json set \<Rightarrow> json \<Rightarrow> bool" where
  "valid_root P T R r \<equiv> r \<in> R \<and> verify_signed_root P T r None = Inr ()"

text \<open>
  The answers of the operator to requests for a consistency proof: two sizes, and what the request returned or
  raised. A comparison of an old and a new root has failed when the roots differ at one size, when the smaller one is
  the later one, or when the operator, asked to prove the larger root from the smaller one, gave a proof that does not
  verify (or raised that error itself).
\<close>

type_synonym proof_answers = "(int \<times> int \<times> json res) set"

definition proofs_in :: "proof_answers \<Rightarrow> network \<Rightarrow> bool" where
  "proofs_in A N \<longleftrightarrow> (\<forall>i j. (i, j, nw_consistency_proof N i j) \<in> A)"

definition refuted :: "platform \<Rightarrow> transparency \<Rightarrow> proof_answers \<Rightarrow> json \<Rightarrow> json \<Rightarrow> string \<Rightarrow> bool" where
  "refuted P T A small large m \<longleftrightarrow> root_size small < root_size large
     \<and> (\<exists>answer. (root_size small, root_size large, answer) \<in> A \<and> (answer = Inl (ConsistencyProofError m)
         \<or> (\<exists>proof share. answer = Inr proof
              \<and> verify_consistency_proof P T small large proof None share = Inl (ConsistencyProofError m))))"

definition failed_comparison :: "platform \<Rightarrow> transparency \<Rightarrow> proof_answers \<Rightarrow> json \<Rightarrow> json \<Rightarrow> string \<Rightarrow> bool" where
  "failed_comparison P T A old new m \<longleftrightarrow>
     root_size old = root_size new \<and> jget old ''root_hash'' \<noteq> jget new ''root_hash''
     \<or> root_size new < root_size old \<and> root_time old < root_time new
     \<or> refuted P T A old new m \<or> refuted P T A new old m"

lemma verify_consistency_clock [simp]: "verify_consistency_proof (at_time P n) T = verify_consistency_proof P T"
  by (simp add: verify_consistency_proof_def fun_eq_iff)

lemma consistency_error: "is_consistency_error e \<Longrightarrow> e = ConsistencyProofError (error_text e)"
  by (cases e) simp_all

text \<open>What makes the check of a pair raise the error that blacklists.\<close>

lemma check_pair_refutes:
  assumes "check_pair (at_time P n) T C N small large l s = (Inl e, s')" and "is_consistency_error e"
    and "root_size small < root_size large" and "proofs_in A N"
  shows "refuted P T A small large (error_text e)"
proof -
  note e = consistency_error [OF assms(2)]
  have a: "(root_size small, root_size large, nw_consistency_proof N (root_size small) (root_size large)) \<in> A"
    using assms(4) by (simp add: proofs_in_def)
  consider "nw_consistency_proof N (root_size small) (root_size large) = Inl e"
    | p share where "nw_consistency_proof N (root_size small) (root_size large) = Inr p"
        "verify_consistency_proof P T small large p None share = Inl e"
    using assms(1) by (auto simp: check_pair_def Let_def split: if_splits sum.splits)
  then show ?thesis
  proof cases
    case 1
    with a e assms(3) show ?thesis unfolding refuted_def by metis
  next
    case 2
    with a e assms(3) show ?thesis unfolding refuted_def by metis
  qed
qed

locale store_invariant =
  fixes P :: platform and T :: transparency and R :: "json set" and A :: proof_answers and J :: "observed_store \<Rightarrow> bool"
  assumes accepted: "\<lbrakk>stored P T R st; J st; valid_root P T R root; \<not> blacklisted st (root_log root);
      ob_roots st = [] \<or> find_equivocation P st root = Inr None; record_root (at_time P n) st root src (Some n) (Some n) = Inr st'\<rbrakk>
      \<Longrightarrow> J (mark_active (at_time P n) st' (root_log root) (root_key root) (Some n))"
    and unresponsive: "J st \<Longrightarrow> J (mark_unresponsive (at_time P n) st l k r t)"
    and equivocated: "\<lbrakk>stored P T R st; J st; valid_root P T R a; valid_root P T R b; root_log a = root_log b; contradict a b c;
      save_equivocation_evidence (at_time P n) T st a b c d = Inr (x, st')\<rbrakk>
      \<Longrightarrow> J (mark_blacklisted (at_time P n) st' (root_log a) (root_key a) r (fst x) t)"
    and violated: "\<lbrakk>stored P T R st; J st; save_operator_policy_violation (at_time P n) T st q = Inr (x, st');
      jget q ''root'' = Some root\<rbrakk> \<Longrightarrow> J (mark_blacklisted (at_time P n) st' (root_log root) (root_key root) r (fst x) t)"
    and inconsistent: "\<lbrakk>stored P T R st; J st; valid_root P T R a; valid_root P T R b; failed_comparison P T A a b m;
      save_consistency_failure (at_time P n) st a b m d = Inr (i, st')\<rbrakk>
      \<Longrightarrow> J (mark_blacklisted (at_time P n) st' (root_log a) (root_key b) r i t)"
    and remembered: "\<lbrakk>stored P T R st; J st; valid_root P T R root;
      record_peer_root (at_time P n) st root peer mh t m1 m2 = Inr st'\<rbrakk> \<Longrightarrow> J st'"
    and rotated: "J st \<Longrightarrow> record_key_rotation (at_time P n) st rot t = Inr (h, st') \<Longrightarrow> J st'"
    and revoked: "J st \<Longrightarrow> record_key_revocation (at_time P n) st rv t = Inr (h, st') \<Longrightarrow> J st'"
begin

lemma keeps_kept: "store_kept m \<Longrightarrow> keeps (holds P T R J) m"
  unfolding keeps_def holds_def by (rule store_kept_triple)

lemma stored_saves:
  assumes "stored P T R st"
  shows "save_equivocation_evidence Q T st a b c d = Inr (x, st') \<Longrightarrow> stored P T R st'"
    and "save_operator_policy_violation Q T st q = Inr (x, st') \<Longrightarrow> stored P T R st'"
    and "save_consistency_failure Q st a b m d = Inr (i, st') \<Longrightarrow> stored P T R st'"
    and "record_key_rotation Q st rot t = Inr (h, st') \<Longrightarrow> stored P T R st'"
    and "record_key_revocation Q st rv t = Inr (h, st') \<Longrightarrow> stored P T R st'"
  using assms
  by (auto simp: save_equivocation_evidence_def save_operator_policy_violation_def save_consistency_failure_def Let_def
      record_key_rotation_def record_key_revocation_def bindE_Inr_iff stored_roots_simp split: if_splits option.splits)

lemma queue_then_raise:
  "triple (holds P T R J) (bindA (queue_evidence Q p) (\<lambda>_. raises e)) Post (holds P T R J)"
  by (rule triple_bind [where Mid = "\<lambda>_. holds P T R J"])
    (use keeps_kept [OF queues_keep_store(2)] in \<open>auto simp: keeps_def intro: triple_raises\<close>)

lemma handle_equivocation_keeps:
  assumes "valid_root P T R a" "valid_root P T R b" "root_log a = root_log b" "contradict a b c"
  shows "triple (holds P T R J) (handle_equivocation (at_time P n) T a b c) Post (holds P T R J)"
  unfolding handle_equivocation_def split_def
proof (rule triple_update_change [where Mid = "\<lambda>_. holds P T R J", OF _ _ queue_then_raise])
  fix s x st
  assume "holds P T R J s"
    and save: "save_equivocation_evidence (at_time P n) T (vf_store s) a b c (Some (pf_clock (at_time P n))) = Inr (x, st)"
  then have h: "stored P T R (vf_store s)" "J (vf_store s)" by (simp_all add: holds_def)
  from stored_saves(1) [OF h(1) save] equivocated [OF h assms save]
  show "holds P T R J (s\<lparr>vf_store := mark_blacklisted (at_time P n) st (root_log a) (root_key a) (''equivocation '' @ c) (fst x)
      (Some (pf_clock (at_time P n)))\<rparr>)" by simp
qed

lemma handle_violation_keeps: "keeps (holds P T R J) (handle_operator_policy_violation (at_time P n) T C q)"
  unfolding handle_operator_policy_violation_def keeps_def split_def
proof (rule triple_bind [where Mid = "\<lambda>p. holds P T R J"], goal_cases)
  case (2 p)
  show ?case
  proof (rule triple_bind [where Mid = "\<lambda>root s. holds P T R J s \<and> jget p ''root'' = Some root"], goal_cases)
    case (2 root)
    show ?case
    proof (rule triple_update_change [where Mid = "\<lambda>_. holds P T R J"], goal_cases)
      case (1 s x st)
      then have h: "stored P T R (vf_store s)" "J (vf_store s)" and r: "jget p ''root'' = Some root" by (simp_all add: holds_def)
      from stored_saves(2) [OF h(1) 1(2)] violated [OF h 1(2) r] show ?case by simp
    next
      case (3 x)
      show ?case
        by (rule triple_bind [where Mid = "\<lambda>_. holds P T R J"])
          (use keeps_kept [OF queues_keep_store(2)] in \<open>auto simp: keeps_def intro: triple_returns\<close>)
    qed simp
  qed (auto intro!: triple_lifts simp: jat_Inr_iff)
qed (auto intro!: triple_lifts)

lemma handle_failure_keeps:
  assumes "valid_root P T R a" "valid_root P T R b" "failed_comparison P T A a b (error_text e)"
  shows "triple (holds P T R J) (handle_consistency_failure (at_time P n) a b e) Post (holds P T R J)"
  unfolding handle_consistency_failure_def
proof (rule triple_update_change [where Mid = "\<lambda>_. holds P T R J"], goal_cases)
  case (1 s i st)
  then have h: "stored P T R (vf_store s)" "J (vf_store s)" by (simp_all add: holds_def)
  from stored_saves(3) [OF h(1) 1(2)] inconsistent [OF h assms 1(2)] show ?case by simp
next
  case (3 i)
  show ?case
    by (rule triple_bind [where Mid = "\<lambda>_. holds P T R J"]) (auto intro!: triple_reads triple_raises)
qed

text \<open>What holds of the store when a root is accepted.\<close>

definition guarded :: "json \<Rightarrow> observed_store \<Rightarrow> bool" where
  "guarded root st \<longleftrightarrow> stored P T R st \<and> J st \<and> valid_root P T R root \<and> \<not> blacklisted st (root_log root)
     \<and> find_equivocation P st root = Inr None"

lemma accept_root_keeps:
  "triple (\<lambda>s. guarded root (vf_store s)) (accept_root (at_time P n) T root src) (\<lambda>_. holds P T R J) (holds P T R J)"
  unfolding accept_root_def
proof (rule triple_change_change [where Mid = "holds P T R J"], goal_cases)
  case (1 s st)
  then have g: "stored P T R (vf_store s)" "J (vf_store s)" "valid_root P T R root" "\<not> blacklisted (vf_store s) (root_log root)"
    "find_equivocation P (vf_store s) root = Inr None" by (simp_all add: guarded_def)
  have r: "record_root (at_time P n) (vf_store s) root src (Some n) (Some n) = Inr st" using 1(2) by simp
  have "stored P T R st" using g(3) by (intro stored_record_root [OF g(1) _ _ r]) simp_all
  with accepted [OF g(1-4) disjI2 [OF g(5)] r] show ?case by simp
next
  case (2 s)
  then show ?case by (simp add: guarded_def holds_def)
next
  case 3
  show ?case using keeps_kept [OF queues_keep_store(1)] by (simp add: keeps_def)
qed

lemma detect_keeps:
  assumes "valid_root P T R root"
  shows "triple (\<lambda>s. holds P T R J s \<and> G (vf_store s)) (detect_and_handle_equivocation (at_time P n) T root)
    (\<lambda>_ s. holds P T R J s \<and> G (vf_store s) \<and> find_equivocation P (vf_store s) root = Inr None) (holds P T R J)"
  unfolding detect_and_handle_equivocation_def
proof (rule triple_bind [where Mid = "\<lambda>e s. holds P T R J s \<and> G (vf_store s) \<and> find_equivocation P (vf_store s) root = Inr e"], goal_cases)
  case (2 e)
  show ?case
  proof (cases e)
    case None
    then show ?thesis by (auto intro!: triple_returns)
  next
    case (Some cp)
    obtain c p where cp: "cp = (c, p)" by (cases cp)
    show ?thesis
    proof (cases "valid_root P T R p \<and> root_log p = root_log root \<and> contradict p root c")
      case True
      with assms Some cp show ?thesis
        by (auto intro!: triple_weaken [OF handle_equivocation_keeps [where Post = "\<lambda>_ _. False"]])
    next
      case False
      have "\<not> (holds P T R J s \<and> find_equivocation P (vf_store s) root = Inr e)" for s
        using find_equivocation_Some [of P T R "vf_store s" root c p] assms False by (auto simp: holds_def Some cp)
      then show ?thesis unfolding triple_def by blast
    qed
  qed
qed (auto intro!: triple_reads)

lemma enforce_keeps:
  assumes "keeps (holds P T R J) (refresh l)"
  shows "keeps (holds P T R J) (enforce_consistency_freshness (at_time P n) C refresh l)"
  unfolding enforce_consistency_freshness_def split_def
proof (rule keeps_bind)
  have "keeps (holds P T R J) (bindA (refresh l) (\<lambda>ok. if ok then returns () else raises e))" for e
  proof (rule keeps_bind [OF assms])
    show "keeps (holds P T R J) (if ok then returns () else raises e)" for ok by (cases ok) auto
  qed
  then show "keeps (holds P T R J) (if (case fst x of None \<Rightarrow> False | Some s \<Rightarrow> os_status s = Blacklisted)
      then raises (ConsistencyProofError (blacklisted_message (fst x)))
      else if \<not> vc_strict C then returns ()
      else case last_success (fst x) of
        None \<Rightarrow> if snd x = None then returns ()
          else raises (ConsistencyUnavailableError ''strict transparency mode has no successful consistency baseline'')
      | Some t \<Rightarrow> if pf_clock (at_time P n) - t \<le> vc_max_stale C then returns ()
          else bindA (refresh l) (\<lambda>ok. if ok then returns ()
            else raises (ConsistencyUnavailableError ''strict transparency mode requires a successful consistency check'')))"
    for x by (auto split: option.splits)
qed auto

lemma accept_root_total:
  assumes "guarded root (vf_store s)"
  shows "\<exists>s'. accept_root (at_time P n) T root src s = (Inr (), s')"
proof -
  from assms have v: "verify_signed_root P T root None = Inr ()" and f: "find_equivocation P (vf_store s) root = Inr None"
    by (simp_all add: guarded_def)
  from f obtain i where "signed_root_id P root = Inr i" by (auto simp: find_equivocation_def bindE_Inr_iff)
  with v have "\<exists>s'. queue_root_announcement (at_time P n) T root u = (Inr (), s')" for u
    by (simp add: queue_root_announcement_def make_root_announcement_def Let_def)
  with record_root_total [OF v, of "at_time P n" "vf_store s" src "Some n" "Some n"] show ?thesis
    by (auto simp: accept_root_def bindA_def changes_store_def updates_store_def)
qed

lemma compare_fails:
  assumes g: "guarded root (vf_store s)" and "proofs_in A N" and sizes: "root_size previous \<noteq> root_size root"
    and run: "bindA (check_pair (at_time P n) T C N (if root_size root < root_size previous then root else previous)
      (if root_size root < root_size previous then previous else root) l) (\<lambda>_. accept_root (at_time P n) T root src) s = (Inl e, s')"
    and e: "is_consistency_error e"
  shows "failed_comparison P T A previous root (error_text e)"
proof -
  let ?small = "if root_size root < root_size previous then root else previous"
  let ?large = "if root_size root < root_size previous then previous else root"
  obtain r t where c: "check_pair (at_time P n) T C N ?small ?large l s = (r, t)" by (cases "check_pair (at_time P n) T C N ?small ?large l s")
  have "vf_store t = vf_store s" using check_pair_keeps_store c unfolding store_kept_def by (metis snd_conv)
  with g have "\<exists>u. accept_root (at_time P n) T root src t = (Inr (), u)" using accept_root_total by simp
  with run c have "r = Inl e" by (cases r) (auto simp: bindA_def)
  with c have "check_pair (at_time P n) T C N ?small ?large l s = (Inl e, t)" by simp
  from check_pair_refutes [OF this e _ assms(2)] sizes have "refuted P T A ?small ?large (error_text e)" by simp
  then show ?thesis by (auto simp: failed_comparison_def split: if_splits)
qed

lemma compare_keeps:
  assumes refresh: "keeps (holds P T R J) (refresh (root_log root))" and p: "valid_root P T R previous" and r: "valid_root P T R root"
    and "proofs_in A N" and "root_size previous \<noteq> root_size root"
  shows "triple (\<lambda>s. guarded root (vf_store s)) (compare_roots (at_time P n) T C N refresh previous root src)
    (\<lambda>_. holds P T R J) (holds P T R J)"
  unfolding compare_roots_def Let_def
proof (rule triple_catches_error [where Mid = "holds P T R J" and
    Q = "\<lambda>e. is_consistency_error e \<longrightarrow> failed_comparison P T A previous root (error_text e)"], goal_cases)
  case 1
  show ?case
  proof (rule triple_bind [where Mid = "\<lambda>_ s. guarded root (vf_store s)"])
    show "triple (\<lambda>s. guarded root (vf_store s)) (check_pair (at_time P n) T C N a b l) (\<lambda>_ s. guarded root (vf_store s)) (holds P T R J)"
      for a b l
      by (rule triple_weaken [OF store_kept_triple [OF check_pair_keeps_store, where K = "guarded root"]])
        (auto simp: guarded_def holds_def)
  qed (rule accept_root_keeps)
next
  case (2 s e s')
  then show ?case using compare_fails [OF _ assms(4,5)] by blast
next
  case (3 e)
  show ?case
  proof (rule triple_if)
    show "triple (holds P T R J) (handle_consistency_failure (at_time P n) previous root e) (\<lambda>_. holds P T R J) (holds P T R J)"
      if "is_consistency_error e" using that 3 by (intro handle_failure_keeps [OF p r]) blast
    show "triple (holds P T R J) (bindA (changes_store (\<lambda>st. Inr (mark_unresponsive (at_time P n) st (root_log root) (root_key root)
        (error_text e) (Some (pf_clock (at_time P n)))))) (\<lambda>_. enforce_consistency_freshness (at_time P n) C refresh (root_log root)))
        (\<lambda>_. holds P T R J) (holds P T R J)"
      by (rule triple_bind [where Mid = "\<lambda>_. holds P T R J"])
        (use enforce_keeps [of refresh "root_log root", OF refresh] in \<open>auto intro!: triple_changes simp: keeps_def holds_def unresponsive\<close>)
  qed
qed

lemma stored_latest:
  assumes "stored P T R st" and "latest_root st l = Some p"
  shows "valid_root P T R p"
proof -
  let ?rs = "observed_of st l"
  from assms(2) have "?rs \<noteq> []" and p: "p = last (sort_key (\<lambda>r. (root_size r, root_time r)) ?rs)"
    by (auto simp: latest_root_def split: list.splits)
  with last_sort_key have "p \<in> set ?rs" by blast
  with assms(1) show ?thesis by (auto simp: observed_of_def stored_def)
qed

lemma stored_previous:
  assumes "stored P T R st" and "previous_root st l k = Some p"
  shows "valid_root P T R p"
proof -
  have "latest_root st l = Some p \<or> latest_root st k = Some p"
  proof (cases "k = l")
    case True
    with assms(2) show ?thesis by (simp add: previous_root_def)
  next
    case False
    with assms(2) show ?thesis
      by (cases "latest_root st k"; cases "latest_root st l") (simp_all add: previous_root_def split: if_splits)
  qed
  then show ?thesis using stored_latest [OF assms(1)] by blast
qed

lemma observe_root_keeps:
  assumes refresh: "keeps (holds P T R J) (refresh (root_log root))" and R: "root \<in> R" and N: "proofs_in A N"
  shows "keeps (holds P T R J) (observe_root (at_time P n) T C N refresh root src)"
proof -
  let ?I = "holds P T R J"
  let ?ok = "\<lambda>s. guarded root (vf_store s)"
  have accept: "triple ?ok (bindA (accept_root (at_time P n) T root src) (\<lambda>_. returns root)) (\<lambda>_. ?I) ?I"
    by (rule triple_bind [OF accept_root_keeps]) (rule triple_returns)
  have accept_more: "triple ?ok (bindA (accept_root (at_time P n) T root src) (\<lambda>_.
      bindA (enforce_consistency_freshness (at_time P n) C refresh (root_log root)) (\<lambda>_. returns root))) (\<lambda>_. ?I) ?I"
    by (rule triple_bind [OF accept_root_keeps])
      (use keeps_bind [OF enforce_keeps [of refresh "root_log root", OF refresh] keeps_simple(1)] in \<open>simp add: keeps_def\<close>)
  have fail: "triple ?ok (handle_consistency_failure (at_time P n) p root e) (\<lambda>_. ?I) ?I"
    if "valid_root P T R p" "root_size p = root_size root" "jget p ''root_hash'' \<noteq> jget root ''root_hash''" for p e
  proof (cases "valid_root P T R root")
    case True
    have "failed_comparison P T A p root (error_text e)" using that(2,3) by (simp add: failed_comparison_def)
    from handle_failure_keeps [OF that(1) True this] show ?thesis by (rule triple_weaken) (simp_all add: guarded_def holds_def)
  qed (auto simp: triple_def guarded_def)
  have compare: "triple ?ok (bindA (compare_roots (at_time P n) T C N refresh p root src) (\<lambda>_. returns root)) (\<lambda>_. ?I) ?I"
    if "valid_root P T R p" "root_size p \<noteq> root_size root" for p
  proof (cases "valid_root P T R root")
    case True
    then show ?thesis
      by (rule triple_bind [OF compare_keeps [where N = N and refresh = refresh and root = root, OF refresh that(1) _ N that(2)]])
        (rule triple_returns)
  qed (auto simp: triple_def guarded_def)
  have body: "triple ?ok (case q of
       None \<Rightarrow> bindA (accept_root (at_time P n) T root src) (\<lambda>_. returns root)
     | Some p \<Rightarrow>
         if root_size p = root_size root
         then (if jget p ''root_hash'' = jget root ''root_hash''
               then bindA (accept_root (at_time P n) T root src) (\<lambda>_.
                    bindA (enforce_consistency_freshness (at_time P n) C refresh (root_log root)) (\<lambda>_. returns root))
               else handle_consistency_failure (at_time P n) p root
                 (ConsistencyProofError ''new observed root is not an append-only extension of the stored root''))
         else bindA (compare_roots (at_time P n) T C N refresh p root src) (\<lambda>_. returns root)) (\<lambda>_. ?I) ?I"
    if "\<forall>p. q = Some p \<longrightarrow> valid_root P T R p" for q
    using that accept accept_more fail compare by (cases q) (auto intro: triple_if)
  have rest: "triple (\<lambda>s. ?I s \<and> \<not> blacklisted (vf_store s) (root_log root))
     (bindA (detect_and_handle_equivocation (at_time P n) T root) (\<lambda>_.
      bindA (reads_store (\<lambda>st. Inr (previous_root st (root_log root) l))) (\<lambda>previous. case previous of
       None \<Rightarrow> bindA (accept_root (at_time P n) T root src) (\<lambda>_. returns root)
     | Some p \<Rightarrow>
         if root_size p = root_size root
         then (if jget p ''root_hash'' = jget root ''root_hash''
               then bindA (accept_root (at_time P n) T root src) (\<lambda>_.
                    bindA (enforce_consistency_freshness (at_time P n) C refresh (root_log root)) (\<lambda>_. returns root))
               else handle_consistency_failure (at_time P n) p root
                 (ConsistencyProofError ''new observed root is not an append-only extension of the stored root''))
         else bindA (compare_roots (at_time P n) T C N refresh p root src) (\<lambda>_. returns root)))) (\<lambda>_. ?I) ?I"
    if v: "valid_root P T R root" for l
  proof (rule triple_bind [OF detect_keeps [OF v, where G = "\<lambda>st. \<not> blacklisted st (root_log root)"]],
      rule triple_bind [where Mid = "\<lambda>q s. ?ok s \<and> (\<forall>p. q = Some p \<longrightarrow> valid_root P T R p)"], goal_cases)
    case 1
    show ?case by (rule triple_reads) (use v in \<open>auto simp: guarded_def holds_def dest: stored_previous\<close>)
  next
    case (2 x q)
    then show ?case using body [of q] by (auto simp: triple_def)
  qed
  show ?thesis
    unfolding keeps_def observe_root_def
  proof (rule triple_bind [where Mid = "\<lambda>(l, status) s. ?I s \<and> valid_root P T R root
      \<and> status = observed_status (vf_store s) (root_log root) l"], goal_cases)
    case 1
    show ?case
      by (rule triple_reads)
        (use R in \<open>auto simp: Let_def bindE_Inr_iff verify_signed_root_for_lineage_def\<close>)
  next
    case (2 x)
    obtain l status where x: "x = (l, status)" by (cases x)
    have nb: "\<not> blacklisted st (root_log root)"
      if "\<not> (case observed_status st (root_log root) l of None \<Rightarrow> False | Some s \<Rightarrow> os_status s = Blacklisted)" for st
      using that by (auto simp: blacklisted_def observed_status_def split: option.splits)
    show ?case
      unfolding x prod.case
    proof (rule triple_if, goal_cases)
      case 1
      show ?case by (rule triple_raises) auto
    next
      case 2
      show ?case
      proof (cases "valid_root P T R root")
        case True
        show ?thesis by (rule triple_weaken [OF rest [OF True]]) (use 2 nb in auto)
      qed (auto simp: triple_def)
    qed
  qed
qed

end

end
