(* ===== verification/MirrorKeeps.thy ===== *)
theory MirrorKeeps
  imports VerifierKeeps
begin

text \<open>
  The operations on the roots of the mirrors and on the messages of peers keep every store invariant.
\<close>

section \<open>What the network may show\<close>

definition answers_in :: "json set \<Rightarrow> proof_answers \<Rightarrow> network \<Rightarrow> bool" where
  "answers_in R A N \<longleftrightarrow> (\<forall>x \<in> set (nw_mirrors N). \<forall>r. snd x = Inr r \<longrightarrow> r \<in> R) \<and> proofs_in A N"

lemma answers_proofs: "answers_in R A N \<Longrightarrow> proofs_in A N"
  by (simp add: answers_in_def)

definition message_in :: "json set \<Rightarrow> json \<Rightarrow> bool" where
  "message_in R m \<longleftrightarrow> (\<forall>k \<in> {''root'', ''root_a'', ''root_b''}. \<forall>r. jget m k = Some r \<longrightarrow> r \<in> R)"

lemma triple_given: "(A \<Longrightarrow> triple Pre m Post Err) \<Longrightarrow> triple (\<lambda>s. Pre s \<and> A) m Post Err"
  by (auto simp: triple_def)

lemma keeps_if: "(c \<Longrightarrow> keeps I m) \<Longrightarrow> (\<not> c \<Longrightarrow> keeps I n) \<Longrightarrow> keeps I (if c then m else n)"
  by simp

lemma announced_root:
  assumes "verify_root_announcement P T m pin = Inr root"
  shows "jget m ''root'' = Some root" and "verify_signed_root P T root pin = Inr ()"
  using assms unfolding verify_root_announcement_def bindE_Inr_iff jat_Inr_iff if_Inl_Inr_iff by auto

lemma unpinned: "verify_signed_root P T r pin = Inr () \<Longrightarrow> verify_signed_root P T r None = Inr ()"
  by (auto simp: verify_signed_root_Inr_iff pinned_def)

lemma equivocation_roots:
  assumes "verify_equivocation_proof P T m None = Inr (l, c, a, b)"
  shows "jget m ''root_a'' = Some a" "jget m ''root_b'' = Some b"
    and "verify_signed_root P T a None = Inr ()" "verify_signed_root P T b None = Inr ()"
    and "root_log a = root_log b" "contradict a b c"
proof -
  from assms obtain ka kb where v: "verify_signed_root P T a None = Inr ()" "verify_signed_root P T b None = Inr ()"
    and ka: "jget a ''operator_public_key'' = Some (JStr ka)" "jget b ''operator_public_key'' = Some (JStr kb)" "strip ka = strip kb"
    and j: "jget m ''root_a'' = Some a" "jget m ''root_b'' = Some b"
    unfolding verify_equivocation_proof_def bindE_Inr_iff jat_Inr_iff str_at_Inr_iff if_Inl_Inr_iff Let_def by auto
  show "jget m ''root_a'' = Some a" "jget m ''root_b'' = Some b" by (fact j)+
  show "verify_signed_root P T a None = Inr ()" "verify_signed_root P T b None = Inr ()" by (fact v)+
  show "root_log a = root_log b"
    using verified_root_log(1) [OF v(1)] verified_root_log(1) [OF v(2)] ka by auto
  from verify_equivocation_sound [OF assms] show "contradict a b c" by blast
qed

context store_invariant
begin

section \<open>Roots of the mirrors\<close>

lemma sorted_le_last: "sorted ys \<Longrightarrow> y \<in> set ys \<Longrightarrow> y \<le> last ys"
  by (induction ys) auto

lemma last_sort_key_max:
  assumes "q \<in> set xs"
  shows "f q \<le> f (last (sort_key f xs))"
proof -
  have "f q \<in> set (map f (sort_key f xs))" using assms by (simp only: set_map set_sort image_eqI)
  from sorted_le_last [OF sorted_sort_key this] show ?thesis using assms by (subst (asm) last_map) (auto simp: set_empty [symmetric] simp del: set_empty)
qed

text \<open>The latest root of a log has its largest size, and the position at least the time of that root.\<close>

lemma latest_position:
  assumes "latest_root st l = Some p" and "observed_position st l = Some (h, t)"
  shows "root_size p = h" and "root_time p \<le> t"
proof -
  from assms obtain r rs where o: "observed_of st l = r # rs" by (auto simp: latest_root_def split: list.splits)
  let ?xs = "sort_key (\<lambda>r. (root_size r, root_time r)) (r # rs)"
  have p: "p = last ?xs" using assms(1) by (simp add: latest_root_def o)
  have mem: "p \<in> set (r # rs)" unfolding p by (rule last_sort_key) simp
  have top: "root_size q \<le> root_size p" if "q \<in> set (r # rs)" for q
    using last_sort_key_max [OF that, of "\<lambda>r. (root_size r, root_time r)"] unfolding p by auto
  have fold: "foldl max a xs = Max (insert a (set xs))" for a :: int and xs
  proof (induction xs arbitrary: a)
    case (Cons x xs)
    then show ?case by (cases "xs = []") (simp_all add: max.assoc)
  qed simp
  from assms(2) have ht: "h = Max (root_size ` set (r # rs))" "t = Max (root_time ` set (r # rs))"
    by (simp_all add: observed_position_def o fold)
  show "root_size p = h" unfolding ht(1) using mem top by (intro Max_eqI [symmetric]) auto
  show "root_time p \<le> t" unfolding ht(2) using mem by (intro Max_ge) auto
qed

lemma monotonicity_keeps:
  assumes "valid_root P T R root"
  shows "keeps (holds P T R J) (validate_current_root_monotonicity (at_time P n) root)"
  unfolding keeps_def validate_current_root_monotonicity_def split_def
proof (rule triple_bind [where Mid = "\<lambda>x s. holds P T R J s \<and> (\<forall>p. snd x = Some p \<longrightarrow> valid_root P T R p
    \<and> (\<forall>h t. fst x = Some (h, t) \<longrightarrow> root_size p = h \<and> root_time p \<le> t))"], goal_cases)
  case 1
  show ?case by (rule triple_reads) (auto simp: holds_def dest: stored_latest latest_position)
next
  case (2 x)
  show ?case
  proof (cases "fst x")
    case (Some y)
    obtain h t where y: "y = (h, t)" by (cases y)
    have fails: "triple (\<lambda>s. holds P T R J s \<and> (\<forall>p. snd x = Some p \<longrightarrow> valid_root P T R p
        \<and> (\<forall>h t. Some (h', t') = Some (h, t) \<longrightarrow> root_size p = h \<and> root_time p \<le> t)))
       (case snd x of Some previous \<Rightarrow> handle_consistency_failure (at_time P n) previous root e
        | None \<Rightarrow> raises e') (\<lambda>_. holds P T R J) (holds P T R J)" if "root_size root < h'" "t' < root_time root" for e e' h' t'
    proof (cases "snd x")
      case (Some p)
      have "failed_comparison P T A p root m" if "root_size p = h'" "root_time p \<le> t'" for m
        using that \<open>root_size root < h'\<close> \<open>t' < root_time root\<close> by (simp add: failed_comparison_def)
      then show ?thesis using handle_failure_keeps [OF _ assms, of p e n] by (auto simp: Some intro: triple_given)
    qed (auto intro: triple_raises)
    show ?thesis unfolding Some y option.case prod.case
      by (intro triple_if fails triple_returns triple_raises) auto
  qed (auto intro: triple_returns)
qed

lemma usable_root_keeps:
  assumes "\<forall>r. answer = Inr r \<longrightarrow> r \<in> R"
  shows "triple (holds P T R J) (usable_root (at_time P n) T C now answer) (\<lambda>r s. holds P T R J s \<and> r \<in> R) (holds P T R J)"
  unfolding usable_root_def
proof (rule triple_bind [where Mid = "\<lambda>r s. holds P T R J s \<and> r \<in> R"], goal_cases)
  case 1
  show ?case using assms by (auto intro!: triple_lifts)
next
  case (2 r)
  show ?case
  proof (rule triple_given, rule triple_bind [where Mid = "\<lambda>_ s. holds P T R J s \<and> valid_root P T R r"], goal_cases)
    case 1
    then show ?case by (auto intro!: triple_reads simp: verify_signed_root_for_lineage_def bindE_Inr_iff)
  next
    case (2 u)
    show ?case
    proof (rule triple_given)
      assume v: "valid_root P T R r"
      have "triple (holds P T R J) (bindA (validate_current_root_monotonicity (at_time P n) r) (\<lambda>_. returns r))
          (\<lambda>r s. holds P T R J s \<and> r \<in> R) (holds P T R J)"
        by (rule triple_bind [OF monotonicity_keeps [OF v, unfolded keeps_def]]) (use v in \<open>auto intro: triple_returns\<close>)
      then show "triple (holds P T R J) (bindA (lifts (validate_current_root_freshness C r now)) (\<lambda>_.
          bindA (validate_current_root_monotonicity (at_time P n) r) (\<lambda>_. returns r)))
          (\<lambda>r s. holds P T R J s \<and> r \<in> R) (holds P T R J)"
        by - (rule triple_bind [where Mid = "\<lambda>_. holds P T R J", OF triple_lifts], simp_all)
    qed
  qed
qed

lemma usable_roots_keeps:
  assumes "\<forall>x \<in> set ms. \<forall>r. snd x = Inr r \<longrightarrow> r \<in> R"
  shows "triple (holds P T R J) (usable_roots (at_time P n) T C now ms) (\<lambda>xs s. holds P T R J s \<and> snd ` set xs \<subseteq> R) (holds P T R J)"
  using assms
proof (induction ms)
  case Nil
  show ?case unfolding usable_roots.simps by (rule triple_returns) simp
next
  case (Cons m ms)
  obtain i a where m: "m = (i, a)" by (cases m)
  let ?post = "\<lambda>xs s. holds P T R J s \<and> snd ` set xs \<subseteq> R"
  have one: "triple (holds P T R J) (catches (bindA (usable_root (at_time P n) T C now a) (\<lambda>root. returns [(i, root)]))
      (\<lambda>e. if is_fatal e then raises e else returns [])) ?post (holds P T R J)"
  proof (rule triple_catches)
    show "triple (holds P T R J) (bindA (usable_root (at_time P n) T C now a) (\<lambda>root. returns [(i, root)])) ?post (holds P T R J)"
      by (rule triple_bind [OF usable_root_keeps]) (use Cons.prems in \<open>auto simp: m intro: triple_returns\<close>)
    show "triple (holds P T R J) (if is_fatal e then raises e else returns []) ?post (holds P T R J)" for e
      by (intro triple_if triple_raises triple_returns) auto
  qed
  from Cons have rest: "triple (holds P T R J) (usable_roots (at_time P n) T C now ms) ?post (holds P T R J)" by simp
  show ?case unfolding m usable_roots.simps
  proof (rule triple_bind [OF one])
    fix xs
    show "triple (?post xs) (bindA (usable_roots (at_time P n) T C now ms) (\<lambda>ys. returns (xs @ ys))) ?post (holds P T R J)"
      by (rule triple_given, rule triple_bind [OF rest]) (rule triple_returns, simp add: image_Un)
  qed
qed

lemma observe_roots_keeps:
  assumes "\<And>r i. r \<in> R \<Longrightarrow> keeps (holds P T R J) (obs r i)"
  shows "snd ` set xs \<subseteq> R \<Longrightarrow> keeps (holds P T R J) (observe_roots obs xs)"
  by (induction xs) (auto intro!: keeps_bind assms)

lemma current_roots_keeps:
  assumes "answers_in R A N" and refresh: "\<And>l. keeps (holds P T R J) (refresh l)"
  shows "keeps (holds P T R J) (current_roots_from_mirrors (at_time P n) T C N refresh now)"
proof -
  let ?all = "\<lambda>xs. bindA (lifts (detect_mirror_disagreement (at_time P n) T (map snd xs) None)) (\<lambda>_.
     bindA (observe_roots (observe_root (at_time P n) T C N refresh) xs) (\<lambda>_. returns (map snd xs)))"
  have all: "keeps (holds P T R J) (?all xs)" if "snd ` set xs \<subseteq> R" for xs
    by (intro keeps_bind keeps_simple observe_roots_keeps that observe_root_keeps refresh answers_proofs [OF assms(1)])
  show ?thesis
    unfolding keeps_def current_roots_from_mirrors_def Let_def
  proof (rule triple_bind [OF usable_roots_keeps])
    show "\<forall>x \<in> set (nw_mirrors N). \<forall>r. snd x = Inr r \<longrightarrow> r \<in> R" using assms(1) by (simp add: answers_in_def)
    fix xs
    show "triple (\<lambda>s. holds P T R J s \<and> snd ` set xs \<subseteq> R)
       (if int (length (map snd xs)) < vc_min_mirrors C
        then raises (RootVerificationError ''not enough usable current transparency root mirrors'') else ?all xs)
       (\<lambda>_. holds P T R J) (holds P T R J)"
      by (rule triple_given, rule triple_if) (auto intro: triple_raises all [unfolded keeps_def])
  qed
qed

lemma refresh_keeps:
  assumes "answers_in R A N"
  shows "keeps (holds P T R J) (refresh_stale_consistency_baseline d (at_time P n) T C N l)"
proof (induction d arbitrary: l)
  case 0
  show ?case by (simp add: keeps_simple)
next
  case (Suc d)
  let ?body = "bindA (catches
         (bindA (current_roots_from_mirrors (at_time P n) T C N (refresh_stale_consistency_baseline d (at_time P n) T C N) None)
            (\<lambda>_. returns True))
         (\<lambda>_. returns False)) (\<lambda>refreshed.
       bindA (modifies (\<lambda>s. s\<lparr>vf_refreshing := removeAll l (vf_refreshing s)\<rparr>)) (\<lambda>_.
       if \<not> refreshed then returns False
       else bindA (reads_store (\<lambda>st. Inr (last_success (ob_statuses st l)))) (\<lambda>success.
         returns (case success of None \<Rightarrow> False | Some t \<Rightarrow> pf_clock (at_time P n) - t \<le> vc_max_stale C))))"
  have "keeps (holds P T R J) (modifies (\<lambda>s. s\<lparr>vf_refreshing := f s\<rparr>))" for f
    by (simp add: keeps_iff modifies_def)
  then have "keeps (holds P T R J) ?body"
    by (intro keeps_bind keeps_catches keeps_simple keeps_if current_roots_keeps assms Suc)
  then show ?case by (simp add: keeps_iff)
qed

section \<open>Messages of peers\<close>

lemma remember_keeps:
  assumes "valid_root P T R root"
  shows "keeps (holds P T R J) (remember_peer_root (at_time P n) C root peer mh)"
  unfolding remember_peer_root_def
proof (rule keeps_changes)
  fix s st
  assume "holds P T R J s" and "bindE (signed_root_id (at_time P n) root) (\<lambda>i. record_peer_root (at_time P n) (vf_store s) root peer
      (Some (text_or mh i)) (Some (pf_clock (at_time P n))) (peer_root_cap_for_log (at_time P n) C (vf_store s) (root_log root))
      (if is_configured_log (at_time P n) C (vf_store s) (root_log root) then None else Some DEFAULT_UNKNOWN_PEER_ROOT_CAP_PER_LOG_ID))
      = Inr st"
  then obtain i c d where "stored P T R (vf_store s)" "J (vf_store s)"
    and r: "record_peer_root (at_time P n) (vf_store s) root peer (Some (text_or mh i)) (Some n) c d = Inr st"
    by (auto simp: holds_def bindE_Inr_iff)
  with assms show "holds P T R J (s\<lparr>vf_store := st\<rparr>)"
    using remembered [OF _ _ assms r] stored_peer_root [OF _ _ _ r] by simp
qed

lemma detect_keeps_simple:
  assumes "valid_root P T R root"
  shows "keeps (holds P T R J) (detect_and_handle_equivocation (at_time P n) T root)"
  unfolding keeps_def by (rule triple_weaken [OF detect_keeps [OF assms, where G = "\<lambda>_. True"]]) simp_all

lemma announcement_keeps:
  assumes "message_in R m"
  shows "keeps (holds P T R J) (process_root_announcement (at_time P n) T C m peer mh)"
  unfolding keeps_def process_root_announcement_def
proof (rule triple_bind [where Mid = "\<lambda>root s. holds P T R J s \<and> valid_root P T R root"], goal_cases)
  case 1
  show ?case
    using assms announced_root [of "at_time P n" T m None] by (intro triple_lifts) (auto simp: message_in_def)
next
  case (2 root)
  show ?case
    by (rule triple_given, fold keeps_def) (intro keeps_bind remember_keeps detect_keeps_simple keeps_simple)
qed

lemma equivocation_message_keeps:
  assumes "message_in R m"
  shows "keeps (holds P T R J) (process_equivocation_proof (at_time P n) T C m peer mh)"
  unfolding keeps_def process_equivocation_proof_def split_def
proof (rule triple_bind [where Mid = "\<lambda>(l, c, a, b) s. holds P T R J s \<and> (valid_root P T R a \<and> valid_root P T R b
    \<and> root_log a = root_log b \<and> contradict a b c)"], goal_cases)
  case 1
  show ?case
    using assms equivocation_roots [of "at_time P n" T m] by (intro triple_lifts) (auto simp: message_in_def)
next
  case (2 x)
  obtain l c a b where x: "x = (l, c, a, b)" by (cases x)
  show ?case
    unfolding x prod.case fst_conv snd_conv
  proof (rule triple_given)
    assume "valid_root P T R a \<and> valid_root P T R b \<and> root_log a = root_log b \<and> contradict a b c"
    then have h: "valid_root P T R a" "valid_root P T R b" "root_log a = root_log b" "contradict a b c" by simp_all
    have save: "triple (holds P T R J)
       (bindA (updates_store (\<lambda>st. save_equivocation_evidence (at_time P n) T st a b c (Some (root_int m ''detected_at'')))) (\<lambda>p.
        bindA (changes_store (\<lambda>st. Inr (mark_blacklisted (at_time P n) st (root_log a) (root_key a) (''equivocation '' @ c) (fst p)
          (Some (pf_clock (at_time P n)))))) (\<lambda>_.
        bindA (queue_evidence (at_time P n) (snd p)) (\<lambda>_. returns (snd p))))) (\<lambda>_. holds P T R J) (holds P T R J)"
    proof (rule triple_update_change [where Mid = "\<lambda>_. holds P T R J"], goal_cases)
      case (1 s p st)
      then have i: "stored P T R (vf_store s)" "J (vf_store s)" by (simp_all add: holds_def)
      from stored_saves(1) [OF i(1) 1(2)] equivocated [OF i h 1(2)] show ?case by simp
    next
      case (3 p)
      show ?case by (fold keeps_def, intro keeps_bind keeps_kept queues_keep_store keeps_simple)
    qed simp
    show "triple (holds P T R J)
       (bindA (remember_peer_root (at_time P n) C a peer mh) (\<lambda>_.
        bindA (remember_peer_root (at_time P n) C b peer mh) (\<lambda>_.
        bindA (updates_store (\<lambda>st. save_equivocation_evidence (at_time P n) T st a b c (Some (root_int m ''detected_at'')))) (\<lambda>p.
        bindA (changes_store (\<lambda>st. Inr (mark_blacklisted (at_time P n) st (root_log a) (root_key a) (''equivocation '' @ c) (fst p)
          (Some (pf_clock (at_time P n)))))) (\<lambda>_.
        bindA (queue_evidence (at_time P n) (snd p)) (\<lambda>_. returns (snd p))))))) (\<lambda>_. holds P T R J) (holds P T R J)"
      unfolding keeps_def [symmetric]
      by (intro keeps_bind [OF remember_keeps [OF h(1)]] keeps_bind [OF remember_keeps [OF h(2)]] save [folded keeps_def])
  qed
qed

lemma violation_message_keeps:
  assumes "message_in R m"
  shows "keeps (holds P T R J) (process_operator_policy_violation_proof (at_time P n) T C m peer mh)"
  unfolding keeps_def process_operator_policy_violation_proof_def
proof (rule triple_bind [where Mid = "\<lambda>p s. holds P T R J s \<and> (\<forall>r. jget p ''root'' = Some r \<longrightarrow> valid_root P T R r)"], goal_cases)
  case 1
  show ?case
    using assms by (intro triple_lifts) (auto simp: message_in_def verify_violation_Inr_iff dest: unpinned)
next
  case (2 p)
  show ?case
  proof (rule triple_given, rule triple_bind [where Mid = "\<lambda>r s. holds P T R J s \<and> valid_root P T R r"], goal_cases)
    case 1
    then show ?case by (intro triple_lifts) (auto simp: jat_Inr_iff)
  next
    case (2 r)
    show ?case
      by (rule triple_given, fold keeps_def) (intro keeps_bind remember_keeps handle_violation_keeps)
  qed
qed

lemma key_messages_keep:
  "keeps (holds P T R J) (observe_key_rotation (at_time P n) C rot t)"
  "keeps (holds P T R J) (observe_key_revocation (at_time P n) C rv t)"
  unfolding observe_key_rotation_def observe_key_revocation_def
  by (intro keeps_bind keeps_simple keeps_if keeps_updates; auto simp: holds_def dest: stored_saves(4,5) rotated revoked)+

end

end
