(* ===== verification/ProofArchive.thy ===== *)
theory ProofArchive
  imports SpendMapLaws
begin

text \<open>
  Proof archives of \<open>src/ind/transparency_client.py\<close>: an unsigned snapshot of all entries and spend claims
  behind one signed root, checked by rebuilding the tree and the spend map, and able to serve inclusion
  and spend-map proofs. The in-memory Merkle tree of the package is a parameter.
\<close>

text \<open>
  \<open>mt_state entries\<close> is \<open>get_state(len(entries))\<close> of an \<open>InmemoryTree\<close> with these entries appended;
  \<open>mt_prove entries i n\<close> is the serialised \<open>prove_inclusion(i, n)\<close>, \<open>None\<close> when it raises.
\<close>

record merkle_tree =
  mt_state :: "bytes list \<Rightarrow> bytes"
  mt_prove :: "bytes list \<Rightarrow> int \<Rightarrow> int \<Rightarrow> json option"

text \<open>
  What the package documents of the two together with the verifier of \<open>transparency\<close>: a leaf of the tree has
  a proof, which names algorithm and size and verifies for the leaf's hash against the tree's state.
\<close>

definition merkle_ok :: "transparency \<Rightarrow> merkle_tree \<Rightarrow> bool" where
  "merkle_ok T M = (\<forall>es i. i < length es \<longrightarrow>
     (\<exists>p. mt_prove M es (int i + 1) (int (length es)) = Some p
        \<and> tl_deserialize T p = Some (LOG_HASH_ALGORITHM, True, int (length es))
        \<and> tl_includes T (tl_hash_buff T (es ! i)) (mt_state M es) p))"

definition LOG_PROOF_ARCHIVE_TYPE :: string where
  "LOG_PROOF_ARCHIVE_TYPE = ''ind.transparency_proof_archive.v3''"

definition make_proof_archive :: "platform \<Rightarrow> transparency \<Rightarrow> json \<Rightarrow> json list \<Rightarrow> json list \<Rightarrow> json res" where
  "make_proof_archive P T signed_root entries spend_claims =
     bindE (verify_signed_root P T signed_root None) (\<lambda>_.
     bindE (jat signed_root ''tree_size'') (\<lambda>n.
     bindE (require_int_for n ''proof archive tree size'' (Some 0) InclusionProofError) (\<lambda>tree_size.
     bindE (jat signed_root ''log_id'') (\<lambda>log_id.
     bindE (jat signed_root ''root_hash'') (\<lambda>root_hash.
     bindE (signed_root_id P signed_root) (\<lambda>root_id.
     Inr (JDict [(''type'', JStr LOG_PROOF_ARCHIVE_TYPE), (''version'', JInt LOG_VERSION), (''log_id'', log_id),
       (''tree_size'', JInt tree_size), (''root_hash'', root_hash), (''signed_root_id'', JStr root_id),
       (''entries'', JList entries), (''spend_claims'', JList spend_claims)])))))))"

text \<open>One step of the loop: the checked entry's hash text and bytes.\<close>

definition check_archive_entry :: "nat \<Rightarrow> json \<Rightarrow> (string \<times> bytes) res" where
  "check_archive_entry expected_index entry =
     bindE (require_exact_keys entry [''leaf_index'', ''entry_hash'', ''submitted_at''] ''proof archive entry''
       [''entry_kind'', ''entry''] InclusionProofError) (\<lambda>_.
     bindE (jat entry ''leaf_index'') (\<lambda>i.
     bindE (require_int_for i ''proof archive leaf index'' (Some 0) InclusionProofError) (\<lambda>leaf_index.
     if leaf_index \<noteq> int expected_index then Inl (InclusionProofError ''proof archive entries are not contiguous'')
     else bindE (jat entry ''entry_hash'') (\<lambda>h.
     bindE (root_hex32 h ''proof archive entry hash'') (\<lambda>entry_hash.
     bindE (jat entry ''submitted_at'') (\<lambda>s.
     bindE (require_int_for s ''proof archive submitted_at'' (Some 0) InclusionProofError) (\<lambda>_.
     case fromhex entry_hash of
       None \<Rightarrow> Inl (PyValueError ''non-hexadecimal number'') | Some b \<Rightarrow> Inr (entry_hash, b))))))))"

fun check_archive_entries :: "nat \<Rightarrow> json list \<Rightarrow> (string \<times> bytes) list res" where
  "check_archive_entries i [] = Inr []"
| "check_archive_entries i (e # es) = bindE (check_archive_entry i e) (\<lambda>x.
     bindE (check_archive_entries (Suc i) es) (\<lambda>xs. Inr (x # xs)))"

text \<open>The entries' bytes, in order, and the dict from hash texts to leaf indices; the last of equal hashes wins.\<close>

definition archive_entries_tree :: "json \<Rightarrow> int \<Rightarrow> (bytes list \<times> (string \<times> nat) list) res" where
  "archive_entries_tree entries tree_size =
     (case entries of
        JList es \<Rightarrow>
          if int (length es) \<noteq> tree_size
          then Inl (InclusionProofError ''proof archive entry count does not match signed root'')
          else bindE (check_archive_entries 0 es) (\<lambda>xs.
            Inr (map snd xs, rev (zip (map fst xs) [0..<length xs])))
      | _ \<Rightarrow> Inl (InclusionProofError ''proof archive entries must be a list''))"

definition ARCHIVE_FIELDS :: "string list" where
  "ARCHIVE_FIELDS = [''type'', ''version'', ''log_id'', ''tree_size'', ''root_hash'', ''signed_root_id'', ''entries'',
     ''spend_claims'']"

definition check_archive_header :: "platform \<Rightarrow> json \<Rightarrow> json \<Rightarrow> unit res" where
  "check_archive_header P archive signed_root =
     bindE (require_exact_keys archive ARCHIVE_FIELDS ''proof archive'' [] InclusionProofError) (\<lambda>_.
     if jget archive ''type'' \<noteq> Some (JStr LOG_PROOF_ARCHIVE_TYPE)
     then Inl (InclusionProofError ''unsupported proof archive version'')
     else bindE (jat archive ''version'') (\<lambda>v.
     bindE (require_int_for v ''proof archive version'' None InclusionProofError) (\<lambda>version.
     if version \<noteq> LOG_VERSION then Inl (InclusionProofError ''unsupported proof archive version'')
     else if jget archive ''log_id'' \<noteq> jget signed_root ''log_id''
     then Inl (InclusionProofError ''proof archive is for a different log'')
     else bindE (jat archive ''tree_size'') (\<lambda>n.
     bindE (require_int_for n ''proof archive tree size'' (Some 0) InclusionProofError) (\<lambda>tree_size.
     bindE (int_at signed_root ''tree_size'') (\<lambda>root_size.
     if tree_size \<noteq> root_size then Inl (InclusionProofError ''proof archive tree size mismatch'')
     else bindE (jat archive ''root_hash'') (\<lambda>h.
     bindE (root_hex32 h ''proof archive root hash'') (\<lambda>root_hash.
     if jget signed_root ''root_hash'' \<noteq> Some (JStr root_hash)
     then Inl (InclusionProofError ''proof archive root hash mismatch'')
     else bindE (jat archive ''signed_root_id'') (\<lambda>i.
     bindE (root_hex32 i ''proof archive signed root id'') (\<lambda>claimed_id.
     bindE (signed_root_id P signed_root) (\<lambda>root_id.
     if claimed_id \<noteq> root_id then Inl (InclusionProofError ''proof archive signed root id mismatch'')
     else Inr ())))))))))))"

definition check_archive_tree :: "merkle_tree \<Rightarrow> json \<Rightarrow> json \<Rightarrow> unit res" where
  "check_archive_tree M archive signed_root =
     bindE (jat archive ''entries'') (\<lambda>entries.
     bindE (int_at signed_root ''tree_size'') (\<lambda>n.
     bindE (archive_entries_tree entries n) (\<lambda>(leaves, _).
     if 0 < n \<and> jget signed_root ''root_hash'' \<noteq> Some (JStr (hex_text (mt_state M leaves)))
     then Inl (InclusionProofError ''proof archive entries do not reproduce the signed root'') else Inr ())))"

definition check_archive_claim :: "platform \<Rightarrow> transparency \<Rightarrow> json \<Rightarrow> json list \<Rightarrow> json \<Rightarrow> unit res" where
  "check_archive_claim P T signed_root claims claim =
     bindE (jat claim ''spend_key'') (\<lambda>k.
     bindE (int_at signed_root ''tree_size'') (\<lambda>n.
     bindE (build_spend_map_proof P claims k n) (\<lambda>proof.
     bindE (verify_spend_map_proof P T (spend_map_proof_json proof) signed_root) (\<lambda>_. Inr ()))))"

definition check_archive_claims :: "platform \<Rightarrow> transparency \<Rightarrow> json \<Rightarrow> json \<Rightarrow> unit res" where
  "check_archive_claims P T archive signed_root =
     bindE (jat archive ''spend_claims'') (\<lambda>v. case v of
       JList claims \<Rightarrow>
         bindE (mapE (check_archive_claim P T signed_root claims) claims) (\<lambda>_.
         bindE (spend_map_root P claims) (\<lambda>r.
         if jget signed_root ''spend_map_root'' \<noteq> Some (JStr r)
         then Inl (InclusionProofError ''proof archive spend claims do not reproduce the spend-map root'')
         else bindE (case jget signed_root ''spend_map_size'' of None \<Rightarrow> Inr 0 | Some _ \<Rightarrow> int_at signed_root ''spend_map_size'') (\<lambda>m.
         if int (length claims) \<noteq> m then Inl (InclusionProofError ''proof archive spend claim count mismatch'')
         else Inr ())))
     | _ \<Rightarrow> Inl (InclusionProofError ''proof archive spend claims must be a list''))"

definition verify_proof_archive :: "platform \<Rightarrow> transparency \<Rightarrow> merkle_tree \<Rightarrow> json \<Rightarrow> json \<Rightarrow> string option \<Rightarrow> unit res" where
  "verify_proof_archive P T M archive signed_root operator_public_key =
     bindE (verify_signed_root P T signed_root operator_public_key) (\<lambda>_.
     bindE (check_archive_header P archive signed_root) (\<lambda>_.
     bindE (check_archive_tree M archive signed_root) (\<lambda>_.
     check_archive_claims P T archive signed_root)))"

section \<open>Serving proofs\<close>

definition inclusion_proof_from_archive ::
    "platform \<Rightarrow> transparency \<Rightarrow> merkle_tree \<Rightarrow> json \<Rightarrow> json \<Rightarrow> json \<Rightarrow> string option \<Rightarrow> json res" where
  "inclusion_proof_from_archive P T M archive entry signed_root operator_public_key =
     bindE (verify_proof_archive P T M archive signed_root operator_public_key) (\<lambda>_.
     bindE (jat archive ''entries'') (\<lambda>entries.
     bindE (int_at signed_root ''tree_size'') (\<lambda>n.
     bindE (archive_entries_tree entries n) (\<lambda>(leaves, by_hash).
     bindE (root_hex32 entry ''proof archive inclusion entry hash'') (\<lambda>entry_hash.
     case map_of by_hash entry_hash of
       None \<Rightarrow> Inl (InclusionProofError ''entry is not in the proof archive'')
     | Some i \<Rightarrow>
         (case mt_prove M leaves (int i + 1) n of
            None \<Rightarrow> Inl (InclusionProofError ''invalid challenge'')
          | Some proof \<Rightarrow>
              bindE (jat signed_root ''log_id'') (\<lambda>log_id.
              bindE (log_leaf_hash T entry_hash) (\<lambda>leaf.
              Inr (JDict [(''type'', JStr LOG_INCLUSION_PROOF_TYPE), (''version'', JInt LOG_VERSION), (''log_id'', log_id),
                (''entry_hash'', JStr entry_hash), (''leaf_hash'', JStr (hex_text leaf)), (''leaf_index'', JInt (int i)),
                (''tree_size'', JInt n), (''proof'', proof)])))))))))"

definition spend_map_proof_from_archive ::
    "platform \<Rightarrow> transparency \<Rightarrow> merkle_tree \<Rightarrow> json \<Rightarrow> json \<Rightarrow> json \<Rightarrow> string option \<Rightarrow> spend_map_proof res" where
  "spend_map_proof_from_archive P T M archive spend_key signed_root operator_public_key =
     bindE (verify_proof_archive P T M archive signed_root operator_public_key) (\<lambda>_.
     bindE (jat archive ''spend_claims'') (\<lambda>v. case v of
       JList claims \<Rightarrow> bindE (int_at signed_root ''tree_size'') (\<lambda>n. build_spend_map_proof P claims spend_key n)
     | _ \<Rightarrow> Inl (PyTypeError ''spend_claims'')))"

section \<open>What an archive serves verifies\<close>

lemma check_archive_entries_Inr:
  assumes "check_archive_entries n es = Inr xs"
  shows "length xs = length es \<and> (\<forall>(h, b) \<in> set xs. hex64 h \<and> lower h = h \<and> fromhex h = Some b)"
  using assms
proof (induction es arbitrary: n xs)
  case (Cons e es)
  then obtain x ys where x: "check_archive_entry n e = Inr x" and ys: "check_archive_entries (Suc n) es = Inr ys" "xs = x # ys"
    by (auto simp: bindE_Inr_iff)
  from x have "case x of (h, b) \<Rightarrow> hex64 h \<and> lower h = h \<and> fromhex h = Some b"
    unfolding check_archive_entry_def bindE_Inr_iff if_Inl_Inr_iff root_hex32_Inr_iff
    by (auto split: option.splits)
  with Cons.IH [OF ys(1)] ys(2) show ?case by auto
qed simp

lemma archive_entries_tree_Inr:
  assumes "archive_entries_tree entries n = Inr (leaves, by_hash)"
  shows "n = int (length leaves)"
    and "map_of by_hash h = Some i \<Longrightarrow> i < length leaves \<and> hex64 h \<and> lower h = h \<and> fromhex h = Some (leaves ! i)"
proof -
  from assms obtain es xs where es: "entries = JList es" "n = int (length es)" "check_archive_entries 0 es = Inr xs"
    "leaves = map snd xs" "by_hash = rev (zip (map fst xs) [0..<length xs])"
    by (auto simp: archive_entries_tree_def bindE_Inr_iff split: json.splits if_splits)
  note x = check_archive_entries_Inr [OF es(3)]
  show "n = int (length leaves)" using x es by simp
  assume "map_of by_hash h = Some i"
  then have "(h, i) \<in> set (zip (map fst xs) [0..<length xs])" unfolding es by (auto dest: map_of_SomeD)
  then have "i < length xs" "fst (xs ! i) = h" by (auto simp: set_zip)
  moreover from this have "xs ! i \<in> set xs" by simp
  ultimately show "i < length leaves \<and> hex64 h \<and> lower h = h \<and> fromhex h = Some (leaves ! i)"
    using x by (cases "xs ! i") (auto simp: es)
qed

lemma verify_proof_archive_parts:
  assumes "verify_proof_archive P T M archive root pin = Inr ()"
  shows "verify_signed_root P T root pin = Inr ()" "check_archive_header P archive root = Inr ()"
    "check_archive_tree M archive root = Inr ()" "check_archive_claims P T archive root = Inr ()"
  using assms by (auto simp: verify_proof_archive_def bindE_Inr_iff)

lemma archive_root_state:
  assumes "check_archive_tree M archive root = Inr ()" and "jget archive ''entries'' = Some entries"
    and "int_at root ''tree_size'' = Inr n" and "archive_entries_tree entries n = Inr (leaves, by_hash)" and "leaves \<noteq> []"
  shows "jget root ''root_hash'' = Some (JStr (hex_text (mt_state M leaves)))"
proof -
  have "0 < n" using archive_entries_tree_Inr(1) [OF assms(4)] assms(5) by simp
  with assms show ?thesis
    by (auto simp: check_archive_tree_def bindE_Inr_iff jat_Inr_iff jat_def split: if_splits)
qed

lemma archive_serves_entry:
  assumes m: "merkle_ok T M" and v: "verify_proof_archive P T M archive root pin = Inr ()"
    and e: "jget archive ''entries'' = Some entries" and n: "int_at root ''tree_size'' = Inr n"
    and t: "archive_entries_tree entries n = Inr (leaves, by_hash)"
    and h: "hex64 h" and i: "map_of by_hash (lower h) = Some i"
  shows "\<exists>response. inclusion_proof_from_archive P T M archive (JStr h) root pin = Inr response
    \<and> verify_inclusion_proof P T h response root pin = Inr ()"
proof -
  note a = archive_entries_tree_Inr(2) [OF t i]
  have len: "n = int (length leaves)" by (rule archive_entries_tree_Inr(1) [OF t])
  have i': "i < length leaves" and b: "fromhex (lower h) = Some (leaves ! i)" and x: "hex64 (lower h)" using a by simp_all
  from m i' obtain p where p: "mt_prove M leaves (int i + 1) n = Some p"
    "tl_deserialize T p = Some (LOG_HASH_ALGORITHM, True, n)"
    "tl_includes T (tl_hash_buff T (leaves ! i)) (mt_state M leaves) p"
    unfolding merkle_ok_def len by blast
  note root = verify_proof_archive_parts [OF v]
  from root(1) obtain key l where l: "jget root ''log_id'' = Some (JStr l)"
    by (auto simp: verify_signed_root_Inr_iff)
  have rh: "root_hash_bytes root = Inr (mt_state M leaves)"
  proof -
    have "leaves \<noteq> []" using i' by auto
    from archive_root_state [OF root(3) e n t this] show ?thesis
      by (simp add: root_hash_bytes_def str_at_def jat_def)
  qed
  have leaf: "log_leaf_hash T (lower h) = Inr (tl_hash_buff T (leaves ! i))"
    using b x by (simp add: log_leaf_hash_def entry_hash_bytes_def hex64_def Let_def)
  let ?r = "JDict [(''type'', JStr LOG_INCLUSION_PROOF_TYPE), (''version'', JInt LOG_VERSION), (''log_id'', JStr l),
     (''entry_hash'', JStr (lower h)), (''leaf_hash'', JStr (hex_text (tl_hash_buff T (leaves ! i)))), (''leaf_index'', JInt (int i)),
     (''tree_size'', JInt n), (''proof'', p)]"
  have "root_hex32 (JStr h) ''proof archive inclusion entry hash'' = Inr (lower h)" using x by (simp add: root_hex32_Inr_iff)
  then have made: "inclusion_proof_from_archive P T M archive (JStr h) root pin = Inr ?r"
    unfolding inclusion_proof_from_archive_def v bindE_simps jat_def e option.case n t prod.case
    by (simp add: i p(1) l leaf)
  have k: "require_exact_keys ?r INCLUSION_FIELDS ''transparency inclusion proof'' [] InclusionProofError = Inr ()"
    unfolding require_exact_keys_Inr_iff by (simp add: INCLUSION_FIELDS_def)
  have n0: "jget root ''tree_size'' = Some (JInt n)" using n by (simp add: int_at_Inr_iff)
  have "verify_inclusion_proof P T h ?r root pin = Inr ()"
    unfolding verify_inclusion_proof_def root(1) bindE_simps k
    using l len by (simp add: jat_def n0 require_int_for_def leaf p rh cong: if_cong)
  with made show ?thesis by blast
qed

lemma archive_serves_claim:
  assumes v: "verify_proof_archive P T M archive root pin = Inr ()"
    and c: "jget archive ''spend_claims'' = Some (JList claims)" and "claim \<in> set claims"
    and k: "jget claim ''spend_key'' = Some k"
  shows "\<exists>proof cs. spend_map_proof_from_archive P T M archive k root pin = Inr proof
    \<and> verify_spend_map_proof P T (spend_map_proof_json proof) root = Inr cs"
proof -
  from verify_proof_archive_parts(4) [OF v] c obtain us where "mapE (check_archive_claim P T root claims) claims = Inr us"
    by (auto simp: check_archive_claims_def bindE_Inr_iff jat_Inr_iff)
  with assms(3) have "check_archive_claim P T root claims claim = Inr ()"
    by (auto simp: mapE_Inr_iff list_all2_conv_all_nth in_set_conv_nth)
  then obtain n q cs where "int_at root ''tree_size'' = Inr n" "build_spend_map_proof P claims k n = Inr q"
    "verify_spend_map_proof P T (spend_map_proof_json q) root = Inr cs"
    using k by (auto simp: check_archive_claim_def bindE_Inr_iff jat_Inr_iff)
  then show ?thesis
    by (auto simp: spend_map_proof_from_archive_def v c jat_def)
qed

end
