(* ===== verification/RootMirrors.thy ===== *)
theory RootMirrors
  imports ProofArchive ObservedRoots
begin

text \<open>
  Mirrors that serve recorded roots, \<open>DirectoryRootMirror\<close> and \<open>StaticRootMirror\<close> of \<open>src/ind/transparency_client.py\<close>:
  which root they give for a time, the latest root, and the proofs they read from archives. What the files hold
  is the mirror's record.
\<close>

section \<open>The records of a mirror\<close>

text \<open>
  \<open>dm_items\<close>: the values read from the files, in the order of reading; \<open>dm_latest\<close>: those of \<open>latest.json\<close>, none when
  the file is missing; \<open>dm_archives\<close>: the archive file of a tree size.
\<close>

record directory_mirror =
  dm_items :: "json list"
  dm_latest :: "json list"
  dm_archives :: "int \<Rightarrow> json option"

text \<open>The list comprehension with a condition that may raise.\<close>

fun selectE :: "('a \<Rightarrow> bool res) \<Rightarrow> 'a list \<Rightarrow> 'a list res" where
  "selectE f [] = Inr []"
| "selectE f (x # xs) = bindE (f x) (\<lambda>b. bindE (selectE f xs) (\<lambda>ys. Inr (if b then x # ys else ys)))"

fun dedupe_roots :: "platform \<Rightarrow> string list \<Rightarrow> json list \<Rightarrow> json list res" where
  "dedupe_roots P seen [] = Inr []"
| "dedupe_roots P seen (root # rs) = bindE (signed_root_id P root) (\<lambda>i.
     if i \<in> set seen then dedupe_roots P seen rs
     else bindE (dedupe_roots P (i # seen) rs) (\<lambda>ys. Inr (root # ys)))"

definition directory_roots :: "platform \<Rightarrow> directory_mirror \<Rightarrow> json list res" where
  "directory_roots P D = dedupe_roots P [] (dm_items D)"

text \<open>\<open>int(root.get("timestamp", -1)) >= timestamp\<close>; a record that is no dict has no \<open>get\<close>.\<close>

definition not_before :: "int \<Rightarrow> json \<Rightarrow> bool res" where
  "not_before timestamp root =
     (if \<not> is_dict root then Inl (PyTypeError ''get'')
      else if jget root ''timestamp'' = None then Inr (timestamp \<le> -1)
      else bindE (int_at root ''timestamp'') (\<lambda>t. Inr (timestamp \<le> t)))"

text \<open>\<open>sorted(roots, key=lambda root: (int(root["timestamp"]), int(root["tree_size"])))\<close>.\<close>

definition root_sort_key :: "json \<Rightarrow> (int \<times> int) res" where
  "root_sort_key root = bindE (int_at root ''timestamp'') (\<lambda>t. bindE (int_at root ''tree_size'') (\<lambda>n. Inr (t, n)))"

definition sorted_roots :: "json list \<Rightarrow> json list res" where
  "sorted_roots roots = bindE (mapE root_sort_key roots) (\<lambda>ks. Inr (map snd (sort_key fst (zip ks roots))))"

section \<open>Roots\<close>

definition roots_root_at :: "json list \<Rightarrow> int \<Rightarrow> json res" where
  "roots_root_at roots timestamp =
     bindE (selectE (not_before timestamp) roots) (\<lambda>candidates.
     if candidates = [] then Inl (RootVerificationError ''mirror has no historical root for timestamp'')
     else bindE (sorted_roots candidates) (\<lambda>rs. Inr (hd rs)))"

definition roots_latest :: "json list \<Rightarrow> json res" where
  "roots_latest roots =
     (if roots = [] then Inl (RootVerificationError ''mirror has no signed roots'')
      else bindE (sorted_roots roots) (\<lambda>rs. Inr (last rs)))"

definition directory_root_at :: "platform \<Rightarrow> directory_mirror \<Rightarrow> int \<Rightarrow> json res" where
  "directory_root_at P D timestamp = bindE (directory_roots P D) (\<lambda>roots. roots_root_at roots timestamp)"

definition directory_latest_root :: "platform \<Rightarrow> directory_mirror \<Rightarrow> json res" where
  "directory_latest_root P D =
     (case dm_latest D of root # _ \<Rightarrow> Inr root | [] \<Rightarrow> bindE (directory_roots P D) roots_latest)"

section \<open>Proofs\<close>

definition optional_key :: "json \<Rightarrow> string option" where
  "optional_key root = (case jget root ''operator_public_key'' of Some (JStr k) \<Rightarrow> Some k | _ \<Rightarrow> None)"

definition directory_proof_archive :: "platform \<Rightarrow> transparency \<Rightarrow> merkle_tree \<Rightarrow> directory_mirror \<Rightarrow> json \<Rightarrow> json res" where
  "directory_proof_archive P T M D signed_root =
     bindE (int_at signed_root ''tree_size'') (\<lambda>n.
     case dm_archives D n of
       None \<Rightarrow> Inl (InclusionProofError ''mirror has no proof archive for signed root'')
     | Some archive \<Rightarrow>
         bindE (verify_proof_archive P T M archive signed_root (optional_key signed_root)) (\<lambda>_. Inr archive))"

text \<open>The latest of the roots of one size; the two proof methods differ in the message.\<close>

definition root_of_size :: "platform \<Rightarrow> directory_mirror \<Rightarrow> int \<Rightarrow> string \<Rightarrow> json res" where
  "root_of_size P D tree_size message =
     bindE (directory_roots P D) (\<lambda>roots.
     bindE (selectE (\<lambda>r. bindE (int_at r ''tree_size'') (\<lambda>n. Inr (n = tree_size))) roots) (\<lambda>candidates.
     if candidates = [] then Inl (InclusionProofError message)
     else bindE (mapE (\<lambda>r. int_at r ''timestamp'') candidates) (\<lambda>ts.
       Inr (snd (last (sort_key fst (zip ts candidates)))))))"

definition directory_inclusion_proof ::
    "platform \<Rightarrow> transparency \<Rightarrow> merkle_tree \<Rightarrow> directory_mirror \<Rightarrow> string \<Rightarrow> int \<Rightarrow> json res" where
  "directory_inclusion_proof P T M D entry_hash tree_size =
     bindE (root_of_size P D tree_size ''mirror has no signed root for inclusion proof tree size'') (\<lambda>root.
     bindE (directory_proof_archive P T M D root) (\<lambda>archive.
     inclusion_proof_from_archive P T M archive (JStr entry_hash) root (optional_key root)))"

definition directory_spend_map_proof ::
    "platform \<Rightarrow> transparency \<Rightarrow> merkle_tree \<Rightarrow> directory_mirror \<Rightarrow> string \<Rightarrow> int \<Rightarrow> json res" where
  "directory_spend_map_proof P T M D spend_key tree_size =
     bindE (root_of_size P D tree_size ''mirror has no signed root for spend proof tree size'') (\<lambda>root.
     bindE (directory_proof_archive P T M D root) (\<lambda>archive.
     bindE (spend_map_proof_from_archive P T M archive (JStr spend_key) root (optional_key root)) (\<lambda>proof.
     Inr (spend_map_proof_json proof))))"

section \<open>Which root a mirror gives\<close>

lemma selectE_Inr_iff:
  "selectE f xs = Inr ys \<longleftrightarrow> (\<forall>x \<in> set xs. \<exists>b. f x = Inr b) \<and> ys = filter (\<lambda>x. f x = Inr True) xs"
proof (induction xs arbitrary: ys)
  case (Cons x xs)
  show ?case
  proof (cases "f x")
    case (Inr b)
    then show ?thesis by (cases b) (auto simp: bindE_Inr_iff Cons.IH)
  qed simp
qed auto

lemma sort_key_Nil: "sort_key f xs = [] \<longleftrightarrow> xs = []"
  using length_sort [of f xs] by (metis length_0_conv)

text \<open>A root with its two numbers.\<close>

definition numbered :: "json \<Rightarrow> bool" where
  "numbered r \<longleftrightarrow> is_dict r \<and> (\<exists>t n. jget r ''timestamp'' = Some (JInt t) \<and> jget r ''tree_size'' = Some (JInt n))"

lemma numbered_reads:
  assumes "numbered r"
  shows "not_before t r = Inr (t \<le> root_time r)" and "root_sort_key r = Inr (root_time r, root_size r)"
    and "int_at r ''tree_size'' = Inr (root_size r)" and "int_at r ''timestamp'' = Inr (root_time r)"
  using assms by (auto simp: numbered_def not_before_def root_sort_key_def int_at_def jat_def root_int_def)

lemma verified_numbered: "verify_signed_root P T r pin = Inr () \<Longrightarrow> numbered r"
  by (auto simp: numbered_def verify_signed_root_Inr_iff root_fields_def jget_def split: json.splits)

lemma dedupe_subset: "dedupe_roots P seen rs = Inr ys \<Longrightarrow> set ys \<subseteq> set rs"
  by (induction rs arbitrary: seen ys) (fastforce simp: bindE_Inr_iff split: if_splits)+

lemma sort_key_zip_map: "map snd (sort_key fst (zip (map f xs) xs)) = sort_key f xs"
proof -
  have "zip (map f xs) xs = map (\<lambda>x. (f x, x)) xs" by (induction xs) simp_all
  moreover have "map snd (sort_key fst (map (\<lambda>x. (f x, x)) xs)) = sort_key f xs"
  proof (induction xs)
    case (Cons x xs)
    have i: "map snd (insort_key fst (f x, x) ps) = insort_key f x (map snd ps)" if "\<forall>p \<in> set ps. fst p = f (snd p)" for ps
      using that by (induction ps) auto
    have "\<forall>p \<in> set (sort_key fst (map (\<lambda>x. (f x, x)) xs)). fst p = f (snd p)" by auto
    from i [OF this] Cons.IH show ?case by simp
  qed simp
  ultimately show ?thesis by simp
qed

lemma mapE_all: "(\<And>x. x \<in> set xs \<Longrightarrow> f x = Inr (g x)) \<Longrightarrow> mapE f xs = Inr (map g xs)"
  by (induction xs) simp_all

lemma sorted_roots_eq:
  "\<forall>r \<in> set rs. numbered r \<Longrightarrow> sorted_roots rs = Inr (sort_key (\<lambda>r. (root_time r, root_size r)) rs)"
  using mapE_all [of rs root_sort_key "\<lambda>r. (root_time r, root_size r)"] numbered_reads(2)
  by (simp add: sorted_roots_def sort_key_zip_map)

lemma roots_root_at_eq:
  assumes "\<forall>r \<in> set rs. numbered r"
  shows "roots_root_at rs t = (case sort_key (\<lambda>r. (root_time r, root_size r)) (filter (\<lambda>r. t \<le> root_time r) rs) of
     [] \<Rightarrow> Inl (RootVerificationError ''mirror has no historical root for timestamp'') | r # _ \<Rightarrow> Inr r)"
proof -
  have s: "selectE (not_before t) rs = Inr (filter (\<lambda>r. t \<le> root_time r) rs)"
    unfolding selectE_Inr_iff using assms numbered_reads(1) by (auto intro!: filter_cong)
  let ?cs = "filter (\<lambda>r. t \<le> root_time r) rs"
  have "sorted_roots ?cs = Inr (sort_key (\<lambda>r. (root_time r, root_size r)) ?cs)"
    using assms by (intro sorted_roots_eq) auto
  moreover have "sort_key (\<lambda>r. (root_time r, root_size r)) ?cs = [] \<longleftrightarrow> ?cs = []" by (rule sort_key_Nil)
  ultimately show ?thesis unfolding roots_root_at_def s bindE_simps
    by (cases "sort_key (\<lambda>r. (root_time r, root_size r)) ?cs") simp_all
qed

lemma sorted_head_least: "sort_key f xs = y # ys \<Longrightarrow> y \<in> set xs \<and> (\<forall>x \<in> set xs. f y \<le> f x)"
proof -
  assume s: "sort_key f xs = y # ys"
  have "set xs = set (y # ys)" by (metis s set_sort)
  moreover have "sorted (map f (y # ys))" by (metis s sorted_sort_key)
  ultimately show ?thesis by auto
qed

text \<open>The answer is a recorded root, not before the time, and no recorded root in between is earlier.\<close>

lemma roots_root_at_Inr:
  assumes "\<forall>r \<in> set rs. numbered r" and "roots_root_at rs t = Inr r"
  shows "r \<in> set rs" and "t \<le> root_time r" and "\<forall>x \<in> set rs. t \<le> root_time x \<longrightarrow> root_time r \<le> root_time x"
proof -
  let ?f = "\<lambda>r. (root_time r, root_size r)" and ?cs = "filter (\<lambda>r. t \<le> root_time r) rs"
  from assms(2) obtain ys where "sort_key ?f ?cs = r # ys"
    unfolding roots_root_at_eq [OF assms(1)] by (cases "sort_key ?f ?cs") simp_all
  from sorted_head_least [OF this] show "r \<in> set rs" "t \<le> root_time r"
    "\<forall>x \<in> set rs. t \<le> root_time x \<longrightarrow> root_time r \<le> root_time x" by (auto simp: less_eq_prod_def)
qed

lemma roots_root_at_total:
  assumes "\<forall>r \<in> set rs. numbered r" and "x \<in> set rs" "t \<le> root_time x"
  shows "\<exists>r. roots_root_at rs t = Inr r"
proof -
  let ?cs = "filter (\<lambda>r. t \<le> root_time r) rs" and ?f = "\<lambda>r. (root_time r, root_size r)"
  have "?cs \<noteq> []" using assms(2,3) by (auto simp: filter_empty_conv)
  then have "sort_key ?f ?cs \<noteq> []" by (simp only: sort_key_Nil not_False_eq_True)
  then show ?thesis unfolding roots_root_at_eq [OF assms(1)] by (cases "sort_key ?f ?cs") simp_all
qed

section \<open>The proofs a mirror serves\<close>

text \<open>\<open>the_root\<close> is the root that a mirror picks for a tree size; a proof it gives from its archive verifies under it.\<close>

lemma directory_entry_verifies:
  assumes m: "merkle_ok T M" and r: "root_of_size P D n ''mirror has no signed root for inclusion proof tree size'' = Inr root"
    and a: "directory_proof_archive P T M D root = Inr archive" and e: "jget archive ''entries'' = Some entries"
    and t: "archive_entries_tree entries (root_size root) = Inr (leaves, by_hash)"
    and h: "hex64 h" "map_of by_hash (lower h) = Some i"
  shows "\<exists>response. directory_inclusion_proof P T M D h n = Inr response
    \<and> verify_inclusion_proof P T h response root (optional_key root) = Inr ()"
proof -
  from a have v: "verify_proof_archive P T M archive root (optional_key root) = Inr ()"
    by (auto simp: directory_proof_archive_def bindE_Inr_iff split: option.splits)
  have "numbered root" by (rule verified_numbered [OF verify_proof_archive_parts(1) [OF v]])
  from archive_serves_entry [OF m v e numbered_reads(3) [OF this] t h] r a show ?thesis
    by (simp add: directory_inclusion_proof_def)
qed

lemma directory_claim_verifies:
  assumes r: "root_of_size P D n ''mirror has no signed root for spend proof tree size'' = Inr root"
    and a: "directory_proof_archive P T M D root = Inr archive" and c: "jget archive ''spend_claims'' = Some (JList claims)"
    and k: "claim \<in> set claims" "jget claim ''spend_key'' = Some (JStr k)"
  shows "\<exists>proof cs. directory_spend_map_proof P T M D k n = Inr proof \<and> verify_spend_map_proof P T proof root = Inr cs"
proof -
  from a have v: "verify_proof_archive P T M archive root (optional_key root) = Inr ()"
    by (auto simp: directory_proof_archive_def bindE_Inr_iff split: option.splits)
  from archive_serves_claim [OF v c k] r a show ?thesis
    by (auto simp: directory_spend_map_proof_def)
qed

end
