(* ===== verification/VerifierHistory.thy ===== *)
theory VerifierHistory
  imports Verifier RootMirrors Replay
begin

text \<open>
  The checks of a transfer, a checkpoint and a token against the log, the rest of \<open>TransparencyVerifier\<close>
  (\<open>src/ind/transparency_client.py\<close>): roots of the past from the mirrors, the search for a root that holds a leaf,
  proofs from whoever can serve them, the verdict on the spend slot. The search is a loop without a bound, so a
  method that searches may not return.
\<close>

section \<open>Methods that may not return\<close>

type_synonym 'a walk = "verifier \<Rightarrow> ('a res \<times> verifier) option"

definition ends :: "'a act \<Rightarrow> 'a walk" where
  "ends m s = Some (m s)"

definition bindW :: "'a walk \<Rightarrow> ('a \<Rightarrow> 'b walk) \<Rightarrow> 'b walk" where
  "bindW m f s = (case m s of None \<Rightarrow> None | Some (Inl e, s') \<Rightarrow> Some (Inl e, s') | Some (Inr x, s') \<Rightarrow> f x s')"

fun each_walk :: "('a \<Rightarrow> 'b walk) \<Rightarrow> 'a list \<Rightarrow> unit walk" where
  "each_walk f [] = ends (returns ())"
| "each_walk f (x # xs) = bindW (f x) (\<lambda>_. each_walk f xs)"

section \<open>Sources\<close>

text \<open>
  A source of proofs. \<open>None\<close> is a source without the method; a source without \<open>latest_root\<close> raises there. What a
  source answers during one call is a function of the arguments.
\<close>

record proof_source =
  ps_identity :: "source_identity option"
  ps_latest_root :: "json res"
  ps_inclusion_proof :: "(string \<Rightarrow> int \<Rightarrow> json res) option"
  ps_spend_map_proof :: "(string \<Rightarrow> int \<Rightarrow> json res) option"

text \<open>
  What the verifier reaches during one call: the network of the current roots, the historical roots of each mirror
  with its identity, and operator, archives and mirrors as sources of proofs.
\<close>

record log_network =
  ln_network :: network
  ln_root_at :: "(source_identity \<times> (int \<Rightarrow> json res)) list"
  ln_operator :: proof_source
  ln_archives :: "proof_source list"
  ln_mirrors :: "proof_source list"

record recovery_config =
  rc_min_feeds :: int
  rc_feed_keys :: "string list option"

fun distinct_sources :: "source_identity list \<Rightarrow> proof_source list \<Rightarrow> proof_source list" where
  "distinct_sources seen [] = []"
| "distinct_sources seen (x # xs) = (case ps_identity x of
     None \<Rightarrow> x # distinct_sources seen xs
   | Some i \<Rightarrow> if i \<in> set seen then distinct_sources seen xs else x # distinct_sources (i # seen) xs)"

definition proof_sources :: "log_network \<Rightarrow> proof_source list" where
  "proof_sources L = distinct_sources [] (ln_operator L # ln_archives L @ ln_mirrors L)"

text \<open>The first source that answers; every exception of a source is caught.\<close>

fun first_ok :: "('a \<Rightarrow> 'b res) \<Rightarrow> 'a list \<Rightarrow> 'b option" where
  "first_ok f [] = None"
| "first_ok f (x # xs) = (case f x of Inl e \<Rightarrow> first_ok f xs | Inr y \<Rightarrow> Some y)"

definition first_proof ::
    "(proof_source \<Rightarrow> (string \<Rightarrow> int \<Rightarrow> json res) option) \<Rightarrow> log_network \<Rightarrow> string \<Rightarrow> int \<Rightarrow> json res" where
  "first_proof method L key tree_size =
     (case first_ok (\<lambda>x. case method x of
          None \<Rightarrow> Inl (PyTypeError ''not callable'') | Some m \<Rightarrow> m key tree_size) (proof_sources L) of
        None \<Rightarrow> Inl (InclusionProofError ''transparency proof unavailable'')
      | Some proof \<Rightarrow> Inr proof)"

section \<open>Historical roots\<close>

text \<open>What follows the collection of roots, here and for current roots: enough of them, no disagreement, observation.\<close>

definition accept_mirrored_roots ::
    "nat \<Rightarrow> platform \<Rightarrow> transparency \<Rightarrow> verifier_config \<Rightarrow> network \<Rightarrow> string \<Rightarrow> (source_identity \<times> json) list \<Rightarrow> json list act" where
  "accept_mirrored_roots d P T C N message by_identity =
     (let roots = map snd by_identity in
      if int (length roots) < vc_min_mirrors C then raises (RootVerificationError message)
      else bindA (lifts (detect_mirror_disagreement P T roots None)) (\<lambda>_.
      bindA (observe_roots (observe_root P T C N (refresh_stale_consistency_baseline d P T C N)) by_identity) (\<lambda>_.
      returns roots)))"

definition within_lag :: "verifier_config \<Rightarrow> int \<Rightarrow> json \<Rightarrow> bool" where
  "within_lag C timestamp root =
     (case vc_max_root_lag C of None \<Rightarrow> True | Some m \<Rightarrow> root_time root - timestamp \<le> m)"

fun roots_for_timestamp ::
    "platform \<Rightarrow> transparency \<Rightarrow> verifier_config \<Rightarrow> observed_store \<Rightarrow> int \<Rightarrow> (source_identity \<times> (int \<Rightarrow> json res)) list
       \<Rightarrow> (source_identity \<times> json) list" where
  "roots_for_timestamp P T C st timestamp [] = []"
| "roots_for_timestamp P T C st timestamp ((identity, root_at) # ms) =
     (case bindE (root_at timestamp) (\<lambda>root. bindE (verify_signed_root_for_lineage P T C st root) (\<lambda>_. Inr root)) of
        Inl e \<Rightarrow> roots_for_timestamp P T C st timestamp ms
      | Inr root \<Rightarrow> (identity, root) # roots_for_timestamp P T C st timestamp ms)"

definition mirrored_root_for_timestamp ::
    "nat \<Rightarrow> platform \<Rightarrow> transparency \<Rightarrow> verifier_config \<Rightarrow> log_network \<Rightarrow> int \<Rightarrow> json act" where
  "mirrored_root_for_timestamp d P T C L timestamp =
     bindA (reads_store (\<lambda>st. Inr (roots_for_timestamp P T C st timestamp (ln_root_at L)))) (\<lambda>by_identity.
     bindA (accept_mirrored_roots d P T C (ln_network L) ''not enough usable transparency root mirrors'' by_identity) (\<lambda>roots.
     case sort_key (\<lambda>r. (root_time r, root_size r))
         (filter (\<lambda>r. timestamp \<le> root_time r \<and> within_lag C timestamp r) roots) of
       [] \<Rightarrow> raises (RootVerificationError ''no mirrored transparency root close enough to transfer timestamp'')
     | root # _ \<Rightarrow> returns root))"

section \<open>Late roots\<close>

text \<open>\<open>for witness in witnesses\<close>: the items of a list, the characters of a text, the keys of a dict.\<close>

fun iterate_json :: "json \<Rightarrow> json list res" where
  "iterate_json (JList js) = Inr js"
| "iterate_json (JStr t) = Inr (map (\<lambda>c. JStr [c]) t)"
| "iterate_json (JDict kvs) = Inr (map (\<lambda>(k, _). JStr k) kvs)"
| "iterate_json _ = Inl (PyTypeError ''not iterable'')"

text \<open>Without a lag limit \<open>int(None)\<close> raises, and the answer is no.\<close>

definition recovery_witnesses_allow_late_root ::
    "platform \<Rightarrow> verifier_config \<Rightarrow> recovery_config \<Rightarrow> json \<Rightarrow> json \<Rightarrow> int \<Rightarrow> bool" where
  "recovery_witnesses_allow_late_root P C R witnesses mhash timestamp =
     (json_truthy witnesses \<and> json_truthy mhash
      \<and> (case vc_max_root_lag C of None \<Rightarrow> False | Some m \<Rightarrow>
          is_ok (bindE (iterate_json witnesses) (\<lambda>ws.
            recovery_witness_quorum P ws (py_str mhash) timestamp (rc_min_feeds R) m (rc_feed_keys R)))))"

section \<open>The search for a root that holds a leaf\<close>

text \<open>One round: the mirror's next root, with the checks before its size is looked at.\<close>

definition next_root ::
    "platform \<Rightarrow> transparency \<Rightarrow> verifier_config \<Rightarrow> observed_store \<Rightarrow> (int \<Rightarrow> json res) \<Rightarrow> int \<Rightarrow> bool \<Rightarrow> int list \<Rightarrow> int \<Rightarrow> json res" where
  "next_root P T C st root_at timestamp late seen next_timestamp =
     bindE (root_at next_timestamp) (\<lambda>root.
     bindE (verify_signed_root_for_lineage P T C st root) (\<lambda>_.
     if root_time root \<in> set seen then Inl (RootVerificationError ''mirror returned the same root repeatedly'')
     else if root_time root < timestamp
     then Inl (RootVerificationError ''mirror returned a root before the requested timestamp'')
     else if \<not> within_lag C timestamp root \<and> \<not> late
     then Inl (RootVerificationError ''no mirrored transparency root close enough to transfer timestamp'')
     else Inr root))"

text \<open>The loop \<open>while True\<close>. \<open>None\<close>: it does not end.\<close>

partial_function (option) root_with_leaf ::
    "platform \<Rightarrow> transparency \<Rightarrow> verifier_config \<Rightarrow> observed_store \<Rightarrow> (int \<Rightarrow> json res) \<Rightarrow> int \<Rightarrow> bool \<Rightarrow> int \<Rightarrow> int list \<Rightarrow> int
       \<Rightarrow> json res option" where
  "root_with_leaf P T C st root_at timestamp late min_tree_size seen next_timestamp =
     (case next_root P T C st root_at timestamp late seen next_timestamp of
        Inl e \<Rightarrow> Some (Inl e)
      | Inr root \<Rightarrow>
          if min_tree_size \<le> root_size root then Some (Inr root)
          else root_with_leaf P T C st root_at timestamp late min_tree_size (root_time root # seen) (root_time root + 1))"

text \<open>One mirror after the other; a mirror that fails is only noted.\<close>

fun search_mirrors ::
    "((int \<Rightarrow> json res) \<Rightarrow> json res option) \<Rightarrow> (source_identity \<times> (int \<Rightarrow> json res)) list \<Rightarrow> (source_identity \<times> json) list option" where
  "search_mirrors find_root [] = Some []"
| "search_mirrors find_root ((identity, root_at) # ms) = (case find_root root_at of
     None \<Rightarrow> None
   | Some answer \<Rightarrow> (case search_mirrors find_root ms of
       None \<Rightarrow> None
     | Some xs \<Rightarrow> Some (case answer of Inl e \<Rightarrow> xs | Inr root \<Rightarrow> (identity, root) # xs)))"

definition mirrored_root_containing_leaf ::
    "nat \<Rightarrow> platform \<Rightarrow> transparency \<Rightarrow> verifier_config \<Rightarrow> recovery_config \<Rightarrow> log_network \<Rightarrow> int \<Rightarrow> int \<Rightarrow> json \<Rightarrow> json \<Rightarrow> json walk" where
  "mirrored_root_containing_leaf d P T C R L timestamp leaf_index witnesses mhash s =
     (let late = recovery_witnesses_allow_late_root P C R witnesses mhash timestamp in
      case search_mirrors (\<lambda>root_at. root_with_leaf P T C (vf_store s) root_at timestamp late (leaf_index + 1) [] timestamp)
          (ln_root_at L) of
        None \<Rightarrow> None
      | Some by_identity \<Rightarrow> ends
          (bindA (accept_mirrored_roots d P T C (ln_network L) ''not enough usable transparency root mirrors containing leaf'' by_identity)
            (\<lambda>roots. case sort_key (\<lambda>r. (root_time r, root_size r)) roots of
               [] \<Rightarrow> raises (PyValueError ''list index out of range'') | root # _ \<Rightarrow> returns root)) s)"

definition verify_current_root ::
    "nat \<Rightarrow> platform \<Rightarrow> transparency \<Rightarrow> verifier_config \<Rightarrow> network \<Rightarrow> int option \<Rightarrow> bool act" where
  "verify_current_root d P T C N now = bindA (current_mirrored_root d P T C N now) (\<lambda>_. returns True)"

section \<open>Proofs for one entry\<close>

definition leaf_index_from_source ::
    "platform \<Rightarrow> transparency \<Rightarrow> verifier_config \<Rightarrow> observed_store \<Rightarrow> string \<Rightarrow> proof_source \<Rightarrow> int res" where
  "leaf_index_from_source P T C st entry_hash x =
     bindE (ps_latest_root x) (\<lambda>root.
     bindE (verify_signed_root_for_lineage P T C st root) (\<lambda>_.
     bindE (case ps_inclusion_proof x of
         None \<Rightarrow> Inl (PyTypeError ''inclusion_proof'') | Some m \<Rightarrow> m entry_hash (root_size root)) (\<lambda>proof.
     bindE (verify_inclusion_proof P T entry_hash proof root (Some (root_key root))) (\<lambda>_.
     int_at proof ''leaf_index''))))"

definition leaf_index_for_entry ::
    "platform \<Rightarrow> transparency \<Rightarrow> verifier_config \<Rightarrow> observed_store \<Rightarrow> log_network \<Rightarrow> string \<Rightarrow> int res" where
  "leaf_index_for_entry P T C st L entry_hash =
     (case first_ok (leaf_index_from_source P T C st entry_hash) (proof_sources L) of
        None \<Rightarrow> Inl (InclusionProofError ''could not discover transparency leaf index'')
      | Some i \<Rightarrow> Inr i)"

definition check_inclusion :: "platform \<Rightarrow> transparency \<Rightarrow> log_network \<Rightarrow> string \<Rightarrow> json \<Rightarrow> unit res" where
  "check_inclusion P T L entry_hash root =
     bindE (first_proof ps_inclusion_proof L entry_hash (root_size root)) (\<lambda>proof.
     verify_inclusion_proof P T entry_hash proof root (Some (root_key root)))"

text \<open>The handler of \<open>OperatorPolicyViolationError\<close>: the evidence is kept, then the error goes on.\<close>

definition act_on_verdict :: "platform \<Rightarrow> transparency \<Rightarrow> verifier_config \<Rightarrow> spend_verdict \<Rightarrow> unit act" where
  "act_on_verdict P T C v = (case v of
     Settled \<Rightarrow> returns ()
   | Violation evidence \<Rightarrow> bindA (handle_operator_policy_violation P T C evidence)
       (\<lambda>_. raises (OperatorPolicyViolationError ''operator accepted conflicting spend claims'')))"

text \<open>\<open>verify_transfer_current_spend\<close> for a given root, which is also how \<open>verify_transfer_history\<close> ends.\<close>

definition check_transfer_spend ::
    "platform \<Rightarrow> transparency \<Rightarrow> verifier_config \<Rightarrow> log_network \<Rightarrow> transfer \<Rightarrow> json \<Rightarrow> unit act" where
  "check_transfer_spend P T C L t root =
     bindA (lifts (bindE (spend_key_for_transfer P t) (\<lambda>k.
       bindE (first_proof ps_spend_map_proof L k (root_size root)) (\<lambda>proof.
       verify_spend_map_proof_for_transfer P T t proof root (Some (root_key root)))))) (act_on_verdict P T C)"

section \<open>Transfers\<close>

text \<open>The facade's hash of the transfer's canonical JSON.\<close>

definition transfer_entry_hash :: "platform \<Rightarrow> transfer \<Rightarrow> string res" where
  "transfer_entry_hash P t = message_hash P (transfer_json t)"

text \<open>\<open>x or y\<close>, and \<open>d.get(key)\<close>.\<close>

definition json_or :: "json \<Rightarrow> json \<Rightarrow> json" where
  "json_or x y = (if json_truthy x then x else y)"

definition json_get :: "json \<Rightarrow> string \<Rightarrow> json \<Rightarrow> json" where
  "json_get j k v0 = (case jget j k of None \<Rightarrow> v0 | Some v \<Rightarrow> v)"

definition transfer_recovery_witnesses :: "json \<Rightarrow> json \<times> json" where
  "transfer_recovery_witnesses transfer =
     (let transparency = json_get transfer ''transparency'' JNull in
      if is_dict transparency
      then (json_or (json_get transparency ''recovery_witnesses'' JNull) (JList []),
            json_get transparency ''recovery_message_hash'' JNull)
      else (json_get transfer ''recovery_witnesses'' (JList []), json_get transfer ''recovery_message_hash'' JNull))"

definition verify_transfer_history ::
    "nat \<Rightarrow> platform \<Rightarrow> transparency \<Rightarrow> verifier_config \<Rightarrow> recovery_config \<Rightarrow> log_network \<Rightarrow> transfer \<Rightarrow> json \<Rightarrow> json \<Rightarrow> json walk" where
  "verify_transfer_history d P T C R L t witnesses mhash =
     bindW (ends (lifts (transfer_entry_hash P t))) (\<lambda>entry_hash.
     let (ws, mh) = (if witnesses = JNull \<and> mhash = JNull
           then transfer_recovery_witnesses (transfer_json t) else (witnesses, mhash)) in
     bindW (ends (reads_store (\<lambda>st. leaf_index_for_entry P T C st L entry_hash))) (\<lambda>leaf_index.
     bindW (mirrored_root_containing_leaf d P T C R L (tr_timestamp t) leaf_index ws (json_or mh (JStr entry_hash))) (\<lambda>root.
     ends (bindA (lifts (check_inclusion P T L entry_hash root)) (\<lambda>_.
           bindA (check_transfer_spend P T C L t root) (\<lambda>_. returns root))))))"

definition verify_transfer_current_spend ::
    "nat \<Rightarrow> platform \<Rightarrow> transparency \<Rightarrow> verifier_config \<Rightarrow> log_network \<Rightarrow> transfer \<Rightarrow> int option \<Rightarrow> json option \<Rightarrow> bool act" where
  "verify_transfer_current_spend d P T C L t now current_root =
     bindA (case current_root of Some root \<Rightarrow> returns root | None \<Rightarrow> current_mirrored_root d P T C (ln_network L) now) (\<lambda>root.
     bindA (check_transfer_spend P T C L t root) (\<lambda>_. returns True))"

definition verify_transfer ::
    "nat \<Rightarrow> platform \<Rightarrow> transparency \<Rightarrow> verifier_config \<Rightarrow> recovery_config \<Rightarrow> log_network \<Rightarrow> transfer \<Rightarrow> int option \<Rightarrow> bool \<Rightarrow> bool walk" where
  "verify_transfer d P T C R L t now require_current_root =
     bindW (verify_transfer_history d P T C R L t JNull JNull) (\<lambda>_.
     if require_current_root then ends (verify_transfer_current_spend d P T C L t now None) else ends (returns True))"

section \<open>Checkpoints\<close>

definition check_checkpoint_spend ::
    "platform \<Rightarrow> transparency \<Rightarrow> verifier_config \<Rightarrow> json \<Rightarrow> json res \<Rightarrow> json \<Rightarrow> unit act" where
  "check_checkpoint_spend P T C checkpoint proof root =
     bindA (lifts (bindE proof (\<lambda>p. verify_spend_map_proof_for_checkpoint P T checkpoint p root (Some (root_key root)))))
       (act_on_verdict P T C)"

text \<open>The checkpoint's transparency dict and its hash.\<close>

definition checkpoint_transparency :: "json \<Rightarrow> (json \<times> string) res" where
  "checkpoint_transparency checkpoint =
     (let transparency = json_get checkpoint ''transparency'' JNull in
      if \<not> is_dict transparency then Inl (InclusionProofError ''checkpoint is missing transparency proof'')
      else bindE (jat checkpoint ''checkpoint_hash'') (\<lambda>h. Inr (transparency, lower (py_str h))))"

definition carried_spend_key :: "json \<Rightarrow> string res" where
  "carried_spend_key transparency = bindE (jat transparency ''spend_proof'') (\<lambda>p. str_at p ''spend_key'')"

definition check_checkpoint_in_root ::
    "platform \<Rightarrow> transparency \<Rightarrow> verifier_config \<Rightarrow> log_network \<Rightarrow> json \<Rightarrow> json \<Rightarrow> string \<Rightarrow> json \<Rightarrow> unit act" where
  "check_checkpoint_in_root P T C L checkpoint transparency entry_hash root =
     bindA (lifts (check_inclusion P T L entry_hash root)) (\<lambda>_.
     check_checkpoint_spend P T C checkpoint
       (bindE (carried_spend_key transparency) (\<lambda>k. first_proof ps_spend_map_proof L k (root_size root))) root)"

definition check_carried_proofs ::
    "platform \<Rightarrow> transparency \<Rightarrow> verifier_config \<Rightarrow> json \<Rightarrow> json \<Rightarrow> string \<Rightarrow> (json \<times> int) act" where
  "check_carried_proofs P T C checkpoint transparency entry_hash =
     bindA (lifts (jat transparency ''root'')) (\<lambda>root.
     bindA (reads_store (\<lambda>st. verify_signed_root_for_lineage P T C st root)) (\<lambda>_.
     bindA (lifts (jat transparency ''inclusion_proof'')) (\<lambda>proof.
     bindA (lifts (verify_inclusion_proof P T entry_hash proof root (Some (root_key root)))) (\<lambda>_.
     bindA (check_checkpoint_spend P T C checkpoint (jat transparency ''spend_proof'') root) (\<lambda>_.
     bindA (lifts (int_at proof ''leaf_index'')) (\<lambda>i. returns (root, i)))))))"

definition verify_checkpoint_history ::
    "nat \<Rightarrow> platform \<Rightarrow> transparency \<Rightarrow> verifier_config \<Rightarrow> recovery_config \<Rightarrow> log_network \<Rightarrow> json \<Rightarrow> json walk" where
  "verify_checkpoint_history d P T C R L checkpoint =
     bindW (ends (lifts (checkpoint_transparency checkpoint))) (\<lambda>(transparency, entry_hash).
     bindW (ends (check_carried_proofs P T C checkpoint transparency entry_hash)) (\<lambda>(root, leaf_index).
     bindW (mirrored_root_containing_leaf d P T C R L (root_time root) leaf_index JNull JNull) (\<lambda>mirrored_root.
     ends (bindA (check_checkpoint_in_root P T C L checkpoint transparency entry_hash mirrored_root) (\<lambda>_.
       returns mirrored_root)))))"

definition verify_checkpoint_current_spend ::
    "nat \<Rightarrow> platform \<Rightarrow> transparency \<Rightarrow> verifier_config \<Rightarrow> log_network \<Rightarrow> json \<Rightarrow> int option \<Rightarrow> json option \<Rightarrow> bool act" where
  "verify_checkpoint_current_spend d P T C L checkpoint now current_root =
     bindA (lifts (checkpoint_transparency checkpoint)) (\<lambda>(transparency, entry_hash).
     bindA (case current_root of Some root \<Rightarrow> returns root | None \<Rightarrow> current_mirrored_root d P T C (ln_network L) now) (\<lambda>root.
     bindA (check_checkpoint_in_root P T C L checkpoint transparency entry_hash root) (\<lambda>_. returns True)))"

definition verify_checkpoint ::
    "nat \<Rightarrow> platform \<Rightarrow> transparency \<Rightarrow> verifier_config \<Rightarrow> recovery_config \<Rightarrow> log_network \<Rightarrow> json \<Rightarrow> int option \<Rightarrow> bool \<Rightarrow> bool walk" where
  "verify_checkpoint d P T C R L checkpoint now require_current_root =
     bindW (verify_checkpoint_history d P T C R L checkpoint) (\<lambda>_.
     if require_current_root then ends (verify_checkpoint_current_spend d P T C L checkpoint now None)
     else ends (returns True))"

section \<open>Tokens\<close>

text \<open>The fields that \<open>verify_token\<close> reads of a token.\<close>

record token_history =
  tk_type :: string
  tk_recent_history :: "transfer list"
  tk_history :: "transfer list"

definition token_transfers :: "token_history \<Rightarrow> transfer list" where
  "token_transfers k = (if tk_type k = ''ind.bill.v3'' then tk_recent_history k else tk_history k)"

fun each_act :: "('a \<Rightarrow> 'b act) \<Rightarrow> 'a list \<Rightarrow> unit act" where
  "each_act f [] = returns ()"
| "each_act f (x # xs) = bindA (f x) (\<lambda>_. each_act f xs)"

definition verify_token ::
    "nat \<Rightarrow> platform \<Rightarrow> transparency \<Rightarrow> verifier_config \<Rightarrow> recovery_config \<Rightarrow> log_network \<Rightarrow> token_history \<Rightarrow> int option \<Rightarrow> bool \<Rightarrow> bool walk" where
  "verify_token d P T C R L token now require_current_root =
     bindW (each_walk (\<lambda>t. verify_transfer d P T C R L t None False) (token_transfers token)) (\<lambda>_.
     if require_current_root
     then ends (bindA (current_mirrored_root d P T C (ln_network L) now) (\<lambda>root.
            bindA (each_act (\<lambda>t. verify_transfer_current_spend d P T C L t None (Some root)) (token_transfers token)) (\<lambda>_.
            returns True)))
     else ends (returns True))"

definition verify_token_history ::
    "nat \<Rightarrow> platform \<Rightarrow> transparency \<Rightarrow> verifier_config \<Rightarrow> recovery_config \<Rightarrow> log_network \<Rightarrow> token_history \<Rightarrow> bool walk" where
  "verify_token_history d P T C R L token = verify_token d P T C R L token None False"

definition verify_consistency_between ::
    "platform \<Rightarrow> transparency \<Rightarrow> verifier_config \<Rightarrow> network \<Rightarrow> json \<Rightarrow> json \<Rightarrow> unit act" where
  "verify_consistency_between P T C N old_root new_root =
     bindA (lifts (nw_consistency_proof N (root_size old_root) (root_size new_root))) (\<lambda>proof.
     reads_store (\<lambda>st. verify_consistency_proof P T old_root new_root proof None
       (roots_share_lineage P C st old_root new_root)))"

end
