(* ===== verification/LeafSearch.thy ===== *)
theory LeafSearch
  imports VerifierHistory
begin

text \<open>
  The search for a root that holds a leaf: it ends, after a number of requests that the lag limit bounds, what it
  finds satisfies the limits, and a mirror with recorded roots makes it find the first root that is large enough.
\<close>

section \<open>The time of a root is bounded\<close>

lemma seqE_member: "seqE xs = Inr () \<Longrightarrow> x \<in> set xs \<Longrightarrow> x = Inr ()"
  by (induction xs) (auto simp: bindE_Inr_iff)

lemma canonical_int_bound:
  assumes "canonical_bytes (JDict kvs) = Inr b" and "(k, JInt i) \<in> set kvs"
  shows "i \<le> MAX_JSON_INTEGER_ABS"
proof -
  let ?check = "\<lambda>(k, check). bindE (utf8_length k) (\<lambda>n.
             if n > MAX_JSON_STRING_BYTES then Inl (ValidationError (''protocol object'' @ '' object key is too large''))
             else check ''protocol object'' (0 + 1))"
  from assms(1) have "validate_json_value (JDict kvs) ''protocol object'' 0 = Inr ()"
    by (auto simp: canonical_bytes_def canonical_json_def bindE_Inr_iff simp del: validate_json_value.simps)
  then have "seqE (map ?check (map (map_prod id validate_json_value) kvs)) = Inr ()"
    unfolding validate_json_value.simps if_Inl_Inr_iff by blast
  moreover have "?check (map_prod id validate_json_value (k, JInt i)) \<in> set (map ?check (map (map_prod id validate_json_value) kvs))"
    using assms(2) by (simp only: set_map image_eqI)
  ultimately have "?check (map_prod id validate_json_value (k, JInt i)) = Inr ()" by (rule seqE_member)
  then have "validate_json_value (JInt i) ''protocol object'' 1 = Inr ()"
    by (auto simp: bindE_Inr_iff simp del: validate_json_value.simps split: if_splits)
  then show ?thesis by (auto simp: ensure_def split: if_splits)
qed

lemma signed_root_time_bound:
  assumes "verify_signed_root P T r pin = Inr ()"
  shows "root_time r \<le> MAX_JSON_INTEGER_ABS" and "0 \<le> root_time r" "0 \<le> root_size r"
proof -
  from assms have f: "root_fields T r" and "\<exists>m. root_signature_payload r = Inr m"
    by (auto simp: verify_signed_root_Inr_iff operator_signed_def)
  then obtain b where b: "canonical_bytes (without_key ''signature'' r) = Inr b"
    by (auto simp: root_signature_payload_def signature_payload_def bindE_Inr_iff)
  from f obtain kvs t n where r: "r = JDict kvs" "map_of kvs ''timestamp'' = Some (JInt t)" "map_of kvs ''tree_size'' = Some (JInt n)"
    "0 \<le> t" "0 \<le> n" by (cases r) (auto simp: root_fields_def)
  have "(''timestamp'', JInt t) \<in> set (filter (\<lambda>(k, _). k \<noteq> ''signature'') kvs)"
    using map_of_SomeD [OF r(2)] by simp
  from canonical_int_bound [OF b [unfolded r(1) without_key_def json.case] this] r
  show "root_time r \<le> MAX_JSON_INTEGER_ABS" "0 \<le> root_time r" "0 \<le> root_size r" by (simp_all add: root_int_def)
qed

section \<open>One round\<close>

lemma next_root_Inr_iff:
  "next_root P T C st root_at timestamp late seen n = Inr root \<longleftrightarrow> root_at n = Inr root
     \<and> verify_signed_root_for_lineage P T C st root = Inr () \<and> root_time root \<notin> set seen
     \<and> timestamp \<le> root_time root \<and> (within_lag C timestamp root \<or> late)"
  unfolding next_root_def bindE_Inr_iff if_Inl_Inr_iff by auto

text \<open>The last time at which the search still takes a root.\<close>

definition last_time :: "verifier_config \<Rightarrow> bool \<Rightarrow> int \<Rightarrow> int" where
  "last_time C late timestamp =
     (case vc_max_root_lag C of
        None \<Rightarrow> MAX_JSON_INTEGER_ABS
      | Some m \<Rightarrow> if late then MAX_JSON_INTEGER_ABS else min (timestamp + m) MAX_JSON_INTEGER_ABS)"

lemma next_root_time:
  assumes "next_root P T C st root_at timestamp late seen n = Inr root"
  shows "root_time root \<in> {timestamp..last_time C late timestamp} - set seen"
proof -
  note r = assms [unfolded next_root_Inr_iff]
  then have "verify_signed_root P T root None = Inr ()" by (auto simp: verify_signed_root_for_lineage_def bindE_Inr_iff)
  with r signed_root_time_bound(1) show ?thesis
    by (auto simp: last_time_def within_lag_def split: option.splits)
qed

section \<open>The search ends\<close>

text \<open>Each round leaves one time fewer to look at: induction over the rounds.\<close>

lemma times_left:
  assumes "next_root P T C st root_at timestamp late seen n = Inr root"
  shows "card ({timestamp..last_time C late timestamp} - set seen)
    = Suc (card ({timestamp..last_time C late timestamp} - set (root_time root # seen)))"
proof -
  let ?left = "{timestamp..last_time C late timestamp} - set seen"
  have "{timestamp..last_time C late timestamp} - set (root_time root # seen) = ?left - {root_time root}" by auto
  moreover have "Suc (card (?left - {root_time root})) = card ?left"
    using next_root_time [OF assms] by (intro card_Suc_Diff1) auto
  ultimately show ?thesis by simp
qed

lemma search_induct:
  assumes step: "\<And>seen n. (\<And>root. next_root P T C st root_at timestamp late seen n = Inr root \<Longrightarrow> root_size root < min_tree_size
      \<Longrightarrow> Q (root_time root # seen) (root_time root + 1)) \<Longrightarrow> Q seen n"
  shows "Q seen n"
proof (induction "card ({timestamp..last_time C late timestamp} - set seen)" arbitrary: seen n rule: less_induct)
  case less
  show ?case
  proof (rule step, goal_cases)
    case (1 root)
    from times_left [OF 1(1)] show ?case by (intro less) simp
  qed
qed

text \<open>The result depends on the mirror's answers at finitely many times only: those are the requests.\<close>

definition search_requests ::
    "platform \<Rightarrow> transparency \<Rightarrow> verifier_config \<Rightarrow> observed_store \<Rightarrow> (int \<Rightarrow> json res) \<Rightarrow> int \<Rightarrow> bool \<Rightarrow> int \<Rightarrow> int list \<Rightarrow> int
       \<Rightarrow> int set \<Rightarrow> bool" where
  "search_requests P T C st root_at timestamp late min_tree_size seen n asked \<longleftrightarrow> finite asked
     \<and> (\<forall>other. (\<forall>t \<in> asked. other t = root_at t) \<longrightarrow>
          root_with_leaf P T C st other timestamp late min_tree_size seen n
            = root_with_leaf P T C st root_at timestamp late min_tree_size seen n)"

lemma next_root_request: "other n = root_at n \<Longrightarrow>
    next_root P T C st other timestamp late seen n = next_root P T C st root_at timestamp late seen n"
  by (simp add: next_root_def)

lemma search_ends:
  "\<exists>r asked. root_with_leaf P T C st root_at timestamp late min_tree_size seen n = Some r
     \<and> search_requests P T C st root_at timestamp late min_tree_size seen n asked
     \<and> card asked \<le> Suc (card ({timestamp..last_time C late timestamp} - set seen))"
proof (induction seen n rule: search_induct
    [where P = P and T = T and C = C and st = st and root_at = root_at and timestamp = timestamp and late = late and min_tree_size = min_tree_size])
  case (1 seen n)
  let ?search = "\<lambda>f. root_with_leaf P T C st f timestamp late min_tree_size"
  let ?r = "next_root P T C st root_at timestamp late seen n"
  show ?case
  proof (cases "\<exists>root. ?r = Inr root \<and> root_size root < min_tree_size")
    case False
    have stop: "?search f seen n = Some ?r" if "f n = root_at n" for f
      unfolding root_with_leaf.simps [of P T C st f timestamp late min_tree_size seen n]
        next_root_request [where other = f and root_at = root_at, OF that]
      using False by (cases ?r) auto
    then have "search_requests P T C st root_at timestamp late min_tree_size seen n {n}"
      by (simp add: search_requests_def)
    with stop [of root_at] show ?thesis by (intro exI [of _ ?r] exI [of _ "{n}"]) simp
  next
    case True
    then obtain root where root: "?r = Inr root" "root_size root < min_tree_size" by blast
    have step: "?search f seen n = ?search f (root_time root # seen) (root_time root + 1)" if "f n = root_at n" for f
      unfolding root_with_leaf.simps [of P T C st f timestamp late min_tree_size seen n]
        next_root_request [where other = f and root_at = root_at, OF that]
      using root by simp
    from 1 [OF root] obtain r asked where r: "?search root_at (root_time root # seen) (root_time root + 1) = Some r"
      "search_requests P T C st root_at timestamp late min_tree_size (root_time root # seen) (root_time root + 1) asked"
      "card asked \<le> Suc (card ({timestamp..last_time C late timestamp} - set (root_time root # seen)))" by blast
    have "search_requests P T C st root_at timestamp late min_tree_size seen n (insert n asked)"
      unfolding search_requests_def
    proof (intro conjI allI impI)
      show "finite (insert n asked)" using r(2) unfolding search_requests_def by blast
      fix other
      assume same: "\<forall>t \<in> insert n asked. other t = root_at t"
      then have "?search other (root_time root # seen) (root_time root + 1) = ?search root_at (root_time root # seen) (root_time root + 1)"
        using r(2) unfolding search_requests_def by blast
      with same step [of other] step [of root_at] show "?search other seen n = ?search root_at seen n" by (metis insertI1)
    qed
    moreover have "card (insert n asked) \<le> Suc (card ({timestamp..last_time C late timestamp} - set seen))"
    proof -
      have "finite asked" using r(2) unfolding search_requests_def by blast
      then have "card (insert n asked) \<le> Suc (card asked)" by (simp only: card_insert_if) simp
      also have "\<dots> \<le> Suc (card ({timestamp..last_time C late timestamp} - set seen))"
        using r(3) unfolding times_left [OF root(1)] by (simp only: Suc_le_mono)
      finally show ?thesis .
    qed
    moreover have "?search root_at seen n = Some r" using step [of root_at] r(1) by simp
    ultimately show ?thesis by blast
  qed
qed

lemma search_total: "\<exists>r. root_with_leaf P T C st root_at timestamp late min_tree_size seen n = Some r"
  using search_ends by blast

lemma search_mirrors_total: "(\<And>f. \<exists>r. find_root f = Some r) \<Longrightarrow> \<exists>xs. search_mirrors find_root ms = Some xs"
proof (induction ms)
  case (Cons m ms)
  obtain i f where m: "m = (i, f)" by (cases m)
  from Cons.prems obtain r where "find_root f = Some r" by blast
  with Cons m show ?case by auto
qed simp

lemma containing_total: "\<exists>r. mirrored_root_containing_leaf d P T C R L timestamp leaf_index ws mh s = Some r"
  using search_mirrors_total [of "\<lambda>root_at. root_with_leaf P T C (vf_store s) root_at timestamp
      (recovery_witnesses_allow_late_root P C R ws mh timestamp) (leaf_index + 1) [] timestamp" "ln_root_at L"] search_total
  by (auto simp: mirrored_root_containing_leaf_def Let_def ends_def)

section \<open>What it finds\<close>

lemma search_Inr:
  assumes "root_with_leaf P T C st root_at timestamp late min_tree_size seen n = Some (Inr root)"
  shows "(\<exists>k. root_at k = Inr root) \<and> verify_signed_root_for_lineage P T C st root = Inr ()
    \<and> timestamp \<le> root_time root \<and> min_tree_size \<le> root_size root \<and> (within_lag C timestamp root \<or> late)"
  using assms
proof (induction seen n rule: search_induct
    [where P = P and T = T and C = C and st = st and root_at = root_at and timestamp = timestamp and late = late and min_tree_size = min_tree_size])
  case (1 seen n)
  show ?case
  proof (cases "next_root P T C st root_at timestamp late seen n")
    case (Inl e)
    with 1(2) show ?thesis by (simp add: root_with_leaf.simps [of P T C st root_at timestamp late min_tree_size seen n])
  next
    case (Inr x)
    show ?thesis
    proof (cases "min_tree_size \<le> root_size x")
      case True
      with 1(2) Inr have "root = x" by (simp add: root_with_leaf.simps [of P T C st root_at timestamp late min_tree_size seen n])
      with True Inr [unfolded next_root_Inr_iff] show ?thesis by blast
    next
      case False
      with 1(2) Inr have "root_with_leaf P T C st root_at timestamp late min_tree_size (root_time x # seen) (root_time x + 1) = Some (Inr root)"
        by (simp add: root_with_leaf.simps [of P T C st root_at timestamp late min_tree_size seen n])
      with 1(1) [OF Inr] False show ?thesis by simp
    qed
  qed
qed

text \<open>
  With recorded roots of different times, which all verify, the search finds the first one that holds the leaf, if
  that is not too late.
\<close>

lemma search_first:
  assumes verified: "\<forall>x \<in> set rs. verify_signed_root_for_lineage P T C st x = Inr ()" and times: "inj_on root_time (set rs)"
    and root: "root \<in> set rs" "min_tree_size \<le> root_size root" "within_lag C timestamp root \<or> late"
    and first: "\<forall>x \<in> set rs. timestamp \<le> root_time x \<longrightarrow> root_time x < root_time root \<longrightarrow> root_size x < min_tree_size"
    and start: "timestamp \<le> n" "n \<le> root_time root" "\<forall>t \<in> set seen. t < n"
  shows "root_with_leaf P T C st (roots_root_at rs) timestamp late min_tree_size seen n = Some (Inr root)"
  using start
proof (induction seen n rule: search_induct
    [where P = P and T = T and C = C and st = st and root_at = "roots_root_at rs" and timestamp = timestamp and late = late and min_tree_size = min_tree_size])
  case (1 seen n)
  have numbers: "\<forall>x \<in> set rs. numbered x"
    using verified by (auto simp: verify_signed_root_for_lineage_def bindE_Inr_iff intro: verified_numbered)
  obtain x where x: "roots_root_at rs n = Inr x" using roots_root_at_total [OF numbers root(1) 1(3)] by blast
  note a = roots_root_at_Inr [OF numbers x]
  have le: "root_time x \<le> root_time root" using a(3) root(1) 1(3) by blast
  have "within_lag C timestamp x \<or> late" using root(3) le by (auto simp: within_lag_def split: option.splits)
  then have next_x: "next_root P T C st (roots_root_at rs) timestamp late seen n = Inr x"
    unfolding next_root_Inr_iff using x verified a(1,2) 1(2,4) by fastforce
  show ?case
  proof (cases "root_time x = root_time root")
    case True
    with times a(1) root(1) have "x = root" by (auto simp: inj_on_def)
    with next_x root(2) show ?thesis by (simp add: root_with_leaf.simps [of P T C st "roots_root_at rs" timestamp late min_tree_size seen n])
  next
    case False
    with le have l: "root_time x < root_time root" by simp
    have small: "root_size x < min_tree_size" using first a(1,2) l 1(2) by force
    have "root_with_leaf P T C st (roots_root_at rs) timestamp late min_tree_size (root_time x # seen) (root_time x + 1) = Some (Inr root)"
      by (rule 1(1) [OF next_x small]) (use a(2) 1(2,4) l in auto)
    with next_x small show ?thesis by (simp add: root_with_leaf.simps [of P T C st "roots_root_at rs" timestamp late min_tree_size seen n])
  qed
qed

end
