(* ===== verification/HistoryKeeps.thy ===== *)
theory HistoryKeeps
  imports MirrorKeeps LeafSearch
begin

text \<open>
  The checks of transfers, checkpoints and tokens keep every store invariant: the roots they observe come from the
  mirrors, and the evidence they act on has been verified.
\<close>

section \<open>Methods that may not return\<close>

definition walk_keeps :: "(verifier \<Rightarrow> bool) \<Rightarrow> 'a walk \<Rightarrow> bool" where
  "walk_keeps I m \<longleftrightarrow> (\<forall>s r s'. I s \<longrightarrow> m s = Some (r, s') \<longrightarrow> I s')"

lemma walk_keeps_ends: "keeps I m \<Longrightarrow> walk_keeps I (ends m)"
  unfolding walk_keeps_def keeps_iff ends_def by (metis option.inject snd_conv)

lemma walk_keeps_bind:
  assumes "walk_keeps I m" and "\<And>x. walk_keeps I (f x)"
  shows "walk_keeps I (bindW m f)"
  unfolding walk_keeps_def
proof (intro allI impI)
  fix s r s'
  assume "I s" and "bindW m f s = Some (r, s')"
  then obtain q t where m: "m s = Some (q, t)" and next_step: "(case q of Inl e \<Rightarrow> Some (Inl e, t) | Inr x \<Rightarrow> f x t) = Some (r, s')"
    by (auto simp: bindW_def split: option.splits prod.splits sum.splits)
  from assms(1) m \<open>I s\<close> have "I t" unfolding walk_keeps_def by blast
  with next_step assms(2) show "I s'" unfolding walk_keeps_def by (cases q) (simp, metis sum.case(2))
qed

lemma walk_keeps_if: "walk_keeps I m \<Longrightarrow> walk_keeps I n \<Longrightarrow> walk_keeps I (if c then m else n)"
  by simp

lemma walk_keeps_each: "(\<And>x. walk_keeps I (f x)) \<Longrightarrow> walk_keeps I (each_walk f xs)"
  by (induction xs) (auto intro!: walk_keeps_bind walk_keeps_ends keeps_simple)

lemma keeps_each: "(\<And>x. keeps I (f x)) \<Longrightarrow> keeps I (each_act f xs)"
  by (induction xs) (auto intro!: keeps_bind keeps_simple)

section \<open>The roots that are found come from the mirrors\<close>

definition history_in :: "json set \<Rightarrow> proof_answers \<Rightarrow> log_network \<Rightarrow> bool" where
  "history_in R A L \<longleftrightarrow> answers_in R A (ln_network L)
     \<and> (\<forall>x \<in> set (ln_root_at L). \<forall>n r. snd x n = Inr r \<longrightarrow> r \<in> R)"

lemma search_mirrors_in:
  assumes "search_mirrors f ms = Some xs"
  shows "\<forall>(i, r) \<in> set xs. \<exists>root_at. (i, root_at) \<in> set ms \<and> f root_at = Some (Inr r)"
  using assms
proof (induction ms arbitrary: xs)
  case (Cons m ms)
  obtain i g where m: "m = (i, g)" by (cases m)
  from Cons.prems m obtain a ys where a: "f g = Some a" and ys: "search_mirrors f ms = Some ys"
    and xs: "xs = (case a of Inl e \<Rightarrow> ys | Inr root \<Rightarrow> (i, root) # ys)"
    by (auto split: option.splits)
  with Cons.IH [OF ys] m show ?case by (cases a) fastforce+
qed simp

lemma roots_for_timestamp_in:
  "\<forall>(i, r) \<in> set (roots_for_timestamp P T C st timestamp ms). \<exists>root_at. (i, root_at) \<in> set ms \<and> root_at timestamp = Inr r
     \<and> verify_signed_root_for_lineage P T C st r = Inr ()"
proof (induction ms)
  case (Cons m ms)
  obtain i g where m: "m = (i, g)" by (cases m)
  show ?case
  proof (cases "bindE (g timestamp) (\<lambda>root. bindE (verify_signed_root_for_lineage P T C st root) (\<lambda>_. Inr root))")
    case (Inl e)
    with Cons m show ?thesis by fastforce
  next
    case (Inr r)
    then have "g timestamp = Inr r" "verify_signed_root_for_lineage P T C st r = Inr ()" by (auto simp: bindE_Inr_iff)
    with Inr Cons m show ?thesis by fastforce
  qed
qed simp

context store_invariant
begin

lemma accept_mirrored_keeps:
  assumes "answers_in R A N" and "snd ` set xs \<subseteq> R"
  shows "keeps (holds P T R J) (accept_mirrored_roots d (at_time P n) T C N msg xs)"
proof -
  have refresh: "keeps (holds P T R J) (refresh_stale_consistency_baseline d (at_time P n) T C N l)" for l
    by (rule refresh_keeps [OF assms(1)])
  show ?thesis unfolding accept_mirrored_roots_def Let_def
    by (intro keeps_if keeps_bind keeps_simple observe_roots_keeps observe_root_keeps refresh assms(2)
      answers_proofs [OF assms(1)])
qed

lemma head_keeps: "keeps (holds P T R J) (case xs of [] \<Rightarrow> raises e | r # _ \<Rightarrow> returns r)"
  by (cases xs) (simp_all add: keeps_simple)

lemma root_for_timestamp_keeps:
  assumes "history_in R A L"
  shows "keeps (holds P T R J) (mirrored_root_for_timestamp d (at_time P n) T C L timestamp)"
  unfolding keeps_def mirrored_root_for_timestamp_def
proof (rule triple_bind [where Mid = "\<lambda>xs s. holds P T R J s \<and> snd ` set xs \<subseteq> R"], goal_cases)
  case 1
  have "snd ` set (roots_for_timestamp (at_time P n) T C st timestamp (ln_root_at L)) \<subseteq> R" for st
    using assms roots_for_timestamp_in [of "at_time P n" T C st timestamp "ln_root_at L"] by (fastforce simp: history_in_def)
  then show ?case by (auto intro!: triple_reads)
next
  case (2 xs)
  show ?case
  proof (rule triple_given, fold keeps_def)
    assume "snd ` set xs \<subseteq> R"
    then show "keeps (holds P T R J) (bindA (accept_mirrored_roots d (at_time P n) T C (ln_network L)
        ''not enough usable transparency root mirrors'' xs) (\<lambda>roots. case sort_key (\<lambda>r. (root_time r, root_size r))
         (filter (\<lambda>r. timestamp \<le> root_time r \<and> within_lag C timestamp r) roots) of
       [] \<Rightarrow> raises (RootVerificationError ''no mirrored transparency root close enough to transfer timestamp'')
     | root # _ \<Rightarrow> returns root))"
      using assms by (intro keeps_bind accept_mirrored_keeps head_keeps) (simp_all add: history_in_def)
  qed
qed

lemma containing_keeps:
  assumes "history_in R A L"
  shows "walk_keeps (holds P T R J) (mirrored_root_containing_leaf d (at_time P n) T C Rc L timestamp i ws mh)"
  unfolding walk_keeps_def
proof (intro allI impI)
  fix s :: verifier and r s'
  let ?find = "\<lambda>root_at. root_with_leaf (at_time P n) T C (vf_store s) root_at timestamp
      (recovery_witnesses_allow_late_root (at_time P n) C Rc ws mh timestamp) (i + 1) [] timestamp"
  assume h: "holds P T R J s" and ret: "mirrored_root_containing_leaf d (at_time P n) T C Rc L timestamp i ws mh s = Some (r, s')"
  then obtain xs where xs: "search_mirrors ?find (ln_root_at L) = Some xs"
    by (auto simp: mirrored_root_containing_leaf_def Let_def split: option.splits)
  have "snd ` set xs \<subseteq> R"
  proof
    fix r
    assume "r \<in> snd ` set xs"
    with search_mirrors_in [OF xs] obtain j g where "(j, g) \<in> set (ln_root_at L)" "?find g = Some (Inr r)" by auto
    with search_Inr [OF this(2)] assms show "r \<in> R" by (fastforce simp: history_in_def)
  qed
  with assms have "keeps (holds P T R J) (bindA (accept_mirrored_roots d (at_time P n) T C (ln_network L)
      ''not enough usable transparency root mirrors containing leaf'' xs)
      (\<lambda>roots. case sort_key (\<lambda>r. (root_time r, root_size r)) roots of
         [] \<Rightarrow> raises (PyValueError ''list index out of range'') | root # _ \<Rightarrow> returns root))"
    by (intro keeps_bind accept_mirrored_keeps head_keeps) (simp_all add: history_in_def)
  from walk_keeps_ends [OF this] h ret xs show "holds P T R J s'"
    by (simp add: walk_keeps_def mirrored_root_containing_leaf_def)
qed

lemma verdict_keeps: "keeps (holds P T R J) (act_on_verdict (at_time P n) T C v)"
  by (cases v) (auto simp: act_on_verdict_def intro!: keeps_bind handle_violation_keeps keeps_simple)

lemma spend_checks_keep:
  "keeps (holds P T R J) (check_transfer_spend (at_time P n) T C L t root)"
  "keeps (holds P T R J) (check_checkpoint_spend (at_time P n) T C c p root)"
  "keeps (holds P T R J) (check_checkpoint_in_root (at_time P n) T C L c tr h root)"
  "keeps (holds P T R J) (check_carried_proofs (at_time P n) T C c tr h)"
  unfolding check_transfer_spend_def check_checkpoint_in_root_def check_carried_proofs_def check_checkpoint_spend_def
  by (intro keeps_bind keeps_simple verdict_keeps)+

lemma current_root_keeps:
  assumes "answers_in R A N"
  shows "keeps (holds P T R J) (current_mirrored_root d (at_time P n) T C N now)"
  unfolding current_mirrored_root_def
proof (intro keeps_bind current_roots_keeps assms refresh_keeps)
  show "keeps (holds P T R J) (case sort_key (\<lambda>r. (root_size r, root_time r)) rs of
      [] \<Rightarrow> raises (PyValueError ''list index out of range'') | r # rs \<Rightarrow> returns (last (r # rs)))" for rs
    by (auto split: list.splits)
qed

lemma given_or_current_keeps:
  "answers_in R A N \<Longrightarrow> keeps (holds P T R J) (case r of Some root \<Rightarrow> returns root | None \<Rightarrow> current_mirrored_root d (at_time P n) T C N now)"
  using current_root_keeps by (cases r) (auto intro: keeps_simple)

lemma transfer_history_keeps:
  assumes "history_in R A L"
  shows "walk_keeps (holds P T R J) (verify_transfer_history d (at_time P n) T C Rc L t ws mh)"
  unfolding verify_transfer_history_def Let_def split_def
  by (intro walk_keeps_bind walk_keeps_ends keeps_bind keeps_simple containing_keeps assms spend_checks_keep)

lemma transfer_spend_keeps:
  assumes "answers_in R A (ln_network L)"
  shows "keeps (holds P T R J) (verify_transfer_current_spend d (at_time P n) T C L t now r)"
  unfolding verify_transfer_current_spend_def
  by (intro keeps_bind given_or_current_keeps assms spend_checks_keep keeps_simple)

lemma transfer_keeps:
  assumes "history_in R A L"
  shows "walk_keeps (holds P T R J) (verify_transfer d (at_time P n) T C Rc L t now b)"
  unfolding verify_transfer_def
  by (intro walk_keeps_bind walk_keeps_if walk_keeps_ends transfer_history_keeps transfer_spend_keeps keeps_simple assms)
    (use assms in \<open>simp add: history_in_def\<close>)

lemma checkpoint_history_keeps:
  assumes "history_in R A L"
  shows "walk_keeps (holds P T R J) (verify_checkpoint_history d (at_time P n) T C Rc L c)"
  unfolding verify_checkpoint_history_def split_def
  by (intro walk_keeps_bind walk_keeps_ends keeps_bind keeps_simple containing_keeps assms spend_checks_keep)

lemma checkpoint_spend_keeps:
  assumes "answers_in R A (ln_network L)"
  shows "keeps (holds P T R J) (verify_checkpoint_current_spend d (at_time P n) T C L c now r)"
  unfolding verify_checkpoint_current_spend_def split_def
  by (intro keeps_bind given_or_current_keeps assms spend_checks_keep keeps_simple)

lemma checkpoint_keeps:
  assumes "history_in R A L"
  shows "walk_keeps (holds P T R J) (verify_checkpoint d (at_time P n) T C Rc L c now b)"
  unfolding verify_checkpoint_def
  by (intro walk_keeps_bind walk_keeps_if walk_keeps_ends checkpoint_history_keeps checkpoint_spend_keeps keeps_simple assms)
    (use assms in \<open>simp add: history_in_def\<close>)

lemma token_keeps:
  assumes "history_in R A L"
  shows "walk_keeps (holds P T R J) (verify_token d (at_time P n) T C Rc L token now b)"
proof -
  have "answers_in R A (ln_network L)" using assms by (simp add: history_in_def)
  then show ?thesis
    unfolding verify_token_def
    by (intro walk_keeps_bind walk_keeps_if walk_keeps_ends walk_keeps_each keeps_bind keeps_each keeps_simple
        transfer_keeps current_root_keeps transfer_spend_keeps assms)
qed

end

end
