(* ===== verification/VerifierRuns.thy ===== *)
theory VerifierRuns
  imports HistoryKeeps
begin

text \<open>
  The runs of a verifier, as an inductive relation over its public operations, and the rule that a store
  invariant of the empty store holds after every run.
\<close>

section \<open>Runs\<close>

text \<open>
  The public operations of the verifier as events. The number is the depth allowed to the refresh of stale
  baselines; the network is what mirrors and operator answer during the call.
\<close>

datatype event =
    ObserveRoot nat network json source_identity
  | CheckLatest nat network "int option"
  | CurrentRoot nat network "int option"
  | RootAnnouncement json "string option" "string option"
  | EquivocationMessage json "string option" "string option"
  | ViolationMessage json "string option" "string option"
  | HandleViolation json
  | ObserveRotation json "int option"
  | ObserveRevocation json "int option"
  | ConsumeGossip
  | RootForTimestamp nat log_network int
  | TransferHistory nat recovery_config log_network transfer json json
  | TransferSpend nat log_network transfer "int option" "json option"
  | VerifyTransfer nat recovery_config log_network transfer "int option" bool
  | CheckpointHistory nat recovery_config log_network json
  | CheckpointSpend nat log_network json "int option" "json option"
  | VerifyCheckpoint nat recovery_config log_network json "int option" bool
  | VerifyToken nat recovery_config log_network token_history "int option" bool

text \<open>The state in which a method leaves the verifier. All of them return: \<open>containing_total\<close>.\<close>

definition leaves_state :: "'a walk \<Rightarrow> verifier \<Rightarrow> verifier" where
  "leaves_state m s = (case m s of None \<Rightarrow> s | Some (r, s') \<Rightarrow> s')"

fun perform :: "platform \<Rightarrow> transparency \<Rightarrow> verifier_config \<Rightarrow> event \<Rightarrow> verifier \<Rightarrow> verifier" where
  "perform P T C (ObserveRoot d N root src) s =
     snd (observe_root P T C N (refresh_stale_consistency_baseline d P T C N) root src s)"
| "perform P T C (CheckLatest d N now) s = snd (check_latest_consistency d P T C N now s)"
| "perform P T C (CurrentRoot d N now) s = snd (current_mirrored_root d P T C N now s)"
| "perform P T C (RootAnnouncement m peer mh) s = snd (process_root_announcement P T C m peer mh s)"
| "perform P T C (EquivocationMessage m peer mh) s = snd (process_equivocation_proof P T C m peer mh s)"
| "perform P T C (ViolationMessage m peer mh) s = snd (process_operator_policy_violation_proof P T C m peer mh s)"
| "perform P T C (HandleViolation m) s = snd (handle_operator_policy_violation P T C m s)"
| "perform P T C (ObserveRotation r t) s = snd (observe_key_rotation P C r t s)"
| "perform P T C (ObserveRevocation r t) s = snd (observe_key_revocation P C r t s)"
| "perform P T C ConsumeGossip s = snd (consume_pending_gossip_messages s)"
| "perform P T C (RootForTimestamp d L timestamp) s = snd (mirrored_root_for_timestamp d P T C L timestamp s)"
| "perform P T C (TransferHistory d R L t ws mh) s = leaves_state (verify_transfer_history d P T C R L t ws mh) s"
| "perform P T C (TransferSpend d L t now root) s = snd (verify_transfer_current_spend d P T C L t now root s)"
| "perform P T C (VerifyTransfer d R L t now b) s = leaves_state (verify_transfer d P T C R L t now b) s"
| "perform P T C (CheckpointHistory d R L c) s = leaves_state (verify_checkpoint_history d P T C R L c) s"
| "perform P T C (CheckpointSpend d L c now root) s = snd (verify_checkpoint_current_spend d P T C L c now root s)"
| "perform P T C (VerifyCheckpoint d R L c now b) s = leaves_state (verify_checkpoint d P T C R L c now b) s"
| "perform P T C (VerifyToken d R L token now b) s = leaves_state (verify_token d P T C R L token now b) s"

text \<open>The roots and the answers to requests for consistency proofs that an event shows the verifier.\<close>

fun event_in :: "json set \<Rightarrow> proof_answers \<Rightarrow> event \<Rightarrow> bool" where
  "event_in R A (ObserveRoot d N root src) \<longleftrightarrow> root \<in> R \<and> answers_in R A N"
| "event_in R A (CheckLatest d N now) \<longleftrightarrow> answers_in R A N"
| "event_in R A (CurrentRoot d N now) \<longleftrightarrow> answers_in R A N"
| "event_in R A (RootAnnouncement m peer mh) \<longleftrightarrow> message_in R m"
| "event_in R A (EquivocationMessage m peer mh) \<longleftrightarrow> message_in R m"
| "event_in R A (ViolationMessage m peer mh) \<longleftrightarrow> message_in R m"
| "event_in R A (HandleViolation m) \<longleftrightarrow> True"
| "event_in R A (ObserveRotation r t) \<longleftrightarrow> True"
| "event_in R A (ObserveRevocation r t) \<longleftrightarrow> True"
| "event_in R A ConsumeGossip \<longleftrightarrow> True"
| "event_in R A (RootForTimestamp d L timestamp) \<longleftrightarrow> history_in R A L"
| "event_in R A (TransferHistory d Rc L t ws mh) \<longleftrightarrow> history_in R A L"
| "event_in R A (TransferSpend d L t now root) \<longleftrightarrow> answers_in R A (ln_network L)"
| "event_in R A (VerifyTransfer d Rc L t now b) \<longleftrightarrow> history_in R A L"
| "event_in R A (CheckpointHistory d Rc L c) \<longleftrightarrow> history_in R A L"
| "event_in R A (CheckpointSpend d L c now root) \<longleftrightarrow> answers_in R A (ln_network L)"
| "event_in R A (VerifyCheckpoint d Rc L c now b) \<longleftrightarrow> history_in R A L"
| "event_in R A (VerifyToken d Rc L token now b) \<longleftrightarrow> history_in R A L"

definition new_verifier :: verifier where
  "new_verifier = \<lparr>vf_store = empty_store, vf_pending = [], vf_queued_roots = [], vf_queued_evidence = [],
     vf_pairs = [], vf_refreshing = []\<rparr>"

text \<open>\<open>run P T R A C s t\<close>: events, each at a time of its own, lead from \<open>s\<close> to \<open>t\<close>.\<close>

inductive run :: "platform \<Rightarrow> transparency \<Rightarrow> json set \<Rightarrow> proof_answers \<Rightarrow> verifier_config \<Rightarrow> verifier \<Rightarrow> verifier \<Rightarrow> bool"
  for P T R A C s where
  idle: "run P T R A C s s"
| event: "run P T R A C s t \<Longrightarrow> event_in R A e \<Longrightarrow> run P T R A C s (perform (at_time P n) T C e t)"

text \<open>A verifier starts with an empty store, or with a store that holds its configured anchor.\<close>

inductive started :: "platform \<Rightarrow> transparency \<Rightarrow> json set \<Rightarrow> verifier_config \<Rightarrow> verifier \<Rightarrow> bool"
  for P T R C where
  plain: "started P T R C new_verifier"
| anchored: "anchor \<in> R \<Longrightarrow> started P T R C (snd (load_consistency_anchor (at_time P n) T C anchor new_verifier))"

definition reachable :: "platform \<Rightarrow> transparency \<Rightarrow> json set \<Rightarrow> proof_answers \<Rightarrow> verifier_config \<Rightarrow> verifier \<Rightarrow> bool" where
  "reachable P T R A C t \<longleftrightarrow> (\<exists>s. started P T R C s \<and> run P T R A C s t)"

lemma run_trans: "run P T R A C t u \<Longrightarrow> run P T R A C s t \<Longrightarrow> run P T R A C s u"
  by (induction rule: run.induct) (auto intro: run.event)

lemma reachable_run: "reachable P T R A C s \<Longrightarrow> run P T R A C s t \<Longrightarrow> reachable P T R A C t"
  unfolding reachable_def using run_trans by blast

lemma stored_empty [simp]: "stored P T R empty_store"
  by (simp add: stored_def empty_store_def)

context store_invariant
begin

lemma walk_state: "walk_keeps I m \<Longrightarrow> I s \<Longrightarrow> I (leaves_state m s)"
  by (auto simp: walk_keeps_def leaves_state_def split: option.splits)

lemma perform_keeps:
  assumes "event_in R A e" and "holds P T R J s"
  shows "holds P T R J (perform (at_time P n) T C e s)"
proof -
  have refresh: "keeps (holds P T R J) (refresh_stale_consistency_baseline d (at_time P n) T C N l)"
    if "answers_in R A N" for d N l by (rule refresh_keeps [OF that])
  have roots: "keeps (holds P T R J) (current_roots_from_mirrors (at_time P n) T C N
      (refresh_stale_consistency_baseline d (at_time P n) T C N) now)" if "answers_in R A N" for d N now
    by (rule current_roots_keeps [OF that refresh [OF that]])
  show ?thesis
  proof (cases e)
    case (ObserveRoot d N root src)
    with assms(1) have "keeps (holds P T R J) (observe_root (at_time P n) T C N (refresh_stale_consistency_baseline d (at_time P n) T C N) root src)"
      by (intro observe_root_keeps refresh) (auto intro: answers_proofs)
    then show ?thesis using assms(2) by (simp add: ObserveRoot keeps_iff)
  next
    case (CheckLatest d N now)
    with assms roots show ?thesis by (simp add: check_latest_consistency_def keeps_iff)
  next
    case (CurrentRoot d N now)
    with assms current_root_keeps show ?thesis by (simp add: keeps_iff)
  next
    case (TransferHistory d Rc L t ws mh)
    with assms transfer_history_keeps show ?thesis by (simp add: walk_state)
  next
    case (VerifyTransfer d Rc L t now b)
    with assms transfer_keeps show ?thesis by (simp add: walk_state)
  next
    case (CheckpointHistory d Rc L c)
    with assms checkpoint_history_keeps show ?thesis by (simp add: walk_state)
  next
    case (VerifyCheckpoint d Rc L c now b)
    with assms checkpoint_keeps show ?thesis by (simp add: walk_state)
  next
    case (VerifyToken d Rc L token now b)
    with assms token_keeps show ?thesis by (simp add: walk_state)
  qed (use assms announcement_keeps equivocation_message_keeps violation_message_keeps handle_violation_keeps key_messages_keep
      keeps_kept [OF queues_keep_store(3)] root_for_timestamp_keeps transfer_spend_keeps checkpoint_spend_keeps in \<open>auto simp: keeps_iff\<close>)
qed

lemma run_keeps: "run P T R A C s t \<Longrightarrow> holds P T R J s \<Longrightarrow> holds P T R J t"
  by (induction rule: run.induct) (auto intro: perform_keeps)

lemma started_holds:
  assumes "J empty_store" and "started P T R C s"
  shows "holds P T R J s"
  using assms(2)
proof cases
  case plain
  with assms(1) show ?thesis by (simp add: holds_def new_verifier_def)
next
  case (anchored anchor n)
  let ?Q = "at_time P n" and ?src = "IdPair ''configured-anchor'' (root_log anchor)"
  have h: "holds P T R J new_verifier" using assms(1) by (simp add: holds_def new_verifier_def)
  show ?thesis
  proof (cases "verify_signed_root P T anchor (vc_operator_public_key C)")
    case (Inl e)
    with h show ?thesis by (simp add: anchored(1) load_consistency_anchor_def bindA_def lifts_def)
  next
    case v: (Inr u)
    then have valid: "valid_root P T R anchor" using anchored(2) unpinned by simp
    show ?thesis
    proof (cases "record_root ?Q empty_store anchor ?src (Some n) (Some n)")
      case (Inl e)
      with h v show ?thesis
        by (simp add: anchored(1) load_consistency_anchor_def bindA_def lifts_def changes_store_def updates_store_def new_verifier_def)
    next
      case (Inr st)
      have "stored P T R st" using valid by (intro stored_record_root [OF stored_empty _ _ Inr]) simp_all
      moreover have "J (mark_active ?Q st (root_log anchor) (root_key anchor) (Some n))"
        by (rule accepted [OF stored_empty assms(1) valid _ _ Inr]) (simp_all add: blacklisted_def empty_store_def)
      ultimately show ?thesis using v Inr
        by (simp add: anchored(1) load_consistency_anchor_def bindA_def lifts_def changes_store_def updates_store_def new_verifier_def holds_def)
    qed
  qed
qed

lemma reachable_holds: "J empty_store \<Longrightarrow> reachable P T R A C s \<Longrightarrow> holds P T R J s"
  unfolding reachable_def using started_holds run_keeps by blast

end

end
