(* ===== verification/VerifierInvariants.thy ===== *)
theory VerifierInvariants
  imports VerifierRuns
begin

text \<open>
  The invariants of a verifier's store: interpretations of \<open>store_invariant\<close> on the model's store. A
  blacklisted log stays blacklisted and accepts no root; every blacklisting is backed by stored evidence;
  the roots accepted for a log never contradict each other; the rotations of a log follow each other.
\<close>

section \<open>What the changes leave alone\<close>

lemma mark_frames [simp]:
  "ob_roots (mark_active Q st l k t) = ob_roots st" "ob_roots (mark_unresponsive Q st l k r t) = ob_roots st"
  "ob_roots (mark_blacklisted Q st l k r i t) = ob_roots st"
  "ob_key_rotations (mark_active Q st l k t) = ob_key_rotations st"
  "ob_key_rotations (mark_unresponsive Q st l k r t) = ob_key_rotations st"
  "ob_key_rotations (mark_blacklisted Q st l k r i t) = ob_key_rotations st"
  "ob_equivocations (mark_active Q st l k t) = ob_equivocations st"
  "ob_equivocations (mark_unresponsive Q st l k r t) = ob_equivocations st"
  "ob_equivocations (mark_blacklisted Q st l k r i t) = ob_equivocations st"
  "ob_failures (mark_active Q st l k t) = ob_failures st" "ob_failures (mark_unresponsive Q st l k r t) = ob_failures st"
  "ob_failures (mark_blacklisted Q st l k r i t) = ob_failures st"
  "ob_policy_violations (mark_active Q st l k t) = ob_policy_violations st"
  "ob_policy_violations (mark_unresponsive Q st l k r t) = ob_policy_violations st"
  "ob_policy_violations (mark_blacklisted Q st l k r i t) = ob_policy_violations st"
  by (simp_all add: mark_active_def mark_unresponsive_def mark_blacklisted_def Let_def split: option.splits)

lemma record_root_frame:
  assumes "record_root Q st root src t c = Inr st'"
  shows "ob_statuses st' = ob_statuses st" "ob_key_rotations st' = ob_key_rotations st" "ob_equivocations st' = ob_equivocations st"
    "ob_failures st' = ob_failures st" "ob_policy_violations st' = ob_policy_violations st"
  using record_root_roots [OF assms] by auto

lemma prune_frame:
  assumes "prune_matching Q st m n = Inr st'"
  shows "\<exists>xs. st' = st\<lparr>ob_peer_roots := xs\<rparr>"
proof -
  have "\<exists>xs. st = st\<lparr>ob_peer_roots := xs\<rparr>" by (rule exI [of _ "ob_peer_roots st"]) simp
  with assms show ?thesis
    by (auto simp: prune_matching_def bindE_Inr_iff Let_def split: if_splits)
qed

lemma peer_root_frame:
  assumes "record_peer_root Q st root peer mh t m1 m2 = Inr st'"
  shows "\<exists>xs. st' = st\<lparr>ob_peer_roots := xs\<rparr>"
proof -
  have "\<exists>xs. st = st\<lparr>ob_peer_roots := xs\<rparr>" by (rule exI [of _ "ob_peer_roots st"]) simp
  with assms show ?thesis
    by (fastforce simp: record_peer_root_def prune_peer_roots_def prune_peer_roots_for_log_def bindE_Inr_iff Let_def
        split: if_splits option.splits dest: prune_frame)
qed

lemma save_equivocation_frame:
  assumes "save_equivocation_evidence Q T st a b c d = Inr (x, st')"
  shows "st' = st\<lparr>ob_equivocations := AList.update (fst x) (snd x) (ob_equivocations st)\<rparr>"
    and "make_equivocation_proof Q T a b (Some c) (Some (time_or_now Q d)) = Inr (snd x)" and "message_hash Q (snd x) = Inr (fst x)"
  using assms by (auto simp: save_equivocation_evidence_def bindE_Inr_iff)

lemma save_violation_frame:
  assumes "save_operator_policy_violation Q T st q = Inr (x, st')"
  shows "st' = st\<lparr>ob_policy_violations := AList.update (fst x) (snd x) (ob_policy_violations st)\<rparr>"
    and "verify_operator_policy_violation_proof Q T q None = Inr (snd x)" and "message_hash Q (snd x) = Inr (fst x)"
  using assms by (auto simp: save_operator_policy_violation_def bindE_Inr_iff)

definition failure_record :: "json \<Rightarrow> json \<Rightarrow> json \<Rightarrow> string \<Rightarrow> int \<Rightarrow> json" where
  "failure_record l a b m t = JDict [(''type'', JStr ''ind.transparency_consistency_failure.v3''), (''version'', JInt 1),
     (''log_id'', l), (''old_root'', a), (''new_root'', b), (''error'', JStr m), (''detected_at'', JInt t)]"

lemma save_failure_frame:
  assumes "save_consistency_failure Q st a b m d = Inr (i, st')"
  shows "\<exists>l t. jget a ''log_id'' = Some l \<and> message_hash Q (failure_record l a b m t) = Inr i
    \<and> st' = st\<lparr>ob_failures := AList.update i (failure_record l a b m t) (ob_failures st)\<rparr>"
  using assms by (auto simp: save_consistency_failure_def failure_record_def bindE_Inr_iff jat_Inr_iff Let_def)

lemma record_rotation_frame:
  assumes "record_key_rotation Q st r t = Inr (h, st')"
  shows "\<exists>xs. st' = st\<lparr>ob_key_rotations := xs\<rparr>"
proof -
  have "\<exists>xs. st = st\<lparr>ob_key_rotations := xs\<rparr>" by (rule exI [of _ "ob_key_rotations st"]) simp
  with assms show ?thesis
    by (auto simp: record_key_rotation_def bindE_Inr_iff split: if_splits)
qed

lemma record_revocation_frame:
  "record_key_revocation Q st r t = Inr (h, st') \<Longrightarrow> \<exists>xs. st' = st\<lparr>ob_key_revocations := xs\<rparr>"
  by (auto simp: record_key_revocation_def bindE_Inr_iff split: if_splits option.splits)

lemma blacklisted_marks:
  "blacklisted (mark_active Q st k key t) l \<longleftrightarrow> l \<noteq> k \<and> blacklisted st l"
  "blacklisted st l \<Longrightarrow> blacklisted (mark_unresponsive Q st k key r t) l"
  "blacklisted (mark_blacklisted Q st k key r i t) l \<longleftrightarrow> l = k \<or> blacklisted st l"
  by (auto simp: blacklisted_def mark_active_def mark_unresponsive_def mark_blacklisted_def Let_def split: option.splits)

lemma observed_of_simps:
  "observed_of (st\<lparr>ob_statuses := a\<rparr>) = observed_of st"
  by (simp add: observed_of_def fun_eq_iff)

section \<open>A blacklisting is final\<close>

definition frozen :: "string \<Rightarrow> json list \<Rightarrow> observed_store \<Rightarrow> bool" where
  "frozen l rs st \<longleftrightarrow> blacklisted st l \<and> observed_of st l = rs"

lemma frozen_simps:
  "frozen l rs (st\<lparr>ob_peer_roots := b\<rparr>) = frozen l rs st" "frozen l rs (st\<lparr>ob_equivocations := c\<rparr>) = frozen l rs st"
  "frozen l rs (st\<lparr>ob_failures := d\<rparr>) = frozen l rs st" "frozen l rs (st\<lparr>ob_policy_violations := e\<rparr>) = frozen l rs st"
  "frozen l rs (st\<lparr>ob_key_rotations := f\<rparr>) = frozen l rs st" "frozen l rs (st\<lparr>ob_key_revocations := g\<rparr>) = frozen l rs st"
  by (simp_all add: frozen_def blacklisted_def observed_of_def)

lemma frozen_mark_blacklisted: "frozen l rs st \<Longrightarrow> frozen l rs (mark_blacklisted Q st k key r i t)"
  by (simp add: frozen_def blacklisted_marks) (simp add: observed_of_def)

interpretation permanent: store_invariant P T R A "frozen l rs" for P T R A l rs
proof
  fix st st' :: observed_store and root n src
  assume j: "frozen l rs st" and n: "\<not> blacklisted st (root_log root)"
    and r: "record_root (at_time P n) st root src (Some n) (Some n) = Inr st'"
  from j n have "root_log root \<noteq> l" by (auto simp: frozen_def)
  with record_root_roots [OF r] have "observed_of st' l = observed_of st l" by (auto simp: observed_of_def)
  moreover have "blacklisted st' l = blacklisted st l" using record_root_frame(1) [OF r] by (simp add: blacklisted_def)
  ultimately show "frozen l rs (mark_active (at_time P n) st' (root_log root) (root_key root) (Some n))"
    using j \<open>root_log root \<noteq> l\<close> by (simp add: frozen_def blacklisted_marks) (simp add: observed_of_def)
next
  fix st n k key r t
  assume "frozen l rs st"
  then show "frozen l rs (mark_unresponsive (at_time P n) st k key r t)"
    by (simp add: frozen_def blacklisted_marks) (simp add: observed_of_def)
qed (auto simp: frozen_simps intro!: frozen_mark_blacklisted
    dest!: save_equivocation_frame(1) save_violation_frame(1) save_failure_frame peer_root_frame record_rotation_frame record_revocation_frame)

section \<open>A blacklisting has evidence\<close>

text \<open>The three kinds of evidence about the operator of a log.\<close>

definition proves_equivocation :: "platform \<Rightarrow> transparency \<Rightarrow> json set \<Rightarrow> string \<Rightarrow> json \<Rightarrow> bool" where
  "proves_equivocation P T R l p \<longleftrightarrow> (\<exists>a b c. jget p ''root_a'' = Some a \<and> jget p ''root_b'' = Some b
     \<and> valid_root P T R a \<and> valid_root P T R b \<and> root_log a = l \<and> root_log b = l \<and> contradict a b c)"

definition proves_violation :: "platform \<Rightarrow> transparency \<Rightarrow> string \<Rightarrow> json \<Rightarrow> bool" where
  "proves_violation P T l p \<longleftrightarrow> (\<exists>n r. verify_operator_policy_violation_proof (at_time P n) T p None = Inr p
     \<and> jget p ''root'' = Some r \<and> root_log r = l)"

definition reports_failure :: "platform \<Rightarrow> transparency \<Rightarrow> json set \<Rightarrow> proof_answers \<Rightarrow> string \<Rightarrow> json \<Rightarrow> bool" where
  "reports_failure P T R A l p \<longleftrightarrow> (\<exists>a b m t. p = failure_record (JStr l) a b m t
     \<and> valid_root P T R a \<and> valid_root P T R b \<and> root_log a = l \<and> failed_comparison P T A a b m)"

text \<open>
  A table of evidence holds a record about a log under an id, which is the hash of the record. Saving replaces a
  record of the same hash: what is then in the table is about the same log, or two different records of evidence
  have that hash.
\<close>

definition kept_about :: "platform \<Rightarrow> (string \<Rightarrow> json \<Rightarrow> bool) \<Rightarrow> (string \<times> json) list \<Rightarrow> string \<Rightarrow> string \<Rightarrow> bool" where
  "kept_about P about xs l i \<longleftrightarrow> (\<exists>q. map_of xs i = Some q \<and> message_hash P q = Inr i
     \<and> (about l q \<or> (\<exists>p k. about l p \<and> about k q \<and> message_hash P p = Inr i \<and> norm p \<noteq> norm q)))"

definition backed :: "platform \<Rightarrow> transparency \<Rightarrow> json set \<Rightarrow> proof_answers \<Rightarrow> observed_store \<Rightarrow> string \<Rightarrow> string \<Rightarrow> bool" where
  "backed P T R A st l i \<longleftrightarrow> kept_about P (proves_equivocation P T R) (ob_equivocations st) l i
     \<or> kept_about P (proves_violation P T) (ob_policy_violations st) l i
     \<or> kept_about P (reports_failure P T R A) (ob_failures st) l i"

lemma map_of_insort: "map_of (insort_key fst x xs) = (map_of xs)(fst x \<mapsto> snd x)"
  by (induction xs) (auto simp: fun_eq_iff)

lemma map_of_stable_sort: "map_of (sort_key fst xs) = map_of xs"
  by (induction xs) (simp_all add: map_of_insort)

lemma jget_norm: "jget (norm j) k = map_option norm (jget j k)"
proof (cases j)
  case (JDict kvs)
  have "map_of (map (map_prod id norm) kvs) k = map_option norm (map_of kvs k)"
    by (induction kvs) (auto simp: map_prod_def)
  then show ?thesis by (simp add: JDict jget_def map_of_stable_sort)
qed (simp_all add: jget_def)

text \<open>Records that are equal up to the order of their keys are about one log.\<close>

definition names_log :: "(string \<Rightarrow> json \<Rightarrow> bool) \<Rightarrow> bool" where
  "names_log about \<longleftrightarrow> (\<forall>p q l k. about l p \<longrightarrow> about k q \<longrightarrow> norm p = norm q \<longrightarrow> l = k)"

lemma names_logI:
  assumes "\<And>l p. about l p \<Longrightarrow> f (norm p) = Some l"
  shows "names_log about"
  unfolding names_log_def using assms by (metis option.inject)

lemma names_root_log:
  assumes "\<And>l p. about l p \<Longrightarrow> \<exists>a. jget p f = Some a \<and> jget a ''log_id'' = Some (JStr l)"
  shows "names_log about"
proof (rule names_logI)
  fix l p
  assume "about l p"
  with assms obtain a where "jget p f = Some a" "jget a ''log_id'' = Some (JStr l)" by blast
  then show "(case jget (norm p) f of None \<Rightarrow> None | Some a \<Rightarrow> (case jget a ''log_id'' of Some (JStr l) \<Rightarrow> Some l | _ \<Rightarrow> None)) = Some l"
    by (simp add: jget_norm)
qed

lemma evidence_names_log: "names_log (proves_equivocation P T R)" "names_log (proves_violation P T)" "names_log (reports_failure P T R A)"
proof -
  show "names_log (proves_equivocation P T R)"
    by (rule names_root_log [where f = "''root_a''"]) (metis proves_equivocation_def verified_root_log(1))
  show "names_log (proves_violation P T)"
  proof (rule names_root_log [where f = "''root''"])
    fix l p
    assume "proves_violation P T l p"
    then obtain n r where "verify_operator_policy_violation_proof (at_time P n) T p None = Inr p" "jget p ''root'' = Some r" "root_log r = l"
      by (auto simp: proves_violation_def)
    moreover from this have "verify_signed_root P T r None = Inr ()" by (auto simp: verify_violation_Inr_iff)
    ultimately show "\<exists>a. jget p ''root'' = Some a \<and> jget a ''log_id'' = Some (JStr l)" using verified_root_log(1) by metis
  qed
  show "names_log (reports_failure P T R A)"
    by (rule names_logI [where f = "\<lambda>j. case jget j ''log_id'' of Some (JStr l) \<Rightarrow> Some l | _ \<Rightarrow> None"])
      (auto simp: reports_failure_def jget_norm failure_record_def jget_def)
qed

lemma kept_new: "about l x \<Longrightarrow> message_hash P x = Inr i \<Longrightarrow> kept_about P about (AList.update i x xs) l i"
  by (simp add: kept_about_def update_conv')

lemma kept_update:
  assumes "kept_about P about xs l i" and "about k x" and "message_hash P x = Inr j" and "names_log about"
  shows "kept_about P about (AList.update j x xs) l i"
proof (cases "i = j")
  case True
  from assms(1) obtain q where q: "message_hash P q = Inr i"
    "about l q \<or> (\<exists>p k. about l p \<and> about k q \<and> message_hash P p = Inr i \<and> norm p \<noteq> norm q)" unfolding kept_about_def by blast
  then obtain p where p: "about l p" "message_hash P p = Inr i" by blast
  have "about l x \<or> norm p \<noteq> norm x" using p(1) assms(2,4) unfolding names_log_def by metis
  with p assms(2,3) True show ?thesis unfolding kept_about_def by (auto simp: update_conv')
qed (use assms(1) in \<open>simp add: kept_about_def update_conv'\<close>)

definition accounted :: "platform \<Rightarrow> transparency \<Rightarrow> json set \<Rightarrow> proof_answers \<Rightarrow> observed_store \<Rightarrow> bool" where
  "accounted P T R A st \<longleftrightarrow> (\<forall>l s. ob_statuses st l = Some s \<longrightarrow> os_status s = Blacklisted \<longrightarrow>
     (\<exists>i. os_evidence_id s = Some i \<and> backed P T R A st l i))"

lemma backed_saves:
  assumes "backed P T R A st l i" and "message_hash P x = Inr j"
  shows "proves_equivocation P T R k x \<Longrightarrow> backed P T R A (st\<lparr>ob_equivocations := AList.update j x (ob_equivocations st)\<rparr>) l i"
    and "proves_violation P T k x \<Longrightarrow> backed P T R A (st\<lparr>ob_policy_violations := AList.update j x (ob_policy_violations st)\<rparr>) l i"
    and "reports_failure P T R A k x \<Longrightarrow> backed P T R A (st\<lparr>ob_failures := AList.update j x (ob_failures st)\<rparr>) l i"
  using assms kept_update [OF _ _ assms(2)] evidence_names_log unfolding backed_def by auto

lemma backed_cong:
  assumes "ob_equivocations st' = ob_equivocations st" "ob_policy_violations st' = ob_policy_violations st" "ob_failures st' = ob_failures st"
  shows "backed P T R A st' = backed P T R A st"
  by (simp add: backed_def fun_eq_iff assms)

lemma accounted_mono:
  assumes "accounted P T R A st" and "ob_statuses st' = ob_statuses st"
    and "\<And>l i. backed P T R A st l i \<Longrightarrow> backed P T R A st' l i"
  shows "accounted P T R A st'"
  using assms unfolding accounted_def by metis

lemma accounted_cong:
  assumes "accounted P T R A st" and "ob_statuses st' = ob_statuses st"
    and "ob_equivocations st' = ob_equivocations st" "ob_policy_violations st' = ob_policy_violations st" "ob_failures st' = ob_failures st"
  shows "accounted P T R A st'"
  using assms(1,2) by (rule accounted_mono) (simp add: backed_cong [OF assms(3-5)])

lemma accounted_blacklist:
  assumes "accounted P T R A st" and "backed P T R A st l i"
  shows "accounted P T R A (mark_blacklisted Q st l k r i t)"
proof -
  have b: "backed P T R A (mark_blacklisted Q st l k r i t) = backed P T R A st" by (rule backed_cong) simp_all
  show ?thesis unfolding accounted_def b
  proof (intro allI impI)
    fix m s
    assume s: "ob_statuses (mark_blacklisted Q st l k r i t) m = Some s" "os_status s = Blacklisted"
    show "\<exists>j. os_evidence_id s = Some j \<and> backed P T R A st m j"
    proof (cases "m = l")
      case True
      with s(1) assms(2) show ?thesis by (auto simp: mark_blacklisted_def)
    next
      case False
      with s(1) have "ob_statuses st m = Some s" by (simp add: mark_blacklisted_def)
      with s(2) assms(1) show ?thesis unfolding accounted_def by blast
    qed
  qed
qed

lemma accounted_other_marks:
  assumes "accounted P T R A st"
  shows "accounted P T R A (mark_active Q st l k t)" and "accounted P T R A (mark_unresponsive Q st l k r t)"
proof -
  have b: "backed P T R A (mark_active Q st l k t) = backed P T R A st" "backed P T R A (mark_unresponsive Q st l k r t) = backed P T R A st"
    by (rule backed_cong; simp)+
  have "ob_statuses st m = Some s" if "ob_statuses (mark_active Q st l k t) m = Some s" "os_status s = Blacklisted" for m s
    using that by (auto simp: mark_active_def Let_def split: if_splits)
  then show "accounted P T R A (mark_active Q st l k t)" using assms unfolding accounted_def b by blast
  have "ob_statuses st m = Some s" if "ob_statuses (mark_unresponsive Q st l k r t) m = Some s" "os_status s = Blacklisted" for m s
    using that by (auto simp: mark_unresponsive_def split: if_splits option.splits)
  then show "accounted P T R A (mark_unresponsive Q st l k r t)" using assms unfolding accounted_def b by blast
qed

lemma made_proof_roots:
  assumes "make_equivocation_proof Q T a b c d = Inr p"
  shows "jget p ''root_a'' = Some a" and "jget p ''root_b'' = Some b"
proof -
  let ?p = "\<lambda>l c. JDict [(''type'', JStr LOG_EQUIVOCATION_PROOF_TYPE), (''version'', JInt LOG_VERSION),
       (''log_id'', l), (''collision_type'', JStr c), (''root_a'', a), (''root_b'', b), (''detected_at'', JInt (time_or_now Q d))]"
  from assms obtain ct where ct: "(case ct of
       None \<Rightarrow> Inl (MirrorDisagreementError ''root_a, root_b'')
     | Some c \<Rightarrow> if c \<notin> set COLLISION_TYPES then Inl (MirrorDisagreementError ''root_a, root_b'')
         else bindE (jat a ''log_id'') (\<lambda>l. Inr (?p l c))) = Inr p"
    unfolding make_equivocation_proof_def bindE_Inr_iff by (elim exE conjE)
  then obtain l c where "p = ?p l c" by (cases ct) (auto simp: bindE_Inr_iff split: if_splits)
  then show "jget p ''root_a'' = Some a" "jget p ''root_b'' = Some b" by (simp_all add: jget_def)
qed

interpretation accounting: store_invariant P T R A "accounted P T R A" for P T R A
proof
  fix st st' :: observed_store and root n src
  assume j: "accounted P T R A st" and r: "record_root (at_time P n) st root src (Some n) (Some n) = Inr st'"
  from j have "accounted P T R A st'" by (rule accounted_cong) (simp_all add: record_root_frame [OF r])
  then show "accounted P T R A (mark_active (at_time P n) st' (root_log root) (root_key root) (Some n))"
    by (rule accounted_other_marks)
next
  fix st st' a b c n d x r t
  assume j: "accounted P T R A st" and v: "valid_root P T R a" "valid_root P T R b" and l: "root_log a = root_log b"
    and c: "contradict a b c" and e: "save_equivocation_evidence (at_time P n) T st a b c d = Inr (x, st')"
  note s = save_equivocation_frame [OF e]
  have p: "proves_equivocation P T R (root_log a) (snd x)" and h: "message_hash P (snd x) = Inr (fst x)"
    using v l c made_proof_roots [OF s(2)] s(3) unfolding proves_equivocation_def by (metis, simp)
  from j have "accounted P T R A st'" by (rule accounted_mono) (simp_all add: s(1) backed_saves(1) [OF _ h p])
  moreover have "backed P T R A st' (root_log a) (fst x)" using kept_new [where about = "proves_equivocation P T R", OF p h] by (simp add: backed_def s(1))
  ultimately show "accounted P T R A (mark_blacklisted (at_time P n) st' (root_log a) (root_key a) r (fst x) t)"
    by (rule accounted_blacklist)
next
  fix st st' q root n x r t
  assume j: "accounted P T R A st" and e: "save_operator_policy_violation (at_time P n) T st q = Inr (x, st')"
    and root: "jget q ''root'' = Some root"
  note s = save_violation_frame [OF e]
  from s(2) have "snd x = q" by (simp add: verify_violation_Inr_iff)
  with s(2,3) root have p: "proves_violation P T (root_log root) (snd x)" and h: "message_hash P (snd x) = Inr (fst x)"
    unfolding proves_violation_def by (metis, simp)
  from j have "accounted P T R A st'" by (rule accounted_mono) (simp_all add: s(1) backed_saves(2) [OF _ h p])
  moreover have "backed P T R A st' (root_log root) (fst x)" using kept_new [where about = "proves_violation P T", OF p h] by (simp add: backed_def s(1))
  ultimately show "accounted P T R A (mark_blacklisted (at_time P n) st' (root_log root) (root_key root) r (fst x) t)"
    by (rule accounted_blacklist)
next
  fix st st' a b m d i n r t
  assume j: "accounted P T R A st" and v: "valid_root P T R a" "valid_root P T R b" and f: "failed_comparison P T A a b m"
    and e: "save_consistency_failure (at_time P n) st a b m d = Inr (i, st')"
  from save_failure_frame [OF e] verified_root_log(1) [of P T a] v(1) obtain u where
    h: "message_hash P (failure_record (JStr (root_log a)) a b m u) = Inr i"
    and st: "st' = st\<lparr>ob_failures := AList.update i (failure_record (JStr (root_log a)) a b m u) (ob_failures st)\<rparr>" by auto
  have p: "reports_failure P T R A (root_log a) (failure_record (JStr (root_log a)) a b m u)"
    using v f unfolding reports_failure_def by blast
  from j have "accounted P T R A st'" by (rule accounted_mono) (simp_all add: st backed_saves(3) [OF _ h p])
  moreover have "backed P T R A st' (root_log a) i" using kept_new [where about = "reports_failure P T R A", OF p h]
    by (simp add: backed_def st)
  ultimately show "accounted P T R A (mark_blacklisted (at_time P n) st' (root_log a) (root_key b) r i t)"
    by (rule accounted_blacklist)
qed (auto intro!: accounted_other_marks elim!: accounted_cong dest!: peer_root_frame record_rotation_frame record_revocation_frame)

section \<open>One history per log\<close>

definition one_history :: "platform \<Rightarrow> json set \<Rightarrow> observed_store \<Rightarrow> bool" where
  "one_history P R st \<longleftrightarrow> (ids_identify P R \<longrightarrow>
     (\<forall>a \<in> oi_root ` set (ob_roots st). \<forall>b \<in> oi_root ` set (ob_roots st). agree a b))"

lemma one_history_cong: "ob_roots st' = ob_roots st \<Longrightarrow> one_history P R st' = one_history P R st"
  by (simp add: one_history_def)

interpretation views: store_invariant P T R A "one_history P R" for P T R A
proof
  fix st st' :: observed_store and root n src
  assume st: "stored P T R st" and j: "one_history P R st" and v: "valid_root P T R root"
    and f: "ob_roots st = [] \<or> find_equivocation P st root = Inr None"
    and r: "record_root (at_time P n) st root src (Some n) (Some n) = Inr st'"
  have sub: "oi_root ` set (ob_roots st') \<subseteq> insert root (oi_root ` set (ob_roots st))"
    using record_root_roots [OF r] by (metis (no_types, lifting) Un_insert_right insertI1 list.set(2) set_append set_map
        empty_set sup_bot.right_neutral subset_insertI order_refl)
  have new: "agree a root" if R: "ids_identify P R" and "a \<in> oi_root ` set (ob_roots st)" for a
    using that f find_equivocation_None [OF st _ _ R] v by auto
  have "one_history P R st'"
    unfolding one_history_def
  proof (intro impI ballI)
    fix a b
    assume R: "ids_identify P R" and "a \<in> oi_root ` set (ob_roots st')" "b \<in> oi_root ` set (ob_roots st')"
    with sub have "a = root \<or> a \<in> oi_root ` set (ob_roots st)" "b = root \<or> b \<in> oi_root ` set (ob_roots st)" by blast+
    then show "agree a b" using j R new [OF R] unfolding one_history_def by (metis agree_refl agree_sym)
  qed
  then show "one_history P R (mark_active (at_time P n) st' (root_log root) (root_key root) (Some n))"
    by (simp add: one_history_def)
qed (auto simp: one_history_def dest!: save_equivocation_frame(1) save_violation_frame(1) save_failure_frame peer_root_frame
    record_rotation_frame record_revocation_frame)

section \<open>One succession of keys per log\<close>

lemma latest_rotation_max:
  assumes "foldl (\<lambda>latest r. case latest of None \<Rightarrow> Some r | Some l \<Rightarrow> if effective_size r > effective_size l then Some r else Some l) x rs = y"
  shows "(\<forall>m. x = Some m \<longrightarrow> (\<exists>l. y = Some l \<and> effective_size m \<le> effective_size l))
    \<and> (\<forall>r \<in> set rs. \<exists>l. y = Some l \<and> effective_size r \<le> effective_size l)"
  using assms
proof (induction rs arbitrary: x)
  case (Cons r rs)
  let ?x = "case x of None \<Rightarrow> Some r | Some l \<Rightarrow> if effective_size r > effective_size l then Some r else Some l"
  have "\<exists>m. ?x = Some m \<and> effective_size r \<le> effective_size m \<and> (\<forall>k. x = Some k \<longrightarrow> effective_size k \<le> effective_size m)"
    by (cases x) auto
  with Cons.IH [of ?x] Cons.prems show ?case by (auto intro: order_trans)
qed auto

definition successive :: "platform \<Rightarrow> observed_store \<Rightarrow> bool" where
  "successive P st \<longleftrightarrow> (\<forall>l. sorted_wrt (\<lambda>a b. effective_size a < effective_size b) (rotations_of st l)
     \<and> (\<forall>r \<in> set (rotations_of st l). verify_key_rotation P r None None None = Inr ()))"

lemma successive_cong: "ob_key_rotations st' = ob_key_rotations st \<Longrightarrow> successive P st' = successive P st"
  by (simp add: successive_def rotations_of_def)

interpretation succession: store_invariant P T R A "successive P" for P T R A
proof
  fix st st' n r t h
  assume j: "successive P st" and r: "record_key_rotation (at_time P n) st r t = Inr (h, st')"
  then have v: "verify_key_rotation P r None None None = Inr ()" by (auto simp: record_key_rotation_def bindE_Inr_iff)
  consider "st' = st" | "rotations_of st' = (\<lambda>l. rotations_of st l @ (if root_log r = l then [r] else []))"
      "\<forall>l. latest_rotation st (root_log r) = Some l \<longrightarrow> effective_size l < effective_size r"
    using r by (auto simp: record_key_rotation_def bindE_Inr_iff rotations_of_def fun_eq_iff split: if_splits option.splits)
  then show "successive P st'"
  proof cases
    case 2
    have "effective_size m < effective_size r" if "m \<in> set (rotations_of st (root_log r))" for m
      using latest_rotation_max [OF refl, of None "rotations_of st (root_log r)"] that 2(2)
      unfolding latest_rotation_def by force
    with j v show ?thesis by (auto simp: successive_def 2(1) sorted_wrt_append)
  qed (use j in simp)
qed (auto elim!: successive_cong [THEN iffD2, rotated] dest!: record_root_frame(2) save_equivocation_frame(1) save_violation_frame(1)
    save_failure_frame peer_root_frame record_revocation_frame)

end
