(* ===== verification/VerifierResults.thy ===== *)
theory VerifierResults
  imports VerifierInvariants "HOL-Library.Sublist"
begin

text \<open>
  What the verifier's operations return: the roots that the mirrors agree on, the effect of evidence, and
  the bounds on what peers can make it store.
\<close>

section \<open>Returns\<close>

lemma bindA_Inr_iff: "bindA m f s = (Inr y, s') \<longleftrightarrow> (\<exists>x s1. m s = (Inr x, s1) \<and> f x s1 = (Inr y, s'))"
  by (auto simp: bindA_def split: prod.splits sum.splits)

lemma action_Inr_iff [simp]:
  "returns x s = (Inr y, s') \<longleftrightarrow> y = x \<and> s' = s" "raises e s \<noteq> (Inr y, s')"
  "lifts r s = (Inr y, s') \<longleftrightarrow> r = Inr y \<and> s' = s"
  "reads_store f s = (Inr y, s') \<longleftrightarrow> f (vf_store s) = Inr y \<and> s' = s"
  "updates_store g s = (Inr y, s') \<longleftrightarrow> (\<exists>st. g (vf_store s) = Inr (y, st) \<and> s' = s\<lparr>vf_store := st\<rparr>)"
  "changes_store h s = (Inr u, s') \<longleftrightarrow> (\<exists>st. h (vf_store s) = Inr st \<and> s' = s\<lparr>vf_store := st\<rparr>)"
  by (auto simp: returns_def raises_def lifts_def reads_store_def updates_store_def changes_store_def bindE_Inr_iff
      split: sum.splits)

lemma catches_Inr_iff:
  "catches m h s = (Inr y, s') \<longleftrightarrow> m s = (Inr y, s') \<or> (\<exists>e s1. m s = (Inl e, s1) \<and> h e s1 = (Inr y, s'))"
  by (auto simp: catches_def split: prod.splits sum.splits)

section \<open>Mirrors that agree\<close>

text \<open>The two dicts hold the fingerprint of each root seen, under its time and under its size.\<close>

definition seen_of :: "json set \<Rightarrow> seen_roots \<Rightarrow> bool" where
  "seen_of D seen \<longleftrightarrow>
     (\<forall>k f. fst seen k = Some f \<longrightarrow> (\<exists>r \<in> D. k = (root_log r, root_time r) \<and> root_fingerprint r = Inr f))
     \<and> (\<forall>k f. snd seen k = Some f \<longrightarrow> (\<exists>r \<in> D. k = (root_log r, root_size r) \<and> root_fingerprint r = Inr f))
     \<and> (\<forall>r \<in> D. \<exists>f. root_fingerprint r = Inr f \<and> fst seen (root_log r, root_time r) = Some f
          \<and> snd seen (root_log r, root_size r) = Some f)"

lemma seen_of_iff:
  "seen_of D (t, n) \<longleftrightarrow>
     (\<forall>l k f. t (l, k) = Some f \<longrightarrow> (\<exists>r \<in> D. root_log r = l \<and> root_time r = k \<and> root_fingerprint r = Inr f))
     \<and> (\<forall>l k f. n (l, k) = Some f \<longrightarrow> (\<exists>r \<in> D. root_log r = l \<and> root_size r = k \<and> root_fingerprint r = Inr f))
     \<and> (\<forall>r \<in> D. \<exists>f. root_fingerprint r = Inr f \<and> t (root_log r, root_time r) = Some f \<and> n (root_log r, root_size r) = Some f)"
proof -
  have "(\<forall>k f. m k = Some f \<longrightarrow> (\<exists>r \<in> D. k = (root_log r, g r) \<and> root_fingerprint r = Inr f))
      \<longleftrightarrow> (\<forall>l k f. m (l, k) = Some f \<longrightarrow> (\<exists>r \<in> D. root_log r = l \<and> g r = k \<and> root_fingerprint r = Inr f))"
    for m :: "string \<times> int \<Rightarrow> fingerprint option" and g by (simp only: split_paired_All prod.inject eq_commute conj_assoc)
  then show ?thesis unfolding seen_of_def fst_conv snd_conv by (simp only:)
qed

lemma no_clash: "\<not> (m \<noteq> None \<and> m \<noteq> Some f) \<longleftrightarrow> (\<forall>g. m = Some g \<longrightarrow> g = f)"
  by (cases m) auto

lemma check_mirror_root_iff:
  assumes "seen_of D seen"
  shows "(\<exists>seen'. check_mirror_root P T pin seen r = Inr seen') \<longleftrightarrow>
    verify_signed_root P T r pin = Inr () \<and> (\<forall>b \<in> D. agree r b)"
proof (cases "verify_signed_root P T r pin = Inr ()")
  case False
  then show ?thesis by (auto simp: check_mirror_root_def bindE_Inr_iff)
next
  case True
  then obtain f where f: "root_fingerprint r = Inr f" using verified_fingerprint [OF unpinned] by blast
  obtain t n where s: "seen = (t, n)" by (cases seen)
  have "(\<exists>seen'. check_mirror_root P T pin seen r = Inr seen') \<longleftrightarrow>
      \<not> (t (root_log r, root_time r) \<noteq> None \<and> t (root_log r, root_time r) \<noteq> Some f)
      \<and> \<not> (n (root_log r, root_size r) \<noteq> None \<and> n (root_log r, root_size r) \<noteq> Some f)"
    by (simp add: check_mirror_root_def True f s Let_def)
  also have "\<dots> \<longleftrightarrow> (\<forall>b \<in> D. agree r b)"
    unfolding no_clash
  proof
    assume ok: "(\<forall>g. t (root_log r, root_time r) = Some g \<longrightarrow> g = f) \<and> (\<forall>g. n (root_log r, root_size r) = Some g \<longrightarrow> g = f)"
    show "\<forall>b \<in> D. agree r b"
    proof
      fix b
      assume "b \<in> D"
      with assms obtain g where g: "root_fingerprint b = Inr g" "t (root_log b, root_time b) = Some g" "n (root_log b, root_size b) = Some g"
        unfolding s seen_of_iff by blast
      with ok have "root_log r = root_log b \<Longrightarrow> root_size r = root_size b \<or> root_time r = root_time b \<Longrightarrow> g = f" by metis
      with f g(1) show "agree r b" unfolding agree_def by simp
    qed
  next
    assume a: "\<forall>b \<in> D. agree r b"
    have "g = f" if g: "t (root_log r, root_time r) = Some g" for g
    proof -
      from assms g obtain b where "b \<in> D" "root_log b = root_log r" "root_time b = root_time r" "root_fingerprint b = Inr g"
        unfolding s seen_of_iff by meson
      with a f show ?thesis by (auto simp: agree_def)
    qed
    moreover have "g = f" if g: "n (root_log r, root_size r) = Some g" for g
    proof -
      from assms g obtain b where "b \<in> D" "root_log b = root_log r" "root_size b = root_size r" "root_fingerprint b = Inr g"
        unfolding s seen_of_iff by meson
      with a f show ?thesis by (auto simp: agree_def)
    qed
    ultimately show "(\<forall>g. t (root_log r, root_time r) = Some g \<longrightarrow> g = f) \<and> (\<forall>g. n (root_log r, root_size r) = Some g \<longrightarrow> g = f)" by blast
  qed
  finally show ?thesis using True by simp
qed

lemma check_mirror_root_seen:
  assumes "seen_of D seen" and "check_mirror_root P T pin seen r = Inr seen'"
  shows "seen_of (insert r D) seen'"
proof -
  obtain t n where s: "seen = (t, n)" by (cases seen)
  from assms(2) obtain f where f: "root_fingerprint r = Inr f" and k: "\<forall>g. t (root_log r, root_time r) = Some g \<longrightarrow> g = f"
    "\<forall>g. n (root_log r, root_size r) = Some g \<longrightarrow> g = f"
    and s': "seen' = (t((root_log r, root_time r) \<mapsto> f), n((root_log r, root_size r) \<mapsto> f))"
    unfolding check_mirror_root_def bindE_Inr_iff s Let_def prod.case if_Inl_Inr_iff no_clash by blast
  show ?thesis
    unfolding s' seen_of_iff
  proof (intro conjI ballI)
    fix b
    assume b: "b \<in> insert r D"
    show "\<exists>g. root_fingerprint b = Inr g \<and> (t((root_log r, root_time r) \<mapsto> f)) (root_log b, root_time b) = Some g
        \<and> (n((root_log r, root_size r) \<mapsto> f)) (root_log b, root_size b) = Some g"
    proof (cases "b = r")
      case True
      with f show ?thesis by (intro exI [of _ f]) simp
    next
      case False
      with b assms(1) obtain g where g: "root_fingerprint b = Inr g" "t (root_log b, root_time b) = Some g" "n (root_log b, root_size b) = Some g"
        unfolding s seen_of_iff by blast
      then have "g = f" if "root_log b = root_log r \<and> root_time b = root_time r \<or> root_log b = root_log r \<and> root_size b = root_size r"
        using that k by metis
      with g show ?thesis
        by (cases "root_log b = root_log r \<and> (root_time b = root_time r \<or> root_size b = root_size r)") auto
    qed
  next
    show "\<forall>l k g. (t((root_log r, root_time r) \<mapsto> f)) (l, k) = Some g \<longrightarrow>
        (\<exists>r \<in> insert r D. root_log r = l \<and> root_time r = k \<and> root_fingerprint r = Inr g)"
      using assms(1) f unfolding s seen_of_iff by simp
    show "\<forall>l k g. (n((root_log r, root_size r) \<mapsto> f)) (l, k) = Some g \<longrightarrow>
        (\<exists>r \<in> insert r D. root_log r = l \<and> root_size r = k \<and> root_fingerprint r = Inr g)"
      using assms(1) f unfolding s seen_of_iff by simp
  qed
qed

lemma check_mirror_roots_iff:
  assumes "seen_of D seen"
  shows "(\<exists>seen'. foldE (check_mirror_root P T pin) seen rs = Inr seen') \<longleftrightarrow>
    (\<forall>r \<in> set rs. verify_signed_root P T r pin = Inr ()) \<and> (\<forall>a \<in> set rs. \<forall>b \<in> D \<union> set rs. agree a b)"
  using assms
proof (induction rs arbitrary: D seen)
  case (Cons r rs)
  show ?case
  proof (cases "check_mirror_root P T pin seen r")
    case (Inl e)
    with check_mirror_root_iff [OF Cons.prems, of P T pin r] show ?thesis by auto
  next
    case (Inr seen1)
    with check_mirror_root_iff [OF Cons.prems, of P T pin r]
    have "verify_signed_root P T r pin = Inr ()" "\<forall>b \<in> D. agree r b" by auto
    with Cons.IH [OF check_mirror_root_seen [OF Cons.prems Inr]] Inr show ?thesis
      by (auto intro: agree_sym)
  qed
qed simp

lemma detect_mirror_disagreement_iff:
  "detect_mirror_disagreement P T rs pin = Inr () \<longleftrightarrow>
     (\<forall>r \<in> set rs. verify_signed_root P T r pin = Inr ()) \<and> (\<forall>a \<in> set rs. \<forall>b \<in> set rs. agree a b)"
proof -
  have "seen_of {} (\<lambda>_. None, \<lambda>_. None)" by (simp add: seen_of_def)
  from check_mirror_roots_iff [OF this, of P T pin rs] show ?thesis
    by (simp add: detect_mirror_disagreement_def bindE_Inr_iff)
qed

section \<open>Current roots\<close>

lemma usable_root_Inr:
  assumes "usable_root P T C now answer s = (Inr r, s')"
  shows "answer = Inr r" and "verify_signed_root P T r None = Inr ()" and "validate_current_root_freshness C r now = Inr ()"
  using assms unfolding usable_root_def
  by (auto simp: bindA_Inr_iff verify_signed_root_for_lineage_def bindE_Inr_iff)

lemma usable_roots_Inr:
  assumes "usable_roots P T C now ms s = (Inr xs, s')"
  shows "subseq (map (\<lambda>x. (fst x, Inr (snd x))) xs) ms
    \<and> (\<forall>r \<in> snd ` set xs. verify_signed_root P T r None = Inr () \<and> validate_current_root_freshness C r now = Inr ())"
  using assms
proof (induction ms arbitrary: xs s)
  case (Cons m ms)
  obtain i a where m: "m = (i, a)" by (cases m)
  from Cons.prems obtain ys zs s1 where one: "catches (bindA (usable_root P T C now a) (\<lambda>root. returns [(i, root)]))
      (\<lambda>e. if is_fatal e then raises e else returns []) s = (Inr ys, s1)"
    and rest: "usable_roots P T C now ms s1 = (Inr zs, s')" and xs: "xs = ys @ zs"
    by (auto simp: m bindA_Inr_iff)
  from one have "ys = [] \<or> (\<exists>r s2. ys = [(i, r)] \<and> usable_root P T C now a s = (Inr r, s2))"
    by (auto simp: catches_Inr_iff bindA_Inr_iff split: if_splits)
  then show ?case
  proof
    assume "ys = []"
    with Cons.IH [OF rest] show ?thesis by (auto simp: xs m)
  next
    assume "\<exists>r s2. ys = [(i, r)] \<and> usable_root P T C now a s = (Inr r, s2)"
    then obtain r s2 where r: "ys = [(i, r)]" "usable_root P T C now a s = (Inr r, s2)" by blast
    from usable_root_Inr [OF r(2)] Cons.IH [OF rest] show ?thesis by (simp add: xs r(1) m)
  qed
qed simp

lemma current_roots_Inr:
  assumes "current_roots_from_mirrors P T C N refresh now s = (Inr roots, s')"
  shows "\<exists>xs. subseq (map (\<lambda>x. (fst x, Inr (snd x))) xs) (nw_mirrors N) \<and> roots = map snd xs
    \<and> vc_min_mirrors C \<le> int (length xs)
    \<and> (\<forall>r \<in> set roots. verify_signed_root P T r None = Inr ()
         \<and> validate_current_root_freshness C r (case now of None \<Rightarrow> pf_clock P | Some t \<Rightarrow> t) = Inr ())
    \<and> (\<forall>a \<in> set roots. \<forall>b \<in> set roots. agree a b)"
proof -
  from assms obtain xs s1 where u: "usable_roots P T C (case now of None \<Rightarrow> pf_clock P | Some t \<Rightarrow> t) (nw_mirrors N) s = (Inr xs, s1)"
    and "\<not> int (length (map snd xs)) < vc_min_mirrors C" "roots = map snd xs"
    and d: "detect_mirror_disagreement P T (map snd xs) None = Inr ()"
    unfolding current_roots_from_mirrors_def Let_def by (auto simp: bindA_Inr_iff split: if_splits)
  with usable_roots_Inr [OF u] d [unfolded detect_mirror_disagreement_iff] show ?thesis
    by (intro exI [of _ xs]) auto
qed

lemma current_root_Inr:
  assumes "current_mirrored_root d P T C N now s = (Inr root, s')"
  shows "\<exists>roots. check_latest_consistency d P T C N now s = (Inr roots, s') \<and> root \<in> set roots
    \<and> (\<forall>r \<in> set roots. root_size r \<le> root_size root)"
proof -
  let ?f = "\<lambda>r. (root_size r, root_time r)"
  from assms obtain roots s1 where r: "current_roots_from_mirrors P T C N (refresh_stale_consistency_baseline d P T C N) now s = (Inr roots, s1)"
    and l: "(case sort_key ?f roots of [] \<Rightarrow> raises (PyValueError ''list index out of range'') | x # xs \<Rightarrow> returns (last (x # xs))) s1 = (Inr root, s')"
    unfolding current_mirrored_root_def bindA_Inr_iff by blast
  from l obtain x xs where x: "sort_key ?f roots = x # xs" and e: "root = last (x # xs)" "s' = s1"
    by (cases "sort_key ?f roots") auto
  have set: "set (x # xs) = set roots" using set_sort [of ?f roots] unfolding x .
  have "sorted (map ?f (x # xs))" using sorted_sort_key [of ?f roots] unfolding x .
  then have "?f r \<le> ?f (last (x # xs))" if "r \<in> set (x # xs)" for r
    using that by (induction xs arbitrary: x) (auto split: if_splits)
  then have "root_size r \<le> root_size root" if "r \<in> set roots" for r
    using that unfolding e(1) set [symmetric] by (fastforce simp: less_eq_prod_def)
  moreover have "root \<in> set roots" unfolding e(1) set [symmetric] by (rule last_in_set) simp
  ultimately show ?thesis using r by (auto simp: check_latest_consistency_def e(2))
qed

section \<open>Evidence that is processed\<close>

text \<open>A message joins the queue for other peers when its id was not queued before.\<close>

definition queues_once :: "string \<Rightarrow> json \<Rightarrow> verifier \<Rightarrow> verifier \<Rightarrow> bool" where
  "queues_once i p s s' \<longleftrightarrow> (if i \<in> set (vf_queued_evidence s)
     then vf_pending s' = vf_pending s \<and> vf_queued_evidence s' = vf_queued_evidence s
     else vf_pending s' = vf_pending s @ [p] \<and> vf_queued_evidence s' = i # vf_queued_evidence s)"

lemma queue_evidence_queues:
  "message_hash P p = Inr i \<Longrightarrow> queue_evidence P p s = (Inr (), s') \<Longrightarrow> queues_once i p s s' \<and> vf_store s' = vf_store s"
  by (auto simp: queue_evidence_def queues_once_def split: if_splits)

lemma queues_once_store [simp]: "queues_once i p (s\<lparr>vf_store := st\<rparr>) s' = queues_once i p s s'"
  by (simp add: queues_once_def)

lemma remember_frame:
  assumes "remember_peer_root P C root peer mh s = (Inr (), s')"
  shows "\<exists>st. s' = s\<lparr>vf_store := st\<rparr>"
  using assms by (auto simp: remember_peer_root_def changes_store_def updates_store_def split: sum.splits prod.splits)

lemma equivocation_message_effect:
  assumes "process_equivocation_proof P T C m peer mh s = (Inr p, s')"
  shows "\<exists>l c a b. verify_equivocation_proof P T m None = Inr (l, c, a, b) \<and> blacklisted (vf_store s') (root_log a)
    \<and> (\<exists>i. message_hash P p = Inr i \<and> map_of (ob_equivocations (vf_store s')) i = Some p \<and> queues_once i p s s')"
proof -
  from assms obtain l c a b s0 s1 x st s2 where v: "verify_equivocation_proof P T m None = Inr (l, c, a, b)"
    and r: "remember_peer_root P C a peer mh s = (Inr (), s0)" "remember_peer_root P C b peer mh s0 = (Inr (), s1)"
    and e: "save_equivocation_evidence P T (vf_store s1) a b c (Some (root_int m ''detected_at'')) = Inr (x, st)"
    and s2: "s2 = s1\<lparr>vf_store := mark_blacklisted P st (root_log a) (root_key a) (''equivocation '' @ c) (fst x) (Some (pf_clock P))\<rparr>"
    and q: "queue_evidence P p s2 = (Inr (), s')" "p = snd x"
    unfolding process_equivocation_proof_def split_def bindA_Inr_iff by fastforce
  note f = save_equivocation_frame [OF e]
  from remember_frame [OF r(1)] remember_frame [OF r(2)] obtain st1 where s1: "s1 = s\<lparr>vf_store := st1\<rparr>" by auto
  from queue_evidence_queues [OF _ q(1), of "fst x"] f(3) have "queues_once (fst x) p s2 s'" "vf_store s' = vf_store s2"
    by (simp_all add: q(2))
  then show ?thesis using v f by (intro exI [of _ l] exI [of _ c] exI [of _ a] exI [of _ b])
      (auto simp: s1 s2 blacklisted_marks update_conv' q(2))
qed

lemma handle_equivocation_effect:
  "\<exists>e s'. handle_equivocation P T a b c s = (Inl e, s')"
  by (auto simp: handle_equivocation_def bindA_def updates_store_def changes_store_def raises_def queue_evidence_def
      split: sum.splits prod.splits)

section \<open>Bounds on what peers send\<close>

lemma evidence_bound_peer [simp]: "evidence_bound P (st\<lparr>ob_peer_roots := xs\<rparr>) = evidence_bound P st"
  by (simp add: evidence_bound_def)

lemma prune_matching_bound:
  assumes "prune_matching P st match limit = Inr st'" and "distinct (map pi_key (ob_peer_roots st))" and "0 < limit"
    and "evidence_bound P st = Inr bound"
  shows "int (length (filter match (ob_peer_roots st')))
      \<le> max limit (int (length (filter (\<lambda>x. match x \<and> pi_root_id x \<in> set bound) (ob_peer_roots st'))))"
    and "\<exists>keep. st' = st\<lparr>ob_peer_roots := filter keep (ob_peer_roots st)\<rparr> \<and> (\<forall>x. x \<in> set (ob_peer_roots st) \<longrightarrow> pi_root_id x \<in> set bound \<longrightarrow> keep x)"
proof -
  from prune_matching_spec [OF assms(1,2)] assms(3,4) obtain gone where
    g: "st' = st\<lparr>ob_peer_roots := filter (\<lambda>x. pi_key x \<notin> gone) (ob_peer_roots st)\<rparr>"
      "\<forall>x \<in> set (ob_peer_roots st). pi_key x \<in> gone \<longrightarrow> pi_root_id x \<notin> set bound"
    and n: "int (length (filter match (ob_peer_roots st')))
      \<le> max limit (int (length (filter (\<lambda>x. match x \<and> pi_root_id x \<in> set bound) (ob_peer_roots st))))" by blast
  have "filter (\<lambda>x. match x \<and> pi_root_id x \<in> set bound) (ob_peer_roots st')
      = filter (\<lambda>x. match x \<and> pi_root_id x \<in> set bound) (ob_peer_roots st)"
    using g(2) by (auto simp: g(1) intro!: filter_cong)
  with n show "int (length (filter match (ob_peer_roots st')))
      \<le> max limit (int (length (filter (\<lambda>x. match x \<and> pi_root_id x \<in> set bound) (ob_peer_roots st'))))" by simp
  show "\<exists>keep. st' = st\<lparr>ob_peer_roots := filter keep (ob_peer_roots st)\<rparr> \<and> (\<forall>x. x \<in> set (ob_peer_roots st) \<longrightarrow> pi_root_id x \<in> set bound \<longrightarrow> keep x)"
    using g by blast
qed

definition peer_count :: "(peer_item \<Rightarrow> bool) \<Rightarrow> observed_store \<Rightarrow> int" where
  "peer_count match st = int (length (filter match (ob_peer_roots st)))"

lemma peer_count_keep:
  assumes "st' = st\<lparr>ob_peer_roots := filter keep (ob_peer_roots st)\<rparr>"
    and "\<forall>x. x \<in> set (ob_peer_roots st) \<longrightarrow> pi_root_id x \<in> B \<longrightarrow> keep x"
  shows "peer_count m st' \<le> peer_count m st" and "peer_count (\<lambda>x. m x \<and> pi_root_id x \<in> B) st' = peer_count (\<lambda>x. m x \<and> pi_root_id x \<in> B) st"
proof -
  have "length (filter m (filter keep xs)) \<le> length (filter m xs)" for xs
    by (induction xs) auto
  then show "peer_count m st' \<le> peer_count m st" by (simp only: peer_count_def assms(1)) simp
  have "filter (\<lambda>x. m x \<and> pi_root_id x \<in> B) (ob_peer_roots st') = filter (\<lambda>x. m x \<and> pi_root_id x \<in> B) (ob_peer_roots st)"
    using assms(2) by (auto simp: assms(1) intro!: filter_cong)
  then show "peer_count (\<lambda>x. m x \<and> pi_root_id x \<in> B) st' = peer_count (\<lambda>x. m x \<and> pi_root_id x \<in> B) st"
    by (simp add: peer_count_def)
qed

text \<open>
  A peer cannot make the store grow: after a new root of a peer, the peer's roots of that log are at most the
  limit, unless all of them are evidence; and so for all peers together when the log is not the configured one.
\<close>

lemma record_peer_root_bound:
  assumes r: "record_peer_root P st root peer mh t m1 m2 = Inr st'" and d: "distinct (map pi_key (ob_peer_roots st))"
    and new: "signed_root_id P root = Inr i" "(i, text_or peer ''unknown-peer'') \<notin> pi_key ` set (ob_peer_roots st)"
    and b: "evidence_bound P st = Inr bound"
  shows "0 < m1 \<Longrightarrow> peer_count (\<lambda>x. pi_peer_id x = text_or peer ''unknown-peer'' \<and> root_log (pi_root x) = root_log root) st'
      \<le> max m1 (peer_count (\<lambda>x. (pi_peer_id x = text_or peer ''unknown-peer'' \<and> root_log (pi_root x) = root_log root)
           \<and> pi_root_id x \<in> set bound) st')"
    and "m2 = Some m \<Longrightarrow> 0 < m \<Longrightarrow> peer_count (\<lambda>x. root_log (pi_root x) = root_log root) st'
      \<le> max m (peer_count (\<lambda>x. root_log (pi_root x) = root_log root \<and> pi_root_id x \<in> set bound) st')"
proof -
  let ?p = "text_or peer ''unknown-peer''"
  let ?mine = "\<lambda>x. pi_peer_id x = ?p \<and> root_log (pi_root x) = root_log root"
  let ?item = "\<lparr>pi_key = (i, ?p), pi_root_id = i, pi_root = root, pi_peer_id = ?p,
          pi_message_hash = text_or mh i, pi_received_at = time_or_now P t\<rparr>"
  let ?st = "st\<lparr>ob_peer_roots := ob_peer_roots st @ [?item]\<rparr>"
  from r new obtain st1 where one: "prune_matching P ?st ?mine m1 = Inr st1"
    and two: "(case m2 of None \<Rightarrow> Inr st1 | Some m \<Rightarrow> prune_matching P st1 (\<lambda>x. root_log (pi_root x) = root_log root) m) = Inr st'"
    by (auto simp: record_peer_root_def Let_def bindE_Inr_iff prune_peer_roots_def prune_peer_roots_for_log_def cong: option.case_cong)
  have d0: "distinct (map pi_key (ob_peer_roots ?st))" using d new(2) by auto
  have b0: "evidence_bound P ?st = Inr bound" using b by simp
  have d1: "distinct (map pi_key (ob_peer_roots st1))" and b1: "evidence_bound P st1 = Inr bound"
    using prune_matching_spec [OF one d0] d0 b0 by (auto simp: distinct_map_filter)
  have keep: "\<exists>keep. st' = st1\<lparr>ob_peer_roots := filter keep (ob_peer_roots st1)\<rparr>
      \<and> (\<forall>x. x \<in> set (ob_peer_roots st1) \<longrightarrow> pi_root_id x \<in> set bound \<longrightarrow> keep x)"
  proof (cases "\<exists>m. m2 = Some m \<and> 0 < m")
    case True
    with two prune_matching_bound(2) [OF _ d1 _ b1] show ?thesis by auto
  next
    case False
    with two have "st' = st1" by (auto simp: prune_matching_def split: option.splits)
    then show ?thesis by (intro exI [of _ "\<lambda>_. True"]) simp
  qed
  show "peer_count ?mine st' \<le> max m1 (peer_count (\<lambda>x. ?mine x \<and> pi_root_id x \<in> set bound) st')" if "0 < m1"
  proof -
    from prune_matching_bound(1) [OF one d0 that b0] have
      "peer_count ?mine st1 \<le> max m1 (peer_count (\<lambda>x. ?mine x \<and> pi_root_id x \<in> set bound) st1)"
      by (simp only: peer_count_def)
    moreover obtain k where k: "st' = st1\<lparr>ob_peer_roots := filter k (ob_peer_roots st1)\<rparr>"
      "\<forall>x. x \<in> set (ob_peer_roots st1) \<longrightarrow> pi_root_id x \<in> set bound \<longrightarrow> k x" using keep by blast
    ultimately show ?thesis using peer_count_keep(1) [OF k, of ?mine] peer_count_keep(2) [OF k, of ?mine] by simp
  qed
  show "peer_count (\<lambda>x. root_log (pi_root x) = root_log root) st'
      \<le> max m (peer_count (\<lambda>x. root_log (pi_root x) = root_log root \<and> pi_root_id x \<in> set bound) st')" if "m2 = Some m" "0 < m"
    using two that prune_matching_bound(1) [OF _ d1 that(2) b1] by (simp add: peer_count_def)
qed

end
