(* ===== verification/VerifierProgress.thy ===== *)
theory VerifierProgress
  imports VerifierResults
begin

text \<open>
  What the verifier does get done: a proof of equivocation that arrives always ends in a blacklisting, and
  mirrors that serve one verified, fresh root are always accepted.
\<close>

lemma queue_evidence_total: "message_hash P p = Inr h \<Longrightarrow> \<exists>s'. queue_evidence P p s = (Inr (), s') \<and> vf_store s' = vf_store s"
  by (simp add: queue_evidence_def)

lemma queue_root_total:
  assumes "signed_root_id P r = Inr i" and "verify_signed_root P T r None = Inr ()"
  shows "\<exists>s'. queue_root_announcement P T r s = (Inr (), s') \<and> vf_store s' = vf_store s"
proof (cases "i \<in> set (vf_queued_roots s)")
  case False
  obtain m where "make_root_announcement P T r None = Inr m" by (simp add: make_root_announcement_def assms(2))
  with assms(1) False show ?thesis by (simp add: queue_root_announcement_def Let_def)
qed (simp add: queue_root_announcement_def assms(1))

section \<open>Evidence always counts\<close>

lemma prune_total:
  assumes "evidence_bound P st = Inr bound"
  shows "\<exists>xs. prune_matching P st m n = Inr (st\<lparr>ob_peer_roots := xs\<rparr>)"
proof -
  have "\<exists>st'. prune_matching P st m n = Inr st'" using assms by (simp add: prune_matching_def Let_def)
  with prune_frame show ?thesis by blast
qed

lemma record_peer_total:
  assumes "signed_root_id P root = Inr i" and "evidence_bound P st = Inr bound"
  shows "\<exists>xs. record_peer_root P st root peer mh t m1 m2 = Inr (st\<lparr>ob_peer_roots := xs\<rparr>)"
proof -
  have "\<exists>st'. record_peer_root P st root peer mh t m1 m2 = Inr st'"
  proof (cases "(i, text_or peer ''unknown-peer'') \<in> pi_key ` set (ob_peer_roots st)")
    case False
    define st1 where "st1 = st\<lparr>ob_peer_roots := ob_peer_roots st @ [\<lparr>pi_key = (i, text_or peer ''unknown-peer''), pi_root_id = i,
      pi_root = root, pi_peer_id = text_or peer ''unknown-peer'', pi_message_hash = text_or mh i, pi_received_at = time_or_now P t\<rparr>]\<rparr>"
    have b: "evidence_bound P (st1\<lparr>ob_peer_roots := xs\<rparr>) = Inr bound" for xs using assms(2) by (simp add: st1_def)
    have b1: "evidence_bound P st1 = Inr bound" using assms(2) by (simp add: st1_def)
    obtain xs where "prune_peer_roots P st1 (text_or peer ''unknown-peer'') (root_log root) m1 = Inr (st1\<lparr>ob_peer_roots := xs\<rparr>)"
      using prune_total [OF b1] unfolding prune_peer_roots_def by blast
    moreover obtain ys where "m2 = Some m \<Longrightarrow> prune_peer_roots_for_log P (st1\<lparr>ob_peer_roots := xs\<rparr>) (root_log root) m
        = Inr (st1\<lparr>ob_peer_roots := ys m\<rparr>)" for m
      using prune_total [OF b [of xs]] unfolding prune_peer_roots_for_log_def by simp metis
    ultimately show ?thesis
      using assms(1) False by (cases m2) (auto simp: record_peer_root_def st1_def Let_def)
  qed (simp add: record_peer_root_def assms(1) Let_def)
  with peer_root_frame show ?thesis by blast
qed

lemma remember_total:
  assumes "signed_root_id P root = Inr i" and "evidence_bound P (vf_store s) = Inr bound"
  shows "\<exists>xs. remember_peer_root P C root peer mh s = (Inr (), s\<lparr>vf_store := (vf_store s)\<lparr>ob_peer_roots := xs\<rparr>\<rparr>)"
  using record_peer_total [OF assms] assms(1) unfolding remember_peer_root_def by simp blast

text \<open>The evidence made from a message; it may fail only because its text is over a size limit.\<close>

lemma equivocation_message_total:
  assumes v: "verify_equivocation_proof P T m None = Inr (l, c, a, b)"
    and ids: "signed_root_id P a = Inr i" "signed_root_id P b = Inr j" and bound: "evidence_bound P (vf_store s) = Inr bound"
    and made: "make_equivocation_proof P T a b (Some c) (Some (root_int m ''detected_at'')) = Inr p" "message_hash P p = Inr h"
    and t: "root_int m ''detected_at'' \<noteq> 0"
  shows "\<exists>s'. process_equivocation_proof P T C m peer mh s = (Inr p, s')"
proof -
  from remember_total [OF ids(1) bound] obtain s1 xs where
    s1: "remember_peer_root P C a peer mh s = (Inr (), s1)" "s1 = s\<lparr>vf_store := (vf_store s)\<lparr>ob_peer_roots := xs\<rparr>\<rparr>" by blast
  then have "evidence_bound P (vf_store s1) = Inr bound" using bound by simp
  from remember_total [OF ids(2) this] obtain s2 where s2: "remember_peer_root P C b peer mh s1 = (Inr (), s2)" by blast
  have "time_or_now P (Some (root_int m ''detected_at'')) = root_int m ''detected_at''"
    using t by (simp add: time_or_now_def)
  then have e: "save_equivocation_evidence P T st a b c (Some (root_int m ''detected_at''))
      = Inr ((h, p), st\<lparr>ob_equivocations := AList.update h p (ob_equivocations st)\<rparr>)" for st
    using made by (simp add: save_equivocation_evidence_def)
  let ?s3 = "s2\<lparr>vf_store := (vf_store s2)\<lparr>ob_equivocations := AList.update h p (ob_equivocations (vf_store s2))\<rparr>\<rparr>"
  let ?mark = "\<lambda>st. mark_blacklisted P st (root_log a) (root_key a) (''equivocation '' @ c) h (Some (pf_clock P))"
  have v': "lifts (verify_equivocation_proof P T m None) s = (Inr (l, c, a, b), s)" by (simp add: v)
  have u: "updates_store (\<lambda>st. save_equivocation_evidence P T st a b c (Some (root_int m ''detected_at''))) s2 = (Inr (h, p), ?s3)"
    by (simp add: e)
  have k: "changes_store (\<lambda>st. Inr (?mark st)) ?s3 = (Inr (), ?s3\<lparr>vf_store := ?mark (vf_store ?s3)\<rparr>)" by simp
  obtain s4 where q: "queue_evidence P p (?s3\<lparr>vf_store := ?mark (vf_store ?s3)\<rparr>) = (Inr (), s4)"
    using queue_evidence_total [OF made(2)] by blast
  have "process_equivocation_proof P T C m peer mh s = returns p s4"
    by (simp only: process_equivocation_proof_def bindA_def v' s1(1) s2 u k q prod.case sum.case)
  then show ?thesis by (simp add: returns_def)
qed

section \<open>Honest mirrors are accepted\<close>

text \<open>A store that has seen at most the root \<open>r\<close>, of a log with no succession of keys.\<close>

definition sees_only :: "json \<Rightarrow> observed_store \<Rightarrow> bool" where
  "sees_only r st \<longleftrightarrow> (\<forall>x \<in> set (ob_roots st). oi_root x = r) \<and> ob_peer_roots st = [] \<and> ob_key_rotations st = []
     \<and> ob_key_revocations st = [] \<and> \<not> blacklisted st (root_log r)"

lemma sees_only_empty [simp]: "sees_only r empty_store"
  by (simp add: sees_only_def empty_store_def blacklisted_def)

lemma no_rotations:
  assumes "ob_key_rotations st = []"
  shows "lineage_log_id_for_root P C st r = root_log r" and "rotation_for_root P C st r = None" and "key_rotations_for_log st l = []"
  using assms by (auto simp: lineage_log_id_for_root_def rotation_for_root_def key_rotations_for_log_def rotations_of_def
      key_rotation_for_successor_log_id_def split: option.splits)

lemma verify_lineage_plain:
  assumes "verify_signed_root P T r (vc_operator_public_key C) = Inr ()" and "ob_key_rotations st = []" "ob_key_revocations st = []"
  shows "verify_signed_root_for_lineage P T C st r = Inr ()"
proof (cases "vc_operator_public_key C")
  case (Some k)
  show ?thesis
  proof (cases k)
    case (Cons x xs)
    from assms(1) obtain key where "root_key r = key" "root_log r = log_id_from_public_key P (strip key)" "strip key = strip k"
      using verified_root_log(1) [OF unpinned [OF assms(1)]] Some Cons by (auto simp: verify_signed_root_Inr_iff pinned_def root_text_def)
    moreover have "check_configured_key st conf key r = Inr ()" for conf key
      using assms(2,3) by (simp add: check_configured_key_def key_revocation_for_key_def no_rotations)
    ultimately show ?thesis
      using unpinned [OF assms(1)] by (simp add: verify_signed_root_for_lineage_def Some Cons Let_def)
  qed (use unpinned [OF assms(1)] in \<open>simp add: verify_signed_root_for_lineage_def Some\<close>)
qed (use unpinned [OF assms(1)] in \<open>simp add: verify_signed_root_for_lineage_def\<close>)

lemma observed_only: "sees_only r st \<Longrightarrow> \<exists>n. observed_of st (root_log r) = replicate n r \<and> n = length (ob_roots st)"
proof -
  have "filter (\<lambda>q. root_log q = root_log r) (map oi_root xs) = replicate (length xs) r"
    if "\<forall>x \<in> set xs. oi_root x = r" for xs using that by (induction xs) auto
  then show "sees_only r st \<Longrightarrow> ?thesis" unfolding sees_only_def observed_of_def by blast
qed

lemma latest_only:
  assumes "sees_only r st"
  shows "latest_root st (root_log r) = (if ob_roots st = [] then None else Some r)"
proof (cases "ob_roots st")
  case Nil
  then show ?thesis by (simp add: latest_root_def observed_of_def)
next
  case (Cons x xs)
  let ?rs = "replicate (Suc (length xs)) r"
  have o: "observed_of st (root_log r) = ?rs" using observed_only [OF assms] Cons by auto
  have "last (sort_key (\<lambda>r. (root_size r, root_time r)) ?rs) \<in> set ?rs" by (rule last_sort_key) simp
  then have "last (sort_key (\<lambda>r. (root_size r, root_time r)) ?rs) = r" unfolding set_replicate_Suc by (rule singletonD)
  then show ?thesis unfolding latest_root_def o using Cons by (simp only: replicate.simps list.case list.distinct if_False)
qed

lemma foldl_max_same: "foldl max k (replicate m k) = (k :: int)"
  by (induction m) simp_all

lemma position_only:
  assumes "sees_only r st"
  shows "observed_position st (root_log r) = (if ob_roots st = [] then None else Some (root_size r, root_time r))"
proof (cases "ob_roots st")
  case Nil
  then show ?thesis by (simp add: observed_position_def observed_of_def)
next
  case (Cons x xs)
  have o: "observed_of st (root_log r) = replicate (Suc (length xs)) r" using observed_only [OF assms] Cons by auto
  show ?thesis unfolding observed_position_def o using Cons by (simp add: foldl_max_same)
qed

lemma find_equivocation_only:
  assumes "sees_only r st" and "signed_root_id P r = Inr i" and "verify_signed_root P T r None = Inr ()"
  shows "find_equivocation P st r = Inr None"
proof -
  have "peer_roots_of st (root_log r) = []" using assms(1) by (simp add: sees_only_def peer_roots_of_def)
  with observed_only [OF assms(1)] obtain n where n: "observed_of st (root_log r) @ peer_roots_of st (root_log r) = replicate n r" by auto
  have "mapE (\<lambda>r. bindE (signed_root_id P r) (\<lambda>i. Inr (i, r))) (replicate n r) = Inr (map (\<lambda>r. (i, r)) (replicate n r))"
    by (rule mapE_map_Inr) (simp add: assms(2))
  with n have rs: "roots_for_log P st (root_log r) = Inr (map snd (dict_of_pairs (map (\<lambda>r. (i, r)) (replicate n r))))"
    by (simp add: roots_for_log_def)
  then have "set (map snd (dict_of_pairs (map (\<lambda>r. (i, r)) (replicate n r)))) \<subseteq> {r}"
    using dict_of_pairs_spec [of "map (\<lambda>r. (i, r)) (replicate n r)"] by auto
  moreover have "first_collision P i r ps = Inr None" if "set ps \<subseteq> {r}" for ps
    using that assms(2) by (induction ps) auto
  ultimately show ?thesis
    using rs assms(2) verified_root_log(1) [OF assms(3)] by (auto simp: find_equivocation_def str_at_def jat_def)
qed

text \<open>
  A root that verifies under the configured key and has an id. In strict mode a freshness check must be able to
  succeed: the clock is not at the epoch and some staleness is allowed.
\<close>

definition honest_root :: "platform \<Rightarrow> transparency \<Rightarrow> verifier_config \<Rightarrow> json \<Rightarrow> bool" where
  "honest_root P T C r \<longleftrightarrow> verify_signed_root P T r (vc_operator_public_key C) = Inr () \<and> (\<exists>i. signed_root_id P r = Inr i)
     \<and> (vc_strict C \<longrightarrow> pf_clock P \<noteq> 0 \<and> 0 \<le> vc_max_stale C)"

lemma honest_valid: "honest_root P T C r \<Longrightarrow> verify_signed_root P T r None = Inr ()"
  by (auto simp: honest_root_def intro: unpinned)

definition settled :: "platform \<Rightarrow> json \<Rightarrow> observed_store \<Rightarrow> bool" where
  "settled P r st \<longleftrightarrow> sees_only r st \<and> ob_roots st \<noteq> []
     \<and> (\<exists>x. ob_statuses st (root_log r) = Some x \<and> os_status x = Active \<and> os_last_success x = Some (time_or_now P (Some (pf_clock P))))"

lemma record_root_nonempty:
  assumes "record_root P st r src t c = Inr st'"
  shows "ob_roots st' \<noteq> []"
  using assms unfolding record_root_def Let_def bindE_Inr_iff
proof (elim exE conjE)
  fix key
  assume *: "(case refresh_item key c (ob_roots st) of
        None \<Rightarrow> Inr (st\<lparr>ob_roots := ob_roots st @ [\<lparr>oi_key = key, oi_root = r, oi_source = identity_text src,
          oi_observed_at = time_or_now P t, oi_checked_at = c\<rparr>]\<rparr>)
      | Some xs \<Rightarrow> Inr (st\<lparr>ob_roots := xs\<rparr>)) = Inr st'"
  show ?thesis
  proof (cases "refresh_item key c (ob_roots st)")
    case (Some xs)
    from refresh_item_roots [OF Some] have "xs = [] \<longrightarrow> ob_roots st = []" by auto
    with Some * show ?thesis by auto
  qed (use * in auto)
qed

lemma accept_settles:
  assumes "honest_root P T C r" and "sees_only r (vf_store s)"
  shows "\<exists>s'. accept_root P T r src s = (Inr (), s') \<and> settled P r (vf_store s')"
proof -
  note valid = honest_valid [OF assms(1)]
  from assms(1) obtain i where identified: "signed_root_id P r = Inr i" by (auto simp: honest_root_def)
  let ?st = "vf_store s" and ?now = "Some (pf_clock P)"
  obtain st where st: "record_root P ?st r src ?now ?now = Inr st" using record_root_total [OF valid] by blast
  from record_root_roots [OF st] obtain xs where xs: "st = ?st\<lparr>ob_roots := xs\<rparr>" by blast
  have "xs \<noteq> []" using record_root_nonempty [OF st] by (simp add: xs)
  moreover have "\<forall>x \<in> set xs. oi_root x = r"
  proof -
    have "set (map oi_root xs) \<subseteq> insert r (set (map oi_root (ob_roots ?st)))"
      using record_root_roots [OF st] by (auto simp: xs simp del: set_map)
    with assms(2) show ?thesis by (auto simp: sees_only_def)
  qed
  ultimately have "settled P r (mark_active P st (root_log r) (root_key r) ?now)"
    using assms(2) by (simp add: settled_def sees_only_def xs mark_active_def blacklisted_def Let_def)
  moreover obtain s' where q: "queue_root_announcement P T r ((s\<lparr>vf_store := st\<rparr>)\<lparr>vf_store := mark_active P st (root_log r) (root_key r) ?now\<rparr>)
      = (Inr (), s')" and "vf_store s' = mark_active P st (root_log r) (root_key r) ?now"
    using queue_root_total [OF identified valid, of "(s\<lparr>vf_store := st\<rparr>)\<lparr>vf_store := mark_active P st (root_log r) (root_key r) ?now\<rparr>"]
    by auto
  moreover have "changes_store (\<lambda>st. record_root P st r src ?now ?now) s = (Inr (), s\<lparr>vf_store := st\<rparr>)" by (simp add: st)
  note run = this
  have "changes_store (\<lambda>st. Inr (mark_active P st (root_log r) (root_key r) ?now)) (s\<lparr>vf_store := st\<rparr>)
      = (Inr (), (s\<lparr>vf_store := st\<rparr>)\<lparr>vf_store := mark_active P st (root_log r) (root_key r) ?now\<rparr>)" by simp
  note run = run this
  have "accept_root P T r src s = (Inr (), s')" by (simp only: accept_root_def bindA_def run q prod.case sum.case)
  ultimately show ?thesis by auto
qed

lemma enforce_settled:
  assumes "honest_root P T C r" and "settled P r (vf_store s)"
  shows "enforce_consistency_freshness P C refresh (root_log r) s = (Inr (), s)"
proof -
  from assms(2) obtain x where x: "ob_statuses (vf_store s) (root_log r) = Some x" "os_status x = Active"
    "os_last_success x = Some (time_or_now P (Some (pf_clock P)))" by (auto simp: settled_def)
  have "time_or_now P (Some (pf_clock P)) = pf_clock P" by (simp add: time_or_now_def)
  with x assms(1) show ?thesis
    by (auto simp: enforce_consistency_freshness_def bindA_def reads_store_def returns_def last_success_def honest_root_def)
qed

lemma observe_settles:
  assumes "honest_root P T C r" and "sees_only r (vf_store s)"
  shows "\<exists>s'. observe_root P T C N refresh r src s = (Inr r, s') \<and> settled P r (vf_store s')"
proof -
  note valid = honest_valid [OF assms(1)]
  from assms(1) obtain i where identified: "signed_root_id P r = Inr i" and verified: "verify_signed_root P T r (vc_operator_public_key C) = Inr ()"
    by (auto simp: honest_root_def)
  let ?st = "vf_store s"
  have plain: "ob_key_rotations ?st = []" "ob_key_revocations ?st = []" using assms(2) by (simp_all add: sees_only_def)
  note v = verify_lineage_plain [OF verified plain]
  have status: "\<not> (case observed_status ?st (root_log r) (root_log r) of None \<Rightarrow> False | Some s \<Rightarrow> os_status s = Blacklisted)"
    using assms(2) by (auto simp: sees_only_def observed_status_def blacklisted_def split: option.splits)
  have previous: "previous_root ?st (root_log r) (root_log r) = (if ob_roots ?st = [] then None else Some r)"
    by (simp add: previous_root_def latest_only [OF assms(2)])
  obtain s' where s': "accept_root P T r src s = (Inr (), s')" "settled P r (vf_store s')" using accept_settles [OF assms] by blast
  have "observe_root P T C N refresh r src s = (Inr r, s')"
    using status s'(1) enforce_settled [OF assms(1) s'(2), of refresh]
    by (simp add: observe_root_def bindA_def reads_store_def v no_rotations(1) [OF plain(1)] Let_def previous
        detect_and_handle_equivocation_def find_equivocation_only [OF assms(2) identified valid] returns_def)
  with s'(2) show ?thesis by blast
qed

lemma usable_only:
  assumes "honest_root P T C r" and "sees_only r (vf_store s)" and "validate_current_root_freshness C r now = Inr ()"
  shows "usable_root P T C now (Inr r) s = (Inr r, s)"
proof -
  have "ob_key_rotations (vf_store s) = []" "ob_key_revocations (vf_store s) = []" using assms(2) by (simp_all add: sees_only_def)
  from verify_lineage_plain [OF _ this, of P T r C] position_only [OF assms(2)] assms(1,3) show ?thesis
    by (simp add: usable_root_def bindA_def lifts_def reads_store_def validate_current_root_monotonicity_def returns_def honest_root_def)
qed

lemma usable_roots_only:
  assumes "honest_root P T C r" and "sees_only r (vf_store s)" and "validate_current_root_freshness C r now = Inr ()"
  shows "usable_roots P T C now (map (\<lambda>k. (k, Inr r)) ks) s = (Inr (map (\<lambda>k. (k, r)) ks), s)"
  using usable_only [OF assms] by (induction ks) (simp_all add: bindA_def catches_def returns_def)

lemma observe_roots_settle:
  assumes h: "honest_root P T C r"
  shows "sees_only r (vf_store s) \<Longrightarrow> \<exists>s'. observe_roots (observe_root P T C N refresh) (map (\<lambda>k. (k, r)) ks) s = (Inr (), s')
     \<and> (ks \<noteq> [] \<longrightarrow> settled P r (vf_store s'))"
proof (induction ks arbitrary: s)
  case (Cons k ks)
  from observe_settles [OF h Cons.prems] obtain s1 where s1: "observe_root P T C N refresh r k s = (Inr r, s1)" "settled P r (vf_store s1)" by blast
  then have "sees_only r (vf_store s1)" by (simp add: settled_def)
  from Cons.IH [OF this] s1 show ?case by (cases ks) (auto simp: bindA_def returns_def)
qed (simp add: returns_def)

lemma honest_mirrors:
  assumes "honest_root P T C r" and "sees_only r (vf_store s)" and "nw_mirrors N = map (\<lambda>k. (k, Inr r)) ks" and "ks \<noteq> []" "vc_min_mirrors C \<le> int (length ks)"
    and "validate_current_root_freshness C r (case now of None \<Rightarrow> pf_clock P | Some t \<Rightarrow> t) = Inr ()"
  shows "\<exists>s'. current_roots_from_mirrors P T C N refresh now s = (Inr (replicate (length ks) r), s') \<and> settled P r (vf_store s')"
proof -
  have roots: "map snd (map (\<lambda>k. (k, r)) ks) = replicate (length ks) r" by (simp add: comp_def map_replicate_const)
  have "detect_mirror_disagreement P T (replicate (length ks) r) None = Inr ()"
    unfolding detect_mirror_disagreement_iff using honest_valid [OF assms(1)] by simp
  with observe_roots_settle [OF assms(1,2), of N refresh ks] usable_roots_only [OF assms(1,2,6), of ks] assms(3-5) roots show ?thesis
    unfolding current_roots_from_mirrors_def by (auto simp: bindA_def Let_def lifts_def returns_def)
qed

section \<open>The configured anchor\<close>

text \<open>
  Loading the anchor marks its log active without a look at its status, so a blacklisting that a persistent
  store kept does not survive a restart with an anchor of that log.
\<close>

lemma anchor_activates:
  assumes "verify_signed_root P T anchor (vc_operator_public_key C) = Inr ()"
  shows "\<exists>s'. load_consistency_anchor P T C anchor s = (Inr (), s') \<and> \<not> blacklisted (vf_store s') (root_log anchor)"
proof -
  let ?now = "Some (pf_clock P)" and ?src = "IdPair ''configured-anchor'' (root_log anchor)"
  obtain st where st: "record_root P (vf_store s) anchor ?src ?now ?now = Inr st"
    using record_root_total [OF unpinned [OF assms]] by blast
  have "load_consistency_anchor P T C anchor s = (Inr (), s\<lparr>vf_store := mark_active P st (root_log anchor) (root_key anchor) ?now\<rparr>)"
    by (simp add: load_consistency_anchor_def bindA_def lifts_def assms changes_store_def updates_store_def st)
  then show ?thesis by (simp add: blacklisted_marks)
qed

end
