(* ===== verification/VerifierSamples.thy ===== *)
theory VerifierSamples
  imports VerifierProgress LogSamples
begin

text \<open>
  Concrete runs of a verifier for the witnesses: one that accepts a root from two mirrors, one that is shown
  the sample equivocation, a rotation of the sample operator's key, and witnesses of one recovery feed.
\<close>

section \<open>The two sample roots\<close>

lemma sample_times: "(0 :: int) \<le> 1800000000" "(1800000000 :: int) \<le> 4000000000"
  by simp_all

lemmas root_a_facts = root_facts [OF split_platforms(1) zero_hash_text sample_times, folded root_a_def]
lemmas root_b_facts = root_facts [OF split_platforms(1) ones_text(1) sample_times, folded root_b_def]

lemma sample_root_fields_read: "root_size root_a = 1" "root_time root_a = 1800000000" "root_size root_b = 1" "root_time root_b = 1800000000"
  "root_log root_a = log_id_from_public_key flat_platform operator_key" "root_log root_b = root_log root_a"
  unfolding root_int_def root_text_def root_a_facts(3-5) root_b_facts(3-5) option.case json.case by (rule refl)+

lemma sample_ids: "signed_root_id SP root_a = Inr (hex_text (replicate 32 0))" "signed_root_id SP root_b = Inr (hex_text (replicate 32 1))"
proof -
  obtain m m' where "canonical_bytes root_a = Inr m" "canonical_bytes root_b = Inr m'"
    using root_a_facts(9) root_b_facts(9) by (auto simp: canonical_bytes_def)
  then show "signed_root_id SP root_a = Inr (hex_text (replicate 32 0))" "signed_root_id SP root_b = Inr (hex_text (replicate 32 1))"
    using roots_differ by (simp_all add: signed_root_id_def message_hash_def sha3_hex_def split_platform_def)
qed

definition sample_roots :: "json set" where
  "sample_roots = {root_a, root_b}"

lemma sample_roots_identified: "ids_identify SP sample_roots"
  unfolding ids_identify_def sample_roots_def using sample_ids ones_text(3) by auto

lemma sample_clock: "at_time SP 1800000000 = SP"
  using split_platforms(4) by (metis platform.surjective platform.update_convs(8))

section \<open>Two mirrors, one root\<close>

definition sample_config :: verifier_config where
  "sample_config = \<lparr>vc_operator_public_key = Some operator_key, vc_strict = True, vc_max_stale = 86400,
     vc_max_root_age = 3600, vc_future_skew = 60, vc_min_mirrors = 2, vc_max_root_lag = Some 3600\<rparr>"

definition sample_network :: network where
  "sample_network = \<lparr>nw_consistency_proof = (\<lambda>_ _. Inl (PyValueError ''operator is away'')),
     nw_mirrors = [(IdText ''mirror 1'', Inr root_a), (IdText ''mirror 2'', Inr root_a)]\<rparr>"

lemma root_a_honest: "honest_root SP TL sample_config root_a"
  unfolding honest_root_def
  using roots_verify(1) [of "Some operator_key" TL] sample_ids(1) by (simp add: sample_config_def pinned_def split_platforms)

lemma root_a_fresh: "validate_current_root_freshness sample_config root_a 1800000000 = Inr ()"
  unfolding validate_current_root_freshness_def sample_root_fields_read by (simp add: sample_config_def)

definition accepting_verifier :: verifier where
  "accepting_verifier = perform (at_time SP 1800000000) TL sample_config (CheckLatest 0 sample_network None) new_verifier"

lemma sample_check:
  "\<exists>s'. check_latest_consistency 0 SP TL sample_config sample_network None new_verifier = (Inr [root_a, root_a], s')
     \<and> settled SP root_a (vf_store s')"
proof -
  have "nw_mirrors sample_network = map (\<lambda>k. (k, Inr root_a)) [IdText ''mirror 1'', IdText ''mirror 2'']"
    by (simp add: sample_network_def)
  from honest_mirrors [OF root_a_honest _ this, of new_verifier None "refresh_stale_consistency_baseline 0 SP TL sample_config sample_network"]
  show ?thesis
    using root_a_fresh by (simp add: check_latest_consistency_def new_verifier_def sample_config_def split_platforms numeral_2_eq_2)
qed

lemma accepting_settled: "settled SP root_a (vf_store accepting_verifier)"
  using sample_check by (auto simp: accepting_verifier_def sample_clock)

definition sample_proofs :: proof_answers where
  "sample_proofs = {(i, j, Inl (PyValueError ''operator is away'')) |i j. True}"

lemma sample_answers: "answers_in sample_roots sample_proofs sample_network"
  by (auto simp: answers_in_def proofs_in_def sample_network_def sample_roots_def sample_proofs_def)

lemma accepting_reachable: "reachable SP TL sample_roots sample_proofs sample_config accepting_verifier"
proof -
  have "run SP TL sample_roots sample_proofs sample_config new_verifier accepting_verifier"
    unfolding accepting_verifier_def by (rule run.event [OF run.idle]) (simp add: sample_answers)
  then show ?thesis unfolding reachable_def using started.plain by blast
qed

section \<open>The sample equivocation arrives\<close>

lemma equivocation_made:
  "\<exists>l. sample_equivocation = JDict [(''type'', JStr LOG_EQUIVOCATION_PROOF_TYPE), (''version'', JInt LOG_VERSION),
       (''log_id'', JStr l), (''collision_type'', JStr ''same_tree_size''), (''root_a'', root_a), (''root_b'', root_b),
       (''detected_at'', JInt 1800000000)] \<and> hash_text l
    \<and> make_equivocation_proof SP TL root_a root_b (Some ''same_tree_size'') (Some 1800000000) = Inr sample_equivocation"
proof -
  have v: "verify_signed_root SP TL root_a None = Inr ()" "verify_signed_root SP TL root_b None = Inr ()"
    by (rule roots_verify; simp add: pinned_def)+
  have "time_or_now SP None = 1800000000" "time_or_now SP (Some 1800000000) = 1800000000"
    by (simp_all add: time_or_now_def split_platforms)
  with v root_a_facts(5) roots_collide show ?thesis
    by (simp add: sample_equivocation_def make_equivocation_proof_def result_or_def COLLISION_TYPES_def jat_def log_id_text
        split_platforms(1) [unfolded root_platform_def])
qed

lemma equivocation_fields: "jget sample_equivocation ''root'' = None" "jget sample_equivocation ''root_a'' = Some root_a"
  "jget sample_equivocation ''root_b'' = Some root_b" "root_int sample_equivocation ''detected_at'' = 1800000000"
proof -
  obtain l where l: "sample_equivocation = JDict [(''type'', JStr LOG_EQUIVOCATION_PROOF_TYPE), (''version'', JInt LOG_VERSION),
       (''log_id'', JStr l), (''collision_type'', JStr ''same_tree_size''), (''root_a'', root_a), (''root_b'', root_b),
       (''detected_at'', JInt 1800000000)]" using equivocation_made by blast
  show "jget sample_equivocation ''root'' = None" "jget sample_equivocation ''root_a'' = Some root_a"
    "jget sample_equivocation ''root_b'' = Some root_b" "root_int sample_equivocation ''detected_at'' = 1800000000"
    unfolding l by (simp_all add: root_int_def)
qed

lemma sign_root_fits:
  assumes "root_platform P" "hash_text rh" "0 \<le> ts" "ts \<le> 4000000000"
  shows "json_fits 10 6000 (sign_root P rh ts)"
  using sign_root_items(1) [OF assms] root_items_fit(2) [OF assms] by auto

lemma equivocation_fits: "json_fits 9 20000 sample_equivocation"
proof -
  obtain l where l: "sample_equivocation = JDict [(''type'', JStr LOG_EQUIVOCATION_PROOF_TYPE), (''version'', JInt LOG_VERSION),
       (''log_id'', JStr l), (''collision_type'', JStr ''same_tree_size''), (''root_a'', root_a), (''root_b'', root_b),
       (''detected_at'', JInt 1800000000)]" "hash_text l" using equivocation_made by blast
  have n: "is_ascii LOG_EQUIVOCATION_PROOF_TYPE" "length LOG_EQUIVOCATION_PROOF_TYPE = 38" "is_ascii ''same_tree_size''"
    "is_ascii ''root_a''" "is_ascii ''root_b''" "is_ascii ''detected_at''" "is_ascii ''collision_type''"
    by (simp_all add: LOG_EQUIVOCATION_PROOF_TYPE_def is_ascii_def code_def)
  have "json_fits 10 6000 root_a" "json_fits 10 6000 root_b"
    unfolding root_a_def root_b_def by (rule sign_root_fits [OF split_platforms(1)]; simp)+
  then show ?thesis
    unfolding l(1) json_fits_def using l(2) by (simp add: json_limits n utf8_length_ascii text_sizes)
qed

definition warned_verifier :: verifier where
  "warned_verifier = perform (at_time SP 1800000000) TL sample_config (EquivocationMessage sample_equivocation None None) new_verifier"

lemma sample_equivocation_any: "\<exists>l. verify_equivocation_proof SP TL sample_equivocation None = Inr (l, ''same_tree_size'', root_a, root_b)"
proof -
  have a: "jat sample_equivocation ''root_a'' = Inr root_a" "jat sample_equivocation ''root_b'' = Inr root_b"
    by (simp_all add: jat_def equivocation_fields)
  have k: "verify_signed_root SP TL root_a (Some operator_key) = Inr ()" "verify_signed_root SP TL root_b (Some operator_key) = Inr ()"
    and n: "verify_signed_root SP TL root_a None = Inr ()" "verify_signed_root SP TL root_b None = Inr ()"
    by (rule roots_verify; simp add: pinned_def)+
  have "verify_equivocation_proof SP TL sample_equivocation None = verify_equivocation_proof SP TL sample_equivocation (Some operator_key)"
    unfolding verify_equivocation_proof_def a bindE_simps k n ..
  with verify_sample_equivocation show ?thesis by auto
qed

lemma sample_message:
  "\<exists>s'. process_equivocation_proof SP TL sample_config sample_equivocation None None new_verifier = (Inr sample_equivocation, s')"
proof -
  obtain h where h: "message_hash SP sample_equivocation = Inr h"
    using json_fits_canonical(2) [OF equivocation_fits] by (auto simp: message_hash_def)
  from sample_equivocation_any obtain l where v: "verify_equivocation_proof SP TL sample_equivocation None = Inr (l, ''same_tree_size'', root_a, root_b)" ..
  have "evidence_bound SP (vf_store new_verifier) = Inr []" by (simp add: new_verifier_def empty_store_def evidence_bound_def)
  from equivocation_message_total [OF v sample_ids this _ h] equivocation_made equivocation_fields(4) show ?thesis by auto
qed

lemma warned_blacklisted: "blacklisted (vf_store warned_verifier) (root_log root_a)"
proof -
  from sample_message obtain s' where s': "process_equivocation_proof SP TL sample_config sample_equivocation None None new_verifier
      = (Inr sample_equivocation, s')" ..
  from equivocation_message_effect [OF s'] sample_equivocation_any have "blacklisted (vf_store s') (root_log root_a)" by auto
  with s' show ?thesis by (simp add: warned_verifier_def sample_clock)
qed

lemma warned_reachable: "reachable SP TL sample_roots sample_proofs sample_config warned_verifier"
proof -
  have "message_in sample_roots sample_equivocation"
    by (simp add: message_in_def sample_roots_def equivocation_fields)
  then have "run SP TL sample_roots sample_proofs sample_config new_verifier warned_verifier"
    unfolding warned_verifier_def by (intro run.event [OF run.idle]) simp
  then show ?thesis unfolding reachable_def using started.plain by blast
qed

section \<open>A rotation and a recovery feed\<close>

lemma sign_operator_total:
  assumes "ed_ok P" and "length seed = 32"
  shows "sign_operator_payload P (PRIVATE_KEY_PREFIX @ b85encode seed) m = Inr (b85encode (pf_ed_sign P seed m))"
proof -
  have "decode_private_key (PRIVATE_KEY_PREFIX @ b85encode seed) = Inr seed"
    using assms(2) by (intro decode_encode_private_key) (simp add: encode_private_key_def require_bytes_def)
  then show ?thesis
    using ed25519_sign_ok [OF assms, of m]
    by (simp add: sign_operator_payload_def keys_sign_def strip_private_text startswith_def Let_def)
qed

lemma rotation_names: "is_ascii LOG_KEY_ROTATION_TYPE" "length LOG_KEY_ROTATION_TYPE = 41" "is_ascii LOG_RECOVERY_WITNESS_TYPE"
  "length LOG_RECOVERY_WITNESS_TYPE = 32" "is_ascii ''scheduled''" "is_ascii ''old_public_key''" "is_ascii ''new_public_key''"
  "is_ascii ''new_log_id''" "is_ascii ''rotation_timestamp''" "is_ascii ''effective_from_tree_size''" "is_ascii ''overlap_until_timestamp''"
  "is_ascii ''reason''" "is_ascii ''signature_algorithm''" "is_ascii ''message_hash''" "is_ascii ''feed_id''" "is_ascii ''feed_public_key''"
  "is_ascii ''first_seen''" "is_ascii ''source_segment_hash''" "is_ascii ''feed 1''" "is_ascii ''feed 2''"
  by (simp_all add: LOG_KEY_ROTATION_TYPE_def LOG_RECOVERY_WITNESS_TYPE_def is_ascii_def code_def)

lemma second_key_text: "is_ascii (public_key_text seed_b)" "length (public_key_text seed_b) \<le> 60"
  using b85encode_plain [of seed_b] length_b85encode [of seed_b 8]
  by (simp_all add: public_key_text_def PUBLIC_KEY_PREFIX_def is_ascii_def code_def)

lemma witness_made:
  assumes "feed \<in> {''feed 1'', ''feed 2''}"
  shows "\<exists>j. make_recovery_witness TP zero_hash feed 1800000000 zero_hash (PRIVATE_KEY_PREFIX @ b85encode seed_a)
    (public_key_text (pf_ed_public TP seed_a)) = Inr j"
proof -
  have f: "is_ascii feed" "length feed = 6" using assms rotation_names(19,20) by auto
  let ?j = "JDict [(''type'', JStr LOG_RECOVERY_WITNESS_TYPE), (''version'', JInt LOG_VERSION),
        (''signature_algorithm'', JStr LOG_SIGNATURE_ALGORITHM), (''message_hash'', JStr zero_hash),
        (''feed_id'', JStr feed), (''feed_public_key'', JStr operator_key),
        (''first_seen'', JInt 1800000000), (''source_segment_hash'', JStr zero_hash)]"
  have "json_fits 10 5000 ?j"
    using operator_key_text(2)
    by (simp add: json_fits_def json_limits rotation_names f log_names utf8_length_ascii text_sizes operator_key_text(1))
  from json_fits_canonical(2) [OF this] obtain b where "canonical_bytes ?j = Inr b" by blast
  then have "\<exists>p. recovery_witness_signature_payload ?j = Inr p"
    by (simp add: recovery_witness_signature_payload_def signature_payload_def without_key_def)
  then obtain p where p: "recovery_witness_signature_payload ?j = Inr p" ..
  have z: "root_hex32 (JStr zero_hash) l = Inr zero_hash" for l using hash_text_hex64 [OF zero_hash_text] by (simp add: root_hex32_Inr_iff)
  show ?thesis
    unfolding make_recovery_witness_def z bindE_simps Let_def
    using p sign_operator_total [OF toy_ed_ok seed_lengths(1)] by (simp add: operator_key_def)
qed

definition sample_witness :: "string \<Rightarrow> json" where
  "sample_witness feed = result_or JNull (make_recovery_witness TP zero_hash feed 1800000000 zero_hash
     (PRIVATE_KEY_PREFIX @ b85encode seed_a) (public_key_text (pf_ed_public TP seed_a)))"

lemma make_sample_witness:
  "feed \<in> {''feed 1'', ''feed 2''} \<Longrightarrow> make_recovery_witness TP zero_hash feed 1800000000 zero_hash
     (PRIVATE_KEY_PREFIX @ b85encode seed_a) (public_key_text (pf_ed_public TP seed_a)) = Inr (sample_witness feed)"
  unfolding sample_witness_def by (rule result_or_Inr [OF witness_made])

lemma rotation_made:
  "\<exists>j. make_key_rotation TP (PRIVATE_KEY_PREFIX @ b85encode seed_a) (public_key_text (pf_ed_public TP seed_a))
     (PRIVATE_KEY_PREFIX @ b85encode seed_b) (public_key_text (pf_ed_public TP seed_b)) 1800000000 1 None None None = Inr j"
proof -
  let ?ok = "public_key_text (pf_ed_public TP seed_a)" and ?nk = "public_key_text (pf_ed_public TP seed_b)"
  let ?j = "JDict [(''type'', JStr LOG_KEY_ROTATION_TYPE), (''version'', JInt LOG_VERSION),
         (''log_id'', JStr (log_id_from_public_key TP ?ok)), (''old_public_key'', JStr ?ok), (''new_public_key'', JStr ?nk),
         (''new_log_id'', JStr (log_id_from_public_key TP ?nk)), (''rotation_timestamp'', JInt 1800000000),
         (''effective_from_tree_size'', JInt 1), (''overlap_until_timestamp'', JInt (1800000000 + DEFAULT_KEY_ROTATION_OVERLAP_SECONDS)),
         (''reason'', JStr ''scheduled''), (''signature_algorithm'', JStr LOG_SIGNATURE_ALGORITHM)]"
  have l: "hash_text (log_id_from_public_key TP k)" for k by (rule log_id_text [OF toy_hash_ok])
  have "json_fits 10 5000 ?j"
    using seed_key_text(2) second_key_text(2)
    by (simp add: json_fits_def json_limits rotation_names log_names utf8_length_ascii text_sizes l second_key_text(1)
        DEFAULT_KEY_ROTATION_OVERLAP_SECONDS_def)
  from json_fits_canonical(2) [OF this] obtain b where "canonical_bytes ?j = Inr b" by blast
  then have "\<exists>p. key_rotation_signature_payload ?j = Inr p"
    by (simp add: key_rotation_signature_payload_def signature_payload_def without_signatures_def)
  then obtain p where p: "key_rotation_signature_payload ?j = Inr p" ..
  have "make_key_rotation TP (PRIVATE_KEY_PREFIX @ b85encode seed_a) ?ok (PRIVATE_KEY_PREFIX @ b85encode seed_b) ?nk 1800000000 1 None None None
      = bindE (key_rotation_signature_payload ?j) (\<lambda>payload.
      bindE (sign_operator_payload TP (PRIVATE_KEY_PREFIX @ b85encode seed_a) payload) (\<lambda>so.
      bindE (sign_operator_payload TP (PRIVATE_KEY_PREFIX @ b85encode seed_b) payload) (\<lambda>sn.
      Inr (JDict ((case ?j of JDict kvs \<Rightarrow> kvs) @ [(''signature_by_old_key'', JStr so), (''signature_by_new_key'', JStr sn)])))))"
    unfolding make_key_rotation_def Let_def key_text_strip text_or_def option.case json.case ..
  then show ?thesis
    unfolding p sign_operator_total [OF toy_ed_ok seed_lengths(1)] sign_operator_total [OF toy_ed_ok seed_lengths(2)] bindE_simps by blast
qed

definition sample_rotation :: json where
  "sample_rotation = result_or JNull (make_key_rotation TP (PRIVATE_KEY_PREFIX @ b85encode seed_a) (public_key_text (pf_ed_public TP seed_a))
     (PRIVATE_KEY_PREFIX @ b85encode seed_b) (public_key_text (pf_ed_public TP seed_b)) 1800000000 1 None None None)"

lemma make_sample_rotation:
  "make_key_rotation TP (PRIVATE_KEY_PREFIX @ b85encode seed_a) (public_key_text (pf_ed_public TP seed_a))
     (PRIVATE_KEY_PREFIX @ b85encode seed_b) (public_key_text (pf_ed_public TP seed_b)) 1800000000 1 None None None = Inr sample_rotation"
  unfolding sample_rotation_def by (rule result_or_Inr [OF rotation_made])

end
