(* ===== verification/MoreFacts.thy ===== *)
theory MoreFacts
  imports FurtherFacts VerifierSamples
begin

text \<open>
  Further facts about transfers, their encodings and hashes, the keys of operators and the roots that mirrors
  serve, each with a concrete instance.
\<close>

text \<open>
  A transfer that \<open>create_transfer_from_state\<close> returns extends the state it was made from: unless
  the bill has used up its day, replay accepts it at once and the recipient owns the bill.
\<close>

theorem created_transfer_accepted:
  assumes "create_transfer_from_state P token_id s sk pk recipient metadata ts network_id verify = Inr t"
    and "timestamp_day (tr_timestamp t) = st_last_transfer_day s \<Longrightarrow>
      st_transfers_in_last_day s < MAX_TRANSFERS_PER_BILL_PER_DAY"
  shows "\<exists>s'. replay_transfer_sequence P token_id s [t] network_id None verify = Inr s'
    \<and> st_owner_address s' = recipient"
  by (rule create_transfer_replays [OF assms])

theorem created_transfer_accepted_witness:
  "\<exists>s'. replay_transfer_sequence TP zero_hash genesis_state [first_transfer] 1 None True = Inr s'
    \<and> st_owner_address s' = key_address seed_b"
  by (rule created_transfer_accepted [OF create_first_transfer first_transfer_limit])

text \<open>
  A bill is never stuck: the holder of the seed behind the owner's address can create a transfer of
  any valid state to any valid address, when the numbers fit the encoding and the bill's last timestamp
  is before the validator's horizon.
\<close>

theorem owner_can_transfer:
  assumes "ed_ok P" and "state_ok P s" and "length seed = 32"
    and "address_from_public_key P (PkBytes (pf_ed_public P seed)) = Inr (st_owner_address s)"
    and "hex64 token_id" and "valid_address P recipient" and "metadata_ok (metadata_or_empty metadata)"
    and "0 \<le> network_id" and "network_id \<le> MAX_UVARINT" and "st_sequence s < MAX_UVARINT"
    and "is_ok (current_time P None)"
    and "st_last_transfer_timestamp s < pf_clock P + MAX_TRANSFER_FUTURE_SKEW_SECONDS"
    and "st_last_transfer_timestamp s < MAX_UVARINT"
  shows "\<exists>t. create_transfer_from_state P token_id s (private_key_text seed)
    (public_key_text (pf_ed_public P seed)) recipient metadata None network_id verify = Inr t"
  by (rule create_transfer_progress [OF assms])

theorem owner_can_transfer_witness:
  "\<exists>t. create_transfer_from_state TP zero_hash first_state (private_key_text seed_b) (public_key_text seed_b)
     (key_address seed_a) None None 1 False = Inr t"
  using owner_can_transfer [of TP first_state seed_b zero_hash "key_address seed_a" None 1 False]
  by (simp add: key_address_ok first_state_fields is_ok_iff MAX_UVARINT_def MAX_TRANSFER_FUTURE_SKEW_SECONDS_def)

text \<open>
  Equal transfer hashes mean equal transfers, signature included, unless the two hashed byte
  strings are a SHA3-256 collision.
\<close>

theorem transfer_hash_commits:
  assumes "transfer_texts True t" and "transfer_texts True u"
    and "transfer_hash P t = Inr h" and "transfer_hash P u = Inr h"
    and "inj_on (pf_sha3_256 P) {m. transfer_preimage P t = Inr m \<or> transfer_preimage P u = Inr m}"
  shows "norm_transfer t = norm_transfer u"
  using assms by (auto simp: transfer_hash_Inr_iff sha3_hex_inject inj_on_def intro: transfer_preimage_inject)

theorem transfer_hash_commits_witness:
  "sorted_transfer \<noteq> double_transfer \<and> norm_transfer double_transfer = norm_transfer sorted_transfer"
proof -
  from sorted_same_preimage obtain m where m: "transfer_preimage TP double_transfer = Inr m"
    "transfer_preimage TP sorted_transfer = Inr m" by blast
  then have "transfer_hash TP double_transfer = Inr (sha3_hex TP m)" "transfer_hash TP sorted_transfer = Inr (sha3_hex TP m)"
    "inj_on (pf_sha3_256 TP) {x. transfer_preimage TP double_transfer = Inr x \<or> transfer_preimage TP sorted_transfer = Inr x}"
    by (auto simp: transfer_hash_Inr_iff inj_on_def)
  from transfer_hash_commits [OF double_transfer_texts this] sorted_transfer_differs show ?thesis by simp
qed

text \<open>
  Decoding the binary envelope of a transfer gives the transfer back, its metadata in canonical
  key order.
\<close>

theorem transfer_roundtrip:
  assumes "transfer_texts True t" and "encode_transfer P t True = Inr bs"
  shows "decode_transfer P bs = Inr (norm_transfer t)"
  by (rule decode_encode_transfer [OF assms])

theorem transfer_roundtrip_witness:
  "\<exists>bs. encode_transfer TP double_transfer True = Inr bs \<and> decode_transfer TP bs = Inr sorted_transfer"
  using sorted_same_encoding transfer_roundtrip [OF double_transfer_texts(1), of TP] by (auto simp: sorted_transfer_def)

text \<open>
  Strict parsing reads every canonical JSON text back as its value with sorted keys.
\<close>

theorem json_roundtrip:
  assumes "json_wf v" and "canonical_json v = Inr t"
  shows "json_loads_strict t = Inr (norm v)"
  by (rule json_loads_canonical [OF assms])

theorem json_roundtrip_witness: "\<exists>t. canonical_json two_keys = Inr t \<and> json_loads_strict t = Inr (JDict [(''a'', JInt 1), (''b'', JInt 2)])"
proof -
  obtain t where "canonical_json two_keys = Inr t" using two_keys_facts(1) by (auto simp: metadata_ok_def)
  from this json_roundtrip [OF two_keys_facts(2) this] show ?thesis by (auto simp del: norm.simps)
qed

text \<open>
  A rotation made by the holder of the old and of the new key verifies, and hands the log over from the
  one to the other: both names derive from the keys and both keys signed the same payload.
\<close>

theorem made_rotation_verifies:
  assumes "ed_ok P" and "length old_seed = 32" and "length new_seed = 32" and "0 \<le> t" and "0 \<le> n"
    and "make_key_rotation P (PRIVATE_KEY_PREFIX @ b85encode old_seed) (public_key_text (pf_ed_public P old_seed))
      (PRIVATE_KEY_PREFIX @ b85encode new_seed) (public_key_text (pf_ed_public P new_seed)) t n None reason None = Inr j"
  shows "verify_key_rotation P j None None None = Inr ()
    \<and> hands_over P j (public_key_text (pf_ed_public P old_seed)) (public_key_text (pf_ed_public P new_seed))"
  using make_key_rotation_verifies [OF assms(1-5) refl _ assms(6)] by (simp add: DEFAULT_KEY_ROTATION_OVERLAP_SECONDS_def)

theorem made_rotation_verifies_witness:
  "verify_key_rotation TP sample_rotation None None None = Inr () \<and> hands_over TP sample_rotation operator_key (public_key_text seed_b)"
  using made_rotation_verifies [OF toy_ed_ok seed_lengths _ _ make_sample_rotation] by (simp add: operator_key_def)

text \<open>
  A revocation is accepted against a rotation exactly when it names that rotation's hash and the rotation
  hands over from the revoked key to the key that signed the revocation.
\<close>

theorem revocation_follows_rotation:
  "verify_key_revocation P j (Some r) = Inr () \<longleftrightarrow>
     revocation_typed j \<and> rotation_typed r
     \<and> (\<exists>h. key_rotation_id P r = Inr h \<and> jget j ''rotation_record_hash'' = Some (JStr h))
     \<and> (\<exists>ok nk. hands_over P r ok nk \<and> revokes P j ok nk)"
  by (rule verify_key_revocation_link)

text \<open>
  An honest bundle verifies: made from a verified segment, its root and proofs each verifying alone, it
  verifies as a whole and returns the segment's checkpoint.
\<close>

theorem honest_bundle_verifies:
  assumes "hash_ok P"
    and "make_archive_segment_evidence d P s n include None (ctx_segments C) = Inr e"
    and "source_segment C e (se_archive_segment_hash e) = Inr s"
    and "verify_archive_segment d P s (Some n) None \<lparr>rs_segment = ctx_segments C, rs_checkpoint = None\<rparr> None = Inr core"
    and "cp_previous_checkpoint_hash core = None" and "hash_text (cp_checkpoint_hash core)"
    and "jget root ''log_id'' = Some (JStr l)"
    and "make_proof_bundle P core root incl spend e n at = Inr b"
    and "operator_key_for_policy P T C root = Inr (key, v)"
    and "verify_inclusion_proof P T (cp_checkpoint_hash core) incl root key = Inr u"
    and "verify_mirrored_root P b v = Inr ()"
    and "verify_v3_checkpoint_spend_proof P T core spend root key = Inr ()"
  shows "verify_proof_bundle (Suc d) P T C b (Some (cp_checkpoint_hash core)) (Some n) {} = Inr core"
  by (rule made_bundle_verifies [OF assms])

theorem honest_bundle_verifies_witness:
  "verify_proof_bundle (Suc 1) TP TL sample_context sample_bundle (Some (cp_checkpoint_hash first_checkpoint)) (Some 1) {} = Inr first_checkpoint"
proof (rule honest_bundle_verifies [OF toy_hash_ok make_sample_evidence _ _ _ _ sample_root_fields(1) make_sample_bundle sample_policy
      verify_sample_inclusion _ sample_settled])
  show "verify_archive_segment 1 TP sample_segment (Some 1) None
      \<lparr>rs_segment = ctx_segments sample_context, rs_checkpoint = None\<rparr> None = Inr first_checkpoint" by (rule verify_sample_segment)
qed (simp_all add: source_segment_def sample_context_def sample_evidence_def verify_mirrored_root_def
      checkpoint_from_state_fields [OF make_first_checkpoint])

text \<open>
  Current roots come from enough independent mirrors: the roots returned are the answers of distinct
  positions of the mirror list, at least the configured minimum of them, each verified and fresh, and no two
  contradict each other.
\<close>

theorem current_roots_independent:
  assumes "check_latest_consistency d P T C N now s = (Inr roots, s')"
  shows "\<exists>xs. subseq (map (\<lambda>x. (fst x, Inr (snd x))) xs) (nw_mirrors N) \<and> roots = map snd xs
    \<and> vc_min_mirrors C \<le> int (length xs)
    \<and> (\<forall>r \<in> set roots. verify_signed_root P T r None = Inr ()
         \<and> validate_current_root_freshness C r (case now of None \<Rightarrow> pf_clock P | Some t \<Rightarrow> t) = Inr ())
    \<and> (\<forall>a \<in> set roots. \<forall>b \<in> set roots. agree a b)"
  by (rule current_roots_Inr [OF assms [unfolded check_latest_consistency_def]])

theorem current_roots_independent_witness: "validate_current_root_freshness sample_config root_a 1800000000 = Inr ()"
proof -
  from sample_check obtain s' where "check_latest_consistency 0 SP TL sample_config sample_network None new_verifier = (Inr [root_a, root_a], s')"
    by blast
  from current_roots_independent [OF this] show ?thesis by (auto simp: split_platforms)
qed

text \<open>
  The signed bytes determine the whole unsigned transfer, up to the order of the metadata keys: a
  signature for one transfer is no signature for another.
\<close>

theorem signature_commits_to_transfer:
  assumes "transfer_texts False (unsigned_transfer t)" and "transfer_texts False (unsigned_transfer u)"
    and "transfer_signing_preimage P t = Inr m" and "transfer_signing_preimage P u = Inr m"
  shows "norm_transfer (unsigned_transfer t) = norm_transfer (unsigned_transfer u)"
  by (rule transfer_signing_preimage_inject [OF assms])

theorem signature_commits_to_transfer_witness:
  "sorted_transfer \<noteq> double_transfer
    \<and> norm_transfer (unsigned_transfer double_transfer) = norm_transfer (unsigned_transfer sorted_transfer)"
  using sorted_same_signing sorted_transfer_differs signature_commits_to_transfer [OF double_unsigned_texts] by blast

end
