(* ===== verification/GenesisManifest.thy ===== *)
theory GenesisManifest
  imports CreateTransfer JsonSize "HOL-Library.Product_Lexorder"
begin

text \<open>
  Genesis manifests (\<open>src/ind/genesis_manifest_v3.py\<close>): the signed list of serial ranges that issues the
  supply, its checks, and what is derived from it for one bill: a nonce, the genesis hash, the genesis
  reference and the state before the first transfer. The network names are ASCII texts.
\<close>

section \<open>Data\<close>

definition GENESIS_MANIFEST_TYPE :: string where "GENESIS_MANIFEST_TYPE = ''ind.genesis_manifest.v3''"
definition GENESIS_MANIFEST_VERSION :: int where "GENESIS_MANIFEST_VERSION = 3"
definition GENESIS_MANIFEST_SIGNATURE_DOMAIN :: string where "GENESIS_MANIFEST_SIGNATURE_DOMAIN = ''IND_GENESIS_MANIFEST_V3''"
definition GENESIS_HASH_ALGORITHM :: string where "GENESIS_HASH_ALGORITHM = ''IND_GENESIS_REF_SHA3_256_V3''"
definition GENESIS_NONCE_ALGORITHM :: string where "GENESIS_NONCE_ALGORITHM = ''IND_GENESIS_NONCE_SHA3_256_V3''"
definition GENESIS_RANGE_SEED_ALGORITHM :: string where "GENESIS_RANGE_SEED_ALGORITHM = ''IND_GENESIS_RANGE_SEED_SHA3_256_V3''"
definition ISSUER_KEY_ID_ALGORITHM :: string where "ISSUER_KEY_ID_ALGORITHM = ''IND_GENESIS_ISSUER_KEY_ID_SHA3_256_V3''"
definition MAX_GENESIS_METADATA_BYTES :: nat where "MAX_GENESIS_METADATA_BYTES = 1024"

record manifest_range =
  mr_value :: int
  mr_start_serial :: int
  mr_count :: int
  mr_owner_address :: string
  mr_nonce_seed :: string

text \<open>A normalised range has its last serial as well.\<close>

record checked_range = manifest_range +
  mr_end_serial :: int

record genesis_manifest =
  gm_type :: string
  gm_version :: int
  gm_network :: string
  gm_network_id :: int
  gm_genesis_algorithm :: string
  gm_signature_algorithm :: int
  gm_issuer_public_key :: string
  gm_issuer_key_id :: string
  gm_issued_at :: int
  gm_total_token_count :: int
  gm_total_value :: int
  gm_ranges :: "manifest_range list"
  gm_metadata :: json
  gm_signature :: string
  gm_manifest_hash :: string

record verified_manifest =
  vm_manifest_hash :: string
  vm_issuer_key_id :: string
  vm_ranges :: "checked_range list"
  vm_total_token_count :: int
  vm_total_value :: int

section \<open>Hashes and signed bytes\<close>

definition manifest_require_int :: "int \<Rightarrow> string \<Rightarrow> int option \<Rightarrow> int option \<Rightarrow> int res" where
  "manifest_require_int v label minimum maximum =
     (if (case minimum of None \<Rightarrow> False | Some m \<Rightarrow> v < m) then Inl (GenesisManifestV3Error (label @ '' is below the allowed range''))
      else if (case maximum of None \<Rightarrow> False | Some m \<Rightarrow> v > m) then Inl (GenesisManifestV3Error (label @ '' is above the allowed range''))
      else Inr v)"

definition manifest_require_str :: "string \<Rightarrow> string \<Rightarrow> string res" where
  "manifest_require_str v label =
     (if v \<noteq> strip v \<or> v = [] then Inl (GenesisManifestV3Error (''invalid '' @ label)) else Inr v)"

definition manifest_hex32 :: "string \<Rightarrow> string \<Rightarrow> string res" where
  "manifest_hex32 v label = (if length v \<noteq> 64 then Inl (GenesisManifestV3Error (''invalid '' @ label))
     else case fromhex v of None \<Rightarrow> Inl (GenesisManifestV3Error (''invalid '' @ label)) | Some _ \<Rightarrow> Inr (lower v))"

definition signature_bytes :: "string \<Rightarrow> bytes res" where
  "signature_bytes t = (if length t \<noteq> 128 then Inl (GenesisManifestV3Error ''invalid genesis manifest signature'')
     else case fromhex t of None \<Rightarrow> Inl (GenesisManifestV3Error ''invalid genesis manifest signature'') | Some b \<Rightarrow> Inr b)"

definition issuer_public_key_text :: "platform \<Rightarrow> string \<Rightarrow> string res" where
  "issuer_public_key_text P sk = bindE (decode_private_key sk) (\<lambda>seed.
     bindE (public_key_from_private_seed P seed) encode_public_key)"

definition issuer_key_id :: "platform \<Rightarrow> string \<Rightarrow> string res" where
  "issuer_key_id P pk = bindE (decode_public_key pk) (\<lambda>_. message_hash P (JDict
     [(''algorithm'', JStr ISSUER_KEY_ID_ALGORITHM), (''issuer_public_key'', JStr pk)]))"

definition range_json :: "manifest_range \<Rightarrow> json" where
  "range_json r = JDict [(''value'', JInt (mr_value r)), (''start_serial'', JInt (mr_start_serial r)),
     (''count'', JInt (mr_count r)), (''owner_address'', JStr (mr_owner_address r)), (''nonce_seed'', JStr (mr_nonce_seed r))]"

text \<open>The dict without \<open>signature\<close> and \<open>manifest_hash\<close>.\<close>

definition unsigned_manifest :: "genesis_manifest \<Rightarrow> json" where
  "unsigned_manifest m = JDict
     [(''type'', JStr (gm_type m)), (''version'', JInt (gm_version m)), (''network'', JStr (gm_network m)),
      (''network_id'', JInt (gm_network_id m)), (''genesis_algorithm'', JStr (gm_genesis_algorithm m)),
      (''signature_algorithm'', JInt (gm_signature_algorithm m)), (''issuer_public_key'', JStr (gm_issuer_public_key m)),
      (''issuer_key_id'', JStr (gm_issuer_key_id m)), (''issued_at'', JInt (gm_issued_at m)),
      (''total_token_count'', JInt (gm_total_token_count m)), (''total_value'', JInt (gm_total_value m)),
      (''ranges'', JList (map range_json (gm_ranges m))), (''metadata'', gm_metadata m)]"

definition manifest_hash :: "platform \<Rightarrow> genesis_manifest \<Rightarrow> string res" where
  "manifest_hash P m = message_hash P (unsigned_manifest m)"

definition manifest_signing_preimage :: "genesis_manifest \<Rightarrow> bytes res" where
  "manifest_signing_preimage m = bindE (canonical_bytes (unsigned_manifest m)) (\<lambda>b.
     signing_preimage (gm_network_id m) GENESIS_MANIFEST_TYPE GENESIS_MANIFEST_VERSION SIGNATURE_ALGORITHM_ID
       GENESIS_MANIFEST_SIGNATURE_DOMAIN b)"

definition NETWORK_ALIASES :: "(string \<times> string) list" where
  "NETWORK_ALIASES =
     [(''main'', ''mainnet''), (''main-net'', ''mainnet''), (''mainnet'', ''mainnet''), (''production'', ''mainnet''),
      (''prod'', ''mainnet''), (''test'', ''testnet''), (''test-net'', ''testnet''), (''testnet'', ''testnet''),
      (''public-testnet'', ''testnet'')]"

definition normalize_network :: "string \<Rightarrow> string" where
  "normalize_network v =
     (let t = map (\<lambda>c. if c = CHR ''_'' then CHR ''-'' else c) (lower (strip v)) in
      case map_of NETWORK_ALIASES t of Some n \<Rightarrow> n | None \<Rightarrow> if t = [] then ''mainnet'' else t)"

section \<open>Ranges\<close>

definition check_range :: "platform \<Rightarrow> manifest_range \<Rightarrow> checked_range res" where
  "check_range P r =
     bindE (validate_bill_value (mr_value r) ''genesis manifest range value'') (\<lambda>value.
     bindE (validate_bill_serial value (mr_start_serial r) ''genesis manifest range start_serial'') (\<lambda>start_serial.
     bindE (manifest_require_int (mr_count r) ''genesis manifest range count'' (Some 1) None) (\<lambda>count.
     let end_serial = start_serial + count - 1 in
     bindE (validate_bill_serial value end_serial ''genesis manifest range end_serial'') (\<lambda>_.
     bindE (validate_address P (mr_owner_address r) ''genesis manifest range owner address'') (\<lambda>owner.
     bindE (manifest_hex32 (mr_nonce_seed r) ''genesis manifest range nonce seed'') (\<lambda>nonce.
     Inr \<lparr>mr_value = value, mr_start_serial = start_serial, mr_count = count, mr_owner_address = owner,
       mr_nonce_seed = nonce, mr_end_serial = end_serial\<rparr>))))))"

text \<open>The loop over neighbours in the sorted list.\<close>

fun overlapping :: "checked_range list \<Rightarrow> bool" where
  "overlapping (a # b # rs) =
     (mr_value a = mr_value b \<and> mr_start_serial b \<le> mr_end_serial a \<or> overlapping (b # rs))"
| "overlapping rs = False"

definition validate_ranges :: "platform \<Rightarrow> manifest_range list \<Rightarrow> (checked_range list \<times> int \<times> int) res" where
  "validate_ranges P ranges =
     (if ranges = [] then Inl (GenesisManifestV3Error ''genesis manifest must contain ranges'')
      else bindE (mapE (check_range P) ranges) (\<lambda>checked.
        let total_count = sum_list (map mr_count checked);
            total_value = sum_list (map (\<lambda>r. mr_count r * mr_value r) checked);
            normalized = sort_key (\<lambda>r. (mr_value r, mr_start_serial r)) checked in
        if overlapping normalized then Inl (GenesisManifestV3Error ''genesis manifest ranges overlap'')
        else if total_count > TOTAL_SUPPLY then Inl (GenesisManifestV3Error ''genesis manifest exceeds fixed IND bill supply'')
        else Inr (normalized, total_count, total_value)))"

definition manifest_ranges :: "checked_range list \<Rightarrow> manifest_range list" where
  "manifest_ranges rs = map manifest_range.truncate rs"

text \<open>
  The owner of each denomination, keyed by the number or by its text. A missing owner is \<open>None\<close>, which is
  no address.
\<close>

definition denomination_range :: "platform \<Rightarrow> (int + string \<Rightarrow> string option) \<Rightarrow> string \<Rightarrow> int \<Rightarrow> manifest_range res" where
  "denomination_range P owners seed_prefix value =
     (case (case owners (Inl value) of Some a \<Rightarrow> Some a | None \<Rightarrow> owners (Inr (int_text value))) of
        None \<Rightarrow> Inl (ValidationError (''invalid genesis owner address for '' @ int_text value @ ''x''))
      | Some a \<Rightarrow>
          bindE (validate_address P a (''genesis owner address for '' @ int_text value @ ''x'')) (\<lambda>owner.
          let count = serial_cap value in
          bindE (message_hash P (JDict
            [(''algorithm'', JStr GENESIS_RANGE_SEED_ALGORITHM), (''seed_prefix'', JStr seed_prefix), (''value'', JInt value),
             (''start_serial'', JInt 1), (''count'', JInt count), (''owner_address'', JStr owner)])) (\<lambda>seed.
          Inr \<lparr>mr_value = value, mr_start_serial = 1, mr_count = count, mr_owner_address = owner, mr_nonce_seed = seed\<rparr>)))"

definition full_supply_ranges_by_denomination ::
    "platform \<Rightarrow> (int + string \<Rightarrow> string option) \<Rightarrow> string \<Rightarrow> manifest_range list res" where
  "full_supply_ranges_by_denomination P owners seed_prefix = mapE (denomination_range P owners seed_prefix) ALLOWED_BILL_VALUES"

definition full_supply_ranges :: "platform \<Rightarrow> string \<Rightarrow> string \<Rightarrow> manifest_range list res" where
  "full_supply_ranges P owner seed_prefix =
     bindE (validate_address P owner ''genesis owner address'') (\<lambda>a.
     full_supply_ranges_by_denomination P
       (\<lambda>k. case k of Inl v \<Rightarrow> if v \<in> set ALLOWED_BILL_VALUES then Some a else None | Inr _ \<Rightarrow> None) seed_prefix)"

section \<open>Making and verifying a manifest\<close>

definition set_default :: "string \<Rightarrow> json \<Rightarrow> json \<Rightarrow> json res" where
  "set_default k v j = (case j of
     JDict kvs \<Rightarrow> Inr (if k \<in> fst ` set kvs then j else JDict (kvs @ [(k, v)]))
   | _ \<Rightarrow> Inl (PyTypeError ''setdefault''))"

definition make_manifest ::
    "platform \<Rightarrow> manifest_range list \<Rightarrow> string \<Rightarrow> int option \<Rightarrow> string \<Rightarrow> int \<Rightarrow> json option \<Rightarrow> genesis_manifest res" where
  "make_manifest P ranges issuer_private_key issued_at network network_id metadata =
     bindE (issuer_public_key_text P issuer_private_key) (\<lambda>pk.
     bindE (validate_ranges P ranges) (\<lambda>(normalized, total_count, total_value).
     bindE (manifest_require_int (case issued_at of None \<Rightarrow> pf_clock P | Some t \<Rightarrow> t) ''genesis manifest issued_at''
       (Some 0) (Some MAX_JSON_INTEGER_ABS)) (\<lambda>issued.
     let net = normalize_network network in
     bindE (set_default ''project'' (JStr ''IND'') (metadata_or_empty metadata)) (\<lambda>m1.
     bindE (set_default ''purpose'' (JStr (net @ '' V3 genesis supply manifest'')) m1) (\<lambda>meta.
     bindE (require_metadata meta MAX_GENESIS_METADATA_BYTES ''genesis manifest'') (\<lambda>_.
     bindE (manifest_require_int network_id ''genesis manifest network_id'' (Some 0) None) (\<lambda>nid.
     bindE (issuer_key_id P pk) (\<lambda>kid.
     let unsigned = \<lparr>gm_type = GENESIS_MANIFEST_TYPE, gm_version = GENESIS_MANIFEST_VERSION, gm_network = net,
       gm_network_id = nid, gm_genesis_algorithm = GENESIS_HASH_ALGORITHM, gm_signature_algorithm = SIGNATURE_ALGORITHM_ID,
       gm_issuer_public_key = pk, gm_issuer_key_id = kid, gm_issued_at = issued, gm_total_token_count = total_count,
       gm_total_value = total_value, gm_ranges = manifest_ranges normalized, gm_metadata = meta,
       gm_signature = [], gm_manifest_hash = []\<rparr> in
     bindE (manifest_signing_preimage unsigned) (\<lambda>preimage.
     bindE (keys_sign P issuer_private_key preimage) (\<lambda>sig.
     bindE (manifest_hash P unsigned) (\<lambda>h.
     Inr (unsigned\<lparr>gm_signature := hex_text sig, gm_manifest_hash := h\<rparr>))))))))))))"

text \<open>The checks before the ranges, in order.\<close>

definition check_manifest_header :: "platform \<Rightarrow> genesis_manifest \<Rightarrow> string option \<Rightarrow> int option \<Rightarrow> unit res" where
  "check_manifest_header P m expected_network expected_network_id =
     (if gm_type m \<noteq> GENESIS_MANIFEST_TYPE then Inl (GenesisManifestV3Error ''malformed genesis manifest'')
      else if gm_version m \<noteq> GENESIS_MANIFEST_VERSION then Inl (GenesisManifestV3Error ''unsupported genesis manifest version'')
      else if gm_genesis_algorithm m \<noteq> GENESIS_HASH_ALGORITHM then Inl (GenesisManifestV3Error ''unsupported genesis manifest algorithm'')
      else if gm_signature_algorithm m \<noteq> SIGNATURE_ALGORITHM_ID
      then Inl (GenesisManifestV3Error ''unsupported genesis manifest signature algorithm'')
      else if (case expected_network of None \<Rightarrow> False | Some n \<Rightarrow> normalize_network (gm_network m) \<noteq> normalize_network n)
      then Inl (GenesisManifestV3Error ''genesis manifest network mismatch'')
      else bindE (manifest_require_int (gm_network_id m) ''genesis manifest network_id'' (Some 0) None) (\<lambda>nid.
      if (case expected_network_id of None \<Rightarrow> False | Some n \<Rightarrow> nid \<noteq> n)
      then Inl (GenesisManifestV3Error ''genesis manifest network id mismatch'')
      else bindE (manifest_require_str (gm_issuer_public_key m) ''issuer public key'') (\<lambda>pk.
      bindE (decode_public_key pk) (\<lambda>_.
      bindE (issuer_key_id P pk) (\<lambda>kid.
      if gm_issuer_key_id m \<noteq> kid then Inl (GenesisManifestV3Error ''genesis manifest issuer key id mismatch'')
      else bindE (manifest_require_int (gm_issued_at m) ''genesis manifest issued_at'' (Some 0) (Some MAX_JSON_INTEGER_ABS)) (\<lambda>_.
      require_metadata (gm_metadata m) MAX_GENESIS_METADATA_BYTES ''genesis manifest''))))))"

text \<open>The totals, the hash with the node's pins, the signature.\<close>

definition check_manifest_totals :: "genesis_manifest \<Rightarrow> int \<Rightarrow> int \<Rightarrow> bool \<Rightarrow> unit res" where
  "check_manifest_totals m total_count total_value require_full_supply =
     bindE (manifest_require_int (gm_total_token_count m) ''genesis manifest total_token_count'' (Some 1) None) (\<lambda>n.
     if n \<noteq> total_count then Inl (GenesisManifestV3Error ''genesis manifest bill count mismatch'')
     else bindE (manifest_require_int (gm_total_value m) ''genesis manifest total_value'' (Some 1) None) (\<lambda>v.
     if v \<noteq> total_value then Inl (GenesisManifestV3Error ''genesis manifest value mismatch'')
     else if require_full_supply \<and> total_count \<noteq> TOTAL_SUPPLY
     then Inl (GenesisManifestV3Error ''genesis manifest does not cover the fixed IND supply'')
     else Inr ()))"

definition check_manifest_hash :: "platform \<Rightarrow> genesis_manifest \<Rightarrow> string list option \<Rightarrow> string res" where
  "check_manifest_hash P m trusted_hashes =
     bindE (manifest_hash P m) (\<lambda>expected.
     bindE (manifest_hex32 (gm_manifest_hash m) ''genesis manifest hash'') (\<lambda>h.
     if h \<noteq> expected then Inl (GenesisManifestV3Error ''genesis manifest hash mismatch'')
     else case trusted_hashes of None \<Rightarrow> Inr expected
     | Some hs \<Rightarrow> bindE (mapE (\<lambda>t. manifest_hex32 t ''trusted genesis manifest hash'') hs) (\<lambda>trusted.
         if expected \<notin> set trusted then Inl (GenesisManifestV3Error ''genesis manifest hash is not trusted by this node'')
         else Inr expected)))"

definition check_manifest_signature :: "platform \<Rightarrow> genesis_manifest \<Rightarrow> unit res" where
  "check_manifest_signature P m =
     bindE (signature_bytes (gm_signature m)) (\<lambda>sig.
     bindE (manifest_signing_preimage m) (\<lambda>preimage.
     bindE (keys_verify P (gm_issuer_public_key m) sig preimage) (\<lambda>ok.
     if ok then Inr () else Inl (GenesisManifestV3Error ''invalid genesis manifest signature''))))"

definition verify_manifest ::
    "platform \<Rightarrow> genesis_manifest \<Rightarrow> string list option \<Rightarrow> bool \<Rightarrow> string option \<Rightarrow> int option \<Rightarrow> verified_manifest res" where
  "verify_manifest P m trusted_hashes require_full_supply expected_network expected_network_id =
     bindE (check_manifest_header P m expected_network expected_network_id) (\<lambda>_.
     bindE (validate_ranges P (gm_ranges m)) (\<lambda>(normalized, total_count, total_value).
     bindE (check_manifest_totals m total_count total_value require_full_supply) (\<lambda>_.
     bindE (check_manifest_hash P m trusted_hashes) (\<lambda>h.
     bindE (check_manifest_signature P m) (\<lambda>_.
     Inr \<lparr>vm_manifest_hash = h, vm_issuer_key_id = gm_issuer_key_id m, vm_ranges = normalized,
       vm_total_token_count = total_count, vm_total_value = total_value\<rparr>)))))"

section \<open>What a manifest says of one bill\<close>

definition range_for_serial :: "checked_range list \<Rightarrow> int \<Rightarrow> int \<Rightarrow> checked_range res" where
  "range_for_serial ranges value serial =
     bindE (validate_bill_value value ''genesis ref value'') (\<lambda>v.
     bindE (validate_bill_serial v serial ''genesis ref serial'') (\<lambda>n.
     case find (\<lambda>r. mr_value r = v \<and> mr_start_serial r \<le> n \<and> n \<le> mr_end_serial r) ranges of
       Some r \<Rightarrow> Inr r
     | None \<Rightarrow> Inl (GenesisManifestV3Error ''genesis serial is not covered by manifest'')))"

definition derive_nonce :: "platform \<Rightarrow> genesis_manifest \<Rightarrow> int \<Rightarrow> int \<Rightarrow> string res" where
  "derive_nonce P m value serial =
     bindE (verify_manifest P m None False None None) (\<lambda>verified.
     bindE (range_for_serial (vm_ranges verified) value serial) (\<lambda>r.
     message_hash P (JDict
       [(''algorithm'', JStr GENESIS_NONCE_ALGORITHM), (''manifest_hash'', JStr (vm_manifest_hash verified)),
        (''value'', JInt value), (''serial'', JInt serial), (''range_start_serial'', JInt (mr_start_serial r)),
        (''range_count'', JInt (mr_count r)), (''owner_address'', JStr (mr_owner_address r)),
        (''nonce_seed'', JStr (mr_nonce_seed r))])))"

text \<open>The dict that is hashed.\<close>

definition genesis_material :: "genesis_manifest \<Rightarrow> verified_manifest \<Rightarrow> checked_range \<Rightarrow> int \<Rightarrow> int \<Rightarrow> string \<Rightarrow> json" where
  "genesis_material m verified r value serial nonce = JDict
     [(''algorithm'', JStr GENESIS_HASH_ALGORITHM), (''network_id'', JInt (gm_network_id m)),
      (''manifest_hash'', JStr (vm_manifest_hash verified)), (''issuer_key_id'', JStr (vm_issuer_key_id verified)),
      (''value'', JInt value), (''serial'', JInt serial), (''owner_address'', JStr (mr_owner_address r)),
      (''issued_at'', JInt (gm_issued_at m)), (''nonce'', JStr nonce)]"

definition derive_genesis_hash :: "platform \<Rightarrow> genesis_manifest \<Rightarrow> int \<Rightarrow> int \<Rightarrow> string res" where
  "derive_genesis_hash P m value serial =
     bindE (verify_manifest P m None False None None) (\<lambda>verified.
     bindE (range_for_serial (vm_ranges verified) value serial) (\<lambda>r.
     bindE (derive_nonce P m value serial) (\<lambda>nonce.
     message_hash P (genesis_material m verified r value serial nonce))))"

definition derive_genesis_ref :: "platform \<Rightarrow> genesis_manifest \<Rightarrow> int \<Rightarrow> int \<Rightarrow> genesis_ref res" where
  "derive_genesis_ref P m value serial =
     bindE (verify_manifest P m None False None None) (\<lambda>verified.
     bindE (validate_bill_serial value serial ''genesis ref serial'') (\<lambda>n.
     bindE (derive_genesis_hash P m value n) (\<lambda>h.
     Inr \<lparr>gr_type = GENESIS_REF_TYPE, gr_version = GENESIS_MANIFEST_VERSION, gr_network_id = gm_network_id m,
       gr_genesis_hash = h, gr_manifest_hash = Some (vm_manifest_hash verified),
       gr_issuer_key_id = Some (vm_issuer_key_id verified), gr_issue_index = n, gr_issued_at = gm_issued_at m\<rparr>)))"

definition derive_base_state :: "platform \<Rightarrow> genesis_manifest \<Rightarrow> int \<Rightarrow> int \<Rightarrow> bill_state res" where
  "derive_base_state P m value serial =
     bindE (verify_manifest P m None False None None) (\<lambda>verified.
     bindE (range_for_serial (vm_ranges verified) value serial) (\<lambda>r.
     bindE (derive_genesis_hash P m value serial) (\<lambda>h.
     Inr \<lparr>st_sequence = 0, st_owner_address = mr_owner_address r, st_last_transfer_hash = h,
       st_last_transfer_timestamp = gm_issued_at m, st_last_transfer_day = gm_issued_at m div 86400,
       st_transfers_in_last_day = 0, st_display_id = int_text value @ ''x'' @ int_text serial, st_value = value\<rparr>)))"

end
