(* ===== verification/GenesisLaws.thy ===== *)
theory GenesisLaws
  imports GenesisManifest ProofBundle "HOL-Library.Multiset"
begin

text \<open>
  What a verified genesis manifest guarantees: its ranges are disjoint and its totals count the bills and
  the value they issue, so no more than the supply can come from it; a manifest that was made verifies; the
  state and the reference of a bill derived from it are well formed and agree; and a genesis hash commits
  to the denomination, the serial, the owner and the manifest.
\<close>

section \<open>What the checks accept\<close>

lemma manifest_require_int_Inr_iff [res_simps]: "manifest_require_int v l a b = Inr x \<longleftrightarrow>
    x = v \<and> (\<forall>m. a = Some m \<longrightarrow> m \<le> v) \<and> (\<forall>m. b = Some m \<longrightarrow> v \<le> m)"
  by (auto simp: manifest_require_int_def linorder_not_less split: option.splits)

lemma manifest_require_str_Inr_iff [res_simps]: "manifest_require_str v l = Inr x \<longleftrightarrow> x = v \<and> v = strip v \<and> v \<noteq> []"
  by (auto simp: manifest_require_str_def)

lemma manifest_hex32_Inr_iff [res_simps]: "manifest_hex32 v l = Inr x \<longleftrightarrow> hex64 v \<and> x = lower v"
  by (auto simp: manifest_hex32_def hex64_def split: option.splits)

lemma mapE_hex32: "mapE (\<lambda>t. manifest_hex32 t l) ts = Inr xs \<longleftrightarrow> (\<forall>t \<in> set ts. hex64 t) \<and> xs = map lower ts"
  by (induction ts arbitrary: xs) (auto simp: bindE_Inr_iff manifest_hex32_Inr_iff)

lemma message_hash_Inr_iff: "message_hash P v = Inr h \<longleftrightarrow> (\<exists>b. canonical_bytes v = Inr b \<and> h = sha3_hex P b)"
  by (auto simp: message_hash_def bindE_Inr_iff)

lemma check_range_Inr_iff: "check_range P r = Inr c \<longleftrightarrow>
    valid_bill (mr_value r) (mr_start_serial r) \<and> valid_bill (mr_value r) (mr_start_serial r + mr_count r - 1)
    \<and> 1 \<le> mr_count r \<and> valid_address P (mr_owner_address r) \<and> hex64 (mr_nonce_seed r)
    \<and> c = \<lparr>mr_value = mr_value r, mr_start_serial = mr_start_serial r, mr_count = mr_count r,
        mr_owner_address = mr_owner_address r, mr_nonce_seed = lower (mr_nonce_seed r),
        mr_end_serial = mr_start_serial r + mr_count r - 1\<rparr>"
proof -
  have v: "valid_bill v s \<Longrightarrow> v \<in> set ALLOWED_BILL_VALUES" for v s by (simp add: valid_bill_def)
  show ?thesis
    unfolding check_range_def Let_def bindE_Inr_iff validate_bill_value_Inr_iff validate_bill_serial_Inr_iff
      manifest_require_int_Inr_iff validate_address_Inr_iff manifest_hex32_Inr_iff
    using v by auto
qed

text \<open>The bills of a range, as pairs of a denomination and a serial.\<close>

definition range_bills :: "'a manifest_range_scheme \<Rightarrow> (int \<times> int) set" where
  "range_bills r = {mr_value r} \<times> {mr_start_serial r .. mr_start_serial r + mr_count r - 1}"

definition issued_bills :: "genesis_manifest \<Rightarrow> (int \<times> int) set" where
  "issued_bills m = \<Union> (set (map range_bills (gm_ranges m)))"

text \<open>A range that \<open>check_range\<close> returned.\<close>

definition range_ok :: "platform \<Rightarrow> checked_range \<Rightarrow> bool" where
  "range_ok P c = (valid_bill (mr_value c) (mr_start_serial c) \<and> valid_bill (mr_value c) (mr_end_serial c)
     \<and> 1 \<le> mr_count c \<and> mr_end_serial c = mr_start_serial c + mr_count c - 1
     \<and> valid_address P (mr_owner_address c) \<and> hex64 (mr_nonce_seed c) \<and> lower (mr_nonce_seed c) = mr_nonce_seed c)"

lemma check_range_ok:
  assumes "check_range P r = Inr c"
  shows "range_ok P c" and "range_bills c = range_bills r"
  using assms unfolding check_range_Inr_iff by (auto simp: range_ok_def range_bills_def)

lemma check_range_truncate: "range_ok P c \<Longrightarrow> check_range P (manifest_range.truncate c) = Inr c"
  unfolding check_range_Inr_iff by (cases c) (auto simp: range_ok_def manifest_range.truncate_def)

section \<open>Disjoint ranges\<close>

text \<open>One range lies wholly before another.\<close>

definition range_before :: "checked_range \<Rightarrow> checked_range \<Rightarrow> bool" where
  "range_before a b = (mr_value a < mr_value b \<or> mr_value a = mr_value b \<and> mr_end_serial a < mr_start_serial b)"

lemma range_before_disjoint: "range_ok P a \<Longrightarrow> range_before a b \<Longrightarrow> range_bills a \<inter> range_bills b = {}"
  by (auto simp: range_before_def range_bills_def range_ok_def)

lemma not_overlapping_before:
  assumes "\<not> overlapping rs" and "sorted (map (\<lambda>r. (mr_value r, mr_start_serial r)) rs)" and "\<forall>r \<in> set rs. range_ok P r"
  shows "sorted_wrt range_before rs"
  using assms
proof (induction rs rule: induct_list012)
  case (3 a b rs)
  then have ab: "range_before a b" by (auto simp: range_before_def less_eq_prod_def)
  from 3 have "sorted_wrt range_before (b # rs)" by auto
  moreover have "range_before a c" if "range_before b c" for c
    using ab that 3(5) by (auto simp: range_before_def range_ok_def)
  ultimately show ?case using ab by auto
qed simp_all

lemma sum_disjoint_list:
  assumes "sorted_wrt (\<lambda>a b. A a \<inter> A b = {}) xs" and "\<forall>x \<in> set xs. finite (A x)"
  shows "sum f (\<Union> (set (map A xs))) = sum_list (map (\<lambda>x. sum f (A x)) xs)"
  using assms
proof (induction xs)
  case (Cons x xs)
  then have "A x \<inter> \<Union> (set (map A xs)) = {}" "finite (\<Union> (set (map A xs)))" by auto
  with Cons show ?case by (simp add: sum.union_disjoint)
qed simp

lemma range_sums:
  assumes "range_ok P r"
  shows "sum (\<lambda>_. 1) (range_bills r) = mr_count r" and "sum fst (range_bills r) = mr_count r * mr_value r"
proof -
  let ?S = "{mr_start_serial r .. mr_start_serial r + mr_count r - 1}"
  have c: "int (card (range_bills r)) = mr_count r"
    using assms by (simp add: range_bills_def card_cartesian_product range_ok_def)
  then show "sum (\<lambda>_. 1) (range_bills r) = mr_count r" by simp
  have "sum fst (range_bills r) = sum (\<lambda>_. mr_value r) (range_bills r)" by (rule sum.cong) (auto simp: range_bills_def)
  with c show "sum fst (range_bills r) = mr_count r * mr_value r" by simp
qed

lemma sum_list_sort: fixes f :: "'a \<Rightarrow> int" shows "sum_list (map f (sort_key k xs)) = sum_list (map f xs)"
  by (metis mset_map mset_sort sum_mset_sum_list)

section \<open>The totals of a manifest\<close>

lemma validate_ranges_Inr_iff: "validate_ranges P rs = Inr (ns, c, v) \<longleftrightarrow>
    rs \<noteq> [] \<and> (\<exists>cs. list_all2 (\<lambda>r x. check_range P r = Inr x) rs cs
      \<and> ns = sort_key (\<lambda>r. (mr_value r, mr_start_serial r)) cs \<and> \<not> overlapping ns
      \<and> c = sum_list (map mr_count ns) \<and> v = sum_list (map (\<lambda>r. mr_count r * mr_value r) ns) \<and> c \<le> TOTAL_SUPPLY)"
  unfolding validate_ranges_def Let_def bindE_Inr_iff if_Inl_Inr_iff mapE_Inr_iff
  by (auto simp: linorder_not_less sum_list_sort)

lemma validated_ranges:
  assumes "validate_ranges P rs = Inr (ns, c, v)"
  shows "\<forall>r \<in> set ns. range_ok P r" and "sorted_wrt range_before ns"
    and "\<Union> (set (map range_bills rs)) = \<Union> (set (map range_bills ns))" and "ns \<noteq> []"
    and "c = sum_list (map mr_count ns)" and "v = sum_list (map (\<lambda>r. mr_count r * mr_value r) ns)" and "c \<le> TOTAL_SUPPLY"
    and "sorted (map (\<lambda>r. (mr_value r, mr_start_serial r)) ns)" and "\<not> overlapping ns"
proof -
  from assms obtain cs where cs: "list_all2 (\<lambda>r x. check_range P r = Inr x) rs cs" "rs \<noteq> []"
      "ns = sort_key (\<lambda>r. (mr_value r, mr_start_serial r)) cs" "\<not> overlapping ns"
    and rest: "c = sum_list (map mr_count ns)" "v = sum_list (map (\<lambda>r. mr_count r * mr_value r) ns)" "c \<le> TOTAL_SUPPLY"
    unfolding validate_ranges_Inr_iff by blast
  have "\<forall>x \<in> set cs. range_ok P x" using cs(1) check_range_ok(1) by (fastforce simp: list_all2_conv_all_nth in_set_conv_nth)
  then show ok: "\<forall>r \<in> set ns. range_ok P r" by (simp add: cs(3))
  show srt: "sorted (map (\<lambda>r. (mr_value r, mr_start_serial r)) ns)" by (simp add: cs(3))
  show "sorted_wrt range_before ns" by (rule not_overlapping_before [OF cs(4) srt ok])
  have "map range_bills rs = map range_bills cs"
    using cs(1) check_range_ok(2) by (induction rule: list_all2_induct) auto
  then have "\<Union> (set (map range_bills rs)) = \<Union> (set (map range_bills cs))" by simp
  then show "\<Union> (set (map range_bills rs)) = \<Union> (set (map range_bills ns))" by (simp add: cs(3))
  have "length cs = length rs" using cs(1) by (simp add: list_all2_lengthD)
  then show "ns \<noteq> []" using cs(2,3) by (metis length_0_conv length_sort)
  from rest cs(4) show "c = sum_list (map mr_count ns)" "v = sum_list (map (\<lambda>r. mr_count r * mr_value r) ns)"
    "c \<le> TOTAL_SUPPLY" "\<not> overlapping ns" by auto
qed

lemma validated_totals:
  assumes "validate_ranges P rs = Inr (ns, c, v)"
  shows "int (card (\<Union> (set (map range_bills rs)))) = c" and "(\<Sum>b \<in> \<Union> (set (map range_bills rs)). fst b) = v"
proof -
  note ns = validated_ranges [OF assms]
  have d: "sorted_wrt (\<lambda>a b. range_bills a \<inter> range_bills b = {}) ns"
    by (rule sorted_wrt_mono_rel [OF _ ns(2)]) (use ns(1) range_before_disjoint in blast)
  have f: "\<forall>r \<in> set ns. finite (range_bills r)" by (simp add: range_bills_def)
  have "int (card (\<Union> (set (map range_bills ns)))) = (\<Sum>b \<in> \<Union> (set (map range_bills ns)). 1)" by simp
  also have "\<dots> = sum_list (map (\<lambda>r. \<Sum>b \<in> range_bills r. 1) ns)" by (rule sum_disjoint_list [OF d f])
  also have "\<dots> = c" unfolding ns(5) by (rule arg_cong [where f = sum_list], rule map_cong) (use ns(1) range_sums in auto)
  finally show "int (card (\<Union> (set (map range_bills rs)))) = c" unfolding ns(3) .
  have "(\<Sum>b \<in> \<Union> (set (map range_bills ns)). fst b) = sum_list (map (\<lambda>r. \<Sum>b \<in> range_bills r. fst b) ns)"
    by (rule sum_disjoint_list [OF d f])
  also have "\<dots> = v" unfolding ns(6) by (rule arg_cong [where f = sum_list], rule map_cong) (use ns(1) range_sums in auto)
  finally show "(\<Sum>b \<in> \<Union> (set (map range_bills rs)). fst b) = v" unfolding ns(3) .
qed

lemma range_bills_valid: "range_ok P r \<Longrightarrow> range_bills r \<subseteq> {(v, s). valid_bill v s}"
  by (auto simp: range_ok_def range_bills_def valid_bill_def)

lemma validated_bills_valid:
  assumes "validate_ranges P rs = Inr (ns, c, v)"
  shows "\<Union> (set (map range_bills rs)) \<subseteq> {(v, s). valid_bill v s}"
  unfolding validated_ranges(3) [OF assms] using validated_ranges(1) [OF assms] range_bills_valid by fastforce

lemma finite_valid_bills: "finite {(v, s). valid_bill v s}"
  unfolding valid_bill_pairs by simp

lemma verify_manifest_parts:
  assumes "verify_manifest P m trusted full net nid = Inr v"
  shows "check_manifest_header P m net nid = Inr ()"
    and "validate_ranges P (gm_ranges m) = Inr (vm_ranges v, gm_total_token_count m, gm_total_value m)"
    and "full \<Longrightarrow> gm_total_token_count m = TOTAL_SUPPLY"
    and "manifest_hash P m = Inr (vm_manifest_hash v)" and "lower (gm_manifest_hash m) = vm_manifest_hash v"
    and "\<And>ts. trusted = Some ts \<Longrightarrow> vm_manifest_hash v \<in> lower ` set ts"
    and "check_manifest_signature P m = Inr ()" and "vm_issuer_key_id v = gm_issuer_key_id m"
    and "vm_total_token_count v = gm_total_token_count m" and "vm_total_value v = gm_total_value m"
proof -
  from assms obtain ns c w h where p: "check_manifest_header P m net nid = Inr ()"
      "validate_ranges P (gm_ranges m) = Inr (ns, c, w)" "check_manifest_totals m c w full = Inr ()"
      "check_manifest_hash P m trusted = Inr h" "check_manifest_signature P m = Inr ()"
    and v: "v = \<lparr>vm_manifest_hash = h, vm_issuer_key_id = gm_issuer_key_id m, vm_ranges = ns,
       vm_total_token_count = c, vm_total_value = w\<rparr>"
    unfolding verify_manifest_def bindE_Inr_iff by (auto simp: bindE_Inr_iff)
  from p(3) have t: "c = gm_total_token_count m" "w = gm_total_value m" "full \<Longrightarrow> c = TOTAL_SUPPLY"
    unfolding check_manifest_totals_def bindE_Inr_iff if_Inl_Inr_iff manifest_require_int_Inr_iff by auto
  from p(4) have h: "manifest_hash P m = Inr h" "lower (gm_manifest_hash m) = h"
      "\<And>ts. trusted = Some ts \<Longrightarrow> h \<in> lower ` set ts"
    unfolding check_manifest_hash_def bindE_Inr_iff if_Inl_Inr_iff manifest_hex32_Inr_iff
    by (auto split: option.splits simp: bindE_Inr_iff if_Inl_Inr_iff mapE_hex32)
  from p v t h show "check_manifest_header P m net nid = Inr ()"
    "validate_ranges P (gm_ranges m) = Inr (vm_ranges v, gm_total_token_count m, gm_total_value m)"
    "full \<Longrightarrow> gm_total_token_count m = TOTAL_SUPPLY"
    "manifest_hash P m = Inr (vm_manifest_hash v)" "lower (gm_manifest_hash m) = vm_manifest_hash v"
    "\<And>ts. trusted = Some ts \<Longrightarrow> vm_manifest_hash v \<in> lower ` set ts"
    "check_manifest_signature P m = Inr ()" "vm_issuer_key_id v = gm_issuer_key_id m"
    "vm_total_token_count v = gm_total_token_count m" "vm_total_value v = gm_total_value m" by auto
qed

text \<open>A verified manifest issues as many bills, of as much value, as it says, and each is a bill of the supply.\<close>

lemma verified_manifest_supply:
  assumes "verify_manifest P m trusted full net nid = Inr v"
  shows "issued_bills m \<subseteq> {(v, s). valid_bill v s}" and "int (card (issued_bills m)) = gm_total_token_count m"
    and "(\<Sum>b \<in> issued_bills m. fst b) = gm_total_value m"
    and "full \<Longrightarrow> issued_bills m = {(v, s). valid_bill v s}"
proof -
  note r = verify_manifest_parts(2) [OF assms]
  show sub: "issued_bills m \<subseteq> {(v, s). valid_bill v s}"
    unfolding issued_bills_def by (rule validated_bills_valid [OF r])
  show card: "int (card (issued_bills m)) = gm_total_token_count m" "(\<Sum>b \<in> issued_bills m. fst b) = gm_total_value m"
    unfolding issued_bills_def using validated_totals [OF r] by auto
  assume full
  with verify_manifest_parts(3) [OF assms] card(1) have "int (card (issued_bills m)) = TOTAL_SUPPLY" by simp
  then have "card (issued_bills m) = card {(v, s). valid_bill v s}" using card_valid_bill by linarith
  then show "issued_bills m = {(v, s). valid_bill v s}" by (rule card_subset_eq [OF finite_valid_bills sub])
qed

section \<open>A made manifest verifies\<close>

lemma strip_map: "(\<And>c. is_space (f c) = is_space c) \<Longrightarrow> strip (map f s) = map f (strip s)"
  by (simp add: strip_def dropWhile_map rev_map comp_def)

lemma normalize_network_idem: "normalize_network (normalize_network v) = normalize_network v"
proof -
  let ?dash = "\<lambda>c. if c = CHR ''_'' then CHR ''-'' else c"
  let ?t = "map ?dash (lower (strip v))"
  have space: "is_space (lower_char c) = is_space c" "is_space (?dash c) = is_space c" for c
    by (simp add: is_space_def Let_def code_lower_char) (simp add: is_space_def code_def)
  have "strip (lower (strip v)) = lower (strip v)" by (simp add: lower_def strip_map space)
  then have s: "strip ?t = ?t" using strip_map [of ?dash, OF space(2)] by simp
  have "lower_char (lower_char c) = lower_char c" "lower_char (CHR ''-'') = CHR ''-''" for c
    by (subst code_inject [symmetric], simp add: code_lower_char, simp add: lower_char_def code_def)
  then have t: "map ?dash (lower (strip ?t)) = ?t" unfolding s by (simp add: lower_def)
  have named: "normalize_network ''mainnet'' = ''mainnet''" "normalize_network ''testnet'' = ''testnet''"
    by (simp_all add: normalize_network_def NETWORK_ALIASES_def strip_def is_space_def lower_def lower_char_def code_def)
  show ?thesis
  proof (cases "map_of NETWORK_ALIASES ?t")
    case None
    then have n: "normalize_network v = (if ?t = [] then ''mainnet'' else ?t)" by (simp add: normalize_network_def Let_def)
    show ?thesis
    proof (cases "?t = []")
      case True
      with n named show ?thesis by simp
    next
      case False
      with n have nv: "normalize_network v = ?t" by (simp del: map_is_Nil_conv)
      with None False show ?thesis unfolding nv unfolding normalize_network_def Let_def t by (simp del: map_is_Nil_conv)
    qed
  next
    case (Some n)
    then have "normalize_network v = n" by (simp add: normalize_network_def Let_def)
    moreover from map_of_SomeD [OF Some] have "n = ''mainnet'' \<or> n = ''testnet''" unfolding NETWORK_ALIASES_def by auto
    ultimately show ?thesis using named by auto
  qed
qed

lemma revalidate_ranges:
  assumes "validate_ranges P rs = Inr (ns, c, v)"
  shows "validate_ranges P (manifest_ranges ns) = Inr (ns, c, v)"
    and "\<Union> (set (map range_bills (manifest_ranges ns))) = \<Union> (set (map range_bills rs))"
proof -
  note ns = validated_ranges [OF assms]
  have "list_all2 (\<lambda>r x. check_range P r = Inr x) (manifest_ranges ns) ns"
    using ns(1) check_range_truncate by (simp add: manifest_ranges_def list_all2_conv_all_nth)
  moreover have "sort_key (\<lambda>r. (mr_value r, mr_start_serial r)) ns = ns" by (rule sort_key_id_if_sorted [OF ns(8)])
  ultimately show "validate_ranges P (manifest_ranges ns) = Inr (ns, c, v)"
    unfolding validate_ranges_Inr_iff using ns(4,5,6,7,9) by (auto simp: manifest_ranges_def)
  have "range_bills (manifest_range.truncate r) = range_bills r" for r :: checked_range
    by (simp add: range_bills_def manifest_range.truncate_def)
  then show "\<Union> (set (map range_bills (manifest_ranges ns))) = \<Union> (set (map range_bills rs))"
    unfolding ns(3) by (simp add: manifest_ranges_def image_image)
qed

lemma unsigned_manifest_updates [simp]:
  "unsigned_manifest (m\<lparr>gm_signature := s, gm_manifest_hash := h\<rparr>) = unsigned_manifest m"
  "manifest_signing_preimage (m\<lparr>gm_signature := s, gm_manifest_hash := h\<rparr>) = manifest_signing_preimage m"
  by (simp_all add: unsigned_manifest_def manifest_signing_preimage_def)

lemma make_manifest_verifies:
  assumes ok: "ed_ok P" "hash_ok P" and seed: "decode_private_key sk = Inr seed"
    and make: "make_manifest P ranges sk issued net nid meta = Inr m"
  shows "\<exists>v. verify_manifest P m (Some [gm_manifest_hash m]) False (Some net) (Some nid) = Inr v"
    and "issued_bills m = \<Union> (set (map range_bills ranges))"
    and "gm_issuer_public_key m = public_key_text (pf_ed_public P seed)"
proof -
  let ?k = "pf_ed_public P seed"
  from make obtain pk ns c v t m1 md kid pre sig h u where
    pk: "issuer_public_key_text P sk = Inr pk" and rs: "validate_ranges P ranges = Inr (ns, c, v)"
    and t: "0 \<le> t" "t \<le> MAX_JSON_INTEGER_ABS" and md: "require_metadata md MAX_GENESIS_METADATA_BYTES ''genesis manifest'' = Inr ()"
    and nid: "0 \<le> nid" and kid: "issuer_key_id P pk = Inr kid"
    and u: "u = \<lparr>gm_type = GENESIS_MANIFEST_TYPE, gm_version = GENESIS_MANIFEST_VERSION, gm_network = normalize_network net,
       gm_network_id = nid, gm_genesis_algorithm = GENESIS_HASH_ALGORITHM, gm_signature_algorithm = SIGNATURE_ALGORITHM_ID,
       gm_issuer_public_key = pk, gm_issuer_key_id = kid, gm_issued_at = t, gm_total_token_count = c,
       gm_total_value = v, gm_ranges = manifest_ranges ns, gm_metadata = md, gm_signature = [], gm_manifest_hash = []\<rparr>"
    and pre: "manifest_signing_preimage u = Inr pre" and sig: "keys_sign P sk pre = Inr sig" and h: "manifest_hash P u = Inr h"
    and m: "m = u\<lparr>gm_signature := hex_text sig, gm_manifest_hash := h\<rparr>"
    unfolding make_manifest_def Let_def bindE_Inr_iff manifest_require_int_Inr_iff
    by (auto simp: bindE_Inr_iff manifest_require_int_Inr_iff)
  from pk seed ok(1) have k: "length seed = 32" "length ?k = 32" "pk = public_key_text ?k"
    by (auto simp: issuer_public_key_text_def public_key_from_private_seed_def private_key_from_seed_def bindE_Inr_iff
        require_bytes_Inr_iff ed_ok_def encode_public_key_Inr_iff public_key_text_def)
  show "gm_issuer_public_key m = public_key_text ?k" by (simp add: m u k(3))
  show "issued_bills m = \<Union> (set (map range_bills ranges))"
    unfolding issued_bills_def m u using revalidate_ranges(2) [OF rs] by simp
  from sig seed ed25519_sign_ok [OF ok(1) k(1), of pre] have s: "sig = pf_ed_sign P seed pre" "ed25519_verify P ?k sig pre"
    by (auto simp: keys_sign_def)
  have header: "check_manifest_header P m (Some net) (Some nid) = Inr ()"
    using t nid md kid k(2) by (simp add: check_manifest_header_def m u k(3) normalize_network_idem bindE_Inr_iff
        manifest_require_int_Inr_iff manifest_require_str_Inr_iff)
      (simp add: public_key_text_def PUBLIC_KEY_PREFIX_def)
  have "c \<ge> 1 \<and> v \<ge> 1"
  proof -
    note ns = validated_ranges [OF rs]
    from ns(4) obtain r rs' where r: "ns = r # rs'" by (cases ns) auto
    have "0 \<le> sum_list (map mr_count rs')" "0 \<le> sum_list (map (\<lambda>r. mr_count r * mr_value r) rs')"
      using ns(1) r allowed_pos by (force simp: range_ok_def valid_bill_def intro!: sum_list_nonneg mult_nonneg_nonneg)+
    moreover have "1 \<le> mr_count r" "1 \<le> mr_value r" using ns(1) r allowed_pos by (auto simp: range_ok_def valid_bill_def)
    then have "1 \<le> mr_count r * mr_value r" using mult_mono [of 1 "mr_count r" 1 "mr_value r"] by simp
    ultimately show ?thesis unfolding ns(5,6) r using \<open>1 \<le> mr_count r\<close> by simp
  qed
  then have totals: "check_manifest_totals m c v False = Inr ()"
    by (simp add: check_manifest_totals_def m u bindE_Inr_iff manifest_require_int_Inr_iff)
  have "hash_text h" using h ok(2) by (auto simp: manifest_hash_def message_hash_Inr_iff)
  then have "hex64 h" "lower h = h" by (auto simp: hash_text_iff)
  then have hash: "check_manifest_hash P m (Some [gm_manifest_hash m]) = Inr h"
    using h by (simp add: check_manifest_hash_def m manifest_hash_def bindE_Inr_iff manifest_hex32_Inr_iff mapE_hex32)
  have "length sig = 64" using s(2) ed25519_verify_length by blast
  moreover have "manifest_signing_preimage m = Inr pre" using pre by (simp add: m)
  moreover have "gm_issuer_public_key m = public_key_text ?k" "gm_signature m = hex_text sig" by (simp_all add: m u k(3))
  ultimately have signature: "check_manifest_signature P m = Inr ()"
    using s(2) k(2) by (simp add: check_manifest_signature_def signature_bytes_def keys_verify_def)
  show "\<exists>v. verify_manifest P m (Some [gm_manifest_hash m]) False (Some net) (Some nid) = Inr v"
    using header revalidate_ranges(1) [OF rs] totals hash signature by (simp add: verify_manifest_def m u)
qed

section \<open>One bill of a manifest\<close>

lemma range_for_serial_Inr:
  assumes "range_for_serial rs v n = Inr r"
  shows "r \<in> set rs" and "valid_bill v n" and "mr_value r = v" and "mr_start_serial r \<le> n" and "n \<le> mr_end_serial r"
proof -
  from assms have "valid_bill v n" and f: "find (\<lambda>r. mr_value r = v \<and> mr_start_serial r \<le> n \<and> n \<le> mr_end_serial r) rs = Some r"
    by (auto simp: range_for_serial_def bindE_Inr_iff validate_bill_value_Inr_iff validate_bill_serial_Inr_iff split: option.splits)
  then show "valid_bill v n" by simp
  from f have "r \<in> set rs \<and> mr_value r = v \<and> mr_start_serial r \<le> n \<and> n \<le> mr_end_serial r"
    unfolding find_Some_iff by (auto intro: nth_mem)
  then show "r \<in> set rs" "mr_value r = v" "mr_start_serial r \<le> n" "n \<le> mr_end_serial r" by auto
qed

text \<open>The bytes that are hashed to the genesis hash of a bill.\<close>

definition genesis_preimage :: "platform \<Rightarrow> genesis_manifest \<Rightarrow> int \<Rightarrow> int \<Rightarrow> bytes res" where
  "genesis_preimage P m value serial =
     bindE (verify_manifest P m None False None None) (\<lambda>verified.
     bindE (range_for_serial (vm_ranges verified) value serial) (\<lambda>r.
     bindE (derive_nonce P m value serial) (\<lambda>nonce.
     canonical_bytes (genesis_material m verified r value serial nonce))))"

lemma derive_genesis_hash_Inr_iff: "derive_genesis_hash P m v n = Inr h \<longleftrightarrow>
    (\<exists>b. genesis_preimage P m v n = Inr b \<and> h = sha3_hex P b)"
  by (auto simp: derive_genesis_hash_def genesis_preimage_def message_hash_def bindE_Inr_iff)

lemma genesis_preimage_parts:
  assumes "genesis_preimage P m v n = Inr b"
  obtains ver r nonce where "verify_manifest P m None False None None = Inr ver" "range_for_serial (vm_ranges ver) v n = Inr r"
    "derive_nonce P m v n = Inr nonce" "canonical_bytes (genesis_material m ver r v n nonce) = Inr b"
  using assms by (auto simp: genesis_preimage_def bindE_Inr_iff)

lemma verified_ranges_ok:
  assumes "verify_manifest P m trusted full net nid = Inr v" and "r \<in> set (vm_ranges v)"
  shows "range_ok P r"
  using validated_ranges(1) [OF verify_manifest_parts(2) [OF assms(1)]] assms(2) by blast

lemma verified_header:
  assumes "verify_manifest P m trusted full net nid = Inr v"
  shows "0 \<le> gm_network_id m" and "0 \<le> gm_issued_at m"
    and "\<exists>k. decode_public_key (gm_issuer_public_key m) = Inr k"
    and "issuer_key_id P (gm_issuer_public_key m) = Inr (gm_issuer_key_id m)"
  using verify_manifest_parts(1) [OF assms]
  unfolding check_manifest_header_def if_Inl_Inr_iff bindE_Inr_iff manifest_require_int_Inr_iff manifest_require_str_Inr_iff
  by auto

lemma message_hash_text: "hash_ok P \<Longrightarrow> message_hash P v = Inr h \<Longrightarrow> hash_text h"
  by (auto simp: message_hash_Inr_iff)

lemma verified_hashes:
  assumes "hash_ok P" and "verify_manifest P m trusted full net nid = Inr v"
  shows "hash_text (vm_manifest_hash v)" and "hash_text (vm_issuer_key_id v)"
  using verify_manifest_parts(4,8) [OF assms(2)] verified_header(4) [OF assms(2)] message_hash_text [OF assms(1)]
  by (auto simp: manifest_hash_def issuer_key_id_def bindE_Inr_iff)

text \<open>The state and the reference that a manifest gives one bill.\<close>

lemma derived_state:
  assumes hash: "hash_ok P" and s: "derive_base_state P m v n = Inr s"
  shows "state_ok P s" and "st_value s = v" and "st_display_id s = display_text v n" and "st_sequence s = 0"
    and "(v, n) \<in> issued_bills m" and "derive_genesis_hash P m v n = Inr (st_last_transfer_hash s)"
proof -
  from s obtain ver r h where ver: "verify_manifest P m None False None None = Inr ver"
      "range_for_serial (vm_ranges ver) v n = Inr r" "derive_genesis_hash P m v n = Inr h"
    and s': "s = \<lparr>st_sequence = 0, st_owner_address = mr_owner_address r, st_last_transfer_hash = h,
       st_last_transfer_timestamp = gm_issued_at m, st_last_transfer_day = gm_issued_at m div 86400,
       st_transfers_in_last_day = 0, st_display_id = int_text v @ ''x'' @ int_text n, st_value = v\<rparr>"
    unfolding derive_base_state_def bindE_Inr_iff by auto
  note r = range_for_serial_Inr [OF ver(2)]
  note ok = verified_ranges_ok [OF ver(1) r(1)]
  have "hash_text h" using ver(3) hash by (auto simp: derive_genesis_hash_Inr_iff)
  moreover have "0 \<le> gm_issued_at m" by (rule verified_header(2) [OF ver(1)])
  ultimately show "state_ok P s"
    using r(2) ok by (auto simp: state_ok_def s' range_ok_def display_text_def)
  show "st_value s = v" "st_display_id s = display_text v n" "st_sequence s = 0" by (simp_all add: s' display_text_def)
  show "derive_genesis_hash P m v n = Inr (st_last_transfer_hash s)" using ver(3) by (simp add: s')
  have "(v, n) \<in> range_bills r" using r ok by (auto simp: range_bills_def range_ok_def)
  then show "(v, n) \<in> issued_bills m"
    unfolding issued_bills_def validated_ranges(3) [OF verify_manifest_parts(2) [OF ver(1)]] using r(1) by auto
qed

lemma derived_ref:
  assumes hash: "hash_ok P" and g: "derive_genesis_ref P m v n = Inr g"
    and trust: "trusted_genesis_manifest_hashes P = {} \<or> lower (gm_manifest_hash m) \<in> trusted_genesis_manifest_hashes P"
  shows "validate_genesis_ref P g (gm_network_id m) = Inr ()" and "gr_issue_index g = n"
    and "derive_genesis_hash P m v n = Inr (gr_genesis_hash g)"
proof -
  from g obtain ver h where ver: "verify_manifest P m None False None None = Inr ver" "valid_bill v n"
      "derive_genesis_hash P m v n = Inr h"
    and g': "g = \<lparr>gr_type = GENESIS_REF_TYPE, gr_version = GENESIS_MANIFEST_VERSION, gr_network_id = gm_network_id m,
       gr_genesis_hash = h, gr_manifest_hash = Some (vm_manifest_hash ver),
       gr_issuer_key_id = Some (vm_issuer_key_id ver), gr_issue_index = n, gr_issued_at = gm_issued_at m\<rparr>"
    unfolding derive_genesis_ref_def bindE_Inr_iff validate_bill_serial_Inr_iff by auto
  note h = verified_hashes [OF hash ver(1)] verified_header(1,2) [OF ver(1)]
  have "hash_text h" using ver(3) hash by (auto simp: derive_genesis_hash_Inr_iff)
  moreover have "lower (vm_manifest_hash ver) = lower (gm_manifest_hash m)"
    by (simp flip: verify_manifest_parts(5) [OF ver(1)])
  ultimately show "validate_genesis_ref P g (gm_network_id m) = Inr ()"
    using h hash_text_hex64 [OF h(1)] ver(2) trust by (auto simp: validate_genesis_ref_Inr_iff genesis_ref_ok_def g' genesis_trust_iff VERSION_def
        GENESIS_MANIFEST_VERSION_def valid_bill_def)
  show "gr_issue_index g = n" "derive_genesis_hash P m v n = Inr (gr_genesis_hash g)" using ver(3) by (simp_all add: g')
qed

lemma material_wf:
  assumes "hash_ok P" and "verify_manifest P m trusted full net nid = Inr ver" and "range_for_serial (vm_ranges ver) v n = Inr r"
    and "derive_nonce P m v n = Inr nonce"
  shows "json_wf (genesis_material m ver r v n nonce)"
proof -
  have "is_ascii (mr_owner_address r)"
    using verified_ranges_ok [OF assms(2) range_for_serial_Inr(1) [OF assms(3)]] valid_address_text(2) by (auto simp: range_ok_def)
  moreover have "hash_text nonce" using assms(4) message_hash_text [OF assms(1)] by (auto simp: derive_nonce_def bindE_Inr_iff)
  moreover have "is_ascii GENESIS_HASH_ALGORITHM" by (simp add: GENESIS_HASH_ALGORITHM_def is_ascii_def code_def)
  ultimately show ?thesis
    using verified_hashes [OF assms(1,2)] by (simp add: genesis_material_def hash_text_ascii) (simp add: is_ascii_def code_def)
qed

lemma genesis_hash_commits:
  assumes hash: "hash_ok P" and a: "derive_genesis_hash P m v n = Inr h" and b: "derive_genesis_hash P m' v' n' = Inr h"
    and inj: "inj_on (pf_sha3_256 P) {x. genesis_preimage P m v n = Inr x \<or> genesis_preimage P m' v' n' = Inr x}"
  shows "v = v'" and "n = n'" and "gm_network_id m = gm_network_id m'" and "lower (gm_manifest_hash m) = lower (gm_manifest_hash m')"
proof -
  from a b obtain x y where x: "genesis_preimage P m v n = Inr x" and y: "genesis_preimage P m' v' n' = Inr y"
    and xy: "sha3_hex P x = sha3_hex P y" by (auto simp: derive_genesis_hash_Inr_iff)
  have eq: "x = y" by (rule no_collision [OF inj x y xy])
  from x obtain ver r nonce where va: "verify_manifest P m None False None None = Inr ver"
      "range_for_serial (vm_ranges ver) v n = Inr r" "derive_nonce P m v n = Inr nonce"
      "canonical_bytes (genesis_material m ver r v n nonce) = Inr x" by (rule genesis_preimage_parts)
  from y obtain ver' r' nonce' where vb: "verify_manifest P m' None False None None = Inr ver'"
      "range_for_serial (vm_ranges ver') v' n' = Inr r'" "derive_nonce P m' v' n' = Inr nonce'"
      "canonical_bytes (genesis_material m' ver' r' v' n' nonce') = Inr y" by (rule genesis_preimage_parts)
  from va(4) vb(4) eq obtain t where "canonical_json (genesis_material m ver r v n nonce) = Inr t"
      "canonical_json (genesis_material m' ver' r' v' n' nonce') = Inr t" by (auto simp: canonical_bytes_def bindE_Inr_iff)
  from canonical_json_inject [OF material_wf [OF hash va(1-3)] material_wf [OF hash vb(1-3)] this]
  have nm: "norm (genesis_material m ver r v n nonce) = norm (genesis_material m' ver' r' v' n' nonce')" .
  have "jget (norm (genesis_material m ver r v n nonce)) k = map_option norm (jget (genesis_material m ver r v n nonce) k)"
    for k m ver r v n nonce
    unfolding genesis_material_def jget_dict by (rule map_of_norm_fields) simp
  with nm have f: "map_option norm (jget (genesis_material m ver r v n nonce) k) = map_option norm (jget (genesis_material m' ver' r' v' n' nonce') k)" for k
    by metis
  show "v = v'" using f [of "''value''"] by (simp add: genesis_material_def)
  show "n = n'" using f [of "''serial''"] by (simp add: genesis_material_def)
  show "gm_network_id m = gm_network_id m'" using f [of "''network_id''"] by (simp add: genesis_material_def)
  have "vm_manifest_hash ver = vm_manifest_hash ver'" using f [of "''manifest_hash''"] by (simp add: genesis_material_def)
  then show "lower (gm_manifest_hash m) = lower (gm_manifest_hash m')"
    using verify_manifest_parts(5) [OF va(1)] verify_manifest_parts(5) [OF vb(1)] by simp
qed

section \<open>Every issued bill starts\<close>

lemma hash_pin_free: "check_manifest_hash P m trusted = Inr h \<Longrightarrow> check_manifest_hash P m None = Inr h"
  unfolding check_manifest_hash_def bindE_Inr_iff if_Inl_Inr_iff
  by (cases trusted) (auto simp: bindE_Inr_iff if_Inl_Inr_iff)

lemma verify_manifest_any:
  assumes "verify_manifest P m trusted full net nid = Inr v"
  shows "verify_manifest P m None False None None = Inr v"
proof -
  note p = verify_manifest_parts [OF assms]
  have "check_manifest_header P m None None = Inr ()"
    using p(1) unfolding check_manifest_header_def if_Inl_Inr_iff bindE_Inr_iff option.case by auto
  moreover from assms obtain c w h where "validate_ranges P (gm_ranges m) = Inr (vm_ranges v, c, w)" "check_manifest_totals m c w full = Inr ()"
      "check_manifest_hash P m trusted = Inr h" and v: "v = \<lparr>vm_manifest_hash = h, vm_issuer_key_id = gm_issuer_key_id m,
        vm_ranges = vm_ranges v, vm_total_token_count = c, vm_total_value = w\<rparr>"
    unfolding verify_manifest_def split_beta bindE_Inr_iff by force
  then have "validate_ranges P (gm_ranges m) = Inr (vm_ranges v, c, w)" "check_manifest_totals m c w False = Inr ()"
      "check_manifest_hash P m None = Inr h"
    using hash_pin_free by (auto simp: check_manifest_totals_def bindE_Inr_iff if_Inl_Inr_iff)
  moreover note p(7)
  ultimately show ?thesis unfolding verify_manifest_def by (simp only: bindE_simps prod.case v [symmetric])
qed

lemma range_for_issued:
  assumes "verify_manifest P m trusted full net nid = Inr ver" and "(v, n) \<in> issued_bills m"
  obtains r where "range_for_serial (vm_ranges ver) v n = Inr r" "r \<in> set (vm_ranges ver)" "(v, n) \<in> range_bills r" "range_ok P r"
proof -
  note ns = verify_manifest_parts(2) [OF assms(1)]
  have valid: "valid_bill v n" using verified_manifest_supply(1) [OF assms(1)] assms(2) by blast
  have ok: "\<forall>r \<in> set (vm_ranges ver). range_ok P r" by (rule validated_ranges(1) [OF ns])
  from assms(2) obtain q where q: "q \<in> set (vm_ranges ver)" "(v, n) \<in> range_bills q"
    unfolding issued_bills_def validated_ranges(3) [OF ns] by auto
  let ?in = "\<lambda>r. mr_value r = v \<and> mr_start_serial r \<le> n \<and> n \<le> mr_end_serial r"
  have "?in r \<longleftrightarrow> (v, n) \<in> range_bills r" if "r \<in> set (vm_ranges ver)" for r
    using ok that by (auto simp: range_bills_def range_ok_def)
  then obtain r where r: "find ?in (vm_ranges ver) = Some r" "r \<in> set (vm_ranges ver)" "(v, n) \<in> range_bills r"
  proof (cases "find ?in (vm_ranges ver)")
    case None
    then show ?thesis using q \<open>\<And>r. r \<in> set (vm_ranges ver) \<Longrightarrow> ?in r \<longleftrightarrow> (v, n) \<in> range_bills r\<close> by (auto simp: find_None_iff)
  next
    case (Some r)
    then have "r \<in> set (vm_ranges ver)" "?in r" unfolding find_Some_iff by (auto intro: nth_mem)
    with Some that \<open>\<And>r. r \<in> set (vm_ranges ver) \<Longrightarrow> ?in r \<longleftrightarrow> (v, n) \<in> range_bills r\<close> show ?thesis by blast
  qed
  moreover from r have "range_for_serial (vm_ranges ver) v n = Inr r"
    using valid by (simp add: range_for_serial_def bindE_Inr_iff validate_bill_value_Inr_iff validate_bill_serial_Inr_iff valid_bill_def)
  ultimately show ?thesis using ok that by blast
qed

lemma serial_caps_small: "valid_bill v n \<Longrightarrow> v \<le> MAX_JSON_INTEGER_ABS \<and> n \<le> MAX_JSON_INTEGER_ABS \<and> 0 \<le> v \<and> 0 \<le> n"
  by (auto simp: valid_bill_def ALLOWED_BILL_VALUES_def serial_cap_def DENOMINATION_SERIAL_CAPS_def MAX_JSON_INTEGER_ABS_def split: if_splits)

lemma issued_bill_derives:
  assumes hash: "hash_ok P" and ver: "verify_manifest P m trusted full net nid = Inr ver" and issued: "(v, n) \<in> issued_bills m"
  shows "\<exists>s g r. derive_base_state P m v n = Inr s \<and> derive_genesis_ref P m v n = Inr g
    \<and> r \<in> set (vm_ranges ver) \<and> (v, n) \<in> range_bills r \<and> st_owner_address s = mr_owner_address r
    \<and> gr_genesis_hash g = st_last_transfer_hash s"
proof -
  note any = verify_manifest_any [OF ver]
  obtain r where r: "range_for_serial (vm_ranges ver) v n = Inr r" "r \<in> set (vm_ranges ver)" "(v, n) \<in> range_bills r" "range_ok P r"
    by (rule range_for_issued [OF ver issued])
  have valid: "valid_bill v n" by (rule range_for_serial_Inr(2) [OF r(1)])
  note texts = verified_hashes [OF hash ver, THEN hash_text_ascii] verified_hashes [OF hash ver, THEN hash_text_hex64, THEN hex64_size]
  have owner: "length (mr_owner_address r) = 33" "is_ascii (mr_owner_address r)"
    using r(4) valid_address_text by (auto simp: range_ok_def)
  have seed: "length (mr_nonce_seed r) = 64" "is_ascii (mr_nonce_seed r)"
    using r(4) hex64_size fromhex_ascii by (auto simp: range_ok_def hex64_def)
  have start: "\<bar>mr_start_serial r\<bar> \<le> MAX_JSON_INTEGER_ABS" "\<bar>mr_count r\<bar> \<le> MAX_JSON_INTEGER_ABS"
    using r(4) serial_caps_small [of "mr_value r" "mr_start_serial r"] serial_caps_small [of "mr_value r" "mr_end_serial r"]
    by (auto simp: range_ok_def valid_bill_def)
  note small = serial_caps_small [OF valid]
  have names: "is_ascii ''algorithm''" "is_ascii ''manifest_hash''" "is_ascii ''value''" "is_ascii ''serial''" "is_ascii ''range_start_serial''"
      "is_ascii ''range_count''" "is_ascii ''owner_address''" "is_ascii ''nonce_seed''" "is_ascii ''network_id''" "is_ascii ''issuer_key_id''"
      "is_ascii ''issued_at''" "is_ascii ''nonce''" "is_ascii GENESIS_NONCE_ALGORITHM" "is_ascii GENESIS_HASH_ALGORITHM"
    by (simp_all add: is_ascii_def code_def GENESIS_NONCE_ALGORITHM_def GENESIS_HASH_ALGORITHM_def)
  have sizes: "length GENESIS_NONCE_ALGORITHM \<le> 60" "length GENESIS_HASH_ALGORITHM \<le> 60"
    by (simp_all add: GENESIS_NONCE_ALGORITHM_def GENESIS_HASH_ALGORITHM_def)
  note limits = MAX_JSON_OBJECT_KEYS_def MAX_JSON_STRING_BYTES_def MAX_JSON_DEPTH_def
  let ?m = "JDict [(''algorithm'', JStr GENESIS_NONCE_ALGORITHM), (''manifest_hash'', JStr (vm_manifest_hash ver)),
        (''value'', JInt v), (''serial'', JInt n), (''range_start_serial'', JInt (mr_start_serial r)),
        (''range_count'', JInt (mr_count r)), (''owner_address'', JStr (mr_owner_address r)),
        (''nonce_seed'', JStr (mr_nonce_seed r))]"
  have "validate_json_value ?m ''protocol object'' 0 = Inr ()"
    using start small sizes by (simp add: utf8_length_ascii names texts owner seed limits)
  then obtain nonce where nonce: "derive_nonce P m v n = Inr nonce"
    unfolding derive_nonce_def any bindE_simps r(1) by (simp add: message_hash_def canonical_bytes_def canonical_json_def del: dumps.simps)
  then have nt: "hash_text nonce" using message_hash_text [OF hash] by (auto simp: derive_nonce_def bindE_Inr_iff)
  have t: "0 \<le> gm_issued_at m" "gm_issued_at m \<le> MAX_JSON_INTEGER_ABS"
    using verify_manifest_parts(1) [OF ver]
    unfolding check_manifest_header_def if_Inl_Inr_iff bindE_Inr_iff manifest_require_int_Inr_iff by auto
  have net: "\<bar>gm_network_id m\<bar> \<le> MAX_JSON_INTEGER_ABS"
  proof -
    have "validate_json_value (unsigned_manifest m) ''protocol object'' 0 = Inr ()"
      using verify_manifest_parts(4) [OF ver]
      by (auto simp: manifest_hash_def message_hash_def canonical_bytes_def canonical_json_def bindE_Inr_iff simp del: dumps.simps)
    then show ?thesis by (auto simp: unsigned_manifest_def bindE_Inr_iff ensure_Inr_iff if_Inl_Inr_iff limits)
  qed
  have "validate_json_value (genesis_material m ver r v n nonce) ''protocol object'' 0 = Inr ()"
    using t net small sizes hash_text_ascii [OF nt] hex64_size [OF hash_text_hex64 [OF nt]]
    by (simp add: genesis_material_def utf8_length_ascii names texts owner limits)
  then obtain h where h: "derive_genesis_hash P m v n = Inr h"
    unfolding derive_genesis_hash_def any bindE_simps r(1) nonce
    by (simp add: message_hash_def canonical_bytes_def canonical_json_def del: dumps.simps)
  have "\<exists>s. derive_base_state P m v n = Inr s \<and> st_owner_address s = mr_owner_address r \<and> st_last_transfer_hash s = h"
    by (simp add: derive_base_state_def any r(1) h)
  moreover have "\<exists>g. derive_genesis_ref P m v n = Inr g \<and> gr_genesis_hash g = h"
    using valid by (simp add: derive_genesis_ref_def any h validate_bill_serial_Inr_iff bindE_Inr_iff valid_bill_def)
  ultimately show ?thesis using r by auto
qed

end
