(* ===== verification/GenesisSamples.thy ===== *)
theory GenesisSamples
  imports GenesisLaws LogSamples
begin

text \<open>A genesis manifest of ten bills, made by the holder of a key, and the first bill it issues.\<close>

definition sample_range :: manifest_range where
  "sample_range = \<lparr>mr_value = 1, mr_start_serial = 1, mr_count = 10, mr_owner_address = key_address seed_a, mr_nonce_seed = zero_hash\<rparr>"

definition sample_issue :: checked_range where
  "sample_issue = \<lparr>mr_value = 1, mr_start_serial = 1, mr_count = 10, mr_owner_address = key_address seed_a,
     mr_nonce_seed = zero_hash, mr_end_serial = 10\<rparr>"

definition sample_metadata :: json where
  "sample_metadata = JDict [(''project'', JStr ''IND''), (''purpose'', JStr ''mainnet V3 genesis supply manifest'')]"

lemma valid_small_bills: "valid_bill 1 1" "valid_bill 1 10" "(1 :: int) \<in> set ALLOWED_BILL_VALUES"
  by (simp_all add: valid_bill_def ALLOWED_BILL_VALUES_def serial_cap_def DENOMINATION_SERIAL_CAPS_def)

lemma check_sample_range: "check_range TP sample_range = Inr sample_issue"
  by (simp add: check_range_Inr_iff sample_range_def sample_issue_def valid_small_bills key_address_ok hash_text_hex64)

lemma validate_sample_range: "validate_ranges TP [sample_range] = Inr ([sample_issue], 10, 10)"
  using check_sample_range by (simp add: validate_ranges_def Let_def) (simp add: sample_issue_def TOTAL_SUPPLY_def)

lemma manifest_names [simp]: "is_ascii GENESIS_MANIFEST_TYPE" "is_ascii GENESIS_HASH_ALGORITHM" "is_ascii GENESIS_NONCE_ALGORITHM"
  "is_ascii ISSUER_KEY_ID_ALGORITHM" "is_ascii GENESIS_MANIFEST_SIGNATURE_DOMAIN" "is_ascii ''mainnet''"
  by (simp_all add: GENESIS_MANIFEST_TYPE_def GENESIS_HASH_ALGORITHM_def GENESIS_NONCE_ALGORITHM_def ISSUER_KEY_ID_ALGORITHM_def
      GENESIS_MANIFEST_SIGNATURE_DOMAIN_def is_ascii_def code_def)

lemma manifest_name_sizes: "length GENESIS_MANIFEST_TYPE \<le> 60" "length GENESIS_HASH_ALGORITHM \<le> 60"
  "length GENESIS_NONCE_ALGORITHM \<le> 60" "length ISSUER_KEY_ID_ALGORITHM \<le> 60" "length GENESIS_MANIFEST_SIGNATURE_DOMAIN \<le> 60"
  by (simp_all add: GENESIS_MANIFEST_TYPE_def GENESIS_HASH_ALGORITHM_def GENESIS_NONCE_ALGORITHM_def ISSUER_KEY_ID_ALGORITHM_def
      GENESIS_MANIFEST_SIGNATURE_DOMAIN_def)

lemma manifest_field_names [simp]: "is_ascii ''network''" "is_ascii ''genesis_algorithm''" "is_ascii ''issuer_public_key''"
  "is_ascii ''issuer_key_id''" "is_ascii ''issued_at''" "is_ascii ''total_token_count''" "is_ascii ''total_value''"
  "is_ascii ''ranges''" "is_ascii ''value''" "is_ascii ''start_serial''" "is_ascii ''count''" "is_ascii ''owner_address''"
  "is_ascii ''nonce_seed''" "is_ascii ''project''" "is_ascii ''purpose''" "is_ascii ''IND''" "is_ascii ''algorithm''"
  "is_ascii ''manifest_hash''" "is_ascii ''serial''" "is_ascii ''range_start_serial''" "is_ascii ''range_count''"
  "is_ascii ''nonce''" "is_ascii ''mainnet V3 genesis supply manifest''"
  by (simp_all add: is_ascii_def code_def)

lemmas fits_simps = text_sizes json_limits utf8_length_ascii

lemma sample_metadata_fits: "json_fits 20 600 sample_metadata"
  unfolding json_fits_def sample_metadata_def by (simp add: fits_simps)

lemma key_id_exists: "\<exists>kid. issuer_key_id TP (public_key_text seed_a) = Inr kid \<and> hash_text kid"
proof -
  have "json_fits 20 1000 (JDict [(''algorithm'', JStr ISSUER_KEY_ID_ALGORITHM), (''issuer_public_key'', JStr (public_key_text seed_a))])"
    using manifest_name_sizes seed_key_text unfolding json_fits_def by (simp add: fits_simps)
  from json_fits_canonical(2) [OF this] show ?thesis by (auto simp: issuer_key_id_def message_hash_def)
qed

definition sample_key_id :: string where "sample_key_id = result_or [] (issuer_key_id TP (public_key_text seed_a))"

lemma make_key_id: "issuer_key_id TP (public_key_text seed_a) = Inr sample_key_id" "hash_text sample_key_id"
proof -
  show "issuer_key_id TP (public_key_text seed_a) = Inr sample_key_id"
    unfolding sample_key_id_def by (rule result_or_Inr) (use key_id_exists in blast)
  with key_id_exists show "hash_text sample_key_id" by auto
qed

definition bare_manifest :: genesis_manifest where
  "bare_manifest = \<lparr>gm_type = GENESIS_MANIFEST_TYPE, gm_version = GENESIS_MANIFEST_VERSION, gm_network = ''mainnet'',
     gm_network_id = 1, gm_genesis_algorithm = GENESIS_HASH_ALGORITHM, gm_signature_algorithm = SIGNATURE_ALGORITHM_ID,
     gm_issuer_public_key = public_key_text seed_a, gm_issuer_key_id = sample_key_id, gm_issued_at = 1700000000,
     gm_total_token_count = 10, gm_total_value = 10, gm_ranges = manifest_ranges [sample_issue], gm_metadata = sample_metadata,
     gm_signature = [], gm_manifest_hash = []\<rparr>"

lemma bare_manifest_fits: "json_fits 15 8000 (unsigned_manifest bare_manifest)"
proof -
  note m = sample_metadata_fits [unfolded json_fits_def]
  have r: "map range_json (manifest_ranges [sample_issue]) = [JDict [(''value'', JInt 1), (''start_serial'', JInt 1), (''count'', JInt 10),
      (''owner_address'', JStr (key_address seed_a)), (''nonce_seed'', JStr zero_hash)]]"
    by (simp add: manifest_ranges_def range_json_def sample_issue_def manifest_range.truncate_def)
  show ?thesis unfolding json_fits_def unsigned_manifest_def bare_manifest_def genesis_manifest.select_convs r
  proof (intro conjI allI impI)
    fix l d assume "(d :: nat) \<le> 15"
    then show "validate_json_value (JDict
     [(''type'', JStr GENESIS_MANIFEST_TYPE), (''version'', JInt GENESIS_MANIFEST_VERSION), (''network'', JStr ''mainnet''),
      (''network_id'', JInt 1), (''genesis_algorithm'', JStr GENESIS_HASH_ALGORITHM),
      (''signature_algorithm'', JInt SIGNATURE_ALGORITHM_ID), (''issuer_public_key'', JStr (public_key_text seed_a)),
      (''issuer_key_id'', JStr sample_key_id), (''issued_at'', JInt 1700000000), (''total_token_count'', JInt 10),
      (''total_value'', JInt 10),
      (''ranges'', JList [JDict [(''value'', JInt 1), (''start_serial'', JInt 1), (''count'', JInt 10),
        (''owner_address'', JStr (key_address seed_a)), (''nonce_seed'', JStr zero_hash)]]),
      (''metadata'', sample_metadata)]) l d = Inr ()"
      using m manifest_name_sizes seed_key_text(2) by (simp add: fits_simps make_key_id GENESIS_MANIFEST_VERSION_def)
  qed (use m manifest_name_sizes seed_key_text(2) in \<open>simp_all add: fits_simps make_key_id GENESIS_MANIFEST_VERSION_def\<close>)
qed

lemma manifest_exists:
  "\<exists>m. make_manifest TP [sample_range] (private_key_text seed_a) (Some 1700000000) ''mainnet'' 1 None = Inr m"
proof -
  have net: "normalize_network ''mainnet'' = ''mainnet''"
    by (simp add: normalize_network_def NETWORK_ALIASES_def strip_def is_space_def lower_def lower_char_def code_def)
  have pk: "issuer_public_key_text TP (private_key_text seed_a) = Inr (public_key_text seed_a)"
    by (simp add: issuer_public_key_text_def public_key_from_private_seed_def private_key_from_seed_def encode_public_key_Inr_iff
        public_key_text_def require_bytes_Inr_iff bindE_Inr_iff)
  have meta: "set_default ''project'' (JStr ''IND'') (metadata_or_empty None) = Inr (JDict [(''project'', JStr ''IND'')])"
    "set_default ''purpose'' (JStr (''mainnet'' @ '' V3 genesis supply manifest'')) (JDict [(''project'', JStr ''IND'')]) = Inr sample_metadata"
    by (simp_all add: set_default_def metadata_or_empty_def sample_metadata_def)
  have md: "require_metadata sample_metadata MAX_GENESIS_METADATA_BYTES ''genesis manifest'' = Inr ()"
    using json_fits_canonical [OF sample_metadata_fits]
    by (auto simp: require_metadata_iff MAX_GENESIS_METADATA_BYTES_def canonical_bytes_def utf8_def sample_metadata_def)
  obtain b where b: "canonical_bytes (unsigned_manifest bare_manifest) = Inr b" "length b \<le> 8000"
    using json_fits_canonical(2) [OF bare_manifest_fits] by blast
  have "gm_network_id bare_manifest = 1" by (simp add: bare_manifest_def)
  with b obtain pre where pre: "manifest_signing_preimage bare_manifest = Inr pre"
    using manifest_name_sizes
    by (auto simp: manifest_signing_preimage_def signing_preimage_Inr_iff encode_uvarint_Inr_iff encode_ascii_Inr_iff
        encode_bytes_Inr_iff MAX_UVARINT_def MAX_SIGNING_PREIMAGE_OBJECT_BYTES_def GENESIS_MANIFEST_VERSION_def SIGNATURE_ALGORITHM_ID_def)
  have "manifest_hash TP bare_manifest = Inr (sha3_hex TP b)" using b by (simp add: manifest_hash_def message_hash_def)
  moreover have "keys_sign TP (private_key_text seed_a) pre = Inr (pf_ed_sign TP seed_a pre)"
    using ed25519_sign_ok [OF toy_ed_ok seed_lengths(1), of pre] by (simp add: keys_sign_def)
  moreover have "manifest_require_int 1700000000 l (Some 0) (Some MAX_JSON_INTEGER_ABS) = Inr 1700000000"
    "manifest_require_int 1 l (Some 0) None = Inr 1" for l
    by (simp_all add: manifest_require_int_Inr_iff MAX_JSON_INTEGER_ABS_def)
  ultimately show ?thesis
    unfolding make_manifest_def option.case pk bindE_simps validate_sample_range prod.case Let_def net meta md make_key_id(1)
      bare_manifest_def [symmetric] pre
    by (simp add: make_key_id(1) bare_manifest_def [symmetric] pre)
qed

definition sample_manifest :: genesis_manifest where
  "sample_manifest = result_or bare_manifest
     (make_manifest TP [sample_range] (private_key_text seed_a) (Some 1700000000) ''mainnet'' 1 None)"

lemma make_sample_manifest:
  "make_manifest TP [sample_range] (private_key_text seed_a) (Some 1700000000) ''mainnet'' 1 None = Inr sample_manifest"
  unfolding sample_manifest_def by (rule result_or_Inr [OF manifest_exists])

lemma verify_sample_manifest: "\<exists>v. verify_manifest TP sample_manifest (Some [gm_manifest_hash sample_manifest]) False (Some ''mainnet'') (Some 1) = Inr v"
  and sample_manifest_bills: "issued_bills sample_manifest = range_bills sample_range"
  using make_manifest_verifies(1,2) [OF toy_ed_ok toy_hash_ok _ make_sample_manifest, of seed_a] by simp_all

lemma first_bill_issued: "(1, 1) \<in> issued_bills sample_manifest"
  by (simp add: sample_manifest_bills range_bills_def sample_range_def)

lemma first_bill_derives: "\<exists>s g. derive_base_state TP sample_manifest 1 1 = Inr s \<and> derive_genesis_ref TP sample_manifest 1 1 = Inr g
    \<and> derive_genesis_hash TP sample_manifest 1 1 = Inr (st_last_transfer_hash s)"
proof -
  from verify_sample_manifest obtain v where v: "verify_manifest TP sample_manifest (Some [gm_manifest_hash sample_manifest]) False
      (Some ''mainnet'') (Some 1) = Inr v" ..
  from issued_bill_derives [OF toy_hash_ok v first_bill_issued] obtain s g where
    "derive_base_state TP sample_manifest 1 1 = Inr s" "derive_genesis_ref TP sample_manifest 1 1 = Inr g" by blast
  with derived_state(6) [OF toy_hash_ok this(1)] show ?thesis by blast
qed

end
