(* ===== verification/LogFacts.thy ===== *)
theory LogFacts
  imports MoreFacts GenesisSamples
begin

text \<open>
  Further facts about genesis hashes and what a node checks of them, equivocation, the depth of
  verification and the configured anchor, each with a concrete instance.
\<close>

text \<open>
  A genesis hash names one bill: manifests and serials that derive the same hash agree on the denomination, the
  serial, the network and the manifest, when the two hashed texts do not collide.
\<close>

theorem genesis_hash_names_bill:
  assumes "hash_ok P" and "derive_genesis_hash P m v n = Inr h" and "derive_genesis_hash P m' v' n' = Inr h"
    and "inj_on (pf_sha3_256 P) {x. genesis_preimage P m v n = Inr x \<or> genesis_preimage P m' v' n' = Inr x}"
  shows "v = v' \<and> n = n' \<and> gm_network_id m = gm_network_id m' \<and> lower (gm_manifest_hash m) = lower (gm_manifest_hash m')"
  using genesis_hash_commits [OF assms] by simp

theorem genesis_hash_names_bill_witness:
  "\<exists>h. derive_genesis_hash TP sample_manifest 1 1 = Inr h \<and> lower (gm_manifest_hash sample_manifest) = lower (gm_manifest_hash sample_manifest)"
proof -
  from first_bill_derives obtain h where h: "derive_genesis_hash TP sample_manifest 1 1 = Inr h" by blast
  have "inj_on (pf_sha3_256 TP) {x. genesis_preimage TP sample_manifest 1 1 = Inr x \<or> genesis_preimage TP sample_manifest 1 1 = Inr x}"
    by (auto simp: inj_on_def)
  from genesis_hash_names_bill [OF toy_hash_ok h h this] h show ?thesis by blast
qed

text \<open>
  A node that trusts a manifest does not check that a bill comes from it: the reference derived for an issued
  bill validates, and so does the reference with any other genesis hash, which the manifest does not derive.
\<close>

theorem trusted_manifest_any_hash:
  assumes "hash_ok P" and "derive_genesis_ref P m v n = Inr g"
    and "trusted_genesis_manifest_hashes P = {} \<or> lower (gm_manifest_hash m) \<in> trusted_genesis_manifest_hashes P"
    and "hash_text h" and "h \<noteq> gr_genesis_hash g"
  shows "validate_genesis_ref P g (gm_network_id m) = Inr ()
    \<and> validate_genesis_ref P (g\<lparr>gr_genesis_hash := h\<rparr>) (gm_network_id m) = Inr () \<and> derive_genesis_hash P m v n \<noteq> Inr h"
proof -
  note r = derived_ref [OF assms(1-3)]
  moreover have "validate_genesis_ref_trust P (g\<lparr>gr_genesis_hash := h\<rparr>) = validate_genesis_ref_trust P g"
    by (simp add: validate_genesis_ref_trust_def)
  ultimately show ?thesis
    using hash_text_hex64 [OF assms(4)] assms(5) by (auto simp: validate_genesis_ref_Inr_iff genesis_ref_ok_def)
qed

theorem trusted_manifest_any_hash_witness:
  "\<exists>g h. derive_genesis_ref TP sample_manifest 1 1 = Inr g \<and> derive_genesis_hash TP sample_manifest 1 1 \<noteq> Inr h
     \<and> validate_genesis_ref TP (g\<lparr>gr_genesis_hash := h\<rparr>) (gm_network_id sample_manifest) = Inr ()"
proof -
  from first_bill_derives obtain g where g: "derive_genesis_ref TP sample_manifest 1 1 = Inr g" by blast
  have t: "trusted_genesis_manifest_hashes TP = {} \<or> lower (gm_manifest_hash sample_manifest) \<in> trusted_genesis_manifest_hashes TP"
    by (simp add: trusted_genesis_manifest_hashes_def toy_platform_def)
  have "hash_text (hex_text (replicate 32 1))" "hash_text (hex_text (replicate 32 2))"
    "hex_text (replicate 32 1) \<noteq> hex_text (replicate 32 2)" by (simp_all add: hash_text_iff)
  then obtain h where "hash_text h" "h \<noteq> gr_genesis_hash g" by metis
  with trusted_manifest_any_hash [OF toy_hash_ok g t] g show ?thesis by blast
qed

text \<open>
  An equivocation proof that verifies names an operator key under which both of its roots verify, and
  the two roots contradict each other: same size or same timestamp, different content.
\<close>

theorem equivocation_proof_sound:
  assumes "verify_equivocation_proof P T msg pin = Inr (l, c, a, b)"
  shows "\<exists>key. verify_signed_root P T a (Some key) = Inr () \<and> verify_signed_root P T b (Some key) = Inr ()
    \<and> l = log_id_from_public_key P key \<and> pinned pin key \<and> contradict a b c"
  by (rule verify_equivocation_sound [OF assms])

theorem equivocation_proof_sound_witness: "contradict root_a root_b ''same_tree_size''"
  using equivocation_proof_sound [of SP TL sample_equivocation "Some operator_key"] verify_sample_equivocation by blast

text \<open>
  The recursion over earlier segments and over earlier bundles is bounded by its input: a result once
  reached is the result at every greater depth.
\<close>

theorem verification_depth:
  assumes "d \<le> e"
  shows "(verify_archive_segment d P s (Some n) prev R now = Inr core \<longrightarrow> verify_archive_segment e P s (Some n) prev R now = Inr core)
    \<and> (verify_proof_bundle d P T C b expected net seen = Inr core \<longrightarrow> verify_proof_bundle e P T C b expected net seen = Inr core)"
  using verify_archive_depth [OF _ assms] verify_bundle_depth [OF _ assms] by blast

theorem verification_depth_witness:
  "verify_proof_bundle 7 TP TL sample_context sample_bundle (Some (cp_checkpoint_hash first_checkpoint)) (Some 1) {} = Inr first_checkpoint"
  using verification_depth [of 2 7] verify_sample_bundle by simp

text \<open>
  A configured anchor lifts a blacklisting: loading an anchor that verifies marks its log active, whatever
  the store recorded about the log before.
\<close>

theorem anchor_lifts_blacklisting:
  assumes "verify_signed_root P T anchor (vc_operator_public_key C) = Inr ()"
  shows "\<exists>s'. load_consistency_anchor P T C anchor s = (Inr (), s') \<and> \<not> blacklisted (vf_store s') (root_log anchor)"
  by (rule anchor_activates [OF assms])

theorem anchor_lifts_blacklisting_witness:
  "blacklisted (vf_store warned_verifier) (root_log root_a)
    \<and> (\<exists>s'. load_consistency_anchor SP TL sample_config root_a warned_verifier = (Inr (), s') \<and> \<not> blacklisted (vf_store s') (root_log root_a))"
  using warned_blacklisted anchor_lifts_blacklisting [of SP TL root_a sample_config warned_verifier] roots_verify(1) [of "Some operator_key" TL]
  by (simp add: sample_config_def pinned_def)

end
