(* ===== verification/Bills.thy ===== *)
theory Bills
  imports ProofBundle
begin

text \<open>
  Thin bills (\<open>src/ind/protocol_v3.py\<close>): a checkpoint core with the reference of the bundle that proves it and
  the transfers since. The codec, the state that a bill proves, the state that a node derives of a bill of
  its own, and the transfer of a bill. A function that takes bytes or a dict takes a \<open>bill_source\<close>.
\<close>

definition BILL_TYPE :: string where "BILL_TYPE = ''ind.bill.v3''"
definition BILL_MAGIC :: bytes where "BILL_MAGIC = utf8 ''IND3BILL''"

record bill =
  bl_type :: string
  bl_version :: int
  bl_network_id :: int
  bl_token_id :: string
  bl_value :: int
  bl_genesis_ref :: genesis_ref
  bl_checkpoint_core :: checkpoint_core
  bl_proof_bundle_ref :: proof_bundle_reference
  bl_recent_transfers :: "transfer list"

record token_state =
  tk_token_id :: string
  tk_owner_address :: string
  tk_last_transfer_hash :: string
  tk_sequence :: int
  tk_display_id :: string
  tk_value :: int

section \<open>Encoding and hash\<close>

text \<open>The transfers are encoded before the other fields; a transfer is checked under its own network id.\<close>

definition bill_transfer_bytes :: "platform \<Rightarrow> transfer list \<Rightarrow> bytes res" where
  "bill_transfer_bytes P ts =
     joinE (encode_uvarint (int (length ts)) # map (\<lambda>t. encode_transfer_body P t True) ts)"

definition bill_head_bytes :: "platform \<Rightarrow> bill \<Rightarrow> bytes res" where
  "bill_head_bytes P b = joinE
     [encode_hash_hex (bl_token_id b), encode_uvarint (bl_value b), encode_genesis_ref_body P (bl_genesis_ref b),
      encode_checkpoint_core_body P (bl_checkpoint_core b) True, encode_proof_bundle_ref_body (bl_proof_bundle_ref b)]"

definition bill_bytes :: "platform \<Rightarrow> bill \<Rightarrow> bytes res" where
  "bill_bytes P b =
     bindE (bill_transfer_bytes P (bl_recent_transfers b)) (\<lambda>transfers.
     bindE (bill_head_bytes P b) (\<lambda>head. Inr (head @ transfers)))"

definition encode_bill :: "platform \<Rightarrow> bill \<Rightarrow> bytes res" where
  "encode_bill P b =
     bindE (require_int (bl_network_id b) ''BillV3 network id'' 0) (\<lambda>n.
     if bl_type b \<noteq> BILL_TYPE \<or> bl_version b \<noteq> VERSION then Inl (ProtocolV3Error ''malformed BillV3'')
     else bindE (bill_bytes P b) (encode_envelope BILL_MAGIC n))"

definition decode_bill_body :: "platform \<Rightarrow> int \<Rightarrow> bill parser" where
  "decode_bill_body P network_id =
     rbind (read_hash_hex ''BillV3 token id'') (\<lambda>ti.
     rbind (read_uvarint ''BillV3 value'') (\<lambda>v.
     rbind (decode_genesis_ref_body network_id) (\<lambda>g.
     rbind (decode_checkpoint_core_body network_id) (\<lambda>c.
     rbind (decode_proof_bundle_ref_body network_id) (\<lambda>r.
     rbind (read_uvarint ''BillV3 recent transfer count'') (\<lambda>count.
     rbind (read_many (decode_transfer_body P True network_id) (nat count)) (\<lambda>ts.
     rreturn \<lparr>bl_type = BILL_TYPE, bl_version = VERSION, bl_network_id = network_id, bl_token_id = ti,
       bl_value = v, bl_genesis_ref = g, bl_checkpoint_core = c, bl_proof_bundle_ref = r,
       bl_recent_transfers = ts\<rparr>)))))))"

definition decode_bill :: "platform \<Rightarrow> bytes \<Rightarrow> bill res" where
  "decode_bill P data = decode_envelope data BILL_MAGIC ''BillV3'' (decode_bill_body P)"

definition bill_hash :: "platform \<Rightarrow> bill \<Rightarrow> bytes res" where
  "bill_hash P b = bindE (encode_bill P b) (object_hash P BILL_TYPE)"

datatype bill_source = Bill_Bytes bytes | Bill_Object bill

fun bill_of :: "platform \<Rightarrow> bill_source \<Rightarrow> bill res" where
  "bill_of P (Bill_Bytes data) = decode_bill P data"
| "bill_of P (Bill_Object b) = Inr b"

section \<open>The state of a bill\<close>

definition check_bill_value :: "platform \<Rightarrow> bill \<Rightarrow> (int \<times> int) res" where
  "check_bill_value P b =
     bindE (require_bill_value (bl_value b) ''BillV3 value'') (\<lambda>v.
     if v \<noteq> cp_value (bl_checkpoint_core b) then Inl (ProtocolV3Error ''BillV3 value mismatch'')
     else validate_display_id_issue_index P (cp_display_id (bl_checkpoint_core b)) v
       (gr_issue_index (bl_genesis_ref b)) ''BillV3 display id'')"

definition validate_bill_display_id :: "platform \<Rightarrow> bill_source \<Rightarrow> (int \<times> int) res" where
  "validate_bill_display_id P source =
     bindE (bill_of P source) (\<lambda>b.
     bindE (require_int (bl_network_id b) ''BillV3 network id'' 0) (\<lambda>n.
     bindE (validate_genesis_ref P (bl_genesis_ref b) n) (\<lambda>_.
     bindE (validate_checkpoint_core P (bl_checkpoint_core b) n) (\<lambda>_.
     check_bill_value P b))))"

text \<open>The checks that \<open>_verify_bill_state\<close> and \<open>cached_bill_state\<close> begin with.\<close>

definition check_bill_header :: "platform \<Rightarrow> bill \<Rightarrow> int option \<Rightarrow> int res" where
  "check_bill_header P b expected_network_id =
     (if bl_type b \<noteq> BILL_TYPE then Inl (ProtocolV3Error ''malformed BillV3'')
      else if bl_version b \<noteq> VERSION then Inl (ProtocolV3Error ''unsupported BillV3 version'')
      else bindE (require_int (bl_network_id b) ''BillV3 network id'' 0) (\<lambda>n.
      if (case expected_network_id of None \<Rightarrow> False | Some e \<Rightarrow> n \<noteq> e)
      then Inl (ProtocolV3Error ''BillV3 network id mismatch'')
      else bindE (validate_genesis_ref P (bl_genesis_ref b) n) (\<lambda>_.
      bindE (validate_checkpoint_core P (bl_checkpoint_core b) n) (\<lambda>_.
      bindE (check_bill_value P b) (\<lambda>_. Inr n)))))"

definition checkpoint_matches_core :: "checkpoint_core \<Rightarrow> checkpoint_core \<Rightarrow> unit res" where
  "checkpoint_matches_core expected core =
     (if cp_type expected \<noteq> CHECKPOINT_CORE_TYPE
      then Inl (ProtocolV3Error ''ProofBundleV3 did not prove a CheckpointCoreV3'')
      else if core\<lparr>cp_type := cp_type expected, cp_version := cp_version expected, cp_network_id := cp_network_id expected\<rparr> \<noteq> expected
      then Inl (ProtocolV3Error ''CheckpointCoreV3 does not match proof bundle'') else Inr ())"

text \<open>A bundle given with the call, else the one that the resolver finds for the bill's reference.\<close>

definition bill_bundle :: "bundle_context \<Rightarrow> bill \<Rightarrow> proof_bundle option \<Rightarrow> proof_bundle res" where
  "bill_bundle C b given =
     (case (case (given, ctx_bundles C) of
              (None, Some resolver) \<Rightarrow> resolver (pr_proof_bundle_hash (bl_proof_bundle_ref b))
            | _ \<Rightarrow> given) of
        None \<Rightarrow> Inl (ProtocolV3Error ''BillV3 proof bundle is required'')
      | Some bundle \<Rightarrow> Inr bundle)"

definition verify_bill_state ::
    "nat \<Rightarrow> platform \<Rightarrow> transparency \<Rightarrow> bundle_context \<Rightarrow> bill_source \<Rightarrow> proof_bundle option \<Rightarrow> int option \<Rightarrow> int option
      \<Rightarrow> bill_state res" where
  "verify_bill_state depth P T C source given expected_network_id now =
     bindE (bill_of P source) (\<lambda>b.
     bindE (check_bill_header P b expected_network_id) (\<lambda>n.
     bindE (bill_bundle C b given) (\<lambda>bundle.
     bindE (verify_proof_bundle_ref P (bl_proof_bundle_ref b) bundle (Some n)) (\<lambda>_.
     bindE (verify_proof_bundle depth P T C bundle (Some (cp_checkpoint_hash (bl_checkpoint_core b))) (Some n) {}) (\<lambda>checkpoint.
     bindE (checkpoint_matches_core checkpoint (bl_checkpoint_core b)) (\<lambda>_.
     if bl_token_id b \<noteq> cp_token_id checkpoint then Inl (ProtocolV3Error ''BillV3 token id mismatch'')
     else if gr_genesis_hash (bl_genesis_ref b) \<noteq> cp_genesis_hash checkpoint
     then Inl (ProtocolV3Error ''BillV3 genesis hash mismatch'')
     else verify_transfer_sequence_from_state P (bl_token_id b)
       (initial_state_from_checkpoint_core (bl_checkpoint_core b)) (bl_recent_transfers b) n now))))))"

definition cached_bill_state :: "platform \<Rightarrow> bill_source \<Rightarrow> int option \<Rightarrow> int option \<Rightarrow> bill_state res" where
  "cached_bill_state P source expected_network_id now =
     bindE (bill_of P source) (\<lambda>b.
     bindE (check_bill_header P b expected_network_id) (\<lambda>n.
     if bl_token_id b \<noteq> cp_token_id (bl_checkpoint_core b) then Inl (ProtocolV3Error ''BillV3 token id mismatch'')
     else if gr_genesis_hash (bl_genesis_ref b) \<noteq> cp_genesis_hash (bl_checkpoint_core b)
     then Inl (ProtocolV3Error ''BillV3 genesis hash mismatch'')
     else replay_transfer_sequence P (bl_token_id b)
       (initial_state_from_checkpoint_core (bl_checkpoint_core b)) (bl_recent_transfers b) n now False))"

definition token_state_from_v3_state :: "string \<Rightarrow> bill_state \<Rightarrow> token_state" where
  "token_state_from_v3_state token_id s =
     \<lparr>tk_token_id = token_id, tk_owner_address = st_owner_address s, tk_last_transfer_hash = st_last_transfer_hash s,
      tk_sequence = st_sequence s, tk_display_id = st_display_id s, tk_value = st_value s\<rparr>"

definition verify_bill ::
    "nat \<Rightarrow> platform \<Rightarrow> transparency \<Rightarrow> bundle_context \<Rightarrow> bill_source \<Rightarrow> proof_bundle option \<Rightarrow> int option \<Rightarrow> int option
      \<Rightarrow> token_state res" where
  "verify_bill depth P T C source given expected_network_id now =
     bindE (bill_of P source) (\<lambda>b.
     bindE (verify_bill_state depth P T C (Bill_Object b) given expected_network_id now) (\<lambda>s.
     Inr (token_state_from_v3_state (bl_token_id b) s)))"

section \<open>Making and transferring bills\<close>

definition create_bill_from_checkpoint_core ::
    "nat \<Rightarrow> platform \<Rightarrow> transparency \<Rightarrow> bundle_context \<Rightarrow> genesis_ref \<Rightarrow> checkpoint_core \<Rightarrow> proof_bundle
      \<Rightarrow> transfer list \<Rightarrow> int \<Rightarrow> bill res" where
  "create_bill_from_checkpoint_core depth P T C g core bundle recent_transfers network_id =
     bindE (validate_genesis_ref P g network_id) (\<lambda>_.
     bindE (validate_checkpoint_core P core network_id) (\<lambda>_.
     bindE (validate_checkpoint_genesis_display_id P g core ''CheckpointCoreV3 display id'') (\<lambda>_.
     if gr_genesis_hash g \<noteq> cp_genesis_hash core then Inl (ProtocolV3Error ''CheckpointCoreV3 genesis hash mismatch'')
     else bindE (verify_proof_bundle depth P T C bundle (Some (cp_checkpoint_hash core)) (Some network_id) {}) (\<lambda>proven.
     bindE (checkpoint_matches_core proven core) (\<lambda>_.
     bindE (proof_bundle_ref P bundle) (\<lambda>r.
     Inr \<lparr>bl_type = BILL_TYPE, bl_version = VERSION, bl_network_id = network_id, bl_token_id = cp_token_id core,
       bl_value = cp_value core, bl_genesis_ref = g, bl_checkpoint_core = core, bl_proof_bundle_ref = r,
       bl_recent_transfers = recent_transfers\<rparr>))))))"

definition append_transfer :: "bill \<Rightarrow> transfer \<Rightarrow> bill" where
  "append_transfer b t = b\<lparr>bl_recent_transfers := bl_recent_transfers b @ [t]\<rparr>"

definition create_transfer ::
    "nat \<Rightarrow> platform \<Rightarrow> transparency \<Rightarrow> bundle_context \<Rightarrow> bill_source \<Rightarrow> string \<Rightarrow> string \<Rightarrow> string
      \<Rightarrow> proof_bundle option \<Rightarrow> json option \<Rightarrow> int option \<Rightarrow> int option \<Rightarrow> bill res" where
  "create_transfer depth P T C source sender_private_key sender_public_key recipient_address given metadata timestamp
       expected_network_id =
     bindE (bill_of P source) (\<lambda>b.
     bindE (verify_bill_state depth P T C (Bill_Object b) given expected_network_id None) (\<lambda>s.
     bindE (create_transfer_from_state P (bl_token_id b) s sender_private_key sender_public_key recipient_address
       metadata timestamp (bl_network_id b) True) (\<lambda>t.
     bindE (verify_bill_state depth P T C (Bill_Object (append_transfer b t)) given expected_network_id None) (\<lambda>_.
     Inr (append_transfer b t)))))"

definition create_transfer_from_cached_bill ::
    "platform \<Rightarrow> bill_source \<Rightarrow> string \<Rightarrow> string \<Rightarrow> string \<Rightarrow> json option \<Rightarrow> int option \<Rightarrow> int option \<Rightarrow> bill_state option
      \<Rightarrow> (bill \<times> token_state) res" where
  "create_transfer_from_cached_bill P source sender_private_key sender_public_key recipient_address metadata timestamp
       expected_network_id cached_state =
     bindE (bill_of P source) (\<lambda>b.
     bindE (case cached_state of Some s \<Rightarrow> Inr s
       | None \<Rightarrow> cached_bill_state P (Bill_Object b) expected_network_id None) (\<lambda>s.
     bindE (create_transfer_from_state P (bl_token_id b) s sender_private_key sender_public_key recipient_address
       metadata timestamp (bl_network_id b) False) (\<lambda>t.
     bindE (replay_transfer_sequence P (bl_token_id b) s [t] (bl_network_id b) None False) (\<lambda>s'.
     Inr (append_transfer b t, token_state_from_v3_state (bl_token_id b) s')))))"

end
