(* ===== verification/BillLaws.thy ===== *)
theory BillLaws
  imports Bills
begin

text \<open>
  What bills guarantee: the codec; what the checks accept; that the core of a verified bill is the core that
  its bundle proves, so that the state of a verified bill has a whole history; that the state a node derives
  of a cached bill is the verified one; and that the owner of a verified bill can hand it on.
\<close>

section \<open>The codec\<close>

definition bill_shape :: "bill \<Rightarrow> bool" where
  "bill_shape b = (bl_type b = BILL_TYPE \<and> bl_version b = VERSION \<and> hash_text (bl_token_id b)
     \<and> genesis_ref_shape (bl_genesis_ref b) \<and> gr_network_id (bl_genesis_ref b) = bl_network_id b
     \<and> checkpoint_core_shape (bl_checkpoint_core b) \<and> cp_network_id (bl_checkpoint_core b) = bl_network_id b
     \<and> bundle_ref_shape (bl_proof_bundle_ref b) \<and> pr_network_id (bl_proof_bundle_ref b) = bl_network_id b
     \<and> (\<forall>t \<in> set (bl_recent_transfers b). transfer_shape True t \<and> tr_network_id t = bl_network_id b))"

lemma bill_reads:
  assumes "bill_shape b" and "bill_bytes P b = Inr bs"
  shows "reads (decode_bill_body P (bl_network_id b)) bs b"
proof -
  let ?n = "bl_network_id b"
  from assms(2) obtain b1 b2 b3 b4 b5 b6 b7 where bs: "bs = b1 @ b2 @ b3 @ b4 @ b5 @ b6 @ b7 @ []"
    and enc: "encode_hash_hex (bl_token_id b) = Inr b1" "encode_uvarint (bl_value b) = Inr b2"
      "encode_uvarint (int (length (bl_recent_transfers b))) = Inr b6"
    and g: "encode_genesis_ref_body P (bl_genesis_ref b) = Inr b3"
    and c: "encode_checkpoint_core_body P (bl_checkpoint_core b) True = Inr b4"
    and r: "encode_proof_bundle_ref_body (bl_proof_bundle_ref b) = Inr b5"
    and ts: "joinE (map (\<lambda>t. encode_transfer_body P t True) (bl_recent_transfers b)) = Inr b7"
    unfolding bill_bytes_def bill_transfer_bytes_def bill_head_bytes_def bindE_Inr_iff joinE_Cons_iff joinE_Nil_iff
    by (auto simp: joinE_Cons_iff bindE_Inr_iff)
  have g': "reads (decode_genesis_ref_body ?n) b3 (bl_genesis_ref b)"
    using genesis_ref_reads [of "bl_genesis_ref b" b3] g assms(1)
    by (auto simp: bill_shape_def encode_genesis_ref_body_def bindE_Inr_iff)
  have c': "reads (decode_checkpoint_core_body ?n) b4 (bl_checkpoint_core b)"
    using checkpoint_core_reads [of "bl_checkpoint_core b" b4] c assms(1)
    by (auto simp: bill_shape_def encode_checkpoint_core_body_def bindE_Inr_iff Let_def)
  have r': "reads (decode_proof_bundle_ref_body ?n) b5 (bl_proof_bundle_ref b)"
    using bundle_ref_reads [of "bl_proof_bundle_ref b" b5] r assms(1) by (auto simp: bill_shape_def)
  have t: "reads (decode_transfer_body P True ?n) x t"
    if "t \<in> set (bl_recent_transfers b)" "encode_transfer_body P t True = Inr x" for t x
    using transfer_reads [of True t x P] that assms(1) by (auto simp: bill_shape_def encode_transfer_body_Inr_iff)
  have ts': "reads (read_many (decode_transfer_body P True ?n) (nat (int (length (bl_recent_transfers b))))) b7 (bl_recent_transfers b)"
    using reads_many [OF ts t] by simp
  show ?thesis
    unfolding decode_bill_body_def bs
    by (intro codec_reads; (rule enc g' c' r' ts')?) (use assms(1) in \<open>simp_all add: bill_shape_def\<close>)
qed

interpretation bill_codec: envelope_codec
  BILL_MAGIC "''BillV3''" bl_network_id bill_shape "bill_bytes P" "decode_bill_body P"
  by unfold_locales (simp_all add: bill_reads BILL_MAGIC_def)

lemma encode_bill_Inr_iff: "encode_bill P b = Inr bs \<longleftrightarrow> 0 \<le> bl_network_id b \<and> bl_type b = BILL_TYPE \<and> bl_version b = VERSION
    \<and> bindE (bill_bytes P b) (encode_envelope BILL_MAGIC (bl_network_id b)) = Inr bs"
  unfolding encode_bill_def by (auto simp: bindE_Inr_iff require_int_Inr_iff)

lemma decode_encode_bill:
  assumes "bill_shape b" and "encode_bill P b = Inr bs"
  shows "decode_bill P bs = Inr b"
  using bill_codec.decode_encode [OF assms(1)] assms(2) by (simp add: decode_bill_def encode_bill_Inr_iff)

section \<open>What the checks accept\<close>

definition bill_ok :: "platform \<Rightarrow> bill \<Rightarrow> bool" where
  "bill_ok P b = (bl_type b = BILL_TYPE \<and> bl_version b = VERSION \<and> 0 \<le> bl_network_id b
     \<and> validate_genesis_ref P (bl_genesis_ref b) (bl_network_id b) = Inr ()
     \<and> checkpoint_ok P (bl_checkpoint_core b) \<and> cp_network_id (bl_checkpoint_core b) = bl_network_id b
     \<and> valid_bill (bl_value b) (gr_issue_index (bl_genesis_ref b)) \<and> cp_value (bl_checkpoint_core b) = bl_value b
     \<and> cp_display_id (bl_checkpoint_core b) = display_text (bl_value b) (gr_issue_index (bl_genesis_ref b)))"

lemma require_bill_value_valid: "valid_bill v i \<Longrightarrow> require_bill_value v l = Inr w \<longleftrightarrow> w = v"
  by (auto simp: res_simps valid_bill_def)

lemma check_bill_value_Inr_iff: "check_bill_value P b = Inr p \<longleftrightarrow> p = (bl_value b, gr_issue_index (bl_genesis_ref b))
    \<and> valid_bill (bl_value b) (gr_issue_index (bl_genesis_ref b)) \<and> cp_value (bl_checkpoint_core b) = bl_value b
    \<and> cp_display_id (bl_checkpoint_core b) = display_text (bl_value b) (gr_issue_index (bl_genesis_ref b))"
  unfolding check_bill_value_def bindE_Inr_iff if_Inl_Inr_iff validate_display_id_issue_index_Inr_iff
  by (auto simp: res_simps valid_bill_def)

lemma check_bill_header_Inr_iff: "check_bill_header P b expected = Inr n \<longleftrightarrow>
    bill_ok P b \<and> n = bl_network_id b \<and> (\<forall>e. expected = Some e \<longrightarrow> n = e)"
proof -
  have "(case expected of None \<Rightarrow> False | Some e \<Rightarrow> m \<noteq> e) \<longleftrightarrow> \<not> (\<forall>e. expected = Some e \<longrightarrow> m = e)" for m
    by (cases expected) auto
  then show ?thesis
    unfolding check_bill_header_def bindE_Inr_iff if_Inl_Inr_iff require_int_Inr_iff check_bill_value_Inr_iff
      validate_checkpoint_core_Inr_iff bill_ok_def by auto
qed

lemma checkpoint_matches_Inr_iff: "checkpoint_matches_core expected core = Inr () \<longleftrightarrow> cp_type expected = CHECKPOINT_CORE_TYPE
    \<and> core\<lparr>cp_type := cp_type expected, cp_version := cp_version expected, cp_network_id := cp_network_id expected\<rparr> = expected"
  by (auto simp: checkpoint_matches_core_def)

lemma proven_core_tags:
  assumes "verify_proof_bundle d P T C bundle expected (Some n) seen = Inr core"
  shows "cp_type core = CHECKPOINT_CORE_TYPE" and "cp_version core = VERSION" and "cp_network_id core = n"
proof -
  from assms have "pb_network_id bundle = n" by (cases d) (auto simp: verify_bundle_Suc simp del: verify_proof_bundle.simps(2))
  with verified_bundle_source(1) [OF assms] obtain d' s where
    "verify_archive_segment d' P s (Some n) None \<lparr>rs_segment = ctx_segments C, rs_checkpoint = None\<rparr> None = Inr core" by auto
  note v = verify_archive_core [OF this]
  from v(1) obtain final where
    "checkpoint_core_from_state P (ar_token_id s) (gr_genesis_hash (ar_genesis_ref s)) final (ar_previous_checkpoint_hash s)
       (ar_network_id s) = Inr core" unfolding segment_ok_def by blast
  from checkpoint_from_state_fields [OF this] v(2)
  show "cp_type core = CHECKPOINT_CORE_TYPE" "cp_version core = VERSION" "cp_network_id core = n" by simp_all
qed

text \<open>The proven core and the bill's core agree on every field, the tags included.\<close>

lemma matching_core_eq:
  assumes "verify_proof_bundle d P T C bundle expected (Some n) seen = Inr proven"
    and "checkpoint_matches_core proven core = Inr ()" and "checkpoint_ok P core" and "cp_network_id core = n"
  shows "proven = core"
  using assms(2-4) proven_core_tags [OF assms(1)]
  by (cases proven; cases core) (auto simp: checkpoint_matches_Inr_iff checkpoint_ok_def)

lemma verify_bill_state_Inr_iff:
  "verify_bill_state d P T C source given expected now = Inr s \<longleftrightarrow>
     (\<exists>b bundle. bill_of P source = Inr b \<and> bill_ok P b \<and> (\<forall>e. expected = Some e \<longrightarrow> bl_network_id b = e)
        \<and> bill_bundle C b given = Inr bundle
        \<and> verify_proof_bundle_ref P (bl_proof_bundle_ref b) bundle (Some (bl_network_id b)) = Inr ()
        \<and> verify_proof_bundle d P T C bundle (Some (cp_checkpoint_hash (bl_checkpoint_core b))) (Some (bl_network_id b)) {}
            = Inr (bl_checkpoint_core b)
        \<and> bl_token_id b = cp_token_id (bl_checkpoint_core b)
        \<and> gr_genesis_hash (bl_genesis_ref b) = cp_genesis_hash (bl_checkpoint_core b)
        \<and> replay_transfer_sequence P (bl_token_id b) (initial_state_from_checkpoint_core (bl_checkpoint_core b))
            (bl_recent_transfers b) (bl_network_id b) now True = Inr s)" (is "?l \<longleftrightarrow> ?r")
proof
  assume ?l
  then obtain b pb core where *: "bill_of P source = Inr b" "bill_ok P b" "\<forall>e. expected = Some e \<longrightarrow> bl_network_id b = e"
      "bill_bundle C b given = Inr pb"
      "verify_proof_bundle_ref P (bl_proof_bundle_ref b) pb (Some (bl_network_id b)) = Inr ()"
      "verify_proof_bundle d P T C pb (Some (cp_checkpoint_hash (bl_checkpoint_core b))) (Some (bl_network_id b)) {} = Inr core"
      "checkpoint_matches_core core (bl_checkpoint_core b) = Inr ()"
      "bl_token_id b = cp_token_id core" "gr_genesis_hash (bl_genesis_ref b) = cp_genesis_hash core"
      "replay_transfer_sequence P (bl_token_id b) (initial_state_from_checkpoint_core (bl_checkpoint_core b))
            (bl_recent_transfers b) (bl_network_id b) now True = Inr s"
    unfolding verify_bill_state_def verify_transfer_sequence_from_state_def bindE_Inr_iff if_Inl_Inr_iff check_bill_header_Inr_iff
    by auto
  have "core = bl_checkpoint_core b"
    by (rule matching_core_eq [OF *(6,7)]) (use *(2) in \<open>simp_all add: bill_ok_def\<close>)
  with * show ?r by blast
next
  assume ?r
  then obtain b pb where *: "bill_of P source = Inr b" "bill_ok P b" "\<forall>e. expected = Some e \<longrightarrow> bl_network_id b = e"
      "bill_bundle C b given = Inr pb"
      "verify_proof_bundle_ref P (bl_proof_bundle_ref b) pb (Some (bl_network_id b)) = Inr ()"
      "verify_proof_bundle d P T C pb (Some (cp_checkpoint_hash (bl_checkpoint_core b))) (Some (bl_network_id b)) {}
            = Inr (bl_checkpoint_core b)"
      "bl_token_id b = cp_token_id (bl_checkpoint_core b)"
      "gr_genesis_hash (bl_genesis_ref b) = cp_genesis_hash (bl_checkpoint_core b)"
      "replay_transfer_sequence P (bl_token_id b) (initial_state_from_checkpoint_core (bl_checkpoint_core b))
            (bl_recent_transfers b) (bl_network_id b) now True = Inr s" by blast
  have "checkpoint_matches_core (bl_checkpoint_core b) (bl_checkpoint_core b) = Inr ()"
    using *(2) by (simp add: checkpoint_matches_Inr_iff bill_ok_def checkpoint_ok_def)
  moreover have "check_bill_header P b expected = Inr (bl_network_id b)" using *(2,3) by (simp add: check_bill_header_Inr_iff)
  ultimately show ?l
    using * by (simp add: verify_bill_state_def verify_transfer_sequence_from_state_def)
qed

lemma verify_bill_Inr_iff: "verify_bill d P T C source given expected now = Inr tk \<longleftrightarrow>
    (\<exists>b s. bill_of P source = Inr b \<and> verify_bill_state d P T C (Bill_Object b) given expected now = Inr s
      \<and> tk = token_state_from_v3_state (bl_token_id b) s)"
  by (auto simp: verify_bill_def bindE_Inr_iff)

lemma cached_bill_state_Inr_iff: "cached_bill_state P source expected now = Inr s \<longleftrightarrow>
    (\<exists>b. bill_of P source = Inr b \<and> bill_ok P b \<and> (\<forall>e. expected = Some e \<longrightarrow> bl_network_id b = e)
      \<and> bl_token_id b = cp_token_id (bl_checkpoint_core b)
      \<and> gr_genesis_hash (bl_genesis_ref b) = cp_genesis_hash (bl_checkpoint_core b)
      \<and> replay_transfer_sequence P (bl_token_id b) (initial_state_from_checkpoint_core (bl_checkpoint_core b))
            (bl_recent_transfers b) (bl_network_id b) now False = Inr s)"
  unfolding cached_bill_state_def bindE_Inr_iff if_Inl_Inr_iff check_bill_header_Inr_iff by auto


section \<open>The history of a verified bill\<close>

text \<open>
  The archived blocks behind the bundle, then the recent transfers: one replay from a genesis base state to
  the state that the bill proves.
\<close>

lemma verified_bill_history:
  assumes "verify_bill_state d P T C source given expected now = Inr s"
  shows "\<exists>b g base blocks mid. bill_of P source = Inr b \<and> validate_genesis_ref P g (bl_network_id b) = Inr ()
    \<and> genesis_base base (gr_genesis_hash g) \<and> replay_blocks P (bl_network_id b) None base blocks = Inr mid
    \<and> replay_transfer_sequence P (bl_token_id b) mid (bl_recent_transfers b) (bl_network_id b) now True = Inr s
    \<and> st_value base = bl_value b \<and> st_value s = bl_value b
    \<and> st_display_id base = display_text (bl_value b) (gr_issue_index (bl_genesis_ref b)) \<and> st_display_id s = st_display_id base
    \<and> st_sequence s = int (sum_list (map (\<lambda>(_, ts). length ts) blocks) + length (bl_recent_transfers b))"
proof -
  from assms obtain b pb where b: "bill_of P source = Inr b" "bill_ok P b"
      "verify_proof_bundle d P T C pb (Some (cp_checkpoint_hash (bl_checkpoint_core b))) (Some (bl_network_id b)) {}
            = Inr (bl_checkpoint_core b)"
      "replay_transfer_sequence P (bl_token_id b) (initial_state_from_checkpoint_core (bl_checkpoint_core b))
            (bl_recent_transfers b) (bl_network_id b) now True = Inr s"
    unfolding verify_bill_state_Inr_iff by blast
  let ?mid = "initial_state_from_checkpoint_core (bl_checkpoint_core b)"
  have n: "pb_network_id pb = bl_network_id b"
    using b(3) by (cases d) (auto simp: verify_bundle_Suc simp del: verify_proof_bundle.simps(2))
  with verified_bundle_source(1) [OF b(3)] obtain d' seg where
    "verify_archive_segment d' P seg (Some (bl_network_id b)) None \<lparr>rs_segment = ctx_segments C, rs_checkpoint = None\<rparr> None
      = Inr (bl_checkpoint_core b)" by auto
  from verified_history [OF this] obtain segs where segs: "segment_line P (bl_network_id b) segs" and
    h: "replay_blocks P (bl_network_id b) None (ar_base_state (hd segs)) (segment_blocks segs) = Inr ?mid" by auto
  have c: "chain P (bl_token_id b) (bl_network_id b) now True ?mid (bl_recent_transfers b) s"
    using b(4) by (simp add: replay_iff_chain)
  have "st_value ?mid = bl_value b" "st_display_id ?mid = display_text (bl_value b) (gr_issue_index (bl_genesis_ref b))"
    using b(2) by (simp_all add: bill_ok_def initial_state_from_checkpoint_core_def)
  note g = line_genesis [OF segs] and r = replay_blocks_values [OF h] and e = chain_values [OF c]
  let ?base = "ar_base_state (hd segs)"
  have "st_sequence ?base = 0" using g by (simp add: genesis_base_def)
  with r e have "st_sequence s = int (sum_list (map (\<lambda>(_, ts). length ts) (segment_blocks segs)) + length (bl_recent_transfers b))"
    by simp
  moreover have "st_value ?base = bl_value b \<and> st_value s = bl_value b
      \<and> st_display_id ?base = display_text (bl_value b) (gr_issue_index (bl_genesis_ref b)) \<and> st_display_id s = st_display_id ?base"
    using r e \<open>st_value ?mid = bl_value b\<close> \<open>st_display_id ?mid = _\<close> by metis
  ultimately show ?thesis using b(1,4) g h by blast
qed

section \<open>Cached bills\<close>

lemma chain_unverified: "chain P tok n now True s ts s' \<Longrightarrow> chain P tok n now False s ts s'"
  by (induction rule: chain.induct) (auto simp: chain_Cons_iff link_def authorised_def)

lemma verified_state_is_cached:
  assumes "verify_bill_state d P T C source given expected now = Inr s"
  shows "cached_bill_state P source expected now = Inr s"
  using assms unfolding verify_bill_state_Inr_iff cached_bill_state_Inr_iff
  by (auto simp: replay_iff_chain intro: chain_unverified)

section \<open>Transferring a bill\<close>

lemma append_transfer_fields [simp]:
  "bl_network_id (append_transfer b t) = bl_network_id b" "bl_token_id (append_transfer b t) = bl_token_id b"
  "bl_value (append_transfer b t) = bl_value b" "bl_genesis_ref (append_transfer b t) = bl_genesis_ref b"
  "bl_checkpoint_core (append_transfer b t) = bl_checkpoint_core b"
  "bl_proof_bundle_ref (append_transfer b t) = bl_proof_bundle_ref b"
  "bl_recent_transfers (append_transfer b t) = bl_recent_transfers b @ [t]"
  "bill_ok P (append_transfer b t) = bill_ok P b"
  by (simp_all add: append_transfer_def bill_ok_def)

lemma append_transfer_bundle [simp]: "bill_bundle C (append_transfer b t) given = bill_bundle C b given"
  by (simp only: bill_bundle_def append_transfer_fields)

text \<open>A bill with one more transfer verifies when that transfer replays on its state.\<close>

lemma append_verifies:
  assumes "hash_ok P" and "verify_bill_state d P T C source given expected now = Inr s" and "bill_of P source = Inr b"
    and "replay_transfer_sequence P (bl_token_id b) s [t] (bl_network_id b) now True = Inr s'"
  shows "verify_bill_state d P T C (Bill_Object (append_transfer b t)) given expected now = Inr s'"
proof -
  note v = assms(2) [unfolded verify_bill_state_Inr_iff assms(3)]
  then have "replay_transfer_sequence P (bl_token_id b) (initial_state_from_checkpoint_core (bl_checkpoint_core b))
      (bl_recent_transfers b @ [t]) (bl_network_id b) now True = Inr s'"
    using assms(4) by (auto simp: replay_append [OF assms(1)])
  with v show ?thesis unfolding verify_bill_state_Inr_iff by auto
qed

lemma verified_state_ok:
  assumes "hash_ok P" and "verify_bill_state d P T C source given expected now = Inr s"
  shows "state_ok P s" and "bill_of P source = Inr b \<Longrightarrow> 0 \<le> bl_network_id b"
  using assms chain_state_ok unfolding verify_bill_state_Inr_iff bill_ok_def replay_iff_chain by auto

lemma create_transfer_Inr:
  assumes "hash_ok P" and "verify_bill_state d P T C source given expected None = Inr s" and b: "bill_of P source = Inr b"
    and t: "create_transfer_from_state P (bl_token_id b) s sk pk r m ts (bl_network_id b) True = Inr t"
    and day: "timestamp_day (tr_timestamp t) = st_last_transfer_day s \<Longrightarrow>
      st_transfers_in_last_day s < MAX_TRANSFERS_PER_BILL_PER_DAY"
  shows "\<exists>s'. create_transfer d P T C source sk pk r given m ts expected = Inr (append_transfer b t)
    \<and> verify_bill_state d P T C (Bill_Object (append_transfer b t)) given expected None = Inr s'
    \<and> st_owner_address s' = r \<and> st_value s' = st_value s \<and> st_display_id s' = st_display_id s
    \<and> st_sequence s' = st_sequence s + 1"
proof -
  from create_transfer_replays [OF t day] obtain s' where
    s': "replay_transfer_sequence P (bl_token_id b) s [t] (bl_network_id b) None True = Inr s'" "st_owner_address s' = r" by blast
  note new = append_verifies [OF assms(1,2) b s'(1)]
  have "verify_bill_state d P T C (Bill_Object b) given expected None = Inr s"
    using assms(2) b by (simp add: verify_bill_state_def)
  then have "create_transfer d P T C source sk pk r given m ts expected = Inr (append_transfer b t)"
    by (simp add: create_transfer_def b t new)
  moreover have "chain P (bl_token_id b) (bl_network_id b) None True s [t] s'" using s'(1) by (simp add: replay_iff_chain)
  ultimately show ?thesis using new s'(2) chain_values by fastforce
qed

lemma owner_transfers_bill:
  assumes "hash_ok P" and "ed_ok P" and v: "verify_bill_state d P T C source given expected None = Inr s"
    and b: "bill_of P source = Inr b" and "length seed = 32"
    and "address_from_public_key P (PkBytes (pf_ed_public P seed)) = Inr (st_owner_address s)"
    and "hex64 (bl_token_id b)" "valid_address P r" "metadata_ok (metadata_or_empty m)" "bl_network_id b \<le> MAX_UVARINT"
    and "st_sequence s < MAX_UVARINT"
    and "st_last_transfer_timestamp s < pf_clock P + MAX_TRANSFER_FUTURE_SKEW_SECONDS"
    and "st_last_transfer_timestamp s < MAX_UVARINT"
    and day: "timestamp_day (max (pf_clock P) (st_last_transfer_timestamp s + 1)) = st_last_transfer_day s \<Longrightarrow>
      st_transfers_in_last_day s < MAX_TRANSFERS_PER_BILL_PER_DAY"
  shows "\<exists>b' s'. create_transfer d P T C source (private_key_text seed) (public_key_text (pf_ed_public P seed)) r given m None expected
        = Inr b'
    \<and> verify_bill_state d P T C (Bill_Object b') given expected None = Inr s'
    \<and> st_owner_address s' = r \<and> st_value s' = st_value s \<and> st_display_id s' = st_display_id s
    \<and> st_sequence s' = st_sequence s + 1"
proof -
  note ok = verified_state_ok [OF assms(1) v]
  have clock: "is_ok (current_time P None)" using v by (auto simp: verify_bill_state_Inr_iff replay_iff_chain)
  from create_transfer_progress [OF assms(2) ok(1) assms(5-9) ok(2) [OF b] assms(10,11) clock assms(12,13)]
  obtain t where t: "create_transfer_from_state P (bl_token_id b) s (private_key_text seed)
      (public_key_text (pf_ed_public P seed)) r m None (bl_network_id b) True = Inr t" by blast
  have "start_time P None = Inr (pf_clock P)" using clock by (auto simp: start_time_def is_ok_iff current_time_Inr_iff)
  from create_transfer_fields(8) [OF t this] day
  have "timestamp_day (tr_timestamp t) = st_last_transfer_day s \<Longrightarrow> st_transfers_in_last_day s < MAX_TRANSFERS_PER_BILL_PER_DAY"
    by simp
  from create_transfer_Inr [OF assms(1) v b t this] show ?thesis by blast
qed

text \<open>The transfer of a cached bill, from the same state, is accepted where the verified one is.\<close>

lemma cached_transfer_Inr_iff:
  "create_transfer_from_cached_bill P source sk pk r m ts expected cached = Inr (b', tk) \<longleftrightarrow>
     (\<exists>b s t s'. bill_of P source = Inr b
        \<and> (case cached of Some c \<Rightarrow> s = c | None \<Rightarrow> cached_bill_state P (Bill_Object b) expected None = Inr s)
        \<and> create_transfer_from_state P (bl_token_id b) s sk pk r m ts (bl_network_id b) False = Inr t
        \<and> replay_transfer_sequence P (bl_token_id b) s [t] (bl_network_id b) None False = Inr s'
        \<and> b' = append_transfer b t \<and> tk = token_state_from_v3_state (bl_token_id b) s')"
  unfolding create_transfer_from_cached_bill_def bindE_Inr_iff by (cases cached) auto

section \<open>Made bills verify\<close>

lemma verified_bundle_root:
  assumes "verify_proof_bundle d P T C b expected net seen = Inr core"
  shows "pb_algorithm b = PROOF_BUNDLE_ALGORITHM" and "0 \<le> pb_network_id b"
    and "jget (pb_signed_root b) ''log_id'' = Some (JStr (pb_log_id b))"
    and "\<exists>k. jget (pb_signed_root b) ''tree_size'' = Some (JInt k) \<and> 0 \<le> k"
proof -
  from assms obtain k where d: "d = Suc k" by (cases d) simp_all
  note v = assms [unfolded d verify_bundle_Suc]
  from v show "pb_algorithm b = PROOF_BUNDLE_ALGORITHM" "0 \<le> pb_network_id b"
    "jget (pb_signed_root b) ''log_id'' = Some (JStr (pb_log_id b))" by blast+
  from v obtain key where "verify_signed_root P T (pb_signed_root b) key = Inr ()" unfolding spend_proof_Inr_iff by blast
  then have "root_fields T (pb_signed_root b)" by (simp add: verify_signed_root_Inr_iff)
  then show "\<exists>k. jget (pb_signed_root b) ''tree_size'' = Some (JInt k) \<and> 0 \<le> k" unfolding root_fields_def by auto
qed

lemma made_bill_verifies:
  assumes "create_bill_from_checkpoint_core d P T C g core pb ts n = Inr b"
    and "replay_transfer_sequence P (cp_token_id core) (initial_state_from_checkpoint_core core) ts n now True = Inr s"
  shows "verify_bill_state d P T C (Bill_Object b) (Some pb) (Some n) now = Inr s"
proof -
  from assms(1) obtain proven r where *: "validate_genesis_ref P g n = Inr ()" "checkpoint_ok P core" "n = cp_network_id core"
      "valid_bill (cp_value core) (gr_issue_index g)" "cp_display_id core = display_text (cp_value core) (gr_issue_index g)"
      "gr_genesis_hash g = cp_genesis_hash core"
      "verify_proof_bundle d P T C pb (Some (cp_checkpoint_hash core)) (Some n) {} = Inr proven"
      "checkpoint_matches_core proven core = Inr ()" "proof_bundle_ref P pb = Inr r"
    and b: "b = \<lparr>bl_type = BILL_TYPE, bl_version = VERSION, bl_network_id = n, bl_token_id = cp_token_id core,
       bl_value = cp_value core, bl_genesis_ref = g, bl_checkpoint_core = core, bl_proof_bundle_ref = r,
       bl_recent_transfers = ts\<rparr>"
    unfolding create_bill_from_checkpoint_core_def validate_checkpoint_genesis_display_id_def bindE_Inr_iff if_Inl_Inr_iff
      validate_display_id_issue_index_Inr_iff validate_checkpoint_core_Inr_iff require_bill_value_Inr_iff sum.inject
    by auto
  have core: "proven = core" by (rule matching_core_eq [OF *(7,8,2) *(3) [symmetric]])
  have n: "pb_network_id pb = n" using *(7) by (cases d) (auto simp: verify_bundle_Suc simp del: verify_proof_bundle.simps(2))
  note root = verified_bundle_root [OF *(7)]
  from root(4) obtain k where k: "jget (pb_signed_root pb) ''tree_size'' = Some (JInt k)" "0 \<le> k" by blast
  from made_reference_verifies [OF *(9) root(1-3) k] have "verify_proof_bundle_ref P r pb (Some n) = Inr ()" by (simp add: n)
  with * assms(2) core root(2) n show ?thesis
    unfolding verify_bill_state_Inr_iff by (simp add: b bill_ok_def bill_bundle_def)
qed

end
