(* ===== verification/ConflictProof.thy ===== *)
theory ConflictProof
  imports BillLaws PolicyViolation
begin

text \<open>
  Conflict proofs (\<open>src/ind/protocol_v3.py\<close>): two signed transfers of one state of a bill, in a canonical order, with
  the fields they share and a self-hash. A proof arrives as a dict or as its text; once its fields have the types
  that the checks ask for it is a record.
\<close>

definition CONFLICT_PROOF_TYPE :: string where "CONFLICT_PROOF_TYPE = ''ind.conflict_proof.v3''"
definition CONFLICT_PROOF_MAGIC :: bytes where "CONFLICT_PROOF_MAGIC = utf8 ''IND3CFLP''"

definition CONFLICT_PROOF_FIELDS :: "string list" where
  "CONFLICT_PROOF_FIELDS = [''type'', ''version'', ''network_id'', ''token_id'', ''previous_hash'', ''sequence'',
     ''sender_address'', ''spend_key'', ''transfer_hash_a'', ''transfer_hash_b'', ''transfer_a'', ''transfer_b'',
     ''detected_at'', ''proof_hash'']"

record conflict_proof =
  cf_type :: string
  cf_version :: int
  cf_network_id :: int
  cf_token_id :: string
  cf_previous_hash :: string
  cf_sequence :: int
  cf_sender_address :: string
  cf_spend_key :: string
  cf_transfer_hash_a :: string
  cf_transfer_hash_b :: string
  cf_transfer_a :: transfer
  cf_transfer_b :: transfer
  cf_detected_at :: int
  cf_proof_hash :: string

text \<open>\<open>_require_exact_fields\<close> of this module: a dict with these keys and no others.\<close>

definition require_exact_fields :: "json \<Rightarrow> string list \<Rightarrow> string \<Rightarrow> unit res" where
  "require_exact_fields data required label =
     ensure (is_dict data \<and> set (dict_keys data) = set required) (ProtocolV3Error (''malformed '' @ label))"

definition conflict_of_json :: "json \<Rightarrow> conflict_proof res" where
  "conflict_of_json j =
     bindE (require_exact_fields j CONFLICT_PROOF_FIELDS ''ConflictProofV3'') (\<lambda>_.
     bindE (str_at j ''type'') (\<lambda>ty. bindE (int_at j ''version'') (\<lambda>v. bindE (int_at j ''network_id'') (\<lambda>n.
     bindE (str_at j ''token_id'') (\<lambda>ti. bindE (str_at j ''previous_hash'') (\<lambda>ph. bindE (int_at j ''sequence'') (\<lambda>sq.
     bindE (str_at j ''sender_address'') (\<lambda>sa. bindE (str_at j ''spend_key'') (\<lambda>k.
     bindE (str_at j ''transfer_hash_a'') (\<lambda>ha. bindE (str_at j ''transfer_hash_b'') (\<lambda>hb.
     bindE (bindE (jat j ''transfer_a'') transfer_of_json) (\<lambda>a. bindE (bindE (jat j ''transfer_b'') transfer_of_json) (\<lambda>b.
     bindE (int_at j ''detected_at'') (\<lambda>d. bindE (str_at j ''proof_hash'') (\<lambda>h.
     Inr \<lparr>cf_type = ty, cf_version = v, cf_network_id = n, cf_token_id = ti, cf_previous_hash = ph, cf_sequence = sq,
       cf_sender_address = sa, cf_spend_key = k, cf_transfer_hash_a = ha, cf_transfer_hash_b = hb, cf_transfer_a = a,
       cf_transfer_b = b, cf_detected_at = d, cf_proof_hash = h\<rparr>)))))))))))))))"

definition conflict_json :: "conflict_proof \<Rightarrow> json" where
  "conflict_json p = JDict
     [(''type'', JStr (cf_type p)), (''version'', JInt (cf_version p)), (''network_id'', JInt (cf_network_id p)),
      (''token_id'', JStr (cf_token_id p)), (''previous_hash'', JStr (cf_previous_hash p)),
      (''sequence'', JInt (cf_sequence p)), (''sender_address'', JStr (cf_sender_address p)),
      (''spend_key'', JStr (cf_spend_key p)), (''transfer_hash_a'', JStr (cf_transfer_hash_a p)),
      (''transfer_hash_b'', JStr (cf_transfer_hash_b p)), (''transfer_a'', transfer_json (cf_transfer_a p)),
      (''transfer_b'', transfer_json (cf_transfer_b p)), (''detected_at'', JInt (cf_detected_at p)),
      (''proof_hash'', JStr (cf_proof_hash p))]"

fun conflict_of :: "platform \<Rightarrow> wire_input \<Rightarrow> conflict_proof res" where
  "conflict_of P (WDict j) = conflict_of_json j"
| "conflict_of P (WText t) = bindE (load_json P (WText t)) conflict_of_json"
| "conflict_of P (WBytes b) = Inl (ProtocolV3Error ''malformed ConflictProofV3'')"

section \<open>Encoding and hash\<close>

definition conflict_bytes :: "platform \<Rightarrow> conflict_proof \<Rightarrow> bytes res" where
  "conflict_bytes P p = joinE
     [encode_hash_hex (cf_token_id p), encode_hash_hex (cf_previous_hash p), encode_uvarint (cf_sequence p),
      encode_ascii 128 (cf_sender_address p), encode_hash_hex (cf_spend_key p), encode_hash_hex (cf_transfer_hash_a p),
      encode_hash_hex (cf_transfer_hash_b p), encode_transfer_body P (cf_transfer_a p) True,
      encode_transfer_body P (cf_transfer_b p) True, encode_uvarint (cf_detected_at p), encode_hash_hex (cf_proof_hash p)]"

definition encode_conflict_proof_body :: "platform \<Rightarrow> conflict_proof \<Rightarrow> bool \<Rightarrow> bytes res" where
  "encode_conflict_proof_body P proof include_hash =
     bindE (require_int (cf_network_id proof) ''ConflictProofV3 network id'' 0) (\<lambda>_.
     let p = (if include_hash then proof else proof\<lparr>cf_proof_hash := zero_hash\<rparr>) in
     bindE (hex32 (cf_proof_hash p) ''ConflictProofV3 proof hash'') (\<lambda>_. conflict_bytes P p))"

definition decode_conflict_proof_body :: "platform \<Rightarrow> int \<Rightarrow> conflict_proof parser" where
  "decode_conflict_proof_body P network_id =
     rbind (read_hash_hex ''ConflictProofV3 token id'') (\<lambda>ti.
     rbind (read_hash_hex ''ConflictProofV3 previous hash'') (\<lambda>ph.
     rbind (read_uvarint ''ConflictProofV3 sequence'') (\<lambda>sq.
     rbind (read_ascii ''ConflictProofV3 sender address'' 128) (\<lambda>sa.
     rbind (read_hash_hex ''ConflictProofV3 spend key'') (\<lambda>k.
     rbind (read_hash_hex ''ConflictProofV3 transfer hash a'') (\<lambda>ha.
     rbind (read_hash_hex ''ConflictProofV3 transfer hash b'') (\<lambda>hb.
     rbind (decode_transfer_body P True network_id) (\<lambda>a.
     rbind (decode_transfer_body P True network_id) (\<lambda>b.
     rbind (read_uvarint ''ConflictProofV3 detected_at'') (\<lambda>d.
     rbind (read_hash_hex ''ConflictProofV3 proof hash'') (\<lambda>h.
     rreturn \<lparr>cf_type = CONFLICT_PROOF_TYPE, cf_version = VERSION, cf_network_id = network_id, cf_token_id = ti,
       cf_previous_hash = ph, cf_sequence = sq, cf_sender_address = sa, cf_spend_key = k, cf_transfer_hash_a = ha,
       cf_transfer_hash_b = hb, cf_transfer_a = a, cf_transfer_b = b, cf_detected_at = d, cf_proof_hash = h\<rparr>)))))))))))"

definition encode_conflict_proof :: "platform \<Rightarrow> conflict_proof \<Rightarrow> bool \<Rightarrow> bytes res" where
  "encode_conflict_proof P proof include_hash =
     bindE (require_int (cf_network_id proof) ''ConflictProofV3 network id'' 0) (\<lambda>n.
     bindE (encode_conflict_proof_body P proof include_hash) (encode_envelope CONFLICT_PROOF_MAGIC n))"

definition decode_conflict_proof :: "platform \<Rightarrow> bytes \<Rightarrow> conflict_proof res" where
  "decode_conflict_proof P data = decode_envelope data CONFLICT_PROOF_MAGIC ''ConflictProofV3'' (decode_conflict_proof_body P)"

definition conflict_proof_hash :: "platform \<Rightarrow> conflict_proof \<Rightarrow> string res" where
  "conflict_proof_hash P proof =
     bindE (encode_conflict_proof P proof False) (\<lambda>b.
     bindE (object_hash P CONFLICT_PROOF_TYPE b) (\<lambda>h. Inr (hex_text h)))"

section \<open>Making a proof\<close>

definition sorted_conflicting_transfers ::
    "platform \<Rightarrow> transfer \<Rightarrow> transfer \<Rightarrow> int \<Rightarrow> (transfer \<times> transfer \<times> string \<times> string) res" where
  "sorted_conflicting_transfers P a b network_id =
     bindE (validate_transfer_shape P a network_id True None) (\<lambda>_.
     bindE (validate_transfer_shape P b network_id True None) (\<lambda>_.
     bindE (verify_transfer_signature P a) (\<lambda>_.
     bindE (verify_transfer_signature P b) (\<lambda>_.
     if tr_token_id a \<noteq> tr_token_id b then Inl (ProtocolV3Error ''ConflictProofV3 transfers reference different bills'')
     else if tr_sequence a \<noteq> tr_sequence b
     then Inl (ProtocolV3Error ''ConflictProofV3 transfers do not share a sequence'')
     else if tr_previous_hash a \<noteq> tr_previous_hash b
     then Inl (ProtocolV3Error ''ConflictProofV3 transfers do not share a previous hash'')
     else if tr_sender_address a \<noteq> tr_sender_address b
     then Inl (ProtocolV3Error ''ConflictProofV3 transfers do not share a sender'')
     else bindE (spend_key_for_transfer P a) (\<lambda>ka. bindE (spend_key_for_transfer P b) (\<lambda>kb.
     if ka \<noteq> kb then Inl (ProtocolV3Error ''ConflictProofV3 transfers do not share a spend key'')
     else bindE (transfer_hash P a) (\<lambda>ha. bindE (transfer_hash P b) (\<lambda>hb.
     if ha = hb then Inl (ProtocolV3Error ''ConflictProofV3 requires two different transfers'')
     else if hb < ha then Inr (b, a, hb, ha) else Inr (a, b, ha, hb)))))))))"

definition unhashed_conflict_proof ::
    "int \<Rightarrow> transfer \<Rightarrow> transfer \<Rightarrow> string \<Rightarrow> string \<Rightarrow> string \<Rightarrow> int \<Rightarrow> conflict_proof" where
  "unhashed_conflict_proof n a b ha hb k at =
     \<lparr>cf_type = CONFLICT_PROOF_TYPE, cf_version = VERSION, cf_network_id = n, cf_token_id = tr_token_id a,
      cf_previous_hash = tr_previous_hash a, cf_sequence = tr_sequence a, cf_sender_address = tr_sender_address a,
      cf_spend_key = k, cf_transfer_hash_a = ha, cf_transfer_hash_b = hb, cf_transfer_a = a, cf_transfer_b = b,
      cf_detected_at = at, cf_proof_hash = []\<rparr>"

definition create_conflict_proof_from_transfers ::
    "platform \<Rightarrow> transfer \<Rightarrow> transfer \<Rightarrow> int option \<Rightarrow> int option \<Rightarrow> conflict_proof res" where
  "create_conflict_proof_from_transfers P transfer_a transfer_b detected_at expected_network_id =
     bindE (require_int (tr_network_id transfer_a) ''ConflictProofV3 network id'' 0) (\<lambda>n.
     if (case expected_network_id of None \<Rightarrow> False | Some e \<Rightarrow> n \<noteq> e)
     then Inl (ProtocolV3Error ''ConflictProofV3 network id mismatch'')
     else bindE (sorted_conflicting_transfers P transfer_a transfer_b n) (\<lambda>(a, b, ha, hb).
     bindE (spend_key_for_transfer P a) (\<lambda>k.
     bindE (current_time P detected_at) (\<lambda>at.
     let proof = unhashed_conflict_proof n a b ha hb k at in
     bindE (conflict_proof_hash P proof) (\<lambda>h. Inr (proof\<lparr>cf_proof_hash := h\<rparr>))))))"

text \<open>The first transfer of a list whose hash differs from that of \<open>b\<close>.\<close>

fun first_rival :: "platform \<Rightarrow> transfer \<Rightarrow> transfer list \<Rightarrow> transfer option res" where
  "first_rival P b [] = Inr None"
| "first_rival P b (a # as) =
     bindE (transfer_hash P a) (\<lambda>ha. bindE (transfer_hash P b) (\<lambda>hb.
     if ha \<noteq> hb then Inr (Some a) else first_rival P b as))"

fun first_rival_pair :: "platform \<Rightarrow> (string \<times> transfer) list \<Rightarrow> transfer list \<Rightarrow> (transfer \<times> transfer) option res" where
  "first_rival_pair P keyed [] = Inr None"
| "first_rival_pair P keyed (b # bs) =
     bindE (spend_key_for_transfer P b) (\<lambda>k.
     bindE (first_rival P b (map snd (filter (\<lambda>(k', _). k' = k) keyed))) (\<lambda>r.
     case r of Some a \<Rightarrow> Inr (Some (a, b)) | None \<Rightarrow> first_rival_pair P keyed bs))"

definition find_conflicting_transfer_pair :: "platform \<Rightarrow> bill \<Rightarrow> bill \<Rightarrow> (transfer \<times> transfer) option res" where
  "find_conflicting_transfer_pair P bill_a bill_b =
     bindE (mapE (\<lambda>t. bindE (spend_key_for_transfer P t) (\<lambda>k. Inr (k, t))) (bl_recent_transfers bill_a)) (\<lambda>keyed.
     first_rival_pair P keyed (bl_recent_transfers bill_b))"

definition create_conflict_proof ::
    "nat \<Rightarrow> platform \<Rightarrow> transparency \<Rightarrow> bundle_context \<Rightarrow> bill_source \<Rightarrow> bill_source \<Rightarrow> int option
      \<Rightarrow> proof_bundle option \<Rightarrow> proof_bundle option \<Rightarrow> int option \<Rightarrow> conflict_proof res" where
  "create_conflict_proof depth P T C source_a source_b detected_at bundle_a bundle_b expected_network_id =
     bindE (bill_of P source_a) (\<lambda>a.
     bindE (bill_of P source_b) (\<lambda>b.
     bindE (verify_bill_state depth P T C (Bill_Object a) bundle_a expected_network_id None) (\<lambda>_.
     bindE (verify_bill_state depth P T C (Bill_Object b) bundle_b expected_network_id None) (\<lambda>_.
     if bl_token_id a \<noteq> bl_token_id b then Inl (ProtocolV3Error ''ConflictProofV3 bills reference different tokens'')
     else bindE (find_conflicting_transfer_pair P a b) (\<lambda>pair.
     case pair of None \<Rightarrow> Inl (ProtocolV3Error ''BillV3 branches do not contain a conflict'')
     | Some (t, u) \<Rightarrow> create_conflict_proof_from_transfers P t u detected_at expected_network_id)))))"

section \<open>Identity and verification\<close>

definition conflict_identity :: "conflict_proof \<Rightarrow> json" where
  "conflict_identity p = (let ha = cf_transfer_hash_a p; hb = cf_transfer_hash_b p in JDict
     [(''type'', JStr CONFLICT_PROOF_TYPE), (''version'', JInt (cf_version p)), (''network_id'', JInt (cf_network_id p)),
      (''token_id'', JStr (cf_token_id p)), (''previous_hash'', JStr (cf_previous_hash p)),
      (''sequence'', JInt (cf_sequence p)), (''sender_address'', JStr (cf_sender_address p)),
      (''transfer_hash_a'', JStr (if hb < ha then hb else ha)), (''transfer_hash_b'', JStr (if hb < ha then ha else hb))])"

definition conflict_proof_key :: "platform \<Rightarrow> wire_input \<Rightarrow> string res" where
  "conflict_proof_key P source =
     bindE (conflict_of P source) (\<lambda>p.
     bindE (require_int (cf_network_id p) ''ConflictProofV3 network id'' 0) (\<lambda>_.
     message_hash P (conflict_identity p)))"

text \<open>
  Python's \<open>==\<close> on transfer dicts: the order of keys is immaterial, and \<open>True\<close> equals \<open>1\<close>. Floats do not occur: the
  shape check has refused them.
\<close>

primrec py_value :: "json \<Rightarrow> json" where
  "py_value JNull = JNull"
| "py_value (JBool b) = JInt (if b then 1 else 0)"
| "py_value (JInt i) = JInt i"
| "py_value (JFloat f) = JFloat f"
| "py_value (JStr s) = JStr s"
| "py_value (JList vs) = JList (map py_value vs)"
| "py_value (JDict kvs) = JDict (sort_key fst (map (map_prod id py_value) kvs))"

definition same_transfer :: "transfer \<Rightarrow> transfer \<Rightarrow> bool" where
  "same_transfer t u = (t\<lparr>tr_metadata := JNull\<rparr> = u\<lparr>tr_metadata := JNull\<rparr>
     \<and> py_value (tr_metadata t) = py_value (tr_metadata u))"

text \<open>The fields of a proof against those that its own transfers give, the self-hash left out.\<close>

definition conflict_fields_match :: "conflict_proof \<Rightarrow> transfer \<Rightarrow> transfer \<Rightarrow> string \<Rightarrow> string \<Rightarrow> string \<Rightarrow> bool" where
  "conflict_fields_match p a b ha hb k =
     (cf_token_id p = tr_token_id a \<and> cf_previous_hash p = tr_previous_hash a \<and> cf_sequence p = tr_sequence a
      \<and> cf_sender_address p = tr_sender_address a \<and> cf_spend_key p = k \<and> cf_transfer_hash_a p = ha
      \<and> cf_transfer_hash_b p = hb \<and> same_transfer (cf_transfer_a p) a \<and> same_transfer (cf_transfer_b p) b)"

definition check_conflict_proof :: "platform \<Rightarrow> conflict_proof \<Rightarrow> int option \<Rightarrow> bool res" where
  "check_conflict_proof P p expected_network_id =
     (if cf_type p \<noteq> CONFLICT_PROOF_TYPE then Inl (ProtocolV3Error ''not a ConflictProofV3'')
      else if cf_version p \<noteq> VERSION then Inl (ProtocolV3Error ''unsupported ConflictProofV3 version'')
      else bindE (require_int (cf_network_id p) ''ConflictProofV3 network id'' 0) (\<lambda>n.
      if (case expected_network_id of None \<Rightarrow> False | Some e \<Rightarrow> n \<noteq> e)
      then Inl (ProtocolV3Error ''ConflictProofV3 network id mismatch'')
      else bindE (hex32 (cf_token_id p) ''ConflictProofV3 token id'') (\<lambda>_.
      bindE (hex32 (cf_previous_hash p) ''ConflictProofV3 previous hash'') (\<lambda>_.
      bindE (require_int (cf_sequence p) ''ConflictProofV3 sequence'' 1) (\<lambda>_.
      bindE (validate_address P (cf_sender_address p) ''ConflictProofV3 sender address'') (\<lambda>_.
      bindE (hex32 (cf_spend_key p) ''ConflictProofV3 spend key'') (\<lambda>_.
      bindE (hex32 (cf_transfer_hash_a p) ''ConflictProofV3 transfer hash a'') (\<lambda>_.
      bindE (hex32 (cf_transfer_hash_b p) ''ConflictProofV3 transfer hash b'') (\<lambda>_.
      bindE (require_int (cf_detected_at p) ''ConflictProofV3 detected_at'' 0) (\<lambda>_.
      bindE (sorted_conflicting_transfers P (cf_transfer_a p) (cf_transfer_b p) n) (\<lambda>(a, b, ha, hb).
      bindE (spend_key_for_transfer P a) (\<lambda>k.
      if \<not> conflict_fields_match p a b ha hb k
      then Inl (ProtocolV3Error ''ConflictProofV3 conflict fields mismatch'')
      else bindE (conflict_proof_hash P p) (\<lambda>h.
      if cf_proof_hash p \<noteq> h then Inl (ProtocolV3Error ''ConflictProofV3 proof hash mismatch'')
      else Inr True)))))))))))))"

definition verify_conflict_proof :: "platform \<Rightarrow> wire_input \<Rightarrow> int option \<Rightarrow> bool res" where
  "verify_conflict_proof P source expected_network_id =
     bindE (conflict_of P source) (\<lambda>p. check_conflict_proof P p expected_network_id)"

end
