(* ===== verification/Announcements.thy ===== *)
theory Announcements
  imports ConflictProof
begin

text \<open>
  The gossip messages of \<open>src/ind/protocol_v3.py\<close>: bills, checkpoints, proof bundles and archive segments in text
  payloads of a JSON envelope, their making, decoding and verification, and the check that every message
  passes before it is queued (\<open>validate_gossip_envelope_shape\<close>). Messages are JSON values.
\<close>

definition TRANSFER_ANNOUNCEMENT_TYPE :: string where "TRANSFER_ANNOUNCEMENT_TYPE = ''ind.transfer_announcement.v3''"
definition CHECKPOINT_ANNOUNCEMENT_TYPE :: string where "CHECKPOINT_ANNOUNCEMENT_TYPE = ''ind.checkpoint_announcement.v3''"
definition PROOF_BUNDLE_ANNOUNCEMENT_TYPE :: string where "PROOF_BUNDLE_ANNOUNCEMENT_TYPE = ''ind.proof_bundle_announcement.v3''"
definition ARCHIVE_SEGMENT_ANNOUNCEMENT_TYPE :: string where
  "ARCHIVE_SEGMENT_ANNOUNCEMENT_TYPE = ''ind.archive_segment_announcement.v3''"
definition V3_PAYLOAD_ENCODING :: string where "V3_PAYLOAD_ENCODING = ''indb3-base85''"

definition TRANSFER_ANNOUNCEMENT_FIELDS :: "string list" where
  "TRANSFER_ANNOUNCEMENT_FIELDS = [''type'', ''version'', ''network_id'', ''payload_encoding'', ''bill'', ''proof_bundle'',
     ''archive_segments'', ''announced_at'']"
definition CHECKPOINT_ANNOUNCEMENT_FIELDS :: "string list" where
  "CHECKPOINT_ANNOUNCEMENT_FIELDS = [''type'', ''version'', ''network_id'', ''payload_encoding'', ''checkpoint_core'',
     ''archive_segments'', ''announced_at'']"
definition PROOF_BUNDLE_ANNOUNCEMENT_FIELDS :: "string list" where
  "PROOF_BUNDLE_ANNOUNCEMENT_FIELDS = [''type'', ''version'', ''network_id'', ''payload_encoding'', ''proof_bundle'', ''announced_at'']"
definition ARCHIVE_SEGMENT_ANNOUNCEMENT_FIELDS :: "string list" where
  "ARCHIVE_SEGMENT_ANNOUNCEMENT_FIELDS = [''type'', ''version'', ''network_id'', ''payload_encoding'', ''archive_segment'',
     ''announced_at'']"

section \<open>Envelopes and payloads\<close>

definition require_v3_payload_envelope :: "json \<Rightarrow> string list \<Rightarrow> string \<Rightarrow> string \<Rightarrow> int res" where
  "require_v3_payload_envelope message required_fields expected_type label =
     bindE (require_exact_fields message required_fields label) (\<lambda>_.
     if jget message ''type'' \<noteq> Some (JStr expected_type) then Inl (ProtocolV3Error (''not a '' @ label))
     else bindE (jat message ''version'') (\<lambda>v.
     bindE (require_int_for v (label @ '' version'') None ProtocolV3Error) (\<lambda>version.
     if version \<noteq> VERSION then Inl (ProtocolV3Error (''unsupported '' @ label @ '' version''))
     else bindE (jat message ''network_id'') (\<lambda>n.
     bindE (require_int_for n (label @ '' network id'') (Some 0) ProtocolV3Error) (\<lambda>network_id.
     if jget message ''payload_encoding'' \<noteq> Some (JStr V3_PAYLOAD_ENCODING)
     then Inl (ProtocolV3Error (''unsupported '' @ label @ '' payload encoding''))
     else bindE (jat message ''announced_at'') (\<lambda>a.
     bindE (require_int_for a (label @ '' announced_at'') (Some 0) ProtocolV3Error) (\<lambda>_.
     Inr network_id)))))))"

text \<open>\<open>decode_wire_payload\<close> of a JSON value.\<close>

definition payload_bytes :: "json \<Rightarrow> bytes res" where
  "payload_bytes j = (case j of JStr s \<Rightarrow> decode_wire_payload s | _ \<Rightarrow> Inl (ProtocolV3Error ''invalid V3 wire payload''))"

definition decode_payload :: "(bytes \<Rightarrow> 'a res) \<Rightarrow> json \<Rightarrow> 'a res" where
  "decode_payload decoder j = bindE (payload_bytes j) decoder"

definition wire_json :: "bytes \<Rightarrow> json" where
  "wire_json blob = JStr (encode_wire_payload blob)"

definition require_payload_list :: "json \<Rightarrow> string \<Rightarrow> json list res" where
  "require_payload_list j message = (case j of JList vs \<Rightarrow> Inr vs | _ \<Rightarrow> Inl (ProtocolV3Error message))"

definition network_differs :: "int option \<Rightarrow> int \<Rightarrow> bool" where
  "network_differs expected n = (case expected of None \<Rightarrow> False | Some e \<Rightarrow> n \<noteq> e)"

text \<open>Segments that come with a message, found by their hash before the fallback is asked.\<close>

definition embedded_archive_resolver ::
    "platform \<Rightarrow> archive_segment list \<Rightarrow> (string \<Rightarrow> archive_segment option) option
      \<Rightarrow> (string \<Rightarrow> archive_segment option) res" where
  "embedded_archive_resolver P segments fallback =
     bindE (mapE (\<lambda>s. bindE (archive_segment_hash P s) (\<lambda>h. Inr (h, s))) segments) (\<lambda>found.
     Inr (\<lambda>segment_hash. let h = lower segment_hash in
       case map_of (rev found) h of Some s \<Rightarrow> Some s
       | None \<Rightarrow> (case fallback of Some f \<Rightarrow> f h | None \<Rightarrow> None)))"

section \<open>Transfer announcements\<close>

definition create_transfer_announcement ::
    "platform \<Rightarrow> bill_source \<Rightarrow> proof_bundle option \<Rightarrow> archive_segment list \<Rightarrow> int option \<Rightarrow> json res" where
  "create_transfer_announcement P source bundle segments now =
     bindE (bill_of P source) (\<lambda>b.
     if bl_recent_transfers b = [] then Inl (ProtocolV3Error ''TransferAnnouncementV3 requires a recent TransferV3'')
     else bindE (require_int (bl_network_id b) ''BillV3 network id'' 0) (\<lambda>n.
     bindE (case bundle of None \<Rightarrow> Inr JNull
       | Some pb \<Rightarrow> bindE (encode_proof_bundle P pb True) (\<lambda>blob. Inr (wire_json blob))) (\<lambda>proof_payload.
     bindE (mapE (\<lambda>s. bindE (encode_archive_segment P s True) (\<lambda>blob. Inr (wire_json blob))) segments) (\<lambda>archive_payloads.
     bindE (encode_bill P b) (\<lambda>blob.
     bindE (current_time P now) (\<lambda>at.
     Inr (JDict [(''type'', JStr TRANSFER_ANNOUNCEMENT_TYPE), (''version'', JInt VERSION), (''network_id'', JInt n),
       (''payload_encoding'', JStr V3_PAYLOAD_ENCODING), (''bill'', wire_json blob), (''proof_bundle'', proof_payload),
       (''archive_segments'', JList archive_payloads), (''announced_at'', JInt at)])))))))"

definition decode_transfer_announcement :: "platform \<Rightarrow> json \<Rightarrow> (bill \<times> proof_bundle option \<times> archive_segment list) res" where
  "decode_transfer_announcement P message =
     bindE (require_v3_payload_envelope message TRANSFER_ANNOUNCEMENT_FIELDS TRANSFER_ANNOUNCEMENT_TYPE ''TransferAnnouncementV3'') (\<lambda>_.
     bindE (bindE (jat message ''bill'') (decode_payload (decode_bill P))) (\<lambda>b.
     bindE (jat message ''proof_bundle'') (\<lambda>p.
     bindE (if p = JNull then Inr None else bindE (decode_payload (decode_proof_bundle P) p) (\<lambda>pb. Inr (Some pb))) (\<lambda>bundle.
     bindE (jat message ''archive_segments'') (\<lambda>a.
     bindE (require_payload_list a ''TransferAnnouncementV3 archive segments must be a list'') (\<lambda>payloads.
     bindE (mapE (decode_payload (decode_archive_segment P)) payloads) (\<lambda>segments.
     Inr (b, bundle, segments))))))))"

definition verify_transfer_announcement ::
    "nat \<Rightarrow> platform \<Rightarrow> transparency \<Rightarrow> bundle_context \<Rightarrow> json \<Rightarrow> int option \<Rightarrow> int option
      \<Rightarrow> (bill \<times> proof_bundle option \<times> archive_segment list \<times> token_state) res" where
  "verify_transfer_announcement depth P T C message expected_network_id now =
     bindE (require_v3_payload_envelope message TRANSFER_ANNOUNCEMENT_FIELDS TRANSFER_ANNOUNCEMENT_TYPE ''TransferAnnouncementV3'') (\<lambda>n.
     if network_differs expected_network_id n then Inl (ProtocolV3Error ''TransferAnnouncementV3 network id mismatch'')
     else bindE (decode_transfer_announcement P message) (\<lambda>(b, bundle, segments).
     bindE (embedded_archive_resolver P segments (ctx_segments C)) (\<lambda>resolver.
     bindE (verify_bill depth P T (C\<lparr>ctx_segments := Some resolver\<rparr>) (Bill_Object b) bundle (Some n) now) (\<lambda>state.
     if bl_recent_transfers b = [] then Inl (ProtocolV3Error ''TransferAnnouncementV3 requires a recent TransferV3'')
     else Inr (b, bundle, segments, state)))))"

section \<open>Checkpoint announcements\<close>

definition create_checkpoint_announcement ::
    "platform \<Rightarrow> checkpoint_core \<Rightarrow> archive_segment list \<Rightarrow> int option \<Rightarrow> json res" where
  "create_checkpoint_announcement P core segments now =
     (if segments = [] then Inl (ProtocolV3Error ''CheckpointAnnouncementV3 requires archive segments'')
      else bindE (require_int (cp_network_id core) ''CheckpointAnnouncementV3 network id'' 0) (\<lambda>n.
      bindE (validate_checkpoint_core P core n) (\<lambda>_.
      bindE (mapE (\<lambda>s. bindE (encode_archive_segment P s True) (\<lambda>blob. Inr (wire_json blob))) segments) (\<lambda>payloads.
      bindE (encode_checkpoint_core P core True) (\<lambda>blob.
      bindE (current_time P now) (\<lambda>at.
      Inr (JDict [(''type'', JStr CHECKPOINT_ANNOUNCEMENT_TYPE), (''version'', JInt VERSION), (''network_id'', JInt n),
        (''payload_encoding'', JStr V3_PAYLOAD_ENCODING), (''checkpoint_core'', wire_json blob),
        (''archive_segments'', JList payloads), (''announced_at'', JInt at)])))))))"

definition decode_checkpoint_announcement :: "platform \<Rightarrow> json \<Rightarrow> (checkpoint_core \<times> archive_segment list) res" where
  "decode_checkpoint_announcement P message =
     bindE (require_v3_payload_envelope message CHECKPOINT_ANNOUNCEMENT_FIELDS CHECKPOINT_ANNOUNCEMENT_TYPE ''CheckpointAnnouncementV3'') (\<lambda>_.
     bindE (bindE (jat message ''checkpoint_core'') (decode_payload decode_checkpoint_core)) (\<lambda>core.
     bindE (jat message ''archive_segments'') (\<lambda>a.
     bindE (require_payload_list a ''CheckpointAnnouncementV3 requires archive segments'') (\<lambda>payloads.
     if payloads = [] then Inl (ProtocolV3Error ''CheckpointAnnouncementV3 requires archive segments'')
     else bindE (mapE (decode_payload (decode_archive_segment P)) payloads) (\<lambda>segments.
     Inr (core, segments))))))"

text \<open>The resolvers of earlier segments and checkpoints are those of \<open>R\<close>.\<close>

definition verify_checkpoint_announcement ::
    "nat \<Rightarrow> platform \<Rightarrow> json \<Rightarrow> int option \<Rightarrow> archive_resolvers \<Rightarrow> (checkpoint_core \<times> archive_segment list) res" where
  "verify_checkpoint_announcement depth P message expected_network_id R =
     bindE (require_v3_payload_envelope message CHECKPOINT_ANNOUNCEMENT_FIELDS CHECKPOINT_ANNOUNCEMENT_TYPE ''CheckpointAnnouncementV3'') (\<lambda>n.
     if network_differs expected_network_id n then Inl (ProtocolV3Error ''CheckpointAnnouncementV3 network id mismatch'')
     else bindE (decode_checkpoint_announcement P message) (\<lambda>(core, segments).
     bindE (embedded_archive_resolver P segments (rs_segment R)) (\<lambda>resolver.
     bindE (verify_archive_segment depth P (hd segments) (Some n) None (R\<lparr>rs_segment := Some resolver\<rparr>) None) (\<lambda>derived.
     if core \<noteq> derived then Inl (ProtocolV3Error ''checkpoint does not match archive segment'')
     else bindE (checkpoint_core_hash P core) (\<lambda>h.
     if cp_checkpoint_hash core \<noteq> h then Inl (ProtocolV3Error ''checkpoint hash mismatch'')
     else Inr (core, segments))))))"

section \<open>Announcements of bundles and segments\<close>

definition create_proof_bundle_announcement :: "platform \<Rightarrow> proof_bundle \<Rightarrow> int option \<Rightarrow> json res" where
  "create_proof_bundle_announcement P bundle now =
     bindE (encode_proof_bundle P bundle True) (\<lambda>blob.
     bindE (current_time P now) (\<lambda>at.
     Inr (JDict [(''type'', JStr PROOF_BUNDLE_ANNOUNCEMENT_TYPE), (''version'', JInt VERSION),
       (''network_id'', JInt (pb_network_id bundle)), (''payload_encoding'', JStr V3_PAYLOAD_ENCODING),
       (''proof_bundle'', wire_json blob), (''announced_at'', JInt at)])))"

definition verify_proof_bundle_announcement ::
    "nat \<Rightarrow> platform \<Rightarrow> transparency \<Rightarrow> bundle_context \<Rightarrow> json \<Rightarrow> int option \<Rightarrow> (proof_bundle \<times> checkpoint_core) res" where
  "verify_proof_bundle_announcement depth P T C message expected_network_id =
     bindE (require_v3_payload_envelope message PROOF_BUNDLE_ANNOUNCEMENT_FIELDS PROOF_BUNDLE_ANNOUNCEMENT_TYPE ''ProofBundleAnnouncementV3'') (\<lambda>n.
     if network_differs expected_network_id n then Inl (ProtocolV3Error ''ProofBundleAnnouncementV3 network id mismatch'')
     else bindE (bindE (jat message ''proof_bundle'') (decode_payload (decode_proof_bundle P))) (\<lambda>bundle.
     bindE (verify_proof_bundle depth P T C bundle None (Some n) {}) (\<lambda>checkpoint.
     Inr (bundle, checkpoint))))"

definition create_archive_segment_announcement :: "platform \<Rightarrow> archive_segment \<Rightarrow> int option \<Rightarrow> json res" where
  "create_archive_segment_announcement P segment now =
     bindE (encode_archive_segment P segment True) (\<lambda>blob.
     bindE (current_time P now) (\<lambda>at.
     Inr (JDict [(''type'', JStr ARCHIVE_SEGMENT_ANNOUNCEMENT_TYPE), (''version'', JInt VERSION),
       (''network_id'', JInt (ar_network_id segment)), (''payload_encoding'', JStr V3_PAYLOAD_ENCODING),
       (''archive_segment'', wire_json blob), (''announced_at'', JInt at)])))"

definition verify_archive_segment_announcement ::
    "nat \<Rightarrow> platform \<Rightarrow> json \<Rightarrow> int option \<Rightarrow> (string \<Rightarrow> archive_segment option) option
      \<Rightarrow> (archive_segment \<times> checkpoint_core) res" where
  "verify_archive_segment_announcement depth P message expected_network_id previous_segment_resolver =
     bindE (require_v3_payload_envelope message ARCHIVE_SEGMENT_ANNOUNCEMENT_FIELDS ARCHIVE_SEGMENT_ANNOUNCEMENT_TYPE ''ArchiveSegmentAnnouncementV3'') (\<lambda>n.
     if network_differs expected_network_id n then Inl (ProtocolV3Error ''ArchiveSegmentAnnouncementV3 network id mismatch'')
     else bindE (bindE (jat message ''archive_segment'') (decode_payload (decode_archive_segment P))) (\<lambda>segment.
     bindE (verify_archive_segment depth P segment (Some n) None
       \<lparr>rs_segment = previous_segment_resolver, rs_checkpoint = None\<rparr> None) (\<lambda>checkpoint.
     Inr (segment, checkpoint))))"

text \<open>Every operation on receipts raises this.\<close>

definition receipt_v3_disabled :: "'a res" where
  "receipt_v3_disabled = Inl (ProtocolV3Error
     ''ReceiptV3 is not an active protocol message; wallet sync imports owner-addressed bills'')"

section \<open>The shape check of gossip\<close>

definition check_payload_network :: "int \<Rightarrow> int \<Rightarrow> string \<Rightarrow> unit res" where
  "check_payload_network n expected_network_id label =
     bindE (require_int n (label @ '' network id'') 0) (\<lambda>m.
     if m \<noteq> expected_network_id then Inl (ProtocolV3Error (label @ '' network id mismatch'')) else Inr ())"

definition validate_checkpoint_payload :: "platform \<Rightarrow> checkpoint_core \<Rightarrow> int \<Rightarrow> string \<Rightarrow> unit res" where
  "validate_checkpoint_payload P core n label =
     bindE (check_payload_network (cp_network_id core) n label) (\<lambda>_.
     bindE (validate_checkpoint_core P core n) (\<lambda>_.
     bindE (checkpoint_core_hash P core) (\<lambda>h.
     if cp_checkpoint_hash core \<noteq> h then Inl (ProtocolV3Error (label @ '' hash mismatch'')) else Inr ())))"

text \<open>\<open>except ProtocolV3Error: raise\<close>, then \<open>except Exception\<close>.\<close>

fun protocol_error_or :: "error \<Rightarrow> error \<Rightarrow> error" where
  "protocol_error_or e (ProtocolV3Error m) = ProtocolV3Error m"
| "protocol_error_or e _ = e"

definition checkpoint_from_archive_segment_payload :: "platform \<Rightarrow> archive_segment \<Rightarrow> int \<Rightarrow> checkpoint_core res" where
  "checkpoint_from_archive_segment_payload P s n =
     bindE (check_payload_network (ar_network_id s) n ''ArchiveSegmentV3'') (\<lambda>_.
     bindE (or_raise (archive_segment_hash P s) (protocol_error_or (ProtocolV3Error ''malformed ArchiveSegmentV3''))) (\<lambda>h.
     if ar_segment_hash s \<noteq> h then Inl (ProtocolV3Error ''ArchiveSegmentV3 hash mismatch'')
     else bindE (validate_genesis_ref P (ar_genesis_ref s) n) (\<lambda>_.
     bindE (validate_display_id_issue_index P (ar_display_id s) (ar_value s) (gr_issue_index (ar_genesis_ref s))
       ''ArchiveSegmentV3 display id'') (\<lambda>_.
     bindE (verify_transfer_sequence_from_state P (ar_token_id s) (ar_base_state s) (ar_transfers s) n None) (\<lambda>final.
     if st_sequence final \<noteq> ar_end_sequence s then Inl (ProtocolV3Error ''ArchiveSegmentV3 end sequence mismatch'')
     else if st_value final \<noteq> ar_value s then Inl (ProtocolV3Error ''ArchiveSegmentV3 value mismatch'')
     else if st_display_id final \<noteq> ar_display_id s then Inl (ProtocolV3Error ''ArchiveSegmentV3 display id mismatch'')
     else bindE (checkpoint_core_from_state P (ar_token_id s) (gr_genesis_hash (ar_genesis_ref s)) final
       (ar_previous_checkpoint_hash s) n) (\<lambda>checkpoint.
     if cp_checkpoint_hash checkpoint \<noteq> ar_checkpoint_hash s
     then Inl (ProtocolV3Error ''ArchiveSegmentV3 checkpoint hash mismatch'') else Inr checkpoint))))))"

definition validate_proof_bundle_payload :: "platform \<Rightarrow> transparency \<Rightarrow> proof_bundle \<Rightarrow> int \<Rightarrow> unit res" where
  "validate_proof_bundle_payload P T bundle n =
     bindE (check_payload_network (pb_network_id bundle) n ''ProofBundleV3'') (\<lambda>_.
     bindE (or_raise (bindE (verify_self_hash P bundle) (\<lambda>_. verify_signed_root P T (pb_signed_root bundle) None))
       (\<lambda>e. ProtocolV3Error (error_text e))) (\<lambda>_.
     let source = pb_source_evidence bundle in
     bindE (check_payload_network (se_network_id source) n ''ProofBundleV3 source'') (\<lambda>_.
     case se_archive_segment source of None \<Rightarrow> Inr ()
     | Some s \<Rightarrow>
         bindE (checkpoint_from_archive_segment_payload P s n) (\<lambda>checkpoint.
         if se_archive_segment_hash source \<noteq> ar_segment_hash s
         then Inl (ProtocolV3Error ''ProofBundleV3 archive segment hash mismatch'')
         else if se_source_checkpoint_hash source \<noteq> cp_checkpoint_hash checkpoint
         then Inl (ProtocolV3Error ''ProofBundleV3 source checkpoint hash mismatch'') else Inr ()))))"

definition validate_transfer_bill_payload :: "platform \<Rightarrow> bill \<Rightarrow> int \<Rightarrow> unit res" where
  "validate_transfer_bill_payload P b n =
     bindE (check_payload_network (bl_network_id b) n ''BillV3'') (\<lambda>_.
     if bl_type b \<noteq> BILL_TYPE \<or> bl_version b \<noteq> VERSION then Inl (ProtocolV3Error ''malformed BillV3'')
     else bindE (validate_genesis_ref P (bl_genesis_ref b) n) (\<lambda>_.
     bindE (validate_checkpoint_payload P (bl_checkpoint_core b) n ''CheckpointCoreV3'') (\<lambda>_.
     bindE (validate_checkpoint_genesis_display_id P (bl_genesis_ref b) (bl_checkpoint_core b) ''CheckpointCoreV3 display id'') (\<lambda>_.
     if gr_genesis_hash (bl_genesis_ref b) \<noteq> cp_genesis_hash (bl_checkpoint_core b)
     then Inl (ProtocolV3Error ''CheckpointCoreV3 genesis hash mismatch'')
     else bindE (encode_proof_bundle_ref_body (bl_proof_bundle_ref b)) (\<lambda>_.
     if bl_recent_transfers b = [] then Inl (ProtocolV3Error ''TransferAnnouncementV3 requires a recent TransferV3'')
     else bindE (verify_transfer_sequence_from_state P (bl_token_id b)
       (initial_state_from_checkpoint_core (bl_checkpoint_core b)) (bl_recent_transfers b) n None) (\<lambda>_. Inr ()))))))"

text \<open>\<open>require_payload_string\<close>, then the payload.\<close>

definition string_payload :: "(bytes \<Rightarrow> 'a res) \<Rightarrow> json \<Rightarrow> string \<Rightarrow> 'a res" where
  "string_payload decoder j label = (case j of JStr s \<Rightarrow> bindE (decode_wire_payload s) decoder
     | _ \<Rightarrow> Inl (ProtocolV3Error (label @ '' must be a V3 wire payload'')))"

definition decode_archive_segment_payload :: "platform \<Rightarrow> json \<Rightarrow> int \<Rightarrow> string \<Rightarrow> archive_segment res" where
  "decode_archive_segment_payload P payload n label =
     bindE (string_payload (decode_archive_segment P) payload label) (\<lambda>s.
     bindE (check_payload_network (ar_network_id s) n label) (\<lambda>_.
     bindE (checkpoint_from_archive_segment_payload P s n) (\<lambda>_. Inr s)))"

definition decode_proof_bundle_payload :: "platform \<Rightarrow> transparency \<Rightarrow> json \<Rightarrow> int \<Rightarrow> string \<Rightarrow> proof_bundle res" where
  "decode_proof_bundle_payload P T payload n label =
     bindE (string_payload (decode_proof_bundle P) payload label) (\<lambda>b.
     bindE (check_payload_network (pb_network_id b) n label) (\<lambda>_.
     bindE (validate_proof_bundle_payload P T b n) (\<lambda>_. Inr b)))"

definition segment_label :: "nat \<Rightarrow> string" where
  "segment_label i = ''ArchiveSegmentV3['' @ nat_text i @ '']''"

text \<open>The payloads of one kind of message.\<close>

definition validate_transfer_payloads :: "platform \<Rightarrow> transparency \<Rightarrow> json \<Rightarrow> json list \<Rightarrow> int \<Rightarrow> unit res" where
  "validate_transfer_payloads P T message segments n =
     bindE (jat message ''bill'') (\<lambda>payload.
     bindE (string_payload (decode_bill P) payload ''BillV3'') (\<lambda>b.
     bindE (validate_transfer_bill_payload P b n) (\<lambda>_.
     bindE (jat message ''proof_bundle'') (\<lambda>p.
     bindE (if p = JNull then Inr () else
       bindE (decode_proof_bundle_payload P T p n ''ProofBundleV3'') (\<lambda>bundle.
       verify_proof_bundle_ref P (bl_proof_bundle_ref b) bundle (Some n))) (\<lambda>_.
     bindE (mapE (\<lambda>(i, s). decode_archive_segment_payload P s n (segment_label i)) (enumerate 0 segments)) (\<lambda>_. Inr ()))))))"

definition validate_checkpoint_segment :: "platform \<Rightarrow> checkpoint_core \<Rightarrow> int \<Rightarrow> nat \<times> json \<Rightarrow> unit res" where
  "validate_checkpoint_segment P core n = (\<lambda>(i, payload).
     bindE (decode_archive_segment_payload P payload n (segment_label i)) (\<lambda>s.
     if i = 0 then bindE (checkpoint_from_archive_segment_payload P s n) (\<lambda>derived.
       if core \<noteq> derived then Inl (ProtocolV3Error ''CheckpointCoreV3 does not match archive segment'') else Inr ())
     else Inr ()))"

definition validate_checkpoint_payloads :: "platform \<Rightarrow> json \<Rightarrow> json list \<Rightarrow> int \<Rightarrow> unit res" where
  "validate_checkpoint_payloads P message segments n =
     bindE (jat message ''checkpoint_core'') (\<lambda>payload.
     bindE (string_payload decode_checkpoint_core payload ''CheckpointCoreV3'') (\<lambda>core.
     bindE (validate_checkpoint_payload P core n ''CheckpointCoreV3'') (\<lambda>_.
     bindE (mapE (validate_checkpoint_segment P core n) (enumerate 0 segments)) (\<lambda>_. Inr ()))))"

text \<open>
  \<open>envelope_specs\<close>: the fields and the label of each type. A type that is a list or a dict is not
  hashable, and the lookup itself raises.
\<close>

definition envelope_specs :: "string \<Rightarrow> (string list \<times> string) option" where
  "envelope_specs = map_of
     [(TRANSFER_ANNOUNCEMENT_TYPE, TRANSFER_ANNOUNCEMENT_FIELDS, ''TransferAnnouncementV3''),
      (CHECKPOINT_ANNOUNCEMENT_TYPE, CHECKPOINT_ANNOUNCEMENT_FIELDS, ''CheckpointAnnouncementV3''),
      (PROOF_BUNDLE_ANNOUNCEMENT_TYPE, PROOF_BUNDLE_ANNOUNCEMENT_FIELDS, ''ProofBundleAnnouncementV3''),
      (ARCHIVE_SEGMENT_ANNOUNCEMENT_TYPE, ARCHIVE_SEGMENT_ANNOUNCEMENT_FIELDS, ''ArchiveSegmentAnnouncementV3'')]"

definition gossip_type :: "json \<Rightarrow> string option res" where
  "gossip_type message = (case jget message ''type'' of
       Some (JStr ty) \<Rightarrow> Inr (Some ty)
     | Some (JList _) \<Rightarrow> Inl (PyTypeError ''unhashable type'')
     | Some (JDict _) \<Rightarrow> Inl (PyTypeError ''unhashable type'')
     | _ \<Rightarrow> Inr None)"

definition validate_conflict_message :: "platform \<Rightarrow> json \<Rightarrow> bool res" where
  "validate_conflict_message P message =
     bindE (require_exact_fields message CONFLICT_PROOF_FIELDS ''ConflictProofV3'') (\<lambda>_.
     bindE (jat message ''version'') (\<lambda>v.
     bindE (require_int_for v ''ConflictProofV3 version'' None ProtocolV3Error) (\<lambda>version.
     if version \<noteq> VERSION then Inl (ProtocolV3Error ''unsupported ConflictProofV3 version'')
     else bindE (jat message ''network_id'') (\<lambda>j.
     bindE (require_int_for j ''ConflictProofV3 network id'' (Some 0) ProtocolV3Error) (\<lambda>n.
     bindE (jat message ''sequence'') (\<lambda>j.
     bindE (require_int_for j ''ConflictProofV3 sequence'' (Some 1) ProtocolV3Error) (\<lambda>_.
     bindE (jat message ''detected_at'') (\<lambda>j.
     bindE (require_int_for j ''ConflictProofV3 detected_at'' (Some 0) ProtocolV3Error) (\<lambda>_.
     bindE (verify_conflict_proof P (WDict message) (Some n)) (\<lambda>_. Inr True))))))))))"

definition validate_payloads :: "platform \<Rightarrow> transparency \<Rightarrow> json \<Rightarrow> string \<Rightarrow> json list \<Rightarrow> int \<Rightarrow> unit res" where
  "validate_payloads P T message ty segments n =
     (if ty = TRANSFER_ANNOUNCEMENT_TYPE then validate_transfer_payloads P T message segments n
      else if ty = CHECKPOINT_ANNOUNCEMENT_TYPE then validate_checkpoint_payloads P message segments n
      else if ty = PROOF_BUNDLE_ANNOUNCEMENT_TYPE
      then bindE (jat message ''proof_bundle'') (\<lambda>p. bindE (decode_proof_bundle_payload P T p n ''ProofBundleV3'') (\<lambda>_. Inr ()))
      else if ty = ARCHIVE_SEGMENT_ANNOUNCEMENT_TYPE
      then bindE (jat message ''archive_segment'') (\<lambda>p. bindE (decode_archive_segment_payload P p n ''ArchiveSegmentV3'') (\<lambda>_. Inr ()))
      else Inr ())"

definition validate_gossip_envelope_shape :: "platform \<Rightarrow> transparency \<Rightarrow> json \<Rightarrow> bool res" where
  "validate_gossip_envelope_shape P T message =
     bindE (gossip_type message) (\<lambda>message_type.
     if message_type = Some CONFLICT_PROOF_TYPE then validate_conflict_message P message
     else case message_type of
       None \<Rightarrow> Inr False
     | Some ty \<Rightarrow> (case envelope_specs ty of
         None \<Rightarrow> if startswith ty ''ind.'' \<and> endswith ty ''.v3''
           then Inl (ProtocolV3Error ''unsupported V3 gossip message type'') else Inr False
       | Some (required, label) \<Rightarrow>
           bindE (require_v3_payload_envelope message required ty label) (\<lambda>n.
           bindE (if ty = TRANSFER_ANNOUNCEMENT_TYPE \<or> ty = CHECKPOINT_ANNOUNCEMENT_TYPE
             then bindE (jat message ''archive_segments'') (\<lambda>a.
               require_payload_list a (label @ '' archive segments must be a list''))
             else Inr []) (\<lambda>segments.
           bindE (validate_payloads P T message ty segments n) (\<lambda>_. Inr True)))))"

end
