(* ===== verification/ConflictLaws.thy ===== *)
theory ConflictLaws
  imports ConflictProof
begin

text \<open>
  What conflict proofs guarantee: \<open>rivals\<close> is the abstract crime, two signed transfers of one state of one bill. A
  verified proof shows one, every one has a proof that verifies, and the key of a proof commits to it.
\<close>

definition rivals :: "platform \<Rightarrow> transfer \<Rightarrow> transfer \<Rightarrow> bool" where
  "rivals P t u = (\<exists>h h' k. signed_transfer P t h k \<and> signed_transfer P u h' k \<and> h \<noteq> h'
     \<and> tr_network_id t = tr_network_id u \<and> tr_token_id t = tr_token_id u \<and> tr_previous_hash t = tr_previous_hash u
     \<and> tr_sequence t = tr_sequence u \<and> tr_sender_address t = tr_sender_address u)"

lemma rivals_sym: "rivals P t u \<Longrightarrow> rivals P u t"
  unfolding rivals_def by metis

lemma double_spend_rivals: "double_spend P t u \<Longrightarrow> tr_network_id t = tr_network_id u \<Longrightarrow> rivals P t u"
  unfolding double_spend_def rivals_def by blast

section \<open>Codec and hash\<close>

definition conflict_shape :: "conflict_proof \<Rightarrow> bool" where
  "conflict_shape p = (cf_type p = CONFLICT_PROOF_TYPE \<and> cf_version p = VERSION \<and> hash_text (cf_token_id p)
     \<and> hash_text (cf_previous_hash p) \<and> hash_text (cf_spend_key p) \<and> hash_text (cf_transfer_hash_a p)
     \<and> hash_text (cf_transfer_hash_b p) \<and> hash_text (cf_proof_hash p)
     \<and> transfer_shape True (cf_transfer_a p) \<and> tr_network_id (cf_transfer_a p) = cf_network_id p
     \<and> transfer_shape True (cf_transfer_b p) \<and> tr_network_id (cf_transfer_b p) = cf_network_id p)"

lemma conflict_reads:
  assumes "conflict_shape p" and "conflict_bytes P p = Inr bs"
  shows "reads (decode_conflict_proof_body P (cf_network_id p)) bs p"
proof -
  let ?n = "cf_network_id p"
  from assms(2) obtain b1 b2 b3 b4 b5 b6 b7 b8 b9 b10 b11 where
    bs: "bs = b1 @ b2 @ b3 @ b4 @ b5 @ b6 @ b7 @ b8 @ b9 @ b10 @ b11 @ []"
    and enc: "encode_hash_hex (cf_token_id p) = Inr b1" "encode_hash_hex (cf_previous_hash p) = Inr b2"
      "encode_uvarint (cf_sequence p) = Inr b3" "encode_ascii 128 (cf_sender_address p) = Inr b4"
      "encode_hash_hex (cf_spend_key p) = Inr b5" "encode_hash_hex (cf_transfer_hash_a p) = Inr b6"
      "encode_hash_hex (cf_transfer_hash_b p) = Inr b7" "encode_uvarint (cf_detected_at p) = Inr b10"
      "encode_hash_hex (cf_proof_hash p) = Inr b11"
    and ta: "encode_transfer_body P (cf_transfer_a p) True = Inr b8"
    and tb: "encode_transfer_body P (cf_transfer_b p) True = Inr b9"
    unfolding conflict_bytes_def joinE_Cons_iff joinE_Nil_iff by blast
  have a: "reads (decode_transfer_body P True ?n) b8 (cf_transfer_a p)"
    using transfer_reads [of True "cf_transfer_a p" b8 P] ta assms(1) by (auto simp: conflict_shape_def encode_transfer_body_Inr_iff)
  have b: "reads (decode_transfer_body P True ?n) b9 (cf_transfer_b p)"
    using transfer_reads [of True "cf_transfer_b p" b9 P] tb assms(1) by (auto simp: conflict_shape_def encode_transfer_body_Inr_iff)
  show ?thesis
    unfolding decode_conflict_proof_body_def bs
    by (intro codec_reads; (rule enc a b)?) (use assms(1) in \<open>simp_all add: conflict_shape_def\<close>)
qed

interpretation conflict_codec: envelope_codec
  CONFLICT_PROOF_MAGIC "''ConflictProofV3''" cf_network_id conflict_shape "conflict_bytes P" "decode_conflict_proof_body P"
  by unfold_locales (simp_all add: conflict_reads CONFLICT_PROOF_MAGIC_def)

lemma encode_conflict_Inr_iff: "encode_conflict_proof P p True = Inr bs \<longleftrightarrow> 0 \<le> cf_network_id p \<and> hex64 (cf_proof_hash p)
    \<and> bindE (conflict_bytes P p) (encode_envelope CONFLICT_PROOF_MAGIC (cf_network_id p)) = Inr bs"
  unfolding encode_conflict_proof_def encode_conflict_proof_body_def bindE_Inr_iff require_int_Inr_iff hex32_Inr_iff Let_def
  by auto

lemma decode_encode_conflict:
  assumes "conflict_shape p" and "encode_conflict_proof P p True = Inr bs"
  shows "decode_conflict_proof P bs = Inr p"
  using conflict_codec.decode_encode [OF assms(1)] assms(2)
  by (simp add: decode_conflict_proof_def encode_conflict_Inr_iff)

lemma encode_conflict_unhashed:
  "encode_conflict_proof P p False = encode_conflict_proof P (p\<lparr>cf_proof_hash := zero_hash\<rparr>) True"
  by (simp add: encode_conflict_proof_def encode_conflict_proof_body_def Let_def)

lemma conflict_hash_update [simp]: "conflict_proof_hash P (p\<lparr>cf_proof_hash := h\<rparr>) = conflict_proof_hash P p"
  by (simp add: conflict_proof_hash_def encode_conflict_unhashed)

lemma conflict_bytes_size:
  assumes "conflict_bytes P p = Inr bs"
  shows "length bs \<le> 3000 * 11"
proof -
  have asc: "encode_ascii 128 a = Inr x \<Longrightarrow> length x \<le> 3000" for a x
    using encode_ascii_size [of 128 a x] by (auto simp: encode_ascii_Inr_iff)
  have h: "encode_hash_hex t = Inr b \<Longrightarrow> length b \<le> 3000" "encode_uvarint v = Inr b \<Longrightarrow> length b \<le> 3000"
    "encode_transfer_body P u True = Inr b \<Longrightarrow> length b \<le> 3000" for t v u b
    using encode_hash_hex_size encode_uvarint_size transfer_bytes_size by (fastforce simp: encode_transfer_body_Inr_iff)+
  define ps where "ps = [encode_hash_hex (cf_token_id p), encode_hash_hex (cf_previous_hash p), encode_uvarint (cf_sequence p),
      encode_ascii 128 (cf_sender_address p), encode_hash_hex (cf_spend_key p), encode_hash_hex (cf_transfer_hash_a p),
      encode_hash_hex (cf_transfer_hash_b p), encode_transfer_body P (cf_transfer_a p) True,
      encode_transfer_body P (cf_transfer_b p) True, encode_uvarint (cf_detected_at p), encode_hash_hex (cf_proof_hash p)]"
  have "list_all (\<lambda>m. \<forall>x. m = Inr x \<longrightarrow> length x \<le> 3000) ps"
    unfolding ps_def by (simp only: list.pred_inject, use asc h in \<open>(intro conjI allI impI TrueI; force)\<close>)
  moreover have "joinE ps = Inr bs" using assms by (simp only: ps_def conflict_bytes_def)
  ultimately have "length bs \<le> 3000 * length ps" using joinE_size [of ps bs 3000] by (auto simp: list_all_iff)
  then show ?thesis by (simp add: ps_def)
qed

lemma conflict_hash_ok:
  assumes "is_ok (conflict_bytes P (p\<lparr>cf_proof_hash := zero_hash\<rparr>))" and "0 \<le> cf_network_id p" and "cf_network_id p \<le> MAX_UVARINT"
  shows "is_ok (conflict_proof_hash P p)"
proof -
  from assms(1) obtain b where b: "conflict_bytes P (p\<lparr>cf_proof_hash := zero_hash\<rparr>) = Inr b" by (auto simp: is_ok_iff)
  let ?bs = "CONFLICT_PROOF_MAGIC @ uvarint_loop 3 @ uvarint_loop (nat (cf_network_id p)) @ b"
  have "length (uvarint_loop 3) \<le> 1" by (rule length_uvarint_loop) simp_all
  moreover have "length (uvarint_loop (nat (cf_network_id p))) \<le> 9"
    using encode_uvarint_size [of "cf_network_id p"] assms(2,3) by (simp add: encode_uvarint_Inr_iff)
  ultimately have "length ?bs \<le> 65536" using conflict_bytes_size [OF b] by (simp add: CONFLICT_PROOF_MAGIC_def)
  moreover have "is_ascii CONFLICT_PROOF_TYPE" "length CONFLICT_PROOF_TYPE \<le> 128"
    by (simp_all add: CONFLICT_PROOF_TYPE_def is_ascii_def code_def)
  ultimately obtain m where m: "object_preimage CONFLICT_PROOF_TYPE ?bs = Inr m" using object_preimage_ok by blast
  have "encode_conflict_proof P p False = Inr ?bs"
    unfolding encode_conflict_unhashed encode_conflict_Inr_iff using b assms(2,3)
    by (simp add: encode_envelope_Inr_iff encode_uvarint_Inr_iff)
  with m show ?thesis by (simp add: conflict_proof_hash_def is_ok_iff bindE_Inr_iff object_hash_Inr_iff)
qed

section \<open>Sorting\<close>

lemma signed_transferI:
  assumes "validate_transfer_shape P t n True None = Inr u" "verify_transfer_signature P t = Inr x"
    "transfer_hash P t = Inr h" "spend_key_for_transfer P t = Inr k"
  shows "signed_transfer P t h k \<and> n = tr_network_id t"
  using assms verify_signature_True [OF assms(2)] by (auto simp: signed_transfer_def validate_transfer_shape_Inr_iff)

lemma sorted_Inr_iff:
  "sorted_conflicting_transfers P a b n = Inr r \<longleftrightarrow>
     n = tr_network_id a \<and> rivals P a b
     \<and> (\<exists>ha hb. transfer_hash P a = Inr ha \<and> transfer_hash P b = Inr hb
          \<and> r = (if hb < ha then (b, a, hb, ha) else (a, b, ha, hb)))" (is "?l \<longleftrightarrow> ?r")
proof
  assume ?l
  then obtain u u' x x' ka kb ha hb where *: "validate_transfer_shape P a n True None = Inr u"
      "validate_transfer_shape P b n True None = Inr u'" "verify_transfer_signature P a = Inr x" "verify_transfer_signature P b = Inr x'"
      "tr_token_id a = tr_token_id b" "tr_sequence a = tr_sequence b" "tr_previous_hash a = tr_previous_hash b"
      "tr_sender_address a = tr_sender_address b" "spend_key_for_transfer P a = Inr ka" "spend_key_for_transfer P b = Inr kb"
      "ka = kb" "transfer_hash P a = Inr ha" "transfer_hash P b = Inr hb" "ha \<noteq> hb"
      "(if hb < ha then Inr (b, a, hb, ha) else Inr (a, b, ha, hb)) = (Inr r :: (transfer \<times> transfer \<times> string \<times> string) res)"
    unfolding sorted_conflicting_transfers_def bindE_Inr_iff if_Inl_Inr_iff not_not by blast
  from signed_transferI [OF *(1,3,12,9)] signed_transferI [OF *(2,4,13,10)] *(5-8,11,14) have "rivals P a b" "n = tr_network_id a"
    unfolding rivals_def by auto
  with *(12,13,15) show ?r by (auto split: if_splits)
next
  assume r: ?r
  then obtain ha hb k where *: "signed_transfer P a ha k" "signed_transfer P b hb k" "ha \<noteq> hb"
      "tr_network_id a = tr_network_id b" "tr_token_id a = tr_token_id b" "tr_previous_hash a = tr_previous_hash b"
      "tr_sequence a = tr_sequence b" "tr_sender_address a = tr_sender_address b"
    and n: "n = tr_network_id a" "r = (if hb < ha then (b, a, hb, ha) else (a, b, ha, hb))"
    unfolding rivals_def signed_transfer_def by auto
  have "validate_transfer_shape P a n True None = Inr ()" "validate_transfer_shape P b n True None = Inr ()"
    using *(1,2,4) n(1) by (simp_all add: signed_transfer_def)
  with * n(2) show ?l by (simp add: sorted_conflicting_transfers_def signed_transfer_def)
qed

section \<open>Soundness\<close>

lemma check_conflict_parts:
  assumes "check_conflict_proof P p expected = Inr x"
  shows "x" and "rivals P (cf_transfer_a p) (cf_transfer_b p)"
    and "cf_network_id p = tr_network_id (cf_transfer_a p) \<and> cf_token_id p = tr_token_id (cf_transfer_a p)
      \<and> cf_previous_hash p = tr_previous_hash (cf_transfer_a p) \<and> cf_sequence p = tr_sequence (cf_transfer_a p)
      \<and> cf_sender_address p = tr_sender_address (cf_transfer_a p)"
    and "spend_key_for_transfer P (cf_transfer_a p) = Inr (cf_spend_key p)"
    and "\<exists>ha hb. transfer_hash P (cf_transfer_a p) = Inr ha \<and> transfer_hash P (cf_transfer_b p) = Inr hb
      \<and> {cf_transfer_hash_a p, cf_transfer_hash_b p} = {ha, hb} \<and> cf_transfer_hash_a p < cf_transfer_hash_b p"
    and "conflict_proof_hash P p = Inr (cf_proof_hash p)"
    and "\<forall>e. expected = Some e \<longrightarrow> cf_network_id p = e"
proof -
  from assms obtain a b ha hb k where s: "sorted_conflicting_transfers P (cf_transfer_a p) (cf_transfer_b p) (cf_network_id p) = Inr (a, b, ha, hb)"
      "spend_key_for_transfer P a = Inr k" "conflict_fields_match p a b ha hb k" "conflict_proof_hash P p = Inr (cf_proof_hash p)" "x"
      "\<not> (case expected of None \<Rightarrow> False | Some e \<Rightarrow> cf_network_id p \<noteq> e)"
    unfolding check_conflict_proof_def split_beta bindE_Inr_iff if_Inl_Inr_iff require_int_Inr_iff by auto
  then show "x" "conflict_proof_hash P p = Inr (cf_proof_hash p)" by simp_all
  from s(6) show "\<forall>e. expected = Some e \<longrightarrow> cf_network_id p = e" by (cases expected) auto
  from s(1) obtain ha' hb' where h: "transfer_hash P (cf_transfer_a p) = Inr ha'" "transfer_hash P (cf_transfer_b p) = Inr hb'"
      "(a, b, ha, hb) = (if hb' < ha' then (cf_transfer_b p, cf_transfer_a p, hb', ha') else (cf_transfer_a p, cf_transfer_b p, ha', hb'))"
    and n: "cf_network_id p = tr_network_id (cf_transfer_a p)" and r: "rivals P (cf_transfer_a p) (cf_transfer_b p)"
    unfolding sorted_Inr_iff by blast
  show "rivals P (cf_transfer_a p) (cf_transfer_b p)" by (rule r)
  from r obtain k' where eq: "tr_token_id (cf_transfer_a p) = tr_token_id (cf_transfer_b p)"
      "tr_previous_hash (cf_transfer_a p) = tr_previous_hash (cf_transfer_b p)" "tr_sequence (cf_transfer_a p) = tr_sequence (cf_transfer_b p)"
      "tr_sender_address (cf_transfer_a p) = tr_sender_address (cf_transfer_b p)" "ha' \<noteq> hb'"
      "spend_key_for_transfer P (cf_transfer_a p) = Inr k'" "spend_key_for_transfer P (cf_transfer_b p) = Inr k'"
    using h(1,2) unfolding rivals_def signed_transfer_def by auto
  from h(3) have ab: "a = cf_transfer_a p \<and> b = cf_transfer_b p \<and> ha = ha' \<and> hb = hb' \<or> a = cf_transfer_b p \<and> b = cf_transfer_a p \<and> ha = hb' \<and> hb = ha'"
    and lt: "ha < hb" using eq(5) by (auto split: if_splits)
  show "cf_network_id p = tr_network_id (cf_transfer_a p) \<and> cf_token_id p = tr_token_id (cf_transfer_a p)
      \<and> cf_previous_hash p = tr_previous_hash (cf_transfer_a p) \<and> cf_sequence p = tr_sequence (cf_transfer_a p)
      \<and> cf_sender_address p = tr_sender_address (cf_transfer_a p)"
    using n s(3) ab eq by (auto simp: conflict_fields_match_def)
  show "spend_key_for_transfer P (cf_transfer_a p) = Inr (cf_spend_key p)"
    using s(2,3) ab eq by (auto simp: conflict_fields_match_def)
  show "\<exists>ha hb. transfer_hash P (cf_transfer_a p) = Inr ha \<and> transfer_hash P (cf_transfer_b p) = Inr hb
      \<and> {cf_transfer_hash_a p, cf_transfer_hash_b p} = {ha, hb} \<and> cf_transfer_hash_a p < cf_transfer_hash_b p"
    using h(1,2) s(3) ab lt by (auto simp: conflict_fields_match_def)
qed


lemma check_conflict_any: "check_conflict_proof P p (Some n) = Inr x \<Longrightarrow> check_conflict_proof P p None = Inr x"
  unfolding check_conflict_proof_def if_Inl_Inr_iff bindE_Inr_iff option.case by auto

section \<open>Every double spend has a proof\<close>

lemma sorted_swap:
  assumes "sorted_conflicting_transfers P a b n = Inr r"
  shows "sorted_conflicting_transfers P b a n = Inr r"
proof -
  from assms obtain ha hb where *: "n = tr_network_id a" "rivals P a b" "transfer_hash P a = Inr ha" "transfer_hash P b = Inr hb"
      "r = (if hb < ha then (b, a, hb, ha) else (a, b, ha, hb))" unfolding sorted_Inr_iff by blast
  then have "ha \<noteq> hb" "n = tr_network_id b" by (auto simp: rivals_def signed_transfer_def)
  then have "r = (if ha < hb then (a, b, ha, hb) else (b, a, hb, ha))" using *(5) by (auto simp: not_less)
  with * \<open>n = tr_network_id b\<close> show ?thesis using rivals_sym unfolding sorted_Inr_iff by blast
qed

lemma conflict_bytes_ok:
  assumes "hash_ok P" and "transfer_hash P a = Inr ha" "transfer_hash P b = Inr hb" and "spend_key_for_transfer P a = Inr k"
    and "0 \<le> at" "at \<le> MAX_UVARINT"
  shows "is_ok (conflict_bytes P ((unhashed_conflict_proof n a b ha hb k at)\<lparr>cf_proof_hash := zero_hash\<rparr>))"
proof -
  from assms(2,3) have e: "\<exists>x. encode_transfer P a True = Inr x" "\<exists>x. encode_transfer P b True = Inr x"
    by (auto simp: transfer_hash_def bindE_Inr_iff)
  then have ok: "is_ok (encode_transfer_body P a True)" "is_ok (encode_transfer_body P b True)" "transfer_ok P a True None"
    and "is_ok (transfer_bytes a True)"
    by (auto simp: encode_transfer_Inr_iff encode_transfer_body_Inr_iff bindE_Inr_iff is_ok_iff)
  then have parts: "is_ok (encode_uvarint (tr_sequence a))" "is_ok (encode_ascii 128 (tr_sender_address a))"
    by (simp_all add: transfer_bytes_def joinE_ok del: joinE.simps)
  have "hash_text ha" "hash_text hb" "hash_text k"
    using transfer_hash_text [OF assms(1)] assms by (auto simp: spend_key_Inr_iff)
  with ok parts assms(5,6) show ?thesis
    by (simp add: conflict_bytes_def unhashed_conflict_proof_def joinE_ok encode_hash_is_ok encode_uvarint_is_ok transfer_ok_def
        del: joinE.simps)
qed

lemma unhashed_fields [simp]:
  "cf_network_id (unhashed_conflict_proof n a b ha hb k at) = n" "cf_transfer_a (unhashed_conflict_proof n a b ha hb k at) = a"
  "cf_transfer_b (unhashed_conflict_proof n a b ha hb k at) = b" "cf_detected_at (unhashed_conflict_proof n a b ha hb k at) = at"
  "cf_token_id (unhashed_conflict_proof n a b ha hb k at) = tr_token_id a"
  "cf_transfer_hash_a (unhashed_conflict_proof n a b ha hb k at) = ha" "cf_transfer_hash_b (unhashed_conflict_proof n a b ha hb k at) = hb"
  by (simp_all add: unhashed_conflict_proof_def)

text \<open>A sorted pair, as the proof holds it.\<close>

lemma sorted_proof_checks:
  assumes "hash_ok P" and "rivals P a b" and "transfer_hash P a = Inr ha" "transfer_hash P b = Inr hb" and "ha < hb"
    and "spend_key_for_transfer P a = Inr k" and "0 \<le> at" and "n = tr_network_id a"
    and h: "conflict_proof_hash P (unhashed_conflict_proof n a b ha hb k at) = Inr h"
  shows "check_conflict_proof P ((unhashed_conflict_proof n a b ha hb k at)\<lparr>cf_proof_hash := h\<rparr>) (Some n) = Inr True"
proof -
  let ?p = "(unhashed_conflict_proof n a b ha hb k at)\<lparr>cf_proof_hash := h\<rparr>"
  have s: "sorted_conflicting_transfers P a b n = Inr (a, b, ha, hb)" using assms by (auto simp: sorted_Inr_iff dest: less_asym)
  have ok: "transfer_ok P a True None" using assms(2) by (auto simp: rivals_def signed_transfer_def validate_transfer_shape_Inr_iff)
  have "hash_text ha" "hash_text hb" "hash_text k"
    using transfer_hash_text [OF assms(1)] assms by (auto simp: spend_key_Inr_iff)
  moreover have "conflict_fields_match ?p a b ha hb k"
    by (simp add: conflict_fields_match_def unhashed_conflict_proof_def same_transfer_def)
  moreover have "conflict_proof_hash P ?p = Inr h" using h by simp
  ultimately show ?thesis
    using ok s assms(6-8) unfolding check_conflict_proof_def
    by (simp add: bindE_Inr_iff split_beta hex32_Inr_iff require_int_Inr_iff validate_address_Inr_iff transfer_ok_def)
      (simp add: unhashed_conflict_proof_def)
qed

lemma rivals_proof:
  assumes "hash_ok P" and r: "rivals P t u" and at: "current_time P detected = Inr at"
    and "\<forall>e. expected = Some e \<longrightarrow> tr_network_id t = e"
  shows "\<exists>p. create_conflict_proof_from_transfers P t u detected expected = Inr p
    \<and> create_conflict_proof_from_transfers P u t detected expected = Inr p
    \<and> check_conflict_proof P p (Some (tr_network_id t)) = Inr True \<and> {cf_transfer_a p, cf_transfer_b p} = {t, u}"
proof -
  let ?n = "tr_network_id t"
  from r obtain ht hu k where tu: "transfer_hash P t = Inr ht" "transfer_hash P u = Inr hu" "ht \<noteq> hu"
      "spend_key_for_transfer P t = Inr k" "spend_key_for_transfer P u = Inr k" "tr_network_id u = ?n"
    by (auto simp: rivals_def signed_transfer_def)
  define q where "q = (if hu < ht then (u, t, hu, ht) else (t, u, ht, hu))"
  then obtain a b ha hb where q: "q = (a, b, ha, hb)" "rivals P a b" "transfer_hash P a = Inr ha" "transfer_hash P b = Inr hb" "ha < hb"
      "spend_key_for_transfer P a = Inr k" "{a, b} = {t, u}" "tr_network_id a = ?n"
    using tu r rivals_sym [OF r] by (cases "hu < ht") auto
  have s: "sorted_conflicting_transfers P t u ?n = Inr (a, b, ha, hb)" using tu r q(1) by (simp add: sorted_Inr_iff q_def)
  have s': "sorted_conflicting_transfers P u t ?n = Inr (a, b, ha, hb)" by (rule sorted_swap [OF s])
  have time: "0 \<le> at" "at \<le> MAX_UVARINT" using at by (auto simp: current_time_Inr_iff MAX_JSON_INTEGER_ABS_def MAX_UVARINT_def)
  from tu(1) obtain e where "encode_transfer P t True = Inr e" by (auto simp: transfer_hash_def bindE_Inr_iff)
  then have n: "0 \<le> ?n" "?n \<le> MAX_UVARINT"
    by (auto simp: encode_transfer_Inr_iff bindE_Inr_iff encode_envelope_Inr_iff encode_uvarint_Inr_iff)
  let ?p = "unhashed_conflict_proof ?n a b ha hb k at"
  have "is_ok (conflict_proof_hash P ?p)"
    by (rule conflict_hash_ok [OF conflict_bytes_ok [OF assms(1) q(3,4,6) time]]) (use n in simp_all)
  then obtain h where h: "conflict_proof_hash P ?p = Inr h" by (auto simp: is_ok_iff)
  have "\<not> (case expected of None \<Rightarrow> False | Some e \<Rightarrow> ?n \<noteq> e)" using assms(4) by (cases expected) auto
  then have "create_conflict_proof_from_transfers P t u detected expected = Inr (?p\<lparr>cf_proof_hash := h\<rparr>)"
    "create_conflict_proof_from_transfers P u t detected expected = Inr (?p\<lparr>cf_proof_hash := h\<rparr>)"
    using n(1) by (simp_all add: create_conflict_proof_from_transfers_def require_int_def s s' q(6) at h tu(6) Let_def)
  moreover have "check_conflict_proof P (?p\<lparr>cf_proof_hash := h\<rparr>) (Some ?n) = Inr True"
    by (rule sorted_proof_checks [OF assms(1) q(2-6) time(1) _ h]) (simp add: q(8))
  ultimately show ?thesis using q(7) by auto
qed

section \<open>The key of a proof\<close>

text \<open>The key depends neither on the detection time, nor on the order of the hashes, nor on the bodies.\<close>

lemma conflict_identity_swap:
  "conflict_identity (p\<lparr>cf_transfer_hash_a := cf_transfer_hash_b p, cf_transfer_hash_b := cf_transfer_hash_a p\<rparr>) = conflict_identity p"
  by (simp add: conflict_identity_def Let_def) (metis less_irrefl less_trans linorder_neqE)

lemma conflict_identity_norm:
  assumes "norm (conflict_identity p) = norm (conflict_identity q)"
  shows "cf_network_id p = cf_network_id q \<and> cf_token_id p = cf_token_id q \<and> cf_previous_hash p = cf_previous_hash q
    \<and> cf_sequence p = cf_sequence q \<and> cf_sender_address p = cf_sender_address q
    \<and> {cf_transfer_hash_a p, cf_transfer_hash_b p} = {cf_transfer_hash_a q, cf_transfer_hash_b q}"
  using assms by (auto simp: conflict_identity_def Let_def split: if_splits)


lemma conflict_of_conflict_json [simp]: "conflict_of_json (conflict_json p) = Inr p"
proof -
  have k: "require_exact_fields (conflict_json p) CONFLICT_PROOF_FIELDS ''ConflictProofV3'' = Inr ()"
    by (auto simp: require_exact_fields_def ensure_def conflict_json_def CONFLICT_PROOF_FIELDS_def)
  show ?thesis
    unfolding conflict_of_json_def k bindE_simps str_at_def int_at_def jat_def by (simp add: conflict_json_def)
qed

lemma conflict_key_Inr_iff: "conflict_proof_key P source = Inr k \<longleftrightarrow>
    (\<exists>p m. conflict_of P source = Inr p \<and> 0 \<le> cf_network_id p \<and> canonical_bytes (conflict_identity p) = Inr m \<and> k = sha3_hex P m)"
  by (auto simp: conflict_proof_key_def message_hash_def bindE_Inr_iff require_int_Inr_iff)

lemma conflict_key_commits:
  assumes "conflict_proof_key P s = Inr k" "conflict_proof_key P s' = Inr k"
    and "conflict_of P s = Inr p" "conflict_of P s' = Inr q"
    and "json_wf (conflict_identity p)" "json_wf (conflict_identity q)"
    and "\<And>m m'. canonical_bytes (conflict_identity p) = Inr m \<Longrightarrow> canonical_bytes (conflict_identity q) = Inr m'
      \<Longrightarrow> sha3_hex P m = sha3_hex P m' \<Longrightarrow> m = m'"
  shows "cf_network_id p = cf_network_id q \<and> cf_token_id p = cf_token_id q \<and> cf_previous_hash p = cf_previous_hash q
    \<and> cf_sequence p = cf_sequence q \<and> cf_sender_address p = cf_sender_address q
    \<and> {cf_transfer_hash_a p, cf_transfer_hash_b p} = {cf_transfer_hash_a q, cf_transfer_hash_b q}"
proof -
  from assms(1-4) obtain m m' where m: "canonical_bytes (conflict_identity p) = Inr m" "canonical_bytes (conflict_identity q) = Inr m'"
    "sha3_hex P m = sha3_hex P m'" by (auto simp: conflict_key_Inr_iff)
  with assms(7) have "m = m'" by blast
  with m have "norm (conflict_identity p) = norm (conflict_identity q)"
    using canonical_json_inject [OF assms(5,6)] by (auto simp: canonical_bytes_def bindE_Inr_iff)
  then show ?thesis by (rule conflict_identity_norm)
qed

section \<open>Conflicting branches of a bill\<close>

lemma first_rival_Inr:
  assumes "\<forall>a \<in> set as. is_ok (transfer_hash P a)" and "is_ok (transfer_hash P b)"
  shows "\<exists>r. first_rival P b as = Inr r \<and> (r = None \<longleftrightarrow> (\<forall>a \<in> set as. transfer_hash P a = transfer_hash P b))
    \<and> (\<forall>a. r = Some a \<longrightarrow> a \<in> set as \<and> transfer_hash P a \<noteq> transfer_hash P b)"
  using assms(1)
proof (induction as)
  case (Cons a as)
  then obtain r where r: "first_rival P b as = Inr r" "r = None \<longleftrightarrow> (\<forall>a \<in> set as. transfer_hash P a = transfer_hash P b)"
    "\<forall>a. r = Some a \<longrightarrow> a \<in> set as \<and> transfer_hash P a \<noteq> transfer_hash P b" by auto
  from Cons.prems assms(2) obtain ha hb where "transfer_hash P a = Inr ha" "transfer_hash P b = Inr hb" by (auto simp: is_ok_iff)
  with r show ?case by (cases "ha = hb") auto
qed simp

lemma first_rival_pair_Inr:
  assumes "\<forall>(k, a) \<in> set keyed. is_ok (transfer_hash P a)" and "\<forall>b \<in> set bs. is_ok (transfer_hash P b) \<and> is_ok (spend_key_for_transfer P b)"
    and "(k, t) \<in> set keyed" "u \<in> set bs" "spend_key_for_transfer P u = Inr k" "transfer_hash P t \<noteq> transfer_hash P u"
  shows "\<exists>a b k'. first_rival_pair P keyed bs = Inr (Some (a, b)) \<and> (k', a) \<in> set keyed \<and> b \<in> set bs
    \<and> spend_key_for_transfer P b = Inr k' \<and> transfer_hash P a \<noteq> transfer_hash P b"
  using assms(2,4)
proof (induction bs)
  case (Cons b bs)
  then obtain kb where kb: "spend_key_for_transfer P b = Inr kb" by (auto simp: is_ok_iff)
  let ?as = "map snd (filter (\<lambda>(k', _). k' = kb) keyed)"
  have as: "\<forall>a \<in> set ?as. is_ok (transfer_hash P a)" using assms(1) by auto
  have b: "is_ok (transfer_hash P b)" using Cons.prems(1) by simp
  from first_rival_Inr [OF as b] obtain r where r: "first_rival P b ?as = Inr r"
    "r = None \<longleftrightarrow> (\<forall>a \<in> set ?as. transfer_hash P a = transfer_hash P b)"
    "\<forall>a. r = Some a \<longrightarrow> a \<in> set ?as \<and> transfer_hash P a \<noteq> transfer_hash P b" by blast
  show ?case
  proof (cases r)
    case None
    have "u \<noteq> b"
    proof
      assume "u = b"
      then have "t \<in> set ?as" using assms(3,5) kb by force
      with r(2) None assms(6) \<open>u = b\<close> show False by blast
    qed
    with Cons.prems Cons.IH obtain a b' k' where "first_rival_pair P keyed bs = Inr (Some (a, b'))" "(k', a) \<in> set keyed"
      "b' \<in> set bs" "spend_key_for_transfer P b' = Inr k'" "transfer_hash P a \<noteq> transfer_hash P b'" by auto
    with kb r(1) None show ?thesis by auto
  next
    case (Some a)
    with r kb show ?thesis by auto
  qed
qed simp

lemma chain_transfer_signed:
  assumes "chain P tok n now True s ts s'" and "t \<in> set ts" and "is_ok (spend_key_for_transfer P t)"
  shows "\<exists>h k. transfer_hash P t = Inr h \<and> transfer_ok P t True now \<and> authorised P True t \<and> tr_network_id t = n \<and> tr_token_id t = tok
    \<and> spend_key_for_transfer P t = Inr k"
  using assms by (induction rule: chain.induct) (auto simp: link_def is_ok_iff)

lemma spend_material_wf: "transfer_ok P t r now \<Longrightarrow> json_wf (spend_key_material t)"
proof -
  assume ok: "transfer_ok P t r now"
  then have "is_ascii (tr_token_id t)" "is_ascii (tr_previous_hash t)" "is_ascii (tr_sender_address t)"
    using fromhex_ascii valid_address_text(2) by (auto simp: transfer_ok_def hex64_def)
  moreover have "is_ascii ''token_id''" "is_ascii ''previous_hash''" "is_ascii ''sequence''" "is_ascii ''sender_address''"
    by (simp_all add: is_ascii_def code_def)
  ultimately show ?thesis by (simp add: spend_key_material_def)
qed

text \<open>
  Two bills that verify and whose recent transfers spend one state twice have a conflict proof, when
  their spend keys can be computed and do not collide.
\<close>

lemma branches_conflict:
  assumes "hash_ok P" and va: "verify_bill_state d P T C source given expected None = Inr s"
    and vb: "verify_bill_state d P T C source' given' expected None = Inr s'"
    and ab: "bill_of P source = Inr a" "bill_of P source' = Inr b" "bl_token_id a = bl_token_id b" "bl_network_id a = bl_network_id b"
    and at: "current_time P detected = Inr at"
    and keys: "\<forall>t \<in> set (bl_recent_transfers a) \<union> set (bl_recent_transfers b). is_ok (spend_key_for_transfer P t)"
    and collide: "\<forall>t \<in> set (bl_recent_transfers a). \<forall>u \<in> set (bl_recent_transfers b).
      spend_key_for_transfer P t = spend_key_for_transfer P u \<longrightarrow> spend_key_preimage t = spend_key_preimage u"
    and tu: "t \<in> set (bl_recent_transfers a)" "u \<in> set (bl_recent_transfers b)" "rivals P t u"
  shows "\<exists>p. create_conflict_proof d P T C source source' detected given given' expected = Inr p
    \<and> check_conflict_proof P p expected = Inr True
    \<and> {cf_transfer_a p, cf_transfer_b p} \<subseteq> set (bl_recent_transfers a) \<union> set (bl_recent_transfers b)"
proof -
  let ?A = "bl_recent_transfers a" and ?B = "bl_recent_transfers b" and ?n = "bl_network_id a"
  have ca: "\<exists>m. chain P (bl_token_id a) ?n None True m ?A s" and cb: "\<exists>m. chain P (bl_token_id a) ?n None True m ?B s'"
    using va vb ab by (auto simp: verify_bill_state_Inr_iff replay_iff_chain)
  have exp: "\<forall>e. expected = Some e \<longrightarrow> ?n = e" using va ab by (auto simp: verify_bill_state_Inr_iff)
  have signed: "\<exists>h k. transfer_hash P x = Inr h \<and> transfer_ok P x True None \<and> authorised P True x \<and> tr_network_id x = ?n
      \<and> tr_token_id x = bl_token_id a \<and> spend_key_for_transfer P x = Inr k" if "x \<in> set ?A \<union> set ?B" for x
    using that ca cb keys chain_transfer_signed by blast
  define keyed where "keyed = map (\<lambda>x. (projr (spend_key_for_transfer P x), x)) ?A"
  have keyed: "mapE (\<lambda>x. bindE (spend_key_for_transfer P x) (\<lambda>k. Inr (k, x))) ?A = Inr keyed"
  proof -
    have "bindE (spend_key_for_transfer P x) (\<lambda>k. Inr (k, x)) = Inr (projr (spend_key_for_transfer P x), x)"
      if "x \<in> set ?A" for x
    proof -
      from that signed obtain k where "spend_key_for_transfer P x = Inr k" by blast
      then show ?thesis by simp
    qed
    then show ?thesis unfolding mapE_Inr_iff keyed_def by (simp add: list_all2_conv_all_nth)
  qed
  have members: "(k, x) \<in> set keyed \<longleftrightarrow> x \<in> set ?A \<and> spend_key_for_transfer P x = Inr k" for k x
    using signed by (force simp: keyed_def)
  from tu(3) obtain k where k: "spend_key_for_transfer P t = Inr k" "spend_key_for_transfer P u = Inr k"
    "transfer_hash P t \<noteq> transfer_hash P u" by (auto simp: rivals_def signed_transfer_def)
  have "\<exists>x y k'. first_rival_pair P keyed ?B = Inr (Some (x, y)) \<and> (k', x) \<in> set keyed \<and> y \<in> set ?B
      \<and> spend_key_for_transfer P y = Inr k' \<and> transfer_hash P x \<noteq> transfer_hash P y"
  proof (rule first_rival_pair_Inr [OF _ _ _ tu(2) k(2,3)])
    show "\<forall>(k, x) \<in> set keyed. is_ok (transfer_hash P x)" using members signed by (fastforce simp: is_ok_iff)
    show "\<forall>y \<in> set ?B. is_ok (transfer_hash P y) \<and> is_ok (spend_key_for_transfer P y)"
      using signed unfolding is_ok_iff by blast
    show "(k, t) \<in> set keyed" using members tu(1) k(1) by blast
  qed
  then obtain x y k' where xy: "first_rival_pair P keyed ?B = Inr (Some (x, y))" "x \<in> set ?A" "y \<in> set ?B"
      "spend_key_for_transfer P x = Inr k'" "spend_key_for_transfer P y = Inr k'" "transfer_hash P x \<noteq> transfer_hash P y"
    unfolding members by blast
  then have pre: "spend_key_preimage x = spend_key_preimage y" using collide by simp
  obtain m where m: "spend_key_preimage x = Inr m" using xy(4) by (auto simp: spend_key_Inr_iff)
  have x: "x \<in> set ?A \<union> set ?B" "y \<in> set ?A \<union> set ?B" using xy(2,3) by blast+
  note sx = signed [OF x(1)] and sy = signed [OF x(2)]
  have "rivals P x y"
    unfolding rivals_def signed_transfer_def
    using sx sy xy(4-6) spend_key_preimage_inject [OF _ _ m] m pre spend_material_wf
    by (auto simp: verify_transfer_signature_Inr_iff validate_transfer_shape_Inr_iff)
  moreover have net: "tr_network_id x = ?n" using sx by blast
  moreover have "\<forall>e. expected = Some e \<longrightarrow> tr_network_id x = e" using exp net by simp
  ultimately obtain p where p: "create_conflict_proof_from_transfers P x y detected expected = Inr p"
      "check_conflict_proof P p (Some ?n) = Inr True" "{cf_transfer_a p, cf_transfer_b p} = {x, y}"
    using rivals_proof [OF assms(1) _ at, of x y expected] by auto
  have "verify_bill_state d P T C (Bill_Object a) given expected None = Inr s"
    "verify_bill_state d P T C (Bill_Object b) given' expected None = Inr s'"
    using va vb ab by (simp_all add: verify_bill_state_def)
  then have "create_conflict_proof d P T C source source' detected given given' expected = Inr p"
    using ab(1-3) p(1) keyed xy(1) by (simp add: create_conflict_proof_def find_conflicting_transfer_pair_def)
  moreover have "check_conflict_proof P p expected = Inr True"
    using p(2) exp check_conflict_any by (cases expected) auto
  ultimately show ?thesis using p(3) xy(2,3) by auto
qed

end
