(* ===== verification/AnnouncementLaws.thy ===== *)
theory AnnouncementLaws
  imports Announcements ConflictLaws
begin

text \<open>
  What holds of gossip: a message that was made decodes to what it was made from; what decoders return has canonical
  hash texts; and a message that verification accepts passes the shape check that guards the queue.
\<close>

section \<open>What decoders return\<close>

lemmas field_accepts = codec_accepts accepts_bindI [OF accepts_bytes] accepts_bindI [OF accepts_lift]
  accepts_bindI [OF accepts_fixed] accepts_returnI

lemma public_key_accepts: "accepts (read_public_key l) (\<lambda>bs k. True)"
  unfolding read_public_key_def by (rule accepts_weaken [OF accepts_bind [OF accepts_fixed accepts_lift]]) simp

lemma signature_accepts: "accepts (if s then read_signature_hex l else rreturn []) (\<lambda>bs k. True)"
  unfolding read_signature_hex_def
  by (cases s) (simp_all add: accepts_weaken [OF accepts_bind [OF accepts_fixed accepts_return]] accepts_returnI)

lemma transfer_accepts: "accepts (decode_transfer_body P s n) (\<lambda>bs t. tr_network_id t = n)"
  unfolding decode_transfer_body_def
  by (intro field_accepts accepts_bindI [OF public_key_accepts] accepts_bindI [OF signature_accepts] allI impI) simp

lemma many_accepts: "accepts p R \<Longrightarrow> accepts (read_many p n) (\<lambda>bs xs. True)"
proof (induction n)
  case (Suc n)
  show ?case
    unfolding read_many.simps
    by (rule accepts_bindI [OF Suc.prems], rule accepts_bindI [OF Suc.IH [OF Suc.prems]], rule accepts_returnI) simp
qed (simp add: accepts_returnI)

lemma decode_bill_fields:
  assumes "decode_bill P bs = Inr b"
  shows "is_ok (encode_proof_bundle_ref_body (bl_proof_bundle_ref b))" and "hash_text (bl_token_id b)"
proof -
  have "accepts (rbind (read_envelope BILL_MAGIC ''BillV3'') (decode_bill_body P))
      (\<lambda>bs b. is_ok (encode_proof_bundle_ref_body (bl_proof_bundle_ref b)) \<and> hash_text (bl_token_id b))"
    unfolding decode_bill_body_def
    by (intro accepts_bindI [OF accepts_envelope] field_accepts accepts_bindI [OF genesis_ref_accepts]
        accepts_bindI [OF checkpoint_core_accepts] accepts_bindI [OF bundle_ref_accepts]
        accepts_bindI [OF many_accepts [OF transfer_accepts]] allI impI) (simp add: is_ok_iff)
  from accepts_decode_all [OF this] assms
  show "is_ok (encode_proof_bundle_ref_body (bl_proof_bundle_ref b))" "hash_text (bl_token_id b)"
    by (auto simp: decode_bill_def or_raise_malformed_Inr)
qed

lemma embedded_accepts: "accepts (read_embedded_segment P) (\<lambda>bs s. True)"
  unfolding read_embedded_segment_def
  by (intro accepts_bindI [OF accepts_read] accepts_if field_accepts accepts_failI allI impI) simp_all

lemma source_accepts: "accepts (decode_archive_segment_source_body P n)
    (\<lambda>bs e. se_network_id e = n \<and> hash_text (se_archive_segment_hash e) \<and> hash_text (se_source_checkpoint_hash e))"
  unfolding decode_archive_segment_source_body_def
  by (intro field_accepts accepts_bindI [OF embedded_accepts] allI impI) simp

lemma decode_bundle_fields:
  assumes "decode_proof_bundle P bs = Inr b"
  shows "hash_text (se_archive_segment_hash (pb_source_evidence b))"
proof -
  have "accepts (rbind (read_header ProofBundleV3Error PROOF_BUNDLE_MAGIC ''proof bundle magic'' ''proof bundle'')
       (decode_proof_bundle_body P)) (\<lambda>bs b. hash_text (se_archive_segment_hash (pb_source_evidence b)))"
    unfolding decode_proof_bundle_body_def
    by (intro accepts_bindI [OF accepts_header] field_accepts accepts_bindI [OF source_accepts] allI impI) simp
  from accepts_decode_all [OF this] assms show ?thesis by (simp add: decode_proof_bundle_def)
qed

section \<open>The envelope\<close>

lemma require_exact_fields_Inr_iff: "require_exact_fields j fs l = Inr u \<longleftrightarrow> is_dict j \<and> set (dict_keys j) = set fs"
  by (simp add: require_exact_fields_def ensure_def)

lemma require_envelope_Inr_iff:
  "require_v3_payload_envelope m fs ty l = Inr n \<longleftrightarrow> is_dict m \<and> set (dict_keys m) = set fs
     \<and> jget m ''type'' = Some (JStr ty) \<and> jget m ''version'' = Some (JInt VERSION)
     \<and> jget m ''network_id'' = Some (JInt n) \<and> 0 \<le> n \<and> jget m ''payload_encoding'' = Some (JStr V3_PAYLOAD_ENCODING)
     \<and> (\<exists>a. jget m ''announced_at'' = Some (JInt a) \<and> 0 \<le> a)"
  unfolding require_v3_payload_envelope_def bindE_Inr_iff if_Inl_Inr_iff require_exact_fields_Inr_iff jat_Inr_iff
    require_int_for_Inr_iff by auto

lemma network_differs_iff: "network_differs expected n \<longleftrightarrow> \<not> (\<forall>e. expected = Some e \<longrightarrow> n = e)"
  by (cases expected) (auto simp: network_differs_def)

lemma payload_wire [simp]: "payload_bytes (wire_json blob) = Inr blob"
  by (simp add: payload_bytes_def wire_json_def)

lemma decode_payload_wire [simp]: "decode_payload f (wire_json blob) = f blob"
  by (simp add: decode_payload_def)

lemma string_payload_Inr_iff: "string_payload f j l = Inr x \<longleftrightarrow> decode_payload f j = Inr x"
  by (cases j) (auto simp: string_payload_def decode_payload_def payload_bytes_def)

lemma wire_not_null [simp]: "wire_json blob \<noteq> JNull"
  by (simp add: wire_json_def)

lemma decode_transfer_announcement_Inr_iff:
  "decode_transfer_announcement P m = Inr (b, pb, segs) \<longleftrightarrow>
     (\<exists>n. require_v3_payload_envelope m TRANSFER_ANNOUNCEMENT_FIELDS TRANSFER_ANNOUNCEMENT_TYPE ''TransferAnnouncementV3'' = Inr n)
     \<and> (\<exists>j p a. jget m ''bill'' = Some j \<and> decode_payload (decode_bill P) j = Inr b
        \<and> jget m ''proof_bundle'' = Some p
        \<and> (if p = JNull then pb = None else \<exists>x. decode_payload (decode_proof_bundle P) p = Inr x \<and> pb = Some x)
        \<and> jget m ''archive_segments'' = Some (JList a) \<and> mapE (decode_payload (decode_archive_segment P)) a = Inr segs)"
proof -
  have l: "require_payload_list a msg = Inr vs \<longleftrightarrow> a = JList vs" for a msg vs
    by (cases a) (auto simp: require_payload_list_def)
  have p: "(if p = JNull then Inr None else bindE (decode_payload (decode_proof_bundle P) p) (\<lambda>x. Inr (Some x))) = Inr pb
      \<longleftrightarrow> (if p = JNull then pb = None else \<exists>x. decode_payload (decode_proof_bundle P) p = Inr x \<and> pb = Some x)" for p pb
    by (auto simp: bindE_Inr_iff)
  show ?thesis
    unfolding decode_transfer_announcement_def bindE_Inr_iff jat_Inr_iff l p by blast
qed

section \<open>Made messages decode\<close>

lemma mapE_wire_segments:
  assumes "mapE (\<lambda>s. bindE (encode_archive_segment P s True) (\<lambda>blob. Inr (wire_json blob))) segs = Inr js"
    and "\<forall>s \<in> set segs. archive_shape s"
  shows "mapE (decode_payload (decode_archive_segment P)) js = Inr segs"
  using assms
proof (induction segs arbitrary: js)
  case (Cons s segs)
  from Cons.prems(1) obtain blob rest where "encode_archive_segment P s True = Inr blob" "js = wire_json blob # rest"
    "mapE (\<lambda>s. bindE (encode_archive_segment P s True) (\<lambda>blob. Inr (wire_json blob))) segs = Inr rest"
    by (auto simp: bindE_Inr_iff)
  with Cons.IH [of rest] Cons.prems(2) decode_encode_archive [of s P blob] show ?case by simp
qed simp

lemma made_transfer_announcement:
  assumes "create_transfer_announcement P (Bill_Object b) None segs now = Inr m"
    and "bill_shape b" and "\<forall>s \<in> set segs. archive_shape s"
  shows "decode_transfer_announcement P m = Inr (b, None, segs)"
    and "require_v3_payload_envelope m TRANSFER_ANNOUNCEMENT_FIELDS TRANSFER_ANNOUNCEMENT_TYPE ''TransferAnnouncementV3''
      = Inr (bl_network_id b)"
proof -
  from assms(1) obtain js blob at where n: "0 \<le> bl_network_id b"
    and js: "mapE (\<lambda>s. bindE (encode_archive_segment P s True) (\<lambda>blob. Inr (wire_json blob))) segs = Inr js"
    and blob: "encode_bill P b = Inr blob" and at: "current_time P now = Inr at"
    and m: "m = JDict [(''type'', JStr TRANSFER_ANNOUNCEMENT_TYPE), (''version'', JInt VERSION), (''network_id'', JInt (bl_network_id b)),
       (''payload_encoding'', JStr V3_PAYLOAD_ENCODING), (''bill'', wire_json blob), (''proof_bundle'', JNull),
       (''archive_segments'', JList js), (''announced_at'', JInt at)]"
    unfolding create_transfer_announcement_def bindE_Inr_iff if_Inl_Inr_iff require_int_Inr_iff by auto
  have at0: "0 \<le> at" using at by (simp add: current_time_Inr_iff)
  show env: "require_v3_payload_envelope m TRANSFER_ANNOUNCEMENT_FIELDS TRANSFER_ANNOUNCEMENT_TYPE ''TransferAnnouncementV3''
      = Inr (bl_network_id b)"
    unfolding require_envelope_Inr_iff using n at0 by (simp add: m TRANSFER_ANNOUNCEMENT_FIELDS_def)
  show "decode_transfer_announcement P m = Inr (b, None, segs)"
    unfolding decode_transfer_announcement_Inr_iff env
    using decode_encode_bill [OF assms(2) blob] mapE_wire_segments [OF js assms(3)] by (simp add: m)
qed

section \<open>What verification accepts passes the shape check\<close>

lemma check_payload_network_Inr_iff: "check_payload_network m n l = Inr u \<longleftrightarrow> 0 \<le> m \<and> m = n"
  unfolding check_payload_network_def bindE_Inr_iff require_int_Inr_iff if_Inl_Inr_iff by auto

lemma archive_header_Inr:
  assumes "validate_archive_header P s (Some n) = Inr m"
  shows "0 \<le> ar_network_id s" and "archive_segment_hash P s = Inr (ar_segment_hash s)"
  using assms by (simp_all add: validate_archive_header_def bindE_Inr_iff archive_require_int_Inr_iff split: if_splits)

lemma verified_segment_passes:
  assumes "verify_archive_segment d P s (Some n) prev R None = Inr core"
  shows "checkpoint_from_archive_segment_payload P s n = Inr core"
proof -
  from assms obtain k where d: "d = Suc k" by (cases d) simp_all
  note v = assms [unfolded d verify_archive_Suc]
  from v have n: "n = ar_network_id s" and h: "validate_archive_header P s (Some n) = Inr n" by blast+
  from archive_header_Inr [OF h] n have "ar_network_id s = n" "0 \<le> n" "archive_segment_hash P s = Inr (ar_segment_hash s)"
    by simp_all
  moreover from v obtain final where
    "verify_transfer_sequence_from_state P (ar_token_id s) (ar_base_state s) (ar_transfers s) (ar_network_id s) None = Inr final"
    "st_sequence final = ar_end_sequence s" "st_value final = ar_value s" "st_display_id final = ar_display_id s"
    "checkpoint_core_from_state P (ar_token_id s) (gr_genesis_hash (ar_genesis_ref s)) final
       (ar_previous_checkpoint_hash s) (ar_network_id s) = Inr core" "cp_checkpoint_hash core = ar_checkpoint_hash s"
    unfolding segment_ok_def by blast
  moreover have "validate_display_id_issue_index P (ar_display_id s) (ar_value s) (gr_issue_index (ar_genesis_ref s)) l
      = Inr (ar_value s, gr_issue_index (ar_genesis_ref s))" for l
    using v by (simp add: validate_display_id_issue_index_Inr_iff)
  moreover have "validate_genesis_ref P (ar_genesis_ref s) n = Inr ()" using v by blast
  ultimately show ?thesis
    by (simp add: checkpoint_from_archive_segment_payload_def check_payload_network_def require_int_def or_raise_def)
qed

lemma proven_core_hash:
  assumes "hash_ok P" and "verify_proof_bundle d P T C pb expected (Some n) seen = Inr core"
  shows "checkpoint_ok P core" and "checkpoint_core_hash P core = Inr (cp_checkpoint_hash core)"
proof -
  from verified_bundle_source(1) [OF assms(2)] obtain d' s where
    "verify_archive_segment d' P s (Some (pb_network_id pb)) None \<lparr>rs_segment = ctx_segments C, rs_checkpoint = None\<rparr> None = Inr core"
    by blast
  from verify_archive_core(1) [OF this] obtain final where "checkpoint_core_from_state P (ar_token_id s) (gr_genesis_hash (ar_genesis_ref s)) final
       (ar_previous_checkpoint_hash s) (ar_network_id s) = Inr core" unfolding segment_ok_def by blast
  from checkpoint_from_state_valid [OF assms(1) this] show "checkpoint_ok P core"
    "checkpoint_core_hash P core = Inr (cp_checkpoint_hash core)" .
qed

lemma any_pin: "verify_signed_root P T root key = Inr () \<Longrightarrow> verify_signed_root P T root None = Inr ()"
  by (auto simp: verify_signed_root_Inr_iff pinned_def)

lemma verified_bundle_passes:
  assumes "hash_ok P" and v: "verify_proof_bundle d P T C pb expected (Some n) seen = Inr core"
    and "hash_text (se_archive_segment_hash (pb_source_evidence pb))"
  shows "validate_proof_bundle_payload P T pb n = Inr ()"
proof -
  from v obtain k where d: "d = Suc k" by (cases d) simp_all
  note b = v [unfolded d verify_bundle_Suc]
  let ?e = "pb_source_evidence pb"
  from b have n: "pb_network_id pb = n" "0 \<le> n" and hash: "proof_bundle_hash P pb = Inr (pb_proof_bundle_hash pb)" by auto
  from b obtain key where "verify_signed_root P T (pb_signed_root pb) key = Inr ()" unfolding spend_proof_Inr_iff by blast
  then have root: "verify_signed_root P T (pb_signed_root pb) None = Inr ()" by (rule any_pin)
  from b have "verify_source_evidence k P C (\<lambda>b ch n' seen'. verify_proof_bundle k P T C b (Some ch) (Some n') seen')
      ?e n (insert (pb_proof_bundle_hash pb) seen) = Inr core" using n(1) by blast
  note e = this [unfolded verify_source_Inr_iff]
  have "case se_archive_segment ?e of None \<Rightarrow> True
      | Some s \<Rightarrow> checkpoint_from_archive_segment_payload P s n = Inr core \<and> se_archive_segment_hash ?e = ar_segment_hash s"
  proof (cases "se_archive_segment ?e")
    case (Some s)
    with e assms(3) have "archive_segment_hash P s = Inr (se_archive_segment_hash ?e)"
      and vs: "verify_archive_segment k P s (Some n) None \<lparr>rs_segment = ctx_segments C, rs_checkpoint = None\<rparr> None = Inr core"
      by (auto simp: source_segment_def)
    moreover from vs have "archive_segment_hash P s = Inr (ar_segment_hash s)"
      by (cases k) (simp, metis verify_archive_Suc archive_header_Inr(2))
    ultimately show ?thesis using Some verified_segment_passes [OF vs] by simp
  qed simp
  moreover have "se_network_id ?e = n" "se_source_checkpoint_hash ?e = cp_checkpoint_hash core" using e by blast+
  ultimately show ?thesis
    using n root hash
    by (cases "se_archive_segment ?e")
      (simp_all add: validate_proof_bundle_payload_def check_payload_network_def require_int_def or_raise_def verify_self_hash_def Let_def)
qed

lemma verified_bill_passes:
  assumes "hash_ok P" and v: "verify_bill_state d P T C (Bill_Object b) given (Some n) None = Inr s"
    and "is_ok (encode_proof_bundle_ref_body (bl_proof_bundle_ref b))" and "bl_recent_transfers b \<noteq> []"
  shows "validate_transfer_bill_payload P b n = Inr ()"
proof -
  from v obtain pb where b: "bill_ok P b" "bl_network_id b = n"
      "verify_proof_bundle d P T C pb (Some (cp_checkpoint_hash (bl_checkpoint_core b))) (Some n) {} = Inr (bl_checkpoint_core b)"
      "bl_token_id b = cp_token_id (bl_checkpoint_core b)"
      "gr_genesis_hash (bl_genesis_ref b) = cp_genesis_hash (bl_checkpoint_core b)"
      "replay_transfer_sequence P (bl_token_id b) (initial_state_from_checkpoint_core (bl_checkpoint_core b))
            (bl_recent_transfers b) n None True = Inr s"
    unfolding verify_bill_state_Inr_iff by auto
  note h = proven_core_hash [OF assms(1) b(3)]
  have n: "0 \<le> n" using b(1,2) by (auto simp: bill_ok_def)
  have net: "check_payload_network n n l = Inr ()" for l using n by (simp add: check_payload_network_def require_int_def)
  have core: "validate_checkpoint_payload P (bl_checkpoint_core b) n l = Inr ()" for l
    using b(1,2) h net unfolding validate_checkpoint_payload_def bill_ok_def
    by (simp add: bindE_Inr_iff validate_checkpoint_core_Inr_iff)
  have display: "\<exists>x. validate_checkpoint_genesis_display_id P (bl_genesis_ref b) (bl_checkpoint_core b) l = Inr x" for l
    using b(1) unfolding bill_ok_def validate_checkpoint_genesis_display_id_def bindE_Inr_iff require_bill_value_Inr_iff
      validate_display_id_issue_index_Inr_iff by (auto simp: valid_bill_def)
  from assms(3) obtain r where "encode_proof_bundle_ref_body (bl_proof_bundle_ref b) = Inr r" by (auto simp: is_ok_iff)
  with display show ?thesis
    unfolding validate_transfer_bill_payload_def bindE_Inr_iff if_Inl_Inr_iff
    using b net core assms(4) by (auto simp: bill_ok_def verify_transfer_sequence_from_state_def)
qed

lemma segments_pass:
  assumes "mapE (decode_payload (decode_archive_segment P)) js = Inr segs"
    and "\<forall>s \<in> set segs. is_ok (checkpoint_from_archive_segment_payload P s n)"
  shows "\<exists>r. mapE (\<lambda>(i, j). decode_archive_segment_payload P j n (segment_label i)) (enumerate k js) = Inr r"
  using assms
proof (induction js arbitrary: segs k)
  case (Cons j js)
  from Cons.prems(1) obtain s rest where s: "decode_payload (decode_archive_segment P) j = Inr s" "segs = s # rest"
    "mapE (decode_payload (decode_archive_segment P)) js = Inr rest" by (auto simp: bindE_Inr_iff)
  with Cons.prems(2) obtain core where core: "checkpoint_from_archive_segment_payload P s n = Inr core" by (auto simp: is_ok_iff)
  then have "check_payload_network (ar_network_id s) n l = Inr ()" for l
    unfolding checkpoint_from_archive_segment_payload_def bindE_Inr_iff check_payload_network_Inr_iff by auto
  with core s(1) have "decode_archive_segment_payload P j n (segment_label k) = Inr s"
    by (simp add: decode_archive_segment_payload_def bindE_Inr_iff string_payload_Inr_iff)
  moreover from Cons.IH [OF s(3)] Cons.prems(2) s(2) obtain r where
    "mapE (\<lambda>(i, j). decode_archive_segment_payload P j n (segment_label i)) (enumerate (Suc k) js) = Inr r" by auto
  ultimately show ?case by simp
qed simp

lemma gossip_known_type:
  assumes "require_v3_payload_envelope m fs ty l = Inr n" and "envelope_specs ty = Some (fs, l)" and "ty \<noteq> CONFLICT_PROOF_TYPE"
    and "ty = TRANSFER_ANNOUNCEMENT_TYPE \<or> ty = CHECKPOINT_ANNOUNCEMENT_TYPE \<Longrightarrow> jget m ''archive_segments'' = Some (JList js)"
    and "\<And>ss. (ty = TRANSFER_ANNOUNCEMENT_TYPE \<or> ty = CHECKPOINT_ANNOUNCEMENT_TYPE \<Longrightarrow> ss = js) \<Longrightarrow> validate_payloads P T m ty ss n = Inr ()"
  shows "validate_gossip_envelope_shape P T m = Inr True"
proof -
  have "gossip_type m = Inr (Some ty)" using assms(1) by (simp add: require_envelope_Inr_iff gossip_type_def)
  then show ?thesis
    using assms by (auto simp: validate_gossip_envelope_shape_def jat_def require_payload_list_def)
qed

lemmas type_names_defs = TRANSFER_ANNOUNCEMENT_TYPE_def CHECKPOINT_ANNOUNCEMENT_TYPE_def PROOF_BUNDLE_ANNOUNCEMENT_TYPE_def
  ARCHIVE_SEGMENT_ANNOUNCEMENT_TYPE_def CONFLICT_PROOF_TYPE_def

lemma verified_transfer_announcement_parts:
  assumes "verify_transfer_announcement d P T C m expected now = Inr (b, pb, segs, tk)"
  shows "\<exists>n resolver s. require_v3_payload_envelope m TRANSFER_ANNOUNCEMENT_FIELDS TRANSFER_ANNOUNCEMENT_TYPE ''TransferAnnouncementV3'' = Inr n
    \<and> decode_transfer_announcement P m = Inr (b, pb, segs) \<and> embedded_archive_resolver P segs (ctx_segments C) = Inr resolver
    \<and> verify_bill_state d P T (C\<lparr>ctx_segments := Some resolver\<rparr>) (Bill_Object b) pb (Some n) now = Inr s
    \<and> tk = token_state_from_v3_state (bl_token_id b) s \<and> bl_recent_transfers b \<noteq> [] \<and> (\<forall>e. expected = Some e \<longrightarrow> n = e)"
  using assms unfolding verify_transfer_announcement_def split_beta bindE_Inr_iff if_Inl_Inr_iff network_differs_iff verify_bill_Inr_iff
  by auto

lemma verified_transfer_announcement_passes:
  assumes "hash_ok P" and v: "verify_transfer_announcement d P T C m expected None = Inr (b, pb, segs, tk)"
    and segs: "\<forall>s \<in> set segs. is_ok (checkpoint_from_archive_segment_payload P s (bl_network_id b))"
  shows "validate_gossip_envelope_shape P T m = Inr True"
proof -
  from verified_transfer_announcement_parts [OF v] obtain n resolver s where
      env: "require_v3_payload_envelope m TRANSFER_ANNOUNCEMENT_FIELDS TRANSFER_ANNOUNCEMENT_TYPE ''TransferAnnouncementV3'' = Inr n"
    and dec: "decode_transfer_announcement P m = Inr (b, pb, segs)"
    and vb: "verify_bill_state d P T (C\<lparr>ctx_segments := Some resolver\<rparr>) (Bill_Object b) pb (Some n) None = Inr s"
    and ne: "bl_recent_transfers b \<noteq> []" by blast
  from dec obtain j p a where j: "jget m ''bill'' = Some j" "decode_payload (decode_bill P) j = Inr b" "jget m ''proof_bundle'' = Some p"
      "if p = JNull then pb = None else \<exists>x. decode_payload (decode_proof_bundle P) p = Inr x \<and> pb = Some x"
      "jget m ''archive_segments'' = Some (JList a)" "mapE (decode_payload (decode_archive_segment P)) a = Inr segs"
    unfolding decode_transfer_announcement_Inr_iff by blast
  have n: "bl_network_id b = n" using vb by (auto simp: verify_bill_state_Inr_iff)
  from j(2) obtain bs where "decode_bill P bs = Inr b" by (auto simp: decode_payload_def bindE_Inr_iff)
  from verified_bill_passes [OF assms(1) vb decode_bill_fields(1) [OF this] ne]
  have bill: "validate_transfer_bill_payload P b n = Inr ()" .
  have ref: "(if p = JNull then Inr () else
       bindE (decode_proof_bundle_payload P T p n ''ProofBundleV3'') (\<lambda>bundle.
       verify_proof_bundle_ref P (bl_proof_bundle_ref b) bundle (Some n))) = Inr ()"
  proof (cases "p = JNull")
    case False
    with j(4) obtain x where x: "decode_payload (decode_proof_bundle P) p = Inr x" "pb = Some x" by auto
    with vb n have vx: "verify_proof_bundle_ref P (bl_proof_bundle_ref b) x (Some n) = Inr ()"
      "verify_proof_bundle d P T (C\<lparr>ctx_segments := Some resolver\<rparr>) x (Some (cp_checkpoint_hash (bl_checkpoint_core b))) (Some n) {}
            = Inr (bl_checkpoint_core b)"
      by (auto simp: verify_bill_state_Inr_iff bill_bundle_def)
    from x(1) obtain bs where "decode_proof_bundle P bs = Inr x" by (auto simp: decode_payload_def bindE_Inr_iff)
    from verified_bundle_passes [OF assms(1) vx(2) decode_bundle_fields [OF this]]
    have pass: "validate_proof_bundle_payload P T x n = Inr ()" .
    then have "check_payload_network (pb_network_id x) n l = Inr ()" for l
      unfolding validate_proof_bundle_payload_def bindE_Inr_iff check_payload_network_Inr_iff by auto
    with pass x(1) have "decode_proof_bundle_payload P T p n ''ProofBundleV3'' = Inr x"
      by (simp add: decode_proof_bundle_payload_def bindE_Inr_iff string_payload_Inr_iff)
    with vx(1) False show ?thesis by simp
  qed simp
  from segments_pass [OF j(6)] segs n obtain r where
    r: "mapE (\<lambda>(i, j). decode_archive_segment_payload P j n (segment_label i)) (enumerate 0 a) = Inr r" by blast
  have "string_payload (decode_bill P) j l = Inr b" for l using j(2) by (simp add: string_payload_Inr_iff)
  with bill ref r j(1,3) have "validate_transfer_payloads P T m a n = Inr ()"
    by (simp add: validate_transfer_payloads_def jat_def)
  then show ?thesis
    by (intro gossip_known_type [OF env, of a]) (simp_all add: envelope_specs_def validate_payloads_def j(5), simp_all add: type_names_defs)
qed

text \<open>The other kinds of message.\<close>

lemma verified_segment_announcement_passes:
  assumes "verify_archive_segment_announcement d P m expected R = Inr (s, core)"
  shows "validate_gossip_envelope_shape P T m = Inr True"
proof -
  from assms obtain n j where env: "require_v3_payload_envelope m ARCHIVE_SEGMENT_ANNOUNCEMENT_FIELDS ARCHIVE_SEGMENT_ANNOUNCEMENT_TYPE
        ''ArchiveSegmentAnnouncementV3'' = Inr n"
    and j: "jget m ''archive_segment'' = Some j" "decode_payload (decode_archive_segment P) j = Inr s"
    and v: "verify_archive_segment d P s (Some n) None \<lparr>rs_segment = R, rs_checkpoint = None\<rparr> None = Inr core"
    unfolding verify_archive_segment_announcement_def bindE_Inr_iff if_Inl_Inr_iff jat_Inr_iff by auto
  note pass = verified_segment_passes [OF v]
  then have "check_payload_network (ar_network_id s) n l = Inr ()" for l
    unfolding checkpoint_from_archive_segment_payload_def bindE_Inr_iff check_payload_network_Inr_iff by auto
  with pass j have "validate_payloads P T m ARCHIVE_SEGMENT_ANNOUNCEMENT_TYPE ss n = Inr ()" for ss
    by (simp add: validate_payloads_def decode_archive_segment_payload_def string_payload_Inr_iff bindE_Inr_iff jat_def)
      (simp add: type_names_defs)
  then show ?thesis
    by (intro gossip_known_type [OF env]) (simp_all add: envelope_specs_def, simp_all add: type_names_defs)
qed

lemma verified_bundle_announcement_passes:
  assumes "hash_ok P" and "verify_proof_bundle_announcement d P T C m expected = Inr (pb, core)"
  shows "validate_gossip_envelope_shape P T m = Inr True"
proof -
  from assms(2) obtain n j where env: "require_v3_payload_envelope m PROOF_BUNDLE_ANNOUNCEMENT_FIELDS PROOF_BUNDLE_ANNOUNCEMENT_TYPE
        ''ProofBundleAnnouncementV3'' = Inr n"
    and j: "jget m ''proof_bundle'' = Some j" "decode_payload (decode_proof_bundle P) j = Inr pb"
    and v: "verify_proof_bundle d P T C pb None (Some n) {} = Inr core"
    unfolding verify_proof_bundle_announcement_def bindE_Inr_iff if_Inl_Inr_iff jat_Inr_iff by auto
  from j(2) obtain bs where "decode_proof_bundle P bs = Inr pb" by (auto simp: decode_payload_def bindE_Inr_iff)
  from verified_bundle_passes [OF assms(1) v decode_bundle_fields [OF this]]
  have pass: "validate_proof_bundle_payload P T pb n = Inr ()" .
  then have "check_payload_network (pb_network_id pb) n l = Inr ()" for l
    unfolding validate_proof_bundle_payload_def bindE_Inr_iff check_payload_network_Inr_iff by auto
  with pass j have "validate_payloads P T m PROOF_BUNDLE_ANNOUNCEMENT_TYPE ss n = Inr ()" for ss
    by (simp add: validate_payloads_def decode_proof_bundle_payload_def string_payload_Inr_iff bindE_Inr_iff jat_def)
      (simp add: type_names_defs)
  then show ?thesis
    by (intro gossip_known_type [OF env]) (simp_all add: envelope_specs_def, simp_all add: type_names_defs)
qed

lemma checked_conflict_passes:
  assumes "check_conflict_proof P p (Some (cf_network_id p)) = Inr True"
  shows "validate_gossip_envelope_shape P T (conflict_json p) = Inr True"
proof -
  have "cf_type p = CONFLICT_PROOF_TYPE" "cf_version p = VERSION" "0 \<le> cf_network_id p" "1 \<le> cf_sequence p" "0 \<le> cf_detected_at p"
    using assms unfolding check_conflict_proof_def bindE_Inr_iff if_Inl_Inr_iff require_int_Inr_iff by auto
  moreover have "require_exact_fields (conflict_json p) CONFLICT_PROOF_FIELDS ''ConflictProofV3'' = Inr ()"
    by (auto simp: require_exact_fields_Inr_iff conflict_json_def CONFLICT_PROOF_FIELDS_def)
  moreover have "verify_conflict_proof P (WDict (conflict_json p)) (Some (cf_network_id p)) = Inr True"
    using assms by (simp add: verify_conflict_proof_def)
  moreover have "jget (conflict_json p) ''version'' = Some (JInt (cf_version p))"
    "jget (conflict_json p) ''network_id'' = Some (JInt (cf_network_id p))" "jget (conflict_json p) ''sequence'' = Some (JInt (cf_sequence p))"
    "jget (conflict_json p) ''detected_at'' = Some (JInt (cf_detected_at p))" "jget (conflict_json p) ''type'' = Some (JStr (cf_type p))"
    by (simp_all add: conflict_json_def)
  ultimately have "validate_conflict_message P (conflict_json p) = Inr True" "gossip_type (conflict_json p) = Inr (Some CONFLICT_PROOF_TYPE)"
    by (simp_all add: validate_conflict_message_def jat_def require_int_for_def gossip_type_def)
  then show ?thesis by (simp add: validate_gossip_envelope_shape_def)
qed

lemma checkpoint_segments_pass:
  assumes "mapE (decode_payload (decode_archive_segment P)) js = Inr segs"
    and "\<forall>s \<in> set segs. is_ok (checkpoint_from_archive_segment_payload P s n)"
    and "k = 0 \<Longrightarrow> segs \<noteq> [] \<Longrightarrow> checkpoint_from_archive_segment_payload P (hd segs) n = Inr core"
  shows "\<exists>r. mapE (validate_checkpoint_segment P core n) (enumerate k js) = Inr r"
  using assms
proof (induction js arbitrary: segs k)
  case (Cons j js)
  from Cons.prems(1) obtain s rest where s: "decode_payload (decode_archive_segment P) j = Inr s" "segs = s # rest"
    "mapE (decode_payload (decode_archive_segment P)) js = Inr rest" by (auto simp: bindE_Inr_iff)
  with Cons.prems(2) obtain c where c: "checkpoint_from_archive_segment_payload P s n = Inr c" by (auto simp: is_ok_iff)
  then have "check_payload_network (ar_network_id s) n l = Inr ()" for l
    unfolding checkpoint_from_archive_segment_payload_def bindE_Inr_iff check_payload_network_Inr_iff by auto
  with c s(1) have "decode_archive_segment_payload P j n (segment_label k) = Inr s"
    by (simp add: decode_archive_segment_payload_def bindE_Inr_iff string_payload_Inr_iff)
  then have "validate_checkpoint_segment P core n (k, j) = Inr ()"
    using Cons.prems(3) c s(2) by (simp add: validate_checkpoint_segment_def)
  moreover from Cons.IH [OF s(3), of "Suc k"] Cons.prems(2) s(2) obtain r where
    "mapE (validate_checkpoint_segment P core n) (enumerate (Suc k) js) = Inr r" by auto
  ultimately show ?case by simp
qed simp

lemma verified_checkpoint_announcement_passes:
  assumes "hash_ok P" and "verify_checkpoint_announcement d P m expected R = Inr (core, segs)"
    and segs: "\<forall>s \<in> set segs. is_ok (checkpoint_from_archive_segment_payload P s (cp_network_id core))"
  shows "validate_gossip_envelope_shape P T m = Inr True"
proof -
  from assms(2) obtain n resolver where env: "require_v3_payload_envelope m CHECKPOINT_ANNOUNCEMENT_FIELDS CHECKPOINT_ANNOUNCEMENT_TYPE
        ''CheckpointAnnouncementV3'' = Inr n"
    and dec: "decode_checkpoint_announcement P m = Inr (core, segs)"
    and v: "verify_archive_segment d P (hd segs) (Some n) None (R\<lparr>rs_segment := Some resolver\<rparr>) None = Inr core"
    and h: "checkpoint_core_hash P core = Inr (cp_checkpoint_hash core)"
    unfolding verify_checkpoint_announcement_def split_beta bindE_Inr_iff if_Inl_Inr_iff by auto
  have l: "require_payload_list a msg = Inr vs \<longleftrightarrow> a = JList vs" for a msg vs
    by (cases a) (auto simp: require_payload_list_def)
  from dec obtain j a where j: "jget m ''checkpoint_core'' = Some j" "decode_payload decode_checkpoint_core j = Inr core"
      "jget m ''archive_segments'' = Some (JList a)" "mapE (decode_payload (decode_archive_segment P)) a = Inr segs"
    unfolding decode_checkpoint_announcement_def bindE_Inr_iff if_Inl_Inr_iff jat_Inr_iff l by auto
  from verify_archive_core [OF v] obtain final where n: "n = ar_network_id (hd segs)" and
    "checkpoint_core_from_state P (ar_token_id (hd segs)) (gr_genesis_hash (ar_genesis_ref (hd segs))) final
       (ar_previous_checkpoint_hash (hd segs)) (ar_network_id (hd segs)) = Inr core" unfolding segment_ok_def by blast
  from checkpoint_from_state_valid(1) [OF assms(1) this(2)] checkpoint_from_state_fields(1) [OF this(2)] n
  have core: "checkpoint_ok P core" "cp_network_id core = n" by simp_all
  then have "validate_checkpoint_payload P core n l = Inr ()" for l
    using h by (simp add: validate_checkpoint_payload_def check_payload_network_def require_int_def bindE_Inr_iff
        validate_checkpoint_core_Inr_iff checkpoint_ok_def)
  moreover obtain r where "mapE (validate_checkpoint_segment P core n) (enumerate 0 a) = Inr r"
    using checkpoint_segments_pass [OF j(4), of n 0 core] segs core(2) verified_segment_passes [OF v] by auto
  moreover have "string_payload decode_checkpoint_core j lb = Inr core" for lb using j(2) by (simp add: string_payload_Inr_iff)
  ultimately have "validate_checkpoint_payloads P m a n = Inr ()"
    using j(1) by (simp add: validate_checkpoint_payloads_def jat_def)
  then show ?thesis
    by (intro gossip_known_type [OF env, of a]) (simp_all add: envelope_specs_def validate_payloads_def j(3), simp_all add: type_names_defs)
qed

end
