(* ===== verification/BillSamples.thy ===== *)
theory BillSamples
  imports AnnouncementLaws LogSamples
begin

text \<open>
  A bill over the sample bundle, the same bill handed on, the gossip message that announces it, and a proof of
  the double spend of the sample genesis state.
\<close>

section \<open>The sample bundle in any context that finds its segment\<close>

lemma verify_sample_bundle_in:
  assumes "ctx_verifier C = (\<lambda>_. Inr None)" "ctx_trusted_key C = Some operator_key" "ctx_segments C = Some f"
    and found: "f (ar_segment_hash sample_segment) = Some sample_segment"
  shows "verify_proof_bundle 2 TP TL C sample_bundle (Some (cp_checkpoint_hash first_checkpoint)) (Some 1) {} = Inr first_checkpoint"
proof -
  have policy: "operator_key_for_policy TP TL C sample_root = Inr (Some operator_key, None)"
  proof -
    have "verify_signed_root TP TL sample_root (Some operator_key) = Inr ()" by (rule verify_sample_root) (simp add: pinned_def)
    with operator_key_not_empty show ?thesis by (simp add: operator_key_for_policy_def assms(1,2) toy_log_def)
  qed
  have e: "make_archive_segment_evidence 1 TP sample_segment 1 False None (ctx_segments C) = Inr sample_evidence"
    unfolding make_evidence_Inr_iff using verify_sample_segment sample_segment_hash
    by (intro exI [of _ first_checkpoint] exI [of _ "ar_segment_hash sample_segment"])
      (simp add: sample_evidence_def checkpoint_from_state_fields [OF make_first_checkpoint] del: verify_archive_segment.simps)
  have "verify_proof_bundle (Suc 1) TP TL C sample_bundle (Some (cp_checkpoint_hash first_checkpoint)) (Some 1) {} = Inr first_checkpoint"
  proof (rule made_bundle_verifies [OF toy_hash_ok e _ _ _ _ sample_root_fields(1) make_sample_bundle policy
      verify_sample_inclusion _ sample_settled])
    show "verify_archive_segment 1 TP sample_segment (Some 1) None
        \<lparr>rs_segment = ctx_segments C, rs_checkpoint = None\<rparr> None = Inr first_checkpoint" by (rule verify_sample_segment)
  qed (simp_all add: source_segment_def assms(3) found sample_evidence_def verify_mirrored_root_def
      checkpoint_from_state_fields [OF make_first_checkpoint])
  then show ?thesis by (simp only: Suc_1)
qed

definition bill_context :: bundle_context where
  "bill_context = sample_context\<lparr>ctx_bundles := Some (\<lambda>_. Some sample_bundle)\<rparr>"

lemma verify_in_bill_context:
  "verify_proof_bundle 2 TP TL bill_context sample_bundle (Some (cp_checkpoint_hash first_checkpoint)) (Some 1) {} = Inr first_checkpoint"
  by (rule verify_sample_bundle_in) (simp_all add: bill_context_def sample_context_def)

section \<open>A bill and its next owner\<close>

lemma sample_reference: "\<exists>r. proof_bundle_ref TP sample_bundle = Inr r"
proof -
  have "proof_bundle_hash TP sample_bundle = Inr (pb_proof_bundle_hash sample_bundle)"
    using verified_bundle_source(4) [OF verify_sample_bundle] .
  moreover have "\<exists>i. signed_root_id TP sample_root = Inr i"
    using json_fits_canonical(2) [OF sample_root_fits] by (auto simp: signed_root_id_def message_hash_def bindE_Inr_iff)
  moreover have "pb_signed_root sample_bundle = sample_root" by (simp add: sample_bundle_def bare_bundle_def)
  ultimately show ?thesis
    by (auto simp: proof_bundle_ref_def verify_self_hash_def int_at_def jat_def sample_root_fields bindE_Inr_iff)
qed

definition sample_ref :: proof_bundle_reference where
  "sample_ref = result_or (result_or undefined (proof_bundle_ref TP sample_bundle)) (proof_bundle_ref TP sample_bundle)"

lemma make_sample_ref: "proof_bundle_ref TP sample_bundle = Inr sample_ref"
  unfolding sample_ref_def by (rule result_or_Inr [OF sample_reference])

definition sample_bill :: bill where
  "sample_bill = \<lparr>bl_type = BILL_TYPE, bl_version = VERSION, bl_network_id = 1, bl_token_id = zero_hash, bl_value = 1,
     bl_genesis_ref = sample_genesis_ref, bl_checkpoint_core = first_checkpoint, bl_proof_bundle_ref = sample_ref,
     bl_recent_transfers = []\<rparr>"

lemma first_checkpoint_fields: "cp_network_id first_checkpoint = 1" "cp_token_id first_checkpoint = zero_hash"
  "cp_value first_checkpoint = 1" "cp_display_id first_checkpoint = display_text 1 1"
  "cp_genesis_hash first_checkpoint = zero_hash" "checkpoint_ok TP first_checkpoint" "cp_type first_checkpoint = CHECKPOINT_CORE_TYPE"
  "cp_version first_checkpoint = VERSION"
proof -
  have "st_value first_state = 1" "st_display_id first_state = display_text 1 1"
    using chain_values [OF first_chain] by (simp_all add: genesis_state_def)
  then show "cp_network_id first_checkpoint = 1" "cp_token_id first_checkpoint = zero_hash"
    "cp_value first_checkpoint = 1" "cp_display_id first_checkpoint = display_text 1 1"
    "cp_genesis_hash first_checkpoint = zero_hash" "cp_type first_checkpoint = CHECKPOINT_CORE_TYPE"
    "cp_version first_checkpoint = VERSION"
    by (simp_all add: checkpoint_from_state_fields [OF make_first_checkpoint])
  show "checkpoint_ok TP first_checkpoint" by (rule checkpoint_from_state_valid [OF toy_hash_ok make_first_checkpoint])
qed

lemma genesis_ref_fields: "gr_network_id sample_genesis_ref = 1" "gr_issue_index sample_genesis_ref = 1"
  "gr_genesis_hash sample_genesis_ref = zero_hash" "validate_genesis_ref TP sample_genesis_ref 1 = Inr ()"
  using sample_genesis_ref_ok by (simp_all add: sample_genesis_ref_def validate_genesis_ref_Inr_iff)

lemma make_sample_bill:
  "create_bill_from_checkpoint_core 2 TP TL bill_context sample_genesis_ref first_checkpoint sample_bundle [] 1 = Inr sample_bill"
proof -
  have "validate_checkpoint_core TP first_checkpoint 1 = Inr ()"
    using first_checkpoint_fields by (simp add: validate_checkpoint_core_Inr_iff)
  moreover have "validate_checkpoint_genesis_display_id TP sample_genesis_ref first_checkpoint l = Inr (1, 1)" for l
  proof -
    have "require_bill_value 1 (l @ '' value'') = Inr 1" using valid_first_bill require_bill_value_valid by blast
    then show ?thesis
      using valid_first_bill by (simp add: validate_checkpoint_genesis_display_id_def first_checkpoint_fields genesis_ref_fields
          validate_display_id_issue_index_Inr_iff)
  qed
  moreover have "checkpoint_matches_core first_checkpoint first_checkpoint = Inr ()"
    by (simp add: checkpoint_matches_Inr_iff first_checkpoint_fields)
  ultimately show ?thesis
    unfolding create_bill_from_checkpoint_core_def
    using verify_in_bill_context make_sample_ref
    by (simp add: first_checkpoint_fields genesis_ref_fields sample_bill_def del: verify_proof_bundle.simps)
qed

lemma first_checkpoint_state: "initial_state_from_checkpoint_core first_checkpoint = first_state"
  by (rule initial_state_of_checkpoint [OF make_first_checkpoint])

lemma replay_nothing: "replay_transfer_sequence TP zero_hash first_state [] 1 None True = Inr first_state"
  by (simp add: replay_iff_chain is_ok_iff)

lemma verify_sample_bill: "verify_bill_state 2 TP TL bill_context (Bill_Object sample_bill) (Some sample_bundle) (Some 1) None = Inr first_state"
  by (rule made_bill_verifies [OF make_sample_bill]) (simp add: first_checkpoint_fields first_checkpoint_state replay_nothing)

definition spent_bill :: bill where "spent_bill = append_transfer sample_bill second_transfer"

lemma sample_bill_fields [simp]: "bl_token_id sample_bill = zero_hash" "bl_network_id sample_bill = 1"
  "bl_recent_transfers sample_bill = []" "bl_proof_bundle_ref sample_bill = sample_ref" "bl_checkpoint_core sample_bill = first_checkpoint"
  "bl_genesis_ref sample_bill = sample_genesis_ref" "bl_value sample_bill = 1" "bl_type sample_bill = BILL_TYPE" "bl_version sample_bill = VERSION"
  by (simp_all add: sample_bill_def)

lemma spent_bill_fields [simp]: "bl_type spent_bill = BILL_TYPE" "bl_version spent_bill = VERSION"
  by (simp_all add: spent_bill_def append_transfer_def)

lemma create_spent_bill:
  "create_transfer 2 TP TL bill_context (Bill_Object sample_bill) (private_key_text seed_b) (public_key_text seed_b) (key_address seed_a)
     (Some sample_bundle) None None (Some 1) = Inr spent_bill"
proof -
  have "timestamp_day (tr_timestamp second_transfer) = st_last_transfer_day first_state \<Longrightarrow>
      st_transfers_in_last_day first_state < MAX_TRANSFERS_PER_BILL_PER_DAY"
    by (simp add: first_state_fields MAX_TRANSFERS_PER_BILL_PER_DAY_def)
  from create_transfer_Inr [OF toy_hash_ok verify_sample_bill bill_of.simps(2), of "private_key_text seed_b" "public_key_text seed_b"
      "key_address seed_a" None None second_transfer] create_second_transfer this
  show ?thesis by (auto simp: spent_bill_def)
qed

text \<open>The bundle is found by its reference as well as given, and the segment in any resolver that has it.\<close>

lemma verify_spent_bill:
  assumes "ctx_verifier C = (\<lambda>_. Inr None)" "ctx_trusted_key C = Some operator_key" "ctx_segments C = Some f"
    and "f (ar_segment_hash sample_segment) = Some sample_segment" and "ctx_bundles C = Some (\<lambda>_. Some sample_bundle)"
  shows "verify_bill_state 2 TP TL C (Bill_Object spent_bill) None (Some 1) None = Inr second_state"
proof -
  note v = verify_sample_bill [unfolded verify_bill_state_Inr_iff]
  have "verify_proof_bundle_ref TP sample_ref sample_bundle (Some 1) = Inr ()" "bill_ok TP sample_bill"
    using v by (auto simp: bill_bundle_def)
  with verify_sample_bundle_in [OF assms(1-4)] show ?thesis
    unfolding verify_bill_state_Inr_iff
    by (simp add: spent_bill_def bill_bundle_def assms(5) first_checkpoint_fields genesis_ref_fields first_checkpoint_state
        replay_second_transfer del: verify_proof_bundle.simps)
qed

section \<open>Its announcement\<close>

lemma second_transfer_facts: "tr_network_id second_transfer = 1" "transfer_shape True second_transfer"
  "is_ok (encode_transfer_body TP second_transfer True)"
proof -
  note f = create_transfer_fields [OF create_second_transfer] and p = create_transfer_parts [OF create_second_transfer]
  have l: "\<exists>s'. link TP zero_hash 1 None True first_state second_transfer s'"
    using replay_second_transfer by (auto simp: replay_iff_chain chain_Cons_iff)
  then have ok: "transfer_ok TP second_transfer True None" and auth: "authorised TP True second_transfer"
    and h: "\<exists>h. transfer_hash TP second_transfer = Inr h" by (auto simp: link_def)
  from p(2) obtain sig where sig: "tr_signature second_transfer = hex_text sig" ..
  moreover from this have "length sig = 64" using authorised_signature_length [OF auth] by simp
  ultimately have "signature_text (tr_signature second_transfer)" by (auto simp: signature_text_def)
  then show "transfer_shape True second_transfer"
    using ok f p(1) by (auto simp: transfer_shape_def transfer_ok_def metadata_or_empty_def key_text_def intro: seed_lengths)
  show "tr_network_id second_transfer = 1" by (rule f)
  show "is_ok (encode_transfer_body TP second_transfer True)"
    using h by (auto simp: transfer_hash_def encode_transfer_def bindE_Inr_iff is_ok_iff)
qed

lemma sample_ref_facts: "bundle_ref_shape sample_ref" "pr_network_id sample_ref = 1"
  "is_ok (encode_proof_bundle_ref_body sample_ref)"
proof -
  have b: "pb_signed_root sample_bundle = sample_root" "pb_log_id sample_bundle = sample_log_id" "pb_network_id sample_bundle = 1"
    "pb_algorithm sample_bundle = 1"
    by (simp_all add: sample_bundle_def bare_bundle_def PROOF_BUNDLE_ALGORITHM_def)
  from make_sample_ref obtain i where i: "signed_root_id TP sample_root = Inr i" "proof_bundle_hash TP sample_bundle = Inr (pb_proof_bundle_hash sample_bundle)"
    and r: "sample_ref = \<lparr>pr_type = PROOF_BUNDLE_REF_TYPE, pr_version = PROOF_BUNDLE_VERSION, pr_network_id = 1,
       pr_log_id = sample_log_id, pr_signed_root_hash = i, pr_tree_size = 1,
       pr_proof_bundle_algorithm = 1, pr_proof_bundle_hash = pb_proof_bundle_hash sample_bundle\<rparr>"
    unfolding proof_bundle_ref_def by (auto simp: bindE_Inr_iff b verify_self_hash_Inr_iff int_at_Inr_iff sample_root_fields)
  have h: "hash_text i" "hash_text (pb_proof_bundle_hash sample_bundle)"
  proof -
    obtain m where "sha3_hex TP m = i" using i(1) by (auto simp: signed_root_id_def message_hash_def bindE_Inr_iff)
    then show "hash_text i" by auto
    obtain m where "sha3_hex TP m = pb_proof_bundle_hash sample_bundle"
      using i(2) by (auto simp: proof_bundle_hash_def bindE_Inr_iff object_hash_Inr_iff sha3_hex_def)
    then show "hash_text (pb_proof_bundle_hash sample_bundle)" by (metis sha3_hex_text toy_hash_ok)
  qed
  then show "bundle_ref_shape sample_ref" "pr_network_id sample_ref = 1" by (simp_all add: bundle_ref_shape_def r)
  have "is_ok (encode_ascii 128 sample_log_id)" by (simp add: is_ok_iff encode_ascii_Inr_iff text_sizes MAX_UVARINT_def)
  with h show "is_ok (encode_proof_bundle_ref_body sample_ref)"
    by (simp add: encode_proof_bundle_ref_body_def r joinE_ok encode_hash_is_ok encode_uvarint_is_ok MAX_UVARINT_def del: joinE.simps)
qed

lemma spent_bill_shape: "bill_shape spent_bill"
  using second_transfer_facts(1,2) sample_ref_facts(1,2) first_checkpoint_fields
  by (simp add: bill_shape_def) (simp add: spent_bill_def genesis_ref_shape_def sample_genesis_ref_def opt_hash_text_def)

lemma encode_spent_bill: "\<exists>bs. encode_bill TP spent_bill = Inr bs"
proof -
  have "is_ok (encode_genesis_ref_body TP sample_genesis_ref)" using genesis_ref_fits by (auto simp: fits_def is_ok_iff)
  moreover have "is_ok (encode_checkpoint_core_body TP first_checkpoint True)"
  proof -
    have "is_ok (checkpoint_core_bytes first_checkpoint)"
      by (rule checkpoint_bytes_ok [OF first_checkpoint_fields(6) _ toy_hash_ok])
        (simp_all add: first_checkpoint_state state_fits_def first_state_fields MAX_UVARINT_def first_checkpoint_fields)
    then show ?thesis using first_checkpoint_fields
      by (auto simp: encode_checkpoint_core_body_def is_ok_iff bindE_Inr_iff validate_checkpoint_core_Inr_iff)
  qed
  ultimately have "is_ok (bill_head_bytes TP spent_bill)" "is_ok (bill_transfer_bytes TP (bl_recent_transfers spent_bill))"
    using sample_ref_facts(3) second_transfer_facts(3)
    by (simp_all add: spent_bill_def bill_head_bytes_def bill_transfer_bytes_def joinE_ok encode_hash_is_ok encode_uvarint_is_ok
        MAX_UVARINT_def del: joinE.simps)
  then have "is_ok (bill_bytes TP spent_bill)" by (auto simp: bill_bytes_def is_ok_iff)
  then show ?thesis
    by (auto simp: encode_bill_Inr_iff is_ok_iff encode_envelope_Inr_iff encode_uvarint_Inr_iff spent_bill_def MAX_UVARINT_def
        append_transfer_def)
qed

lemma announce_spent_bill: "\<exists>m. create_transfer_announcement TP (Bill_Object spent_bill) None [sample_segment] None = Inr m"
proof -
  have "bl_recent_transfers spent_bill \<noteq> []" "bl_network_id spent_bill = 1" by (simp_all add: spent_bill_def)
  with encode_spent_bill encode_sample_segment show ?thesis
    by (auto simp: create_transfer_announcement_def require_int_def)
qed

definition bill_message :: json where
  "bill_message = result_or JNull (create_transfer_announcement TP (Bill_Object spent_bill) None [sample_segment] None)"

lemma make_bill_message: "create_transfer_announcement TP (Bill_Object spent_bill) None [sample_segment] None = Inr bill_message"
  unfolding bill_message_def by (rule result_or_Inr [OF announce_spent_bill])

definition empty_context :: bundle_context where
  "empty_context = bill_context\<lparr>ctx_segments := None\<rparr>"

lemma verify_bill_message: "verify_transfer_announcement 2 TP TL empty_context bill_message (Some 1) None
    = Inr (spent_bill, None, [sample_segment], token_state_from_v3_state zero_hash second_state)"
proof -
  have shapes: "\<forall>s \<in> set [sample_segment]. archive_shape s" using sample_segment_shape by simp
  note m = made_transfer_announcement [OF make_bill_message spent_bill_shape shapes]
  have h: "lower (ar_segment_hash sample_segment) = ar_segment_hash sample_segment"
    using archive_segment_hash_text [OF toy_hash_ok sample_segment_hash] by simp
  obtain f where f: "embedded_archive_resolver TP [sample_segment] (ctx_segments empty_context) = Inr f"
      "f (ar_segment_hash sample_segment) = Some sample_segment"
    using sample_segment_hash h by (simp add: embedded_archive_resolver_def Let_def)
  have "verify_bill_state 2 TP TL (empty_context\<lparr>ctx_segments := Some f\<rparr>) (Bill_Object spent_bill) None (Some 1) None = Inr second_state"
    by (rule verify_spent_bill [where f = f]) (simp_all add: empty_context_def bill_context_def sample_context_def f(2))
  then have "verify_bill 2 TP TL (empty_context\<lparr>ctx_segments := Some f\<rparr>) (Bill_Object spent_bill) None (Some 1) None
      = Inr (token_state_from_v3_state zero_hash second_state)"
    by (simp add: verify_bill_def spent_bill_def)
  then show ?thesis
    unfolding verify_transfer_announcement_def m bindE_simps prod.case f(1)
    by (simp add: network_differs_def spent_bill_def)
qed

section \<open>A double spend\<close>

text \<open>The two transfers differ in length, and the toy hash shows the length of what it hashes.\<close>

lemma uvarint_sizes: "length (uvarint_loop 1) = 1" "length (uvarint_loop 3) = 1" "length (uvarint_loop 33) = 1"
  "length (uvarint_loop 1800000000) = 5"
  by (simp_all add: uvarint_loop.simps)

lemma uvarint_small: "n < 128 \<Longrightarrow> length (uvarint_loop n) = 1"
  by (subst uvarint_loop.simps) (simp add: drop_bit_eq_div Let_def)

lemma uvarint_two:
  assumes "128 \<le> n" "n < 16384"
  shows "length (uvarint_loop n) = 2"
proof -
  have "n div 128 < 128" "0 < n div 128" using assms by auto
  then show ?thesis using uvarint_small [of "n div 128"]
    by (subst uvarint_loop.simps) (simp add: drop_bit_eq_div Let_def)
qed

lemma transfer_bytes_length:
  assumes "transfer_bytes t True = Inr bs" and "hash_text (tr_token_id t)" "hash_text (tr_previous_hash t)"
    and "tr_sequence t = 1" "tr_timestamp t = 1800000000" "tr_signature_algorithm t = 1" "canonical_bytes (tr_metadata t) = Inr m"
    and "length (tr_sender_address t) = 33" "length (tr_recipient_address t) = 33" "length m < 128"
  shows "length bs = 236 + length m"
proof -
  have h: "encode_hash_hex x = Inr b \<Longrightarrow> hash_text x \<Longrightarrow> length b = 32" for x b
    by (simp add: encode_hash_hex_canonical)
  have k: "encode_public_key_field x l = Inr b \<Longrightarrow> length b = 32" for x l b
    using decode_public_key_length by (auto simp: encode_public_key_field_def or_raise_Inr_iff)
  have g: "encode_signature_hex x l = Inr b \<Longrightarrow> length b = 64" for x l b
    by (auto simp: encode_signature_hex_def split: if_splits option.splits)
  have a: "encode_ascii 128 x = Inr b \<Longrightarrow> length x = 33 \<Longrightarrow> length b = 34" for x b
    by (auto simp: encode_ascii_Inr_iff uvarint_sizes utf8_def)
  have u: "encode_uvarint 1 = Inr b \<Longrightarrow> length b = 1" "encode_uvarint 1800000000 = Inr b \<Longrightarrow> length b = 5" for b
    by (auto simp: encode_uvarint_Inr_iff uvarint_sizes uvarint_loop.simps)
  have j: "bindE (json_field_bytes (tr_metadata t) l) (encode_bytes n) = Inr b \<Longrightarrow> length b = 1 + length m" for l n b
    using assms(7,10) by (auto simp: bindE_Inr_iff json_field_bytes_def or_raise_def encode_bytes_Inr_iff uvarint_small)
  from assms(1) obtain b1 b2 b3 b4 b5 b6 b7 b8 b9 b10 where "bs = b1 @ b2 @ b3 @ b4 @ b5 @ b6 @ b7 @ b8 @ b9 @ b10"
    and "encode_hash_hex (tr_token_id t) = Inr b1" "encode_uvarint 1 = Inr b2" "encode_hash_hex (tr_previous_hash t) = Inr b3"
      "encode_ascii 128 (tr_sender_address t) = Inr b4" "encode_public_key_field (tr_sender_public_key t) ''TransferV3 sender public key'' = Inr b5"
      "encode_ascii 128 (tr_recipient_address t) = Inr b6" "encode_uvarint 1800000000 = Inr b7"
      "bindE (json_field_bytes (tr_metadata t) ''TransferV3 metadata'') (encode_bytes (int MAX_TRANSFER_METADATA_BYTES)) = Inr b8"
      "encode_uvarint 1 = Inr b9" "encode_signature_hex (tr_signature t) ''TransferV3 signature'' = Inr b10"
    unfolding transfer_bytes_def if_True append.simps joinE.simps bindE_Inr_iff sum.inject assms(4-6)
    by (elim exE conjE) (rule that; simp)
  with h [OF _ assms(2)] h [OF _ assms(3)] k g a [OF _ assms(8)] a [OF _ assms(9)] u j show ?thesis by simp
qed

lemma toy_hash_shows_length:
  assumes "sha3_hex TP m = sha3_hex TP m'"
  shows "(word_of_nat (length m) :: byte) = word_of_nat (length m')"
proof -
  from assms have "toy_hash m = toy_hash m'" by (simp add: sha3_hex_inject) (simp add: toy_platform_def)
  then show ?thesis by (simp add: toy_hash_def Let_def)
qed

lemma transfer_preimage_length:
  assumes "transfer_preimage TP t = Inr b" and "hash_text (tr_token_id t)" "hash_text (tr_previous_hash t)"
    and "tr_network_id t = 1" "tr_sequence t = 1" "tr_timestamp t = 1800000000" "tr_signature_algorithm t = 1"
    and "canonical_bytes (tr_metadata t) = Inr m"
    and "length (tr_sender_address t) = 33" "length (tr_recipient_address t) = 33" "length m < 128"
  shows "length b = length TRANSFER_TYPE + 249 + length m"
proof -
  from assms(1,4) obtain bs e where bs: "transfer_bytes t True = Inr bs" "encode_envelope TRANSFER_MAGIC 1 bs = Inr e"
      "object_preimage TRANSFER_TYPE e = Inr b"
    by (auto simp: transfer_preimage_def encode_transfer_Inr_iff bindE_Inr_iff)
  have l: "length bs = 236 + length m" by (rule transfer_bytes_length [OF bs(1) assms(2,3,5-)])
  have e: "length e = 246 + length m"
    using bs(2) by (auto simp: encode_envelope_Inr_iff encode_uvarint_Inr_iff uvarint_sizes uvarint_loop.simps l)
  have "length (uvarint_loop (length TRANSFER_TYPE)) = 1" by (rule uvarint_small) (simp add: TRANSFER_TYPE_def)
  then show ?thesis
    using bs(3) e assms(11) uvarint_two [of "246 + length m"]
    by (auto simp: object_preimage_def bindE_Inr_iff encode_ascii_Inr_iff encode_bytes_Inr_iff utf8_def)
qed

lemma double_hash_differs:
  assumes "transfer_hash TP first_transfer = Inr h" "transfer_hash TP double_transfer = Inr h'"
  shows "h \<noteq> h'"
proof
  assume eq: "h = h'"
  from assms obtain m m' where mm: "transfer_preimage TP first_transfer = Inr m" "transfer_preimage TP double_transfer = Inr m'"
      "h = sha3_hex TP m" "h' = sha3_hex TP m'" by (auto simp: transfer_hash_Inr_iff)
  have "start_time TP None = Inr 1800000000" by (simp add: start_time_def)
  from create_transfer_fields(8) [OF create_double_transfer this] have t: "tr_timestamp double_transfer = 1800000000" by (simp add: genesis_state_def)
  have a: "tr_signature_algorithm double_transfer = 1" "tr_signature_algorithm first_transfer = 1"
    using double_link first_link by (auto simp: link_def transfer_ok_def SIGNATURE_ALGORITHM_ID_def)
  have "canonical_json two_keys = Inr (dumps two_keys)"
    using two_keys_facts(1) by (auto simp: metadata_ok_def canonical_json_def bindE_Inr_iff)
  then have c: "canonical_bytes two_keys = Inr (utf8 (dumps two_keys))" "canonical_bytes (JDict []) = Inr (utf8 ''{}'')"
    by (simp_all add: canonical_bytes_def canonical_json_def)
  have d: "length (dumps two_keys) = 13"
    by (simp add: two_keys_def quote_text_def escape_cp_def code_def int_text_def nat_text.simps)
  have m: "length m = length TRANSFER_TYPE + 251"
    using transfer_preimage_length [OF mm(1) _ _ _ _ _ _ c(2) [folded first_transfer_metadata]] a first_transfer_rest
    by (simp add: first_transfer_fields key_address_text first_transfer_metadata utf8_def)
  have m': "length m' = length TRANSFER_TYPE + 262"
    using transfer_preimage_length [OF mm(2) _ _ _ _ t a(1)] c(1) d
    by (simp add: double_transfer_fields key_address_text utf8_def)
  have "(word_of_nat (length m) :: byte) = word_of_nat (length m')"
    by (rule toy_hash_shows_length) (use eq mm in simp)
  then have "(251 :: byte) = 262" unfolding m m' of_nat_add by simp
  then show False by simp
qed

lemma link_signed:
  assumes "link TP zero_hash 1 None True s t u" "spend_key_preimage t = Inr m"
  shows "\<exists>h. signed_transfer TP t h (sha3_hex TP m) \<and> transfer_hash TP t = Inr h"
  using assms by (auto simp: signed_transfer_def link_def validate_transfer_shape_Inr_iff verify_transfer_signature_Inr_iff spend_key_Inr_iff)

lemma sample_rivals: "rivals TP first_transfer double_transfer"
proof -
  obtain s' where l: "link TP zero_hash 1 None True genesis_state double_transfer s'" using double_link by blast
  from same_spend_key obtain m where m: "spend_key_preimage first_transfer = Inr m" "spend_key_preimage double_transfer = Inr m" by blast
  from link_signed [OF first_link m(1)] obtain h where h: "signed_transfer TP first_transfer h (sha3_hex TP m)" "transfer_hash TP first_transfer = Inr h"
    by blast
  from link_signed [OF l m(2)] obtain k where k: "signed_transfer TP double_transfer k (sha3_hex TP m)" "transfer_hash TP double_transfer = Inr k"
    by blast
  show ?thesis
    unfolding rivals_def using h(1) k(1) double_hash_differs [OF h(2) k(2)]
    by (intro exI [of _ h] exI [of _ k] exI [of _ "sha3_hex TP m"]) (simp add: first_transfer_fields double_transfer_fields)
qed

lemma sample_now: "current_time TP None = Inr 1800000000"
  by (simp add: current_time_Inr_iff toy_platform_def MAX_JSON_INTEGER_ABS_def)

end
