(* ===== verification/HistoryLaws.thy ===== *)
theory HistoryLaws
  imports VerifierProgress HistoryKeeps ProofBundle
begin

text \<open>
  What the checks of a transfer's history show when they return, when evidence found on the way is acted on, and
  that a log whose mirrors and sources are honest has its transfers accepted.
\<close>

section \<open>Returns\<close>

lemma bindW_Inr_iff: "bindW m f s = Some (Inr y, s') \<longleftrightarrow> (\<exists>x s1. m s = Some (Inr x, s1) \<and> f x s1 = Some (Inr y, s'))"
  by (auto simp: bindW_def split: option.splits prod.splits sum.splits)

lemma ends_iff [simp]: "ends m s = Some r \<longleftrightarrow> m s = r"
  by (simp add: ends_def)

lemma walk_total: "\<exists>r. m s = Some r \<Longrightarrow> (\<And>x t. \<exists>r. f x t = Some r) \<Longrightarrow> \<exists>r. bindW m f s = Some r"
  by (fastforce simp: bindW_def split: prod.splits sum.splits)

lemma ends_total: "\<exists>r. ends m s = Some r"
  by (simp add: ends_def)

lemma history_total: "\<exists>r. verify_transfer_history d P T C R L t ws mh s = Some r"
  unfolding verify_transfer_history_def Let_def split_def
  by (intro walk_total ends_total containing_total)

lemma checkpoint_history_total: "\<exists>r. verify_checkpoint_history d P T C R L c s = Some r"
  unfolding verify_checkpoint_history_def split_def
  by (intro walk_total ends_total containing_total)

lemma transfer_total: "\<exists>r. verify_transfer d P T C R L t now b s = Some r"
  unfolding verify_transfer_def by (intro walk_total history_total) (simp add: ends_def)

lemma each_walk_total: "(\<And>x s. \<exists>r. f x s = Some r) \<Longrightarrow> \<exists>r. each_walk f xs s = Some r"
  by (induction xs arbitrary: s) (simp_all only: each_walk.simps ends_total walk_total)

lemma token_total: "\<exists>r. verify_token d P T C R L token now b s = Some r"
  unfolding verify_token_def by (intro walk_total each_walk_total transfer_total) (simp add: ends_def)

section \<open>Mirrored roots\<close>

lemma accept_mirrored_Inr:
  assumes "accept_mirrored_roots d P T C N msg xs s = (Inr roots, s')"
  shows "roots = map snd xs \<and> vc_min_mirrors C \<le> int (length xs) \<and> (\<forall>a \<in> set roots. \<forall>b \<in> set roots. agree a b)"
  using assms unfolding accept_mirrored_roots_def Let_def
  by (auto simp: bindA_Inr_iff detect_mirror_disagreement_iff split: if_splits)

lemma search_mirrors_fst: "search_mirrors f ms = Some xs \<Longrightarrow> subseq (map fst xs) (map fst ms)"
proof (induction ms arbitrary: xs)
  case (Cons m ms)
  obtain i g where m: "m = (i, g)" by (cases m)
  from Cons.prems m obtain a ys where "f g = Some a" and ys: "search_mirrors f ms = Some ys"
    and xs: "xs = (case a of Inl e \<Rightarrow> ys | Inr root \<Rightarrow> (i, root) # ys)"
    by (auto split: option.splits)
  with Cons.IH [OF ys] m show ?case by (cases a) auto
qed simp

text \<open>
  What the verifier relies on: enough mirrors, in the configured order, gave a root of an operator key of the
  lineage that holds the leaf, not before the time and not too late; these roots agree; the first of them is taken.
\<close>

definition mirrored_root ::
    "platform \<Rightarrow> transparency \<Rightarrow> verifier_config \<Rightarrow> log_network \<Rightarrow> observed_store \<Rightarrow> int \<Rightarrow> int \<Rightarrow> bool \<Rightarrow> json \<Rightarrow> bool" where
  "mirrored_root P T C L st timestamp leaf_index late root \<longleftrightarrow>
     (\<exists>xs. subseq (map fst xs) (map fst (ln_root_at L)) \<and> vc_min_mirrors C \<le> int (length xs) \<and> root \<in> snd ` set xs
        \<and> (\<forall>(i, r) \<in> set xs. (\<exists>root_at k. (i, root_at) \<in> set (ln_root_at L) \<and> root_at k = Inr r)
             \<and> verify_signed_root_for_lineage P T C st r = Inr () \<and> timestamp \<le> root_time r \<and> leaf_index < root_size r
             \<and> (within_lag C timestamp r \<or> late) \<and> root_time root \<le> root_time r)
        \<and> (\<forall>a \<in> snd ` set xs. \<forall>b \<in> snd ` set xs. agree a b))"

lemma containing_Inr:
  assumes "mirrored_root_containing_leaf d P T C R L timestamp i ws mh s = Some (Inr root, s')"
  shows "mirrored_root P T C L (vf_store s) timestamp i (recovery_witnesses_allow_late_root P C R ws mh timestamp) root"
proof -
  let ?late = "recovery_witnesses_allow_late_root P C R ws mh timestamp" and ?key = "\<lambda>r. (root_time r, root_size r)"
  let ?find = "\<lambda>root_at. root_with_leaf P T C (vf_store s) root_at timestamp ?late (i + 1) [] timestamp"
  from assms obtain xs roots s1 where xs: "search_mirrors ?find (ln_root_at L) = Some xs"
    and roots: "accept_mirrored_roots d P T C (ln_network L) ''not enough usable transparency root mirrors containing leaf'' xs s = (Inr roots, s1)"
    and first: "(case sort_key ?key roots of [] \<Rightarrow> raises (PyValueError ''list index out of range'') | r # _ \<Rightarrow> returns r) s1 = (Inr root, s')"
    by (auto simp: mirrored_root_containing_leaf_def Let_def bindA_Inr_iff split: option.splits)
  note a = accept_mirrored_Inr [OF roots]
  from first obtain ys where ys: "sort_key ?key roots = root # ys" by (cases "sort_key ?key roots") auto
  from sorted_head_least [OF this] a have root: "root \<in> snd ` set xs" "\<forall>r \<in> snd ` set xs. root_time root \<le> root_time r"
    by (auto simp: less_eq_prod_def)
  have "\<forall>(j, r) \<in> set xs. (\<exists>root_at k. (j, root_at) \<in> set (ln_root_at L) \<and> root_at k = Inr r)
       \<and> verify_signed_root_for_lineage P T C (vf_store s) r = Inr () \<and> timestamp \<le> root_time r \<and> i < root_size r
       \<and> (within_lag C timestamp r \<or> ?late) \<and> root_time root \<le> root_time r"
  proof safe
    fix j r
    assume m: "(j, r) \<in> set xs"
    with search_mirrors_in [OF xs] obtain g where g: "(j, g) \<in> set (ln_root_at L)" "?find g = Some (Inr r)" by blast
    note found = search_Inr [OF g(2)]
    from found g(1) show "\<exists>root_at k. (j, root_at) \<in> set (ln_root_at L) \<and> root_at k = Inr r" by blast
    from found show "verify_signed_root_for_lineage P T C (vf_store s) r = Inr ()" "timestamp \<le> root_time r" "i < root_size r" by auto
    assume "\<not> ?late" with found show "within_lag C timestamp r" by blast
  next
    fix j r
    assume "(j, r) \<in> set xs" with root(2) show "root_time root \<le> root_time r" by force
  qed
  with a root(1) search_mirrors_fst [OF xs] show ?thesis
    unfolding mirrored_root_def by (intro exI [of _ xs]) auto
qed

section \<open>The verdict on a spend slot\<close>

lemma act_on_verdict_Inr: "act_on_verdict P T C v s = (Inr u, s') \<longleftrightarrow> v = Settled \<and> s' = s"
  by (cases v) (auto simp: act_on_verdict_def bindA_Inr_iff)

text \<open>The slot of the transfer's spend key under the root holds a claim of the transfer and of no other.\<close>

definition settled_alone :: "platform \<Rightarrow> transparency \<Rightarrow> transfer \<Rightarrow> json \<Rightarrow> json \<Rightarrow> bool" where
  "settled_alone P T t root proof \<longleftrightarrow> (\<exists>cs k h. verify_spend_map_proof P T proof root = Inr cs
     \<and> spend_key_for_transfer P t = Inr k \<and> expected_transfer_hash P t = Inr h
     \<and> (\<exists>c \<in> set cs. check_transfer_claim t k h c = Inr ()) \<and> (\<forall>c \<in> set cs. sc_transfer_hash c = h))"

lemma check_transfer_spend_Inr:
  assumes "check_transfer_spend P T C L t root s = (Inr u, s')"
  shows "s' = s" and "\<exists>k proof. spend_key_for_transfer P t = Inr k
    \<and> first_proof ps_spend_map_proof L k (root_size root) = Inr proof \<and> settled_alone P T t root proof"
proof -
  from assms obtain k q v where *: "spend_key_for_transfer P t = Inr k"
    "first_proof ps_spend_map_proof L k (root_size root) = Inr q"
    "verify_spend_map_proof_for_transfer P T t q root (Some (root_key root)) = Inr v" "act_on_verdict P T C v s = (Inr u, s')"
    unfolding check_transfer_spend_def by (auto simp: bindA_Inr_iff bindE_Inr_iff)
  then have v: "v = Settled" "s' = s" by (simp_all add: act_on_verdict_Inr)
  from v show "s' = s" by simp
  from settled_transfer [OF *(3)] *(1) v(1) have "settled_alone P T t root q"
    unfolding settled_alone_def by auto
  with *(1,2) show "\<exists>k proof. spend_key_for_transfer P t = Inr k
    \<and> first_proof ps_spend_map_proof L k (root_size root) = Inr proof \<and> settled_alone P T t root proof" by blast
qed

lemma check_inclusion_Inr:
  assumes "check_inclusion P T L h root = Inr ()"
  shows "\<exists>proof. first_proof ps_inclusion_proof L h (root_size root) = Inr proof
    \<and> verify_inclusion_proof P T h proof root (Some (root_key root)) = Inr ()"
  using assms by (auto simp: check_inclusion_def bindE_Inr_iff)

lemma leaf_index_Inr:
  assumes "leaf_index_for_entry P T C st L h = Inr i"
  shows "\<exists>x proof root. x \<in> set (proof_sources L) \<and> ps_latest_root x = Inr root \<and> verify_signed_root_for_lineage P T C st root = Inr ()
    \<and> verify_inclusion_proof P T h proof root (Some (root_key root)) = Inr () \<and> jget proof ''leaf_index'' = Some (JInt i)"
proof -
  have "\<exists>x \<in> set xs. f x = Inr y" if "first_ok f xs = Some y" for f :: "'a \<Rightarrow> 'b res" and xs y
    using that by (induction xs) (auto split: sum.splits)
  from this [of "leaf_index_from_source P T C st h" "proof_sources L" i] assms
  obtain x where x: "x \<in> set (proof_sources L)" "leaf_index_from_source P T C st h x = Inr i"
    by (auto simp: leaf_index_for_entry_def split: option.splits)
  from x(2) obtain root q u v where "ps_latest_root x = Inr root" "verify_signed_root_for_lineage P T C st root = Inr u"
    "verify_inclusion_proof P T h q root (Some (root_key root)) = Inr v" "jget q ''leaf_index'' = Some (JInt i)"
    unfolding leaf_index_from_source_def bindE_Inr_iff int_at_Inr_iff by blast
  with x(1) show ?thesis by (intro exI [of _ x] exI [of _ q] exI [of _ root]) simp
qed

section \<open>A transfer whose history verifies\<close>

text \<open>The recovery witnesses that count: those given, or those that the transfer carries, for the message or the entry.\<close>

definition used_witnesses :: "transfer \<Rightarrow> json \<Rightarrow> json \<Rightarrow> string \<Rightarrow> json \<times> json" where
  "used_witnesses t ws mh h =
     (let (ws', mh') = (if ws = JNull \<and> mh = JNull then transfer_recovery_witnesses (transfer_json t) else (ws, mh)) in
      (ws', json_or mh' (JStr h)))"

definition late_allowed ::
    "platform \<Rightarrow> verifier_config \<Rightarrow> recovery_config \<Rightarrow> transfer \<Rightarrow> json \<Rightarrow> json \<Rightarrow> string \<Rightarrow> bool" where
  "late_allowed P C R t ws mh h =
     recovery_witnesses_allow_late_root P C R (fst (used_witnesses t ws mh h)) (snd (used_witnesses t ws mh h)) (tr_timestamp t)"

lemma history_unfold:
  "verify_transfer_history d P T C R L t ws mh =
     bindW (ends (lifts (transfer_entry_hash P t))) (\<lambda>h.
     bindW (ends (reads_store (\<lambda>st. leaf_index_for_entry P T C st L h))) (\<lambda>i.
     bindW (mirrored_root_containing_leaf d P T C R L (tr_timestamp t) i (fst (used_witnesses t ws mh h)) (snd (used_witnesses t ws mh h))) (\<lambda>root.
     ends (bindA (lifts (check_inclusion P T L h root)) (\<lambda>_.
           bindA (check_transfer_spend P T C L t root) (\<lambda>_. returns root))))))"
  unfolding verify_transfer_history_def used_witnesses_def Let_def split_def fst_conv snd_conv ..

lemma history_Inr:
  assumes "verify_transfer_history d P T C R L t ws mh s = Some (Inr root, s')"
  shows "\<exists>h i. message_hash P (transfer_json t) = Inr h
    \<and> (\<exists>x proof latest. x \<in> set (proof_sources L) \<and> ps_latest_root x = Inr latest
         \<and> verify_signed_root_for_lineage P T C (vf_store s) latest = Inr ()
         \<and> verify_inclusion_proof P T h proof latest (Some (root_key latest)) = Inr () \<and> jget proof ''leaf_index'' = Some (JInt i))
    \<and> mirrored_root P T C L (vf_store s) (tr_timestamp t) i (late_allowed P C R t ws mh h) root
    \<and> (\<exists>proof. verify_inclusion_proof P T h proof root (Some (root_key root)) = Inr ())
    \<and> (\<exists>proof. settled_alone P T t root proof)"
proof -
  from assms obtain h i s1 s2 s3 where h: "transfer_entry_hash P t = Inr h"
    and i: "leaf_index_for_entry P T C (vf_store s) L h = Inr i" and root: "mirrored_root_containing_leaf d P T C R L (tr_timestamp t) i (fst (used_witnesses t ws mh h)) (snd (used_witnesses t ws mh h)) s
      = Some (Inr root, s1)"
    and incl: "check_inclusion P T L h root = Inr ()" and spend: "check_transfer_spend P T C L t root s2 = (Inr (), s3)"
    unfolding history_unfold bindW_Inr_iff ends_iff bindA_Inr_iff action_Inr_iff by auto
  from leaf_index_Inr [OF i] containing_Inr [OF root] check_inclusion_Inr [OF incl] check_transfer_spend_Inr(2) [OF spend] h
  show ?thesis unfolding transfer_entry_hash_def late_allowed_def by blast
qed

lemma history_spend:
  assumes "verify_transfer_history d P T C R L t ws mh s = Some (Inr root, s')"
  shows "\<exists>r. check_transfer_spend P T C L t root r = (Inr (), s')"
  using assms unfolding history_unfold bindW_Inr_iff ends_iff bindA_Inr_iff action_Inr_iff by auto

text \<open>The transfers of this form carry no witnesses, so without an argument none count.\<close>

lemma no_carried_witnesses: "transfer_recovery_witnesses (transfer_json t) = (JList [], JNull)"
  by (simp add: transfer_recovery_witnesses_def json_get_def transfer_json_def Let_def)

lemma late_not_allowed: "\<not> late_allowed P C R t JNull JNull h"
  by (simp add: late_allowed_def used_witnesses_def no_carried_witnesses recovery_witnesses_allow_late_root_def)

section \<open>Checkpoints\<close>

text \<open>The legacy signature check rejects every transfer, and with it every checkpoint.\<close>

lemma checkpoint_spend_rejects: "check_checkpoint_spend P T C c p root s \<noteq> (Inr u, s')"
  using checkpoint_check_rejects by (auto simp: check_checkpoint_spend_def bindA_Inr_iff bindE_Inr_iff)

lemma checkpoint_history_rejects: "verify_checkpoint_history d P T C R L c s \<noteq> Some (Inr root, s')"
  by (auto simp: verify_checkpoint_history_def check_carried_proofs_def bindW_Inr_iff bindA_Inr_iff checkpoint_spend_rejects)

section \<open>One spend of a slot per root\<close>

text \<open>The claims that a spend proof shows and the byte strings hashed while checking it.\<close>

definition slot_evidence :: "platform \<Rightarrow> log_network \<Rightarrow> string \<Rightarrow> json \<Rightarrow> (spend_claim list \<times> bytes list) res" where
  "slot_evidence P L k root =
     bindE (first_proof ps_spend_map_proof L k (root_size root)) (\<lambda>j.
     bindE (read_spend_map_proof j) (\<lambda>q.
     bindE (check_spend_map_proof P q root) (\<lambda>cs.
     bindE (proof_preimages P q) (\<lambda>ms. Inr (cs, ms)))))"

lemma checked_slot_key:
  assumes "check_spend_map_proof P q root = Inr cs" and "c \<in> set cs"
  shows "sc_spend_key c = smp_spend_key q"
proof -
  from assms(1) obtain n claims seen where "foldE (check_claim_in_root root (smp_spend_key q) n) {} claims = Inr seen"
    "cs = sort_key spend_claim_sort_key claims"
    unfolding check_spend_map_proof_def bindE_Inr_iff if_Inl_Inr_iff by blast
  with checked_claims [OF this(1)] assms(2) show ?thesis by auto
qed

lemma spends_agree:
  assumes "hash_ok P" and t: "check_transfer_spend P T C L t root s = (Inr u, s')" and t': "check_transfer_spend P T' C' L' t' root r = (Inr u', r')"
    and k: "spend_key_for_transfer P t = Inr k" "spend_key_for_transfer P t' = Inr k"
    and e: "slot_evidence P L k root = Inr (cs, ms)" and e': "slot_evidence P L' k root = Inr (cs', ms')"
    and "no_pair_collides P ms ms'" and wf: "\<forall>c \<in> set cs. json_wf (claim_json c)" "\<forall>c \<in> set cs'. json_wf (claim_json c)"
  shows "expected_transfer_hash P t = expected_transfer_hash P t'"
proof -
  have slot: "\<exists>h q. expected_transfer_hash P t = Inr h \<and> check_spend_map_proof P q root = Inr cs \<and> proof_preimages P q = Inr ms
      \<and> smp_spend_key q = k \<and> cs \<noteq> [] \<and> (\<forall>c \<in> set cs. sc_transfer_hash c = h)"
    if t: "check_transfer_spend P T C L t root s = (Inr u, s')" and k: "spend_key_for_transfer P t = Inr k"
      and e: "slot_evidence P L k root = Inr (cs, ms)" for T C L t s u s' cs ms
  proof -
    from check_transfer_spend_Inr(2) [OF t] k obtain j where j: "first_proof ps_spend_map_proof L k (root_size root) = Inr j"
      "settled_alone P T t root j" by auto
    then obtain cs1 h where h: "verify_spend_map_proof P T j root = Inr cs1" "expected_transfer_hash P t = Inr h"
      "\<forall>c \<in> set cs1. sc_transfer_hash c = h" "\<exists>c \<in> set cs1. check_transfer_claim t k h c = Inr ()"
      unfolding settled_alone_def using k by auto
    from e j(1) obtain q where q: "read_spend_map_proof j = Inr q" "check_spend_map_proof P q root = Inr cs" "proof_preimages P q = Inr ms"
      by (auto simp: slot_evidence_def bindE_Inr_iff)
    with h(1) have cs: "cs1 = cs" by (auto simp: verify_spend_map_proof_def bindE_Inr_iff)
    with h(4) obtain c where c: "c \<in> set cs" "sc_spend_key c = k" by (auto simp: check_transfer_claim_Inr_iff)
    have "smp_spend_key q = k" using checked_slot_key [OF q(2) c(1)] c(2) by simp
    with h q cs c show ?thesis by auto
  qed
  from slot [OF t k(1) e] obtain h q where q: "expected_transfer_hash P t = Inr h" "check_spend_map_proof P q root = Inr cs"
    "proof_preimages P q = Inr ms" "smp_spend_key q = k" "cs \<noteq> []" "\<forall>c \<in> set cs. sc_transfer_hash c = h" by blast
  from slot [OF t' k(2) e'] obtain h' q' where q': "expected_transfer_hash P t' = Inr h'" "check_spend_map_proof P q' root = Inr cs'"
    "proof_preimages P q' = Inr ms'" "smp_spend_key q' = k" "cs' \<noteq> []" "\<forall>c \<in> set cs'. sc_transfer_hash c = h'" by blast
  have "map (norm \<circ> claim_json) cs = map (norm \<circ> claim_json) cs'"
    using q q' by (intro proofs_agree [OF assms(1) q(2) q'(2) _ q(3) q'(3) assms(8) wf]) simp
  then have "map (norm \<circ> claim_json) cs ! 0 = map (norm \<circ> claim_json) cs' ! 0" by (rule arg_cong)
  with q(5) q'(5) have "(norm \<circ> claim_json) (hd cs) = (norm \<circ> claim_json) (hd cs')"
    by (cases cs; cases cs') (simp_all del: norm.simps comp_apply)
  from norm_claim_hash [OF this] q(5,6) q'(5,6) have "h = h'" by (metis list.set_sel(1))
  with q q' show ?thesis by simp
qed

section \<open>Evidence found in a slot\<close>

lemma verify_signed_root_pin:
  "verify_signed_root P T r pin = Inr () \<longleftrightarrow> verify_signed_root P T r None = Inr () \<and> pinned pin (root_key r)"
  by (auto simp: verify_signed_root_Inr_iff pinned_def root_text_def)

lemma verify_violation_pin:
  "verify_operator_policy_violation_proof P T p pin = Inr q \<longleftrightarrow> verify_operator_policy_violation_proof P T p None = Inr q
     \<and> (\<exists>root. jget p ''root'' = Some root \<and> pinned pin (root_key root))"
  unfolding verify_violation_Inr_iff verify_signed_root_pin [of P T _ pin] by auto

lemma verify_violation_unpinned:
  "verify_operator_policy_violation_proof P T p pin = Inr q \<Longrightarrow> verify_operator_policy_violation_proof P T p None = Inr q"
  using verify_violation_pin [THEN iffD1] by blast

lemma handle_violation_fails:
  assumes "\<not> (verify_operator_policy_violation_proof P T p (vc_operator_public_key C) = Inr p \<and> is_ok (message_hash P p))"
  shows "\<exists>e. handle_operator_policy_violation P T C p s = (Inl e, s)"
proof (cases "verify_operator_policy_violation_proof P T p (vc_operator_public_key C)")
  case (Inl e)
  then show ?thesis by (simp add: handle_operator_policy_violation_def bindA_def lifts_def)
next
  case (Inr q)
  have "q = p" using Inr [unfolded verify_violation_Inr_iff] by blast
  with verify_violation_unpinned [OF Inr] have q: "q = p" "verify_operator_policy_violation_proof P T p None = Inr p" by simp_all
  then obtain root where root: "jget p ''root'' = Some root" by (auto simp: verify_violation_Inr_iff)
  from assms Inr q obtain e where e: "message_hash P p = Inl e" by (cases "message_hash P p") auto
  show ?thesis
    by (simp add: handle_operator_policy_violation_def bindA_def lifts_def Inr q root jat_def updates_store_def
        save_operator_policy_violation_def e)
qed

text \<open>
  Evidence that is acted on: its log is blacklisted, it is stored under its hash, and it joins the queue for gossip,
  unless its hash was queued before.
\<close>

definition acted_on :: "platform \<Rightarrow> json \<Rightarrow> json \<Rightarrow> verifier \<Rightarrow> verifier \<Rightarrow> bool" where
  "acted_on P root p s s' \<longleftrightarrow> blacklisted (vf_store s') (root_log root)
     \<and> (\<exists>h. message_hash P p = Inr h \<and> map_of (ob_policy_violations (vf_store s')) h = Some p \<and> queues_once h p s s')"

lemma handle_violation_acts:
  assumes v: "verify_operator_policy_violation_proof P T p (vc_operator_public_key C) = Inr p" and h: "message_hash P p = Inr h"
    and root: "jget p ''root'' = Some root"
  shows "\<exists>s'. handle_operator_policy_violation P T C p s = (Inr p, s') \<and> acted_on P root p s s'"
proof -
  from v have n: "verify_operator_policy_violation_proof P T p None = Inr p" by (rule verify_violation_unpinned)
  let ?st = "(vf_store s)\<lparr>ob_policy_violations := AList.update h p (ob_policy_violations (vf_store s))\<rparr>"
  let ?mark = "mark_blacklisted P ?st (root_log root) (root_key root) (''operator policy violation: '' @ root_text p ''violation_type'') h
      (Some (root_int p ''detected_at''))"
  let ?s = "s\<lparr>vf_store := ?mark\<rparr>"
  obtain s' where q: "queue_evidence P p ?s = (Inr (), s')" and st: "vf_store s' = ?mark"
    using queue_evidence_total [OF h, of ?s] by auto
  have "queues_once h p s s'" using queue_evidence_queues [OF h q] by simp
  moreover have "map_of (ob_policy_violations ?mark) h = Some p"
    by (simp add: mark_blacklisted_def Let_def update_conv')
  moreover have "handle_operator_policy_violation P T C p s = (Inr p, s')"
    using q by (simp add: handle_operator_policy_violation_def bindA_def lifts_def v root jat_def updates_store_def changes_store_def
        save_operator_policy_violation_def n h returns_def)
  ultimately show ?thesis using h by (auto simp: acted_on_def st blacklisted_marks)
qed

text \<open>
  A double spend that a transfer's slot shows: the check raises. The evidence counts when its root is signed by the
  configured key; under the key of a successor it is refused, and nothing is kept.
\<close>

lemma violation_verdict:
  assumes "verify_spend_map_proof_for_transfer P T t proof root pin = Inr (Violation p)"
  shows "verify_operator_policy_violation_proof P T p None = Inr p" and "jget p ''root'' = Some root"
proof -
  from assms obtain cs k h c where c: "judge_conflicts P T root proof h c cs
      ''spend proof contains an unverifiable conflicting sibling claim'' = Inr (Violation p)"
    unfolding verify_spend_map_proof_for_transfer_def bindE_Inr_iff by (auto simp: bindE_Inr_iff split: option.splits)
  then obtain v d where "make_operator_policy_violation_proof P T root proof v d = Inr p"
    by (auto simp: judge_conflicts_def Let_def bindE_Inr_iff split: if_splits)
  then obtain l where p: "verify_operator_policy_violation_proof P T (JDict
       [(''type'', JStr LOG_OPERATOR_POLICY_VIOLATION_TYPE), (''version'', JInt LOG_VERSION),
        (''violation_type'', JStr v), (''log_id'', l), (''root'', root),
        (''spend_proof'', proof), (''detected_at'', JInt (time_or_now P d))]) None = Inr p"
    unfolding make_operator_policy_violation_proof_def bindE_Inr_iff by blast
  then have e: "p = JDict
       [(''type'', JStr LOG_OPERATOR_POLICY_VIOLATION_TYPE), (''version'', JInt LOG_VERSION),
        (''violation_type'', JStr v), (''log_id'', l), (''root'', root),
        (''spend_proof'', proof), (''detected_at'', JInt (time_or_now P d))]" by (simp only: verify_violation_Inr_iff)
  from p show "verify_operator_policy_violation_proof P T p None = Inr p" by (simp only: e [symmetric])
  show "jget p ''root'' = Some root" by (simp add: e)
qed

lemma spend_violation:
  assumes k: "spend_key_for_transfer P t = Inr k" and j: "first_proof ps_spend_map_proof L k (root_size root) = Inr j"
    and v: "verify_spend_map_proof_for_transfer P T t j root (Some (root_key root)) = Inr (Violation p)" and h: "is_ok (message_hash P p)"
  shows "\<exists>e s'. check_transfer_spend P T C L t root s = (Inl e, s')
    \<and> (if pinned (vc_operator_public_key C) (root_key root) then acted_on P root p s s' else s' = s)"
proof -
  note p = violation_verdict [OF v]
  have c: "check_transfer_spend P T C L t root s = act_on_verdict P T C (Violation p) s"
    by (simp add: check_transfer_spend_def bindA_def lifts_def k j v)
  show ?thesis
  proof (cases "pinned (vc_operator_public_key C) (root_key root)")
    case True
    with p have "verify_operator_policy_violation_proof P T p (vc_operator_public_key C) = Inr p"
      by (simp add: verify_violation_pin [of P T p "vc_operator_public_key C"])
    moreover obtain i where "message_hash P p = Inr i" using h by (cases "message_hash P p") auto
    ultimately obtain s' where "handle_operator_policy_violation P T C p s = (Inr p, s')" "acted_on P root p s s'"
      using handle_violation_acts p(2) by blast
    with True show ?thesis by (simp add: c act_on_verdict_def bindA_def raises_def)
  next
    case False
    with p(2) have "verify_operator_policy_violation_proof P T p (vc_operator_public_key C) \<noteq> Inr p"
      by (simp add: verify_violation_pin [of P T p "vc_operator_public_key C"])
    then obtain e where "handle_operator_policy_violation P T C p s = (Inl e, s)" using handle_violation_fails by blast
    with False show ?thesis by (simp add: c act_on_verdict_def bindA_def)
  qed
qed

section \<open>An honest log is accepted\<close>

lemma search_mirrors_all:
  assumes "\<forall>(k, f) \<in> set ms. find_root f = Some (Inr r)"
  shows "search_mirrors find_root ms = Some (map (\<lambda>k. (k, r)) (map fst ms))"
  using assms by (induction ms) auto

lemma honest_containing:
  assumes honest: "honest_root P T C r" and seen: "sees_only r (vf_store s)"
    and mirrors: "\<forall>(k, f) \<in> set (ln_root_at L). f timestamp = Inr r" "ln_root_at L \<noteq> []" "vc_min_mirrors C \<le> int (length (ln_root_at L))"
    and r: "timestamp \<le> root_time r" "within_lag C timestamp r" "i < root_size r"
  shows "\<exists>s'. mirrored_root_containing_leaf d P T C R L timestamp i ws mh s = Some (Inr r, s') \<and> settled P r (vf_store s')"
proof -
  let ?ks = "map fst (ln_root_at L)" and ?late = "recovery_witnesses_allow_late_root P C R ws mh timestamp"
  have lineage: "verify_signed_root_for_lineage P T C (vf_store s) r = Inr ()"
    using honest seen by (intro verify_lineage_plain) (auto simp: honest_root_def sees_only_def)
  have "root_with_leaf P T C (vf_store s) f timestamp ?late (i + 1) [] timestamp = Some (Inr r)" if "f timestamp = Inr r" for f
    unfolding root_with_leaf.simps [of P T C "vf_store s" f timestamp ?late "i + 1" "[]" timestamp]
    using that lineage r by (simp add: next_root_def)
  with mirrors(1) have found: "search_mirrors (\<lambda>f. root_with_leaf P T C (vf_store s) f timestamp ?late (i + 1) [] timestamp) (ln_root_at L)
      = Some (map (\<lambda>k. (k, r)) ?ks)" by (intro search_mirrors_all) auto
  have roots: "map snd (map (\<lambda>k. (k, r)) ?ks) = replicate (length ?ks) r" by (simp add: comp_def map_replicate_const)
  have agree: "detect_mirror_disagreement P T (replicate (length ?ks) r) None = Inr ()"
    unfolding detect_mirror_disagreement_iff using honest_valid [OF honest] by simp
  from observe_roots_settle [OF honest seen, of "ln_network L" "refresh_stale_consistency_baseline d P T C (ln_network L)" ?ks] mirrors(2)
  obtain s' where s': "observe_roots (observe_root P T C (ln_network L) (refresh_stale_consistency_baseline d P T C (ln_network L)))
      (map (\<lambda>k. (k, r)) ?ks) s = (Inr (), s')" "settled P r (vf_store s')" by auto
  have "sort_key (\<lambda>r. (root_time r, root_size r)) (replicate (length ?ks) r) = replicate (length ?ks) r"
  proof -
    have "insort_key f r (replicate n r) = replicate (Suc n) r" for n and f :: "json \<Rightarrow> int \<times> int" by (cases n) simp_all
    then have "sort_key f (replicate n r) = replicate n r" for n and f :: "json \<Rightarrow> int \<times> int" by (induction n) simp_all
    then show ?thesis .
  qed
  moreover obtain n where "length ?ks = Suc n" using mirrors(2) by (cases "ln_root_at L") auto
  ultimately have "mirrored_root_containing_leaf d P T C R L timestamp i ws mh s = Some (Inr r, s')"
    using mirrors(3) s'(1) agree roots
    unfolding mirrored_root_containing_leaf_def Let_def found option.case ends_iff accept_mirrored_roots_def
    by (simp add: bindA_def lifts_def returns_def)
  with s'(2) show ?thesis by blast
qed

text \<open>The first source answers.\<close>

lemma operator_first: "\<exists>xs. proof_sources L = ln_operator L # xs"
  by (simp add: proof_sources_def split: option.splits)

lemma operator_proof:
  assumes "method (ln_operator L) = Some m" and "m key n = Inr q"
  shows "first_proof method L key n = Inr q"
proof -
  from operator_first obtain xs where "proof_sources L = ln_operator L # xs" ..
  with assms show ?thesis by (simp add: first_proof_def)
qed

text \<open>
  An operator that is honest about one transfer: it serves the root, an inclusion proof of the transfer's entry and a
  spend proof that settles the transfer alone.
\<close>

definition honest_operator :: "platform \<Rightarrow> transparency \<Rightarrow> proof_source \<Rightarrow> transfer \<Rightarrow> json \<Rightarrow> bool" where
  "honest_operator P T x t r \<longleftrightarrow> ps_latest_root x = Inr r
     \<and> (\<exists>h k inclusion q i spend sp. transfer_entry_hash P t = Inr h \<and> spend_key_for_transfer P t = Inr k
          \<and> ps_inclusion_proof x = Some inclusion \<and> inclusion h (root_size r) = Inr q
          \<and> verify_inclusion_proof P T h q r (Some (root_key r)) = Inr () \<and> jget q ''leaf_index'' = Some (JInt i) \<and> i < root_size r
          \<and> ps_spend_map_proof x = Some spend \<and> spend k (root_size r) = Inr sp
          \<and> verify_spend_map_proof_for_transfer P T t sp r (Some (root_key r)) = Inr Settled)"

lemma honest_history:
  assumes honest: "honest_root P T C r" and seen: "sees_only r (vf_store s)"
    and mirrors: "\<forall>(k, f) \<in> set (ln_root_at L). f (tr_timestamp t) = Inr r" "ln_root_at L \<noteq> []" "vc_min_mirrors C \<le> int (length (ln_root_at L))"
    and r: "tr_timestamp t \<le> root_time r" "within_lag C (tr_timestamp t) r"
    and operator: "honest_operator P T (ln_operator L) t r"
  shows "\<exists>s'. verify_transfer_history d P T C R L t ws mh s = Some (Inr r, s') \<and> settled P r (vf_store s')"
proof -
  from operator obtain h k inclusion q i spend sp where o: "transfer_entry_hash P t = Inr h" "spend_key_for_transfer P t = Inr k"
    "ps_latest_root (ln_operator L) = Inr r"
    "ps_inclusion_proof (ln_operator L) = Some inclusion" "inclusion h (root_size r) = Inr q"
    "verify_inclusion_proof P T h q r (Some (root_key r)) = Inr ()" "jget q ''leaf_index'' = Some (JInt i)" "i < root_size r"
    "ps_spend_map_proof (ln_operator L) = Some spend" "spend k (root_size r) = Inr sp"
    "verify_spend_map_proof_for_transfer P T t sp r (Some (root_key r)) = Inr Settled"
    unfolding honest_operator_def by blast
  have lineage: "verify_signed_root_for_lineage P T C (vf_store s) r = Inr ()"
    using honest seen by (intro verify_lineage_plain) (auto simp: honest_root_def sees_only_def)
  have "leaf_index_from_source P T C (vf_store s) h (ln_operator L) = Inr i"
    using o lineage by (simp add: leaf_index_from_source_def int_at_def jat_def)
  then have leaf: "leaf_index_for_entry P T C (vf_store s) L h = Inr i"
    using operator_first [of L] by (auto simp: leaf_index_for_entry_def)
  have incl: "check_inclusion P T L h r = Inr ()"
    using operator_proof [of ps_inclusion_proof, OF o(4,5)] o(6) by (simp add: check_inclusion_def)
  have spend: "check_transfer_spend P T C L t r s' = (Inr (), s')" for s'
    using operator_proof [of ps_spend_map_proof, OF o(9,10)] o(2,11)
    by (simp add: check_transfer_spend_def bindA_def lifts_def act_on_verdict_def returns_def)
  from honest_containing [OF honest seen mirrors r o(8)]
  obtain s' where s': "mirrored_root_containing_leaf d P T C R L (tr_timestamp t) i (fst (used_witnesses t ws mh h))
      (snd (used_witnesses t ws mh h)) s = Some (Inr r, s')" "settled P r (vf_store s')" by blast
  have "verify_transfer_history d P T C R L t ws mh s = Some (Inr r, s')"
    using s'(1)
    by (simp add: history_unfold bindW_def ends_def bindA_def lifts_def reads_store_def returns_def o(1) leaf incl spend)
  with s'(2) show ?thesis by blast
qed

end
