(* ===== verification/VerifierSetup.thy ===== *)
theory VerifierSetup
  imports HistoryLaws
begin

text \<open>
  The constructor of \<open>TransparencyVerifier\<close> (\<open>src/ind/transparency_client.py\<close>): which options and mirrors it refuses,
  and what it does before the first call. Then the verifier of several operators, which hands each message to the
  verifier that knows the root's key.
\<close>

section \<open>Options\<close>

definition DEFAULT_MIN_ROOT_MIRRORS :: int where "DEFAULT_MIN_ROOT_MIRRORS = 2"
definition MAX_CURRENT_ROOT_FUTURE_SKEW_SECONDS :: int where "MAX_CURRENT_ROOT_FUTURE_SKEW_SECONDS = 300"
definition STRICT_MAX_CURRENT_ROOT_AGE_SECONDS :: int where "STRICT_MAX_CURRENT_ROOT_AGE_SECONDS = 600"

text \<open>The arguments that matter here; \<open>vo_testnet\<close> is what the network setting says.\<close>

record verifier_options =
  vo_operator_public_key :: "string option"
  vo_max_root_lag :: int
  vo_min_mirrors :: int
  vo_allow_unsafe_single_mirror :: bool
  vo_strict_mode :: bool
  vo_consistency_max_stale :: int
  vo_max_current_root_age :: int
  vo_current_root_future_skew :: int
  vo_testnet :: bool

definition validated_min_mirrors :: "verifier_options \<Rightarrow> int res" where
  "validated_min_mirrors V =
     (let floor = (if vo_allow_unsafe_single_mirror V \<or> vo_testnet V then 1 else DEFAULT_MIN_ROOT_MIRRORS) in
      if vo_min_mirrors V < floor then Inl (TransparencyLogError ''IND_LOG_MIN_MIRRORS is below the required floor'')
      else Inr (if vo_allow_unsafe_single_mirror V then 1 else vo_min_mirrors V))"

text \<open>One mirror after the other; \<open>None\<close> is a source without an identity.\<close>

fun mirror_identities ::
    "source_identity option \<Rightarrow> source_identity list \<Rightarrow> source_identity option list \<Rightarrow> source_identity list res" where
  "mirror_identities operator seen [] = Inr (rev seen)"
| "mirror_identities operator seen (m # ms) = (case m of
     None \<Rightarrow> Inl (TransparencyLogError ''root mirror must configure identity_id'')
   | Some i \<Rightarrow>
       if operator = Some i then Inl (TransparencyLogError ''root mirror has same identity as operator'')
       else if i \<in> set seen then Inl (TransparencyLogError ''mirror sources must be independent'')
       else mirror_identities operator (i # seen) ms)"

definition validate_mirror_sources ::
    "int \<Rightarrow> source_identity option \<Rightarrow> source_identity option list \<Rightarrow> source_identity list res" where
  "validate_mirror_sources min_mirrors operator mirrors =
     bindE (mirror_identities operator [] mirrors) (\<lambda>ids.
     if int (length ids) < min_mirrors then Inl (TransparencyLogError ''not enough independent root mirrors'')
     else Inr ids)"

definition validate_current_root_freshness_config :: "verifier_options \<Rightarrow> unit res" where
  "validate_current_root_freshness_config V =
     (let age = vo_max_current_root_age V; skew = vo_current_root_future_skew V in
      if age \<le> 0 then Inl (TransparencyLogError ''IND_LOG_MAX_CURRENT_ROOT_AGE_SECONDS must be greater than 0'')
      else if skew < 0 then Inl (TransparencyLogError ''IND_LOG_CURRENT_ROOT_FUTURE_SKEW_SECONDS must not be negative'')
      else if skew > MAX_CURRENT_ROOT_FUTURE_SKEW_SECONDS
      then Inl (TransparencyLogError ''IND_LOG_CURRENT_ROOT_FUTURE_SKEW_SECONDS exceeds the hard ceiling'')
      else if skew \<ge> age
      then Inl (TransparencyLogError ''IND_LOG_CURRENT_ROOT_FUTURE_SKEW_SECONDS must be smaller than the age limit'')
      else if vo_strict_mode V \<and> age > STRICT_MAX_CURRENT_ROOT_AGE_SECONDS
      then Inl (TransparencyLogError ''IND_LOG_MAX_CURRENT_ROOT_AGE_SECONDS is too loose for strict mode'')
      else Inr ())"

definition build_verifier ::
    "verifier_options \<Rightarrow> source_identity option \<Rightarrow> source_identity option list \<Rightarrow> (verifier_config \<times> source_identity list) res" where
  "build_verifier V operator mirrors =
     (if vo_strict_mode V \<and> vo_allow_unsafe_single_mirror V
      then Inl (TransparencyLogError ''strict mode does not allow an unsafe single mirror'')
      else bindE (validated_min_mirrors V) (\<lambda>min_mirrors.
      bindE (validate_mirror_sources min_mirrors operator mirrors) (\<lambda>ids.
      bindE (validate_current_root_freshness_config V) (\<lambda>_.
      Inr (\<lparr>vc_operator_public_key = vo_operator_public_key V, vc_strict = vo_strict_mode V,
             vc_max_stale = vo_consistency_max_stale V, vc_max_root_age = vo_max_current_root_age V,
             vc_future_skew = vo_current_root_future_skew V, vc_min_mirrors = min_mirrors,
             vc_max_root_lag = Some (vo_max_root_lag V)\<rparr>, ids)))))"

section \<open>The first check\<close>

text \<open>The in-memory store's \<open>known_log_ids\<close> does not raise. The set is sorted.\<close>

definition known_log_ids_for_status_checks :: "platform \<Rightarrow> verifier_config \<Rightarrow> observed_store \<Rightarrow> string list" where
  "known_log_ids_for_status_checks P C st =
     (case configured_log_id P C of Some l \<Rightarrow> [l] | None \<Rightarrow> known_log_ids st)"

definition enforce_known_log_status ::
    "platform \<Rightarrow> verifier_config \<Rightarrow> (string \<Rightarrow> bool act) \<Rightarrow> unit act" where
  "enforce_known_log_status P C refresh =
     bindA (reads_store (\<lambda>st. Inr (known_log_ids_for_status_checks P C st))) (\<lambda>ids.
     each_act (enforce_consistency_freshness P C refresh) ids)"

definition run_startup_consistency_check ::
    "nat \<Rightarrow> platform \<Rightarrow> transparency \<Rightarrow> verifier_config \<Rightarrow> network \<Rightarrow> unit act" where
  "run_startup_consistency_check d P T C N =
     (let enforce = (if vc_strict C then enforce_known_log_status P C (refresh_stale_consistency_baseline d P T C N)
                     else returns ()) in
      bindA (catches (bindA (check_latest_consistency d P T C N None) (\<lambda>_. returns ())) (\<lambda>_. enforce)) (\<lambda>_. enforce))"

definition start_verifier ::
    "nat \<Rightarrow> platform \<Rightarrow> transparency \<Rightarrow> verifier_config \<Rightarrow> network \<Rightarrow> json option \<Rightarrow> bool \<Rightarrow> unit act" where
  "start_verifier d P T C N anchor run_startup_check =
     bindA (case anchor of None \<Rightarrow> returns () | Some a \<Rightarrow> load_consistency_anchor P T C a) (\<lambda>_.
     if run_startup_check then run_startup_consistency_check d P T C N else returns ())"

section \<open>What a constructed verifier relies on\<close>

lemma mirror_identities_Inr:
  assumes "mirror_identities operator seen ms = Inr ids" and "distinct seen" and "\<forall>i \<in> set seen. operator \<noteq> Some i"
  shows "distinct ids \<and> (\<forall>i \<in> set ids. operator \<noteq> Some i) \<and> map Some ids = map Some (rev seen) @ ms"
  using assms
proof (induction ms arbitrary: seen)
  case (Cons m ms)
  show ?case
  proof (cases m)
    case (Some i)
    with Cons.prems(1) have i: "operator \<noteq> Some i" "i \<notin> set seen" "mirror_identities operator (i # seen) ms = Inr ids"
      by (simp_all split: if_splits)
    have "distinct (i # seen)" "\<forall>j \<in> set (i # seen). operator \<noteq> Some j" using i(1,2) Cons.prems(2,3) by simp_all
    from Cons.IH [OF i(3) this] Some show ?thesis by simp
  qed (use Cons.prems(1) in simp)
qed auto

lemma build_verifier_Inr:
  assumes "build_verifier V operator mirrors = Inr (C, ids)"
  shows "distinct ids" and "map Some ids = mirrors" and "operator \<notin> Some ` set ids"
    and "vc_min_mirrors C \<le> int (length ids)" and "1 \<le> vc_min_mirrors C"
    and "\<not> vo_testnet V \<Longrightarrow> \<not> vo_allow_unsafe_single_mirror V \<Longrightarrow> 2 \<le> vc_min_mirrors C"
    and "vo_strict_mode V \<Longrightarrow> \<not> vo_allow_unsafe_single_mirror V"
    and "vc_max_root_lag C = Some (vo_max_root_lag V)" "vc_strict C = vo_strict_mode V"
    and "0 \<le> vc_future_skew C" "vc_future_skew C < vc_max_root_age C" "vc_future_skew C \<le> 300"
    and "vc_strict C \<Longrightarrow> vc_max_root_age C \<le> 600"
proof -
  from assms obtain n u where n: "validated_min_mirrors V = Inr n" and s: "validate_mirror_sources n operator mirrors = Inr ids"
    and f: "validate_current_root_freshness_config V = Inr u" and strict: "\<not> (vo_strict_mode V \<and> vo_allow_unsafe_single_mirror V)"
    and C: "C = \<lparr>vc_operator_public_key = vo_operator_public_key V, vc_strict = vo_strict_mode V,
             vc_max_stale = vo_consistency_max_stale V, vc_max_root_age = vo_max_current_root_age V,
             vc_future_skew = vo_current_root_future_skew V, vc_min_mirrors = n,
             vc_max_root_lag = Some (vo_max_root_lag V)\<rparr>"
    unfolding build_verifier_def bindE_Inr_iff if_Inl_Inr_iff by (metis Inr_inject prod.inject)
  from s have m: "mirror_identities operator [] mirrors = Inr ids" and l: "n \<le> int (length ids)"
    by (auto simp: validate_mirror_sources_def bindE_Inr_iff split: if_splits)
  from mirror_identities_Inr [OF m] show "distinct ids" "map Some ids = mirrors" "operator \<notin> Some ` set ids" by auto
  show "vc_min_mirrors C \<le> int (length ids)" using l by (simp add: C)
  show "1 \<le> vc_min_mirrors C" "\<not> vo_testnet V \<Longrightarrow> \<not> vo_allow_unsafe_single_mirror V \<Longrightarrow> 2 \<le> vc_min_mirrors C"
    using n by (auto simp: C validated_min_mirrors_def DEFAULT_MIN_ROOT_MIRRORS_def Let_def split: if_splits)
  show "vo_strict_mode V \<Longrightarrow> \<not> vo_allow_unsafe_single_mirror V" using strict by blast
  show "vc_max_root_lag C = Some (vo_max_root_lag V)" "vc_strict C = vo_strict_mode V" by (simp_all add: C)
  show "0 \<le> vc_future_skew C" "vc_future_skew C < vc_max_root_age C" "vc_future_skew C \<le> 300"
    "vc_strict C \<Longrightarrow> vc_max_root_age C \<le> 600"
    using f by (auto simp: C validate_current_root_freshness_config_def Let_def MAX_CURRENT_ROOT_FUTURE_SKEW_SECONDS_def
        STRICT_MAX_CURRENT_ROOT_AGE_SECONDS_def split: if_splits)
qed

text \<open>
  The composition: what a strict verifier accepts about a transfer's history, two independent mirrors have vouched
  for. One of them served the root itself and the other a root that agrees with it and is not earlier; both are roots
  of the operator's lineage that hold the leaf, in time.
\<close>

lemma subseq_part: "subseq xs ys \<Longrightarrow> set xs \<subseteq> set ys \<and> (distinct ys \<longrightarrow> distinct xs)"
  by (induction rule: list_emb.induct) auto

lemma another_key:
  assumes "distinct (map fst xs)" and "2 \<le> length xs"
  shows "\<exists>y \<in> set xs. fst y \<noteq> j"
proof (rule ccontr)
  assume "\<not> ?thesis"
  then have "set (map fst xs) \<subseteq> {j}" by auto
  from card_mono [OF _ this] have "length xs \<le> 1" using distinct_card [OF assms(1)] by simp
  with assms(2) show False by simp
qed

definition vouched_by_two ::
    "platform \<Rightarrow> transparency \<Rightarrow> verifier_config \<Rightarrow> log_network \<Rightarrow> observed_store \<Rightarrow> source_identity option \<Rightarrow> int \<Rightarrow> int \<Rightarrow> int
      \<Rightarrow> bool \<Rightarrow> json \<Rightarrow> bool" where
  "vouched_by_two P T C L st operator lag timestamp i late root \<longleftrightarrow>
     (\<exists>j k f g m n b. j \<noteq> k \<and> operator \<notin> {Some j, Some k} \<and> (j, f) \<in> set (ln_root_at L) \<and> (k, g) \<in> set (ln_root_at L)
        \<and> f m = Inr root \<and> g n = Inr b \<and> agree root b \<and> root_time root \<le> root_time b
        \<and> (\<forall>r \<in> {root, b}. verify_signed_root_for_lineage P T C st r = Inr () \<and> i < root_size r \<and> timestamp \<le> root_time r
             \<and> (root_time r - timestamp \<le> lag \<or> late)))"

lemma two_mirrors:
  assumes b: "build_verifier V operator mirrors = Inr (C, ids)" and "vo_strict_mode V" "\<not> vo_testnet V"
    and ids: "map fst (ln_root_at L) = ids" and root: "mirrored_root P T C L st timestamp i late root"
  shows "vouched_by_two P T C L st operator (vo_max_root_lag V) timestamp i late root"
proof -
  note v = build_verifier_Inr [OF b]
  from root obtain xs where xs: "subseq (map fst xs) (map fst (ln_root_at L))" "vc_min_mirrors C \<le> int (length xs)"
    "root \<in> snd ` set xs"
    "\<forall>(i', r) \<in> set xs. (\<exists>root_at k. (i', root_at) \<in> set (ln_root_at L) \<and> root_at k = Inr r)
             \<and> verify_signed_root_for_lineage P T C st r = Inr () \<and> timestamp \<le> root_time r \<and> i < root_size r
             \<and> (within_lag C timestamp r \<or> late) \<and> root_time root \<le> root_time r"
    "\<forall>a \<in> snd ` set xs. \<forall>b \<in> snd ` set xs. agree a b"
    unfolding mirrored_root_def by blast
  have two: "2 \<le> length xs" using v(6) [OF assms(3) v(7) [OF assms(2)]] xs(2) by linarith
  have d: "distinct (map fst xs)" using subseq_part [OF xs(1)] v(1) ids by simp
  from xs(3) obtain j where x: "(j, root) \<in> set xs" by auto
  from another_key [OF d two, of j] obtain k b where y: "(k, b) \<in> set xs" and jk: "j \<noteq> k" by auto
  have "fst ` set xs \<subseteq> set ids" using subseq_part [OF xs(1)] ids by simp
  with x y v(3) have o: "operator \<notin> {Some j, Some k}" by force
  have lag: "within_lag C timestamp r \<longleftrightarrow> root_time r - timestamp \<le> vo_max_root_lag V" for r
    by (simp add: within_lag_def v(8))
  from xs(4) x y have q: "\<forall>r \<in> {root, b}. verify_signed_root_for_lineage P T C st r = Inr () \<and> i < root_size r \<and> timestamp \<le> root_time r
      \<and> (root_time r - timestamp \<le> vo_max_root_lag V \<or> late)" "root_time root \<le> root_time b" unfolding lag by blast+
  from xs(4) x obtain f m where f: "(j, f) \<in> set (ln_root_at L)" "f m = Inr root" by blast
  from xs(4) y obtain g n where g: "(k, g) \<in> set (ln_root_at L)" "g n = Inr b" by blast
  have ab: "agree root b" using xs(5) x y by force
  show ?thesis unfolding vouched_by_two_def
    by (rule exI [of _ j], rule exI [of _ k], rule exI [of _ f], rule exI [of _ g], rule exI [of _ m], rule exI [of _ n],
        rule exI [of _ b]) (intro conjI jk o f g ab q)
qed

end
