(* ===== verification/HistorySamples.thy ===== *)
theory HistorySamples
  imports VerifierSetup VerifierSamples
begin

text \<open>
  A log with one transfer, an operator that proves it and two mirrors with its root: the concrete values for the
  witnesses about the checks of a transfer's history.
\<close>

section \<open>A strict verifier\<close>

definition history_options :: verifier_options where
  "history_options = \<lparr>vo_operator_public_key = Some operator_key, vo_max_root_lag = 3600, vo_min_mirrors = 2,
     vo_allow_unsafe_single_mirror = False, vo_strict_mode = True, vo_consistency_max_stale = 86400,
     vo_max_current_root_age = 600, vo_current_root_future_skew = 60, vo_testnet = False\<rparr>"

definition history_config :: verifier_config where
  "history_config = \<lparr>vc_operator_public_key = Some operator_key, vc_strict = True, vc_max_stale = 86400,
     vc_max_root_age = 600, vc_future_skew = 60, vc_min_mirrors = 2, vc_max_root_lag = Some 3600\<rparr>"

lemma build_history_verifier:
  "build_verifier history_options None [Some (IdText ''mirror 1''), Some (IdText ''mirror 2'')]
     = Inr (history_config, [IdText ''mirror 1'', IdText ''mirror 2''])"
  by (simp add: build_verifier_def history_options_def history_config_def validated_min_mirrors_def validate_mirror_sources_def
      validate_current_root_freshness_config_def DEFAULT_MIN_ROOT_MIRRORS_def MAX_CURRENT_ROOT_FUTURE_SKEW_SECONDS_def
      STRICT_MAX_CURRENT_ROOT_AGE_SECONDS_def Let_def)

section \<open>The leaf of the first transfer\<close>

definition history_entry :: string where
  "history_entry = result_or [] (message_hash TP (transfer_json first_transfer))"

lemma history_entry_hash: "message_hash TP (transfer_json first_transfer) = Inr history_entry"
proof -
  have "\<exists>h. message_hash TP (transfer_json first_transfer) = Inr h"
    using json_fits_canonical(2) [OF first_transfer_fits] by (auto simp: message_hash_def)
  then show ?thesis unfolding history_entry_def by (rule result_or_Inr)
qed

lemma history_entry_text [simp]: "hash_text history_entry"
proof -
  from history_entry_hash obtain m where "sha3_hex TP m = history_entry" by (auto simp: message_hash_def bindE_Inr_iff)
  moreover have "hash_text (sha3_hex TP m)" by simp
  ultimately show ?thesis by (simp only:)
qed

definition history_leaf :: bytes where "history_leaf = toy_hash (digest_bytes history_entry)"

lemma history_leaf_hash: "log_leaf_hash TL history_entry = Inr history_leaf"
proof -
  obtain b where b: "fromhex history_entry = Some b"
    using hash_text_hex64 [OF history_entry_text] by (auto simp: hex64_def)
  then show ?thesis
    by (simp add: log_leaf_hash_def entry_hash_bytes_def hash_text_length Let_def toy_log_def history_leaf_def digest_bytes_def)
qed

lemma history_leaf_length [simp]: "length history_leaf = 32"
  by (simp add: history_leaf_def toy_hash_def Let_def)

section \<open>The root over it\<close>

definition history_root :: json where "history_root = sign_root TP (hex_text history_leaf) 1800000000"

lemma history_root_platform: "root_platform TP" "hash_text (hex_text history_leaf)" "(0 :: int) \<le> 1800000000" "(1800000000 :: int) \<le> 4000000000"
  by simp_all

lemma verify_history_root: "pinned pin operator_key \<Longrightarrow> verify_signed_root TP T history_root pin = Inr ()"
  unfolding history_root_def by (rule verify_sign_root [OF history_root_platform])

lemmas history_root_jget = root_facts [OF history_root_platform, folded history_root_def]

lemma history_root_key: "root_key history_root = operator_key"
proof -
  obtain s where root: "history_root = JDict (root_items TP (hex_text history_leaf) 1800000000 @ [(''signature'', JStr s)])"
    using sign_root_items(1) [OF history_root_platform] by (auto simp: history_root_def)
  have "jget history_root ''operator_public_key'' = Some (JStr operator_key)" unfolding root by (simp add: root_items_def)
  then show ?thesis by (simp add: root_text_def)
qed

lemma history_root_values: "root_size history_root = 1" "root_time history_root = 1800000000"
  by (simp_all add: root_int_def history_root_jget)

lemma history_root_honest: "honest_root TP TL history_config history_root"
proof -
  have "\<exists>i. signed_root_id TP history_root = Inr i"
    using history_root_jget(9) by (auto simp: signed_root_id_def message_hash_def canonical_bytes_def)
  then show ?thesis
    unfolding honest_root_def using verify_history_root [of "Some operator_key" TL]
    by (simp add: history_config_def pinned_def toy_platform_def)
qed

section \<open>The proofs the operator serves\<close>

definition history_inclusion :: json where
  "history_inclusion = JDict [(''type'', JStr LOG_INCLUSION_PROOF_TYPE), (''version'', JInt LOG_VERSION),
     (''log_id'', JStr sample_log_id), (''entry_hash'', JStr history_entry),
     (''leaf_hash'', JStr (hex_text history_leaf)), (''leaf_index'', JInt 0), (''tree_size'', JInt 1), (''proof'', JDict [])]"

lemma verify_history_inclusion:
  "verify_inclusion_proof TP TL history_entry history_inclusion history_root (Some operator_key) = Inr ()"
proof -
  have "verify_signed_root TP TL history_root (Some operator_key) = Inr ()"
    by (rule verify_history_root) (simp add: pinned_def)
  moreover have "require_exact_keys history_inclusion INCLUSION_FIELDS l [] InclusionProofError = Inr ()" for l
    unfolding require_exact_keys_Inr_iff by (simp add: history_inclusion_def INCLUSION_FIELDS_def)
  moreover have "root_hash_bytes history_root = Inr history_leaf"
    by (simp add: root_hash_bytes_def str_at_def jat_def history_root_jget)
  ultimately show ?thesis
    unfolding verify_inclusion_proof_def using history_leaf_hash
    by (simp add: jat_def history_root_jget require_int_for_def history_inclusion_def toy_log_fields sample_log_id_def)
qed

lemma verify_history_spend: "verify_spend_map_proof TP TL (spend_map_proof_json sample_spend_proof) history_root = Inr [sample_claim]"
proof -
  have "\<exists>cs. verify_spend_map_proof TP TL (spend_map_proof_json sample_spend_proof) history_root = Inr cs
      \<and> map claim_json cs = smp_spend_claims sample_spend_proof"
  proof (rule built_proof_verifies [OF toy_hash_ok build_sample_proof _ make_sample_map_root(1)])
    show "verify_signed_root TP TL history_root None = Inr ()" by (rule verify_history_root) (simp add: pinned_def)
  qed (use sample_claim_fields history_root_jget normalize_sample_claim in \<open>auto simp: sample_spend_proof_def sample_log_id_def\<close>)
  then obtain c where c: "verify_spend_map_proof TP TL (spend_map_proof_json sample_spend_proof) history_root = Inr [c]"
    by (auto simp: sample_spend_proof_def)
  then have "normalize_spend_claim TP (claim_json sample_claim) = Inr c"
    unfolding verify_spend_map_proof_def bindE_Inr_iff read_spend_map_proof_json
    by (auto dest!: check_spend_map_proofD simp: sample_spend_proof_def bindE_Inr_iff normalize_sample_claim)
  with normalize_sample_claim c show ?thesis by simp
qed

lemma history_settled:
  "verify_spend_map_proof_for_transfer TP TL first_transfer (spend_map_proof_json sample_spend_proof) history_root (Some operator_key)
     = Inr Settled"
proof -
  have "verify_signed_root TP TL history_root (Some operator_key) = Inr ()" by (rule verify_history_root) (simp add: pinned_def)
  moreover have "spend_key_for_transfer TP first_transfer = Inr (sc_spend_key sample_claim)" by (simp add: sample_claim_fields)
  moreover have "expected_transfer_hash TP first_transfer = Inr (sc_transfer_hash sample_claim)"
    by (simp add: expected_transfer_hash_def first_transfer_rest TRANSFER_TYPE_def first_transfer_hash sample_claim_fields)
  moreover have "check_transfer_claim first_transfer (sc_spend_key sample_claim) (sc_transfer_hash sample_claim) sample_claim = Inr ()"
    by (simp add: check_transfer_claim_Inr_iff sibling_fields_def sample_claim_fields first_transfer_fields)
  ultimately show ?thesis
    using verify_history_spend by (simp add: verify_spend_map_proof_for_transfer_def judge_conflicts_def)
qed

section \<open>The network\<close>

definition history_operator :: proof_source where
  "history_operator = \<lparr>ps_identity = None, ps_latest_root = Inr history_root,
     ps_inclusion_proof = Some (\<lambda>_ _. Inr history_inclusion),
     ps_spend_map_proof = Some (\<lambda>_ _. Inr (spend_map_proof_json sample_spend_proof))\<rparr>"

definition history_network :: log_network where
  "history_network = \<lparr>ln_network = sample_network,
     ln_root_at = [(IdText ''mirror 1'', roots_root_at [history_root]), (IdText ''mirror 2'', roots_root_at [history_root])],
     ln_operator = history_operator, ln_archives = [], ln_mirrors = []\<rparr>"

definition no_recovery :: recovery_config where
  "no_recovery = \<lparr>rc_min_feeds = 1, rc_feed_keys = None\<rparr>"

lemma history_numbered: "numbered history_root"
  using verify_history_root [of None] by (auto simp: pinned_def intro: verified_numbered)

lemma history_mirror_answers: "roots_root_at [history_root] 1800000000 = Inr history_root"
  using history_numbered history_root_values by (simp add: roots_root_at_eq)

lemma history_operator_honest: "honest_operator TP TL history_operator first_transfer history_root"
proof -
  obtain k where k: "spend_key_for_transfer TP first_transfer = Inr k" using first_spend_key_exists by blast
  show ?thesis
    unfolding honest_operator_def
  proof (intro conjI exI)
    show "transfer_entry_hash TP first_transfer = Inr history_entry" using history_entry_hash by (simp add: transfer_entry_hash_def)
    show "spend_key_for_transfer TP first_transfer = Inr k" by (rule k)
    show "verify_inclusion_proof TP TL history_entry history_inclusion history_root (Some (root_key history_root)) = Inr ()"
      unfolding history_root_key by (rule verify_history_inclusion)
    show "verify_spend_map_proof_for_transfer TP TL first_transfer (spend_map_proof_json sample_spend_proof) history_root
        (Some (root_key history_root)) = Inr Settled"
      unfolding history_root_key by (rule history_settled)
    show "jget history_inclusion ''leaf_index'' = Some (JInt 0)" by (simp add: history_inclusion_def)
  qed (simp_all add: history_operator_def history_root_values)
qed

lemma sample_history:
  "\<exists>s'. verify_transfer_history 0 TP TL history_config no_recovery history_network first_transfer JNull JNull new_verifier
     = Some (Inr history_root, s') \<and> settled TP history_root (vf_store s')"
proof (rule honest_history [OF history_root_honest])
  show "sees_only history_root (vf_store new_verifier)" by (simp add: new_verifier_def)
  show "\<forall>(k, f) \<in> set (ln_root_at history_network). f (tr_timestamp first_transfer) = Inr history_root"
    by (simp add: history_network_def first_transfer_rest history_mirror_answers)
  show "honest_operator TP TL (ln_operator history_network) first_transfer history_root"
    using history_operator_honest by (simp add: history_network_def)
  show "within_lag history_config (tr_timestamp first_transfer) history_root"
    by (simp add: within_lag_def history_config_def first_transfer_rest history_root_values)
qed (simp_all add: history_network_def history_config_def first_transfer_rest history_root_values)

lemma history_identities: "map fst (ln_root_at history_network) = [IdText ''mirror 1'', IdText ''mirror 2'']"
  by (simp add: history_network_def)

lemma history_lineage: "verify_signed_root_for_lineage TP TL history_config empty_store history_root = Inr ()"
  using verify_history_root [of "Some operator_key" TL]
  by (intro verify_lineage_plain) (simp_all add: history_config_def pinned_def empty_store_def)

lemma history_slot:
  "\<exists>k ms. spend_key_for_transfer TP first_transfer = Inr k \<and> slot_evidence TP history_network k history_root = Inr ([sample_claim], ms)"
proof -
  obtain k where k: "spend_key_for_transfer TP first_transfer = Inr k" using first_spend_key_exists by blast
  obtain ms where ms: "proof_preimages TP sample_spend_proof = Inr ms" using sample_preimages ..
  have p: "first_proof ps_spend_map_proof history_network k n = Inr (spend_map_proof_json sample_spend_proof)" for n
    by (rule operator_proof) (simp_all add: history_network_def history_operator_def)
  have c: "check_spend_map_proof TP sample_spend_proof history_root = Inr [sample_claim]"
    using verify_history_spend by (simp add: verify_spend_map_proof_def bindE_Inr_iff read_spend_map_proof_json)
  from k show ?thesis by (simp add: slot_evidence_def p c ms)
qed

end
