(* ===== verification/MultiVerifier.thy ===== *)
theory MultiVerifier
  imports VerifierSetup
begin

text \<open>
  \<open>MultiTransparencyVerifier\<close> of \<open>src/ind/transparency_client.py\<close>: the verifiers of several operators behind one
  interface. A message goes to the verifier that accepts its root, or to the first one.
\<close>

section \<open>State and dispatch\<close>

type_synonym multi = "(verifier_config \<times> verifier) list"

definition build_multi :: "(verifier_config \<times> verifier) option list \<Rightarrow> multi res" where
  "build_multi verifiers = (let ms = map the (filter (\<lambda>v. v \<noteq> None) verifiers) in
     if ms = [] then Inl (TransparencyLogError ''multi-operator transparency verifier requires operators'') else Inr ms)"

text \<open>The position of the verifier that is returned.\<close>

fun first_index :: "('a \<Rightarrow> bool) \<Rightarrow> 'a list \<Rightarrow> nat option" where
  "first_index f [] = None"
| "first_index f (x # xs) = (if f x then Some 0 else map_option Suc (first_index f xs))"

definition verifier_for_signed_root :: "platform \<Rightarrow> transparency \<Rightarrow> multi \<Rightarrow> json \<Rightarrow> nat res" where
  "verifier_for_signed_root P T ms root =
     (case first_index (\<lambda>(C, s). is_ok (verify_signed_root_for_lineage P T C (vf_store s) root)) ms of
        None \<Rightarrow> Inl (RootVerificationError ''untrusted transparency operator'') | Some i \<Rightarrow> Inr i)"

definition configured_text :: "verifier_config \<Rightarrow> string" where
  "configured_text C = strip (text_or (vc_operator_public_key C) [])"

definition verifier_for_operator :: "platform \<Rightarrow> multi \<Rightarrow> string option \<Rightarrow> string option \<Rightarrow> nat res" where
  "verifier_for_operator P ms operator_public_key log_id =
     (let key = strip (text_or operator_public_key []); l = strip (text_or log_id []) in
      case first_index (\<lambda>(C, s). key \<noteq> [] \<and> configured_text C = key
          \<or> l \<noteq> [] \<and> (if configured_text C = [] then [] else log_id_from_public_key P (configured_text C)) = l) ms of
        None \<Rightarrow> Inl (RootVerificationError ''untrusted transparency operator'') | Some i \<Rightarrow> Inr i)"

definition verifier_for_message_root :: "platform \<Rightarrow> transparency \<Rightarrow> multi \<Rightarrow> json \<Rightarrow> nat" where
  "verifier_for_message_root P T ms root =
     (case verifier_for_signed_root P T ms root of Inl e \<Rightarrow> 0 | Inr i \<Rightarrow> i)"

text \<open>A call of one verifier's method.\<close>

definition call_verifier :: "nat \<Rightarrow> (verifier_config \<Rightarrow> 'a act) \<Rightarrow> multi \<Rightarrow> 'a res \<times> multi" where
  "call_verifier i m ms = (let (C, s) = ms ! i; (r, s') = m C s in (r, ms[i := (C, s')]))"

section \<open>Messages\<close>

definition multi_root_announcement ::
    "platform \<Rightarrow> transparency \<Rightarrow> json \<Rightarrow> string option \<Rightarrow> string option \<Rightarrow> multi \<Rightarrow> json res \<times> multi" where
  "multi_root_announcement P T message peer mhash ms =
     (case verify_root_announcement P T message None of
        Inl e \<Rightarrow> (Inl e, ms)
      | Inr root \<Rightarrow> call_verifier (verifier_for_message_root P T ms root)
          (\<lambda>C. process_root_announcement P T C message peer mhash) ms)"

definition multi_equivocation_proof ::
    "platform \<Rightarrow> transparency \<Rightarrow> json \<Rightarrow> string option \<Rightarrow> string option \<Rightarrow> multi \<Rightarrow> json res \<times> multi" where
  "multi_equivocation_proof P T message peer mhash ms =
     (case verify_equivocation_proof P T message None of
        Inl e \<Rightarrow> (Inl e, ms)
      | Inr (l, c, root_a, root_b) \<Rightarrow> call_verifier (verifier_for_message_root P T ms root_a)
          (\<lambda>C. process_equivocation_proof P T C message peer mhash) ms)"

definition multi_policy_violation_proof ::
    "platform \<Rightarrow> transparency \<Rightarrow> json \<Rightarrow> string option \<Rightarrow> string option \<Rightarrow> multi \<Rightarrow> json res \<times> multi" where
  "multi_policy_violation_proof P T message peer mhash ms =
     (case bindE (verify_operator_policy_violation_proof P T message None) (\<lambda>proof. jat proof ''root'') of
        Inl e \<Rightarrow> (Inl e, ms)
      | Inr root \<Rightarrow> call_verifier (verifier_for_message_root P T ms root)
          (\<lambda>C. process_operator_policy_violation_proof P T C message peer mhash) ms)"

definition multi_consume_gossip :: "multi \<Rightarrow> json list \<times> multi" where
  "multi_consume_gossip ms =
     (concat (map (\<lambda>(C, s). vf_pending s) ms), map (\<lambda>(C, s). (C, snd (consume_pending_gossip_messages s))) ms)"

definition multi_equivocation_messages :: "int \<Rightarrow> multi \<Rightarrow> json list" where
  "multi_equivocation_messages limit ms =
     take (nat (max 0 limit)) (concat (map (\<lambda>(C, s). equivocation_messages (vf_store s) limit) ms))"

definition multi_policy_violation_messages :: "int \<Rightarrow> multi \<Rightarrow> json list" where
  "multi_policy_violation_messages limit ms =
     take (nat (max 0 limit)) (concat (map (\<lambda>(C, s). operator_policy_violation_messages (vf_store s) limit) ms))"

section \<open>Dispatch is sound\<close>

lemma first_index_Some: "first_index f xs = Some i \<Longrightarrow> i < length xs \<and> f (xs ! i) \<and> (\<forall>j < i. \<not> f (xs ! j))"
proof (induction xs arbitrary: i)
  case (Cons x xs)
  show ?case
  proof (cases "f x")
    case False
    with Cons.prems obtain k where k: "first_index f xs = Some k" "i = Suc k" by auto
    with Cons.IH [OF k(1)] False show ?thesis by (auto simp: less_Suc_eq_0_disj)
  qed (use Cons.prems in simp)
qed simp

lemma message_root_index: "ms \<noteq> [] \<Longrightarrow> verifier_for_message_root P T ms root < length ms"
  by (auto simp: verifier_for_message_root_def verifier_for_signed_root_def dest: first_index_Some split: sum.splits option.splits)

text \<open>The verifier that takes a message accepts its root, unless none does.\<close>

lemma message_root_accepted:
  assumes "verifier_for_message_root P T ms root = i" and "\<exists>(C, s) \<in> set ms. verify_signed_root_for_lineage P T C (vf_store s) root = Inr ()"
  shows "i < length ms \<and> (case ms ! i of (C, s) \<Rightarrow> verify_signed_root_for_lineage P T C (vf_store s) root = Inr ())"
proof -
  let ?f = "\<lambda>(C, s). is_ok (verify_signed_root_for_lineage P T C (vf_store s) root)"
  have "first_index f xs \<noteq> None" if "\<exists>x \<in> set xs. f x" for f :: "verifier_config \<times> verifier \<Rightarrow> bool" and xs
    using that by (induction xs) auto
  from this [of ms ?f] assms(2) obtain j where j: "first_index ?f ms = Some j" by fastforce
  with assms(1) have "i = j" by (simp add: verifier_for_message_root_def verifier_for_signed_root_def)
  with first_index_Some [OF j] show ?thesis by (auto simp: is_ok_iff)
qed

text \<open>Whatever message is processed, every verifier stays one that its own events can reach.\<close>

definition all_reachable :: "platform \<Rightarrow> transparency \<Rightarrow> json set \<Rightarrow> proof_answers \<Rightarrow> multi \<Rightarrow> bool" where
  "all_reachable P T R A ms \<longleftrightarrow> (\<forall>(C, s) \<in> set ms. reachable P T R A C s)"

lemma call_reachable:
  assumes "all_reachable P T R A ms" and "i < length ms"
    and step: "\<And>C s. snd (m C s) = perform (at_time P n) T C e s" and "event_in R A e"
  shows "all_reachable P T R A (snd (call_verifier i m ms))"
proof -
  obtain C s where i: "ms ! i = (C, s)" by (cases "ms ! i")
  have "reachable P T R A C s" using assms(1,2) i nth_mem [of i ms] by (auto simp: all_reachable_def)
  moreover have "run P T R A C s (perform (at_time P n) T C e s)" by (rule run.event [OF run.idle assms(4)])
  ultimately have "reachable P T R A C (snd (m C s))" unfolding step by (rule reachable_run)
  moreover have "snd (call_verifier i m ms) = ms[i := (C, snd (m C s))]"
    by (simp add: call_verifier_def i split_beta Let_def)
  ultimately show ?thesis
    using assms(1) set_update_subset_insert [of ms i "(C, snd (m C s))"] unfolding all_reachable_def by fastforce
qed

lemma multi_messages_reachable:
  assumes "all_reachable P T R A ms" and "ms \<noteq> []" and "message_in R m"
  shows "all_reachable P T R A (snd (multi_root_announcement (at_time P n) T m peer mh ms))"
    and "all_reachable P T R A (snd (multi_equivocation_proof (at_time P n) T m peer mh ms))"
    and "all_reachable P T R A (snd (multi_policy_violation_proof (at_time P n) T m peer mh ms))"
proof -
  note call = call_reachable [OF assms(1) message_root_index [OF assms(2)], where n = n]
  show "all_reachable P T R A (snd (multi_root_announcement (at_time P n) T m peer mh ms))"
    using assms(1) call [where e = "RootAnnouncement m peer mh" and m = "\<lambda>C. process_root_announcement (at_time P n) T C m peer mh"] assms(3)
    by (simp add: multi_root_announcement_def split: sum.splits)
  show "all_reachable P T R A (snd (multi_equivocation_proof (at_time P n) T m peer mh ms))"
    using assms(1) call [where e = "EquivocationMessage m peer mh" and m = "\<lambda>C. process_equivocation_proof (at_time P n) T C m peer mh"] assms(3)
    by (simp add: multi_equivocation_proof_def split: sum.splits prod.splits)
  show "all_reachable P T R A (snd (multi_policy_violation_proof (at_time P n) T m peer mh ms))"
    using assms(1) call [where e = "ViolationMessage m peer mh" and m = "\<lambda>C. process_operator_policy_violation_proof (at_time P n) T C m peer mh"] assms(3)
    by (simp add: multi_policy_violation_proof_def split: sum.splits)
qed

end
