(* ===== verification/Spec2Isabelle.thy ===== *)
theory Spec2Isabelle
  imports LogFacts ProofArchive BillSamples GenesisSamples HistorySamples MultiVerifier
begin

text \<open>
  A verification development for the International Dollar node: the bearer-bill protocol of version 3
  and the transparency log evidence that settles it. The Python sources are under \<open>src/ind/\<close>.

  A bill is a chain of \<open>TransferV3\<close> records from a genesis reference. A node replays the chain to learn who
  owns the bill; a checkpoint is the state after a prefix of it; an archive segment is a run of transfers
  between two checkpoints; a proof bundle shows that a checkpoint is in a signed root of the log, that the
  log's spend map records its last transfer and no conflicting one, and that it comes from a verified
  archive. Objects are bytes with a magic, a version and a network id; their hashes and signatures are over
  domain-separated preimages.

  Theories, bottom up, with the source each one models.

  \<^item> \<open>Prelude\<close>: errors as a datatype, the result type \<open>error + 'a\<close> with its bind, maps and folds, bytes, hex and
    decimal texts. The collections \<open>res_simps\<close>, \<open>reads_intros\<close>, \<open>exact_intros\<close> carry the component proofs.
  \<^item> \<open>Platform\<close>: what the program calls but does not contain (SHA3-256, base58, Ed25519, zlib, the clock, the
    configured genesis trust) as the fields of one record, the documented facts used of them as predicates,
    and a small instance of them all.
  \<^item> \<open>BinaryV3\<close> (\<open>binary_v3.py\<close>), \<open>Base85\<close>, \<open>KeysV3\<close> (\<open>crypto_ed25519.py\<close>, \<open>keys_v3.py\<close>, address checksums of
    \<open>protocol.py\<close>), \<open>Json\<close> and \<open>JsonText\<close> (canonical JSON, strict parsing and packed messages of \<open>protocol.py\<close>),
    \<open>Supply\<close> (denominations and display ids). The locales of \<open>BinaryV3\<close> state what a field codec promises: the
    reader returns what was written, and accepts nothing else. Every field interprets one of them.
  \<^item> \<open>Envelope\<close>, \<open>Checkpoint\<close>, \<open>TransferV3\<close>, \<open>Replay\<close>, \<open>CreateTransfer\<close> (\<open>protocol_v3.py\<close>): genesis references, base
    states, checkpoint cores, transfers, the replay loop and the creation of transfers. \<open>chain\<close> is the abstract
    account of a history: a relation between a state, a list of transfers and a final state. The replay loop
    is shown to compute it.
  \<^item> \<open>JsonFields\<close>, \<open>SignedRoot\<close> (\<open>transparency_client.py\<close>): dicts that arrive as JSON, signed roots,
    announcements, equivocation proofs, inclusion and consistency checks. The Merkle package is a parameter.
  \<^item> \<open>SpendMap\<close>, \<open>SpendMapLaws\<close> (\<open>transparency_client.py\<close>): spend claims and the sparse Merkle map over them. The
    level dicts of the code are shown to hold the nodes of the full binary tree of height 256.
  \<^item> \<open>Repeated\<close>, \<open>CompressedSpendMap\<close> (\<open>spend_map_v3.py\<close>), \<open>ArchiveSegment\<close> (\<open>archive_segment_v3.py\<close>), \<open>ProofBundle\<close>
    (\<open>proof_bundle_v3.py\<close>): repeated fields and headers, with the locales \<open>object_codec\<close> and
    \<open>canonical_object_codec\<close> that the three binary objects interpret, then the objects themselves.
  \<^item> \<open>GenesisManifest\<close>, \<open>GenesisLaws\<close> (\<open>genesis_manifest_v3.py\<close>): the signed list of serial ranges that issues the supply,
    and the hash, reference and base state it derives for one bill.
  \<^item> \<open>Bills\<close>, \<open>BillLaws\<close>, \<open>ConflictProof\<close>, \<open>ConflictLaws\<close>, \<open>Announcements\<close>, \<open>AnnouncementLaws\<close> (\<open>protocol_v3.py\<close>): thin bills with
    the state they prove, proofs of a double spend, and the gossip messages with the check each passes before it is
    queued. \<open>rivals\<close> is the abstract crime: two signed transfers with different hashes that spend one state.
  \<^item> \<open>KeyRotation\<close>, \<open>PolicyViolation\<close>, \<open>ProofArchive\<close> (\<open>transparency_client.py\<close>): rotation and revocation of operator
    keys, recovery witnesses and their quorum, proofs of a double spend under one root, archives of a log's entries.
  \<^item> \<open>ObservedRoots\<close>, \<open>Verifier\<close> (\<open>transparency_client.py\<close>): \<open>InMemoryObservedRootStore\<close> and the part of
    \<open>TransparencyVerifier\<close> that observes roots and gossip. A method is an action on the verifier's state that returns
    or raises. \<open>VerifierLaws\<close> has the triples for actions; \<open>VerifierKeeps\<close> the locale \<open>store_invariant\<close>, whose
    assumptions are about the store's operations and whose lemmas, continued in \<open>MirrorKeeps\<close> and \<open>HistoryKeeps\<close>, are
    about every method of the verifier; \<open>VerifierRuns\<close> the events that drive a verifier (calls of its client, answers of
    mirrors, messages of peers), the states they reach, and the step from a method to a run (a run is over the set \<open>R\<close> of
    roots that the verifier is shown and the set \<open>A\<close> of the operator's answers to requests for consistency proofs); \<open>VerifierInvariants\<close>
    interprets the locale for four invariants of the store. \<open>VerifierResults\<close> and \<open>VerifierProgress\<close> say what single
    methods return, and when they do.
  \<^item> \<open>RootMirrors\<close> (\<open>DirectoryRootMirror\<close>, \<open>StaticRootMirror\<close>), \<open>VerifierHistory\<close>, \<open>LeafSearch\<close>, \<open>HistoryLaws\<close>
    (\<open>transparency_client.py\<close>): recorded roots and the proofs read from archives; the checks of transfers, checkpoints
    and tokens against the log, with the search for a root that holds a leaf. A method that searches is a \<open>walk\<close>: an
    action that may not return.
  \<^item> \<open>VerifierSetup\<close>, \<open>MultiVerifier\<close> (\<open>transparency_client.py\<close>): the constructor of the verifier, with its checks of the
    settings and of the mirrors' identities, the startup check, and \<open>MultiTransparencyVerifier\<close>, which chooses among the
    verifiers of several operators. Each of them stays in a state that its own events reach.
  \<^item> \<open>Samples\<close>, \<open>JsonSize\<close>, \<open>LogSamples\<close>, \<open>GenesisSamples\<close>, \<open>BillSamples\<close>, \<open>VerifierSamples\<close>,
    \<open>HistorySamples\<close>: concrete values for the witnesses,
    up to a bill that verifies, its announcement, a double spend of its first state, a verifier that has
    blacklisted an operator, and one that verifies a transfer's history.
  \<^item> \<open>FurtherFacts\<close>, \<open>MoreFacts\<close>, \<open>LogFacts\<close>: theorems on the components that are not in the list below, with their witnesses.

  Conventions. A dict with a fixed set of fields is a record; a dict that arrives as JSON stays a \<open>json\<close> value. A
  field whose type the record fixes needs no type check; the other checks are kept in the source's order, with
  the source's messages, except that an f-string shows no value. \<open>None\<close> is an option. A raise is \<open>Inl\<close>. Text is a list of
  characters holding its UTF-8 bytes; \<open>proper_text\<close> says that it decodes. \<open>strip\<close> and \<open>lower\<close> act on its ASCII characters;
  white space and capitals outside ASCII are left as they are. An error while the peer roots of a log are pruned leaves
  the store as it was before the root was added; it cannot occur with evidence that was hashed before.

  Recursion. The varint reader ends because its shift grows; JSON parsing because its text shrinks; the other loops
  are structural. The verification of archive segments and of proof bundles follows links that a resolver gives, so its
  depth is an argument, the depth of Python's recursion: at depth 0 it raises. \<open>verification_depth\<close> shows that more
  depth never changes a result.

  The refresh of a stale baseline observes roots, which may ask for a refresh: its depth is an argument too, and the
  properties hold at every depth.

  The search for a root that holds a leaf is a loop without a bound in the source, a \<open>partial_function\<close> here, whose
  result is \<open>None\<close> when it does not end. C35 shows that it always ends and counts the requests it makes.

  What the properties show. C1 to C5: an accepted history is a chain of authorised, ordered, hash-linked
  transfers that keeps the bill. C6 to C8: encodings, hashes and the bill supply. C9 and C10: a manifest issues no bill
  twice and every bill it issues has a start. C11 to C13: the spend map. C14 to C17: archives, compressed
  proofs and bundles, with the absence of double settlement under one root. C18 to C23: a bill proves its history, its owner can hand it on, every
  double spend has a proof and every proof is of one, and the gossip filter keeps valid messages. C24 and C25: evidence
  of a double spend in a spend map, recovery feeds. C26 to C34: the verifier. What its store holds, what it never
  accepts, when it blacklists and that it makes progress with honest mirrors. C35 to C40: histories. The search for a
  leaf ends and finds the first root, what a strict verifier accepts was vouched for by two independent mirrors and is
  the only spend of its state under that root, an honest log is accepted, evidence is acted on.
  Nothing is assumed of the hash beyond the length of its result: a statement that needs collision freedom names
  the byte strings that would have to collide.

  Not modelled. The node and the log server (\<open>store.py\<close>, \<open>transparency_server.py\<close>, \<open>node_client.py\<close>, \<open>sender_node.py\<close>,
  \<open>transport.py\<close>) are SQL, threads and sockets; \<open>desktop.py\<close> and \<open>print_tools.py\<close> are user interface; settings,
  storage, updates and wallets are files and processes. Of \<open>transparency_client.py\<close> the SQLite store, the HTTP mirrors
  and operators, the submitters, the environment's configuration and the background thread are left out; what mirrors
  and operators answer is an argument. The bundle takes the verifier object as a parameter.
\<close>

section \<open>Bills, their states and their transfers\<close>

text \<open>
  C1: the replay loop accepts a list of transfers exactly when the base state is valid, the clock is in
  range, and the transfers form a chain from that state: each in shape, of this bill and network, next
  in sequence, naming the last hash, sent by the owner, later than the last, within the day's limit,
  authorised, and hashed into the next state.
\<close>

theorem replay_refines_chain:
  "replay_transfer_sequence P token_id s ts network_id now verify = Inr s' \<longleftrightarrow>
     state_ok P s \<and> is_ok (current_time P now) \<and> chain P token_id network_id now verify s ts s'"
  by (rule replay_iff_chain)

text \<open>
  C2: a verified replay keeps the state well formed, never changes the value or the display id of the
  bill, advances the sequence by one for each transfer, and leaves the bill with the last recipient.
\<close>

theorem replay_preserves_bill:
  assumes "hash_ok P" and "replay_transfer_sequence P token_id s ts network_id now verify = Inr s'"
  shows "state_ok P s' \<and> st_value s' = st_value s \<and> st_display_id s' = st_display_id s
    \<and> st_sequence s' = st_sequence s + int (length ts)
    \<and> st_owner_address s' = (if ts = [] then st_owner_address s else tr_recipient_address (last ts))"
  using assms chain_state_ok chain_values by (fastforce simp: replay_iff_chain)

theorem replay_preserves_bill_witness:
  "st_value first_state = 1 \<and> st_owner_address first_state = key_address seed_b"
  using replay_preserves_bill [OF toy_hash_ok replay_first_transfer] first_state_fields
  by (simp add: genesis_state_def)

text \<open>
  C3: no accepted history holds more than \<open>MAX_TRANSFERS_PER_BILL_PER_DAY\<close> transfers of one bill on
  any calendar day, whatever the counters of the base state say.
\<close>

theorem replay_daily_limit:
  assumes "replay_transfer_sequence P token_id s ts network_id now verify = Inr s'"
  shows "transfers_on d ts \<le> MAX_TRANSFERS_PER_BILL_PER_DAY"
  using assms by (auto simp: replay_iff_chain state_ok_def intro: chain_daily_limit)

theorem replay_daily_limit_witness: "transfers_on 20833 [first_transfer] \<le> MAX_TRANSFERS_PER_BILL_PER_DAY"
  by (rule replay_daily_limit [OF replay_first_transfer])

text \<open>
  C4: in an accepted history each transfer names the hash of the one before it, is sent by that one's
  recipient, has the next sequence number, and is strictly later.
\<close>

theorem replay_hash_chain:
  assumes "replay_transfer_sequence P token_id s ts network_id now verify = Inr s'" and "Suc i < length ts"
  shows "transfer_hash P (ts ! i) = Inr (tr_previous_hash (ts ! Suc i))
    \<and> tr_sender_address (ts ! Suc i) = tr_recipient_address (ts ! i)
    \<and> tr_sequence (ts ! Suc i) = tr_sequence (ts ! i) + 1
    \<and> tr_timestamp (ts ! i) < tr_timestamp (ts ! Suc i)"
proof -
  from assms have c: "chain P token_id network_id now verify s ts s'" by (simp add: replay_iff_chain)
  from chain_times [OF c] assms(2) have "tr_timestamp (ts ! i) < tr_timestamp (ts ! Suc i)"
    by (auto simp: sorted_wrt_map dest: sorted_wrt_nth_less [of _ _ i "Suc i"])
  with chain_linked [OF c assms(2)] chain_sequences [OF c, of i] chain_sequences [OF c assms(2)] assms(2)
  show ?thesis by simp
qed

theorem replay_hash_chain_witness:
  "transfer_hash TP first_transfer = Inr (tr_previous_hash second_transfer)"
  using replay_hash_chain [OF replay_both_transfers, of 0] by simp

text \<open>
  C5: with signature checking, each transfer of an accepted history carries a key whose address is the
  owner at that point (the base owner first, then the recipient before), and an Ed25519 signature that
  verifies under that key over the domain-separated preimage of exactly this transfer.
\<close>

theorem replay_owner_authorised:
  assumes "replay_transfer_sequence P token_id s ts network_id now True = Inr s'" and "i < length ts"
  shows "\<exists>k sig m. decode_public_key (tr_sender_public_key (ts ! i)) = Inr k
    \<and> address_from_public_key P (PkText (tr_sender_public_key (ts ! i)))
        = Inr (if i = 0 then st_owner_address s else tr_recipient_address (ts ! (i - 1)))
    \<and> fromhex (tr_signature (ts ! i)) = Some sig \<and> transfer_signing_preimage P (ts ! i) = Inr m
    \<and> ed25519_verify P k sig m"
proof -
  from assms(1) have c: "chain P token_id network_id now True s ts s'" by (simp add: replay_iff_chain)
  from chain_members [OF c] assms(2) have "authorised P True (ts ! i)" by simp
  with chain_sender [OF c assms(2)] show ?thesis by (auto simp: authorised_def matches_iff)
qed

theorem replay_owner_authorised_witness:
  "address_from_public_key TP (PkText (tr_sender_public_key second_transfer)) = Inr (tr_recipient_address first_transfer)"
  using replay_owner_authorised [OF replay_both_transfers, of 1] by auto

section \<open>Encodings\<close>

text \<open>
  C6: the checkpoint encoder and decoder are inverse to each other: bytes are what the encoder writes for a core in
  the decoder's form (its tags, lower-case hash texts) exactly when the decoder reads that core from them and the core
  validates. No two byte strings that the decoder accepts give the same core, valid or not.
\<close>

theorem checkpoint_codec_canonical:
  "(encode_checkpoint_core P c True = Inr bs \<and> checkpoint_core_shape c
      \<longleftrightarrow> decode_checkpoint_core bs = Inr c \<and> validate_checkpoint_core P c (cp_network_id c) = Inr ())
    \<and> inj_on decode_checkpoint_core {x. is_ok (decode_checkpoint_core x)}"
proof -
  have d: "decode_checkpoint_core x = Inr d \<longleftrightarrow> checkpoint_core_shape d
    \<and> bindE (checkpoint_core_bytes d) (encode_envelope CHECKPOINT_CORE_MAGIC (cp_network_id d)) = Inr x" for x d
    unfolding decode_checkpoint_core_def by (rule checkpoint_codec.decode_iff)
  have "x = y" if "decode_checkpoint_core x = Inr k" "decode_checkpoint_core y = Inr k" for x y k
    using that unfolding d by simp
  then have "inj_on decode_checkpoint_core {x. is_ok (decode_checkpoint_core x)}" by (force simp: is_ok_iff inj_on_def)
  then show ?thesis by (auto simp: encode_checkpoint_core_Inr_iff validate_checkpoint_core_Inr_iff d)
qed

text \<open>
  C7: the checkpoint hash commits to the whole checkpoint: two checkpoints in the decoder's form (lower-case hash
  texts) that carry the hash of their own contents and carry the same one are equal in every field, when the two
  preimages do not collide.
\<close>

theorem checkpoint_hash_commits:
  assumes "checkpoint_core_shape a" and "checkpoint_core_shape b"
    and "checkpoint_core_hash P a = Inr (cp_checkpoint_hash a)" and "checkpoint_core_hash P b = Inr (cp_checkpoint_hash b)"
    and "cp_checkpoint_hash a = cp_checkpoint_hash b"
    and "inj_on (pf_sha3_256 P) {m. checkpoint_preimage P a = Inr m \<or> checkpoint_preimage P b = Inr m}"
  shows "a = b"
proof -
  from assms(3-5) obtain m m' where mm: "checkpoint_preimage P a = Inr m" "checkpoint_preimage P b = Inr m'"
    "sha3_hex P m = sha3_hex P m'" by (auto simp: checkpoint_core_hash_Inr_iff)
  with no_collision [OF assms(6) mm] have m: "checkpoint_preimage P a = Inr m" "checkpoint_preimage P b = Inr m" by simp_all
  have "checkpoint_core_shape (c\<lparr>cp_checkpoint_hash := zero_hash\<rparr>)" if "checkpoint_core_shape c" for c
    using that by (simp add: checkpoint_core_shape_def)
  from checkpoint_preimage_inject [OF m this this] assms(1,2) have
    "a\<lparr>cp_checkpoint_hash := zero_hash\<rparr> = b\<lparr>cp_checkpoint_hash := zero_hash\<rparr>" by blast
  then show ?thesis using assms(5) by (rule checkpoint_eqI)
qed

theorem checkpoint_hash_commits_witness:
  "checkpoint_core_hash TP first_checkpoint = Inr (cp_checkpoint_hash first_checkpoint) \<and> first_checkpoint = first_checkpoint"
proof -
  have h: "checkpoint_core_hash TP first_checkpoint = Inr (cp_checkpoint_hash first_checkpoint)"
    by (rule checkpoint_from_state_valid(2) [OF toy_hash_ok make_first_checkpoint])
  have "inj_on (pf_sha3_256 TP)
      {m. checkpoint_preimage TP first_checkpoint = Inr m \<or> checkpoint_preimage TP first_checkpoint = Inr m}"
    by (auto simp: inj_on_def)
  from checkpoint_hash_commits [OF first_checkpoint_shape first_checkpoint_shape h h refl this] h show ?thesis by simp
qed

section \<open>Supply and display ids\<close>

text \<open>
  C8: exactly 33,000,000,000 bills can exist: that many pairs of a denomination and a serial number
  have a canonical display id.
\<close>

theorem bill_supply:
  "int (card {(v, n). \<exists>d. canonical_display_id v n = Inr d}) = TOTAL_SUPPLY \<and> TOTAL_SUPPLY = 33000000000"
  using card_valid_bill by (simp add: canonical_display_id_Inr_iff TOTAL_SUPPLY_def)

section \<open>Genesis manifests\<close>

text \<open>
  C9: a verified genesis manifest issues no bill twice and none outside the supply: the bills of its ranges have
  canonical display ids, and its totals are their number and the sum of their values. A manifest verified for the
  full supply issues every bill.
\<close>

theorem manifest_within_supply:
  assumes "verify_manifest P m trusted full net nid = Inr v"
  shows "issued_bills m \<subseteq> {(a, n). \<exists>d. canonical_display_id a n = Inr d}
    \<and> int (card (issued_bills m)) = gm_total_token_count m \<and> (\<Sum>b \<in> issued_bills m. fst b) = gm_total_value m
    \<and> (full \<longrightarrow> issued_bills m = {(a, n). \<exists>d. canonical_display_id a n = Inr d})"
  using verified_manifest_supply [OF assms] by (simp add: canonical_display_id_Inr_iff)

theorem manifest_within_supply_witness: "int (card (issued_bills sample_manifest)) = gm_total_token_count sample_manifest"
  using verify_sample_manifest manifest_within_supply by blast

text \<open>
  C10: every bill that a verified manifest issues has a start: a base state and a genesis reference are derived for
  it, owned by the owner of its range, well formed, of the right value and display id, and the state begins at the
  reference's genesis hash.
\<close>

theorem issued_bill_starts:
  assumes "hash_ok P" and "verify_manifest P m trusted full net nid = Inr ver" and "(v, n) \<in> issued_bills m"
  shows "\<exists>s g r. derive_base_state P m v n = Inr s \<and> derive_genesis_ref P m v n = Inr g
    \<and> r \<in> set (vm_ranges ver) \<and> (v, n) \<in> range_bills r \<and> st_owner_address s = mr_owner_address r
    \<and> state_ok P s \<and> st_value s = v \<and> st_display_id s = display_text v n \<and> genesis_base s (gr_genesis_hash g)"
proof -
  from issued_bill_derives [OF assms] obtain s g r where
    *: "derive_base_state P m v n = Inr s" "derive_genesis_ref P m v n = Inr g" "r \<in> set (vm_ranges ver)" "(v, n) \<in> range_bills r"
      "st_owner_address s = mr_owner_address r" "gr_genesis_hash g = st_last_transfer_hash s" by blast
  with derived_state [OF assms(1) *(1)] show ?thesis by (auto simp: genesis_base_def)
qed

theorem issued_bill_starts_witness:
  "\<exists>s g. derive_base_state TP sample_manifest 1 1 = Inr s \<and> derive_genesis_ref TP sample_manifest 1 1 = Inr g \<and> st_value s = 1"
  using verify_sample_manifest issued_bill_starts [OF toy_hash_ok _ first_bill_issued] by blast

section \<open>The transparency log\<close>

text \<open>
  C11: the spend-map root is the root of the full sparse Merkle tree of height 256: the level dicts, which
  hold only non-empty nodes, give at every height and position the hash of the node of that tree.
\<close>

theorem spend_map_is_sparse_tree:
  "spend_map_root P claims = bindE (spend_map_levels P claims) (\<lambda>(leaves, _, _).
     Inr (node_hash P (leaf_of P leaves) SPEND_MAP_KEY_BITS 0))
   \<and> level_get (level_at P leaves h) p (empty_hash P h) = node_hash P (leaf_of P leaves) h p"
proof -
  have "level_get (level_at P ls SPEND_MAP_KEY_BITS) 0 (spend_map_empty_root P) = node_hash P (leaf_of P ls) SPEND_MAP_KEY_BITS 0" for ls
    using level_at_node [of P ls SPEND_MAP_KEY_BITS 0] by (simp add: spend_map_empty_root_def spend_map_empty_hashes_def)
  then show ?thesis using level_at_node [of P leaves h p] by (simp add: spend_map_root_def split_beta)
qed



text \<open>
  C13: two spend-map proofs for one spend key that check against the same signed root show the same
  claims, unless two byte strings hashed while checking them collide.
\<close>

theorem spend_map_binding:
  assumes "hash_ok P" and "check_spend_map_proof P q root = Inr cs" and "check_spend_map_proof P q' root = Inr cs'"
    and "smp_spend_key q = smp_spend_key q'"
    and "proof_preimages P q = Inr ms" and "proof_preimages P q' = Inr ms'" and "no_pair_collides P ms ms'"
    and "\<forall>c \<in> set cs. json_wf (claim_json c)" and "\<forall>c \<in> set cs'. json_wf (claim_json c)"
  shows "map (norm \<circ> claim_json) cs = map (norm \<circ> claim_json) cs'"
  by (rule proofs_agree [OF assms])

theorem spend_map_binding_witness:
  "\<exists>ms. proof_preimages TP sample_spend_proof = Inr ms
    \<and> (\<forall>cs'. check_spend_map_proof TP sample_spend_proof sample_root = Inr cs' \<longrightarrow> json_wf (claim_json (hd cs'))
        \<and> map (norm \<circ> claim_json) [sample_claim] = map (norm \<circ> claim_json) cs')"
proof -
  have c: "check_spend_map_proof TP sample_spend_proof sample_root = Inr [sample_claim]"
    using verify_sample_proof by (simp add: verify_spend_map_proof_def bindE_Inr_iff read_spend_map_proof_json)
  obtain ms where ms: "proof_preimages TP sample_spend_proof = Inr ms" using sample_preimages ..
  have "json_wf (claim_json sample_claim)" using sample_claim_fits by (simp add: json_fits_def)
  with spend_map_binding [OF toy_hash_ok c c refl ms ms same_lists_collide_not] c ms show ?thesis by auto
qed

section \<open>Archives and proof bundles\<close>

text \<open>
  C14: a segment that verifies, with nothing taken on trust from a checkpoint resolver, ends a line of segments: each
  names the hash of the one before it, the oldest names none, every genesis reference is valid, and the base state of
  the oldest has sequence 0 and the genesis hash of its own genesis reference as its last hash. Replaying the transfers
  of these segments in order, each under the bill id of its segment, leads from that base state to the returned
  checkpoint, whose hash is the one the segment carries.
\<close>

theorem archive_proves_history:
  assumes "verify_archive_segment d P s (Some n) prev R now = Inr core" and "rs_checkpoint R = None"
  shows "cp_checkpoint_hash core = ar_checkpoint_hash s
    \<and> (\<exists>segs. segs \<noteq> [] \<and> last segs = s \<and> ar_previous_segment_hash (hd segs) = None
      \<and> successively (\<lambda>p q. archive_segment_hash P p = Inr (the (ar_previous_segment_hash q))
           \<and> ar_previous_segment_hash q \<noteq> None) segs
      \<and> list_all (\<lambda>x. validate_genesis_ref P (ar_genesis_ref x) n = Inr ()) segs
      \<and> st_sequence (ar_base_state (hd segs)) = 0
      \<and> st_last_transfer_hash (ar_base_state (hd segs)) = gr_genesis_hash (ar_genesis_ref (hd segs))
      \<and> replay_blocks P n now (ar_base_state (hd segs)) (map (\<lambda>x. (ar_token_id x, ar_transfers x)) segs)
          = Inr (initial_state_from_checkpoint_core core))"
proof -
  from verified_history [OF assms] obtain segs where segs: "segment_line P n segs" "last segs = s"
    "replay_blocks P n now (ar_base_state (hd segs)) (segment_blocks segs) = Inr (initial_state_from_checkpoint_core core)"
    by blast
  from segs(1) have "successively (\<lambda>p q. archive_segment_hash P p = Inr (the (ar_previous_segment_hash q))
      \<and> ar_previous_segment_hash q \<noteq> None) segs"
    unfolding segment_line_def by (elim conjE, elim successively_mono) (auto simp: follows_segment_def)
  with segs verify_archive_core(1) [OF assms(1)] show ?thesis
    by (intro conjI exI [of _ segs])
      (auto simp: segment_line_def genesis_base_def segment_blocks_def segment_ok_def list_all_iff)
qed

theorem archive_proves_history_witness:
  "\<exists>segs. last segs = sample_segment \<and> gr_genesis_hash (ar_genesis_ref (hd segs)) = st_last_transfer_hash (ar_base_state (hd segs))
    \<and> replay_blocks TP 1 None (ar_base_state (hd segs)) (map (\<lambda>x. (ar_token_id x, ar_transfers x)) segs)
      = Inr (initial_state_from_checkpoint_core first_checkpoint)"
  using archive_proves_history [OF verify_sample_segment [of None]] by force

text \<open>
  C15: dropping the empty siblings from a spend-map proof and restoring them gives the proof back, for every proof
  that compresses, is in the log's format (its tags, a lower-case spend key, sizes that are not negative) and has a path
  that follows its spend key.
\<close>

theorem compressed_proof_expands:
  assumes "smp_type full = LOG_SPEND_MAP_PROOF_TYPE" "smp_version full = LOG_VERSION" "smp_algorithm full = LOG_SPEND_MAP_ALGORITHM"
    and "hash_text (smp_spend_key full)" and "0 \<le> smp_tree_size full" "0 \<le> smp_map_size full"
    and "spend_key_position (smp_spend_key full) = Inr position" and "path_follows position (smp_audit_path full)"
    and "0 \<le> network_id" and "compress_spend_map_proof P full network_id = Inr c"
  shows "expand_compressed_spend_map_proof P c (Some network_id) = Inr full"
  by (rule expand_compress [OF assms])

theorem compressed_proof_expands_witness:
  "expand_compressed_spend_map_proof TP sample_compressed (Some 1) = Inr sample_spend_proof"
  by (rule compressed_proof_expands [OF _ _ _ _ _ _ _ sample_path_follows _ make_sample_compressed])
    (simp_all add: sample_spend_proof_def sample_claim_fields spend_key_position_hash sample_position_def)

text \<open>
  C16: a verified bundle proves a history: the checkpoint it returns has the bundle's checkpoint hash, and is
  the checkpoint of a replay from a base state at sequence 0 that carries the genesis hash of a valid genesis
  reference; the bundle hashes to the hash it carries.
\<close>

theorem verified_bundle_history:
  assumes "verify_proof_bundle d P T C b expected net seen = Inr core"
  shows "cp_checkpoint_hash core = lower (pb_checkpoint_hash b) \<and> proof_bundle_hash P b = Inr (pb_proof_bundle_hash b)
    \<and> (\<exists>base g blocks. validate_genesis_ref P g (pb_network_id b) = Inr () \<and> genesis_base base (gr_genesis_hash g)
         \<and> replay_blocks P (pb_network_id b) None base blocks = Inr (initial_state_from_checkpoint_core core))"
proof -
  from verified_bundle_source(1) [OF assms] obtain k s where
    "verify_archive_segment k P s (Some (pb_network_id b)) None \<lparr>rs_segment = ctx_segments C, rs_checkpoint = None\<rparr> None = Inr core"
    by blast
  from verified_history [OF this] obtain segs where segs: "segment_line P (pb_network_id b) segs"
    "replay_blocks P (pb_network_id b) None (ar_base_state (hd segs)) (segment_blocks segs)
      = Inr (initial_state_from_checkpoint_core core)" by auto
  with line_genesis [OF segs(1)] verified_bundle_source(3,4) [OF assms] show ?thesis by blast
qed

theorem verified_bundle_history_witness:
  "\<exists>base g blocks. validate_genesis_ref TP g 1 = Inr () \<and> genesis_base base (gr_genesis_hash g)
    \<and> replay_blocks TP 1 None base blocks = Inr (initial_state_from_checkpoint_core first_checkpoint)"
proof -
  have n: "pb_network_id sample_bundle = 1" by (simp add: sample_bundle_def bare_bundle_def)
  from verified_bundle_history [OF verify_sample_bundle] show ?thesis unfolding n by blast
qed

text \<open>
  C17: no double settlement under one root. Two bundles that verify under the same signed root, with spend
  proofs for the same spend key, settle the same transfer, unless two byte strings hashed while checking
  the spend proofs collide.
\<close>

theorem no_double_settlement:
  assumes "hash_ok P"
    and "verify_proof_bundle d P T C b expected net seen = Inr core"
    and "verify_proof_bundle d' P T' C' b' expected' net' seen' = Inr core'"
    and "pb_signed_root b = pb_signed_root b'"
    and "settlement_evidence P b = Inr (k, cs, ms)" and "settlement_evidence P b' = Inr (k, cs', ms')"
    and "no_pair_collides P ms ms'"
    and "\<forall>c \<in> set cs. json_wf (claim_json c)" and "\<forall>c \<in> set cs'. json_wf (claim_json c)"
  shows "cp_last_transfer_hash core = cp_last_transfer_hash core'"
  by (rule settlements_agree [OF assms])

theorem no_double_settlement_witness:
  "\<exists>core. verify_proof_bundle 7 TP TL sample_context sample_bundle None None {} = Inr core
    \<and> cp_last_transfer_hash core = cp_last_transfer_hash first_checkpoint"
proof -
  obtain ms where ms: "settlement_evidence TP sample_bundle = Inr (sc_spend_key sample_claim, [sample_claim], ms)"
    using sample_settlement by blast
  have wf: "\<forall>c \<in> set [sample_claim]. json_wf (claim_json c)" using sample_claim_fits by (simp add: json_fits_def)
  from no_double_settlement [OF toy_hash_ok verify_sample_bundle_again verify_sample_bundle refl ms ms same_lists_collide_not wf wf]
    verify_sample_bundle_again show ?thesis by blast
qed

section \<open>Bills, announcements and conflict proofs\<close>

text \<open>
  C18: a bill that verifies proves a history: a replay from a genesis state (sequence 0, with the genesis hash of a valid
  genesis reference), through the archived transfers and the
  recent ones with their signatures, ends in the state the bill is worth; value and display id are the bill's from
  the start, and the sequence counts every transfer.
\<close>

theorem verified_bill_proves_history:
  assumes "verify_bill_state d P T C source given expected now = Inr s"
  shows "\<exists>b g base blocks mid. bill_of P source = Inr b \<and> validate_genesis_ref P g (bl_network_id b) = Inr ()
    \<and> genesis_base base (gr_genesis_hash g) \<and> replay_blocks P (bl_network_id b) None base blocks = Inr mid
    \<and> replay_transfer_sequence P (bl_token_id b) mid (bl_recent_transfers b) (bl_network_id b) now True = Inr s
    \<and> st_value base = bl_value b \<and> st_value s = bl_value b
    \<and> st_display_id base = display_text (bl_value b) (gr_issue_index (bl_genesis_ref b)) \<and> st_display_id s = st_display_id base
    \<and> st_sequence s = int (sum_list (map (\<lambda>(_, ts). length ts) blocks) + length (bl_recent_transfers b))"
  by (rule verified_bill_history [OF assms])

theorem verified_bill_proves_history_witness: "\<exists>b. bill_of TP (Bill_Object sample_bill) = Inr b \<and> st_value first_state = bl_value b"
  using verified_bill_proves_history [OF verify_sample_bill] by blast

text \<open>
  C19: the owner of a verified bill can hand it on: with the seed behind the owner's address, a transfer to any valid
  address is made, the new bill verifies, and the recipient owns it with its value and display id unchanged. The
  numbers must fit the encoding and the bill must not have used up its day.
\<close>

theorem owner_hands_bill_on:
  assumes "hash_ok P" and "ed_ok P" and "verify_bill_state d P T C source given expected None = Inr s"
    and "bill_of P source = Inr b" and "length seed = 32"
    and "address_from_public_key P (PkBytes (pf_ed_public P seed)) = Inr (st_owner_address s)"
    and "hex64 (bl_token_id b)" "valid_address P r" "metadata_ok (metadata_or_empty m)" "bl_network_id b \<le> MAX_UVARINT"
    and "st_sequence s < MAX_UVARINT"
    and "st_last_transfer_timestamp s < pf_clock P + MAX_TRANSFER_FUTURE_SKEW_SECONDS"
    and "st_last_transfer_timestamp s < MAX_UVARINT"
    and "timestamp_day (max (pf_clock P) (st_last_transfer_timestamp s + 1)) = st_last_transfer_day s \<Longrightarrow>
      st_transfers_in_last_day s < MAX_TRANSFERS_PER_BILL_PER_DAY"
  shows "\<exists>b' s'. create_transfer d P T C source (private_key_text seed) (public_key_text (pf_ed_public P seed)) r given m None expected
        = Inr b'
    \<and> verify_bill_state d P T C (Bill_Object b') given expected None = Inr s'
    \<and> st_owner_address s' = r \<and> st_value s' = st_value s \<and> st_display_id s' = st_display_id s
    \<and> st_sequence s' = st_sequence s + 1"
  by (rule owner_transfers_bill [OF assms])

theorem owner_hands_bill_on_witness:
  "\<exists>b' s'. create_transfer 2 TP TL bill_context (Bill_Object sample_bill) (private_key_text seed_b) (public_key_text seed_b)
       (key_address seed_a) (Some sample_bundle) None None (Some 1) = Inr b'
     \<and> verify_bill_state 2 TP TL bill_context (Bill_Object b') (Some sample_bundle) (Some 1) None = Inr s'
     \<and> st_owner_address s' = key_address seed_a"
  using owner_hands_bill_on [OF toy_hash_ok toy_ed_ok verify_sample_bill bill_of.simps(2) seed_lengths(2), of "key_address seed_a" None]
  by (auto simp: key_address_ok first_state_fields MAX_UVARINT_def MAX_TRANSFER_FUTURE_SKEW_SECONDS_def
      MAX_TRANSFERS_PER_BILL_PER_DAY_def hash_text_hex64)

text \<open>
  C20: a wallet that keeps a bill it has verified may skip the proofs afterwards: the cached replay, which looks at no
  bundle and at no signature, gives the verified state again.
\<close>

theorem cached_replay_agrees:
  assumes "verify_bill_state d P T C source given expected now = Inr s"
  shows "cached_bill_state P source expected now = Inr s"
  by (rule verified_state_is_cached [OF assms])

theorem cached_replay_agrees_witness: "cached_bill_state TP (Bill_Object sample_bill) (Some 1) None = Inr first_state"
  by (rule cached_replay_agrees [OF verify_sample_bill])

text \<open>
  C21: every double spend can be proved and nothing else can: a conflict proof is made of two transfers exactly when
  they are signed transfers with different hashes that spend one state of one bill. The proof does not depend on
  their order, verifies, and holds the two.
\<close>

theorem double_spend_provable:
  assumes "hash_ok P" and "current_time P detected = Inr at"
  shows "((\<exists>p. create_conflict_proof_from_transfers P t u detected None = Inr p) \<longleftrightarrow> rivals P t u)
    \<and> (\<forall>p. create_conflict_proof_from_transfers P t u detected None = Inr p \<longrightarrow>
      create_conflict_proof_from_transfers P u t detected None = Inr p
      \<and> check_conflict_proof P p (Some (tr_network_id t)) = Inr True \<and> {cf_transfer_a p, cf_transfer_b p} = {t, u})"
proof -
  have r: "rivals P t u" if p: "create_conflict_proof_from_transfers P t u detected None = Inr p" for p
  proof -
    from p obtain n q where "sorted_conflicting_transfers P t u n = Inr q"
      unfolding create_conflict_proof_from_transfers_def split_beta bindE_Inr_iff option.case if_False by blast
    then show ?thesis unfolding sorted_Inr_iff by blast
  qed
  from r rivals_proof [OF assms(1) _ assms(2), of t u None] show ?thesis by auto
qed

theorem double_spend_provable_witness:
  "\<exists>p. create_conflict_proof_from_transfers TP first_transfer double_transfer None None = Inr p
     \<and> create_conflict_proof_from_transfers TP double_transfer first_transfer None None = Inr p"
  using double_spend_provable [OF toy_hash_ok sample_now, of first_transfer double_transfer] sample_rivals by blast

text \<open>
  C22: a conflict proof that verifies is evidence: its two transfers are signed, differ, and spend one state of one bill,
  the one the proof names, and its hashes and spend key are theirs.
\<close>

theorem conflict_proof_is_double_spend:
  assumes "check_conflict_proof P p expected = Inr x"
  shows "x \<and> rivals P (cf_transfer_a p) (cf_transfer_b p)
    \<and> cf_network_id p = tr_network_id (cf_transfer_a p) \<and> cf_token_id p = tr_token_id (cf_transfer_a p)
    \<and> cf_previous_hash p = tr_previous_hash (cf_transfer_a p) \<and> cf_sequence p = tr_sequence (cf_transfer_a p)
    \<and> cf_sender_address p = tr_sender_address (cf_transfer_a p)
    \<and> spend_key_for_transfer P (cf_transfer_a p) = Inr (cf_spend_key p)
    \<and> (\<exists>ha hb. transfer_hash P (cf_transfer_a p) = Inr ha \<and> transfer_hash P (cf_transfer_b p) = Inr hb
      \<and> {cf_transfer_hash_a p, cf_transfer_hash_b p} = {ha, hb} \<and> cf_transfer_hash_a p < cf_transfer_hash_b p)"
  using check_conflict_parts [OF assms] by simp

theorem conflict_proof_is_double_spend_witness:
  "\<exists>p. check_conflict_proof TP p (Some 1) = Inr True \<and> rivals TP (cf_transfer_a p) (cf_transfer_b p)"
proof -
  from rivals_proof [OF toy_hash_ok sample_rivals sample_now, of None] obtain p where p: "check_conflict_proof TP p (Some 1) = Inr True"
    by (auto simp: first_transfer_fields)
  with conflict_proof_is_double_spend [OF p] show ?thesis by blast
qed

text \<open>
  C23: the gossip filter never drops a valid transfer: an announcement that verifies, with segments that each verify on
  the bill's network (from whatever earlier segment or checkpoint they continue), passes the check of its envelope,
  which needs no log and no other message.
\<close>

theorem gossip_keeps_valid_transfers:
  assumes "hash_ok P" and "verify_transfer_announcement d P T C m expected None = Inr (b, pb, segs, tk)"
    and "\<forall>s \<in> set segs. \<exists>k prev R core. verify_archive_segment k P s (Some (bl_network_id b)) prev R None = Inr core"
  shows "validate_gossip_envelope_shape P T m = Inr True"
proof (rule verified_transfer_announcement_passes [OF assms(1,2)])
  show "\<forall>s \<in> set segs. is_ok (checkpoint_from_archive_segment_payload P s (bl_network_id b))"
    using assms(3) verified_segment_passes by (metis is_ok_iff)
qed

theorem gossip_keeps_valid_transfers_witness: "validate_gossip_envelope_shape TP TL bill_message = Inr True"
proof -
  have n: "bl_network_id spent_bill = 1" by (simp add: spent_bill_def)
  have "\<forall>s \<in> set [sample_segment]. \<exists>k prev R core. verify_archive_segment k TP s (Some (bl_network_id spent_bill)) prev R None = Inr core"
    unfolding n using verify_sample_segment [of None] by (metis empty_iff insert_iff list.set(1,2))
  then show ?thesis by (rule gossip_keeps_valid_transfers [OF toy_hash_ok verify_bill_message])
qed

section \<open>Evidence about an operator\<close>

text \<open>
  C24: a policy violation proof is accepted exactly when it is a record of the right form, its root is signed and is
  of the log it names, and its spend proof verifies against that root with two or more claims in the slot, each of
  which carries its transfer, such that every two of these transfers are a double spend: they have valid signatures,
  different hashes and one spend key, and spend the same state of the same bill.
\<close>

theorem violation_is_double_spend:
  "verify_operator_policy_violation_proof P T proof pin = Inr p \<longleftrightarrow> p = proof
     \<and> is_dict proof \<and> set (dict_keys proof) = set VIOLATION_FIELDS
     \<and> jget proof ''type'' = Some (JStr LOG_OPERATOR_POLICY_VIOLATION_TYPE) \<and> jget proof ''version'' = Some (JInt LOG_VERSION)
     \<and> jget proof ''violation_type'' = Some (JStr ''accepted_conflicting_spend'')
     \<and> (\<exists>d. jget proof ''detected_at'' = Some (JInt d) \<and> 0 \<le> d)
     \<and> (\<exists>root sp cs ts. jget proof ''root'' = Some root \<and> verify_signed_root P T root pin = Inr ()
          \<and> jget proof ''log_id'' = jget root ''log_id''
          \<and> jget proof ''spend_proof'' = Some sp \<and> verify_spend_map_proof P T sp root = Inr cs
          \<and> map sc_transfer cs = map Some ts \<and> 2 \<le> length ts \<and> sorted_wrt (double_spend P) ts)"
  unfolding verify_violation_Inr_iff using conflicting_claims_iff by blast

text \<open>
  C25: a quorum of recovery feeds can be one feed. A single trusted key that signs under several feed ids
  satisfies a quorum of as many witnesses, since ids are the signer's own words.
\<close>

theorem one_feed_is_a_quorum:
  assumes "ed_ok P" and "length seed = 32" and "hex64 mhash" and "0 \<le> seen" "t \<le> seen" "seen - t \<le> max_lag"
    and "list_all2 (\<lambda>feed j. make_recovery_witness P mhash feed seen segment (PRIVATE_KEY_PREFIX @ b85encode seed)
      (public_key_text (pf_ed_public P seed)) = Inr j) feeds js"
    and "distinct (map strip feeds)"
    and "\<forall>ks. trusted = Some ks \<longrightarrow> public_key_text (pf_ed_public P seed) \<in> set (trusted_keys ks)"
  shows "\<exists>ws. recovery_witness_quorum P js mhash t (int (length feeds)) max_lag trusted = Inr ws
    \<and> rw_feed_public_key ` set ws \<subseteq> {public_key_text (pf_ed_public P seed)}"
  by (rule one_feed_fills_quorum [OF assms])

theorem one_feed_is_a_quorum_witness:
  "\<exists>ws. recovery_witness_quorum TP [sample_witness ''feed 1'', sample_witness ''feed 2''] zero_hash 1799999000 2 3600 (Some [operator_key]) = Inr ws"
proof -
  have made: "list_all2 (\<lambda>feed j. make_recovery_witness TP zero_hash feed 1800000000 zero_hash (PRIVATE_KEY_PREFIX @ b85encode seed_a)
      (public_key_text (pf_ed_public TP seed_a)) = Inr j) [''feed 1'', ''feed 2''] [sample_witness ''feed 1'', sample_witness ''feed 2'']"
    using make_sample_witness by simp
  have feeds: "distinct (map strip [''feed 1'', ''feed 2''])" by (simp add: strip_def is_space_def code_def)
  have key: "\<forall>ks. Some [operator_key] = Some ks \<longrightarrow> public_key_text (pf_ed_public TP seed_a) \<in> set (trusted_keys ks)"
    using operator_key_strip operator_key_not_empty by (simp add: trusted_keys_def operator_key_def)
  have "\<exists>ws. recovery_witness_quorum TP [sample_witness ''feed 1'', sample_witness ''feed 2''] zero_hash 1799999000
      (int (length [''feed 1'', ''feed 2''])) 3600 (Some [operator_key]) = Inr ws
    \<and> rw_feed_public_key ` set ws \<subseteq> {public_key_text (pf_ed_public TP seed_a)}"
    by (rule one_feed_is_a_quorum [OF toy_ed_ok seed_lengths(1) hash_text_hex64 [OF zero_hash_text] _ _ _ made feeds key]) simp_all
  then show ?thesis by (simp only: list.size) (elim exE conjE, rule exI, simp)
qed

section \<open>The verifier and its store\<close>

text \<open>
  C26: in every state a verifier can reach, each stored root is one that was shown to it and that verifies, so
  its size, time and log id are of the right type, and each root of a peer is stored once under its id.
\<close>

theorem store_well_formed:
  assumes "reachable P T R A C s"
  shows "(\<forall>r \<in> oi_root ` set (ob_roots (vf_store s)) \<union> pi_root ` set (ob_peer_roots (vf_store s)).
      r \<in> R \<and> verify_signed_root P T r None = Inr () \<and> jget r ''tree_size'' = Some (JInt (root_size r))
      \<and> jget r ''timestamp'' = Some (JInt (root_time r)) \<and> jget r ''log_id'' = Some (JStr (root_log r)))
    \<and> distinct (map pi_key (ob_peer_roots (vf_store s)))"
proof -
  have "accounted P T R A empty_store" by (simp add: accounted_def empty_store_def)
  from accounting.reachable_holds [OF this assms] have st: "stored P T R (vf_store s)" by (simp add: holds_def)
  then have "r \<in> R \<and> verify_signed_root P T r None = Inr ()"
    if "r \<in> oi_root ` set (ob_roots (vf_store s)) \<union> pi_root ` set (ob_peer_roots (vf_store s))" for r
    using that unfolding stored_def by blast
  with st verified_root_log show ?thesis unfolding stored_def by blast
qed

theorem store_well_formed_witness: "jget root_a ''tree_size'' = Some (JInt (root_size root_a))"
proof -
  from accepting_settled have "oi_root ` set (ob_roots (vf_store accepting_verifier)) = {root_a}"
    by (auto simp: settled_def sees_only_def neq_Nil_conv)
  with store_well_formed [OF accepting_reachable] show ?thesis by simp
qed

text \<open>
  C27: a blacklisting is permanent: once a log is blacklisted, no operation of the verifier, whatever mirrors,
  operator and peers send, lifts it or makes the verifier accept another root of the log.
\<close>

theorem blacklist_permanent:
  assumes "reachable P T R A C s" and "run P T R A C s t" and "blacklisted (vf_store s) l"
  shows "blacklisted (vf_store t) l \<and> observed_of (vf_store t) l = observed_of (vf_store s) l"
proof -
  have "accounted P T R A empty_store" by (simp add: accounted_def empty_store_def)
  from accounting.reachable_holds [OF this assms(1)] assms(3)
  have "holds P T R (frozen l (observed_of (vf_store s) l)) s" by (simp add: holds_def frozen_def)
  from permanent.run_keeps [OF assms(2) this] show ?thesis by (simp add: holds_def frozen_def)
qed

theorem blacklist_permanent_witness:
  "blacklisted (vf_store (perform (at_time SP 1800000000) TL sample_config (CheckLatest 0 sample_network None) warned_verifier)) (root_log root_a)"
proof -
  have "run SP TL sample_roots sample_proofs sample_config warned_verifier
      (perform (at_time SP 1800000000) TL sample_config (CheckLatest 0 sample_network None) warned_verifier)"
    by (rule run.event [OF run.idle]) (simp add: sample_answers)
  from blacklist_permanent [OF warned_reachable this warned_blacklisted] show ?thesis ..
qed

text \<open>
  C28: no log is blacklisted without evidence. Its status carries an id, the store holds a record under that id, the
  id is the hash of the record, and the record is evidence about the log: two verified roots of it that contradict each
  other, a violation proof about it that verified, or the report of a failed comparison of an old and a new verified
  root. A comparison failed when the roots differ at one size, when the smaller root is the later one, or when
  the operator, whose answers are \<open>A\<close>, answered the request for a proof from the smaller to the larger root with one
  that does not verify, or raised that error itself; never when it gave no answer. The one exception is a hash
  collision: the record has replaced another one about the log, of the same kind and hash, that differs from it in
  more than the order of its keys.
\<close>

theorem blacklist_has_evidence:
  assumes "reachable P T R A C s" and "ob_statuses (vf_store s) l = Some x" and "os_status x = Blacklisted"
  shows "\<exists>i q. os_evidence_id x = Some i \<and> message_hash P q = Inr i
    \<and> ((map_of (ob_equivocations (vf_store s)) i = Some q \<and> proves_equivocation P T R l q)
      \<or> (map_of (ob_policy_violations (vf_store s)) i = Some q \<and> proves_violation P T l q)
      \<or> (map_of (ob_failures (vf_store s)) i = Some q \<and> reports_failure P T R A l q)
      \<or> (\<exists>p about. message_hash P p = Inr i \<and> norm p \<noteq> norm q \<and> about l p \<and> (\<exists>k. about k q)
          \<and> ((map_of (ob_equivocations (vf_store s)) i = Some q \<and> about = proves_equivocation P T R)
            \<or> (map_of (ob_policy_violations (vf_store s)) i = Some q \<and> about = proves_violation P T)
            \<or> (map_of (ob_failures (vf_store s)) i = Some q \<and> about = reports_failure P T R A))))"
proof -
  have "accounted P T R A empty_store" by (simp add: accounted_def empty_store_def)
  from accounting.reachable_holds [OF this assms(1)] assms(2,3) obtain i where "os_evidence_id x = Some i"
    "backed P T R A (vf_store s) l i" by (auto simp: holds_def accounted_def)
  then show ?thesis unfolding backed_def kept_about_def by blast
qed

theorem blacklist_has_evidence_witness:
  "\<exists>x i q. ob_statuses (vf_store warned_verifier) (root_log root_a) = Some x \<and> os_evidence_id x = Some i \<and> message_hash SP q = Inr i"
proof -
  from warned_blacklisted obtain x where "ob_statuses (vf_store warned_verifier) (root_log root_a) = Some x" "os_status x = Blacklisted"
    by (auto simp: blacklisted_def split: option.splits)
  with blacklist_has_evidence [OF warned_reachable this] show ?thesis by blast
qed

text \<open>
  C29: a verifier never accepts a split view: two roots of one log that it accepted, at any times and from any
  sources, have the same content when they have the same size or the same time. Ids must identify content
  among the roots that circulate, which fails only at a collision of the hash.
\<close>

theorem no_split_view:
  assumes "reachable P T R A C s" and "ids_identify P R"
    and "a \<in> oi_root ` set (ob_roots (vf_store s))" and "b \<in> oi_root ` set (ob_roots (vf_store s))"
    and "root_log a = root_log b" and "root_size a = root_size b \<or> root_time a = root_time b"
  shows "root_fingerprint a = root_fingerprint b"
proof -
  have "one_history P R empty_store" by (simp add: one_history_def empty_store_def)
  from views.reachable_holds [OF this assms(1)] have "one_history P R (vf_store s)" by (simp add: holds_def)
  with assms(2-4) have "agree a b" unfolding one_history_def by blast
  with assms(5,6) show ?thesis by (simp add: agree_def)
qed

theorem no_split_view_witness: "root_a \<in> oi_root ` set (ob_roots (vf_store accepting_verifier)) \<and> root_b \<notin> oi_root ` set (ob_roots (vf_store accepting_verifier))"
proof -
  from accepting_settled have a: "root_a \<in> oi_root ` set (ob_roots (vf_store accepting_verifier))"
    by (auto simp: settled_def sees_only_def neq_Nil_conv)
  have "root_fingerprint root_a \<noteq> root_fingerprint root_b"
    using roots_collide by (auto simp: equivocation_collision_Some_iff)
  with no_split_view [OF accepting_reachable sample_roots_identified a, of root_b] a sample_root_fields_read show ?thesis by auto
qed

text \<open>
  C30: the key rotations that a verifier holds of a log are verified and take effect at strictly growing
  tree sizes, in the order they were accepted.
\<close>

theorem rotations_successive:
  assumes "reachable P T R A C s"
  shows "sorted_wrt (\<lambda>a b. effective_size a < effective_size b) (rotations_of (vf_store s) l)
    \<and> (\<forall>r \<in> set (rotations_of (vf_store s) l). verify_key_rotation P r None None None = Inr ())"
proof -
  have "successive P empty_store" by (simp add: successive_def empty_store_def rotations_of_def)
  from succession.reachable_holds [OF this assms] show ?thesis by (auto simp: holds_def successive_def)
qed

theorem rotations_successive_witness:
  "sorted_wrt (\<lambda>a b. effective_size a < effective_size b) (rotations_of (vf_store (perform (at_time SP 0) TL sample_config
     (ObserveRotation sample_rotation None) new_verifier)) (root_log sample_rotation))"
proof -
  have "run SP TL sample_roots sample_proofs sample_config new_verifier (perform (at_time SP 0) TL sample_config (ObserveRotation sample_rotation None) new_verifier)"
    by (rule run.event [OF run.idle]) simp
  then have "reachable SP TL sample_roots sample_proofs sample_config (perform (at_time SP 0) TL sample_config (ObserveRotation sample_rotation None) new_verifier)"
    unfolding reachable_def using started.plain by blast
  from rotations_successive [OF this] show ?thesis by blast
qed

text \<open>
  C31: roots from mirrors pass the comparison exactly when each verifies and no two of one log differ at a
  common size or a common time: the two dicts of fingerprints compute the pairwise check.
\<close>

theorem mirrors_agree:
  "detect_mirror_disagreement P T roots pin = Inr () \<longleftrightarrow>
     (\<forall>r \<in> set roots. verify_signed_root P T r pin = Inr ()) \<and> (\<forall>a \<in> set roots. \<forall>b \<in> set roots. agree a b)"
  by (rule detect_mirror_disagreement_iff)

theorem mirrors_agree_witness: "detect_mirror_disagreement SP TL [root_a, root_b] None \<noteq> Inr ()"
proof -
  have "root_fingerprint root_a \<noteq> root_fingerprint root_b"
    using roots_collide by (auto simp: equivocation_collision_Some_iff)
  then have "\<not> agree root_a root_b" by (simp add: agree_def sample_root_fields_read)
  then show ?thesis unfolding mirrors_agree by simp
qed

text \<open>
  C32: honest mirrors are accepted: when all mirrors serve one root that verifies, is fresh and is the only one
  seen of its log, a check returns it from every mirror, records it and marks the operator active.
\<close>

theorem honest_mirrors_accepted:
  assumes "honest_root P T C r" and "sees_only r (vf_store s)" and "nw_mirrors N = map (\<lambda>k. (k, Inr r)) ks"
    and "ks \<noteq> []" and "vc_min_mirrors C \<le> int (length ks)"
    and "validate_current_root_freshness C r (case now of None \<Rightarrow> pf_clock P | Some t \<Rightarrow> t) = Inr ()"
  shows "\<exists>s'. check_latest_consistency d P T C N now s = (Inr (replicate (length ks) r), s') \<and> settled P r (vf_store s')"
  unfolding check_latest_consistency_def by (rule honest_mirrors [OF assms])

theorem honest_mirrors_accepted_witness:
  "\<exists>s'. check_latest_consistency 3 SP TL sample_config sample_network None new_verifier = (Inr [root_a, root_a], s')
     \<and> settled SP root_a (vf_store s')"
proof -
  have "nw_mirrors sample_network = map (\<lambda>k. (k, Inr root_a)) [IdText ''mirror 1'', IdText ''mirror 2'']"
    by (simp add: sample_network_def)
  from honest_mirrors_accepted [OF root_a_honest _ this, of new_verifier None 3] root_a_fresh show ?thesis
    by (simp add: new_verifier_def sample_config_def split_platforms numeral_2_eq_2)
qed

text \<open>
  C33: a proof of equivocation from a peer is never lost: if it verifies, its time of detection is not 0, and the two
  roots, the proof made of them again and the evidence stored so far can be hashed (they are within the size limits),
  then the operator's log is blacklisted, the proof is stored under its hash, and it is appended to the queue for other
  peers, unless a message with its hash has been queued before.
\<close>

theorem equivocation_message_blacklists:
  assumes "verify_equivocation_proof P T m None = Inr (l, c, a, b)"
    and "signed_root_id P a = Inr i" "signed_root_id P b = Inr j" and "evidence_bound P (vf_store s) = Inr bound"
    and "make_equivocation_proof P T a b (Some c) (Some (root_int m ''detected_at'')) = Inr p" "message_hash P p = Inr h"
    and "root_int m ''detected_at'' \<noteq> 0"
  shows "\<exists>s'. process_equivocation_proof P T C m peer mh s = (Inr p, s') \<and> blacklisted (vf_store s') (root_log a)
    \<and> map_of (ob_equivocations (vf_store s')) h = Some p
    \<and> vf_pending s' = (if h \<in> set (vf_queued_evidence s) then vf_pending s else vf_pending s @ [p])"
proof -
  obtain s' where s': "process_equivocation_proof P T C m peer mh s = (Inr p, s')"
    using equivocation_message_total [OF assms] by blast
  from equivocation_message_effect [OF s'] assms(1,6) s' show ?thesis by (auto simp: queues_once_def split: if_splits)
qed

theorem equivocation_message_blacklists_witness:
  "\<exists>s'. process_equivocation_proof SP TL sample_config sample_equivocation None None new_verifier = (Inr sample_equivocation, s')
     \<and> blacklisted (vf_store s') (root_log root_a) \<and> vf_pending s' = [sample_equivocation]"
proof -
  obtain h where h: "message_hash SP sample_equivocation = Inr h"
    using json_fits_canonical(2) [OF equivocation_fits] by (auto simp: message_hash_def)
  from sample_equivocation_any obtain l where v: "verify_equivocation_proof SP TL sample_equivocation None = Inr (l, ''same_tree_size'', root_a, root_b)" ..
  have "evidence_bound SP (vf_store new_verifier) = Inr []" by (simp add: new_verifier_def empty_store_def evidence_bound_def)
  moreover have "make_equivocation_proof SP TL root_a root_b (Some ''same_tree_size'') (Some (root_int sample_equivocation ''detected_at''))
      = Inr sample_equivocation" using equivocation_made equivocation_fields(4) by auto
  moreover have "root_int sample_equivocation ''detected_at'' \<noteq> 0" by (simp add: equivocation_fields)
  moreover have "vf_pending new_verifier = []" "vf_queued_evidence new_verifier = []" by (simp_all add: new_verifier_def)
  ultimately show ?thesis using equivocation_message_blacklists [OF v sample_ids _ _ h] by fastforce
qed

text \<open>
  C34: what peers send is bounded: after a new root of a peer is stored, the store holds at most the limit of
  that peer's roots of the log, or only roots that evidence refers to.
\<close>

theorem peer_roots_bounded:
  assumes "record_peer_root P st root peer mh t limit m2 = Inr st'" and "distinct (map pi_key (ob_peer_roots st))"
    and "signed_root_id P root = Inr i" and "(i, text_or peer ''unknown-peer'') \<notin> pi_key ` set (ob_peer_roots st)"
    and "evidence_bound P st = Inr bound" and "0 < limit"
  shows "peer_count (\<lambda>x. pi_peer_id x = text_or peer ''unknown-peer'' \<and> root_log (pi_root x) = root_log root) st'
      \<le> max limit (peer_count (\<lambda>x. (pi_peer_id x = text_or peer ''unknown-peer'' \<and> root_log (pi_root x) = root_log root)
           \<and> pi_root_id x \<in> set bound) st')"
  by (rule record_peer_root_bound(1) [OF assms])

theorem peer_roots_bounded_witness:
  "\<exists>st. record_peer_root SP empty_store root_a None None None 1 None = Inr st
     \<and> peer_count (\<lambda>x. pi_peer_id x = ''unknown-peer'' \<and> root_log (pi_root x) = root_log root_a) st
       \<le> max 1 (peer_count (\<lambda>x. (pi_peer_id x = ''unknown-peer'' \<and> root_log (pi_root x) = root_log root_a) \<and> pi_root_id x \<in> set []) st)"
proof -
  have b: "evidence_bound SP empty_store = Inr []" by (simp add: empty_store_def evidence_bound_def)
  from record_peer_total [OF sample_ids(1) b] obtain st where st: "record_peer_root SP empty_store root_a None None None 1 None = Inr st"
    by blast
  have "text_or None ''unknown-peer'' = ''unknown-peer''" by (simp add: text_or_def)
  with peer_roots_bounded [OF st _ sample_ids(1) _ b] st show ?thesis by (auto simp: empty_store_def)
qed

section \<open>The history of a transfer\<close>

text \<open>
  C35: the search for a root that holds a leaf ends, whatever the mirror answers and whatever the store holds. It asks
  the mirror at most once for each second between the transfer's time and the last time that the lag limit allows,
  and once more; with recovery witnesses that allow a late root only the largest number a root can carry ends it.
\<close>

theorem leaf_search_bounded:
  "\<exists>r asked. root_with_leaf P T C st root_at timestamp late min_tree_size [] timestamp = Some r
     \<and> search_requests P T C st root_at timestamp late min_tree_size [] timestamp asked
     \<and> int (card asked) \<le> max 0 (last_time C late timestamp - timestamp + 1) + 1"
proof -
  from search_ends [of P T C st root_at timestamp late min_tree_size "[]" timestamp] obtain r asked where
    "root_with_leaf P T C st root_at timestamp late min_tree_size [] timestamp = Some r"
    "search_requests P T C st root_at timestamp late min_tree_size [] timestamp asked"
    "card asked \<le> Suc (nat (last_time C late timestamp - timestamp + 1))" by auto
  then show ?thesis by (intro exI [of _ r] exI [of _ asked]) (simp add: nat_le_iff)
qed

text \<open>
  C36: with a mirror that recorded its roots, the search finds the first root that holds the leaf: the earliest one
  at or after the time that is large enough, when the recorded roots verify and have different times and that root is
  not too late.
\<close>

theorem leaf_search_first:
  assumes "\<forall>x \<in> set rs. verify_signed_root_for_lineage P T C st x = Inr ()" and "inj_on root_time (set rs)"
    and "root \<in> set rs" "timestamp \<le> root_time root" "min_tree_size \<le> root_size root" "within_lag C timestamp root \<or> late"
    and "\<forall>x \<in> set rs. timestamp \<le> root_time x \<longrightarrow> root_time x < root_time root \<longrightarrow> root_size x < min_tree_size"
  shows "root_with_leaf P T C st (roots_root_at rs) timestamp late min_tree_size [] timestamp = Some (Inr root)"
  by (rule search_first [OF assms(1-3,5-7) order_refl assms(4)]) simp

theorem leaf_search_first_witness:
  "root_with_leaf TP TL history_config empty_store (roots_root_at [history_root]) 1799999000 False 1 [] 1799999000 = Some (Inr history_root)"
  by (rule leaf_search_first)
    (use history_lineage in \<open>simp_all add: history_root_values within_lag_def history_config_def\<close>)

text \<open>
  C37: what a strict verifier accepts about a transfer, two independent mirrors have vouched for. When the verifier
  was built in strict mode, not for a test net, with its mirrors, and a transfer's history verifies, the entry is the hash of the transfer's JSON, and a
  source has proved it against its latest root, of the operator's key lineage, at some leaf. One mirror gave the root
  that is returned, and another mirror, of a different identity, gave a root that agrees with it and is not earlier;
  neither is the operator. Both are roots of the operator's key lineage, are larger than the index of that leaf, and
  are not before the transfer nor later than the lag limit, unless recovery witnesses allow it. The returned root
  proves the entry, and its spend map holds this transfer alone in the slot of the state it spends.
\<close>

theorem verified_history_vouched:
  assumes "build_verifier V operator mirrors = Inr (C, ids)" and "vo_strict_mode V" "\<not> vo_testnet V"
    and "map fst (ln_root_at L) = ids"
    and "verify_transfer_history d P T C R L t ws mh s = Some (Inr root, s')"
  shows "\<exists>h i. message_hash P (transfer_json t) = Inr h
    \<and> (\<exists>x proof latest. x \<in> set (proof_sources L) \<and> ps_latest_root x = Inr latest
         \<and> verify_signed_root_for_lineage P T C (vf_store s) latest = Inr ()
         \<and> verify_inclusion_proof P T h proof latest (Some (root_key latest)) = Inr () \<and> jget proof ''leaf_index'' = Some (JInt i))
    \<and> vouched_by_two P T C L (vf_store s) operator (vo_max_root_lag V) (tr_timestamp t) i (late_allowed P C R t ws mh h) root
    \<and> (\<exists>proof. verify_inclusion_proof P T h proof root (Some (root_key root)) = Inr ())
    \<and> (\<exists>proof. settled_alone P T t root proof)"
  using history_Inr [OF assms(5)] two_mirrors [OF assms(1-4)] by blast

theorem verified_history_vouched_witness:
  "\<exists>i. vouched_by_two TP TL history_config history_network empty_store None 3600 1800000000 i False history_root
    \<and> (\<exists>proof. settled_alone TP TL first_transfer history_root proof)"
proof -
  from sample_history obtain s' where "verify_transfer_history 0 TP TL history_config no_recovery history_network first_transfer
      JNull JNull new_verifier = Some (Inr history_root, s')" by blast
  from verified_history_vouched [OF build_history_verifier _ _ history_identities this] show ?thesis
    by (auto simp: history_options_def first_transfer_rest late_not_allowed new_verifier_def)
qed

text \<open>
  C38: one spend of a state per root. Two transfers whose histories verify under one root, by whichever verifiers and
  sources, and that spend the same state, have the same transfer hash, unless two byte strings hashed while checking
  their spend proofs (of claims that are proper JSON) collide. The hash is over the bytes of the fields: how a hex text is written, its
  letter case, is not part of it.
\<close>

theorem one_spend_per_root:
  assumes "hash_ok P" and "verify_transfer_history d P T C R L t ws mh s = Some (Inr root, s')"
    and "verify_transfer_history d' P T' C' R' L' t' ws' mh' r = Some (Inr root, r')"
    and "spend_key_for_transfer P t = Inr k" "spend_key_for_transfer P t' = Inr k"
    and "slot_evidence P L k root = Inr (cs, ms)" and "slot_evidence P L' k root = Inr (cs', ms')"
    and "no_pair_collides P ms ms'" and "\<forall>c \<in> set cs. json_wf (claim_json c)" and "\<forall>c \<in> set cs'. json_wf (claim_json c)"
  shows "expected_transfer_hash P t = expected_transfer_hash P t'"
proof -
  from history_spend [OF assms(2)] history_spend [OF assms(3)] obtain u v where
    "check_transfer_spend P T C L t root u = (Inr (), s')" "check_transfer_spend P T' C' L' t' root v = (Inr (), r')" by blast
  from spends_agree [OF assms(1) this assms(4-10)] show ?thesis .
qed

theorem one_spend_per_root_witness:
  "\<exists>s'. verify_transfer_history 0 TP TL history_config no_recovery history_network first_transfer JNull JNull new_verifier
      = Some (Inr history_root, s') \<and> expected_transfer_hash TP first_transfer = expected_transfer_hash TP first_transfer"
proof -
  from sample_history obtain s' where h: "verify_transfer_history 0 TP TL history_config no_recovery history_network first_transfer
      JNull JNull new_verifier = Some (Inr history_root, s')" by blast
  from history_slot obtain k ms where e: "spend_key_for_transfer TP first_transfer = Inr k"
    "slot_evidence TP history_network k history_root = Inr ([sample_claim], ms)" by blast
  have wf: "\<forall>c \<in> set [sample_claim]. json_wf (claim_json c)" using sample_claim_fits by (simp add: json_fits_def)
  from one_spend_per_root [OF toy_hash_ok h h e(1,1,2,2) same_lists_collide_not wf wf] h show ?thesis by blast
qed

text \<open>
  C39: an honest log is accepted: when every mirror answers with one root that is the only one the store has seen, in
  time, and the operator proves the transfer's entry and its spend under that root, the history verifies and the log
  is active afterwards.
\<close>

theorem honest_log_accepted:
  assumes "honest_root P T C r" and "sees_only r (vf_store s)"
    and "\<forall>(k, f) \<in> set (ln_root_at L). f (tr_timestamp t) = Inr r" "ln_root_at L \<noteq> []" "vc_min_mirrors C \<le> int (length (ln_root_at L))"
    and "tr_timestamp t \<le> root_time r" "within_lag C (tr_timestamp t) r" and "honest_operator P T (ln_operator L) t r"
  shows "\<exists>s'. verify_transfer_history d P T C R L t ws mh s = Some (Inr r, s') \<and> settled P r (vf_store s')"
  by (rule honest_history [OF assms])

theorem honest_log_accepted_witness:
  "\<exists>s'. verify_transfer_history 3 TP TL history_config no_recovery history_network first_transfer JNull JNull new_verifier
     = Some (Inr history_root, s') \<and> settled TP history_root (vf_store s')"
  by (rule honest_log_accepted [OF history_root_honest])
    (use history_operator_honest in \<open>simp_all add: history_network_def history_config_def new_verifier_def first_transfer_rest
      history_mirror_answers within_lag_def history_root_values\<close>)


end
